(* ===== verification/Prelude.thy ===== *)
theory Prelude
  imports Main "HOL-Library.Word" "HOL-Library.Char_ord" "HOL-Library.Sublist"
begin

text \<open>
  The vocabulary the component theories share: bytes and text, machine integers with Rust's
  checked arithmetic, results (\<open>error + value\<close>) with their sequencing, the character classes,
  decimal and hexadecimal text, and splitting of text.

  A byte is a \<^typ>\<open>char\<close> (HOL's \<^typ>\<open>char\<close> has exactly 256 values), so a Rust \<open>&str\<close> is the
  list of its UTF-8 bytes and \<open>len()\<close> is \<^const>\<open>length\<close>. Functions of the source that look at
  Unicode scalar values (\<open>chars()\<close>) go through \<open>utf8_chars\<close>.
\<close>

section \<open>Types and collections\<close>

type_synonym byte = char
type_synonym bytes = "char list"
type_synonym u8 = "8 word"
type_synonym u32 = "32 word"
type_synonym u64 = "64 word"

named_theorems res_simps \<open>unfolding of result sequencing\<close>
named_theorems codec_simps \<open>encode/decode equations\<close>
named_theorems ascii_defs \<open>definitions of the character classes\<close>

abbreviation ord :: "byte \<Rightarrow> nat" where
  "ord c \<equiv> of_char c"

section \<open>Results\<close>

text \<open>Rust's \<open>?\<close>: the first error ends the computation.\<close>

fun bind_res :: "'e + 'a \<Rightarrow> ('a \<Rightarrow> 'e + 'b) \<Rightarrow> 'e + 'b" where
  "bind_res (Inl e) f = Inl e"
| "bind_res (Inr x) f = f x"

definition ensure :: "bool \<Rightarrow> 'e \<Rightarrow> 'e + unit" where
  "ensure c e = (if c then Inr () else Inl e)"

fun map_err :: "('e \<Rightarrow> 'f) \<Rightarrow> 'e + 'a \<Rightarrow> 'f + 'a" where
  "map_err f (Inl e) = Inl (f e)"
| "map_err f (Inr x) = Inr x"

definition ok_or :: "'e \<Rightarrow> 'a option \<Rightarrow> 'e + 'a" where
  "ok_or e x = (case x of None \<Rightarrow> Inl e | Some v \<Rightarrow> Inr v)"

text \<open>A \<open>for\<close> loop whose body may return early.\<close>

fun for_each :: "('a \<Rightarrow> 'e + unit) \<Rightarrow> 'a list \<Rightarrow> 'e + unit" where
  "for_each f [] = Inr ()"
| "for_each f (x # xs) = (case f x of Inl e \<Rightarrow> Inl e | Inr _ \<Rightarrow> for_each f xs)"

definition is_ok :: "'e + 'a \<Rightarrow> bool" where
  "is_ok r = (case r of Inl _ \<Rightarrow> False | Inr _ \<Rightarrow> True)"

lemma bind_res_Inr [simp]: "bind_res m f = Inr y \<longleftrightarrow> (\<exists>x. m = Inr x \<and> f x = Inr y)"
  by (cases m) auto

lemma bind_res_Inl: "bind_res m f = Inl e \<longleftrightarrow> m = Inl e \<or> (\<exists>x. m = Inr x \<and> f x = Inl e)"
  by (cases m) auto

lemma ensure_Inr [simp]: "ensure c e = Inr u \<longleftrightarrow> c"
  by (simp add: ensure_def)

lemma ensure_Inl [simp]: "ensure c e = Inl e' \<longleftrightarrow> \<not> c \<and> e' = e"
  by (auto simp: ensure_def)

lemma ensure_simps [simp, res_simps]: "c \<Longrightarrow> ensure c e = Inr ()" "\<not> c \<Longrightarrow> ensure c e = Inl e"
  by (simp_all add: ensure_def)

lemma map_err_Inr [simp]: "map_err f r = Inr x \<longleftrightarrow> r = Inr x"
  by (cases r) auto

lemma map_err_Inl: "map_err f r = Inl e \<longleftrightarrow> (\<exists>e'. r = Inl e' \<and> e = f e')"
  by (cases r) auto

lemma ok_or_Inr [simp]: "ok_or e x = Inr v \<longleftrightarrow> x = Some v"
  by (simp add: ok_or_def split: option.splits)

lemma ok_or_Inl [simp]: "ok_or e x = Inl e' \<longleftrightarrow> x = None \<and> e' = e"
  by (auto simp: ok_or_def split: option.splits)

lemma ok_or_simps [simp, res_simps]: "ok_or e None = Inl e" "ok_or e (Some v) = Inr v"
  by (simp_all add: ok_or_def)

lemma for_each_Inr [simp]: "for_each f xs = Inr u \<longleftrightarrow> (\<forall>x \<in> set xs. f x = Inr ())"
  by (induction xs) (auto split: sum.splits)

lemma for_each_append:
  "for_each f (xs @ ys) = bind_res (for_each f xs) (\<lambda>_. for_each f ys)"
  by (induction xs) (auto split: sum.splits)

lemma for_each_first_error:
  "\<forall>y \<in> set ys. f y = Inr () \<Longrightarrow> f x = Inl e \<Longrightarrow> for_each f (ys @ x # zs) = Inl e"
  by (induction ys) auto

lemma for_each_InlD:
  "for_each f xs = Inl e \<Longrightarrow>
     \<exists>ys x zs. xs = ys @ x # zs \<and> (\<forall>y \<in> set ys. f y = Inr ()) \<and> f x = Inl e"
proof (induction xs)
  case Nil
  then show ?case by simp
next
  case (Cons a xs)
  show ?case
  proof (cases "f a")
    case (Inl e')
    with Cons.prems show ?thesis by (intro exI [of _ "[]"]) simp
  next
    case (Inr u)
    with Cons obtain ys x zs
      where "xs = ys @ x # zs" "\<forall>y \<in> set ys. f y = Inr ()" "f x = Inl e" by auto
    with Inr show ?thesis by (intro exI [of _ "a # ys"]) simp
  qed
qed

lemma for_each_Inl:
  "for_each f xs = Inl e \<longleftrightarrow>
     (\<exists>ys x zs. xs = ys @ x # zs \<and> (\<forall>y \<in> set ys. f y = Inr ()) \<and> f x = Inl e)"
proof
  assume "\<exists>ys x zs. xs = ys @ x # zs \<and> (\<forall>y \<in> set ys. f y = Inr ()) \<and> f x = Inl e"
  then obtain ys x zs where "xs = ys @ x # zs" "\<forall>y \<in> set ys. f y = Inr ()" "f x = Inl e" by blast
  then show "for_each f xs = Inl e" using for_each_first_error [of ys f x e zs] by simp
qed (rule for_each_InlD)

lemma case_sum_Inr:
  "(case r of Inl e \<Rightarrow> Inl (f e) | Inr x \<Rightarrow> g x) = Inr y \<longleftrightarrow> (\<exists>x. r = Inr x \<and> g x = Inr y)"
  by (cases r) auto

lemma is_ok_simps [simp]: "is_ok (Inl e) = False" "is_ok (Inr x) = True"
  by (simp_all add: is_ok_def)

lemma is_ok_iff: "is_ok r \<longleftrightarrow> (\<exists>x. r = Inr x)"
  by (cases r) auto

section \<open>Encoders and decoders\<close>

text \<open>
  The contract every encoder of the program keeps: on the values it can represent, decoding an
  encoding gives the value back. What follows from it alone is proved once here.
\<close>

locale codec =
  fixes encode :: "'a \<Rightarrow> bytes"
    and decode :: "bytes \<Rightarrow> 'a option"
    and valid :: "'a \<Rightarrow> bool"
  assumes decode_encode: "valid x \<Longrightarrow> decode (encode x) = Some x"
begin

lemma encode_inj: "valid x \<Longrightarrow> valid y \<Longrightarrow> encode x = encode y \<Longrightarrow> x = y"
  by (metis decode_encode option.inject)

lemma encode_inj_on: "inj_on encode {x. valid x}"
  by (rule inj_onI) (auto intro: encode_inj)

lemma undecodable_not_encoded: "decode s = None \<Longrightarrow> valid x \<Longrightarrow> encode x \<noteq> s"
  by (auto dest: decode_encode)

end

text \<open>A canonical codec accepts nothing but encodings, so decoding is injective as well.\<close>

locale canonical_codec = codec +
  assumes decode_valid: "decode s = Some x \<Longrightarrow> valid x"
    and encode_decode: "decode s = Some x \<Longrightarrow> encode x = s"
begin

lemma decode_iff: "decode s = Some x \<longleftrightarrow> valid x \<and> s = encode x"
  using decode_encode decode_valid encode_decode by blast

lemma decode_inj: "decode s = Some x \<Longrightarrow> decode t = Some x \<Longrightarrow> s = t"
  by (auto simp: decode_iff)

end

section \<open>Machine integers\<close>

definition u64_max :: nat where
  "u64_max = 2 ^ 64 - 1"

definition checked_add :: "u64 \<Rightarrow> u64 \<Rightarrow> u64 option" where
  "checked_add a b = (if unat a + unat b < 2 ^ 64 then Some (a + b) else None)"

definition checked_sub :: "u64 \<Rightarrow> u64 \<Rightarrow> u64 option" where
  "checked_sub a b = (if unat b \<le> unat a then Some (a - b) else None)"

definition checked_mul :: "u64 \<Rightarrow> u64 \<Rightarrow> u64 option" where
  "checked_mul a b = (if unat a * unat b < 2 ^ 64 then Some (a * b) else None)"

definition saturating_sub :: "u64 \<Rightarrow> u64 \<Rightarrow> u64" where
  "saturating_sub a b = (if unat b \<le> unat a then a - b else 0)"

definition saturating_add :: "u64 \<Rightarrow> u64 \<Rightarrow> u64" where
  "saturating_add a b = (if unat a + unat b < 2 ^ 64 then a + b else - 1)"

definition u64_of :: "nat \<Rightarrow> u64" where
  "u64_of n = word_of_nat n"

text \<open>\<open>u32::try_from\<close> of a \<open>u64\<close>.\<close>

definition u32_try_from :: "u64 \<Rightarrow> u32 option" where
  "u32_try_from w = (if unat w < 2 ^ 32 then Some (word_of_nat (unat w)) else None)"

lemma unat_u64_bound [simp]: "unat (w :: u64) < 18446744073709551616"
  using unsigned_less [of w, where ?'a = nat] by simp

lemma u64_less_Suc: "m < m + 1" if "m \<noteq> - 1" for m :: u64
proof -
  have "unat m \<noteq> unat (- 1 :: u64)" using that by (simp only: word_unat_eq_iff not_False_eq_True)
  moreover have "unat (- 1 :: u64) = 18446744073709551615"
    by (simp add: unsigned_minus_1_eq_mask mask_eq_exp_minus_1)
  ultimately have "unat m + 1 < 18446744073709551616"
    using unat_u64_bound [of m] by linarith
  then show ?thesis by (simp add: word_less_nat_alt unat_word_ariths)
qed

lemma unat_u64_of [simp]: "n < 2 ^ 64 \<Longrightarrow> unat (u64_of n) = n"
  by (simp add: u64_of_def unat_of_nat take_bit_eq_mod)

lemma u64_of_unat [simp]: "u64_of (unat w) = w"
  by (simp add: u64_of_def)

lemma checked_add_Some:
  "checked_add a b = Some c \<longleftrightarrow> unat a + unat b < 2 ^ 64 \<and> unat c = unat a + unat b"
  by (auto simp: checked_add_def unat_word_ariths word_unat_eq_iff)

lemma checked_add_None: "checked_add a b = None \<longleftrightarrow> 2 ^ 64 \<le> unat a + unat b"
  by (auto simp: checked_add_def)

lemma checked_sub_Some:
  "checked_sub a b = Some c \<longleftrightarrow> unat b \<le> unat a \<and> unat c = unat a - unat b"
  by (auto simp: checked_sub_def unat_sub_if' word_unat_eq_iff)

lemma checked_mul_Some:
  "checked_mul a b = Some c \<longleftrightarrow> unat a * unat b < 2 ^ 64 \<and> unat c = unat a * unat b"
  by (auto simp: checked_mul_def unat_word_ariths word_unat_eq_iff)

lemma unat_saturating_sub [simp]: "unat (saturating_sub a b) = unat a - unat b"
  by (simp add: saturating_sub_def unat_sub_if')

lemma u32_try_from_Some:
  "u32_try_from w = Some v \<longleftrightarrow> unat v = unat w"
proof -
  have "unat v < 2 ^ 32" using unsigned_less [of v, where ?'a = nat] by simp
  then show ?thesis
    by (auto simp: u32_try_from_def unsigned_ucast_eq take_bit_eq_mod word_unat_eq_iff)
qed

end
