(* ===== verification/Rust_Text.thy ===== *)
theory Rust_Text
  imports Prelude
begin

text \<open>
  The operations of Rust's \<open>u8\<close>, \<open>str\<close> and \<open>u64\<close> text conversions that the components call:
  ASCII classes, \<open>split\<close>, \<open>split_once\<close>, \<open>rfind\<close>, \<open>strip_prefix\<close>, \<open>replace\<close>, \<open>chars\<close>,
  decimal \<open>to_string\<close> and \<open>parse\<close>, and lowercase hexadecimal. They are the standard library's,
  written over byte lists, with the lemmas the component proofs use.
\<close>

section \<open>ASCII classes\<close>

definition is_ascii_digit :: "byte \<Rightarrow> bool" where
  [ascii_defs]: "is_ascii_digit c \<longleftrightarrow> 48 \<le> ord c \<and> ord c \<le> 57"

definition is_ascii_lowercase :: "byte \<Rightarrow> bool" where
  [ascii_defs]: "is_ascii_lowercase c \<longleftrightarrow> 97 \<le> ord c \<and> ord c \<le> 122"

definition is_ascii_uppercase :: "byte \<Rightarrow> bool" where
  [ascii_defs]: "is_ascii_uppercase c \<longleftrightarrow> 65 \<le> ord c \<and> ord c \<le> 90"

definition is_ascii_alphanumeric :: "byte \<Rightarrow> bool" where
  [ascii_defs]: "is_ascii_alphanumeric c \<longleftrightarrow>
     is_ascii_digit c \<or> is_ascii_lowercase c \<or> is_ascii_uppercase c"

definition is_ascii_hexdigit :: "byte \<Rightarrow> bool" where
  [ascii_defs]: "is_ascii_hexdigit c \<longleftrightarrow>
     is_ascii_digit c \<or> (97 \<le> ord c \<and> ord c \<le> 102) \<or> (65 \<le> ord c \<and> ord c \<le> 70)"

text \<open>\<open>u8::is_ascii_whitespace\<close>: space, tab, line feed, form feed, carriage return.\<close>

definition is_ascii_whitespace :: "byte \<Rightarrow> bool" where
  [ascii_defs]: "is_ascii_whitespace c \<longleftrightarrow> ord c \<in> {32, 9, 10, 12, 13}"

text \<open>The pattern \<open>b'0'..=b'9' | b'a'..=b'f'\<close> the program matches hexadecimal text with.\<close>

definition is_lower_hex_byte :: "byte \<Rightarrow> bool" where
  [ascii_defs]: "is_lower_hex_byte c \<longleftrightarrow> is_ascii_digit c \<or> (97 \<le> ord c \<and> ord c \<le> 102)"

definition to_ascii_lowercase :: "byte \<Rightarrow> byte" where
  "to_ascii_lowercase c = (if is_ascii_uppercase c then char_of (ord c + 32) else c)"

definition eq_ignore_ascii_case :: "bytes \<Rightarrow> bytes \<Rightarrow> bool" where
  "eq_ignore_ascii_case a b \<longleftrightarrow> map to_ascii_lowercase a = map to_ascii_lowercase b"

lemma ord_less [simp]: "ord c < 256"
  by (rule nat_of_char_less_256)

lemma ord_eq_iff: "ord c = ord d \<longleftrightarrow> c = d"
  by simp

section \<open>Searching and splitting\<close>

fun strip_prefix :: "bytes \<Rightarrow> bytes \<Rightarrow> bytes option" where
  "strip_prefix [] s = Some s"
| "strip_prefix (p # ps) [] = None"
| "strip_prefix (p # ps) (c # cs) = (if p = c then strip_prefix ps cs else None)"

definition starts_with :: "bytes \<Rightarrow> bytes \<Rightarrow> bool" where
  "starts_with p s \<longleftrightarrow> strip_prefix p s \<noteq> None"

fun split_once :: "byte \<Rightarrow> bytes \<Rightarrow> (bytes \<times> bytes) option" where
  "split_once d [] = None"
| "split_once d (c # cs) =
     (if c = d then Some ([], cs)
      else case split_once d cs of None \<Rightarrow> None | Some (a, b) \<Rightarrow> Some (c # a, b))"

fun split :: "byte \<Rightarrow> bytes \<Rightarrow> bytes list" where
  "split d [] = [[]]"
| "split d (c # cs) =
     (if c = d then [] # split d cs
      else case split d cs of [] \<Rightarrow> [[c]] | x # xs \<Rightarrow> (c # x) # xs)"

fun join :: "byte \<Rightarrow> bytes list \<Rightarrow> bytes" where
  "join d [] = []"
| "join d [x] = x"
| "join d (x # y # zs) = x @ d # join d (y # zs)"

text \<open>\<open>find\<close> and \<open>rfind\<close>: the first and the last index of a byte.\<close>

fun find_byte :: "byte \<Rightarrow> bytes \<Rightarrow> nat option" where
  "find_byte d [] = None"
| "find_byte d (c # cs) = (if c = d then Some 0 else map_option Suc (find_byte d cs))"

fun rfind_byte :: "byte \<Rightarrow> bytes \<Rightarrow> nat option" where
  "rfind_byte d [] = None"
| "rfind_byte d (c # cs) =
     (case rfind_byte d cs of Some i \<Rightarrow> Some (Suc i) | None \<Rightarrow> if c = d then Some 0 else None)"

text \<open>\<open>replace\<close> of one character by a text.\<close>

definition replace_byte :: "byte \<Rightarrow> bytes \<Rightarrow> bytes \<Rightarrow> bytes" where
  "replace_byte d r s = concat (map (\<lambda>c. if c = d then r else [c]) s)"

lemma strip_prefix_Some: "strip_prefix p s = Some r \<longleftrightarrow> s = p @ r"
  by (induction p s rule: strip_prefix.induct) auto

lemma strip_prefix_append [simp]: "strip_prefix p (p @ r) = Some r"
  by (simp add: strip_prefix_Some)

lemma strip_prefix_None: "strip_prefix p s = None \<longleftrightarrow> (\<forall>r. s \<noteq> p @ r)"
  by (metis not_None_eq strip_prefix_Some)

lemma split_once_append: "d \<notin> set a \<Longrightarrow> split_once d (a @ d # b) = Some (a, b)"
  by (induction a) auto

lemma split_onceD: "split_once d s = Some (a, b) \<Longrightarrow> s = a @ d # b \<and> d \<notin> set a"
  by (induction s arbitrary: a b) (auto split: if_splits option.splits)

lemma split_once_Some: "split_once d s = Some (a, b) \<longleftrightarrow> s = a @ d # b \<and> d \<notin> set a"
  using split_onceD split_once_append by metis

lemma separated_cancel:
  fixes c :: byte
  assumes "c \<notin> set a" "c \<notin> set a'"
  shows "a @ c # b = a' @ c # b' \<longleftrightarrow> a = a' \<and> b = b'"
proof
  assume "a @ c # b = a' @ c # b'"
  then have "split_once c (a @ c # b) = split_once c (a' @ c # b')" by (rule arg_cong)
  then show "a = a' \<and> b = b'"
    by (simp only: split_once_append [OF assms(1)] split_once_append [OF assms(2)] option.inject prod.inject)
qed simp

lemma split_once_None: "split_once d s = None \<longleftrightarrow> d \<notin> set s"
  by (induction s) (auto split: option.splits)

lemma split_nonempty [simp]: "split d s \<noteq> []"
  by (induction s) (auto split: list.splits)

lemma split_no_sep: "d \<notin> set s \<Longrightarrow> split d s = [s]"
  by (induction s) auto

lemma split_pieces: "x \<in> set (split d s) \<Longrightarrow> d \<notin> set x"
  by (induction s arbitrary: x) (auto split: list.splits if_splits)

lemma split_cover: "c \<in> set s \<Longrightarrow> c \<noteq> d \<Longrightarrow> \<exists>x \<in> set (split d s). c \<in> set x"
  by (induction s) (auto split: list.splits)

lemma split_append: "d \<notin> set a \<Longrightarrow> split d (a @ d # b) = a # split d b"
  by (induction a) (auto split: list.splits)

lemma join_split [simp]: "join d (split d s) = s"
proof (induction s)
  case Nil
  then show ?case by simp
next
  case (Cons c cs)
  show ?case
  proof (cases "split d cs")
    case Nil
    then show ?thesis by simp
  next
    case (Cons x xs)
    with Cons.IH show ?thesis by (cases xs) auto
  qed
qed

lemma split_join:
  "xs \<noteq> [] \<Longrightarrow> \<forall>x \<in> set xs. d \<notin> set x \<Longrightarrow> split d (join d xs) = xs"
  by (induction d xs rule: join.induct) (auto simp: split_no_sep split_append)

lemma rfind_byte_None: "rfind_byte d s = None \<longleftrightarrow> d \<notin> set s"
  by (induction s) (auto split: option.splits)

lemma rfind_byte_append: "d \<notin> set b \<Longrightarrow> rfind_byte d (a @ d # b) = Some (length a)"
  by (induction a) (simp_all add: rfind_byte_None [THEN iffD2])

lemma rfind_byteD:
  "rfind_byte d s = Some i \<Longrightarrow> \<exists>a b. s = a @ d # b \<and> d \<notin> set b \<and> length a = i"
proof (induction s arbitrary: i)
  case Nil
  then show ?case by simp
next
  case (Cons c cs)
  show ?case
  proof (cases "rfind_byte d cs")
    case None
    with Cons.prems have "c = d" "i = 0" "d \<notin> set cs"
      by (simp_all add: rfind_byte_None split: if_splits)
    then show ?thesis by (intro exI [of _ "[]"] exI [of _ cs]) simp
  next
    case (Some j)
    with Cons obtain a b where "cs = a @ d # b" "d \<notin> set b" "length a = j" "i = Suc j"
      by auto
    then show ?thesis by (intro exI [of _ "c # a"] exI [of _ b]) simp
  qed
qed

lemma rfind_byte_Some:
  "rfind_byte d s = Some i \<longleftrightarrow> (\<exists>a b. s = a @ d # b \<and> d \<notin> set b \<and> length a = i)"
  using rfind_byteD rfind_byte_append by metis

lemma replace_byte_simps [simp]:
  "replace_byte d r [] = []"
  "replace_byte d r (c # cs) = (if c = d then r else [c]) @ replace_byte d r cs"
  "replace_byte d r (s @ t) = replace_byte d r s @ replace_byte d r t"
  by (simp_all add: replace_byte_def)

section \<open>Decimal text\<close>

definition digit_char :: "nat \<Rightarrow> byte" where
  "digit_char d = char_of (48 + d)"

text \<open>\<open>u64::to_string\<close>.\<close>

fun dec :: "nat \<Rightarrow> bytes" where
  "dec n = (if n < 10 then [digit_char n] else dec (n div 10) @ [digit_char (n mod 10)])"

declare dec.simps [simp del]

definition dec_val :: "bytes \<Rightarrow> nat" where
  "dec_val s = foldl (\<lambda>a c. a * 10 + (ord c - 48)) 0 s"

definition to_string :: "u64 \<Rightarrow> bytes" where
  "to_string w = dec (unat w)"

text \<open>
  \<open>u64::from_str\<close>: an optional \<open>+\<close>, then at least one digit and nothing else, in range.
\<close>

definition parse_u64 :: "bytes \<Rightarrow> u64 option" where
  "parse_u64 s =
     (let ds = (case s of [] \<Rightarrow> [] | c # cs \<Rightarrow> if c = CHR ''+'' then cs else s)
      in if ds \<noteq> [] \<and> list_all is_ascii_digit ds \<and> dec_val ds < 2 ^ 64
         then Some (u64_of (dec_val ds)) else None)"

lemma ord_digit_char [simp]: "d < 10 \<Longrightarrow> ord (digit_char d) = 48 + d"
  by (simp add: digit_char_def of_char_of)

lemma digit_char_is_digit [simp]: "d < 10 \<Longrightarrow> is_ascii_digit (digit_char d)"
  by (simp add: is_ascii_digit_def)

lemma dec_val_Nil [simp]: "dec_val [] = 0"
  by (simp add: dec_val_def)

lemma dec_val_snoc [simp]: "dec_val (s @ [c]) = dec_val s * 10 + (ord c - 48)"
  by (simp add: dec_val_def)

lemma dec_val_dec [simp]: "dec_val (dec n) = n"
proof (induction n rule: dec.induct)
  case (1 n)
  show ?case
  proof (cases "n < 10")
    case True
    then show ?thesis using dec_val_snoc [of "[]" "digit_char n"] by (simp add: dec.simps [of n])
  next
    case False
    with "1.IH" show ?thesis by (subst dec.simps) simp
  qed
qed

lemma dec_nonempty [simp]: "dec n \<noteq> []"
  by (subst dec.simps) simp

lemma dec_digits [simp]: "list_all is_ascii_digit (dec n)"
proof (induction n rule: dec.induct)
  case (1 n)
  then show ?case by (subst dec.simps) auto
qed

lemma dec_inj [simp]: "dec m = dec n \<longleftrightarrow> m = n"
  by (metis dec_val_dec)

lemma dec_no_plus: "hd (dec n) \<noteq> CHR ''+''"
proof -
  have "is_ascii_digit (hd (dec n))"
    using dec_digits [of n] by (cases "dec n") auto
  then show ?thesis by (auto simp: is_ascii_digit_def)
qed

lemma not_in_dec: "\<not> is_ascii_digit c \<Longrightarrow> c \<notin> set (dec n)"
  using dec_digits [of n] by (auto simp: list_all_iff)

lemma parse_u64_to_string [simp, codec_simps]: "parse_u64 (to_string w) = Some w"
proof -
  have "(case dec (unat w) of [] \<Rightarrow> [] | c # cs \<Rightarrow> if c = CHR ''+'' then cs else dec (unat w))
        = dec (unat w)"
    using dec_no_plus [of "unat w"] by (cases "dec (unat w)") auto
  then show ?thesis by (simp add: parse_u64_def to_string_def)
qed

lemma to_string_inj [simp]: "to_string v = to_string w \<longleftrightarrow> v = w"
  by (simp add: to_string_def word_unat_eq_iff)

lemma dec_hd_zero: "hd (dec n) = CHR ''0'' \<Longrightarrow> n = 0"
proof (induction n rule: dec.induct)
  case (1 n)
  show ?case
  proof (cases "n < 10")
    case True
    with "1.prems" have "ord (digit_char n) = ord CHR ''0''" by (simp add: dec.simps [of n])
    with True show ?thesis by simp
  next
    case False
    with "1.prems" have "hd (dec (n div 10)) = CHR ''0''"
      by (simp add: dec.simps [of n])
    with "1.IH" False have "n div 10 = 0" by blast
    with False show ?thesis by simp
  qed
qed

lemma dec_val_bound: "list_all is_ascii_digit s \<Longrightarrow> dec_val s < 10 ^ length s"
proof (induction s rule: rev_induct)
  case Nil
  then show ?case by simp
next
  case (snoc c s)
  then have "dec_val s < 10 ^ length s" "ord c - 48 < 10"
    by (auto simp: is_ascii_digit_def)
  then show ?case by simp
qed

lemma dec_val_pos: "list_all is_ascii_digit s \<Longrightarrow> s \<noteq> [] \<Longrightarrow> hd s \<noteq> CHR ''0'' \<Longrightarrow> 0 < dec_val s"
proof (induction s rule: rev_induct)
  case Nil
  then show ?case by simp
next
  case (snoc c s)
  show ?case
  proof (cases "s = []")
    case True
    with snoc.prems have "ord c \<noteq> 48"
      using of_char_eq_iff [of c "CHR ''0''", where ?'a = nat] by auto
    moreover from snoc.prems have "48 \<le> ord c" by (simp add: is_ascii_digit_def)
    ultimately show ?thesis using True by (simp add: dec_val_def)
  next
    case False
    with snoc show ?thesis by simp
  qed
qed

text \<open>A digit string is the decimal text of its value exactly when it has no leading zero.\<close>

lemma dec_dec_val:
  "list_all is_ascii_digit s \<Longrightarrow> s \<noteq> [] \<Longrightarrow> hd s \<noteq> CHR ''0'' \<or> length s = 1 \<Longrightarrow> dec (dec_val s) = s"
proof (induction s rule: rev_induct)
  case Nil
  then show ?case by simp
next
  case (snoc c s)
  from snoc.prems have c: "48 \<le> ord c" "ord c \<le> 57" by (auto simp: is_ascii_digit_def)
  then have digit: "digit_char (ord c - 48) = c" by (simp add: digit_char_def)
  show ?case
  proof (cases "s = []")
    case True
    with c digit show ?thesis by (subst dec.simps) (simp add: dec_val_def)
  next
    case False
    with snoc.prems have hd: "hd s \<noteq> CHR ''0''" by auto
    with False snoc.prems have pos: "0 < dec_val s" by (intro dec_val_pos) auto
    let ?n = "dec_val s * 10 + (ord c - 48)"
    from c have "ord c - 48 < 10" by linarith
    then have "?n div 10 = dec_val s" "?n mod 10 = ord c - 48" by simp_all
    moreover from pos have "\<not> ?n < 10" by simp
    moreover from snoc False hd have "dec (dec_val s) = s" by simp
    ultimately have "dec ?n = s @ [c]"
      by (simp only: dec.simps [of ?n] if_False digit)
    then show ?thesis by simp
  qed
qed

section \<open>Unicode scalar values\<close>

text \<open>
  \<open>str::chars\<close> on the UTF-8 bytes of a \<open>&str\<close>. The lead byte says how many continuation bytes
  follow; a \<open>&str\<close> is valid UTF-8, so the last equation (a truncated sequence) is never reached
  from one.
\<close>

fun utf8_chars :: "bytes \<Rightarrow> nat list" where
  "utf8_chars [] = []"
| "utf8_chars (a # s) =
     (if ord a < 128 then ord a # utf8_chars s
      else if ord a < 224 then
        (case s of b # t \<Rightarrow> ((ord a mod 32) * 64 + ord b mod 64) # utf8_chars t | _ \<Rightarrow> [65533])
      else if ord a < 240 then
        (case s of b # c # t \<Rightarrow>
           ((ord a mod 16) * 4096 + (ord b mod 64) * 64 + ord c mod 64) # utf8_chars t
         | _ \<Rightarrow> [65533])
      else
        (case s of b # c # d # t \<Rightarrow>
           ((ord a mod 8) * 262144 + (ord b mod 64) * 4096 + (ord c mod 64) * 64 + ord d mod 64)
             # utf8_chars t
         | _ \<Rightarrow> [65533]))"

text \<open>\<open>char::is_control\<close> (general category Cc) and \<open>char::is_whitespace\<close> (White\_Space).\<close>

definition is_control :: "nat \<Rightarrow> bool" where
  "is_control c \<longleftrightarrow> c < 32 \<or> (127 \<le> c \<and> c \<le> 159)"

definition is_whitespace :: "nat \<Rightarrow> bool" where
  "is_whitespace c \<longleftrightarrow> (9 \<le> c \<and> c \<le> 13) \<or> c = 32 \<or> c = 133 \<or> c = 160 \<or> c = 5760 \<or>
     (8192 \<le> c \<and> c \<le> 8202) \<or> c = 8232 \<or> c = 8233 \<or> c = 8239 \<or> c = 8287 \<or> c = 12288"

definition has_control :: "bytes \<Rightarrow> bool" where
  "has_control s \<longleftrightarrow> list_ex is_control (utf8_chars s)"

text \<open>\<open>s.trim() == s\<close>: neither the first nor the last scalar value is white space.\<close>

definition is_trimmed :: "bytes \<Rightarrow> bool" where
  "is_trimmed s \<longleftrightarrow> (let cs = utf8_chars s in
     cs = [] \<or> (\<not> is_whitespace (hd cs) \<and> \<not> is_whitespace (last cs)))"

lemma utf8_chars_ascii: "list_all (\<lambda>c. ord c < 128) s \<Longrightarrow> utf8_chars s = map ord s"
  by (induction s) auto

lemma has_control_ascii:
  "list_all (\<lambda>c. 32 \<le> ord c \<and> ord c < 127) s \<Longrightarrow> \<not> has_control s"
proof -
  assume *: "list_all (\<lambda>c. 32 \<le> ord c \<and> ord c < 127) s"
  then have "utf8_chars s = map ord s"
    by (intro utf8_chars_ascii) (auto simp: list_all_iff)
  with * show ?thesis
    by (auto simp: has_control_def is_control_def list_ex_iff list_all_iff)
qed

end
