(* ===== verification/Hex_Text.thy ===== *)
theory Hex_Text
  imports Rust_Text
begin

text \<open>
  Lowercase hexadecimal: \<open>to_hex\<close> of \<open>src/payload.rs\<close> and the strict decoder of
  \<open>src/trust_set.rs\<close>, which admits no uppercase digit and no other length. Decoding is the
  exact inverse of encoding in both directions.
\<close>

definition hex_digit :: "nat \<Rightarrow> byte" where
  "hex_digit n = (if n < 10 then char_of (48 + n) else char_of (87 + n))"

definition to_hex :: "bytes \<Rightarrow> bytes" where
  "to_hex bs = concat (map (\<lambda>b. [hex_digit (ord b div 16), hex_digit (ord b mod 16)]) bs)"

definition hex_nibble :: "byte \<Rightarrow> nat option" where
  "hex_nibble c =
     (if 48 \<le> ord c \<and> ord c \<le> 57 then Some (ord c - 48)
      else if 97 \<le> ord c \<and> ord c \<le> 102 then Some (ord c - 97 + 10)
      else None)"

definition is_lowercase_hex :: "bytes \<Rightarrow> nat \<Rightarrow> bool" where
  "is_lowercase_hex value byte_len \<longleftrightarrow>
     length value = byte_len * 2 \<and> list_all (\<lambda>c. hex_nibble c \<noteq> None) value"

text \<open>The pairs of \<open>as_chunks::<2>()\<close>, combined by \<open>(high << 4) | low\<close>.\<close>

fun hex_pairs :: "bytes \<Rightarrow> bytes option" where
  "hex_pairs (h # l # rest) =
     (case (hex_nibble h, hex_nibble l) of
        (Some hi, Some lo) \<Rightarrow>
          map_option (Cons (char_of (Bit_Operations.or (push_bit 4 hi) lo))) (hex_pairs rest)
      | _ \<Rightarrow> None)"
| "hex_pairs _ = Some []"

definition decode_lowercase_hex :: "bytes \<Rightarrow> nat \<Rightarrow> bytes option" where
  "decode_lowercase_hex value byte_len =
     (if length value \<noteq> byte_len * 2 then None else hex_pairs value)"

section \<open>Digits\<close>

lemma hex_nibble_less: "hex_nibble c = Some n \<Longrightarrow> n < 16"
  by (auto simp: hex_nibble_def split: if_splits)

lemma hex_nibble_digit: "n < 16 \<Longrightarrow> hex_nibble (hex_digit n) = Some n"
  by (auto simp: hex_nibble_def hex_digit_def of_char_of)

lemma hex_digit_nibble: "hex_nibble c = Some n \<Longrightarrow> hex_digit n = c"
  by (auto simp: hex_nibble_def hex_digit_def split: if_splits)

lemma hex_nibble_iff_lower_hex: "hex_nibble c \<noteq> None \<longleftrightarrow> is_lower_hex_byte c"
  by (auto simp: hex_nibble_def ascii_defs split: if_splits)

lemma nibbles_or:
  assumes "lo < 16"
  shows "Bit_Operations.or (push_bit 4 hi) lo = hi * 16 + (lo :: nat)"
proof -
  have "Bit_Operations.and (push_bit 4 hi) (take_bit 4 lo) = 0"
    by (rule bit_eqI) (auto simp: bit_simps)
  moreover have "take_bit 4 lo = lo"
    using assms by (simp add: take_bit_nat_eq_self)
  ultimately have "Bit_Operations.and (push_bit 4 hi) lo = 0" by simp
  then show ?thesis
    by (simp add: disjunctive_add_eq_or [symmetric] push_bit_eq_mult mult.commute)
qed

section \<open>Encoding and decoding\<close>

lemma to_hex_simps [simp]:
  "to_hex [] = []"
  "to_hex (b # bs) = hex_digit (ord b div 16) # hex_digit (ord b mod 16) # to_hex bs"
  by (simp_all add: to_hex_def)

lemma length_to_hex [simp]: "length (to_hex bs) = 2 * length bs"
  by (induction bs) auto

lemma to_hex_lower: "c \<in> set (to_hex bs) \<Longrightarrow> hex_nibble c \<noteq> None"
proof (induction bs)
  case Nil
  then show ?case by simp
next
  case (Cons b bs)
  have "ord b div 16 < 16" using ord_less [of b] by linarith
  then have "hex_nibble (hex_digit (ord b div 16)) \<noteq> None"
    "hex_nibble (hex_digit (ord b mod 16)) \<noteq> None" by (simp_all add: hex_nibble_digit)
  with Cons show ?case by auto
qed

lemma hex_pairs_to_hex: "hex_pairs (to_hex bs) = Some bs"
proof (induction bs)
  case Nil
  then show ?case by simp
next
  case (Cons b bs)
  have "ord b div 16 < 16" using ord_less [of b] by linarith
  then show ?case
    using Cons by (simp add: hex_nibble_digit nibbles_or)
qed

lemma to_hex_hex_pairs: "hex_pairs s = Some bs \<Longrightarrow> even (length s) \<Longrightarrow> to_hex bs = s"
proof (induction s arbitrary: bs rule: hex_pairs.induct)
  case (1 h l rest)
  then obtain hi lo bs' where n: "hex_nibble h = Some hi" "hex_nibble l = Some lo"
    and bs: "hex_pairs rest = Some bs'" "bs = char_of (hi * 16 + lo) # bs'"
    by (auto simp: nibbles_or dest: hex_nibble_less split: option.splits)
  from n have less: "hi < 16" "lo < 16" by (auto dest: hex_nibble_less)
  then have o: "ord (char_of (hi * 16 + lo) :: char) = hi * 16 + lo"
    by (simp add: of_char_of)
  from less o have "ord (char_of (hi * 16 + lo) :: char) div 16 = hi"
    "ord (char_of (hi * 16 + lo) :: char) mod 16 = lo" by simp_all
  with 1 n bs show ?case by (simp add: hex_digit_nibble)
qed auto

lemma hex_pairs_defined: "list_all (\<lambda>c. hex_nibble c \<noteq> None) s \<Longrightarrow> hex_pairs s \<noteq> None"
  by (induction s rule: hex_pairs.induct) auto

lemma hex_pairs_length: "hex_pairs s = Some bs \<Longrightarrow> length bs = length s div 2"
  by (induction s arbitrary: bs rule: hex_pairs.induct) (auto split: option.splits)

text \<open>The strict decoder inverts \<^const>\<open>to_hex\<close> and accepts nothing else.\<close>

lemma decode_lowercase_hex_Some:
  "decode_lowercase_hex s n = Some bs \<longleftrightarrow> length bs = n \<and> s = to_hex bs"
proof
  assume *: "decode_lowercase_hex s n = Some bs"
  then have len: "length s = n * 2" and p: "hex_pairs s = Some bs"
    by (auto simp: decode_lowercase_hex_def split: if_splits)
  from len p have "s = to_hex bs" by (metis even_mult_iff even_numeral to_hex_hex_pairs)
  moreover from hex_pairs_length [OF p] len have "length bs = n" by simp
  ultimately show "length bs = n \<and> s = to_hex bs" by simp
qed (simp add: decode_lowercase_hex_def hex_pairs_to_hex mult.commute)

lemma is_lowercase_hex_iff: "is_lowercase_hex s n \<longleftrightarrow> decode_lowercase_hex s n \<noteq> None"
proof
  assume "is_lowercase_hex s n"
  then show "decode_lowercase_hex s n \<noteq> None"
    by (simp add: is_lowercase_hex_def decode_lowercase_hex_def hex_pairs_defined)
next
  assume "decode_lowercase_hex s n \<noteq> None"
  then obtain bs where "length bs = n" "s = to_hex bs"
    by (auto simp: decode_lowercase_hex_Some)
  then show "is_lowercase_hex s n"
    using to_hex_lower by (auto simp: is_lowercase_hex_def list_all_iff mult.commute)
qed

interpretation hex32: canonical_codec to_hex "\<lambda>s. decode_lowercase_hex s 32" "\<lambda>bs. length bs = 32"
  by unfold_locales (auto simp: decode_lowercase_hex_Some)

end
