(* ===== verification/Container.thy ===== *)
theory Container
  imports Hex_Text
begin

text \<open>
  The container format of \<open>src/payload.rs\<close>: a base (possibly empty), a raw manifest block, an
  archive block, an optional signature envelope of four blocks, and a fixed footer that ends the
  file. The reader finds the footer from the end of the file, refuses retired and unknown versions,
  checks that the blocks tile the bytes before the footer, and reads the blocks; the writer
  computes the offsets with checked arithmetic and appends the envelope and the footer. A source
  (\<open>Read + Seek\<close>) is its bytes: seeking and reading are slicing, and a read past the end is the
  \<open>UnexpectedEof\<close> error. \<open>usize\<close> is 64 bits wide.

  \<open>payload_error\<close> has the manifest error as a type parameter, so that this theory does not depend
  on the manifest's.
\<close>

section \<open>Constants and data\<close>

definition MAGIC :: bytes where "MAGIC = ''BTLRPYLD''"
definition FORMAT_VERSION :: byte where "FORMAT_VERSION = CHR 0x03"
definition FOOTER_SIZE_V1 :: nat where "FOOTER_SIZE_V1 = 8 + 1 + 4 * 8"
definition FOOTER_SIZE_V2 :: nat where "FOOTER_SIZE_V2 = 8 + 1 + 8 * 8"
definition FOOTER_SIZE_V3 :: nat where "FOOTER_SIZE_V3 = 8 + 1 + 12 * 8"
definition FOOTER_SIZE :: nat where "FOOTER_SIZE = FOOTER_SIZE_V3"

record footer_size =
  fs_bytes :: nat
  fs_version :: byte

definition KNOWN_FOOTER_SIZES :: "footer_size list" where
  "KNOWN_FOOTER_SIZES =
     [\<lparr>fs_bytes = FOOTER_SIZE_V1, fs_version = CHR 0x01\<rparr>,
      \<lparr>fs_bytes = FOOTER_SIZE_V2, fs_version = CHR 0x02\<rparr>,
      \<lparr>fs_bytes = FOOTER_SIZE_V3, fs_version = FORMAT_VERSION\<rparr>]"

definition SUPPORTED_CONTAINER_VERSIONS :: "byte list" where
  "SUPPORTED_CONTAINER_VERSIONS = [FORMAT_VERSION]"

definition ED25519_SIGNATURE_LEN :: nat where "ED25519_SIGNATURE_LEN = 64"
definition ML_DSA_87_SIGNATURE_LEN :: nat where "ML_DSA_87_SIGNATURE_LEN = 4627"
definition KEY_ID_HEX_LEN :: nat where "KEY_ID_HEX_LEN = 64"

datatype signature_algorithm = Ed25519 | MlDsa87

definition signature_len :: "signature_algorithm \<Rightarrow> nat" where
  "signature_len a = (case a of Ed25519 \<Rightarrow> ED25519_SIGNATURE_LEN | MlDsa87 \<Rightarrow> ML_DSA_87_SIGNATURE_LEN)"

text \<open>A member the manifest binds: a name and a length (\<open>ArchiveMember\<close>).\<close>

record archive_member =
  am_name :: bytes
  am_length :: u64

datatype 'm payload_error =
    PE_Io
  | PE_ManifestSerialize
  | PE_Signer
  | PE_InvalidSignatureLength signature_algorithm nat
  | PE_InvalidKeyId signature_algorithm
  | PE_InvalidManifest 'm
  | PE_UnsupportedContainerFormat byte
  | PE_TruncatedTrailer
  | PE_MalformedFooter string
  | PE_ManifestParse
  | PE_HashMismatch bytes
  | PE_UnsafeMemberPath bytes
  | PE_UnsupportedEntryType bytes
  | PE_NameOverridingHeader bytes bytes
  | PE_SizeOverridingHeader bytes u64 u64
  | PE_ArchivePathTooLong bytes nat
  | PE_TrailingArchiveBytes
  | PE_MemberNotInManifest bytes
  | PE_ArtifactMissingFromArchive bytes
  | PE_DuplicateMember bytes
  | PE_MemberListMismatch nat "archive_member option" "archive_member option"
  | PE_NoTrailer

record detached_signature =
  ds_signature :: bytes
  ds_key_id :: bytes

record signed =
  sg_ed25519 :: detached_signature
  sg_ml_dsa_87 :: detached_signature

record footer =
  ft_version :: byte
  ft_manifest_offset :: u64
  ft_manifest_len :: u64
  ft_archive_offset :: u64
  ft_archive_len :: u64
  ft_signature_offset :: u64
  ft_signature_len :: u64
  ft_key_id_offset :: u64
  ft_key_id_len :: u64
  ft_ml_dsa_87_signature_offset :: u64
  ft_ml_dsa_87_signature_len :: u64
  ft_ml_dsa_87_key_id_offset :: u64
  ft_ml_dsa_87_key_id_len :: u64

definition FOOTER_FIELDS :: nat where "FOOTER_FIELDS = 12"

text \<open>\<open>Footer::from_fields\<close> takes an array of twelve; any other length has no value.\<close>

fun from_fields :: "byte \<Rightarrow> u64 list \<Rightarrow> footer option" where
  "from_fields v [mo, ml, ao, al, so, sl, ko, kl, mso, msl, mko, mkl] =
     Some \<lparr>ft_version = v, ft_manifest_offset = mo, ft_manifest_len = ml,
       ft_archive_offset = ao, ft_archive_len = al,
       ft_signature_offset = so, ft_signature_len = sl,
       ft_key_id_offset = ko, ft_key_id_len = kl,
       ft_ml_dsa_87_signature_offset = mso, ft_ml_dsa_87_signature_len = msl,
       ft_ml_dsa_87_key_id_offset = mko, ft_ml_dsa_87_key_id_len = mkl\<rparr>"
| "from_fields v _ = None"

definition footer_fields :: "footer \<Rightarrow> u64 list" where
  "footer_fields f =
     [ft_manifest_offset f, ft_manifest_len f, ft_archive_offset f, ft_archive_len f,
      ft_signature_offset f, ft_signature_len f, ft_key_id_offset f, ft_key_id_len f,
      ft_ml_dsa_87_signature_offset f, ft_ml_dsa_87_signature_len f,
      ft_ml_dsa_87_key_id_offset f, ft_ml_dsa_87_key_id_len f]"

section \<open>Little-endian fields\<close>

text \<open>\<open>u64::to_le_bytes\<close> and \<open>u64::from_le_bytes\<close>.\<close>

fun le_bytes :: "nat \<Rightarrow> nat \<Rightarrow> bytes" where
  "le_bytes 0 n = []"
| "le_bytes (Suc k) n = char_of n # le_bytes k (n div 256)"

fun le_val :: "bytes \<Rightarrow> nat" where
  "le_val [] = 0"
| "le_val (b # bs) = ord b + 256 * le_val bs"

definition to_le_bytes :: "u64 \<Rightarrow> bytes" where
  "to_le_bytes w = le_bytes 8 (unat w)"

definition from_le_bytes :: "bytes \<Rightarrow> u64" where
  "from_le_bytes bs = u64_of (le_val bs)"

lemma length_le_bytes [simp]: "length (le_bytes k n) = k"
  by (induction k arbitrary: n) auto

lemma length_to_le_bytes [simp]: "length (to_le_bytes w) = 8"
  by (simp add: to_le_bytes_def)

lemma le_val_le_bytes: "n < 256 ^ k \<Longrightarrow> le_val (le_bytes k n) = n"
proof (induction k arbitrary: n)
  case 0
  then show ?case by simp
next
  case (Suc k)
  then have "n div 256 < 256 ^ k" by (simp add: less_mult_imp_div_less mult.commute)
  with Suc.IH show ?case by (simp add: of_char_of)
qed

lemma le_val_bound: "le_val bs < 256 ^ length bs"
proof (induction bs)
  case Nil
  then show ?case by simp
next
  case (Cons b bs)
  with ord_less [of b] show ?case by (simp del: ord_less)
qed

lemma from_to_le_bytes [simp, codec_simps]: "from_le_bytes (to_le_bytes w) = w"
  by (simp add: from_le_bytes_def to_le_bytes_def le_val_le_bytes)

section \<open>The footer\<close>

text \<open>A retired layout writes the first four or eight fields, version 3 all of them.\<close>

definition footer_encode :: "footer \<Rightarrow> bytes" where
  "footer_encode f =
     (let recorded = (if ft_version f = CHR 0x01 then 4
                      else if ft_version f = CHR 0x02 then 8 else FOOTER_FIELDS)
      in MAGIC @ [ft_version f] @ concat (map to_le_bytes (take recorded (footer_fields f))))"

definition envelope_pairs :: "footer \<Rightarrow> (u64 \<times> u64 \<times> string) list" where
  "envelope_pairs f =
     [(ft_signature_offset f, ft_signature_len f,
        ''Ed25519 signature pair is half-zero: neither present nor absent''),
      (ft_key_id_offset f, ft_key_id_len f,
        ''Ed25519 key_id pair is half-zero: neither present nor absent''),
      (ft_ml_dsa_87_signature_offset f, ft_ml_dsa_87_signature_len f,
        ''ML-DSA-87 signature pair is half-zero: neither present nor absent''),
      (ft_ml_dsa_87_key_id_offset f, ft_ml_dsa_87_key_id_len f,
        ''ML-DSA-87 key_id pair is half-zero: neither present nor absent'')]"

definition is_absent_pair :: "u64 \<Rightarrow> u64 \<Rightarrow> bool" where
  "is_absent_pair offset len \<longleftrightarrow> offset = 0 \<and> len = 0"

text \<open>\<open>FieldReader\<close>: the bytes and the next position, which starts after magic and version.\<close>

record field_reader =
  fr_bytes :: bytes
  fr_next :: nat

definition field_reader_new :: "bytes \<Rightarrow> field_reader" where
  "field_reader_new bs = \<lparr>fr_bytes = bs, fr_next = length MAGIC + 1\<rparr>"

definition next_u64 :: "field_reader \<Rightarrow> (u64 \<times> field_reader) option" where
  "next_u64 r =
     (let e = fr_next r + 8 in
      if e \<le> length (fr_bytes r)
      then Some (from_le_bytes (take 8 (drop (fr_next r) (fr_bytes r))), r\<lparr>fr_next := e\<rparr>)
      else None)"

fun read_fields :: "nat \<Rightarrow> field_reader \<Rightarrow> u64 list option" where
  "read_fields 0 r = Some []"
| "read_fields (Suc k) r =
     (case next_u64 r of
        None \<Rightarrow> None
      | Some (v, r') \<Rightarrow> map_option (Cons v) (read_fields k r'))"

datatype candidate =
    NoMagic
  | Selected footer
  | Retired byte
  | Mismatched
  | Unknown byte

definition classify_candidate :: "bytes \<Rightarrow> footer_size \<Rightarrow> candidate" where
  "classify_candidate bs sz =
     (if take (length MAGIC) bs \<noteq> MAGIC then NoMagic
      else if length bs \<le> length MAGIC then NoMagic
      else let version = bs ! length MAGIC in
        if version \<noteq> fs_version sz then
          (if list_ex (\<lambda>known. fs_version known = version) KNOWN_FOOTER_SIZES
           then Mismatched else Unknown version)
        else if version \<notin> set SUPPORTED_CONTAINER_VERSIONS then Retired version
        else case read_fields FOOTER_FIELDS (field_reader_new bs) of
               None \<Rightarrow> NoMagic
             | Some vs \<Rightarrow>
                 (case from_fields version vs of
                    None \<Rightarrow> NoMagic
                  | Some f \<Rightarrow> Selected f))"

datatype located = Found footer u64 | NoTrailer

text \<open>
  One pass of the loop over the known sizes; \<open>unk\<close> is \<open>first_unknown\<close>.
\<close>

fun locate_in :: "bytes \<Rightarrow> footer_size list \<Rightarrow> byte option \<Rightarrow> 'm payload_error + located" where
  "locate_in src [] unk =
     (case unk of
        Some found \<Rightarrow> Inl (PE_UnsupportedContainerFormat found)
      | None \<Rightarrow> Inr NoTrailer)"
| "locate_in src (sz # sizes) unk =
     (if length src < fs_bytes sz then locate_in src sizes unk
      else let start = length src - fs_bytes sz in
        case classify_candidate (take (fs_bytes sz) (drop start src)) sz of
          Selected f \<Rightarrow> Inr (Found f (u64_of start))
        | Retired found \<Rightarrow> Inl (PE_UnsupportedContainerFormat found)
        | Unknown version \<Rightarrow>
            locate_in src sizes (case unk of None \<Rightarrow> Some version | Some v \<Rightarrow> Some v)
        | NoMagic \<Rightarrow> locate_in src sizes unk
        | Mismatched \<Rightarrow> locate_in src sizes unk)"

definition locate_footer :: "bytes \<Rightarrow> 'm payload_error + located" where
  "locate_footer src = locate_in src KNOWN_FOOTER_SIZES None"

definition envelope_present :: "u64 \<Rightarrow> u64 \<Rightarrow> string \<Rightarrow> 'm payload_error + bool" where
  "envelope_present offset len reason =
     (if is_absent_pair offset len then Inr False
      else if offset = 0 \<or> len = 0 then Inl (PE_MalformedFooter reason)
      else Inr True)"

fun envelope_blocks ::
  "(u64 \<times> u64 \<times> string) list \<Rightarrow> 'm payload_error + (u64 \<times> u64 \<times> bool) list" where
  "envelope_blocks [] = Inr []"
| "envelope_blocks ((offset, len, reason) # rest) =
     bind_res (envelope_present offset len reason) (\<lambda>present.
     bind_res (envelope_blocks rest) (\<lambda>blocks. Inr ((offset, len, present) # blocks)))"

definition end_of :: "u64 \<Rightarrow> u64 \<Rightarrow> 'm payload_error + u64" where
  "end_of offset len = ok_or PE_TruncatedTrailer (checked_add offset len)"

definition check_ends :: "u64 \<Rightarrow> (u64 \<times> u64 \<times> bool) list \<Rightarrow> 'm payload_error + unit" where
  "check_ends footer_start blocks =
     for_each (\<lambda>(offset, len, present).
       bind_res (end_of offset len) (\<lambda>e. ensure (\<not> footer_start < e) PE_TruncatedTrailer)) blocks"

fun adjacent_end :: "u64 \<Rightarrow> (u64 \<times> u64 \<times> bool) list \<Rightarrow> 'm payload_error + u64" where
  "adjacent_end cursor [] = Inr cursor"
| "adjacent_end cursor ((offset, len, present) # blocks) =
     (if \<not> present then adjacent_end cursor blocks
      else if offset \<noteq> cursor then
        Inl (PE_MalformedFooter ''trailer blocks are not adjacent in the fixed order'')
      else bind_res (end_of offset len) (\<lambda>e. adjacent_end e blocks))"

definition validate_footer :: "footer \<Rightarrow> u64 \<Rightarrow> 'm payload_error + unit" where
  "validate_footer f footer_start =
     bind_res (envelope_blocks (envelope_pairs f)) (\<lambda>envelope.
       let blocks = (ft_manifest_offset f, ft_manifest_len f, True)
                  # (ft_archive_offset f, ft_archive_len f, True) # envelope
       in bind_res (check_ends footer_start blocks) (\<lambda>_.
          bind_res (adjacent_end (ft_manifest_offset f) blocks) (\<lambda>cursor.
          ensure (cursor = footer_start)
            (PE_MalformedFooter ''the last present block does not end where the footer begins''))))"

section \<open>Writing\<close>

definition validate_detached ::
  "signature_algorithm \<Rightarrow> detached_signature \<Rightarrow> 'm payload_error + unit" where
  "validate_detached algorithm detached =
     (if length (ds_signature detached) \<noteq> signature_len algorithm then
        Inl (PE_InvalidSignatureLength algorithm (length (ds_signature detached)))
      else if length (ds_key_id detached) \<noteq> KEY_ID_HEX_LEN then Inl (PE_InvalidKeyId algorithm)
      else if \<not> list_all is_lower_hex_byte (ds_key_id detached) then
        Inl (PE_InvalidKeyId algorithm)
      else Inr ())"

definition validate_signed :: "signed \<Rightarrow> 'm payload_error + unit" where
  "validate_signed s =
     for_each (\<lambda>(algorithm, detached). validate_detached algorithm detached)
       [(Ed25519, sg_ed25519 s), (MlDsa87, sg_ml_dsa_87 s)]"

definition OVERFLOW :: "'m payload_error" where
  "OVERFLOW = PE_MalformedFooter ''a block offset or the container length overflows a u64''"

definition zero_footer :: "byte \<Rightarrow> footer" where
  "zero_footer v =
     \<lparr>ft_version = v, ft_manifest_offset = 0, ft_manifest_len = 0, ft_archive_offset = 0,
      ft_archive_len = 0, ft_signature_offset = 0, ft_signature_len = 0, ft_key_id_offset = 0,
      ft_key_id_len = 0, ft_ml_dsa_87_signature_offset = 0, ft_ml_dsa_87_signature_len = 0,
      ft_ml_dsa_87_key_id_offset = 0, ft_ml_dsa_87_key_id_len = 0\<rparr>"

text \<open>
  \<open>write_standalone_tail\<close> after \<open>manifest_offset\<close> base bytes, the manifest and the archive: the
  bytes it appends. Every check precedes the first write, so an error writes nothing.
\<close>

definition tail_footer ::
  "u64 \<Rightarrow> u64 \<Rightarrow> u64 \<Rightarrow> bool \<Rightarrow> 'm payload_error + footer" where
  "tail_footer mo ml al is_signed =
     bind_res (ok_or OVERFLOW (checked_add mo ml)) (\<lambda>ao.
     bind_res (ok_or OVERFLOW (checked_add ao al)) (\<lambda>archive_end.
     let f = (zero_footer FORMAT_VERSION)\<lparr>ft_manifest_offset := mo, ft_manifest_len := ml,
               ft_archive_offset := ao, ft_archive_len := al\<rparr> in
     bind_res
       (if is_signed then
          bind_res (ok_or OVERFLOW (checked_add archive_end (u64_of ED25519_SIGNATURE_LEN))) (\<lambda>ko.
          bind_res (ok_or OVERFLOW (checked_add ko (u64_of KEY_ID_HEX_LEN))) (\<lambda>mso.
          bind_res (ok_or OVERFLOW (checked_add mso (u64_of ML_DSA_87_SIGNATURE_LEN))) (\<lambda>mko.
          bind_res (ok_or OVERFLOW (checked_add mko (u64_of KEY_ID_HEX_LEN))) (\<lambda>start.
          Inr (f\<lparr>ft_signature_offset := archive_end,
                 ft_signature_len := u64_of ED25519_SIGNATURE_LEN,
                 ft_key_id_offset := ko, ft_key_id_len := u64_of KEY_ID_HEX_LEN,
                 ft_ml_dsa_87_signature_offset := mso,
                 ft_ml_dsa_87_signature_len := u64_of ML_DSA_87_SIGNATURE_LEN,
                 ft_ml_dsa_87_key_id_offset := mko,
                 ft_ml_dsa_87_key_id_len := u64_of KEY_ID_HEX_LEN\<rparr>, start)))))
        else Inr (f, archive_end))
       (\<lambda>(f, start).
     bind_res (ok_or OVERFLOW (checked_add start (u64_of FOOTER_SIZE))) (\<lambda>_. Inr f))))"

definition envelope_bytes :: "signed option \<Rightarrow> bytes" where
  "envelope_bytes so =
     (case so of None \<Rightarrow> []
      | Some s \<Rightarrow> ds_signature (sg_ed25519 s) @ ds_key_id (sg_ed25519 s) @
                   ds_signature (sg_ml_dsa_87 s) @ ds_key_id (sg_ml_dsa_87 s))"

definition write_standalone_tail ::
  "u64 \<Rightarrow> u64 \<Rightarrow> u64 \<Rightarrow> signed option \<Rightarrow> 'm payload_error + bytes" where
  "write_standalone_tail mo ml al so =
     bind_res (case so of None \<Rightarrow> Inr () | Some s \<Rightarrow> validate_signed s) (\<lambda>_.
     bind_res (tail_footer mo ml al (so \<noteq> None)) (\<lambda>f.
     Inr (envelope_bytes so @ footer_encode f)))"

section \<open>Reading\<close>

text \<open>\<open>seek(Start(offset))\<close> then \<open>read_exact\<close> of \<open>len\<close> bytes.\<close>

definition read_at :: "bytes \<Rightarrow> u64 \<Rightarrow> u64 \<Rightarrow> 'm payload_error + bytes" where
  "read_at src offset len =
     (if unat offset + unat len \<le> length src
      then Inr (take (unat len) (drop (unat offset) src)) else Inl PE_Io)"

definition read_block :: "bytes \<Rightarrow> u64 \<Rightarrow> u64 \<Rightarrow> 'm payload_error + bytes option" where
  "read_block src offset len =
     (if is_absent_pair offset len then Inr None
      else bind_res (read_at src offset len) (\<lambda>b. Inr (Some b)))"

datatype envelope_block = Absent | Present bytes | WrongLength

definition read_bounded_block ::
  "bytes \<Rightarrow> u64 \<Rightarrow> u64 \<Rightarrow> u64 \<Rightarrow> 'm payload_error + envelope_block" where
  "read_bounded_block src offset len bound =
     (if is_absent_pair offset len then Inr Absent
      else if len \<noteq> bound then Inr WrongLength
      else bind_res (read_block src offset len) (\<lambda>r.
        Inr (case r of Some b \<Rightarrow> Present b | None \<Rightarrow> Absent)))"

record envelope_bounds =
  eb_signature_len :: u64
  eb_key_id_len :: u64
  eb_ml_dsa_87_signature_len :: u64
  eb_ml_dsa_87_key_id_len :: u64

definition ENVELOPE_BOUNDS :: envelope_bounds where
  "ENVELOPE_BOUNDS =
     \<lparr>eb_signature_len = 64, eb_key_id_len = 64,
      eb_ml_dsa_87_signature_len = 4627, eb_ml_dsa_87_key_id_len = 64\<rparr>"

record container =
  ct_src :: bytes
  ct_footer_version :: byte
  ct_manifest_bytes :: bytes
  ct_signature :: envelope_block
  ct_key_id :: envelope_block
  ct_ml_dsa_87_signature :: envelope_block
  ct_ml_dsa_87_key_id :: envelope_block
  ct_archive_offset :: u64
  ct_archive_len :: u64

text \<open>The caller's \<open>check\<close> runs after the footer is validated and before the manifest is read.\<close>

definition read_container_head_with ::
  "bytes \<Rightarrow> (footer \<Rightarrow> 'e + unit) \<Rightarrow> ('m payload_error \<Rightarrow> 'e) \<Rightarrow> 'e + (footer \<times> bytes) option" where
  "read_container_head_with src check conv =
     bind_res (map_err conv (locate_footer src)) (\<lambda>l.
     case l of
       NoTrailer \<Rightarrow> Inr None
     | Found f footer_start \<Rightarrow>
         bind_res (map_err conv (validate_footer f footer_start)) (\<lambda>_.
         bind_res (check f) (\<lambda>_.
         bind_res (map_err conv (read_at src (ft_manifest_offset f) (ft_manifest_len f)))
           (\<lambda>manifest. Inr (Some (f, manifest))))))"

definition read_container_head :: "bytes \<Rightarrow> 'm payload_error + (footer \<times> bytes) option" where
  "read_container_head src = read_container_head_with src (\<lambda>_. Inr ()) id"

definition finish_package_container ::
  "bytes \<Rightarrow> footer \<Rightarrow> bytes \<Rightarrow> envelope_bounds \<Rightarrow> 'm payload_error + container" where
  "finish_package_container src f manifest bounds =
     bind_res (read_bounded_block src (ft_signature_offset f) (ft_signature_len f)
                 (eb_signature_len bounds)) (\<lambda>sg.
     bind_res (read_bounded_block src (ft_key_id_offset f) (ft_key_id_len f)
                 (eb_key_id_len bounds)) (\<lambda>kid.
     bind_res (read_bounded_block src (ft_ml_dsa_87_signature_offset f)
                 (ft_ml_dsa_87_signature_len f) (eb_ml_dsa_87_signature_len bounds)) (\<lambda>msg.
     bind_res (read_bounded_block src (ft_ml_dsa_87_key_id_offset f)
                 (ft_ml_dsa_87_key_id_len f) (eb_ml_dsa_87_key_id_len bounds)) (\<lambda>mkid.
     Inr \<lparr>ct_src = src, ct_footer_version = ft_version f, ct_manifest_bytes = manifest,
          ct_signature = sg, ct_key_id = kid, ct_ml_dsa_87_signature = msg,
          ct_ml_dsa_87_key_id = mkid, ct_archive_offset = ft_archive_offset f,
          ct_archive_len = ft_archive_len f\<rparr>))))"

definition read_package_container ::
  "bytes \<Rightarrow> envelope_bounds \<Rightarrow> 'm payload_error + container" where
  "read_package_container src bounds =
     bind_res (read_container_head src) (\<lambda>h.
     bind_res (ok_or PE_NoTrailer h) (\<lambda>(f, manifest).
     finish_package_container src f manifest bounds))"

text \<open>\<open>raw_archive_block\<close>, read to its end.\<close>

definition raw_archive_block :: "container \<Rightarrow> bytes" where
  "raw_archive_block c =
     take (unat (ct_archive_len c)) (drop (unat (ct_archive_offset c)) (ct_src c))"

section \<open>Replacing the base\<close>

definition shifted :: "u64 \<Rightarrow> u64 \<Rightarrow> u64 \<Rightarrow> 'm payload_error + u64" where
  "shifted old_base_len new_base_len offset =
     ok_or PE_TruncatedTrailer
       (case checked_sub offset old_base_len of
          None \<Rightarrow> None | Some within_body \<Rightarrow> checked_add new_base_len within_body)"

definition shifted_envelope :: "u64 \<Rightarrow> u64 \<Rightarrow> u64 \<Rightarrow> u64 \<Rightarrow> 'm payload_error + u64" where
  "shifted_envelope old_base_len new_base_len offset len =
     (if is_absent_pair offset len then Inr 0 else shifted old_base_len new_base_len offset)"

definition rewrap_trailer :: "bytes \<Rightarrow> bytes \<Rightarrow> 'm payload_error + bytes" where
  "rewrap_trailer source new_base =
     bind_res (locate_footer source) (\<lambda>l.
     case l of
       NoTrailer \<Rightarrow> Inl PE_NoTrailer
     | Found f footer_start \<Rightarrow>
         bind_res (validate_footer f footer_start) (\<lambda>_.
         let old_base_len = ft_manifest_offset f;
             body_len = footer_start - old_base_len;
             new_base_len = u64_of (length new_base);
             copied = take (unat body_len) (drop (unat old_base_len) source)
         in bind_res (ensure (length copied = unat body_len) PE_TruncatedTrailer) (\<lambda>_.
            bind_res (shifted old_base_len new_base_len (ft_archive_offset f)) (\<lambda>ao.
            bind_res (shifted_envelope old_base_len new_base_len (ft_signature_offset f)
                        (ft_signature_len f)) (\<lambda>so.
            bind_res (shifted_envelope old_base_len new_base_len (ft_key_id_offset f)
                        (ft_key_id_len f)) (\<lambda>ko.
            bind_res (shifted_envelope old_base_len new_base_len
                        (ft_ml_dsa_87_signature_offset f) (ft_ml_dsa_87_signature_len f)) (\<lambda>mso.
            bind_res (shifted_envelope old_base_len new_base_len
                        (ft_ml_dsa_87_key_id_offset f) (ft_ml_dsa_87_key_id_len f)) (\<lambda>mko.
            Inr (new_base @ copied @ footer_encode
              (f\<lparr>ft_manifest_offset := new_base_len, ft_archive_offset := ao,
                 ft_signature_offset := so, ft_key_id_offset := ko,
                 ft_ml_dsa_87_signature_offset := mso,
                 ft_ml_dsa_87_key_id_offset := mko\<rparr>))))))))))"

definition read_base_executable :: "bytes \<Rightarrow> 'm payload_error + bytes" where
  "read_base_executable src =
     bind_res (locate_footer src) (\<lambda>l.
     bind_res (case l of
                 Found f footer_start \<Rightarrow>
                   (if footer_start < ft_manifest_offset f then Inl PE_TruncatedTrailer
                    else Inr (ft_manifest_offset f))
               | NoTrailer \<Rightarrow> Inr (u64_of (length src))) (\<lambda>base_len.
     read_at src 0 base_len))"

end
