(* ===== verification/Container_Correct.thy ===== *)
theory Container_Correct
  imports Container
begin

text \<open>
  Correctness of the container reader and writer: the footer codec, when a footer is found, what
  \<^const>\<open>validate_footer\<close> accepts (the blocks tile the bytes before the footer), that a written
  container reads back, that a container that reads is laid out that way, and that replacing the
  base keeps every block.
\<close>

section \<open>The footer codec\<close>

lemma le_bytes_nth: "i < k \<Longrightarrow> le_bytes k n ! i = char_of (n div 256 ^ i)"
proof (induction k arbitrary: n i)
  case 0
  then show ?case by simp
next
  case (Suc k)
  then show ?case by (cases i) (auto simp: div_mult2_eq)
qed

lemma le_bytes_top:
  assumes "n < b * 256 ^ 7" "b < 256"
  shows "ord (le_bytes 8 n ! 7) < b"
proof -
  have less: "n div 256 ^ 7 < b" using assms(1) by (simp add: less_mult_imp_div_less)
  with assms(2) show ?thesis by (simp add: le_bytes_nth of_char_of del: le_bytes.simps)
qed

lemma next_u64_le:
  "drop (fr_next r) (fr_bytes r) = to_le_bytes v @ rest \<Longrightarrow>
     next_u64 r = Some (v, r\<lparr>fr_next := fr_next r + 8\<rparr>)"
proof -
  assume *: "drop (fr_next r) (fr_bytes r) = to_le_bytes v @ rest"
  then have "length (drop (fr_next r) (fr_bytes r)) = 8 + length rest" by simp
  then have "fr_next r + 8 \<le> length (fr_bytes r)" by simp
  with * show ?thesis by (simp add: next_u64_def Let_def)
qed

lemma read_fields_le:
  "drop (fr_next r) (fr_bytes r) = concat (map to_le_bytes vs) @ rest \<Longrightarrow>
     read_fields (length vs) r = Some vs"
proof (induction vs arbitrary: r)
  case Nil
  then show ?case by simp
next
  case (Cons v vs)
  let ?r = "r\<lparr>fr_next := fr_next r + 8\<rparr>"
  from Cons.prems have d: "drop (fr_next r) (fr_bytes r)
      = to_le_bytes v @ concat (map to_le_bytes vs) @ rest" by simp
  have "drop (fr_next ?r) (fr_bytes ?r) = drop 8 (drop (fr_next r) (fr_bytes r))"
    by (simp add: add.commute)
  also have "\<dots> = concat (map to_le_bytes vs) @ rest" by (simp add: d)
  finally have "read_fields (length vs) ?r = Some vs" by (rule Cons.IH)
  with d show ?case by (simp add: next_u64_le)
qed

lemma from_fields_footer_fields [simp]: "from_fields (ft_version f) (footer_fields f) = Some f"
  by (simp add: footer_fields_def)

lemma length_footer_fields [simp]: "length (footer_fields f) = 12"
  by (simp add: footer_fields_def)

lemma length_MAGIC [simp]: "length MAGIC = 8"
  by (simp add: MAGIC_def)

lemma length_concat_le [simp]: "length (concat (map to_le_bytes vs)) = 8 * length vs"
  by (induction vs) auto

lemma footer_encode_v3:
  "ft_version f = FORMAT_VERSION \<Longrightarrow>
     footer_encode f = MAGIC @ [FORMAT_VERSION] @ concat (map to_le_bytes (footer_fields f))"
  by (simp add: footer_encode_def FORMAT_VERSION_def FOOTER_FIELDS_def)

lemma length_footer_encode_v3 [simp]:
  "ft_version f = FORMAT_VERSION \<Longrightarrow> length (footer_encode f) = FOOTER_SIZE"
  by (simp add: footer_encode_v3 FOOTER_SIZE_def FOOTER_SIZE_V3_def)

abbreviation v3_size :: footer_size where
  "v3_size \<equiv> \<lparr>fs_bytes = FOOTER_SIZE_V3, fs_version = FORMAT_VERSION\<rparr>"

lemma classify_encoded:
  assumes "ft_version f = FORMAT_VERSION"
  shows "classify_candidate (footer_encode f) v3_size = Selected f"
proof -
  have "read_fields (length (footer_fields f)) (field_reader_new (footer_encode f))
      = Some (footer_fields f)"
    using assms by (intro read_fields_le [of _ _ "[]"])
      (simp add: field_reader_new_def footer_encode_v3)
  then have "read_fields FOOTER_FIELDS (field_reader_new (footer_encode f)) = Some (footer_fields f)"
    by (simp add: FOOTER_FIELDS_def)
  moreover from assms have "from_fields FORMAT_VERSION (footer_fields f) = Some f"
    by (metis from_fields_footer_fields)
  ultimately show ?thesis
    using assms by (simp add: classify_candidate_def Let_def footer_encode_v3
        SUPPORTED_CONTAINER_VERSIONS_def nth_append)
qed

text \<open>
  Inside a version 3 footer the two shorter layouts would be read from a position whose first byte
  is the top byte of \<open>archive_offset\<close> or of \<open>key_id_offset\<close>: no \<open>B\<close> for a file shorter than
  \<open>66 * 2 ^ 56\<close> bytes.
\<close>

lemma drop_in_fields:
  assumes "ft_version f = FORMAT_VERSION"
  shows "drop 32 (footer_encode f) ! 0 = le_bytes 8 (unat (ft_archive_offset f)) ! 7"
    and "drop 64 (footer_encode f) ! 0 = le_bytes 8 (unat (ft_key_id_offset f)) ! 7"
proof -
  have e: "footer_encode f = (MAGIC @ [FORMAT_VERSION] @
      concat (map to_le_bytes [ft_manifest_offset f, ft_manifest_len f])) @
      to_le_bytes (ft_archive_offset f) @
      concat (map to_le_bytes [ft_archive_len f, ft_signature_offset f, ft_signature_len f]) @
      to_le_bytes (ft_key_id_offset f) @
      concat (map to_le_bytes (drop 7 (footer_fields f)))"
    using assms by (simp add: footer_encode_v3 footer_fields_def)
  show "drop 32 (footer_encode f) ! 0 = le_bytes 8 (unat (ft_archive_offset f)) ! 7"
    unfolding e by (simp add: nth_append to_le_bytes_def del: le_bytes.simps)
  show "drop 64 (footer_encode f) ! 0 = le_bytes 8 (unat (ft_key_id_offset f)) ! 7"
    unfolding e by (simp add: nth_append to_le_bytes_def del: le_bytes.simps)
qed

lemma classify_not_magic: "bs \<noteq> [] \<Longrightarrow> bs ! 0 \<noteq> CHR ''B'' \<Longrightarrow> classify_candidate bs sz = NoMagic"
  by (cases bs) (auto simp: classify_candidate_def MAGIC_def)

definition compact :: "footer \<Rightarrow> bool" where
  "compact f \<longleftrightarrow> unat (ft_archive_offset f) < 66 * 256 ^ 7 \<and> unat (ft_key_id_offset f) < 66 * 256 ^ 7"

lemma locate_encoded:
  assumes v: "ft_version f = FORMAT_VERSION" and c: "compact f"
  shows "locate_footer (pre @ footer_encode f) = Inr (Found f (u64_of (length pre)))"
proof -
  let ?e = "footer_encode f"
  let ?src = "pre @ ?e"
  from v have len: "length ?e = 105" by (simp add: FOOTER_SIZE_def FOOTER_SIZE_V3_def)
  have "ord (drop 32 ?e ! 0) < 66" "ord (drop 64 ?e ! 0) < 66"
    using c unfolding compact_def drop_in_fields [OF v]
    by (auto intro: le_bytes_top)
  then have "drop 32 ?e ! 0 \<noteq> CHR ''B''" "drop 64 ?e ! 0 \<noteq> CHR ''B''" by auto
  with len have no1: "classify_candidate (drop 64 ?e) sz = NoMagic"
    and no2: "classify_candidate (drop 32 ?e) sz = NoMagic" for sz
    by (auto intro!: classify_not_magic simp: hd_drop_conv_nth)
  have "take 41 (drop (length ?src - 41) ?src) = drop 64 ?e"
    "take 73 (drop (length ?src - 73) ?src) = drop 32 ?e"
    "take 105 (drop (length ?src - 105) ?src) = ?e"
    using len by simp_all
  then show ?thesis
    using len no1 no2 classify_encoded [OF v]
    by (simp add: locate_footer_def KNOWN_FOOTER_SIZES_def FOOTER_SIZE_V1_def FOOTER_SIZE_V2_def
        FOOTER_SIZE_V3_def)
qed

section \<open>What a valid footer is\<close>

text \<open>
  The abstract statement: from \<open>c\<close>, the present blocks follow one another without a gap and end
  at \<open>e\<close>. It is over natural numbers, so it says that nothing wrapped.
\<close>

fun tiles :: "nat \<Rightarrow> (u64 \<times> u64 \<times> bool) list \<Rightarrow> nat \<Rightarrow> bool" where
  "tiles c [] e \<longleftrightarrow> c = e"
| "tiles c ((offset, len, present) # blocks) e \<longleftrightarrow>
     (if present then unat offset = c \<and> tiles (c + unat len) blocks e else tiles c blocks e)"

definition footer_blocks :: "footer \<Rightarrow> (u64 \<times> u64 \<times> bool) list" where
  "footer_blocks f =
     (ft_manifest_offset f, ft_manifest_len f, True)
     # (ft_archive_offset f, ft_archive_len f, True)
     # map (\<lambda>(offset, len, reason). (offset, len, \<not> is_absent_pair offset len)) (envelope_pairs f)"

definition pairs_whole :: "footer \<Rightarrow> bool" where
  "pairs_whole f \<longleftrightarrow> list_all (\<lambda>(offset, len, reason). offset = 0 \<longleftrightarrow> len = 0) (envelope_pairs f)"

lemma tiles_le: "tiles c bs e \<Longrightarrow> c \<le> e"
  by (induction c bs e rule: tiles.induct) (auto split: if_splits)

lemma tiles_block_end: "tiles c bs e \<Longrightarrow> (offset, len, True) \<in> set bs \<Longrightarrow> unat offset + unat len \<le> e"
proof (induction c bs e rule: tiles.induct)
  case (2 c offset' len' present blocks e)
  then show ?case by (auto split: if_splits dest: tiles_le)
qed simp

lemma adjacent_end_iff: "adjacent_end c bs = Inr e \<longleftrightarrow> tiles (unat c) bs (unat e)"
proof (induction c bs rule: adjacent_end.induct)
  case (1 c)
  then show ?case by (auto simp: word_unat_eq_iff)
next
  case (2 c offset len present bs)
  show ?case
  proof (cases "present \<and> offset = c")
    case True
    show ?thesis
    proof (cases "checked_add offset len")
      case None
      then have big: "18446744073709551616 \<le> unat c + unat len"
        using True by (simp add: checked_add_None)
      have "\<not> tiles (unat c + unat len) bs (unat e)"
      proof
        assume "tiles (unat c + unat len) bs (unat e)"
        then have "unat c + unat len \<le> unat e" by (rule tiles_le)
        with big unat_u64_bound [of e] show False by linarith
      qed
      with True None show ?thesis by (simp add: end_of_def)
    next
      case (Some x)
      then have "unat x = unat offset + unat len" by (simp add: checked_add_Some)
      with Some True "2.IH"(2) [of x] show ?thesis by (simp add: end_of_def)
    qed
  next
    case False
    with "2.IH"(1) show ?thesis by (auto simp: word_unat_eq_iff)
  qed
qed

lemma envelope_present_Inr:
  "envelope_present offset len reason = Inr p \<longleftrightarrow>
     (offset = 0 \<longleftrightarrow> len = 0) \<and> p = (\<not> is_absent_pair offset len)"
  by (auto simp: envelope_present_def is_absent_pair_def)

lemma envelope_blocks_Inr:
  "envelope_blocks ps = Inr bs \<longleftrightarrow>
     list_all (\<lambda>(offset, len, reason). offset = 0 \<longleftrightarrow> len = 0) ps \<and>
     bs = map (\<lambda>(offset, len, reason). (offset, len, \<not> is_absent_pair offset len)) ps"
  by (induction ps arbitrary: bs rule: envelope_blocks.induct) (auto simp: envelope_present_Inr)

lemma check_ends_tiles:
  assumes "tiles c bs (unat start)"
    and "\<forall>(offset, len, present) \<in> set bs. \<not> present \<longrightarrow> offset = 0 \<and> len = 0"
  shows "check_ends start bs = Inr ()"
proof -
  have "bind_res (end_of offset len) (\<lambda>e. ensure (\<not> start < e) (PE_TruncatedTrailer :: 'm payload_error))
      = Inr ()" if "(offset, len, present) \<in> set bs" for offset len present
  proof -
    have le: "unat offset + unat len \<le> unat start"
    proof (cases present)
      case True
      with that assms(1) show ?thesis by (auto dest: tiles_block_end)
    next
      case False
      with that assms(2) show ?thesis by auto
    qed
    then have "unat offset + unat len < 18446744073709551616"
      using unat_u64_bound [of start] by linarith
    then have "unat offset + unat len < 2 ^ 64" by simp
    then obtain e where "checked_add offset len = Some e" "unat e = unat offset + unat len"
      by (metis checked_add_None checked_add_Some linorder_not_le option.exhaust)
    with le show ?thesis by (simp add: end_of_def word_less_nat_alt)
  qed
  then show ?thesis by (auto simp: check_ends_def)
qed

lemma footer_blocks_absent:
  "\<forall>(offset, len, present) \<in> set (footer_blocks f). \<not> present \<longrightarrow> offset = 0 \<and> len = 0"
  by (auto simp: footer_blocks_def is_absent_pair_def)

lemma validate_footer_tiles:
  "(validate_footer f start :: 'm payload_error + unit) = Inr () \<longleftrightarrow>
     pairs_whole f \<and> tiles (unat (ft_manifest_offset f)) (footer_blocks f) (unat start)"
proof -
  have blocks: "(ft_manifest_offset f, ft_manifest_len f, True)
      # (ft_archive_offset f, ft_archive_len f, True)
      # map (\<lambda>(offset, len, reason). (offset, len, \<not> is_absent_pair offset len)) (envelope_pairs f)
      = footer_blocks f"
    by (simp add: footer_blocks_def)
  have "(validate_footer f start :: 'm payload_error + unit) = Inr () \<longleftrightarrow> pairs_whole f \<and>
      check_ends start (footer_blocks f) = (Inr () :: 'm payload_error + unit) \<and>
      adjacent_end (ft_manifest_offset f) (footer_blocks f) = (Inr start :: 'm payload_error + u64)"
    unfolding validate_footer_def Let_def pairs_whole_def
    by (simp add: envelope_blocks_Inr blocks del: adjacent_end.simps)
  then show ?thesis
    using check_ends_tiles [OF _ footer_blocks_absent] by (auto simp: adjacent_end_iff)
qed

section \<open>The footer the writer computes\<close>

lemma checked_add_u64_of:
  "a + b < 2 ^ 64 \<Longrightarrow> checked_add (u64_of a) (u64_of b) = Some (u64_of (a + b))"
  by (simp add: checked_add_Some)

definition written_footer :: "nat \<Rightarrow> nat \<Rightarrow> nat \<Rightarrow> bool \<Rightarrow> footer" where
  "written_footer b m a is_signed =
     (if is_signed then
        \<lparr>ft_version = FORMAT_VERSION, ft_manifest_offset = u64_of b, ft_manifest_len = u64_of m,
         ft_archive_offset = u64_of (b + m), ft_archive_len = u64_of a,
         ft_signature_offset = u64_of (b + m + a), ft_signature_len = u64_of 64,
         ft_key_id_offset = u64_of (b + m + a + 64), ft_key_id_len = u64_of 64,
         ft_ml_dsa_87_signature_offset = u64_of (b + m + a + 128),
         ft_ml_dsa_87_signature_len = u64_of 4627,
         ft_ml_dsa_87_key_id_offset = u64_of (b + m + a + 4755),
         ft_ml_dsa_87_key_id_len = u64_of 64\<rparr>
      else
        \<lparr>ft_version = FORMAT_VERSION, ft_manifest_offset = u64_of b, ft_manifest_len = u64_of m,
         ft_archive_offset = u64_of (b + m), ft_archive_len = u64_of a,
         ft_signature_offset = 0, ft_signature_len = 0, ft_key_id_offset = 0, ft_key_id_len = 0,
         ft_ml_dsa_87_signature_offset = 0, ft_ml_dsa_87_signature_len = 0,
         ft_ml_dsa_87_key_id_offset = 0, ft_ml_dsa_87_key_id_len = 0\<rparr>)"

lemma tail_footer_written:
  assumes "b + m + a + 4924 < 2 ^ 64"
  shows "tail_footer (u64_of b) (u64_of m) (u64_of a) s = Inr (written_footer b m a s)"
  using assms
  by (simp add: tail_footer_def written_footer_def zero_footer_def checked_add_u64_of Let_def
      ED25519_SIGNATURE_LEN_def ML_DSA_87_SIGNATURE_LEN_def KEY_ID_HEX_LEN_def FOOTER_SIZE_def
      FOOTER_SIZE_V3_def add.assoc)

lemma written_footer_version [simp]: "ft_version (written_footer b m a s) = FORMAT_VERSION"
  by (simp add: written_footer_def)

lemma written_footer_blocks [simp]:
  "ft_manifest_offset (written_footer b m a s) = u64_of b"
  "ft_manifest_len (written_footer b m a s) = u64_of m"
  "ft_archive_offset (written_footer b m a s) = u64_of (b + m)"
  "ft_archive_len (written_footer b m a s) = u64_of a"
  by (simp_all add: written_footer_def)

lemma u64_of_eq_0: "n < 2 ^ 64 \<Longrightarrow> u64_of n = 0 \<longleftrightarrow> n = 0"
  by (metis unat_0 unat_u64_of u64_of_unat)

lemma written_footer_valid:
  assumes "b + m + a + 4924 < 2 ^ 64" and "0 < m"
  shows "validate_footer (written_footer b m a s) (u64_of (b + m + a + (if s then 4819 else 0)))
      = Inr ()"
  unfolding validate_footer_tiles using assms
  by (cases s) (simp_all add: pairs_whole_def envelope_pairs_def written_footer_def u64_of_eq_0
      footer_blocks_def is_absent_pair_def)

lemma written_footer_compact: "b + m + a + 4924 < 2 ^ 62 \<Longrightarrow> compact (written_footer b m a s)"
  by (simp add: compact_def written_footer_def)

section \<open>A written container reads back\<close>

lemma read_at_slice:
  "unat off = length x \<Longrightarrow> unat len = length y \<Longrightarrow> read_at (x @ y @ z) off len = Inr y"
  by (simp add: read_at_def)

lemma validate_signed_Inr:
  "validate_signed s = Inr () \<longleftrightarrow>
     length (ds_signature (sg_ed25519 s)) = 64 \<and> length (ds_key_id (sg_ed25519 s)) = 64 \<and>
     list_all is_lower_hex_byte (ds_key_id (sg_ed25519 s)) \<and>
     length (ds_signature (sg_ml_dsa_87 s)) = 4627 \<and> length (ds_key_id (sg_ml_dsa_87 s)) = 64 \<and>
     list_all is_lower_hex_byte (ds_key_id (sg_ml_dsa_87 s))"
  by (auto simp: validate_signed_def validate_detached_def signature_len_def
      ED25519_SIGNATURE_LEN_def ML_DSA_87_SIGNATURE_LEN_def KEY_ID_HEX_LEN_def split: if_splits)

text \<open>The container a package writer produces, and what the reader makes of it.\<close>

definition package_of :: "bytes \<Rightarrow> bytes \<Rightarrow> bytes \<Rightarrow> signed option \<Rightarrow> bytes" where
  "package_of base m a so = base @ m @ a @ envelope_bytes so @
     footer_encode (written_footer (length base) (length m) (length a) (so \<noteq> None))"

definition present_of :: "('s \<Rightarrow> bytes) \<Rightarrow> 's option \<Rightarrow> envelope_block" where
  "present_of sel so = (case so of None \<Rightarrow> Absent | Some s \<Rightarrow> Present (sel s))"

definition container_of :: "bytes \<Rightarrow> bytes \<Rightarrow> bytes \<Rightarrow> signed option \<Rightarrow> container" where
  "container_of base m a so =
     \<lparr>ct_src = package_of base m a so, ct_footer_version = FORMAT_VERSION, ct_manifest_bytes = m,
      ct_signature = present_of (ds_signature \<circ> sg_ed25519) so,
      ct_key_id = present_of (ds_key_id \<circ> sg_ed25519) so,
      ct_ml_dsa_87_signature = present_of (ds_signature \<circ> sg_ml_dsa_87) so,
      ct_ml_dsa_87_key_id = present_of (ds_key_id \<circ> sg_ml_dsa_87) so,
      ct_archive_offset = u64_of (length base + length m), ct_archive_len = u64_of (length a)\<rparr>"

definition writable :: "bytes \<Rightarrow> bytes \<Rightarrow> bytes \<Rightarrow> signed option \<Rightarrow> bool" where
  "writable base m a so \<longleftrightarrow>
     m \<noteq> [] \<and> length base + length m + length a + 4924 < 2 ^ 62 \<and>
     (case so of None \<Rightarrow> True | Some s \<Rightarrow> validate_signed s = (Inr () :: unit payload_error + unit))"

lemma validate_signed_any:
  "(validate_signed s :: 'm payload_error + unit) = Inr () \<longleftrightarrow>
     (validate_signed s :: 'n payload_error + unit) = Inr ()"
  by (simp add: validate_signed_Inr)

lemma write_package:
  assumes "writable base m a so"
  shows "write_standalone_tail (u64_of (length base)) (u64_of (length m)) (u64_of (length a)) so
    = (Inr (envelope_bytes so @
        footer_encode (written_footer (length base) (length m) (length a) (so \<noteq> None)))
       :: 'm payload_error + bytes)"
proof -
  have "(case so of None \<Rightarrow> Inr () | Some s \<Rightarrow> validate_signed s) = (Inr () :: 'm payload_error + unit)"
    using assms by (auto simp: writable_def validate_signed_Inr split: option.splits)
  moreover have "length base + length m + length a + 4924 < 2 ^ 64"
    using assms by (simp add: writable_def)
  ultimately show ?thesis
    by (simp add: write_standalone_tail_def tail_footer_written)
qed

lemma envelope_length:
  "writable base m a so \<Longrightarrow> length (envelope_bytes so) = (if so \<noteq> None then 4819 else 0)"
  by (auto simp: writable_def envelope_bytes_def validate_signed_Inr split: option.splits)

lemma package_locate:
  assumes "writable base m a so"
  shows "locate_footer (package_of base m a so) = Inr (Found
     (written_footer (length base) (length m) (length a) (so \<noteq> None))
     (u64_of (length base + length m + length a + (if so \<noteq> None then 4819 else 0))))"
proof -
  have "compact (written_footer (length base) (length m) (length a) (so \<noteq> None))"
    using assms by (intro written_footer_compact) (simp add: writable_def)
  then show ?thesis
    using assms
      locate_encoded [of "written_footer (length base) (length m) (length a) (so \<noteq> None)"
        "base @ m @ a @ envelope_bytes so"]
    by (simp add: package_of_def envelope_length add.assoc)
qed

lemma package_manifest:
  "writable base m a so \<Longrightarrow>
     read_at (package_of base m a so) (u64_of (length base)) (u64_of (length m)) = Inr m"
  unfolding package_of_def by (intro read_at_slice) (simp_all add: writable_def)

lemma package_head:
  assumes "writable base m a so"
  shows "read_container_head (package_of base m a so) = Inr (Some
     (written_footer (length base) (length m) (length a) (so \<noteq> None), m))"
proof -
  from assms have m: "0 < length m" and len: "length base + length m + length a + 4924 < 2 ^ 64"
    by (auto simp: writable_def)
  show ?thesis
    unfolding read_container_head_def read_container_head_with_def
    by (simp add: package_locate [OF assms] written_footer_valid [OF len m]
        package_manifest [OF assms] del: not_None_eq)
qed

lemma read_bounded_present:
  assumes "unat off = length x" "length y = unat bound" "y \<noteq> []"
  shows "read_bounded_block (x @ y @ z) off bound bound = Inr (Present y)"
proof -
  have "bound \<noteq> 0" using assms(2,3) by auto
  then have "\<not> is_absent_pair off bound" by (simp add: is_absent_pair_def)
  with assms show ?thesis
    by (simp add: read_bounded_block_def read_block_def read_at_slice)
qed

lemma read_bounded_absent: "read_bounded_block src 0 0 bound = Inr Absent"
  by (simp add: read_bounded_block_def is_absent_pair_def)

lemma package_envelope_signed:
  assumes len: "length base + length m + length a + 4924 < 2 ^ 62"
    and s: "validate_signed s = (Inr () :: unit payload_error + unit)"
  shows "finish_package_container (package_of base m a (Some s))
     (written_footer (length base) (length m) (length a) True) m ENVELOPE_BOUNDS
     = Inr (container_of base m a (Some s))"
proof -
  let ?src = "package_of base m a (Some s)"
  let ?f = "written_footer (length base) (length m) (length a) True"
  define n where "n = length base + length m + length a"
  from len have n: "n + 4924 < 2 ^ 64" by (simp add: n_def)
  from s have l: "length (ds_signature (sg_ed25519 s)) = 64"
    "length (ds_key_id (sg_ed25519 s)) = 64" "length (ds_signature (sg_ml_dsa_87 s)) = 4627"
    "length (ds_key_id (sg_ml_dsa_87 s)) = 64" by (simp_all add: validate_signed_Inr)
  let ?pre = "base @ m @ a"
  let ?e1 = "ds_signature (sg_ed25519 s)" let ?k1 = "ds_key_id (sg_ed25519 s)"
  let ?e2 = "ds_signature (sg_ml_dsa_87 s)" let ?k2 = "ds_key_id (sg_ml_dsa_87 s)"
  have src: "?src = ?pre @ ?e1 @ ?k1 @ ?e2 @ ?k2 @ footer_encode ?f"
    by (simp add: package_of_def envelope_bytes_def)
  have nonempty: "?e1 \<noteq> []" "?k1 \<noteq> []" "?e2 \<noteq> []" "?k2 \<noteq> []" using l by auto
  have "read_bounded_block ?src (u64_of n) 64 64 = Inr (Present ?e1)"
    using n l nonempty unfolding src by (intro read_bounded_present) (simp_all add: n_def)
  moreover have "read_bounded_block (((?pre @ ?e1) @ ?k1 @ ?e2 @ ?k2 @ footer_encode ?f))
      (u64_of (n + 64)) 64 64 = Inr (Present ?k1)"
    using n l nonempty by (intro read_bounded_present) (simp_all add: n_def)
  then have "read_bounded_block ?src (u64_of (n + 64)) 64 64 = Inr (Present ?k1)"
    by (simp add: src)
  moreover have "read_bounded_block (((?pre @ ?e1 @ ?k1) @ ?e2 @ ?k2 @ footer_encode ?f))
      (u64_of (n + 128)) 4627 4627 = Inr (Present ?e2)"
    using n l nonempty by (intro read_bounded_present) (simp_all add: n_def)
  then have "read_bounded_block ?src (u64_of (n + 128)) 4627 4627 = Inr (Present ?e2)"
    by (simp add: src)
  moreover have "read_bounded_block (((?pre @ ?e1 @ ?k1 @ ?e2) @ ?k2 @ footer_encode ?f))
      (u64_of (n + 4755)) 64 64 = Inr (Present ?k2)"
    using n l nonempty by (intro read_bounded_present) (simp_all add: n_def)
  then have "read_bounded_block ?src (u64_of (n + 4755)) 64 64 = Inr (Present ?k2)"
    by (simp add: src)
  moreover have "u64_of 64 = 64" "u64_of 4627 = 4627" by (simp_all add: u64_of_def)
  ultimately show ?thesis
    by (simp add: finish_package_container_def ENVELOPE_BOUNDS_def container_of_def
        present_of_def written_footer_def n_def)
qed

lemma package_envelope:
  assumes "writable base m a so"
  shows "finish_package_container (package_of base m a so)
     (written_footer (length base) (length m) (length a) (so \<noteq> None)) m ENVELOPE_BOUNDS
     = Inr (container_of base m a so)"
proof (cases so)
  case None
  then show ?thesis
    by (simp add: finish_package_container_def written_footer_def read_bounded_absent
        container_of_def present_of_def)
next
  case (Some s)
  with assms package_envelope_signed [of base m a s] show ?thesis by (simp add: writable_def)
qed

lemma read_written_package:
  "writable base m a so \<Longrightarrow>
     read_package_container (package_of base m a so) ENVELOPE_BOUNDS = Inr (container_of base m a so)"
  by (simp add: read_package_container_def package_head package_envelope del: not_None_eq)

lemma raw_archive_container_of [simp]:
  "writable base m a so \<Longrightarrow> raw_archive_block (container_of base m a so) = a"
  by (simp add: raw_archive_block_def container_of_def package_of_def writable_def)

lemma base_of_written_package:
  assumes "writable base m a so"
  shows "read_base_executable (package_of base m a so) = Inr base"
proof -
  have len: "length base + length m + length a + 4924 < 2 ^ 62"
    using assms by (simp add: writable_def)
  have "\<not> u64_of (length base + length m + length a + (if so \<noteq> None then 4819 else 0))
      < u64_of (length base)"
    using len by (simp add: word_less_nat_alt)
  moreover have "read_at (package_of base m a so) 0 (u64_of (length base)) = Inr base"
    using len read_at_slice [of 0 "[]" "u64_of (length base)" base]
    by (simp add: package_of_def)
  ultimately show ?thesis
    by (simp add: read_base_executable_def package_locate [OF assms])
qed

section \<open>What the reader accepts\<close>

lemma le_bytes_le_val: "length bs = k \<Longrightarrow> le_bytes k (le_val bs) = bs"
proof (induction bs arbitrary: k)
  case Nil
  then show ?case by simp
next
  case (Cons b bs)
  have m: "(ord b + 256 * le_val bs) mod 256 = ord b"
    and d: "(ord b + 256 * le_val bs) div 256 = le_val bs"
    using ord_less [of b] by simp_all
  from m have "char_of (ord b + 256 * le_val bs) = b"
    by (metis char_of_mod_256 char_of_char)
  with Cons d show ?case by auto
qed

lemma to_from_le_bytes: "length bs = 8 \<Longrightarrow> to_le_bytes (from_le_bytes bs) = bs"
  using le_val_bound [of bs]
  by (simp add: to_le_bytes_def from_le_bytes_def le_bytes_le_val)

lemma next_u64_Some:
  "next_u64 r = Some (v, r') \<Longrightarrow>
     take 8 (drop (fr_next r) (fr_bytes r)) = to_le_bytes v \<and>
     r' = r\<lparr>fr_next := fr_next r + 8\<rparr> \<and> fr_next r + 8 \<le> length (fr_bytes r)"
  by (auto simp: next_u64_def Let_def to_from_le_bytes split: if_splits)

lemma read_fields_Some:
  "read_fields k r = Some vs \<Longrightarrow>
     take (8 * k) (drop (fr_next r) (fr_bytes r)) = concat (map to_le_bytes vs) \<and> length vs = k"
proof (induction k arbitrary: r vs)
  case 0
  then show ?case by simp
next
  case (Suc k)
  then obtain v r' vs' where n: "next_u64 r = Some (v, r')"
    and vs: "read_fields k r' = Some vs'" "vs = v # vs'" by (auto split: option.splits)
  from next_u64_Some [OF n] have d: "take 8 (drop (fr_next r) (fr_bytes r)) = to_le_bytes v"
    and r': "fr_next r' = fr_next r + 8" "fr_bytes r' = fr_bytes r" by auto
  have "take (8 * Suc k) (drop (fr_next r) (fr_bytes r))
      = take 8 (drop (fr_next r) (fr_bytes r)) @ take (8 * k) (drop 8 (drop (fr_next r) (fr_bytes r)))"
    by (metis mult_Suc_right take_add)
  with Suc.IH [OF vs(1)] d r' vs(2) show ?case by (simp add: add.commute)
qed

lemma from_fields_Some: "from_fields v vs = Some f \<Longrightarrow> footer_fields f = vs \<and> ft_version f = v"
  by (induction v vs rule: from_fields.induct) (auto simp: footer_fields_def)

lemma classify_Selected:
  assumes "classify_candidate bs sz = Selected f"
  shows "ft_version f = FORMAT_VERSION \<and> fs_version sz = FORMAT_VERSION \<and>
     (length bs = FOOTER_SIZE \<longrightarrow> bs = footer_encode f)"
proof -
  from assms have magic: "take 8 bs = MAGIC" and len: "8 < length bs"
    and v: "bs ! 8 = fs_version sz" "bs ! 8 = FORMAT_VERSION"
    by (auto simp: classify_candidate_def Let_def SUPPORTED_CONTAINER_VERSIONS_def
        split: if_splits option.splits)
  from assms obtain vs where vs: "read_fields 12 (field_reader_new bs) = Some vs"
      "from_fields (bs ! 8) vs = Some f"
    by (auto simp: classify_candidate_def Let_def FOOTER_FIELDS_def split: if_splits option.splits)
  from from_fields_Some [OF vs(2)] v have f: "footer_fields f = vs" "ft_version f = FORMAT_VERSION"
    by auto
  have "bs = footer_encode f" if "length bs = FOOTER_SIZE"
  proof -
    have "bs = take 8 bs @ [bs ! 8] @ drop 9 bs"
      using len id_take_nth_drop [of 8 bs] by simp
    moreover have "take (8 * 12) (drop 9 bs) = concat (map to_le_bytes vs)"
      using read_fields_Some [OF vs(1)] by (simp add: field_reader_new_def)
    moreover from that have "length (drop 9 bs) = 96" by (simp add: FOOTER_SIZE_def FOOTER_SIZE_V3_def)
    ultimately show ?thesis using f magic v by (simp add: footer_encode_v3)
  qed
  with f v show ?thesis by simp
qed

interpretation footer_codec: canonical_codec footer_encode
  "\<lambda>bs. case classify_candidate bs v3_size of
          Selected f \<Rightarrow> (if length bs = FOOTER_SIZE then Some f else None) | _ \<Rightarrow> None"
  "\<lambda>f. ft_version f = FORMAT_VERSION"
  by unfold_locales (auto simp: classify_encoded dest: classify_Selected
      split: candidate.splits if_splits)

lemma locate_in_Found:
  "locate_in src szs unk = Inr (Found f start) \<Longrightarrow>
     \<exists>sz \<in> set szs. fs_bytes sz \<le> length src \<and> start = u64_of (length src - fs_bytes sz) \<and>
       classify_candidate (take (fs_bytes sz) (drop (length src - fs_bytes sz) src)) sz = Selected f"
proof (induction szs arbitrary: unk)
  case Nil
  then show ?case by (auto split: option.splits)
next
  case (Cons sz szs)
  then show ?case
    by (cases "classify_candidate (take (fs_bytes sz) (drop (length src - fs_bytes sz) src)) sz")
       (auto simp: Let_def split: if_splits)
qed

lemma locate_Found:
  assumes "locate_footer src = Inr (Found f start)" and "length src < 2 ^ 64"
  shows "src = take (unat start) src @ footer_encode f" and "ft_version f = FORMAT_VERSION"
    and "unat start + FOOTER_SIZE = length src"
proof -
  from locate_in_Found [OF assms(1) [unfolded locate_footer_def]] obtain sz where
    sz: "sz \<in> set KNOWN_FOOTER_SIZES" "fs_bytes sz \<le> length src"
      "start = u64_of (length src - fs_bytes sz)" and
    sel: "classify_candidate (take (fs_bytes sz) (drop (length src - fs_bytes sz) src)) sz = Selected f"
    by auto
  from classify_Selected [OF sel] sz(1) have b: "fs_bytes sz = FOOTER_SIZE"
    by (auto simp: KNOWN_FOOTER_SIZES_def FORMAT_VERSION_def FOOTER_SIZE_def)
  have "take FOOTER_SIZE (drop (length src - FOOTER_SIZE) src) = drop (length src - FOOTER_SIZE) src"
    using sz(2) b by simp
  with classify_Selected [OF sel] b sz(2)
  have "drop (length src - FOOTER_SIZE) src = footer_encode f" by auto
  moreover from sz b assms(2) have st: "unat start = length src - FOOTER_SIZE" by simp
  ultimately show "src = take (unat start) src @ footer_encode f"
    by (metis append_take_drop_id)
  from st sz(2) b show "unat start + FOOTER_SIZE = length src" by simp
  from classify_Selected [OF sel] show "ft_version f = FORMAT_VERSION" by simp
qed

lemma read_package_container_parts:
  assumes "read_package_container src bounds = (Inr c :: 'm payload_error + container)"
  obtains f start manifest where "(locate_footer src :: 'm payload_error + located) = Inr (Found f start)"
    and "(validate_footer f start :: 'm payload_error + unit) = Inr ()"
    and "(read_at src (ft_manifest_offset f) (ft_manifest_len f) :: 'm payload_error + bytes) = Inr manifest"
    and "finish_package_container src f manifest bounds = (Inr c :: 'm payload_error + container)"
proof -
  from assms obtain h :: "footer \<times> bytes" where
    "read_container_head src = (Inr (Some h) :: 'm payload_error + (footer \<times> bytes) option)" and
    "finish_package_container src (fst h) (snd h) bounds = (Inr c :: 'm payload_error + container)"
    by (auto simp: read_package_container_def split: prod.splits)
  moreover from this(1) obtain l where "(locate_footer src :: 'm payload_error + located) = Inr l"
    by (auto simp: read_container_head_def read_container_head_with_def)
  ultimately show thesis
    by (cases l) (auto simp: read_container_head_def read_container_head_with_def intro: that)
qed

text \<open>The bytes between the first block and the footer are the present blocks in order.\<close>

definition slice :: "bytes \<Rightarrow> u64 \<Rightarrow> u64 \<Rightarrow> bytes" where
  "slice src offset len = take (unat len) (drop (unat offset) src)"

lemma tiles_slices:
  "tiles c bs e \<Longrightarrow> e \<le> length src \<Longrightarrow>
     take (e - c) (drop c src)
     = concat (map (\<lambda>(offset, len, present). if present then slice src offset len else []) bs)"
proof (induction c bs e rule: tiles.induct)
  case (1 c e)
  then show ?case by simp
next
  case (2 c offset len present blocks e)
  show ?case
  proof (cases present)
    case False
    with 2 show ?thesis by simp
  next
    case True
    with 2 have c: "unat offset = c" and t: "tiles (c + unat len) blocks e" by auto
    from tiles_le [OF t] have "e - c = unat len + (e - (c + unat len))" by simp
    then have "take (e - c) (drop c src)
        = take (unat len) (drop c src) @ take (e - (c + unat len)) (drop (c + unat len) src)"
      by (metis add.commute drop_drop take_add)
    with 2 True c t show ?thesis by (simp add: slice_def)
  qed
qed

fun block_bytes :: "envelope_block \<Rightarrow> bytes" where
  "block_bytes (Present b) = b"
| "block_bytes _ = []"

definition envelope_of :: "container \<Rightarrow> envelope_block list" where
  "envelope_of c = [ct_signature c, ct_key_id c, ct_ml_dsa_87_signature c, ct_ml_dsa_87_key_id c]"

lemma read_bounded_block_slice:
  "read_bounded_block src offset len bound = Inr b \<Longrightarrow> b \<noteq> WrongLength \<Longrightarrow>
     block_bytes b = (if \<not> is_absent_pair offset len then slice src offset len else [])"
  by (auto simp: read_bounded_block_def read_block_def read_at_def slice_def split: if_splits)

lemma finish_container_Inr:
  assumes "finish_package_container src f manifest bounds = Inr c"
  shows "ct_src c = src" and "ct_manifest_bytes c = manifest" and "ct_footer_version c = ft_version f"
    and "raw_archive_block c = slice src (ft_archive_offset f) (ft_archive_len f)"
    and "WrongLength \<notin> set (envelope_of c) \<Longrightarrow> concat (map block_bytes (envelope_of c))
      = concat (map (\<lambda>(offset, len, present). if present then slice src offset len else [])
          (map (\<lambda>(offset, len, reason). (offset, len, \<not> is_absent_pair offset len)) (envelope_pairs f)))"
  using assms
  by (auto simp: finish_package_container_def raw_archive_block_def slice_def envelope_of_def
      envelope_pairs_def read_bounded_block_slice [unfolded slice_def])

section \<open>Properties\<close>

lemma container_of_fields [simp]:
  "ct_manifest_bytes (container_of base m a so) = m"
  "ct_footer_version (container_of base m a so) = FORMAT_VERSION"
  "ct_signature (container_of base m a so) = present_of (ds_signature \<circ> sg_ed25519) so"
  "ct_key_id (container_of base m a so) = present_of (ds_key_id \<circ> sg_ed25519) so"
  "ct_ml_dsa_87_signature (container_of base m a so) = present_of (ds_signature \<circ> sg_ml_dsa_87) so"
  "ct_ml_dsa_87_key_id (container_of base m a so) = present_of (ds_key_id \<circ> sg_ml_dsa_87) so"
  by (simp_all add: container_of_def)

text \<open>
  C1: Round trip. Whatever the base, the manifest block, the archive block and the signatures, a
  package written with \<open>write_standalone_tail\<close> is read back by \<open>read_package_container\<close> with exactly
  those blocks: the manifest bytes, the archive bytes and, when it is signed, both signatures and
  both key ids as present blocks of the right length (all absent when it is not). The manifest is
  not empty and the file is shorter than 2^62 bytes; without the latter, the top byte of an offset
  could imitate the magic of a retired, shorter footer.
\<close>

theorem container_roundtrip:
  assumes "writable base m a so"
  shows "\<exists>tail c. write_standalone_tail (u64_of (length base)) (u64_of (length m))
       (u64_of (length a)) so = (Inr tail :: 'm payload_error + bytes) \<and>
     read_package_container (base @ m @ a @ tail) ENVELOPE_BOUNDS
       = (Inr c :: 'm payload_error + container) \<and>
     ct_footer_version c = FORMAT_VERSION \<and> ct_manifest_bytes c = m \<and> raw_archive_block c = a \<and>
     ct_signature c = present_of (ds_signature \<circ> sg_ed25519) so \<and>
     ct_key_id c = present_of (ds_key_id \<circ> sg_ed25519) so \<and>
     ct_ml_dsa_87_signature c = present_of (ds_signature \<circ> sg_ml_dsa_87) so \<and>
     ct_ml_dsa_87_key_id c = present_of (ds_key_id \<circ> sg_ml_dsa_87) so"
proof -
  have "raw_archive_block (container_of base m a so) = a" using assms by simp
  then show ?thesis
    using write_package [OF assms, where 'm = 'm] read_written_package [OF assms, where 'a = 'm]
    unfolding package_of_def
    by (intro exI [of _ "envelope_bytes so @
          footer_encode (written_footer (length base) (length m) (length a) (so \<noteq> None))"]
        exI [of _ "container_of base m a so"])
       (simp add: container_of_def)
qed

definition sample_signed :: signed where
  "sample_signed =
     \<lparr>sg_ed25519 = \<lparr>ds_signature = replicate 64 CHR 0x07, ds_key_id = replicate 64 CHR ''a''\<rparr>,
      sg_ml_dsa_87 = \<lparr>ds_signature = replicate 4627 CHR 0x09, ds_key_id = replicate 64 CHR ''b''\<rparr>\<rparr>"

lemma sample_writable: "writable ''EXE'' ''{}'' ''zst'' (Some sample_signed)"
  by (simp add: writable_def validate_signed_Inr sample_signed_def ascii_defs list_all_iff)

theorem container_roundtrip_witness:
  "\<exists>tail c. write_standalone_tail 3 2 3 (Some sample_signed)
       = (Inr tail :: unit payload_error + bytes) \<and>
     read_package_container (''EXE'' @ ''{}'' @ ''zst'' @ tail) ENVELOPE_BOUNDS
       = (Inr c :: unit payload_error + container) \<and>
     ct_manifest_bytes c = ''{}'' \<and> raw_archive_block c = ''zst'' \<and>
     ct_key_id c = Present (replicate 64 CHR ''a'')"
proof -
  have "u64_of (length ''EXE'') = 3" "u64_of (length ''{}'') = 2" "u64_of (length ''zst'') = 3"
    by (simp_all add: u64_of_def)
  then show ?thesis
    using container_roundtrip [OF sample_writable, where 'm = unit]
    by (auto simp: present_of_def sample_signed_def)
qed

lemma read_package_layout:
  assumes "(read_package_container src bounds :: 'm payload_error + container) = Inr c"
    and "length src < 2 ^ 64"
  shows "\<exists>base envelope ft. src = base @ ct_manifest_bytes c @ raw_archive_block c @ envelope @ ft \<and>
     length ft = FOOTER_SIZE \<and> take 9 ft = MAGIC @ [FORMAT_VERSION] \<and>
     ct_footer_version c = FORMAT_VERSION \<and>
     (WrongLength \<notin> set (envelope_of c) \<longrightarrow> envelope = concat (map block_bytes (envelope_of c)))"
proof -
  from assms(1) obtain f start manifest where
    loc: "(locate_footer src :: 'm payload_error + located) = Inr (Found f start)" and
    val: "(validate_footer f start :: 'm payload_error + unit) = Inr ()" and
    man: "(read_at src (ft_manifest_offset f) (ft_manifest_len f) :: 'm payload_error + bytes)
      = Inr manifest" and
    fin: "finish_package_container src f manifest bounds = (Inr c :: 'm payload_error + container)"
    by (rule read_package_container_parts)
  note found = locate_Found [OF loc assms(2)]
  from val have t: "tiles (unat (ft_manifest_offset f)) (footer_blocks f) (unat start)"
    by (simp add: validate_footer_tiles)
  let ?env = "concat (map (\<lambda>(offset, len, present). if present then slice src offset len else [])
    (map (\<lambda>(offset, len, reason). (offset, len, \<not> is_absent_pair offset len)) (envelope_pairs f)))"
  have "take (unat start) src = take (unat (ft_manifest_offset f)) src @
      take (unat start - unat (ft_manifest_offset f)) (drop (unat (ft_manifest_offset f)) src)"
    using tiles_le [OF t] by (metis le_add_diff_inverse take_add)
  also have "take (unat start - unat (ft_manifest_offset f)) (drop (unat (ft_manifest_offset f)) src)
      = manifest @ raw_archive_block c @ ?env"
    using tiles_slices [OF t, of src] found(3) man finish_container_Inr(4) [OF fin]
    by (simp add: footer_blocks_def slice_def read_at_def split: if_splits)
  finally have "src = take (unat (ft_manifest_offset f)) src @ ct_manifest_bytes c @
      raw_archive_block c @ ?env @ footer_encode f"
    using found(1) finish_container_Inr(2) [OF fin] by simp
  moreover have "length (footer_encode f) = FOOTER_SIZE"
    "take 9 (footer_encode f) = MAGIC @ [FORMAT_VERSION]"
    using found(2) by (simp_all add: footer_encode_v3 FOOTER_SIZE_def FOOTER_SIZE_V3_def)
  moreover have "ct_footer_version c = FORMAT_VERSION"
    using found(2) finish_container_Inr(3) [OF fin] by simp
  moreover have "WrongLength \<notin> set (envelope_of c) \<longrightarrow> ?env = concat (map block_bytes (envelope_of c))"
    using finish_container_Inr(5) [OF fin] by simp
  ultimately show ?thesis by blast
qed

text \<open>
  Layout soundness. Any source the container reader accepts is a base followed by exactly the
  manifest block and the archive block it reports, a signature region, and a version 3 footer that
  ends the file; when no envelope block has an unexpected length, the signature region is the
  concatenation of the reported blocks, so no byte after the base is left unaccounted for.
\<close>

theorem container_layout_sound:
  assumes "(read_package_container src bounds :: 'm payload_error + container) = Inr c"
    and "length src < 2 ^ 64"
  shows "\<exists>base envelope ft. src = base @ ct_manifest_bytes c @ raw_archive_block c @ envelope @ ft \<and>
     length ft = FOOTER_SIZE \<and> take 9 ft = MAGIC @ [FORMAT_VERSION] \<and>
     ct_footer_version c = FORMAT_VERSION \<and>
     (WrongLength \<notin> set (envelope_of c) \<longrightarrow> envelope = concat (map block_bytes (envelope_of c)))"
  using assms by (rule read_package_layout)

theorem container_layout_sound_witness:
  "\<exists>base envelope ft. package_of ''EXE'' ''{}'' ''zst'' (Some sample_signed)
       = base @ ''{}'' @ ''zst'' @ envelope @ ft \<and> length ft = FOOTER_SIZE"
proof -
  let ?src = "package_of ''EXE'' ''{}'' ''zst'' (Some sample_signed)"
  have "length ?src < 2 ^ 64"
    using envelope_length [OF sample_writable] by (simp add: package_of_def FOOTER_SIZE_def FOOTER_SIZE_V3_def)
  from container_layout_sound [OF read_written_package [OF sample_writable, where 'a = unit] this]
  obtain base envelope ft where "?src = base @ ''{}'' @ ''zst'' @ envelope @ ft" "length ft = FOOTER_SIZE"
    by (auto simp only: container_of_fields raw_archive_container_of [OF sample_writable])
  then show ?thesis by blast
qed

text \<open>
  C2: A footer is accepted exactly when each optional block is wholly present or wholly absent and
  the present blocks, in the fixed order, start at the manifest offset, leave no gap, and end where
  the footer begins. The right-hand side is over natural numbers: no offset or length that
  overflows a u64 is accepted.
\<close>

theorem footer_accepted_iff_tiled:
  "(validate_footer f start :: 'm payload_error + unit) = Inr () \<longleftrightarrow>
     pairs_whole f \<and> tiles (unat (ft_manifest_offset f)) (footer_blocks f) (unat start)"
  by (rule validate_footer_tiles)

lemma checked_sub_u64_of:
  "b \<le> a \<Longrightarrow> a < 2 ^ 64 \<Longrightarrow> checked_sub (u64_of a) (u64_of b) = Some (u64_of (a - b))"
  by (simp add: checked_sub_Some)

lemma shifted_u64_of:
  "b \<le> a \<Longrightarrow> a < 2 ^ 64 \<Longrightarrow> n + (a - b) < 2 ^ 64 \<Longrightarrow>
     shifted (u64_of b) (u64_of n) (u64_of a) = Inr (u64_of (n + (a - b)))"
  by (simp add: shifted_def checked_sub_u64_of checked_add_u64_of)

lemma u64_of_diff: "b \<le> a \<Longrightarrow> a < 2 ^ 64 \<Longrightarrow> u64_of a - u64_of b = u64_of (a - b)"
  by (simp add: word_unat_eq_iff unat_sub_if')

lemma rewrap_written:
  assumes w: "writable base m a so" and w': "writable nb m a so"
  shows "rewrap_trailer (package_of base m a so) nb = (Inr (package_of nb m a so) :: 'm payload_error + bytes)"
proof -
  from w w' have m: "0 < length m"
    and l: "length base + length m + length a + 4924 < 2 ^ 62"
    and l': "length nb + length m + length a + 4924 < 2 ^ 62" by (auto simp: writable_def)
  define e where "e = (if so \<noteq> None then 4819 else 0 :: nat)"
  let ?f = "written_footer (length base) (length m) (length a) (so \<noteq> None)"
  let ?g = "written_footer (length nb) (length m) (length a) (so \<noteq> None)"
  let ?start = "u64_of (length base + length m + length a + e)"
  have env: "length (envelope_bytes so) = e" using envelope_length [OF w] by (simp add: e_def)
  have e: "e \<le> 4819" by (simp add: e_def)
  have val: "(validate_footer ?f ?start :: 'm payload_error + unit) = Inr ()"
    using written_footer_valid [of "length base" "length m" "length a" "so \<noteq> None"] l m
    by (simp add: e_def)
  have body: "?start - u64_of (length base) = u64_of (length m + length a + e)"
    using l e by (simp add: u64_of_diff add.assoc)
  have copied: "take (length m + length a + e) (drop (length base) (package_of base m a so))
      = m @ a @ envelope_bytes so"
    using env by (simp add: package_of_def)
  have lencopied: "length m + (length a + e) \<le> length (package_of base m a so) - length base"
    using env by (simp add: package_of_def)
  have g: "?f\<lparr>ft_manifest_offset := u64_of (length nb),
      ft_archive_offset := u64_of (length nb + length m),
      ft_signature_offset := ft_signature_offset ?g, ft_key_id_offset := ft_key_id_offset ?g,
      ft_ml_dsa_87_signature_offset := ft_ml_dsa_87_signature_offset ?g,
      ft_ml_dsa_87_key_id_offset := ft_ml_dsa_87_key_id_offset ?g\<rparr> = ?g"
    by (simp add: written_footer_def)
  have sh: "shifted (u64_of (length base)) (u64_of (length nb)) (u64_of (length base + length m))
      = (Inr (u64_of (length nb + length m)) :: 'm payload_error + u64)"
    using l l' by (simp add: shifted_u64_of)
  have she: "shifted_envelope (u64_of (length base)) (u64_of (length nb)) (sel ?f) (len ?f)
      = (Inr (sel ?g) :: 'm payload_error + u64)"
    if "(sel, len) \<in> {(ft_signature_offset, ft_signature_len), (ft_key_id_offset, ft_key_id_len),
         (ft_ml_dsa_87_signature_offset, ft_ml_dsa_87_signature_len),
         (ft_ml_dsa_87_key_id_offset, ft_ml_dsa_87_key_id_len)}" for sel len
    using that l l'
    by (cases "so \<noteq> None")
       (auto simp: shifted_envelope_def written_footer_def is_absent_pair_def u64_of_eq_0 shifted_u64_of add.assoc)
  show ?thesis
    unfolding rewrap_trailer_def package_locate [OF w] Let_def
    using val l e
    by (simp add: e_def [symmetric] body [unfolded add.assoc] copied [unfolded add.assoc] lencopied
        sh she g env add.assoc package_of_def [of nb] del: not_None_eq)
qed

text \<open>
  Rewrapping. Replacing the base of a written package gives exactly the package that would have
  been written over the new base: manifest, archive and envelope bytes are carried over and every
  offset moves with the base, absent envelope blocks staying absent.
\<close>

theorem rewrap_replaces_base:
  assumes "writable base m a so" and "writable nb m a so"
  shows "rewrap_trailer (package_of base m a so) nb = (Inr (package_of nb m a so) :: 'm payload_error + bytes) \<and>
     read_base_executable (package_of nb m a so) = (Inr nb :: 'm payload_error + bytes)"
  using assms by (simp add: rewrap_written base_of_written_package)

theorem rewrap_replaces_base_witness:
  "rewrap_trailer (package_of ''EXE'' ''{}'' ''zst'' (Some sample_signed)) ''NEWER''
     = (Inr (package_of ''NEWER'' ''{}'' ''zst'' (Some sample_signed)) :: unit payload_error + bytes)"
proof -
  have "writable ''NEWER'' ''{}'' ''zst'' (Some sample_signed)"
    using sample_writable by (simp add: writable_def)
  from rewrap_replaces_base [OF sample_writable this, where 'm = unit] show ?thesis by simp
qed

text \<open>
  Retired layouts are refused, not read around: a source that ends in a footer written for
  container version 1 is an unsupported-format error naming that version, whatever precedes it.
\<close>

theorem retired_version_1_refused:
  assumes "ft_version f = CHR 0x01"
  shows "locate_footer (before @ footer_encode f)
     = (Inl (PE_UnsupportedContainerFormat (CHR 0x01)) :: 'm payload_error + located)"
proof -
  let ?e = "footer_encode f"
  have e: "?e = MAGIC @ [CHR 0x01] @ concat (map to_le_bytes (take 4 (footer_fields f)))"
    using assms by (simp add: footer_encode_def)
  have len: "length ?e = 41" by (simp add: e)
  then have "take 41 (drop (length (before @ ?e) - 41) (before @ ?e)) = ?e" by simp
  moreover have "classify_candidate ?e \<lparr>fs_bytes = 41, fs_version = CHR 0x01\<rparr> = Retired (CHR 0x01)"
    by (simp add: classify_candidate_def e Let_def nth_append SUPPORTED_CONTAINER_VERSIONS_def
        FORMAT_VERSION_def)
  ultimately show ?thesis
    using len by (simp add: locate_footer_def KNOWN_FOOTER_SIZES_def FOOTER_SIZE_V1_def Let_def)
qed

theorem retired_version_1_refused_witness:
  "(locate_footer (''base'' @ footer_encode (zero_footer (CHR 0x01))) :: unit payload_error + located)
     = Inl (PE_UnsupportedContainerFormat (CHR 0x01))"
  by (rule retired_version_1_refused) (simp add: zero_footer_def)

end
