(* ===== verification/Image.thy ===== *)
theory Image
  imports Hex_Text
begin

text \<open>
  Image declarations and Docker references of \<open>src/image.rs\<close>: the reference parser with Docker's
  normalisation (default registry, \<open>library/\<close>), the character classes of domain, path, tag and
  segment, the canonical \<open>runtime.invalid\<close> alias, the semantic-version check, and the validation of
  a declaration with every error it can return. Rust's derived Serialize/Deserialize is not
  modelled; \<open>Display\<close> text is not modelled.
\<close>

section \<open>Data\<close>

definition IMAGE_DECLARATION_SCHEMA :: u32 where "IMAGE_DECLARATION_SCHEMA = 1"
definition RUNTIME_ALIAS_REGISTRY :: bytes where "RUNTIME_ALIAS_REGISTRY = ''runtime.invalid''"
definition RUNTIME_ALIAS_TAG_PREFIX :: bytes where "RUNTIME_ALIAS_TAG_PREFIX = ''cfg-''"
definition SHA256_DIGEST_PREFIX :: bytes where "SHA256_DIGEST_PREFIX = ''sha256:''"
definition DOCKER_DEFAULT_DOMAIN :: bytes where "DOCKER_DEFAULT_DOMAIN = ''docker.io''"
definition DOCKER_LEGACY_DEFAULT_DOMAIN :: bytes where
  "DOCKER_LEGACY_DEFAULT_DOMAIN = ''index.docker.io''"
definition DOCKER_OFFICIAL_REPO_PREFIX :: bytes where "DOCKER_OFFICIAL_REPO_PREFIX = ''library/''"
definition DOCKER_LOCALHOST :: bytes where "DOCKER_LOCALHOST = ''localhost''"
definition MAX_REPOSITORY_PATH_BYTES :: nat where "MAX_REPOSITORY_PATH_BYTES = 255"
definition MAX_TAG_BYTES :: nat where "MAX_TAG_BYTES = 128"
definition GIT_COMMIT_HEX_LEN :: nat where "GIT_COMMIT_HEX_LEN = 40"
definition IMAGE_DIGEST_HEX_LEN :: nat where "IMAGE_DIGEST_HEX_LEN = 64"

datatype target_arch = X86_64 | Aarch64
datatype image_os = Linux
datatype image_architecture = Amd64 | Arm64
datatype reference_lifecycle = ManagedRuntime | SharedExternal

fun for_target :: "target_arch \<Rightarrow> image_architecture" where
  "for_target X86_64 = Amd64"
| "for_target Aarch64 = Arm64"

record image_owner =
  io_namespace :: bytes
  io_component :: bytes

record image_platform =
  ip_os :: image_os
  ip_architecture :: image_architecture
  ip_variant :: "bytes option"

record registry_provenance =
  rp_repository :: bytes
  rp_tag :: bytes
  rp_version :: "bytes option"
  rp_pinned_digest :: bytes
  rp_selected_manifest_digest :: bytes

record product_build_provenance =
  pb_repository :: bytes
  pb_commit :: bytes

datatype image_provenance =
    Registry registry_provenance
  | ProductBuild product_build_provenance

record image_declaration =
  id_schema :: u32
  id_owner :: image_owner
  id_dependency :: bytes
  id_public_refs :: "bytes list"
  id_platform :: image_platform
  id_config_digest :: bytes
  id_reference_lifecycle :: reference_lifecycle
  id_provenance :: image_provenance

datatype segment_field = SegNamespace | SegComponent | SegDependency
datatype digest_field = DigConfig | DigPinned | DigSelectedManifest

datatype reference_error =
    RE_Empty
  | RE_DigestNotAllowed
  | RE_MissingTag
  | RE_TagNotAllowed
  | RE_InvalidTag bytes
  | RE_HexIdentifier
  | RE_Uppercase bytes
  | RE_InvalidDomain bytes
  | RE_InvalidPath bytes
  | RE_PathTooLong nat
  | RE_NotCanonical bytes

datatype image_declaration_error =
    ID_UnsupportedSchema u64
  | ID_InvalidSegment segment_field bytes
  | ID_EmptyPublicRefs
  | ID_InvalidReference bytes reference_error
  | ID_DuplicateReference bytes bytes
  | ID_EmptyVariant
  | ID_InvalidDigest digest_field bytes
  | ID_InvalidRegistryRepository bytes reference_error
  | ID_InvalidRegistryTag bytes
  | ID_InvalidRegistryVersion bytes
  | ID_InvalidSourceRepository bytes
  | ID_InvalidSourceCommit bytes
  | ID_InvalidRuntimeAlias bytes reference_error

record normalized_reference =
  nr_domain :: bytes
  nr_path :: bytes
  nr_tag :: bytes

section \<open>Character classes of the reference grammar\<close>

definition is_lower_hex :: "bytes \<Rightarrow> bool" where
  "is_lower_hex value = list_all is_lower_hex_byte value"

definition is_valid_segment :: "bytes \<Rightarrow> bool" where
  "is_valid_segment value =
     (case value of
        [] \<Rightarrow> False
      | first # rest \<Rightarrow>
          (is_ascii_lowercase first \<or> is_ascii_digit first) \<and>
          list_all (\<lambda>b. is_ascii_lowercase b \<or> is_ascii_digit b \<or> b \<in> {CHR ''-'', CHR ''_''}) rest)"

definition is_valid_tag :: "bytes \<Rightarrow> bool" where
  "is_valid_tag tag \<longleftrightarrow>
     length tag \<le> MAX_TAG_BYTES \<and>
     (case tag of
        [] \<Rightarrow> False
      | first # rest \<Rightarrow>
          (is_ascii_alphanumeric first \<or> first = CHR ''_'') \<and>
          list_all (\<lambda>b. is_ascii_alphanumeric b \<or> b \<in> {CHR ''_'', CHR ''.'', CHR ''-''}) rest)"

definition path_alnum :: "byte \<Rightarrow> bool" where
  "path_alnum b \<longleftrightarrow> is_ascii_lowercase b \<or> is_ascii_digit b"

definition valid_separator :: "bytes \<Rightarrow> bool" where
  "valid_separator s \<longleftrightarrow>
     s \<in> {''.'', ''_'', ''__''} \<or> (s \<noteq> [] \<and> list_all (\<lambda>b. b = CHR ''-'') s)"

text \<open>
  The loop of \<open>is_valid_path_component\<close> over the bytes from \<open>index\<close> on: a run of alphanumerics,
  then the end or a separator and another round. Each round consumes at least one byte.
\<close>

function is_valid_path_component :: "bytes \<Rightarrow> bool" where
  "is_valid_path_component bs =
     (let run = takeWhile path_alnum bs; rest = dropWhile path_alnum bs in
      if run = [] then False
      else if rest = [] then True
      else let separator = takeWhile (\<lambda>b. \<not> path_alnum b) rest in
        if \<not> valid_separator separator then False
        else is_valid_path_component (dropWhile (\<lambda>b. \<not> path_alnum b) rest))"
  by pat_completeness auto
termination
proof (relation "measure length", goal_cases)
  case 1
  then show ?case by simp
next
  case (2 bs run rest separator)
  have "length (dropWhile (\<lambda>b. \<not> path_alnum b) rest) \<le> length rest"
    by (rule length_dropWhile_le)
  moreover have "length bs = length run + length rest"
    unfolding 2(1,2) length_append [symmetric] takeWhile_dropWhile_id ..
  moreover have "0 < length run"
    using 2(3) by (simp only: length_greater_0_conv not_False_eq_True)
  ultimately have "length (dropWhile (\<lambda>b. \<not> path_alnum b) rest) < length bs"
    by linarith
  then show ?case
    by (simp only: in_measure)
qed

declare is_valid_path_component.simps [simp del]

definition is_valid_domain_component :: "bytes \<Rightarrow> bool" where
  "is_valid_domain_component component \<longleftrightarrow>
     component \<noteq> [] \<and> is_ascii_alphanumeric (hd component) \<and>
     is_ascii_alphanumeric (last component) \<and>
     list_all (\<lambda>b. is_ascii_alphanumeric b \<or> b = CHR ''-'') component"

definition is_valid_port :: "bytes option \<Rightarrow> bool" where
  "is_valid_port port =
     (case port of None \<Rightarrow> True | Some p \<Rightarrow> p \<noteq> [] \<and> list_all is_ascii_digit p)"

definition is_valid_domain_and_port :: "bytes \<Rightarrow> bool" where
  "is_valid_domain_and_port domain =
     (case strip_prefix ''['' domain of
        Some bracketed \<Rightarrow>
          (case split_once (CHR '']'') bracketed of
             None \<Rightarrow> False
           | Some (address, rest) \<Rightarrow>
               let address_valid = (address \<noteq> [] \<and>
                     list_all (\<lambda>b. is_ascii_hexdigit b \<or> b = CHR '':'') address)
               in if rest = [] then address_valid
                  else (case strip_prefix '':'' rest of
                          Some port \<Rightarrow> address_valid \<and> is_valid_port (Some port)
                        | None \<Rightarrow> False))
      | None \<Rightarrow>
          (case split_once (CHR '':'') domain of
             Some (host, port) \<Rightarrow>
               list_all is_valid_domain_component (split (CHR ''.'') host) \<and> is_valid_port (Some port)
           | None \<Rightarrow> list_all is_valid_domain_component (split (CHR ''.'') domain)))"

definition is_numeric_identifier :: "bytes \<Rightarrow> bool" where
  "is_numeric_identifier s \<longleftrightarrow>
     s \<noteq> [] \<and> list_all is_ascii_digit s \<and> (s = ''0'' \<or> \<not> starts_with ''0'' s)"

definition is_alphanumeric_identifier :: "bytes \<Rightarrow> bool" where
  "is_alphanumeric_identifier s \<longleftrightarrow>
     s \<noteq> [] \<and> list_all (\<lambda>b. is_ascii_alphanumeric b \<or> b = CHR ''-'') s"

definition is_canonical_semver :: "bytes \<Rightarrow> bool" where
  "is_canonical_semver version =
     (let (rest, build) = (case split_once (CHR ''+'') version of
                             Some (r, b) \<Rightarrow> (r, Some b) | None \<Rightarrow> (version, None));
          (core, prerelease) = (case split_once (CHR ''-'') rest of
                             Some (c, p) \<Rightarrow> (c, Some p) | None \<Rightarrow> (rest, None));
          parts = split (CHR ''.'') core
      in length parts = 3 \<and> list_all is_numeric_identifier parts \<and>
         (case prerelease of None \<Rightarrow> True | Some p \<Rightarrow>
            list_all (\<lambda>i. is_alphanumeric_identifier i \<and>
                (\<not> list_all is_ascii_digit i \<or> is_numeric_identifier i)) (split (CHR ''.'') p)) \<and>
         (case build of None \<Rightarrow> True | Some b \<Rightarrow>
            list_all is_alphanumeric_identifier (split (CHR ''.'') b)))"

section \<open>Parsing a reference\<close>

definition split_tag :: "bytes \<Rightarrow> (bytes \<times> bytes) option" where
  "split_tag reference =
     (case rfind_byte (CHR '':'') reference of
        None \<Rightarrow> None
      | Some colon \<Rightarrow>
          if (case rfind_byte (CHR ''/'') reference of None \<Rightarrow> False | Some slash \<Rightarrow> colon < slash)
          then None
          else Some (take colon reference, drop (colon + 1) reference))"

definition split_docker_domain :: "bytes \<Rightarrow> bytes \<times> bytes" where
  "split_docker_domain name =
     (let (domain, remote) =
        (case split_once (CHR ''/'') name of
           None \<Rightarrow> (DOCKER_DEFAULT_DOMAIN, name)
         | Some (first, rest) \<Rightarrow>
             if first = DOCKER_LOCALHOST then (first, rest)
             else if first = DOCKER_LEGACY_DEFAULT_DOMAIN then (DOCKER_DEFAULT_DOMAIN, rest)
             else if list_ex (\<lambda>b. b = CHR ''.'' \<or> b = CHR '':'') first \<or>
                     list_ex is_ascii_uppercase first then (first, rest)
             else (DOCKER_DEFAULT_DOMAIN, name))
      in (domain,
          if domain = DOCKER_DEFAULT_DOMAIN \<and> CHR ''/'' \<notin> set remote
          then DOCKER_OFFICIAL_REPO_PREFIX @ remote else remote))"

definition normalize_name :: "bytes \<Rightarrow> bytes \<Rightarrow> reference_error + bytes \<times> bytes" where
  "normalize_name whole name =
     (if length whole = IMAGE_DIGEST_HEX_LEN \<and> is_lower_hex whole then Inl RE_HexIdentifier
      else let (domain, path) = split_docker_domain name in
        if list_ex is_ascii_uppercase path then Inl (RE_Uppercase path)
        else if \<not> is_valid_domain_and_port domain then Inl (RE_InvalidDomain domain)
        else if \<not> list_all is_valid_path_component (split (CHR ''/'') path) then
          Inl (RE_InvalidPath path)
        else if MAX_REPOSITORY_PATH_BYTES < length path then Inl (RE_PathTooLong (length path))
        else Inr (domain, path))"

definition parse_tagged_reference :: "bytes \<Rightarrow> reference_error + normalized_reference" where
  "parse_tagged_reference reference =
     (if reference = [] then Inl RE_Empty
      else if CHR ''@'' \<in> set reference then Inl RE_DigestNotAllowed
      else bind_res (ok_or RE_MissingTag (split_tag reference)) (\<lambda>(name, tag).
        if \<not> is_valid_tag tag then Inl (RE_InvalidTag tag)
        else bind_res (normalize_name reference name) (\<lambda>(domain, path).
          Inr \<lparr>nr_domain = domain, nr_path = path, nr_tag = tag\<rparr>)))"

definition validate_canonical_repository :: "bytes \<Rightarrow> reference_error + unit" where
  "validate_canonical_repository repository =
     (if repository = [] then Inl RE_Empty
      else if CHR ''@'' \<in> set repository then Inl RE_DigestNotAllowed
      else if split_tag repository \<noteq> None then Inl RE_TagNotAllowed
      else bind_res (normalize_name repository repository) (\<lambda>(domain, path).
        let normalized = domain @ ''/'' @ path in
        if normalized = repository then Inr () else Inl (RE_NotCanonical normalized)))"

text \<open>\<open>NormalizedReference::host\<close>.\<close>

definition host :: "normalized_reference \<Rightarrow> bytes" where
  "host n =
     (if starts_with ''['' (nr_domain n) then
        (case find_byte (CHR '']'') (nr_domain n) of
           Some e \<Rightarrow> take (e + 1) (nr_domain n) | None \<Rightarrow> nr_domain n)
      else (case split_once (CHR '':'') (nr_domain n) of
              None \<Rightarrow> nr_domain n | Some (h, _) \<Rightarrow> h))"

section \<open>Declarations\<close>

definition validate_segment :: "segment_field \<Rightarrow> bytes \<Rightarrow> image_declaration_error + unit" where
  "validate_segment field value = ensure (is_valid_segment value) (ID_InvalidSegment field value)"

definition validate_digest :: "digest_field \<Rightarrow> bytes \<Rightarrow> image_declaration_error + bytes" where
  "validate_digest field value =
     ok_or (ID_InvalidDigest field value)
       (case strip_prefix SHA256_DIGEST_PREFIX value of
          None \<Rightarrow> None
        | Some hex \<Rightarrow> if length hex = IMAGE_DIGEST_HEX_LEN \<and> is_lower_hex hex then Some hex else None)"

definition canonical_runtime_alias ::
  "bytes \<Rightarrow> bytes \<Rightarrow> bytes \<Rightarrow> bytes \<Rightarrow> image_declaration_error + bytes" where
  "canonical_runtime_alias namespace component dependency config_digest =
     bind_res (validate_segment SegNamespace namespace) (\<lambda>_.
     bind_res (validate_segment SegComponent component) (\<lambda>_.
     bind_res (validate_segment SegDependency dependency) (\<lambda>_.
     bind_res (validate_digest DigConfig config_digest) (\<lambda>hex.
     let alias = RUNTIME_ALIAS_REGISTRY @ ''/'' @ namespace @ ''/'' @ component @ ''/'' @
                 dependency @ '':'' @ RUNTIME_ALIAS_TAG_PREFIX @ hex
     in case parse_tagged_reference alias of
          Inr _ \<Rightarrow> Inr alias
        | Inl source \<Rightarrow> Inl (ID_InvalidRuntimeAlias alias source)))))"

definition registry_validate :: "registry_provenance \<Rightarrow> image_declaration_error + unit" where
  "registry_validate p =
     bind_res (map_err (ID_InvalidRegistryRepository (rp_repository p))
                 (validate_canonical_repository (rp_repository p))) (\<lambda>_.
     bind_res (ensure (is_valid_tag (rp_tag p)) (ID_InvalidRegistryTag (rp_tag p))) (\<lambda>_.
     bind_res (case rp_version p of
                 None \<Rightarrow> Inr ()
               | Some version \<Rightarrow>
                   ensure (is_canonical_semver version) (ID_InvalidRegistryVersion version)) (\<lambda>_.
     bind_res (validate_digest DigPinned (rp_pinned_digest p)) (\<lambda>_.
     bind_res (validate_digest DigSelectedManifest (rp_selected_manifest_digest p)) (\<lambda>_.
     Inr ())))))"

definition product_build_validate :: "product_build_provenance \<Rightarrow> image_declaration_error + unit" where
  "product_build_validate p =
     (let repository = pb_repository p in
      if repository = [] \<or> \<not> is_trimmed repository \<or> has_control repository then
        Inl (ID_InvalidSourceRepository repository)
      else if length (pb_commit p) \<noteq> GIT_COMMIT_HEX_LEN \<or> \<not> is_lower_hex (pb_commit p) then
        Inl (ID_InvalidSourceCommit (pb_commit p))
      else Inr ())"

text \<open>The loop over \<open>public_refs\<close>, with the references already seen.\<close>

fun check_public_refs ::
  "(normalized_reference \<times> bytes) list \<Rightarrow> bytes list \<Rightarrow> image_declaration_error + unit" where
  "check_public_refs seen [] = Inr ()"
| "check_public_refs seen (reference # rest) =
     bind_res (map_err (ID_InvalidReference reference) (parse_tagged_reference reference)) (\<lambda>normalized.
     case find (\<lambda>(key, _). key = normalized) seen of
       Some (_, first) \<Rightarrow> Inl (ID_DuplicateReference reference first)
     | None \<Rightarrow> check_public_refs (seen @ [(normalized, reference)]) rest)"

definition declaration_validate :: "image_declaration \<Rightarrow> image_declaration_error + unit" where
  "declaration_validate d =
     bind_res (ensure (id_schema d = IMAGE_DECLARATION_SCHEMA)
                 (ID_UnsupportedSchema (ucast (id_schema d)))) (\<lambda>_.
     bind_res (validate_segment SegNamespace (io_namespace (id_owner d))) (\<lambda>_.
     bind_res (validate_segment SegComponent (io_component (id_owner d))) (\<lambda>_.
     bind_res (validate_segment SegDependency (id_dependency d)) (\<lambda>_.
     bind_res (ensure (id_public_refs d \<noteq> []) ID_EmptyPublicRefs) (\<lambda>_.
     bind_res (check_public_refs [] (id_public_refs d)) (\<lambda>_.
     bind_res (ensure (ip_variant (id_platform d) \<noteq> Some []) ID_EmptyVariant) (\<lambda>_.
     bind_res (validate_digest DigConfig (id_config_digest d)) (\<lambda>_.
     case id_provenance d of
       Registry registry \<Rightarrow> registry_validate registry
     | ProductBuild build \<Rightarrow> product_build_validate build))))))))"

definition declaration_runtime_alias :: "image_declaration \<Rightarrow> image_declaration_error + bytes" where
  "declaration_runtime_alias d =
     canonical_runtime_alias (io_namespace (id_owner d)) (io_component (id_owner d))
       (id_dependency d) (id_config_digest d)"

definition normalized_third_party ::
  "image_owner \<Rightarrow> bytes \<Rightarrow> image_platform \<Rightarrow> bytes \<Rightarrow> registry_provenance \<Rightarrow>
     image_declaration_error + image_declaration" where
  "normalized_third_party owner dependency platform config_digest provenance =
     bind_res (canonical_runtime_alias (io_namespace owner) (io_component owner) dependency config_digest)
       (\<lambda>alias.
     let declaration =
       \<lparr>id_schema = IMAGE_DECLARATION_SCHEMA, id_owner = owner, id_dependency = dependency,
        id_public_refs = [alias], id_platform = platform, id_config_digest = config_digest,
        id_reference_lifecycle = ManagedRuntime, id_provenance = Registry provenance\<rparr>
     in bind_res (declaration_validate declaration) (\<lambda>_. Inr declaration))"

end
