(* ===== verification/Image_Correct.thy ===== *)
theory Image_Correct
  imports Image
begin

text \<open>
  What \<open>src/image.rs\<close> promises of the references it accepts: the normal form of a reference parses
  to itself, the path-component loop accepts exactly a regular grammar, a valid declaration lists
  pairwise different images, and the canonical runtime alias identifies its declaration.
\<close>

section \<open>Characters that separate\<close>

lemma tag_no_separator:
  assumes "is_valid_tag t"
  shows "CHR '':'' \<notin> set t" "CHR ''/'' \<notin> set t" "CHR ''@'' \<notin> set t" "t \<noteq> []"
proof -
  have "\<And>c. c \<in> set t \<Longrightarrow> is_ascii_alphanumeric c \<or> c \<in> {CHR ''_'', CHR ''.'', CHR ''-''}"
    using assms by (cases t) (auto simp: is_valid_tag_def list_all_iff)
  from this [of "CHR '':''"] this [of "CHR ''/''"] this [of "CHR ''@''"]
  show "CHR '':'' \<notin> set t" "CHR ''/'' \<notin> set t" "CHR ''@'' \<notin> set t"
    by (auto simp: ascii_defs)
  show "t \<noteq> []" using assms by (auto simp: is_valid_tag_def)
qed

lemma segment_bytes:
  assumes "is_valid_segment s" "c \<in> set s"
  shows "is_ascii_lowercase c \<or> is_ascii_digit c \<or> c = CHR ''-'' \<or> c = CHR ''_''"
  using assms by (cases s) (auto simp: is_valid_segment_def list_all_iff)

lemma segment_no_separator:
  assumes "is_valid_segment s"
  shows "CHR ''/'' \<notin> set s" "CHR '':'' \<notin> set s" "CHR ''@'' \<notin> set s"
  using segment_bytes [OF assms, of "CHR ''/''"] segment_bytes [OF assms, of "CHR '':''"]
    segment_bytes [OF assms, of "CHR ''@''"]
  by (auto simp: ascii_defs)

lemma lower_hex_no_separator:
  assumes "is_lower_hex h"
  shows "CHR ''/'' \<notin> set h" "CHR '':'' \<notin> set h"
  using assms by (auto simp: is_lower_hex_def list_all_iff ascii_defs)

section \<open>Splitting a reference\<close>

lemma split_tagD:
  assumes "split_tag r = Some (name, tag)"
  shows "r = name @ '':'' @ tag" "CHR '':'' \<notin> set tag" "CHR ''/'' \<notin> set tag"
proof -
  from assms obtain i where i: "rfind_byte (CHR '':'') r = Some i"
    and n: "name = take i r" and t: "tag = drop (i + 1) r"
    and ns: "\<not> (case rfind_byte (CHR ''/'') r of None \<Rightarrow> False | Some slash \<Rightarrow> i < slash)"
    by (auto simp: split_tag_def split: option.splits if_splits)
  from i obtain a b where ab: "r = a @ CHR '':'' # b" "CHR '':'' \<notin> set b" "length a = i"
    by (auto simp: rfind_byte_Some)
  with n t have nt: "name = a" "tag = b" by auto
  with ab show "r = name @ '':'' @ tag" "CHR '':'' \<notin> set tag" by auto
  show "CHR ''/'' \<notin> set tag"
  proof
    assume "CHR ''/'' \<in> set tag"
    then have "CHR ''/'' \<in> set b" by (simp add: nt)
    then obtain x y where xy: "b = x @ CHR ''/'' # y" "CHR ''/'' \<notin> set y"
      using split_list_last by fastforce
    have "rfind_byte (CHR ''/'') ((a @ CHR '':'' # x) @ CHR ''/'' # y) =
        Some (length (a @ CHR '':'' # x))"
      by (rule rfind_byte_append) (rule xy(2))
    then have "rfind_byte (CHR ''/'') r = Some (length a + 1 + length x)"
      by (simp add: ab(1) xy(1))
    with ns ab(3) show False by simp
  qed
qed

lemma split_tag_append:
  assumes "CHR '':'' \<notin> set tag" "CHR ''/'' \<notin> set tag"
  shows "split_tag (name @ '':'' @ tag) = Some (name, tag)"
proof -
  have c: "rfind_byte (CHR '':'') (name @ CHR '':'' # tag) = Some (length name)"
    using assms(1) by (rule rfind_byte_append)
  show ?thesis
  proof (cases "rfind_byte (CHR ''/'') (name @ CHR '':'' # tag)")
    case None
    with c show ?thesis by (simp add: split_tag_def)
  next
    case (Some i)
    then obtain a b where ab: "name @ CHR '':'' # tag = a @ CHR ''/'' # b"
        "CHR ''/'' \<notin> set b" "length a = i"
      by (auto simp: rfind_byte_Some)
    have "i < length name"
    proof (rule ccontr)
      assume "\<not> i < length name"
      with ab obtain us where "CHR '':'' # tag = us @ CHR ''/'' # b"
        by (auto simp: append_eq_append_conv2)
      with assms(2) show False by (cases us) auto
    qed
    with c Some show ?thesis by (simp add: split_tag_def)
  qed
qed

text \<open>
  The four shapes of \<open>split_docker_domain\<close>: what it returns always has a domain that it would pick
  again when given \<open>domain/remote\<close>.
\<close>

lemma split_docker_domain_stable:
  assumes "split_docker_domain name = (domain, remote)"
  shows "split_docker_domain (domain @ ''/'' @ remote) = (domain, remote)"
proof -
  have again: "split_docker_domain (d @ ''/'' @ r) = (d, r)"
    if "CHR ''/'' \<notin> set d" "d = DOCKER_DEFAULT_DOMAIN \<longrightarrow> CHR ''/'' \<in> set r"
      "d = DOCKER_LOCALHOST \<or> d \<noteq> DOCKER_LEGACY_DEFAULT_DOMAIN \<and>
         (list_ex (\<lambda>b. b = CHR ''.'' \<or> b = CHR '':'') d \<or> list_ex is_ascii_uppercase d)"
    for d r
    using that by (auto simp: split_docker_domain_def split_once_append)
  have dd: "CHR ''/'' \<notin> set DOCKER_DEFAULT_DOMAIN" "DOCKER_DEFAULT_DOMAIN \<noteq> DOCKER_LEGACY_DEFAULT_DOMAIN"
    "list_ex (\<lambda>b. b = CHR ''.'' \<or> b = CHR '':'') DOCKER_DEFAULT_DOMAIN"
    "CHR ''/'' \<in> set DOCKER_OFFICIAL_REPO_PREFIX"
    by (simp_all add: DOCKER_DEFAULT_DOMAIN_def DOCKER_LEGACY_DEFAULT_DOMAIN_def
        DOCKER_OFFICIAL_REPO_PREFIX_def)
  show ?thesis
  proof (rule again)
    show "CHR ''/'' \<notin> set domain"
      using assms dd by (auto simp: split_docker_domain_def Let_def split_once_Some
          split: option.splits if_splits)
    show "domain = DOCKER_DEFAULT_DOMAIN \<longrightarrow> CHR ''/'' \<in> set remote"
      using assms dd by (auto simp: split_docker_domain_def Let_def
          split: option.splits if_splits)
    show "domain = DOCKER_LOCALHOST \<or> domain \<noteq> DOCKER_LEGACY_DEFAULT_DOMAIN \<and>
         (list_ex (\<lambda>b. b = CHR ''.'' \<or> b = CHR '':'') domain \<or> list_ex is_ascii_uppercase domain)"
      using assms dd by (auto simp: split_docker_domain_def Let_def
          split: option.splits if_splits)
  qed
qed

lemma normalize_name_split:
  "normalize_name whole name = Inr (domain, path) \<Longrightarrow> split_docker_domain name = (domain, path)"
  by (auto simp: normalize_name_def split: if_splits prod.splits)

lemma normalize_name_again:
  assumes "normalize_name whole name = Inr (domain, path)" "CHR '':'' \<in> set whole'"
  shows "normalize_name whole' (domain @ ''/'' @ path) = Inr (domain, path)"
proof -
  have s: "split_docker_domain (domain @ ''/'' @ path) = (domain, path)"
    using split_docker_domain_stable [OF normalize_name_split [OF assms(1)]] .
  have "\<not> is_lower_hex whole'" using assms(2) by (auto dest: lower_hex_no_separator)
  with assms(1) s normalize_name_split [OF assms(1)] show ?thesis
    by (auto simp: normalize_name_def split: if_splits prod.splits)
qed

lemma split_docker_domain_no_at:
  assumes "split_docker_domain name = (domain, remote)" "CHR ''@'' \<notin> set name"
  shows "CHR ''@'' \<notin> set (domain @ ''/'' @ remote)"
proof -
  have c: "CHR ''@'' \<notin> set DOCKER_DEFAULT_DOMAIN" "CHR ''@'' \<notin> set DOCKER_OFFICIAL_REPO_PREFIX"
    by (simp_all add: DOCKER_DEFAULT_DOMAIN_def DOCKER_OFFICIAL_REPO_PREFIX_def)
  have "CHR ''@'' \<notin> set domain"
    using assms c by (auto simp: split_docker_domain_def Let_def split_once_Some
        split: option.splits if_splits)
  moreover have "CHR ''@'' \<notin> set remote"
    using assms c by (auto simp: split_docker_domain_def Let_def split_once_Some
        split: option.splits if_splits)
  ultimately show ?thesis by simp
qed

section \<open>The normal form\<close>

definition normal_form :: "normalized_reference \<Rightarrow> bytes" where
  "normal_form n = nr_domain n @ ''/'' @ nr_path n @ '':'' @ nr_tag n"

lemma parse_normal_form:
  assumes "parse_tagged_reference r = Inr n"
  shows "parse_tagged_reference (normal_form n) = Inr n"
proof -
  from assms obtain name domain path tag where p: "CHR ''@'' \<notin> set r"
    "split_tag r = Some (name, tag)" "is_valid_tag tag"
    "normalize_name r name = Inr (domain, path)"
    "n = \<lparr>nr_domain = domain, nr_path = path, nr_tag = tag\<rparr>"
    by (auto simp: parse_tagged_reference_def split: if_splits)
  let ?w = "(domain @ ''/'' @ path) @ '':'' @ tag"
  have name: "CHR ''@'' \<notin> set name" using p(1) split_tagD(1) [OF p(2)] by auto
  have "CHR ''@'' \<notin> set (domain @ ''/'' @ path)"
    using split_docker_domain_no_at [OF normalize_name_split [OF p(4)] name] .
  then have at: "CHR ''@'' \<notin> set ?w"
    using tag_no_separator [OF p(3)] by simp
  have st: "split_tag ?w = Some (domain @ ''/'' @ path, tag)"
    by (rule split_tag_append) (use tag_no_separator [OF p(3)] in auto)
  have nn: "normalize_name ?w (domain @ ''/'' @ path) = Inr (domain, path)"
    by (rule normalize_name_again [OF p(4)]) simp
  have "parse_tagged_reference ?w = Inr n"
    using at st nn p(3,5) by (auto simp: parse_tagged_reference_def)
  then show ?thesis by (simp add: normal_form_def p(5))
qed

text \<open>Printing the normal form and parsing it back is a codec on the accepted references.\<close>

definition parse_reference :: "bytes \<Rightarrow> normalized_reference option" where
  "parse_reference r = (case parse_tagged_reference r of Inl _ \<Rightarrow> None | Inr n \<Rightarrow> Some n)"

definition accepted_reference :: "normalized_reference \<Rightarrow> bool" where
  "accepted_reference n \<longleftrightarrow> parse_tagged_reference (normal_form n) = Inr n"

interpretation reference_codec: codec normal_form parse_reference accepted_reference
  by unfold_locales (simp add: parse_reference_def accepted_reference_def)

text \<open>
  Docker normalisation is stable: the reference \<open>domain/path:tag\<close> written from any accepted
  reference is accepted and parses to the same normal form, so two references name the same image
  exactly when their normal forms are the same text.
\<close>

theorem reference_normal_form:
  assumes "parse_tagged_reference r = Inr n" "parse_tagged_reference r' = Inr n'"
  shows "parse_tagged_reference (nr_domain n @ ''/'' @ nr_path n @ '':'' @ nr_tag n) = Inr n \<and>
    (n = n' \<longleftrightarrow>
       nr_domain n @ ''/'' @ nr_path n @ '':'' @ nr_tag n =
       nr_domain n' @ ''/'' @ nr_path n' @ '':'' @ nr_tag n')"
  using assms [THEN parse_normal_form] reference_codec.encode_inj [of n n']
  by (auto simp: accepted_reference_def normal_form_def)

theorem reference_normal_form_witness:
  "parse_tagged_reference ''docker.io/library/nginx:1.25'' =
     Inr \<lparr>nr_domain = ''docker.io'', nr_path = ''library/nginx'', nr_tag = ''1.25''\<rparr>"
proof -
  let ?n = "\<lparr>nr_domain = ''docker.io'', nr_path = ''library/nginx'', nr_tag = ''1.25''\<rparr>"
  have "parse_tagged_reference ''nginx:1.25'' = Inr ?n"
    "parse_tagged_reference ''index.docker.io/nginx:1.25'' = Inr ?n"
    by code_simp+
  from reference_normal_form [OF this] show ?thesis by simp
qed

section \<open>The path component loop\<close>

text \<open>
  The grammar the loop implements: a run of lowercase letters and digits, then any number of
  separators each followed by another run.
\<close>

inductive path_component :: "bytes \<Rightarrow> bool" where
  run: "run \<noteq> [] \<Longrightarrow> list_all path_alnum run \<Longrightarrow> path_component run"
| separated: "run \<noteq> [] \<Longrightarrow> list_all path_alnum run \<Longrightarrow> valid_separator sep \<Longrightarrow> path_component rest \<Longrightarrow>
    path_component (run @ sep @ rest)"

lemma separator_not_alnum:
  assumes "valid_separator s"
  shows "list_all (\<lambda>b. \<not> path_alnum b) s"
proof -
  have no: "\<not> path_alnum (CHR ''-'')" "\<not> path_alnum (CHR ''.'')" "\<not> path_alnum (CHR ''_'')"
    by (simp_all add: path_alnum_def is_ascii_lowercase_def is_ascii_digit_def)
  from assms consider "s = ''.''" | "s = ''_''" | "s = ''__''" | "list_all (\<lambda>b. b = CHR ''-'') s"
    unfolding valid_separator_def by blast
  then show ?thesis
  proof cases
    case 4
    then show ?thesis by (rule list.pred_mono_strong) (erule ssubst, rule no(1))
  qed (use no in simp_all)
qed

lemma separator_nonempty: "valid_separator s \<Longrightarrow> s \<noteq> []"
  by (auto simp: valid_separator_def)

lemma takeWhile_dropWhile_split:
  assumes "list_all P a" "b = [] \<or> \<not> P (hd b)"
  shows "takeWhile P (a @ b) = a" "dropWhile P (a @ b) = b"
proof -
  have b: "takeWhile P b = []" "dropWhile P b = b"
    using assms(2) by (cases b; auto)+
  have "takeWhile P (a @ b) = a @ takeWhile P b" "dropWhile P (a @ b) = dropWhile P b"
    using assms(1) by (simp_all add: list_all_iff)
  with b show "takeWhile P (a @ b) = a" "dropWhile P (a @ b) = b" by simp_all
qed

lemma path_component_hd: "path_component s \<Longrightarrow> s \<noteq> [] \<and> path_alnum (hd s)"
  by (induction rule: path_component.induct) (auto simp: neq_Nil_conv)

lemma is_valid_path_component_sound:
  "is_valid_path_component bs \<Longrightarrow> path_component bs"
proof (induction bs rule: is_valid_path_component.induct)
  case (1 bs)
  define run where "run = takeWhile path_alnum bs"
  define rest where "rest = dropWhile path_alnum bs"
  define sep where "sep = takeWhile (\<lambda>b. \<not> path_alnum b) rest"
  define more where "more = dropWhile (\<lambda>b. \<not> path_alnum b) rest"
  have bs: "bs = run @ rest" "rest = sep @ more"
    by (simp_all add: run_def rest_def sep_def more_def)
  have all: "list_all path_alnum run"
    by (auto simp: run_def list_all_iff dest: set_takeWhileD)
  from 1(2) have "run \<noteq> []" "rest \<noteq> [] \<Longrightarrow> valid_separator sep \<and> is_valid_path_component more"
    by (subst (asm) is_valid_path_component.simps,
        simp add: Let_def run_def rest_def sep_def more_def split: if_splits)+
  note ok = this
  show ?case
  proof (cases "rest = []")
    case True
    with ok all bs show ?thesis by (simp add: path_component.run)
  next
    case False
    from 1(1) [OF run_def rest_def ok(1) False sep_def] ok(2) [OF False]
    have "path_component more" by (simp add: more_def)
    with ok all False show ?thesis unfolding bs(1) bs(2)
      by (blast intro: path_component.separated)
  qed
qed

lemma is_valid_path_component_complete:
  "path_component bs \<Longrightarrow> is_valid_path_component bs"
proof (induction rule: path_component.induct)
  case (run run)
  have "takeWhile path_alnum run = run" "dropWhile path_alnum run = []"
    using takeWhile_dropWhile_split [of path_alnum run "[]"] run by auto
  then show ?case
    by (subst is_valid_path_component.simps) (simp only: Let_def run(1) if_False if_True simp_thms)
next
  case (separated run sep rest)
  from separated(3) obtain c sep' where sep: "sep = c # sep'" "\<not> path_alnum c"
    using separator_not_alnum [OF separated(3)] separator_nonempty [OF separated(3)]
    by (cases sep) auto
  from path_component_hd [OF separated(4)] have hd: "rest \<noteq> []" "path_alnum (hd rest)" by auto
  have r: "takeWhile path_alnum (run @ sep @ rest) = run" "dropWhile path_alnum (run @ sep @ rest) = sep @ rest"
    using takeWhile_dropWhile_split [of path_alnum run "sep @ rest"] separated(2) sep by auto
  have s: "takeWhile (\<lambda>b. \<not> path_alnum b) (sep @ rest) = sep"
    "dropWhile (\<lambda>b. \<not> path_alnum b) (sep @ rest) = rest"
    using takeWhile_dropWhile_split [of "\<lambda>b. \<not> path_alnum b" sep rest]
      separator_not_alnum [OF separated(3)] hd by auto
  show ?case
    by (subst is_valid_path_component.simps)
      (simp add: Let_def r s separated hd)
qed

text \<open>
  The hand-written loop of \<open>is_valid_path_component\<close> (byte index, runs and separators) accepts
  exactly the Docker grammar of a path component: no leading or trailing separator, dashes of any
  length, one dot, one or two underscores.
\<close>

theorem path_component_grammar:
  "is_valid_path_component bs = path_component bs"
  using is_valid_path_component_sound is_valid_path_component_complete by blast

section \<open>Declarations\<close>

lemma check_public_refs_distinct:
  assumes "check_public_refs seen refs = Inr ()"
  shows "\<exists>ns. map parse_tagged_reference refs = map Inr ns \<and> distinct ns \<and> set ns \<inter> fst ` set seen = {}"
  using assms
proof (induction refs arbitrary: seen)
  case Nil
  then show ?case by simp
next
  case (Cons r refs)
  then obtain n where n: "parse_tagged_reference r = Inr n" by auto
  with Cons.prems have new: "find (\<lambda>(key, _). key = n) seen = None"
    and tail: "check_public_refs (seen @ [(n, r)]) refs = Inr ()"
    by (cases "find (\<lambda>(key, _). key = n) seen"; auto)+
  from Cons.IH [OF tail] obtain ns where ns: "map parse_tagged_reference refs = map Inr ns"
    "distinct ns" "set ns \<inter> fst ` set (seen @ [(n, r)]) = {}" by blast
  have "n \<notin> fst ` set seen" using new by (auto simp: find_None_iff)
  with ns n have "map parse_tagged_reference (r # refs) = map Inr (n # ns) \<and> distinct (n # ns) \<and>
      set (n # ns) \<inter> fst ` set seen = {}" by auto
  then show ?case by blast
qed

lemma validate_digest_Inr:
  "validate_digest f v = Inr hex \<longleftrightarrow>
     v = SHA256_DIGEST_PREFIX @ hex \<and> length hex = IMAGE_DIGEST_HEX_LEN \<and> is_lower_hex hex"
  by (auto simp: validate_digest_def strip_prefix_Some split: option.splits if_splits)

lemma validate_segment_Inr [simp]: "validate_segment f v = Inr u \<longleftrightarrow> is_valid_segment v"
  by (simp add: validate_segment_def)

text \<open>
  A declaration that validates has the supported schema, at least one public reference, and its
  public references all parse to pairwise different normalised references; a mixture of spellings of
  one image (\<open>nginx:1\<close>, \<open>docker.io/library/nginx:1\<close>) is refused.
\<close>

theorem declaration_references_distinct:
  assumes "declaration_validate d = Inr ()"
  shows "id_schema d = IMAGE_DECLARATION_SCHEMA \<and> id_public_refs d \<noteq> [] \<and>
    (\<exists>ns. map parse_tagged_reference (id_public_refs d) = map Inr ns \<and> distinct ns)"
  using assms check_public_refs_distinct [of "[]" "id_public_refs d"]
  by (auto simp: declaration_validate_def)

definition sample_hex :: bytes where
  "sample_hex = replicate 64 (CHR ''a'')"

definition sample_digest :: bytes where
  "sample_digest = SHA256_DIGEST_PREFIX @ sample_hex"

definition sample_refs :: "bytes list" where
  "sample_refs = [''nginx:1.25'', ''ghcr.io/aicers/nginx:1.25'']"

definition sample_build :: product_build_provenance where
  "sample_build = \<lparr>pb_repository = ''https://git.invalid/x'', pb_commit = replicate 40 (CHR ''0'')\<rparr>"

definition sample_declaration :: image_declaration where
  "sample_declaration =
     \<lparr>id_schema = 1, id_owner = \<lparr>io_namespace = ''clumit'', io_component = ''web''\<rparr>,
      id_dependency = ''nginx'', id_public_refs = sample_refs,
      id_platform = \<lparr>ip_os = Linux, ip_architecture = Amd64, ip_variant = None\<rparr>,
      id_config_digest = sample_digest, id_reference_lifecycle = ManagedRuntime,
      id_provenance = ProductBuild sample_build\<rparr>"

lemma sample_hex_ok: "is_lower_hex sample_hex" "length sample_hex = IMAGE_DIGEST_HEX_LEN"
  by (simp_all add: sample_hex_def is_lower_hex_def list_all_iff is_lower_hex_byte_def
      IMAGE_DIGEST_HEX_LEN_def)

lemma sample_segments: "is_valid_segment ''clumit''" "is_valid_segment ''web''" "is_valid_segment ''nginx''"
  by (simp_all add: is_valid_segment_def is_ascii_lowercase_def is_ascii_digit_def)

lemma sample_build_ok: "product_build_validate sample_build = Inr ()"
proof -
  have "list_all (\<lambda>c. 32 \<le> ord c \<and> ord c < 127) ''https://git.invalid/x''" by simp
  then have "\<not> has_control ''https://git.invalid/x''" by (rule has_control_ascii)
  moreover have "utf8_chars ''https://git.invalid/x'' = map ord ''https://git.invalid/x''"
    by (rule utf8_chars_ascii) simp
  then have "is_trimmed ''https://git.invalid/x''"
    by (simp add: is_trimmed_def is_whitespace_def)
  ultimately have "is_trimmed ''https://git.invalid/x'' \<and> \<not> has_control ''https://git.invalid/x''"
    by blast
  then show ?thesis
    by (simp add: product_build_validate_def sample_build_def is_lower_hex_def list_all_iff
        is_lower_hex_byte_def is_ascii_digit_def GIT_COMMIT_HEX_LEN_def)
qed

lemma sample_declaration_ok: "declaration_validate sample_declaration = Inr ()"
proof -
  have "check_public_refs [] sample_refs = Inr ()" by code_simp
  moreover have "validate_digest DigConfig sample_digest = Inr sample_hex"
    by (simp add: validate_digest_Inr sample_digest_def sample_hex_ok)
  moreover have "sample_refs \<noteq> []" by (simp add: sample_refs_def)
  ultimately show ?thesis
    by (simp add: declaration_validate_def sample_declaration_def sample_segments sample_build_ok
        IMAGE_DECLARATION_SCHEMA_def)
qed

theorem declaration_references_distinct_witness:
  "\<exists>ns. map parse_tagged_reference (id_public_refs sample_declaration) = map Inr ns \<and> distinct ns"
  using declaration_references_distinct [OF sample_declaration_ok] by blast

section \<open>The canonical runtime alias\<close>

lemma canonical_runtime_aliasD:
  assumes "canonical_runtime_alias namespace component dependency digest = Inr alias"
  shows "is_valid_segment namespace" "is_valid_segment component" "is_valid_segment dependency"
    "\<exists>hex. digest = SHA256_DIGEST_PREFIX @ hex \<and> is_lower_hex hex \<and>
       alias = RUNTIME_ALIAS_REGISTRY @ ''/'' @ namespace @ ''/'' @ component @ ''/'' @
               dependency @ '':'' @ RUNTIME_ALIAS_TAG_PREFIX @ hex \<and>
       (\<exists>n. parse_tagged_reference alias = Inr n)"
  using assms
  by (auto simp: canonical_runtime_alias_def Let_def validate_digest_Inr case_sum_Inr)

lemma runtime_alias_normal:
  assumes "canonical_runtime_alias namespace component dependency digest = Inr alias"
    "parse_tagged_reference alias = Inr n"
  shows "nr_domain n = RUNTIME_ALIAS_REGISTRY"
    "nr_path n = namespace @ ''/'' @ component @ ''/'' @ dependency"
proof -
  from canonical_runtime_aliasD [OF assms(1)] obtain hex where
    segs: "is_valid_segment namespace" "is_valid_segment component" "is_valid_segment dependency"
    and hex: "is_lower_hex hex"
    and al: "alias = RUNTIME_ALIAS_REGISTRY @ ''/'' @ namespace @ ''/'' @ component @ ''/'' @
               dependency @ '':'' @ RUNTIME_ALIAS_TAG_PREFIX @ hex" by blast
  let ?name = "RUNTIME_ALIAS_REGISTRY @ ''/'' @ namespace @ ''/'' @ component @ ''/'' @ dependency"
  let ?tag = "RUNTIME_ALIAS_TAG_PREFIX @ hex"
  have "split_tag (?name @ '':'' @ ?tag) = Some (?name, ?tag)"
    using lower_hex_no_separator [OF hex]
    by (intro split_tag_append) (auto simp: RUNTIME_ALIAS_TAG_PREFIX_def)
  then have st: "split_tag alias = Some (?name, ?tag)" by (simp add: al)
  have r: "CHR ''/'' \<notin> set RUNTIME_ALIAS_REGISTRY" "RUNTIME_ALIAS_REGISTRY \<noteq> DOCKER_LOCALHOST"
    "RUNTIME_ALIAS_REGISTRY \<noteq> DOCKER_LEGACY_DEFAULT_DOMAIN"
    "RUNTIME_ALIAS_REGISTRY \<noteq> DOCKER_DEFAULT_DOMAIN"
    "list_ex (\<lambda>b. b = CHR ''.'' \<or> b = CHR '':'') RUNTIME_ALIAS_REGISTRY"
    by (simp_all add: RUNTIME_ALIAS_REGISTRY_def DOCKER_LOCALHOST_def
        DOCKER_LEGACY_DEFAULT_DOMAIN_def DOCKER_DEFAULT_DOMAIN_def)
  have sd: "split_docker_domain ?name =
      (RUNTIME_ALIAS_REGISTRY, namespace @ ''/'' @ component @ ''/'' @ dependency)"
    using r by (simp add: split_docker_domain_def split_once_append)
  from assms(2) obtain d p where
    nn: "normalize_name alias ?name = Inr (d, p)" "nr_domain n = d" "nr_path n = p"
    using st by (auto simp: parse_tagged_reference_def split: if_splits)
  with normalize_name_split [of "alias" ?name d p] sd
  show "nr_domain n = RUNTIME_ALIAS_REGISTRY"
    "nr_path n = namespace @ ''/'' @ component @ ''/'' @ dependency" by simp_all
qed

text \<open>
  The canonical runtime alias is an identifier: when it can be formed it parses, its host is
  \<open>runtime.invalid\<close>, and two declarations share an alias only when owner, dependency and image
  configuration digest all agree.
\<close>

theorem runtime_alias_identifies:
  assumes "canonical_runtime_alias namespace component dependency digest = Inr alias"
    and "canonical_runtime_alias namespace' component' dependency' digest' = Inr alias'"
  shows "(\<exists>n. parse_tagged_reference alias = Inr n \<and> host n = ''runtime.invalid'') \<and>
    (alias = alias' \<longleftrightarrow> namespace = namespace' \<and> component = component' \<and>
       dependency = dependency' \<and> digest = digest')"
proof
  from canonical_runtime_aliasD(4) [OF assms(1)] obtain n where n: "parse_tagged_reference alias = Inr n"
    by blast
  have "host n = ''runtime.invalid''"
    using runtime_alias_normal(1) [OF assms(1) n]
    by (simp add: host_def RUNTIME_ALIAS_REGISTRY_def starts_with_def)
  with n show "\<exists>n. parse_tagged_reference alias = Inr n \<and> host n = ''runtime.invalid''" by blast
  from canonical_runtime_aliasD [OF assms(1)] canonical_runtime_aliasD [OF assms(2)]
  show "alias = alias' \<longleftrightarrow> namespace = namespace' \<and> component = component' \<and>
       dependency = dependency' \<and> digest = digest'"
    by (auto simp: separated_cancel segment_no_separator)
qed

theorem runtime_alias_identifies_witness:
  "\<exists>n. parse_tagged_reference
     (''runtime.invalid/clumit/web/nginx:cfg-'' @ sample_hex) = Inr n \<and> host n = ''runtime.invalid''"
proof -
  let ?a = "''runtime.invalid/clumit/web/nginx:cfg-'' @ sample_hex"
  have tag: "is_valid_tag (''cfg-'' @ sample_hex)"
    by (simp add: is_valid_tag_def MAX_TAG_BYTES_def sample_hex_def list_all_iff
        is_ascii_alphanumeric_def is_ascii_lowercase_def)
  have "CHR '':'' \<notin> set (''cfg-'' @ sample_hex)" "CHR ''/'' \<notin> set (''cfg-'' @ sample_hex)"
    by (simp_all add: sample_hex_def)
  from split_tag_append [OF this, of "''runtime.invalid/clumit/web/nginx''"]
  have st: "split_tag ?a = Some (''runtime.invalid/clumit/web/nginx'', ''cfg-'' @ sample_hex)"
    by simp
  have "\<not> is_lower_hex ?a" by (simp add: is_lower_hex_def is_lower_hex_byte_def is_ascii_digit_def)
  moreover have "normalize_name '':'' ''runtime.invalid/clumit/web/nginx'' =
      Inr (''runtime.invalid'', ''clumit/web/nginx'')" by code_simp
  ultimately have "normalize_name ?a ''runtime.invalid/clumit/web/nginx'' =
      Inr (''runtime.invalid'', ''clumit/web/nginx'')"
    by (simp add: normalize_name_def is_lower_hex_def is_lower_hex_byte_def is_ascii_digit_def)
  with tag st have "\<exists>n. parse_tagged_reference ?a = Inr n"
    by (simp add: parse_tagged_reference_def sample_hex_def)
  then have "canonical_runtime_alias ''clumit'' ''web'' ''nginx'' sample_digest = Inr ?a"
    by (auto simp: canonical_runtime_alias_def validate_segment_def sample_segments
        validate_digest_Inr sample_digest_def sample_hex_ok RUNTIME_ALIAS_REGISTRY_def
        RUNTIME_ALIAS_TAG_PREFIX_def intro!: exI [of _ sample_hex])
  from runtime_alias_identifies [OF this this] show ?thesis by blast
qed

end
