(* ===== verification/File_System.thy ===== *)
theory File_System
  imports Rust_Text "HOL-Library.AList"
begin

text \<open>
  The part of \<open>std::path\<close> and \<open>std::fs\<close> the trust generation engine uses, over the entries of one
  directory tree. Every operation first consults a script of injected faults, one entry per
  operation, so a theorem about all scripts covers every I/O failure (and every crash) at every
  point; a fault carries how much of the operation's effect took place before it failed.

  A symbolic link resolves inside the tree; a target that is not an entry of the tree reads as
  missing. File modes and timestamps are not modelled. \<open>fsync\<close> can fail, and has no other effect:
  the model follows what a running reader sees, not what survives a power loss.
\<close>

section \<open>Paths\<close>

text \<open>\<open>std::path::Component\<close> on Unix, and \<open>Path::components\<close>.\<close>

datatype component = RootDir | CurDir | ParentDir | Normal bytes

definition component_of :: "bytes \<Rightarrow> component" where
  "component_of piece = (if piece = ''..'' then ParentDir else Normal piece)"

definition components :: "bytes \<Rightarrow> component list" where
  "components path =
     (let pieces = split (CHR ''/'') path;
          inner = map component_of (filter (\<lambda>p. p \<noteq> [] \<and> p \<noteq> ''.'') pieces)
      in if starts_with ''/'' path then RootDir # inner
         else if hd pieces = ''.'' then CurDir # inner
         else inner)"

text \<open>\<open>Path::file_name\<close>, \<open>Path::extension\<close> and \<open>Path::file_stem\<close>.\<close>

definition file_name :: "bytes \<Rightarrow> bytes option" where
  "file_name path =
     (case components path of
        [] \<Rightarrow> None
      | cs \<Rightarrow> (case last cs of Normal p \<Rightarrow> Some p | _ \<Rightarrow> None))"

definition rsplit_at_dot :: "bytes \<Rightarrow> bytes option \<times> bytes option" where
  "rsplit_at_dot name =
     (if name = ''..'' then (Some name, None)
      else case rfind_byte (CHR ''.'') name of
        None \<Rightarrow> (None, Some name)
      | Some i \<Rightarrow>
          if i = 0 then (Some name, None) else (Some (take i name), Some (drop (i + 1) name)))"

definition extension :: "bytes \<Rightarrow> bytes option" where
  "extension path =
     (case file_name path of
        None \<Rightarrow> None
      | Some name \<Rightarrow> (let (before, after) = rsplit_at_dot name in
          case before of None \<Rightarrow> None | Some _ \<Rightarrow> after))"

definition file_stem :: "bytes \<Rightarrow> bytes option" where
  "file_stem path =
     (case file_name path of
        None \<Rightarrow> None
      | Some name \<Rightarrow> (let (before, after) = rsplit_at_dot name in
          case before of None \<Rightarrow> after | Some b \<Rightarrow> Some b))"

text \<open>A name of a directory entry: what \<open>read_dir\<close> can list.\<close>

definition plain_name :: "bytes \<Rightarrow> bool" where
  "plain_name n \<longleftrightarrow> n \<noteq> [] \<and> CHR ''/'' \<notin> set n \<and> n \<noteq> ''.'' \<and> n \<noteq> ''..''"

lemma components_plain: "plain_name n \<Longrightarrow> components n = [Normal n]"
proof -
  assume p: "plain_name n"
  then have "split (CHR ''/'') n = [n]" by (simp add: plain_name_def split_no_sep)
  moreover have "\<not> starts_with ''/'' n"
    using p by (auto simp: plain_name_def starts_with_def strip_prefix_Some)
  ultimately show ?thesis using p by (simp add: components_def component_of_def plain_name_def)
qed

lemma file_name_plain [simp]: "plain_name n \<Longrightarrow> file_name n = Some n"
  by (simp add: file_name_def components_plain)

section \<open>The tree and its faults\<close>

datatype node =
    File bytes
  | Link bytes
  | Dir "(bytes \<times> node) list"

text \<open>The two kinds of \<open>std::io::ErrorKind\<close> the program tells apart.\<close>

datatype io_kind = NotFound | OtherKind

record fsys =
  fs_root :: "(bytes \<times> node) list"
  fs_faults :: "nat option list"

type_synonym ('e, 'a) io = "fsys \<Rightarrow> ('e + 'a) \<times> fsys"

definition ret :: "'a \<Rightarrow> ('e, 'a) io" where
  "ret x = (\<lambda>s. (Inr x, s))"

definition fail :: "'e \<Rightarrow> ('e, 'a) io" where
  "fail e = (\<lambda>s. (Inl e, s))"

definition bind_io :: "('e, 'a) io \<Rightarrow> ('a \<Rightarrow> ('e, 'b) io) \<Rightarrow> ('e, 'b) io" where
  "bind_io m f = (\<lambda>s. case m s of (Inl e, s') \<Rightarrow> (Inl e, s') | (Inr x, s') \<Rightarrow> f x s')"

definition then_io :: "('e, 'a) io \<Rightarrow> ('e, 'b) io \<Rightarrow> ('e, 'b) io" where
  "then_io m k = bind_io m (\<lambda>_. k)"

definition lift_res :: "'e + 'a \<Rightarrow> ('e, 'a) io" where
  "lift_res r = (\<lambda>s. (r, s))"

definition io_map_err :: "('e \<Rightarrow> 'f) \<Rightarrow> ('e, 'a) io \<Rightarrow> ('f, 'a) io" where
  "io_map_err f m = (\<lambda>s. case m s of (r, s') \<Rightarrow> (map_err f r, s'))"

text \<open>\<open>match m { Err(e) if p(e) => ... }\<close>: continue with the result as a value.\<close>

definition attempt :: "('e, 'a) io \<Rightarrow> ('f, 'e + 'a) io" where
  "attempt m = (\<lambda>s. case m s of (r, s') \<Rightarrow> (Inr r, s'))"

fun for_each_io :: "('a \<Rightarrow> ('e, unit) io) \<Rightarrow> 'a list \<Rightarrow> ('e, unit) io" where
  "for_each_io f [] = ret ()"
| "for_each_io f (x # xs) = then_io (f x) (for_each_io f xs)"

fun map_io :: "('a \<Rightarrow> ('e, 'b) io) \<Rightarrow> 'a list \<Rightarrow> ('e, 'b list) io" where
  "map_io f [] = ret []"
| "map_io f (x # xs) = bind_io (f x) (\<lambda>y. bind_io (map_io f xs) (\<lambda>ys. ret (y # ys)))"

text \<open>The next entry of the script; past its end no operation is made to fail.\<close>

definition next_fault :: "fsys \<Rightarrow> nat option \<times> fsys" where
  "next_fault s =
     (case fs_faults s of
        [] \<Rightarrow> (None, s)
      | f # fs \<Rightarrow> (f, s\<lparr>fs_faults := fs\<rparr>))"

text \<open>
  One operation on the root entries: its full effect and outcome, or, when a fault is scripted, the
  partial effect of the first \<open>k\<close> steps and an error.
\<close>

type_synonym 'a root_op = "(bytes \<times> node) list \<Rightarrow> (io_kind + 'a) \<times> (bytes \<times> node) list"

definition operation ::
  "'a root_op \<Rightarrow> (nat \<Rightarrow> (bytes \<times> node) list \<Rightarrow> (bytes \<times> node) list) \<Rightarrow> (io_kind, 'a) io" where
  "operation full part s =
     (case next_fault s of
        (None, s') \<Rightarrow> (let (r, root) = full (fs_root s') in (r, s'\<lparr>fs_root := root\<rparr>))
      | (Some k, s') \<Rightarrow> (Inl OtherKind, s'\<lparr>fs_root := part k (fs_root s')\<rparr>))"

abbreviation no_effect :: "nat \<Rightarrow> (bytes \<times> node) list \<Rightarrow> (bytes \<times> node) list" where
  "no_effect k root \<equiv> root"

section \<open>Operations\<close>

text \<open>Linux gives up after 40 links.\<close>

fun follow :: "nat \<Rightarrow> (bytes \<times> node) list \<Rightarrow> bytes \<Rightarrow> io_kind + node" where
  "follow 0 root name = Inl OtherKind"
| "follow (Suc hops) root name =
     (case map_of root name of
        None \<Rightarrow> Inl NotFound
      | Some (Link target) \<Rightarrow> follow hops root target
      | Some n \<Rightarrow> Inr n)"

definition MAX_LINK_HOPS :: nat where "MAX_LINK_HOPS = 40"

text \<open>\<open>std::fs::read_link\<close> of a root entry.\<close>

definition fs_read_link :: "bytes \<Rightarrow> (io_kind, bytes) io" where
  "fs_read_link name = operation (\<lambda>root.
     ((case map_of root name of
         None \<Rightarrow> Inl NotFound | Some (Link target) \<Rightarrow> Inr target | Some _ \<Rightarrow> Inl OtherKind), root)) no_effect"

text \<open>\<open>std::fs::read\<close> of \<open>dir/file\<close>, where \<open>dir\<close> may be a link.\<close>

definition read_in :: "(bytes \<times> node) list \<Rightarrow> bytes \<Rightarrow> bytes \<Rightarrow> io_kind + bytes" where
  "read_in root dir file =
     (case follow MAX_LINK_HOPS root dir of
        Inl e \<Rightarrow> Inl e
      | Inr (Dir d) \<Rightarrow> (case map_of d file of
            None \<Rightarrow> Inl NotFound | Some (File b) \<Rightarrow> Inr b | Some _ \<Rightarrow> Inl OtherKind)
      | Inr _ \<Rightarrow> Inl OtherKind)"

definition fs_read :: "bytes \<Rightarrow> bytes \<Rightarrow> (io_kind, bytes) io" where
  "fs_read dir file = operation (\<lambda>root. (read_in root dir file, root)) no_effect"

text \<open>\<open>std::fs::read_dir\<close> of the root, as the entries it will yield.\<close>

definition fs_read_dir :: "(io_kind, bytes list) io" where
  "fs_read_dir = operation (\<lambda>root. (Inr (map fst root), root)) no_effect"

text \<open>One step of the iteration over them.\<close>

definition fs_dir_entry :: "bytes \<Rightarrow> (io_kind, bytes) io" where
  "fs_dir_entry name = operation (\<lambda>root. (Inr name, root)) no_effect"

definition fs_sync :: "(io_kind, unit) io" where
  "fs_sync = operation (\<lambda>root. (Inr (), root)) no_effect"

definition fs_create_dir :: "bytes \<Rightarrow> (io_kind, unit) io" where
  "fs_create_dir name = operation (\<lambda>root.
     (case map_of root name of
        Some _ \<Rightarrow> (Inl OtherKind, root)
      | None \<Rightarrow> (Inr (), AList.update name (Dir []) root))) no_effect"

text \<open>Changing one file inside the directory \<open>dir\<close>, which must be a directory itself.\<close>

definition in_dir ::
  "bytes \<Rightarrow> ((bytes \<times> node) list \<Rightarrow> (bytes \<times> node) list) \<Rightarrow>
     (bytes \<times> node) list \<Rightarrow> (bytes \<times> node) list" where
  "in_dir dir f root =
     (case map_of root dir of Some (Dir d) \<Rightarrow> AList.update dir (Dir (f d)) root | _ \<Rightarrow> root)"

text \<open>\<open>OpenOptions::new().write(true).create_new(true).open(dir/file)\<close>.\<close>

definition fs_create_new :: "bytes \<Rightarrow> bytes \<Rightarrow> (io_kind, unit) io" where
  "fs_create_new dir file = operation (\<lambda>root.
     (case map_of root dir of
        None \<Rightarrow> (Inl NotFound, root)
      | Some (Dir d) \<Rightarrow>
          (case map_of d file of
             Some _ \<Rightarrow> (Inl OtherKind, root)
           | None \<Rightarrow> (Inr (), in_dir dir (AList.update file (File [])) root))
      | Some _ \<Rightarrow> (Inl OtherKind, root))) no_effect"

text \<open>\<open>write_all\<close> into the file just created; a fault leaves the first \<open>k\<close> bytes.\<close>

definition fs_write_all :: "bytes \<Rightarrow> bytes \<Rightarrow> bytes \<Rightarrow> (io_kind, unit) io" where
  "fs_write_all dir file content = operation
     (\<lambda>root. (Inr (), in_dir dir (AList.update file (File content)) root))
     (\<lambda>k. in_dir dir (AList.update file (File (take k content))))"

text \<open>\<open>std::fs::remove_file\<close>, \<open>std::os::unix::fs::symlink\<close> and \<open>std::fs::rename\<close> of root entries.\<close>

definition fs_remove_file :: "bytes \<Rightarrow> (io_kind, unit) io" where
  "fs_remove_file name = operation (\<lambda>root.
     (case map_of root name of
        None \<Rightarrow> (Inl NotFound, root)
      | Some (Dir _) \<Rightarrow> (Inl OtherKind, root)
      | Some _ \<Rightarrow> (Inr (), AList.delete name root))) no_effect"

definition fs_symlink :: "bytes \<Rightarrow> bytes \<Rightarrow> (io_kind, unit) io" where
  "fs_symlink target name = operation (\<lambda>root.
     (case map_of root name of
        Some _ \<Rightarrow> (Inl OtherKind, root)
      | None \<Rightarrow> (Inr (), AList.update name (Link target) root))) no_effect"

fun replaceable :: "node \<Rightarrow> node option \<Rightarrow> bool" where
  "replaceable moved None = True"
| "replaceable (Dir _) (Some (Dir d)) = (d = [])"
| "replaceable (Dir _) (Some _) = False"
| "replaceable _ (Some (Dir _)) = False"
| "replaceable _ (Some _) = True"

definition fs_rename :: "bytes \<Rightarrow> bytes \<Rightarrow> (io_kind, unit) io" where
  "fs_rename source target = operation (\<lambda>root.
     (case map_of root source of
        None \<Rightarrow> (Inl NotFound, root)
      | Some n \<Rightarrow>
          if source = target then (Inr (), root)
          else if replaceable n (map_of root target)
          then (Inr (), AList.update target n (AList.delete source root))
          else (Inl OtherKind, root))) no_effect"

text \<open>
  \<open>std::fs::remove_dir_all\<close>: a link is unlinked, a file is refused, and a fault leaves a directory
  with some of its entries gone.
\<close>

definition fs_remove_dir_all :: "bytes \<Rightarrow> (io_kind, unit) io" where
  "fs_remove_dir_all name = operation (\<lambda>root.
     (case map_of root name of
        None \<Rightarrow> (Inl NotFound, root)
      | Some (File _) \<Rightarrow> (Inl OtherKind, root)
      | Some _ \<Rightarrow> (Inr (), AList.delete name root)))
     (\<lambda>k. in_dir name (drop k))"

end
