(* ===== verification/Generation.thy ===== *)
theory Generation
  imports File_System
begin

text \<open>
  The trust-generation engine of \<open>src/generation.rs\<close>, operation for operation over the file-system
  model: material checks, the idempotence test, allocation of the next index, staging, validation of
  the bytes read back, finalisation, the swap of \<open>active\<close>, the reload and the prune. The tree root
  is the root of the model; a path is the list of names below it. The validator is a parameter, as it
  is in the code, and so is \<open>systemctl\<close>.
\<close>

section \<open>Data\<close>

definition ACTIVE_LINK :: bytes where "ACTIVE_LINK = ''active''"
definition GENERATION_PREFIX :: bytes where "GENERATION_PREFIX = ''gen-''"
definition TMP_EXTENSION :: bytes where "TMP_EXTENSION = ''tmp''"

datatype generation_error =
    GE_Io "bytes list" io_kind
  | GE_EmptyMaterial
  | GE_DuplicateName bytes
  | GE_InvalidName bytes
  | GE_Reload bytes

record generation_file =
  gf_name :: bytes
  gf_bytes :: bytes

record generation_tree =
  gt_reload_unit :: "bytes option"

record activation =
  ac_generation :: u64
  ac_changed :: bool

section \<open>Names\<close>

definition generation_name :: "u64 \<Rightarrow> bytes" where
  "generation_name n = GENERATION_PREFIX @ to_string n"

definition tmp_generation_name :: "u64 \<Rightarrow> bytes" where
  "tmp_generation_name n = GENERATION_PREFIX @ to_string n @ ''.'' @ TMP_EXTENSION"

definition active_tmp_name :: bytes where
  "active_tmp_name = ACTIVE_LINK @ ''.'' @ TMP_EXTENSION"

definition parse_generation :: "bytes \<Rightarrow> u64 option" where
  "parse_generation path =
     (case file_name path of
        None \<Rightarrow> None
      | Some name \<Rightarrow> (case strip_prefix GENERATION_PREFIX name of
          None \<Rightarrow> None
        | Some digits \<Rightarrow> (case parse_u64 digits of
            None \<Rightarrow> None
          | Some generation \<Rightarrow> if digits = to_string generation then Some generation else None)))"

definition parse_tmp_generation :: "bytes \<Rightarrow> u64 option" where
  "parse_tmp_generation path =
     (case file_name path of
        None \<Rightarrow> None
      | Some name \<Rightarrow>
          if extension name \<noteq> Some TMP_EXTENSION then None
          else (case file_stem name of None \<Rightarrow> None | Some stem \<Rightarrow> parse_generation stem))"

definition is_single_component :: "bytes \<Rightarrow> bool" where
  "is_single_component name \<longleftrightarrow>
     (case components name of
        Normal c # rest \<Rightarrow> c = name \<and> rest = []
      | _ \<Rightarrow> False)"

section \<open>Material\<close>

text \<open>The loop of \<open>check_material\<close>, with the names already passed.\<close>

fun check_material_from ::
  "bytes list \<Rightarrow> generation_file list \<Rightarrow> generation_error + unit" where
  "check_material_from earlier [] = Inr ()"
| "check_material_from earlier (f # rest) =
     (if \<not> is_single_component (gf_name f) then Inl (GE_InvalidName (gf_name f))
      else if gf_name f \<in> set earlier then Inl (GE_DuplicateName (gf_name f))
      else check_material_from (earlier @ [gf_name f]) rest)"

definition check_material :: "generation_file list \<Rightarrow> generation_error + unit" where
  "check_material material =
     (if material = [] then Inl GE_EmptyMaterial else check_material_from [] material)"

section \<open>Reading the tree\<close>

fun active_matches :: "generation_file list \<Rightarrow> (generation_error, bool) io" where
  "active_matches [] = ret True"
| "active_matches (f # rest) =
     bind_io (attempt (fs_read ACTIVE_LINK (gf_name f))) (\<lambda>r.
       case r of
         Inr content \<Rightarrow> if content = gf_bytes f then active_matches rest else ret False
       | Inl NotFound \<Rightarrow> ret False
       | Inl OtherKind \<Rightarrow> fail (GE_Io [ACTIVE_LINK, gf_name f] OtherKind))"

definition current_generation :: "(generation_error, u64 option) io" where
  "current_generation =
     bind_io (attempt (fs_read_link ACTIVE_LINK)) (\<lambda>r.
       case r of
         Inr target \<Rightarrow> ret (parse_generation target)
       | Inl NotFound \<Rightarrow> ret None
       | Inl OtherKind \<Rightarrow> fail (GE_Io [ACTIVE_LINK] OtherKind))"

definition io_at :: "bytes list \<Rightarrow> (io_kind, 'a) io \<Rightarrow> (generation_error, 'a) io" where
  "io_at path = io_map_err (GE_Io path)"

text \<open>The loop of \<open>next_generation\<close> with the maximum so far; \<open>max + 1\<close> is \<open>u64\<close> arithmetic.\<close>

fun max_generation :: "u64 \<Rightarrow> bytes list \<Rightarrow> (generation_error, u64) io" where
  "max_generation m [] = ret m"
| "max_generation m (e # es) =
     bind_io (io_at [] (fs_dir_entry e)) (\<lambda>name.
       max_generation (case parse_generation name of None \<Rightarrow> m | Some n \<Rightarrow> max m n) es)"

definition next_generation :: "(generation_error, u64) io" where
  "next_generation =
     bind_io (io_at [] fs_read_dir) (\<lambda>entries.
     bind_io (max_generation 0 entries) (\<lambda>m. ret (m + 1)))"

section \<open>Changing the tree\<close>

definition remove_dir_all_if_present :: "bytes \<Rightarrow> (generation_error, unit) io" where
  "remove_dir_all_if_present name =
     bind_io (attempt (fs_remove_dir_all name)) (\<lambda>r.
       case r of
         Inr _ \<Rightarrow> ret ()
       | Inl NotFound \<Rightarrow> ret ()
       | Inl OtherKind \<Rightarrow> fail (GE_Io [name] OtherKind))"

definition make_dir_0700 :: "bytes \<Rightarrow> (generation_error, unit) io" where
  "make_dir_0700 name = io_at [name] (fs_create_dir name)"

definition write_file_0600 :: "bytes \<Rightarrow> bytes \<Rightarrow> bytes \<Rightarrow> (generation_error, unit) io" where
  "write_file_0600 dir file content =
     then_io (io_at [dir, file] (fs_create_new dir file))
    (then_io (io_at [dir, file] (fs_write_all dir file content))
             (io_at [dir, file] fs_sync))"

definition read_back :: "bytes \<Rightarrow> generation_file \<Rightarrow> (generation_error, generation_file) io" where
  "read_back dir f =
     bind_io (io_at [dir, gf_name f] (fs_read dir (gf_name f))) (\<lambda>content.
       ret \<lparr>gf_name = gf_name f, gf_bytes = content\<rparr>)"

definition swap_active_symlink :: "u64 \<Rightarrow> (generation_error, unit) io" where
  "swap_active_symlink generation =
     bind_io (attempt (fs_remove_file active_tmp_name)) (\<lambda>r.
     then_io (case r of
         Inr _ \<Rightarrow> ret ()
       | Inl NotFound \<Rightarrow> ret ()
       | Inl OtherKind \<Rightarrow> fail (GE_Io [active_tmp_name] OtherKind))
    (then_io (io_at [active_tmp_name] (fs_symlink (generation_name generation) active_tmp_name))
             (io_at [ACTIVE_LINK] (fs_rename active_tmp_name ACTIVE_LINK))))"

definition prune_entry :: "u64 \<Rightarrow> bytes \<Rightarrow> (generation_error, unit) io" where
  "prune_entry keep e =
     bind_io (io_at [] (fs_dir_entry e)) (\<lambda>name.
       let is_stale_tmp = (parse_tmp_generation name \<noteq> None);
           is_old_gen = (case parse_generation name of None \<Rightarrow> False | Some n \<Rightarrow> n \<noteq> keep)
       in if is_stale_tmp \<or> is_old_gen then remove_dir_all_if_present name else ret ())"

definition prune_generations :: "u64 \<Rightarrow> (generation_error, unit) io" where
  "prune_generations keep = bind_io (io_at [] fs_read_dir) (for_each_io (prune_entry keep))"

text \<open>
  \<open>systemctl is-active\<close> and \<open>systemctl reload\<close>: what they answer for a unit. \<open>None\<close> is a command that
  could not be started, \<open>Some b\<close> one that exited, successfully or not.
\<close>

record systemctl =
  sc_is_active :: "bytes \<Rightarrow> bool option"
  sc_reload :: "bytes \<Rightarrow> bool option"

definition reload_if_active :: "systemctl \<Rightarrow> bytes \<Rightarrow> generation_error + unit" where
  "reload_if_active sc unit =
     (case sc_is_active sc unit of
        Some True \<Rightarrow>
          (case sc_reload sc unit of
             Some True \<Rightarrow> Inr ()
           | _ \<Rightarrow> Inl (GE_Reload unit))
      | _ \<Rightarrow> Inr ())"

section \<open>Activation\<close>

type_synonym 'e validator = "bytes \<Rightarrow> generation_file list \<Rightarrow> ('e, unit) io"

text \<open>Steps 1 to 4: stage and validate. The index and the copy that was validated.\<close>

definition stage_generation ::
  "(generation_error \<Rightarrow> 'e) \<Rightarrow> generation_file list \<Rightarrow> 'e validator \<Rightarrow> u64 \<Rightarrow> ('e, unit) io" where
  "stage_generation conv material validate generation =
     (let tmp = tmp_generation_name generation in
      then_io (io_map_err conv (remove_dir_all_if_present tmp))
     (then_io (io_map_err conv (make_dir_0700 tmp))
     (then_io (io_map_err conv (for_each_io (\<lambda>f. write_file_0600 tmp (gf_name f) (gf_bytes f)) material))
     (bind_io (io_map_err conv (map_io (read_back tmp) material)) (\<lambda>copied.
      bind_io (attempt (validate tmp copied)) (\<lambda>r.
        case r of
          Inr _ \<Rightarrow> ret ()
        | Inl err \<Rightarrow>
            bind_io (attempt (remove_dir_all_if_present tmp)) (\<lambda>_. fail err)))))))"

text \<open>Step 5: finalise, swap, reload, prune.\<close>

definition publish_generation ::
  "systemctl \<Rightarrow> generation_tree \<Rightarrow> u64 \<Rightarrow> (generation_error, unit) io" where
  "publish_generation sc tree generation =
     (let tmp = tmp_generation_name generation; final = generation_name generation in
      then_io (io_at [tmp] fs_sync)
     (then_io (io_at [final] (fs_rename tmp final))
     (then_io (io_at [] fs_sync)
     (then_io (swap_active_symlink generation)
     (then_io (io_at [] fs_sync)
     (then_io (case gt_reload_unit tree of None \<Rightarrow> ret () | Some unit \<Rightarrow> lift_res (reload_if_active sc unit))
     (prune_generations generation)))))))"

definition already_active :: "generation_file list \<Rightarrow> (generation_error, u64 option) io" where
  "already_active material =
     bind_io current_generation (\<lambda>current.
     case current of
       None \<Rightarrow> ret None
     | Some n \<Rightarrow> bind_io (active_matches material) (\<lambda>same. ret (if same then Some n else None)))"

definition activate_generation ::
  "(generation_error \<Rightarrow> 'e) \<Rightarrow> systemctl \<Rightarrow> generation_tree \<Rightarrow> generation_file list \<Rightarrow> 'e validator \<Rightarrow>
     ('e, activation) io" where
  "activate_generation conv sc tree material validate =
     then_io (io_map_err conv (lift_res (check_material material)))
    (bind_io (io_map_err conv (already_active material)) (\<lambda>current.
     case current of
       Some n \<Rightarrow> ret \<lparr>ac_generation = n, ac_changed = False\<rparr>
     | None \<Rightarrow>
         bind_io (io_map_err conv next_generation) (\<lambda>generation.
         then_io (stage_generation conv material validate generation)
        (then_io (io_map_err conv (publish_generation sc tree generation))
         (ret \<lparr>ac_generation = generation, ac_changed = True\<rparr>)))))"

end
