(* ===== verification/File_Logic.thy ===== *)
theory File_Logic
  imports File_System
begin

text \<open>
  A small Hoare logic for the file-system operations. A triple speaks of the root entries before and
  after; its first argument says whether faults are allowed: with \<open>True\<close> it holds for every fault
  script, with \<open>False\<close> for runs in which nothing is made to fail. The last argument is the condition
  on the entries when the operation returns an error.
\<close>

named_theorems triple_rules

definition triple ::
  "bool \<Rightarrow> ((bytes \<times> node) list \<Rightarrow> bool) \<Rightarrow> ('e, 'a) io \<Rightarrow> ('a \<Rightarrow> (bytes \<times> node) list \<Rightarrow> bool) \<Rightarrow>
     ('e \<Rightarrow> (bytes \<times> node) list \<Rightarrow> bool) \<Rightarrow> bool" where
  "triple faulty P m Q E \<longleftrightarrow>
     (\<forall>s r s'. P (fs_root s) \<longrightarrow> (faulty \<or> fs_faults s = []) \<longrightarrow> m s = (r, s') \<longrightarrow>
        (faulty \<or> fs_faults s' = []) \<and>
        (case r of Inr x \<Rightarrow> Q x (fs_root s') | Inl e \<Rightarrow> E e (fs_root s')))"

lemma tripleI:
  assumes "\<And>s r s'. P (fs_root s) \<Longrightarrow> faulty \<or> fs_faults s = [] \<Longrightarrow> m s = (r, s') \<Longrightarrow>
    (faulty \<or> fs_faults s' = []) \<and> (case r of Inr x \<Rightarrow> Q x (fs_root s') | Inl e \<Rightarrow> E e (fs_root s'))"
  shows "triple faulty P m Q E"
  using assms unfolding triple_def by blast

lemma tripleD:
  "triple faulty P m Q E \<Longrightarrow> P (fs_root s) \<Longrightarrow> faulty \<or> fs_faults s = [] \<Longrightarrow> m s = (r, s') \<Longrightarrow>
    (faulty \<or> fs_faults s' = []) \<and> (case r of Inr x \<Rightarrow> Q x (fs_root s') | Inl e \<Rightarrow> E e (fs_root s'))"
  unfolding triple_def by blast

lemma triple_conseq:
  assumes "triple faulty P m Q E" "\<And>root. P' root \<Longrightarrow> P root"
    "\<And>x root. Q x root \<Longrightarrow> Q' x root" "\<And>e root. E e root \<Longrightarrow> E' e root"
  shows "triple faulty P' m Q' E'"
proof (rule tripleI)
  fix s r s'
  assume "P' (fs_root s)" "faulty \<or> fs_faults s = []" "m s = (r, s')"
  with tripleD [OF assms(1)] assms(2)
  have "(faulty \<or> fs_faults s' = []) \<and>
      (case r of Inr x \<Rightarrow> Q x (fs_root s') | Inl e \<Rightarrow> E e (fs_root s'))" by blast
  with assms(3,4) show "(faulty \<or> fs_faults s' = []) \<and>
      (case r of Inr x \<Rightarrow> Q' x (fs_root s') | Inl e \<Rightarrow> E' e (fs_root s'))"
    by (auto split: sum.splits)
qed

lemma triple_pre: "triple faulty P m Q E \<Longrightarrow> (\<And>root. P' root \<Longrightarrow> P root) \<Longrightarrow> triple faulty P' m Q E"
  by (rule triple_conseq)

lemma triple_ret [triple_rules]: "(\<And>root. P root \<Longrightarrow> Q x root) \<Longrightarrow> triple faulty P (ret x) Q E"
  by (auto simp: triple_def ret_def)

lemma triple_fail [triple_rules]: "(\<And>root. P root \<Longrightarrow> E e root) \<Longrightarrow> triple faulty P (fail e) Q E"
  by (auto simp: triple_def fail_def)

lemma triple_lift_res:
  "(\<And>root x. P root \<Longrightarrow> r = Inr x \<Longrightarrow> Q x root) \<Longrightarrow> (\<And>root e. P root \<Longrightarrow> r = Inl e \<Longrightarrow> E e root) \<Longrightarrow>
     triple faulty P (lift_res r) Q E"
  by (auto simp: triple_def lift_res_def split: sum.splits)

lemma triple_bind:
  assumes "triple faulty P m R E" "\<And>x. triple faulty (R x) (f x) Q E"
  shows "triple faulty P (bind_io m f) Q E"
proof (rule tripleI)
  fix s r s'
  assume s: "P (fs_root s)" "faulty \<or> fs_faults s = []" "bind_io m f s = (r, s')"
  obtain r1 s1 where m: "m s = (r1, s1)" by force
  note t = tripleD [OF assms(1) s(1,2) m]
  show "(faulty \<or> fs_faults s' = []) \<and>
      (case r of Inr x \<Rightarrow> Q x (fs_root s') | Inl e \<Rightarrow> E e (fs_root s'))"
  proof (cases r1)
    case (Inl e)
    with s(3) m t show ?thesis by (auto simp: bind_io_def)
  next
    case (Inr x)
    with s(3) m have "f x s1 = (r, s')" by (simp add: bind_io_def)
    with t Inr show ?thesis using tripleD [OF assms(2), of x s1 r s'] by auto
  qed
qed

lemma triple_then:
  "triple faulty P m (\<lambda>_. R) E \<Longrightarrow> triple faulty R k Q E \<Longrightarrow> triple faulty P (then_io m k) Q E"
  unfolding then_io_def by (rule triple_bind)

lemma triple_map_err:
  "triple faulty P m Q (\<lambda>e. E (f e)) \<Longrightarrow> triple faulty P (io_map_err f m) Q E"
  by (fastforce simp: triple_def io_map_err_def split: prod.splits sum.splits
      elim!: map_err.elims)

lemma triple_attempt:
  fixes m :: "('b, 'a) io" and E :: "'c \<Rightarrow> (bytes \<times> node) list \<Rightarrow> bool"
  shows "triple faulty P m (\<lambda>x. Q (Inr x)) (\<lambda>e. Q (Inl e)) \<Longrightarrow> triple faulty P (attempt m) Q E"
proof (rule tripleI)
  fix s s' and r :: "'c + 'b + 'a"
  assume t: "triple faulty P m (\<lambda>x. Q (Inr x)) (\<lambda>e. Q (Inl e))"
    and s: "P (fs_root s)" "faulty \<or> fs_faults s = []" "attempt m s = (r, s')"
  obtain r1 s1 where m: "m s = (r1, s1)" by force
  with s(3) have "r = Inr r1" "s' = s1" by (auto simp: attempt_def)
  with tripleD [OF t s(1,2) m] show "(faulty \<or> fs_faults s' = []) \<and>
      (case r of Inr x \<Rightarrow> Q x (fs_root s') | Inl e \<Rightarrow> E e (fs_root s'))"
    by (cases r1) auto
qed

lemma triple_operation:
  assumes "\<And>root x root'. P root \<Longrightarrow> full root = (Inr x, root') \<Longrightarrow> Q x root'"
    and "\<And>root e root'. P root \<Longrightarrow> full root = (Inl e, root') \<Longrightarrow> E e root'"
    and "\<And>root k. faulty \<Longrightarrow> P root \<Longrightarrow> E OtherKind (part k root)"
  shows "triple faulty P (operation full part) Q E"
proof (rule tripleI)
  fix s r s'
  assume s: "P (fs_root s)" "faulty \<or> fs_faults s = []" "operation full part s = (r, s')"
  obtain f s1 where n: "next_fault s = (f, s1)" by force
  have s1: "fs_root s1 = fs_root s" "faulty \<or> fs_faults s1 = []" "\<not> faulty \<longrightarrow> f = None"
    using n s(2) by (auto simp: next_fault_def split: list.splits)
  obtain r2 root2 where fl: "full (fs_root s1) = (r2, root2)" by force
  show "(faulty \<or> fs_faults s' = []) \<and>
      (case r of Inr x \<Rightarrow> Q x (fs_root s') | Inl e \<Rightarrow> E e (fs_root s'))"
  proof (cases f)
    case None
    with s(3) n fl have "r = r2" "s' = s1\<lparr>fs_root := root2\<rparr>" by (auto simp: operation_def)
    with s1 s(1) fl assms(1,2) show ?thesis by (auto split: sum.splits)
  next
    case (Some k)
    with s(3) n have "r = Inl OtherKind" "s' = s1\<lparr>fs_root := part k (fs_root s1)\<rparr>"
      by (auto simp: operation_def)
    with s1 s(1) Some assms(3) show ?thesis by auto
  qed
qed

lemma triple_for_each:
  assumes "\<And>before x after. xs = before @ x # after \<Longrightarrow>
      triple faulty (I before) (f x) (\<lambda>_. I (before @ [x])) E"
  shows "triple faulty (I []) (for_each_io f xs) (\<lambda>_. I xs) E"
proof -
  have "triple faulty (I before) (for_each_io f after) (\<lambda>_. I xs) E" if "xs = before @ after" for before after
    using that
  proof (induction after arbitrary: before)
    case Nil
    then show ?case by (simp add: triple_ret)
  next
    case (Cons x after)
    show ?case
      by (simp, rule triple_then [where R = "I (before @ [x])"])
        (use assms [OF Cons.prems] Cons.IH [of "before @ [x]"] Cons.prems in auto)
  qed
  from this [of "[]" xs] show ?thesis by simp
qed

lemma triple_map_io:
  assumes "\<And>x. x \<in> set xs \<Longrightarrow> triple faulty I (f x) (\<lambda>y root. I root \<and> R x y) E"
  shows "triple faulty I (map_io f xs) (\<lambda>ys root. I root \<and> list_all2 R xs ys) E"
  using assms
proof (induction xs)
  case Nil
  then show ?case by (simp add: triple_ret)
next
  case (Cons x xs)
  show ?case
  proof (simp, rule triple_bind)
    show "triple faulty I (f x) (\<lambda>y root. I root \<and> R x y) E" using Cons.prems by simp
    fix y
    show "triple faulty (\<lambda>root. I root \<and> R x y)
        (bind_io (map_io f xs) (\<lambda>ys. ret (y # ys))) (\<lambda>ys root. I root \<and> list_all2 R (x # xs) ys) E"
    proof (cases "R x y")
      case True
      show ?thesis
        by (rule triple_bind, rule triple_pre [OF Cons.IH])
          (use Cons.prems True in \<open>auto intro!: triple_ret\<close>)
    next
      case False
      then show ?thesis by (simp add: triple_def)
    qed
  qed
qed

text \<open>A condition that holds throughout, whether the operation succeeds or fails.\<close>

definition keeps :: "bool \<Rightarrow> ((bytes \<times> node) list \<Rightarrow> bool) \<Rightarrow> ('e, 'a) io \<Rightarrow> bool" where
  "keeps faulty I m \<longleftrightarrow> triple faulty I m (\<lambda>_. I) (\<lambda>_. I)"

section \<open>The operations on the entries\<close>

text \<open>Two trees agree on every name outside a set.\<close>

definition agree_off :: "bytes set \<Rightarrow> (bytes \<times> node) list \<Rightarrow> (bytes \<times> node) list \<Rightarrow> bool" where
  "agree_off N before root \<longleftrightarrow> (\<forall>n. n \<notin> N \<longrightarrow> map_of root n = map_of before n)"

lemma agree_off_refl [simp]: "agree_off N root root"
  by (simp add: agree_off_def)

lemma agree_off_mono: "agree_off N before root \<Longrightarrow> N \<subseteq> N' \<Longrightarrow> agree_off N' before root"
  by (auto simp: agree_off_def)

lemma agree_offD: "agree_off N before root \<Longrightarrow> n \<notin> N \<Longrightarrow> map_of root n = map_of before n"
  by (simp add: agree_off_def)

lemma map_of_update [simp]: "map_of (AList.update k v al) n = (if n = k then Some v else map_of al n)"
  by (simp add: update_conv')

lemma map_of_delete [simp]: "map_of (AList.delete k al) n = (if n = k then None else map_of al n)"
  by (simp add: delete_conv')

lemma map_of_in_dir:
  "map_of (in_dir dir f root) n =
     (if n = dir then (case map_of root dir of Some (Dir d) \<Rightarrow> Some (Dir (f d)) | x \<Rightarrow> x)
      else map_of root n)"
  by (auto simp: in_dir_def split: option.splits node.splits)

lemma agree_off_update [simp]: "k \<in> N \<Longrightarrow> agree_off N before (AList.update k v root) = agree_off N before root"
  by (auto simp: agree_off_def)

lemma agree_off_delete [simp]: "k \<in> N \<Longrightarrow> agree_off N before (AList.delete k root) = agree_off N before root"
  by (auto simp: agree_off_def)

lemma agree_off_in_dir [simp]: "k \<in> N \<Longrightarrow> agree_off N before (in_dir k f root) = agree_off N before root"
  by (auto simp: agree_off_def map_of_in_dir)

lemma update_append: "k \<notin> fst ` set al \<Longrightarrow> AList.update k v al = al @ [(k, v)]"
  by (induction al) auto

lemma update_last: "k \<notin> fst ` set al \<Longrightarrow> AList.update k v (al @ [(k, w)]) = al @ [(k, v)]"
  by (induction al) auto

end
