(* ===== verification/Generation_Correct.thy ===== *)
theory Generation_Correct
  imports Generation File_Logic
begin

text \<open>
  What the generation engine of \<open>src/generation.rs\<close> guarantees: exactly which material it accepts,
  which root entries are its own, that a reader of \<open>active\<close> sees the old material or the complete
  new one whatever fails and wherever, that entries which are not the engine's survive, and that a
  run in which nothing fails installs exactly the material and prunes.
\<close>

section \<open>Names\<close>

lemma is_single_component_iff: "is_single_component n \<longleftrightarrow> plain_name n"
proof
  assume "plain_name n"
  then show "is_single_component n" by (simp add: is_single_component_def components_plain)
next
  assume s: "is_single_component n"
  then have c: "components n = [Normal n]"
    by (auto simp: is_single_component_def split: list.splits component.splits)
  have "\<not> starts_with ''/'' n"
    using c by (auto simp: components_def Let_def split: if_splits)
  with c have inner: "map component_of (filter (\<lambda>p. p \<noteq> [] \<and> p \<noteq> ''.'') (split (CHR ''/'') n)) = [Normal n]"
    by (auto simp: components_def Let_def split: if_splits)
  then obtain p where p: "filter (\<lambda>p. p \<noteq> [] \<and> p \<noteq> ''.'') (split (CHR ''/'') n) = [p]" "component_of p = Normal n"
    by (auto simp: map_eq_Cons_conv)
  then have pn: "p = n" "p \<noteq> ''..''" by (auto simp: component_of_def split: if_splits)
  from p(1) have "p \<in> set (filter (\<lambda>p. p \<noteq> [] \<and> p \<noteq> ''.'') (split (CHR ''/'') n))" by simp
  then have "p \<noteq> []" "p \<noteq> ''.''" "p \<in> set (split (CHR ''/'') n)" by auto
  with pn split_pieces [of p "CHR ''/''" n] show "plain_name n" by (simp add: plain_name_def)
qed

lemma to_string_digits: "list_all is_ascii_digit (to_string n)"
  by (simp add: to_string_def)

lemma not_in_to_string: "\<not> is_ascii_digit c \<Longrightarrow> c \<notin> set (to_string n)"
  by (simp add: to_string_def not_in_dec)

lemma to_string_no_dot: "CHR ''.'' \<notin> set (to_string n)" "CHR ''/'' \<notin> set (to_string n)"
  by (simp_all add: not_in_to_string is_ascii_digit_def)

lemmas engine_name_defs = generation_name_def tmp_generation_name_def active_tmp_name_def
  ACTIVE_LINK_def GENERATION_PREFIX_def TMP_EXTENSION_def

lemma plain_engine_names [simp]:
  "plain_name (generation_name n)" "plain_name (tmp_generation_name n)"
  "plain_name active_tmp_name" "plain_name ACTIVE_LINK"
  by (simp_all add: plain_name_def engine_name_defs to_string_no_dot)

lemma parse_generation_name [simp]: "parse_generation (generation_name n) = Some n"
proof -
  have "file_name (generation_name n) = Some (generation_name n)" by simp
  then show ?thesis by (simp add: parse_generation_def generation_name_def)
qed

lemma parse_generation_plain:
  "plain_name e \<Longrightarrow> parse_generation e = Some n \<longleftrightarrow> e = generation_name n"
proof
  assume "plain_name e" "parse_generation e = Some n"
  then show "e = generation_name n"
    by (auto simp: parse_generation_def generation_name_def strip_prefix_Some
        split: option.splits if_splits)
qed simp

lemma parse_generation_target:
  "parse_generation path = Some n \<longleftrightarrow> file_name path = Some (generation_name n)"
proof
  assume "parse_generation path = Some n"
  then show "file_name path = Some (generation_name n)"
    by (auto simp: parse_generation_def generation_name_def strip_prefix_Some
        split: option.splits if_splits)
next
  assume "file_name path = Some (generation_name n)"
  then show "parse_generation path = Some n"
    by (simp add: parse_generation_def generation_name_def)
qed

lemma rsplit_dot: "CHR ''.'' \<notin> set a \<Longrightarrow> CHR ''.'' \<notin> set b \<Longrightarrow> a \<noteq> [] \<Longrightarrow>
    rsplit_at_dot (a @ CHR ''.'' # b) = (Some a, Some b)"
  using rfind_byte_append [of "CHR ''.''" b a]
  by (cases a) (auto simp: rsplit_at_dot_def)

lemma rsplit_at_dotD:
  "rsplit_at_dot name = (Some a, Some b) \<Longrightarrow> name = a @ CHR ''.'' # b"
  by (auto simp: rsplit_at_dot_def rfind_byte_Some split: if_splits option.splits)

lemma parse_tmp_generation_plain:
  assumes "plain_name e"
  shows "parse_tmp_generation e = Some n \<longleftrightarrow> e = tmp_generation_name n"
proof
  assume p: "parse_tmp_generation e = Some n"
  obtain x y where xy: "rsplit_at_dot e = (x, y)" by force
  from p assms xy obtain a where a: "x = Some a" "y = Some TMP_EXTENSION" "parse_generation a = Some n"
    by (auto simp: parse_tmp_generation_def extension_def file_stem_def split: option.splits if_splits)
  with xy have e: "e = a @ CHR ''.'' # TMP_EXTENSION" by (auto dest: rsplit_at_dotD)
  from a(3) have fn: "file_name a = Some (generation_name n)" by (simp add: parse_generation_target)
  have "CHR ''/'' \<notin> set a" using assms e by (simp add: plain_name_def)
  then have "split (CHR ''/'') a = [a]" by (simp add: split_no_sep)
  moreover have "\<not> starts_with ''/'' a"
    using \<open>CHR ''/'' \<notin> set a\<close> by (auto simp: starts_with_def strip_prefix_Some)
  ultimately have "a = generation_name n"
    using fn by (auto simp: file_name_def components_def component_of_def split: if_splits)
  with e show "e = tmp_generation_name n" by (simp add: tmp_generation_name_def generation_name_def)
next
  assume e: "e = tmp_generation_name n"
  have g: "CHR ''.'' \<notin> set (generation_name n)" "CHR ''.'' \<notin> set TMP_EXTENSION" "generation_name n \<noteq> []"
    by (simp_all add: engine_name_defs to_string_no_dot)
  have "e = generation_name n @ CHR ''.'' # TMP_EXTENSION"
    by (simp add: e generation_name_def tmp_generation_name_def)
  with rsplit_dot [OF g] assms show "parse_tmp_generation e = Some n"
    by (simp add: parse_tmp_generation_def extension_def file_stem_def)
qed

lemma engine_names_differ [simp]:
  "generation_name n \<noteq> ACTIVE_LINK" "ACTIVE_LINK \<noteq> generation_name n"
  "tmp_generation_name n \<noteq> ACTIVE_LINK" "ACTIVE_LINK \<noteq> tmp_generation_name n"
  "active_tmp_name \<noteq> ACTIVE_LINK" "ACTIVE_LINK \<noteq> active_tmp_name"
  "generation_name n \<noteq> active_tmp_name" "active_tmp_name \<noteq> generation_name n"
  "tmp_generation_name n \<noteq> active_tmp_name" "active_tmp_name \<noteq> tmp_generation_name n"
  by (simp_all add: engine_name_defs)

lemma generation_not_tmp [simp]:
  "generation_name n \<noteq> tmp_generation_name m" "tmp_generation_name m \<noteq> generation_name n"
proof -
  have "CHR ''.'' \<notin> set (generation_name n)" "CHR ''.'' \<in> set (tmp_generation_name m)"
    by (simp_all add: engine_name_defs to_string_no_dot)
  then show "generation_name n \<noteq> tmp_generation_name m" "tmp_generation_name m \<noteq> generation_name n"
    by metis+
qed

lemma generation_name_inj [simp]: "generation_name n = generation_name m \<longleftrightarrow> n = m"
  by (simp add: generation_name_def)

lemma tmp_generation_name_inj [simp]: "tmp_generation_name n = tmp_generation_name m \<longleftrightarrow> n = m"
  by (simp add: tmp_generation_name_def separated_cancel)

text \<open>The root entries that belong to the engine.\<close>

definition engine_entry :: "bytes \<Rightarrow> bool" where
  "engine_entry e \<longleftrightarrow> e = ACTIVE_LINK \<or> e = active_tmp_name \<or>
     parse_generation e \<noteq> None \<or> parse_tmp_generation e \<noteq> None"

text \<open>
  The names the engine claims at the tree root are exactly the ones it writes: a directory entry
  parses as generation \<open>n\<close> only when it is spelled \<open>gen-n\<close> in canonical decimal, and as a staging
  directory only when it is spelled \<open>gen-n.tmp\<close>; the two are disjoint, and neither is \<open>active\<close> or
  \<open>active.tmp\<close>. So \<open>gen-01\<close>, \<open>gen-+1\<close> and \<open>gen-retention.tmp\<close> belong to somebody else.
\<close>

theorem generation_names_canonical:
  assumes "plain_name e"
  shows "(parse_generation e = Some n \<longleftrightarrow> e = generation_name n) \<and>
    (parse_tmp_generation e = Some n \<longleftrightarrow> e = tmp_generation_name n) \<and>
    \<not> (parse_generation e \<noteq> None \<and> parse_tmp_generation e \<noteq> None) \<and>
    (e \<in> {ACTIVE_LINK, active_tmp_name} \<longrightarrow> parse_generation e = None \<and> parse_tmp_generation e = None)"
  using assms by (auto simp: parse_generation_plain parse_tmp_generation_plain
      simp del: not_None_eq split: option.splits)
    (metis engine_names_differ generation_not_tmp not_Some_eq parse_generation_plain
      parse_tmp_generation_plain plain_engine_names)+

theorem generation_names_canonical_witness:
  "parse_generation ''gen-01'' = None"
proof -
  have "plain_name ''gen-01''" by (simp add: plain_name_def)
  then have "\<And>n. parse_generation ''gen-01'' = Some n \<longleftrightarrow> ''gen-01'' = generation_name n"
    using generation_names_canonical by blast
  moreover have "''gen-01'' \<noteq> generation_name n" for n
  proof
    assume "''gen-01'' = generation_name n"
    then have d: "dec (unat n) = ''01''" by (simp add: engine_name_defs to_string_def)
    then have "hd (dec (unat n)) = CHR ''0''" by simp
    then have "unat n = 0" by (rule dec_hd_zero)
    with d show False by (simp add: dec.simps [of 0])
  qed
  ultimately show ?thesis by (cases "parse_generation ''gen-01''") auto
qed

section \<open>Material\<close>

lemma check_material_from_Inr:
  "check_material_from earlier m = Inr () \<longleftrightarrow>
     (\<forall>f \<in> set m. plain_name (gf_name f)) \<and> distinct (map gf_name m) \<and>
     set (map gf_name m) \<inter> set earlier = {}"
  by (induction m arbitrary: earlier) (auto simp: is_single_component_iff)

text \<open>
  Material is accepted exactly when it is not empty, every name is a single path component (not
  empty, not \<open>.\<close> or \<open>..\<close>, no separator), and no two names are equal; nothing else is refused.
\<close>

theorem material_accepted_iff:
  "check_material m = Inr () \<longleftrightarrow>
     m \<noteq> [] \<and> distinct (map gf_name m) \<and>
     (\<forall>f \<in> set m. gf_name f \<noteq> [] \<and> gf_name f \<noteq> ''.'' \<and> gf_name f \<noteq> ''..'' \<and> CHR ''/'' \<notin> set (gf_name f))"
  by (auto simp: check_material_def check_material_from_Inr plain_name_def)

theorem material_accepted_iff_witness:
  "check_material [\<lparr>gf_name = ''epoch'', gf_bytes = ''1''\<rparr>] = Inr ()"
  by (subst material_accepted_iff) simp

definition staged :: "generation_file list \<Rightarrow> (bytes \<times> node) list" where
  "staged m = map (\<lambda>f. (gf_name f, File (gf_bytes f))) m"

lemma staged_simps [simp]: "staged [] = []" "staged (a @ b) = staged a @ staged b"
  "fst ` set (staged m) = gf_name ` set m"
  by (auto simp: staged_def image_image)

lemma staged_single [simp]: "staged [f] = [(gf_name f, File (gf_bytes f))]"
  by (simp add: staged_def)

lemma map_of_staged:
  "distinct (map gf_name m) \<Longrightarrow> f \<in> set m \<Longrightarrow> map_of (staged m) (gf_name f) = Some (File (gf_bytes f))"
  by (rule map_of_is_SomeI) (auto simp: staged_def comp_def)

section \<open>Staging\<close>

lemma remove_dir_all_if_present_triple:
  assumes "\<And>root. P root \<Longrightarrow> Q (AList.delete name root)"
    and "\<And>root. P root \<Longrightarrow> map_of root name = None \<Longrightarrow> Q root"
    and "\<And>root b. P root \<Longrightarrow> map_of root name = Some (File b) \<Longrightarrow> E root"
    and "\<And>root k. faulty \<Longrightarrow> P root \<Longrightarrow> E (in_dir name (drop k) root)"
  shows "triple faulty P (remove_dir_all_if_present name) (\<lambda>_. Q) (\<lambda>_. E)"
  unfolding remove_dir_all_if_present_def
proof (rule triple_bind)
  let ?R = "\<lambda>r root. case r of Inr _ \<Rightarrow> Q root | Inl NotFound \<Rightarrow> Q root | Inl OtherKind \<Rightarrow> E root"
  show "triple faulty P (attempt (fs_remove_dir_all name)) ?R (\<lambda>_. E)"
    unfolding fs_remove_dir_all_def
    by (rule triple_attempt, rule triple_operation)
      (use assms in \<open>auto split: option.splits node.splits\<close>)
  fix r :: "io_kind + unit"
  show "triple faulty (?R r) (case r of Inl NotFound \<Rightarrow> ret () | Inl OtherKind \<Rightarrow> fail (GE_Io [name] OtherKind)
      | Inr x \<Rightarrow> ret ()) (\<lambda>_. Q) (\<lambda>_. E)"
    by (cases r rule: sum.exhaust; (simp add: triple_ret triple_fail split: io_kind.split)?)
qed

text \<open>While a generation is staged, only its own staging entry differs from the tree before.\<close>

definition staging ::
  "(bytes \<times> node) list \<Rightarrow> bytes \<Rightarrow> (bytes \<times> node) list option \<Rightarrow> (bytes \<times> node) list \<Rightarrow> bool" where
  "staging before tmp content root \<longleftrightarrow>
     agree_off {tmp} before root \<and> map_of root tmp = map_option Dir content"

lemma make_dir_triple:
  "triple faulty (staging before tmp None) (make_dir_0700 tmp)
     (\<lambda>_. staging before tmp (Some [])) (\<lambda>_ root. faulty \<and> agree_off {tmp} before root)"
  unfolding make_dir_0700_def io_at_def fs_create_dir_def
  by (rule triple_map_err, rule triple_operation)
    (auto simp: staging_def split: option.splits)

lemma write_file_triple:
  assumes "file \<notin> fst ` set d"
  shows "triple faulty (staging before tmp (Some d)) (write_file_0600 tmp file content)
     (\<lambda>_. staging before tmp (Some (d @ [(file, File content)])))
     (\<lambda>_ root. faulty \<and> agree_off {tmp} before root)"
  unfolding write_file_0600_def io_at_def
proof (intro triple_then triple_map_err)
  have none: "map_of d file = None" using assms by (simp add: map_of_eq_None_iff)
  show "triple faulty (staging before tmp (Some d)) (fs_create_new tmp file)
     (\<lambda>_. staging before tmp (Some (d @ [(file, File [])]))) (\<lambda>_ root. faulty \<and> agree_off {tmp} before root)"
    unfolding fs_create_new_def
    by (rule triple_operation)
      (auto simp: staging_def none map_of_in_dir update_append [OF assms] split: option.splits)
  show "triple faulty (staging before tmp (Some (d @ [(file, File [])]))) (fs_write_all tmp file content)
     (\<lambda>_. staging before tmp (Some (d @ [(file, File content)])))
     (\<lambda>_ root. faulty \<and> agree_off {tmp} before root)"
    unfolding fs_write_all_def
    by (rule triple_operation) (auto simp: staging_def map_of_in_dir update_last [OF assms])
  show "triple faulty (staging before tmp (Some (d @ [(file, File content)]))) fs_sync
     (\<lambda>_. staging before tmp (Some (d @ [(file, File content)])))
     (\<lambda>_ root. faulty \<and> agree_off {tmp} before root)"
    unfolding fs_sync_def by (rule triple_operation) (auto simp: staging_def)
qed

lemma write_all_triple:
  assumes "distinct (map gf_name m)"
  shows "triple faulty (staging before tmp (Some []))
     (for_each_io (\<lambda>f. write_file_0600 tmp (gf_name f) (gf_bytes f)) m)
     (\<lambda>_. staging before tmp (Some (staged m))) (\<lambda>_ root. faulty \<and> agree_off {tmp} before root)"
proof -
  have "triple faulty (staging before tmp (Some (staged xs))) (write_file_0600 tmp (gf_name f) (gf_bytes f))
     (\<lambda>_. staging before tmp (Some (staged (xs @ [f])))) (\<lambda>_ root. faulty \<and> agree_off {tmp} before root)"
    if "m = xs @ f # ys" for xs f ys
    using assms that by (simp, intro write_file_triple) auto
  from triple_for_each [where I = "\<lambda>xs. staging before tmp (Some (staged xs))", OF this]
  show ?thesis by simp
qed

lemma read_in_dir: "map_of root dir = Some (Dir d) \<Longrightarrow>
    read_in root dir file = (case map_of d file of
       None \<Rightarrow> Inl NotFound | Some (File b) \<Rightarrow> Inr b | Some _ \<Rightarrow> Inl OtherKind)"
  by (simp add: read_in_def MAX_LINK_HOPS_def numeral_eq_Suc)

lemma read_back_triple:
  assumes "distinct (map gf_name m)"
  shows "triple faulty (staging before tmp (Some (staged m))) (map_io (read_back tmp) m)
     (\<lambda>copied root. staging before tmp (Some (staged m)) root \<and> copied = m)
     (\<lambda>_ root. faulty \<and> agree_off {tmp} before root)"
proof (rule triple_conseq, rule triple_map_io [where R = "\<lambda>f g. g = f"])
  fix f
  assume f: "f \<in> set m"
  let ?I = "staging before tmp (Some (staged m))"
  show "triple faulty ?I (read_back tmp f) (\<lambda>g root. ?I root \<and> g = f)
      (\<lambda>_ root. faulty \<and> agree_off {tmp} before root)"
    unfolding read_back_def io_at_def
  proof (rule triple_bind)
    show "triple faulty ?I (io_map_err (GE_Io [tmp, gf_name f]) (fs_read tmp (gf_name f)))
        (\<lambda>content root. ?I root \<and> content = gf_bytes f) (\<lambda>_ root. faulty \<and> agree_off {tmp} before root)"
      unfolding fs_read_def
      by (rule triple_map_err, rule triple_operation)
        (auto simp: staging_def read_in_dir map_of_staged [OF assms f])
  qed (auto intro!: triple_ret)
qed (auto simp: list_all2_conv_all_nth list_eq_iff_nth_eq)

text \<open>A validator accepts a material when it passes on a directory that holds exactly this material.\<close>

definition accepted_by :: "'e validator \<Rightarrow> generation_file list \<Rightarrow> bool" where
  "accepted_by validate m \<longleftrightarrow>
     (\<exists>dir s. map_of (fs_root s) dir = Some (Dir (staged m)) \<and> fst (validate dir m s) = Inr ())"

text \<open>A validator refuses a material when, undisturbed, it fails on such a directory.\<close>

definition rejected_by :: "'e validator \<Rightarrow> generation_file list \<Rightarrow> bool" where
  "rejected_by validate m \<longleftrightarrow>
     (\<exists>dir s e. map_of (fs_root s) dir = Some (Dir (staged m)) \<and> fs_faults s = [] \<and>
        fst (validate dir m s) = Inl e)"

text \<open>A validator that only looks: it may do I/O and fail, and leaves every entry as it was.\<close>

locale staged_validator =
  fixes validate :: "'e validator"
  assumes validator_keeps: "validate dir files s = (r, s') \<Longrightarrow> fs_root s' = fs_root s"
    and validator_faultless: "validate dir files s = (r, s') \<Longrightarrow> fs_faults s = [] \<Longrightarrow> fs_faults s' = []"
begin

lemma validate_triple:
  "triple faulty P (validate dir files) (\<lambda>_. P) (\<lambda>_. P)"
proof (rule tripleI)
  fix s r s'
  assume "P (fs_root s)" "faulty \<or> fs_faults s = []" and v: "validate dir files s = (r, s')"
  with validator_keeps [OF v] validator_faultless [OF v]
  show "(faulty \<or> fs_faults s' = []) \<and>
      (case r of Inr x \<Rightarrow> P (fs_root s') | Inl e \<Rightarrow> P (fs_root s'))"
    by (auto split: sum.split)
qed

lemma stage_triple:
  assumes "distinct (map gf_name m)"
    and "\<And>b. map_of before (tmp_generation_name g) = Some (File b) \<Longrightarrow> faulty"
  shows "triple faulty (\<lambda>root. root = before) (stage_generation conv m validate g)
     (\<lambda>_ root. staging before (tmp_generation_name g) (Some (staged m)) root \<and>
        accepted_by validate m)
     (\<lambda>_ root. (faulty \<or> rejected_by validate m) \<and>
        agree_off {tmp_generation_name g} before root)"
  unfolding stage_generation_def Let_def
proof (intro triple_then triple_map_err)
  let ?t = "tmp_generation_name g"
  let ?reject = "faulty \<or> rejected_by validate m"
  let ?accept = "accepted_by validate m"
  let ?E = "\<lambda>root. ?reject \<and> agree_off {?t} before root"
  show "triple faulty (\<lambda>root. root = before) (remove_dir_all_if_present ?t)
      (\<lambda>_. staging before ?t None) (\<lambda>_. ?E)"
    by (rule remove_dir_all_if_present_triple) (use assms(2) in \<open>auto simp: staging_def\<close>)
  show "triple faulty (staging before ?t None) (make_dir_0700 ?t) (\<lambda>_. staging before ?t (Some []))
      (\<lambda>_. ?E)"
    by (rule triple_conseq, rule make_dir_triple) auto
  show "triple faulty (staging before ?t (Some []))
      (for_each_io (\<lambda>f. write_file_0600 ?t (gf_name f) (gf_bytes f)) m)
      (\<lambda>_. staging before ?t (Some (staged m))) (\<lambda>_. ?E)"
    by (rule triple_conseq, rule write_all_triple [OF assms(1)]) auto
  let ?S = "staging before ?t (Some (staged m))"
  show "triple faulty ?S
     (bind_io (io_map_err conv (map_io (read_back ?t) m)) (\<lambda>copied.
      bind_io (attempt (validate ?t copied)) (\<lambda>r. case r of
          Inl err \<Rightarrow> bind_io (attempt (remove_dir_all_if_present ?t)) (\<lambda>_. fail err)
        | Inr _ \<Rightarrow> ret ()))) (\<lambda>_ root. ?S root \<and> ?accept) (\<lambda>_. ?E)"
  proof (rule triple_bind, rule triple_map_err)
    show "triple faulty ?S (map_io (read_back ?t) m) (\<lambda>copied root. ?S root \<and> copied = m) (\<lambda>_. ?E)"
      by (rule triple_conseq, rule read_back_triple [OF assms(1)]) auto
    fix copied
    show "triple faulty (\<lambda>root. ?S root \<and> copied = m) (bind_io (attempt (validate ?t copied)) (\<lambda>r. case r of
          Inl err \<Rightarrow> bind_io (attempt (remove_dir_all_if_present ?t)) (\<lambda>_. fail err)
        | Inr _ \<Rightarrow> ret ())) (\<lambda>_ root. ?S root \<and> ?accept) (\<lambda>_. ?E)"
    proof (cases "copied = m")
      case False
      then show ?thesis by (simp add: triple_def)
    next
      case True
      show ?thesis
      proof (rule triple_bind [where R = "\<lambda>r root. case r of Inr _ \<Rightarrow> ?S root \<and> ?accept | Inl _ \<Rightarrow> ?S root \<and> ?reject"])
        have "triple faulty (\<lambda>root. ?S root \<and> copied = m) (validate ?t copied) (\<lambda>_ root. ?S root \<and> ?accept)
            (\<lambda>_ root. ?S root \<and> ?reject)"
        proof (rule tripleI)
          fix s r s'
          assume *: "?S (fs_root s) \<and> copied = m" "faulty \<or> fs_faults s = []" "validate ?t copied s = (r, s')"
          have "r = Inl e \<Longrightarrow> ?reject" for e
            using * unfolding rejected_by_def staging_def
            by (cases faulty) (auto intro!: exI [of _ ?t] exI [of _ s] exI [of _ e])
          moreover have "r = Inr () \<Longrightarrow> ?accept"
            using * unfolding accepted_by_def staging_def by (intro exI [of _ ?t] exI [of _ s]) simp
          ultimately
          show "(faulty \<or> fs_faults s' = []) \<and>
              (case r of Inr x \<Rightarrow> ?S (fs_root s') \<and> ?accept | Inl e \<Rightarrow> ?S (fs_root s') \<and> ?reject)"
            using tripleD [OF validate_triple [where P = ?S], of s faulty ?t copied r s'] *
            by (auto split: sum.splits)
        qed
        then show "triple faulty (\<lambda>root. ?S root \<and> copied = m) (attempt (validate ?t copied))
            (\<lambda>r root. case r of Inr _ \<Rightarrow> ?S root \<and> ?accept | Inl _ \<Rightarrow> ?S root \<and> ?reject) (\<lambda>_. ?E)"
          by (intro triple_attempt) simp
        fix r :: "'a + unit"
        have drop: "triple faulty (\<lambda>root. ?S root \<and> ?reject) (attempt (remove_dir_all_if_present ?t))
            (\<lambda>_. ?E) (\<lambda>_. ?E)"
          by (rule triple_attempt, rule triple_conseq,
              rule remove_dir_all_if_present_triple [where P = "\<lambda>root. agree_off {?t} before root \<and> ?reject"
                and Q = ?E and E = ?E])
            (auto simp: staging_def)
        show "triple faulty (\<lambda>root. case r of Inr _ \<Rightarrow> ?S root \<and> ?accept | Inl _ \<Rightarrow> ?S root \<and> ?reject) (case r of
            Inl err \<Rightarrow> bind_io (attempt (remove_dir_all_if_present ?t)) (\<lambda>_. fail err)
          | Inr _ \<Rightarrow> ret ()) (\<lambda>_ root. ?S root \<and> ?accept) (\<lambda>_. ?E)"
          by (cases r) (auto intro!: triple_ret triple_bind [OF drop] triple_fail)
      qed
    qed
  qed
qed

end

section \<open>Publishing\<close>

text \<open>The next index is larger than every index in the tree, so its name is not taken.\<close>

definition fresh_index :: "(bytes \<times> node) list \<Rightarrow> u64 \<Rightarrow> bool" where
  "fresh_index root g \<longleftrightarrow> (\<forall>e n. map_of root e \<noteq> None \<longrightarrow> parse_generation e = Some n \<longrightarrow> n < g)"

text \<open>Not yet swapped: \<open>active\<close> and every earlier generation are as they were.\<close>

definition old_live :: "u64 \<Rightarrow> (bytes \<times> node) list \<Rightarrow> (bytes \<times> node) list \<Rightarrow> bool" where
  "old_live g before root \<longleftrightarrow>
     agree_off {tmp_generation_name g, generation_name g, active_tmp_name} before root"

text \<open>Swapped: \<open>active\<close> names the complete new generation.\<close>

definition new_live ::
  "u64 \<Rightarrow> generation_file list \<Rightarrow> (bytes \<times> node) list \<Rightarrow> (bytes \<times> node) list \<Rightarrow> bool" where
  "new_live g m before root \<longleftrightarrow>
     map_of root ACTIVE_LINK = Some (Link (generation_name g)) \<and>
     map_of root (generation_name g) = Some (Dir (staged m)) \<and>
     (\<forall>e. \<not> engine_entry e \<longrightarrow> map_of root e = map_of before e) \<and>
     (\<forall>e. map_of root e \<noteq> None \<longrightarrow> map_of before e \<noteq> None \<or> e \<in> {ACTIVE_LINK, generation_name g})"

definition swapping :: "u64 \<Rightarrow> generation_file list \<Rightarrow> (bytes \<times> node) list \<Rightarrow> (bytes \<times> node) list \<Rightarrow> bool" where
  "swapping g m before root \<longleftrightarrow>
     old_live g before root \<and> map_of root (generation_name g) = Some (Dir (staged m)) \<and>
     map_of root (tmp_generation_name g) = None"

lemma engine_entry_names [simp]:
  "engine_entry ACTIVE_LINK" "engine_entry active_tmp_name" "engine_entry (generation_name g)"
  "engine_entry (tmp_generation_name g)"
  by (simp_all add: engine_entry_def parse_tmp_generation_plain)

lemma finalise_triple:
  assumes "map_of before (generation_name g) = None"
  shows "triple faulty (staging before (tmp_generation_name g) (Some (staged m)))
     (fs_rename (tmp_generation_name g) (generation_name g))
     (\<lambda>_. swapping g m before) (\<lambda>_ root. faulty \<and> old_live g before root)"
  unfolding fs_rename_def
  using assms by (intro triple_operation)
    (auto simp: staging_def swapping_def old_live_def agree_off_def split: option.splits if_splits)

definition stale :: "u64 \<Rightarrow> bytes \<Rightarrow> bool" where
  "stale keep e \<longleftrightarrow> parse_tmp_generation e \<noteq> None \<or>
     (case parse_generation e of None \<Rightarrow> False | Some n \<Rightarrow> n \<noteq> keep)"

lemma parse_engine_names [simp]:
  "parse_generation ACTIVE_LINK = None" "parse_tmp_generation ACTIVE_LINK = None"
  "parse_tmp_generation (generation_name g) = None" "parse_generation (tmp_generation_name g) = None"
  "parse_generation active_tmp_name = None" "parse_tmp_generation active_tmp_name = None"
  using parse_generation_plain [of ACTIVE_LINK] parse_tmp_generation_plain [of ACTIVE_LINK]
    parse_tmp_generation_plain [of "generation_name g"] parse_generation_plain [of "tmp_generation_name g"]
    parse_generation_plain [of active_tmp_name] parse_tmp_generation_plain [of active_tmp_name]
  by (meson engine_names_differ generation_not_tmp option.exhaust plain_engine_names)+

lemma stale_engine:
  "stale g e \<Longrightarrow> engine_entry e \<and> e \<noteq> ACTIVE_LINK \<and> e \<noteq> generation_name g \<and> e \<noteq> active_tmp_name"
  by (auto simp: stale_def engine_entry_def split: option.splits)

text \<open>
  After the swap the stale entries are those of the tree before, possibly gone: the staging entry
  was renamed, every other one is untouched.
\<close>

definition swapped ::
  "u64 \<Rightarrow> generation_file list \<Rightarrow> (bytes \<times> node) list \<Rightarrow> (bytes \<times> node) list \<Rightarrow> bool" where
  "swapped g m before root \<longleftrightarrow>
     new_live g m before root \<and> (\<forall>n. stale g n \<longrightarrow> map_of root n \<in> {None, map_of before n})"

lemma swap_triple:
  assumes "\<And>d. \<not> faulty \<Longrightarrow> map_of before active_tmp_name \<noteq> Some (Dir d)"
    and "\<And>d. \<not> faulty \<Longrightarrow> map_of before ACTIVE_LINK \<noteq> Some (Dir d)"
  shows "triple faulty (\<lambda>root. swapping g m before root \<and>
        map_of root active_tmp_name = map_of before active_tmp_name)
     (swap_active_symlink g)
     (\<lambda>_. swapped g m before) (\<lambda>_ root. faulty \<and> old_live g before root)"
  unfolding swap_active_symlink_def
proof (rule triple_bind)
  let ?P = "\<lambda>root. swapping g m before root \<and> map_of root active_tmp_name = map_of before active_tmp_name"
  let ?C = "\<lambda>root. swapping g m before root \<and> map_of root active_tmp_name = None"
  let ?R = "\<lambda>r root. case r of Inr _ \<Rightarrow> ?C root | Inl NotFound \<Rightarrow> ?C root
      | Inl OtherKind \<Rightarrow> faulty \<and> swapping g m before root"
  show "triple faulty ?P (attempt (fs_remove_file active_tmp_name)) ?R (\<lambda>_ root. faulty \<and> old_live g before root)"
    unfolding fs_remove_file_def
    by (rule triple_attempt, rule triple_operation)
      (use assms(1) in \<open>auto simp: swapping_def old_live_def split: option.splits node.splits\<close>)
  fix r :: "io_kind + unit"
  show "triple faulty (?R r)
     (then_io (case r of Inl NotFound \<Rightarrow> ret () | Inl OtherKind \<Rightarrow> fail (GE_Io [active_tmp_name] OtherKind)
         | Inr _ \<Rightarrow> ret ())
     (then_io (io_at [active_tmp_name] (fs_symlink (generation_name g) active_tmp_name))
       (io_at [ACTIVE_LINK] (fs_rename active_tmp_name ACTIVE_LINK))))
     (\<lambda>_. swapped g m before) (\<lambda>_ root. faulty \<and> old_live g before root)"
    unfolding io_at_def
  proof (intro triple_then triple_map_err)
    show "triple faulty (?R r) (case r of Inl NotFound \<Rightarrow> ret () | Inl OtherKind \<Rightarrow> fail (GE_Io [active_tmp_name] OtherKind)
         | Inr _ \<Rightarrow> ret ()) (\<lambda>_. ?C) (\<lambda>_ root. faulty \<and> old_live g before root)"
      by (cases r rule: sum.exhaust)
        (auto intro!: triple_ret triple_fail simp: swapping_def split: io_kind.split)
    let ?L = "\<lambda>root. swapping g m before root \<and>
        map_of root active_tmp_name = Some (Link (generation_name g))"
    show "triple faulty ?C (fs_symlink (generation_name g) active_tmp_name) (\<lambda>_. ?L)
        (\<lambda>_ root. faulty \<and> old_live g before root)"
      unfolding fs_symlink_def
      by (rule triple_operation) (auto simp: swapping_def old_live_def split: option.splits)
    show "triple faulty ?L (fs_rename active_tmp_name ACTIVE_LINK) (\<lambda>_. swapped g m before)
        (\<lambda>_ root. faulty \<and> old_live g before root)"
      unfolding fs_rename_def
    proof (rule triple_operation)
      fix root x root'
      assume L: "?L root" and op: "(case map_of root active_tmp_name of
          None \<Rightarrow> (Inl NotFound, root)
        | Some n \<Rightarrow> if active_tmp_name = ACTIVE_LINK then (Inr (), root)
            else if replaceable n (map_of root ACTIVE_LINK)
              then (Inr (), AList.update ACTIVE_LINK n (AList.delete active_tmp_name root))
              else (Inl OtherKind, root)) = (Inr x, root')"
      then have r: "root' = AList.update ACTIVE_LINK (Link (generation_name g)) (AList.delete active_tmp_name root)"
        by (auto split: if_splits)
      have agree: "map_of root e = map_of before e" if "e \<notin> {tmp_generation_name g, generation_name g, active_tmp_name}" for e
        using L that by (simp add: swapping_def old_live_def agree_off_def)
      show "swapped g m before root'"
        unfolding swapped_def new_live_def r
      proof (intro conjI allI impI)
        fix e
        show "\<not> engine_entry e \<Longrightarrow> map_of (AList.update ACTIVE_LINK (Link (generation_name g))
            (AList.delete active_tmp_name root)) e = map_of before e"
          using agree [of e]
          by (cases "e = tmp_generation_name g"; cases "e = generation_name g"; auto)
        show "map_of (AList.update ACTIVE_LINK (Link (generation_name g)) (AList.delete active_tmp_name root)) e \<noteq> None \<Longrightarrow>
            map_of before e \<noteq> None \<or> e \<in> {ACTIVE_LINK, generation_name g}"
          using agree [of e] L by (cases "e = tmp_generation_name g"; cases "e = generation_name g"; cases "map_of before e")
            (auto simp: swapping_def split: if_splits)
        show "stale g e \<Longrightarrow> map_of (AList.update ACTIVE_LINK (Link (generation_name g)) (AList.delete active_tmp_name root)) e
            \<in> {None, map_of before e}"
          using agree [of e] L stale_engine [of g e]
          by (cases "e = tmp_generation_name g") (auto simp: swapping_def)
      qed (use L in \<open>auto simp: swapping_def\<close>)
    next
      fix root e root'
      assume L: "?L root" and op: "(case map_of root active_tmp_name of
          None \<Rightarrow> (Inl NotFound, root)
        | Some n \<Rightarrow> if active_tmp_name = ACTIVE_LINK then (Inr (), root)
            else if replaceable n (map_of root ACTIVE_LINK)
              then (Inr (), AList.update ACTIVE_LINK n (AList.delete active_tmp_name root))
              else (Inl OtherKind, root)) = (Inl e, root')"
      have "map_of root ACTIVE_LINK = map_of before ACTIVE_LINK"
        using L by (simp add: swapping_def old_live_def agree_off_def)
      with L op assms(2) show "faulty \<and> old_live g before root'"
        by (cases "map_of before ACTIVE_LINK" rule: option.exhaust)
          (auto simp: swapping_def split: if_splits node.splits, (cases "the (map_of before ACTIVE_LINK)"; auto)+)
    qed (auto simp: swapping_def)
  qed
qed

lemma new_live_prune:
  assumes "new_live g m before root" "e \<noteq> ACTIVE_LINK" "e \<noteq> generation_name g" "engine_entry e"
  shows "new_live g m before (AList.delete e root)" "new_live g m before (in_dir e f root)"
proof -
  show "new_live g m before (AList.delete e root)"
    using assms unfolding new_live_def by (auto simp del: not_None_eq)
  show "new_live g m before (in_dir e f root)"
    using assms unfolding new_live_def
    by (auto simp: map_of_in_dir simp del: not_None_eq split: option.splits node.splits)
qed

lemma prune_entry_triple:
  assumes "\<And>b. stale g e \<Longrightarrow> map_of before e = Some (File b) \<Longrightarrow> faulty"
  shows "triple faulty
     (\<lambda>root. new_live g m before root \<and> (\<forall>n. stale g n \<longrightarrow> map_of root n \<in> {None, map_of before n}) \<and>
        (\<forall>n. stale g n \<longrightarrow> map_of root n \<noteq> None \<longrightarrow> n \<in> set (e # todo)))
     (prune_entry g e)
     (\<lambda>_ root. new_live g m before root \<and> (\<forall>n. stale g n \<longrightarrow> map_of root n \<in> {None, map_of before n}) \<and>
        (\<forall>n. stale g n \<longrightarrow> map_of root n \<noteq> None \<longrightarrow> n \<in> set todo))
     (\<lambda>_ root. faulty \<and> new_live g m before root)"
  (is "triple faulty ?P _ (\<lambda>_. ?Q) ?E")
  unfolding prune_entry_def io_at_def fs_dir_entry_def
proof (rule triple_bind, rule triple_map_err)
  show "triple faulty ?P (operation (\<lambda>root. (Inr e, root)) no_effect) (\<lambda>name root. ?P root \<and> name = e)
      (\<lambda>_ root. faulty \<and> new_live g m before root)"
    by (rule triple_operation) auto
  fix name
  have eq: "parse_tmp_generation e \<noteq> None \<or> (case parse_generation e of None \<Rightarrow> False | Some n \<Rightarrow> n \<noteq> g) \<longleftrightarrow> stale g e"
    by (simp add: stale_def)
  show "triple faulty (\<lambda>root. ?P root \<and> name = e)
     (let is_stale_tmp = parse_tmp_generation name \<noteq> None;
          is_old_gen = (case parse_generation name of None \<Rightarrow> False | Some n \<Rightarrow> n \<noteq> g)
      in if is_stale_tmp \<or> is_old_gen then remove_dir_all_if_present name else ret ()) (\<lambda>_. ?Q) ?E"
  proof (cases "name = e")
    case False
    then show ?thesis by (simp add: triple_def)
  next
    case True
    show ?thesis
    proof (cases "stale g e")
      case False
      then show ?thesis unfolding Let_def True eq by (auto intro!: triple_ret)
    next
      case stale: True
      have "triple faulty ?P (remove_dir_all_if_present e) (\<lambda>_. ?Q) ?E"
      proof (rule remove_dir_all_if_present_triple)
        fix root b
        assume P: "?P root" and f: "map_of root e = Some (File b)"
        from P stale have "map_of root e \<in> {None, map_of before e}" by blast
        with f have "map_of before e = Some (File b)" by simp
        with assms [OF stale] P show "faulty \<and> new_live g m before root" by blast
      qed (use stale stale_engine [OF stale] in \<open>auto intro: new_live_prune simp del: not_None_eq\<close>)
      then show ?thesis unfolding Let_def True eq using stale by simp
    qed
  qed
qed

lemma read_dir_triple:
  "triple faulty P fs_read_dir (\<lambda>entries root. P root \<and> (\<forall>n. map_of root n \<noteq> None \<longleftrightarrow> n \<in> set entries))
     (\<lambda>_ root. faulty \<and> P root)"
  unfolding fs_read_dir_def
proof (rule triple_operation)
  fix root x root'
  assume "P root" "(Inr (map fst root), root) = (Inr x, root')"
  then have "P root'" "x = map fst root'" by auto
  then show "P root' \<and> (\<forall>n. map_of root' n \<noteq> None \<longleftrightarrow> n \<in> set x)"
    by (simp add: map_of_eq_None_iff del: not_None_eq)
qed auto

lemma prune_triple:
  assumes "\<And>e b. stale g e \<Longrightarrow> map_of before e = Some (File b) \<Longrightarrow> faulty"
  shows "triple faulty
     (swapped g m before)
     (prune_generations g)
     (\<lambda>_ root. new_live g m before root \<and> (\<forall>n. stale g n \<longrightarrow> map_of root n = None))
     (\<lambda>_ root. faulty \<and> new_live g m before root)"
  unfolding prune_generations_def io_at_def swapped_def
proof (rule triple_bind, rule triple_map_err)
  let ?P = "\<lambda>root. new_live g m before root \<and> (\<forall>n. stale g n \<longrightarrow> map_of root n \<in> {None, map_of before n})"
  show "triple faulty ?P fs_read_dir (\<lambda>entries root. ?P root \<and> (\<forall>n. map_of root n \<noteq> None \<longleftrightarrow> n \<in> set entries))
      (\<lambda>_ root. faulty \<and> new_live g m before root)"
    by (rule triple_conseq, rule read_dir_triple [where P = ?P]) auto
  fix entries
  let ?I = "\<lambda>todo root. ?P root \<and> (\<forall>n. stale g n \<longrightarrow> map_of root n \<noteq> None \<longrightarrow> n \<in> set todo)"
  have "triple faulty (?I todo) (for_each_io (prune_entry g) todo) (\<lambda>_. ?I [])
      (\<lambda>_ root. faulty \<and> new_live g m before root)" for todo
  proof (induction todo)
    case Nil
    show ?case by (simp add: triple_ret)
  next
    case (Cons e todo)
    show ?case
      unfolding for_each_io.simps
      by (rule triple_then [OF _ Cons.IH], rule triple_conseq,
          rule prune_entry_triple [OF assms]) (auto simp del: not_None_eq)
  qed
  from this [of entries]
  show "triple faulty (\<lambda>root. ?P root \<and> (\<forall>n. map_of root n \<noteq> None \<longleftrightarrow> n \<in> set entries))
     (for_each_io (prune_entry g) entries)
     (\<lambda>_ root. new_live g m before root \<and> (\<forall>n. stale g n \<longrightarrow> map_of root n = None))
     (\<lambda>_ root. faulty \<and> new_live g m before root)"
    by (rule triple_conseq) (auto simp del: not_None_eq)
qed

lemma sync_triple:
  "triple faulty P fs_sync (\<lambda>_. P) (\<lambda>_ root. faulty \<and> P root)"
  unfolding fs_sync_def by (rule triple_operation) auto

text \<open>The reload only matters once the new generation is live.\<close>

definition reload_ok :: "systemctl \<Rightarrow> generation_tree \<Rightarrow> bool" where
  "reload_ok sc tree \<longleftrightarrow>
     (case gt_reload_unit tree of None \<Rightarrow> True | Some unit \<Rightarrow> reload_if_active sc unit = Inr ())"

lemma reload_triple:
  "triple faulty P (case gt_reload_unit tree of None \<Rightarrow> ret ()
      | Some unit \<Rightarrow> lift_res (reload_if_active sc unit))
     (\<lambda>_. P) (\<lambda>_ root. \<not> reload_ok sc tree \<and> P root)"
  by (auto simp: reload_ok_def intro!: triple_ret triple_lift_res split: option.split)

lemma publish_triple:
  assumes "map_of before (generation_name g) = None"
    and clean: "\<not> faulty \<Longrightarrow>
      (\<forall>d. map_of before active_tmp_name \<noteq> Some (Dir d) \<and> map_of before ACTIVE_LINK \<noteq> Some (Dir d)) \<and>
      (\<forall>e b. stale g e \<longrightarrow> map_of before e \<noteq> Some (File b))"
  shows "triple faulty (staging before (tmp_generation_name g) (Some (staged m)))
     (publish_generation sc tree g)
     (\<lambda>_ root. new_live g m before root \<and> (\<forall>n. stale g n \<longrightarrow> map_of root n = None))
     (\<lambda>_ root. (faulty \<or> \<not> reload_ok sc tree) \<and> (old_live g before root \<or> new_live g m before root))"
  (is "triple _ ?S _ ?Q (\<lambda>_ root. ?E root)")
  unfolding publish_generation_def Let_def io_at_def
proof (intro triple_then triple_map_err)
  let ?t = "tmp_generation_name g"
  have st: "old_live g before root" if "?S root" for root
    using that by (auto simp: staging_def old_live_def elim: agree_off_mono)
  have sw: "old_live g before root" if "swapping g m before root" for root
    using that by (simp add: swapping_def)
  have nl: "new_live g m before root" if "swapped g m before root" for root
    using that by (simp add: swapped_def)
  let ?T = "\<lambda>root. ?S root \<and> map_of root active_tmp_name = map_of before active_tmp_name"
  let ?W = "\<lambda>root. swapping g m before root \<and> map_of root active_tmp_name = map_of before active_tmp_name"
  show "triple faulty ?S fs_sync (\<lambda>_. ?S) (\<lambda>_ root. ?E root)"
    by (rule triple_conseq, rule sync_triple [where P = ?S]) (use st in auto)
  have agree: "map_of root active_tmp_name = map_of before active_tmp_name" if "?S root" for root
    using that by (auto simp: staging_def agree_off_def)
  have frame: "triple faulty (\<lambda>root. map_of root active_tmp_name = a) (fs_rename ?t (generation_name g))
      (\<lambda>_ root. map_of root active_tmp_name = a) (\<lambda>_ _. True)" for a
    unfolding fs_rename_def
    by (rule triple_operation) (auto split: option.splits if_splits)
  show "triple faulty ?S (fs_rename ?t (generation_name g)) (\<lambda>_. ?W) (\<lambda>_ root. ?E root)"
  proof (rule tripleI)
    fix s s' :: fsys and r :: "io_kind + unit"
    assume s: "?S (fs_root s)" "faulty \<or> fs_faults s = []" "fs_rename ?t (generation_name g) s = (r, s')"
    from tripleD [OF finalise_triple [OF assms(1)] s] tripleD [OF frame agree [OF s(1)] s(2,3)]
    show "(faulty \<or> fs_faults s' = []) \<and> (case r of Inr x \<Rightarrow> ?W (fs_root s') | Inl e \<Rightarrow> ?E (fs_root s'))"
      by (auto split: sum.splits)
  qed
  show "triple faulty ?W fs_sync (\<lambda>_. ?W) (\<lambda>_ root. ?E root)"
    by (rule triple_conseq, rule sync_triple [where P = ?W]) (use sw in auto)
  show "triple faulty ?W (swap_active_symlink g) (\<lambda>_. swapped g m before) (\<lambda>_ root. ?E root)"
    by (rule triple_conseq, rule swap_triple) (use clean in auto)
  show "triple faulty (swapped g m before) fs_sync (\<lambda>_. swapped g m before) (\<lambda>_ root. ?E root)"
    by (rule triple_conseq, rule sync_triple [where P = "swapped g m before"]) (use nl in auto)
  show "triple faulty (swapped g m before) (case gt_reload_unit tree of None \<Rightarrow> ret ()
      | Some unit \<Rightarrow> lift_res (reload_if_active sc unit)) (\<lambda>_. swapped g m before) (\<lambda>_ root. ?E root)"
    by (rule triple_conseq, rule reload_triple [where P = "swapped g m before"]) (use nl in auto)
  show "triple faulty (swapped g m before) (prune_generations g) ?Q (\<lambda>_ root. ?E root)"
    by (rule triple_conseq, rule prune_triple) (use clean in auto)
qed

section \<open>Allocation\<close>

lemma max_generation_triple:
  "triple faulty P (max_generation m0 entries)
     (\<lambda>m root. P root \<and> m0 \<le> m \<and> (\<forall>e \<in> set entries. \<forall>n. parse_generation e = Some n \<longrightarrow> n \<le> m) \<and>
        (m = m0 \<or> (\<exists>e \<in> set entries. parse_generation e = Some m)))
     (\<lambda>_ root. faulty \<and> P root)"
proof (induction entries arbitrary: m0)
  case Nil
  show ?case by (simp add: triple_ret)
next
  case (Cons e entries)
  have dir: "triple faulty P (fs_dir_entry e) (\<lambda>name root. P root \<and> name = e) (\<lambda>_ root. faulty \<and> P root)"
    unfolding fs_dir_entry_def by (rule triple_operation) auto
  show ?case
    unfolding max_generation.simps io_at_def
  proof (rule triple_bind, rule triple_map_err, rule dir)
    fix name
    let ?m1 = "case parse_generation name of None \<Rightarrow> m0 | Some n \<Rightarrow> max m0 n"
    have bound: "m0 \<le> ?m1" by (auto split: option.split)
    show "triple faulty (\<lambda>root. P root \<and> name = e) (max_generation ?m1 entries)
       (\<lambda>m root. P root \<and> m0 \<le> m \<and>
          (\<forall>e' \<in> set (e # entries). \<forall>n. parse_generation e' = Some n \<longrightarrow> n \<le> m) \<and>
          (m = m0 \<or> (\<exists>e' \<in> set (e # entries). parse_generation e' = Some m)))
       (\<lambda>_ root. faulty \<and> P root)"
    proof (cases "name = e")
      case False
      then show ?thesis by (simp add: triple_def)
    next
      case True
      show ?thesis
      proof (rule triple_conseq [OF Cons.IH [of ?m1]])
        fix m root
        assume *: "P root \<and> ?m1 \<le> m \<and> (\<forall>e \<in> set entries. \<forall>n. parse_generation e = Some n \<longrightarrow> n \<le> m) \<and>
          (m = ?m1 \<or> (\<exists>e \<in> set entries. parse_generation e = Some m))"
        then have "m0 \<le> m" using bound by (meson order_trans)
        moreover have "\<forall>n. parse_generation e = Some n \<longrightarrow> n \<le> m"
          using * True by (auto split: option.splits)
        moreover have "m = m0 \<or> (\<exists>e' \<in> set (e # entries). parse_generation e' = Some m)"
          using * True by (auto simp: max_def split: option.splits if_splits)
        ultimately show "P root \<and> m0 \<le> m \<and>
          (\<forall>e' \<in> set (e # entries). \<forall>n. parse_generation e' = Some n \<longrightarrow> n \<le> m) \<and>
          (m = m0 \<or> (\<exists>e' \<in> set (e # entries). parse_generation e' = Some m))"
          using * by simp
      qed auto
    qed
  qed
qed

text \<open>The index can still be incremented: no entry is called \<open>gen-18446744073709551615\<close>.\<close>

definition index_left :: "(bytes \<times> node) list \<Rightarrow> bool" where
  "index_left root \<longleftrightarrow> map_of root (generation_name (- 1)) = None"

definition plain_entries :: "(bytes \<times> node) list \<Rightarrow> bool" where
  "plain_entries root \<longleftrightarrow> (\<forall>e \<in> fst ` set root. plain_name e)"

lemma next_generation_triple:
  assumes "index_left before" "plain_entries before"
  shows "triple faulty (\<lambda>root. root = before) next_generation
     (\<lambda>g root. root = before \<and> fresh_index before g) (\<lambda>_ root. faulty \<and> root = before)"
  unfolding next_generation_def io_at_def
proof (rule triple_bind, rule triple_map_err, rule read_dir_triple, rule triple_bind)
  fix entries m
  let ?P = "\<lambda>root. root = before \<and> (\<forall>n. map_of root n \<noteq> None \<longleftrightarrow> n \<in> set entries)"
  show "triple faulty ?P (max_generation 0 entries)
      (\<lambda>m root. ?P root \<and> 0 \<le> m \<and> (\<forall>e \<in> set entries. \<forall>n. parse_generation e = Some n \<longrightarrow> n \<le> m) \<and>
        (m = 0 \<or> (\<exists>e \<in> set entries. parse_generation e = Some m))) (\<lambda>_ root. faulty \<and> root = before)"
    by (rule triple_conseq, rule max_generation_triple [where P = ?P]) auto
  show "triple faulty (\<lambda>root. ?P root \<and> 0 \<le> m \<and>
        (\<forall>e \<in> set entries. \<forall>n. parse_generation e = Some n \<longrightarrow> n \<le> m) \<and>
        (m = 0 \<or> (\<exists>e \<in> set entries. parse_generation e = Some m))) (ret (m + 1))
      (\<lambda>g root. root = before \<and> fresh_index before g) (\<lambda>_ root. faulty \<and> root = before)"
  proof (rule triple_ret)
    fix root
    assume *: "?P root \<and> 0 \<le> m \<and> (\<forall>e \<in> set entries. \<forall>n. parse_generation e = Some n \<longrightarrow> n \<le> m) \<and>
        (m = 0 \<or> (\<exists>e \<in> set entries. parse_generation e = Some m))"
    have "m \<noteq> - 1"
    proof
      assume m: "m = - 1"
      then have "m \<noteq> 0" by simp
      with * obtain e where e: "e \<in> set entries" "parse_generation e = Some m" by blast
      then have "map_of before e \<noteq> None" using * by blast
      then have "plain_name e" using assms(2) by (auto simp: plain_entries_def map_of_eq_None_iff simp del: not_None_eq)
      with e(2) m have "e = generation_name (- 1)" by (simp add: parse_generation_plain)
      with assms(1) \<open>map_of before e \<noteq> None\<close> show False by (simp add: index_left_def)
    qed
    then have "m < m + 1" by (rule u64_less_Suc)
    with * show "root = before \<and> fresh_index before (m + 1)"
      by (auto simp: fresh_index_def simp del: not_None_eq intro: le_less_trans)
  qed
qed

lemma fresh_index_free:
  assumes "fresh_index root g"
  shows "map_of root (generation_name g) = None"
proof (rule ccontr)
  assume "map_of root (generation_name g) \<noteq> None"
  with assms have "g < g" unfolding fresh_index_def by (metis parse_generation_name)
  then show False by simp
qed

section \<open>Activation\<close>

lemma fs_read_triple:
  "triple faulty (\<lambda>root. root = before) (fs_read dir f)
     (\<lambda>content root. root = before \<and> read_in before dir f = Inr content)
     (\<lambda>e root. root = before \<and> (read_in before dir f = Inl e \<or> faulty \<and> e = OtherKind))"
  unfolding fs_read_def by (rule triple_operation) auto

lemma active_matches_triple:
  "triple faulty (\<lambda>root. root = before) (active_matches m)
     (\<lambda>same root. root = before \<and>
        (same \<longrightarrow> (\<forall>f \<in> set m. read_in before ACTIVE_LINK (gf_name f) = Inr (gf_bytes f))))
     (\<lambda>_ root. root = before \<and>
        (faulty \<or> (\<exists>f \<in> set m. read_in before ACTIVE_LINK (gf_name f) = Inl OtherKind)))"
proof (induction m)
  case Nil
  show ?case by (simp add: triple_ret)
next
  case (Cons f m)
  let ?read = "read_in before ACTIVE_LINK (gf_name f)"
  let ?R = "\<lambda>r root. root = before \<and> (r = ?read \<or> faulty \<and> r = Inl OtherKind)"
  show ?case
    unfolding active_matches.simps
  proof (rule triple_bind)
    show "triple faulty (\<lambda>root. root = before) (attempt (fs_read ACTIVE_LINK (gf_name f))) ?R
       (\<lambda>_ root. root = before \<and>
        (faulty \<or> (\<exists>f \<in> set (f # m). read_in before ACTIVE_LINK (gf_name f) = Inl OtherKind)))"
      by (rule triple_attempt, rule triple_conseq, rule fs_read_triple [where before = before]) auto
    fix r
    show "triple faulty (?R r)
       (case r of Inl NotFound \<Rightarrow> ret False | Inl OtherKind \<Rightarrow> fail (GE_Io [ACTIVE_LINK, gf_name f] OtherKind)
          | Inr content \<Rightarrow> if content = gf_bytes f then active_matches m else ret False)
       (\<lambda>same root. root = before \<and>
          (same \<longrightarrow> (\<forall>f \<in> set (f # m). read_in before ACTIVE_LINK (gf_name f) = Inr (gf_bytes f))))
       (\<lambda>_ root. root = before \<and>
        (faulty \<or> (\<exists>f \<in> set (f # m). read_in before ACTIVE_LINK (gf_name f) = Inl OtherKind)))"
    proof (cases "r = ?read")
      case True
      show ?thesis
      proof (cases r)
        case (Inl e)
        with True have read: "?read = Inl e" by simp
        show ?thesis unfolding Inl sum.case
          by (cases e) (auto intro!: triple_ret triple_fail simp: read)
      next
        case (Inr content)
        show ?thesis
        proof (cases "content = gf_bytes f")
          case True
          have "triple faulty (?R r) (active_matches m)
             (\<lambda>same root. root = before \<and>
               (same \<longrightarrow> (\<forall>f \<in> set (f # m). read_in before ACTIVE_LINK (gf_name f) = Inr (gf_bytes f))))
             (\<lambda>_ root. root = before \<and>
               (faulty \<or> (\<exists>f \<in> set (f # m). read_in before ACTIVE_LINK (gf_name f) = Inl OtherKind)))"
            by (rule triple_conseq, rule Cons.IH) (use \<open>r = ?read\<close> Inr True in auto)
          with Inr True show ?thesis by simp
        qed (use Inr in \<open>auto intro!: triple_ret\<close>)
      qed
    next
      case False
      show ?thesis
      proof (cases "r = Inl OtherKind \<and> faulty")
        case True
        then show ?thesis by (auto intro!: triple_fail)
      next
        case no_fault: False
        with False show ?thesis by (auto simp: triple_def)
      qed
    qed
  qed
qed

text \<open>What a tree looks like between activations.\<close>

definition healthy :: "(bytes \<times> node) list \<Rightarrow> bool" where
  "healthy root \<longleftrightarrow>
     (case map_of root ACTIVE_LINK of
        None \<Rightarrow> True
      | Some (Link target) \<Rightarrow> (\<exists>n d. target = generation_name n \<and>
            map_of root target = Some (Dir d) \<and> (\<forall>f b. map_of d f = Some b \<longrightarrow> (\<exists>c. b = File c)))
      | Some _ \<Rightarrow> False)"

lemma read_in_active:
  "map_of root ACTIVE_LINK = Some (Link target) \<Longrightarrow> map_of root target = Some (Dir d) \<Longrightarrow>
    read_in root ACTIVE_LINK f = (case map_of d f of
       None \<Rightarrow> Inl NotFound | Some (File b) \<Rightarrow> Inr b | Some _ \<Rightarrow> Inl OtherKind)"
  by (simp add: read_in_def MAX_LINK_HOPS_def numeral_eq_Suc)

lemma read_in_missing: "map_of root dir = None \<Longrightarrow> read_in root dir f = Inl NotFound"
  by (simp add: read_in_def MAX_LINK_HOPS_def numeral_eq_Suc)

lemma healthy_read:
  assumes "healthy root"
  shows "read_in root ACTIVE_LINK f \<noteq> Inl OtherKind"
proof (cases "map_of root ACTIVE_LINK")
  case None
  then show ?thesis by (simp add: read_in_missing)
next
  case (Some x)
  with assms obtain target d where t: "x = Link target" "map_of root target = Some (Dir d)"
    and files: "\<forall>f b. map_of d f = Some b \<longrightarrow> (\<exists>c. b = File c)"
    by (auto simp: healthy_def split: node.splits)
  show ?thesis
    using read_in_active [of root target d f] Some t files
    by (cases "map_of d f") (auto split: node.splits)
qed

definition already_active_post ::
  "generation_file list \<Rightarrow> (bytes \<times> node) list \<Rightarrow> u64 option \<Rightarrow> bool" where
  "already_active_post m root current \<longleftrightarrow>
     (case current of None \<Rightarrow> True
      | Some n \<Rightarrow> map_of root ACTIVE_LINK \<noteq> None \<and>
          (\<forall>f \<in> set m. read_in root ACTIVE_LINK (gf_name f) = Inr (gf_bytes f)))"

lemma current_generation_triple:
  "triple faulty (\<lambda>root. root = before) current_generation
     (\<lambda>c root. root = before \<and> (c \<noteq> None \<longrightarrow> map_of before ACTIVE_LINK \<noteq> None))
     (\<lambda>_ root. root = before \<and> (faulty \<or> \<not> healthy before))"
  unfolding current_generation_def
proof (rule triple_bind)
  let ?R = "\<lambda>r root. root = before \<and> (case r of Inr t \<Rightarrow> map_of before ACTIVE_LINK = Some (Link t)
     | Inl NotFound \<Rightarrow> True | Inl OtherKind \<Rightarrow> faulty \<or> \<not> healthy before)"
  show "triple faulty (\<lambda>root. root = before) (attempt (fs_read_link ACTIVE_LINK)) ?R
      (\<lambda>_ root. root = before \<and> (faulty \<or> \<not> healthy before))"
    unfolding fs_read_link_def
    by (rule triple_attempt, rule triple_operation)
      (auto simp: healthy_def split: option.splits node.splits)
  fix r :: "io_kind + bytes"
  show "triple faulty (?R r) (case r of Inl NotFound \<Rightarrow> ret None
       | Inl OtherKind \<Rightarrow> fail (GE_Io [ACTIVE_LINK] OtherKind) | Inr target \<Rightarrow> ret (parse_generation target))
     (\<lambda>c root. root = before \<and> (c \<noteq> None \<longrightarrow> map_of before ACTIVE_LINK \<noteq> None))
     (\<lambda>_ root. root = before \<and> (faulty \<or> \<not> healthy before))"
    by (cases r rule: sum.exhaust) (auto intro!: triple_ret triple_fail split: io_kind.split)
qed

lemma already_active_triple:
  "triple faulty (\<lambda>root. root = before) (already_active m)
     (\<lambda>c root. root = before \<and> already_active_post m before c)
     (\<lambda>_ root. root = before \<and> (faulty \<or> \<not> healthy before))"
  unfolding already_active_def
proof (rule triple_bind [OF current_generation_triple])
  fix c :: "u64 option"
  let ?P = "\<lambda>root. root = before \<and> (c \<noteq> None \<longrightarrow> map_of before ACTIVE_LINK \<noteq> None)"
  show "triple faulty ?P (case c of None \<Rightarrow> ret None
       | Some n \<Rightarrow> bind_io (active_matches m) (\<lambda>same. ret (if same then Some n else None)))
     (\<lambda>c root. root = before \<and> already_active_post m before c)
     (\<lambda>_ root. root = before \<and> (faulty \<or> \<not> healthy before))"
  proof (cases c)
    case None
    then show ?thesis by (auto intro!: triple_ret simp: already_active_post_def)
  next
    case (Some n)
    have t: "triple faulty ?P (active_matches m)
        (\<lambda>same root. ?P root \<and>
          (same \<longrightarrow> (\<forall>f \<in> set m. read_in before ACTIVE_LINK (gf_name f) = Inr (gf_bytes f))))
        (\<lambda>_ root. root = before \<and> (faulty \<or> \<not> healthy before))"
    proof (cases "c \<noteq> None \<longrightarrow> map_of before ACTIVE_LINK \<noteq> None")
      case True
      show ?thesis
        by (rule triple_conseq, rule active_matches_triple [where before = before])
          (use True healthy_read [of before] in \<open>auto simp del: not_None_eq\<close>)
    next
      case False
      then show ?thesis by (simp add: triple_def)
    qed
    show ?thesis unfolding Some option.case
      by (rule triple_bind, rule t [unfolded Some])
        (auto intro!: triple_ret simp: already_active_post_def)
  qed
qed

definition pruned :: "u64 \<Rightarrow> (bytes \<times> node) list \<Rightarrow> bool" where
  "pruned g root \<longleftrightarrow> (\<forall>n. stale g n \<longrightarrow> map_of root n = None)"

text \<open>What the engine finds in its way that it will not clear: only these make a faultless run fail.\<close>

definition unobstructed :: "(bytes \<times> node) list \<Rightarrow> bool" where
  "unobstructed root \<longleftrightarrow> healthy root \<and>
     (\<forall>d. map_of root active_tmp_name \<noteq> Some (Dir d)) \<and>
     (\<forall>e b. engine_entry e \<longrightarrow> e \<noteq> active_tmp_name \<longrightarrow> map_of root e \<noteq> Some (File b))"

lemma unobstructed_clear:
  assumes "unobstructed before"
  shows "map_of before active_tmp_name \<noteq> Some (Dir d)" "map_of before ACTIVE_LINK \<noteq> Some (Dir d)"
    "stale g e \<Longrightarrow> map_of before e \<noteq> Some (File b)"
proof -
  show "map_of before active_tmp_name \<noteq> Some (Dir d)" using assms by (simp add: unobstructed_def)
  show "map_of before ACTIVE_LINK \<noteq> Some (Dir d)" using assms by (auto simp: unobstructed_def healthy_def)
  show "stale g e \<Longrightarrow> map_of before e \<noteq> Some (File b)"
    using assms stale_engine unfolding unobstructed_def by blast
qed

definition activation_done ::
  "bool \<Rightarrow> generation_file list \<Rightarrow> (bytes \<times> node) list \<Rightarrow> activation \<Rightarrow> (bytes \<times> node) list \<Rightarrow> bool" where
  "activation_done accepted m before a root \<longleftrightarrow>
     (if ac_changed a then accepted \<and> fresh_index before (ac_generation a) \<and>
        new_live (ac_generation a) m before root \<and> pruned (ac_generation a) root
      else root = before \<and>
        (\<forall>f \<in> set m. read_in before ACTIVE_LINK (gf_name f) = Inr (gf_bytes f)))"

definition activation_failed ::
  "bool \<Rightarrow> generation_file list \<Rightarrow> (bytes \<times> node) list \<Rightarrow> (bytes \<times> node) list \<Rightarrow> bool" where
  "activation_failed accepted m before root \<longleftrightarrow> root = before \<or>
     (\<exists>g. fresh_index before g \<and> (old_live g before root \<or> accepted \<and> new_live g m before root))"

context staged_validator
begin

lemma activate_triple:
  assumes "index_left before" "plain_entries before"
    and clear: "\<not> faulty \<Longrightarrow> unobstructed before"
  shows "triple faulty (\<lambda>root. root = before) (activate_generation conv sc tree m validate)
     (activation_done (accepted_by validate m) m before)
     (\<lambda>_ root. (faulty \<or> check_material m \<noteq> Inr () \<or> \<not> reload_ok sc tree \<or>
         rejected_by validate m) \<and> activation_failed (accepted_by validate m) m before root)"
  (is "triple _ _ _ _ (\<lambda>_ root. ?F root)")
  unfolding activate_generation_def
proof (rule triple_then, rule triple_map_err)
  let ?acc = "accepted_by validate m"
  have refl: "activation_failed (accepted_by validate m) m before before" by (simp add: activation_failed_def)
  show "triple faulty (\<lambda>root. root = before) (lift_res (check_material m))
      (\<lambda>_ root. root = before \<and> check_material m = Inr ()) (\<lambda>_. ?F)"
    by (rule triple_lift_res) (use refl in auto)
  show "triple faulty (\<lambda>root. root = before \<and> check_material m = Inr ())
     (bind_io (io_map_err conv (already_active m)) (\<lambda>current. case current of
        None \<Rightarrow> bind_io (io_map_err conv next_generation) (\<lambda>generation.
           then_io (stage_generation conv m validate generation)
             (then_io (io_map_err conv (publish_generation sc tree generation))
               (ret \<lparr>ac_generation = generation, ac_changed = True\<rparr>)))
      | Some n \<Rightarrow> ret \<lparr>ac_generation = n, ac_changed = False\<rparr>))
     (activation_done (accepted_by validate m) m before) (\<lambda>_. ?F)"
  proof (cases "check_material m = Inr ()")
    case False
    then show ?thesis by (simp add: triple_def)
  next
    case True
    then have names: "distinct (map gf_name m)"
      by (auto simp: check_material_def check_material_from_Inr split: if_splits)
    show ?thesis
    proof (rule triple_bind [where R = "\<lambda>c root. root = before \<and> already_active_post m before c"],
        rule triple_map_err)
      show "triple faulty (\<lambda>root. root = before \<and> check_material m = Inr ()) (already_active m)
          (\<lambda>c root. root = before \<and> already_active_post m before c) (\<lambda>_. ?F)"
        by (rule triple_conseq, rule already_active_triple [where before = before])
          (use clear refl in \<open>auto simp: unobstructed_def\<close>)
      fix current
      let ?P = "\<lambda>root. root = before \<and> already_active_post m before current"
      show "triple faulty ?P (case current of
        None \<Rightarrow> bind_io (io_map_err conv next_generation) (\<lambda>generation.
           then_io (stage_generation conv m validate generation)
             (then_io (io_map_err conv (publish_generation sc tree generation))
               (ret \<lparr>ac_generation = generation, ac_changed = True\<rparr>)))
      | Some n \<Rightarrow> ret \<lparr>ac_generation = n, ac_changed = False\<rparr>)
        (activation_done (accepted_by validate m) m before) (\<lambda>_. ?F)"
      proof (cases current)
        case (Some n)
        then show ?thesis
          by (auto intro!: triple_ret simp: activation_done_def already_active_post_def)
      next
        case None
        have "triple faulty (\<lambda>root. root = before)
          (bind_io (io_map_err conv next_generation) (\<lambda>generation.
             then_io (stage_generation conv m validate generation)
               (then_io (io_map_err conv (publish_generation sc tree generation))
                 (ret \<lparr>ac_generation = generation, ac_changed = True\<rparr>))))
          (activation_done (accepted_by validate m) m before) (\<lambda>_. ?F)"
        proof (rule triple_bind [where R = "\<lambda>g root. root = before \<and> fresh_index before g"],
            rule triple_map_err)
          show "triple faulty (\<lambda>root. root = before) next_generation
              (\<lambda>g root. root = before \<and> fresh_index before g) (\<lambda>_. ?F)"
            by (rule triple_conseq, rule next_generation_triple [OF assms(1,2)]) (use refl in auto)
          fix g
          show "triple faulty (\<lambda>root. root = before \<and> fresh_index before g)
             (then_io (stage_generation conv m validate g)
               (then_io (io_map_err conv (publish_generation sc tree g))
                 (ret \<lparr>ac_generation = g, ac_changed = True\<rparr>)))
             (activation_done (accepted_by validate m) m before) (\<lambda>_. ?F)"
          proof (cases "fresh_index before g")
            case False
            then show ?thesis by (simp add: triple_def)
          next
            case fresh: True
            have stage_old: "old_live g before root" if "agree_off {tmp_generation_name g} before root" for root
              using that by (auto simp: old_live_def elim: agree_off_mono)
            have tmp_file: "faulty" if "map_of before (tmp_generation_name g) = Some (File b)" for b
            proof (rule ccontr)
              assume "\<not> faulty"
              from clear [OF this] that show False
                unfolding unobstructed_def by (metis engine_entry_names(4) engine_names_differ(9))
            qed
            show ?thesis
            proof (intro triple_then triple_map_err)
              show "triple faulty (\<lambda>root. root = before \<and> fresh_index before g)
                 (stage_generation conv m validate g)
                 (\<lambda>_ root. staging before (tmp_generation_name g) (Some (staged m)) root \<and> ?acc) (\<lambda>_. ?F)"
                by (rule triple_conseq, rule stage_triple [OF names tmp_file])
                  (use fresh stage_old in \<open>auto simp: activation_failed_def\<close>)
              show "triple faulty (\<lambda>root. staging before (tmp_generation_name g) (Some (staged m)) root \<and> ?acc)
                 (publish_generation sc tree g)
                 (\<lambda>_ root. ?acc \<and> new_live g m before root \<and> pruned g root) (\<lambda>_. ?F)"
                by (cases ?acc, rule triple_conseq, rule publish_triple [OF fresh_index_free [OF fresh]])
                  (use unobstructed_clear clear fresh in \<open>auto simp: pruned_def activation_failed_def triple_def\<close>)
              show "triple faulty (\<lambda>root. ?acc \<and> new_live g m before root \<and> pruned g root)
                 (ret \<lparr>ac_generation = g, ac_changed = True\<rparr>) (activation_done (accepted_by validate m) m before) (\<lambda>_. ?F)"
                by (rule triple_ret) (simp add: activation_done_def fresh)
            qed
          qed
        qed
        then show ?thesis unfolding None option.case by (rule triple_pre) auto
      qed
    qed
  qed
qed

end

section \<open>What a reader sees\<close>

text \<open>A validator that is a function of the files alone, as every tree's is.\<close>

definition pure_validator :: "(generation_file list \<Rightarrow> 'e + unit) \<Rightarrow> 'e validator" where
  "pure_validator v = (\<lambda>dir files s. (v files, s))"

lemma accepted_by_pure [simp]: "accepted_by (\<lambda>dir files s. (v files, s)) m \<longleftrightarrow> v m = Inr ()"
  unfolding accepted_by_def
  by (auto intro!: exI [of _ "[]"] exI [of _ "\<lparr>fs_root = [([], Dir (staged m))], fs_faults = []\<rparr>"])

interpretation pure_validator: staged_validator "pure_validator v" for v
  by unfold_locales (auto simp: pure_validator_def)

text \<open>The contents of the material as a reader of \<open>active\<close> finds it.\<close>

definition material_read :: "generation_file list \<Rightarrow> bytes \<Rightarrow> io_kind + bytes" where
  "material_read m f =
     (case find (\<lambda>g. gf_name g = f) m of None \<Rightarrow> Inl NotFound | Some g \<Rightarrow> Inr (gf_bytes g))"

lemma map_of_staged_find:
  "map_of (staged m) f = map_option (\<lambda>g. File (gf_bytes g)) (find (\<lambda>g. gf_name g = f) m)"
  by (induction m) (auto simp: staged_def)

lemma material_read_member:
  "distinct (map gf_name m) \<Longrightarrow> g \<in> set m \<Longrightarrow> material_read m (gf_name g) = Inr (gf_bytes g)"
proof -
  assume d: "distinct (map gf_name m)" and g: "g \<in> set m"
  have "map_of (staged m) (gf_name g) = Some (File (gf_bytes g))" by (rule map_of_staged [OF d g])
  then show ?thesis
    by (auto simp: map_of_staged_find material_read_def)
qed

lemma new_live_read:
  assumes "new_live g m before root"
  shows "read_in root ACTIVE_LINK f = material_read m f"
proof -
  have "map_of root ACTIVE_LINK = Some (Link (generation_name g))"
    "map_of root (generation_name g) = Some (Dir (staged m))"
    using assms by (simp_all add: new_live_def)
  from read_in_active [OF this, of f] show ?thesis
    by (auto simp: map_of_staged_find material_read_def split: option.splits)
qed

lemma old_live_read:
  assumes "healthy before" "fresh_index before g" "old_live g before root"
  shows "read_in root ACTIVE_LINK f = read_in before ACTIVE_LINK f"
proof -
  have same: "map_of root e = map_of before e"
    if "e \<notin> {tmp_generation_name g, generation_name g, active_tmp_name}" for e
    using assms(3) that by (simp add: old_live_def agree_off_def)
  show ?thesis
  proof (cases "map_of before ACTIVE_LINK")
    case None
    then show ?thesis using same [of ACTIVE_LINK] by (simp add: read_in_missing)
  next
    case (Some x)
    with assms(1) obtain n d where t: "x = Link (generation_name n)"
      "map_of before (generation_name n) = Some (Dir d)"
      by (auto simp: healthy_def split: node.splits)
    then have "n < g" using assms(2) unfolding fresh_index_def by (metis option.distinct(1) parse_generation_name)
    then have "map_of root (generation_name n) = Some (Dir d)"
      using same [of "generation_name n"] t(2) by auto
    moreover have "map_of root ACTIVE_LINK = Some (Link (generation_name n))"
      using same [of ACTIVE_LINK] Some t by simp
    ultimately show ?thesis
      using read_in_active [of root "generation_name n" d f] read_in_active [of before "generation_name n" d f]
        Some t by simp
  qed
qed

lemma foreign_kept:
  assumes "activation_failed acc m before root" "\<not> engine_entry e"
  shows "map_of root e = map_of before e"
  using assms by (auto simp: activation_failed_def old_live_def new_live_def agree_off_def)
    (metis engine_entry_names)

lemma activation_done_read:
  assumes "activation_done acc m before a root" "distinct (map gf_name m)" "f \<in> set m"
  shows "read_in root ACTIVE_LINK (gf_name f) = Inr (gf_bytes f)"
  using assms new_live_read [of "ac_generation a" m before root "gf_name f"]
    material_read_member [of m f]
  by (auto simp: activation_done_def split: if_splits)

context staged_validator
begin

lemma run_post:
  assumes "activate_generation conv sc tree m validate s = (r, s')"
    and "index_left (fs_root s)" "plain_entries (fs_root s)"
  shows "case r of Inr a \<Rightarrow> activation_done (accepted_by validate m) m (fs_root s) a (fs_root s')
     | Inl _ \<Rightarrow> activation_failed (accepted_by validate m) m (fs_root s) (fs_root s')"
  using tripleD [OF activate_triple [OF assms(2,3), of True] refl _ assms(1)] by (cases r) auto

lemma run_failed_or_done:
  assumes "activate_generation conv sc tree m validate s = (r, s')"
    and "index_left (fs_root s)" "plain_entries (fs_root s)"
  shows "activation_failed (accepted_by validate m) m (fs_root s) (fs_root s')"
  using run_post [OF assms]
  by (cases r) (auto simp: activation_done_def activation_failed_def split: if_splits)

lemma run_faultless:
  assumes "activate_generation conv sc tree m validate s = (r, s')"
    and "fs_faults s = []" "unobstructed (fs_root s)" "index_left (fs_root s)" "plain_entries (fs_root s)"
    and "check_material m = Inr ()" "\<not> rejected_by validate m" "reload_ok sc tree"
  shows "\<exists>a. r = Inr a"
  using tripleD [OF activate_triple [OF assms(4,5), of False] refl _ assms(1)] assms(2,3,6-8)
  by (cases r) auto

lemma run_reader:
  assumes "activate_generation conv sc tree m validate s = (r, s')"
    and "healthy (fs_root s)" "index_left (fs_root s)" "plain_entries (fs_root s)"
  shows "((\<forall>f. read_in (fs_root s') ACTIVE_LINK f = read_in (fs_root s) ACTIVE_LINK f) \<or>
          accepted_by validate m \<and> (\<forall>f. read_in (fs_root s') ACTIVE_LINK f = material_read m f)) \<and>
    (\<forall>e. \<not> engine_entry e \<longrightarrow> map_of (fs_root s') e = map_of (fs_root s) e)"
  using run_failed_or_done [OF assms(1,3,4)] old_live_read [OF assms(2)] new_live_read foreign_kept
  unfolding activation_failed_def by (metis (no_types, lifting))

end

text \<open>
  C3: activation is atomic for readers. For every fault script (any operation may fail, after any
  part of its effect), whatever the validator says and whether or not the reload works, a reader of
  \<open>active\<close> afterwards sees either exactly what it saw before or exactly the new material, file by
  file, and the latter only when the validator accepted it; and every root entry that is not the engine's is as it was. Stopping the run at any operation
  leaves the tree as a fault there would, so the same holds after a crash.
\<close>

theorem activation_atomic:
  assumes "activate_generation conv sc tree m (pure_validator v) s = (r, s')"
    and "healthy (fs_root s)" "index_left (fs_root s)" "plain_entries (fs_root s)"
  shows "((\<forall>f. read_in (fs_root s') ACTIVE_LINK f = read_in (fs_root s) ACTIVE_LINK f) \<or>
          v m = Inr () \<and> (\<forall>f. read_in (fs_root s') ACTIVE_LINK f = material_read m f)) \<and>
    (\<forall>e. \<not> engine_entry e \<longrightarrow> map_of (fs_root s') e = map_of (fs_root s) e)"
  using pure_validator.run_reader [OF assms] by (simp add: pure_validator_def)

definition sample_tree :: "nat option list \<Rightarrow> fsys" where
  "sample_tree faults =
     \<lparr>fs_root = [(ACTIVE_LINK, Link (generation_name 1)),
        (generation_name 1, Dir [(''epoch'', File ''1'')]), (''anchor'', File ''x'')],
      fs_faults = faults\<rparr>"

definition sample_material :: "generation_file list" where
  "sample_material = [\<lparr>gf_name = ''epoch'', gf_bytes = ''2''\<rparr>]"

lemma sample_tree_ok:
  "healthy (fs_root (sample_tree faults))" "index_left (fs_root (sample_tree faults))"
  "plain_entries (fs_root (sample_tree faults))" "unobstructed (fs_root (sample_tree faults))"
proof -
  show h: "healthy (fs_root (sample_tree faults))"
    by (auto simp: healthy_def sample_tree_def)
  have "(1 :: u64) \<noteq> - 1" by simp
  moreover have "generation_name n \<noteq> ''anchor''" for n by (simp add: engine_name_defs)
  ultimately show "index_left (fs_root (sample_tree faults))"
    by (auto simp: index_left_def sample_tree_def)
  show "plain_entries (fs_root (sample_tree faults))"
    by (auto simp: plain_entries_def sample_tree_def) (simp add: plain_name_def)
  have "plain_name ''anchor''" by (simp add: plain_name_def)
  then have "\<not> engine_entry ''anchor''"
    by (auto simp: engine_entry_def parse_generation_plain parse_tmp_generation_plain engine_name_defs)
  then show "unobstructed (fs_root (sample_tree faults))"
    using h by (auto simp: unobstructed_def sample_tree_def split: if_splits)
qed

theorem activation_atomic_witness:
  "let s' = snd (activate_generation id \<lparr>sc_is_active = \<lambda>_. None, sc_reload = \<lambda>_. None\<rparr>
       \<lparr>gt_reload_unit = None\<rparr> sample_material (pure_validator (\<lambda>_. Inr ()))
       (sample_tree (replicate 12 None @ [Some 0])))
   in read_in (fs_root s') ACTIVE_LINK ''epoch'' \<in> {Inr ''1'', Inr ''2''} \<and>
      map_of (fs_root s') ''anchor'' = Some (File ''x'')"
proof -
  let ?s = "sample_tree (replicate 12 None @ [Some 0])"
  obtain r s' where run: "activate_generation id \<lparr>sc_is_active = \<lambda>_. None, sc_reload = \<lambda>_. None\<rparr>
       \<lparr>gt_reload_unit = None\<rparr> sample_material (pure_validator (\<lambda>_. Inr ())) ?s = (r, s')" by force
  have "plain_name ''anchor''" by (simp add: plain_name_def)
  then have "\<not> engine_entry ''anchor''"
    by (auto simp: engine_entry_def parse_generation_plain parse_tmp_generation_plain engine_name_defs)
  moreover have "read_in (fs_root ?s) ACTIVE_LINK ''epoch'' = Inr ''1''"
    by (simp add: sample_tree_def read_in_active [where target = "generation_name 1" and d = "[(''epoch'', File ''1'')]"])
  moreover have "material_read sample_material ''epoch'' = Inr ''2''"
    by (simp add: material_read_def sample_material_def)
  moreover have "map_of (fs_root ?s) ''anchor'' = Some (File ''x'')"
    by (simp add: sample_tree_def engine_name_defs)
  ultimately show ?thesis
    using activation_atomic [OF run sample_tree_ok(1-3)] run by auto
qed

text \<open>
  What success means. When activation returns without an error, for any fault script, every file
  of the material reads back through \<open>active\<close> byte for byte. If it reports a change, the material is
  exactly what is visible, it passed the validator, its index is larger than every index the tree
  held, and no other generation and no staging directory is left; if it reports no change, nothing
  was touched.
\<close>

theorem activation_success:
  assumes "activate_generation conv sc tree m (pure_validator v) s = (Inr a, s')"
    and "check_material m = Inr ()" "index_left (fs_root s)" "plain_entries (fs_root s)"
  shows "(\<forall>f \<in> set m. read_in (fs_root s') ACTIVE_LINK (gf_name f) = Inr (gf_bytes f)) \<and>
    (ac_changed a \<longrightarrow> v m = Inr () \<and> fresh_index (fs_root s) (ac_generation a) \<and>
       (\<forall>f. read_in (fs_root s') ACTIVE_LINK f = material_read m f) \<and>
       pruned (ac_generation a) (fs_root s')) \<and>
    (\<not> ac_changed a \<longrightarrow> fs_root s' = fs_root s)"
proof -
  have fin: "activation_done (v m = Inr ()) m (fs_root s) a (fs_root s')"
    using pure_validator.run_post [OF assms(1,3,4)] by (simp add: pure_validator_def)
  moreover have "distinct (map gf_name m)"
    using assms(2) by (auto simp: check_material_def check_material_from_Inr split: if_splits)
  ultimately show ?thesis
    using activation_done_read [of "v m = Inr ()" m "fs_root s" a "fs_root s'"]
      new_live_read [of "ac_generation a" m "fs_root s" "fs_root s'"]
    by (auto simp: activation_done_def split: if_splits)
qed

lemma activate_faultless:
  assumes "fs_faults s = []" "unobstructed (fs_root s)" "index_left (fs_root s)" "plain_entries (fs_root s)"
    and "check_material m = Inr ()" "v m = Inr ()" "reload_ok sc tree"
  shows "\<exists>a s'. activate_generation conv sc tree m (pure_validator v) s = (Inr a, s') \<and>
    (\<forall>f \<in> set m. read_in (fs_root s') ACTIVE_LINK (gf_name f) = Inr (gf_bytes f))"
proof -
  obtain r s' where run: "activate_generation conv sc tree m (pure_validator v) s = (r, s')" by force
  have accept: "\<not> rejected_by (pure_validator v) m"
    using assms(6) by (simp add: rejected_by_def pure_validator_def)
  from pure_validator.run_faultless [OF run assms(1-5) accept assms(7)] obtain a where a: "r = Inr a" by blast
  have "distinct (map gf_name m)"
    using assms(5) by (auto simp: check_material_def check_material_from_Inr split: if_splits)
  with pure_validator.run_post [OF run assms(3,4)] a
  have "\<forall>f \<in> set m. read_in (fs_root s') ACTIVE_LINK (gf_name f) = Inr (gf_bytes f)"
    by (auto intro!: activation_done_read)
  with run a show ?thesis by blast
qed

lemma sample_material_ok: "check_material sample_material = Inr ()"
  by (simp add: check_material_def sample_material_def is_single_component_iff plain_name_def)

theorem activation_success_witness:
  "\<exists>a s'. activate_generation id \<lparr>sc_is_active = \<lambda>_. None, sc_reload = \<lambda>_. None\<rparr>
       \<lparr>gt_reload_unit = None\<rparr> sample_material (pure_validator (\<lambda>_. Inr ())) (sample_tree []) = (Inr a, s') \<and>
     read_in (fs_root s') ACTIVE_LINK ''epoch'' = Inr ''2''"
proof -
  have "reload_ok \<lparr>sc_is_active = \<lambda>_. None, sc_reload = \<lambda>_. None\<rparr> \<lparr>gt_reload_unit = None\<rparr>"
    by (simp add: reload_ok_def)
  moreover have "fs_faults (sample_tree []) = []" by (simp add: sample_tree_def)
  ultimately obtain a s' where run: "activate_generation id \<lparr>sc_is_active = \<lambda>_. None, sc_reload = \<lambda>_. None\<rparr>
       \<lparr>gt_reload_unit = None\<rparr> sample_material (pure_validator (\<lambda>_. Inr ())) (sample_tree []) = (Inr a, s')"
    using activate_faultless [of "sample_tree []" sample_material "\<lambda>_. Inr ()"] sample_tree_ok sample_material_ok
    by blast
  have "\<forall>f \<in> set sample_material. read_in (fs_root s') ACTIVE_LINK (gf_name f) = Inr (gf_bytes f)"
    using activation_success [OF run sample_material_ok sample_tree_ok(2,3)] by (rule conjunct1)
  with run show ?thesis by (auto simp: sample_material_def)
qed

text \<open>
  When nothing fails, activation succeeds: on a tree with nothing in the engine's way (a healthy
  \<open>active\<close>, no directory at \<open>active.tmp\<close>, no plain file under a generation name), with accepted
  material, a validator that passes and a reload that works, the result is not an error and the
  material is live.
\<close>

theorem activation_succeeds:
  assumes "fs_faults s = []" "unobstructed (fs_root s)" "index_left (fs_root s)" "plain_entries (fs_root s)"
    and "check_material m = Inr ()" "v m = Inr ()" "reload_ok sc tree"
  shows "\<exists>a s'. activate_generation conv sc tree m (pure_validator v) s = (Inr a, s') \<and>
    (\<forall>f \<in> set m. read_in (fs_root s') ACTIVE_LINK (gf_name f) = Inr (gf_bytes f))"
  using assms by (rule activate_faultless)

theorem activation_succeeds_witness:
  "\<exists>a s'. activate_generation id \<lparr>sc_is_active = \<lambda>_. Some True, sc_reload = \<lambda>_. Some True\<rparr>
       \<lparr>gt_reload_unit = Some ''roxyd''\<rparr> sample_material (pure_validator (\<lambda>_. Inr ())) (sample_tree []) = (Inr a, s')"
proof -
  have "reload_ok \<lparr>sc_is_active = \<lambda>_. Some True, sc_reload = \<lambda>_. Some True\<rparr> \<lparr>gt_reload_unit = Some ''roxyd''\<rparr>"
    by (simp add: reload_ok_def reload_if_active_def)
  moreover have "fs_faults (sample_tree []) = []" by (simp add: sample_tree_def)
  ultimately show ?thesis
    using activation_succeeds [of "sample_tree []" sample_material "\<lambda>_. Inr ()"] sample_tree_ok sample_material_ok
    by blast
qed

end
