(* ===== verification/Json.thy ===== *)
theory Json
  imports Rust_Text "HOL-Library.List_Lexorder" "HOL-Library.Char_ord"
begin

text \<open>
  What the program reads of JSON. The parser is \<open>serde_json\<close>, code outside the repository and a
  parameter wherever bytes are read; its result is a syntax tree with object members in document
  order, duplicates included. On it the two readings the program uses are defined: the untyped
  \<open>Value\<close> (a sorted map, the last duplicate wins) and the struct a \<open>Deserialize\<close> derive builds
  (members by name or, as \<open>serde\<close> also accepts, by position; a duplicate, missing or, under
  \<open>deny_unknown_fields\<close>, unknown member is an error).
\<close>

datatype json_number = JPos u64 | JNeg int | JFloat

datatype json =
    JNull
  | JBool bool
  | JNum json_number
  | JStr bytes
  | JArr "json list"
  | JObj "(bytes \<times> json) list"

section \<open>The untyped value\<close>

text \<open>\<open>Map::get\<close>: of duplicates the last one is kept.\<close>

definition obj_get :: "bytes \<Rightarrow> (bytes \<times> json) list \<Rightarrow> json option" where
  "obj_get k members = map_of (rev members) k"

text \<open>\<open>Map::keys\<close>: each key once, in byte order.\<close>

definition obj_keys :: "(bytes \<times> json) list \<Rightarrow> bytes list" where
  "obj_keys members = sort (remdups (map fst members))"

text \<open>\<open>Value::get\<close> of a name, and the \<open>as_\<close> accessors.\<close>

fun value_get :: "bytes \<Rightarrow> json \<Rightarrow> json option" where
  "value_get k (JObj members) = obj_get k members"
| "value_get k _ = None"

fun as_u64 :: "json \<Rightarrow> u64 option" where
  "as_u64 (JNum (JPos n)) = Some n"
| "as_u64 _ = None"

fun as_str :: "json \<Rightarrow> bytes option" where
  "as_str (JStr s) = Some s"
| "as_str _ = None"

fun as_bool :: "json \<Rightarrow> bool option" where
  "as_bool (JBool b) = Some b"
| "as_bool _ = None"

fun as_array :: "json \<Rightarrow> json list option" where
  "as_array (JArr xs) = Some xs"
| "as_array _ = None"

definition as_u32 :: "json \<Rightarrow> u32 option" where
  "as_u32 v = (case as_u64 v of None \<Rightarrow> None | Some n \<Rightarrow> u32_try_from n)"

section \<open>Derived structs\<close>

text \<open>The members a derived struct with \<open>deny_unknown_fields\<close> sees, or \<open>None\<close> for an error.\<close>

fun struct_members :: "bytes list \<Rightarrow> json \<Rightarrow> (bytes \<Rightarrow> json option) option" where
  "struct_members known (JObj members) =
     (if distinct (map fst members) \<and> set (map fst members) \<subseteq> set known
      then Some (map_of members) else None)"
| "struct_members known (JArr vs) =
     (if length vs \<le> length known then Some (map_of (zip known vs)) else None)"
| "struct_members known _ = None"

definition req_field :: "bytes \<Rightarrow> (json \<Rightarrow> 'a option) \<Rightarrow> (bytes \<Rightarrow> json option) \<Rightarrow> 'a option" where
  "req_field k rd members = (case members k of None \<Rightarrow> None | Some v \<Rightarrow> rd v)"

definition opt_field ::
  "'a \<Rightarrow> bytes \<Rightarrow> (json \<Rightarrow> 'a option) \<Rightarrow> (bytes \<Rightarrow> json option) \<Rightarrow> 'a option" where
  "opt_field d k rd members = (case members k of None \<Rightarrow> Some d | Some v \<Rightarrow> rd v)"

text \<open>A \<open>Vec<T>\<close>.\<close>

fun decode_all :: "(json \<Rightarrow> 'a option) \<Rightarrow> json list \<Rightarrow> 'a list option" where
  "decode_all rd [] = Some []"
| "decode_all rd (v # vs) =
     (case rd v of None \<Rightarrow> None | Some x \<Rightarrow> map_option (Cons x) (decode_all rd vs))"

definition decode_vec :: "(json \<Rightarrow> 'a option) \<Rightarrow> json \<Rightarrow> 'a list option" where
  "decode_vec rd v = (case as_array v of None \<Rightarrow> None | Some vs \<Rightarrow> decode_all rd vs)"

lemma decode_all_Some:
  "decode_all rd vs = Some xs \<longleftrightarrow> list_all2 (\<lambda>v x. rd v = Some x) vs xs"
proof (induction vs arbitrary: xs)
  case Nil
  then show ?case by auto
next
  case (Cons v vs)
  then show ?case by (cases xs) (auto split: option.splits)
qed

lemma decode_all_member: "decode_all rd vs = Some xs \<Longrightarrow> v \<in> set vs \<Longrightarrow> \<exists>x. rd v = Some x"
  by (induction vs arbitrary: xs) (auto split: option.splits)

lemma decode_all_length: "decode_all rd vs = Some xs \<Longrightarrow> length xs = length vs"
  by (induction vs arbitrary: xs) (auto split: option.splits)

lemma struct_members_obj:
  "struct_members known (JObj members) = Some ms \<longleftrightarrow>
     distinct (map fst members) \<and> fst ` set members \<subseteq> set known \<and> ms = map_of members"
  by auto

lemma obj_get_distinct: "distinct (map fst members) \<Longrightarrow> obj_get k members = map_of members k"
proof -
  assume d: "distinct (map fst members)"
  then have "map_of (rev members) k = Some v \<longleftrightarrow> map_of members k = Some v" for v
    by (simp add: map_of_eq_Some_iff rev_map [symmetric])
  then show ?thesis unfolding obj_get_def by (metis option.exhaust)
qed

lemma set_obj_keys [simp]: "set (obj_keys members) = fst ` set members"
  by (simp add: obj_keys_def)

end
