(* ===== verification/Trust_Types.thy ===== *)
theory Trust_Types
  imports Json Hex_Text Container Image
begin

text \<open>
  The trust inputs of \<open>src/verify.rs\<close>: anchors, trust sets, requests and the identifier grammar.
  The cryptography is a parameter: a SHA-256 function and a signature check per algorithm.
\<close>

section \<open>Code outside the repository\<close>

record crypto =
  sha256 :: "bytes \<Rightarrow> bytes"
  signature_verifies :: "signature_algorithm \<Rightarrow> bytes \<Rightarrow> bytes \<Rightarrow> bytes \<Rightarrow> bool"

definition sha256_hex :: "crypto \<Rightarrow> bytes \<Rightarrow> bytes" where
  "sha256_hex cr bs = to_hex (sha256 cr bs)"

section \<open>Identifiers\<close>

definition ED25519_PUBLIC_KEY_LEN :: nat where "ED25519_PUBLIC_KEY_LEN = 32"
definition ML_DSA_87_PUBLIC_KEY_LEN :: nat where "ML_DSA_87_PUBLIC_KEY_LEN = 2592"
definition MAX_BUILD_IDENTIFIER_BYTES :: nat where "MAX_BUILD_IDENTIFIER_BYTES = 128"
definition TRUST_TARGET :: bytes where "TRUST_TARGET = ''trust''"

definition key_id :: "crypto \<Rightarrow> bytes \<Rightarrow> bytes" where
  "key_id cr public_key = sha256_hex cr public_key"

definition public_key_len :: "signature_algorithm \<Rightarrow> nat" where
  "public_key_len a = (case a of Ed25519 \<Rightarrow> ED25519_PUBLIC_KEY_LEN | MlDsa87 \<Rightarrow> ML_DSA_87_PUBLIC_KEY_LEN)"

definition is_safe_build_identifier :: "bytes \<Rightarrow> bool" where
  "is_safe_build_identifier value =
     (if value = [] \<or> MAX_BUILD_IDENTIFIER_BYTES < length value then False
      else if starts_with ''.'' value \<or> starts_with ''-'' value then False
      else list_all (\<lambda>b. is_ascii_alphanumeric b \<or>
             b \<in> {CHR ''.'', CHR ''-'', CHR ''_'', CHR ''+'', CHR ''~'', CHR '':''}) value)"

datatype build_identifier = BI_Component | BI_Version | BI_Commit

section \<open>Anchors and trust sets\<close>

record trust_anchor =
  ta_algorithm :: signature_algorithm
  ta_public_key :: bytes
  ta_revoked :: bool
  ta_key_id :: bytes

definition anchor_new :: "crypto \<Rightarrow> signature_algorithm \<Rightarrow> bytes \<Rightarrow> bool \<Rightarrow> trust_anchor" where
  "anchor_new cr algorithm public_key revoked =
     \<lparr>ta_algorithm = algorithm, ta_public_key = public_key, ta_revoked = revoked,
      ta_key_id = key_id cr public_key\<rparr>"

definition anchor_verifies :: "crypto \<Rightarrow> trust_anchor \<Rightarrow> bytes \<Rightarrow> bytes \<Rightarrow> bool" where
  "anchor_verifies cr a message signature =
     signature_verifies cr (ta_algorithm a) (ta_public_key a) message signature"

text \<open>The withdrawn triples are a set; the model keeps them as a list.\<close>

type_synonym build = "bytes \<times> bytes \<times> bytes"

record trust_set =
  ts_anchors :: "trust_anchor list"
  ts_withdrawn_builds :: "build list"
  ts_min_manifest_format_version :: u32
  ts_epoch :: u64

datatype input_error =
    IE_DuplicateAnchor bytes
  | IE_ReservedTarget
  | IE_InvalidNamespace bytes

fun check_anchor_ids :: "bytes list \<Rightarrow> trust_anchor list \<Rightarrow> input_error + unit" where
  "check_anchor_ids seen [] = Inr ()"
| "check_anchor_ids seen (a # rest) =
     (if ta_key_id a \<in> set seen then Inl (IE_DuplicateAnchor (ta_key_id a))
      else check_anchor_ids (ta_key_id a # seen) rest)"

definition trust_set_new ::
  "trust_anchor list \<Rightarrow> build list \<Rightarrow> u32 \<Rightarrow> u64 \<Rightarrow> input_error + trust_set" where
  "trust_set_new anchors withdrawn_builds min_manifest_format_version epoch =
     bind_res (check_anchor_ids [] anchors) (\<lambda>_.
     Inr \<lparr>ts_anchors = anchors, ts_withdrawn_builds = withdrawn_builds,
          ts_min_manifest_format_version = min_manifest_format_version, ts_epoch = epoch\<rparr>)"

definition is_withdrawn :: "trust_set \<Rightarrow> bytes \<Rightarrow> bytes \<Rightarrow> bytes \<Rightarrow> bool" where
  "is_withdrawn trust component version commit =
     list_ex (\<lambda>(package_id, v, c). package_id = component \<and> v = version \<and> c = commit)
       (ts_withdrawn_builds trust)"

lemma check_anchor_ids_Inr:
  "check_anchor_ids seen anchors = Inr () \<longleftrightarrow>
     distinct (map ta_key_id anchors) \<and> set (map ta_key_id anchors) \<inter> set seen = {}"
  by (induction anchors arbitrary: seen) auto

lemma trust_set_new_Inr:
  "trust_set_new anchors withdrawn floor epoch = Inr t \<longleftrightarrow>
     distinct (map ta_key_id anchors) \<and>
     t = \<lparr>ts_anchors = anchors, ts_withdrawn_builds = withdrawn,
          ts_min_manifest_format_version = floor, ts_epoch = epoch\<rparr>"
  by (auto simp: trust_set_new_def check_anchor_ids_Inr)

section \<open>Requests\<close>

record verify_request =
  vr_target :: bytes
  vr_version :: bytes
  vr_commit :: bytes
  vr_epoch :: "u64 option"
  vr_namespace :: "bytes option"

record upload_request =
  ur_namespace :: bytes

definition upload_request_new :: "bytes \<Rightarrow> input_error + upload_request" where
  "upload_request_new namespace =
     (if is_valid_segment namespace then Inr \<lparr>ur_namespace = namespace\<rparr>
      else Inl (IE_InvalidNamespace namespace))"

definition for_package :: "bytes \<Rightarrow> bytes \<Rightarrow> bytes \<Rightarrow> input_error + verify_request" where
  "for_package target version commit =
     (if target = TRUST_TARGET then Inl IE_ReservedTarget
      else Inr \<lparr>vr_target = target, vr_version = version, vr_commit = commit,
                vr_epoch = None, vr_namespace = None\<rparr>)"

definition for_namespaced_package ::
  "bytes \<Rightarrow> bytes \<Rightarrow> bytes \<Rightarrow> bytes \<Rightarrow> input_error + verify_request" where
  "for_namespaced_package target version commit namespace =
     bind_res (for_package target version commit) (\<lambda>request.
     if is_valid_segment namespace then Inr (request\<lparr>vr_namespace := Some namespace\<rparr>)
     else Inl (IE_InvalidNamespace namespace))"

definition for_upload :: "bytes \<Rightarrow> bytes \<Rightarrow> bytes \<Rightarrow> upload_request \<Rightarrow> verify_request option" where
  "for_upload target version commit upload =
     (case for_package target version commit of
        Inl _ \<Rightarrow> None
      | Inr request \<Rightarrow> Some (request\<lparr>vr_namespace := Some (ur_namespace upload)\<rparr>))"

definition for_trust :: "bytes \<Rightarrow> bytes \<Rightarrow> u64 \<Rightarrow> input_error + verify_request" where
  "for_trust version commit epoch =
     Inr \<lparr>vr_target = TRUST_TARGET, vr_version = version, vr_commit = commit,
          vr_epoch = Some epoch, vr_namespace = None\<rparr>"

definition for_trust_self_admission :: "bytes \<Rightarrow> bytes \<Rightarrow> input_error + verify_request" where
  "for_trust_self_admission version commit =
     Inr \<lparr>vr_target = TRUST_TARGET, vr_version = version, vr_commit = commit,
          vr_epoch = None, vr_namespace = None\<rparr>"

end
