(* ===== verification/Trust_Set.thy ===== *)
theory Trust_Set
  imports Trust_Types
begin

text \<open>
  The trust generation document of \<open>src/trust_set.rs\<close>: the version gate, the unknown-field check, the
  typed decode, the semantic checks in their order, and the provisional decode that precedes
  verification. The JSON parser and the cryptography are parameters.
\<close>

type_synonym parser = "bytes \<Rightarrow> json option"

section \<open>Data\<close>

definition TRUST_SET_VERSION :: u32 where "TRUST_SET_VERSION = 2"
definition TRUST_SET_MEMBER :: bytes where "TRUST_SET_MEMBER = ''trust-set.json''"
definition HEX_32_LEN :: nat where "HEX_32_LEN = 64"
definition TRUST_SET_VERSION_FIELD :: bytes where "TRUST_SET_VERSION_FIELD = ''trust_set_version''"
definition EPOCH_FIELD :: bytes where "EPOCH_FIELD = ''epoch''"
definition ANCHORS_FIELD :: bytes where "ANCHORS_FIELD = ''anchors''"
definition ALGORITHM_FIELD :: bytes where "ALGORITHM_FIELD = ''algorithm''"
definition PUBLIC_KEY_FIELD :: bytes where "PUBLIC_KEY_FIELD = ''public_key''"
definition REVOKED_FIELD :: bytes where "REVOKED_FIELD = ''revoked''"
definition WITHDRAWN_BUILDS_FIELD :: bytes where "WITHDRAWN_BUILDS_FIELD = ''withdrawn_builds''"

definition TOP_LEVEL_FIELDS :: "bytes list" where
  "TOP_LEVEL_FIELDS =
     [TRUST_SET_VERSION_FIELD, EPOCH_FIELD, ''min_manifest_format_version'', ANCHORS_FIELD,
      WITHDRAWN_BUILDS_FIELD]"

definition ANCHOR_FIELDS :: "bytes list" where
  "ANCHOR_FIELDS = [ALGORITHM_FIELD, ''key_id'', PUBLIC_KEY_FIELD, REVOKED_FIELD]"

definition WITHDRAWN_BUILD_FIELDS :: "bytes list" where
  "WITHDRAWN_BUILD_FIELDS = [''package_id'', ''version'', ''commit'']"

record trust_set_anchor =
  tsa_algorithm :: signature_algorithm
  tsa_key_id :: bytes
  tsa_public_key :: bytes
  tsa_revoked :: bool

record withdrawn_build =
  wb_package_id :: bytes
  wb_version :: bytes
  wb_commit :: bytes

record trust_set_document =
  tsd_trust_set_version :: u32
  tsd_epoch :: u64
  tsd_min_manifest_format_version :: u32
  tsd_anchors :: "trust_set_anchor list"
  tsd_withdrawn_builds :: "withdrawn_build list"

datatype field_location = InDocument | InEntry bytes nat

datatype trust_set_document_error =
    TE_MalformedJson
  | TE_MalformedVersion
  | TE_UnsupportedVersion u32
  | TE_UnknownField field_location bytes
  | TE_Decode
  | TE_AbsentEpoch
  | TE_NoAnchors
  | TE_AllAnchorsRevoked
  | TE_MissingLiveAnchor signature_algorithm
  | TE_MalformedKeyId bytes
  | TE_MalformedPublicKey signature_algorithm bytes
  | TE_KeyIdMismatch bytes bytes
  | TE_DuplicateKeyId bytes
  | TE_UnsafeBuildIdentifier build_identifier bytes
  | TE_DuplicateWithdrawnBuild bytes bytes bytes

definition member_digest :: "crypto \<Rightarrow> bytes \<Rightarrow> bytes" where
  "member_digest cr bs = sha256_hex cr bs"

section \<open>Anchors\<close>

definition algorithm_named :: "bytes \<Rightarrow> signature_algorithm option" where
  "algorithm_named name =
     (if name = ''ed25519'' then Some Ed25519
      else if name = ''ml-dsa-87'' then Some MlDsa87 else None)"

definition anchor_of :: "crypto \<Rightarrow> signature_algorithm \<Rightarrow> bytes \<Rightarrow> bool \<Rightarrow> trust_anchor option" where
  "anchor_of cr algorithm public_key revoked =
     (case decode_lowercase_hex public_key (public_key_len algorithm) of
        None \<Rightarrow> None
      | Some bs \<Rightarrow> Some (anchor_new cr algorithm bs revoked))"

fun document_anchors_of :: "crypto \<Rightarrow> trust_set_anchor list \<Rightarrow> trust_anchor list option" where
  "document_anchors_of cr [] = Some []"
| "document_anchors_of cr (a # rest) =
     (case anchor_of cr (tsa_algorithm a) (tsa_public_key a) (tsa_revoked a) of
        None \<Rightarrow> None
      | Some x \<Rightarrow> map_option (Cons x) (document_anchors_of cr rest))"

definition document_anchors :: "crypto \<Rightarrow> trust_set_document \<Rightarrow> trust_anchor list option" where
  "document_anchors cr document = document_anchors_of cr (tsd_anchors document)"

section \<open>The provisional decode\<close>

definition provisional_anchor :: "crypto \<Rightarrow> json \<Rightarrow> trust_anchor option" where
  "provisional_anchor cr entry =
     (case Option.bind (Option.bind (value_get ALGORITHM_FIELD entry) as_str) algorithm_named of
        None \<Rightarrow> None
      | Some algorithm \<Rightarrow>
     (case Option.bind (value_get PUBLIC_KEY_FIELD entry) as_str of
        None \<Rightarrow> None
      | Some public_key \<Rightarrow>
     (case Option.bind (value_get REVOKED_FIELD entry) as_bool of
        None \<Rightarrow> None
      | Some revoked \<Rightarrow> anchor_of cr algorithm public_key revoked)))"

definition provisional_anchors_and_epoch ::
  "parser \<Rightarrow> crypto \<Rightarrow> bytes \<Rightarrow> (trust_anchor list \<times> u64) option" where
  "provisional_anchors_and_epoch parse cr bs =
     (case parse bs of
        None \<Rightarrow> None
      | Some document \<Rightarrow>
     (case Option.bind (value_get EPOCH_FIELD document) as_u64 of
        None \<Rightarrow> None
      | Some epoch \<Rightarrow>
     (case Option.bind (value_get ANCHORS_FIELD document) as_array of
        None \<Rightarrow> None
      | Some entries \<Rightarrow>
     (case decode_all (provisional_anchor cr) entries of
        None \<Rightarrow> None
      | Some anchors \<Rightarrow> Some (anchors, epoch)))))"

definition self_admission_candidate :: "parser \<Rightarrow> crypto \<Rightarrow> bytes \<Rightarrow> (trust_set \<times> u64) option" where
  "self_admission_candidate parse cr bs =
     (case provisional_anchors_and_epoch parse cr bs of
        None \<Rightarrow> None
      | Some (anchors, epoch) \<Rightarrow>
          (case trust_set_new anchors [] 0 epoch of
             Inl _ \<Rightarrow> None
           | Inr trust \<Rightarrow> Some (trust, epoch)))"

section \<open>The refusing reader\<close>

definition read_version_gate ::
  "parser \<Rightarrow> bytes \<Rightarrow> trust_set_document_error + (bytes \<times> json) list" where
  "read_version_gate parse bs =
     (case parse bs of
        Some (JObj object) \<Rightarrow>
          bind_res
            (case obj_get TRUST_SET_VERSION_FIELD object of
               None \<Rightarrow> Inl TE_MalformedVersion
             | Some JNull \<Rightarrow> Inl TE_MalformedVersion
             | Some value \<Rightarrow> ok_or TE_MalformedVersion (as_u32 value)) (\<lambda>found.
          if found \<noteq> TRUST_SET_VERSION then Inl (TE_UnsupportedVersion found) else Inr object)
      | _ \<Rightarrow> Inl TE_MalformedJson)"

definition unknown_key :: "(bytes \<times> json) list \<Rightarrow> bytes list \<Rightarrow> bytes option" where
  "unknown_key object known = find (\<lambda>k. k \<notin> set known) (obj_keys object)"

fun check_keys_from ::
  "bytes \<Rightarrow> bytes list \<Rightarrow> nat \<Rightarrow> json list \<Rightarrow> trust_set_document_error + unit" where
  "check_keys_from array_field known i [] = Inr ()"
| "check_keys_from array_field known i (JObj entry # rest) =
     (case unknown_key entry known of
        Some k \<Rightarrow> Inl (TE_UnknownField (InEntry array_field i) k)
      | None \<Rightarrow> check_keys_from array_field known (Suc i) rest)"
| "check_keys_from array_field known i (_ # rest) = check_keys_from array_field known (Suc i) rest"

definition check_entry_keys ::
  "(bytes \<times> json) list \<Rightarrow> bytes \<Rightarrow> bytes list \<Rightarrow> trust_set_document_error + unit" where
  "check_entry_keys object array_field known =
     (case obj_get array_field object of
        Some (JArr entries) \<Rightarrow> check_keys_from array_field known 0 entries
      | _ \<Rightarrow> Inr ())"

definition check_unknown_fields :: "(bytes \<times> json) list \<Rightarrow> trust_set_document_error + unit" where
  "check_unknown_fields object =
     (case unknown_key object TOP_LEVEL_FIELDS of
        Some k \<Rightarrow> Inl (TE_UnknownField InDocument k)
      | None \<Rightarrow>
          bind_res (check_entry_keys object ANCHORS_FIELD ANCHOR_FIELDS) (\<lambda>_.
          check_entry_keys object WITHDRAWN_BUILDS_FIELD WITHDRAWN_BUILD_FIELDS))"

text \<open>The derived \<open>Deserialize\<close> of the three structs.\<close>

definition deserialize_algorithm :: "json \<Rightarrow> signature_algorithm option" where
  "deserialize_algorithm v = Option.bind (as_str v) algorithm_named"

definition decode_anchor :: "json \<Rightarrow> trust_set_anchor option" where
  "decode_anchor v =
     (case struct_members ANCHOR_FIELDS v of
        None \<Rightarrow> None
      | Some ms \<Rightarrow>
     (case (req_field ALGORITHM_FIELD deserialize_algorithm ms, req_field ''key_id'' as_str ms,
            req_field PUBLIC_KEY_FIELD as_str ms, req_field REVOKED_FIELD as_bool ms) of
        (Some algorithm, Some kid, Some public_key, Some revoked) \<Rightarrow>
          Some \<lparr>tsa_algorithm = algorithm, tsa_key_id = kid, tsa_public_key = public_key,
                tsa_revoked = revoked\<rparr>
      | _ \<Rightarrow> None))"

definition decode_withdrawn :: "json \<Rightarrow> withdrawn_build option" where
  "decode_withdrawn v =
     (case struct_members WITHDRAWN_BUILD_FIELDS v of
        None \<Rightarrow> None
      | Some ms \<Rightarrow>
     (case (req_field ''package_id'' as_str ms, req_field ''version'' as_str ms, req_field ''commit'' as_str ms) of
        (Some package_id, Some version, Some commit) \<Rightarrow>
          Some \<lparr>wb_package_id = package_id, wb_version = version, wb_commit = commit\<rparr>
      | _ \<Rightarrow> None))"

definition decode_trust_set :: "json \<Rightarrow> trust_set_document option" where
  "decode_trust_set v =
     (case struct_members TOP_LEVEL_FIELDS v of
        None \<Rightarrow> None
      | Some ms \<Rightarrow>
     (case (req_field TRUST_SET_VERSION_FIELD as_u32 ms, opt_field 0 EPOCH_FIELD as_u64 ms,
            req_field ''min_manifest_format_version'' as_u32 ms,
            req_field ANCHORS_FIELD (decode_vec decode_anchor) ms,
            req_field WITHDRAWN_BUILDS_FIELD (decode_vec decode_withdrawn) ms) of
        (Some version, Some epoch, Some floor, Some anchors, Some withdrawn) \<Rightarrow>
          Some \<lparr>tsd_trust_set_version = version, tsd_epoch = epoch,
                tsd_min_manifest_format_version = floor, tsd_anchors = anchors,
                tsd_withdrawn_builds = withdrawn\<rparr>
      | _ \<Rightarrow> None))"

definition decode_document ::
  "parser \<Rightarrow> bytes \<Rightarrow> trust_set_document_error + trust_set_document" where
  "decode_document parse bs = ok_or TE_Decode (Option.bind (parse bs) decode_trust_set)"

section \<open>The semantic checks\<close>

fun check_document_anchors ::
  "crypto \<Rightarrow> bytes list \<Rightarrow> trust_set_anchor list \<Rightarrow> trust_set_document_error + unit" where
  "check_document_anchors cr seen [] = Inr ()"
| "check_document_anchors cr seen (anchor # rest) =
     (if \<not> is_lowercase_hex (tsa_key_id anchor) (HEX_32_LEN div 2) then
        Inl (TE_MalformedKeyId (tsa_key_id anchor))
      else case decode_lowercase_hex (tsa_public_key anchor) (public_key_len (tsa_algorithm anchor)) of
        None \<Rightarrow> Inl (TE_MalformedPublicKey (tsa_algorithm anchor) (tsa_public_key anchor))
      | Some public_key \<Rightarrow>
          let derived = key_id cr public_key in
          if derived \<noteq> tsa_key_id anchor then Inl (TE_KeyIdMismatch (tsa_key_id anchor) derived)
          else if tsa_key_id anchor \<in> set seen then Inl (TE_DuplicateKeyId (tsa_key_id anchor))
          else check_document_anchors cr (tsa_key_id anchor # seen) rest)"

definition check_withdrawn_identifiers :: "withdrawn_build \<Rightarrow> trust_set_document_error + unit" where
  "check_withdrawn_identifiers entry =
     for_each (\<lambda>(field, value).
       ensure (is_safe_build_identifier value) (TE_UnsafeBuildIdentifier field value))
       [(BI_Component, wb_package_id entry), (BI_Version, wb_version entry), (BI_Commit, wb_commit entry)]"

fun check_withdrawn_builds ::
  "build list \<Rightarrow> withdrawn_build list \<Rightarrow> trust_set_document_error + unit" where
  "check_withdrawn_builds seen [] = Inr ()"
| "check_withdrawn_builds seen (entry # rest) =
     bind_res (check_withdrawn_identifiers entry) (\<lambda>_.
     let triple = (wb_package_id entry, wb_version entry, wb_commit entry) in
     if triple \<in> set seen then
       Inl (TE_DuplicateWithdrawnBuild (wb_package_id entry) (wb_version entry) (wb_commit entry))
     else check_withdrawn_builds (triple # seen) rest)"

definition check_document :: "crypto \<Rightarrow> trust_set_document \<Rightarrow> trust_set_document_error + unit" where
  "check_document cr document =
     (if tsd_epoch document = 0 then Inl TE_AbsentEpoch
      else if tsd_anchors document = [] then Inl TE_NoAnchors
      else if list_all tsa_revoked (tsd_anchors document) then Inl TE_AllAnchorsRevoked
      else bind_res
        (for_each (\<lambda>algorithm.
           ensure (list_ex (\<lambda>a. tsa_algorithm a = algorithm \<and> \<not> tsa_revoked a) (tsd_anchors document))
             (TE_MissingLiveAnchor algorithm)) [Ed25519, MlDsa87]) (\<lambda>_.
      bind_res (check_document_anchors cr [] (tsd_anchors document)) (\<lambda>_.
      check_withdrawn_builds [] (tsd_withdrawn_builds document))))"

definition read_trust_set_document ::
  "parser \<Rightarrow> crypto \<Rightarrow> bytes \<Rightarrow> trust_set_document_error + trust_set_document" where
  "read_trust_set_document parse cr bs =
     bind_res (read_version_gate parse bs) (\<lambda>object.
     bind_res (check_unknown_fields object) (\<lambda>_.
     bind_res (decode_document parse bs) (\<lambda>document.
     bind_res (check_document cr document) (\<lambda>_.
     Inr document))))"

end
