(* ===== verification/Trust_Set_Correct.thy ===== *)
theory Trust_Set_Correct
  imports Trust_Set
begin

text \<open>
  What \<open>src/trust_set.rs\<close> guarantees of a document it admits, how its strict reader and the
  provisional decode that runs before verification relate, and where serde's reading of a struct is
  wider than the module's documentation says.
\<close>

section \<open>The semantic checks\<close>

definition anchor_sound :: "crypto \<Rightarrow> trust_set_anchor \<Rightarrow> bool" where
  "anchor_sound cr a \<longleftrightarrow>
     (\<exists>pk. decode_lowercase_hex (tsa_public_key a) (public_key_len (tsa_algorithm a)) = Some pk \<and>
           tsa_key_id a = key_id cr pk \<and> is_lowercase_hex (tsa_key_id a) 32)"

lemma check_document_anchors_Inr:
  "check_document_anchors cr seen anchors = Inr () \<longleftrightarrow>
     (\<forall>a \<in> set anchors. anchor_sound cr a) \<and> distinct (map tsa_key_id anchors) \<and>
     set (map tsa_key_id anchors) \<inter> set seen = {}"
proof (induction anchors arbitrary: seen)
  case Nil
  show ?case by simp
next
  case (Cons a anchors)
  show ?case
    by (cases "decode_lowercase_hex (tsa_public_key a) (public_key_len (tsa_algorithm a))")
      (auto simp: Cons.IH anchor_sound_def HEX_32_LEN_def Let_def)
qed

definition build_of :: "withdrawn_build \<Rightarrow> build" where
  "build_of w = (wb_package_id w, wb_version w, wb_commit w)"

definition withdrawn_sound :: "withdrawn_build \<Rightarrow> bool" where
  "withdrawn_sound w \<longleftrightarrow> is_safe_build_identifier (wb_package_id w) \<and>
     is_safe_build_identifier (wb_version w) \<and> is_safe_build_identifier (wb_commit w)"

lemma check_withdrawn_identifiers_Inr: "check_withdrawn_identifiers w = Inr () \<longleftrightarrow> withdrawn_sound w"
  by (simp add: check_withdrawn_identifiers_def withdrawn_sound_def del: for_each.simps)

lemma check_withdrawn_builds_Inr:
  "check_withdrawn_builds seen ws = Inr () \<longleftrightarrow>
     (\<forall>w \<in> set ws. withdrawn_sound w) \<and> distinct (map build_of ws) \<and>
     set (map build_of ws) \<inter> set seen = {}"
proof (induction ws arbitrary: seen)
  case Nil
  show ?case by simp
next
  case (Cons w ws)
  show ?case
    by (auto simp: Cons.IH check_withdrawn_identifiers_Inr build_of_def Let_def)
qed

lemma check_document_Inr:
  "check_document cr d = Inr () \<longleftrightarrow>
     tsd_epoch d \<noteq> 0 \<and>
     (\<exists>a \<in> set (tsd_anchors d). tsa_algorithm a = Ed25519 \<and> \<not> tsa_revoked a) \<and>
     (\<exists>a \<in> set (tsd_anchors d). tsa_algorithm a = MlDsa87 \<and> \<not> tsa_revoked a) \<and>
     (\<forall>a \<in> set (tsd_anchors d). anchor_sound cr a) \<and> distinct (map tsa_key_id (tsd_anchors d)) \<and>
     (\<forall>w \<in> set (tsd_withdrawn_builds d). withdrawn_sound w) \<and>
     distinct (map build_of (tsd_withdrawn_builds d))"
  by (auto simp: check_document_def check_document_anchors_Inr check_withdrawn_builds_Inr
      list_all_iff list_ex_iff simp del: for_each.simps)

lemma decode_anchor_obj:
  assumes "decode_anchor (JObj members) = Some a"
  shows "struct_members ANCHOR_FIELDS (JObj members) = Some (map_of members)"
    "distinct (map fst members) \<and> fst ` set members \<subseteq> set ANCHOR_FIELDS"
proof -
  from assms obtain ms where "struct_members ANCHOR_FIELDS (JObj members) = Some ms"
    unfolding decode_anchor_def by (cases "struct_members ANCHOR_FIELDS (JObj members)") auto
  then show "struct_members ANCHOR_FIELDS (JObj members) = Some (map_of members)"
    "distinct (map fst members) \<and> fst ` set members \<subseteq> set ANCHOR_FIELDS"
    unfolding struct_members_obj by blast+
qed

lemma decode_withdrawn_obj:
  assumes "decode_withdrawn (JObj members) = Some a"
  shows "distinct (map fst members) \<and> fst ` set members \<subseteq> set WITHDRAWN_BUILD_FIELDS"
proof -
  from assms obtain ms where "struct_members WITHDRAWN_BUILD_FIELDS (JObj members) = Some ms"
    unfolding decode_withdrawn_def by (cases "struct_members WITHDRAWN_BUILD_FIELDS (JObj members)") auto
  then show ?thesis unfolding struct_members_obj by blast
qed

lemma decode_trust_set_obj:
  assumes "decode_trust_set (JObj members) = Some d"
  shows "struct_members TOP_LEVEL_FIELDS (JObj members) = Some (map_of members)"
    "distinct (map fst members)" "fst ` set members \<subseteq> set TOP_LEVEL_FIELDS"
proof -
  from assms obtain ms where "struct_members TOP_LEVEL_FIELDS (JObj members) = Some ms"
    unfolding decode_trust_set_def by (cases "struct_members TOP_LEVEL_FIELDS (JObj members)") auto
  then show "struct_members TOP_LEVEL_FIELDS (JObj members) = Some (map_of members)"
    "distinct (map fst members)" "fst ` set members \<subseteq> set TOP_LEVEL_FIELDS"
    unfolding struct_members_obj by blast+
qed

lemma decode_trust_set_fields:
  assumes "decode_trust_set (JObj members) = Some d"
  shows "req_field TRUST_SET_VERSION_FIELD as_u32 (map_of members) = Some (tsd_trust_set_version d)"
    "opt_field 0 EPOCH_FIELD as_u64 (map_of members) = Some (tsd_epoch d)"
    "req_field ANCHORS_FIELD (decode_vec decode_anchor) (map_of members) = Some (tsd_anchors d)"
    "req_field WITHDRAWN_BUILDS_FIELD (decode_vec decode_withdrawn) (map_of members) = Some (tsd_withdrawn_builds d)"
  using assms unfolding decode_trust_set_def decode_trust_set_obj(1) [OF assms]
  by (auto split: option.splits simp del: struct_members.simps)

lemma decode_vec_Some:
  "decode_vec rd v = Some xs \<longleftrightarrow> (\<exists>es. v = JArr es \<and> decode_all rd es = Some xs)"
  by (cases v) (auto simp: decode_vec_def)

lemma req_field_Some: "req_field k rd ms = Some x \<longleftrightarrow> (\<exists>v. ms k = Some v \<and> rd v = Some x)"
  by (auto simp: req_field_def split: option.splits)

lemma read_trust_set_documentD:
  assumes "read_trust_set_document parse cr bs = Inr d"
  obtains members where "parse bs = Some (JObj members)"
    "obj_get TRUST_SET_VERSION_FIELD members \<noteq> None"
    "check_unknown_fields members = Inr ()"
    "decode_trust_set (JObj members) = Some d" "check_document cr d = Inr ()"
    "tsd_trust_set_version d = TRUST_SET_VERSION"
proof -
  from assms obtain members where m: "read_version_gate parse bs = Inr members"
    "check_unknown_fields members = Inr ()" "decode_document parse bs = Inr d"
    "check_document cr d = Inr ()"
    by (auto simp: read_trust_set_document_def)
  from m(1) obtain v where p: "parse bs = Some (JObj members)"
    "obj_get TRUST_SET_VERSION_FIELD members = Some v" "as_u32 v = Some TRUST_SET_VERSION"
    by (auto simp: read_version_gate_def split: option.splits json.splits if_splits)
  from m(3) p(1) have dec: "decode_trust_set (JObj members) = Some d"
    by (simp add: decode_document_def)
  from decode_trust_set_obj [OF this] decode_trust_set_fields [OF this] p have "tsd_trust_set_version d = TRUST_SET_VERSION"
    by (simp add: req_field_def obj_get_distinct)
  with that p dec m show thesis by blast
qed

section \<open>Building the trust set\<close>

lemma document_anchors_of_Some:
  assumes "\<forall>a \<in> set as. anchor_sound cr a"
  shows "\<exists>xs. document_anchors_of cr as = Some xs \<and> map ta_key_id xs = map tsa_key_id as \<and>
     map ta_algorithm xs = map tsa_algorithm as \<and> map ta_revoked xs = map tsa_revoked as"
  using assms
proof (induction as)
  case Nil
  then show ?case by simp
next
  case (Cons a as)
  then obtain xs where xs: "document_anchors_of cr as = Some xs" "map ta_key_id xs = map tsa_key_id as"
    "map ta_algorithm xs = map tsa_algorithm as" "map ta_revoked xs = map tsa_revoked as" by auto
  from Cons.prems obtain pk where
    "decode_lowercase_hex (tsa_public_key a) (public_key_len (tsa_algorithm a)) = Some pk"
    "tsa_key_id a = key_id cr pk" by (auto simp: anchor_sound_def)
  with xs show ?case by (auto simp: anchor_of_def anchor_new_def)
qed

text \<open>
  C4: an admitted document is usable as it stands. It has the implemented version and an allocated
  epoch; a live anchor of each algorithm; every public key is lowercase hexadecimal of its
  algorithm's exact length and every declared key id is the SHA-256 of its key, no two equal; every
  withdrawn build is three safe identifiers, none listed twice. So turning its anchors into a trust
  set cannot fail.
\<close>

theorem admitted_document_sound:
  assumes "read_trust_set_document parse cr bs = Inr d"
  shows "tsd_trust_set_version d = 2 \<and> tsd_epoch d \<noteq> 0 \<and>
    (\<forall>alg. \<exists>a \<in> set (tsd_anchors d). tsa_algorithm a = alg \<and> \<not> tsa_revoked a) \<and>
    (\<forall>a \<in> set (tsd_anchors d). \<exists>pk. tsa_public_key a = to_hex pk \<and>
       length pk = public_key_len (tsa_algorithm a) \<and> tsa_key_id a = to_hex (sha256 cr pk)) \<and>
    distinct (map (\<lambda>w. (wb_package_id w, wb_version w, wb_commit w)) (tsd_withdrawn_builds d)) \<and>
    (\<exists>anchors trust. document_anchors cr d = Some anchors \<and>
       map ta_key_id anchors = map tsa_key_id (tsd_anchors d) \<and>
       trust_set_new anchors (map build_of (tsd_withdrawn_builds d))
         (tsd_min_manifest_format_version d) (tsd_epoch d) = Inr trust)"
proof -
  from read_trust_set_documentD [OF assms] have c: "check_document cr d = Inr ()"
    and v: "tsd_trust_set_version d = TRUST_SET_VERSION" by blast+
  then have sound: "\<forall>a \<in> set (tsd_anchors d). anchor_sound cr a"
    and dist: "distinct (map tsa_key_id (tsd_anchors d))"
    by (simp_all add: check_document_Inr)
  have live: "\<forall>alg. \<exists>a \<in> set (tsd_anchors d). tsa_algorithm a = alg \<and> \<not> tsa_revoked a"
    using c by (simp add: check_document_Inr) (metis signature_algorithm.exhaust)
  have keys: "\<forall>a \<in> set (tsd_anchors d). \<exists>pk. tsa_public_key a = to_hex pk \<and>
       length pk = public_key_len (tsa_algorithm a) \<and> tsa_key_id a = to_hex (sha256 cr pk)"
    using sound by (auto simp: anchor_sound_def decode_lowercase_hex_Some key_id_def sha256_hex_def)
  from document_anchors_of_Some [OF sound] obtain xs where xs: "document_anchors cr d = Some xs"
    "map ta_key_id xs = map tsa_key_id (tsd_anchors d)" by (auto simp: document_anchors_def)
  with dist have "distinct (map ta_key_id xs)" by simp
  with xs have "\<exists>anchors trust. document_anchors cr d = Some anchors \<and>
       map ta_key_id anchors = map tsa_key_id (tsd_anchors d) \<and>
       trust_set_new anchors (map build_of (tsd_withdrawn_builds d))
         (tsd_min_manifest_format_version d) (tsd_epoch d) = Inr trust"
    by (simp add: trust_set_new_Inr)
  with c v live keys show ?thesis
    by (auto simp: check_document_Inr TRUST_SET_VERSION_def build_of_def [abs_def])
qed

section \<open>The decode before verification\<close>

text \<open>The anchor entries of a document, when they are written as objects.\<close>

definition entries_are_objects :: "json \<Rightarrow> bool" where
  "entries_are_objects document \<longleftrightarrow>
     (\<forall>es. Option.bind (value_get ANCHORS_FIELD document) as_array = Some es \<longrightarrow>
        (\<forall>e \<in> set es. \<exists>members. e = JObj members))"

lemma decode_anchor_provisional:
  assumes "decode_anchor (JObj members) = Some a"
  shows "provisional_anchor cr (JObj members) =
    anchor_of cr (tsa_algorithm a) (tsa_public_key a) (tsa_revoked a)"
proof -
  note obj = decode_anchor_obj [OF assms]
  have get: "value_get k (JObj members) = map_of members k" for k
    using obj(2) by (simp add: obj_get_distinct)
  show ?thesis
    using assms unfolding decode_anchor_def obj(1) provisional_anchor_def get
    by (auto simp: req_field_Some deserialize_algorithm_def split: option.splits)
qed

lemma decode_anchors_provisional:
  assumes "decode_all decode_anchor es = Some as" "\<forall>e \<in> set es. \<exists>members. e = JObj members"
  shows "decode_all (provisional_anchor cr) es = document_anchors_of cr as"
  using assms
proof (induction es arbitrary: as)
  case Nil
  then show ?case by simp
next
  case (Cons e es)
  then obtain members where e: "e = JObj members" by auto
  from Cons.prems(1) obtain a as' where a: "decode_anchor e = Some a" "decode_all decode_anchor es = Some as'"
    "as = a # as'" by (auto split: option.splits)
  with Cons decode_anchor_provisional [of members a cr] e show ?case
    by (auto split: option.split)
qed

text \<open>
  The provisional decode and the strict reader agree. Whenever the strict reader admits the bytes
  (and the anchor entries are objects), the candidate trust set built before verification exists,
  carries exactly the document's anchors and epoch, withdraws nothing and has no format floor; so
  what verified the envelope is what the admitted document says.
\<close>

theorem provisional_decode_agrees:
  assumes "read_trust_set_document parse cr bs = Inr d"
    and "parse bs = Some document" "entries_are_objects document"
  shows "\<exists>anchors trust. document_anchors cr d = Some anchors \<and>
    self_admission_candidate parse cr bs = Some (trust, tsd_epoch d) \<and>
    ts_anchors trust = anchors \<and> ts_epoch trust = tsd_epoch d \<and>
    ts_withdrawn_builds trust = [] \<and> ts_min_manifest_format_version trust = 0"
proof -
  from read_trust_set_documentD [OF assms(1)] obtain members where
    m: "parse bs = Some (JObj members)" "decode_trust_set (JObj members) = Some d"
      "check_document cr d = Inr ()" by blast
  note f = decode_trust_set_obj(2) [OF m(2)] decode_trust_set_fields(2,3) [OF m(2)]
  have "tsd_epoch d \<noteq> 0" using m(3) by (simp add: check_document_Inr)
  with f have epoch: "Option.bind (value_get EPOCH_FIELD document) as_u64 = Some (tsd_epoch d)"
    using m(1) assms(2) by (auto simp: opt_field_def obj_get_distinct split: option.splits)
  from f obtain es where es: "map_of members ANCHORS_FIELD = Some (JArr es)"
    "decode_all decode_anchor es = Some (tsd_anchors d)"
    by (auto simp: req_field_Some decode_vec_Some)
  then have entries: "Option.bind (value_get ANCHORS_FIELD document) as_array = Some es"
    using m(1) assms(2) f(1) by (simp add: obj_get_distinct)
  with assms(3) have "\<forall>e \<in> set es. \<exists>members. e = JObj members"
    by (simp add: entries_are_objects_def)
  from decode_anchors_provisional [OF es(2) this]
  have dec: "decode_all (provisional_anchor cr) es = document_anchors cr d"
    by (simp add: document_anchors_def)
  have sound: "\<forall>a \<in> set (tsd_anchors d). anchor_sound cr a" "distinct (map tsa_key_id (tsd_anchors d))"
    using m(3) by (simp_all add: check_document_Inr)
  from document_anchors_of_Some [OF sound(1)] obtain xs where xs: "document_anchors cr d = Some xs"
    "map ta_key_id xs = map tsa_key_id (tsd_anchors d)" by (auto simp: document_anchors_def)
  then have "distinct (map ta_key_id xs)" using sound(2) by simp
  then have "trust_set_new xs [] 0 (tsd_epoch d) =
      Inr \<lparr>ts_anchors = xs, ts_withdrawn_builds = [], ts_min_manifest_format_version = 0, ts_epoch = tsd_epoch d\<rparr>"
    by (simp add: trust_set_new_Inr)
  with assms(2) epoch entries dec xs show ?thesis
    by (simp add: self_admission_candidate_def provisional_anchors_and_epoch_def)
qed

section \<open>What the reader refuses\<close>

text \<open>
  The version gate comes first: an object whose version is a 32-bit number other than 2 is
  refused for its version, whatever else is wrong with it; duplicates of the key are read as the
  last one.
\<close>

theorem version_gate_first:
  assumes "parse bs = Some (JObj members)"
    and "obj_get TRUST_SET_VERSION_FIELD members = Some (JNum (JPos n))"
    and "unat n < 2 ^ 32" "unat n \<noteq> 2"
  shows "read_trust_set_document parse cr bs = Inl (TE_UnsupportedVersion (word_of_nat (unat n)))"
proof -
  have "unat (word_of_nat (unat n) :: u32) = unat n"
    using u32_try_from_Some [of n "word_of_nat (unat n)"] assms(3) by (simp add: u32_try_from_def)
  then have "(word_of_nat (unat n) :: u32) \<noteq> TRUST_SET_VERSION"
    using assms(4) by (auto simp: TRUST_SET_VERSION_def)
  with assms show ?thesis
    by (simp add: read_trust_set_document_def read_version_gate_def as_u32_def u32_try_from_def)
qed

text \<open>
  Nothing in an admitted document is ignored or ambiguous: at the top level and in every entry
  written as an object, no key is repeated and every key is one the schema defines.
\<close>

theorem admitted_document_unambiguous:
  assumes "read_trust_set_document parse cr bs = Inr d"
  shows "\<exists>members. parse bs = Some (JObj members) \<and> distinct (map fst members) \<and>
    fst ` set members \<subseteq> set TOP_LEVEL_FIELDS \<and>
    (\<exists>es ws. map_of members ANCHORS_FIELD = Some (JArr es) \<and>
       map_of members WITHDRAWN_BUILDS_FIELD = Some (JArr ws) \<and>
       length (tsd_anchors d) = length es \<and> length (tsd_withdrawn_builds d) = length ws \<and>
       (\<forall>ms. JObj ms \<in> set es \<longrightarrow> distinct (map fst ms) \<and> fst ` set ms \<subseteq> set ANCHOR_FIELDS) \<and>
       (\<forall>ms. JObj ms \<in> set ws \<longrightarrow> distinct (map fst ms) \<and> fst ` set ms \<subseteq> set WITHDRAWN_BUILD_FIELDS))"
proof -
  from read_trust_set_documentD [OF assms] obtain members where
    m: "parse bs = Some (JObj members)" "decode_trust_set (JObj members) = Some d" by blast
  note f = decode_trust_set_obj(2,3) [OF m(2)] decode_trust_set_fields(3,4) [OF m(2)]
  from f(3) obtain es where es: "map_of members ANCHORS_FIELD = Some (JArr es)"
    "decode_all decode_anchor es = Some (tsd_anchors d)"
    by (auto simp: req_field_Some decode_vec_Some)
  from f(4) obtain ws where ws: "map_of members WITHDRAWN_BUILDS_FIELD = Some (JArr ws)"
    "decode_all decode_withdrawn ws = Some (tsd_withdrawn_builds d)"
    by (auto simp: req_field_Some decode_vec_Some)
  have a: "distinct (map fst ms) \<and> fst ` set ms \<subseteq> set ANCHOR_FIELDS" if "JObj ms \<in> set es" for ms
    using decode_all_member [OF es(2) that] decode_anchor_obj(2) by blast
  have w: "distinct (map fst ms) \<and> fst ` set ms \<subseteq> set WITHDRAWN_BUILD_FIELDS" if "JObj ms \<in> set ws" for ms
    using decode_all_member [OF ws(2) that] decode_withdrawn_obj by blast
  have "length (tsd_anchors d) = length es" "length (tsd_withdrawn_builds d) = length ws"
    using es(2) ws(2) by (simp_all add: decode_all_length)
  with m f es ws a w show ?thesis by blast
qed

section \<open>A concrete document\<close>

definition sample_crypto :: crypto where
  "sample_crypto = \<lparr>sha256 = take 32, signature_verifies = \<lambda>_ pk message signature. signature = take 4 pk\<rparr>"

theorem version_gate_first_witness:
  "read_trust_set_document (\<lambda>_. Some (JObj [(''x'', JNull), (''trust_set_version'', JNum (JPos 3))])) sample_crypto ''x''
     = Inl (TE_UnsupportedVersion 3)"
proof -
  have "obj_get TRUST_SET_VERSION_FIELD [(''x'', JNull), (''trust_set_version'', JNum (JPos 3))]
      = Some (JNum (JPos 3))"
    by (simp add: obj_get_def TRUST_SET_VERSION_FIELD_def)
  then show ?thesis
    using version_gate_first [where n = 3 and bs = "''x''" and cr = sample_crypto and
        parse = "\<lambda>_. Some (JObj [(''x'', JNull), (''trust_set_version'', JNum (JPos 3))])"]
    by simp
qed

definition sample_ed_key :: bytes where "sample_ed_key = replicate 32 (CHR ''a'')"
definition sample_ml_key :: bytes where "sample_ml_key = replicate 2592 (CHR ''b'')"

definition sample_anchor :: "signature_algorithm \<Rightarrow> bytes \<Rightarrow> trust_set_anchor" where
  "sample_anchor alg pk =
     \<lparr>tsa_algorithm = alg, tsa_key_id = to_hex (take 32 pk), tsa_public_key = to_hex pk, tsa_revoked = False\<rparr>"

definition anchor_object :: "bytes \<Rightarrow> bytes \<Rightarrow> json" where
  "anchor_object alg pk = JObj [(ALGORITHM_FIELD, JStr alg), (''key_id'', JStr (to_hex (take 32 pk))),
     (PUBLIC_KEY_FIELD, JStr (to_hex pk)), (REVOKED_FIELD, JBool False)]"

definition anchor_array :: "bytes \<Rightarrow> bytes \<Rightarrow> json" where
  "anchor_array alg pk = JArr [JStr alg, JStr (to_hex (take 32 pk)), JStr (to_hex pk), JBool False]"

definition sample_json_at :: "u64 \<Rightarrow> (bytes \<Rightarrow> bytes \<Rightarrow> json) \<Rightarrow> json" where
  "sample_json_at epoch entry = JObj
     [(TRUST_SET_VERSION_FIELD, JNum (JPos 2)), (EPOCH_FIELD, JNum (JPos epoch)),
      (''min_manifest_format_version'', JNum (JPos 0)),
      (ANCHORS_FIELD, JArr [entry ''ed25519'' sample_ed_key, entry ''ml-dsa-87'' sample_ml_key]),
      (WITHDRAWN_BUILDS_FIELD, JArr [])]"

abbreviation sample_json :: "(bytes \<Rightarrow> bytes \<Rightarrow> json) \<Rightarrow> json" where
  "sample_json \<equiv> sample_json_at 7"

definition sample_document_at :: "u64 \<Rightarrow> trust_set_document" where
  "sample_document_at epoch = \<lparr>tsd_trust_set_version = 2, tsd_epoch = epoch, tsd_min_manifest_format_version = 0,
     tsd_anchors = [sample_anchor Ed25519 sample_ed_key, sample_anchor MlDsa87 sample_ml_key],
     tsd_withdrawn_builds = []\<rparr>"

abbreviation sample_document :: trust_set_document where
  "sample_document \<equiv> sample_document_at 7"

lemmas json_field_defs = TRUST_SET_VERSION_FIELD_def EPOCH_FIELD_def ANCHORS_FIELD_def
  ALGORITHM_FIELD_def PUBLIC_KEY_FIELD_def REVOKED_FIELD_def WITHDRAWN_BUILDS_FIELD_def
  TOP_LEVEL_FIELDS_def ANCHOR_FIELDS_def WITHDRAWN_BUILD_FIELDS_def

lemma sample_anchor_sound:
  assumes "length pk = public_key_len alg" "sha256 cr = take 32"
  shows "anchor_sound cr (sample_anchor alg pk)"
proof -
  have "32 \<le> length pk" using assms(1)
    by (cases alg) (simp_all add: public_key_len_def ED25519_PUBLIC_KEY_LEN_def ML_DSA_87_PUBLIC_KEY_LEN_def)
  then have "decode_lowercase_hex (to_hex (take 32 pk)) 32 = Some (take 32 pk)"
    by (simp add: decode_lowercase_hex_Some)
  then have "is_lowercase_hex (to_hex (take 32 pk)) 32" by (simp add: is_lowercase_hex_iff)
  moreover have "decode_lowercase_hex (to_hex pk) (public_key_len alg) = Some pk"
    using assms(1) by (simp add: decode_lowercase_hex_Some)
  ultimately show ?thesis
    using assms(2) by (simp add: anchor_sound_def sample_anchor_def key_id_def sha256_hex_def)
qed

lemma sample_keys_differ: "take 32 sample_ed_key \<noteq> take 32 sample_ml_key"
  unfolding sample_ed_key_def sample_ml_key_def take_replicate by simp

lemma sample_key_lengths:
  "length sample_ed_key = public_key_len Ed25519" "length sample_ml_key = public_key_len MlDsa87"
  unfolding sample_ed_key_def sample_ml_key_def length_replicate
  by (simp_all add: public_key_len_def ED25519_PUBLIC_KEY_LEN_def ML_DSA_87_PUBLIC_KEY_LEN_def)

lemma sample_check:
  assumes "sha256 cr = take 32" "epoch \<noteq> 0"
  shows "check_document cr (sample_document_at epoch) = Inr ()"
proof -
  have "length (take 32 sample_ed_key) = 32" "length (take 32 sample_ml_key) = 32"
    using sample_key_lengths
    by (simp_all add: public_key_len_def ED25519_PUBLIC_KEY_LEN_def ML_DSA_87_PUBLIC_KEY_LEN_def)
  then have "to_hex (take 32 sample_ed_key) \<noteq> to_hex (take 32 sample_ml_key)"
    using hex32.encode_inj [of "take 32 sample_ed_key" "take 32 sample_ml_key"] sample_keys_differ
    by blast
  with sample_key_lengths [THEN sample_anchor_sound, OF assms(1)] assms(2) show ?thesis
    by (simp add: check_document_Inr sample_document_at_def) (simp add: sample_anchor_def)
qed

lemma sample_decode:
  assumes "\<And>alg name pk. algorithm_named name = Some alg \<Longrightarrow> decode_anchor (entry name pk) = Some (sample_anchor alg pk)"
  shows "decode_trust_set (sample_json_at epoch entry) = Some (sample_document_at epoch)"
proof -
  have "decode_anchor (entry ''ed25519'' sample_ed_key) = Some (sample_anchor Ed25519 sample_ed_key)"
    "decode_anchor (entry ''ml-dsa-87'' sample_ml_key) = Some (sample_anchor MlDsa87 sample_ml_key)"
    by (rule assms, simp add: algorithm_named_def)+
  moreover have "as_u32 (JNum (JPos 2)) = Some 2" "as_u32 (JNum (JPos 0)) = Some 0"
    by (simp_all add: as_u32_def u32_try_from_Some)
  ultimately show ?thesis
    by (simp add: decode_trust_set_def sample_json_at_def json_field_defs req_field_def opt_field_def
        decode_vec_def sample_document_at_def)
qed

lemma decode_anchor_object:
  "algorithm_named name = Some alg \<Longrightarrow> decode_anchor (anchor_object name pk) = Some (sample_anchor alg pk)"
  by (simp add: decode_anchor_def anchor_object_def json_field_defs req_field_def
      deserialize_algorithm_def sample_anchor_def)

lemma sample_read:
  assumes "decode_trust_set (sample_json_at epoch entry) = Some (sample_document_at epoch)"
    "\<And>name pk. entry name pk = anchor_object name pk \<or> entry name pk = anchor_array name pk"
    and "sha256 cr = take 32" "epoch \<noteq> 0" "parse bs = Some (sample_json_at epoch entry)"
  shows "read_trust_set_document parse cr bs = Inr (sample_document_at epoch)"
proof -
  obtain members where m: "sample_json_at epoch entry = JObj members"
    and g: "obj_get TRUST_SET_VERSION_FIELD members = Some (JNum (JPos 2))"
    and a: "obj_get ANCHORS_FIELD members =
      Some (JArr [entry ''ed25519'' sample_ed_key, entry ''ml-dsa-87'' sample_ml_key])"
    and w: "obj_get WITHDRAWN_BUILDS_FIELD members = Some (JArr [])"
    and keys: "fst ` set members \<subseteq> set TOP_LEVEL_FIELDS"
    by (simp add: sample_json_at_def obj_get_def json_field_defs)
  have known: "unknown_key ms k = None" if "fst ` set ms \<subseteq> set k" for ms k
    using that by (auto simp: unknown_key_def find_None_iff)
  have "unknown_key [(ALGORITHM_FIELD, x), (''key_id'', y), (PUBLIC_KEY_FIELD, z), (REVOKED_FIELD, u)] ANCHOR_FIELDS = None"
    for x y z u by (rule known) (simp add: ANCHOR_FIELDS_def)
  then have "check_keys_from ANCHORS_FIELD ANCHOR_FIELDS n [entry p q, entry r s] = Inr ()" for n p q r s
    using assms(2) [of p q] assms(2) [of r s] by (auto simp: anchor_object_def anchor_array_def)
  then have "check_unknown_fields members = Inr ()"
    by (simp add: check_unknown_fields_def known [OF keys] check_entry_keys_def a w)
  moreover have "as_u32 (JNum (JPos 2)) = Some TRUST_SET_VERSION"
    by (simp add: as_u32_def u32_try_from_Some TRUST_SET_VERSION_def)
  ultimately show ?thesis
    using assms(1,5) sample_check [OF assms(3,4)]
    by (simp add: read_trust_set_document_def read_version_gate_def decode_document_def m g)
qed

lemma sample_crypto_sha [simp]: "sha256 sample_crypto = take 32"
  by (simp add: sample_crypto_def)

lemma sample_read_at:
  assumes "sha256 cr = take 32" "epoch \<noteq> 0" "parse bs = Some (sample_json_at epoch anchor_object)"
  shows "read_trust_set_document parse cr bs = Inr (sample_document_at epoch)"
  by (rule sample_read [where entry = anchor_object, OF sample_decode])
    (simp_all add: decode_anchor_object assms)

lemma sample_read_object:
  "read_trust_set_document (\<lambda>_. Some (sample_json anchor_object)) sample_crypto bs = Inr sample_document"
  by (rule sample_read_at) simp_all

theorem admitted_document_sound_witness:
  "tsd_epoch sample_document \<noteq> 0 \<and> (\<exists>anchors. document_anchors sample_crypto sample_document = Some anchors)"
  using admitted_document_sound [OF sample_read_object [of "[]"]] by blast

theorem provisional_decode_agrees_witness:
  "\<exists>trust. self_admission_candidate (\<lambda>_. Some (sample_json anchor_object)) sample_crypto [] = Some (trust, 7)"
proof -
  have "entries_are_objects (sample_json anchor_object)"
    by (simp add: entries_are_objects_def sample_json_at_def obj_get_def json_field_defs anchor_object_def)
  from provisional_decode_agrees [OF sample_read_object refl this] show ?thesis
    by (auto simp: sample_document_at_def)
qed

theorem admitted_document_unambiguous_witness:
  "\<exists>members. sample_json anchor_object = JObj members \<and> distinct (map fst members)"
proof -
  from admitted_document_unambiguous [OF sample_read_object [of "[]"]] obtain members
    where m: "Some (sample_json anchor_object) = Some (JObj members)" "distinct (map fst members)"
    by (elim exE conjE) (rule that)
  then show ?thesis by (simp only: option.inject) (rule exI, rule conjI [OF refl])
qed

section \<open>Entries by position\<close>

text \<open>
  An entry with its field names left out: the array of its values in the order of the schema. The
  document with every anchor entry so written is otherwise the same.
\<close>

fun by_position :: "bytes list \<Rightarrow> json \<Rightarrow> json" where
  "by_position known (JObj members) = JArr (map (\<lambda>k. the (map_of members k)) known)"
| "by_position known v = v"

definition anchor_member_by_position :: "bytes \<times> json \<Rightarrow> bytes \<times> json" where
  "anchor_member_by_position m =
     (case m of
        (k, JArr es) \<Rightarrow> if k = ANCHORS_FIELD then (k, JArr (map (by_position ANCHOR_FIELDS) es)) else m
      | _ \<Rightarrow> m)"

fun anchors_by_position :: "json \<Rightarrow> json" where
  "anchors_by_position (JObj members) = JObj (map anchor_member_by_position members)"
| "anchors_by_position v = v"

lemma fst_anchor_member [simp]: "fst (anchor_member_by_position m) = fst m"
  by (cases m) (simp add: anchor_member_by_position_def split: json.split)

lemma map_of_by_position:
  "map_of (map anchor_member_by_position members) k =
     map_option (\<lambda>v. snd (anchor_member_by_position (k, v))) (map_of members k)"
proof (induction members)
  case (Cons m members)
  obtain k' v where m: "m = (k', v)" by (cases m)
  have "anchor_member_by_position (k', v) = (k', snd (anchor_member_by_position (k', v)))"
    by (metis fst_anchor_member fst_conv prod.collapse)
  with Cons m show ?case by (metis (no_types, lifting) list.simps(9) map_of_Cons_code(2) option.simps(9))
qed simp

lemma decode_anchor_by_position:
  assumes "decode_anchor e = Some a"
  shows "decode_anchor (by_position ANCHOR_FIELDS e) = Some a"
proof (cases e)
  case (JObj members)
  with assms have "decode_anchor (JObj members) = Some a" by simp
  note f = decode_anchor_obj(1) [OF this] this
  have some: "map_of members k \<noteq> None" if "k \<in> set ANCHOR_FIELDS" for k
    using that f(2) unfolding decode_anchor_def f(1)
    by (auto simp: ANCHOR_FIELDS_def req_field_def split: option.splits)
  have "map_of (zip ANCHOR_FIELDS (map (\<lambda>k. the (map_of members k)) ANCHOR_FIELDS)) = map_of members"
  proof
    fix k
    show "map_of (zip ANCHOR_FIELDS (map (\<lambda>k. the (map_of members k)) ANCHOR_FIELDS)) k = map_of members k"
    proof (cases "k \<in> set ANCHOR_FIELDS")
      case True
      with some show ?thesis by (auto simp: map_of_zip_map)
    next
      case False
      with decode_anchor_obj(2) [OF f(2)] have "map_of members k = None" by (auto simp: map_of_eq_None_iff)
      with False show ?thesis by (simp add: map_of_zip_map)
    qed
  qed
  then have "struct_members ANCHOR_FIELDS (by_position ANCHOR_FIELDS e) = Some (map_of members)"
    by (simp add: JObj)
  with f(2) show ?thesis unfolding decode_anchor_def f(1) by (simp del: by_position.simps struct_members.simps)
qed (use assms in simp_all)

lemma decode_anchors_by_position:
  "decode_all decode_anchor es = Some as \<Longrightarrow>
     decode_all decode_anchor (map (by_position ANCHOR_FIELDS) es) = Some as"
  by (auto simp: decode_all_Some list_all2_conv_all_nth intro: decode_anchor_by_position)

lemma obj_get_by_position:
  "obj_get k (map anchor_member_by_position members) =
     map_option (\<lambda>v. snd (anchor_member_by_position (k, v))) (obj_get k members)"
  by (simp add: obj_get_def rev_map map_of_by_position)

lemma other_member [simp]: "k \<noteq> ANCHORS_FIELD \<Longrightarrow> anchor_member_by_position (k, v) = (k, v)"
  by (simp add: anchor_member_by_position_def split: json.split)

lemma field_names: "TRUST_SET_VERSION_FIELD \<noteq> ANCHORS_FIELD" "EPOCH_FIELD \<noteq> ANCHORS_FIELD"
  "''min_manifest_format_version'' \<noteq> ANCHORS_FIELD" "WITHDRAWN_BUILDS_FIELD \<noteq> ANCHORS_FIELD"
  by (simp_all add: TRUST_SET_VERSION_FIELD_def EPOCH_FIELD_def ANCHORS_FIELD_def WITHDRAWN_BUILDS_FIELD_def)

lemma check_keys_by_position: "check_keys_from a known i (map (by_position (k # ks)) es) = Inr ()"
proof (induction es arbitrary: i)
  case (Cons e es)
  then show ?case by (cases e) simp_all
qed simp

lemma unknown_fields_by_position:
  assumes "check_unknown_fields members = Inr ()"
  shows "check_unknown_fields (map anchor_member_by_position members) = Inr ()"
proof -
  have "map fst (map anchor_member_by_position members) = map fst members" by (simp add: comp_def)
  then have "unknown_key (map anchor_member_by_position members) = unknown_key members"
    unfolding unknown_key_def [abs_def] obj_keys_def by (rule arg_cong)
  moreover have "check_entry_keys (map anchor_member_by_position members) ANCHORS_FIELD ANCHOR_FIELDS = Inr ()"
    by (simp add: check_entry_keys_def obj_get_by_position anchor_member_by_position_def ANCHOR_FIELDS_def
        check_keys_by_position split: option.split json.split)
  ultimately show ?thesis
    using assms field_names by (auto simp: check_unknown_fields_def check_entry_keys_def obj_get_by_position split: option.splits)
qed

lemma decode_trust_set_by_position:
  assumes "decode_trust_set (JObj members) = Some d"
  shows "decode_trust_set (JObj (map anchor_member_by_position members)) = Some d"
proof -
  let ?ms = "map anchor_member_by_position members"
  have keys: "map fst ?ms = map fst members" by (simp add: comp_def)
  then have "struct_members TOP_LEVEL_FIELDS (JObj ?ms) = Some (map_of ?ms)"
    using decode_trust_set_obj(2,3) [OF assms] by (auto simp: comp_def)
  moreover have "map_of ?ms k = map_of members k" if "k \<noteq> ANCHORS_FIELD" for k
    using that by (simp add: map_of_by_position option.map_ident)
  moreover have "req_field ANCHORS_FIELD (decode_vec decode_anchor) (map_of ?ms) = Some (tsd_anchors d)"
    using decode_trust_set_fields(3) [OF assms] decode_anchors_by_position
    by (auto simp: req_field_Some decode_vec_Some map_of_by_position anchor_member_by_position_def)
  ultimately show ?thesis
    using assms field_names unfolding decode_trust_set_def decode_trust_set_obj(1) [OF assms]
    by (auto simp: req_field_def opt_field_def split: option.splits simp del: struct_members.simps)
qed

text \<open>
  C5: the entries of the document need not be objects. Take any document the strict reader admits and
  leave out the field names of its anchor entries, so that each is the array of its values: the strict
  reader admits it with the very same result (no entry that is an array is checked for its fields, and
  the derived decoding reads a struct by position), while the provisional decode refuses it, so no
  trust set can be built from it before verification.
\<close>

theorem positional_entries_admitted:
  assumes "read_trust_set_document parse cr bs = Inr d" "parse bs = Some document"
    "parse bs' = Some (anchors_by_position document)"
  shows "read_trust_set_document parse cr bs' = Inr d \<and> self_admission_candidate parse cr bs' = None"
proof
  from read_trust_set_documentD [OF assms(1)] obtain members where m: "parse bs = Some (JObj members)"
    "check_unknown_fields members = Inr ()" "decode_trust_set (JObj members) = Some d" "check_document cr d = Inr ()"
    by blast
  let ?ms = "map anchor_member_by_position members"
  have bs': "parse bs' = Some (JObj ?ms)" using m(1) assms(2,3) by simp
  have "read_version_gate parse bs = Inr members"
    using assms(1) m(1) by (auto simp: read_trust_set_document_def read_version_gate_def split: option.splits json.splits if_splits)
  then have "read_version_gate parse bs' = Inr ?ms"
    using m(1) bs' field_names(1)
    by (auto simp: read_version_gate_def obj_get_by_position split: option.splits json.splits if_splits)
  then show "read_trust_set_document parse cr bs' = Inr d"
    using unknown_fields_by_position [OF m(2)] decode_trust_set_by_position [OF m(3)] m(4) bs'
    by (simp add: read_trust_set_document_def decode_document_def)
  have "tsd_anchors d \<noteq> []" using m(4) by (auto simp: check_document_def split: if_splits)
  moreover obtain es where es: "map_of members ANCHORS_FIELD = Some (JArr es)" "decode_all decode_anchor es = Some (tsd_anchors d)"
    using decode_trust_set_fields(3) [OF m(3)] by (auto simp: req_field_Some decode_vec_Some)
  ultimately obtain e es' where e: "es = e # es'" "\<exists>a. decode_anchor e = Some a"
    by (cases es) (auto split: option.splits)
  have "value_get ANCHORS_FIELD (JObj ?ms) = Some (JArr (map (by_position ANCHOR_FIELDS) es))"
    using es(1) obj_get_distinct [OF decode_trust_set_obj(2) [OF m(3)]]
    by (simp add: obj_get_by_position anchor_member_by_position_def)
  moreover have "provisional_anchor cr (by_position ANCHOR_FIELDS e) = None"
    using e(2) by (cases e) (auto simp: provisional_anchor_def)
  ultimately have "provisional_anchors_and_epoch parse cr bs' = None"
    using bs' e(1) by (auto simp: provisional_anchors_and_epoch_def split: option.split)
  then show "self_admission_candidate parse cr bs' = None" by (simp add: self_admission_candidate_def)
qed

lemma sample_by_position: "anchors_by_position (sample_json anchor_object) = sample_json anchor_array"
  by (simp add: sample_json_at_def anchor_member_by_position_def json_field_defs anchor_object_def anchor_array_def)

theorem positional_entries_admitted_witness:
  "read_trust_set_document (\<lambda>b. Some (sample_json (if b = [] then anchor_object else anchor_array))) sample_crypto ''x''
     = Inr sample_document \<and>
   self_admission_candidate (\<lambda>b. Some (sample_json (if b = [] then anchor_object else anchor_array))) sample_crypto ''x'' = None"
proof -
  have "read_trust_set_document (\<lambda>b. Some (sample_json (if b = [] then anchor_object else anchor_array))) sample_crypto []
     = Inr sample_document"
    by (rule sample_read_at) simp_all
  from positional_entries_admitted [OF this, of "sample_json anchor_object" "''x''"] show ?thesis
    by (simp add: sample_by_position)
qed

end
