(* ===== verification/Systemd.thy ===== *)
theory Systemd
  imports Rust_Text
begin

text \<open>
  The systemd serialization rule of \<open>src/systemd.rs\<close>: which strings a unit file can carry and the
  text each resolved value contributes.
\<close>

datatype unit_value =
    Argument bytes
  | MainPid
  | Environment bytes bytes
  | Description bytes

definition MAIN_PID :: bytes where "MAIN_PID = ''$MAINPID''"

definition is_representable :: "bytes \<Rightarrow> bool" where
  "is_representable v \<longleftrightarrow> v \<noteq> [] \<and> \<not> has_control v"

definition double :: "bytes \<Rightarrow> bool \<Rightarrow> bytes" where
  "double v dollars =
     (let percent_doubled = replace_byte (CHR ''%'') ''%%'' v in
      if dollars then replace_byte (CHR ''$'') ''$$'' percent_doubled else percent_doubled)"

definition is_bare_safe :: "bytes \<Rightarrow> bool" where
  "is_bare_safe raw \<longleftrightarrow> raw \<noteq> [] \<and>
     list_all (\<lambda>b. 33 \<le> ord b \<and> ord b \<le> 126 \<and> ord b \<notin> {34, 39, 92}) raw"

definition quote :: "bytes \<Rightarrow> bytes" where
  "quote v =
     (let escaped = replace_byte (char_of (34 :: nat)) [char_of (92 :: nat), char_of (34 :: nat)]
            (replace_byte (char_of (92 :: nat)) [char_of (92 :: nat), char_of (92 :: nat)] v)
      in char_of (34 :: nat) # escaped @ [char_of (34 :: nat)])"

definition render :: "unit_value \<Rightarrow> bytes" where
  "render v =
     (case v of
        Argument raw \<Rightarrow>
          (let doubled = double raw True in if is_bare_safe raw then doubled else quote doubled)
      | MainPid \<Rightarrow> MAIN_PID
      | Environment key val \<Rightarrow> quote (double (key @ ''='' @ val) False)
      | Description raw \<Rightarrow> double raw False)"

section \<open>Reading the text back\<close>

text \<open>
  The inverse of each escape: one pass over the text that takes the second of a doubled or escaped
  pair.
\<close>

fun undouble :: "byte \<Rightarrow> bytes \<Rightarrow> bytes" where
  "undouble d [] = []"
| "undouble d [c] = [c]"
| "undouble d (c # c' # cs) = (if c = d then d # undouble d cs else c # undouble d (c' # cs))"

fun unescape :: "bytes \<Rightarrow> bytes" where
  "unescape [] = []"
| "unescape [c] = [c]"
| "unescape (c # c' # cs) = (if ord c = 92 then c' # unescape cs else c # unescape (c' # cs))"

lemma undouble_other: "c \<noteq> d \<Longrightarrow> undouble d (c # cs) = c # undouble d cs"
  by (cases cs) auto

lemma unescape_other: "ord c \<noteq> 92 \<Longrightarrow> unescape (c # cs) = c # unescape cs"
  by (cases cs) auto

lemma undouble_replace: "undouble d (replace_byte d [d, d] v) = v"
  by (induction v) (auto simp: undouble_other)

lemma escape_one_pass:
  assumes "q \<noteq> b"
  shows "replace_byte q [b, q] (replace_byte b [b, b] v) =
    concat (map (\<lambda>c. if c = q \<or> c = b then [b, c] else [c]) v)"
  using assms by (induction v) auto

lemma unescape_escaped:
  "unescape (concat (map (\<lambda>c. if c = char_of (34 :: nat) \<or> c = char_of (92 :: nat)
     then [char_of (92 :: nat), c] else [c]) v) @ r) = v @ unescape r"
proof (induction v)
  case Nil
  then show ?case by simp
next
  case (Cons c v)
  show ?case
  proof (cases "c = char_of (34 :: nat) \<or> c = char_of (92 :: nat)")
    case True
    then show ?thesis using Cons.IH by (simp add: of_char_of)
  next
    case False
    then have "ord c \<noteq> 92" by (metis char_of_char)
    with False show ?thesis using Cons.IH by (simp add: unescape_other)
  qed
qed

text \<open>The body of a quoted text, and the value a text stands for.\<close>

definition unquote :: "bytes \<Rightarrow> bytes" where
  "unquote t = butlast (tl (unescape t))"

lemma unquote_quote: "unquote (quote v) = v"
proof -
  have "char_of (34 :: nat) \<noteq> (char_of (92 :: nat) :: byte)" by simp
  from escape_one_pass [OF this]
  show ?thesis
    by (simp add: quote_def unquote_def Let_def unescape_other of_char_of unescape_escaped)
qed

lemma quote_inj [simp]: "quote v = quote w \<longleftrightarrow> v = w"
  by (metis unquote_quote)

definition undouble_both :: "bool \<Rightarrow> bytes \<Rightarrow> bytes" where
  "undouble_both dollars t = undouble (CHR ''%'') (if dollars then undouble (CHR ''$'') t else t)"

lemma undouble_double: "undouble_both dollars (double v dollars) = v"
  by (simp add: undouble_both_def double_def Let_def undouble_replace)

lemma double_inj [simp]: "double v d = double w d \<longleftrightarrow> v = w"
  by (metis undouble_double)

lemma double_one_pass:
  "double v True = concat (map (\<lambda>c. if c = CHR ''%'' then ''%%'' else if c = CHR ''$'' then ''$$'' else [c]) v)"
  by (induction v) (auto simp: double_def Let_def)

lemma set_double: "set (double v d) = set v"
  by (cases d; induction v) (auto simp: double_def Let_def)

lemma quote_head: "\<exists>r. quote v = char_of (34 :: nat) # r"
  by (simp add: quote_def Let_def)

lemma bare_not_quoted:
  assumes "is_bare_safe a"
  shows "double a True \<noteq> quote v"
proof
  assume e: "double a True = quote v"
  then have "char_of (34 :: nat) \<in> set (double a True)"
    using quote_head [of v] by auto
  then have "char_of (34 :: nat) \<in> set a" by (simp add: set_double)
  with assms show False by (auto simp: is_bare_safe_def list_all_iff of_char_of)
qed

lemma double_not_main_pid: "double a True \<noteq> MAIN_PID"
proof
  assume "double a True = MAIN_PID"
  then have "undouble_both True MAIN_PID = a" by (metis undouble_double)
  moreover have "undouble_both True MAIN_PID = ''$AINPID''"
    by (simp add: undouble_both_def MAIN_PID_def)
  ultimately have "a = ''$AINPID''" by simp
  with \<open>double a True = MAIN_PID\<close> show False by (simp add: double_one_pass MAIN_PID_def)
qed

text \<open>
  Rendering loses nothing and invents nothing: two arguments with the same text are the same
  string, so are two environment entries (as \<open>KEY=VALUE\<close>) and two descriptions; and no argument,
  whatever its bytes, renders as systemd's own \<open>$MAINPID\<close>, whose text only \<open>MainPid\<close> produces.
\<close>

theorem render_faithful:
  "(render (Argument a) = render (Argument b) \<longleftrightarrow> a = b) \<and>
   (render (Environment k v) = render (Environment k' v') \<longleftrightarrow> k @ ''='' @ v = k' @ ''='' @ v') \<and>
   (render (Description a) = render (Description b) \<longleftrightarrow> a = b) \<and>
   render (Argument a) \<noteq> render MainPid"
proof -
  have "CHR ''$'' \<noteq> (char_of (34 :: nat) :: byte)"
  proof
    assume "CHR ''$'' = (char_of (34 :: nat) :: byte)"
    then have "ord (CHR ''$'') = ord (char_of (34 :: nat))" by (rule arg_cong)
    then show False by (simp add: of_char_of)
  qed
  then have "quote x \<noteq> MAIN_PID" for x using quote_head [of x] by (auto simp: MAIN_PID_def)
  then have "render (Argument a) \<noteq> render MainPid"
    using double_not_main_pid [of a] by (simp add: render_def Let_def)
  moreover have "render (Argument a) = render (Argument b) \<longleftrightarrow> a = b"
    using bare_not_quoted [of a "double b True"] bare_not_quoted [of b "double a True"]
    by (auto simp: render_def Let_def dest: sym)
  ultimately show ?thesis by (simp add: render_def)
qed

end
