(* ===== verification/Module_Spec.thy ===== *)
theory Module_Spec
  imports Systemd Container
begin

text \<open>
  The module specification of \<open>src/module_spec.rs\<close>: the closed records a package declares and every
  check of \<open>validate\<close>, in its order. The serde derives are not modelled.
\<close>

section \<open>Data\<close>

definition MAX_DNS_LABEL_LEN :: nat where "MAX_DNS_LABEL_LEN = 63"
definition MAX_CONTAINER_NAME_LEN :: nat where "MAX_CONTAINER_NAME_LEN = 255"

datatype artifact_kind = NativeBinary | ContainerImage | ComposeBundle | StaticAssets

datatype privilege_profile_name = PP_Root | PP_Replay | PP_AfPacket | PP_Dpdk
datatype capability = NetRaw | NetAdmin
datatype memlock_limit = MemlockInfinity
datatype systemd_target = NetworkOnline | MultiUser
datatype restart_policy = RestartAlways
datatype run_as = RunAsRoot
datatype supplementary_group = Adm | SecurityVfio

datatype render_var =
    ArtifactPath | ConfigPath | DataDir | InstanceId | Hostname | Domain | CertPath | KeyPath
  | CaBundlePath | ManagerEndpoint | VarMainPid

datatype arg = Literal bytes | Var render_var

record privilege_profile =
  pp_name :: privilege_profile_name
  pp_run_as :: "run_as option"
  pp_ambient_capabilities :: "capability list"
  pp_limit_memlock :: "memlock_limit option"
  pp_supplementary_groups :: "supplementary_group list"

record unit_template =
  ut_description :: bytes
  ut_after :: "systemd_target list"
  ut_wants :: "systemd_target list"
  ut_wanted_by :: "systemd_target list"
  ut_exec_start :: "arg list"
  ut_exec_reload :: "arg list option"
  ut_working_directory :: "arg option"
  ut_environment :: "(bytes \<times> arg) list"
  ut_restart :: restart_policy
  ut_restart_sec :: u32
  ut_limit_nofile :: "u64 option"
  ut_run_as :: "run_as option"
  ut_supplementary_groups :: "supplementary_group list"
  ut_protect_home :: bool
  ut_private_tmp :: bool
  ut_no_new_privileges :: bool
  ut_privilege_profiles :: "privilege_profile list"

datatype reload_spec = Sighup bytes | DockerSighup bytes

record registration_template =
  rt_package_id :: bytes
  rt_service_name :: bytes
  rt_reload :: reload_spec
  rt_cert_group_gid :: "u32 option"

datatype placement_class = CoreHosts | ModuleHosts

record module_spec =
  ms_unit :: "unit_template option"
  ms_registration :: registration_template
  ms_placement :: placement_class

datatype module_spec_error =
    ME_MissingUnit artifact_kind
  | ME_UnexpectedUnit artifact_kind
  | ME_EmptyDescription
  | ME_UnrepresentableDescription bytes
  | ME_EmptyLiteral
  | ME_UnrepresentableLiteral bytes
  | ME_InvalidEnvironmentKey bytes
  | ME_EmptyExecStart
  | ME_ExecStartNotArtifactPath
  | ME_EmptyExecReload
  | ME_ZeroLimitNofile
  | ME_InfiniteLimitNofile
  | ME_DuplicateSupplementaryGroup supplementary_group
  | ME_SupplementaryGroupsWithRunAs
  | ME_MainPidOutsideExecReload
  | ME_SecurityVfioOutsideProfile
  | ME_PrivilegeProfilesWithRunAs
  | ME_PrivilegeProfilesWithSupplementaryGroups
  | ME_DuplicatePrivilegeProfile privilege_profile_name
  | ME_RunAsMismatchesProfileName privilege_profile_name
  | ME_PrivilegesInRootProfile privilege_profile_name
  | ME_DuplicateProfileCapability privilege_profile_name capability
  | ME_DuplicateProfileSupplementaryGroup privilege_profile_name supplementary_group
  | ME_PackageIdMismatch bytes bytes
  | ME_InvalidServiceName bytes
  | ME_InvalidProcessPath bytes
  | ME_InvalidContainerName bytes

section \<open>Names in unit files\<close>

fun profile_name_str :: "privilege_profile_name \<Rightarrow> bytes" where
  "profile_name_str PP_Root = ''root''"
| "profile_name_str PP_Replay = ''replay''"
| "profile_name_str PP_AfPacket = ''af-packet''"
| "profile_name_str PP_Dpdk = ''dpdk''"

definition profile_name_from_str :: "bytes \<Rightarrow> bytes + privilege_profile_name" where
  "profile_name_from_str v =
     (if v = ''root'' then Inr PP_Root
      else if v = ''replay'' then Inr PP_Replay
      else if v = ''af-packet'' then Inr PP_AfPacket
      else if v = ''dpdk'' then Inr PP_Dpdk
      else Inl v)"

definition privilege_profile_names :: "unit_template \<Rightarrow> privilege_profile_name list" where
  "privilege_profile_names unit = map pp_name (ut_privilege_profiles unit)"

fun capability_unit_str :: "capability \<Rightarrow> bytes" where
  "capability_unit_str NetRaw = ''CAP_NET_RAW''"
| "capability_unit_str NetAdmin = ''CAP_NET_ADMIN''"

fun memlock_unit_str :: "memlock_limit \<Rightarrow> bytes" where
  "memlock_unit_str MemlockInfinity = ''infinity''"

fun target_unit_str :: "systemd_target \<Rightarrow> bytes" where
  "target_unit_str NetworkOnline = ''network-online.target''"
| "target_unit_str MultiUser = ''multi-user.target''"

fun restart_unit_str :: "restart_policy \<Rightarrow> bytes" where
  "restart_unit_str RestartAlways = ''always''"

fun group_unit_str :: "supplementary_group \<Rightarrow> bytes" where
  "group_unit_str Adm = ''adm''"
| "group_unit_str SecurityVfio = ''clumit-security-vfio''"

section \<open>Grammars\<close>

definition is_environment_key :: "bytes \<Rightarrow> bool" where
  "is_environment_key key =
     (case key of
        [] \<Rightarrow> False
      | first # rest \<Rightarrow>
          (is_ascii_uppercase first \<or> is_ascii_lowercase first \<or> first = CHR ''_'') \<and>
          list_all (\<lambda>b. is_ascii_alphanumeric b \<or> b = CHR ''_'') rest)"

definition is_dns_label :: "bytes \<Rightarrow> bool" where
  "is_dns_label value =
     (if value = [] \<or> MAX_DNS_LABEL_LEN < length value then False
      else if starts_with ''-'' value \<or> last value = CHR ''-'' then False
      else list_all (\<lambda>b. is_ascii_lowercase b \<or> is_ascii_digit b \<or> b = CHR ''-'') value)"

definition is_absolute_process_path :: "bytes \<Rightarrow> bool" where
  "is_absolute_process_path value \<longleftrightarrow>
     starts_with ''/'' value \<and> list_all (\<lambda>b. 33 \<le> ord b \<and> ord b \<le> 126) value"

definition is_container_name :: "bytes \<Rightarrow> bool" where
  "is_container_name value =
     (if MAX_CONTAINER_NAME_LEN < length value then False
      else case value of
        [] \<Rightarrow> False
      | first # rest \<Rightarrow> is_ascii_alphanumeric first \<and>
          list_all (\<lambda>b. is_ascii_alphanumeric b \<or> b \<in> {CHR ''_'', CHR ''.'', CHR ''-''}) rest)"

section \<open>Validation\<close>

fun validate_arg :: "bool \<Rightarrow> arg \<Rightarrow> module_spec_error + unit" where
  "validate_arg main_pid_allowed (Literal t) =
     (if t = [] then Inl ME_EmptyLiteral
      else if is_representable t then Inr ()
      else Inl (ME_UnrepresentableLiteral t))"
| "validate_arg main_pid_allowed (Var v) =
     (if v = VarMainPid \<and> \<not> main_pid_allowed then Inl ME_MainPidOutsideExecReload else Inr ())"

text \<open>A loop that inserts into a set and refuses the first element already there.\<close>

fun refuse_repeat :: "('a \<Rightarrow> 'e) \<Rightarrow> 'a list \<Rightarrow> 'a list \<Rightarrow> 'e + unit" where
  "refuse_repeat e seen [] = Inr ()"
| "refuse_repeat e seen (x # xs) =
     (if x \<in> set seen then Inl (e x) else refuse_repeat e (x # seen) xs)"

definition validate_privilege_profiles :: "unit_template \<Rightarrow> module_spec_error + unit" where
  "validate_privilege_profiles unit =
     (if SecurityVfio \<in> set (ut_supplementary_groups unit) then Inl ME_SecurityVfioOutsideProfile
      else if ut_privilege_profiles unit = [] then Inr ()
      else if ut_run_as unit \<noteq> None then Inl ME_PrivilegeProfilesWithRunAs
      else if ut_supplementary_groups unit \<noteq> [] then Inl ME_PrivilegeProfilesWithSupplementaryGroups
      else
        bind_res (refuse_repeat ME_DuplicatePrivilegeProfile [] (map pp_name (ut_privilege_profiles unit))) (\<lambda>_.
        bind_res (for_each (\<lambda>p.
          ensure ((pp_name p = PP_Root) = (pp_run_as p = Some RunAsRoot))
            (ME_RunAsMismatchesProfileName (pp_name p))) (ut_privilege_profiles unit)) (\<lambda>_.
        bind_res (for_each (\<lambda>p.
          ensure (\<not> (pp_run_as p \<noteq> None \<and>
              (pp_ambient_capabilities p \<noteq> [] \<or> pp_limit_memlock p \<noteq> None \<or> pp_supplementary_groups p \<noteq> [])))
            (ME_PrivilegesInRootProfile (pp_name p))) (ut_privilege_profiles unit)) (\<lambda>_.
        bind_res (for_each (\<lambda>p.
          refuse_repeat (ME_DuplicateProfileCapability (pp_name p)) [] (pp_ambient_capabilities p))
          (ut_privilege_profiles unit)) (\<lambda>_.
        for_each (\<lambda>p.
          refuse_repeat (ME_DuplicateProfileSupplementaryGroup (pp_name p)) [] (pp_supplementary_groups p))
          (ut_privilege_profiles unit))))))"

definition validate_unit :: "unit_template \<Rightarrow> module_spec_error + unit" where
  "validate_unit unit =
     (if ut_description unit = [] then Inl ME_EmptyDescription
      else if \<not> is_representable (ut_description unit) then
        Inl (ME_UnrepresentableDescription (ut_description unit))
      else case ut_exec_start unit of
        [] \<Rightarrow> Inl ME_EmptyExecStart
      | first # _ \<Rightarrow>
          if first \<noteq> Var ArtifactPath then Inl ME_ExecStartNotArtifactPath
          else
            bind_res (for_each (validate_arg False) (ut_exec_start unit)) (\<lambda>_.
            bind_res (case ut_exec_reload unit of
                None \<Rightarrow> Inr ()
              | Some exec_reload \<Rightarrow>
                  if exec_reload = [] then Inl ME_EmptyExecReload
                  else for_each (validate_arg True) exec_reload) (\<lambda>_.
            bind_res (case ut_working_directory unit of
                None \<Rightarrow> Inr () | Some d \<Rightarrow> validate_arg False d) (\<lambda>_.
            bind_res (for_each (\<lambda>(key, value).
                if \<not> is_environment_key key then Inl (ME_InvalidEnvironmentKey key)
                else validate_arg False value) (ut_environment unit)) (\<lambda>_.
            bind_res (case ut_limit_nofile unit of
                None \<Rightarrow> Inr ()
              | Some n \<Rightarrow> if n = 0 then Inl ME_ZeroLimitNofile
                          else if n = - 1 then Inl ME_InfiniteLimitNofile else Inr ()) (\<lambda>_.
            bind_res (ensure (\<not> (ut_run_as unit \<noteq> None \<and> ut_supplementary_groups unit \<noteq> []))
                ME_SupplementaryGroupsWithRunAs) (\<lambda>_.
            bind_res (refuse_repeat ME_DuplicateSupplementaryGroup [] (ut_supplementary_groups unit)) (\<lambda>_.
            validate_privilege_profiles unit))))))))"

definition validate_registration ::
  "registration_template \<Rightarrow> bytes \<Rightarrow> module_spec_error + unit" where
  "validate_registration registration component =
     (if rt_package_id registration \<noteq> component then
        Inl (ME_PackageIdMismatch (rt_package_id registration) component)
      else if \<not> is_dns_label (rt_service_name registration) then
        Inl (ME_InvalidServiceName (rt_service_name registration))
      else case rt_reload registration of
        Sighup process_path \<Rightarrow>
          ensure (is_absolute_process_path process_path) (ME_InvalidProcessPath process_path)
      | DockerSighup container \<Rightarrow>
          ensure (is_container_name container) (ME_InvalidContainerName container))"

definition module_spec_validate ::
  "module_spec \<Rightarrow> bytes \<Rightarrow> artifact_kind \<Rightarrow> module_spec_error + unit" where
  "module_spec_validate spec component kind =
     (if kind \<in> {NativeBinary, ComposeBundle} \<and> ms_unit spec = None then Inl (ME_MissingUnit kind)
      else if kind \<in> {StaticAssets, ContainerImage} \<and> ms_unit spec \<noteq> None then Inl (ME_UnexpectedUnit kind)
      else bind_res (case ms_unit spec of None \<Rightarrow> Inr () | Some unit \<Rightarrow> validate_unit unit) (\<lambda>_.
        validate_registration (ms_registration spec) component))"

section \<open>What an accepted specification satisfies\<close>

lemma refuse_repeat_Inr:
  "refuse_repeat e seen xs = Inr () \<longleftrightarrow> distinct xs \<and> set xs \<inter> set seen = {}"
  by (induction xs arbitrary: seen) auto

definition arg_ok :: "bool \<Rightarrow> arg \<Rightarrow> bool" where
  "arg_ok main_pid_allowed a \<longleftrightarrow>
     (case a of Literal t \<Rightarrow> is_representable t | Var v \<Rightarrow> v = VarMainPid \<longrightarrow> main_pid_allowed)"

lemma validate_arg_Inr: "validate_arg allowed a = Inr () \<longleftrightarrow> arg_ok allowed a"
  by (cases a) (auto simp: arg_ok_def is_representable_def)

definition profile_ok :: "privilege_profile \<Rightarrow> bool" where
  "profile_ok p \<longleftrightarrow>
     (if pp_name p = PP_Root
      then pp_run_as p = Some RunAsRoot \<and> pp_ambient_capabilities p = [] \<and>
           pp_limit_memlock p = None \<and> pp_supplementary_groups p = []
      else pp_run_as p = None \<and> distinct (pp_ambient_capabilities p) \<and>
           distinct (pp_supplementary_groups p))"

definition privileges_ok :: "unit_template \<Rightarrow> bool" where
  "privileges_ok u \<longleftrightarrow>
     SecurityVfio \<notin> set (ut_supplementary_groups u) \<and> distinct (ut_supplementary_groups u) \<and>
     (ut_run_as u \<noteq> None \<longrightarrow> ut_supplementary_groups u = []) \<and>
     (ut_privilege_profiles u \<noteq> [] \<longrightarrow> ut_run_as u = None \<and> ut_supplementary_groups u = []) \<and>
     distinct (map pp_name (ut_privilege_profiles u)) \<and>
     (\<forall>p \<in> set (ut_privilege_profiles u). profile_ok p)"

lemma run_as_Some: "r \<noteq> None \<longleftrightarrow> r = Some RunAsRoot"
  by (cases r) (auto intro: run_as.exhaust)

lemma profile_ok_iff:
  "profile_ok p \<longleftrightarrow>
     ((pp_name p = PP_Root) = (pp_run_as p = Some RunAsRoot)) \<and>
     \<not> (pp_run_as p \<noteq> None \<and> (pp_ambient_capabilities p \<noteq> [] \<or> pp_limit_memlock p \<noteq> None \<or>
        pp_supplementary_groups p \<noteq> [])) \<and>
     distinct (pp_ambient_capabilities p) \<and> distinct (pp_supplementary_groups p)"
  using run_as_Some [of "pp_run_as p"] by (auto simp: profile_ok_def simp del: not_None_eq)

lemma validate_privilege_profiles_Inr:
  "validate_privilege_profiles u = Inr () \<longleftrightarrow>
     SecurityVfio \<notin> set (ut_supplementary_groups u) \<and>
     (ut_privilege_profiles u \<noteq> [] \<longrightarrow> ut_run_as u = None \<and> ut_supplementary_groups u = []) \<and>
     distinct (map pp_name (ut_privilege_profiles u)) \<and>
     (\<forall>p \<in> set (ut_privilege_profiles u). profile_ok p)"
  by (auto simp: validate_privilege_profiles_def refuse_repeat_Inr profile_ok_iff
      simp del: not_None_eq)

definition unit_ok :: "unit_template \<Rightarrow> bool" where
  "unit_ok u \<longleftrightarrow>
     is_representable (ut_description u) \<and>
     (\<exists>rest. ut_exec_start u = Var ArtifactPath # rest) \<and> list_all (arg_ok False) (ut_exec_start u) \<and>
     (\<forall>r. ut_exec_reload u = Some r \<longrightarrow> r \<noteq> [] \<and> list_all (arg_ok True) r) \<and>
     (\<forall>d. ut_working_directory u = Some d \<longrightarrow> arg_ok False d) \<and>
     (\<forall>(k, v) \<in> set (ut_environment u). is_environment_key k \<and> arg_ok False v) \<and>
     ut_limit_nofile u \<notin> {Some 0, Some (- 1)} \<and> privileges_ok u"

definition registration_ok :: "registration_template \<Rightarrow> bytes \<Rightarrow> bool" where
  "registration_ok r component \<longleftrightarrow> rt_package_id r = component \<and> is_dns_label (rt_service_name r) \<and>
     (case rt_reload r of Sighup p \<Rightarrow> is_absolute_process_path p | DockerSighup c \<Rightarrow> is_container_name c)"

lemma validate_unit_Inr: "validate_unit u = Inr () \<longleftrightarrow> unit_ok u"
proof (cases "ut_exec_start u")
  case Nil
  then show ?thesis by (auto simp: validate_unit_def unit_ok_def)
next
  case (Cons a rest)
  have env: "(case kv of (key, value) \<Rightarrow>
        if \<not> is_environment_key key then Inl (ME_InvalidEnvironmentKey key) else validate_arg False value) = Inr ()
      \<longleftrightarrow> (case kv of (k, v) \<Rightarrow> is_environment_key k \<and> arg_ok False v)" for kv
    by (cases kv) (simp add: validate_arg_Inr)
  have repr: "is_representable (ut_description u) \<Longrightarrow> ut_description u \<noteq> []"
    by (simp add: is_representable_def)
  show ?thesis
    unfolding validate_unit_def unit_ok_def privileges_ok_def Cons
    using repr
    by (auto simp: env validate_arg_Inr refuse_repeat_Inr validate_privilege_profiles_Inr list_all_iff
        simp del: for_each.simps validate_arg.simps split: option.splits if_splits)
qed

lemma validate_registration_Inr: "validate_registration r c = Inr () \<longleftrightarrow> registration_ok r c"
  by (auto simp: validate_registration_def registration_ok_def split: reload_spec.splits)

text \<open>
  C6: a specification is accepted exactly when: a unit is present for the kinds that run and absent
  for the others; its text fits in a unit file; \<open>ExecStart\<close> begins with the artifact and the main
  process id appears only in \<open>ExecReload\<close>; privileges are consistent (the root profile is exactly the
  one that runs as root and it grants nothing else, profiles exclude unit-level privileges, nothing
  is repeated, the VFIO group is only named by a profile); and the registration names this component
  with a DNS label and a well-formed reload target.
\<close>

theorem module_spec_accepted_iff:
  "module_spec_validate spec component kind = Inr () \<longleftrightarrow>
     (ms_unit spec = None \<longleftrightarrow> kind \<in> {StaticAssets, ContainerImage}) \<and>
     (\<forall>u. ms_unit spec = Some u \<longrightarrow> unit_ok u) \<and> registration_ok (ms_registration spec) component"
  by (cases kind; cases "ms_unit spec")
    (auto simp: module_spec_validate_def validate_unit_Inr validate_registration_Inr)

definition sample_unit :: unit_template where
  "sample_unit =
     \<lparr>ut_description = ''Sensor'', ut_after = [NetworkOnline], ut_wants = [], ut_wanted_by = [MultiUser],
      ut_exec_start = [Var ArtifactPath, Literal ''-c'', Var ConfigPath],
      ut_exec_reload = Some [Literal ''kill'', Var VarMainPid], ut_working_directory = None,
      ut_environment = [(''HOME'', Var DataDir)], ut_restart = RestartAlways, ut_restart_sec = 5,
      ut_limit_nofile = Some 65536, ut_run_as = None, ut_supplementary_groups = [],
      ut_protect_home = True, ut_private_tmp = True, ut_no_new_privileges = True,
      ut_privilege_profiles =
        [\<lparr>pp_name = PP_Root, pp_run_as = Some RunAsRoot, pp_ambient_capabilities = [],
          pp_limit_memlock = None, pp_supplementary_groups = []\<rparr>,
         \<lparr>pp_name = PP_Dpdk, pp_run_as = None, pp_ambient_capabilities = [NetRaw],
          pp_limit_memlock = Some MemlockInfinity, pp_supplementary_groups = [SecurityVfio]\<rparr>]\<rparr>"

definition sample_spec :: module_spec where
  "sample_spec = \<lparr>ms_unit = Some sample_unit,
     ms_registration = \<lparr>rt_package_id = ''sensor'', rt_service_name = ''sensor'',
       rt_reload = Sighup ''/opt/sensor'', rt_cert_group_gid = None\<rparr>,
     ms_placement = ModuleHosts\<rparr>"

lemma ascii_representable:
  "s \<noteq> [] \<Longrightarrow> list_all (\<lambda>c. 32 \<le> ord c \<and> ord c < 127) s \<Longrightarrow> is_representable s"
  by (simp add: is_representable_def has_control_ascii)

lemma sample_unit_ok: "unit_ok sample_unit"
proof -
  have "is_representable ''Sensor''" "is_representable ''-c''" "is_representable ''kill''"
    by (rule ascii_representable; simp)+
  moreover have "is_environment_key ''HOME''"
    by (simp add: is_environment_key_def ascii_defs)
  ultimately show ?thesis
    by (simp add: unit_ok_def sample_unit_def arg_ok_def privileges_ok_def profile_ok_def)
qed

theorem module_spec_accepted_iff_witness:
  "module_spec_validate sample_spec ''sensor'' NativeBinary = Inr ()"
proof -
  have "registration_ok (ms_registration sample_spec) ''sensor''"
    by (simp add: registration_ok_def sample_spec_def is_dns_label_def is_absolute_process_path_def
        MAX_DNS_LABEL_LEN_def starts_with_def ascii_defs)
  then show ?thesis
    using sample_unit_ok by (subst module_spec_accepted_iff) (simp add: sample_spec_def)
qed

end
