(* ===== verification/Manifest.thy ===== *)
theory Manifest
  imports Module_Spec Image Json File_System Trust_Types
begin

text \<open>
  The payload manifest of \<open>src/manifest.rs\<close>: the format-version gate, the pre-versioned baseline,
  the validation every constructor funnels through (\<open>from_parts\<close>), the resolution of an artifact's
  image declaration, and the spec digest's text form. What serde derives (the structs a JSON value
  decodes to) and base64 are parameters, collected in \<open>manifest_codec\<close>.
\<close>

section \<open>Data\<close>

definition MANIFEST_FORMAT_VERSION :: u32 where "MANIFEST_FORMAT_VERSION = 9"
definition MIN_MANIFEST_FORMAT_VERSION :: u32 where "MIN_MANIFEST_FORMAT_VERSION = 3"
definition MAX_MANIFEST_FORMAT_VERSION :: u32 where "MAX_MANIFEST_FORMAT_VERSION = 9"
definition IMAGE_DECLARATION_FORMAT_VERSION :: u32 where "IMAGE_DECLARATION_FORMAT_VERSION = 6"
definition SUPPLEMENTARY_GROUPS_FORMAT_VERSION :: u32 where "SUPPLEMENTARY_GROUPS_FORMAT_VERSION = 8"
definition PRIVILEGE_PROFILES_FORMAT_VERSION :: u32 where "PRIVILEGE_PROFILES_FORMAT_VERSION = 9"
definition LEGACY_UNVERSIONED_FOOTER_VERSION :: byte where "LEGACY_UNVERSIONED_FOOTER_VERSION = CHR 0x01"
definition SPEC_DIGEST_SHORT_LEN :: nat where "SPEC_DIGEST_SHORT_LEN = 12"
definition SPEC_DIGEST_HEX_LEN :: nat where "SPEC_DIGEST_HEX_LEN = 64"

datatype disposition = Install | Stage

record payload_artifact =
  pa_component :: bytes
  pa_version :: bytes
  pa_commit :: "bytes option"
  pa_target_arch :: target_arch
  pa_kind :: artifact_kind
  pa_dispositions :: "disposition list"
  pa_archive_path :: bytes
  pa_sha256 :: bytes
  pa_spec :: "module_spec option"
  pa_image :: "image_declaration option"

datatype manifest_error =
    MF_EmptyDispositions bytes
  | MF_DuplicateArchivePath bytes
  | MF_UnsafeArchivePath bytes
  | MF_Decode
  | MF_MissingFormatVersion
  | MF_MalformedFormatVersion
  | MF_UnsupportedManifestFormat u32 u32 u32
  | MF_MissingCommit bytes
  | MF_MissingArchiveMembers
  | MF_InvalidCommit bytes bytes
  | MF_BaselineWithCommit bytes
  | MF_BaselineWithSpec bytes
  | MF_BaselineWithTrustSet
  | MF_BaselineWithArchiveMembers
  | MF_InvalidSpec bytes module_spec_error
  | MF_TrustSetNotBase64
  | MF_EmptyTrustSet
  | MF_BaselineWithImage bytes
  | MF_ImageBeforeDeclarationFormat bytes u32
  | MF_SupplementaryGroupsBeforeFormat bytes u32
  | MF_PrivilegeProfilesBeforeFormat bytes u32
  | MF_ImageOnNonImageArtifact bytes artifact_kind
  | MF_MissingImageDeclaration bytes
  | MF_ImageDecode bytes
  | MF_InvalidImageDeclaration bytes image_declaration_error

record payload_manifest =
  pm_format_version :: "u32 option"
  pm_pinset :: "bytes option"
  pm_release_build :: bool
  pm_trust_set :: "bytes option"
  pm_archive_members :: "archive_member list option"
  pm_artifacts :: "payload_artifact list"

text \<open>What the derived decode of the wire form yields; an image stays an untyped value.\<close>

record raw_artifact =
  ra_component :: bytes
  ra_version :: bytes
  ra_commit :: "bytes option"
  ra_target_arch :: target_arch
  ra_kind :: artifact_kind
  ra_dispositions :: "disposition list"
  ra_archive_path :: bytes
  ra_sha256 :: bytes
  ra_spec :: "module_spec option"
  ra_image :: "json option"

record raw_manifest =
  rm_format_version :: "u32 option"
  rm_pinset :: "bytes option"
  rm_release_build :: bool
  rm_trust_set :: "bytes option"
  rm_archive_members :: "archive_member list option"
  rm_artifacts :: "raw_artifact list"

record manifest_codec =
  mc_parse :: "bytes \<Rightarrow> json option"
  mc_raw :: "json \<Rightarrow> raw_manifest option"
  mc_image :: "json \<Rightarrow> image_declaration option"
  mc_base64 :: "bytes \<Rightarrow> bytes option"

datatype image_source = ImageAbsent | ImageWire json | ImageTyped image_declaration

section \<open>Grammars\<close>

definition is_valid_commit :: "bytes \<Rightarrow> bool" where
  "is_valid_commit value =
     (if length value \<noteq> GIT_COMMIT_HEX_LEN \<and> length value \<noteq> IMAGE_DIGEST_HEX_LEN then False
      else list_all is_lower_hex_byte value)"

definition is_safe_archive_path :: "bytes \<Rightarrow> bool" where
  "is_safe_archive_path path =
     (if list_ex (\<lambda>c. c = ParentDir \<or> c = RootDir) (components path) then False
      else list_all (\<lambda>segment. segment \<noteq> [] \<and> segment \<noteq> ''.'' \<and> segment \<noteq> ''..'') (split (CHR ''/'') path))"

section \<open>The parts of an artifact\<close>

definition raw_into_parts :: "raw_artifact \<Rightarrow> payload_artifact \<times> image_source" where
  "raw_into_parts r =
     (\<lparr>pa_component = ra_component r, pa_version = ra_version r, pa_commit = ra_commit r,
       pa_target_arch = ra_target_arch r, pa_kind = ra_kind r, pa_dispositions = ra_dispositions r,
       pa_archive_path = ra_archive_path r, pa_sha256 = ra_sha256 r, pa_spec = ra_spec r,
       pa_image = None\<rparr>,
      case ra_image r of None \<Rightarrow> ImageAbsent | Some v \<Rightarrow> ImageWire v)"

definition typed_parts :: "payload_artifact list \<Rightarrow> (payload_artifact \<times> image_source) list" where
  "typed_parts artifacts =
     map (\<lambda>a. (a\<lparr>pa_image := None\<rparr>,
       case pa_image a of None \<Rightarrow> ImageAbsent | Some d \<Rightarrow> ImageTyped d)) artifacts"

definition raw_parts :: "raw_artifact list \<Rightarrow> (payload_artifact \<times> image_source) list" where
  "raw_parts artifacts = map raw_into_parts artifacts"

section \<open>Validation\<close>

definition check_spec_format :: "module_spec \<Rightarrow> u32 option \<Rightarrow> bytes \<Rightarrow> manifest_error + unit" where
  "check_spec_format spec format_version archive_path =
     (case (format_version, ms_unit spec) of
        (Some v, Some unit) \<Rightarrow>
          if v < SUPPLEMENTARY_GROUPS_FORMAT_VERSION \<and> ut_supplementary_groups unit \<noteq> [] then
            Inl (MF_SupplementaryGroupsBeforeFormat archive_path v)
          else if v < PRIVILEGE_PROFILES_FORMAT_VERSION \<and> ut_privilege_profiles unit \<noteq> [] then
            Inl (MF_PrivilegeProfilesBeforeFormat archive_path v)
          else Inr ()
      | _ \<Rightarrow> Inr ())"

definition decode_declaration ::
  "manifest_codec \<Rightarrow> bytes \<Rightarrow> json \<Rightarrow> manifest_error + image_declaration" where
  "decode_declaration mc archive_path v =
     (case Option.bind (value_get ''schema'' v) as_u64 of
        Some found \<Rightarrow>
          if found \<noteq> ucast IMAGE_DECLARATION_SCHEMA then
            Inl (MF_InvalidImageDeclaration archive_path (ID_UnsupportedSchema found))
          else ok_or (MF_ImageDecode archive_path) (mc_image mc v)
      | None \<Rightarrow> ok_or (MF_ImageDecode archive_path) (mc_image mc v))"

definition resolve_image ::
  "manifest_codec \<Rightarrow> u32 option \<Rightarrow> payload_artifact \<Rightarrow> image_source \<Rightarrow>
     manifest_error + image_declaration option" where
  "resolve_image mc format_version a source =
     (let present = (source \<noteq> ImageAbsent); path = pa_archive_path a in
      case format_version of
        None \<Rightarrow> if present then Inl (MF_BaselineWithImage path) else Inr None
      | Some v \<Rightarrow>
          if v < IMAGE_DECLARATION_FORMAT_VERSION then
            (if present then Inl (MF_ImageBeforeDeclarationFormat path v) else Inr None)
          else if pa_kind a \<noteq> ContainerImage then
            (if present then Inl (MF_ImageOnNonImageArtifact path (pa_kind a)) else Inr None)
          else
            bind_res
              (case source of
                 ImageAbsent \<Rightarrow> Inl (MF_MissingImageDeclaration path)
               | ImageWire JNull \<Rightarrow> Inl (MF_MissingImageDeclaration path)
               | ImageWire w \<Rightarrow> decode_declaration mc path w
               | ImageTyped d \<Rightarrow> Inr d) (\<lambda>d.
            bind_res (map_err (MF_InvalidImageDeclaration path) (declaration_validate d)) (\<lambda>_.
            Inr (Some d))))"

definition check_commit :: "u32 option \<Rightarrow> payload_artifact \<Rightarrow> manifest_error + unit" where
  "check_commit format_version a =
     (case (pa_commit a, format_version) of
        (Some commit, Some _) \<Rightarrow>
          ensure (is_valid_commit commit) (MF_InvalidCommit (pa_archive_path a) commit)
      | (None, Some _) \<Rightarrow> Inl (MF_MissingCommit (pa_archive_path a))
      | (Some _, None) \<Rightarrow> Inl (MF_BaselineWithCommit (pa_archive_path a))
      | (None, None) \<Rightarrow> Inr ())"

definition check_spec :: "u32 option \<Rightarrow> payload_artifact \<Rightarrow> manifest_error + unit" where
  "check_spec format_version a =
     (case pa_spec a of
        None \<Rightarrow> Inr ()
      | Some spec \<Rightarrow>
          if format_version = None then Inl (MF_BaselineWithSpec (pa_archive_path a))
          else bind_res (map_err (MF_InvalidSpec (pa_archive_path a))
                 (module_spec_validate spec (pa_component a) (pa_kind a))) (\<lambda>_.
               check_spec_format spec format_version (pa_archive_path a)))"

text \<open>The loop over the artifacts, with the archive paths already seen.\<close>

fun validate_artifacts ::
  "manifest_codec \<Rightarrow> u32 option \<Rightarrow> bytes list \<Rightarrow> (payload_artifact \<times> image_source) list \<Rightarrow>
     manifest_error + payload_artifact list" where
  "validate_artifacts mc fv seen [] = Inr []"
| "validate_artifacts mc fv seen ((a, source) # rest) =
     (let path = pa_archive_path a in
      if pa_dispositions a = [] then Inl (MF_EmptyDispositions path)
      else if \<not> is_safe_archive_path path then Inl (MF_UnsafeArchivePath path)
      else if path \<in> set seen then Inl (MF_DuplicateArchivePath path)
      else
        bind_res (check_commit fv a) (\<lambda>_.
        bind_res (check_spec fv a) (\<lambda>_.
        bind_res (resolve_image mc fv a source) (\<lambda>resolved.
        bind_res (validate_artifacts mc fv (path # seen) rest) (\<lambda>validated.
        Inr (a\<lparr>pa_image := resolved\<rparr> # validated))))))"

definition in_window :: "u32 \<Rightarrow> bool" where
  "in_window v \<longleftrightarrow> MIN_MANIFEST_FORMAT_VERSION \<le> v \<and> v \<le> MAX_MANIFEST_FORMAT_VERSION"

definition from_parts ::
  "manifest_codec \<Rightarrow> u32 option \<Rightarrow> bytes option \<Rightarrow> bool \<Rightarrow> archive_member list option \<Rightarrow>
     (payload_artifact \<times> image_source) list \<Rightarrow> bytes option \<Rightarrow> manifest_error + payload_manifest" where
  "from_parts mc format_version pinset release_build archive_members artifacts trust_set =
     bind_res (case format_version of
         None \<Rightarrow> Inr ()
       | Some found \<Rightarrow> ensure (in_window found)
           (MF_UnsupportedManifestFormat found MIN_MANIFEST_FORMAT_VERSION MAX_MANIFEST_FORMAT_VERSION)) (\<lambda>_.
     bind_res (case (archive_members, format_version) of
         (None, Some _) \<Rightarrow> Inl MF_MissingArchiveMembers
       | (Some _, None) \<Rightarrow> Inl MF_BaselineWithArchiveMembers
       | _ \<Rightarrow> Inr ()) (\<lambda>_.
     bind_res (validate_artifacts mc format_version [] artifacts) (\<lambda>validated.
     bind_res (case trust_set of
         None \<Rightarrow> Inr ()
       | Some bs \<Rightarrow> if bs = [] then Inl MF_EmptyTrustSet
                    else if format_version = None then Inl MF_BaselineWithTrustSet else Inr ()) (\<lambda>_.
     Inr \<lparr>pm_format_version = format_version, pm_pinset = pinset, pm_release_build = release_build,
          pm_trust_set = trust_set, pm_archive_members = archive_members, pm_artifacts = validated\<rparr>))))"

section \<open>Constructors\<close>

definition manifest_new ::
  "manifest_codec \<Rightarrow> bytes option \<Rightarrow> archive_member list \<Rightarrow> payload_artifact list \<Rightarrow>
     manifest_error + payload_manifest" where
  "manifest_new mc pinset archive_members artifacts =
     from_parts mc (Some MANIFEST_FORMAT_VERSION) pinset False (Some archive_members)
       (typed_parts artifacts) None"

definition with_trust_set ::
  "manifest_codec \<Rightarrow> payload_manifest \<Rightarrow> bytes \<Rightarrow> manifest_error + payload_manifest" where
  "with_trust_set mc m generation =
     from_parts mc (pm_format_version m) (pm_pinset m) (pm_release_build m) (pm_archive_members m)
       (typed_parts (pm_artifacts m)) (Some generation)"

definition with_release_build :: "payload_manifest \<Rightarrow> payload_manifest" where
  "with_release_build m = m\<lparr>pm_release_build := True\<rparr>"

definition trust_set_decode ::
  "manifest_codec \<Rightarrow> bytes option \<Rightarrow> manifest_error + bytes option" where
  "trust_set_decode mc v =
     (case v of
        None \<Rightarrow> Inr None
      | Some encoded \<Rightarrow>
          bind_res (ok_or MF_TrustSetNotBase64 (mc_base64 mc encoded)) (\<lambda>bs. Inr (Some bs)))"

text \<open>\<open>TryFrom<RawManifest>\<close>, the decode of a manifest outside a container.\<close>

definition manifest_try_from ::
  "manifest_codec \<Rightarrow> raw_manifest \<Rightarrow> manifest_error + payload_manifest" where
  "manifest_try_from mc raw =
     bind_res (ok_or MF_MissingFormatVersion (rm_format_version raw)) (\<lambda>format_version.
     bind_res (trust_set_decode mc (rm_trust_set raw)) (\<lambda>trust_set.
     from_parts mc (Some format_version) (rm_pinset raw) (rm_release_build raw)
       (rm_archive_members raw) (raw_parts (rm_artifacts raw)) trust_set))"

section \<open>Parsing\<close>

definition read_format_version :: "json \<Rightarrow> manifest_error + u32 option" where
  "read_format_version document =
     (case value_get ''format_version'' document of
        None \<Rightarrow> Inr None
      | Some JNull \<Rightarrow> Inr None
      | Some v \<Rightarrow> ok_or MF_MalformedFormatVersion (map_option Some (as_u32 v)))"

definition parse_format_version :: "manifest_codec \<Rightarrow> bytes \<Rightarrow> manifest_error + u32 option" where
  "parse_format_version mc bs = bind_res (ok_or MF_Decode (mc_parse mc bs)) read_format_version"

fun artifact_key_from :: "nat \<Rightarrow> bytes \<Rightarrow> json list \<Rightarrow> bytes option" where
  "artifact_key_from i key [] = None"
| "artifact_key_from i key (a # rest) =
     (case value_get key a of
        None \<Rightarrow> artifact_key_from (Suc i) key rest
      | Some _ \<Rightarrow> Some (case Option.bind (value_get ''archive_path'' a) as_str of
            None \<Rightarrow> CHR ''#'' # dec i | Some p \<Rightarrow> p))"

definition artifact_with_key :: "json \<Rightarrow> bytes \<Rightarrow> bytes option" where
  "artifact_with_key document key =
     (case Option.bind (value_get ''artifacts'' document) as_array of
        None \<Rightarrow> None | Some artifacts \<Rightarrow> artifact_key_from 0 key artifacts)"

definition has_trust_set :: "json \<Rightarrow> bool" where
  "has_trust_set document \<longleftrightarrow> value_get ''trust_set'' document \<noteq> None"

definition has_archive_members :: "json \<Rightarrow> bool" where
  "has_archive_members document \<longleftrightarrow> value_get ''archive_members'' document \<noteq> None"

definition is_pre_versioned_baseline :: "byte \<Rightarrow> json \<Rightarrow> bool" where
  "is_pre_versioned_baseline footer_version document \<longleftrightarrow>
     value_get ''format_version'' document \<in> {None, Some JNull} \<and>
     footer_version = LEGACY_UNVERSIONED_FOOTER_VERSION \<and>
     artifact_with_key document ''commit'' = None \<and>
     \<not> has_trust_set document \<and>
     artifact_with_key document ''spec'' = None \<and>
     \<not> has_archive_members document"

definition non_baseline_reason :: "json \<Rightarrow> manifest_error" where
  "non_baseline_reason document =
     (case artifact_with_key document ''commit'' of
        Some path \<Rightarrow> MF_BaselineWithCommit path
      | None \<Rightarrow>
          if has_trust_set document then MF_BaselineWithTrustSet
          else case artifact_with_key document ''spec'' of
            Some path \<Rightarrow> MF_BaselineWithSpec path
          | None \<Rightarrow>
              if has_archive_members document then MF_BaselineWithArchiveMembers
              else MF_MissingFormatVersion)"

definition manifest_parse ::
  "manifest_codec \<Rightarrow> bytes \<Rightarrow> byte \<Rightarrow> manifest_error + payload_manifest" where
  "manifest_parse mc manifest_bytes footer_version =
     bind_res (ok_or MF_Decode (mc_parse mc manifest_bytes)) (\<lambda>document.
     bind_res (read_format_version document) (\<lambda>format_version.
     bind_res (case format_version of
         Some found \<Rightarrow> ensure (in_window found)
           (MF_UnsupportedManifestFormat found MIN_MANIFEST_FORMAT_VERSION MAX_MANIFEST_FORMAT_VERSION)
       | None \<Rightarrow> ensure (is_pre_versioned_baseline footer_version document)
           (non_baseline_reason document)) (\<lambda>_.
     bind_res (ok_or MF_Decode (mc_raw mc document)) (\<lambda>raw.
     bind_res (trust_set_decode mc (rm_trust_set raw)) (\<lambda>trust_set.
     from_parts mc format_version (rm_pinset raw) (rm_release_build raw) (rm_archive_members raw)
       (raw_parts (rm_artifacts raw)) trust_set)))))"

section \<open>The spec digest\<close>

datatype spec_digest_parse_error =
    SD_Length nat
  | SD_InvalidCharacter nat nat

definition is_hex_scalar :: "nat \<Rightarrow> bool" where
  "is_hex_scalar c \<longleftrightarrow> (48 \<le> c \<and> c \<le> 57) \<or> (97 \<le> c \<and> c \<le> 102)"

fun first_non_hex :: "nat \<Rightarrow> nat list \<Rightarrow> (nat \<times> nat) option" where
  "first_non_hex i [] = None"
| "first_non_hex i (c # cs) = (if is_hex_scalar c then first_non_hex (Suc i) cs else Some (i, c))"

definition lower_hex_nibble :: "byte \<Rightarrow> nat" where
  "lower_hex_nibble d =
     (if 48 \<le> ord d \<and> ord d \<le> 57 then ord d - 48 else ord d - 97 + 10)"

fun lower_hex_pairs :: "bytes \<Rightarrow> bytes" where
  "lower_hex_pairs (h # l # rest) =
     char_of (Bit_Operations.or (push_bit 4 (lower_hex_nibble h)) (lower_hex_nibble l)) # lower_hex_pairs rest"
| "lower_hex_pairs _ = []"

definition spec_digest_from_hex :: "bytes \<Rightarrow> spec_digest_parse_error + bytes" where
  "spec_digest_from_hex v =
     (let cs = utf8_chars v in
      if length cs \<noteq> SPEC_DIGEST_HEX_LEN then Inl (SD_Length (length cs))
      else case first_non_hex 0 cs of
        Some (position, character) \<Rightarrow> Inl (SD_InvalidCharacter position character)
      | None \<Rightarrow> Inr (lower_hex_pairs v))"

definition spec_digest_short_hex :: "bytes \<Rightarrow> bytes" where
  "spec_digest_short_hex digest = take SPEC_DIGEST_SHORT_LEN (to_hex digest)"

end
