(* ===== verification/Manifest_Correct.thy ===== *)
theory Manifest_Correct
  imports Manifest
begin

text \<open>
  What \<open>src/manifest.rs\<close> guarantees of every manifest it hands out, whichever constructor built it:
  one well-formedness invariant, which format versions and which baseline are accepted, that
  validation is stable, and the safety of archive paths.
\<close>

section \<open>Archive paths\<close>

lemma starts_with_slash: "starts_with ''/'' p \<longleftrightarrow> (\<exists>r. p = CHR ''/'' # r)"
  by (auto simp: starts_with_def strip_prefix_Some)

lemma components_plain_segments:
  assumes "\<forall>s \<in> set (split (CHR ''/'') p). plain_name s"
  shows "components p = map Normal (split (CHR ''/'') p)"
proof -
  have "\<not> starts_with ''/'' p"
  proof
    assume "starts_with ''/'' p"
    then obtain r where "p = CHR ''/'' # r" by (auto simp: starts_with_slash)
    then have "[] \<in> set (split (CHR ''/'') p)" by simp
    with assms show False by (auto simp: plain_name_def)
  qed
  moreover have "filter (\<lambda>q. q \<noteq> [] \<and> q \<noteq> ''.'') (split (CHR ''/'') p) = split (CHR ''/'') p"
    using assms by (auto simp: filter_id_conv plain_name_def)
  moreover have "map component_of (split (CHR ''/'') p) = map Normal (split (CHR ''/'') p)"
    using assms by (auto simp: component_of_def plain_name_def)
  moreover have "hd (split (CHR ''/'') p) \<noteq> ''.''"
    using assms hd_in_set [OF split_nonempty [of "CHR ''/''" p]] by (auto simp: plain_name_def)
  ultimately show ?thesis by (simp add: components_def Let_def)
qed

lemma safe_archive_path_segments:
  "is_safe_archive_path p \<longleftrightarrow> (\<forall>s \<in> set (split (CHR ''/'') p). plain_name s)"
proof
  assume "is_safe_archive_path p"
  then show "\<forall>s \<in> set (split (CHR ''/'') p). plain_name s"
    using split_pieces by (auto simp: is_safe_archive_path_def plain_name_def list_all_iff split: if_splits)
next
  assume *: "\<forall>s \<in> set (split (CHR ''/'') p). plain_name s"
  with components_plain_segments [OF *] show "is_safe_archive_path p"
    by (auto simp: is_safe_archive_path_def plain_name_def list_all_iff list_ex_iff)
qed

text \<open>
  A safe archive path stays where it is joined: it is accepted exactly when it is a sequence of
  plain names, and then the platform reads it as those names and nothing else, with no root, parent,
  current-directory or empty component, and no two spellings of one path.
\<close>

theorem safe_archive_path_components:
  "is_safe_archive_path p \<longleftrightarrow>
     (\<exists>names. names \<noteq> [] \<and> list_all plain_name names \<and> p = join (CHR ''/'') names \<and>
        components p = map Normal names)"
proof
  assume "is_safe_archive_path p"
  then have *: "\<forall>s \<in> set (split (CHR ''/'') p). plain_name s" by (simp add: safe_archive_path_segments)
  then show "\<exists>names. names \<noteq> [] \<and> list_all plain_name names \<and> p = join (CHR ''/'') names \<and>
        components p = map Normal names"
    using components_plain_segments [OF *]
    by (intro exI [of _ "split (CHR ''/'') p"]) (simp add: list_all_iff)
next
  assume "\<exists>names. names \<noteq> [] \<and> list_all plain_name names \<and> p = join (CHR ''/'') names \<and>
        components p = map Normal names"
  then obtain names where n: "names \<noteq> []" "list_all plain_name names" "p = join (CHR ''/'') names" by blast
  then have "split (CHR ''/'') p = names"
    by (auto simp: list_all_iff plain_name_def intro!: split_join)
  with n show "is_safe_archive_path p" by (simp add: safe_archive_path_segments list_all_iff)
qed

section \<open>The invariant\<close>

definition artifact_ok :: "u32 option \<Rightarrow> payload_artifact \<Rightarrow> bool" where
  "artifact_ok fv a \<longleftrightarrow>
     pa_dispositions a \<noteq> [] \<and> is_safe_archive_path (pa_archive_path a) \<and>
     (case fv of
        None \<Rightarrow> pa_commit a = None \<and> pa_spec a = None \<and> pa_image a = None
      | Some v \<Rightarrow>
          (\<exists>c. pa_commit a = Some c \<and> is_valid_commit c) \<and>
          (\<forall>s. pa_spec a = Some s \<longrightarrow> module_spec_validate s (pa_component a) (pa_kind a) = Inr () \<and>
             check_spec_format s fv (pa_archive_path a) = Inr ()) \<and>
          (pa_image a = None \<longleftrightarrow> v < IMAGE_DECLARATION_FORMAT_VERSION \<or> pa_kind a \<noteq> ContainerImage) \<and>
          (\<forall>d. pa_image a = Some d \<longrightarrow> declaration_validate d = Inr ()))"

definition manifest_ok :: "payload_manifest \<Rightarrow> bool" where
  "manifest_ok m \<longleftrightarrow>
     (\<forall>v. pm_format_version m = Some v \<longrightarrow> 3 \<le> v \<and> v \<le> 9) \<and>
     (pm_format_version m = None \<longleftrightarrow> pm_archive_members m = None) \<and>
     (\<forall>a \<in> set (pm_artifacts m). artifact_ok (pm_format_version m) a) \<and>
     distinct (map pa_archive_path (pm_artifacts m)) \<and>
     pm_trust_set m \<noteq> Some [] \<and> (pm_format_version m = None \<longrightarrow> pm_trust_set m = None)"

lemma check_commit_Inr:
  "check_commit fv a = Inr () \<longleftrightarrow>
     (case fv of None \<Rightarrow> pa_commit a = None | Some v \<Rightarrow> \<exists>c. pa_commit a = Some c \<and> is_valid_commit c)"
  by (auto simp: check_commit_def split: option.splits)

lemma check_spec_Inr:
  "check_spec fv a = Inr () \<longleftrightarrow>
     (case fv of None \<Rightarrow> pa_spec a = None
      | Some v \<Rightarrow> \<forall>s. pa_spec a = Some s \<longrightarrow> module_spec_validate s (pa_component a) (pa_kind a) = Inr () \<and>
             check_spec_format s fv (pa_archive_path a) = Inr ())"
  by (auto simp: check_spec_def split: option.splits)

lemma resolve_image_Inr:
  assumes "resolve_image mc fv a source = Inr r"
  shows "case fv of None \<Rightarrow> r = None
    | Some v \<Rightarrow> (r = None \<longleftrightarrow> v < IMAGE_DECLARATION_FORMAT_VERSION \<or> pa_kind a \<noteq> ContainerImage) \<and>
        (\<forall>d. r = Some d \<longrightarrow> declaration_validate d = Inr ())"
  using assms
  by (auto simp: resolve_image_def Let_def split: option.splits if_splits)

lemma resolve_image_typed:
  assumes "case fv of None \<Rightarrow> i = None
    | Some v \<Rightarrow> (i = None \<longleftrightarrow> v < IMAGE_DECLARATION_FORMAT_VERSION \<or> pa_kind a \<noteq> ContainerImage) \<and>
        (\<forall>d. i = Some d \<longrightarrow> declaration_validate d = Inr ())"
  shows "resolve_image mc fv a (case i of None \<Rightarrow> ImageAbsent | Some d \<Rightarrow> ImageTyped d) = Inr i"
  using assms
  by (cases fv; cases i) (auto simp: resolve_image_def Let_def)

lemma check_commit_image [simp]: "check_commit fv (a\<lparr>pa_image := i\<rparr>) = check_commit fv a"
  by (simp add: check_commit_def split: option.split)

lemma check_spec_image [simp]: "check_spec fv (a\<lparr>pa_image := i\<rparr>) = check_spec fv a"
  by (auto simp: check_spec_def split: option.split)

lemma resolve_image_image [simp]: "resolve_image mc fv (a\<lparr>pa_image := i\<rparr>) source = resolve_image mc fv a source"
  by (cases fv) (simp_all add: resolve_image_def Let_def cong: if_cong)

lemma artifact_ok_iff:
  "artifact_ok fv a \<longleftrightarrow> pa_dispositions a \<noteq> [] \<and> is_safe_archive_path (pa_archive_path a) \<and>
     check_commit fv a = Inr () \<and> check_spec fv a = Inr () \<and>
     (case fv of None \<Rightarrow> pa_image a = None
      | Some v \<Rightarrow> (pa_image a = None \<longleftrightarrow> v < IMAGE_DECLARATION_FORMAT_VERSION \<or> pa_kind a \<noteq> ContainerImage) \<and>
          (\<forall>d. pa_image a = Some d \<longrightarrow> declaration_validate d = Inr ()))"
  by (auto simp: artifact_ok_def check_commit_Inr check_spec_Inr split: option.splits)

lemma validate_artifacts_Inr:
  assumes "validate_artifacts mc fv seen parts = Inr as"
  shows "(\<forall>a \<in> set as. artifact_ok fv a) \<and>
    distinct (map pa_archive_path as) \<and> set (map pa_archive_path as) \<inter> set seen = {}"
  using assms
proof (induction parts arbitrary: seen as)
  case Nil
  then show ?case by simp
next
  case (Cons part parts)
  obtain a source where part: "part = (a, source)" by force
  with Cons.prems obtain r rest where *: "pa_dispositions a \<noteq> []" "is_safe_archive_path (pa_archive_path a)"
    "pa_archive_path a \<notin> set seen" "check_commit fv a = Inr ()" "check_spec fv a = Inr ()"
    "resolve_image mc fv a source = Inr r"
    "validate_artifacts mc fv (pa_archive_path a # seen) parts = Inr rest"
    "as = a\<lparr>pa_image := r\<rparr> # rest"
    by (auto simp: Let_def split: if_splits)
  have "artifact_ok fv (a\<lparr>pa_image := r\<rparr>)"
    using * resolve_image_Inr [OF *(6)] unfolding artifact_ok_iff by (simp split: option.splits)
  with Cons.IH [OF *(7)] * part show ?case by auto
qed

lemma validate_typed_parts:
  assumes "\<forall>a \<in> set as. artifact_ok fv a" "distinct (map pa_archive_path as)"
    "set (map pa_archive_path as) \<inter> set seen = {}"
  shows "validate_artifacts mc fv seen (typed_parts as) = Inr as"
  using assms
proof (induction as arbitrary: seen)
  case Nil
  then show ?case by (simp add: typed_parts_def)
next
  case (Cons a as)
  have ok: "artifact_ok fv a" using Cons.prems by simp
  have img: "resolve_image mc fv a (case pa_image a of None \<Rightarrow> ImageAbsent | Some d \<Rightarrow> ImageTyped d) = Inr (pa_image a)"
    by (rule resolve_image_typed) (use ok in \<open>simp add: artifact_ok_iff\<close>)
  have "validate_artifacts mc fv (pa_archive_path a # seen) (typed_parts as) = Inr as"
    by (rule Cons.IH) (use Cons.prems in auto)
  with ok img Cons.prems show ?case
    by (simp add: typed_parts_def artifact_ok_iff)
qed

lemma in_window_iff: "in_window v \<longleftrightarrow> 3 \<le> v \<and> v \<le> 9"
  by (simp add: in_window_def MIN_MANIFEST_FORMAT_VERSION_def MAX_MANIFEST_FORMAT_VERSION_def)

lemma from_parts_ok:
  assumes "from_parts mc fv pinset rb members parts ts = Inr m"
  shows "manifest_ok m" "pm_format_version m = fv" "pm_pinset m = pinset" "pm_release_build m = rb"
    "pm_archive_members m = members" "pm_trust_set m = ts"
proof -
  from assms obtain as where as: "validate_artifacts mc fv [] parts = Inr as"
    and m: "m = \<lparr>pm_format_version = fv, pm_pinset = pinset, pm_release_build = rb,
          pm_trust_set = ts, pm_archive_members = members, pm_artifacts = as\<rparr>"
    by (auto simp: from_parts_def)
  from validate_artifacts_Inr [OF as] m assms show "manifest_ok m"
    by (auto simp: manifest_ok_def from_parts_def in_window_iff split: option.splits if_splits)
  from validate_artifacts_Inr [OF as] m show "pm_format_version m = fv" "pm_pinset m = pinset" "pm_release_build m = rb"
    "pm_archive_members m = members" "pm_trust_set m = ts" by simp_all
qed

lemma validate_manifest_parts:
  "manifest_ok m \<Longrightarrow>
     validate_artifacts mc (pm_format_version m) [] (typed_parts (pm_artifacts m)) = Inr (pm_artifacts m)"
  by (rule validate_typed_parts) (auto simp: manifest_ok_def)

lemma from_parts_typed:
  assumes "manifest_ok m"
  shows "from_parts mc (pm_format_version m) (pm_pinset m) (pm_release_build m) (pm_archive_members m)
     (typed_parts (pm_artifacts m)) (pm_trust_set m) = Inr m"
proof -
  have "validate_artifacts mc (pm_format_version m) [] (typed_parts (pm_artifacts m)) = Inr (pm_artifacts m)"
    by (rule validate_typed_parts) (use assms in \<open>auto simp: manifest_ok_def\<close>)
  with assms show ?thesis
    by (auto simp: from_parts_def manifest_ok_def in_window_iff split: option.splits)
qed

section \<open>Parsing\<close>

lemma manifest_parse_invariant:
  assumes "manifest_parse mc bs footer_version = Inr m"
  shows "manifest_ok m \<and> parse_format_version mc bs = Inr (pm_format_version m) \<and>
    (pm_format_version m = None \<longrightarrow> footer_version = LEGACY_UNVERSIONED_FOOTER_VERSION)"
proof -
  from assms obtain document fv u raw ts where p: "mc_parse mc bs = Some document"
    "read_format_version document = Inr fv"
    and gate: "(case fv of
         Some found \<Rightarrow> ensure (in_window found)
           (MF_UnsupportedManifestFormat found MIN_MANIFEST_FORMAT_VERSION MAX_MANIFEST_FORMAT_VERSION)
       | None \<Rightarrow> ensure (is_pre_versioned_baseline footer_version document)
           (non_baseline_reason document)) = Inr u"
    and "mc_raw mc document = Some raw" "trust_set_decode mc (rm_trust_set raw) = Inr ts"
    and parts: "from_parts mc fv (rm_pinset raw) (rm_release_build raw) (rm_archive_members raw)
       (raw_parts (rm_artifacts raw)) ts = Inr m"
    unfolding manifest_parse_def bind_res_Inr ok_or_Inr by (elim exE conjE) (rule that)
  from gate have "fv = None \<longrightarrow> is_pre_versioned_baseline footer_version document" by auto
  with from_parts_ok [OF parts] p show ?thesis
    by (auto simp: parse_format_version_def is_pre_versioned_baseline_def)
qed

text \<open>
  C7: every manifest that parses satisfies the invariant. A versioned one has a version from 3 to 9,
  binds its members, and each artifact has a disposition, a safe archive path no other artifact has,
  a well-formed commit, a valid specification its format can carry, and a valid image declaration
  exactly when it is a container image of format 6 or later. One without a version comes from a
  version 1 container and carries none of a commit, a specification, an image, members or a trust
  set.
\<close>

theorem parsed_manifest_ok:
  assumes "manifest_parse mc bs footer_version = Inr m"
  shows "manifest_ok m \<and> parse_format_version mc bs = Inr (pm_format_version m) \<and>
    (pm_format_version m = None \<longrightarrow> footer_version = LEGACY_UNVERSIONED_FOOTER_VERSION)"
  using assms by (rule manifest_parse_invariant)

text \<open>
  Validation is stable: taking a valid manifest apart and building it again gives the same
  manifest, whatever the decoders; adding a trust set changes that field alone and fails exactly when
  the bytes are empty or the manifest is the unversioned baseline.
\<close>

theorem manifest_rebuild:
  assumes "manifest_ok m"
  shows "from_parts mc (pm_format_version m) (pm_pinset m) (pm_release_build m) (pm_archive_members m)
     (typed_parts (pm_artifacts m)) (pm_trust_set m) = Inr m \<and>
    with_trust_set mc m generation =
      (if generation = [] then Inl MF_EmptyTrustSet
       else if pm_format_version m = None then Inl MF_BaselineWithTrustSet
       else Inr (m\<lparr>pm_trust_set := Some generation\<rparr>))"
proof
  show r: "from_parts mc (pm_format_version m) (pm_pinset m) (pm_release_build m) (pm_archive_members m)
     (typed_parts (pm_artifacts m)) (pm_trust_set m) = Inr m"
    by (rule from_parts_typed [OF assms])
  then show "with_trust_set mc m generation =
      (if generation = [] then Inl MF_EmptyTrustSet
       else if pm_format_version m = None then Inl MF_BaselineWithTrustSet
       else Inr (m\<lparr>pm_trust_set := Some generation\<rparr>))"
    using validate_manifest_parts [OF assms, of mc] assms
    by (cases "pm_format_version m") (auto simp: from_parts_def with_trust_set_def manifest_ok_def in_window_iff)
qed

definition sample_artifact :: payload_artifact where
  "sample_artifact =
     \<lparr>pa_component = ''sensor'', pa_version = ''1.2.0'', pa_commit = Some (replicate 40 (CHR ''a'')),
      pa_target_arch = X86_64, pa_kind = StaticAssets, pa_dispositions = [Install],
      pa_archive_path = ''assets/web.tar'', pa_sha256 = [], pa_spec = None, pa_image = None\<rparr>"

definition sample_manifest :: payload_manifest where
  "sample_manifest =
     \<lparr>pm_format_version = Some 9, pm_pinset = None, pm_release_build = False, pm_trust_set = None,
      pm_archive_members = Some [\<lparr>am_name = ''assets/web.tar'', am_length = 3\<rparr>],
      pm_artifacts = [sample_artifact]\<rparr>"

lemma sample_artifact_parts: "is_safe_archive_path ''assets/web.tar''" "is_valid_commit (replicate 40 (CHR ''a''))"
  by (simp add: safe_archive_path_segments plain_name_def)
    (simp add: is_valid_commit_def GIT_COMMIT_HEX_LEN_def list_all_iff is_lower_hex_byte_def)

lemma sample_manifest_ok: "manifest_ok sample_manifest"
  using sample_artifact_parts
  by (simp add: manifest_ok_def sample_manifest_def sample_artifact_def artifact_ok_def
      IMAGE_DECLARATION_FORMAT_VERSION_def)

definition sample_raw :: raw_manifest where
  "sample_raw =
     \<lparr>rm_format_version = Some 9, rm_pinset = None, rm_release_build = False, rm_trust_set = None,
      rm_archive_members = Some [\<lparr>am_name = ''assets/web.tar'', am_length = 3\<rparr>],
      rm_artifacts =
        [\<lparr>ra_component = ''sensor'', ra_version = ''1.2.0'', ra_commit = Some (replicate 40 (CHR ''a'')),
          ra_target_arch = X86_64, ra_kind = StaticAssets, ra_dispositions = [Install],
          ra_archive_path = ''assets/web.tar'', ra_sha256 = [], ra_spec = None, ra_image = None\<rparr>]\<rparr>"

definition sample_codec :: manifest_codec where
  "sample_codec =
     \<lparr>mc_parse = \<lambda>_. Some (JObj [(''format_version'', JNum (JPos 9))]),
      mc_raw = \<lambda>_. Some sample_raw, mc_image = \<lambda>_. None, mc_base64 = Some\<rparr>"

lemma sample_parse: "manifest_parse sample_codec bs footer_version = Inr sample_manifest"
proof -
  have raw: "raw_parts (rm_artifacts sample_raw) = [(sample_artifact, ImageAbsent)]"
    by (simp add: raw_parts_def raw_into_parts_def sample_raw_def sample_artifact_def)
  have "check_commit (Some 9) sample_artifact = Inr ()" "check_spec (Some 9) sample_artifact = Inr ()"
    using sample_artifact_parts by (simp_all add: check_commit_Inr check_spec_Inr sample_artifact_def)
  moreover have "resolve_image sample_codec (Some 9) sample_artifact ImageAbsent = Inr None"
    by (simp add: resolve_image_def sample_artifact_def IMAGE_DECLARATION_FORMAT_VERSION_def)
  moreover have "sample_artifact\<lparr>pa_image := None\<rparr> = sample_artifact" by (simp add: sample_artifact_def)
  ultimately have "validate_artifacts sample_codec (Some 9) [] [(sample_artifact, ImageAbsent)] = Inr [sample_artifact]"
    using sample_artifact_parts by simp (simp add: sample_artifact_def)
  moreover have "as_u32 (JNum (JPos 9)) = Some 9" by (simp add: as_u32_def u32_try_from_Some)
  ultimately show ?thesis
    by (simp add: manifest_parse_def sample_codec_def read_format_version_def obj_get_def in_window_iff
        trust_set_decode_def from_parts_def raw)
      (simp add: sample_raw_def sample_manifest_def)
qed

theorem parsed_manifest_ok_witness: "manifest_ok sample_manifest \<and> pm_format_version sample_manifest = Some 9"
  using parsed_manifest_ok [OF sample_parse [of "[]" "CHR 0x03"]] by (simp add: sample_manifest_def)

theorem manifest_rebuild_witness:
  "with_trust_set sample_codec sample_manifest ''x'' = Inr (sample_manifest\<lparr>pm_trust_set := Some ''x''\<rparr>)"
  using manifest_rebuild [OF sample_manifest_ok, of sample_codec "''x''"] by (simp add: sample_manifest_def)

end
