(* ===== verification/Archive_Errors.thy ===== *)
theory Archive_Errors
  imports Image
begin

text \<open>
  The refusals an image archive can meet, as \<open>src/verify/image_archive.rs\<close> declares them, and the
  image half of the verifier's error type in \<open>src/verify.rs\<close>. Their \<open>Display\<close> texts are not modelled.
\<close>

datatype tar_feature = TF_Format | TF_EntryType byte | TF_PaxKey

datatype tar_header_field =
    THF_Name | THF_Mode | THF_Uid | THF_Gid | THF_Size | THF_Mtime | THF_Checksum | THF_Linkname
  | THF_DevMajor | THF_DevMinor | THF_Prefix

datatype pax_key =
    PK_Path | PK_Linkpath | PK_Size | PK_Uid | PK_Gid | PK_Uname | PK_Gname | PK_Mtime | PK_Atime
  | PK_Ctime | PK_Xattr

datatype tar_fault =
    TFL_Truncated
  | TFL_Checksum
  | TFL_NumericField tar_header_field
  | TFL_NameField tar_header_field
  | TFL_OffsetOverflow
  | TFL_TrailingData
  | TFL_ZeroTailTooLong
  | TFL_UnsafePath
  | TFL_DuplicatePath
  | TFL_PathConflict
  | TFL_NonRegularWithData
  | TFL_PaxRecord
  | TFL_PaxDuplicateKey
  | TFL_PaxValue pax_key
  | TFL_ExtensionPayload
  | TFL_DuplicateExtension
  | TFL_ConflictingAuthority
  | TFL_DanglingExtension
  | TFL_LinkOnNonLink

datatype gzip_header_fault = GH_Magic | GH_Method | GH_ReservedFlags | GH_HeaderCrc

datatype gzip_fault =
    GF_Header gzip_header_fault
  | GF_Deflate
  | GF_Crc32
  | GF_Isize
  | GF_Truncated
  | GF_TrailingData

datatype json_fault = JF_Syntax | JF_DuplicateKey
datatype layout_file = LF_OciLayout | LF_Index | LF_CompatibilityManifest
datatype image_document = IDoc_OciLayout | IDoc_Index | IDoc_CompatibilityManifest | IDoc_ImageManifest | IDoc_Config
datatype extension_field = EF_Subject | EF_ArtifactType | EF_Urls | EF_Data
datatype blob_role = BR_Manifest | BR_Config | BR_Layer nat
datatype blob_mismatch_kind = BM_Length | BM_Digest
datatype config_field = CF_Architecture | CF_Os | CF_Variant | CF_Rootfs | CF_History
datatype reference_source = RS_RepoTags | RS_IndexAnnotation
datatype platform_location = PL_Config | PL_IndexDescriptor nat | PL_ConfigDescriptor
datatype platform_facet = PF_Os | PF_Architecture | PF_Variant
datatype layer_mismatch_kind = LM_CountMismatch | LM_StoredDigest | LM_DiffId

datatype invalid_config_reason =
    IC_NotObject
  | IC_MissingField config_field
  | IC_FieldType config_field
  | IC_EmptyVariant
  | IC_RootfsShape
  | IC_DiffIdSyntax nat
  | IC_HistoryEntryShape nat
  | IC_HistoryLayerCount

datatype unsupported_archive_feature =
    UF_CompressedOuterStream
  | UF_ArchiveTar tar_feature
  | UF_LegacyExportFile
  | UF_ExtraFile
  | UF_NestedIndex
  | UF_Attestation
  | UF_MultipleImages
  | UF_ManifestMediaType
  | UF_ConfigMediaType
  | UF_LayerMediaType nat
  | UF_ExtensionField image_document extension_field
  | UF_DescriptorAnnotation
  | UF_ManifestAnnotation
  | UF_UnreferencedBlob
  | UF_ConcatenatedGzipMember nat
  | UF_LayerTar nat tar_feature
  | UF_NonCanonicalManifest

datatype invalid_archive_reason =
    IA_Tar tar_fault
  | IA_MissingLayoutFile layout_file
  | IA_Json image_document json_fault
  | IA_UnexpectedShape image_document
  | IA_EmptyPlatformVariant platform_location
  | IA_MissingBlob blob_role
  | IA_BlobMismatch blob_role blob_mismatch_kind
  | IA_InconsistentCompatibility
  | IA_InvalidRepoTag nat
  | IA_DuplicateTag reference_source
  | IA_InvalidAnnotation nat
  | IA_InvalidConfig invalid_config_reason
  | IA_Gzip nat gzip_fault
  | IA_LayerTar nat tar_fault
  | IA_InconsistentLayerSources

datatype reference_conflict = RC_ConfigDigest | RC_Platform | RC_Owner | RC_Lifecycle

datatype image_verify_error =
    IV_PlatformMismatch bytes target_arch image_architecture
  | IV_NonCanonicalReservedReference bytes bytes "bytes option"
  | IV_ReservedReferenceLifecycle bytes bytes
  | IV_ConflictingReference bytes bytes bytes bytes reference_conflict
  | IV_MissingNamespace bytes
  | IV_NamespaceMismatch bytes bytes bytes
  | IV_OwnerComponentMismatch bytes bytes bytes
  | IV_LegacyImageEvidence bytes
  | IV_UnsupportedArchive bytes unsupported_archive_feature
  | IV_InvalidArchive bytes invalid_archive_reason
  | IV_UndeclaredReference bytes bytes reference_source
  | IV_MissingReference bytes bytes reference_source
  | IV_ConfigDigestMismatch bytes bytes bytes
  | IV_ConfigPlatformMismatch bytes platform_location platform_facet "bytes option" "bytes option"
  | IV_LayerMismatch bytes "nat option" layer_mismatch_kind "bytes option" "bytes option"

end
