(* ===== verification/Verify.thy ===== *)
theory Verify
  imports Manifest Archive_Errors "HOL-Library.List_Lexorder"
begin

text \<open>
  The package verifier of \<open>src/verify.rs\<close>: who signed the manifest (\<open>verify_signature\<close>), the format
  gate and parse of the authenticated bytes (\<open>authenticate_manifest\<close>), and the statements the manifest
  makes about the build (\<open>check_statements\<close>), in the order the code runs them. A package is the byte
  string of its source.
\<close>

section \<open>Errors\<close>

type_synonym container_error = "manifest_error payload_error"

datatype verify_error =
    VE_BadSignature signature_algorithm
  | VE_UnknownKeyId signature_algorithm bytes
  | VE_RevokedKey signature_algorithm bytes
  | VE_UnsupportedManifestFormat u32 u32 u32
  | VE_UnlistedMember bytes
  | VE_DuplicatePath bytes
  | VE_UnsafePath bytes
  | VE_MissingRequiredMember "bytes option"
  | VE_ManifestHashMismatch bytes
  | VE_UnsafeBuildIdentifier build_identifier bytes
  | VE_TargetMismatch bytes bytes bytes
  | VE_WithdrawnBuild bytes bytes bytes
  | VE_StaleTrustSet u64 u64
  | VE_Payload container_error
  | VE_Image image_verify_error

fun from_payload_error :: "container_error \<Rightarrow> verify_error" where
  "from_payload_error (PE_HashMismatch path) = VE_ManifestHashMismatch path"
| "from_payload_error e = VE_Payload e"

fun map_manifest_error :: "manifest_error \<Rightarrow> verify_error" where
  "map_manifest_error (MF_DuplicateArchivePath path) = VE_DuplicatePath path"
| "map_manifest_error (MF_UnsafeArchivePath path) = VE_UnsafePath path"
| "map_manifest_error (MF_UnsupportedManifestFormat found lo hi) = VE_UnsupportedManifestFormat found lo hi"
| "map_manifest_error MF_Decode = VE_Payload PE_ManifestParse"
| "map_manifest_error e = VE_Payload (PE_InvalidManifest e)"

section \<open>Signatures\<close>

text \<open>A key id block of any form is at most a hint; only lowercase hexadecimal text can name an anchor.\<close>

fun usable_hint :: "envelope_block \<Rightarrow> bytes option" where
  "usable_hint (Present bs) = (if list_all is_lower_hex_byte bs then Some bs else None)"
| "usable_hint _ = None"

text \<open>\<open>None\<close> stands for the early return on an absent block.\<close>

definition signature_bytes :: "envelope_block \<Rightarrow> bytes option option" where
  "signature_bytes block =
     (case block of Absent \<Rightarrow> None | Present bs \<Rightarrow> Some (Some bs) | WrongLength \<Rightarrow> Some None)"

text \<open>The three scans after the hint's fast path: live anchors, revoked anchors, the classification.\<close>

definition verify_unhinted ::
  "signature_algorithm \<Rightarrow> bytes option \<Rightarrow> (trust_anchor \<Rightarrow> bool) \<Rightarrow> trust_anchor list \<Rightarrow>
     verify_error + bytes" where
  "verify_unhinted algorithm hint verifies anchors =
     (case find verifies (filter (\<lambda>a. \<not> ta_revoked a) anchors) of
        Some a \<Rightarrow> Inr (ta_key_id a)
      | None \<Rightarrow>
          (case find verifies (filter ta_revoked anchors) of
             Some a \<Rightarrow> Inl (VE_RevokedKey algorithm (ta_key_id a))
           | None \<Rightarrow>
               (case hint of
                  Some h \<Rightarrow>
                    if \<not> list_ex (\<lambda>a. ta_key_id a = h) anchors then Inl (VE_UnknownKeyId algorithm h)
                    else Inl (VE_BadSignature algorithm)
                | None \<Rightarrow> Inl (VE_BadSignature algorithm))))"

definition verify_signature ::
  "crypto \<Rightarrow> signature_algorithm \<Rightarrow> bytes \<Rightarrow> envelope_block \<Rightarrow> envelope_block \<Rightarrow> trust_set \<Rightarrow>
     verify_error + bytes" where
  "verify_signature cr algorithm message sig_block key_id_block trust =
     (case signature_bytes sig_block of
        None \<Rightarrow> Inl (VE_BadSignature algorithm)
      | Some signature \<Rightarrow>
          let hint = usable_hint key_id_block;
              verifies = (\<lambda>a. case signature of None \<Rightarrow> False | Some s \<Rightarrow> anchor_verifies cr a message s);
              anchors = filter (\<lambda>a. ta_algorithm a = algorithm) (ts_anchors trust);
              hinted = Option.bind hint (\<lambda>h. find (\<lambda>a. \<not> ta_revoked a \<and> ta_key_id a = h) anchors)
          in
          case hinted of
            Some a \<Rightarrow>
              if verifies a then Inr (ta_key_id a)
              else verify_unhinted algorithm hint verifies anchors
          | None \<Rightarrow> verify_unhinted algorithm hint verifies anchors)"

section \<open>The authenticated manifest\<close>

definition check_format_version :: "u32 \<Rightarrow> u32 \<Rightarrow> verify_error + unit" where
  "check_format_version found floor =
     (if found < floor then Inl (VE_UnsupportedManifestFormat found floor MAX_MANIFEST_FORMAT_VERSION)
      else Inr ())"

record authenticated =
  au_manifest :: payload_manifest
  au_ed25519_key_id :: bytes
  au_ml_dsa_87_key_id :: bytes
  au_manifest_sha256 :: bytes

definition authenticate_manifest ::
  "crypto \<Rightarrow> manifest_codec \<Rightarrow> container \<Rightarrow> trust_set \<Rightarrow> verify_error + authenticated" where
  "authenticate_manifest cr mc c trust =
     bind_res (verify_signature cr Ed25519 (ct_manifest_bytes c) (ct_signature c) (ct_key_id c) trust)
       (\<lambda>ed25519_key_id.
     bind_res (verify_signature cr MlDsa87 (ct_manifest_bytes c) (ct_ml_dsa_87_signature c)
         (ct_ml_dsa_87_key_id c) trust) (\<lambda>ml_dsa_87_key_id.
     bind_res (map_err map_manifest_error (parse_format_version mc (ct_manifest_bytes c))) (\<lambda>version.
     bind_res (case version of
         Some found \<Rightarrow> check_format_version found (ts_min_manifest_format_version trust)
       | None \<Rightarrow> Inr ()) (\<lambda>_.
     bind_res (map_err map_manifest_error (manifest_parse mc (ct_manifest_bytes c) (ct_footer_version c)))
       (\<lambda>manifest.
     Inr \<lparr>au_manifest = manifest, au_ed25519_key_id = ed25519_key_id,
          au_ml_dsa_87_key_id = ml_dsa_87_key_id, au_manifest_sha256 = sha256 cr (ct_manifest_bytes c)\<rparr>)))))"

section \<open>Statements: completeness, identifiers, withdrawal, target, epoch\<close>

fun required_member :: "payload_artifact \<Rightarrow> bytes" where
  "required_member a =
     (case pa_kind a of
        NativeBinary \<Rightarrow> pa_archive_path a | ContainerImage \<Rightarrow> pa_archive_path a
      | ComposeBundle \<Rightarrow> pa_archive_path a | StaticAssets \<Rightarrow> pa_archive_path a)"

text \<open>The first loop over the bound members, with the names already bound.\<close>

fun bind_members :: "bytes list \<Rightarrow> archive_member list \<Rightarrow> verify_error + bytes list" where
  "bind_members bound [] = Inr bound"
| "bind_members bound (m # rest) =
     (if \<not> is_safe_archive_path (am_name m) then Inl (VE_UnsafePath (am_name m))
      else if am_name m \<in> set bound then Inl (VE_DuplicatePath (am_name m))
      else bind_members (am_name m # bound) rest)"

definition check_completeness :: "payload_manifest \<Rightarrow> verify_error + unit" where
  "check_completeness m =
     (case pm_archive_members m of
        None \<Rightarrow> Inl (VE_Payload (PE_InvalidManifest MF_MissingArchiveMembers))
      | Some members \<Rightarrow>
          bind_res (bind_members [] members) (\<lambda>bound.
          let claimed = map pa_archive_path (pm_artifacts m) in
          bind_res (for_each (\<lambda>member. ensure (am_name member \<in> set claimed) (VE_UnlistedMember (am_name member)))
            members) (\<lambda>_.
          bind_res (ensure (pm_artifacts m \<noteq> []) (VE_MissingRequiredMember None)) (\<lambda>_.
          for_each (\<lambda>a. ensure (required_member a \<in> set bound)
            (VE_MissingRequiredMember (Some (required_member a)))) (pm_artifacts m)))))"

definition commit_or_empty :: "payload_artifact \<Rightarrow> bytes" where
  "commit_or_empty a = (case pa_commit a of None \<Rightarrow> [] | Some c \<Rightarrow> c)"

definition identifier_fields :: "payload_artifact \<Rightarrow> (build_identifier \<times> bytes) list" where
  "identifier_fields a =
     [(BI_Component, pa_component a), (BI_Version, pa_version a), (BI_Commit, commit_or_empty a)]"

definition check_identifiers :: "payload_manifest \<Rightarrow> verify_error + unit" where
  "check_identifiers m =
     for_each (\<lambda>a. for_each (\<lambda>(field, value). ensure (is_safe_build_identifier value)
         (VE_UnsafeBuildIdentifier field value)) (identifier_fields a)) (pm_artifacts m)"

definition check_withdrawal :: "payload_manifest \<Rightarrow> trust_set \<Rightarrow> verify_error + unit" where
  "check_withdrawal m trust =
     for_each (\<lambda>a.
       ensure (\<not> is_withdrawn trust (pa_component a) (pa_version a) (commit_or_empty a))
         (VE_WithdrawnBuild (pa_component a) (pa_version a) (commit_or_empty a))) (pm_artifacts m)"

definition check_target :: "payload_manifest \<Rightarrow> verify_request \<Rightarrow> verify_error + unit" where
  "check_target m request =
     for_each (\<lambda>a.
       if pa_component a \<noteq> vr_target request \<or> pa_version a \<noteq> vr_version request \<or>
          commit_or_empty a \<noteq> vr_commit request
       then Inl (VE_TargetMismatch (pa_component a) (pa_version a) (commit_or_empty a))
       else Inr ()) (pm_artifacts m)"

definition check_epoch :: "verify_request \<Rightarrow> trust_set \<Rightarrow> verify_error + unit" where
  "check_epoch request trust =
     (case vr_epoch request of
        None \<Rightarrow> Inr ()
      | Some delivered \<Rightarrow>
          if ts_epoch trust < delivered then Inr ()
          else Inl (VE_StaleTrustSet delivered (ts_epoch trust)))"

section \<open>Statements: images\<close>

definition declared_images :: "payload_manifest \<Rightarrow> (payload_artifact \<times> image_declaration) list" where
  "declared_images m =
     List.map_filter (\<lambda>a. map_option (Pair a) (pa_image a)) (pm_artifacts m)"

definition check_declared_platforms :: "payload_manifest \<Rightarrow> image_verify_error + unit" where
  "check_declared_platforms m =
     for_each (\<lambda>(a, d).
       ensure (ip_architecture (id_platform d) = for_target (pa_target_arch a))
         (IV_PlatformMismatch (pa_archive_path a) (pa_target_arch a) (ip_architecture (id_platform d))))
       (declared_images m)"

definition normalized :: "bytes \<Rightarrow> normalized_reference option" where
  "normalized reference = (case parse_tagged_reference reference of Inl _ \<Rightarrow> None | Inr n \<Rightarrow> Some n)"

definition ok_of :: "'e + 'a \<Rightarrow> 'a option" where
  "ok_of r = (case r of Inl _ \<Rightarrow> None | Inr x \<Rightarrow> Some x)"

definition check_reserved_alias ::
  "payload_artifact \<Rightarrow> image_declaration \<Rightarrow> bytes \<Rightarrow> image_verify_error + unit" where
  "check_reserved_alias a d reference =
     (case normalized reference of
        None \<Rightarrow> Inr ()
      | Some parsed \<Rightarrow>
          if \<not> eq_ignore_ascii_case (host parsed) RUNTIME_ALIAS_REGISTRY then Inr ()
          else
            let expected = ok_of (declaration_runtime_alias d) in
            if expected \<noteq> Some reference then
              Inl (IV_NonCanonicalReservedReference (pa_archive_path a) reference expected)
            else if id_reference_lifecycle d \<noteq> ManagedRuntime then
              Inl (IV_ReservedReferenceLifecycle (pa_archive_path a) reference)
            else Inr ())"

definition check_reserved_aliases :: "payload_manifest \<Rightarrow> image_verify_error + unit" where
  "check_reserved_aliases m =
     for_each (\<lambda>(a, d). for_each (check_reserved_alias a d) (id_public_refs d)) (declared_images m)"

definition conflict_between :: "image_declaration \<Rightarrow> image_declaration \<Rightarrow> reference_conflict option" where
  "conflict_between first later =
     (if id_config_digest first \<noteq> id_config_digest later then Some RC_ConfigDigest
      else if id_platform first \<noteq> id_platform later then Some RC_Platform
      else if id_owner first \<noteq> id_owner later then Some RC_Owner
      else if id_reference_lifecycle first \<noteq> id_reference_lifecycle later then Some RC_Lifecycle
      else None)"

type_synonym assigned = "normalized_reference \<rightharpoonup> (payload_artifact \<times> bytes \<times> image_declaration)"

text \<open>The nested loops over declarations and their references, flattened in the same order.\<close>

definition declared_references ::
  "payload_manifest \<Rightarrow> (payload_artifact \<times> bytes \<times> image_declaration) list" where
  "declared_references m =
     concat (map (\<lambda>(a, d). map (\<lambda>r. (a, r, d)) (id_public_refs d)) (declared_images m))"

fun assign_references ::
  "assigned \<Rightarrow> (payload_artifact \<times> bytes \<times> image_declaration) list \<Rightarrow> image_verify_error + unit" where
  "assign_references assigned [] = Inr ()"
| "assign_references assigned ((a, reference, d) # rest) =
     (case normalized reference of
        None \<Rightarrow> assign_references assigned rest
      | Some key \<Rightarrow>
          (case assigned key of
             Some (first_artifact, first_reference, first_image) \<Rightarrow>
               (case conflict_between first_image d of
                  Some conflict \<Rightarrow>
                    Inl (IV_ConflictingReference (pa_archive_path a) reference
                      (pa_archive_path first_artifact) first_reference conflict)
                | None \<Rightarrow> assign_references assigned rest)
           | None \<Rightarrow> assign_references (assigned(key \<mapsto> (a, reference, d))) rest))"

definition check_reference_conflicts :: "payload_manifest \<Rightarrow> image_verify_error + unit" where
  "check_reference_conflicts m = assign_references Map.empty (declared_references m)"

definition check_owners :: "payload_manifest \<Rightarrow> verify_request \<Rightarrow> image_verify_error + unit" where
  "check_owners m request =
     (case declared_images m of
        [] \<Rightarrow> Inr ()
      | (first, _) # _ \<Rightarrow>
          (case vr_namespace request of
             None \<Rightarrow> Inl (IV_MissingNamespace (pa_archive_path first))
           | Some namespace \<Rightarrow>
               bind_res (for_each (\<lambda>(a, d).
                   ensure (io_namespace (id_owner d) = namespace)
                     (IV_NamespaceMismatch (pa_archive_path a) namespace (io_namespace (id_owner d))))
                 (declared_images m)) (\<lambda>_.
               for_each (\<lambda>(a, d).
                   ensure (io_component (id_owner d) = vr_target request)
                     (IV_OwnerComponentMismatch (pa_archive_path a) (vr_target request)
                       (io_component (id_owner d))))
                 (declared_images m))))"

definition check_images :: "payload_manifest \<Rightarrow> verify_request \<Rightarrow> image_verify_error + unit" where
  "check_images m request =
     bind_res (check_declared_platforms m) (\<lambda>_.
     bind_res (check_reserved_aliases m) (\<lambda>_.
     bind_res (check_reference_conflicts m) (\<lambda>_.
     check_owners m request)))"

section \<open>Composition\<close>

text \<open>
  With no trust set (a caller that has not established one) the withdrawal and epoch statements are
  left out.
\<close>

definition check_statements ::
  "payload_manifest \<Rightarrow> verify_request \<Rightarrow> trust_set option \<Rightarrow> verify_error + unit" where
  "check_statements m request trust =
     bind_res (check_completeness m) (\<lambda>_.
     bind_res (check_identifiers m) (\<lambda>_.
     bind_res (case trust of Some t \<Rightarrow> check_withdrawal m t | None \<Rightarrow> Inr ()) (\<lambda>_.
     bind_res (check_target m request) (\<lambda>_.
     bind_res (case trust of Some t \<Rightarrow> check_epoch request t | None \<Rightarrow> Inr ()) (\<lambda>_.
     map_err VE_Image (check_images m request))))))"

definition authenticate ::
  "crypto \<Rightarrow> manifest_codec \<Rightarrow> container \<Rightarrow> trust_set \<Rightarrow> verify_request \<Rightarrow> verify_error + payload_manifest" where
  "authenticate cr mc c trust request =
     bind_res (authenticate_manifest cr mc c trust) (\<lambda>au.
     bind_res (check_statements (au_manifest au) request (Some trust)) (\<lambda>_.
     Inr (au_manifest au)))"

text \<open>A verified package: the container it was read from and its manifest.\<close>

record verified_package =
  vp_container :: container
  vp_manifest :: payload_manifest

definition verify_package ::
  "crypto \<Rightarrow> manifest_codec \<Rightarrow> bytes \<Rightarrow> trust_set \<Rightarrow> verify_request \<Rightarrow> verify_error + verified_package" where
  "verify_package cr mc src trust request =
     bind_res (map_err from_payload_error (read_package_container src ENVELOPE_BOUNDS)) (\<lambda>c.
     bind_res (authenticate cr mc c trust request) (\<lambda>manifest.
     Inr \<lparr>vp_container = c, vp_manifest = manifest\<rparr>))"

section \<open>Image references of a verified package\<close>

datatype image_references =
    NoImages
  | Declared "payload_artifact list"
  | LegacyUndeclared

definition image_references_of :: "verified_package \<Rightarrow> image_references" where
  "image_references_of vp =
     (let images = filter (\<lambda>a. pa_kind a = ContainerImage) (pm_artifacts (vp_manifest vp)) in
      if images = [] then NoImages
      else if list_all (\<lambda>a. pa_image a \<noteq> None) images then Declared images
      else LegacyUndeclared)"

definition declarations :: "payload_artifact list \<Rightarrow> (payload_artifact \<times> image_declaration) list" where
  "declarations artifacts = List.map_filter (\<lambda>a. map_option (Pair a) (pa_image a)) artifacts"

definition references :: "payload_artifact list \<Rightarrow> bytes list" where
  "references artifacts =
     sort (remdups (concat (map (\<lambda>(_, d). id_public_refs d) (declarations artifacts))))"

end
