(* ===== verification/Verify_Correct.thy ===== *)
theory Verify_Correct
  imports Verify Manifest_Correct Container_Correct Image_Correct
begin

text \<open>
  What a verified package is: who signed it, what its manifest says, and which images it may name.
\<close>

section \<open>Signatures\<close>

text \<open>The anchors of the set that are of the algorithm and whose check the signature passes.\<close>

definition signers :: "crypto \<Rightarrow> signature_algorithm \<Rightarrow> bytes \<Rightarrow> envelope_block \<Rightarrow> trust_set \<Rightarrow> trust_anchor set" where
  "signers cr algorithm message sig_block trust =
     {a \<in> set (ts_anchors trust). ta_algorithm a = algorithm \<and>
        (case sig_block of Present s \<Rightarrow> anchor_verifies cr a message s | _ \<Rightarrow> False)}"

definition live_signers :: "crypto \<Rightarrow> signature_algorithm \<Rightarrow> bytes \<Rightarrow> envelope_block \<Rightarrow> trust_set \<Rightarrow> trust_anchor set" where
  "live_signers cr algorithm message sig_block trust =
     {a \<in> signers cr algorithm message sig_block trust. \<not> ta_revoked a}"

lemma find_SomeD: "find P xs = Some x \<Longrightarrow> x \<in> set xs \<and> P x"
  by (induction xs) (auto split: if_splits)

lemma find_in:
  "find P xs = Some x \<Longrightarrow> x \<in> {x \<in> set xs. P x}"
  "find P xs = None \<longleftrightarrow> {x \<in> set xs. P x} = {}"
  using find_SomeD [of P xs x] by (auto simp: find_None_iff)

lemma signers_absent [simp]:
  "signers cr algorithm message Absent trust = {}" "signers cr algorithm message WrongLength trust = {}"
  by (simp_all add: signers_def)

lemma verify_unhinted_Inr:
  assumes "verify_unhinted algorithm hint verifies anchors = Inr k"
  shows "\<exists>a \<in> set anchors. \<not> ta_revoked a \<and> verifies a \<and> k = ta_key_id a"
  using assms find_SomeD
  by (fastforce simp: verify_unhinted_def split: option.splits if_splits)

lemma verify_unhinted_Inl:
  assumes "verify_unhinted algorithm hint verifies anchors = Inl e"
  shows "\<not> (\<exists>a \<in> set anchors. \<not> ta_revoked a \<and> verifies a)"
  using assms by (auto simp: verify_unhinted_def find_None_iff split: option.splits)

lemma verify_signature_cases:
  assumes "signature_bytes sig_block = Some signature"
    and verifies: "verifies = (\<lambda>a. case signature of None \<Rightarrow> False | Some s \<Rightarrow> anchor_verifies cr a message s)"
    and anchors: "anchors = filter (\<lambda>a. ta_algorithm a = algorithm) (ts_anchors trust)"
  shows "(\<exists>a \<in> set anchors. \<not> ta_revoked a \<and> verifies a \<and>
            verify_signature cr algorithm message sig_block key_id_block trust = Inr (ta_key_id a)) \<or>
         verify_signature cr algorithm message sig_block key_id_block trust =
           verify_unhinted algorithm (usable_hint key_id_block) verifies anchors"
proof (cases "Option.bind (usable_hint key_id_block)
    (\<lambda>h. find (\<lambda>a. \<not> ta_revoked a \<and> ta_key_id a = h) anchors)")
  case None
  then show ?thesis using assms by (simp add: verify_signature_def Let_def)
next
  case (Some a)
  then have "a \<in> set anchors \<and> \<not> ta_revoked a"
    by (auto simp: bind_eq_Some_conv dest: find_SomeD)
  then show ?thesis using Some assms by (auto simp: verify_signature_def Let_def)
qed

lemma signers_of:
  assumes "signature_bytes sig_block = Some signature"
  shows "signers cr algorithm message sig_block trust =
    {a \<in> set (filter (\<lambda>a. ta_algorithm a = algorithm) (ts_anchors trust)).
       case signature of None \<Rightarrow> False | Some s \<Rightarrow> anchor_verifies cr a message s}"
  using assms by (auto simp: signers_def signature_bytes_def split: envelope_block.splits)

lemma verify_signature_live:
  "is_ok (verify_signature cr algorithm message sig_block key_id_block trust) \<longleftrightarrow>
     live_signers cr algorithm message sig_block trust \<noteq> {}"
  "verify_signature cr algorithm message sig_block key_id_block trust = Inr k \<Longrightarrow>
     k \<in> ta_key_id ` live_signers cr algorithm message sig_block trust"
proof -
  have "(case verify_signature cr algorithm message sig_block key_id_block trust of
      Inl e \<Rightarrow> live_signers cr algorithm message sig_block trust = {}
    | Inr k \<Rightarrow> k \<in> ta_key_id ` live_signers cr algorithm message sig_block trust)"
  proof (cases "signature_bytes sig_block")
    case None
    then have "sig_block = Absent" by (auto simp: signature_bytes_def split: envelope_block.splits)
    then show ?thesis by (simp add: verify_signature_def signature_bytes_def live_signers_def)
  next
    case (Some signature)
    let ?verifies = "\<lambda>a. case signature of None \<Rightarrow> False | Some s \<Rightarrow> anchor_verifies cr a message s"
    let ?anchors = "filter (\<lambda>a. ta_algorithm a = algorithm) (ts_anchors trust)"
    have live: "live_signers cr algorithm message sig_block trust =
        {a \<in> set ?anchors. \<not> ta_revoked a \<and> ?verifies a}"
      unfolding live_signers_def signers_of [OF Some] by blast
    consider (hinted) a where "a \<in> set ?anchors" "\<not> ta_revoked a" "?verifies a"
        "verify_signature cr algorithm message sig_block key_id_block trust = Inr (ta_key_id a)"
      | (unhinted) "verify_signature cr algorithm message sig_block key_id_block trust =
          verify_unhinted algorithm (usable_hint key_id_block) ?verifies ?anchors"
      using verify_signature_cases [OF Some refl refl, where cr = cr and message = message and
        algorithm = algorithm and trust = trust and key_id_block = key_id_block] by blast
    then show ?thesis
    proof cases
      case hinted
      then have "a \<in> live_signers cr algorithm message sig_block trust" unfolding live by blast
      then show ?thesis using hinted(4) by simp
    next
      case unhinted
      show ?thesis
      proof (cases "verify_unhinted algorithm (usable_hint key_id_block) ?verifies ?anchors")
        case (Inl e)
        from verify_unhinted_Inl [OF Inl] show ?thesis unfolding unhinted Inl live sum.case by blast
      next
        case (Inr k)
        from verify_unhinted_Inr [OF Inr] show ?thesis unfolding unhinted Inr live sum.case by blast
      qed
    qed
  qed
  then show "is_ok (verify_signature cr algorithm message sig_block key_id_block trust) \<longleftrightarrow>
     live_signers cr algorithm message sig_block trust \<noteq> {}"
    "verify_signature cr algorithm message sig_block key_id_block trust = Inr k \<Longrightarrow>
     k \<in> ta_key_id ` live_signers cr algorithm message sig_block trust"
    by (auto split: sum.splits)
qed

lemma verify_signature_error:
  assumes "live_signers cr algorithm message sig_block trust = {}"
  shows "verify_signature cr algorithm message sig_block key_id_block trust =
    (if sig_block = Absent then Inl (VE_BadSignature algorithm)
     else verify_unhinted algorithm (usable_hint key_id_block)
       (\<lambda>a. case sig_block of Present s \<Rightarrow> anchor_verifies cr a message s | _ \<Rightarrow> False)
       (filter (\<lambda>a. ta_algorithm a = algorithm) (ts_anchors trust)))"
proof (cases "signature_bytes sig_block")
  case None
  then have "sig_block = Absent" by (auto simp: signature_bytes_def split: envelope_block.splits)
  then show ?thesis by (simp add: verify_signature_def signature_bytes_def)
next
  case (Some signature)
  have v: "(\<lambda>a. case signature of None \<Rightarrow> False | Some s \<Rightarrow> anchor_verifies cr a message s) =
      (\<lambda>a. case sig_block of Present s \<Rightarrow> anchor_verifies cr a message s | _ \<Rightarrow> False)"
    using Some by (auto simp: signature_bytes_def split: envelope_block.splits)
  have "sig_block \<noteq> Absent" using Some by (auto simp: signature_bytes_def)
  with verify_signature_cases [OF Some refl refl, where cr = cr and message = message and
        algorithm = algorithm and trust = trust and key_id_block = key_id_block] assms v
  show ?thesis
    unfolding live_signers_def signers_of [OF Some] by (auto simp: v)
qed

text \<open>
  C8: a signature is accepted exactly when an anchor of the set, of that algorithm and not revoked,
  verifies it over the message; the key id the caller learns is such an anchor's. The key id block of
  the package therefore never widens or narrows what is accepted: it only changes the order of tries.
\<close>

theorem signature_needs_live_anchor:
  "is_ok (verify_signature cr algorithm message sig_block key_id_block trust) =
     (live_signers cr algorithm message sig_block trust \<noteq> {}) \<and>
   {k. verify_signature cr algorithm message sig_block key_id_block trust = Inr k}
     \<subseteq> ta_key_id ` live_signers cr algorithm message sig_block trust"
  using verify_signature_live [of cr algorithm message sig_block key_id_block trust] by blast

text \<open>
  How a refused signature is classified: a revoked key's own signature is reported as that
  revoked key; otherwise a package naming a key id that no anchor of the algorithm has is an unknown
  key id; everything else, an absent signature block first of all, is a bad signature.
\<close>

theorem signature_refusal_classified:
  assumes "live_signers cr algorithm message sig_block trust = {}"
  shows "\<exists>e. verify_signature cr algorithm message sig_block key_id_block trust = Inl e \<and>
    (if signers cr algorithm message sig_block trust \<noteq> {}
     then \<exists>a \<in> signers cr algorithm message sig_block trust. ta_revoked a \<and>
            e = VE_RevokedKey algorithm (ta_key_id a)
     else case (sig_block = Absent, usable_hint key_id_block) of
       (False, Some h) \<Rightarrow>
         if \<exists>a \<in> set (ts_anchors trust). ta_algorithm a = algorithm \<and> ta_key_id a = h
         then e = VE_BadSignature algorithm else e = VE_UnknownKeyId algorithm h
     | _ \<Rightarrow> e = VE_BadSignature algorithm)"
proof (cases "sig_block = Absent")
  case True
  then show ?thesis by (simp add: verify_signature_def signature_bytes_def)
next
  case False
  let ?verifies = "\<lambda>a. case sig_block of Present s \<Rightarrow> anchor_verifies cr a message s | _ \<Rightarrow> False"
  let ?anchors = "filter (\<lambda>a. ta_algorithm a = algorithm) (ts_anchors trust)"
  have s: "signers cr algorithm message sig_block trust = {a \<in> set ?anchors. ?verifies a}"
    by (auto simp: signers_def)
  have live: "find ?verifies (filter (\<lambda>a. \<not> ta_revoked a) ?anchors) = None"
    using assms unfolding live_signers_def s find_None_iff by auto
  have r: "{a \<in> set (filter ta_revoked ?anchors). ?verifies a} = signers cr algorithm message sig_block trust"
    using assms unfolding live_signers_def s by auto
  show ?thesis
  proof (cases "find ?verifies (filter ta_revoked ?anchors)")
    case None
    with r have "signers cr algorithm message sig_block trust = {}" by (simp only: find_in(2))
    with False None live show ?thesis
      by (simp add: verify_signature_error [OF assms] verify_unhinted_def list_ex_iff Bex_def
          split: option.split)
  next
    case (Some a)
    from find_in(1) [OF Some] r have "a \<in> signers cr algorithm message sig_block trust" "ta_revoked a"
      by auto
    with False Some live show ?thesis
      by (auto simp: verify_signature_error [OF assms] verify_unhinted_def)
  qed
qed

section \<open>Statements\<close>

definition build_of :: "payload_artifact \<Rightarrow> build" where
  "build_of a = (pa_component a, pa_version a, commit_or_empty a)"

definition requested_build :: "verify_request \<Rightarrow> build" where
  "requested_build r = (vr_target r, vr_version r, vr_commit r)"

text \<open>The archive members a manifest binds are exactly its artifacts' paths, each once and each safe.\<close>

definition members_ok :: "payload_manifest \<Rightarrow> bool" where
  "members_ok m \<longleftrightarrow>
     (\<exists>members. pm_archive_members m = Some members \<and> distinct (map am_name members) \<and>
        (\<forall>x \<in> set members. is_safe_archive_path (am_name x)) \<and>
        set (map am_name members) = set (map pa_archive_path (pm_artifacts m))) \<and>
     pm_artifacts m \<noteq> []"

definition same_image :: "image_declaration \<Rightarrow> image_declaration \<Rightarrow> bool" where
  "same_image d d' \<longleftrightarrow>
     id_config_digest d = id_config_digest d' \<and> id_platform d = id_platform d' \<and>
     id_owner d = id_owner d' \<and> id_reference_lifecycle d = id_reference_lifecycle d'"

definition is_reserved :: "bytes \<Rightarrow> bool" where
  "is_reserved reference \<longleftrightarrow>
     (case normalized reference of
        None \<Rightarrow> False | Some n \<Rightarrow> eq_ignore_ascii_case (host n) RUNTIME_ALIAS_REGISTRY)"

definition declared_image_ok :: "verify_request \<Rightarrow> payload_artifact \<Rightarrow> image_declaration \<Rightarrow> bool" where
  "declared_image_ok r a d \<longleftrightarrow>
     ip_architecture (id_platform d) = for_target (pa_target_arch a) \<and>
     vr_namespace r = Some (io_namespace (id_owner d)) \<and> io_component (id_owner d) = vr_target r \<and>
     (\<forall>reference \<in> set (id_public_refs d). is_reserved reference \<longrightarrow>
        declaration_runtime_alias d = Inr reference \<and> id_reference_lifecycle d = ManagedRuntime)"

definition images_ok :: "payload_manifest \<Rightarrow> verify_request \<Rightarrow> bool" where
  "images_ok m r \<longleftrightarrow>
     (\<forall>(a, d) \<in> set (declared_images m). declared_image_ok r a d) \<and>
     (\<forall>(a, d) \<in> set (declared_images m). \<forall>(a', d') \<in> set (declared_images m).
        \<forall>reference \<in> set (id_public_refs d). \<forall>reference' \<in> set (id_public_refs d').
          normalized reference \<noteq> None \<and> normalized reference = normalized reference' \<longrightarrow> same_image d d')"

definition statements_ok :: "payload_manifest \<Rightarrow> verify_request \<Rightarrow> trust_set \<Rightarrow> bool" where
  "statements_ok m r t \<longleftrightarrow>
     members_ok m \<and>
     (\<forall>a \<in> set (pm_artifacts m). build_of a = requested_build r) \<and>
     list_all is_safe_build_identifier [vr_target r, vr_version r, vr_commit r] \<and>
     requested_build r \<notin> set (ts_withdrawn_builds t) \<and>
     (\<forall>e. vr_epoch r = Some e \<longrightarrow> ts_epoch t < e) \<and>
     images_ok m r"

lemma bind_members_Inr:
  "bind_members bound members = Inr b \<longleftrightarrow>
     b = rev (map am_name members) @ bound \<and> (\<forall>x \<in> set members. is_safe_archive_path (am_name x)) \<and>
     distinct (map am_name members) \<and> set (map am_name members) \<inter> set bound = {}"
  by (induction members arbitrary: bound) auto

lemma check_completeness_Inr: "check_completeness m = Inr () \<longleftrightarrow> members_ok m"
proof (cases "pm_archive_members m")
  case None
  then show ?thesis by (simp add: check_completeness_def members_ok_def)
next
  case (Some members)
  have path: "required_member a = pa_archive_path a" for a by (simp split: artifact_kind.split)
  have "check_completeness m = Inr () \<longleftrightarrow>
    (\<forall>x \<in> set members. is_safe_archive_path (am_name x)) \<and> distinct (map am_name members) \<and>
    (\<forall>x \<in> set members. am_name x \<in> set (map pa_archive_path (pm_artifacts m))) \<and>
    pm_artifacts m \<noteq> [] \<and> (\<forall>a \<in> set (pm_artifacts m). pa_archive_path a \<in> set (map am_name members))"
    using Some path by (simp add: check_completeness_def bind_members_Inr Let_def del: required_member.simps)
  also have "\<dots> \<longleftrightarrow> members_ok m" using Some by (auto simp: members_ok_def)
  finally show ?thesis .
qed

lemma check_identifiers_Inr:
  "check_identifiers m = Inr () \<longleftrightarrow>
     (\<forall>a \<in> set (pm_artifacts m). list_all is_safe_build_identifier
        [pa_component a, pa_version a, commit_or_empty a])"
  by (simp add: check_identifiers_def identifier_fields_def del: for_each.simps)

lemma check_withdrawal_Inr:
  "check_withdrawal m t = Inr () \<longleftrightarrow>
     (\<forall>a \<in> set (pm_artifacts m). build_of a \<notin> set (ts_withdrawn_builds t))"
  by (auto simp: check_withdrawal_def is_withdrawn_def build_of_def list_ex_iff)

lemma check_target_Inr:
  "check_target m r = Inr () \<longleftrightarrow> (\<forall>a \<in> set (pm_artifacts m). build_of a = requested_build r)"
  by (auto simp: check_target_def build_of_def requested_build_def)

lemma check_epoch_Inr: "check_epoch r t = Inr () \<longleftrightarrow> (\<forall>e. vr_epoch r = Some e \<longrightarrow> ts_epoch t < e)"
  by (auto simp: check_epoch_def split: option.splits)

lemma conflict_between_None: "conflict_between d d' = None \<longleftrightarrow> same_image d d'"
  by (simp add: conflict_between_def same_image_def)

lemma same_image_sym: "same_image d d' \<Longrightarrow> same_image d' d"
  by (simp add: same_image_def)

lemma same_image_trans: "same_image d d' \<Longrightarrow> same_image d' d'' \<Longrightarrow> same_image d d''"
  by (simp add: same_image_def)

lemma same_image_refl [simp]: "same_image d d"
  by (simp add: same_image_def)

text \<open>The declarations met under a key: still to come, or held by the loop's map.\<close>

definition met :: "assigned \<Rightarrow> (payload_artifact \<times> bytes \<times> image_declaration) list \<Rightarrow>
    normalized_reference \<Rightarrow> image_declaration set" where
  "met g xs k = {d. (\<exists>a r. (a, r, d) \<in> set xs \<and> normalized r = Some k) \<or> (\<exists>a r. g k = Some (a, r, d))}"

definition agree :: "assigned \<Rightarrow> (payload_artifact \<times> bytes \<times> image_declaration) list \<Rightarrow> bool" where
  "agree g xs \<longleftrightarrow> (\<forall>k. \<forall>d \<in> met g xs k. \<forall>d' \<in> met g xs k. same_image d d')"

lemma met_Cons:
  "met g ((a, r, d) # xs) k = (if normalized r = Some k then insert d (met g xs k) else met g xs k)"
  by (auto simp: met_def)

lemma agree_Cons_None: "normalized r = None \<Longrightarrow> agree g ((a, r, d) # xs) \<longleftrightarrow> agree g xs"
  by (simp add: agree_def met_Cons)

lemma agree_Cons_new:
  assumes "normalized r = Some k" "g k = None"
  shows "agree g ((a, r, d) # xs) \<longleftrightarrow> agree (g(k \<mapsto> (a, r, d))) xs"
proof -
  have "met g ((a, r, d) # xs) k' = met (g(k \<mapsto> (a, r, d))) xs k'" for k'
    using assms by (auto simp: met_def)
  then show ?thesis by (simp add: agree_def)
qed

lemma agree_Cons_old:
  assumes "normalized r = Some k" "g k = Some (b, s, d')"
  shows "agree g ((a, r, d) # xs) \<longleftrightarrow> same_image d' d \<and> agree g xs"
proof -
  have d': "d' \<in> met g xs k" using assms(2) by (auto simp: met_def)
  have m: "met g ((a, r, d) # xs) k' = (if k' = k then insert d (met g xs k) else met g xs k')" for k'
    using assms(1) by (auto simp: met_Cons)
  show ?thesis
  proof
    assume l: "agree g ((a, r, d) # xs)"
    then have "same_image d' d" using d' unfolding agree_def m by (metis insert_iff)
    moreover have "agree g xs" unfolding agree_def
    proof (intro allI ballI)
      fix k' x y assume "x \<in> met g xs k'" "y \<in> met g xs k'"
      then show "same_image x y" using l unfolding agree_def m by (metis insert_iff)
    qed
    ultimately show "same_image d' d \<and> agree g xs" by blast
  next
    assume r: "same_image d' d \<and> agree g xs"
    then have all: "same_image x d" if "x \<in> met g xs k" for x
      using that d' same_image_trans unfolding agree_def by blast
    show "agree g ((a, r, d) # xs)" unfolding agree_def m
      using r all same_image_sym unfolding agree_def by auto
  qed
qed

lemma assign_references_Inr: "assign_references g xs = Inr () \<longleftrightarrow> agree g xs"
proof (induction xs arbitrary: g)
  case Nil
  then show ?case by (auto simp: agree_def met_def)
next
  case (Cons x xs)
  obtain a r d where x: "x = (a, r, d)" by (cases x)
  show ?case
  proof (cases "normalized r")
    case None
    with Cons x show ?thesis by (simp add: agree_Cons_None)
  next
    case (Some k)
    show ?thesis
    proof (cases "g k")
      case None
      with Cons x Some show ?thesis by (simp add: agree_Cons_new del: fun_upd_apply)
    next
      case (Some e)
      obtain b s d' where "e = (b, s, d')" by (cases e)
      with Cons x Some \<open>normalized r = Some k\<close> show ?thesis
        by (simp add: agree_Cons_old conflict_between_None [symmetric] split: option.split)
    qed
  qed
qed

lemma declared_references_iff:
  "(a, r, d) \<in> set (declared_references m) \<longleftrightarrow> (a, d) \<in> set (declared_images m) \<and> r \<in> set (id_public_refs d)"
  by (force simp: declared_references_def)

lemma check_reference_conflicts_Inr:
  "check_reference_conflicts m = Inr () \<longleftrightarrow>
     (\<forall>(a, d) \<in> set (declared_images m). \<forall>(a', d') \<in> set (declared_images m).
        \<forall>reference \<in> set (id_public_refs d). \<forall>reference' \<in> set (id_public_refs d').
          normalized reference \<noteq> None \<and> normalized reference = normalized reference' \<longrightarrow> same_image d d')"
proof -
  have m: "d \<in> met Map.empty (declared_references m) k \<longleftrightarrow>
      (\<exists>a r. (a, d) \<in> set (declared_images m) \<and> r \<in> set (id_public_refs d) \<and> normalized r = Some k)" for k d
    by (auto simp: met_def declared_references_iff)
  have "agree Map.empty (declared_references m) \<longleftrightarrow>
    (\<forall>k a r d a' r' d'. (a, d) \<in> set (declared_images m) \<and> r \<in> set (id_public_refs d) \<and> normalized r = Some k \<and>
       (a', d') \<in> set (declared_images m) \<and> r' \<in> set (id_public_refs d') \<and> normalized r' = Some k \<longrightarrow>
       same_image d d')"
    unfolding agree_def Ball_def m by blast
  also have "\<dots> \<longleftrightarrow> (\<forall>(a, d) \<in> set (declared_images m). \<forall>(a', d') \<in> set (declared_images m).
        \<forall>reference \<in> set (id_public_refs d). \<forall>reference' \<in> set (id_public_refs d').
          normalized reference \<noteq> None \<and> normalized reference = normalized reference' \<longrightarrow> same_image d d')"
    (is "?flat \<longleftrightarrow> ?nested")
  proof
    assume flat: ?flat
    show ?nested
    proof (intro ballI case_prodI2 impI)
      fix x a d y a' d' r r'
      assume "x \<in> set (declared_images m)" "x = (a, d)" "y \<in> set (declared_images m)" "y = (a', d')"
        and r: "r \<in> set (id_public_refs d)" "r' \<in> set (id_public_refs d')"
        and n: "normalized r \<noteq> None \<and> normalized r = normalized r'"
      then have "(a, d) \<in> set (declared_images m)" "(a', d') \<in> set (declared_images m)" by simp_all
      moreover from n obtain k where "normalized r = Some k" "normalized r' = Some k" by (metis not_None_eq)
      ultimately show "same_image d d'" using flat r by blast
    qed
  next
    assume nested: ?nested
    show ?flat
    proof (intro allI impI)
      fix k a r d a' r' d'
      assume *: "(a, d) \<in> set (declared_images m) \<and> r \<in> set (id_public_refs d) \<and> normalized r = Some k \<and>
         (a', d') \<in> set (declared_images m) \<and> r' \<in> set (id_public_refs d') \<and> normalized r' = Some k"
      then have "\<forall>r \<in> set (id_public_refs d). \<forall>r' \<in> set (id_public_refs d').
          normalized r \<noteq> None \<and> normalized r = normalized r' \<longrightarrow> same_image d d'"
        using nested by (elim conjE) (drule (1) bspec, unfold prod.case, drule (1) bspec, unfold prod.case, assumption)
      moreover from * have "normalized r \<noteq> None \<and> normalized r = normalized r'" by simp
      ultimately show "same_image d d'" using * by blast
    qed
  qed
  finally show ?thesis unfolding check_reference_conflicts_def assign_references_Inr .
qed

lemma check_reserved_alias_Inr:
  "check_reserved_alias a d reference = Inr () \<longleftrightarrow>
     (is_reserved reference \<longrightarrow>
        declaration_runtime_alias d = Inr reference \<and> id_reference_lifecycle d = ManagedRuntime)"
  by (cases "declaration_runtime_alias d")
    (auto simp: check_reserved_alias_def is_reserved_def ok_of_def Let_def split: option.splits)

lemma check_owners_Inr:
  "check_owners m r = Inr () \<longleftrightarrow>
     (\<forall>(a, d) \<in> set (declared_images m). vr_namespace r = Some (io_namespace (id_owner d)) \<and>
        io_component (id_owner d) = vr_target r)"
  by (auto simp: check_owners_def simp del: for_each.simps split: list.splits option.splits)

lemma check_images_Inr: "check_images m r = Inr () \<longleftrightarrow> images_ok m r"
proof -
  have p: "check_declared_platforms m = Inr () \<longleftrightarrow>
      (\<forall>(a, d) \<in> set (declared_images m). ip_architecture (id_platform d) = for_target (pa_target_arch a))"
    by (auto simp: check_declared_platforms_def)
  have a: "check_reserved_aliases m = Inr () \<longleftrightarrow>
      (\<forall>(a, d) \<in> set (declared_images m). \<forall>reference \<in> set (id_public_refs d). is_reserved reference \<longrightarrow>
         declaration_runtime_alias d = Inr reference \<and> id_reference_lifecycle d = ManagedRuntime)"
    by (auto simp: check_reserved_aliases_def check_reserved_alias_Inr)
  show ?thesis
    unfolding images_ok_def declared_image_ok_def check_reference_conflicts_Inr [symmetric]
    by (simp add: check_images_def p a check_owners_Inr) blast
qed

lemma check_statements_Inr:
  "check_statements m r (Some t) = Inr () \<longleftrightarrow> statements_ok m r t"
proof -
  have "check_statements m r (Some t) = Inr () \<longleftrightarrow>
    members_ok m \<and> check_identifiers m = Inr () \<and> check_withdrawal m t = Inr () \<and>
    check_target m r = Inr () \<and> check_epoch r t = Inr () \<and> images_ok m r"
    by (simp add: check_statements_def check_completeness_Inr check_images_Inr)
  also have "\<dots> \<longleftrightarrow> statements_ok m r t"
  proof (cases "pm_artifacts m = [] \<or> \<not> (\<forall>a \<in> set (pm_artifacts m). build_of a = requested_build r)")
    case True
    then show ?thesis unfolding statements_ok_def check_target_Inr by (auto simp: members_ok_def)
  next
    case False
    then have build: "\<forall>a \<in> set (pm_artifacts m). build_of a = requested_build r" and "pm_artifacts m \<noteq> []" by auto
    then have any: "(\<forall>a \<in> set (pm_artifacts m). P (build_of a)) \<longleftrightarrow> P (requested_build r)" for P
      by (auto simp: neq_Nil_conv)
    have "check_identifiers m = Inr () \<longleftrightarrow>
        list_all is_safe_build_identifier [vr_target r, vr_version r, vr_commit r]"
      using any [of "\<lambda>(c, v, h). list_all is_safe_build_identifier [c, v, h]"]
      unfolding check_identifiers_Inr build_of_def requested_build_def by simp
    moreover have "check_withdrawal m t = Inr () \<longleftrightarrow> requested_build r \<notin> set (ts_withdrawn_builds t)"
      using any [of "\<lambda>x. x \<notin> set (ts_withdrawn_builds t)"] unfolding check_withdrawal_Inr by simp
    moreover have "check_target m r = Inr ()" using build by (simp add: check_target_Inr)
    ultimately show ?thesis unfolding statements_ok_def check_epoch_Inr using build by simp
  qed
  finally show ?thesis .
qed

text \<open>
  The statements a manifest makes are accepted exactly when: the bound archive members are the
  artifacts' paths, once each, and there is at least one; every artifact is the requested build, its
  three names are safe identifiers and the build is not withdrawn; a delivered epoch advances past
  the trust set's; and each declared image is built for its artifact's architecture, owned by the
  requested namespace and component, names no reserved reference but its own canonical alias, and no
  two declarations that share a reference differ in digest, platform, owner or lifecycle.
\<close>

theorem statements_accepted_iff:
  "check_statements m request (Some trust) = Inr () \<longleftrightarrow> statements_ok m request trust"
  by (rule check_statements_Inr)

section \<open>Packages\<close>

definition package_signed :: "crypto \<Rightarrow> container \<Rightarrow> trust_set \<Rightarrow> bool" where
  "package_signed cr c t \<longleftrightarrow>
     live_signers cr Ed25519 (ct_manifest_bytes c) (ct_signature c) t \<noteq> {} \<and>
     live_signers cr MlDsa87 (ct_manifest_bytes c) (ct_ml_dsa_87_signature c) t \<noteq> {}"

lemma package_signed_iff:
  "package_signed cr c t \<longleftrightarrow>
     (\<exists>k. verify_signature cr Ed25519 (ct_manifest_bytes c) (ct_signature c) (ct_key_id c) t = Inr k) \<and>
     (\<exists>k. verify_signature cr MlDsa87 (ct_manifest_bytes c) (ct_ml_dsa_87_signature c)
        (ct_ml_dsa_87_key_id c) t = Inr k)"
  by (simp add: package_signed_def is_ok_iff [symmetric] verify_signature_live(1))

lemma floor_gate:
  "(case fv of Some found \<Rightarrow> check_format_version found floor | None \<Rightarrow> Inr ()) = Inr u \<longleftrightarrow>
     (\<forall>v. fv = Some v \<longrightarrow> floor \<le> v)"
  by (auto simp: check_format_version_def split: option.split)

lemma authenticate_manifest_parts:
  "authenticate_manifest cr mc c t = Inr au \<longleftrightarrow>
     verify_signature cr Ed25519 (ct_manifest_bytes c) (ct_signature c) (ct_key_id c) t
       = Inr (au_ed25519_key_id au) \<and>
     verify_signature cr MlDsa87 (ct_manifest_bytes c) (ct_ml_dsa_87_signature c) (ct_ml_dsa_87_key_id c) t
       = Inr (au_ml_dsa_87_key_id au) \<and>
     manifest_parse mc (ct_manifest_bytes c) (ct_footer_version c) = Inr (au_manifest au) \<and>
     (\<forall>v. pm_format_version (au_manifest au) = Some v \<longrightarrow> ts_min_manifest_format_version t \<le> v) \<and>
     au_manifest_sha256 au = sha256 cr (ct_manifest_bytes c)" (is "_ \<longleftrightarrow> ?parts")
proof
  assume "authenticate_manifest cr mc c t = Inr au"
  then show ?parts
    unfolding authenticate_manifest_def bind_res_Inr map_err_Inr floor_gate
    using manifest_parse_invariant [of mc "ct_manifest_bytes c" "ct_footer_version c"]
    by (elim exE conjE) auto
next
  assume ?parts
  moreover from this have "parse_format_version mc (ct_manifest_bytes c) = Inr (pm_format_version (au_manifest au))"
    using manifest_parse_invariant by blast
  ultimately show "authenticate_manifest cr mc c t = Inr au"
    unfolding authenticate_manifest_def bind_res_Inr map_err_Inr floor_gate by simp
qed

lemma authenticate_Inr:
  "authenticate cr mc c t request = Inr m \<longleftrightarrow>
     package_signed cr c t \<and> manifest_parse mc (ct_manifest_bytes c) (ct_footer_version c) = Inr m \<and>
     (\<forall>v. pm_format_version m = Some v \<longrightarrow> ts_min_manifest_format_version t \<le> v) \<and>
     statements_ok m request t" (is "_ \<longleftrightarrow> ?rhs")
proof
  assume "authenticate cr mc c t request = Inr m"
  then obtain au where "authenticate_manifest cr mc c t = Inr au" "m = au_manifest au"
    "check_statements m request (Some t) = Inr ()"
    unfolding authenticate_def bind_res_Inr by auto
  then show ?rhs
    unfolding authenticate_manifest_parts package_signed_iff check_statements_Inr by auto
next
  assume r: ?rhs
  then obtain k k' where k:
    "verify_signature cr Ed25519 (ct_manifest_bytes c) (ct_signature c) (ct_key_id c) t = Inr k"
    "verify_signature cr MlDsa87 (ct_manifest_bytes c) (ct_ml_dsa_87_signature c) (ct_ml_dsa_87_key_id c) t
      = Inr k'" unfolding package_signed_iff by blast
  define au where "au = \<lparr>au_manifest = m, au_ed25519_key_id = k, au_ml_dsa_87_key_id = k',
      au_manifest_sha256 = sha256 cr (ct_manifest_bytes c)\<rparr>"
  have "authenticate_manifest cr mc c t = Inr au"
    unfolding authenticate_manifest_parts using r k by (simp add: au_def)
  moreover have "check_statements (au_manifest au) request (Some t) = Inr ()"
    unfolding check_statements_Inr using r by (simp add: au_def)
  ultimately show "authenticate cr mc c t request = Inr m"
    by (simp add: authenticate_def) (simp add: au_def)
qed

lemma verify_package_Inr:
  "verify_package cr mc src trust request = Inr vp \<longleftrightarrow>
     read_package_container src ENVELOPE_BOUNDS
       = (Inr (vp_container vp) :: container_error + container) \<and>
     package_signed cr (vp_container vp) trust \<and>
     manifest_parse mc (ct_manifest_bytes (vp_container vp)) (ct_footer_version (vp_container vp))
       = Inr (vp_manifest vp) \<and>
     (\<forall>v. pm_format_version (vp_manifest vp) = Some v \<longrightarrow> ts_min_manifest_format_version trust \<le> v) \<and>
     statements_ok (vp_manifest vp) request trust"
proof -
  have "verify_package cr mc src trust request = Inr vp \<longleftrightarrow>
      read_package_container src ENVELOPE_BOUNDS
        = (Inr (vp_container vp) :: container_error + container) \<and>
      authenticate cr mc (vp_container vp) trust request = Inr (vp_manifest vp)"
    by (cases vp) (auto simp: verify_package_def)
  then show ?thesis unfolding authenticate_Inr .
qed

text \<open>
  C9: a package verifies exactly when its container reads, both its signatures are by live anchors of
  the two algorithms over the very manifest bytes the container holds, those bytes parse, their format
  is not below the trust set's floor, and their statements hold. What the caller gets is that
  container and that manifest.
\<close>

theorem package_accepted_iff:
  "verify_package cr mc src trust request = Inr vp \<longleftrightarrow>
     read_package_container src ENVELOPE_BOUNDS
       = (Inr (vp_container vp) :: container_error + container) \<and>
     package_signed cr (vp_container vp) trust \<and>
     manifest_parse mc (ct_manifest_bytes (vp_container vp)) (ct_footer_version (vp_container vp))
       = Inr (vp_manifest vp) \<and>
     (case pm_format_version (vp_manifest vp) of
        None \<Rightarrow> True | Some v \<Rightarrow> ts_min_manifest_format_version trust \<le> v) \<and>
     statements_ok (vp_manifest vp) request trust"
  by (simp add: verify_package_Inr split: option.split)

lemma declared_image_of:
  "a \<in> set (pm_artifacts m) \<Longrightarrow> pa_image a = Some d \<Longrightarrow> (a, d) \<in> set (declared_images m)"
  unfolding declared_images_def by (force simp: List.map_filter_def)

lemma members_paths:
  "members_ok m \<Longrightarrow> pm_archive_members m = Some members \<Longrightarrow>
     set (map am_name members) = set (map pa_archive_path (pm_artifacts m))"
  by (simp add: members_ok_def)

section \<open>A concrete package\<close>

definition image_artifact :: payload_artifact where
  "image_artifact =
     \<lparr>pa_component = ''web'', pa_version = ''1.25.0'', pa_commit = Some (replicate 40 (CHR ''a'')),
      pa_target_arch = X86_64, pa_kind = ContainerImage, pa_dispositions = [Install],
      pa_archive_path = ''assets/web.tar'', pa_sha256 = [], pa_spec = None, pa_image = Some sample_declaration\<rparr>"

definition image_manifest :: payload_manifest where
  "image_manifest =
     \<lparr>pm_format_version = Some 9, pm_pinset = None, pm_release_build = False, pm_trust_set = None,
      pm_archive_members = Some [\<lparr>am_name = ''assets/web.tar'', am_length = 3\<rparr>],
      pm_artifacts = [image_artifact]\<rparr>"

definition image_raw :: raw_manifest where
  "image_raw =
     \<lparr>rm_format_version = Some 9, rm_pinset = None, rm_release_build = False, rm_trust_set = None,
      rm_archive_members = Some [\<lparr>am_name = ''assets/web.tar'', am_length = 3\<rparr>],
      rm_artifacts =
        [\<lparr>ra_component = ''web'', ra_version = ''1.25.0'', ra_commit = Some (replicate 40 (CHR ''a'')),
          ra_target_arch = X86_64, ra_kind = ContainerImage, ra_dispositions = [Install],
          ra_archive_path = ''assets/web.tar'', ra_sha256 = [], ra_spec = None, ra_image = Some (JObj [])\<rparr>]\<rparr>"

definition image_codec :: manifest_codec where
  "image_codec =
     \<lparr>mc_parse = \<lambda>_. Some (JObj [(''format_version'', JNum (JPos 9))]),
      mc_raw = \<lambda>_. Some image_raw, mc_image = \<lambda>_. Some sample_declaration, mc_base64 = Some\<rparr>"

definition image_request :: verify_request where
  "image_request =
     \<lparr>vr_target = ''web'', vr_version = ''1.25.0'', vr_commit = replicate 40 (CHR ''a''), vr_epoch = None,
      vr_namespace = Some ''clumit''\<rparr>"

text \<open>Cryptography under which the sample signatures verify under the keys \<open>ed\<close> and \<open>ml\<close> alone.\<close>

definition verify_crypto :: crypto where
  "verify_crypto =
     \<lparr>sha256 = take 32,
      signature_verifies = \<lambda>algorithm pk message signature.
        case algorithm of
          Ed25519 \<Rightarrow> pk = ''ed'' \<and> signature = ds_signature (sg_ed25519 sample_signed)
        | MlDsa87 \<Rightarrow> pk = ''ml'' \<and> signature = ds_signature (sg_ml_dsa_87 sample_signed)\<rparr>"

definition verify_trust :: trust_set where
  "verify_trust =
     \<lparr>ts_anchors = [anchor_new verify_crypto Ed25519 ''ed'' False, anchor_new verify_crypto MlDsa87 ''ml'' False],
      ts_withdrawn_builds = [(''web'', ''1.0.0'', ''x'')], ts_min_manifest_format_version = 6, ts_epoch = 5\<rparr>"

definition sample_package :: bytes where
  "sample_package = package_of ''EXE'' ''{}'' ''zst'' (Some sample_signed)"

definition verified_sample :: verified_package where
  "verified_sample =
     \<lparr>vp_container = container_of ''EXE'' ''{}'' ''zst'' (Some sample_signed), vp_manifest = image_manifest\<rparr>"

lemma image_artifact_parts: "pa_dispositions image_artifact \<noteq> []" "pa_archive_path image_artifact = ''assets/web.tar''"
  by (simp_all add: image_artifact_def)

lemma image_artifact_ok: "artifact_ok (Some 9) image_artifact"
  using sample_artifact_parts sample_declaration_ok
  by (simp add: artifact_ok_def image_artifact_def IMAGE_DECLARATION_FORMAT_VERSION_def)

lemma image_parse: "manifest_parse image_codec bs footer_version = Inr image_manifest"
proof -
  have raw: "raw_parts (rm_artifacts image_raw) = [(image_artifact\<lparr>pa_image := None\<rparr>, ImageWire (JObj []))]"
    by (simp add: raw_parts_def raw_into_parts_def image_raw_def image_artifact_def)
  have "check_commit (Some 9) image_artifact = Inr ()" "check_spec (Some 9) image_artifact = Inr ()"
    using sample_artifact_parts by (simp_all add: check_commit_Inr check_spec_Inr image_artifact_def)
  moreover have "resolve_image image_codec (Some 9) image_artifact (ImageWire (JObj [])) = Inr (Some sample_declaration)"
    using sample_declaration_ok
    by (simp add: resolve_image_def image_artifact_def IMAGE_DECLARATION_FORMAT_VERSION_def
        decode_declaration_def obj_get_def image_codec_def)
  moreover have "image_artifact\<lparr>pa_image := Some sample_declaration\<rparr> = image_artifact"
    by (simp add: image_artifact_def)
  ultimately have "validate_artifacts image_codec (Some 9) []
      [(image_artifact\<lparr>pa_image := None\<rparr>, ImageWire (JObj []))] = Inr [image_artifact]"
    using sample_artifact_parts image_artifact_parts by (simp add: Let_def)
  moreover have "as_u32 (JNum (JPos 9)) = Some 9" by (simp add: as_u32_def u32_try_from_Some)
  ultimately show ?thesis
    by (simp add: manifest_parse_def image_codec_def read_format_version_def obj_get_def in_window_iff
        trust_set_decode_def from_parts_def raw)
      (simp add: image_raw_def image_manifest_def)
qed

lemma image_statements_ok: "statements_ok image_manifest image_request verify_trust"
proof -
  have "\<not> list_ex is_reserved sample_refs" by code_simp
  then have "declared_image_ok image_request image_artifact sample_declaration"
    by (simp add: declared_image_ok_def image_request_def image_artifact_def sample_declaration_def list_ex_iff)
  moreover have "declared_images image_manifest = [(image_artifact, sample_declaration)]"
    by (simp add: declared_images_def image_manifest_def List.map_filter_def) (simp add: image_artifact_def)
  ultimately have "images_ok image_manifest image_request" by (simp add: images_ok_def)
  moreover have "list_all is_safe_build_identifier [''web'', ''1.25.0'', replicate 40 (CHR ''a'')]"
    by code_simp
  ultimately show ?thesis
    using sample_artifact_parts
    by (simp add: statements_ok_def members_ok_def build_of_def requested_build_def image_request_def
        image_manifest_def image_artifact_def commit_or_empty_def verify_trust_def)
qed

lemma sample_container_signed:
  "package_signed verify_crypto (container_of ''EXE'' ''{}'' ''zst'' (Some sample_signed)) verify_trust"
proof -
  have "anchor_new verify_crypto Ed25519 ''ed'' False \<in> live_signers verify_crypto Ed25519 ''{}''
      (Present (ds_signature (sg_ed25519 sample_signed))) verify_trust"
    by (simp add: live_signers_def signers_def verify_trust_def anchor_new_def anchor_verifies_def)
      (simp add: verify_crypto_def)
  moreover have "anchor_new verify_crypto MlDsa87 ''ml'' False \<in> live_signers verify_crypto MlDsa87 ''{}''
      (Present (ds_signature (sg_ml_dsa_87 sample_signed))) verify_trust"
    by (simp add: live_signers_def signers_def verify_trust_def anchor_new_def anchor_verifies_def)
      (simp add: verify_crypto_def)
  ultimately show ?thesis by (auto simp: package_signed_def container_of_fields present_of_def)
qed

lemma sample_package_verifies:
  "verify_package verify_crypto image_codec sample_package verify_trust image_request = Inr verified_sample"
  unfolding verify_package_Inr
  using sample_container_signed image_parse image_statements_ok
    read_written_package [OF sample_writable, where 'a = manifest_error]
  by (simp add: verified_sample_def sample_package_def container_of_fields)
    (simp add: image_manifest_def verify_trust_def)

lemma sample_source_small: "length sample_package < 2 ^ 64"
  using envelope_length [OF sample_writable]
  by (simp add: sample_package_def package_of_def FOOTER_SIZE_def FOOTER_SIZE_V3_def)

text \<open>A trust set that holds the sample's Ed25519 key, revoked.\<close>

definition revoked_trust :: trust_set where
  "revoked_trust =
     \<lparr>ts_anchors = [anchor_new verify_crypto Ed25519 ''ed'' True], ts_withdrawn_builds = [],
      ts_min_manifest_format_version = 0, ts_epoch = 0\<rparr>"

lemma revoked_signers:
  "live_signers verify_crypto Ed25519 ''{}'' (Present (ds_signature (sg_ed25519 sample_signed))) revoked_trust = {}"
  "signers verify_crypto Ed25519 ''{}'' (Present (ds_signature (sg_ed25519 sample_signed))) revoked_trust
     = {anchor_new verify_crypto Ed25519 ''ed'' True}"
  by (auto simp: live_signers_def signers_def revoked_trust_def anchor_new_def anchor_verifies_def verify_crypto_def)

theorem signature_refusal_classified_witness:
  "verify_signature verify_crypto Ed25519 ''{}'' (Present (ds_signature (sg_ed25519 sample_signed)))
     (Present ''aa'') revoked_trust = Inl (VE_RevokedKey Ed25519 (key_id verify_crypto ''ed''))"
  using signature_refusal_classified [OF revoked_signers(1), of "Present ''aa''"]
  by (simp add: revoked_signers anchor_new_def)

text \<open>
  Soundness of a verified package, end to end. Its source is a base, the manifest bytes, the
  archive bytes, an envelope and a version 3 footer; the manifest bytes are signed under both
  algorithms by live anchors; the manifest parsed from exactly those bytes satisfies the manifest
  invariant, is at or above the floor, and every artifact of it is the requested, not withdrawn build
  whose archive path is one of the bound members.
\<close>

theorem verified_package_sound:
  assumes "verify_package cr mc src trust request = Inr vp" "length src < 2 ^ 64"
  shows "\<exists>base envelope ft manifest_bytes.
      src = base @ manifest_bytes @ raw_archive_block (vp_container vp) @ envelope @ ft \<and>
      length ft = FOOTER_SIZE \<and> take 9 ft = MAGIC @ [FORMAT_VERSION] \<and>
      live_signers cr Ed25519 manifest_bytes (ct_signature (vp_container vp)) trust \<noteq> {} \<and>
      live_signers cr MlDsa87 manifest_bytes (ct_ml_dsa_87_signature (vp_container vp)) trust \<noteq> {} \<and>
      manifest_parse mc manifest_bytes FORMAT_VERSION = Inr (vp_manifest vp) \<and>
      manifest_ok (vp_manifest vp) \<and>
      (\<exists>v members. pm_format_version (vp_manifest vp) = Some v \<and> ts_min_manifest_format_version trust \<le> v \<and>
         pm_archive_members (vp_manifest vp) = Some members \<and>
         (\<forall>a \<in> set (pm_artifacts (vp_manifest vp)).
            build_of a = requested_build request \<and> build_of a \<notin> set (ts_withdrawn_builds trust) \<and>
            pa_archive_path a \<in> set (map am_name members)))"
proof -
  let ?c = "vp_container vp" and ?m = "vp_manifest vp"
  from assms(1) have r: "read_package_container src ENVELOPE_BOUNDS = (Inr ?c :: container_error + container)"
    and s: "package_signed cr ?c trust"
    and p: "manifest_parse mc (ct_manifest_bytes ?c) (ct_footer_version ?c) = Inr ?m"
    and floor: "\<forall>v. pm_format_version ?m = Some v \<longrightarrow> ts_min_manifest_format_version trust \<le> v"
    and st: "statements_ok ?m request trust"
    unfolding verify_package_Inr by blast+
  from read_package_layout [OF r assms(2)] obtain base envelope ft where
    layout: "src = base @ ct_manifest_bytes ?c @ raw_archive_block ?c @ envelope @ ft"
      "length ft = FOOTER_SIZE" "take 9 ft = MAGIC @ [FORMAT_VERSION]"
    and v3: "ct_footer_version ?c = FORMAT_VERSION" by blast
  have ok: "manifest_ok ?m" using manifest_parse_invariant [OF p] by blast
  from st obtain members where m: "pm_archive_members ?m = Some members"
    unfolding statements_ok_def members_ok_def by blast
  with ok obtain v where "pm_format_version ?m = Some v"
    by (cases "pm_format_version ?m") (auto simp: manifest_ok_def)
  moreover have "set (map am_name members) = set (map pa_archive_path (pm_artifacts ?m))"
    using st m members_paths unfolding statements_ok_def by blast
  ultimately have "\<exists>v members. pm_format_version ?m = Some v \<and> ts_min_manifest_format_version trust \<le> v \<and>
         pm_archive_members ?m = Some members \<and>
         (\<forall>a \<in> set (pm_artifacts ?m). build_of a = requested_build request \<and>
            build_of a \<notin> set (ts_withdrawn_builds trust) \<and> pa_archive_path a \<in> set (map am_name members))"
    using m floor st unfolding statements_ok_def by auto
  with layout s p ok v3 show ?thesis unfolding package_signed_def by metis
qed

theorem verified_package_sound_witness:
  "manifest_ok image_manifest \<and> (\<exists>base rest. sample_package = base @ rest \<and> length rest \<ge> FOOTER_SIZE)"
proof -
  from verified_package_sound [OF sample_package_verifies sample_source_small]
  obtain base envelope ft bs where
    "sample_package = base @ bs @ raw_archive_block (vp_container verified_sample) @ envelope @ ft"
    "length ft = FOOTER_SIZE" and ok: "manifest_ok (vp_manifest verified_sample)" by blast
  moreover from ok have "manifest_ok image_manifest" by (simp add: verified_sample_def)
  ultimately show ?thesis
    by (intro conjI exI [of _ base]
          exI [of _ "bs @ raw_archive_block (vp_container verified_sample) @ envelope @ ft"]) simp_all
qed

text \<open>
  C10: nothing of an unsigned manifest is interpreted: when a signature has no live signer, the outcome
  is one of the three signature errors, and it is the same whatever the decoders would have made of
  the bytes and whatever build was asked for.
\<close>

theorem unsigned_manifest_not_interpreted:
  assumes "read_package_container src ENVELOPE_BOUNDS = (Inr c :: container_error + container)"
    and "\<not> package_signed cr c trust"
  shows "\<exists>e. (\<forall>mc request. verify_package cr mc src trust request = Inl e) \<and>
    (\<exists>algorithm k. e \<in> {VE_BadSignature algorithm, VE_UnknownKeyId algorithm k, VE_RevokedKey algorithm k})"
proof -
  let ?ed = "verify_signature cr Ed25519 (ct_manifest_bytes c) (ct_signature c) (ct_key_id c) trust"
  let ?ml = "verify_signature cr MlDsa87 (ct_manifest_bytes c) (ct_ml_dsa_87_signature c) (ct_ml_dsa_87_key_id c) trust"
  have kind: "\<exists>algorithm' k. e \<in> {VE_BadSignature algorithm', VE_UnknownKeyId algorithm' k, VE_RevokedKey algorithm' k}"
    if "verify_signature cr algorithm message sb kb trust = Inl e" for algorithm message sb kb e
  proof -
    have "live_signers cr algorithm message sb trust = {}"
      using verify_signature_live(1) [of cr algorithm message sb kb trust] that by simp
    from verify_signature_error [OF this, of kb] that show ?thesis
      by (auto simp: verify_unhinted_def split: if_splits option.splits)
  qed
  have run: "verify_package cr mc src trust request =
      bind_res (authenticate cr mc c trust request) (\<lambda>m. Inr \<lparr>vp_container = c, vp_manifest = m\<rparr>)" for mc request
    using assms(1) by (simp add: verify_package_def)
  show ?thesis
  proof (cases ?ed)
    case (Inl e)
    then have "verify_package cr mc src trust request = Inl e" for mc request
      by (simp add: run authenticate_def authenticate_manifest_def)
    with kind [OF Inl] show ?thesis by blast
  next
    case (Inr k)
    with assms(2) obtain e where e: "?ml = Inl e" by (cases ?ml) (auto simp: package_signed_iff)
    with Inr have "verify_package cr mc src trust request = Inl e" for mc request
      by (simp add: run authenticate_def authenticate_manifest_def)
    with kind [OF e] show ?thesis by blast
  qed
qed

theorem unsigned_manifest_not_interpreted_witness:
  "\<exists>e. verify_package verify_crypto image_codec sample_package revoked_trust image_request = Inl e"
proof -
  have "\<not> package_signed verify_crypto (container_of ''EXE'' ''{}'' ''zst'' (Some sample_signed)) revoked_trust"
    by (simp add: package_signed_def container_of_fields present_of_def revoked_signers)
  from unsigned_manifest_not_interpreted [OF read_written_package [OF sample_writable] this]
  show ?thesis unfolding sample_package_def by blast
qed

section \<open>Image references\<close>

text \<open>
  Which images a verified package may be asked about. Below manifest format 6 a package that holds
  an image declares nothing about it; from format 6 on every image is declared, and the reference list
  is sorted, free of duplicates, and exactly the union of the declared public references.
\<close>

theorem image_references_of_verified:
  assumes "verify_package cr mc src trust request = Inr vp"
    and "pm_format_version (vp_manifest vp) = Some v"
  shows "image_references_of vp =
      (let images = filter (\<lambda>a. pa_kind a = ContainerImage) (pm_artifacts (vp_manifest vp)) in
       if images = [] then NoImages else if 6 \<le> v then Declared images else LegacyUndeclared) \<and>
    (\<forall>images. image_references_of vp = Declared images \<longrightarrow>
       sorted (references images) \<and> distinct (references images) \<and>
       set (references images) =
         (\<Union>a \<in> set images. case pa_image a of None \<Rightarrow> {} | Some d \<Rightarrow> set (id_public_refs d)))"
proof -
  from assms(1) have "manifest_ok (vp_manifest vp)"
    unfolding verify_package_Inr using manifest_parse_invariant by blast
  then have d: "pa_image a = None \<longleftrightarrow> v < 6"
    if "a \<in> set (pm_artifacts (vp_manifest vp))" "pa_kind a = ContainerImage" for a
    using that assms(2) by (auto simp: manifest_ok_def artifact_ok_def IMAGE_DECLARATION_FORMAT_VERSION_def)
  let ?images = "filter (\<lambda>a. pa_kind a = ContainerImage) (pm_artifacts (vp_manifest vp))"
  have "list_all (\<lambda>a. pa_image a \<noteq> None) ?images \<longleftrightarrow> 6 \<le> v" if "?images \<noteq> []"
  proof -
    from that have "\<exists>a. a \<in> set ?images" by (meson list.set_sel(1))
    then show ?thesis using d unfolding list_all_iff by (metis (mono_tags, lifting) linorder_not_less mem_Collect_eq set_filter)
  qed
  moreover have "set (references images) =
      (\<Union>a \<in> set images. case pa_image a of None \<Rightarrow> {} | Some d \<Rightarrow> set (id_public_refs d))" for images
    by (force simp: references_def declarations_def List.map_filter_def split: option.splits)
  ultimately show ?thesis by (simp add: image_references_of_def Let_def references_def)
qed

theorem image_references_of_verified_witness:
  "image_references_of verified_sample = Declared [image_artifact]"
proof -
  have "pm_format_version (vp_manifest verified_sample) = Some 9"
    by (simp add: verified_sample_def image_manifest_def)
  from image_references_of_verified [OF sample_package_verifies this] show ?thesis
    by (simp add: verified_sample_def image_manifest_def) (simp add: image_artifact_def)
qed

text \<open>
  The order of the statements matters to whoever reads the error: a withdrawn build is reported as
  withdrawn, not as the wrong target, an undelivered epoch or an image fault, whatever was requested.
\<close>

theorem withdrawal_reported_first:
  assumes "members_ok m" "check_identifiers m = Inr ()"
    and "pm_artifacts m = before @ a # after"
    and "\<forall>b \<in> set before. build_of b \<notin> set (ts_withdrawn_builds trust)"
    and "build_of a \<in> set (ts_withdrawn_builds trust)"
  shows "check_statements m request (Some trust)
      = Inl (VE_WithdrawnBuild (pa_component a) (pa_version a) (commit_or_empty a))"
proof -
  have w: "is_withdrawn trust (pa_component b) (pa_version b) (commit_or_empty b) \<longleftrightarrow>
      build_of b \<in> set (ts_withdrawn_builds trust)" for b
    by (auto simp: is_withdrawn_def build_of_def list_ex_iff)
  have "check_withdrawal m trust = Inl (VE_WithdrawnBuild (pa_component a) (pa_version a) (commit_or_empty a))"
    unfolding check_withdrawal_def assms(3)
    by (rule for_each_first_error) (use assms(4,5) w in auto)
  moreover have "check_completeness m = Inr ()" using assms(1) by (simp only: check_completeness_Inr)
  ultimately show ?thesis using assms(2) by (simp add: check_statements_def)
qed

theorem withdrawal_reported_first_witness:
  "check_statements image_manifest (image_request\<lparr>vr_target := ''other''\<rparr>)
     (Some (verify_trust\<lparr>ts_withdrawn_builds := [build_of image_artifact]\<rparr>))
   = Inl (VE_WithdrawnBuild ''web'' ''1.25.0'' (replicate 40 (CHR ''a'')))"
proof -
  have "members_ok image_manifest" using image_statements_ok by (simp add: statements_ok_def)
  moreover have "check_identifiers image_manifest = Inr ()"
  proof -
    have "list_all is_safe_build_identifier [''web'', ''1.25.0'', replicate 40 (CHR ''a'')]" by code_simp
    then show ?thesis
      by (simp add: check_identifiers_Inr image_manifest_def image_artifact_def commit_or_empty_def)
  qed
  ultimately show ?thesis
    using withdrawal_reported_first [of image_manifest "[]" image_artifact "[]"
        "verify_trust\<lparr>ts_withdrawn_builds := [build_of image_artifact]\<rparr>"]
    by (simp add: image_manifest_def) (simp add: image_artifact_def commit_or_empty_def)
qed

end
