(* ===== verification/Utf8.thy ===== *)
theory Utf8
  imports Rust_Text
begin

text \<open>
  \<open>std::str::from_utf8\<close> and \<open>String::from_utf8_lossy\<close>: the well-formed byte sequences of UTF-8, and the
  replacement of every maximal ill-formed part by U+FFFD.
\<close>

definition in_range :: "nat \<Rightarrow> nat \<Rightarrow> byte list \<Rightarrow> bool" where
  "in_range lo hi bs = (case bs of [] \<Rightarrow> False | b # _ \<Rightarrow> lo \<le> ord b \<and> ord b \<le> hi)"

text \<open>
  The sequence that starts with the lead byte \<open>a\<close> when \<open>s\<close> follows: whether it is well formed, and how
  many bytes of \<open>s\<close> belong to it.
\<close>

definition utf8_tail :: "byte \<Rightarrow> bytes \<Rightarrow> bool \<times> nat" where
  "utf8_tail a s =
     (let n = ord a in
      if n < 128 then (True, 0)
      else if 194 \<le> n \<and> n \<le> 223 then (if in_range 128 191 s then (True, 1) else (False, 0))
      else if 224 \<le> n \<and> n \<le> 239 then
        (if in_range (if n = 224 then 160 else 128) (if n = 237 then 159 else 191) s then
           (if in_range 128 191 (drop 1 s) then (True, 2) else (False, 1))
         else (False, 0))
      else if 240 \<le> n \<and> n \<le> 244 then
        (if in_range (if n = 240 then 144 else 128) (if n = 244 then 143 else 191) s then
           (if in_range 128 191 (drop 1 s) then
              (if in_range 128 191 (drop 2 s) then (True, 3) else (False, 2))
            else (False, 1))
         else (False, 0))
      else (False, 0))"

function is_utf8 :: "bytes \<Rightarrow> bool" where
  "is_utf8 [] = True"
| "is_utf8 (a # s) = (case utf8_tail a s of (ok, k) \<Rightarrow> ok \<and> is_utf8 (drop k s))"
  by pat_completeness auto
termination by (relation "measure length") auto

function from_utf8_lossy :: "bytes \<Rightarrow> bytes" where
  "from_utf8_lossy [] = []"
| "from_utf8_lossy (a # s) =
     (case utf8_tail a s of (ok, k) \<Rightarrow>
        (if ok then a # take k s else [CHR 0xEF, CHR 0xBF, CHR 0xBD]) @ from_utf8_lossy (drop k s))"
  by pat_completeness auto
termination by (relation "measure length") auto

declare is_utf8.simps(2) [simp del] from_utf8_lossy.simps(2) [simp del]

lemma lossy_utf8 [simp]: "is_utf8 s \<Longrightarrow> from_utf8_lossy s = s"
  by (induction s rule: from_utf8_lossy.induct)
    (auto simp: is_utf8.simps(2) from_utf8_lossy.simps(2) split: prod.splits)

lemma is_utf8_ascii: "list_all (\<lambda>c. ord c < 128) s \<Longrightarrow> is_utf8 s"
  by (induction s) (auto simp: is_utf8.simps(2) utf8_tail_def)

end
