(* ===== verification/Payload_Walk.thy ===== *)
theory Payload_Walk
  imports Manifest Utf8
begin

text \<open>
  Opening a package without a trust set and walking its archive block: \<open>open\<close>, \<open>open_package\<close>,
  \<open>derive_manifest\<close> and \<open>extract_to\<close> of \<open>src/payload.rs\<close>, and the member walk of
  \<open>src/payload/outer.rs\<close> without limits. What the zstd and tar crates make of the archive block is a
  parameter, the \<open>untar\<close> function: the entries a reader meets in order, each with the facts the walk
  asks of it, and the bytes past the end-of-archive marker.
\<close>

section \<open>Opening\<close>

record payload =
  pl_src :: bytes
  pl_manifest :: payload_manifest
  pl_archive_offset :: u64
  pl_archive_len :: u64
  pl_signature :: "bytes option"
  pl_key_id :: "bytes option"
  pl_ml_dsa_87_signature :: "bytes option"
  pl_ml_dsa_87_key_id :: "bytes option"

record envelope =
  en_signature :: "bytes option"
  en_key_id :: "bytes option"
  en_ml_dsa_87_signature :: "bytes option"
  en_ml_dsa_87_key_id :: "bytes option"

definition read_envelope :: "bytes \<Rightarrow> footer \<Rightarrow> 'm payload_error + envelope" where
  "read_envelope src f =
     bind_res (read_block src (ft_signature_offset f) (ft_signature_len f)) (\<lambda>signature.
     bind_res (read_block src (ft_key_id_offset f) (ft_key_id_len f)) (\<lambda>key_id.
     bind_res (read_block src (ft_ml_dsa_87_signature_offset f) (ft_ml_dsa_87_signature_len f)) (\<lambda>ml_signature.
     bind_res (read_block src (ft_ml_dsa_87_key_id_offset f) (ft_ml_dsa_87_key_id_len f)) (\<lambda>ml_key_id.
     Inr \<lparr>en_signature = signature, en_key_id = key_id, en_ml_dsa_87_signature = ml_signature,
          en_ml_dsa_87_key_id = ml_key_id\<rparr>))))"

fun open_manifest_error :: "manifest_error \<Rightarrow> manifest_error payload_error" where
  "open_manifest_error MF_Decode = PE_ManifestParse"
| "open_manifest_error e = PE_InvalidManifest e"

definition payload_open :: "manifest_codec \<Rightarrow> bytes \<Rightarrow> manifest_error payload_error + payload option" where
  "payload_open mc src =
     bind_res (read_container_head src) (\<lambda>head.
     case head of
       None \<Rightarrow> Inr None
     | Some (f, manifest_bytes) \<Rightarrow>
         bind_res (map_err open_manifest_error (manifest_parse mc manifest_bytes (ft_version f))) (\<lambda>manifest.
         bind_res (read_envelope src f) (\<lambda>en.
         Inr (Some \<lparr>pl_src = src, pl_manifest = manifest, pl_archive_offset = ft_archive_offset f,
               pl_archive_len = ft_archive_len f, pl_signature = en_signature en, pl_key_id = en_key_id en,
               pl_ml_dsa_87_signature = en_ml_dsa_87_signature en,
               pl_ml_dsa_87_key_id = en_ml_dsa_87_key_id en\<rparr>))))"

definition open_package :: "manifest_codec \<Rightarrow> bytes \<Rightarrow> manifest_error payload_error + payload" where
  "open_package mc src = bind_res (payload_open mc src) (\<lambda>p. ok_or PE_NoTrailer p)"

section \<open>The manifest a producer derives\<close>

record artifact_input =
  ai_component :: bytes
  ai_version :: bytes
  ai_commit :: bytes
  ai_target_arch :: target_arch
  ai_kind :: artifact_kind
  ai_dispositions :: "disposition list"
  ai_archive_path :: bytes
  ai_spec :: "module_spec option"
  ai_image :: "image_declaration option"
  ai_source :: bytes

definition derive_manifest ::
  "manifest_codec \<Rightarrow> bytes option \<Rightarrow> bytes option \<Rightarrow> (artifact_input \<times> bytes \<times> u64) list \<Rightarrow>
     manifest_error payload_error + payload_manifest" where
  "derive_manifest mc pinset trust_set members =
     bind_res (map_err PE_InvalidManifest
       (manifest_new mc pinset
         (map (\<lambda>(i, _, length). \<lparr>am_name = ai_archive_path i, am_length = length\<rparr>) members)
         (map (\<lambda>(i, sha256, _).
            \<lparr>pa_component = ai_component i, pa_version = ai_version i, pa_commit = Some (ai_commit i),
             pa_target_arch = ai_target_arch i, pa_kind = ai_kind i, pa_dispositions = ai_dispositions i,
             pa_archive_path = ai_archive_path i, pa_sha256 = sha256, pa_spec = ai_spec i,
             pa_image = ai_image i\<rparr>) members))) (\<lambda>manifest.
     case trust_set of
       Some generation \<Rightarrow> map_err PE_InvalidManifest (with_trust_set mc manifest generation)
     | None \<Rightarrow> Inr manifest)"

section \<open>What the archive reader yields\<close>

text \<open>A content of \<open>None\<close> is a member whose bytes cannot be read to their end.\<close>

record tar_entry =
  te_regular :: bool
  te_header_name :: bytes
  te_name :: bytes
  te_header_size :: "u64 option"
  te_size :: u64
  te_content :: "bytes option"

datatype tar_item = BadItem | Item tar_entry

text \<open>The reads past the marker, and whether the reader then fails instead of ending.\<close>

record tar_stream =
  tr_items :: "tar_item list"
  tr_trailing :: "bytes list"
  tr_trailing_fails :: bool

type_synonym untar = "bytes \<Rightarrow> tar_stream option"

section \<open>Checks on one member\<close>

definition admitted_member_path :: "tar_entry \<Rightarrow> manifest_error payload_error + bytes" where
  "admitted_member_path e =
     (let display = from_utf8_lossy (te_name e) in
      if \<not> te_regular e then Inl (PE_UnsupportedEntryType display)
      else if te_header_name e \<noteq> te_name e then
        Inl (PE_NameOverridingHeader (from_utf8_lossy (te_header_name e)) display)
      else bind_res (ok_or PE_Io (te_header_size e)) (\<lambda>header_size.
        if header_size \<noteq> te_size e then Inl (PE_SizeOverridingHeader display header_size (te_size e))
        else if \<not> is_utf8 (te_name e) then Inl (PE_UnsafeMemberPath display)
        else if \<not> is_safe_archive_path (te_name e) then Inl (PE_UnsafeMemberPath display)
        else Inr display))"

definition MAX_END_OF_ARCHIVE_BYTES :: nat where "MAX_END_OF_ARCHIVE_BYTES = 512"

fun reject_trailing_bytes :: "nat \<Rightarrow> bytes list \<Rightarrow> bool \<Rightarrow> 'm payload_error + unit" where
  "reject_trailing_bytes remaining [] fails = (if fails then Inl PE_Io else Inr ())"
| "reject_trailing_bytes remaining (chunk # rest) fails =
     (if chunk = [] then Inr ()
      else let total = remaining + length chunk in
        if list_ex (\<lambda>b. b \<noteq> CHR 0x00) chunk \<or> MAX_END_OF_ARCHIVE_BYTES < total
        then Inl PE_TrailingArchiveBytes
        else reject_trailing_bytes total rest fails)"

fun compare_member_list_from :: "nat \<Rightarrow> archive_member list \<Rightarrow> archive_member list \<Rightarrow> 'm payload_error + unit" where
  "compare_member_list_from i [] [] = Inr ()"
| "compare_member_list_from i (b # bs) [] = Inl (PE_MemberListMismatch i (Some b) None)"
| "compare_member_list_from i [] (w # ws) = Inl (PE_MemberListMismatch i None (Some w))"
| "compare_member_list_from i (b # bs) (w # ws) =
     (if b \<noteq> w then Inl (PE_MemberListMismatch i (Some b) (Some w))
      else compare_member_list_from (Suc i) bs ws)"

definition compare_member_list :: "archive_member list \<Rightarrow> archive_member list \<Rightarrow> 'm payload_error + unit" where
  "compare_member_list bound walked = compare_member_list_from 0 bound walked"

section \<open>The walk\<close>

datatype 'e sink_fault = SF_Stream | SF_Sink 'e

datatype 'e walk_error =
    WE_Payload "manifest_error payload_error"
  | WE_Sink 'e

text \<open>\<open>MemberSink\<close>: what a member is handed to, with the sink's own state.\<close>

record ('s, 'e) member_sink =
  ms_receive :: "payload_artifact \<Rightarrow> bytes \<Rightarrow> bytes option \<Rightarrow> 's \<Rightarrow> ('e sink_fault + bytes \<times> u64) \<times> 's"
  ms_accept :: "'s \<Rightarrow> ('e + unit) \<times> 's"

fun fault_error :: "'e sink_fault \<Rightarrow> 'e walk_error" where
  "fault_error SF_Stream = WE_Payload PE_Io"
| "fault_error (SF_Sink e) = WE_Sink e"

text \<open>The map from archive path to artifact; a later artifact replaces an earlier one.\<close>

definition by_path :: "payload_artifact list \<Rightarrow> bytes \<rightharpoonup> payload_artifact" where
  "by_path artifacts = map_of (rev (map (\<lambda>a. (pa_archive_path a, a)) artifacts))"

fun walk_items ::
  "('s, 'e) member_sink \<Rightarrow> payload_artifact list \<Rightarrow> bytes list \<Rightarrow> archive_member list \<Rightarrow> tar_item list \<Rightarrow> 's \<Rightarrow>
     ('e walk_error + bytes list \<times> archive_member list) \<times> 's" where
  "walk_items sink artifacts seen walked [] s = (Inr (seen, walked), s)"
| "walk_items sink artifacts seen walked (BadItem # rest) s = (Inl (WE_Payload PE_Io), s)"
| "walk_items sink artifacts seen walked (Item e # rest) s =
     (case admitted_member_path e of
        Inl err \<Rightarrow> (Inl (WE_Payload err), s)
      | Inr member_path \<Rightarrow>
     (case by_path artifacts member_path of
        None \<Rightarrow> (Inl (WE_Payload (PE_MemberNotInManifest member_path)), s)
      | Some a \<Rightarrow>
          if pa_archive_path a \<in> set seen then (Inl (WE_Payload (PE_DuplicateMember member_path)), s)
          else
     (case ms_receive sink a member_path (te_content e) s of
        (Inl f, s1) \<Rightarrow> (Inl (fault_error f), s1)
      | (Inr (digest, len), s1) \<Rightarrow>
          if \<not> eq_ignore_ascii_case digest (pa_sha256 a) then
            (Inl (WE_Payload (PE_HashMismatch (pa_archive_path a))), s1)
          else
     (case ms_accept sink s1 of
        (Inl err, s2) \<Rightarrow> (Inl (WE_Sink err), s2)
      | (Inr _, s2) \<Rightarrow>
          walk_items sink artifacts (pa_archive_path a # seen)
            (walked @ [\<lparr>am_name = member_path, am_length = len\<rparr>]) rest s2))))"

text \<open>The checks after the loop.\<close>

definition walk_end ::
  "payload_manifest \<Rightarrow> tar_stream \<Rightarrow> bytes list \<Rightarrow> archive_member list \<Rightarrow> manifest_error payload_error + unit" where
  "walk_end manifest stream seen walked =
     bind_res (reject_trailing_bytes 0 (tr_trailing stream) (tr_trailing_fails stream)) (\<lambda>_.
     bind_res (for_each (\<lambda>a. ensure (pa_archive_path a \<in> set seen)
         (PE_ArtifactMissingFromArchive (pa_archive_path a))) (pm_artifacts manifest)) (\<lambda>_.
     case pm_archive_members manifest of
       None \<Rightarrow> Inr ()
     | Some bound \<Rightarrow> compare_member_list bound walked))"

definition walk_outer ::
  "untar \<Rightarrow> ('s, 'e) member_sink \<Rightarrow> bytes \<Rightarrow> payload_manifest \<Rightarrow> 's \<Rightarrow> ('e walk_error + unit) \<times> 's" where
  "walk_outer untar sink archive manifest s =
     (case untar archive of
        None \<Rightarrow> (Inl (WE_Payload PE_Io), s)
      | Some stream \<Rightarrow>
          (case walk_items sink (pm_artifacts manifest) [] [] (tr_items stream) s of
             (Inl e, s') \<Rightarrow> (Inl e, s')
           | (Inr (seen, walked), s') \<Rightarrow> (map_err WE_Payload (walk_end manifest stream seen walked), s')))"

fun legacy_error :: "manifest_error payload_error walk_error \<Rightarrow> manifest_error payload_error" where
  "legacy_error (WE_Payload e) = e"
| "legacy_error (WE_Sink e) = e"

section \<open>Extraction\<close>

text \<open>
  The staging sink. Its directory is private to the extraction and starts empty, so a member cannot
  be staged exactly when one of its parents is a staged file or it is itself the parent of one.
\<close>

record staging_sink =
  ss_staged :: "(bytes \<times> payload_artifact \<times> bytes) list"
  ss_current :: "(bytes \<times> payload_artifact \<times> bytes) option"

definition path_conflict :: "bytes \<Rightarrow> bytes \<Rightarrow> bool" where
  "path_conflict p q \<longleftrightarrow> p = q \<or> starts_with (p @ ''/'') q \<or> starts_with (q @ ''/'') p"

definition hash_copy :: "crypto \<Rightarrow> bytes \<Rightarrow> bytes \<times> u64" where
  "hash_copy cr content = (sha256_hex cr content, u64_of (length content))"

definition staging_receive ::
  "crypto \<Rightarrow> payload_artifact \<Rightarrow> bytes \<Rightarrow> bytes option \<Rightarrow> staging_sink \<Rightarrow>
     (manifest_error payload_error sink_fault + bytes \<times> u64) \<times> staging_sink" where
  "staging_receive cr a member_path stream s =
     (if list_ex (\<lambda>(q, _). path_conflict q member_path) (ss_staged s) then (Inl (SF_Sink PE_Io), s)
      else case stream of
        None \<Rightarrow> (Inl (SF_Sink PE_Io), s)
      | Some content \<Rightarrow> (Inr (hash_copy cr content), s\<lparr>ss_current := Some (member_path, a, content)\<rparr>))"

definition staging_accept :: "staging_sink \<Rightarrow> (manifest_error payload_error + unit) \<times> staging_sink" where
  "staging_accept s =
     (case ss_current s of
        None \<Rightarrow> (Inr (), s)
      | Some x \<Rightarrow> (Inr (), s\<lparr>ss_current := None, ss_staged := ss_staged s @ [x]\<rparr>))"

definition staging_of :: "crypto \<Rightarrow> (staging_sink, manifest_error payload_error) member_sink" where
  "staging_of cr = \<lparr>ms_receive = staging_receive cr, ms_accept = staging_accept\<rparr>"

definition payload_archive :: "payload \<Rightarrow> bytes" where
  "payload_archive p = take (unat (pl_archive_len p)) (drop (unat (pl_archive_offset p)) (pl_src p))"

text \<open>The files a successful extraction publishes into an empty directory.\<close>

definition extract_to ::
  "crypto \<Rightarrow> untar \<Rightarrow> payload \<Rightarrow> manifest_error payload_error + (bytes \<times> payload_artifact \<times> bytes) list" where
  "extract_to cr untar p =
     (case walk_outer untar (staging_of cr) (payload_archive p) (pl_manifest p)
         \<lparr>ss_staged = [], ss_current = None\<rparr> of
        (Inl e, _) \<Rightarrow> Inl (legacy_error e)
      | (Inr _, s) \<Rightarrow> Inr (ss_staged s))"

end
