(* ===== verification/Payload_Walk_Correct.thy ===== *)
theory Payload_Walk_Correct
  imports Payload_Walk Verify_Correct
begin

text \<open>
  Which archives extract, and to what: the contract of a member sink as a locale, the walk's
  soundness for every sink that keeps it, and the exact behaviour of extraction through the staging
  sink.
\<close>

section \<open>One member\<close>

type_synonym extracted = "bytes \<times> payload_artifact \<times> bytes"

definition member_admitted :: "tar_entry \<Rightarrow> bytes \<Rightarrow> bool" where
  "member_admitted e p \<longleftrightarrow>
     te_regular e \<and> te_header_name e = te_name e \<and> te_header_size e = Some (te_size e) \<and>
     p = te_name e \<and> is_utf8 p \<and> is_safe_archive_path p"

definition member_matches :: "crypto \<Rightarrow> payload_artifact list \<Rightarrow> tar_entry \<Rightarrow> extracted \<Rightarrow> bool" where
  "member_matches cr artifacts e x \<longleftrightarrow>
     (case x of (p, a, c) \<Rightarrow>
        member_admitted e p \<and> by_path artifacts p = Some a \<and> te_content e = Some c \<and>
        eq_ignore_ascii_case (sha256_hex cr c) (pa_sha256 a))"

definition member_of :: "extracted \<Rightarrow> archive_member" where
  "member_of x = (case x of (p, a, c) \<Rightarrow> \<lparr>am_name = p, am_length = u64_of (length c)\<rparr>)"

lemma admitted_member_path_Inr: "admitted_member_path e = Inr p \<longleftrightarrow> member_admitted e p"
  by (auto simp: admitted_member_path_def member_admitted_def Let_def)

lemma by_path_path: "by_path artifacts p = Some a \<Longrightarrow> a \<in> set artifacts \<and> pa_archive_path a = p"
  unfolding by_path_def by (drule map_of_SomeD) auto

lemma by_path_distinct:
  assumes "distinct (map pa_archive_path artifacts)" "a \<in> set artifacts"
  shows "by_path artifacts (pa_archive_path a) = Some a"
  unfolding by_path_def
  by (rule map_of_is_SomeI) (use assms in \<open>auto simp: comp_def distinct_rev rev_map [symmetric]\<close>)

lemma walk_items_step:
  assumes "walk_items sink artifacts seen walked (Item e # rest) s = (Inr r, s')"
  obtains p a d n s1 u s2 where "member_admitted e p" "by_path artifacts p = Some a" "p \<notin> set seen"
    "ms_receive sink a p (te_content e) s = (Inr (d, n), s1)" "eq_ignore_ascii_case d (pa_sha256 a)"
    "ms_accept sink s1 = (Inr u, s2)"
    "walk_items sink artifacts (p # seen) (walked @ [\<lparr>am_name = p, am_length = n\<rparr>]) rest s2 = (Inr r, s')"
proof -
  from assms obtain p where p: "admitted_member_path e = Inr p" by (cases "admitted_member_path e") auto
  with assms obtain a where a: "by_path artifacts p = Some a" by (cases "by_path artifacts p") auto
  from by_path_path [OF a] have ap: "pa_archive_path a = p" by simp
  with assms p a have new: "p \<notin> set seen" by (auto split: if_splits)
  obtain q s1 where q: "ms_receive sink a p (te_content e) s = (q, s1)" by force
  with assms p a new ap obtain d n where dn: "q = Inr (d, n)" by (cases q) auto
  obtain w s2 where w: "ms_accept sink s1 = (w, s2)" by force
  from assms p a new ap q dn w have h: "eq_ignore_ascii_case d (pa_sha256 a)" by (auto split: if_splits)
  with assms p a new ap q dn w obtain u where u: "w = Inr u" by (cases w) auto
  have "walk_items sink artifacts (p # seen) (walked @ [\<lparr>am_name = p, am_length = n\<rparr>]) rest s2 = (Inr r, s')"
    using assms p a new ap q dn w h u by simp
  then show ?thesis using that p a new q dn h w u by (simp add: admitted_member_path_Inr)
qed

section \<open>The walk through any faithful sink\<close>

text \<open>
  What a sink promises: a member it receives and then accepts is recorded with the bytes it read, and
  the digest and length it reports are those of these bytes.
\<close>

locale faithful_sink =
  fixes sink :: "('s, 'e) member_sink"
    and cr :: crypto
    and held :: "'s \<Rightarrow> extracted list"
  assumes received: "ms_receive sink a p stream s = (Inr (d, n), s1) \<Longrightarrow> ms_accept sink s1 = (Inr u, s2) \<Longrightarrow>
    \<exists>c. stream = Some c \<and> d = sha256_hex cr c \<and> n = u64_of (length c) \<and> held s2 = held s @ [(p, a, c)]"
begin

lemma walk_items_sound:
  assumes "walk_items sink artifacts seen walked items s = (Inr (seen', walked'), s')"
  shows "\<exists>es xs. items = map Item es \<and> held s' = held s @ xs \<and>
    list_all2 (member_matches cr artifacts) es xs \<and>
    seen' = rev (map fst xs) @ seen \<and> walked' = walked @ map member_of xs \<and>
    distinct (map fst xs) \<and> set (map fst xs) \<inter> set seen = {}"
  using assms
proof (induction items arbitrary: seen walked s)
  case Nil
  then show ?case by (intro exI [of _ "[]"]) auto
next
  case (Cons item rest)
  show ?case
  proof (cases item)
    case BadItem
    with Cons.prems show ?thesis by simp
  next
    case (Item e)
    from walk_items_step [OF Cons.prems [unfolded Item]] obtain p a d n s1 u s2
      where p: "member_admitted e p" and a: "by_path artifacts p = Some a" and new: "p \<notin> set seen"
        and r: "ms_receive sink a p (te_content e) s = (Inr (d, n), s1)"
        and h: "eq_ignore_ascii_case d (pa_sha256 a)" and u: "ms_accept sink s1 = (Inr u, s2)"
        and tail: "walk_items sink artifacts (p # seen) (walked @ [\<lparr>am_name = p, am_length = n\<rparr>]) rest s2
          = (Inr (seen', walked'), s')" .
    from received [OF r u] obtain c where
      c: "te_content e = Some c" "d = sha256_hex cr c" "n = u64_of (length c)" "held s2 = held s @ [(p, a, c)]"
      by blast
    from Cons.IH [OF tail] obtain es xs where IH: "rest = map Item es" "held s' = held s2 @ xs"
      "list_all2 (member_matches cr artifacts) es xs" "seen' = rev (map fst xs) @ p # seen"
      "walked' = (walked @ [\<lparr>am_name = p, am_length = n\<rparr>]) @ map member_of xs"
      "distinct (map fst xs)" "set (map fst xs) \<inter> set (p # seen) = {}" by blast
    have "member_matches cr artifacts e (p, a, c)"
      using p a c h by (simp add: member_matches_def)
    with IH Item c new show ?thesis
      by (intro exI [of _ "e # es"] exI [of _ "(p, a, c) # xs"]) (auto simp: member_of_def)
  qed
qed

end

lemma staging_received:
  assumes "staging_receive cr a p stream s = (Inr (d, n), s1)" "staging_accept s1 = (Inr u, s2)"
  shows "\<exists>c. stream = Some c \<and> d = sha256_hex cr c \<and> n = u64_of (length c) \<and>
    ss_staged s2 = ss_staged s @ [(p, a, c)] \<and> \<not> list_ex (\<lambda>(q, _). path_conflict q p) (ss_staged s)"
  using assms by (auto simp: staging_receive_def staging_accept_def hash_copy_def split: if_splits option.splits)

interpretation staging: faithful_sink "staging_of cr" cr ss_staged for cr
  by unfold_locales (auto simp: staging_of_def dest!: staging_received)

section \<open>Which archives extract\<close>

definition zero_byte :: "byte \<Rightarrow> bool" where
  "zero_byte b \<longleftrightarrow> b = CHR 0x00"

lemma not_all_zero: "list_ex (\<lambda>b. b \<noteq> CHR 0x00) c \<longleftrightarrow> \<not> list_all zero_byte c"
  by (induction c) (simp_all add: zero_byte_def)

definition trailing_ok :: "tar_stream \<Rightarrow> bool" where
  "trailing_ok stream \<longleftrightarrow>
     (let read = takeWhile (\<lambda>c. c \<noteq> []) (tr_trailing stream) in
      list_all zero_byte (concat read) \<and> length (concat read) \<le> 512 \<and>
      (read = tr_trailing stream \<longrightarrow> \<not> tr_trailing_fails stream))"

text \<open>The declarative counterpart of an extraction: what was published, and from which archive.\<close>

definition faithful_archive :: "crypto \<Rightarrow> payload_manifest \<Rightarrow> tar_stream \<Rightarrow> extracted list \<Rightarrow> bool" where
  "faithful_archive cr m stream xs \<longleftrightarrow>
     (\<exists>es. tr_items stream = map Item es \<and> list_all2 (member_matches cr (pm_artifacts m)) es xs) \<and>
     sorted_wrt (\<lambda>x y. \<not> path_conflict (fst x) (fst y)) xs \<and>
     set (map fst xs) = set (map pa_archive_path (pm_artifacts m)) \<and>
     (case pm_archive_members m of None \<Rightarrow> True | Some bound \<Rightarrow> bound = map member_of xs) \<and>
     trailing_ok stream"

lemma reject_trailing_bytes_Inr:
  "(reject_trailing_bytes n chunks fails :: 'm payload_error + unit) = Inr () \<longleftrightarrow>
     list_all zero_byte (concat (takeWhile (\<lambda>c. c \<noteq> []) chunks)) \<and>
     (takeWhile (\<lambda>c. c \<noteq> []) chunks = [] \<or> n + length (concat (takeWhile (\<lambda>c. c \<noteq> []) chunks)) \<le> 512) \<and>
     (takeWhile (\<lambda>c. c \<noteq> []) chunks = chunks \<longrightarrow> \<not> fails)"
proof (induction chunks arbitrary: n)
  case Nil
  then show ?case by simp
next
  case (Cons c chunks)
  let ?read = "takeWhile (\<lambda>c. c \<noteq> []) chunks"
  show ?case
  proof (cases "c = []")
    case True
    then show ?thesis by simp
  next
    case False
    then have t: "takeWhile (\<lambda>c. c \<noteq> []) (c # chunks) = c # ?read" by simp
    have "(reject_trailing_bytes n (c # chunks) fails :: 'm payload_error + unit) = Inr () \<longleftrightarrow>
        list_all zero_byte c \<and> n + length c \<le> 512 \<and>
        (reject_trailing_bytes (n + length c) chunks fails :: 'm payload_error + unit) = Inr ()"
      using False by (auto simp: Let_def not_all_zero MAX_END_OF_ARCHIVE_BYTES_def)
    also have "\<dots> \<longleftrightarrow> list_all zero_byte c \<and> list_all zero_byte (concat ?read) \<and>
        n + length c + length (concat ?read) \<le> 512 \<and> (?read = chunks \<longrightarrow> \<not> fails)"
    proof (cases "?read = []")
      case True
      then show ?thesis unfolding Cons.IH True by simp
    next
      case False
      moreover have "n + length c + length (concat ?read) \<le> 512 \<Longrightarrow> n + length c \<le> 512" by linarith
      ultimately show ?thesis unfolding Cons.IH by blast
    qed
    also have "\<dots> \<longleftrightarrow> list_all zero_byte (concat (c # ?read)) \<and>
        n + length (concat (c # ?read)) \<le> 512 \<and> (c # ?read = c # chunks \<longrightarrow> \<not> fails)"
      unfolding concat.simps list_all_append length_append add.assoc list.inject by blast
    finally show ?thesis unfolding t by simp
  qed
qed

lemma reject_trailing_ok:
  "reject_trailing_bytes 0 (tr_trailing stream) (tr_trailing_fails stream) = Inr () \<longleftrightarrow> trailing_ok stream"
proof (cases "takeWhile (\<lambda>c. c \<noteq> []) (tr_trailing stream) = []")
  case True
  then show ?thesis unfolding reject_trailing_bytes_Inr trailing_ok_def Let_def True by simp
next
  case False
  then show ?thesis unfolding reject_trailing_bytes_Inr trailing_ok_def Let_def add_0 by blast
qed

lemma compare_member_list_from_Inr: "compare_member_list_from i bound walked = Inr () \<longleftrightarrow> bound = walked"
  by (induction i bound walked rule: compare_member_list_from.induct) auto

lemma walk_end_Inr:
  "walk_end m stream seen walked = Inr () \<longleftrightarrow>
     trailing_ok stream \<and> set (map pa_archive_path (pm_artifacts m)) \<subseteq> set seen \<and>
     (case pm_archive_members m of None \<Rightarrow> True | Some bound \<Rightarrow> bound = walked)"
  by (auto simp: walk_end_def reject_trailing_ok compare_member_list_def compare_member_list_from_Inr
      split: option.splits)

lemma walk_items_invariant:
  assumes step: "\<And>a p stream s d s1 u s2. I s \<Longrightarrow> ms_receive sink a p stream s = (Inr d, s1) \<Longrightarrow>
      ms_accept sink s1 = (Inr u, s2) \<Longrightarrow> I s2"
  shows "walk_items sink artifacts seen walked items s = (Inr r, s') \<Longrightarrow> I s \<Longrightarrow> I s'"
proof (induction items arbitrary: seen walked s)
  case Nil
  then show ?case by simp
next
  case (Cons item rest)
  then obtain e where e: "item = Item e" by (cases item) auto
  from walk_items_step [OF Cons.prems(1) [unfolded e]] show ?case
    using Cons.IH Cons.prems(2) step by metis
qed

abbreviation apart :: "extracted \<Rightarrow> extracted \<Rightarrow> bool" where
  "apart x y \<equiv> \<not> path_conflict (fst x) (fst y)"

lemma staging_apart:
  assumes "walk_items (staging_of cr) artifacts seen walked items s = (Inr r, s')"
    "sorted_wrt apart (ss_staged s)"
  shows "sorted_wrt apart (ss_staged s')"
proof (rule walk_items_invariant [where I = "\<lambda>s. sorted_wrt apart (ss_staged s)", OF _ assms])
  fix a p stream s d s1 u s2
  assume "sorted_wrt apart (ss_staged s)" "ms_receive (staging_of cr) a p stream s = (Inr d, s1)"
    "ms_accept (staging_of cr) s1 = (Inr u, s2)"
  then show "sorted_wrt apart (ss_staged s2)"
    using staging_received [of cr a p stream s "fst d" "snd d" s1 u s2]
    by (fastforce simp: staging_of_def sorted_wrt_append list_ex_iff)
qed

lemma walk_staging_complete:
  assumes "list_all2 (member_matches cr artifacts) es xs" "sorted_wrt apart (ss_staged s @ xs)"
    "set seen = fst ` set (ss_staged s)"
  shows "\<exists>s'. walk_items (staging_of cr) artifacts seen walked (map Item es) s
      = (Inr (rev (map fst xs) @ seen, walked @ map member_of xs), s') \<and> ss_staged s' = ss_staged s @ xs"
  using assms
proof (induction es xs arbitrary: seen walked s rule: list_all2_induct)
  case Nil
  then show ?case by simp
next
  case (Cons e es x xs)
  obtain p a c where x: "x = (p, a, c)" by (cases x)
  with Cons.hyps(1) have m: "admitted_member_path e = Inr p" "by_path artifacts p = Some a" "te_content e = Some c"
    "eq_ignore_ascii_case (sha256_hex cr c) (pa_sha256 a)"
    by (simp_all add: member_matches_def admitted_member_path_Inr)
  have ap: "pa_archive_path a = p" using by_path_path [OF m(2)] by simp
  from Cons.prems(1) x have clear: "\<forall>y \<in> set (ss_staged s). \<not> path_conflict (fst y) p"
    by (simp add: sorted_wrt_append)
  then have new: "p \<notin> set seen" using Cons.prems(2) by (auto simp: path_conflict_def)
  define s2 where "s2 = s\<lparr>ss_current := None, ss_staged := ss_staged s @ [x]\<rparr>"
  have sorted: "sorted_wrt apart (ss_staged s2 @ xs)" "set (p # seen) = fst ` set (ss_staged s2)"
    using Cons.prems x by (simp_all add: s2_def)
  from Cons.IH [OF sorted, of "walked @ [member_of x]"] obtain s' where
    s': "walk_items (staging_of cr) artifacts (p # seen) (walked @ [member_of x]) (map Item es) s2
      = (Inr (rev (map fst xs) @ p # seen, (walked @ [member_of x]) @ map member_of xs), s')"
      "ss_staged s' = ss_staged s2 @ xs" by blast
  have "walk_items (staging_of cr) artifacts seen walked (Item e # map Item es) s =
      walk_items (staging_of cr) artifacts (p # seen) (walked @ [member_of x]) (map Item es) s2"
    using m ap new clear x
    by (auto simp: staging_of_def staging_receive_def staging_accept_def hash_copy_def list_ex_iff member_of_def s2_def)
  then show ?case using s' x by (simp add: s2_def)
qed

lemma sorted_apart_distinct: "sorted_wrt apart xs \<Longrightarrow> distinct (map fst xs)"
  by (induction xs) (auto simp: path_conflict_def)

lemma extract_to_Inr:
  "extract_to cr untar p = Inr xs \<longleftrightarrow>
     (\<exists>stream. untar (payload_archive p) = Some stream \<and> faithful_archive cr (pl_manifest p) stream xs)"
proof (cases "untar (payload_archive p)")
  case None
  then show ?thesis by (simp add: extract_to_def walk_outer_def)
next
  case (Some stream)
  let ?m = "pl_manifest p" and ?s = "\<lparr>ss_staged = [], ss_current = None\<rparr>"
  let ?walk = "walk_items (staging_of cr) (pm_artifacts ?m) [] [] (tr_items stream) ?s"
  have run: "extract_to cr untar p = Inr xs \<longleftrightarrow>
      (\<exists>seen walked s'. ?walk = (Inr (seen, walked), s') \<and> walk_end ?m stream seen walked = Inr () \<and>
         ss_staged s' = xs)"
    using Some by (cases ?walk) (auto simp: extract_to_def walk_outer_def split: sum.splits prod.splits)
  have "(\<exists>seen walked s'. ?walk = (Inr (seen, walked), s') \<and> walk_end ?m stream seen walked = Inr () \<and>
         ss_staged s' = xs) \<longleftrightarrow> faithful_archive cr ?m stream xs" (is "?l \<longleftrightarrow> _")
  proof
    assume ?l
    then obtain seen walked s' where w: "?walk = (Inr (seen, walked), s')"
      and e: "walk_end ?m stream seen walked = Inr ()" and xs: "ss_staged s' = xs" by blast
    from staging.walk_items_sound [OF w] xs obtain es where
      es: "tr_items stream = map Item es" "list_all2 (member_matches cr (pm_artifacts ?m)) es xs"
        "seen = rev (map fst xs)" "walked = map member_of xs" by auto
    have "sorted_wrt apart xs" using staging_apart [OF w] xs by simp
    moreover have "fst x \<in> set (map pa_archive_path (pm_artifacts ?m))" if "x \<in> set xs" for x
      using es(2) that by_path_path unfolding list_all2_conv_all_nth in_set_conv_nth
      by (force simp: member_matches_def)
    ultimately show "faithful_archive cr ?m stream xs"
      using es e by (auto simp: faithful_archive_def walk_end_Inr)
  next
    assume f: "faithful_archive cr ?m stream xs"
    then obtain es where es: "tr_items stream = map Item es"
      "list_all2 (member_matches cr (pm_artifacts ?m)) es xs" "sorted_wrt apart xs"
      by (auto simp: faithful_archive_def)
    from walk_staging_complete [OF es(2), of ?s "[]" "[]"] es(1,3) obtain s' where
      "?walk = (Inr (rev (map fst xs), map member_of xs), s')" "ss_staged s' = xs" by auto
    moreover have "walk_end ?m stream (rev (map fst xs)) (map member_of xs) = Inr ()"
      using f by (simp add: faithful_archive_def walk_end_Inr)
    ultimately show ?l by blast
  qed
  then show ?thesis using run Some by simp
qed

text \<open>
  C11: extraction, exactly. An opened package extracts to a list of files precisely when the archive's
  entries are these files in this order, each a regular member named and sized by its own header,
  with a safe UTF-8 path, bound by the manifest and with the digest the manifest records; no two paths
  are equal or nested, every artifact is there, the names and lengths are the bound member list, and
  nothing but one zero block follows the end marker.
\<close>

theorem extraction_accepted_iff:
  "extract_to cr untar p = Inr xs \<longleftrightarrow>
     (\<exists>stream. untar (payload_archive p) = Some stream \<and> faithful_archive cr (pl_manifest p) stream xs)"
  by (rule extract_to_Inr)

section \<open>Opening and verifying read the same package\<close>

lemma read_block_of_bounded:
  assumes "(read_bounded_block src offset len bound :: 'm payload_error + envelope_block) = Inr b" "b \<noteq> WrongLength"
  shows "\<exists>x. (read_block src offset len :: 'm payload_error + bytes option) = Inr x"
  using assms by (cases "read_block src offset len :: 'm payload_error + bytes option")
    (auto simp: read_bounded_block_def read_block_def split: if_splits)

lemma read_envelope_of_container:
  assumes "(finish_package_container src f manifest bounds :: 'm payload_error + container) = Inr c"
    and "WrongLength \<notin> set (envelope_of c)"
  shows "\<exists>en. (read_envelope src f :: 'm payload_error + envelope) = Inr en"
proof -
  from assms(1) obtain sg kid msg mkid where
    b: "(read_bounded_block src (ft_signature_offset f) (ft_signature_len f) (eb_signature_len bounds)
        :: 'm payload_error + envelope_block) = Inr sg"
      "(read_bounded_block src (ft_key_id_offset f) (ft_key_id_len f) (eb_key_id_len bounds)
        :: 'm payload_error + envelope_block) = Inr kid"
      "(read_bounded_block src (ft_ml_dsa_87_signature_offset f) (ft_ml_dsa_87_signature_len f)
        (eb_ml_dsa_87_signature_len bounds) :: 'm payload_error + envelope_block) = Inr msg"
      "(read_bounded_block src (ft_ml_dsa_87_key_id_offset f) (ft_ml_dsa_87_key_id_len f)
        (eb_ml_dsa_87_key_id_len bounds) :: 'm payload_error + envelope_block) = Inr mkid"
    and c: "c = \<lparr>ct_src = src, ct_footer_version = ft_version f, ct_manifest_bytes = manifest,
          ct_signature = sg, ct_key_id = kid, ct_ml_dsa_87_signature = msg,
          ct_ml_dsa_87_key_id = mkid, ct_archive_offset = ft_archive_offset f,
          ct_archive_len = ft_archive_len f\<rparr>"
    unfolding finish_package_container_def by auto
  from assms(2) c have "sg \<noteq> WrongLength" "kid \<noteq> WrongLength" "msg \<noteq> WrongLength" "mkid \<noteq> WrongLength"
    by (auto simp: envelope_of_def)
  with b [THEN read_block_of_bounded] show ?thesis by (auto simp: read_envelope_def)
qed

lemma open_package_agrees:
  assumes "open_package mc src = Inr p" "verify_package cr mc src trust request = Inr vp"
  shows "pl_manifest p = vp_manifest vp \<and> payload_archive p = raw_archive_block (vp_container vp)"
proof -
  from assms(1) obtain f manifest_bytes en where
    o: "read_container_head src = (Inr (Some (f, manifest_bytes)) :: container_error + (footer \<times> bytes) option)"
      "manifest_parse mc manifest_bytes (ft_version f) = Inr (pl_manifest p)"
      "pl_src p = src" "pl_archive_offset p = ft_archive_offset f" "pl_archive_len p = ft_archive_len f"
    by (auto simp: open_package_def payload_open_def split: option.splits)
  from assms(2) have "read_package_container src ENVELOPE_BOUNDS = (Inr (vp_container vp) :: container_error + container)"
    and parse: "manifest_parse mc (ct_manifest_bytes (vp_container vp)) (ct_footer_version (vp_container vp))
      = Inr (vp_manifest vp)" by (simp_all add: verify_package_Inr)
  with o have c: "ct_manifest_bytes (vp_container vp) = manifest_bytes" "ct_footer_version (vp_container vp) = ft_version f"
    "raw_archive_block (vp_container vp) = slice src (ft_archive_offset f) (ft_archive_len f)"
    by (simp_all add: read_package_container_def finish_container_Inr)
  with o parse show ?thesis by (simp add: payload_archive_def slice_def)
qed

text \<open>
  A package opened without a trust set and the same source verified under one are the same package:
  the manifest and the archive block the opener will extract from are those the signatures cover, so
  a check that opens first and verifies afterwards checked what it extracts.
\<close>

theorem open_agrees_with_verify:
  assumes "open_package mc src = Inr p" "verify_package cr mc src trust request = Inr vp"
  shows "pl_manifest p = vp_manifest vp \<and> payload_archive p = raw_archive_block (vp_container vp)"
  using assms by (rule open_package_agrees)

lemma sample_package_opens: "\<exists>p. open_package image_codec sample_package = Inr p"
proof -
  note w = sample_writable
  have "WrongLength \<notin> set (envelope_of (container_of ''EXE'' ''{}'' ''zst'' (Some sample_signed)))"
    by (simp add: envelope_of_def container_of_fields present_of_def)
  from read_envelope_of_container [OF package_envelope [OF w, where 'a = manifest_error] this]
  obtain en where "(read_envelope sample_package (written_footer (length ''EXE'') (length ''{}'') (length ''zst'')
      (Some sample_signed \<noteq> None)) :: container_error + envelope) = Inr en"
    unfolding sample_package_def by blast
  moreover note package_head [OF w, where 'a = manifest_error, folded sample_package_def]
  ultimately show ?thesis
    by (simp add: open_package_def payload_open_def image_parse)
qed

theorem open_agrees_with_verify_witness:
  "\<exists>p. open_package image_codec sample_package = Inr p \<and> pl_manifest p = image_manifest \<and> payload_archive p = ''zst''"
proof -
  obtain p where p: "open_package image_codec sample_package = Inr p" using sample_package_opens by blast
  from open_agrees_with_verify [OF p sample_package_verifies] p show ?thesis
    by (simp add: verified_sample_def sample_writable)
qed

end
