(* ===== verification/Release_Trust.thy ===== *)
theory Release_Trust
  imports Payload_Walk Verify Trust_Set Generation
begin

text \<open>
  The on-host lifecycle of the release-trust generations of \<open>src/release_trust.rs\<close>: the epoch record,
  the validator of a staged generation, reading the active generation, and the five ways in (seed,
  replace, accept, re-bootstrap, join material), over the generation engine. The tree root is the
  root of the file-system model. A scratch directory lies outside the tree: the operations on it only
  consume entries of the fault script.
\<close>

section \<open>Data\<close>

definition GENERATION_PACKAGE_FILE :: bytes where "GENERATION_PACKAGE_FILE = ''generation.pkg''"
definition EPOCH_RECORD_FILE :: bytes where "EPOCH_RECORD_FILE = ''epoch''"
definition REQUIRE_TRUST_PIN_MARKER :: bytes where "REQUIRE_TRUST_PIN_MARKER = ''require-trust-pin''"
definition JOIN_GENERATION_FILE :: bytes where "JOIN_GENERATION_FILE = ''join-generation.pkg''"
definition MATERIAL_SET_TARGET :: bytes where "MATERIAL_SET_TARGET = ''<material set>''"

datatype release_trust_error =
    RT_Io "bytes list" io_kind
  | RT_Document trust_set_document_error
  | RT_Verify verify_error
  | RT_Input input_error
  | RT_ActiveGenerationPresent "u64 option"
  | RT_MissingTrustSetMember
  | RT_ProvisionalDecode
  | RT_MalformedAnchorKey
  | RT_NoActiveGeneration
  | RT_MissingEpochRecord
  | RT_EmptyEpochRecord
  | RT_UnterminatedEpochRecord
  | RT_EpochRecordSecondLine
  | RT_EpochRecordWhitespace
  | RT_EpochRecordNonDigit byte
  | RT_EpochRecordLeadingZero
  | RT_ZeroActiveEpoch
  | RT_EpochRecordOverflow
  | RT_EpochDisagreement u64 u64
  | RT_ActiveNotCanonical bytes
  | RT_DeliveredEpochDisagreement u64 bytes
  | RT_RebootstrapEpochMismatch u64 u64
  | RT_FingerprintPinRequired
  | RT_FingerprintPinMismatch bytes bytes
  | RT_StaleRebootstrap u64 u64

fun from_generation_error :: "generation_error \<Rightarrow> release_trust_error" where
  "from_generation_error (GE_Io path kind) = RT_Io path kind"
| "from_generation_error GE_EmptyMaterial = RT_Io [MATERIAL_SET_TARGET] OtherKind"
| "from_generation_error (GE_DuplicateName name) = RT_Io [name] OtherKind"
| "from_generation_error (GE_InvalidName name) = RT_Io [name] OtherKind"
| "from_generation_error (GE_Reload unit) = RT_Io [unit] OtherKind"

text \<open>What the code calls into: cryptography, the decoders, and the archive reader.\<close>

record trust_env =
  tv_crypto :: crypto
  tv_codec :: manifest_codec
  tv_parser :: parser
  tv_untar :: untar

section \<open>The epoch record\<close>

definition render_epoch_record :: "u64 \<Rightarrow> bytes" where
  "render_epoch_record epoch = to_string epoch @ [CHR 0x0A]"

definition parse_epoch_record :: "bytes \<Rightarrow> release_trust_error + u64" where
  "parse_epoch_record bs =
     (case find_byte (CHR 0x0A) bs of
        None \<Rightarrow> Inl (if bs = [] then RT_EmptyEpochRecord else RT_UnterminatedEpochRecord)
      | Some newline \<Rightarrow>
          let digits = take newline bs; terminator = drop newline bs in
          if length terminator \<noteq> 1 then Inl RT_EpochRecordSecondLine
          else if digits = [] then Inl RT_EmptyEpochRecord
          else bind_res (for_each (\<lambda>b.
              if \<not> is_ascii_digit b then
                Inl (if is_ascii_whitespace b then RT_EpochRecordWhitespace else RT_EpochRecordNonDigit b)
              else Inr ()) digits) (\<lambda>_.
            if digits = ''0'' then Inl RT_ZeroActiveEpoch
            else if hd digits = CHR ''0'' then Inl RT_EpochRecordLeadingZero
            else ok_or RT_EpochRecordOverflow (parse_u64 digits)))"

definition material :: "bytes \<Rightarrow> bytes \<Rightarrow> u64 \<Rightarrow> generation_file list" where
  "material package member epoch =
     [\<lparr>gf_name = GENERATION_PACKAGE_FILE, gf_bytes = package\<rparr>,
      \<lparr>gf_name = TRUST_SET_MEMBER, gf_bytes = member\<rparr>,
      \<lparr>gf_name = EPOCH_RECORD_FILE, gf_bytes = render_epoch_record epoch\<rparr>]"

definition check_epoch_agreement :: "u64 \<Rightarrow> trust_set_document \<Rightarrow> release_trust_error + unit" where
  "check_epoch_agreement epoch_record document =
     (if epoch_record = tsd_epoch document then Inr ()
      else Inl (RT_EpochDisagreement epoch_record (tsd_epoch document)))"

section \<open>More file-system operations\<close>

text \<open>\<open>std::fs::metadata\<close> and \<open>symlink_metadata\<close>, \<open>std::fs::read\<close> of a root entry, and I/O outside the tree.\<close>

definition fs_stat :: "bytes \<Rightarrow> (io_kind, unit) io" where
  "fs_stat name = operation (\<lambda>root.
     ((case follow MAX_LINK_HOPS root name of Inl e \<Rightarrow> Inl e | Inr _ \<Rightarrow> Inr ()), root)) no_effect"

definition fs_lstat :: "bytes \<Rightarrow> (io_kind, unit) io" where
  "fs_lstat name = operation (\<lambda>root.
     ((case map_of root name of None \<Rightarrow> Inl NotFound | Some _ \<Rightarrow> Inr ()), root)) no_effect"

definition read_file :: "(bytes \<times> node) list \<Rightarrow> bytes \<Rightarrow> io_kind + bytes" where
  "read_file root name =
     (case follow MAX_LINK_HOPS root name of
        Inl e \<Rightarrow> Inl e | Inr (File b) \<Rightarrow> Inr b | Inr _ \<Rightarrow> Inl OtherKind)"

definition fs_read_file :: "bytes \<Rightarrow> (io_kind, bytes) io" where
  "fs_read_file name = operation (\<lambda>root. (read_file root name, root)) no_effect"

definition fs_outside :: "(io_kind, unit) io" where
  "fs_outside = operation (\<lambda>root. (Inr (), root)) no_effect"

definition io_or :: "bytes list \<Rightarrow> (io_kind, 'a) io \<Rightarrow> (release_trust_error, 'a) io" where
  "io_or path = io_map_err (RT_Io path)"

section \<open>Installing\<close>

definition validate_staged :: "trust_env \<Rightarrow> release_trust_error validator" where
  "validate_staged env dir copied =
     (case copied of
        [_, member, epoch_record] \<Rightarrow>
          bind_io (lift_res (ok_or RT_ProvisionalDecode
            (self_admission_candidate (tv_parser env) (tv_crypto env) (gf_bytes member)))) (\<lambda>(trust, staged_epoch).
          bind_io (lift_res (map_err RT_Input (for_trust_self_admission (to_string staged_epoch)
            (member_digest (tv_crypto env) (gf_bytes member))))) (\<lambda>request.
          bind_io (io_or [dir, GENERATION_PACKAGE_FILE] (fs_read dir GENERATION_PACKAGE_FILE)) (\<lambda>package.
          then_io (io_map_err (\<lambda>_. RT_Verify (VE_Payload PE_Io)) fs_outside)
         (bind_io (lift_res (map_err RT_Verify
            (verify_package (tv_crypto env) (tv_codec env) package trust request))) (\<lambda>_.
          bind_io (lift_res (map_err RT_Document
            (read_trust_set_document (tv_parser env) (tv_crypto env) (gf_bytes member)))) (\<lambda>document.
          lift_res (bind_res (parse_epoch_record (gf_bytes epoch_record)) (\<lambda>e.
            check_epoch_agreement e document))))))))
      | _ \<Rightarrow> fail (RT_Io [dir] OtherKind))"

text \<open>The release-trust tree reloads no unit, so nothing is ever asked of \<open>systemctl\<close>.\<close>

definition no_systemctl :: systemctl where
  "no_systemctl = \<lparr>sc_is_active = \<lambda>_. None, sc_reload = \<lambda>_. None\<rparr>"

definition install_generation ::
  "trust_env \<Rightarrow> bytes \<Rightarrow> bytes \<Rightarrow> u64 \<Rightarrow> (release_trust_error, activation) io" where
  "install_generation env package member epoch =
     activate_generation from_generation_error no_systemctl \<lparr>gt_reload_unit = None\<rparr>
       (material package member epoch) (validate_staged env)"

section \<open>Reading the tree\<close>

definition read_active_epoch :: "(release_trust_error, u64 option) io" where
  "read_active_epoch =
     bind_io (attempt (fs_stat ACTIVE_LINK)) (\<lambda>r.
     case r of
       Inl NotFound \<Rightarrow> ret None
     | Inl OtherKind \<Rightarrow> fail (RT_Io [ACTIVE_LINK] OtherKind)
     | Inr _ \<Rightarrow>
         bind_io (attempt (fs_read ACTIVE_LINK EPOCH_RECORD_FILE)) (\<lambda>r.
         case r of
           Inl NotFound \<Rightarrow> fail RT_MissingEpochRecord
         | Inl OtherKind \<Rightarrow> fail (RT_Io [ACTIVE_LINK, EPOCH_RECORD_FILE] OtherKind)
         | Inr bs \<Rightarrow> lift_res (bind_res (parse_epoch_record bs) (\<lambda>e. Inr (Some e)))))"

record generation_material =
  gm_document :: trust_set_document
  gm_epoch :: u64
  gm_trust :: trust_set

definition generation_material_of ::
  "trust_env \<Rightarrow> bytes \<Rightarrow> u64 \<Rightarrow> release_trust_error + generation_material" where
  "generation_material_of env member epoch =
     bind_res (map_err RT_Document (read_trust_set_document (tv_parser env) (tv_crypto env) member)) (\<lambda>document.
     bind_res (check_epoch_agreement epoch document) (\<lambda>_.
     bind_res (ok_or RT_MalformedAnchorKey (document_anchors (tv_crypto env) document)) (\<lambda>anchors.
     bind_res (map_err RT_Input (trust_set_new anchors
         (map (\<lambda>b. (wb_package_id b, wb_version b, wb_commit b)) (tsd_withdrawn_builds document))
         (tsd_min_manifest_format_version document) epoch)) (\<lambda>trust.
     Inr \<lparr>gm_document = document, gm_epoch = epoch, gm_trust = trust\<rparr>))))"

definition read_generation_material ::
  "trust_env \<Rightarrow> bytes \<Rightarrow> u64 \<Rightarrow> (release_trust_error, generation_material) io" where
  "read_generation_material env dir epoch =
     bind_io (io_or [dir, TRUST_SET_MEMBER] (fs_read dir TRUST_SET_MEMBER)) (\<lambda>member.
     lift_res (generation_material_of env member epoch))"

definition some_or :: "'e \<Rightarrow> ('e, 'a option) io \<Rightarrow> ('e, 'a) io" where
  "some_or e m = bind_io m (\<lambda>x. lift_res (ok_or e x))"

definition read_active_generation :: "trust_env \<Rightarrow> (release_trust_error, generation_material) io" where
  "read_active_generation env =
     bind_io (some_or RT_NoActiveGeneration read_active_epoch) (\<lambda>epoch.
     read_generation_material env ACTIVE_LINK epoch)"

definition active_trust_set :: "trust_env \<Rightarrow> (release_trust_error, trust_set) io" where
  "active_trust_set env = bind_io (read_active_generation env) (\<lambda>g. ret (gm_trust g))"

definition generation_trust_set :: "trust_env \<Rightarrow> u64 \<Rightarrow> (release_trust_error, trust_set) io" where
  "generation_trust_set env generation =
     (let dir = generation_name generation in
      bind_io (io_or [dir, EPOCH_RECORD_FILE] (fs_read dir EPOCH_RECORD_FILE)) (\<lambda>bs.
      bind_io (lift_res (parse_epoch_record bs)) (\<lambda>epoch.
      bind_io (read_generation_material env dir epoch) (\<lambda>g. ret (gm_trust g)))))"

definition parse_generation_name :: "bytes \<Rightarrow> u64 option" where
  "parse_generation_name name = (if file_name name \<noteq> Some name then None else parse_generation name)"

definition active_generation_index :: "(release_trust_error, u64 option) io" where
  "active_generation_index =
     bind_io (attempt (fs_read_link ACTIVE_LINK)) (\<lambda>r.
     case r of
       Inr target \<Rightarrow>
         (case parse_generation target of
            Some generation \<Rightarrow> ret (Some generation)
          | None \<Rightarrow> fail (RT_ActiveNotCanonical target))
     | Inl NotFound \<Rightarrow> ret None
     | Inl OtherKind \<Rightarrow> fail (RT_Io [ACTIVE_LINK] OtherKind))"

record active_generation =
  ag_generation :: u64
  ag_epoch :: u64

definition read_generation_state :: "trust_env \<Rightarrow> (release_trust_error, active_generation option) io" where
  "read_generation_state env =
     bind_io active_generation_index (\<lambda>current.
     case current of
       None \<Rightarrow> ret None
     | Some generation \<Rightarrow>
         bind_io (attempt (read_active_generation env)) (\<lambda>r.
         case r of
           Inr active \<Rightarrow> ret (Some \<lparr>ag_generation = generation, ag_epoch = gm_epoch active\<rparr>)
         | Inl err \<Rightarrow> if err = RT_NoActiveGeneration then ret None else fail err))"

section \<open>Self-admission\<close>

record admitted_generation =
  ad_activation :: activation
  ad_epoch :: u64
  ad_document :: trust_set_document

definition member_of_files :: "(bytes \<times> payload_artifact \<times> bytes) list \<Rightarrow> release_trust_error + bytes" where
  "member_of_files files =
     (case find (\<lambda>(p, _). p = TRUST_SET_MEMBER) files of
        Some (_, _, content) \<Rightarrow> Inr content
      | None \<Rightarrow>
          if list_ex (\<lambda>(p, _). starts_with (TRUST_SET_MEMBER @ ''/'') p) files
          then Inl (RT_Io [TRUST_SET_MEMBER] OtherKind) else Inl RT_MissingTrustSetMember)"

definition extract_member :: "trust_env \<Rightarrow> bytes \<Rightarrow> (release_trust_error, bytes) io" where
  "extract_member env package =
     then_io (io_or [] fs_outside)
    (bind_io (lift_res (map_err (RT_Verify \<circ> from_payload_error) (open_package (tv_codec env) package))) (\<lambda>payload.
     then_io (io_map_err (\<lambda>_. RT_Verify (VE_Payload PE_Io)) fs_outside)
    (bind_io (lift_res (map_err (RT_Verify \<circ> from_payload_error)
       (extract_to (tv_crypto env) (tv_untar env) payload))) (\<lambda>files.
     then_io (io_or [TRUST_SET_MEMBER] fs_outside)
       (lift_res (member_of_files files))))))"

record verified_generation =
  vg_document :: trust_set_document
  vg_epoch :: u64
  vg_member :: bytes

definition verify_self_admitted :: "trust_env \<Rightarrow> bytes \<Rightarrow> (release_trust_error, verified_generation) io" where
  "verify_self_admitted env package =
     bind_io (extract_member env package) (\<lambda>member.
     lift_res
      (bind_res (ok_or RT_ProvisionalDecode
         (self_admission_candidate (tv_parser env) (tv_crypto env) member)) (\<lambda>(trust, epoch).
       bind_res (map_err RT_Input (for_trust_self_admission (to_string epoch)
         (member_digest (tv_crypto env) member))) (\<lambda>request.
       bind_res (map_err RT_Verify (verify_package (tv_crypto env) (tv_codec env) package trust request)) (\<lambda>_.
       bind_res (map_err RT_Document (read_trust_set_document (tv_parser env) (tv_crypto env) member)) (\<lambda>document.
       Inr \<lparr>vg_document = document, vg_epoch = tsd_epoch document, vg_member = member\<rparr>))))))"

definition check_fingerprint_pin :: "crypto \<Rightarrow> bytes option \<Rightarrow> bytes \<Rightarrow> release_trust_error + unit" where
  "check_fingerprint_pin cr pin member =
     (case pin of
        None \<Rightarrow> Inr ()
      | Some pin \<Rightarrow>
          let digest = member_digest cr member in
          if pin = digest then Inr () else Inl (RT_FingerprintPinMismatch pin digest))"

definition install_verified ::
  "trust_env \<Rightarrow> bytes \<Rightarrow> verified_generation \<Rightarrow> (release_trust_error, admitted_generation) io" where
  "install_verified env package verified =
     bind_io (install_generation env package (vg_member verified) (vg_epoch verified)) (\<lambda>a.
     ret \<lparr>ad_activation = a, ad_epoch = vg_epoch verified, ad_document = vg_document verified\<rparr>)"

definition admit_with_pin ::
  "trust_env \<Rightarrow> bytes \<Rightarrow> bytes option \<Rightarrow> (release_trust_error, admitted_generation) io" where
  "admit_with_pin env package pin =
     bind_io (verify_self_admitted env package) (\<lambda>verified.
     bind_io (lift_res (check_fingerprint_pin (tv_crypto env) pin (vg_member verified))) (\<lambda>_.
     install_verified env package verified))"

definition admit :: "trust_env \<Rightarrow> bytes \<Rightarrow> (release_trust_error, admitted_generation) io" where
  "admit env package = admit_with_pin env package None"

definition admit_onto_empty_tree ::
  "trust_env \<Rightarrow> bytes option \<Rightarrow> (release_trust_error, bytes) io \<Rightarrow> (release_trust_error, admitted_generation) io" where
  "admit_onto_empty_tree env pin package =
     bind_io (attempt (fs_stat ACTIVE_LINK)) (\<lambda>r.
     case r of
       Inl NotFound \<Rightarrow> bind_io package (\<lambda>bs. admit_with_pin env bs pin)
     | Inl OtherKind \<Rightarrow> fail (RT_Io [ACTIVE_LINK] OtherKind)
     | Inr _ \<Rightarrow>
         bind_io (attempt (fs_read_link ACTIVE_LINK)) (\<lambda>link.
         fail (RT_ActiveGenerationPresent
           (case link of Inl _ \<Rightarrow> None | Inr target \<Rightarrow> parse_generation target))))"

definition admit_seed_generation :: "trust_env \<Rightarrow> bytes \<Rightarrow> (release_trust_error, admitted_generation) io" where
  "admit_seed_generation env package = admit_onto_empty_tree env None (ret package)"

definition bootstrap_from_join_material ::
  "trust_env \<Rightarrow> bytes option \<Rightarrow> (release_trust_error, admitted_generation) io" where
  "bootstrap_from_join_material env pin =
     admit_onto_empty_tree env pin (io_or [JOIN_GENERATION_FILE] (fs_read_file JOIN_GENERATION_FILE))"

definition replace_generation :: "trust_env \<Rightarrow> bytes \<Rightarrow> (release_trust_error, admitted_generation) io" where
  "replace_generation env package = admit env package"

section \<open>Acceptance under the active generation\<close>

definition check_delivered_epoch_carriers :: "trust_env \<Rightarrow> bytes \<Rightarrow> u64 \<Rightarrow> release_trust_error + unit" where
  "check_delivered_epoch_carriers env package document =
     bind_res (map_err (RT_Verify \<circ> from_payload_error) (open_package (tv_codec env) package)) (\<lambda>payload.
     for_each (\<lambda>a.
       if pa_version a \<noteq> to_string document then Inl (RT_DeliveredEpochDisagreement document (pa_version a))
       else Inr ()) (pm_artifacts (pl_manifest payload)))"

text \<open>The checks on a delivered package, once its member is extracted.\<close>

definition check_delivered ::
  "trust_env \<Rightarrow> trust_set \<Rightarrow> bytes \<Rightarrow> bytes \<Rightarrow> release_trust_error + trust_set_document" where
  "check_delivered env active_trust package member =
     bind_res (ok_or RT_ProvisionalDecode
       (provisional_anchors_and_epoch (tv_parser env) (tv_crypto env) member)) (\<lambda>(_, delivered_epoch).
     bind_res (check_delivered_epoch_carriers env package delivered_epoch) (\<lambda>_.
     bind_res (map_err RT_Input (for_trust (to_string delivered_epoch)
       (member_digest (tv_crypto env) member) delivered_epoch)) (\<lambda>request.
     bind_res (map_err RT_Verify
       (verify_package (tv_crypto env) (tv_codec env) package active_trust request)) (\<lambda>_.
     map_err RT_Document (read_trust_set_document (tv_parser env) (tv_crypto env) member)))))"

definition accept_generation :: "trust_env \<Rightarrow> bytes \<Rightarrow> (release_trust_error, admitted_generation) io" where
  "accept_generation env package =
     bind_io (some_or RT_NoActiveGeneration active_generation_index) (\<lambda>generation.
     bind_io (read_active_generation env) (\<lambda>active.
     bind_io (io_or [ACTIVE_LINK, GENERATION_PACKAGE_FILE] (fs_read ACTIVE_LINK GENERATION_PACKAGE_FILE)) (\<lambda>stored.
     if stored = package then
       ret \<lparr>ad_activation = \<lparr>ac_generation = generation, ac_changed = False\<rparr>,
            ad_epoch = gm_epoch active, ad_document = gm_document active\<rparr>
     else
       bind_io (extract_member env package) (\<lambda>member.
       bind_io (lift_res (check_delivered env (gm_trust active) package member)) (\<lambda>document.
       bind_io (install_generation env package member (tsd_epoch document)) (\<lambda>a.
       ret \<lparr>ad_activation = a, ad_epoch = tsd_epoch document, ad_document = document\<rparr>))))))"

record chain_replay =
  cp_completed :: nat
  cp_last :: "admitted_generation option"

record chain_replay_error =
  ce_completed :: nat
  ce_last :: "admitted_generation option"
  ce_source :: release_trust_error

fun replay_chain ::
  "trust_env \<Rightarrow> nat \<Rightarrow> admitted_generation option \<Rightarrow> bytes list \<Rightarrow> (chain_replay_error, chain_replay) io" where
  "replay_chain env completed latest [] = ret \<lparr>cp_completed = completed, cp_last = latest\<rparr>"
| "replay_chain env completed latest (package # rest) =
     bind_io (attempt (accept_generation env package)) (\<lambda>r.
     case r of
       Inr admitted \<Rightarrow> replay_chain env (completed + 1) (Some admitted) rest
     | Inl source \<Rightarrow> fail \<lparr>ce_completed = completed, ce_last = latest, ce_source = source\<rparr>)"

definition accept_generation_chain :: "trust_env \<Rightarrow> bytes list \<Rightarrow> (chain_replay_error, chain_replay) io" where
  "accept_generation_chain env packages = replay_chain env 0 None packages"

section \<open>Re-bootstrap\<close>

record rebootstrap_authorization =
  ra_asserted_epoch :: u64

definition asserting_last_confirmed_epoch :: "u64 \<Rightarrow> rebootstrap_authorization" where
  "asserting_last_confirmed_epoch epoch = \<lparr>ra_asserted_epoch = epoch\<rparr>"

fun classify_pin_marker :: "io_kind + unit \<Rightarrow> release_trust_error + bool" where
  "classify_pin_marker (Inr _) = Inr True"
| "classify_pin_marker (Inl NotFound) = Inr False"
| "classify_pin_marker (Inl OtherKind) = Inl (RT_Io [REQUIRE_TRUST_PIN_MARKER] OtherKind)"

definition require_pin_marker_set :: "(release_trust_error, bool) io" where
  "require_pin_marker_set =
     bind_io (attempt (fs_lstat REQUIRE_TRUST_PIN_MARKER)) (\<lambda>r. lift_res (classify_pin_marker r))"

definition rebootstrap_generation ::
  "trust_env \<Rightarrow> bytes \<Rightarrow> rebootstrap_authorization \<Rightarrow> bytes option \<Rightarrow>
     (release_trust_error, admitted_generation) io" where
  "rebootstrap_generation env package authorization pin =
     bind_io (some_or RT_NoActiveGeneration read_active_epoch) (\<lambda>recorded.
     if ra_asserted_epoch authorization \<noteq> recorded then
       fail (RT_RebootstrapEpochMismatch (ra_asserted_epoch authorization) recorded)
     else
       bind_io require_pin_marker_set (\<lambda>required.
       if required \<and> pin = None then fail RT_FingerprintPinRequired
       else
         bind_io (verify_self_admitted env package) (\<lambda>verified.
         bind_io (lift_res (check_fingerprint_pin (tv_crypto env) pin (vg_member verified))) (\<lambda>_.
         if vg_epoch verified \<le> recorded then
           fail (RT_StaleRebootstrap (vg_epoch verified) recorded)
         else install_verified env package verified))))"

end
