(* ===== verification/File_Runs.thy ===== *)
theory File_Runs
  imports File_System
begin

text \<open>
  Runs of file-system computations seen from their result: what a run that returned a value went
  through, and which computations only look at the tree.
\<close>

named_theorems looks_intro
named_theorems run_simps

section \<open>Runs that return a value\<close>

lemma run_ret [run_simps]: "ret x s = (Inr y, s') \<longleftrightarrow> y = x \<and> s' = s"
  by (auto simp: ret_def)

lemma run_fail [run_simps]: "fail e s = (Inr y, s') \<longleftrightarrow> False"
  by (simp add: fail_def)

lemma run_lift_res [run_simps]: "lift_res r s = (Inr y, s') \<longleftrightarrow> r = Inr y \<and> s' = s"
  by (auto simp: lift_res_def)

lemma run_bind [run_simps]:
  "bind_io m f s = (Inr y, s') \<longleftrightarrow> (\<exists>x s1. m s = (Inr x, s1) \<and> f x s1 = (Inr y, s'))"
  by (auto simp: bind_io_def split: prod.splits sum.splits)

lemma run_then [run_simps]:
  "then_io m k s = (Inr y, s') \<longleftrightarrow> (\<exists>x s1. m s = (Inr x, s1) \<and> k s1 = (Inr y, s'))"
  by (simp add: then_io_def run_bind)

lemma run_map_err [run_simps]: "io_map_err f m s = (Inr y, s') \<longleftrightarrow> m s = (Inr y, s')"
  by (auto simp: io_map_err_def split: prod.splits)

lemma run_attempt [run_simps]: "attempt m s = (Inr r, s') \<longleftrightarrow> m s = (r, s')"
  by (auto simp: attempt_def split: prod.splits)

lemma bind_io_cases:
  assumes "bind_io m f s = (r, s')"
  obtains (stop) e where "m s = (Inl e, s')" "r = Inl e"
    | (go) x s1 where "m s = (Inr x, s1)" "f x s1 = (r, s')"
  using assms by (auto simp: bind_io_def split: prod.splits sum.splits)

section \<open>Computations that only look\<close>

definition looks :: "('e, 'a) io \<Rightarrow> bool" where
  "looks m \<longleftrightarrow> (\<forall>s r s'. m s = (r, s') \<longrightarrow>
     fs_root s' = fs_root s \<and> (fs_faults s = [] \<longrightarrow> fs_faults s' = []))"

lemma looksD: "looks m \<Longrightarrow> m s = (r, s') \<Longrightarrow> fs_root s' = fs_root s"
  unfolding looks_def by blast

lemma looks_ret [looks_intro]: "looks (ret x)"
  by (simp add: looks_def ret_def)

lemma looks_fail [looks_intro]: "looks (fail e)"
  by (simp add: looks_def fail_def)

lemma looks_lift_res [looks_intro]: "looks (lift_res r)"
  by (simp add: looks_def lift_res_def)

lemma looks_bind [looks_intro]:
  assumes "looks m" "\<And>x. looks (f x)"
  shows "looks (bind_io m f)"
  unfolding looks_def
proof (intro allI impI)
  fix s r s'
  assume "bind_io m f s = (r, s')"
  then show "fs_root s' = fs_root s \<and> (fs_faults s = [] \<longrightarrow> fs_faults s' = [])"
  proof (cases rule: bind_io_cases)
    case (stop e)
    then show ?thesis using assms(1) unfolding looks_def by blast
  next
    case (go x s1)
    with assms(1) assms(2) [of x] show ?thesis unfolding looks_def by metis
  qed
qed

lemma looks_then [looks_intro]: "looks m \<Longrightarrow> looks k \<Longrightarrow> looks (then_io m k)"
  unfolding then_io_def by (rule looks_bind)

lemma looks_map_err [looks_intro]: "looks m \<Longrightarrow> looks (io_map_err f m)"
  by (auto simp: looks_def io_map_err_def split: prod.splits)

lemma looks_attempt [looks_intro]: "looks m \<Longrightarrow> looks (attempt m)"
  by (auto simp: looks_def attempt_def split: prod.splits)

lemma looks_operation: "looks (operation (\<lambda>root. (g root, root)) no_effect)"
  by (auto simp: looks_def operation_def next_fault_def split: list.splits option.splits)

lemma looks_fs [looks_intro]: "looks (fs_read dir file)" "looks (fs_read_link name)"
  unfolding fs_read_def fs_read_link_def by (rule looks_operation)+

lemma run_operation:
  "operation (\<lambda>root. (g root, root)) no_effect s = (Inr y, s') \<Longrightarrow>
    g (fs_root s) = Inr y \<and> fs_root s' = fs_root s"
  by (auto simp: operation_def next_fault_def split: list.splits option.splits)

lemma run_operation_faultless:
  "fs_faults s = [] \<Longrightarrow> operation (\<lambda>root. (g root, root)) no_effect s = (g (fs_root s), s)"
  by (simp add: operation_def next_fault_def)

lemma run_operation_not_found:
  "operation (\<lambda>root. (g root, root)) no_effect s = (Inl NotFound, s') \<Longrightarrow> g (fs_root s) = Inl NotFound"
  by (auto simp: operation_def next_fault_def split: list.splits option.splits)

lemma run_fs_read: "fs_read dir file s = (Inr bs, s') \<Longrightarrow>
    read_in (fs_root s) dir file = Inr bs \<and> fs_root s' = fs_root s"
  unfolding fs_read_def by (rule run_operation)

end
