(* ===== verification/Release_Trust_Correct.thy ===== *)
theory Release_Trust_Correct
  imports Release_Trust File_Runs Trust_Set_Correct Generation_Correct Verify_Correct Payload_Walk_Correct
begin

text \<open>
  What the release-trust tree guarantees: the epoch record is canonical, whatever is installed has
  verified itself, a generation read from the tree is the one that was admitted, and the epoch of the
  active generation never goes back under acceptance and re-bootstrap, whatever fails.
\<close>

section \<open>The epoch record\<close>

lemma find_byte_Some: "find_byte d s = Some i \<Longrightarrow> \<exists>a b. s = a @ d # b \<and> d \<notin> set a \<and> length a = i"
proof (induction s arbitrary: i)
  case Nil
  then show ?case by simp
next
  case (Cons c s)
  show ?case
  proof (cases "c = d")
    case True
    with Cons.prems have "c # s = [] @ d # s \<and> d \<notin> set [] \<and> length [] = i" by simp
    then show ?thesis by blast
  next
    case False
    with Cons.prems obtain j where j: "find_byte d s = Some j" "i = Suc j" by auto
    from Cons.IH [OF j(1)] obtain a b where "s = a @ d # b" "d \<notin> set a" "length a = j" by blast
    with False j have "c # s = (c # a) @ d # b \<and> d \<notin> set (c # a) \<and> length (c # a) = i" by simp
    then show ?thesis by blast
  qed
qed

lemma find_byte_append: "d \<notin> set a \<Longrightarrow> find_byte d (a @ d # b) = Some (length a)"
  by (induction a) auto

lemma parse_u64_digits:
  assumes "list_all is_ascii_digit ds" "ds \<noteq> []" "hd ds \<noteq> CHR ''0''" "parse_u64 ds = Some e"
  shows "ds = to_string e" "e \<noteq> 0"
proof -
  have "hd ds \<noteq> CHR ''+''"
    using assms(1,2) by (cases ds) (auto simp: is_ascii_digit_def)
  then have "(case ds of [] \<Rightarrow> [] | c # cs \<Rightarrow> if c = CHR ''+'' then cs else ds) = ds" by (cases ds) auto
  with assms have v: "dec_val ds < 2 ^ 64" "e = u64_of (dec_val ds)"
    by (simp_all add: parse_u64_def split: if_splits)
  then have "unat e = dec_val ds" by simp
  moreover have "dec (dec_val ds) = ds" using dec_dec_val assms(1-3) by blast
  ultimately show "ds = to_string e" by (simp add: to_string_def)
  from \<open>unat e = dec_val ds\<close> show "e \<noteq> 0"
    using dec_val_pos [OF assms(1-3)] by auto
qed

lemma parse_epoch_record_Inr: "parse_epoch_record bs = Inr e \<longleftrightarrow> bs = render_epoch_record e \<and> e \<noteq> 0"
proof
  assume p: "parse_epoch_record bs = Inr e"
  then obtain n where n: "find_byte (CHR 0x0A) bs = Some n"
    by (auto simp: parse_epoch_record_def split: option.splits if_splits)
  let ?ds = "take n bs"
  from p n have c: "length (drop n bs) = 1" "?ds \<noteq> []"
    "\<forall>b \<in> set ?ds. is_ascii_digit b" "?ds \<noteq> ''0''" "hd ?ds \<noteq> CHR ''0''" "parse_u64 ?ds = Some e"
    by (auto simp: parse_epoch_record_def Let_def split: if_splits)
  from find_byte_Some [OF n] c(1) have bs: "bs = ?ds @ [CHR 0x0A]" by force
  have "list_all is_ascii_digit ?ds" using c(3) by (simp add: list_all_iff)
  from parse_u64_digits [OF this c(2,5,6)] bs show "bs = render_epoch_record e \<and> e \<noteq> 0"
    by (simp add: render_epoch_record_def)
next
  assume r: "bs = render_epoch_record e \<and> e \<noteq> 0"
  have "\<not> is_ascii_digit (CHR 0x0A)" by (simp add: is_ascii_digit_def)
  then have "find_byte (CHR 0x0A) bs = Some (length (to_string e))"
    using r by (simp add: render_epoch_record_def find_byte_append not_in_to_string)
  moreover have "hd (to_string e) \<noteq> CHR ''0''"
    using r dec_hd_zero [of "unat e"] by (auto simp: to_string_def unat_eq_0)
  moreover from this have "to_string e \<noteq> ''0''" by auto
  moreover have "to_string e \<noteq> []" by (simp add: to_string_def)
  moreover have "\<forall>b \<in> set (to_string e). is_ascii_digit b"
    using to_string_digits [of e] by (simp add: list_all_iff)
  ultimately show "parse_epoch_record bs = Inr e"
    using r by (simp add: parse_epoch_record_def render_epoch_record_def Let_def)
qed

text \<open>
  The epoch record has one spelling per epoch. Bytes parse as epoch \<open>e\<close> exactly when they are the
  decimal digits of a nonzero \<open>e\<close>, without a leading zero, followed by one newline; so the record a
  generation is written with always reads back, and no other bytes read as that epoch.
\<close>

theorem epoch_record_canonical:
  "parse_epoch_record bs = Inr e \<longleftrightarrow> bs = render_epoch_record e \<and> e \<noteq> 0"
  by (rule parse_epoch_record_Inr)

interpretation epoch_record: canonical_codec render_epoch_record
    "\<lambda>bs. case parse_epoch_record bs of Inl _ \<Rightarrow> None | Inr e \<Rightarrow> Some e" "\<lambda>e. e \<noteq> 0"
proof unfold_locales
  fix e :: u64
  assume "e \<noteq> 0"
  then have "parse_epoch_record (render_epoch_record e) = Inr e" by (simp add: parse_epoch_record_Inr)
  then show "(case parse_epoch_record (render_epoch_record e) of Inl _ \<Rightarrow> None | Inr e \<Rightarrow> Some e) = Some e"
    by simp
qed (auto simp: parse_epoch_record_Inr split: sum.splits)

section \<open>Reading the tree\<close>

lemma looks_release_fs [looks_intro]:
  "looks (fs_stat name)" "looks (fs_lstat name)" "looks (fs_read_file name)" "looks fs_outside"
  unfolding fs_stat_def fs_lstat_def fs_read_file_def fs_outside_def by (rule looks_operation)+

lemma looks_io_or [looks_intro]: "looks m \<Longrightarrow> looks (io_or path m)"
  unfolding io_or_def by (rule looks_map_err)

lemma looks_some_or [looks_intro]: "looks m \<Longrightarrow> looks (some_or e m)"
  unfolding some_or_def by (intro looks_intro)

lemma looks_readers [looks_intro]:
  "looks read_active_epoch" "looks active_generation_index" "looks (read_generation_material env dir e)"
  "looks require_pin_marker_set" "looks (extract_member env package)"
  unfolding read_active_epoch_def active_generation_index_def read_generation_material_def
    require_pin_marker_set_def extract_member_def
  by (intro looks_intro | clarsimp simp: looks_intro split: sum.split io_kind.split option.split)+

lemma looks_verified [looks_intro]: "looks (verify_self_admitted env package)" "looks (read_active_generation env)"
  unfolding verify_self_admitted_def read_active_generation_def by (intro looks_intro)+

lemma looks_validate_staged [looks_intro]: "looks (validate_staged env dir files)"
  unfolding validate_staged_def
  by (auto intro!: looks_intro split: list.split)

text \<open>The decoded content of the active generation, as a function of the tree.\<close>

definition active_material :: "trust_env \<Rightarrow> (bytes \<times> node) list \<Rightarrow> generation_material option" where
  "active_material env root =
     (case read_in root ACTIVE_LINK EPOCH_RECORD_FILE of Inl _ \<Rightarrow> None | Inr record_bytes \<Rightarrow>
     (case parse_epoch_record record_bytes of Inl _ \<Rightarrow> None | Inr e \<Rightarrow>
     (case read_in root ACTIVE_LINK TRUST_SET_MEMBER of Inl _ \<Rightarrow> None | Inr member \<Rightarrow>
     (case generation_material_of env member e of Inl _ \<Rightarrow> None | Inr g \<Rightarrow> Some g))))"

lemma read_active_epoch_run:
  assumes "read_active_epoch s = (Inr (Some e), s')"
  shows "\<exists>bs. read_in (fs_root s) ACTIVE_LINK EPOCH_RECORD_FILE = Inr bs \<and> parse_epoch_record bs = Inr e"
proof -
  from assms obtain r s1 where r: "fs_stat ACTIVE_LINK s = (r, s1)"
    "(case r of
       Inl NotFound \<Rightarrow> ret None
     | Inl OtherKind \<Rightarrow> fail (RT_Io [ACTIVE_LINK] OtherKind)
     | Inr _ \<Rightarrow>
         bind_io (attempt (fs_read ACTIVE_LINK EPOCH_RECORD_FILE)) (\<lambda>r.
         case r of
           Inl NotFound \<Rightarrow> fail RT_MissingEpochRecord
         | Inl OtherKind \<Rightarrow> fail (RT_Io [ACTIVE_LINK, EPOCH_RECORD_FILE] OtherKind)
         | Inr bs \<Rightarrow> lift_res (bind_res (parse_epoch_record bs) (\<lambda>e. Inr (Some e))))) s1 = (Inr (Some e), s')"
    unfolding read_active_epoch_def run_simps by blast
  have s1: "fs_root s1 = fs_root s" using looksD [OF looks_release_fs(1) r(1)] .
  obtain x s2 where x: "fs_read ACTIVE_LINK EPOCH_RECORD_FILE s1 = (x, s2)" by force
  with r(2) have "\<exists>bs. x = Inr bs \<and> parse_epoch_record bs = Inr e"
    by (cases r; cases x)
      (auto simp: bind_io_def attempt_def fail_def ret_def lift_res_def split: io_kind.splits)
  with x s1 show ?thesis by (auto dest: run_fs_read)
qed

lemma read_active_generation_run:
  assumes "read_active_generation env s = (Inr g, s')"
  shows "active_material env (fs_root s) = Some g" "fs_root s' = fs_root s"
proof -
  show "fs_root s' = fs_root s" by (rule looksD [OF looks_verified(2) assms])
  from assms obtain e s1 s2 member where r: "read_active_epoch s = (Inr (Some e), s1)"
    "fs_read ACTIVE_LINK TRUST_SET_MEMBER s1 = (Inr member, s2)" "generation_material_of env member e = Inr g"
    by (auto simp: read_active_generation_def some_or_def read_generation_material_def io_or_def run_simps)
  have "fs_root s1 = fs_root s" by (rule looksD [OF looks_readers(1) r(1)])
  with read_active_epoch_run [OF r(1)] run_fs_read [OF r(2)] r(3)
  show "active_material env (fs_root s) = Some g" by (auto simp: active_material_def)
qed

lemma active_material_epoch:
  "active_material env root = Some g \<Longrightarrow>
     read_in root ACTIVE_LINK EPOCH_RECORD_FILE = Inr (render_epoch_record (gm_epoch g)) \<and> gm_epoch g \<noteq> 0"
  by (auto simp: active_material_def generation_material_of_def parse_epoch_record_Inr split: sum.splits)

lemma read_active_generation_faultless:
  assumes "active_material env (fs_root s) = Some g" "fs_faults s = []"
  shows "read_active_generation env s = (Inr g, s)"
proof -
  from assms(1) obtain bs e member where r: "read_in (fs_root s) ACTIVE_LINK EPOCH_RECORD_FILE = Inr bs"
    "parse_epoch_record bs = Inr e" "read_in (fs_root s) ACTIVE_LINK TRUST_SET_MEMBER = Inr member"
    "generation_material_of env member e = Inr g"
    by (auto simp: active_material_def split: sum.splits)
  from r(1) obtain node where "follow MAX_LINK_HOPS (fs_root s) ACTIVE_LINK = Inr node"
    by (auto simp: read_in_def split: sum.splits)
  with r assms(2) show ?thesis
    by (simp add: read_active_generation_def some_or_def read_active_epoch_def read_generation_material_def
        io_or_def bind_io_def attempt_def fs_stat_def fs_read_def run_operation_faultless lift_res_def
        io_map_err_def)
qed

section \<open>Self-admission\<close>

text \<open>
  A generation that vouches for itself: the strict reader admits its document, and the package
  verifies under the document's own anchors as the trust build of that epoch and digest.
\<close>

definition own_trust :: "trust_anchor list \<Rightarrow> u64 \<Rightarrow> trust_set" where
  "own_trust anchors epoch =
     \<lparr>ts_anchors = anchors, ts_withdrawn_builds = [], ts_min_manifest_format_version = 0, ts_epoch = epoch\<rparr>"

definition trust_request :: "trust_env \<Rightarrow> bytes \<Rightarrow> u64 \<Rightarrow> u64 option \<Rightarrow> verify_request" where
  "trust_request env member epoch newer_than_active =
     \<lparr>vr_target = TRUST_TARGET, vr_version = to_string epoch, vr_commit = member_digest (tv_crypto env) member,
      vr_epoch = newer_than_active, vr_namespace = None\<rparr>"

definition self_admitted :: "trust_env \<Rightarrow> bytes \<Rightarrow> bytes \<Rightarrow> trust_set_document \<Rightarrow> bool" where
  "self_admitted env package member d \<longleftrightarrow>
     read_trust_set_document (tv_parser env) (tv_crypto env) member = Inr d \<and>
     (\<exists>anchors vp. document_anchors (tv_crypto env) d = Some anchors \<and>
        verify_package (tv_crypto env) (tv_codec env) package (own_trust anchors (tsd_epoch d))
          (trust_request env member (tsd_epoch d) None) = Inr vp)"

lemma provisional_objects:
  "decode_all (provisional_anchor cr) es = Some anchors \<Longrightarrow> \<forall>e \<in> set es. \<exists>members. e = JObj members"
proof (induction es arbitrary: anchors)
  case Nil
  then show ?case by simp
next
  case (Cons e es)
  then show ?case by (cases e) (auto simp: provisional_anchor_def split: option.splits)
qed

lemma provisional_of_admitted:
  assumes "read_trust_set_document parse cr bs = Inr d"
    and "provisional_anchors_and_epoch parse cr bs = Some (anchors, e)"
  shows "e = tsd_epoch d" "document_anchors cr d = Some anchors"
proof -
  from read_trust_set_documentD [OF assms(1)] obtain members where
    m: "parse bs = Some (JObj members)" "decode_trust_set (JObj members) = Some d"
      "check_document cr d = Inr ()" by blast
  note f = decode_trust_set_obj(2) [OF m(2)] decode_trust_set_fields(2,3) [OF m(2)]
  from assms(2) m(1) obtain es v where p: "obj_get EPOCH_FIELD members = Some v" "as_u64 v = Some e"
    "obj_get ANCHORS_FIELD members = Some (JArr es)" "decode_all (provisional_anchor cr) es = Some anchors"
    by (auto simp: provisional_anchors_and_epoch_def bind_eq_Some_conv split: option.splits elim!: as_array.elims)
  with f show "e = tsd_epoch d" by (simp add: opt_field_def obj_get_distinct)
  from p(3) f have "decode_all decode_anchor es = Some (tsd_anchors d)"
    by (auto simp: req_field_Some decode_vec_Some obj_get_distinct)
  from decode_anchors_provisional [OF this provisional_objects [OF p(4)]] p(4)
  show "document_anchors cr d = Some anchors" by (simp add: document_anchors_def)
qed

lemma self_admission_candidate_Some:
  "self_admission_candidate parse cr bs = Some (trust, e) \<longleftrightarrow>
     (\<exists>anchors. provisional_anchors_and_epoch parse cr bs = Some (anchors, e) \<and>
        distinct (map ta_key_id anchors) \<and> trust = own_trust anchors e)"
proof -
  have n: "trust_set_new anchors [] 0 e' =
      (if distinct (map ta_key_id anchors) then Inr (own_trust anchors e')
       else Inl (projl (trust_set_new anchors [] 0 e')))" for anchors e'
    using trust_set_new_Inr [of anchors "[]" 0 e' "own_trust anchors e'"]
      trust_set_new_Inr [of anchors "[]" 0 e' "projr (trust_set_new anchors [] 0 e')"]
    by (cases "trust_set_new anchors [] 0 e'") (simp_all add: own_trust_def)
  show ?thesis
  proof (cases "provisional_anchors_and_epoch parse cr bs")
    case None
    then show ?thesis by (simp add: self_admission_candidate_def)
  next
    case (Some ae)
    obtain anchors e' where ae: "ae = (anchors, e')" by force
    have c: "self_admission_candidate parse cr bs =
        (case trust_set_new anchors [] 0 e' of Inl _ \<Rightarrow> None | Inr trust \<Rightarrow> Some (trust, e'))"
      by (simp add: self_admission_candidate_def Some ae)
    show ?thesis
    proof (cases "distinct (map ta_key_id anchors)")
      case True
      with n [of anchors e'] have "self_admission_candidate parse cr bs = Some (own_trust anchors e', e')"
        by (simp add: c)
      with True show ?thesis by (auto simp: Some ae)
    next
      case False
      then obtain x where "trust_set_new anchors [] 0 e' = Inl x" using n [of anchors e'] by metis
      with False show ?thesis by (simp add: c Some ae)
    qed
  qed
qed

lemma self_admittedI:
  assumes "self_admission_candidate (tv_parser env) (tv_crypto env) member = Some (trust, e)"
    and "for_trust_self_admission (to_string e) (member_digest (tv_crypto env) member) = Inr request"
    and "verify_package (tv_crypto env) (tv_codec env) package trust request = Inr vp"
    and "read_trust_set_document (tv_parser env) (tv_crypto env) member = Inr d"
  shows "self_admitted env package member d" "e = tsd_epoch d"
proof -
  from assms(1) obtain anchors where a: "trust = own_trust anchors e"
    "provisional_anchors_and_epoch (tv_parser env) (tv_crypto env) member = Some (anchors, e)"
    by (auto simp: self_admission_candidate_Some)
  note p = provisional_of_admitted [OF assms(4) a(2)]
  show "e = tsd_epoch d" by (rule p)
  have "request = trust_request env member e None"
    using assms(2) by (simp add: for_trust_self_admission_def trust_request_def)
  with assms(3,4) a(1) p show "self_admitted env package member d"
    by (auto simp: self_admitted_def)
qed

lemma self_admitted_material:
  assumes "self_admitted env package member d"
  shows "\<exists>g. generation_material_of env member (tsd_epoch d) = Inr g \<and> gm_document g = d \<and>
    gm_epoch g = tsd_epoch d" "tsd_epoch d \<noteq> 0"
proof -
  from assms have r: "read_trust_set_document (tv_parser env) (tv_crypto env) member = Inr d"
    by (simp add: self_admitted_def)
  from read_trust_set_documentD [OF this] have c: "check_document (tv_crypto env) d = Inr ()" by blast
  then show "tsd_epoch d \<noteq> 0" by (simp add: check_document_Inr)
  have sound: "\<forall>a \<in> set (tsd_anchors d). anchor_sound (tv_crypto env) a" "distinct (map tsa_key_id (tsd_anchors d))"
    using c by (simp_all add: check_document_Inr)
  from document_anchors_of_Some [OF sound(1)] obtain xs where xs: "document_anchors (tv_crypto env) d = Some xs"
    "map ta_key_id xs = map tsa_key_id (tsd_anchors d)" by (auto simp: document_anchors_def)
  then have "distinct (map ta_key_id xs)" using sound(2) by simp
  with r xs show "\<exists>g. generation_material_of env member (tsd_epoch d) = Inr g \<and> gm_document g = d \<and>
      gm_epoch g = tsd_epoch d"
    by (simp add: generation_material_of_def check_epoch_agreement_def trust_set_new_Inr)
qed

lemma self_admitted_candidate:
  assumes "self_admitted env package member d"
    and "provisional_anchors_and_epoch (tv_parser env) (tv_crypto env) member \<noteq> None"
  shows "\<exists>anchors. self_admission_candidate (tv_parser env) (tv_crypto env) member
      = Some (own_trust anchors (tsd_epoch d), tsd_epoch d) \<and>
    document_anchors (tv_crypto env) d = Some anchors"
proof -
  from assms(1) have r: "read_trust_set_document (tv_parser env) (tv_crypto env) member = Inr d"
    by (simp add: self_admitted_def)
  from assms(2) obtain anchors e where
    p: "provisional_anchors_and_epoch (tv_parser env) (tv_crypto env) member = Some (anchors, e)" by auto
  note a = provisional_of_admitted [OF r p]
  from self_admitted_material(1) [OF assms(1)] r a have "distinct (map ta_key_id anchors)"
    by (auto simp: generation_material_of_def trust_set_new_Inr)
  with p a show ?thesis by (auto simp: self_admission_candidate_Some)
qed

section \<open>What is installed\<close>

lemma release_names [simp]:
  "GENERATION_PACKAGE_FILE \<noteq> TRUST_SET_MEMBER" "TRUST_SET_MEMBER \<noteq> GENERATION_PACKAGE_FILE"
  "GENERATION_PACKAGE_FILE \<noteq> EPOCH_RECORD_FILE" "EPOCH_RECORD_FILE \<noteq> GENERATION_PACKAGE_FILE"
  "TRUST_SET_MEMBER \<noteq> EPOCH_RECORD_FILE" "EPOCH_RECORD_FILE \<noteq> TRUST_SET_MEMBER"
  by (simp_all add: GENERATION_PACKAGE_FILE_def TRUST_SET_MEMBER_def EPOCH_RECORD_FILE_def)

lemma material_reads [simp]:
  "material_read (material p m e) GENERATION_PACKAGE_FILE = Inr p"
  "material_read (material p m e) TRUST_SET_MEMBER = Inr m"
  "material_read (material p m e) EPOCH_RECORD_FILE = Inr (render_epoch_record e)"
  by (simp_all add: material_read_def material_def)

lemma material_names: "distinct (map gf_name (material p m e))"
  by (simp add: material_def)

lemma check_material_release: "check_material (material p m e) = Inr ()"
  by (simp add: check_material_def material_def is_single_component_iff plain_name_def)
    (simp add: GENERATION_PACKAGE_FILE_def TRUST_SET_MEMBER_def EPOCH_RECORD_FILE_def)

lemma accepted_release:
  assumes "accepted_by (validate_staged env) (material package member e)"
  shows "\<exists>d. self_admitted env package member d \<and> e = tsd_epoch d"
proof -
  from assms obtain dir s s' where dir: "map_of (fs_root s) dir = Some (Dir (staged (material package member e)))"
    and run: "validate_staged env dir (material package member e) s = (Inr (), s')"
    unfolding accepted_by_def by (metis prod.exhaust_sel)
  from run obtain trust e' request p s1 vp d where
    v: "self_admission_candidate (tv_parser env) (tv_crypto env) member = Some (trust, e')"
      "for_trust_self_admission (to_string e') (member_digest (tv_crypto env) member) = Inr request"
      "fs_read dir GENERATION_PACKAGE_FILE s = (Inr p, s1)"
      "verify_package (tv_crypto env) (tv_codec env) p trust request = Inr vp"
      "read_trust_set_document (tv_parser env) (tv_crypto env) member = Inr d"
      "parse_epoch_record (render_epoch_record e) = Inr (tsd_epoch d)"
    by (auto simp: validate_staged_def material_def run_simps io_or_def check_epoch_agreement_def
        split: if_splits prod.splits)
  from run_fs_read [OF v(3)] dir have "p = package"
    by (simp add: read_in_dir map_of_staged_find material_def)
  with self_admittedI [OF v(1,2) _ v(5)] v(4) have "self_admitted env package member d" by simp
  moreover have "e = tsd_epoch d"
    using v(6) by (auto simp: parse_epoch_record_Inr render_epoch_record_def)
  ultimately show ?thesis by blast
qed

interpretation staged_release: staged_validator "validate_staged env" for env
  by unfold_locales (use looks_validate_staged in \<open>unfold looks_def, blast+\<close>)

lemma installed_material:
  assumes "self_admitted env package member d"
    and "\<forall>f. read_in root ACTIVE_LINK f = material_read (material package member (tsd_epoch d)) f"
  shows "\<exists>g. active_material env root = Some g \<and> gm_epoch g = tsd_epoch d \<and> gm_document g = d"
proof -
  have "parse_epoch_record (render_epoch_record (tsd_epoch d)) = Inr (tsd_epoch d)"
    using self_admitted_material(2) [OF assms(1)] by (simp add: parse_epoch_record_Inr)
  with self_admitted_material(1) [OF assms(1)] assms(2) show ?thesis
    by (auto simp: active_material_def)
qed

section \<open>One operation\<close>

lemma bind_looks:
  assumes "looks m" "bind_io m f s = (r, s')"
  shows "(\<exists>e. m s = (Inl e, s') \<and> r = Inl e \<and> fs_root s' = fs_root s) \<or>
    (\<exists>x s1. m s = (Inr x, s1) \<and> fs_root s1 = fs_root s \<and> f x s1 = (r, s'))"
  using assms(2)
proof (cases rule: bind_io_cases)
  case (stop e)
  with looksD [OF assms(1) stop(1)] show ?thesis by blast
next
  case (go x s1)
  with looksD [OF assms(1) go(1)] show ?thesis by blast
qed

lemma bind_ret_root: "bind_io m (\<lambda>a. ret (h a)) s = (r, s') \<Longrightarrow> \<exists>r1. m s = (r1, s') \<and> (\<forall>x. r = Inr x \<longrightarrow> (\<exists>a. r1 = Inr a \<and> x = h a))"
  by (auto simp: bind_io_def ret_def split: prod.splits sum.splits)

text \<open>What a tree needs to look like, and what a reader of \<open>active\<close> may find after an operation.\<close>

definition tree_ok :: "(bytes \<times> node) list \<Rightarrow> bool" where
  "tree_ok root \<longleftrightarrow> healthy root \<and> plain_entries root"

definition same_reads :: "(bytes \<times> node) list \<Rightarrow> (bytes \<times> node) list \<Rightarrow> bool" where
  "same_reads root root' \<longleftrightarrow> (\<forall>f. read_in root' ACTIVE_LINK f = read_in root ACTIVE_LINK f)"

definition installed :: "trust_env \<Rightarrow> bytes \<Rightarrow> bytes \<Rightarrow> trust_set_document \<Rightarrow> (bytes \<times> node) list \<Rightarrow> bool" where
  "installed env package member d root \<longleftrightarrow>
     self_admitted env package member d \<and>
     (\<forall>f. read_in root ACTIVE_LINK f = material_read (material package member (tsd_epoch d)) f)"

lemma same_reads_refl [simp]: "same_reads root root"
  by (simp add: same_reads_def)

lemma same_reads_material: "same_reads root root' \<Longrightarrow> active_material env root' = active_material env root"
  by (simp add: same_reads_def active_material_def cong: sum.case_cong)

lemma installed_active:
  "installed env package member d root \<Longrightarrow>
     \<exists>g. active_material env root = Some g \<and> gm_epoch g = tsd_epoch d \<and> gm_document g = d"
  unfolding installed_def by (blast intro: installed_material)

lemma plain_entries_iff: "plain_entries root \<longleftrightarrow> (\<forall>e. map_of root e \<noteq> None \<longrightarrow> plain_name e)"
  by (force simp: plain_entries_def map_of_eq_None_iff simp del: not_None_eq)

lemma tree_ok_kept:
  assumes "activation_failed acc m before root" "tree_ok before"
  shows "tree_ok root"
proof -
  note h = assms(2) [unfolded tree_ok_def]
  from assms(1) consider "root = before"
    | (old) g where "fresh_index before g" "old_live g before root"
    | (new) g where "new_live g m before root"
    unfolding activation_failed_def by blast
  then show ?thesis
  proof cases
    case 1
    with assms(2) show ?thesis by simp
  next
    case old
    let ?N = "{tmp_generation_name g, generation_name g, active_tmp_name}"
    have same: "map_of root e = map_of before e" if "e \<notin> ?N" for e
      using old(2) that by (simp add: old_live_def agree_off_def)
    have "plain_name e" if "map_of root e \<noteq> None" for e
      using that same [of e] h by (cases "e \<in> ?N") (auto simp: plain_entries_iff)
    moreover have "healthy root"
    proof (cases "map_of before ACTIVE_LINK")
      case None
      then show ?thesis using same [of ACTIVE_LINK] by (simp add: healthy_def)
    next
      case (Some x)
      with h obtain n d where t: "x = Link (generation_name n)" "map_of before (generation_name n) = Some (Dir d)"
        "\<forall>f b. map_of d f = Some b \<longrightarrow> (\<exists>c. b = File c)"
        by (auto simp: healthy_def split: node.splits)
      then have "n < g" using old(1) unfolding fresh_index_def by (metis option.distinct(1) parse_generation_name)
      with t Some same [of ACTIVE_LINK] same [of "generation_name n"] show ?thesis by (auto simp: healthy_def)
    qed
    ultimately show ?thesis by (simp add: tree_ok_def plain_entries_iff)
  next
    case new
    have "plain_name e" if "map_of root e \<noteq> None" for e
      using that new h unfolding new_live_def plain_entries_iff
      by (metis insert_iff plain_engine_names(1,4) singletonD)
    moreover have "healthy root"
      using new by (auto simp: new_live_def healthy_def map_of_staged_find)
    ultimately show ?thesis by (simp add: tree_ok_def plain_entries_iff)
  qed
qed

lemma install_run:
  assumes "install_generation env package member e s = (r, s')" "tree_ok (fs_root s)" "index_left (fs_root s)"
  shows "tree_ok (fs_root s')"
    "same_reads (fs_root s) (fs_root s') \<or> (\<exists>d. e = tsd_epoch d \<and> installed env package member d (fs_root s'))"
proof -
  note run = assms(1) [unfolded install_generation_def]
  have w: "healthy (fs_root s)" "plain_entries (fs_root s)" using assms(2) by (simp_all add: tree_ok_def)
  show "tree_ok (fs_root s')"
    by (rule tree_ok_kept [OF staged_release.run_failed_or_done [OF run assms(3) w(2)] assms(2)])
  from staged_release.run_reader [OF run w(1) assms(3) w(2)]
  show "same_reads (fs_root s) (fs_root s') \<or> (\<exists>d. e = tsd_epoch d \<and> installed env package member d (fs_root s'))"
    using accepted_release [of env package member e] by (auto simp: same_reads_def installed_def)
qed

lemma install_success:
  assumes "install_generation env package member e s = (Inr a, s')" "tree_ok (fs_root s)" "index_left (fs_root s)"
  shows "f \<in> set (material package member e) \<Longrightarrow> read_in (fs_root s') ACTIVE_LINK (gf_name f) = Inr (gf_bytes f)"
    "ac_changed a \<Longrightarrow> \<exists>d. e = tsd_epoch d \<and> installed env package member d (fs_root s') \<and>
       pruned (ac_generation a) (fs_root s') \<and> fresh_index (fs_root s) (ac_generation a)"
    "\<not> ac_changed a \<Longrightarrow> fs_root s' = fs_root s"
proof -
  have p: "activation_done (accepted_by (validate_staged env) (material package member e)) (material package member e)
      (fs_root s) a (fs_root s')"
    using staged_release.run_post [OF assms(1) [unfolded install_generation_def] assms(3)] assms(2)
    by (simp add: tree_ok_def)
  show "f \<in> set (material package member e) \<Longrightarrow> read_in (fs_root s') ACTIVE_LINK (gf_name f) = Inr (gf_bytes f)"
    by (rule activation_done_read [OF p material_names])
  show "\<not> ac_changed a \<Longrightarrow> fs_root s' = fs_root s" using p by (simp add: activation_done_def)
  show "ac_changed a \<Longrightarrow> \<exists>d. e = tsd_epoch d \<and> installed env package member d (fs_root s') \<and>
       pruned (ac_generation a) (fs_root s') \<and> fresh_index (fs_root s) (ac_generation a)"
    using p accepted_release [of env package member e] new_live_read
    by (fastforce simp: activation_done_def installed_def)
qed

section \<open>Acceptance\<close>

text \<open>A package verified as a strictly newer generation under the active one.\<close>

definition accepted_under :: "trust_env \<Rightarrow> generation_material \<Rightarrow> bytes \<Rightarrow> bytes \<Rightarrow> trust_set_document \<Rightarrow> bool" where
  "accepted_under env g package member d \<longleftrightarrow>
     read_trust_set_document (tv_parser env) (tv_crypto env) member = Inr d \<and>
     (\<exists>vp. verify_package (tv_crypto env) (tv_codec env) package (gm_trust g)
        (trust_request env member (tsd_epoch d) (Some (tsd_epoch d))) = Inr vp \<and>
      (\<forall>a \<in> set (pm_artifacts (vp_manifest vp)). pa_version a = to_string (tsd_epoch d))) \<and>
     gm_epoch g < tsd_epoch d"

lemma active_material_trust:
  assumes "active_material env root = Some g"
  shows "ts_epoch (gm_trust g) = gm_epoch g" "tsd_epoch (gm_document g) = gm_epoch g"
  using assms by (auto simp: active_material_def generation_material_of_def trust_set_new_Inr
      check_epoch_agreement_def split: sum.splits if_splits)

lemma check_delivered_Inr:
  assumes "check_delivered env (gm_trust g) package member = Inr d" "ts_epoch (gm_trust g) = gm_epoch g"
  shows "accepted_under env g package member d"
proof -
  from assms(1) obtain anchors e request vp where
    p: "provisional_anchors_and_epoch (tv_parser env) (tv_crypto env) member = Some (anchors, e)"
    and q: "for_trust (to_string e) (member_digest (tv_crypto env) member) e = Inr request"
    and v: "verify_package (tv_crypto env) (tv_codec env) package (gm_trust g) request = Inr vp"
    and d: "read_trust_set_document (tv_parser env) (tv_crypto env) member = Inr d"
    by (auto simp: check_delivered_def)
  have e: "e = tsd_epoch d" by (rule provisional_of_admitted(1) [OF d p])
  have r: "request = trust_request env member e (Some e)"
    using q by (simp add: for_trust_def trust_request_def)
  from v r have s: "statements_ok (vp_manifest vp) (trust_request env member e (Some e)) (gm_trust g)"
    by (simp add: verify_package_Inr)
  then have "gm_epoch g < e"
    using assms(2) by (simp add: statements_ok_def trust_request_def)
  moreover have "\<forall>a \<in> set (pm_artifacts (vp_manifest vp)). pa_version a = to_string e"
    using s by (auto simp: statements_ok_def Verify_Correct.build_of_def requested_build_def trust_request_def)
  ultimately show ?thesis using v d e r by (auto simp: accepted_under_def)
qed

lemma accept_reaches_install:
  assumes run: "accept_generation env package s = (r, s')" and changed: "fs_root s' \<noteq> fs_root s"
  shows "\<exists>g member d s1 r1. active_material env (fs_root s) = Some g \<and>
    check_delivered env (gm_trust g) package member = Inr d \<and> fs_root s1 = fs_root s \<and>
    install_generation env package member (tsd_epoch d) s1 = (r1, s')"
proof -
  from bind_looks [OF looks_some_or [OF looks_readers(2)] run [unfolded accept_generation_def]] changed
  obtain n s1 where 1: "fs_root s1 = fs_root s"
    "bind_io (read_active_generation env) (\<lambda>active.
     bind_io (io_or [ACTIVE_LINK, GENERATION_PACKAGE_FILE] (fs_read ACTIVE_LINK GENERATION_PACKAGE_FILE)) (\<lambda>stored.
     if stored = package then
       ret \<lparr>ad_activation = \<lparr>ac_generation = n, ac_changed = False\<rparr>,
            ad_epoch = gm_epoch active, ad_document = gm_document active\<rparr>
     else
       bind_io (extract_member env package) (\<lambda>member.
       bind_io (lift_res (check_delivered env (gm_trust active) package member)) (\<lambda>document.
       bind_io (install_generation env package member (tsd_epoch document)) (\<lambda>a.
       ret \<lparr>ad_activation = a, ad_epoch = tsd_epoch document, ad_document = document\<rparr>))))) s1 = (r, s')"
    by (elim disjE exE conjE) (blast, rule that)
  from bind_looks [OF looks_verified(2) 1(2)] changed 1(1)
  obtain g s2 where 2: "read_active_generation env s1 = (Inr g, s2)" "fs_root s2 = fs_root s"
    "bind_io (io_or [ACTIVE_LINK, GENERATION_PACKAGE_FILE] (fs_read ACTIVE_LINK GENERATION_PACKAGE_FILE)) (\<lambda>stored.
     if stored = package then
       ret \<lparr>ad_activation = \<lparr>ac_generation = n, ac_changed = False\<rparr>,
            ad_epoch = gm_epoch g, ad_document = gm_document g\<rparr>
     else
       bind_io (extract_member env package) (\<lambda>member.
       bind_io (lift_res (check_delivered env (gm_trust g) package member)) (\<lambda>document.
       bind_io (install_generation env package member (tsd_epoch document)) (\<lambda>a.
       ret \<lparr>ad_activation = a, ad_epoch = tsd_epoch document, ad_document = document\<rparr>)))) s2 = (r, s')"
    by auto
  have g: "active_material env (fs_root s) = Some g"
    using read_active_generation_run(1) [OF 2(1)] 1(1) by simp
  from bind_looks [OF looks_io_or [OF looks_fs(1)] 2(3)] changed 2(2)
  obtain stored s3 where 3: "fs_root s3 = fs_root s" "stored \<noteq> package"
    "bind_io (extract_member env package) (\<lambda>member.
       bind_io (lift_res (check_delivered env (gm_trust g) package member)) (\<lambda>document.
       bind_io (install_generation env package member (tsd_epoch document)) (\<lambda>a.
       ret \<lparr>ad_activation = a, ad_epoch = tsd_epoch document, ad_document = document\<rparr>))) s3 = (r, s')"
    by (auto simp: ret_def split: if_splits)
  from bind_looks [OF looks_readers(5) 3(3)] changed 3(1)
  obtain member s4 where 4: "fs_root s4 = fs_root s"
    "bind_io (lift_res (check_delivered env (gm_trust g) package member)) (\<lambda>document.
       bind_io (install_generation env package member (tsd_epoch document)) (\<lambda>a.
       ret \<lparr>ad_activation = a, ad_epoch = tsd_epoch document, ad_document = document\<rparr>)) s4 = (r, s')"
    by auto
  from bind_looks [OF looks_lift_res 4(2)] changed 4(1)
  obtain d s5 where 5: "fs_root s5 = fs_root s" "check_delivered env (gm_trust g) package member = Inr d"
    "bind_io (install_generation env package member (tsd_epoch d)) (\<lambda>a.
       ret \<lparr>ad_activation = a, ad_epoch = tsd_epoch d, ad_document = d\<rparr>) s5 = (r, s')"
    by (auto simp: lift_res_def)
  from bind_ret_root [OF 5(3)] obtain r1 where "install_generation env package member (tsd_epoch d) s5 = (r1, s')"
    by (elim exE conjE) (rule that)
  with g 5(1,2) show ?thesis by (intro exI conjI)
qed

lemma installed_document:
  "installed env package member d root \<Longrightarrow> read_trust_set_document (tv_parser env) (tv_crypto env) member = Inr d' \<Longrightarrow>
     d' = d"
  by (simp add: installed_def self_admitted_def)

lemma accept_run:
  assumes run: "accept_generation env package s = (r, s')"
    and ok: "tree_ok (fs_root s)" "index_left (fs_root s)"
  shows "tree_ok (fs_root s')"
    "same_reads (fs_root s) (fs_root s') \<or> (\<exists>g member d. active_material env (fs_root s) = Some g \<and>
       accepted_under env g package member d \<and> installed env package member d (fs_root s'))"
proof -
  have "tree_ok (fs_root s') \<and> (same_reads (fs_root s) (fs_root s') \<or>
      (\<exists>g member d. active_material env (fs_root s) = Some g \<and>
       accepted_under env g package member d \<and> installed env package member d (fs_root s')))"
  proof (cases "fs_root s' = fs_root s")
    case True
    with ok(1) show ?thesis by simp
  next
    case False
    from accept_reaches_install [OF run this] obtain g member d s1 r1 where
      g: "active_material env (fs_root s) = Some g"
      and c: "check_delivered env (gm_trust g) package member = Inr d" and s1: "fs_root s1 = fs_root s"
      and i: "install_generation env package member (tsd_epoch d) s1 = (r1, s')" by (elim exE conjE) (rule that)
    have a: "accepted_under env g package member d"
      by (rule check_delivered_Inr [OF c]) (rule active_material_trust(1) [OF g])
    then have rd: "read_trust_set_document (tv_parser env) (tv_crypto env) member = Inr d"
      by (simp add: accepted_under_def)
    from install_run(2) [OF i] s1 ok
    consider "same_reads (fs_root s) (fs_root s')" | d' where "installed env package member d' (fs_root s')" by auto
    then have "same_reads (fs_root s) (fs_root s') \<or> installed env package member d (fs_root s')"
      by cases (auto dest: installed_document [OF _ rd])
    with install_run(1) [OF i] s1 ok a g show ?thesis by auto
  qed
  then show "tree_ok (fs_root s')"
    "same_reads (fs_root s) (fs_root s') \<or> (\<exists>g member d. active_material env (fs_root s) = Some g \<and>
       accepted_under env g package member d \<and> installed env package member d (fs_root s'))" by blast+
qed

lemma accept_success:
  assumes run: "accept_generation env package s = (Inr ad, s')"
    and ok: "tree_ok (fs_root s)" "index_left (fs_root s)"
  shows "\<exists>g g'. active_material env (fs_root s) = Some g \<and> active_material env (fs_root s') = Some g' \<and>
    gm_epoch g' = ad_epoch ad \<and> gm_document g' = ad_document ad \<and>
    read_in (fs_root s') ACTIVE_LINK GENERATION_PACKAGE_FILE = Inr package \<and>
    (if ac_changed (ad_activation ad)
     then (\<exists>member. accepted_under env g package member (ad_document ad) \<and>
             installed env package member (ad_document ad) (fs_root s'))
     else fs_root s' = fs_root s)"
proof -
  from run obtain n s1 g s2 stored s3 where
    1: "some_or RT_NoActiveGeneration active_generation_index s = (Inr n, s1)"
    and 2: "read_active_generation env s1 = (Inr g, s2)"
    and 3: "fs_read ACTIVE_LINK GENERATION_PACKAGE_FILE s2 = (Inr stored, s3)"
    and 4: "(if stored = package then
         ret \<lparr>ad_activation = \<lparr>ac_generation = n, ac_changed = False\<rparr>,
              ad_epoch = gm_epoch g, ad_document = gm_document g\<rparr>
       else
         bind_io (extract_member env package) (\<lambda>member.
         bind_io (lift_res (check_delivered env (gm_trust g) package member)) (\<lambda>document.
         bind_io (install_generation env package member (tsd_epoch document)) (\<lambda>a.
         ret \<lparr>ad_activation = a, ad_epoch = tsd_epoch document, ad_document = document\<rparr>)))) s3 = (Inr ad, s')"
    unfolding accept_generation_def io_or_def run_simps by (elim exE conjE) (rule that)
  have root1: "fs_root s1 = fs_root s" by (rule looksD [OF looks_some_or [OF looks_readers(2)] 1])
  note r2 = read_active_generation_run [OF 2]
  note r3 = run_fs_read [OF 3]
  have g: "active_material env (fs_root s) = Some g" and root3: "fs_root s3 = fs_root s"
    and stored: "read_in (fs_root s) ACTIVE_LINK GENERATION_PACKAGE_FILE = Inr stored"
    using root1 r2 r3 by simp_all
  show ?thesis
  proof (cases "stored = package")
    case True
    with 4 have "ad = \<lparr>ad_activation = \<lparr>ac_generation = n, ac_changed = False\<rparr>, ad_epoch = gm_epoch g,
        ad_document = gm_document g\<rparr>" "s' = s3" by (simp_all add: run_simps)
    with g root3 stored True show ?thesis by simp
  next
    case False
    with 4 obtain member s4 d a where e: "extract_member env package s3 = (Inr member, s4)"
      "check_delivered env (gm_trust g) package member = Inr d"
      "install_generation env package member (tsd_epoch d) s4 = (Inr a, s')"
      "ad = \<lparr>ad_activation = a, ad_epoch = tsd_epoch d, ad_document = d\<rparr>"
      by (auto simp: run_simps)
    have root4: "fs_root s4 = fs_root s" using looksD [OF looks_readers(5) e(1)] root3 by simp
    have acc: "accepted_under env g package member d"
      by (rule check_delivered_Inr [OF e(2)]) (rule active_material_trust(1) [OF g])
    then have rd: "read_trust_set_document (tv_parser env) (tv_crypto env) member = Inr d"
      and newer: "gm_epoch g < tsd_epoch d" by (simp_all add: accepted_under_def)
    note i = install_success [OF e(3), unfolded root4, OF ok]
    have changed: "ac_changed a"
    proof (rule ccontr)
      assume "\<not> ac_changed a"
      with i(1) [of "\<lparr>gf_name = EPOCH_RECORD_FILE, gf_bytes = render_epoch_record (tsd_epoch d)\<rparr>"] i(3)
      have "read_in (fs_root s) ACTIVE_LINK EPOCH_RECORD_FILE = Inr (render_epoch_record (tsd_epoch d))"
        by (simp add: material_def)
      with active_material_epoch [OF g] newer show False by (auto simp: render_epoch_record_def)
    qed
    with i(2) obtain d' where "installed env package member d' (fs_root s')" by blast
    with installed_document [OF this rd] have ins: "installed env package member d (fs_root s')" by simp
    then have "read_in (fs_root s') ACTIVE_LINK GENERATION_PACKAGE_FILE = Inr package"
      by (simp add: installed_def)
    with g acc ins installed_active [OF ins] changed e(4) show ?thesis by auto
  qed
qed

text \<open>
  A successful acceptance, whatever was scripted to fail on the way. The tree had a readable
  generation and has one afterwards: its epoch and document are the ones reported and its stored
  package is the delivered one. Either nothing was touched (the delivered bytes were already active),
  or the delivered generation is strictly newer than the active one, every artifact of it carries its
  epoch, it verified under the anchors of the generation it replaces and also under its own.
\<close>

theorem acceptance_installs_newer:
  assumes "accept_generation env package s = (Inr ad, s')" "tree_ok (fs_root s)" "index_left (fs_root s)"
  shows "\<exists>g g'. active_material env (fs_root s) = Some g \<and> active_material env (fs_root s') = Some g' \<and>
    gm_epoch g' = ad_epoch ad \<and> gm_document g' = ad_document ad \<and>
    read_in (fs_root s') ACTIVE_LINK GENERATION_PACKAGE_FILE = Inr package \<and>
    (if ac_changed (ad_activation ad)
     then (\<exists>member. accepted_under env g package member (ad_document ad) \<and>
             installed env package member (ad_document ad) (fs_root s'))
     else fs_root s' = fs_root s)"
  using assms by (rule accept_success)

text \<open>The member a package extracts to.\<close>

definition delivers :: "trust_env \<Rightarrow> bytes \<Rightarrow> bytes \<Rightarrow> bool" where
  "delivers env package member \<longleftrightarrow>
     (\<exists>p files. open_package (tv_codec env) package = Inr p \<and>
        extract_to (tv_crypto env) (tv_untar env) p = Inr files \<and> member_of_files files = Inr member)"

lemma outside_faultless: "fs_faults s = [] \<Longrightarrow> fs_outside s = (Inr (), s)"
  unfolding fs_outside_def by (rule run_operation_faultless)

lemma extract_member_faultless:
  "delivers env package member \<Longrightarrow> fs_faults s = [] \<Longrightarrow> extract_member env package s = (Inr member, s)"
  by (auto simp: delivers_def extract_member_def io_or_def then_io_def bind_io_def io_map_err_def
      lift_res_def outside_faultless)

lemma not_rejected:
  assumes "self_admitted env package member d"
    and "provisional_anchors_and_epoch (tv_parser env) (tv_crypto env) member \<noteq> None"
  shows "\<not> rejected_by (validate_staged env) (material package member (tsd_epoch d))"
proof
  assume "rejected_by (validate_staged env) (material package member (tsd_epoch d))"
  then obtain dir s e where dir: "map_of (fs_root s) dir = Some (Dir (staged (material package member (tsd_epoch d))))"
    and s: "fs_faults s = []"
    and v: "fst (validate_staged env dir (material package member (tsd_epoch d)) s) = Inl e"
    unfolding rejected_by_def by blast
  from self_admitted_candidate [OF assms] obtain anchors where
    a: "self_admission_candidate (tv_parser env) (tv_crypto env) member
        = Some (own_trust anchors (tsd_epoch d), tsd_epoch d)"
      "document_anchors (tv_crypto env) d = Some anchors" by blast
  with assms(1) obtain vp where rd: "read_trust_set_document (tv_parser env) (tv_crypto env) member = Inr d"
    and vp: "verify_package (tv_crypto env) (tv_codec env) package (own_trust anchors (tsd_epoch d))
        (trust_request env member (tsd_epoch d) None) = Inr vp"
    by (auto simp: self_admitted_def)
  have r: "fs_read dir GENERATION_PACKAGE_FILE s = (Inr package, s)"
    unfolding fs_read_def run_operation_faultless [OF s]
    using dir by (simp add: read_in_dir map_of_staged_find material_def)
  have "parse_epoch_record (render_epoch_record (tsd_epoch d)) = Inr (tsd_epoch d)"
    using self_admitted_material(2) [OF assms(1)] by (simp add: parse_epoch_record_Inr)
  with a(1) rd vp r s have "validate_staged env dir (material package member (tsd_epoch d)) s = (Inr (), s)"
    by (simp add: validate_staged_def material_def bind_io_def lift_res_def io_or_def io_map_err_def then_io_def
        for_trust_self_admission_def trust_request_def outside_faultless check_epoch_agreement_def)
  with v show False by simp
qed

lemma active_index_faultless:
  assumes "healthy (fs_root s)" "fs_faults s = []" "active_material env (fs_root s) = Some g"
  shows "\<exists>n. some_or RT_NoActiveGeneration active_generation_index s = (Inr n, s)"
proof -
  have "map_of (fs_root s) ACTIVE_LINK \<noteq> None"
  proof
    assume "map_of (fs_root s) ACTIVE_LINK = None"
    from read_in_missing [OF this] assms(3) show False by (simp add: active_material_def)
  qed
  then obtain x where x: "map_of (fs_root s) ACTIVE_LINK = Some x" by blast
  with assms(1) obtain n where "x = Link (generation_name n)" by (cases x) (auto simp: healthy_def)
  with x have "map_of (fs_root s) ACTIVE_LINK = Some (Link (generation_name n))" by simp
  then show ?thesis
    using assms(2)
    by (simp add: some_or_def active_generation_index_def bind_io_def attempt_def fs_read_link_def
        run_operation_faultless lift_res_def ret_def)
qed

lemma accept_faultless:
  assumes faultless: "fs_faults s = []" and ok: "unobstructed (fs_root s)" "plain_entries (fs_root s)" "index_left (fs_root s)"
    and g: "active_material env (fs_root s) = Some g"
    and stored: "read_in (fs_root s) ACTIVE_LINK GENERATION_PACKAGE_FILE = Inr stored" "stored \<noteq> package"
    and d: "delivers env package member" "check_delivered env (gm_trust g) package member = Inr d"
    and own: "self_admitted env package member d"
  shows "\<exists>ad s'. accept_generation env package s = (Inr ad, s') \<and> ac_changed (ad_activation ad) \<and>
    ad_epoch ad = tsd_epoch d \<and> ad_document ad = d"
proof -
  have healthy: "healthy (fs_root s)" using ok(1) by (simp add: unobstructed_def)
  from active_index_faultless [OF this faultless g] obtain n where
    n: "some_or RT_NoActiveGeneration active_generation_index s = (Inr n, s)" by blast
  have p: "provisional_anchors_and_epoch (tv_parser env) (tv_crypto env) member \<noteq> None"
    using d(2) by (auto simp: check_delivered_def)
  obtain r s' where i: "install_generation env package member (tsd_epoch d) s = (r, s')" by force
  have "reload_ok no_systemctl \<lparr>gt_reload_unit = None\<rparr>" by (simp add: reload_ok_def)
  from staged_release.run_faultless [OF i [unfolded install_generation_def] faultless ok(1,3,2)
      check_material_release not_rejected [OF own p] this]
  obtain a where a: "r = Inr a" by blast
  have run: "accept_generation env package s =
      (Inr \<lparr>ad_activation = a, ad_epoch = tsd_epoch d, ad_document = d\<rparr>, s')"
    using n read_active_generation_faultless [OF g faultless] stored d(2) i a
      extract_member_faultless [OF d(1) faultless]
    by (simp add: accept_generation_def bind_io_def io_or_def io_map_err_def fs_read_def
        run_operation_faultless [OF faultless] lift_res_def ret_def)
  have w: "tree_ok (fs_root s)" using healthy ok(2) by (simp add: tree_ok_def)
  from accept_success [OF run w ok(3)] g have "ac_changed a \<or> read_in (fs_root s) ACTIVE_LINK GENERATION_PACKAGE_FILE = Inr package"
    by (auto split: if_splits)
  with stored have "ac_changed a" by simp
  with run show ?thesis by auto
qed

text \<open>
  C12: acceptance is live. With nothing failing and nothing in the engine's way, a package other than
  the active one that extracts to a trust-set member, passes the checks under the active generation
  and vouches for itself is accepted: the result is no error, reports a change and the new epoch.
\<close>

theorem acceptance_succeeds:
  assumes "fs_faults s = []" "unobstructed (fs_root s)" "plain_entries (fs_root s)" "index_left (fs_root s)"
    and "active_material env (fs_root s) = Some g"
    and "read_in (fs_root s) ACTIVE_LINK GENERATION_PACKAGE_FILE = Inr stored" "stored \<noteq> package"
    and "delivers env package member" "check_delivered env (gm_trust g) package member = Inr d"
    and "self_admitted env package member d"
  shows "\<exists>ad s'. accept_generation env package s = (Inr ad, s') \<and> ac_changed (ad_activation ad) \<and>
    ad_epoch ad = tsd_epoch d \<and> ad_document ad = d"
  using assms by (rule accept_faultless)

text \<open>
  C13: an acceptance that fails, or is cut short anywhere, is harmless. Whatever its result, a reader
  of \<open>active\<close> finds every file as before, or the complete delivered generation, which then is strictly
  newer and verified under both the old and its own anchors.
\<close>

theorem acceptance_atomic:
  assumes "accept_generation env package s = (r, s')" "tree_ok (fs_root s)" "index_left (fs_root s)"
  shows "same_reads (fs_root s) (fs_root s') \<or> (\<exists>g member d. active_material env (fs_root s) = Some g \<and>
    accepted_under env g package member d \<and> installed env package member d (fs_root s'))"
  using assms by (rule accept_run(2))

section \<open>Chains\<close>

text \<open>Packages accepted one after the other, with what each reported.\<close>

fun accepted_in_turn :: "trust_env \<Rightarrow> (bytes \<times> admitted_generation) list \<Rightarrow> fsys \<Rightarrow> fsys \<Rightarrow> bool" where
  "accepted_in_turn env [] s s' \<longleftrightarrow> s' = s"
| "accepted_in_turn env ((package, ad) # rest) s s' \<longleftrightarrow>
     (\<exists>s1. accept_generation env package s = (Inr ad, s1) \<and> accepted_in_turn env rest s1 s')"

lemma replay_chain_run:
  "replay_chain env n latest packages s = (r, s') \<Longrightarrow>
   \<exists>accepted rest s1. packages = map fst accepted @ rest \<and> accepted_in_turn env accepted s s1 \<and>
     (case r of
        Inr cp \<Rightarrow> rest = [] \<and> s' = s1 \<and> cp_completed cp = n + length packages \<and>
          cp_last cp = (if accepted = [] then latest else Some (snd (last accepted)))
      | Inl ce \<Rightarrow> rest \<noteq> [] \<and> accept_generation env (hd rest) s1 = (Inl (ce_source ce), s') \<and>
          ce_completed ce = n + length accepted \<and>
          ce_last ce = (if accepted = [] then latest else Some (snd (last accepted))))"
proof (induction packages arbitrary: n latest s)
  case Nil
  then show ?case by (auto simp: ret_def intro!: exI [of _ "[]"])
next
  case (Cons package rest)
  obtain r1 s1 where run: "accept_generation env package s = (r1, s1)" by force
  show ?case
  proof (cases r1)
    case (Inl e)
    with Cons.prems run have "r = Inl \<lparr>ce_completed = n, ce_last = latest, ce_source = e\<rparr>" "s' = s1"
      by (simp_all add: bind_io_def attempt_def fail_def)
    with run Inl show ?thesis
      by (intro exI [of _ "[]"] exI [of _ "package # rest"] exI [of _ s]) simp
  next
    case (Inr ad)
    with Cons.prems run have "replay_chain env (n + 1) (Some ad) rest s1 = (r, s')"
      by (simp add: bind_io_def attempt_def)
    from Cons.IH [OF this] obtain accepted rest' s2 where
      i: "rest = map fst accepted @ rest'" "accepted_in_turn env accepted s1 s2"
        "case r of
          Inr cp \<Rightarrow> rest' = [] \<and> s' = s2 \<and> cp_completed cp = n + 1 + length rest \<and>
            cp_last cp = (if accepted = [] then Some ad else Some (snd (last accepted)))
        | Inl ce \<Rightarrow> rest' \<noteq> [] \<and> accept_generation env (hd rest') s2 = (Inl (ce_source ce), s') \<and>
            ce_completed ce = n + 1 + length accepted \<and>
            ce_last ce = (if accepted = [] then Some ad else Some (snd (last accepted)))" by blast
    with run Inr show ?thesis
      by (intro exI [of _ "(package, ad) # accepted"] exI [of _ rest'] exI [of _ s2])
        (auto split: sum.splits)
  qed
qed

text \<open>
  A chain is its prefix. A replay accepts the packages in order and stops at the first that is
  refused: it reports how many were accepted, the last of them and, on a refusal, that refusal, and
  the tree is the one the accepted prefix and the refused acceptance left; the rest is never looked at.
\<close>

theorem chain_is_accepted_prefix:
  "case accept_generation_chain env packages s of (r, s') \<Rightarrow>
   \<exists>accepted rest s1. packages = map fst accepted @ rest \<and> accepted_in_turn env accepted s s1 \<and>
     (case r of
        Inr cp \<Rightarrow> rest = [] \<and> s' = s1 \<and> cp_completed cp = length packages \<and>
          cp_last cp = (if accepted = [] then None else Some (snd (last accepted)))
      | Inl ce \<Rightarrow> rest \<noteq> [] \<and> accept_generation env (hd rest) s1 = (Inl (ce_source ce), s') \<and>
          ce_completed ce = length accepted \<and>
          ce_last ce = (if accepted = [] then None else Some (snd (last accepted))))"
  unfolding accept_generation_chain_def
proof (cases "replay_chain env 0 None packages s")
  case (Pair r s')
  from replay_chain_run [OF Pair] show "case replay_chain env 0 None packages s of (r, s') \<Rightarrow>
    \<exists>accepted rest s1. packages = map fst accepted @ rest \<and> accepted_in_turn env accepted s s1 \<and>
     (case r of
        Inr cp \<Rightarrow> rest = [] \<and> s' = s1 \<and> cp_completed cp = length packages \<and>
          cp_last cp = (if accepted = [] then None else Some (snd (last accepted)))
      | Inl ce \<Rightarrow> rest \<noteq> [] \<and> accept_generation env (hd rest) s1 = (Inl (ce_source ce), s') \<and>
          ce_completed ce = length accepted \<and>
          ce_last ce = (if accepted = [] then None else Some (snd (last accepted))))"
    unfolding Pair prod.case add_0 .
qed

section \<open>Admission and re-bootstrap\<close>

lemma verify_self_admitted_run:
  assumes "verify_self_admitted env package s = (Inr v, s')"
  shows "self_admitted env package (vg_member v) (vg_document v)" "vg_epoch v = tsd_epoch (vg_document v)"
    "fs_root s' = fs_root s"
proof -
  from assms obtain member trust e request vp d where m:
    "self_admission_candidate (tv_parser env) (tv_crypto env) member = Some (trust, e)"
    "for_trust_self_admission (to_string e) (member_digest (tv_crypto env) member) = Inr request"
    "verify_package (tv_crypto env) (tv_codec env) package trust request = Inr vp"
    "read_trust_set_document (tv_parser env) (tv_crypto env) member = Inr d"
    "v = \<lparr>vg_document = d, vg_epoch = tsd_epoch d, vg_member = member\<rparr>"
    by (auto simp: verify_self_admitted_def run_simps)
  with self_admittedI [OF m(1-4)] show "self_admitted env package (vg_member v) (vg_document v)"
    "vg_epoch v = tsd_epoch (vg_document v)" by simp_all
  show "fs_root s' = fs_root s" by (rule looksD [OF looks_verified(1) assms])
qed

lemma stat_present:
  assumes "active_material env (fs_root s) = Some g" "fs_stat ACTIVE_LINK s = (Inl k, s')"
  shows "k \<noteq> NotFound"
proof
  assume "k = NotFound"
  with assms(2) have "(case follow MAX_LINK_HOPS (fs_root s) ACTIVE_LINK of Inl e \<Rightarrow> Inl e | Inr _ \<Rightarrow> Inr ()) = Inl NotFound"
    using run_operation_not_found [of "\<lambda>root. case follow MAX_LINK_HOPS root ACTIVE_LINK of
        Inl e \<Rightarrow> Inl e | Inr _ \<Rightarrow> Inr ()" s s'] by (simp add: fs_stat_def)
  with assms(1) show False by (auto simp: active_material_def read_in_def split: sum.splits)
qed

lemma admit_onto_present:
  assumes "admit_onto_empty_tree env pin package s = (r, s')" "active_material env (fs_root s) = Some g"
  shows "fs_root s' = fs_root s" "\<exists>e. r = Inl e"
proof -
  obtain st s1 where st: "fs_stat ACTIVE_LINK s = (st, s1)" by force
  have root1: "fs_root s1 = fs_root s" by (rule looksD [OF looks_release_fs(1) st])
  obtain link s2 where l: "fs_read_link ACTIVE_LINK s1 = (link, s2)" by force
  have "fs_root s2 = fs_root s1" by (rule looksD [OF looks_fs(2) l])
  with assms(1) st root1 l stat_present [OF assms(2)] have "fs_root s' = fs_root s \<and> (\<exists>e. r = Inl e)"
    by (cases st)
      (auto simp: admit_onto_empty_tree_def bind_io_def attempt_def fail_def split: io_kind.splits)
  then show "fs_root s' = fs_root s" "\<exists>e. r = Inl e" by simp_all
qed

lemma pin_marker_run:
  assumes "require_pin_marker_set s = (Inr required, s')"
  shows "required \<longleftrightarrow> map_of (fs_root s) REQUIRE_TRUST_PIN_MARKER \<noteq> None"
proof -
  obtain r s1 where r: "fs_lstat REQUIRE_TRUST_PIN_MARKER s = (r, s1)" by force
  with assms have c: "classify_pin_marker r = Inr required"
    by (simp add: require_pin_marker_set_def run_simps)
  let ?g = "\<lambda>root. case map_of root REQUIRE_TRUST_PIN_MARKER of None \<Rightarrow> Inl NotFound | Some _ \<Rightarrow> Inr ()"
  show ?thesis
  proof (cases r)
    case (Inr u)
    with r have "?g (fs_root s) = Inr u"
      using run_operation [of ?g s u s1] by (simp add: fs_lstat_def)
    with c Inr show ?thesis by (auto split: option.splits)
  next
    case (Inl k)
    with c have "k = NotFound" "\<not> required" by (cases k; simp)+
    with r Inl have "?g (fs_root s) = Inl NotFound"
      using run_operation_not_found [of ?g s s1] by (simp add: fs_lstat_def)
    with \<open>\<not> required\<close> show ?thesis by (auto split: option.splits)
  qed
qed

text \<open>
  What a re-bootstrap needs: the asserted epoch is the recorded one, a pin when the host requires one,
  the pin (if any) is the digest of the member, and the self-admitted generation is strictly newer.
\<close>

definition rebootstrap_authorized ::
  "trust_env \<Rightarrow> (bytes \<times> node) list \<Rightarrow> bytes \<Rightarrow> rebootstrap_authorization \<Rightarrow> bytes option \<Rightarrow>
     verified_generation \<Rightarrow> bool" where
  "rebootstrap_authorized env root package authorization pin v \<longleftrightarrow>
     read_in root ACTIVE_LINK EPOCH_RECORD_FILE = Inr (render_epoch_record (ra_asserted_epoch authorization)) \<and>
     (map_of root REQUIRE_TRUST_PIN_MARKER \<noteq> None \<longrightarrow> pin \<noteq> None) \<and>
     (\<forall>p. pin = Some p \<longrightarrow> p = member_digest (tv_crypto env) (vg_member v)) \<and>
     self_admitted env package (vg_member v) (vg_document v) \<and> vg_epoch v = tsd_epoch (vg_document v) \<and>
     ra_asserted_epoch authorization < vg_epoch v"

lemma rebootstrap_authorizedD:
  assumes "rebootstrap_authorized env root package authorization pin v"
  shows "read_in root ACTIVE_LINK EPOCH_RECORD_FILE = Inr (render_epoch_record (ra_asserted_epoch authorization))"
    "self_admitted env package (vg_member v) (vg_document v)" "vg_epoch v = tsd_epoch (vg_document v)"
    "ra_asserted_epoch authorization < vg_epoch v"
proof -
  note a = assms [unfolded rebootstrap_authorized_def]
  show "read_in root ACTIVE_LINK EPOCH_RECORD_FILE = Inr (render_epoch_record (ra_asserted_epoch authorization))"
    using a by (rule conjunct1)
  show "self_admitted env package (vg_member v) (vg_document v)" using a by (elim conjE)
  show "vg_epoch v = tsd_epoch (vg_document v)" using a by (elim conjE)
  show "ra_asserted_epoch authorization < vg_epoch v" using a by (elim conjE)
qed

lemma rebootstrap_reaches_install:
  assumes run: "rebootstrap_generation env package authorization pin s = (r, s')"
    and "fs_root s' \<noteq> fs_root s \<or> (\<exists>ad. r = Inr ad)"
  obtains v s1 r1 where "rebootstrap_authorized env (fs_root s) package authorization pin v"
    "fs_root s1 = fs_root s"
    "install_generation env package (vg_member v) (vg_epoch v) s1 = (r1, s')"
    "\<forall>ad. r = Inr ad \<longrightarrow> (\<exists>a. r1 = Inr a \<and>
       ad = \<lparr>ad_activation = a, ad_epoch = vg_epoch v, ad_document = vg_document v\<rparr>)"
proof -
  note goes = assms(2)
  from bind_looks [OF looks_some_or [OF looks_readers(1)] run [unfolded rebootstrap_generation_def]] goes
  obtain recorded s1 where 1: "some_or RT_NoActiveGeneration read_active_epoch s = (Inr recorded, s1)"
    "fs_root s1 = fs_root s"
    "(if ra_asserted_epoch authorization \<noteq> recorded then
       fail (RT_RebootstrapEpochMismatch (ra_asserted_epoch authorization) recorded)
     else
       bind_io require_pin_marker_set (\<lambda>required.
       if required \<and> pin = None then fail RT_FingerprintPinRequired
       else
         bind_io (verify_self_admitted env package) (\<lambda>verified.
         bind_io (lift_res (check_fingerprint_pin (tv_crypto env) pin (vg_member verified))) (\<lambda>_.
         if vg_epoch verified \<le> recorded then
           fail (RT_StaleRebootstrap (vg_epoch verified) recorded)
         else install_verified env package verified)))) s1 = (r, s')"
    by auto
  from 1(1) obtain s0 where "read_active_epoch s = (Inr (Some recorded), s0)"
    by (auto simp: some_or_def run_simps)
  from read_active_epoch_run [OF this] obtain bs where
    bs: "read_in (fs_root s) ACTIVE_LINK EPOCH_RECORD_FILE = Inr bs" "bs = render_epoch_record recorded"
    by (auto simp: parse_epoch_record_Inr)
  from 1 goes have asserted: "ra_asserted_epoch authorization = recorded"
    by (auto simp: fail_def split: if_splits)
  with 1(3) have "bind_io require_pin_marker_set (\<lambda>required.
       if required \<and> pin = None then fail RT_FingerprintPinRequired
       else
         bind_io (verify_self_admitted env package) (\<lambda>verified.
         bind_io (lift_res (check_fingerprint_pin (tv_crypto env) pin (vg_member verified))) (\<lambda>_.
         if vg_epoch verified \<le> recorded then
           fail (RT_StaleRebootstrap (vg_epoch verified) recorded)
         else install_verified env package verified))) s1 = (r, s')" by simp
  from bind_looks [OF looks_readers(4) this] goes 1(2)
  obtain required s2 where 2: "require_pin_marker_set s1 = (Inr required, s2)" "fs_root s2 = fs_root s"
    "\<not> (required \<and> pin = None)"
    "bind_io (verify_self_admitted env package) (\<lambda>verified.
         bind_io (lift_res (check_fingerprint_pin (tv_crypto env) pin (vg_member verified))) (\<lambda>_.
         if vg_epoch verified \<le> recorded then
           fail (RT_StaleRebootstrap (vg_epoch verified) recorded)
         else install_verified env package verified)) s2 = (r, s')"
    by (auto simp: fail_def split: if_splits)
  from bind_looks [OF looks_verified(1) 2(4)] goes 2(2)
  obtain v s3 where 3: "verify_self_admitted env package s2 = (Inr v, s3)" "fs_root s3 = fs_root s"
    "bind_io (lift_res (check_fingerprint_pin (tv_crypto env) pin (vg_member v))) (\<lambda>_.
         if vg_epoch v \<le> recorded then fail (RT_StaleRebootstrap (vg_epoch v) recorded)
         else install_verified env package v) s3 = (r, s')"
    by auto
  from bind_looks [OF looks_lift_res 3(3)] goes 3(2)
  have 4: "check_fingerprint_pin (tv_crypto env) pin (vg_member v) = Inr ()" "\<not> vg_epoch v \<le> recorded"
    "install_verified env package v s3 = (r, s')"
    by (auto simp: lift_res_def fail_def split: if_splits)
  have pin: "\<forall>p. pin = Some p \<longrightarrow> p = member_digest (tv_crypto env) (vg_member v)"
    using 4(1) by (auto simp: check_fingerprint_pin_def Let_def split: if_splits)
  have marker: "required \<longleftrightarrow> map_of (fs_root s) REQUIRE_TRUST_PIN_MARKER \<noteq> None"
    by (rule pin_marker_run [OF 2(1), unfolded 1(2)])
  from bind_ret_root [OF 4(3) [unfolded install_verified_def]] obtain r1 where
    i: "install_generation env package (vg_member v) (vg_epoch v) s3 = (r1, s')"
    "\<forall>ad. r = Inr ad \<longrightarrow> (\<exists>a. r1 = Inr a \<and>
       ad = \<lparr>ad_activation = a, ad_epoch = vg_epoch v, ad_document = vg_document v\<rparr>)"
    by (elim exE conjE) (rule that)
  have "recorded < vg_epoch v"
    "read_in (fs_root s) ACTIVE_LINK EPOCH_RECORD_FILE = Inr (render_epoch_record recorded)"
    using 4(2) bs by simp_all
  moreover have "map_of (fs_root s) REQUIRE_TRUST_PIN_MARKER \<noteq> None \<longrightarrow> pin \<noteq> None"
    using marker 2(3) by auto
  moreover note verify_self_admitted_run(1,2) [OF 3(1)] pin
  ultimately have "rebootstrap_authorized env (fs_root s) package authorization pin v"
    unfolding rebootstrap_authorized_def asserted by blast
  from that [OF this 3(2) i] show thesis .
qed

lemma rebootstrap_run:
  assumes run: "rebootstrap_generation env package authorization pin s = (r, s')"
    and ok: "tree_ok (fs_root s)" "index_left (fs_root s)"
  shows "tree_ok (fs_root s')"
    "same_reads (fs_root s) (fs_root s') \<or> (\<exists>v. rebootstrap_authorized env (fs_root s) package authorization pin v \<and>
       installed env package (vg_member v) (vg_document v) (fs_root s'))"
proof -
  have "tree_ok (fs_root s') \<and> (same_reads (fs_root s) (fs_root s') \<or>
      (\<exists>v. rebootstrap_authorized env (fs_root s) package authorization pin v \<and>
       installed env package (vg_member v) (vg_document v) (fs_root s')))"
  proof (cases "fs_root s' = fs_root s")
    case True
    with ok(1) show ?thesis by simp
  next
    case False
    obtain v s1 r1 where
      v: "rebootstrap_authorized env (fs_root s) package authorization pin v" and s1: "fs_root s1 = fs_root s"
      and i: "install_generation env package (vg_member v) (vg_epoch v) s1 = (r1, s')"
      by (rule rebootstrap_reaches_install [OF run disjI1 [OF False]]) (rule that)
    from v have rd: "read_trust_set_document (tv_parser env) (tv_crypto env) (vg_member v) = Inr (vg_document v)"
      by (simp add: rebootstrap_authorized_def self_admitted_def)
    note t = install_run [OF i, unfolded s1, OF ok]
    from t(2) have "same_reads (fs_root s) (fs_root s') \<or>
        installed env package (vg_member v) (vg_document v) (fs_root s')"
      using installed_document [OF _ rd] by (elim disjE exE conjE) simp_all
    with t(1) v show ?thesis by auto
  qed
  then show "tree_ok (fs_root s')"
    "same_reads (fs_root s) (fs_root s') \<or> (\<exists>v. rebootstrap_authorized env (fs_root s) package authorization pin v \<and>
       installed env package (vg_member v) (vg_document v) (fs_root s'))" by blast+
qed

lemma rebootstrap_success:
  assumes run: "rebootstrap_generation env package authorization pin s = (Inr ad, s')"
    and ok: "tree_ok (fs_root s)" "index_left (fs_root s)"
  shows "\<exists>v g'. rebootstrap_authorized env (fs_root s) package authorization pin v \<and>
    ad_epoch ad = vg_epoch v \<and> ad_document ad = vg_document v \<and> ac_changed (ad_activation ad) \<and>
    installed env package (vg_member v) (vg_document v) (fs_root s') \<and>
    active_material env (fs_root s') = Some g' \<and> gm_epoch g' = ad_epoch ad"
proof -
  have "\<exists>x. (Inr ad :: release_trust_error + admitted_generation) = Inr x" by simp
  then obtain v s1 r1 where
    v: "rebootstrap_authorized env (fs_root s) package authorization pin v" and s1: "fs_root s1 = fs_root s"
    and i: "install_generation env package (vg_member v) (vg_epoch v) s1 = (r1, s')"
    and ad: "\<forall>x. (Inr ad :: release_trust_error + admitted_generation) = Inr x \<longrightarrow> (\<exists>a. r1 = Inr a \<and>
       x = \<lparr>ad_activation = a, ad_epoch = vg_epoch v, ad_document = vg_document v\<rparr>)"
    by (rule rebootstrap_reaches_install [OF run disjI2]) (rule that)
  from ad obtain a where a: "r1 = Inr a"
    "ad = \<lparr>ad_activation = a, ad_epoch = vg_epoch v, ad_document = vg_document v\<rparr>" by blast
  note t = install_success [OF i [unfolded a(1)], unfolded s1, OF ok]
  have changed: "ac_changed a"
  proof (rule ccontr)
    assume "\<not> ac_changed a"
    with t(1) [of "\<lparr>gf_name = EPOCH_RECORD_FILE, gf_bytes = render_epoch_record (vg_epoch v)\<rparr>"] t(3)
    have "read_in (fs_root s) ACTIVE_LINK EPOCH_RECORD_FILE = Inr (render_epoch_record (vg_epoch v))"
      by (simp add: material_def)
    with rebootstrap_authorizedD(1,4) [OF v] show False by (simp add: render_epoch_record_def)
  qed
  with t(2) obtain d where d: "installed env package (vg_member v) d (fs_root s')" by blast
  from v have "read_trust_set_document (tv_parser env) (tv_crypto env) (vg_member v) = Inr (vg_document v)"
    by (simp add: rebootstrap_authorized_def self_admitted_def)
  with installed_document [OF d] d have ins: "installed env package (vg_member v) (vg_document v) (fs_root s')" by simp
  from installed_active [OF ins] v a changed ins show ?thesis
    by (auto simp: rebootstrap_authorized_def)
qed

text \<open>
  C14: a successful re-bootstrap. The operator asserted exactly the recorded epoch, the delivered
  generation vouches for itself and its epoch is strictly larger, a host with the pin marker was given
  a pin and any pin given is the digest of the installed member. What is then active is that
  generation, complete.
\<close>

theorem rebootstrap_sound:
  assumes "rebootstrap_generation env package authorization pin s = (Inr ad, s')"
    and "tree_ok (fs_root s)" "index_left (fs_root s)"
  shows "\<exists>v g'. rebootstrap_authorized env (fs_root s) package authorization pin v \<and>
    ad_epoch ad = vg_epoch v \<and> ad_document ad = vg_document v \<and> ac_changed (ad_activation ad) \<and>
    installed env package (vg_member v) (vg_document v) (fs_root s') \<and>
    active_material env (fs_root s') = Some g' \<and> gm_epoch g' = ad_epoch ad"
  using assms by (rule rebootstrap_success)

text \<open>
  The seed and join-material routes never touch a tree that has a readable generation: they end in
  an error and leave every entry as it was, whatever package, pin and faults they meet.
\<close>

theorem bootstrap_needs_empty_tree:
  assumes "active_material env (fs_root s) = Some g"
  shows "(case admit_seed_generation env package s of (r, s') \<Rightarrow> (\<exists>e. r = Inl e) \<and> fs_root s' = fs_root s) \<and>
    (case bootstrap_from_join_material env pin s of (r, s') \<Rightarrow> (\<exists>e. r = Inl e) \<and> fs_root s' = fs_root s)"
  using admit_onto_present [OF _ assms]
  by (auto simp: admit_seed_generation_def bootstrap_from_join_material_def)

section \<open>The epoch never goes back\<close>

text \<open>One operation other than a replacement on a release-trust tree, with any package and any faults.\<close>

inductive trust_step :: "trust_env \<Rightarrow> (bytes \<times> node) list \<Rightarrow> (bytes \<times> node) list \<Rightarrow> bool" for env where
  accept: "accept_generation env package s = (r, s') \<Longrightarrow> index_left (fs_root s) \<Longrightarrow>
    trust_step env (fs_root s) (fs_root s')"
| rebootstrap: "rebootstrap_generation env package authorization pin s = (r', s') \<Longrightarrow> index_left (fs_root s) \<Longrightarrow>
    trust_step env (fs_root s) (fs_root s')"
| seed: "admit_seed_generation env package s = (r'', s') \<Longrightarrow> index_left (fs_root s) \<Longrightarrow>
    trust_step env (fs_root s) (fs_root s')"
| join: "bootstrap_from_join_material env pin s = (r'', s') \<Longrightarrow> index_left (fs_root s) \<Longrightarrow>
    trust_step env (fs_root s) (fs_root s')"

definition not_rolled_back :: "generation_material \<Rightarrow> generation_material \<Rightarrow> bool" where
  "not_rolled_back g g' \<longleftrightarrow> g' = g \<or> gm_epoch g < gm_epoch g'"

lemma not_rolled_back_trans: "not_rolled_back g g' \<Longrightarrow> not_rolled_back g' g'' \<Longrightarrow> not_rolled_back g g''"
  by (auto simp: not_rolled_back_def)

lemma forward_moves:
  assumes "same_reads root root' \<or> (\<exists>package member d. installed env package member d root' \<and> gm_epoch g < tsd_epoch d)"
    and "active_material env root = Some g"
  shows "\<exists>g'. active_material env root' = Some g' \<and> not_rolled_back g g'"
  using assms(1)
proof (elim disjE exE conjE)
  assume "same_reads root root'"
  with assms(2) show ?thesis by (simp add: same_reads_material not_rolled_back_def)
next
  fix package member d
  assume "installed env package member d root'" "gm_epoch g < tsd_epoch d"
  with installed_active [of env package member d root'] show ?thesis by (auto simp: not_rolled_back_def)
qed

lemma trust_step_forward:
  assumes "trust_step env root root'" "tree_ok root" "active_material env root = Some g"
  shows "tree_ok root' \<and> (\<exists>g'. active_material env root' = Some g' \<and> not_rolled_back g g')"
  using assms(1)
proof cases
  case (accept package s r s')
  note a = accept_run [OF accept(3) assms(2) [unfolded accept(1)] accept(4), folded accept(1,2)]
  have "same_reads root root' \<or> (\<exists>package member d. installed env package member d root' \<and> gm_epoch g < tsd_epoch d)"
    using a(2) assms(3) by (auto simp: accepted_under_def)
  with a(1) assms(3) show ?thesis by (intro conjI forward_moves)
next
  case (rebootstrap package authorization pin s r' s')
  note a = rebootstrap_run [OF rebootstrap(3) assms(2) [unfolded rebootstrap(1)] rebootstrap(4), folded rebootstrap(1,2)]
  have "gm_epoch g = ra_asserted_epoch authorization" if "rebootstrap_authorized env root package authorization pin v" for v
    using that active_material_epoch [OF assms(3)] by (simp add: rebootstrap_authorized_def render_epoch_record_def)
  then have "same_reads root root' \<or> (\<exists>package member d. installed env package member d root' \<and> gm_epoch g < tsd_epoch d)"
    using a(2) by (auto simp: rebootstrap_authorized_def)
  with a(1) assms(3) show ?thesis by (intro conjI forward_moves)
next
  case (seed package s r'' s')
  with assms(2,3) admit_onto_present(1) [of env None "ret package" s r'' s'] show ?thesis
    by (simp add: admit_seed_generation_def not_rolled_back_def)
next
  case (join pin s r'' s')
  with assms(2,3) show ?thesis
    using admit_onto_present(1) [of env pin "io_or [JOIN_GENERATION_FILE] (fs_read_file JOIN_GENERATION_FILE)" s r'' s']
    by (simp add: bootstrap_from_join_material_def not_rolled_back_def)
qed

text \<open>
  The one door without an epoch floor installs what it was given, complete and vouched for by its own anchors, or
  leaves what is read as it was.
\<close>

lemma replace_run:
  assumes "replace_generation env package s = (r, s')" "tree_ok (fs_root s)" "index_left (fs_root s)"
  shows "tree_ok (fs_root s')"
    "same_reads (fs_root s) (fs_root s') \<or> (\<exists>member d. installed env package member d (fs_root s'))"
proof -
  have "tree_ok (fs_root s') \<and>
      (same_reads (fs_root s) (fs_root s') \<or> (\<exists>member d. installed env package member d (fs_root s')))"
  proof (cases "fs_root s' = fs_root s")
    case True
    then show ?thesis using assms(2) by simp
  next
    case False
    obtain v s1 where v: "verify_self_admitted env package s = (v, s1)" by force
    have root1: "fs_root s1 = fs_root s" by (rule looksD [OF looks_verified(1) v])
    obtain x where x: "v = Inr x"
      using assms(1) False v root1
      by (cases v) (auto simp: replace_generation_def admit_def admit_with_pin_def bind_io_def)
    then obtain r1 where "install_generation env package (vg_member x) (vg_epoch x) s1 = (r1, s')"
      using bind_ret_root [of "install_generation env package (vg_member x) (vg_epoch x)"] assms(1) v
      by (fastforce simp: replace_generation_def admit_def admit_with_pin_def check_fingerprint_pin_def install_verified_def
          bind_io_def lift_res_def)
    from install_run [OF this] assms(2,3) root1 show ?thesis by auto
  qed
  then show "tree_ok (fs_root s')"
    "same_reads (fs_root s) (fs_root s') \<or> (\<exists>member d. installed env package member d (fs_root s'))" by simp_all
qed

text \<open>A sequence of operations, with the packages that were handed to the replacement door, the last one first.\<close>

inductive trust_run :: "trust_env \<Rightarrow> bytes list \<Rightarrow> (bytes \<times> node) list \<Rightarrow> (bytes \<times> node) list \<Rightarrow> bool" for env where
  stay: "trust_run env [] root root"
| operate: "trust_run env replaced root root1 \<Longrightarrow> trust_step env root1 root2 \<Longrightarrow> trust_run env replaced root root2"
| replace: "trust_run env replaced root (fs_root s) \<Longrightarrow> replace_generation env package s = (r, s') \<Longrightarrow>
    index_left (fs_root s) \<Longrightarrow> trust_run env (package # replaced) root (fs_root s')"

definition replaced_down :: "trust_env \<Rightarrow> bytes list \<Rightarrow> generation_material \<Rightarrow> bool" where
  "replaced_down env replaced g \<longleftrightarrow>
     (\<exists>package \<in> set replaced. \<exists>member d. self_admitted env package member d \<and> tsd_epoch d \<le> gm_epoch g)"

lemma trust_run_forward:
  assumes "trust_run env replaced root root'" "tree_ok root" "active_material env root = Some g"
  shows "tree_ok root' \<and> (\<exists>g'. active_material env root' = Some g' \<and> (not_rolled_back g g' \<or> replaced_down env replaced g'))"
  using assms
proof induction
  case stay
  then show ?case by (simp add: not_rolled_back_def)
next
  case (operate replaced root root1 root2)
  from operate.IH [OF operate.prems] obtain g1 where g1: "tree_ok root1" "active_material env root1 = Some g1"
    "not_rolled_back g g1 \<or> replaced_down env replaced g1" by blast
  from trust_step_forward [OF operate.hyps(2) g1(1,2)] obtain g2 where
    g2: "tree_ok root2" "active_material env root2 = Some g2" "not_rolled_back g1 g2" by blast
  have "replaced_down env replaced g2" if "replaced_down env replaced g1"
  proof -
    have "gm_epoch g1 \<le> gm_epoch g2" using g2(3) by (auto simp: not_rolled_back_def)
    then show ?thesis using that order_trans [of _ "gm_epoch g1" "gm_epoch g2"] unfolding replaced_down_def by blast
  qed
  then have "not_rolled_back g g2 \<or> replaced_down env replaced g2" using g1(3) not_rolled_back_trans [OF _ g2(3)] by blast
  then show ?case using g2(1,2) by blast
next
  case (replace replaced root s package r s')
  from replace.IH [OF replace.prems] obtain g1 where g1: "tree_ok (fs_root s)" "active_material env (fs_root s) = Some g1"
    "not_rolled_back g g1 \<or> replaced_down env replaced g1" by blast
  note run = replace_run [OF replace.hyps(2) g1(1) replace.hyps(3)]
  from run(2) show ?case
  proof (elim disjE exE)
    assume "same_reads (fs_root s) (fs_root s')"
    then show ?thesis using g1(2,3) run(1) by (auto simp: same_reads_material replaced_down_def)
  next
    fix member d
    assume i: "installed env package member d (fs_root s')"
    from installed_active [OF i] obtain g2 where "active_material env (fs_root s') = Some g2" "gm_epoch g2 = tsd_epoch d"
      by auto
    moreover have "self_admitted env package member d" using i by (simp add: installed_def)
    ultimately show ?thesis using run(1) by (auto simp: replaced_down_def)
  qed
qed

text \<open>
  C15: an epoch goes back only through the replacement door. Once a tree has a readable generation, every sequence
  of acceptances, re-bootstraps, seed and join admissions and replacements, each with its own packages and its own
  faults, leaves it with a readable generation: the one it had, one with a strictly larger epoch, or one whose epoch
  is at least that of a package an operator gave to the replacement door on the way, which vouches for itself. So
  without a replacement nothing rolls back and two different generations never share an epoch; with one the floor is
  what was replaced with; and no failure on the way can leave the host without a trust set.
\<close>

theorem epoch_back_only_by_replacement:
  assumes "trust_run env replaced root root'" "tree_ok root" "active_material env root = Some g"
  shows "\<exists>g'. active_material env root' = Some g' \<and>
    (g' = g \<or> gm_epoch g < gm_epoch g' \<or>
     (\<exists>package \<in> set replaced. \<exists>member d. self_admitted env package member d \<and> tsd_epoch d \<le> gm_epoch g'))"
  using trust_run_forward [OF assms] by (auto simp: not_rolled_back_def replaced_down_def)

end
