(* ===== verification/Release_Trust_Sample.thy ===== *)
theory Release_Trust_Sample
  imports Release_Trust_Correct
begin

text \<open>
  A concrete release-trust tree: two trust generations, of epochs 7 and 8, signed by the same keys,
  and a tree whose active generation is the first. The properties of the lifecycle are applied to it.
\<close>

section \<open>Documents and packages\<close>

definition tree_member :: "u64 \<Rightarrow> bytes" where
  "tree_member epoch = replicate 32 (CHR ''m'') @ to_string epoch"

definition tree_digest :: bytes where
  "tree_digest = to_hex (replicate 32 (CHR ''m''))"

definition tree_parser :: parser where
  "tree_parser bs =
     (if bs = tree_member 7 then Some (sample_json_at 7 anchor_object)
      else Some (sample_json_at 8 anchor_object))"

definition tree_crypto :: crypto where
  "tree_crypto =
     \<lparr>sha256 = take 32,
      signature_verifies = \<lambda>algorithm pk message signature.
        case algorithm of
          Ed25519 \<Rightarrow> pk = sample_ed_key \<and> signature = ds_signature (sg_ed25519 sample_signed)
        | MlDsa87 \<Rightarrow> pk = sample_ml_key \<and> signature = ds_signature (sg_ml_dsa_87 sample_signed)\<rparr>"

definition tree_artifact :: "bytes \<Rightarrow> payload_artifact" where
  "tree_artifact version =
     \<lparr>pa_component = TRUST_TARGET, pa_version = version, pa_commit = Some tree_digest,
      pa_target_arch = X86_64, pa_kind = StaticAssets, pa_dispositions = [Install],
      pa_archive_path = TRUST_SET_MEMBER, pa_sha256 = tree_digest, pa_spec = None, pa_image = None\<rparr>"

definition tree_manifest :: "bytes \<Rightarrow> payload_manifest" where
  "tree_manifest version =
     \<lparr>pm_format_version = Some 8, pm_pinset = None, pm_release_build = False, pm_trust_set = None,
      pm_archive_members = Some [\<lparr>am_name = TRUST_SET_MEMBER, am_length = 33\<rparr>],
      pm_artifacts = [tree_artifact version]\<rparr>"

definition tree_raw :: "bytes \<Rightarrow> raw_manifest" where
  "tree_raw version =
     \<lparr>rm_format_version = Some 8, rm_pinset = None, rm_release_build = False, rm_trust_set = None,
      rm_archive_members = Some [\<lparr>am_name = TRUST_SET_MEMBER, am_length = 33\<rparr>],
      rm_artifacts =
        [\<lparr>ra_component = TRUST_TARGET, ra_version = version, ra_commit = Some tree_digest,
          ra_target_arch = X86_64, ra_kind = StaticAssets, ra_dispositions = [Install],
          ra_archive_path = TRUST_SET_MEMBER, ra_sha256 = tree_digest, ra_spec = None, ra_image = None\<rparr>]\<rparr>"

definition tree_codec :: manifest_codec where
  "tree_codec =
     \<lparr>mc_parse = \<lambda>bs. Some (JObj [(''format_version'', JNum (JPos 8)), (''version'', JStr bs)]),
      mc_raw = \<lambda>document. map_option tree_raw (Option.bind (value_get ''version'' document) as_str),
      mc_image = \<lambda>_. None, mc_base64 = Some\<rparr>"

definition tree_entry :: "bytes \<Rightarrow> tar_entry" where
  "tree_entry content =
     \<lparr>te_regular = True, te_header_name = TRUST_SET_MEMBER, te_name = TRUST_SET_MEMBER,
      te_header_size = Some (u64_of (length content)), te_size = u64_of (length content),
      te_content = Some content\<rparr>"

definition tree_untar :: untar where
  "tree_untar archive = Some \<lparr>tr_items = [Item (tree_entry archive)], tr_trailing = [], tr_trailing_fails = False\<rparr>"

definition tree_env :: trust_env where
  "tree_env = \<lparr>tv_crypto = tree_crypto, tv_codec = tree_codec, tv_parser = tree_parser, tv_untar = tree_untar\<rparr>"

definition tree_package :: "u64 \<Rightarrow> bytes" where
  "tree_package epoch = package_of ''EXE'' (to_string epoch) (tree_member epoch) (Some sample_signed)"

definition tree_anchors :: "trust_anchor list" where
  "tree_anchors =
     [anchor_new tree_crypto Ed25519 sample_ed_key False, anchor_new tree_crypto MlDsa87 sample_ml_key False]"

lemma tree_env_simps [simp]:
  "tv_crypto tree_env = tree_crypto" "tv_codec tree_env = tree_codec" "tv_parser tree_env = tree_parser"
  "tv_untar tree_env = tree_untar" "sha256 tree_crypto = take 32"
  by (simp_all add: tree_env_def tree_crypto_def)

lemma tree_epochs: "to_string 7 = ''7''" "to_string 8 = ''8''"
  by code_simp+

text \<open>The two epochs.\<close>

definition tree_epoch :: "u64 \<Rightarrow> bool" where
  "tree_epoch e \<longleftrightarrow> e = 7 \<or> e = 8"

lemma tree_member_length: "tree_epoch e \<Longrightarrow> length (tree_member e) = 33"
  by (auto simp: tree_epoch_def tree_member_def tree_epochs)

lemma tree_member_digest [simp]: "member_digest tree_crypto (tree_member e) = tree_digest"
  by (simp add: member_digest_def sha256_hex_def tree_member_def tree_digest_def)

lemma tree_parse: "tree_epoch e \<Longrightarrow> tree_parser (tree_member e) = Some (sample_json_at e anchor_object)"
  by (auto simp: tree_epoch_def tree_parser_def tree_member_def)

lemma tree_read: "tree_epoch e \<Longrightarrow>
    read_trust_set_document tree_parser tree_crypto (tree_member e) = Inr (sample_document_at e)"
  by (rule sample_read_at) (auto simp: tree_parse, auto simp: tree_epoch_def)

lemma tree_anchors: "document_anchors tree_crypto (sample_document_at e) = Some tree_anchors"
proof -
  have "decode_lowercase_hex (to_hex sample_ed_key) (public_key_len Ed25519) = Some sample_ed_key"
    "decode_lowercase_hex (to_hex sample_ml_key) (public_key_len MlDsa87) = Some sample_ml_key"
    using sample_key_lengths by (simp_all add: decode_lowercase_hex_Some)
  then show ?thesis
    by (simp add: document_anchors_def sample_document_at_def sample_anchor_def anchor_of_def tree_anchors_def)
qed

lemma tree_anchor_ids: "distinct (map ta_key_id tree_anchors)"
proof -
  have "key_id tree_crypto sample_ed_key \<noteq> key_id tree_crypto sample_ml_key"
    using hex32.encode_inj [of "take 32 sample_ed_key" "take 32 sample_ml_key"] sample_keys_differ sample_key_lengths
    by (auto simp: key_id_def sha256_hex_def public_key_len_def ED25519_PUBLIC_KEY_LEN_def ML_DSA_87_PUBLIC_KEY_LEN_def)
  then show ?thesis by (simp add: tree_anchors_def anchor_new_def)
qed

section \<open>The packages verify\<close>

lemma tree_digest_text: "tree_digest = concat (replicate 32 ''6d'')"
proof -
  have "to_hex [CHR ''m''] = ''6d''" by code_simp
  then have "to_hex (replicate n (CHR ''m'')) = concat (replicate n ''6d'')" for n
    by (induction n) (simp_all add: to_hex_def)
  then show ?thesis by (simp add: tree_digest_def)
qed

lemma tree_digest_commit: "is_valid_commit tree_digest" "is_safe_build_identifier tree_digest"
  unfolding tree_digest_text by code_simp+

lemma tree_paths: "is_safe_archive_path TRUST_SET_MEMBER" "is_utf8 TRUST_SET_MEMBER"
  unfolding TRUST_SET_MEMBER_def by code_simp+

lemma tree_writable: "tree_epoch e \<Longrightarrow> writable ''EXE'' (to_string e) (tree_member e) (Some sample_signed)"
  using sample_writable tree_member_length [of e]
  by (auto simp: writable_def tree_epoch_def tree_epochs)

lemma tree_manifest_parse: "manifest_parse tree_codec version footer_version = Inr (tree_manifest version)"
proof -
  have raw: "raw_parts (rm_artifacts (tree_raw version)) = [(tree_artifact version, ImageAbsent)]"
    by (simp add: raw_parts_def raw_into_parts_def tree_raw_def tree_artifact_def)
  have a: "pa_dispositions (tree_artifact version) \<noteq> []" "pa_archive_path (tree_artifact version) = TRUST_SET_MEMBER"
    by (simp_all add: tree_artifact_def)
  have "check_commit (Some 8) (tree_artifact version) = Inr ()" "check_spec (Some 8) (tree_artifact version) = Inr ()"
    using tree_digest_commit by (simp_all add: check_commit_Inr check_spec_Inr tree_artifact_def)
  moreover have "resolve_image tree_codec (Some 8) (tree_artifact version) ImageAbsent = Inr None"
    by (simp add: resolve_image_def tree_artifact_def IMAGE_DECLARATION_FORMAT_VERSION_def)
  moreover have "(tree_artifact version)\<lparr>pa_image := None\<rparr> = tree_artifact version"
    by (simp add: tree_artifact_def)
  ultimately have "validate_artifacts tree_codec (Some 8) [] [(tree_artifact version, ImageAbsent)]
      = Inr [tree_artifact version]"
    using tree_paths a by (simp add: Let_def)
  moreover have "as_u32 (JNum (JPos 8)) = Some 8" by (simp add: as_u32_def u32_try_from_Some)
  moreover have "mc_parse tree_codec version = Some (JObj [(''format_version'', JNum (JPos 8)), (''version'', JStr version)])"
    by (simp add: tree_codec_def)
  moreover have "mc_raw tree_codec (JObj [(''format_version'', JNum (JPos 8)), (''version'', JStr version)])
      = Some (tree_raw version)"
    by (simp add: tree_codec_def obj_get_def)
  ultimately show ?thesis
    by (simp add: manifest_parse_def read_format_version_def obj_get_def in_window_iff
        trust_set_decode_def from_parts_def raw)
      (simp add: tree_raw_def tree_manifest_def)
qed

lemma tree_signed:
  assumes "set tree_anchors \<subseteq> set (ts_anchors t)"
  shows "package_signed tree_crypto (container_of ''EXE'' m a (Some sample_signed)) t"
proof -
  have "anchor_new tree_crypto Ed25519 sample_ed_key False \<in> live_signers tree_crypto Ed25519 m
      (Present (ds_signature (sg_ed25519 sample_signed))) t"
    using assms by (simp add: live_signers_def signers_def tree_anchors_def anchor_new_def anchor_verifies_def)
      (simp add: tree_crypto_def)
  moreover have "anchor_new tree_crypto MlDsa87 sample_ml_key False \<in> live_signers tree_crypto MlDsa87 m
      (Present (ds_signature (sg_ml_dsa_87 sample_signed))) t"
    using assms by (simp add: live_signers_def signers_def tree_anchors_def anchor_new_def anchor_verifies_def)
      (simp add: tree_crypto_def)
  ultimately show ?thesis by (auto simp: package_signed_def container_of_fields present_of_def)
qed

lemma tree_statements:
  assumes "tree_epoch e" "newer = None \<or> newer = Some e \<and> epoch < e"
  shows "statements_ok (tree_manifest (to_string e)) (trust_request tree_env (tree_member e) e newer)
     (own_trust tree_anchors epoch)"
proof -
  have "is_safe_build_identifier TRUST_TARGET" "is_safe_build_identifier ''7''" "is_safe_build_identifier ''8''"
    by code_simp+
  then have "list_all is_safe_build_identifier [TRUST_TARGET, to_string e, tree_digest]"
    using assms(1) tree_digest_commit by (auto simp: tree_epoch_def tree_epochs)
  moreover have "images_ok (tree_manifest (to_string e)) r" for r
    by (simp add: images_ok_def declared_images_def tree_manifest_def List.map_filter_def tree_artifact_def)
  ultimately show ?thesis
    using tree_paths assms(2)
    by (auto simp: statements_ok_def members_ok_def Verify_Correct.build_of_def requested_build_def
        trust_request_def tree_manifest_def tree_artifact_def commit_or_empty_def own_trust_def)
qed

lemma tree_verifies:
  assumes "tree_epoch e" "newer = None \<or> newer = Some e \<and> epoch < e"
  shows "verify_package tree_crypto tree_codec (tree_package e) (own_trust tree_anchors epoch)
      (trust_request tree_env (tree_member e) e newer)
    = Inr \<lparr>vp_container = container_of ''EXE'' (to_string e) (tree_member e) (Some sample_signed),
           vp_manifest = tree_manifest (to_string e)\<rparr>"
  unfolding verify_package_Inr
  using tree_signed [of "own_trust tree_anchors epoch"] tree_manifest_parse tree_statements [OF assms]
    read_written_package [OF tree_writable [OF assms(1)], where 'a = manifest_error]
  by (simp add: tree_package_def container_of_fields) (simp add: own_trust_def)

lemma tree_opens:
  assumes "tree_epoch e"
  shows "\<exists>p. open_package tree_codec (tree_package e) = Inr p"
proof -
  note w = tree_writable [OF assms]
  have "WrongLength \<notin> set (envelope_of (container_of ''EXE'' (to_string e) (tree_member e) (Some sample_signed)))"
    by (simp add: envelope_of_def container_of_fields present_of_def)
  from read_envelope_of_container [OF package_envelope [OF w, where 'a = manifest_error] this]
  obtain en where "(read_envelope (tree_package e) (written_footer (length ''EXE'') (length (to_string e))
      (length (tree_member e)) (Some sample_signed \<noteq> None)) :: container_error + envelope) = Inr en"
    unfolding tree_package_def by blast
  moreover note package_head [OF w, where 'a = manifest_error, folded tree_package_def]
  ultimately show ?thesis
    by (simp add: open_package_def payload_open_def tree_manifest_parse)
qed

lemma tree_delivers:
  assumes "tree_epoch e"
  shows "delivers tree_env (tree_package e) (tree_member e)"
proof -
  from tree_opens [OF assms] obtain p where p: "open_package tree_codec (tree_package e) = Inr p" by blast
  have v: "verify_package tree_crypto tree_codec (tree_package e) (own_trust tree_anchors 0)
      (trust_request tree_env (tree_member e) e None)
    = Inr \<lparr>vp_container = container_of ''EXE'' (to_string e) (tree_member e) (Some sample_signed),
           vp_manifest = tree_manifest (to_string e)\<rparr>"
    by (rule tree_verifies [OF assms]) simp
  from open_package_agrees [OF p this] have m: "pl_manifest p = tree_manifest (to_string e)"
    "payload_archive p = tree_member e" by (simp_all add: tree_writable [OF assms])
  let ?files = "[(TRUST_SET_MEMBER, tree_artifact (to_string e), tree_member e)]"
  have "sha256_hex tree_crypto (tree_member e) = tree_digest"
    using tree_member_digest by (simp add: member_digest_def)
  then have "member_matches tree_crypto [tree_artifact (to_string e)] (tree_entry (tree_member e)) (hd ?files)"
    using tree_paths
    by (simp add: member_matches_def member_admitted_def tree_entry_def by_path_def eq_ignore_ascii_case_def)
      (simp add: tree_artifact_def)
  moreover have "u64_of 33 = 33" by (simp add: u64_of_def)
  moreover have "pa_archive_path (tree_artifact version) = TRUST_SET_MEMBER" for version
    by (simp add: tree_artifact_def)
  ultimately have "faithful_archive tree_crypto (pl_manifest p) (the (tree_untar (tree_member e))) ?files"
    using tree_member_length [OF assms]
    by (auto simp: m faithful_archive_def tree_untar_def tree_manifest_def member_of_def trailing_ok_def
        intro!: exI [of _ "[tree_entry (tree_member e)]"])
  then have "extract_to tree_crypto tree_untar p = Inr ?files"
    unfolding extract_to_Inr m by (intro exI [of _ "the (tree_untar (tree_member e))"]) (simp add: tree_untar_def)
  with p show ?thesis
    by (auto simp: delivers_def member_of_files_def intro!: exI [of _ p] exI [of _ ?files])
qed

section \<open>The tree\<close>

definition tree_files :: "generation_file list" where
  "tree_files = material (tree_package 7) (tree_member 7) 7"

definition tree_state :: "nat option list \<Rightarrow> fsys" where
  "tree_state faults =
     \<lparr>fs_root = [(ACTIVE_LINK, Link (generation_name 1)), (generation_name 1, Dir (staged tree_files))],
      fs_faults = faults\<rparr>"

lemma tree_state_ok:
  "unobstructed (fs_root (tree_state faults))" "index_left (fs_root (tree_state faults))"
  "plain_entries (fs_root (tree_state faults))" "tree_ok (fs_root (tree_state faults))"
proof -
  have h: "healthy (fs_root (tree_state faults))"
    by (auto simp: healthy_def tree_state_def map_of_staged_find)
  then show "unobstructed (fs_root (tree_state faults))"
    by (auto simp: unobstructed_def tree_state_def)
  have "(1 :: u64) \<noteq> - 1" by simp
  then show "index_left (fs_root (tree_state faults))"
    by (auto simp: index_left_def tree_state_def)
  show p: "plain_entries (fs_root (tree_state faults))"
    by (auto simp: plain_entries_def tree_state_def)
  from h p show "tree_ok (fs_root (tree_state faults))" by (simp add: tree_ok_def)
qed

lemma tree_reads: "read_in (fs_root (tree_state faults)) ACTIVE_LINK f = material_read tree_files f"
proof -
  have "map_of (fs_root (tree_state faults)) ACTIVE_LINK = Some (Link (generation_name 1))"
    "map_of (fs_root (tree_state faults)) (generation_name 1) = Some (Dir (staged tree_files))"
    by (simp_all add: tree_state_def)
  from read_in_active [OF this, of f] show ?thesis
    by (auto simp: map_of_staged_find material_read_def split: option.splits)
qed

lemma tree_self_admitted:
  assumes "tree_epoch e"
  shows "self_admitted tree_env (tree_package e) (tree_member e) (sample_document_at e)"
proof -
  have e: "tsd_epoch (sample_document_at e) = e" by (simp add: sample_document_at_def)
  show ?thesis
    unfolding self_admitted_def e
    using tree_read [OF assms] tree_anchors tree_verifies [OF assms, of None e] by auto
qed

definition tree_active :: generation_material where
  "tree_active = \<lparr>gm_document = sample_document_at 7, gm_epoch = 7, gm_trust = own_trust tree_anchors 7\<rparr>"

lemma tree_active: "active_material tree_env (fs_root (tree_state faults)) = Some tree_active"
proof -
  have e: "tree_epoch 7" by (simp add: tree_epoch_def)
  have "parse_epoch_record (render_epoch_record 7) = Inr 7" by (simp add: parse_epoch_record_Inr)
  moreover have "trust_set_new tree_anchors [] 0 7 = Inr (own_trust tree_anchors 7)"
    using tree_anchor_ids by (simp add: trust_set_new_Inr own_trust_def)
  then have "generation_material_of tree_env (tree_member 7) 7 = Inr tree_active"
    using tree_read [OF e] tree_anchors
    by (simp add: generation_material_of_def check_epoch_agreement_def tree_active_def)
      (simp add: sample_document_at_def)
  ultimately show ?thesis by (simp add: active_material_def tree_reads tree_files_def)
qed

lemma tree_provisional:
  assumes "tree_epoch e"
  shows "provisional_anchors_and_epoch tree_parser tree_crypto (tree_member e) = Some (tree_anchors, e)"
proof -
  let ?entries = "[anchor_object ''ed25519'' sample_ed_key, anchor_object ''ml-dsa-87'' sample_ml_key]"
  let ?anchors = "[sample_anchor Ed25519 sample_ed_key, sample_anchor MlDsa87 sample_ml_key]"
  have "decode_all decode_anchor ?entries = Some ?anchors"
    using decode_anchor_object [of "''ed25519''" Ed25519 sample_ed_key]
      decode_anchor_object [of "''ml-dsa-87''" MlDsa87 sample_ml_key]
    by (simp add: algorithm_named_def)
  from decode_anchors_provisional [OF this, of tree_crypto]
  have "decode_all (provisional_anchor tree_crypto) ?entries = document_anchors_of tree_crypto ?anchors"
    by (simp add: anchor_object_def)
  moreover have "document_anchors_of tree_crypto ?anchors = Some tree_anchors"
    using tree_anchors by (simp add: document_anchors_def sample_document_at_def)
  moreover have "Option.bind (value_get EPOCH_FIELD (sample_json_at e anchor_object)) as_u64 = Some e"
    "Option.bind (value_get ANCHORS_FIELD (sample_json_at e anchor_object)) as_array = Some ?entries"
    by (simp_all add: sample_json_at_def obj_get_def json_field_defs)
  ultimately show ?thesis
    using tree_parse [OF assms] by (simp add: provisional_anchors_and_epoch_def)
qed

lemma tree_delivered:
  "check_delivered tree_env (gm_trust tree_active) (tree_package 8) (tree_member 8) = Inr (sample_document_at 8)"
proof -
  have e: "tree_epoch 8" by (simp add: tree_epoch_def)
  from tree_opens [OF e] obtain p where p: "open_package tree_codec (tree_package 8) = Inr p" by blast
  have v: "verify_package tree_crypto tree_codec (tree_package 8) (own_trust tree_anchors 7)
      (trust_request tree_env (tree_member 8) 8 (Some 8))
    = Inr \<lparr>vp_container = container_of ''EXE'' (to_string 8) (tree_member 8) (Some sample_signed),
           vp_manifest = tree_manifest (to_string 8)\<rparr>"
    by (rule tree_verifies [OF e]) simp
  from open_package_agrees [OF p v] have "pl_manifest p = tree_manifest (to_string 8)" by simp
  with p have "check_delivered_epoch_carriers tree_env (tree_package 8) 8 = Inr ()"
    by (simp add: check_delivered_epoch_carriers_def tree_manifest_def tree_artifact_def)
  with v tree_provisional [OF e] tree_read [OF e] show ?thesis
    by (simp add: check_delivered_def for_trust_def trust_request_def tree_active_def)
qed

section \<open>The properties on this tree\<close>

lemma tree_stored: "read_in (fs_root (tree_state faults)) ACTIVE_LINK GENERATION_PACKAGE_FILE = Inr (tree_package 7)"
  by (simp add: tree_reads tree_files_def)

lemma tree_packages_differ: "tree_package 7 \<noteq> tree_package 8"
  by (simp add: tree_package_def package_of_def tree_epochs)

lemma tree_epoch_8: "tree_epoch 8"
  by (simp add: tree_epoch_def)

lemma tree_new_epoch: "tsd_epoch (sample_document_at 8) = 8"
  by (simp add: sample_document_at_def)

lemma tree_undisturbed: "fs_faults (tree_state []) = []"
  by (simp add: tree_state_def)

lemmas tree_acceptance = tree_undisturbed tree_state_ok(1,3,2) tree_active tree_stored tree_packages_differ
  tree_delivers [OF tree_epoch_8] tree_delivered tree_self_admitted [OF tree_epoch_8]

theorem acceptance_succeeds_witness:
  "\<exists>ad s'. accept_generation tree_env (tree_package 8) (tree_state []) = (Inr ad, s') \<and> ad_epoch ad = 8"
  using acceptance_succeeds [OF tree_acceptance] tree_new_epoch by auto

lemma tree_accepts:
  "\<exists>ad s'. accept_generation tree_env (tree_package 8) (tree_state []) = (Inr ad, s') \<and>
     ac_changed (ad_activation ad) \<and> ad_epoch ad = 8"
  using accept_faultless [OF tree_acceptance] tree_new_epoch by auto

theorem acceptance_installs_newer_witness:
  "\<exists>ad s' g'. accept_generation tree_env (tree_package 8) (tree_state []) = (Inr ad, s') \<and>
     active_material tree_env (fs_root s') = Some g' \<and> gm_epoch g' = 8"
proof -
  from tree_accepts obtain ad s' where run: "accept_generation tree_env (tree_package 8) (tree_state []) = (Inr ad, s')"
    "ad_epoch ad = 8" by blast
  from acceptance_installs_newer [OF run(1) tree_state_ok(4,2)] run show ?thesis by auto
qed

theorem acceptance_atomic_witness:
  "let s' = snd (accept_generation tree_env (tree_package 8) (tree_state (replicate 20 None @ [Some 0])))
   in same_reads (fs_root (tree_state [])) (fs_root s') \<or> (\<exists>g. active_material tree_env (fs_root s') = Some g)"
proof -
  let ?s = "tree_state (replicate 20 None @ [Some 0])"
  obtain r s' where run: "accept_generation tree_env (tree_package 8) ?s = (r, s')" by force
  from acceptance_atomic [OF run tree_state_ok(4,2)]
  have "same_reads (fs_root ?s) (fs_root s') \<or> (\<exists>g. active_material tree_env (fs_root s') = Some g)"
    by (elim disjE exE conjE) (simp, blast dest: installed_active)
  moreover have "fs_root ?s = fs_root (tree_state [])" by (simp add: tree_state_def)
  ultimately show ?thesis using run by simp
qed

theorem bootstrap_needs_empty_tree_witness:
  "fs_root (snd (admit_seed_generation tree_env (tree_package 8) (tree_state [None, Some 3]))) = fs_root (tree_state [])"
proof -
  have "fs_root (tree_state [None, Some 3]) = fs_root (tree_state [])" by (simp add: tree_state_def)
  with bootstrap_needs_empty_tree
    [OF tree_active [of "[None, Some 3]"], where package = "tree_package 8" and pin = None] show ?thesis
    by (auto split: prod.splits)
qed

theorem epoch_back_only_by_replacement_witness:
  "\<exists>root'. trust_run tree_env [tree_package 8] (fs_root (tree_state [])) root' \<and>
     (\<exists>g'. active_material tree_env root' = Some g' \<and>
       (7 \<le> gm_epoch g' \<or> (\<exists>member d. self_admitted tree_env (tree_package 8) member d \<and> tsd_epoch d \<le> gm_epoch g')))"
proof -
  obtain r s' where run: "replace_generation tree_env (tree_package 8) (tree_state []) = (r, s')" by force
  have replaced: "trust_run tree_env [tree_package 8] (fs_root (tree_state [])) (fs_root s')"
    by (rule trust_run.replace [OF trust_run.stay run tree_state_ok(2)])
  from epoch_back_only_by_replacement [OF this tree_state_ok(4) tree_active] replaced show ?thesis
    by (fastforce simp: tree_active_def)
qed

lemma tree_rebootstraps:
  "\<exists>ad s'. rebootstrap_generation tree_env (tree_package 8) (asserting_last_confirmed_epoch 7)
     (Some tree_digest) (tree_state []) = (Inr ad, s') \<and> ad_epoch ad = 8"
proof -
  let ?s = "tree_state []"
  let ?v = "\<lparr>vg_document = sample_document_at 8, vg_epoch = 8, vg_member = tree_member 8\<rparr>"
  have stored: "read_in (fs_root ?s) ACTIVE_LINK EPOCH_RECORD_FILE = Inr (render_epoch_record 7)"
    by (simp add: tree_reads tree_files_def)
  then obtain node where node: "follow MAX_LINK_HOPS (fs_root ?s) ACTIVE_LINK = Inr node"
    by (auto simp: read_in_def split: sum.splits)
  have "parse_epoch_record (render_epoch_record 7) = Inr 7" by (simp add: parse_epoch_record_Inr)
  with stored node have epoch: "some_or RT_NoActiveGeneration read_active_epoch ?s = (Inr 7, ?s)"
    by (simp add: some_or_def read_active_epoch_def bind_io_def attempt_def fs_stat_def fs_read_def
        run_operation_faultless [OF tree_undisturbed] lift_res_def)
  have "map_of (fs_root ?s) REQUIRE_TRUST_PIN_MARKER = None"
    by (simp add: tree_state_def REQUIRE_TRUST_PIN_MARKER_def engine_name_defs)
  then have marker: "require_pin_marker_set ?s = (Inr False, ?s)"
    by (simp add: require_pin_marker_set_def bind_io_def attempt_def fs_lstat_def
        run_operation_faultless [OF tree_undisturbed] lift_res_def)
  have candidate: "self_admission_candidate tree_parser tree_crypto (tree_member 8) = Some (own_trust tree_anchors 8, 8)"
    using tree_provisional [OF tree_epoch_8] tree_anchor_ids by (simp add: self_admission_candidate_Some)
  have verified: "verify_self_admitted tree_env (tree_package 8) ?s = (Inr ?v, ?s)"
    using extract_member_faultless [OF tree_delivers [OF tree_epoch_8] tree_undisturbed] candidate
      tree_verifies [OF tree_epoch_8, of None 8] tree_read [OF tree_epoch_8] tree_new_epoch
    by (simp add: verify_self_admitted_def bind_io_def lift_res_def for_trust_self_admission_def trust_request_def)
  obtain r s' where i: "install_generation tree_env (tree_package 8) (tree_member 8) 8 ?s = (r, s')" by force
  have "reload_ok no_systemctl \<lparr>gt_reload_unit = None\<rparr>" by (simp add: reload_ok_def)
  moreover have "\<not> rejected_by (validate_staged tree_env) (material (tree_package 8) (tree_member 8) 8)"
    using not_rejected [OF tree_self_admitted [OF tree_epoch_8]] tree_provisional [OF tree_epoch_8] tree_new_epoch
    by simp
  ultimately obtain a where "r = Inr a"
    using staged_release.run_faultless [OF i [unfolded install_generation_def] tree_undisturbed tree_state_ok(1-3)
        check_material_release] by blast
  with i have "install_verified tree_env (tree_package 8) ?v ?s =
      (Inr \<lparr>ad_activation = a, ad_epoch = 8, ad_document = sample_document_at 8\<rparr>, s')"
    by (simp add: install_verified_def bind_io_def ret_def)
  with epoch marker verified show ?thesis
    by (simp add: rebootstrap_generation_def asserting_last_confirmed_epoch_def bind_io_def lift_res_def
        check_fingerprint_pin_def)
qed

theorem rebootstrap_sound_witness:
  "\<exists>ad s' g'. rebootstrap_generation tree_env (tree_package 8) (asserting_last_confirmed_epoch 7)
     (Some tree_digest) (tree_state []) = (Inr ad, s') \<and>
     active_material tree_env (fs_root s') = Some g' \<and> gm_epoch g' = 8"
proof -
  from tree_rebootstraps obtain ad s' where run: "rebootstrap_generation tree_env (tree_package 8)
      (asserting_last_confirmed_epoch 7) (Some tree_digest) (tree_state []) = (Inr ad, s')" "ad_epoch ad = 8" by blast
  from rebootstrap_sound [OF run(1) tree_state_ok(4,2)] run show ?thesis by auto
qed

end
