(* ===== verification/Limits.thy ===== *)
theory Limits
  imports Prelude
begin

text \<open>
  The resource limits of \<open>src/package.rs\<close> (the table of resources with their defaults, and the checked
  setter) and the shared length helpers of \<open>src/content.rs\<close>. A \<open>usize\<close> is a natural number.
\<close>

section \<open>Resources\<close>

datatype limit_resource =
    LR_RawManifest | LR_CompressedArchive | LR_Package | LR_OuterMembers | LR_OuterUncompressedTotal
  | LR_ImageArchive | LR_StoredLayerBlob | LR_DecodedLayer | LR_DecodedLayersPerImage
  | LR_DecodedLayersPerOperation | LR_GzipHeader | LR_ImageEntries | LR_ImagePathBytes | LR_LayersPerImage
  | LR_TagsPerImage | LR_IndexJson | LR_ImageManifestJson | LR_CompatibilityJson | LR_ConfigJson
  | LR_OciLayout | LR_ImageJsonTotal | LR_JsonDepth | LR_LayerEntries | LR_LayerPathBytes
  | LR_LayerLinkTargetBytes | LR_LayerExtension | LR_LayerExtensionTotal | LR_RetainedDisk | LR_CopyBuffer
  | LR_ZstdWindow | LR_PreparationRecord

definition KIB :: u64 where "KIB = 1024"
definition MIB :: u64 where "MIB = 1024 * KIB"
definition GIB :: u64 where "GIB = 1024 * MIB"
definition MIN_ZSTD_WINDOW :: u64 where "MIN_ZSTD_WINDOW = 1024"

fun default_limit :: "limit_resource \<Rightarrow> u64" where
  "default_limit LR_RawManifest = 16 * MIB"
| "default_limit LR_CompressedArchive = 64 * GIB"
| "default_limit LR_Package = 64 * GIB + 16 * MIB + 4924"
| "default_limit LR_OuterMembers = 1024"
| "default_limit LR_OuterUncompressedTotal = 128 * GIB"
| "default_limit LR_ImageArchive = 32 * GIB"
| "default_limit LR_StoredLayerBlob = 16 * GIB"
| "default_limit LR_DecodedLayer = 16 * GIB"
| "default_limit LR_DecodedLayersPerImage = 128 * GIB"
| "default_limit LR_DecodedLayersPerOperation = 256 * GIB"
| "default_limit LR_GzipHeader = 64 * KIB"
| "default_limit LR_ImageEntries = 4096"
| "default_limit LR_ImagePathBytes = 255"
| "default_limit LR_LayersPerImage = 256"
| "default_limit LR_TagsPerImage = 256"
| "default_limit LR_IndexJson = MIB"
| "default_limit LR_ImageManifestJson = MIB"
| "default_limit LR_CompatibilityJson = MIB"
| "default_limit LR_ConfigJson = 4 * MIB"
| "default_limit LR_OciLayout = KIB"
| "default_limit LR_ImageJsonTotal = 16 * MIB"
| "default_limit LR_JsonDepth = 64"
| "default_limit LR_LayerEntries = 1000000"
| "default_limit LR_LayerPathBytes = 4096"
| "default_limit LR_LayerLinkTargetBytes = 4096"
| "default_limit LR_LayerExtension = 64 * KIB"
| "default_limit LR_LayerExtensionTotal = 64 * MIB"
| "default_limit LR_RetainedDisk = 512 * GIB"
| "default_limit LR_CopyBuffer = MIB"
| "default_limit LR_ZstdWindow = 64 * MIB"
| "default_limit LR_PreparationRecord = 64 * KIB"

definition refuses_zero :: "limit_resource \<Rightarrow> bool" where
  "refuses_zero r \<longleftrightarrow> r \<in> {LR_CopyBuffer, LR_JsonDepth, LR_ZstdWindow}"

section \<open>The limits in force\<close>

text \<open>\<open>LimitValues\<close> has one field per resource; \<open>get\<close> and \<open>slot\<close> select it.\<close>

record content_limits =
  cl_values :: "limit_resource \<Rightarrow> u64"

definition limits_default :: content_limits where
  "limits_default = \<lparr>cl_values = default_limit\<rparr>"

datatype content_limits_error =
    CL_AboveDefault limit_resource u64 u64
  | CL_Zero limit_resource
  | CL_BelowMinimum limit_resource u64 u64

definition limits_get :: "content_limits \<Rightarrow> limit_resource \<Rightarrow> u64" where
  "limits_get limits resource = cl_values limits resource"

text \<open>\<open>u64::ilog2\<close> of a positive number.\<close>

fun log2_nat :: "nat \<Rightarrow> nat" where
  "log2_nat n = (if n < 2 then 0 else Suc (log2_nat (n div 2)))"

declare log2_nat.simps [simp del]

definition ilog2 :: "u64 \<Rightarrow> nat" where
  "ilog2 w = log2_nat (unat w)"

definition with_limit :: "content_limits \<Rightarrow> limit_resource \<Rightarrow> u64 \<Rightarrow> content_limits_error + content_limits" where
  "with_limit limits resource value =
     (let default = default_limit resource in
      if default < value then Inl (CL_AboveDefault resource value default)
      else if value = 0 \<and> refuses_zero resource then Inl (CL_Zero resource)
      else bind_res
        (if resource = LR_ZstdWindow then
           (if value < MIN_ZSTD_WINDOW then Inl (CL_BelowMinimum resource value MIN_ZSTD_WINDOW)
            else Inr (push_bit (ilog2 value) 1))
         else Inr value) (\<lambda>stored.
        Inr (limits\<lparr>cl_values := (cl_values limits)(resource := stored)\<rparr>)))"

record resource_limit =
  rl_resource :: limit_resource
  rl_max :: u64

definition limits_resource_limit :: "content_limits \<Rightarrow> limit_resource \<Rightarrow> resource_limit" where
  "limits_resource_limit limits resource = \<lparr>rl_resource = resource, rl_max = limits_get limits resource\<rparr>"

section \<open>Lengths\<close>

text \<open>A \<open>usize\<close> never exceeds a \<open>u64\<close>; \<open>widen\<close> is exact on the lengths a buffer has.\<close>

definition widen :: "nat \<Rightarrow> u64" where
  "widen len = (if len < 2 ^ 64 then u64_of len else - 1)"

definition chunk_len :: "nat \<Rightarrow> u64 \<Rightarrow> nat" where
  "chunk_len len allowance = min (unat allowance) len"

section \<open>What every set of limits satisfies\<close>

text \<open>Limits reachable from the defaults by the checked setter.\<close>

inductive built :: "content_limits \<Rightarrow> bool" where
  built_default: "built limits_default"
| built_set: "built limits \<Longrightarrow> with_limit limits resource value = Inr limits' \<Longrightarrow> built limits'"

definition limits_ok :: "content_limits \<Rightarrow> bool" where
  "limits_ok limits \<longleftrightarrow>
     (\<forall>r. limits_get limits r \<le> default_limit r) \<and>
     (\<forall>r. refuses_zero r \<longrightarrow> limits_get limits r \<noteq> 0) \<and>
     (\<exists>k. 10 \<le> k \<and> k \<le> 26 \<and> unat (limits_get limits LR_ZstdWindow) = 2 ^ k)"

lemma log2_bounds: "0 < n \<Longrightarrow> 2 ^ log2_nat n \<le> n \<and> n < 2 * 2 ^ log2_nat n"
proof (induction n rule: log2_nat.induct)
  case (1 n)
  show ?case
  proof (cases "n < 2")
    case True
    with 1(2) show ?thesis by (simp add: log2_nat.simps [of n])
  next
    case False
    then have "0 < n div 2" by simp
    from "1.IH" [OF False this] have "2 * 2 ^ log2_nat (n div 2) \<le> 2 * (n div 2)" "n div 2 < 2 * 2 ^ log2_nat (n div 2)"
      by simp_all
    moreover have "2 * (n div 2) \<le> n" "n < 2 * (n div 2) + 2" by presburger+
    moreover from False have "log2_nat n = Suc (log2_nat (n div 2))" by (simp add: log2_nat.simps [of n])
    ultimately show ?thesis by simp
  qed
qed

lemmas unit_defs = KIB_def MIB_def GIB_def

lemma zstd_window_default: "unat (default_limit LR_ZstdWindow) = 2 ^ 26"
  by (simp add: unit_defs)

lemma stored_window:
  assumes "MIN_ZSTD_WINDOW \<le> value" "value \<le> default_limit LR_ZstdWindow"
  shows "\<exists>k. 10 \<le> k \<and> k \<le> 26 \<and> unat (push_bit (ilog2 value) 1 :: u64) = 2 ^ k \<and>
    (2 :: nat) ^ k \<le> unat value"
proof -
  have v: "2 ^ 10 \<le> unat value" "unat value \<le> 2 ^ 26"
    using assms zstd_window_default by (simp_all add: word_le_nat_alt MIN_ZSTD_WINDOW_def)
  then have l: "2 ^ ilog2 value \<le> unat value" "unat value < 2 * 2 ^ ilog2 value"
    using log2_bounds [of "unat value"] by (simp_all add: ilog2_def)
  from l(1) v(2) have "(2 :: nat) ^ ilog2 value \<le> 2 ^ 26" by linarith
  then have up: "ilog2 value \<le> 26" by (rule power_le_imp_le_exp [rotated]) simp
  from l(2) v(1) have "(2 :: nat) ^ 10 < 2 ^ Suc (ilog2 value)" by simp
  then have "10 < Suc (ilog2 value)" by (rule power_less_imp_less_exp [rotated]) simp
  moreover from up have "(2 :: nat) ^ ilog2 value < 2 ^ 64"
    by (intro power_strict_increasing) simp_all
  moreover have "(push_bit (ilog2 value) 1 :: u64) = u64_of (2 ^ ilog2 value)"
    by (simp add: push_bit_eq_mult u64_of_def)
  ultimately have "unat (push_bit (ilog2 value) 1 :: u64) = 2 ^ ilog2 value" "10 \<le> ilog2 value"
    by simp_all
  then show ?thesis using up l(1) by (intro exI [of _ "ilog2 value"]) simp
qed

lemma with_limit_get:
  assumes "with_limit limits resource value = Inr limits'"
  shows "limits_get limits' r = (if r = resource then limits_get limits' resource else limits_get limits r)"
  using assms by (auto simp: with_limit_def Let_def limits_get_def split: if_splits)

lemma with_limit_stored:
  assumes "with_limit limits resource value = Inr limits'"
  shows "value \<le> default_limit resource" "value = 0 \<Longrightarrow> \<not> refuses_zero resource"
    "resource \<noteq> LR_ZstdWindow \<Longrightarrow> limits_get limits' resource = value"
    "resource = LR_ZstdWindow \<Longrightarrow> MIN_ZSTD_WINDOW \<le> value \<and>
       limits_get limits' LR_ZstdWindow = push_bit (ilog2 value) 1"
  using assms by (auto simp: with_limit_def Let_def limits_get_def not_less split: if_splits)

lemma default_ok: "limits_ok limits_default"
proof -
  have "default_limit r \<noteq> 0" if "refuses_zero r" for r
    using that by (auto simp: refuses_zero_def unit_defs)
  moreover have "\<exists>k. 10 \<le> k \<and> k \<le> 26 \<and> unat (default_limit LR_ZstdWindow) = 2 ^ k"
    using zstd_window_default by (intro exI [of _ 26]) simp
  ultimately show ?thesis by (auto simp: limits_ok_def limits_get_def limits_default_def)
qed

lemma with_limit_keeps:
  assumes "with_limit limits resource value = Inr limits'" "limits_ok limits"
  shows "limits_ok limits'"
proof -
  note w = with_limit_stored [OF assms(1)]
  note rest = with_limit_get [OF assms(1)]
  show ?thesis
  proof (cases "resource = LR_ZstdWindow")
    case True
    with w(1,4) stored_window [of "value"] obtain k where k: "10 \<le> k" "k \<le> 26"
      "unat (limits_get limits' LR_ZstdWindow) = 2 ^ k" "(2 :: nat) ^ k \<le> unat value" by auto
    then have "limits_get limits' LR_ZstdWindow \<noteq> 0" by auto
    moreover have "limits_get limits' LR_ZstdWindow \<le> default_limit LR_ZstdWindow"
      using k w(1) True by (simp add: word_le_nat_alt)
    moreover have "limits_get limits' r = limits_get limits r" if "r \<noteq> LR_ZstdWindow" for r
      using rest [of r] that True by simp
    ultimately show ?thesis
      using assms(2) k unfolding limits_ok_def by metis
  next
    case False
    then have "limits_get limits' LR_ZstdWindow = limits_get limits LR_ZstdWindow"
      using rest [of LR_ZstdWindow] by simp
    moreover have "limits_get limits' r \<le> default_limit r" "refuses_zero r \<Longrightarrow> limits_get limits' r \<noteq> 0" for r
      using rest [of r] w(1,2,3) False assms(2) by (auto simp: limits_ok_def split: if_splits)
    ultimately show ?thesis using assms(2) by (simp add: limits_ok_def)
  qed
qed

text \<open>
  C16: every set of limits that can be built is sound. Starting from the defaults and setting limits
  through the checked setter, in any order, no limit ever rises above its default, the three
  resources a zero would wedge are never zero, and the zstd window is always a power of two between
  1 KiB and 64 MiB.
\<close>

theorem built_limits_sound:
  assumes "built limits"
  shows "(\<forall>r. limits_get limits r \<le> default_limit r) \<and>
    (\<forall>r. refuses_zero r \<longrightarrow> limits_get limits r \<noteq> 0) \<and>
    (\<exists>k. 10 \<le> k \<and> k \<le> 26 \<and> unat (limits_get limits LR_ZstdWindow) = 2 ^ k)"
proof -
  from assms have "limits_ok limits"
    by (induction rule: built.induct) (auto intro: default_ok with_limit_keeps)
  then show ?thesis by (simp add: limits_ok_def)
qed

theorem built_limits_sound_witness:
  "\<exists>limits. with_limit limits_default LR_ZstdWindow 5000 = Inr limits \<and>
     (\<exists>k. unat (limits_get limits LR_ZstdWindow) = 2 ^ k)"
proof -
  obtain limits where w: "with_limit limits_default LR_ZstdWindow 5000 = Inr limits"
    by (simp add: with_limit_def unit_defs MIN_ZSTD_WINDOW_def)
  have "built limits" by (rule built_set [OF built_default w])
  from built_limits_sound [OF this] w show ?thesis by blast
qed

end
