(* ===== verification/Zstd_Window.thy ===== *)
theory Zstd_Window
  imports Container Limits
begin

text \<open>
  The window guard of \<open>src/payload/outer.rs\<close>: a scanner that follows the zstd frame headers and block
  headers of a compressed stream as it is read, in whatever chunks it arrives, and stops the stream
  before a frame whose window is larger than the limit reaches the decoder.
\<close>

unbundle bit_operations_syntax

section \<open>Data\<close>

definition ZSTD_FRAME_MAGIC :: bytes where
  "ZSTD_FRAME_MAGIC = [CHR 0x28, CHR 0xB5, CHR 0x2F, CHR 0xFD]"
definition ZSTD_SKIPPABLE_MAGIC_HIGH :: bytes where
  "ZSTD_SKIPPABLE_MAGIC_HIGH = [CHR 0x2A, CHR 0x4D, CHR 0x18]"
definition ZSTD_SINGLE_SEGMENT :: u8 where "ZSTD_SINGLE_SEGMENT = 0x20"
definition ZSTD_RESERVED_DESCRIPTOR_BIT :: u8 where "ZSTD_RESERVED_DESCRIPTOR_BIT = 0x08"
definition ZSTD_CHECKSUM_FLAG :: u8 where "ZSTD_CHECKSUM_FLAG = 0x04"
definition ZSTD_BLOCK_HEADER_LEN :: nat where "ZSTD_BLOCK_HEADER_LEN = 3"
definition ZSTD_CHECKSUM_LEN :: u64 where "ZSTD_CHECKSUM_LEN = 4"
definition ZSTD_WINDOW_LOG_BASE :: nat where "ZSTD_WINDOW_LOG_BASE = 10"
definition ZSTD_FCS_TWO_BYTE_OFFSET :: u64 where "ZSTD_FCS_TWO_BYTE_OFFSET = 256"

text \<open>The limits of a bounded walk, and what its streams refuse with.\<close>

record outer_limits =
  ol_members :: u64
  ol_uncompressed_total :: u64
  ol_zstd_window :: u64
  ol_copy_buffer :: nat

datatype stream_fault =
    SF_OuterLimit limit_resource u64
  | SF_UnreadableFrame

datatype field =
    Magic
  | Descriptor
  | Header u8
  | Block bool
  | SkippableLength

text \<open>A field being collected holds the bytes read so far, always fewer than its length.\<close>

datatype scan =
    Collect field bytes
  | Skip u64 field

section \<open>Fields\<close>

definition byte_word :: "byte \<Rightarrow> u8" where
  "byte_word b = word_of_nat (ord b)"

definition dictionary_len :: "u8 \<Rightarrow> nat" where
  "dictionary_len descriptor =
     (let flag = descriptor AND 0x03 in if flag = 0 then 0 else if flag = 1 then 1 else if flag = 2 then 2 else 4)"

definition content_size_len :: "u8 \<Rightarrow> nat" where
  "content_size_len descriptor =
     (let flag = drop_bit 6 descriptor in
      if flag = 0 then (if descriptor AND ZSTD_SINGLE_SEGMENT \<noteq> 0 then 1 else 0)
      else if flag = 1 then 2 else if flag = 2 then 4 else 8)"

fun field_len :: "field \<Rightarrow> nat" where
  "field_len Magic = length ZSTD_FRAME_MAGIC"
| "field_len SkippableLength = length ZSTD_FRAME_MAGIC"
| "field_len Descriptor = 1"
| "field_len (Header descriptor) =
     (if descriptor AND ZSTD_SINGLE_SEGMENT = 0 then 1 else 0) + dictionary_len descriptor +
     content_size_len descriptor"
| "field_len (Block _) = ZSTD_BLOCK_HEADER_LEN"

definition scan_collect :: "field \<Rightarrow> scan" where
  "scan_collect f = Collect f []"

definition scan_skip :: "u64 \<Rightarrow> field \<Rightarrow> scan" where
  "scan_skip remaining next_field = (if remaining = 0 then scan_collect next_field else Skip remaining next_field)"

definition le_u64 :: "bytes \<Rightarrow> u64" where
  "le_u64 bs = fold (\<lambda>b v. push_bit 8 v OR u64_of (ord b)) (rev bs) 0"

definition saturating_mul :: "u64 \<Rightarrow> u64 \<Rightarrow> u64" where
  "saturating_mul a b = (if unat a * unat b < 2 ^ 64 then a * b else - 1)"

definition is_skippable_magic :: "bytes \<Rightarrow> bool" where
  "is_skippable_magic magic =
     (case magic of
        [] \<Rightarrow> False
      | low # rest \<Rightarrow> byte_word low AND 0xF0 = 0x50 \<and> rest = ZSTD_SKIPPABLE_MAGIC_HIGH)"

definition checked_shl_1 :: "nat \<Rightarrow> u64 option" where
  "checked_shl_1 k = (if k < 64 then Some (push_bit k 1) else None)"

definition frame_window :: "u8 \<Rightarrow> bytes \<Rightarrow> u64" where
  "frame_window descriptor bs =
     (if descriptor AND ZSTD_SINGLE_SEGMENT = 0 then
        (let window_descriptor = (case bs of [] \<Rightarrow> 0 | b # _ \<Rightarrow> byte_word b);
             window_log = ZSTD_WINDOW_LOG_BASE + unat (drop_bit 3 window_descriptor);
             base = (case checked_shl_1 window_log of Some v \<Rightarrow> v | None \<Rightarrow> - 1)
         in saturating_add base (saturating_mul (base div 8) (ucast (window_descriptor AND 0x07))))
      else
        (let field = drop (dictionary_len descriptor) bs; v = le_u64 field
         in if length field = 2 then saturating_add v ZSTD_FCS_TWO_BYTE_OFFSET else v))"

definition complete :: "field \<Rightarrow> bytes \<Rightarrow> u64 \<Rightarrow> stream_fault + scan" where
  "complete f bs limit =
     (case f of
        Magic \<Rightarrow>
          if bs = ZSTD_FRAME_MAGIC then Inr (scan_collect Descriptor)
          else if is_skippable_magic bs then Inr (scan_collect SkippableLength)
          else Inl SF_UnreadableFrame
      | Descriptor \<Rightarrow>
          (case bs of
             [] \<Rightarrow> Inl SF_UnreadableFrame
           | b # _ \<Rightarrow>
               let descriptor = byte_word b in
               if descriptor AND ZSTD_RESERVED_DESCRIPTOR_BIT = 0 then Inr (scan_collect (Header descriptor))
               else Inl SF_UnreadableFrame)
      | Header descriptor \<Rightarrow>
          if limit < frame_window descriptor bs then Inl (SF_OuterLimit LR_ZstdWindow limit)
          else Inr (scan_collect (Block (descriptor AND ZSTD_CHECKSUM_FLAG \<noteq> 0)))
      | Block checksum \<Rightarrow>
          (let header = le_u64 bs; block_size = drop_bit 3 header; kind = drop_bit 1 header AND 0x03 in
           bind_res (if kind = 0 \<or> kind = 2 then Inr block_size
                     else if kind = 1 then Inr 1 else Inl SF_UnreadableFrame) (\<lambda>content.
           if header AND 1 = 0 then Inr (scan_skip content (Block checksum))
           else Inr (scan_skip (saturating_add content (if checksum then ZSTD_CHECKSUM_LEN else 0)) Magic)))
      | SkippableLength \<Rightarrow> Inr (scan_skip (le_u64 bs) Magic))"

section \<open>The guard\<close>

text \<open>\<open>advance\<close>: the bytes used, and the scan afterwards (also on a refusal).\<close>

definition guard_advance :: "u64 \<Rightarrow> scan \<Rightarrow> bytes \<Rightarrow> (stream_fault + nat) \<times> scan" where
  "guard_advance limit scan input =
     (case scan of
        Skip remaining next_field \<Rightarrow>
          (let used = chunk_len (length input) remaining;
               left = saturating_sub remaining (widen used)
           in (Inr used, if left = 0 then scan_collect next_field else Skip left next_field))
      | Collect f bs \<Rightarrow>
          (let need = field_len f;
               used = min (need - length bs) (length input);
               bs' = bs @ take used input
           in if need \<le> length bs' then
                (case complete f (take need bs') limit of
                   Inl e \<Rightarrow> (Inl e, Collect f bs')
                 | Inr scan' \<Rightarrow> (Inr used, scan'))
              else (Inr used, Collect f bs')))"

text \<open>The loop of \<open>read\<close> over the bytes just read. \<open>None\<close> is a loop that never ends.\<close>

partial_function (option) guard_consume :: "u64 \<Rightarrow> scan \<Rightarrow> bytes \<Rightarrow> ((stream_fault + unit) \<times> scan) option" where
  "guard_consume limit scan input =
     (if input = [] then Some (Inr (), scan)
      else case guard_advance limit scan input of
        (Inl e, scan') \<Rightarrow> Some (Inl e, scan')
      | (Inr used, scan') \<Rightarrow> guard_consume limit scan' (drop used input))"

record 's window_guard =
  wg_inner :: 's
  wg_limit :: u64
  wg_copy_buffer :: nat
  wg_scan :: scan

definition window_guard_new :: "'s \<Rightarrow> outer_limits \<Rightarrow> 's window_guard" where
  "window_guard_new inner limits =
     \<lparr>wg_inner = inner, wg_limit = ol_zstd_window limits, wg_copy_buffer = ol_copy_buffer limits,
      wg_scan = scan_collect Magic\<rparr>"

text \<open>
  \<open>Read::read\<close> of a buffer of the given length, over the reader of the compressed bytes: \<open>None\<close> from
  it is an I/O error.
\<close>

definition guard_read ::
  "(nat \<Rightarrow> 's \<Rightarrow> bytes option \<times> 's) \<Rightarrow> nat \<Rightarrow> 's window_guard \<Rightarrow>
     ((stream_fault option + bytes) \<times> 's window_guard) option" where
  "guard_read inner_read buf_len g =
     (case inner_read (min buf_len (wg_copy_buffer g)) (wg_inner g) of
        (None, inner) \<Rightarrow> Some (Inl None, g\<lparr>wg_inner := inner\<rparr>)
      | (Some chunk, inner) \<Rightarrow>
          map_option (\<lambda>(r, scan).
            ((case r of Inl e \<Rightarrow> Inl (Some e) | Inr _ \<Rightarrow> Inr chunk), g\<lparr>wg_inner := inner, wg_scan := scan\<rparr>))
            (guard_consume (wg_limit g) (wg_scan g) chunk))"

end
