(* ===== verification/Zstd_Window_Correct.thy ===== *)
theory Zstd_Window_Correct
  imports Zstd_Window
begin

text \<open>
  What the window guard does: it always terminates, its verdict does not depend on how the stream was
  cut into reads, and on a stream of zstd frames it refuses exactly at the first frame whose window is
  above the limit.
\<close>

section \<open>Progress\<close>

lemma field_len_pos: "0 < field_len f"
proof (cases f)
  case (Header d)
  have "0 < content_size_len d" if "d AND ZSTD_SINGLE_SEGMENT \<noteq> 0"
    using that by (simp add: content_size_len_def Let_def)
  with Header show ?thesis by auto
qed (simp_all add: ZSTD_FRAME_MAGIC_def ZSTD_BLOCK_HEADER_LEN_def)

text \<open>The scans that occur: a field short of its last byte, or something left to skip.\<close>

fun scan_ok :: "scan \<Rightarrow> bool" where
  "scan_ok (Collect f bs) \<longleftrightarrow> length bs < field_len f"
| "scan_ok (Skip remaining _) \<longleftrightarrow> remaining \<noteq> 0"

lemma scan_ok_new [simp]: "scan_ok (scan_collect f)" "scan_ok (scan_skip n f)"
  by (simp_all add: scan_collect_def scan_skip_def field_len_pos)

lemma complete_ok: "complete f bs limit = Inr scan \<Longrightarrow> scan_ok scan"
  by (auto simp: complete_def Let_def split: field.splits if_splits list.splits)

lemma below_u64: "n \<le> unat r \<Longrightarrow> n < 2 ^ 64" for r :: u64
proof -
  assume "n \<le> unat r"
  moreover have "unat r < 2 ^ 64" by simp
  ultimately show "n < 2 ^ 64" by (rule le_less_trans)
qed

lemma unat_widen: "n < 2 ^ 64 \<Longrightarrow> unat (widen n) = n"
  by (simp add: widen_def)

lemma chunk_len_le: "chunk_len n r \<le> n" "chunk_len n r \<le> unat r"
  by (simp_all add: chunk_len_def)

lemma unat_widen_chunk: "unat (widen (chunk_len n r)) = chunk_len n r"
  by (rule unat_widen [OF below_u64 [OF chunk_len_le(2)]])

lemma advance_skip:
  assumes "remaining \<noteq> 0"
  shows "guard_advance limit (Skip remaining f) input =
    (if unat remaining \<le> length input then (Inr (unat remaining), scan_collect f)
     else (Inr (length input), Skip (remaining - widen (length input)) f))"
proof -
  let ?used = "chunk_len (length input) remaining"
  have left: "unat (saturating_sub remaining (widen ?used)) = unat remaining - ?used"
    by (simp add: unat_widen_chunk)
  show ?thesis
  proof (cases "unat remaining \<le> length input")
    case True
    then have "?used = unat remaining" by (simp add: chunk_len_def)
    with left have "saturating_sub remaining (widen ?used) = 0" by (simp add: unat_eq_0 [symmetric])
    with True \<open>?used = unat remaining\<close> show ?thesis by (simp add: guard_advance_def Let_def)
  next
    case False
    then have u: "?used = length input" by (simp add: chunk_len_def)
    have "unat (widen (length input)) = length input" using unat_widen_chunk [of "length input" remaining] u by simp
    with False have "saturating_sub remaining (widen (length input)) = remaining - widen (length input)"
      by (simp add: saturating_sub_def)
    moreover from left u False have "saturating_sub remaining (widen (length input)) \<noteq> 0"
      by (auto simp: unat_eq_0 [symmetric])
    ultimately show ?thesis using u False by (simp add: guard_advance_def Let_def)
  qed
qed

lemma advance_collect:
  assumes "length bs < field_len f"
  shows "guard_advance limit (Collect f bs) input =
    (let need = field_len f - length bs in
     if need \<le> length input then
       (case complete f (bs @ take need input) limit of
          Inl e \<Rightarrow> (Inl e, Collect f (bs @ take need input))
        | Inr scan \<Rightarrow> (Inr need, scan))
     else (Inr (length input), Collect f (bs @ input)))"
  using assms by (auto simp: guard_advance_def Let_def min_def)

lemma advance_progress:
  assumes "scan_ok scan" "input \<noteq> []" "guard_advance limit scan input = (Inr used, scan')"
  shows "0 < used" "used \<le> length input" "scan_ok scan'"
proof -
  have "0 < used \<and> used \<le> length input \<and> scan_ok scan'"
  proof (cases scan)
    case (Skip remaining f)
    with assms have r: "remaining \<noteq> 0" by simp
    have left: "remaining - widen (length input) \<noteq> 0" if "\<not> unat remaining \<le> length input"
    proof -
      have "unat (widen (length input)) = length input"
        using that by (intro unat_widen below_u64 [of _ remaining]) simp
      with that show ?thesis by auto
    qed
    from r have "0 < unat remaining" by (simp add: unat_gt_0)
    with assms(2,3) Skip left show ?thesis
      by (auto simp: advance_skip [OF r] split: if_splits)
  next
    case (Collect f bs)
    with assms have "length bs < field_len f" by simp
    with assms(2,3) Collect show ?thesis
      by (auto simp: advance_collect [OF \<open>length bs < field_len f\<close>] Let_def split: if_splits sum.splits
          intro: complete_ok)
  qed
  then show "0 < used" "used \<le> length input" "scan_ok scan'" by simp_all
qed

lemma consume_total:
  "scan_ok scan \<Longrightarrow> \<exists>r scan'. guard_consume limit scan input = Some (r, scan') \<and> (r = Inr () \<longrightarrow> scan_ok scan')"
proof (induction input arbitrary: scan rule: length_induct)
  case (1 input)
  show ?case
  proof (cases "input = []")
    case True
    with 1(2) show ?thesis by (simp add: guard_consume.simps)
  next
    case False
    obtain r scan' where a: "guard_advance limit scan input = (r, scan')" by force
    show ?thesis
    proof (cases r)
      case (Inl e)
      with a False show ?thesis by (simp add: guard_consume.simps [of limit scan input])
    next
      case (Inr used)
      note p = advance_progress [OF 1(2) False a [unfolded Inr]]
      then have "length (drop used input) < length input" using False by simp
      with 1(1) p(3) obtain r2 scan2 where "guard_consume limit scan' (drop used input) = Some (r2, scan2)"
        "r2 = Inr () \<longrightarrow> scan_ok scan2" by blast
      with a Inr False show ?thesis by (simp add: guard_consume.simps [of limit scan input])
    qed
  qed
qed

section \<open>Independence of the chunks\<close>

lemma consume_nil [simp]: "guard_consume limit scan [] = Some (Inr (), scan)"
  by (simp add: guard_consume.simps)

lemma consume_step:
  "input \<noteq> [] \<Longrightarrow> guard_consume limit scan input =
     (case guard_advance limit scan input of
        (Inl e, scan') \<Rightarrow> Some (Inl e, scan')
      | (Inr used, scan') \<Rightarrow> guard_consume limit scan' (drop used input))"
  by (simp add: guard_consume.simps [of limit scan input])

text \<open>A field that the input completes, and one that it does not.\<close>

lemma consume_field:
  assumes "length bs < field_len f" "length bs + length xs = field_len f"
  shows "guard_consume limit (Collect f bs) (xs @ rest) =
    (case complete f (bs @ xs) limit of
       Inl e \<Rightarrow> Some (Inl e, Collect f (bs @ xs))
     | Inr scan \<Rightarrow> guard_consume limit scan rest)"
proof -
  from assms have "xs @ rest \<noteq> []" "field_len f - length bs = length xs" by auto
  then show ?thesis
    by (simp add: consume_step advance_collect [OF assms(1)] split: sum.splits)
qed

lemma consume_part:
  "length bs + length xs < field_len f \<Longrightarrow>
     guard_consume limit (Collect f bs) xs = Some (Inr (), Collect f (bs @ xs))"
  by (cases "xs = []") (auto simp: consume_step advance_collect Let_def)

lemma consume_skipped:
  assumes "remaining \<noteq> 0" "length xs = unat remaining"
  shows "guard_consume limit (Skip remaining f) (xs @ rest) = guard_consume limit (scan_collect f) rest"
proof -
  from assms have "xs @ rest \<noteq> []" by (auto simp: unat_gt_0 [symmetric] simp del: unat_gt_0)
  with assms show ?thesis by (simp add: consume_step advance_skip)
qed

lemma consume_skipping:
  assumes "remaining \<noteq> 0" "length xs < unat remaining"
  shows "guard_consume limit (Skip remaining f) xs = Some (Inr (), Skip (remaining - widen (length xs)) f)"
proof (cases "xs = []")
  case True
  then show ?thesis by (simp add: widen_def u64_of_def)
next
  case False
  with assms show ?thesis by (simp add: consume_step advance_skip)
qed

lemma skip_rest:
  assumes "n < unat remaining"
  shows "unat (remaining - widen n) = unat remaining - n" "remaining - widen n \<noteq> 0"
proof -
  have "unat (widen n) = n" using assms by (intro unat_widen below_u64 [of _ remaining]) simp
  then show "unat (remaining - widen n) = unat remaining - n"
    using assms by (simp add: unat_sub word_le_nat_alt)
  with assms show "remaining - widen n \<noteq> 0" by auto
qed

definition then_consume ::
  "u64 \<Rightarrow> ((stream_fault + unit) \<times> scan) option \<Rightarrow> bytes \<Rightarrow> ((stream_fault + unit) \<times> scan) option" where
  "then_consume limit r ys =
     (case r of
        Some (Inr _, scan) \<Rightarrow> guard_consume limit scan ys
      | _ \<Rightarrow> r)"

lemma then_consume_simps [simp]:
  "then_consume limit (Some (Inr u, scan)) ys = guard_consume limit scan ys"
  "then_consume limit (Some (Inl e, scan)) ys = Some (Inl e, scan)"
  by (simp_all add: then_consume_def)

lemma consume_append:
  "scan_ok scan \<Longrightarrow> guard_consume limit scan (xs @ ys) = then_consume limit (guard_consume limit scan xs) ys"
proof (induction xs arbitrary: scan rule: length_induct)
  case (1 xs)
  show ?case
  proof (cases scan)
    case (Collect f bs)
    with 1(2) have b: "length bs < field_len f" by simp
    let ?need = "field_len f - length bs"
    show ?thesis
    proof (cases "?need \<le> length xs")
      case True
      then have "length bs + length (take ?need xs) = field_len f" using b by simp
      note c = consume_field [OF b this, of limit]
      have split: "xs = take ?need xs @ drop ?need xs" by simp
      have w: "guard_consume limit scan (xs @ ys) =
          (case complete f (bs @ take ?need xs) limit of
             Inl e \<Rightarrow> Some (Inl e, Collect f (bs @ take ?need xs))
           | Inr scan \<Rightarrow> guard_consume limit scan (drop ?need xs @ ys))"
        using c [of "drop ?need xs @ ys"] Collect by (simp add: append_assoc [symmetric] del: append_assoc)
      have p: "guard_consume limit scan xs =
          (case complete f (bs @ take ?need xs) limit of
             Inl e \<Rightarrow> Some (Inl e, Collect f (bs @ take ?need xs))
           | Inr scan \<Rightarrow> guard_consume limit scan (drop ?need xs))"
        using c [of "drop ?need xs"] Collect by simp
      have "length (drop ?need xs) < length xs" using True b by simp
      with 1(1) have "scan_ok s \<Longrightarrow> guard_consume limit s (drop ?need xs @ ys) =
          then_consume limit (guard_consume limit s (drop ?need xs)) ys" for s by blast
      with w p show ?thesis by (auto split: sum.splits dest: complete_ok)
    next
      case False
      then have short: "length (bs @ xs) < field_len f" by simp
      show ?thesis
      proof (cases "field_len f - length (bs @ xs) \<le> length ys")
        case True
        define n where "n = field_len f - length (bs @ xs)"
        from True have n: "n \<le> length ys" by (simp add: n_def)
        have "guard_consume limit (Collect f bs) ((xs @ take n ys) @ drop n ys) =
            guard_consume limit (Collect f (bs @ xs)) (take n ys @ drop n ys)"
          using b short n by (subst (1 2) consume_field) (auto simp: n_def split: sum.splits)
        with Collect short show ?thesis by (simp add: consume_part)
      next
        case False
        with Collect short show ?thesis by (simp add: consume_part)
      qed
    qed
  next
    case (Skip remaining f)
    with 1(2) have r: "remaining \<noteq> 0" by simp
    show ?thesis
    proof (cases "unat remaining \<le> length xs")
      case True
      let ?n = "unat remaining"
      have p: "guard_consume limit scan ((take ?n xs @ drop ?n xs) @ zs) =
          guard_consume limit (scan_collect f) (drop ?n xs @ zs)" for zs
        using consume_skipped [OF r, of "take ?n xs" limit f] True Skip
        by (simp del: append_take_drop_id)
      have "0 < ?n" using r by (simp add: unat_gt_0)
      with True have "length (drop ?n xs) < length xs" by (simp del: unat_gt_0)
      with 1(1) have "guard_consume limit (scan_collect f) (drop ?n xs @ ys) =
          then_consume limit (guard_consume limit (scan_collect f) (drop ?n xs)) ys" by simp
      with p [of ys] p [of "[]"] show ?thesis by simp
    next
      case False
      then have short: "length xs < unat remaining" by simp
      note left = skip_rest [OF short]
      show ?thesis
      proof (cases "unat remaining - length xs \<le> length ys")
        case True
        define n where "n = unat remaining - length xs"
        from True have n: "n \<le> length ys" by (simp add: n_def)
        have "guard_consume limit (Skip remaining f) ((xs @ take n ys) @ drop n ys) =
            guard_consume limit (Skip (remaining - widen (length xs)) f) (take n ys @ drop n ys)"
          using r short left n by (subst (1 2) consume_skipped) (auto simp: n_def)
        with Skip short r show ?thesis by (simp add: consume_skipping)
      next
        case False
        then have "length ys < unat (remaining - widen (length xs))" using left by simp
        moreover have "widen (length xs + length ys) = widen (length xs) + widen (length ys)"
        proof -
          have "length xs + length ys < 2 ^ 64" using False short by (intro below_u64 [of _ remaining]) linarith
          then show ?thesis by (simp add: widen_def u64_of_def)
        qed
        ultimately show ?thesis using Skip short r left False
          by (simp add: consume_skipping)
      qed
    qed
  qed
qed

section \<open>Streams of frames\<close>

text \<open>
  The frames of a zstd stream as the format lays them out: a skippable frame, or a frame header with
  its blocks and an optional checksum.
\<close>

record frame_header =
  fh_content_flag :: nat
  fh_single_segment :: bool
  fh_checksum :: bool
  fh_dictionary_flag :: nat
  fh_window :: bytes
  fh_dictionary :: bytes
  fh_content_size :: bytes

datatype block =
    RawBlock bytes
  | RleBlock nat byte
  | CompressedBlock bytes

datatype zstd_frame =
    SkippableFrame byte bytes
  | ZstdFrame frame_header "block list" block bytes

definition descriptor :: "frame_header \<Rightarrow> nat" where
  "descriptor h = 64 * fh_content_flag h + (if fh_single_segment h then 32 else 0) +
     (if fh_checksum h then 4 else 0) + fh_dictionary_flag h"

definition header_rest :: "frame_header \<Rightarrow> bytes" where
  "header_rest h = fh_window h @ fh_dictionary h @ fh_content_size h"

definition header_ok :: "frame_header \<Rightarrow> bool" where
  "header_ok h \<longleftrightarrow> fh_content_flag h < 4 \<and> fh_dictionary_flag h < 4 \<and>
     length (fh_window h) = (if fh_single_segment h then 0 else 1) \<and>
     length (fh_dictionary h) = [0, 1, 2, 4] ! fh_dictionary_flag h \<and>
     length (fh_content_size h) = [if fh_single_segment h then 1 else 0, 2, 4, 8] ! fh_content_flag h"

text \<open>The window of a frame, in bytes, as the format defines it.\<close>

definition window_size :: "frame_header \<Rightarrow> nat" where
  "window_size h =
     (if fh_single_segment h then
        le_val (fh_content_size h) + (if fh_content_flag h = 1 then 256 else 0)
      else
        (let w = le_val (fh_window h); base = 2 ^ (10 + w div 8) in base + base div 8 * (w mod 8)))"

fun block_kind :: "block \<Rightarrow> nat" where
  "block_kind (RawBlock _) = 0"
| "block_kind (RleBlock _ _) = 1"
| "block_kind (CompressedBlock _) = 2"

fun block_content :: "block \<Rightarrow> bytes" where
  "block_content (RawBlock bs) = bs"
| "block_content (RleBlock _ b) = [b]"
| "block_content (CompressedBlock bs) = bs"

fun block_size :: "block \<Rightarrow> nat" where
  "block_size (RawBlock bs) = length bs"
| "block_size (RleBlock n _) = n"
| "block_size (CompressedBlock bs) = length bs"

definition block_bytes :: "bool \<Rightarrow> block \<Rightarrow> bytes" where
  "block_bytes final b =
     le_bytes 3 ((if final then 1 else 0) + 2 * block_kind b + 8 * block_size b) @ block_content b"

fun frame_bytes :: "zstd_frame \<Rightarrow> bytes" where
  "frame_bytes (SkippableFrame low content) =
     low # ZSTD_SKIPPABLE_MAGIC_HIGH @ le_bytes 4 (length content) @ content"
| "frame_bytes (ZstdFrame h bs final checksum) =
     ZSTD_FRAME_MAGIC @ [char_of (descriptor h)] @ header_rest h @
     concat (map (block_bytes False) bs) @ block_bytes True final @ checksum"

fun frame_ok :: "zstd_frame \<Rightarrow> bool" where
  "frame_ok (SkippableFrame low content) \<longleftrightarrow> ord low div 16 = 5 \<and> length content < 2 ^ 32"
| "frame_ok (ZstdFrame h bs final checksum) \<longleftrightarrow>
     header_ok h \<and> (\<forall>b\<in>set (final # bs). block_size b < 2 ^ 21) \<and>
     length checksum = (if fh_checksum h then 4 else 0)"

fun frame_fits :: "u64 \<Rightarrow> zstd_frame \<Rightarrow> bool" where
  "frame_fits limit (SkippableFrame _ _) \<longleftrightarrow> True"
| "frame_fits limit (ZstdFrame h _ _ _) \<longleftrightarrow> window_size h \<le> unat limit"

subsection \<open>Words\<close>

lemma unat_byte_word [simp]: "unat (byte_word b) = ord b"
  by (simp add: byte_word_def unat_of_nat take_bit_eq_mod)

lemma byte_word_char_of [simp]: "n < 256 \<Longrightarrow> byte_word (char_of n) = word_of_nat n"
  by (simp add: byte_word_def of_char_of)

lemma le_u64_Cons: "le_u64 (b # bs) = push_bit 8 (le_u64 bs) OR u64_of (ord b)"
  by (simp add: le_u64_def)

lemma le_u64_val: "le_u64 bs = u64_of (le_val bs)"
proof (induction bs)
  case (Cons b bs)
  have c: "ord b < 2 ^ 8" using ord_less [of b] by (simp del: ord_less)
  have "push_bit 8 (le_val bs) AND ord b = 0"
  proof (rule bit_eqI)
    fix n
    have "\<not> bit (ord b) n" if "8 \<le> n"
    proof -
      have "take_bit 8 (ord b) = ord b" using c by (simp add: take_bit_nat_eq_self)
      then show ?thesis using that bit_take_bit_iff [of 8 "ord b" n] by auto
    qed
    then show "bit (push_bit 8 (le_val bs) AND ord b) n \<longleftrightarrow> bit (0 :: nat) n"
      by (auto simp: bit_and_iff bit_push_bit_iff)
  qed
  then have "push_bit 8 (le_val bs) OR ord b = 256 * le_val bs + ord b"
    by (simp add: disjunctive_add_eq_or [symmetric] push_bit_eq_mult)
  moreover have "u64_of (push_bit 8 (le_val bs) OR ord b) = push_bit 8 (u64_of (le_val bs)) OR u64_of (ord b)"
    by (simp add: u64_of_def of_nat_or_eq push_bit_of_nat)
  ultimately show ?case using Cons by (simp add: le_u64_Cons add.commute)
qed (simp add: le_u64_def u64_of_def)

lemma unat_le_u64: "length bs \<le> 8 \<Longrightarrow> unat (le_u64 bs) = le_val bs"
proof -
  assume "length bs \<le> 8"
  then have "(256 :: nat) ^ length bs \<le> 256 ^ 8" by (intro power_increasing) simp_all
  with le_val_bound [of bs] have "le_val bs < 2 ^ 64" by simp
  then show ?thesis by (simp add: le_u64_val)
qed

lemma unat_and_3: "unat (w AND 3) = unat w mod 4" for w :: u64
proof -
  have "w AND 3 = take_bit 2 w" by (simp add: take_bit_eq_mask mask_eq_exp_minus_1)
  then show ?thesis by (simp add: take_bit_eq_mod unat_mod)
qed

lemma unat_and_1: "unat (w AND 1) = unat w mod 2" for w :: u64
  by (simp add: and_one_eq unat_mod)


subsection \<open>Headers\<close>

lemma below_4: "n < 4 \<longleftrightarrow> n = 0 \<or> n = 1 \<or> n = 2 \<or> n = (3 :: nat)"
  by auto

lemma descriptor_word:
  assumes "header_ok h"
  defines "d \<equiv> byte_word (char_of (descriptor h))"
  shows "d AND ZSTD_RESERVED_DESCRIPTOR_BIT = 0"
    "d AND ZSTD_SINGLE_SEGMENT \<noteq> 0 \<longleftrightarrow> fh_single_segment h"
    "d AND ZSTD_CHECKSUM_FLAG \<noteq> 0 \<longleftrightarrow> fh_checksum h"
    "dictionary_len d = length (fh_dictionary h)"
    "content_size_len d = length (fh_content_size h)"
  using assms(1) unfolding d_def header_ok_def descriptor_def below_4
  by (elim conjE disjE; cases "fh_single_segment h"; cases "fh_checksum h";
      simp add: ZSTD_RESERVED_DESCRIPTOR_BIT_def ZSTD_SINGLE_SEGMENT_def ZSTD_CHECKSUM_FLAG_def
        dictionary_len_def content_size_len_def Let_def)+

lemma header_len:
  "header_ok h \<Longrightarrow> field_len (Header (byte_word (char_of (descriptor h)))) = length (header_rest h)"
  using descriptor_word [of h] by (auto simp: header_rest_def header_ok_def)

lemma frame_window_size:
  assumes "header_ok h"
  shows "unat (frame_window (byte_word (char_of (descriptor h))) (header_rest h)) = window_size h"
proof (cases "fh_single_segment h")
  case True
  have "length (fh_content_size h) \<le> 8" using assms by (auto simp: header_ok_def below_4)
  then have v: "unat (le_u64 (fh_content_size h)) = le_val (fh_content_size h)" by (rule unat_le_u64)
  have two: "length (fh_content_size h) = 2 \<longleftrightarrow> fh_content_flag h = 1"
    using assms True by (auto simp: header_ok_def below_4)
  have rest: "drop (length (fh_dictionary h)) (header_rest h) = fh_content_size h"
    using assms True by (simp add: header_rest_def header_ok_def)
  have add: "unat (saturating_add (le_u64 (fh_content_size h)) 256) = le_val (fh_content_size h) + 256"
    if "length (fh_content_size h) = 2"
    using le_val_bound [of "fh_content_size h"] that v by (simp add: saturating_add_def unat_word_ariths)
  show ?thesis
    using descriptor_word [OF assms] True rest v two add
    by (auto simp: frame_window_def window_size_def Let_def ZSTD_FCS_TWO_BYTE_OFFSET_def)
next
  case False
  with assms obtain b where w: "fh_window h = [b]" by (auto simp: header_ok_def length_Suc_conv)
  let ?w = "byte_word b" and ?k = "10 + ord b div 8" and ?m = "ord b mod 8"
  have k: "?k \<le> 41" using ord_less [of b] by (simp del: ord_less)
  have log: "ZSTD_WINDOW_LOG_BASE + unat (drop_bit 3 ?w) = ?k"
    by (simp add: ZSTD_WINDOW_LOG_BASE_def drop_bit_eq_div unat_div)
  have m: "unat (ucast (?w AND 7) :: u64) = ?m"
  proof -
    have "?w AND 7 = take_bit 3 ?w" by (simp add: take_bit_eq_mask mask_eq_exp_minus_1)
    then show ?thesis by (simp add: unsigned_ucast_eq unat_mod take_bit_eq_mod)
  qed
  have pow: "(2 :: nat) ^ ?k \<le> 2 ^ 41" using k by (intro power_increasing) simp_all
  then have base: "unat (push_bit ?k 1 :: u64) = 2 ^ ?k"
  proof -
    have "(push_bit ?k 1 :: u64) = u64_of (2 ^ ?k)" by (simp add: push_bit_eq_mult u64_of_def)
    moreover have "(2 :: nat) ^ ?k < 2 ^ 64" using k by (intro power_strict_increasing) simp_all
    ultimately show ?thesis by simp
  qed
  let ?B = "push_bit ?k 1 :: u64" and ?M = "ucast (?w AND 7) :: u64"
  have "2 ^ ?k div 8 * ?m \<le> 2 ^ ?k div 8 * 8" by (intro mult_le_mono2) simp
  also have "\<dots> \<le> (2 :: nat) ^ ?k" by simp
  finally have le: "2 ^ ?k div 8 * ?m \<le> (2 :: nat) ^ ?k" .
  have B8: "unat (?B div 8) = 2 ^ ?k div 8" using base by (simp add: unat_div)
  have mul: "unat (saturating_mul (?B div 8) ?M) = 2 ^ ?k div 8 * ?m"
    using le pow B8 m by (simp add: saturating_mul_def unat_word_ariths)
  have "unat (saturating_add ?B (saturating_mul (?B div 8) ?M)) = 2 ^ ?k + 2 ^ ?k div 8 * ?m"
    using le pow base mul by (simp add: saturating_add_def unat_word_ariths)
  then show ?thesis
    using descriptor_word [OF assms] False w log k
    by (simp add: frame_window_def window_size_def header_rest_def Let_def checked_shl_1_def)
qed


subsection \<open>Frames\<close>

lemma consume_collect:
  "length xs = field_len f \<Longrightarrow> guard_consume limit (scan_collect f) (xs @ rest) =
    (case complete f xs limit of
       Inl e \<Rightarrow> Some (Inl e, Collect f xs)
     | Inr scan \<Rightarrow> guard_consume limit scan rest)"
  using consume_field [of "[]" f xs limit rest] by (simp add: scan_collect_def field_len_pos split: sum.splits)

lemma consume_skip:
  "length xs = unat n \<Longrightarrow>
     guard_consume limit (scan_skip n f) (xs @ rest) = guard_consume limit (scan_collect f) rest"
  by (cases "n = 0") (auto simp: scan_skip_def consume_skipped)

lemma block_header_word:
  assumes "l < 2" "k < 4" "n < 2 ^ 21"
  defines "w \<equiv> le_u64 (le_bytes 3 (l + 2 * k + 8 * n))"
  shows "unat w = l + 2 * k + 8 * n" "drop_bit 3 w = u64_of n"
    "drop_bit 1 w AND 3 = u64_of k" "w AND 1 = u64_of l"
proof -
  show w: "unat w = l + 2 * k + 8 * n"
    using assms by (simp add: w_def unat_le_u64 le_val_le_bytes)
  have "(l + 2 * k + 8 * n) div 8 = n" "(l + 2 * k + 8 * n) div 2 mod 4 = k" "(l + 2 * k + 8 * n) mod 2 = l"
    using assms(1,2) by presburger+
  with w assms(1-3) show "drop_bit 3 w = u64_of n" "drop_bit 1 w AND 3 = u64_of k" "w AND 1 = u64_of l"
    by (simp_all add: word_unat_eq_iff drop_bit_eq_div unat_div unat_and_3 unat_and_1)
qed

lemma consume_block:
  assumes "block_size b < 2 ^ 21" "length checksum = (if c then 4 else 0)"
  shows "guard_consume limit (scan_collect (Block c)) (block_bytes False b @ rest) =
      guard_consume limit (scan_collect (Block c)) rest"
    "guard_consume limit (scan_collect (Block c)) (block_bytes True b @ checksum @ rest) =
      guard_consume limit (scan_collect Magic) rest"
proof -
  let ?h = "\<lambda>l. le_bytes 3 (l + 2 * block_kind b + 8 * block_size b)"
  have k: "block_kind b < 4" by (cases b) simp_all
  have kinds: "u64_of (block_kind b) = 0 \<or> u64_of (block_kind b) = 1 \<or> u64_of (block_kind b) = 2"
    by (cases b) (simp_all add: u64_of_def)
  define content where "content = (if u64_of (block_kind b) = 1 then 1 else u64_of (block_size b))"
  have len: "unat content = length (block_content b)"
    using assms(1) by (cases b) (simp_all add: content_def u64_of_def unat_of_nat)
  note w0 = block_header_word [of 0, OF _ k assms(1), simplified]
  note w1 = block_header_word [of 1, OF _ k assms(1), simplified]
  have "complete (Block c) (?h 0) limit = Inr (scan_skip content (Block c))"
    using w0 kinds by (auto simp: complete_def Let_def content_def u64_of_def)
  then show "guard_consume limit (scan_collect (Block c)) (block_bytes False b @ rest) =
      guard_consume limit (scan_collect (Block c)) rest"
    using len by (simp add: block_bytes_def consume_collect consume_skip ZSTD_BLOCK_HEADER_LEN_def)
  have "complete (Block c) (?h 1) limit =
      Inr (scan_skip (saturating_add content (if c then ZSTD_CHECKSUM_LEN else 0)) Magic)"
    using w1 kinds by (auto simp: complete_def Let_def content_def u64_of_def)
  moreover have "length (block_content b) < 2 ^ 21 + 1" using assms(1) by (cases b) simp_all
  then have "unat (saturating_add content (if c then ZSTD_CHECKSUM_LEN else 0)) = length (block_content b @ checksum)"
    using len assms(2) by (simp add: saturating_add_def ZSTD_CHECKSUM_LEN_def unat_word_ariths)
  ultimately show "guard_consume limit (scan_collect (Block c)) (block_bytes True b @ checksum @ rest) =
      guard_consume limit (scan_collect Magic) rest"
    using consume_skip [of "block_content b @ checksum"]
    by (simp add: block_bytes_def consume_collect ZSTD_BLOCK_HEADER_LEN_def)
qed


lemma consume_blocks:
  "\<forall>b\<in>set bs. block_size b < 2 ^ 21 \<Longrightarrow>
     guard_consume limit (scan_collect (Block c)) (concat (map (block_bytes False) bs) @ rest) =
     guard_consume limit (scan_collect (Block c)) rest"
proof (induction bs)
  case (Cons b bs)
  then show ?case using consume_block(1) [of b "if c then ''aaaa'' else []" c] by auto
qed simp

lemma consume_frame:
  assumes "frame_ok frame"
  shows "frame_fits limit frame \<Longrightarrow>
      guard_consume limit (scan_collect Magic) (frame_bytes frame @ rest) =
      guard_consume limit (scan_collect Magic) rest"
    "\<not> frame_fits limit frame \<Longrightarrow>
      \<exists>scan. guard_consume limit (scan_collect Magic) (frame_bytes frame @ rest) =
        Some (Inl (SF_OuterLimit LR_ZstdWindow limit), scan)"
proof -
  have magic: "guard_consume limit (scan_collect Magic) (ZSTD_FRAME_MAGIC @ xs) =
      guard_consume limit (scan_collect Descriptor) xs" for xs
    by (simp add: consume_collect complete_def)
  have desc: "guard_consume limit (scan_collect Descriptor) (char_of (descriptor h) # xs) =
      guard_consume limit (scan_collect (Header (byte_word (char_of (descriptor h))))) xs"
    if "header_ok h" for h xs
    using consume_collect [of "[char_of (descriptor h)]" Descriptor limit xs] descriptor_word(1) [OF that]
    by (simp add: complete_def)
  show "frame_fits limit frame \<Longrightarrow>
      guard_consume limit (scan_collect Magic) (frame_bytes frame @ rest) =
      guard_consume limit (scan_collect Magic) rest"
  proof (cases frame)
    case (SkippableFrame low content)
    have "byte_word low AND 0xF0 = 0x50"
    proof -
      have "ord low div 16 = 5" using assms SkippableFrame by simp
      then have "80 \<le> ord low" "ord low < 96" by presburger+
      then have "ord low \<in> set [80..<96]" unfolding set_upt by (rule atLeastLessThan_iff [THEN iffD2, OF conjI])
      then show ?thesis by (auto simp: byte_word_def upt_rec)
    qed
    then have m: "complete Magic (low # ZSTD_SKIPPABLE_MAGIC_HIGH) limit = Inr (scan_collect SkippableLength)"
      by (auto simp: complete_def is_skippable_magic_def ZSTD_FRAME_MAGIC_def ZSTD_SKIPPABLE_MAGIC_HIGH_def)
    have len: "unat (le_u64 (le_bytes 4 (length content))) = length content"
      using assms SkippableFrame by (simp add: unat_le_u64 le_val_le_bytes)
    have "guard_consume limit (scan_collect Magic) ((low # ZSTD_SKIPPABLE_MAGIC_HIGH) @
        le_bytes 4 (length content) @ content @ rest) = guard_consume limit (scan_collect Magic) rest"
    proof -
      have "length (low # ZSTD_SKIPPABLE_MAGIC_HIGH) = field_len Magic"
        "length (le_bytes 4 (length content)) = field_len SkippableLength"
        by (simp_all add: ZSTD_FRAME_MAGIC_def ZSTD_SKIPPABLE_MAGIC_HIGH_def)
      with len show ?thesis
        by (simp add: m consume_collect consume_skip complete_def [of SkippableLength] del: append_Cons)
    qed
    with SkippableFrame show ?thesis by simp
  next
    case (ZstdFrame h bs final checksum)
    assume "frame_fits limit frame"
    with assms ZstdFrame have h: "header_ok h" and fits: "window_size h \<le> unat limit" by simp_all
    have "guard_consume limit (scan_collect (Header (byte_word (char_of (descriptor h))))) (header_rest h @ xs) =
        guard_consume limit (scan_collect (Block (fh_checksum h))) xs" for xs
      using fits descriptor_word(3) [OF h] header_len [OF h] frame_window_size [OF h]
      by (simp add: consume_collect complete_def word_less_nat_alt del: field_len.simps)
    with ZstdFrame magic desc [OF h] assms consume_block(2) [of final checksum "fh_checksum h"]
    show ?thesis by (simp add: consume_blocks)
  qed
  show "\<exists>scan. guard_consume limit (scan_collect Magic) (frame_bytes frame @ rest) =
        Some (Inl (SF_OuterLimit LR_ZstdWindow limit), scan)" if "\<not> frame_fits limit frame"
  proof (cases frame)
    case (ZstdFrame h bs final checksum)
    with assms that have h: "header_ok h" and over: "unat limit < window_size h" by simp_all
    have "\<exists>scan. guard_consume limit (scan_collect (Header (byte_word (char_of (descriptor h))))) (header_rest h @ xs) =
        Some (Inl (SF_OuterLimit LR_ZstdWindow limit), scan)" for xs
      using over header_len [OF h] frame_window_size [OF h]
      by (simp add: consume_collect complete_def word_less_nat_alt del: field_len.simps)
    with ZstdFrame magic desc [OF h] show ?thesis by simp
  qed (use that in simp)
qed

lemma consume_frames:
  "\<forall>frame\<in>set frames. frame_ok frame \<Longrightarrow>
     if \<forall>frame\<in>set frames. frame_fits limit frame
     then guard_consume limit (scan_collect Magic) (concat (map frame_bytes frames)) = Some (Inr (), scan_collect Magic)
     else \<exists>scan. guard_consume limit (scan_collect Magic) (concat (map frame_bytes frames)) =
       Some (Inl (SF_OuterLimit LR_ZstdWindow limit), scan)"
proof (induction frames)
  case (Cons frame frames)
  then show ?case
    using consume_frame [of frame limit "concat (map frame_bytes frames)"] by (cases "frame_fits limit frame") auto
qed simp

text \<open>The guard fed chunk by chunk: what \<open>read\<close> after \<open>read\<close> makes of a stream.\<close>

fun consume_chunks :: "u64 \<Rightarrow> scan \<Rightarrow> bytes list \<Rightarrow> ((stream_fault + unit) \<times> scan) option" where
  "consume_chunks limit scan [] = Some (Inr (), scan)"
| "consume_chunks limit scan (chunk # chunks) =
     (case guard_consume limit scan chunk of
        None \<Rightarrow> None
      | Some (Inl e, scan') \<Rightarrow> Some (Inl e, scan')
      | Some (Inr _, scan') \<Rightarrow> consume_chunks limit scan' chunks)"

lemma consume_chunks_concat:
  "scan_ok scan \<Longrightarrow> consume_chunks limit scan chunks = guard_consume limit scan (concat chunks)"
proof (induction chunks arbitrary: scan)
  case (Cons chunk chunks)
  from consume_total [OF Cons.prems, of limit chunk] obtain r scan' where
    g: "guard_consume limit scan chunk = Some (r, scan')" "r = Inr () \<longrightarrow> scan_ok scan'" by blast
  then show ?case
    using consume_append [OF Cons.prems, of limit chunk "concat chunks"] Cons.IH [of scan'] by (cases r) auto
qed simp

text \<open>
  C17: the guard's verdict on a zstd stream is the format's. However the bytes of a sequence of
  well-formed frames are cut into reads, the guard lets all of them through and ends at a frame
  boundary when every frame's window, computed as the format defines it, is within the limit, and
  otherwise refuses with the window limit.
\<close>

theorem window_guard_verdict:
  assumes "\<forall>frame\<in>set frames. frame_ok frame" "concat chunks = concat (map frame_bytes frames)"
  shows "if \<forall>frame\<in>set frames. frame_fits limit frame
    then consume_chunks limit (scan_collect Magic) chunks = Some (Inr (), scan_collect Magic)
    else \<exists>scan. consume_chunks limit (scan_collect Magic) chunks =
      Some (Inl (SF_OuterLimit LR_ZstdWindow limit), scan)"
  using consume_frames [OF assms(1), of limit] assms(2) by (simp add: consume_chunks_concat)

definition sample_frame :: zstd_frame where
  "sample_frame = ZstdFrame \<lparr>fh_content_flag = 0, fh_single_segment = False, fh_checksum = True,
     fh_dictionary_flag = 0, fh_window = [CHR 0x51], fh_dictionary = [], fh_content_size = []\<rparr>
     [RawBlock ''abc''] (RleBlock 7 (CHR 0x00)) ''wxyz''"

theorem window_guard_verdict_witness:
  "\<exists>scan. consume_chunks 1024 (scan_collect Magic) (map (\<lambda>b. [b]) (frame_bytes sample_frame)) =
     Some (Inl (SF_OuterLimit LR_ZstdWindow 1024), scan)"
proof -
  have ok: "frame_ok sample_frame" by (simp add: sample_frame_def header_ok_def)
  have cut: "concat (map (\<lambda>b. [b]) xs) = xs" for xs :: bytes by (induction xs) simp_all
  have "\<not> frame_fits 1024 sample_frame" by (simp add: sample_frame_def window_size_def Let_def)
  with window_guard_verdict [of "[sample_frame]" "map (\<lambda>b. [b]) (frame_bytes sample_frame)" 1024] ok cut
  show ?thesis by simp
qed

section \<open>Termination\<close>

text \<open>
  C18: the scanning loop of a read always ends. From the initial scan and whatever was read before, a
  chunk of any length is scanned to its end or refused, and a scan that went on is again one from
  which every further chunk ends.
\<close>

theorem guard_terminates:
  assumes "scan_ok scan"
  shows "\<exists>r scan'. guard_consume limit scan input = Some (r, scan') \<and> (r = Inr () \<longrightarrow> scan_ok scan')"
  using assms by (rule consume_total)

theorem guard_terminates_witness:
  "\<exists>r scan'. guard_consume 1024 (scan_collect Magic) ''abc'' = Some (r, scan')"
  using guard_terminates [of "scan_collect Magic" 1024 "''abc''"] by auto


end
