(* ===== verification/Tar_Framing.thy ===== *)
theory Tar_Framing
  imports Zstd_Window Archive_Errors Utf8
begin

text \<open>
  The tar framing between archive members: \<open>src/payload/outer/framing.rs\<close>, and the meter and counters
  of \<open>src/payload/outer.rs\<close>. The framing follows the tar headers as they are read; an extension record
  too large for the framing allowance is scanned for what it overrides and then refused. What the tar
  crate reads from a header block is a parameter.
\<close>

section \<open>Constants and headers\<close>

definition REPORTED_NAME_MAX :: nat where "REPORTED_NAME_MAX = 256"
definition TRUNCATION_MARK :: bytes where "TRUNCATION_MARK = [CHR 0xE2, CHR 0x80, CHR 0xA6]"
definition PAX_KEY_MAX :: nat where "PAX_KEY_MAX = 8"
definition PAX_PATH :: bytes where "PAX_PATH = ''path''"
definition PAX_SIZE :: bytes where "PAX_SIZE = ''size''"
definition SCAN_CHUNK :: nat where "SCAN_CHUNK = 4096"
definition BLOCK_LEN :: u64 where "BLOCK_LEN = 512"
definition TAR_BLOCK_SIZE :: nat where "TAR_BLOCK_SIZE = 512"
definition FRAMING_PER_SLOT :: u64 where "FRAMING_PER_SLOT = 1024"
definition FRAMING_EXTRA_SLOTS :: u64 where "FRAMING_EXTRA_SLOTS = 2"

datatype entry_type = ET_Regular | ET_GNULongName | ET_GNULongLink | ET_XHeader | ET_Other

text \<open>\<open>tar::Header\<close> over a block: its size, whether its magic is known, its type and its raw path.\<close>

record tar_header =
  th_entry_size :: "bytes \<Rightarrow> u64 option"
  th_recognized :: "bytes \<Rightarrow> bool"
  th_entry_type :: "bytes \<Rightarrow> entry_type"
  th_path_bytes :: "bytes \<Rightarrow> bytes"

datatype oversized_extension =
    OX_Name bytes bytes
  | OX_Size bytes u64 u64
  | OX_Link bytes

fun into_payload :: "oversized_extension \<Rightarrow> 'm payload_error" where
  "into_payload (OX_Name header_name resolved_name) = PE_NameOverridingHeader header_name resolved_name"
| "into_payload (OX_Size path header_size resolved_size) = PE_SizeOverridingHeader path header_size resolved_size"
| "into_payload (OX_Link path) = PE_UnsupportedEntryType path"

section \<open>Names and numbers read byte by byte\<close>

record name_prefix =
  np_bytes :: bytes
  np_truncated :: bool

definition name_prefix_default :: name_prefix where
  "name_prefix_default = \<lparr>np_bytes = [], np_truncated = False\<rparr>"

definition name_push :: "byte \<Rightarrow> name_prefix \<Rightarrow> name_prefix" where
  "name_push b n =
     (if length (np_bytes n) < REPORTED_NAME_MAX then n\<lparr>np_bytes := np_bytes n @ [b]\<rparr>
      else n\<lparr>np_truncated := True\<rparr>)"

definition name_is_full :: "name_prefix \<Rightarrow> bool" where
  "name_is_full n \<longleftrightarrow> REPORTED_NAME_MAX \<le> length (np_bytes n)"

definition name_clear :: "name_prefix \<Rightarrow> name_prefix" where
  "name_clear n = n\<lparr>np_bytes := [], np_truncated := False\<rparr>"

definition name_display :: "name_prefix \<Rightarrow> bool \<Rightarrow> bytes" where
  "name_display n continues =
     from_utf8_lossy (np_bytes n) @ (if np_truncated n \<or> continues then TRUNCATION_MARK else [])"

record decimal =
  de_value :: u64
  de_digits :: bool
  de_len :: u64
  de_invalid :: bool

definition decimal_default :: decimal where
  "decimal_default = \<lparr>de_value = 0, de_digits = False, de_len = 0, de_invalid = False\<rparr>"

definition decimal_push :: "byte \<Rightarrow> decimal \<Rightarrow> decimal" where
  "decimal_push b d =
     (let first = (de_len d = 0); d = d\<lparr>de_len := saturating_add (de_len d) 1\<rparr> in
      if first \<and> b = CHR ''+'' then d
      else case (if is_ascii_digit b then
                   (case checked_mul (de_value d) 10 of
                      None \<Rightarrow> None
                    | Some v \<Rightarrow> checked_add v (u64_of (ord b - ord CHR ''0'')))
                 else None) of
             Some v \<Rightarrow> if de_invalid d then d\<lparr>de_invalid := True\<rparr> else d\<lparr>de_value := v, de_digits := True\<rparr>
           | None \<Rightarrow> d\<lparr>de_invalid := True\<rparr>)"

definition decimal_get :: "decimal \<Rightarrow> u64 option" where
  "decimal_get d = (if de_digits d \<and> \<not> de_invalid d then Some (de_value d) else None)"

section \<open>The records of a pax header\<close>

datatype pax_part = PP_Length | PP_Key | PP_Value | PP_Malformed
datatype pax_key = PK_Other | PK_Path | PK_Size
datatype path_lookup = PL_Open | PL_Candidate | PL_Found
datatype size_lookup = SL_Open | SL_Found u64 | SL_Closed

text \<open>The key is held as the bytes stored so far, at most \<open>PAX_KEY_MAX\<close> of them.\<close>

record pax_scan =
  px_part :: pax_part
  px_line_len :: u64
  px_length :: decimal
  px_key :: bytes
  px_key_overlong :: bool
  px_value_key :: pax_key
  px_size_value :: decimal
  px_path :: path_lookup
  px_path_unfinished :: bool
  px_size :: size_lookup
  px_ended :: bool

definition pax_default :: pax_scan where
  "pax_default =
     \<lparr>px_part = PP_Length, px_line_len = 0, px_length = decimal_default, px_key = [], px_key_overlong = False,
      px_value_key = PK_Other, px_size_value = decimal_default, px_path = PL_Open, px_path_unfinished = False,
      px_size = SL_Open, px_ended = False\<rparr>"

definition pax_well_formed :: "pax_scan \<Rightarrow> bool" where
  "pax_well_formed p \<longleftrightarrow>
     px_part p = PP_Value \<and>
     (case checked_add (px_line_len p) 1 of None \<Rightarrow> False | Some seen \<Rightarrow> decimal_get (px_length p) = Some seen)"

definition pax_end_line :: "pax_scan \<times> name_prefix \<Rightarrow> pax_scan \<times> name_prefix" where
  "pax_end_line = (\<lambda>(p, name).
     if px_line_len p = 0 then (p\<lparr>px_ended := True\<rparr>, name)
     else
       (let (path, size, name') =
          (if pax_well_formed p then
             (if px_value_key p = PK_Path \<and> px_path p = PL_Candidate then (PL_Found, px_size p, name)
              else if px_value_key p = PK_Size \<and> px_size p = SL_Open then
                (px_path p, (case decimal_get (px_size_value p) of None \<Rightarrow> SL_Closed | Some v \<Rightarrow> SL_Found v), name)
              else (px_path p, px_size p, name))
           else
             (let size = (if px_size p = SL_Open then SL_Closed else px_size p) in
              if px_path p = PL_Candidate then (PL_Open, size, name_clear name) else (px_path p, size, name)))
        in (pax_default\<lparr>px_path := path, px_size := size, px_ended := px_ended p\<rparr>, name')))"

definition pax_byte :: "byte \<Rightarrow> pax_scan \<times> name_prefix \<Rightarrow> pax_scan \<times> name_prefix" where
  "pax_byte b = (\<lambda>(p, name).
     if px_ended p then (p, name)
     else if b = CHR 0x0A then pax_end_line (p, name)
     else
       (let p = (case checked_add (px_line_len p) 1 of
                   Some len \<Rightarrow> p\<lparr>px_line_len := len\<rparr>
                 | None \<Rightarrow> p\<lparr>px_part := PP_Malformed\<rparr>)
        in case px_part p of
          PP_Length \<Rightarrow>
            if b = CHR '' '' then
              (p\<lparr>px_part := (if decimal_get (px_length p) \<noteq> None then PP_Key else PP_Malformed)\<rparr>, name)
            else (p\<lparr>px_length := decimal_push b (px_length p)\<rparr>, name)
        | PP_Key \<Rightarrow>
            if b = CHR ''='' then
              (let value_key = (if px_key_overlong p then PK_Other else if px_key p = PAX_PATH then PK_Path
                                else if px_key p = PAX_SIZE then PK_Size else PK_Other);
                   candidate = (value_key = PK_Path \<and> px_path p = PL_Open)
               in (p\<lparr>px_value_key := value_key, px_path := (if candidate then PL_Candidate else px_path p),
                     px_part := PP_Value\<rparr>,
                   if candidate then name_clear name else name))
            else if length (px_key p) < PAX_KEY_MAX then (p\<lparr>px_key := px_key p @ [b]\<rparr>, name)
            else (p\<lparr>px_key_overlong := True\<rparr>, name)
        | PP_Value \<Rightarrow>
            if px_value_key p = PK_Path \<and> px_path p = PL_Candidate then (p, name_push b name)
            else if px_value_key p = PK_Size then (p\<lparr>px_size_value := decimal_push b (px_size_value p)\<rparr>, name)
            else (p, name)
        | PP_Malformed \<Rightarrow> (p, name)))"

definition pax_finish :: "bool \<Rightarrow> pax_scan \<times> name_prefix \<Rightarrow> pax_scan \<times> name_prefix" where
  "pax_finish whole = (\<lambda>(p, name).
     if px_ended p \<or> px_path p = PL_Found then (p, name)
     else if whole then
       (let (p', name') = (if px_line_len p > 0 then pax_end_line (p, name) else (p, name))
        in (p'\<lparr>px_ended := True\<rparr>, name'))
     else
       (let plausible = (px_part p = PP_Value \<and>
              (case (checked_add (px_line_len p) 1, decimal_get (px_length p)) of
                 (Some seen, Some declared) \<Rightarrow> seen \<le> declared
               | _ \<Rightarrow> False));
            p' = (if px_path p = PL_Candidate \<and> plausible
                  then p\<lparr>px_path := PL_Found, px_path_unfinished := True\<rparr> else p)
        in (p'\<lparr>px_ended := True\<rparr>, name)))"

section \<open>Extension records\<close>

datatype extension_kind = EK_LongName | EK_LongLink | EK_Pax

record extension_scan =
  es_kind :: extension_kind
  es_header_name :: bytes
  es_header_size :: u64
  es_remaining :: u64
  es_name :: name_prefix
  es_pax :: pax_scan

definition extension_scan_new :: "tar_header \<Rightarrow> extension_kind \<Rightarrow> bytes \<Rightarrow> extension_scan" where
  "extension_scan_new th kind block =
     (let header_size = (case th_entry_size th block of None \<Rightarrow> 0 | Some n \<Rightarrow> n) in
      \<lparr>es_kind = kind, es_header_name = from_utf8_lossy (th_path_bytes th block), es_header_size = header_size,
       es_remaining = header_size, es_name = name_prefix_default, es_pax = pax_default\<rparr>)"

definition extension_decided :: "extension_scan \<Rightarrow> bool" where
  "extension_decided s \<longleftrightarrow>
     es_remaining s = 0 \<or>
     (case es_kind s of
        EK_LongLink \<Rightarrow> True
      | EK_LongName \<Rightarrow> name_is_full (es_name s)
      | EK_Pax \<Rightarrow> px_path (es_pax s) = PL_Found \<or> px_ended (es_pax s))"

definition extension_feed :: "bytes \<Rightarrow> extension_scan \<Rightarrow> nat \<times> extension_scan" where
  "extension_feed input s =
     (let used = chunk_len (length input) (es_remaining s);
          body = take used input;
          s = (case es_kind s of
                 EK_LongLink \<Rightarrow> s
               | EK_LongName \<Rightarrow> s\<lparr>es_name := fold name_push body (es_name s)\<rparr>
               | EK_Pax \<Rightarrow>
                   (let (pax, name) = fold pax_byte body (es_pax s, es_name s) in s\<lparr>es_pax := pax, es_name := name\<rparr>))
      in (used, s\<lparr>es_remaining := saturating_sub (es_remaining s) (widen used)\<rparr>))"

definition extension_conclude :: "extension_scan \<Rightarrow> oversized_extension option" where
  "extension_conclude s =
     (let whole = (es_remaining s = 0) in
      case es_kind s of
        EK_LongLink \<Rightarrow> Some (OX_Link (es_header_name s))
      | EK_LongName \<Rightarrow>
          (let name = es_name s;
               name = (if whole \<and> \<not> np_truncated name \<and> np_bytes name \<noteq> [] \<and> last (np_bytes name) = CHR 0x00
                       then name\<lparr>np_bytes := butlast (np_bytes name)\<rparr> else name)
           in Some (OX_Name (es_header_name s) (name_display name (\<not> whole))))
      | EK_Pax \<Rightarrow>
          (let (pax, name) = pax_finish whole (es_pax s, es_name s) in
           if px_path pax = PL_Found then
             Some (OX_Name (es_header_name s) (name_display name (px_path_unfinished pax)))
           else case px_size pax of
             SL_Found resolved_size \<Rightarrow> Some (OX_Size (es_header_name s) (es_header_size s) resolved_size)
           | _ \<Rightarrow> None))"

section \<open>The framing\<close>

datatype framing_state =
    FS_Header
  | FS_Skip u64
  | FS_Extension extension_scan
  | FS_Untracked

text \<open>\<open>fr_have\<close> is the part of the header block collected so far.\<close>

record framing =
  fr_state :: framing_state
  fr_have :: bytes

definition framing_new :: framing where
  "framing_new = \<lparr>fr_state = FS_Header, fr_have = []\<rparr>"

definition state_skip :: "u64 \<Rightarrow> framing_state" where
  "state_skip remaining = (if remaining = 0 then FS_Header else FS_Skip remaining)"

definition framing_scanning :: "framing \<Rightarrow> bool" where
  "framing_scanning f = (case fr_state f of FS_Extension _ \<Rightarrow> True | _ \<Rightarrow> False)"

definition framing_wanted :: "framing \<Rightarrow> u64" where
  "framing_wanted f =
     (case fr_state f of
        FS_Extension s \<Rightarrow> if extension_decided s then 0 else es_remaining s
      | _ \<Rightarrow> 0)"

definition after_header :: "tar_header \<Rightarrow> bytes \<Rightarrow> u64 \<Rightarrow> framing_state" where
  "after_header th block room =
     (if list_all (\<lambda>b. b = CHR 0x00) block then FS_Untracked
      else case th_entry_size th block of
        None \<Rightarrow> FS_Untracked
      | Some entry_size \<Rightarrow>
     (case checked_add entry_size (BLOCK_LEN - 1) of
        None \<Rightarrow> FS_Untracked
      | Some up \<Rightarrow>
          (let padded = up AND NOT (BLOCK_LEN - 1);
               extension = (\<lambda>kind.
                 if (case checked_add padded BLOCK_LEN of None \<Rightarrow> False | Some needed \<Rightarrow> needed \<le> room)
                 then state_skip padded else FS_Extension (extension_scan_new th kind block))
           in case th_entry_type th block of
                ET_GNULongName \<Rightarrow> if th_recognized th block then extension EK_LongName else FS_Untracked
              | ET_GNULongLink \<Rightarrow> if th_recognized th block then extension EK_LongLink else FS_Untracked
              | ET_XHeader \<Rightarrow> if th_recognized th block then extension EK_Pax else FS_Untracked
              | ET_Regular \<Rightarrow> state_skip padded
              | ET_Other \<Rightarrow> FS_Untracked)))"

definition framing_step :: "tar_header \<Rightarrow> bytes \<Rightarrow> u64 \<Rightarrow> framing \<Rightarrow> nat \<times> framing" where
  "framing_step th input room f =
     (case fr_state f of
        FS_Header \<Rightarrow>
          (let used = min (TAR_BLOCK_SIZE - length (fr_have f)) (length input);
               block = fr_have f @ take used input
           in if TAR_BLOCK_SIZE \<le> length block then
                (used, \<lparr>fr_state = after_header th block (saturating_sub room (widen used)), fr_have = []\<rparr>)
              else (used, f\<lparr>fr_have := block\<rparr>))
      | FS_Skip remaining \<Rightarrow>
          (let used = chunk_len (length input) remaining;
               left = saturating_sub remaining (widen used)
           in (used, f\<lparr>fr_state := (if left = 0 then FS_Header else FS_Skip left)\<rparr>))
      | FS_Extension scan \<Rightarrow>
          (let (used, scan') = extension_feed input scan
           in (if used = 0 then length input else used, f\<lparr>fr_state := FS_Extension scan'\<rparr>))
      | FS_Untracked \<Rightarrow> (length input, f))"

text \<open>The loop of \<open>advance\<close>; \<open>None\<close> is a loop that never ends.\<close>

partial_function (option) framing_advance :: "tar_header \<Rightarrow> bytes \<Rightarrow> u64 \<Rightarrow> framing \<Rightarrow> framing option" where
  "framing_advance th input room f =
     (if input = [] then Some f
      else case framing_step th input room f of
        (used, f') \<Rightarrow> framing_advance th (drop used input) (saturating_sub room (widen used)) f')"

definition framing_feed :: "bytes \<Rightarrow> framing \<Rightarrow> framing" where
  "framing_feed input f =
     (case fr_state f of
        FS_Extension scan \<Rightarrow> f\<lparr>fr_state := FS_Extension (snd (extension_feed input scan))\<rparr>
      | _ \<Rightarrow> f)"

text \<open>What the archive reader fails with: its own source, or a refusal of this module.\<close>

datatype 'f io_fault =
    IO_Inner 'f
  | IO_OuterLimit limit_resource u64
  | IO_FramingExceeded u64
  | IO_Oversized oversized_extension

definition framing_conclude :: "u64 \<Rightarrow> framing \<Rightarrow> 'f io_fault \<times> framing" where
  "framing_conclude limit f =
     ((case fr_state f of
         FS_Extension scan \<Rightarrow>
           (case extension_conclude scan of None \<Rightarrow> IO_FramingExceeded limit | Some x \<Rightarrow> IO_Oversized x)
       | _ \<Rightarrow> IO_FramingExceeded limit),
      f\<lparr>fr_state := FS_Untracked\<rparr>)"

section \<open>Counters and the meter\<close>

definition framing_allowance :: "u64 \<Rightarrow> u64" where
  "framing_allowance members =
     (case checked_add members FRAMING_EXTRA_SLOTS of
        None \<Rightarrow> - 1
      | Some slots \<Rightarrow> (case checked_mul slots FRAMING_PER_SLOT of None \<Rightarrow> - 1 | Some n \<Rightarrow> n))"

record outer_counters =
  oc_in_member :: bool
  oc_member_bytes :: u64
  oc_framing_bytes :: u64
  oc_member_limit :: u64
  oc_framing_limit :: u64
  oc_members_limit :: u64

definition counters_new :: "outer_limits \<Rightarrow> outer_counters" where
  "counters_new limits =
     \<lparr>oc_in_member = False, oc_member_bytes = 0, oc_framing_bytes = 0,
      oc_member_limit = ol_uncompressed_total limits,
      oc_framing_limit = framing_allowance (ol_members limits),
      oc_members_limit = ol_members limits\<rparr>"

definition framing_room :: "outer_counters \<Rightarrow> u64" where
  "framing_room c = saturating_sub (oc_framing_limit c) (oc_framing_bytes c)"

definition charge :: "bool \<Rightarrow> u64 \<Rightarrow> outer_counters \<Rightarrow> outer_counters" where
  "charge in_member len c =
     (if in_member then c\<lparr>oc_member_bytes := saturating_add (oc_member_bytes c) len\<rparr>
      else c\<lparr>oc_framing_bytes := saturating_add (oc_framing_bytes c) len\<rparr>)"

text \<open>A reader: at most the given number of bytes, or its failure. No bytes is the end.\<close>

type_synonym ('s, 'f) reader = "nat \<Rightarrow> 's \<Rightarrow> ('f + bytes) \<times> 's"

record 's meter =
  mt_inner :: 's
  mt_counters :: outer_counters
  mt_copy_buffer :: nat
  mt_framing :: framing

definition meter_new :: "'s \<Rightarrow> outer_limits \<Rightarrow> 's meter" where
  "meter_new inner limits =
     \<lparr>mt_inner = inner, mt_counters = counters_new limits, mt_copy_buffer = ol_copy_buffer limits,
      mt_framing = framing_new\<rparr>"

partial_function (option) refuse_extension ::
  "('s, 'f) reader \<Rightarrow> 's meter \<Rightarrow> ('f io_fault \<times> 's meter) option" where
  "refuse_extension rd m =
     (let wanted = min (framing_wanted (mt_framing m)) (framing_room (mt_counters m));
          want = chunk_len (min SCAN_CHUNK (mt_copy_buffer m)) wanted;
          finish = (\<lambda>m. case framing_conclude (oc_framing_limit (mt_counters m)) (mt_framing m) of
             (e, framing) \<Rightarrow> (e, m\<lparr>mt_framing := framing\<rparr>))
      in if want = 0 then Some (finish m)
         else case rd want (mt_inner m) of
           (Inl e, s) \<Rightarrow> Some (IO_Inner e, m\<lparr>mt_inner := s\<rparr>)
         | (Inr window, s) \<Rightarrow>
             if window = [] then Some (finish (m\<lparr>mt_inner := s\<rparr>))
             else refuse_extension rd
               (m\<lparr>mt_inner := s,
                  mt_counters := charge False (widen (length window)) (mt_counters m),
                  mt_framing := framing_feed window (mt_framing m)\<rparr>))"

definition meter_read ::
  "tar_header \<Rightarrow> ('s, 'f) reader \<Rightarrow> nat \<Rightarrow> 's meter \<Rightarrow> (('f io_fault + bytes) \<times> 's meter) option" where
  "meter_read th rd buf_len m =
     (let counters = mt_counters m in
      if framing_scanning (mt_framing m) then
        map_option (\<lambda>(e, m'). (Inl e, m')) (refuse_extension rd m)
      else
        (let in_member = oc_in_member counters;
             (counter, limit) = (if in_member then (oc_member_bytes counters, oc_member_limit counters)
                                 else (oc_framing_bytes counters, oc_framing_limit counters));
             allowance = saturating_sub limit counter;
             room = framing_room counters;
             want = chunk_len (min buf_len (mt_copy_buffer m)) (saturating_add allowance 1)
         in case rd want (mt_inner m) of
              (Inl e, s) \<Rightarrow> Some (Inl (IO_Inner e), m\<lparr>mt_inner := s\<rparr>)
            | (Inr window, s) \<Rightarrow>
                (let read_len = widen (length window) in
                 if allowance < read_len then
                   Some (Inl (if in_member then IO_OuterLimit LR_OuterUncompressedTotal (oc_member_limit counters)
                              else IO_FramingExceeded (oc_framing_limit counters)), m\<lparr>mt_inner := s\<rparr>)
                 else
                   map_option (\<lambda>framing.
                     (Inr window, m\<lparr>mt_inner := s, mt_counters := charge in_member read_len counters,
                                    mt_framing := framing\<rparr>))
                     (framing_advance th window room (mt_framing m)))))"

text \<open>\<open>MemberStream::read\<close>: the member counter is charged during a read of the member's bytes only.\<close>

definition set_in_member :: "bool \<Rightarrow> 's meter \<Rightarrow> 's meter" where
  "set_in_member b m = m\<lparr>mt_counters := (mt_counters m)\<lparr>oc_in_member := b\<rparr>\<rparr>"

definition member_stream_read :: "('s meter \<Rightarrow> 'r \<times> 's meter) \<Rightarrow> 's meter \<Rightarrow> 'r \<times> 's meter" where
  "member_stream_read entry_read m =
     (case entry_read (set_in_member True m) of (result, m') \<Rightarrow> (result, set_in_member False m'))"

end
