(* ===== verification/Tar_Framing_Correct.thy ===== *)
theory Tar_Framing_Correct
  imports Tar_Framing Zstd_Window_Correct
begin

text \<open>
  What the meter and the framing do: the scans always end, neither counter ever passes its limit, and
  the byte-by-byte pax scanner finds what a reader of whole records finds.
\<close>

section \<open>The scans end\<close>

fun framing_ok :: "framing_state \<Rightarrow> bytes \<Rightarrow> bool" where
  "framing_ok (FS_Skip remaining) have_bytes \<longleftrightarrow> remaining \<noteq> 0 \<and> length have_bytes < TAR_BLOCK_SIZE"
| "framing_ok _ have_bytes \<longleftrightarrow> length have_bytes < TAR_BLOCK_SIZE"

abbreviation framing_inv :: "framing \<Rightarrow> bool" where
  "framing_inv f \<equiv> framing_ok (fr_state f) (fr_have f)"

lemma framing_ok_length: "framing_ok st have_bytes \<Longrightarrow> length have_bytes < TAR_BLOCK_SIZE"
  by (cases st) simp_all

lemma framing_new_ok [simp]: "framing_inv framing_new"
  by (simp add: framing_new_def TAR_BLOCK_SIZE_def)

lemma state_skip_ok: "have_bytes = [] \<Longrightarrow> framing_ok (state_skip n) have_bytes"
  by (simp add: state_skip_def TAR_BLOCK_SIZE_def)

lemma after_header_ok: "framing_ok (after_header th block room) []"
  by (simp add: after_header_def Let_def state_skip_ok TAR_BLOCK_SIZE_def split: option.splits entry_type.splits)

lemma extension_feed_used: "fst (extension_feed input s) = chunk_len (length input) (es_remaining s)"
  by (simp add: extension_feed_def Let_def)

lemma framing_step_ok:
  assumes "framing_inv f" "input \<noteq> []"
  shows "0 < fst (framing_step th input room f)" "fst (framing_step th input room f) \<le> length input"
    "framing_inv (snd (framing_step th input room f))"
proof -
  have len: "length (fr_have f) < TAR_BLOCK_SIZE" by (rule framing_ok_length [OF assms(1)])
  have "0 < fst (framing_step th input room f) \<and> fst (framing_step th input room f) \<le> length input \<and>
    framing_inv (snd (framing_step th input room f))"
  proof (cases "fr_state f")
    case FS_Header
    with assms len show ?thesis
      by (auto simp: framing_step_def Let_def after_header_ok min_def)
  next
    case (FS_Skip remaining)
    with assms len show ?thesis
      by (auto simp: framing_step_def Let_def chunk_len_def unat_gt_0)
  next
    case (FS_Extension scan)
    with assms len show ?thesis
      using chunk_len_le(1) [of "length input" "es_remaining scan"]
      by (auto simp: framing_step_def Let_def extension_feed_used split: prod.splits
          dest: arg_cong [where f = fst])
  next
    case FS_Untracked
    with assms len show ?thesis by (simp add: framing_step_def)
  qed
  then show "0 < fst (framing_step th input room f)" "fst (framing_step th input room f) \<le> length input"
    "framing_inv (snd (framing_step th input room f))" by simp_all
qed

lemma advance_total: "framing_inv f \<Longrightarrow> \<exists>f'. framing_advance th input room f = Some f' \<and> framing_inv f'"
proof (induction input arbitrary: room f rule: length_induct)
  case (1 input)
  show ?case
  proof (cases "input = []")
    case True
    with 1(2) show ?thesis by (simp add: framing_advance.simps)
  next
    case False
    obtain used f1 where st: "framing_step th input room f = (used, f1)" by force
    with framing_step_ok [OF 1(2) False, of th room] have "0 < used" "used \<le> length input" "framing_inv f1" by simp_all
    moreover from this have "length (drop used input) < length input" using False by simp
    ultimately obtain f' where "framing_advance th (drop used input) (saturating_sub room (widen used)) f1 = Some f'"
      "framing_inv f'" using 1(1) by blast
    with st False show ?thesis by (simp add: framing_advance.simps [of th input])
  qed
qed

text \<open>The contract of a reader: never more than was asked for.\<close>

definition reader_ok :: "('s, 'f) reader \<Rightarrow> bool" where
  "reader_ok rd \<longleftrightarrow> (\<forall>n s bs s'. rd n s = (Inr bs, s') \<longrightarrow> length bs \<le> n)"

section \<open>The meter\<close>

definition meter_ok :: "'s meter \<Rightarrow> bool" where
  "meter_ok m \<longleftrightarrow>
     framing_inv (mt_framing m) \<and>
     oc_member_bytes (mt_counters m) \<le> oc_member_limit (mt_counters m) \<and>
     oc_framing_bytes (mt_counters m) \<le> oc_framing_limit (mt_counters m)"

definition limits_of :: "'s meter \<Rightarrow> u64 \<times> u64" where
  "limits_of m = (oc_member_limit (mt_counters m), oc_framing_limit (mt_counters m))"

lemma charge_exact:
  assumes "n \<le> unat (saturating_sub limit counter)" "counter \<le> limit"
  shows "unat (saturating_add counter (widen n)) = unat counter + n" "unat counter + n \<le> unat limit"
proof -
  have w: "unat (widen n) = n" using assms(1) by (intro unat_widen below_u64)
  moreover have "unat counter \<le> unat limit" using assms(2) by (simp add: word_le_nat_alt)
  moreover have "unat (saturating_sub limit counter) = unat limit - unat counter" by simp
  ultimately show le: "unat counter + n \<le> unat limit" using assms(1) by linarith
  then have "unat counter + n < 2 ^ 64" by (rule below_u64)
  then show "unat (saturating_add counter (widen n)) = unat counter + n"
    using w by (simp add: saturating_add_def unat_word_ariths)
qed

lemma charge_within:
  "n \<le> unat (saturating_sub limit counter) \<Longrightarrow> counter \<le> limit \<Longrightarrow> saturating_add counter (widen n) \<le> limit"
  using charge_exact by (simp add: word_le_nat_alt)

lemma feed_remaining:
  "fr_state f = FS_Extension scan \<Longrightarrow>
     \<exists>scan'. fr_state (framing_feed input f) = FS_Extension scan' \<and>
       es_remaining scan' = saturating_sub (es_remaining scan) (widen (chunk_len (length input) (es_remaining scan))) \<and>
       fr_have (framing_feed input f) = fr_have f"
  by (auto simp: framing_feed_def extension_feed_def Let_def split: extension_kind.splits prod.splits)

lemma refuse_total:
  assumes "reader_ok rd"
  shows "meter_ok m \<Longrightarrow> \<exists>e m'. refuse_extension rd m = Some (e, m') \<and> meter_ok m' \<and> limits_of m' = limits_of m"
proof (induction "case fr_state (mt_framing m) of FS_Extension scan \<Rightarrow> unat (es_remaining scan) | _ \<Rightarrow> 0"
    arbitrary: m rule: less_induct)
  case less
  let ?wanted = "min (framing_wanted (mt_framing m)) (framing_room (mt_counters m))"
  let ?want = "chunk_len (min SCAN_CHUNK (mt_copy_buffer m)) ?wanted"
  have conclude_ok: "framing_inv (snd (framing_conclude l f :: 'b io_fault \<times> framing))" if "framing_inv f" for l f
    using framing_ok_length [OF that] by (simp add: framing_conclude_def)
  let ?finish = "\<lambda>m. case framing_conclude (oc_framing_limit (mt_counters m)) (mt_framing m) of
             (e, framing) \<Rightarrow> (e :: 'b io_fault, m\<lparr>mt_framing := framing\<rparr>)"
  have finish: "\<exists>e m'. Some (?finish m0) = Some (e, m') \<and> meter_ok m' \<and> limits_of m' = limits_of m"
    if "meter_ok m0" "limits_of m0 = limits_of m" for m0 :: "'a meter"
    using that conclude_ok [of "mt_framing m0" "oc_framing_limit (mt_counters m0)"]
    by (auto simp: meter_ok_def limits_of_def split: prod.splits)
  show ?case
  proof (cases "?want = 0")
    case True
    with finish [OF less.prems] show ?thesis by (subst refuse_extension.simps) (simp add: Let_def)
  next
    case False
    obtain r s where rd: "rd ?want (mt_inner m) = (r, s)" by force
    show ?thesis
    proof (cases r)
      case (Inl e)
      with rd False less.prems show ?thesis
        by (subst refuse_extension.simps) (simp add: Let_def meter_ok_def limits_of_def)
    next
      case (Inr window)
      show ?thesis
      proof (cases "window = []")
        case True
        have "meter_ok (m\<lparr>mt_inner := s\<rparr>)" "limits_of (m\<lparr>mt_inner := s\<rparr>) = limits_of m"
          using less.prems by (simp_all add: meter_ok_def limits_of_def)
        from finish [OF this] True Inr rd False show ?thesis
          by (subst refuse_extension.simps) (simp add: Let_def)
      next
        case nonempty: False
        let ?m = "m\<lparr>mt_inner := s,
                  mt_counters := charge False (widen (length window)) (mt_counters m),
                  mt_framing := framing_feed window (mt_framing m)\<rparr>"
        have n: "length window \<le> ?want" using assms rd Inr by (auto simp: reader_ok_def)
        then have nw: "length window \<le> unat ?wanted"
          using chunk_len_le(2) le_trans by blast
        from False have "framing_wanted (mt_framing m) \<noteq> 0" by (auto simp: chunk_len_def)
        then obtain scan where scan: "fr_state (mt_framing m) = FS_Extension scan"
          "framing_wanted (mt_framing m) = es_remaining scan"
          by (auto simp: framing_wanted_def split: framing_state.splits if_splits)
        from nw have nr: "length window \<le> unat (es_remaining scan)"
          "length window \<le> unat (framing_room (mt_counters m))"
          using scan(2) by (simp_all add: min_def word_le_nat_alt split: if_splits)
        then have cl: "chunk_len (length window) (es_remaining scan) = length window" by (simp add: chunk_len_def)
        have uw: "unat (widen (length window)) = length window" by (rule unat_widen [OF below_u64 [OF nr(1)]])
        from feed_remaining [OF scan(1), of window] cl obtain scan' where
          fed: "fr_state (framing_feed window (mt_framing m)) = FS_Extension scan'"
          "es_remaining scan' = saturating_sub (es_remaining scan) (widen (length window))"
          "fr_have (framing_feed window (mt_framing m)) = fr_have (mt_framing m)" by auto
        have "meter_ok ?m"
          using less.prems fed scan(1) charge_within [OF nr(2) [unfolded framing_room_def]]
          by (simp add: meter_ok_def charge_def)
        moreover have "unat (es_remaining scan') < unat (es_remaining scan)"
        proof -
          have "0 < length window" using nonempty by simp
          with nr(1) show ?thesis using fed(2) uw by (simp del: length_greater_0_conv)
        qed
        ultimately obtain e m' where "refuse_extension rd ?m = Some (e, m')" "meter_ok m'" "limits_of m' = limits_of ?m"
          using less.hyps [of ?m] fed(1) scan(1) by auto
        with Inr rd False nonempty show ?thesis
          by (subst refuse_extension.simps) (simp add: Let_def limits_of_def charge_def)
      qed
    qed
  qed
qed

text \<open>The counter a read is charged to, and its limit.\<close>

definition charged :: "'s meter \<Rightarrow> u64" where
  "charged m = (let c = mt_counters m in if oc_in_member c then oc_member_bytes c else oc_framing_bytes c)"

definition charged_limit :: "'s meter \<Rightarrow> u64" where
  "charged_limit m = (let c = mt_counters m in if oc_in_member c then oc_member_limit c else oc_framing_limit c)"

definition allowance :: "'s meter \<Rightarrow> u64" where
  "allowance m = saturating_sub (charged_limit m) (charged m)"

definition read_outcome ::
  "tar_header \<Rightarrow> 's meter \<Rightarrow> ('f + bytes) \<times> 's \<Rightarrow> (('f io_fault + bytes) \<times> 's meter) option" where
  "read_outcome th m rs =
     (case rs of
        (Inl e, s) \<Rightarrow> Some (Inl (IO_Inner e), m\<lparr>mt_inner := s\<rparr>)
      | (Inr window, s) \<Rightarrow>
          (if allowance m < widen (length window) then
             Some (Inl (if oc_in_member (mt_counters m)
                        then IO_OuterLimit LR_OuterUncompressedTotal (oc_member_limit (mt_counters m))
                        else IO_FramingExceeded (oc_framing_limit (mt_counters m))), m\<lparr>mt_inner := s\<rparr>)
           else
             map_option (\<lambda>framing.
               (Inr window, m\<lparr>mt_inner := s,
                  mt_counters := charge (oc_in_member (mt_counters m)) (widen (length window)) (mt_counters m),
                  mt_framing := framing\<rparr>))
               (framing_advance th window (framing_room (mt_counters m)) (mt_framing m))))"

lemma meter_read_eq:
  assumes "\<not> framing_scanning (mt_framing m)"
  shows "meter_read th rd n m =
    read_outcome th m (rd (chunk_len (min n (mt_copy_buffer m)) (saturating_add (allowance m) 1)) (mt_inner m))"
  unfolding meter_read_def Let_def allowance_def charged_def charged_limit_def read_outcome_def
  by (cases "oc_in_member (mt_counters m)"; simp add: assms cong: sum.case_cong prod.case_cong if_cong)

text \<open>What was read fits the allowance, unless the read is refused.\<close>

lemma read_fits:
  assumes "reader_ok rd" "\<not> allowance m < widen (length window)"
    "rd (chunk_len k (saturating_add (allowance m) 1)) s = (Inr window, s')"
  shows "length window \<le> unat (allowance m)"
proof -
  have "length window \<le> unat (saturating_add (allowance m) 1)"
    using assms(1,3) chunk_len_le(2) le_trans unfolding reader_ok_def by blast
  then have "unat (widen (length window)) = length window" by (rule unat_widen [OF below_u64])
  with assms(2) show ?thesis by (simp add: word_less_nat_alt)
qed

lemma charged_le: "meter_ok m \<Longrightarrow> charged m \<le> charged_limit m"
  by (simp add: charged_def charged_limit_def meter_ok_def Let_def)

lemma charge_ok:
  assumes "meter_ok m" "length window \<le> unat (allowance m)" "framing_inv framing"
  shows "meter_ok (m\<lparr>mt_inner := s,
    mt_counters := charge (oc_in_member (mt_counters m)) (widen (length window)) (mt_counters m),
    mt_framing := framing\<rparr>)"
  using charge_within [OF assms(2) [unfolded allowance_def] charged_le [OF assms(1)]] assms(1,3)
  by (simp add: meter_ok_def charge_def charged_def charged_limit_def Let_def split: if_splits)

lemma meter_read_ok:
  assumes "reader_ok rd" "meter_ok m"
  shows "\<exists>r m'. meter_read th rd n m = Some (r, m') \<and> meter_ok m' \<and> limits_of m' = limits_of m"
proof (cases "framing_scanning (mt_framing m)")
  case True
  with refuse_total [OF assms] show ?thesis by (auto simp: meter_read_def Let_def)
next
  case False
  let ?want = "chunk_len (min n (mt_copy_buffer m)) (saturating_add (allowance m) 1)"
  obtain r s where rd: "rd ?want (mt_inner m) = (r, s)" by force
  note eq = meter_read_eq [OF False, of th rd n]
  show ?thesis
  proof (cases r)
    case (Inl e)
    with rd eq assms(2) show ?thesis by (simp add: read_outcome_def meter_ok_def limits_of_def)
  next
    case (Inr window)
    show ?thesis
    proof (cases "allowance m < widen (length window)")
      case True
      with rd Inr eq assms(2) show ?thesis by (simp add: read_outcome_def meter_ok_def limits_of_def)
    next
      case fits: False
      from read_fits [OF assms(1) this] rd Inr have le: "length window \<le> unat (allowance m)" by blast
      obtain framing where "framing_advance th window (framing_room (mt_counters m)) (mt_framing m) = Some framing"
        "framing_inv framing" using advance_total assms(2) unfolding meter_ok_def by blast
      with charge_ok [OF assms(2) le] rd Inr eq fits show ?thesis
        by (simp add: read_outcome_def limits_of_def charge_def)
    qed
  qed
qed

section \<open>Decimal numbers\<close>

definition digits_from :: "nat \<Rightarrow> bytes \<Rightarrow> nat" where
  "digits_from n s = foldl (\<lambda>n c. n * 10 + (ord c - 48)) n s"

lemma digits_from_simps [simp]:
  "digits_from n [] = n" "digits_from n (c # s) = digits_from (n * 10 + (ord c - 48)) s"
  by (simp_all add: digits_from_def)

lemma digits_from_le: "n \<le> digits_from n s"
proof (induction s arbitrary: n)
  case (Cons c s)
  have "n \<le> n * 10 + (ord c - 48)" by simp
  also have "\<dots> \<le> digits_from n (c # s)" using Cons by simp
  finally show ?case .
qed simp

definition digit_push :: "byte \<Rightarrow> u64 \<Rightarrow> u64 option" where
  "digit_push b v =
     (if is_ascii_digit b then
        (case checked_mul v 10 of None \<Rightarrow> None | Some w \<Rightarrow> checked_add w (u64_of (ord b - ord CHR ''0'')))
      else None)"

lemma digit_push_Some:
  "digit_push b v = Some w \<longleftrightarrow>
     is_ascii_digit b \<and> unat v * 10 + (ord b - 48) < 2 ^ 64 \<and> unat w = unat v * 10 + (ord b - 48)"
proof -
  have d: "unat (u64_of (ord b - 48)) = ord b - 48" using ord_less [of b] by (simp del: ord_less)
  have "unat (v * 10) = unat v * 10" if "unat v * 10 < 2 ^ 64"
    using that by (simp add: unat_word_ariths)
  with d show ?thesis
    by (auto simp: digit_push_def checked_mul_def checked_add_Some)
qed

lemma push_later:
  "de_len d \<noteq> 0 \<or> b \<noteq> CHR ''+'' \<Longrightarrow> decimal_push b d =
     (case digit_push b (de_value d) of
        Some v \<Rightarrow> if de_invalid d then d\<lparr>de_len := saturating_add (de_len d) 1, de_invalid := True\<rparr>
                 else d\<lparr>de_len := saturating_add (de_len d) 1, de_value := v, de_digits := True\<rparr>
      | None \<Rightarrow> d\<lparr>de_len := saturating_add (de_len d) 1, de_invalid := True\<rparr>)"
  by (auto simp: decimal_push_def digit_push_def Let_def split: option.splits)

lemma saturating_Suc [simp]: "saturating_add w 1 \<noteq> 0"
proof (cases "unat w + 1 < 2 ^ 64")
  case True
  then have "unat (saturating_add w 1) = unat w + 1" by (simp add: saturating_add_def unat_word_ariths)
  then show ?thesis by auto
qed (simp add: saturating_add_def)

lemma fold_push_invalid:
  "de_len d \<noteq> 0 \<Longrightarrow> de_invalid d \<Longrightarrow> decimal_get (fold decimal_push s d) = None"
proof (induction s arbitrary: d)
  case (Cons c s)
  from Cons.prems have "de_len (decimal_push c d) \<noteq> 0" "de_invalid (decimal_push c d)"
    by (simp_all add: push_later split: option.splits)
  from Cons.IH [OF this] show ?case by simp
qed (simp add: decimal_get_def)

lemma fold_push:
  "de_len d \<noteq> 0 \<or> s \<noteq> [] \<and> hd s \<noteq> CHR ''+'' \<Longrightarrow> \<not> de_invalid d \<Longrightarrow>
     decimal_get (fold decimal_push s d) =
       (if list_all is_ascii_digit s \<and> digits_from (unat (de_value d)) s < 2 ^ 64 \<and> (de_digits d \<or> s \<noteq> [])
        then Some (u64_of (digits_from (unat (de_value d)) s)) else None)"
proof (induction s arbitrary: d)
  case Nil
  then show ?case by (simp add: decimal_get_def)
next
  case (Cons c s)
  show ?case
  proof (cases "digit_push c (de_value d)")
    case None
    with Cons.prems have "de_len (decimal_push c d) \<noteq> 0" "de_invalid (decimal_push c d)"
      by (simp_all add: push_later)
    then have none: "decimal_get (fold decimal_push (c # s) d) = None" by (simp add: fold_push_invalid)
    have "\<not> digits_from (unat (de_value d)) (c # s) < 2 ^ 64" if "is_ascii_digit c"
    proof -
      let ?n = "unat (de_value d) * 10 + (ord c - 48)"
      have "\<not> ?n < 2 ^ 64"
      proof
        assume "?n < 2 ^ 64"
        with that digit_push_Some [of c "de_value d" "u64_of ?n"] None show False by simp
      qed
      with digits_from_le [of ?n s] show ?thesis by simp
    qed
    with none show ?thesis by auto
  next
    case (Some v)
    then have v: "is_ascii_digit c" "unat v = unat (de_value d) * 10 + (ord c - 48)"
      by (simp_all add: digit_push_Some)
    from Some Cons.prems have "decimal_push c d = d\<lparr>de_len := saturating_add (de_len d) 1, de_value := v, de_digits := True\<rparr>"
      by (simp add: push_later)
    with Cons.IH [of "decimal_push c d"] Cons.prems v show ?thesis by simp
  qed
qed

lemma decimal_parse: "decimal_get (fold decimal_push s decimal_default) = parse_u64 s"
proof (cases s)
  case Nil
  then show ?thesis by (simp add: decimal_get_def decimal_default_def parse_u64_def)
next
  case (Cons c t)
  show ?thesis
  proof (cases "c = CHR ''+''")
    case True
    then have "decimal_push c decimal_default = decimal_default\<lparr>de_len := saturating_add 0 1\<rparr>"
      by (simp add: decimal_push_def decimal_default_def Let_def)
    with fold_push [of "decimal_push c decimal_default" t] Cons True show ?thesis
      by (auto simp: decimal_default_def parse_u64_def dec_val_def digits_from_def Let_def)
  next
    case False
    with fold_push [of decimal_default s] Cons show ?thesis
      by (simp add: decimal_default_def parse_u64_def dec_val_def digits_from_def Let_def)
  qed
qed


section \<open>Reading a pax header whole\<close>

text \<open>
  The reference: the header cut into lines, each line parsed as a record at once. A record gives its
  own length, newline included, before its key. The first path record is the one that counts, and the
  first size record unless a malformed line comes before it; an empty line ends the header.
\<close>

definition pax_record :: "bytes \<Rightarrow> (bytes \<times> bytes) option" where
  "pax_record line =
     (case split_once CHR '' '' line of
        None \<Rightarrow> None
      | Some (len, rest) \<Rightarrow>
          (case split_once CHR ''='' rest of
             None \<Rightarrow> None
           | Some kv \<Rightarrow>
               (case parse_u64 len of
                  None \<Rightarrow> None
                | Some n \<Rightarrow> if unat n = length line + 1 then Some kv else None)))"

type_synonym pax_found = "bytes option \<times> size_lookup"

fun pax_line :: "bytes \<Rightarrow> pax_found \<Rightarrow> pax_found" where
  "pax_line line (path, sz) =
     (case pax_record line of
        None \<Rightarrow> (path, if sz = SL_Open then SL_Closed else sz)
      | Some (key, v) \<Rightarrow>
          if key = PAX_PATH then (if path = None then Some v else path, sz)
          else if key = PAX_SIZE \<and> sz = SL_Open then
            (path, case parse_u64 v of None \<Rightarrow> SL_Closed | Some n \<Rightarrow> SL_Found n)
          else (path, sz))"

fun pax_lines :: "bytes list \<Rightarrow> pax_found \<Rightarrow> pax_found" where
  "pax_lines [] found = found"
| "pax_lines (line # rest) found = (if line = [] then found else pax_lines rest (pax_line line found))"

definition pax_lookup :: "bytes \<Rightarrow> pax_found" where
  "pax_lookup body = pax_lines (split CHR 0x0A body) (None, SL_Open)"

text \<open>The name as it is reported: its first bytes, and whether there were more.\<close>

definition reported :: "bytes \<Rightarrow> name_prefix" where
  "reported v = \<lparr>np_bytes = take REPORTED_NAME_MAX v, np_truncated = (REPORTED_NAME_MAX < length v)\<rparr>"

lemma name_push_reported: "name_push b (reported v) = reported (v @ [b])"
  by (auto simp: name_push_def reported_def REPORTED_NAME_MAX_def min_def)

lemma fold_name_push: "fold name_push w (reported v) = reported (v @ w)"
  by (induction w arbitrary: v) (simp_all add: name_push_reported)

lemma reported_Nil: "reported [] = name_prefix_default" "name_clear n = reported []"
  by (simp_all add: reported_def name_prefix_default_def name_clear_def)

subsection \<open>Inside a line\<close>

definition line_start :: "path_lookup \<Rightarrow> size_lookup \<Rightarrow> pax_scan" where
  "line_start path sz = pax_default\<lparr>px_path := path, px_size := sz\<rparr>"

text \<open>The scanner inside a line, as a function of the part of the line read so far.\<close>

definition key_of :: "bytes \<Rightarrow> pax_key" where
  "key_of key = (if key = PAX_PATH then PK_Path else if key = PAX_SIZE then PK_Size else PK_Other)"

definition in_line :: "path_lookup \<Rightarrow> size_lookup \<Rightarrow> name_prefix \<Rightarrow> bytes \<Rightarrow> pax_scan \<times> name_prefix" where
  "in_line path sz name line =
     (let p = (line_start path sz)\<lparr>px_line_len := u64_of (length line)\<rparr> in
      case split_once CHR '' '' line of
        None \<Rightarrow> (p\<lparr>px_length := fold decimal_push line decimal_default\<rparr>, name)
      | Some (len, rest) \<Rightarrow>
          (let p = p\<lparr>px_length := fold decimal_push len decimal_default\<rparr> in
           if parse_u64 len = None then (p\<lparr>px_part := PP_Malformed\<rparr>, name)
           else case split_once CHR ''='' rest of
             None \<Rightarrow> (p\<lparr>px_part := PP_Key, px_key := take PAX_KEY_MAX rest,
                         px_key_overlong := (PAX_KEY_MAX < length rest)\<rparr>, name)
           | Some (key, v) \<Rightarrow>
               (let candidate = (key_of key = PK_Path \<and> path = PL_Open) in
                (p\<lparr>px_part := PP_Value, px_key := take PAX_KEY_MAX key,
                   px_key_overlong := (PAX_KEY_MAX < length key), px_value_key := key_of key,
                   px_path := (if candidate then PL_Candidate else path),
                   px_size_value := (if key_of key = PK_Size then fold decimal_push v decimal_default
                                     else decimal_default)\<rparr>,
                 if candidate then reported v else name))))"

lemma split_once_snoc:
  "split_once d (s @ [c]) =
     (case split_once d s of
        Some (a, b) \<Rightarrow> Some (a, b @ [c])
      | None \<Rightarrow> if c = d then Some (s, []) else None)"
  by (induction s) (auto split: option.splits)

lemma in_line_Nil: "in_line path sz name [] = (line_start path sz, name)"
  by (simp add: in_line_def line_start_def pax_default_def u64_of_def)

lemma key_stored:
  "(if PAX_KEY_MAX < length key then PK_Other
    else if take PAX_KEY_MAX key = PAX_PATH then PK_Path
    else if take PAX_KEY_MAX key = PAX_SIZE then PK_Size else PK_Other) = key_of key"
  by (auto simp: key_of_def PAX_PATH_def PAX_SIZE_def PAX_KEY_MAX_def)

lemma pax_byte_in_line:
  assumes "path \<noteq> PL_Candidate" "Suc (length line) < 2 ^ 64" "b \<noteq> CHR 0x0A"
  shows "pax_byte b (in_line path sz name line) = in_line path sz name (line @ [b])"
proof -
  have len: "checked_add (u64_of (length line)) 1 = Some (u64_of (Suc (length line)))"
    using assms(2) by (simp add: checked_add_Some)
  show ?thesis
  proof (cases "split_once CHR '' '' line")
    case None
    then show ?thesis using assms(1,3) len
      by (auto simp: in_line_def pax_byte_def Let_def line_start_def pax_default_def split_once_snoc decimal_parse)
  next
    case (Some lr)
    then obtain l r where lr: "split_once CHR '' '' line = Some (l, r)" by (cases lr) auto
    show ?thesis
    proof (cases "parse_u64 l = None")
      case True
      with lr assms(1,3) len show ?thesis
        by (simp add: in_line_def pax_byte_def Let_def line_start_def pax_default_def split_once_snoc)
    next
      case valid: False
      show ?thesis
      proof (cases "split_once CHR ''='' r")
        case None
        with lr valid assms(1,3) len key_stored [of r] show ?thesis
          by (auto simp: in_line_def pax_byte_def Let_def line_start_def pax_default_def split_once_snoc
              reported_Nil PAX_KEY_MAX_def)
      next
        case (Some kv)
        then obtain k v where kv: "split_once CHR ''='' r = Some (k, v)" by (cases kv) auto
        with lr valid assms(1,3) len show ?thesis
          by (auto simp: in_line_def pax_byte_def Let_def line_start_def pax_default_def split_once_snoc
              name_push_reported)
      qed
    qed
  qed
qed


lemma fold_in_line:
  "path \<noteq> PL_Candidate \<Longrightarrow> length line + length w < 2 ^ 64 \<Longrightarrow> CHR 0x0A \<notin> set w \<Longrightarrow>
     fold pax_byte w (in_line path sz name line) = in_line path sz name (line @ w)"
  by (induction w arbitrary: line) (auto simp: pax_byte_in_line)

subsection \<open>Lines\<close>

definition path_of :: "bytes option \<Rightarrow> path_lookup" where
  "path_of found = (if found = None then PL_Open else PL_Found)"

definition name_of :: "bytes option \<Rightarrow> name_prefix" where
  "name_of found = reported (case found of None \<Rightarrow> [] | Some v \<Rightarrow> v)"

lemma path_of_simps [simp]:
  "path_of found \<noteq> PL_Candidate" "path_of None = PL_Open" "path_of (Some v) = PL_Found"
  "path_of found = PL_Found \<longleftrightarrow> found \<noteq> None"
  by (auto simp: path_of_def)

lemma name_of_simps [simp]: "name_of None = reported []" "name_of (Some v) = reported v"
  by (simp_all add: name_of_def)

abbreviation scanner :: "pax_found \<Rightarrow> pax_scan \<times> name_prefix" where
  "scanner found \<equiv> (line_start (path_of (fst found)) (snd found), name_of (fst found))"

lemma in_line_len:
  "px_line_len (fst (in_line path sz name line)) = u64_of (length line)"
  "px_ended (fst (in_line path sz name line)) = False"
  by (simp_all add: in_line_def Let_def line_start_def pax_default_def split: option.splits prod.splits)

lemma size_of_in_line: "px_size (fst (in_line path sz name line)) = sz"
  by (simp add: in_line_def Let_def line_start_def pax_default_def split: option.splits prod.splits)

lemma end_of_line:
  assumes "line \<noteq> []" "length line < 2 ^ 64"
  shows "pax_end_line (in_line (path_of found) sz (name_of found) line) = scanner (pax_line line (found, sz))"
proof -
  have nz: "u64_of (length line) \<noteq> 0"
    using assms by (metis length_0_conv unat_u64_of unsigned_0)
  have seen: "(case checked_add (u64_of (length line)) 1 of None \<Rightarrow> False | Some seen \<Rightarrow> Some n = Some seen) \<longleftrightarrow>
      unat n = length line + 1" for n :: u64
  proof (cases "length line + 1 < 2 ^ 64")
    case True
    then have "checked_add (u64_of (length line)) 1 = Some (u64_of (length line + 1))" by (simp add: checked_add_Some)
    with True show ?thesis by (simp add: word_unat_eq_iff)
  next
    case False
    with assms(2) have "checked_add (u64_of (length line)) 1 = None" by (simp add: checked_add_def)
    moreover from False have "unat n \<noteq> length line + 1" using unat_u64_bound [of n] by (metis below_u64 order_refl)
    ultimately show ?thesis by simp
  qed
  show ?thesis
  proof (cases "split_once CHR '' '' line")
    case None
    with nz show ?thesis
      by (auto simp: pax_end_line_def in_line_def line_start_def pax_default_def Let_def pax_record_def
          pax_well_formed_def)
  next
    case (Some lr)
    then obtain l r where lr: "split_once CHR '' '' line = Some (l, r)" by (cases lr) auto
    show ?thesis
    proof (cases "parse_u64 l")
      case None
      with lr nz show ?thesis
        by (auto simp: pax_end_line_def in_line_def line_start_def pax_default_def Let_def pax_record_def
            pax_well_formed_def split: option.splits)
    next
      case valid: (Some n)
      show ?thesis
      proof (cases "split_once CHR ''='' r")
        case None
        with lr valid nz show ?thesis
          by (auto simp: pax_end_line_def in_line_def line_start_def pax_default_def Let_def pax_record_def
              pax_well_formed_def)
      next
        case (Some kv)
        then obtain k v where kv: "split_once CHR ''='' r = Some (k, v)" by (cases kv) auto
        have ne: "PAX_PATH \<noteq> PAX_SIZE" by (simp add: PAX_PATH_def PAX_SIZE_def)
        show ?thesis
        proof (cases "unat n = length line + 1")
          case True
          with seen [of n] lr valid kv nz ne show ?thesis
            by (auto simp: pax_end_line_def in_line_def line_start_def pax_default_def Let_def pax_record_def
              pax_well_formed_def decimal_parse key_of_def path_of_def reported_Nil split: option.splits)
        next
          case False
          with seen [of n] lr valid kv nz ne show ?thesis
            by (auto simp: pax_end_line_def in_line_def line_start_def pax_default_def Let_def pax_record_def
              pax_well_formed_def decimal_parse key_of_def path_of_def reported_Nil split: option.splits)
        qed
      qed
    qed
  qed
qed


lemma fold_ended: "px_ended (fst st) \<Longrightarrow> fold pax_byte body st = st"
  by (induction body) (auto simp: pax_byte_def split: prod.splits)

lemma newline: "pax_byte (CHR 0x0A) st = (if px_ended (fst st) then st else pax_end_line st)"
  by (auto simp: pax_byte_def split: prod.splits)

lemma pax_lines_path: "fst found = Some v \<Longrightarrow> fst (pax_lines ls found) = Some v"
proof (induction ls arbitrary: found)
  case (Cons l ls)
  have "fst (pax_line l found) = Some v" using Cons.prems
    by (cases found) (simp split: option.splits prod.splits)
  with Cons show ?case by simp
qed simp

text \<open>What a finished scan reports.\<close>

definition outcome :: "pax_scan \<times> name_prefix \<Rightarrow> pax_found \<Rightarrow> bool" where
  "outcome st found \<longleftrightarrow>
     (case fst found of
        Some v \<Rightarrow> px_path (fst st) = PL_Found \<and> \<not> px_path_unfinished (fst st) \<and> snd st = reported v
      | None \<Rightarrow> px_path (fst st) \<noteq> PL_Found \<and> px_size (fst st) = snd found)"

lemma outcome_ended:
  "outcome ((line_start (path_of p) sz)\<lparr>px_ended := e\<rparr>, name_of p) (p, sz)"
  by (auto simp: outcome_def line_start_def pax_default_def split: option.splits)

lemma finish_whole:
  "length body < 2 ^ 64 \<Longrightarrow>
     outcome (pax_finish True (fold pax_byte body (scanner found))) (pax_lines (split CHR 0x0A body) found)"
proof (induction "length body" arbitrary: body found rule: less_induct)
  case less
  obtain p sz where found: "found = (p, sz)" by force
  have start: "scanner found = in_line (path_of p) sz (name_of p) []" by (simp add: found in_line_Nil)
  show ?case
  proof (cases "split_once CHR 0x0A body")
    case None
    then have no: "CHR 0x0A \<notin> set body" by (simp add: split_once_None)
    have folded: "fold pax_byte body (scanner found) = in_line (path_of p) sz (name_of p) body"
      using fold_in_line [of "path_of p" "[]" body] no less.prems by (simp add: start)
    show ?thesis
    proof (cases "body = []")
      case True
      have "outcome (pax_finish True (scanner found)) found"
        using outcome_ended [of True p sz] outcome_ended [of False p sz]
        by (auto simp: found pax_finish_def line_start_def pax_default_def split: if_splits)
      with True show ?thesis by simp
    next
      case False
      have pos: "0 < u64_of (length body)"
        using False less.prems by (metis length_0_conv unat_u64_of unsigned_0 word_gt_0)
      note el = end_of_line [OF False less.prems, of p sz]
      obtain st name where il: "in_line (path_of p) sz (name_of p) body = (st, name)" by force
      have lens: "px_line_len st = u64_of (length body)" "\<not> px_ended st" using in_line_len [of "path_of p" sz "name_of p" body] il by simp_all
      obtain p' sz' where pl: "pax_line body (p, sz) = (p', sz')" by force
      show ?thesis
      proof (cases p)
        case (Some v)
        then have "px_path st = PL_Found" "\<not> px_path_unfinished st" "name = reported v"
          using il by (auto simp: in_line_def Let_def line_start_def pax_default_def split: option.splits prod.splits if_splits)
        moreover have "fst (pax_line body found) = Some v" using Some pax_lines_path [of found v "[body]"] False by (simp add: found)
        ultimately show ?thesis using folded il no False by (simp add: pax_finish_def outcome_def split_no_sep)
      next
        case None
        then have "px_path st \<noteq> PL_Found"
          using il by (auto simp: in_line_def Let_def line_start_def pax_default_def split: option.splits prod.splits if_splits)
        with folded il lens pos el pl outcome_ended [of True p' sz'] no False show ?thesis
          by (simp add: pax_finish_def found split_no_sep)
      qed
    qed
  next
    case (Some lr)
    then obtain l rest where "split_once CHR 0x0A body = Some (l, rest)" by (cases lr) auto
    then have body: "body = l @ CHR 0x0A # rest" and no: "CHR 0x0A \<notin> set l" by (simp_all add: split_once_Some)
    have folded: "fold pax_byte l (scanner found) = in_line (path_of p) sz (name_of p) l"
      using fold_in_line [of "path_of p" "[]" l] no less.prems body by (simp add: start)
    show ?thesis
    proof (cases "l = []")
      case True
      have "pax_byte (CHR 0x0A) (scanner found) = ((line_start (path_of p) sz)\<lparr>px_ended := True\<rparr>, name_of p)"
        by (simp add: newline found pax_end_line_def line_start_def pax_default_def)
      with True body outcome_ended [of True p sz] show ?thesis
        by (simp add: fold_ended pax_finish_def split_append [of _ "[]", simplified] found)
    next
      case False
      have "pax_byte (CHR 0x0A) (in_line (path_of p) sz (name_of p) l) = scanner (pax_line l found)"
        using end_of_line [OF False, of p sz] in_line_len(2) [of "path_of p" sz "name_of p" l] less.prems body
        by (simp add: newline found)
      then have "fold pax_byte body (scanner found) = fold pax_byte rest (scanner (pax_line l found))"
        using folded body by simp
      moreover have "outcome (pax_finish True (fold pax_byte rest (scanner (pax_line l found))))
          (pax_lines (split CHR 0x0A rest) (pax_line l found))"
        using less body by simp
      ultimately show ?thesis using body no False by (simp add: split_append)
    qed
  qed
qed


section \<open>Extension records\<close>

lemma feed_pax:
  assumes "es_kind s = EK_Pax" "length chunk \<le> unat (es_remaining s)"
  shows "extension_feed chunk s =
    (length chunk, s\<lparr>es_pax := fst (fold pax_byte chunk (es_pax s, es_name s)),
       es_name := snd (fold pax_byte chunk (es_pax s, es_name s)),
       es_remaining := es_remaining s - widen (length chunk)\<rparr>)"
proof -
  have "unat (widen (length chunk)) = length chunk" using assms(2) by (intro unat_widen below_u64)
  with assms(2) have "saturating_sub (es_remaining s) (widen (length chunk)) = es_remaining s - widen (length chunk)"
    by (simp add: saturating_sub_def)
  with assms show ?thesis by (simp add: extension_feed_def chunk_len_def Let_def split: prod.splits)
qed

fun feed_chunks :: "bytes list \<Rightarrow> extension_scan \<Rightarrow> extension_scan" where
  "feed_chunks [] s = s"
| "feed_chunks (chunk # chunks) s = feed_chunks chunks (snd (extension_feed chunk s))"

lemma feed_chunks_pax:
  "es_kind s = EK_Pax \<Longrightarrow> length (concat chunks) = unat (es_remaining s) \<Longrightarrow>
     feed_chunks chunks s =
       s\<lparr>es_pax := fst (fold pax_byte (concat chunks) (es_pax s, es_name s)),
         es_name := snd (fold pax_byte (concat chunks) (es_pax s, es_name s)), es_remaining := 0\<rparr>"
proof (induction chunks arbitrary: s)
  case Nil
  then have "es_remaining s = 0" by (simp add: unat_eq_0)
  then show ?case by simp
next
  case (Cons chunk chunks)
  then have le: "length chunk \<le> unat (es_remaining s)" by simp
  then have "unat (widen (length chunk)) = length chunk" by (intro unat_widen below_u64)
  with le have "unat (es_remaining s - widen (length chunk)) = unat (es_remaining s) - length chunk"
    by (simp add: unat_sub word_le_nat_alt)
  with Cons feed_pax [OF Cons.prems(1) le] show ?case by simp
qed

definition pax_override :: "bytes \<Rightarrow> u64 \<Rightarrow> bytes \<Rightarrow> oversized_extension option" where
  "pax_override header_name header_size body =
     (case pax_lookup body of
        (Some v, _) \<Rightarrow> Some (OX_Name header_name (name_display (reported v) False))
      | (None, SL_Found n) \<Rightarrow> Some (OX_Size header_name header_size n)
      | _ \<Rightarrow> None)"

text \<open>
  Scanning a pax header byte by byte finds what reading it whole finds. Whatever chunks a pax
  extension arrives in, once all of it was fed the scanner concludes with the override a reader of the
  whole header names: the first well-formed path record, its name cut to the reported length and
  marked when it was longer, otherwise the size record that counts, otherwise nothing.
\<close>

theorem pax_scan_agrees:
  assumes "th_entry_size th block = Some n" "unat n = length (concat chunks)"
  shows "extension_conclude (feed_chunks chunks (extension_scan_new th EK_Pax block)) =
    pax_override (from_utf8_lossy (th_path_bytes th block)) n (concat chunks)"
proof -
  let ?s = "extension_scan_new th EK_Pax block" and ?body = "concat chunks"
  have s: "es_kind ?s = EK_Pax" "unat (es_remaining ?s) = length ?body" "es_pax ?s = pax_default"
    "es_name ?s = reported []" "es_header_size ?s = n" "es_header_name ?s = from_utf8_lossy (th_path_bytes th block)"
    using assms by (simp_all add: extension_scan_new_def Let_def reported_Nil)
  have "line_start PL_Open SL_Open = pax_default" by (simp add: line_start_def pax_default_def)
  moreover have "length ?body < 2 ^ 64" using assms(2) below_u64 [of "length ?body" n] by simp
  ultimately have out: "outcome (pax_finish True (fold pax_byte ?body (pax_default, reported []))) (pax_lookup ?body)"
    using finish_whole [of ?body "(None, SL_Open)"] by (simp add: pax_lookup_def)
  obtain p nm where fin: "pax_finish True (fold pax_byte ?body (pax_default, reported [])) = (p, nm)" by force
  obtain found sz where look: "pax_lookup ?body = (found, sz)" by force
  have "feed_chunks chunks ?s =
      ?s\<lparr>es_pax := fst (fold pax_byte ?body (pax_default, reported [])),
         es_name := snd (fold pax_byte ?body (pax_default, reported [])), es_remaining := 0\<rparr>"
    using feed_chunks_pax [of ?s chunks] s by simp
  with s out fin look show ?thesis
    by (cases found) (auto simp: extension_conclude_def pax_override_def outcome_def Let_def split: size_lookup.splits)
qed

definition sample_header :: tar_header where
  "sample_header = \<lparr>th_entry_size = (\<lambda>_. Some 11), th_recognized = (\<lambda>_. True), th_entry_type = (\<lambda>_. ET_XHeader),
     th_path_bytes = (\<lambda>_. ''x'')\<rparr>"

theorem pax_scan_agrees_witness:
  "extension_conclude (feed_chunks [''11 pa'', ''th=ab'', [CHR 0x0A]] (extension_scan_new sample_header EK_Pax [])) =
     Some (OX_Name ''x'' ''ab'')"
proof -
  let ?c = "[''11 pa'', ''th=ab'', [CHR 0x0A]]"
  have "parse_u64 ''11'' = Some 11" by (simp add: parse_u64_def dec_val_def is_ascii_digit_def u64_of_def)
  then have "pax_lookup (concat ?c) = (Some ''ab'', SL_Open)"
    by (simp add: pax_lookup_def pax_record_def PAX_PATH_def)
  moreover have "from_utf8_lossy ''x'' = ''x''" "from_utf8_lossy ''ab'' = ''ab''"
    by (intro lossy_utf8 is_utf8_ascii; simp)+
  ultimately have "pax_override (from_utf8_lossy (th_path_bytes sample_header [])) 11 (concat ?c) = Some (OX_Name ''x'' ''ab'')"
    by (simp add: pax_override_def name_display_def reported_def REPORTED_NAME_MAX_def sample_header_def)
  with pax_scan_agrees [of sample_header "[]" 11 ?c] show ?thesis by (simp add: sample_header_def)
qed

section \<open>The bounds of a whole run\<close>

text \<open>
  A run of the archive reader: reads inside and between members, up to the first failure, with the
  bytes each delivered.
\<close>

fun meter_run ::
  "tar_header \<Rightarrow> ('s, 'f) reader \<Rightarrow> (bool \<times> nat) list \<Rightarrow> 's meter \<Rightarrow> ((bool \<times> bytes) list \<times> 's meter) option" where
  "meter_run th rd [] m = Some ([], m)"
| "meter_run th rd ((member, n) # ops) m =
     (case meter_read th rd n (set_in_member member m) of
        None \<Rightarrow> None
      | Some (Inl _, m') \<Rightarrow> Some ([], m')
      | Some (Inr window, m') \<Rightarrow>
          map_option (\<lambda>(ws, m''). ((member, window) # ws, m'')) (meter_run th rd ops m'))"

definition delivered :: "bool \<Rightarrow> (bool \<times> bytes) list \<Rightarrow> nat" where
  "delivered member ws = sum_list (map (\<lambda>(b, w). if b = member then length w else 0) ws)"

lemma read_counts:
  assumes "reader_ok rd" "meter_ok m" "meter_read th rd n m = Some (Inr window, m')"
  shows "unat (oc_member_bytes (mt_counters m')) =
      unat (oc_member_bytes (mt_counters m)) + (if oc_in_member (mt_counters m) then length window else 0)"
    "unat (oc_framing_bytes (mt_counters m')) =
      unat (oc_framing_bytes (mt_counters m)) + (if oc_in_member (mt_counters m) then 0 else length window)"
proof -
  have open_scan: "\<not> framing_scanning (mt_framing m)"
    using assms(3) by (auto simp: meter_read_def Let_def)
  let ?want = "chunk_len (min n (mt_copy_buffer m)) (saturating_add (allowance m) 1)"
  obtain r s where rd: "rd ?want (mt_inner m) = (r, s)" by force
  with assms(3) meter_read_eq [OF open_scan, of th rd n] obtain framing where
    r: "r = Inr window" "\<not> allowance m < widen (length window)" and
    m': "m' = m\<lparr>mt_inner := s,
      mt_counters := charge (oc_in_member (mt_counters m)) (widen (length window)) (mt_counters m),
      mt_framing := framing\<rparr>"
    by (cases r) (auto simp: read_outcome_def split: if_splits)
  from read_fits [OF assms(1) r(2)] rd r(1) have "length window \<le> unat (allowance m)" by blast
  from charge_exact(1) [OF this [unfolded allowance_def] charged_le [OF assms(2)]]
  show "unat (oc_member_bytes (mt_counters m')) =
      unat (oc_member_bytes (mt_counters m)) + (if oc_in_member (mt_counters m) then length window else 0)"
    "unat (oc_framing_bytes (mt_counters m')) =
      unat (oc_framing_bytes (mt_counters m)) + (if oc_in_member (mt_counters m) then 0 else length window)"
    by (cases "oc_in_member (mt_counters m)"; simp add: m' charge_def charged_def Let_def)+
qed

lemma set_in_member_ok [simp]:
  "meter_ok (set_in_member b m) = meter_ok m" "limits_of (set_in_member b m) = limits_of m"
  by (simp_all add: set_in_member_def meter_ok_def limits_of_def)

lemma run_within:
  assumes "reader_ok rd"
  shows "meter_ok m \<Longrightarrow> \<exists>ws m'. meter_run th rd ops m = Some (ws, m') \<and>
    unat (oc_member_bytes (mt_counters m)) + delivered True ws \<le> unat (fst (limits_of m)) \<and>
    unat (oc_framing_bytes (mt_counters m)) + delivered False ws \<le> unat (snd (limits_of m))"
proof (induction ops arbitrary: m)
  case Nil
  then show ?case by (simp add: delivered_def meter_ok_def limits_of_def word_le_nat_alt)
next
  case (Cons op ops)
  obtain b n where op: "op = (b, n)" by force
  let ?m = "set_in_member b m"
  have ok: "meter_ok ?m" using Cons.prems by simp
  from meter_read_ok [OF assms ok, of th n] obtain r m1 where
    r: "meter_read th rd n ?m = Some (r, m1)" "meter_ok m1" "limits_of m1 = limits_of m" by auto
  show ?case
  proof (cases r)
    case (Inl e)
    with r op Cons.prems show ?thesis by (simp add: delivered_def meter_ok_def limits_of_def word_le_nat_alt)
  next
    case (Inr window)
    note c = read_counts [OF assms ok r(1) [unfolded Inr]]
    from Cons.IH [OF r(2)] obtain ws m2 where "meter_run th rd ops m1 = Some (ws, m2)"
      "unat (oc_member_bytes (mt_counters m1)) + delivered True ws \<le> unat (fst (limits_of m))"
      "unat (oc_framing_bytes (mt_counters m1)) + delivered False ws \<le> unat (snd (limits_of m))"
      using r(3) by auto
    with c Inr r(1) op show ?thesis by (auto simp: delivered_def set_in_member_def)
  qed
qed

text \<open>
  C19: the bounded reader never hands on more than its limits. Over a decoder that keeps the contract
  of a reader, every sequence of reads ends, the bytes delivered inside members never exceed the
  uncompressed total, and the bytes delivered between them never exceed the framing allowance.
\<close>

theorem metered_run_bounded:
  assumes "reader_ok rd"
  shows "\<exists>ws m'. meter_run th rd ops (meter_new inner limits) = Some (ws, m') \<and>
    delivered True ws \<le> unat (ol_uncompressed_total limits) \<and>
    delivered False ws \<le> unat (framing_allowance (ol_members limits))"
proof -
  have "meter_ok (meter_new inner limits)"
    by (simp add: meter_ok_def meter_new_def counters_new_def)
  from run_within [OF assms this, of th ops] show ?thesis
    by (auto simp: meter_new_def counters_new_def limits_of_def)
qed

definition list_reader :: "(bytes, unit) reader" where
  "list_reader n s = (Inr (take n s), drop n s)"

theorem metered_run_bounded_witness:
  "\<exists>ws m'. meter_run sample_header list_reader [(False, 512), (True, 7), (True, 9)]
       (meter_new (replicate 600 CHR ''a'') \<lparr>ol_members = 1, ol_uncompressed_total = 10, ol_zstd_window = 1024,
          ol_copy_buffer = 64\<rparr>) = Some (ws, m') \<and> delivered True ws \<le> 10"
proof -
  have "reader_ok list_reader" by (simp add: reader_ok_def list_reader_def)
  from metered_run_bounded [OF this, of sample_header "[(False, 512), (True, 7), (True, 9)]" "replicate 600 CHR ''a''"
      "\<lparr>ol_members = 1, ol_uncompressed_total = 10, ol_zstd_window = 1024, ol_copy_buffer = 64\<rparr>"]
  show ?thesis by auto
qed

end
