(* ===== verification/Byte_Search.thy ===== *)
theory Byte_Search
  imports Rust_Text
begin

text \<open>
  Searching for a needle in a byte string, as \<open>src/executor/bounded.rs\<close> and its siblings do with
  windows: first and last occurrence, and the longest suffix that may still grow into the needle.
  Further \<open>str::trim\<close> and \<open>i32::from_str\<close>.
\<close>

section \<open>Occurrences\<close>

text \<open>\<open>windows(needle.len()).position(...)\<close>; a needle here is never empty.\<close>

fun find_sub :: "bytes \<Rightarrow> bytes \<Rightarrow> nat option" where
  "find_sub [] needle = (if needle = [] then Some 0 else None)"
| "find_sub (c # cs) needle =
     (if starts_with needle (c # cs) then Some 0 else map_option Suc (find_sub cs needle))"

text \<open>\<open>windows(needle.len()).rposition(...)\<close>.\<close>

fun rfind_sub :: "bytes \<Rightarrow> bytes \<Rightarrow> nat option" where
  "rfind_sub [] needle = (if needle = [] then Some 0 else None)"
| "rfind_sub (c # cs) needle =
     (case rfind_sub cs needle of
        Some i \<Rightarrow> Some (Suc i)
      | None \<Rightarrow> if starts_with needle (c # cs) then Some 0 else None)"

definition contains_sub :: "bytes \<Rightarrow> bytes \<Rightarrow> bool" where
  "contains_sub hay needle \<longleftrightarrow> find_sub hay needle \<noteq> None"

text \<open>The longest proper prefix of the needle that the bytes end with.\<close>

fun longest_suffix :: "bytes \<Rightarrow> bytes \<Rightarrow> nat \<Rightarrow> nat" where
  "longest_suffix bs marker 0 = 0"
| "longest_suffix bs marker (Suc n) =
     (if drop (length bs - Suc n) bs = take (Suc n) marker then Suc n else longest_suffix bs marker n)"

definition partial_suffix :: "bytes \<Rightarrow> bytes \<Rightarrow> nat" where
  "partial_suffix bs marker = longest_suffix bs marker (min (length bs) (length marker - 1))"

lemma starts_with_iff: "starts_with p s \<longleftrightarrow> (\<exists>r. s = p @ r)"
  by (auto simp: starts_with_def strip_prefix_Some not_None_eq)

lemma starts_with_take: "starts_with p s \<longleftrightarrow> take (length p) s = p"
  unfolding starts_with_iff by (metis append_eq_conv_conj append_take_drop_id)

lemma find_sub_SomeD: "find_sub hay needle = Some i \<Longrightarrow> \<exists>b. hay = take i hay @ needle @ b \<and> i \<le> length hay"
proof (induction hay arbitrary: i)
  case (Cons c cs)
  show ?case
  proof (cases "starts_with needle (c # cs)")
    case True
    with Cons.prems show ?thesis by (auto simp: starts_with_iff)
  next
    case False
    with Cons.prems obtain j where "i = Suc j" "find_sub cs needle = Some j" by auto
    with Cons.IH show ?thesis by auto
  qed
qed (auto split: if_splits)

lemma find_sub_minimal: "find_sub hay needle = Some i \<Longrightarrow> j < i \<Longrightarrow> \<not> starts_with needle (drop j hay)"
proof (induction hay arbitrary: i j)
  case (Cons c cs)
  then show ?case by (cases j) (auto split: if_splits)
qed (auto split: if_splits)

lemma find_sub_None: "find_sub hay needle = None \<longleftrightarrow> (\<forall>j. j \<le> length hay \<longrightarrow> \<not> starts_with needle (drop j hay))"
proof (induction hay)
  case Nil
  then show ?case by (auto simp: starts_with_iff)
next
  case (Cons c cs)
  have "(\<forall>j \<le> length (c # cs). \<not> starts_with needle (drop j (c # cs))) \<longleftrightarrow>
      \<not> starts_with needle (c # cs) \<and> (\<forall>j \<le> length cs. \<not> starts_with needle (drop j cs))"
  proof
    assume all: "\<forall>j \<le> length (c # cs). \<not> starts_with needle (drop j (c # cs))"
    from spec [OF all, of 0] have "\<not> starts_with needle (c # cs)" by simp
    moreover have "\<not> starts_with needle (drop j cs)" if "j \<le> length cs" for j
      using spec [OF all, of "Suc j"] that by simp
    ultimately show "\<not> starts_with needle (c # cs) \<and> (\<forall>j \<le> length cs. \<not> starts_with needle (drop j cs))" by simp
  next
    assume h: "\<not> starts_with needle (c # cs) \<and> (\<forall>j \<le> length cs. \<not> starts_with needle (drop j cs))"
    show "\<forall>j \<le> length (c # cs). \<not> starts_with needle (drop j (c # cs))"
    proof (intro allI impI)
      fix j assume "j \<le> length (c # cs)"
      with h show "\<not> starts_with needle (drop j (c # cs))" by (cases j) auto
    qed
  qed
  with Cons show ?case by auto
qed

lemma find_sub_Some:
  "find_sub hay needle = Some i \<longleftrightarrow>
     i \<le> length hay \<and> starts_with needle (drop i hay) \<and> (\<forall>j < i. \<not> starts_with needle (drop j hay))"
proof
  assume f: "find_sub hay needle = Some i"
  from find_sub_SomeD [OF f] obtain b where "hay = take i hay @ needle @ b" "i \<le> length hay" by blast
  then have "drop i hay = needle @ b" by (metis append_take_drop_id same_append_eq)
  with \<open>i \<le> length hay\<close> find_sub_minimal [OF f]
  show "i \<le> length hay \<and> starts_with needle (drop i hay) \<and> (\<forall>j < i. \<not> starts_with needle (drop j hay))"
    by (auto simp: starts_with_iff)
next
  assume r: "i \<le> length hay \<and> starts_with needle (drop i hay) \<and> (\<forall>j < i. \<not> starts_with needle (drop j hay))"
  then obtain k where k: "find_sub hay needle = Some k"
    by (metis find_sub_None not_None_eq)
  with find_sub_SomeD [OF k] have "starts_with needle (drop k hay)"
    by (metis append_take_drop_id same_append_eq starts_with_iff)
  with r find_sub_minimal [OF k] k show "find_sub hay needle = Some i"
    by (metis linorder_neqE_nat)
qed

lemma contains_sub_iff: "contains_sub hay needle \<longleftrightarrow> (\<exists>a b. hay = a @ needle @ b)"
proof
  assume "contains_sub hay needle"
  then obtain i where "find_sub hay needle = Some i" by (auto simp: contains_sub_def)
  from find_sub_SomeD [OF this] show "\<exists>a b. hay = a @ needle @ b" by blast
next
  assume "\<exists>a b. hay = a @ needle @ b"
  then obtain a b where "hay = a @ needle @ b" by blast
  then have "starts_with needle (drop (length a) hay)" "length a \<le> length hay" by (auto simp: starts_with_iff)
  then show "contains_sub hay needle" unfolding contains_sub_def using find_sub_None by blast
qed

text \<open>A needle that lacks a byte does not reach over that byte.\<close>

lemma contains_sub_split:
  assumes "c \<notin> set needle"
  shows "contains_sub (a @ c # b) needle \<longleftrightarrow> contains_sub a needle \<or> contains_sub b needle"
proof
  assume "contains_sub (a @ c # b) needle"
  then obtain x y where e: "a @ c # b = x @ needle @ y" by (auto simp: contains_sub_iff)
  show "contains_sub a needle \<or> contains_sub b needle"
  proof (cases "length x + length needle \<le> length a")
    case True
    then have "a = x @ needle @ take (length a - length (x @ needle)) y"
      using arg_cong [OF e, of "take (length a)"] by simp
    then show ?thesis unfolding contains_sub_iff by blast
  next
    case False
    then have n: "length a < length x + length needle" by simp
    show ?thesis
    proof (cases "length x \<le> length a")
      case True
      have "(x @ needle @ y) ! length a = c" using e by (metis nth_append_length)
      moreover have m: "length a - length x < length needle" using n True by linarith
      ultimately have "needle ! (length a - length x) = c" using True by (simp add: nth_append)
      then have "c \<in> set needle" using m by (metis nth_mem)
      with assms show ?thesis by simp
    next
      case False
      then have "b = drop (Suc (length a)) x @ needle @ y"
        using arg_cong [OF e, of "drop (Suc (length a))"] by simp
      then show ?thesis unfolding contains_sub_iff by blast
    qed
  qed
next
  assume "contains_sub a needle \<or> contains_sub b needle"
  then show "contains_sub (a @ c # b) needle"
    unfolding contains_sub_iff by (metis append.assoc append_Cons)
qed

lemma contains_sub_Cons: "c \<notin> set needle \<Longrightarrow> needle \<noteq> [] \<Longrightarrow> contains_sub (c # b) needle = contains_sub b needle"
  using contains_sub_split [of c needle "[]" b] by (auto simp: contains_sub_def)

text \<open>The first occurrence, when it is where the needle was put.\<close>

lemma find_sub_at:
  assumes "find_sub (a @ needle) needle = Some (length a)"
  shows "find_sub (a @ needle @ b) needle = Some (length a)"
proof -
  have "\<not> starts_with needle (drop j (a @ needle @ b))" if "j < length a" for j
  proof
    assume "starts_with needle (drop j (a @ needle @ b))"
    then have "take (length needle) (drop j (a @ needle @ b)) = needle" by (simp add: starts_with_take)
    then have "take (length needle) (drop j (a @ needle)) = needle" using that by simp
    then have "starts_with needle (drop j (a @ needle))" by (simp add: starts_with_take)
    with assms that find_sub_minimal show False by blast
  qed
  then show ?thesis unfolding find_sub_Some by (auto simp: starts_with_iff)
qed

text \<open>The first occurrence is first up to where it ends, and however the string goes on.\<close>

lemma find_sub_cut:
  assumes "find_sub xs needle = Some i"
  shows "find_sub (take i xs @ needle) needle = Some i"
proof -
  from find_sub_SomeD [OF assms] obtain b where b: "xs = take i xs @ needle @ b" "i \<le> length xs" by blast
  have "\<not> starts_with needle (drop j (take i xs @ needle))" if "j < i" for j
  proof
    assume "starts_with needle (drop j (take i xs @ needle))"
    then obtain r where "drop j (take i xs @ needle) = needle @ r" by (auto simp: starts_with_iff)
    then have "drop j ((take i xs @ needle) @ b) = needle @ r @ b" using that b(2) by simp
    then have "starts_with needle (drop j xs)" using b(1) by (auto simp: starts_with_iff)
    with find_sub_minimal [OF assms that] show False by contradiction
  qed
  then show ?thesis using b(2) by (auto simp: find_sub_Some starts_with_iff min_def)
qed

lemma find_sub_stays:
  assumes "find_sub xs needle = Some i"
  shows "find_sub (xs @ ys) needle = Some i"
proof -
  from find_sub_SomeD [OF assms] obtain b where b: "xs = take i xs @ needle @ b" "i \<le> length xs" by blast
  with find_sub_cut [OF assms] have "find_sub (take i xs @ needle) needle = Some (length (take i xs))" by simp
  from find_sub_at [OF this, of "b @ ys"] b show ?thesis by (metis append.assoc length_take min.absorb2)
qed

text \<open>Occurrences in a longer string, and the suffix that is still open.\<close>

lemma longest_suffix_bound: "n \<le> length bs \<Longrightarrow> longest_suffix bs marker n \<le> n"
  by (induction n) auto

lemma longest_suffix_least:
  "k \<le> n \<Longrightarrow> drop (length bs - k) bs = take k marker \<Longrightarrow> k \<le> longest_suffix bs marker n"
proof (induction n)
  case (Suc n)
  then show ?case by (cases "k = Suc n") auto
qed simp

lemma partial_suffix_le: "partial_suffix bs marker \<le> length bs"
  unfolding partial_suffix_def using longest_suffix_bound [of "min (length bs) (length marker - 1)" bs marker] by simp

lemma partial_suffix_least:
  "bs = a @ m \<Longrightarrow> marker = m @ z \<Longrightarrow> z \<noteq> [] \<Longrightarrow> length m \<le> partial_suffix bs marker"
  unfolding partial_suffix_def by (rule longest_suffix_least) (cases z; simp)+

lemma longest_suffix_matches:
  "n \<le> length bs \<Longrightarrow> drop (length bs - longest_suffix bs marker n) bs = take (longest_suffix bs marker n) marker"
  by (induction n) auto

lemma partial_suffix_append: "partial_suffix (xs @ ys) marker \<le> partial_suffix xs marker + length ys"
proof (cases "partial_suffix (xs @ ys) marker \<le> length ys")
  case False
  define k where "k = partial_suffix (xs @ ys) marker"
  have k: "k \<le> length xs + length ys" "k \<le> length marker - 1"
    using partial_suffix_le [of "xs @ ys" marker]
      longest_suffix_bound [of "min (length (xs @ ys)) (length marker - 1)" "xs @ ys" marker]
    by (simp_all add: k_def partial_suffix_def)
  have "drop (length xs + length ys - k) (xs @ ys) = take k marker"
    using longest_suffix_matches [of "min (length (xs @ ys)) (length marker - 1)" "xs @ ys" marker]
    by (simp add: k_def partial_suffix_def)
  then have "drop (length xs - (k - length ys)) xs @ ys = take k marker"
    using False k(1) by (simp add: k_def [symmetric])
  then have "take (k - length ys) (drop (length xs - (k - length ys)) xs @ ys) = take (k - length ys) marker" by simp
  then have "drop (length xs - (k - length ys)) xs = take (k - length ys) marker"
    using k(1) by simp
  then have "k - length ys \<le> partial_suffix xs marker"
    unfolding partial_suffix_def using k by (intro longest_suffix_least) auto
  then show ?thesis by (simp add: k_def)
qed simp

lemma find_sub_grows:
  assumes "find_sub xs needle = None" "find_sub (xs @ ys) needle = Some i" "needle \<noteq> []"
  shows "length xs - partial_suffix xs needle \<le> i"
proof (cases "i \<le> length xs")
  case True
  from find_sub_SomeD [OF assms(2)] obtain b where b: "xs @ ys = take i (xs @ ys) @ needle @ b" by blast
  have d: "drop i xs @ ys = needle @ b"
    using b True by (metis append_take_drop_id append_assoc same_append_eq drop_append diff_is_0_eq drop0)
  have "length (drop i xs) < length needle"
  proof (rule ccontr)
    assume "\<not> length (drop i xs) < length needle"
    then have "take (length needle) (drop i xs) = needle"
      using arg_cong [OF d, of "take (length needle)"] by simp
    then have "starts_with needle (drop i xs)" by (simp add: starts_with_take)
    with assms(1) True show False unfolding find_sub_None by blast
  qed
  moreover from this have "take (length (drop i xs)) needle = drop i xs"
    using arg_cong [OF d, of "take (length (drop i xs))"] by simp
  ultimately have "needle = drop i xs @ drop (length (drop i xs)) needle" "drop (length (drop i xs)) needle \<noteq> []"
    by (metis append_take_drop_id, simp)
  from partial_suffix_least [OF _ this, of xs "take i xs"] have "length (drop i xs) \<le> partial_suffix xs needle"
    by simp
  then show ?thesis by simp
qed simp

text \<open>The last occurrence.\<close>

lemma rfind_sub_None: "rfind_sub hay needle = None \<longleftrightarrow> \<not> contains_sub hay needle"
proof (induction hay)
  case (Cons c cs)
  then show ?case by (auto simp: contains_sub_def split: option.splits)
qed (simp add: contains_sub_def)

lemma rfind_sub_last:
  assumes "\<not> contains_sub (tl needle @ b) needle" "needle \<noteq> []"
  shows "rfind_sub (a @ needle @ b) needle = Some (length a)"
proof (induction a)
  case Nil
  from assms(2) obtain n ns where n: "needle = n # ns" by (cases needle) auto
  with assms(1) have "rfind_sub (ns @ b) needle = None" by (simp add: rfind_sub_None)
  moreover have "starts_with needle (n # ns @ b)" by (simp add: n starts_with_iff)
  ultimately show ?case by (simp add: n)
qed simp

section \<open>Trimming and signed numbers\<close>

text \<open>
  \<open>str::trim\<close> on the UTF-8 bytes of a \<open>&str\<close>: the encodings of the scalar values with the property
  White\_Space, taken off both ends.
\<close>

definition whitespace_encodings :: "bytes list" where
  "whitespace_encodings =
     [[CHR 0x09], [CHR 0x0A], [CHR 0x0B], [CHR 0x0C], [CHR 0x0D], [CHR 0x20],
      [CHR 0xC2, CHR 0x85], [CHR 0xC2, CHR 0xA0], [CHR 0xE1, CHR 0x9A, CHR 0x80],
      [CHR 0xE2, CHR 0x80, CHR 0x80], [CHR 0xE2, CHR 0x80, CHR 0x81], [CHR 0xE2, CHR 0x80, CHR 0x82],
      [CHR 0xE2, CHR 0x80, CHR 0x83], [CHR 0xE2, CHR 0x80, CHR 0x84], [CHR 0xE2, CHR 0x80, CHR 0x85],
      [CHR 0xE2, CHR 0x80, CHR 0x86], [CHR 0xE2, CHR 0x80, CHR 0x87], [CHR 0xE2, CHR 0x80, CHR 0x88],
      [CHR 0xE2, CHR 0x80, CHR 0x89], [CHR 0xE2, CHR 0x80, CHR 0x8A], [CHR 0xE2, CHR 0x80, CHR 0xA8],
      [CHR 0xE2, CHR 0x80, CHR 0xA9], [CHR 0xE2, CHR 0x80, CHR 0xAF], [CHR 0xE2, CHR 0x81, CHR 0x9F],
      [CHR 0xE3, CHR 0x80, CHR 0x80]]"

definition strip_whitespace :: "bytes list \<Rightarrow> bytes \<Rightarrow> bytes option" where
  "strip_whitespace encodings s =
     (case find (\<lambda>w. starts_with w s) encodings of None \<Rightarrow> None | Some w \<Rightarrow> Some (drop (length w) s))"

fun trim_with :: "nat \<Rightarrow> bytes list \<Rightarrow> bytes \<Rightarrow> bytes" where
  "trim_with 0 encodings s = s"
| "trim_with (Suc n) encodings s =
     (case strip_whitespace encodings s of None \<Rightarrow> s | Some t \<Rightarrow> trim_with n encodings t)"

definition trim_start :: "bytes \<Rightarrow> bytes" where
  "trim_start s = trim_with (length s) whitespace_encodings s"

definition trim_end :: "bytes \<Rightarrow> bytes" where
  "trim_end s = rev (trim_with (length s) (map rev whitespace_encodings) (rev s))"

definition trim :: "bytes \<Rightarrow> bytes" where
  "trim s = trim_end (trim_start s)"

text \<open>\<open>i32::from_str\<close> and \<open>u32::from_str\<close>.\<close>

definition parse_i32 :: "bytes \<Rightarrow> int option" where
  "parse_i32 s =
     (let (negative, ds) = (case s of
            [] \<Rightarrow> (False, [])
          | c # cs \<Rightarrow> if c = CHR ''-'' then (True, cs) else if c = CHR ''+'' then (False, cs) else (False, s));
          v = (if negative then - int (dec_val ds) else int (dec_val ds))
      in if ds \<noteq> [] \<and> list_all is_ascii_digit ds \<and> - (2 ^ 31) \<le> v \<and> v < 2 ^ 31 then Some v else None)"

definition parse_u32 :: "bytes \<Rightarrow> u32 option" where
  "parse_u32 s = Option.bind (parse_u64 s) u32_try_from"

lemma parse_i32_dec: "n < 2 ^ 31 \<Longrightarrow> parse_i32 (dec n) = Some (int n)"
proof -
  assume n: "n < 2 ^ 31"
  obtain c cs where d: "dec n = c # cs" by (cases "dec n") auto
  have "is_ascii_digit c" using dec_digits [of n] by (simp add: d)
  then have "c \<noteq> CHR ''-''" "c \<noteq> CHR ''+''" by (auto simp: is_ascii_digit_def)
  then have "parse_i32 (dec n) =
      (if dec n \<noteq> [] \<and> list_all is_ascii_digit (dec n) \<and> - (2 ^ 31) \<le> int (dec_val (dec n)) \<and> int (dec_val (dec n)) < 2 ^ 31
       then Some (int (dec_val (dec n))) else None)"
    by (simp add: parse_i32_def d Let_def)
  with n show ?thesis by simp
qed

end
