(* ===== verification/Executor.thy ===== *)
theory Executor
  imports Byte_Search Hex_Text Utf8
begin

text \<open>
  The execution vocabulary of \<open>src/executor.rs\<close>: identities, principals, file metadata, the words and
  scripts an elevated command is run through, and what the captured output is settled to. A process is
  a command (program and arguments); what running one does is a parameter.
\<close>

section \<open>Constants\<close>

definition SUDO :: bytes where "SUDO = ''sudo''"
definition SSH :: bytes where "SSH = ''ssh''"
definition SSH_KEX_ALGORITHMS :: bytes where "SSH_KEX_ALGORITHMS = ''mlkem768x25519-sha256,sntrup761x25519-sha512''"
definition SSH_KEX_NO_MATCH :: bytes where "SSH_KEX_NO_MATCH = ''no matching key exchange method found''"
definition CAT :: bytes where "CAT = ''cat''"
definition SH :: bytes where "SH = ''sh''"
definition TEST :: bytes where "TEST = ''test''"
definition ID :: bytes where "ID = ''id''"
definition CHOWN :: bytes where "CHOWN = ''chown''"
definition STAT :: bytes where "STAT = ''stat''"
definition CD_EXEC_SCRIPT :: bytes where \<open>CD_EXEC_SCRIPT = ''cd "$1"; shift; exec "$@"''\<close>
definition RC_MARKER :: bytes where "RC_MARKER = ''__BOOTLER_RC__:''"
definition SUDO_OK_SENTINEL :: bytes where "SUDO_OK_SENTINEL = ''__BOOTLER_SUDO_OK__''"
definition NO_WORKING_DIRECTORY_MARKER :: bytes where
  "NO_WORKING_DIRECTORY_MARKER = ''__BOOTLER_NO_WORKING_DIRECTORY__''"
definition DESCENT_ARG0 :: bytes where "DESCENT_ARG0 = ''bootler-descent''"
definition SUPERVISOR_SHELL :: bytes where "SUPERVISOR_SHELL = ''/bin/sh''"
definition ENV :: bytes where "ENV = ''/usr/bin/env''"
definition SLEEP :: bytes where "SLEEP = ''/bin/sleep''"
definition HANDOFF_PREFIX :: bytes where "HANDOFF_PREFIX = ''__BOOTLER_STDIN_''"
definition HANDOFF_SUFFIX :: bytes where "HANDOFF_SUFFIX = ''__''"

abbreviation newline :: byte where "newline \<equiv> CHR 0x0A"
abbreviation quote_byte :: byte where "quote_byte \<equiv> CHR 0x27"

section \<open>Errors and results\<close>

text \<open>The message of an I/O error is text the system supplies.\<close>

datatype executor_error =
    EX_Spawn bytes bytes
  | EX_Io bytes bytes
  | EX_Transfer bytes bytes
  | EX_Connection bytes bytes
  | EX_KexUnsupportedLocally bytes bytes bytes
  | EX_KexRefusedByHost bytes bytes bytes
  | EX_NoOperatorIdentity bytes
  | EX_DirectoryMismatch bytes bytes
  | EX_Elevation bytes
  | EX_SudoRefused bytes bytes

record command_output =
  co_code :: "int option"
  co_stdout :: bytes
  co_stderr :: bytes

definition success :: "command_output \<Rightarrow> bool" where
  "success output \<longleftrightarrow> co_code output = Some 0"

text \<open>A timeout in nanoseconds.\<close>

record run_limits =
  rn_max_stdout :: nat
  rn_max_stderr :: nat
  rn_timeout :: nat

datatype output_stream = Stdout | Stderr

datatype run_with_input_error =
    RW_InvalidCommand bytes
  | RW_OutputLimit bytes output_stream nat
  | RW_TimedOut bytes nat
  | RW_Unsupported
  | RW_Executor executor_error

definition is_absolute_and_plain :: "bytes \<Rightarrow> bool" where
  "is_absolute_and_plain command \<longleftrightarrow> starts_with ''/'' command \<and> CHR ''='' \<notin> set command"

definition check_bounded_command :: "bytes \<Rightarrow> run_with_input_error + unit" where
  "check_bounded_command command =
     (if is_absolute_and_plain command then Inr () else Inl (RW_InvalidCommand command))"

section \<open>Principals and files\<close>

datatype service_account = Security | Insight | Roxyd

fun service_account_str :: "service_account \<Rightarrow> bytes" where
  "service_account_str Security = ''clumit-security''"
| "service_account_str Insight = ''clumit-insight''"
| "service_account_str Roxyd = ''clumit-roxyd''"

datatype container_account =
    SecurityPki | SecurityPkiDb | SecurityWeb | SecurityWebDb | InsightPki | InsightPkiDb | InsightWeb
  | InsightWebDb | InsightTransit | InsightKeycloakTls

fun container_account_str :: "container_account \<Rightarrow> bytes" where
  "container_account_str SecurityPki = ''clumit-security-pki''"
| "container_account_str SecurityPkiDb = ''clumit-security-pkidb''"
| "container_account_str SecurityWeb = ''clumit-security-web''"
| "container_account_str SecurityWebDb = ''clumit-security-webdb''"
| "container_account_str InsightPki = ''clumit-insight-pki''"
| "container_account_str InsightPkiDb = ''clumit-insight-pkidb''"
| "container_account_str InsightWeb = ''clumit-insight-web''"
| "container_account_str InsightWebDb = ''clumit-insight-webdb''"
| "container_account_str InsightTransit = ''clumit-insight-transit''"
| "container_account_str InsightKeycloakTls = ''clumit-insight-keycloak-tls''"

datatype principal = RootPrincipal | ServicePrincipal service_account | ContainerPrincipal container_account

fun as_arg :: "principal \<Rightarrow> bytes" where
  "as_arg RootPrincipal = ''root''"
| "as_arg (ServicePrincipal account) = service_account_str account"
| "as_arg (ContainerPrincipal account) = container_account_str account"

record file_meta =
  fm_owner :: principal
  fm_group :: principal
  fm_mode :: u32

definition file_meta_new :: "principal \<Rightarrow> principal \<Rightarrow> u32 \<Rightarrow> file_meta" where
  "file_meta_new owner grp mode = \<lparr>fm_owner = owner, fm_group = grp, fm_mode = mode\<rparr>"

text \<open>Modes are written in octal in the source: 0o755 is 493.\<close>

definition ROOT_BINARY :: file_meta where "ROOT_BINARY = file_meta_new RootPrincipal RootPrincipal 493"
definition ROOT_CONFIG :: file_meta where "ROOT_CONFIG = file_meta_new RootPrincipal RootPrincipal 420"
definition ROOT_SECRET :: file_meta where "ROOT_SECRET = file_meta_new RootPrincipal RootPrincipal 384"
definition ROOT_DIR :: file_meta where "ROOT_DIR = file_meta_new RootPrincipal RootPrincipal 493"
definition ROOT_SECRET_DIR :: file_meta where "ROOT_SECRET_DIR = file_meta_new RootPrincipal RootPrincipal 448"
definition ROOT_RESTRICTED_DIR :: file_meta where
  "ROOT_RESTRICTED_DIR = file_meta_new RootPrincipal RootPrincipal 488"
definition service_dir :: "service_account \<Rightarrow> file_meta" where
  "service_dir account = file_meta_new (ServicePrincipal account) (ServicePrincipal account) 488"
definition service_secret :: "service_account \<Rightarrow> file_meta" where
  "service_secret account = file_meta_new (ServicePrincipal account) (ServicePrincipal account) 384"
definition service_readable :: "service_account \<Rightarrow> file_meta" where
  "service_readable account = file_meta_new (ServicePrincipal account) (ServicePrincipal account) 420"
definition namespace_root :: "service_account \<Rightarrow> u32 \<Rightarrow> file_meta" where
  "namespace_root account mode = file_meta_new RootPrincipal (ServicePrincipal account) mode"
definition service_config :: "service_account \<Rightarrow> file_meta" where
  "service_config account = file_meta_new RootPrincipal (ServicePrincipal account) 416"

text \<open>\<open>format!("{:04o}", mode)\<close>.\<close>

fun octal :: "nat \<Rightarrow> bytes" where
  "octal n = (if n < 8 then [digit_char n] else octal (n div 8) @ [digit_char (n mod 8)])"

declare octal.simps [simp del]

definition mode_arg :: "file_meta \<Rightarrow> bytes" where
  "mode_arg meta =
     (let digits = octal (unat (fm_mode meta)) in replicate (4 - length digits) (CHR ''0'') @ digits)"

fun is_service_writable :: "principal \<Rightarrow> bool" where
  "is_service_writable RootPrincipal = False"
| "is_service_writable (ServicePrincipal _) = True"
| "is_service_writable (ContainerPrincipal _) = True"

datatype dir_outcome = DirCreated | DirMatched | DirCorrected

datatype identity = Operator | RootIdentity | ServiceIdentity service_account

datatype sudo_auth = Password bytes | NonInteractive

datatype ssh_prompt = PromptAllow | PromptDeny

section \<open>Shell text\<close>

definition shell_quote :: "bytes \<Rightarrow> bytes" where
  "shell_quote arg =
     [quote_byte] @
     concat (map (\<lambda>ch. if ch = quote_byte then [quote_byte, CHR 0x5C, quote_byte, quote_byte] else [ch]) arg) @
     [quote_byte]"

definition join_words :: "bytes list \<Rightarrow> bytes" where
  "join_words ws = concat (case ws of [] \<Rightarrow> [] | w # rest \<Rightarrow> w # map (\<lambda>x. CHR '' '' # x) rest)"

definition shell_join :: "bytes list \<Rightarrow> bytes" where
  "shell_join ws = join_words (map shell_quote ws)"

text \<open>A path as an argument is its lossy text; \<open>dir\<close> is that text.\<close>

definition wrap_in_dir :: "bytes \<Rightarrow> bytes \<Rightarrow> bytes list \<Rightarrow> bytes list" where
  "wrap_in_dir dir command args = [''-c'', CD_EXEC_SCRIPT, ''_'', dir, command] @ args"

definition sudo_needs_password :: "bytes \<Rightarrow> bool" where
  "sudo_needs_password stderr =
     (let text = from_utf8_lossy stderr in
      contains_sub text ''a password is required'' \<or>
      contains_sub text ''interactive authentication is required'' \<or>
      contains_sub text ''terminal is required'' \<or>
      contains_sub text ''no askpass'' \<or>
      contains_sub text ''no tty present'')"

definition print_split :: "bytes \<Rightarrow> nat \<Rightarrow> bytes" where
  \<open>print_split word fd =
     (let middle = length word div 2 in
      ''printf '%s%s' '' @ [quote_byte] @ take middle word @ [quote_byte] @ '' '' @
      [quote_byte] @ drop middle word @ [quote_byte] @ '' >&'' @ dec fd)\<close>

section \<open>The handoff line\<close>

text \<open>\<open>Handoff::new\<close> over the random source: sixteen bytes, or nothing when it fails.\<close>

record handoff =
  hd_line :: bytes

definition handoff_new :: "bytes option \<Rightarrow> bytes \<Rightarrow> executor_error + handoff" where
  "handoff_new nonce shell =
     (case nonce of
        None \<Rightarrow> Inl (EX_Spawn shell ''system random source failed'')
      | Some bs \<Rightarrow> Inr \<lparr>hd_line = HANDOFF_PREFIX @ to_hex bs @ HANDOFF_SUFFIX\<rparr>)"

definition handoff_line :: "handoff \<Rightarrow> bytes" where
  "handoff_line h = hd_line h @ [newline]"

definition handoff_discard :: "handoff \<Rightarrow> bytes" where
  \<open>handoff_discard h =
     ''while :; do IFS= read -r line || exit 1; [ "$line" = '' @ [quote_byte] @ hd_line h @ [quote_byte] @
     '' ] && break; done''\<close>

definition sudo_sentinel_script :: "handoff option \<Rightarrow> bytes" where
  \<open>sudo_sentinel_script handoff =
     (let discard = (case handoff of None \<Rightarrow> [] | Some h \<Rightarrow> handoff_discard h @ ''; '') in
      print_split SUDO_OK_SENTINEL 2 @ ''; '' @ discard @ ''exec "$0" "$@"'')\<close>

definition descent_script :: bytes where
  \<open>descent_script =
     ''cd -- "$1" 2>/dev/null || { '' @ print_split NO_WORKING_DIRECTORY_MARKER 2 @ ''; exit 1; }; shift; '' @
     print_split SUDO_OK_SENTINEL 2 @ ''; exec '' @ ENV @ '' -i "$@"''\<close>

datatype elevation = Elevate | Descend service_account

fun elevation_of :: "identity \<Rightarrow> elevation option" where
  "elevation_of Operator = None"
| "elevation_of RootIdentity = Some Elevate"
| "elevation_of (ServiceIdentity account) = Some (Descend account)"

definition password_handoff ::
  "bytes option \<Rightarrow> sudo_auth \<Rightarrow> identity \<Rightarrow> bytes \<Rightarrow> executor_error + handoff option" where
  "password_handoff nonce auth identity shell =
     (case (auth, elevation_of identity) of
        (Password _, Some _) \<Rightarrow> bind_res (handoff_new nonce shell) (\<lambda>h. Inr (Some h))
      | _ \<Rightarrow> Inr None)"

definition password_preamble :: "bytes \<Rightarrow> handoff option \<Rightarrow> bytes" where
  "password_preamble password handoff =
     password @ [newline] @ (case handoff of None \<Rightarrow> [] | Some h \<Rightarrow> handoff_line h)"

section \<open>The exit-status line of a remote command\<close>

definition wrap_with_rc_marker :: "bytes \<Rightarrow> bytes" where
  \<open>wrap_with_rc_marker remote =
     remote @ ''; printf '' @ [quote_byte, CHR 0x5C, CHR ''n''] @ RC_MARKER @ ''%d'' @
     [CHR 0x5C, CHR ''n'', quote_byte] @ '' "$?" >&2''\<close>

definition extract_remote_code :: "bytes \<Rightarrow> (nat \<times> int) option" where
  "extract_remote_code stderr =
     Option.bind (rfind_sub stderr RC_MARKER) (\<lambda>pos.
       let digits = takeWhile (\<lambda>b. b \<noteq> newline) (drop (pos + length RC_MARKER) stderr) in
       if \<not> is_utf8 digits then None
       else map_option (\<lambda>code. (pos, code)) (parse_i32 digits))"

section \<open>The elevation sentinel\<close>

text \<open>The stderr after the first sentinel, when there is one.\<close>

definition take_sudo_sentinel :: "bytes \<Rightarrow> bool \<times> bytes" where
  "take_sudo_sentinel stderr =
     (case find_sub stderr SUDO_OK_SENTINEL of
        Some pos \<Rightarrow> (True, drop (pos + length SUDO_OK_SENTINEL) stderr)
      | None \<Rightarrow> (False, stderr))"

text \<open>The first argument, by index, that satisfies a predicate: \<open>Iterator::position\<close>.\<close>

fun position :: "('a \<Rightarrow> bool) \<Rightarrow> 'a list \<Rightarrow> nat option" where
  "position p [] = None"
| "position p (x # xs) = (if p x then Some 0 else map_option Suc (position p xs))"

definition check_sudo_words :: "bytes \<Rightarrow> bytes list \<Rightarrow> executor_error + unit" where
  "check_sudo_words command args =
     (let holds = (\<lambda>word. contains_sub word SUDO_OK_SENTINEL);
          refuse = (\<lambda>word. EX_Spawn command
            (word @ '' holds `'' @ SUDO_OK_SENTINEL @ ''`, which an elevated run reserves''))
      in if holds command then Inl (refuse ''the command'')
         else case position holds args of
           Some index \<Rightarrow> Inl (refuse (''argument '' @ dec index))
         | None \<Rightarrow> Inr ())"

definition elevation_refusal :: "bytes \<Rightarrow> sudo_auth option \<Rightarrow> bytes \<Rightarrow> executor_error" where
  "elevation_refusal stderr auth host =
     (if auth = Some NonInteractive \<and> sudo_needs_password stderr then EX_Elevation host
      else EX_SudoRefused host (trim (from_utf8_lossy stderr)))"

definition classify_elevation ::
  "command_output \<Rightarrow> sudo_auth option \<Rightarrow> bytes \<Rightarrow> executor_error + command_output" where
  "classify_elevation output auth host =
     (case take_sudo_sentinel (co_stderr output) of
        (granted, stderr) \<Rightarrow>
          if granted then Inr (output\<lparr>co_stderr := stderr\<rparr>)
          else Inl (elevation_refusal stderr auth host))"

section \<open>Commands\<close>

record process_command =
  pc_program :: bytes
  pc_args :: "bytes list"
  pc_env_clear :: bool
  pc_current_dir :: "bytes option"

definition command_new :: "bytes \<Rightarrow> bytes list \<Rightarrow> process_command" where
  "command_new program args = \<lparr>pc_program = program, pc_args = args, pc_env_clear = False, pc_current_dir = None\<rparr>"

record resolved =
  rs_command :: process_command
  rs_preamble :: "bytes option"
  rs_elevated :: bool

subsection \<open>The local executor\<close>

record local_executor =
  le_host :: bytes
  le_sudo_bin :: bytes
  le_auth :: sudo_auth

definition local_new :: "bytes \<Rightarrow> sudo_auth \<Rightarrow> local_executor" where
  "local_new host auth = \<lparr>le_host = host, le_sudo_bin = SUDO, le_auth = auth\<rparr>"

definition local_default :: local_executor where
  "local_default = local_new ''seat'' NonInteractive"

definition local_resolve_through ::
  "local_executor \<Rightarrow> identity \<Rightarrow> bytes \<Rightarrow> bytes \<Rightarrow> handoff option \<Rightarrow> bytes \<Rightarrow> bytes list \<Rightarrow>
     executor_error + resolved" where
  "local_resolve_through ex identity shell script handoff command args =
     (case elevation_of identity of
        None \<Rightarrow> Inr \<lparr>rs_command = command_new command args, rs_preamble = None, rs_elevated = False\<rparr>
      | Some elevation \<Rightarrow>
          bind_res (check_sudo_words command args) (\<lambda>_.
          let (flags, preamble) =
                (case le_auth ex of
                   NonInteractive \<Rightarrow> ([''-n''], None)
                 | Password password \<Rightarrow> ([''-S'', ''-p'', ''''], Some (password_preamble password handoff)));
              descent = (case elevation of Elevate \<Rightarrow> [] | Descend account \<Rightarrow> [''-u'', service_account_str account])
          in Inr \<lparr>rs_command = command_new (le_sudo_bin ex)
                    (flags @ descent @ [shell, ''-c'', script, command] @ args),
                  rs_preamble = preamble, rs_elevated = True\<rparr>))"

definition local_resolve ::
  "local_executor \<Rightarrow> bytes option \<Rightarrow> identity \<Rightarrow> bytes \<Rightarrow> bytes list \<Rightarrow> executor_error + resolved" where
  "local_resolve ex nonce identity command args =
     bind_res (password_handoff nonce (le_auth ex) identity SH) (\<lambda>handoff.
     local_resolve_through ex identity SH (sudo_sentinel_script handoff) handoff command args)"

text \<open>Running a process with its standard input: \<open>Inl\<close> is the message of the error that kept it from running.\<close>

type_synonym 's spawner = "process_command \<Rightarrow> bytes option \<Rightarrow> 's \<Rightarrow> (bytes + command_output) \<times> 's"

definition spawn_capturing ::
  "'s spawner \<Rightarrow> process_command \<Rightarrow> bytes \<Rightarrow> bytes option \<Rightarrow> 's \<Rightarrow> (executor_error + command_output) \<times> 's" where
  "spawn_capturing spawn command program stdin s =
     (case spawn command stdin s of (r, s') \<Rightarrow> (map_err (EX_Spawn program) r, s'))"

definition feed_of :: "bytes option \<Rightarrow> bytes option \<Rightarrow> bytes option" where
  "feed_of preamble payload =
     (case (preamble, payload) of
        (Some line, Some bs) \<Rightarrow> Some (line @ bs)
      | (Some line, None) \<Rightarrow> Some line
      | (None, Some bs) \<Rightarrow> Some bs
      | (None, None) \<Rightarrow> None)"

definition local_spawn_resolved ::
  "'s spawner \<Rightarrow> local_executor \<Rightarrow> resolved \<Rightarrow> bytes option \<Rightarrow> 's \<Rightarrow> (executor_error + command_output) \<times> 's" where
  "local_spawn_resolved spawn ex resolved payload s =
     (case spawn_capturing spawn (rs_command resolved) (pc_program (rs_command resolved))
         (feed_of (rs_preamble resolved) payload) s of
        (r, s') \<Rightarrow>
          (bind_res r (\<lambda>output. if rs_elevated resolved
             then classify_elevation output (Some (le_auth ex)) (le_host ex) else Inr output), s'))"

definition local_run ::
  "'s spawner \<Rightarrow> local_executor \<Rightarrow> bytes option \<Rightarrow> identity \<Rightarrow> bytes \<Rightarrow> bytes list \<Rightarrow> 's \<Rightarrow>
     (executor_error + command_output) \<times> 's" where
  "local_run spawn ex nonce identity command args s =
     (case local_resolve ex nonce identity command args of
        Inl e \<Rightarrow> (Inl e, s)
      | Inr resolved \<Rightarrow> local_spawn_resolved spawn ex resolved None s)"

subsection \<open>The SSH executor\<close>

datatype host_key_policy = StrictKeys | AcceptNew

fun strict_host_key_checking :: "host_key_policy \<Rightarrow> bytes" where
  "strict_host_key_checking StrictKeys = ''yes''"
| "strict_host_key_checking AcceptNew = ''accept-new''"

record ssh_executor =
  se_host :: bytes
  se_target :: bytes
  se_port :: nat
  se_key :: bytes
  se_host_key :: host_key_policy
  se_ssh_bin :: bytes
  se_remote_sudo :: bytes
  se_auth :: sudo_auth
  se_prompt :: ssh_prompt

text \<open>\<open>from_config\<close> of the fields of \<open>Ssh\<close>; the binary comes from the environment when it is set there.\<close>

record ssh_config =
  sh_user :: bytes
  sh_port :: nat
  sh_key :: bytes
  sh_host_key :: host_key_policy

definition ssh_from_config ::
  "bytes option \<Rightarrow> bytes \<Rightarrow> ssh_config \<Rightarrow> bytes \<Rightarrow> sudo_auth \<Rightarrow> ssh_prompt \<Rightarrow> ssh_executor" where
  "ssh_from_config env_bin host ssh address auth prompt =
     \<lparr>se_host = host, se_target = sh_user ssh @ ''@'' @ address, se_port = sh_port ssh, se_key = sh_key ssh,
      se_host_key = sh_host_key ssh, se_ssh_bin = (case env_bin of None \<Rightarrow> SSH | Some b \<Rightarrow> b),
      se_remote_sudo = SUDO, se_auth = auth, se_prompt = prompt\<rparr>"

definition ssh_command :: "ssh_executor \<Rightarrow> process_command" where
  "ssh_command ex =
     command_new (se_ssh_bin ex)
       ([''-i'', se_key ex, ''-p'', dec (se_port ex),
         ''-o'', ''StrictHostKeyChecking='' @ strict_host_key_checking (se_host_key ex),
         ''-o'', ''KexAlgorithms='' @ SSH_KEX_ALGORITHMS, ''-o'', ''ControlPath=none''] @
        (if se_prompt ex = PromptDeny then [''-o'', ''BatchMode=yes''] else []) @ [se_target ex])"

definition with_arg :: "process_command \<Rightarrow> bytes \<Rightarrow> process_command" where
  "with_arg c arg = c\<lparr>pc_args := pc_args c @ [arg]\<rparr>"

definition transport_failure :: "ssh_executor \<Rightarrow> bytes \<Rightarrow> executor_error" where
  "transport_failure ex stderr =
     (let text = from_utf8_lossy stderr; reason = trim text in
      if contains_sub text (''Bad SSH2 KexAlgorithms '' @ [quote_byte] @ SSH_KEX_ALGORITHMS @ [quote_byte])
      then EX_KexUnsupportedLocally (se_host ex) SSH_KEX_ALGORITHMS reason
      else if contains_sub text SSH_KEX_NO_MATCH then EX_KexRefusedByHost (se_host ex) SSH_KEX_ALGORITHMS reason
      else EX_Connection (se_host ex) reason)"

definition settle_remote_code :: "ssh_executor \<Rightarrow> command_output \<Rightarrow> executor_error + command_output" where
  "settle_remote_code ex output =
     (case extract_remote_code (co_stderr output) of
        None \<Rightarrow> Inl (transport_failure ex (co_stderr output))
      | Some (pos, code) \<Rightarrow>
          (let cut = (if pos > 0 \<and> co_stderr output ! (pos - 1) = newline then pos - 1 else pos) in
           Inr (output\<lparr>co_stderr := take cut (co_stderr output), co_code := Some code\<rparr>)))"

definition ssh_run ::
  "'s spawner \<Rightarrow> ssh_executor \<Rightarrow> bytes \<Rightarrow> bytes option \<Rightarrow> 's \<Rightarrow> (executor_error + command_output) \<times> 's" where
  "ssh_run spawn ex remote stdin s =
     (case spawn_capturing spawn (with_arg (ssh_command ex) (wrap_with_rc_marker remote)) (se_ssh_bin ex) stdin s of
        (r, s') \<Rightarrow> (bind_res r (settle_remote_code ex), s'))"

record resolved_remote =
  rr_remote :: bytes
  rr_preamble :: "bytes option"
  rr_elevated :: bool

definition ssh_resolve_through ::
  "ssh_executor \<Rightarrow> identity \<Rightarrow> bytes \<Rightarrow> bytes \<Rightarrow> handoff option \<Rightarrow> bytes option \<Rightarrow> bytes \<Rightarrow> bytes list \<Rightarrow>
     executor_error + resolved_remote" where
  "ssh_resolve_through ex identity shell script handoff operator_script command args =
     (case elevation_of identity of
        None \<Rightarrow>
          Inr \<lparr>rr_remote = (case operator_script of
                 Some wrapper \<Rightarrow> shell_join ([shell, ''-c'', wrapper, command] @ args)
               | None \<Rightarrow> shell_join (command # args)),
               rr_preamble = None, rr_elevated = False\<rparr>
      | Some elevation \<Rightarrow>
          bind_res (check_sudo_words command args) (\<lambda>_.
          let wrapped = [shell, ''-c'', script, command] @ args;
              descent = (case elevation of
                  Elevate \<Rightarrow> []
                | Descend account \<Rightarrow> '' -u '' @ shell_quote (service_account_str account));
              (flags, preamble) = (case se_auth ex of
                  NonInteractive \<Rightarrow> (''-n'', None)
                | Password password \<Rightarrow>
                    (''-S -p '' @ [quote_byte, quote_byte], Some (password_preamble password handoff)))
          in Inr \<lparr>rr_remote = se_remote_sudo ex @ '' '' @ flags @ descent @ '' '' @ shell_join wrapped,
                  rr_preamble = preamble, rr_elevated = True\<rparr>))"

definition ssh_resolve ::
  "ssh_executor \<Rightarrow> bytes option \<Rightarrow> identity \<Rightarrow> bytes \<Rightarrow> bytes list \<Rightarrow> executor_error + resolved_remote" where
  "ssh_resolve ex nonce identity command args =
     bind_res (password_handoff nonce (se_auth ex) identity SH) (\<lambda>handoff.
     ssh_resolve_through ex identity SH (sudo_sentinel_script handoff) handoff None command args)"

definition ssh_run_resolved ::
  "'s spawner \<Rightarrow> ssh_executor \<Rightarrow> resolved_remote \<Rightarrow> bytes option \<Rightarrow> 's \<Rightarrow> (executor_error + command_output) \<times> 's" where
  "ssh_run_resolved spawn ex resolved payload s =
     (case ssh_run spawn ex (rr_remote resolved) (feed_of (rr_preamble resolved) payload) s of
        (r, s') \<Rightarrow>
          (bind_res r (\<lambda>output. if rr_elevated resolved
             then classify_elevation output (Some (se_auth ex)) (se_host ex) else Inr output), s'))"

definition ssh_executor_run ::
  "'s spawner \<Rightarrow> ssh_executor \<Rightarrow> bytes option \<Rightarrow> identity \<Rightarrow> bytes \<Rightarrow> bytes list \<Rightarrow> 's \<Rightarrow>
     (executor_error + command_output) \<times> 's" where
  "ssh_executor_run spawn ex nonce identity command args s =
     (case ssh_resolve ex nonce identity command args of
        Inl e \<Rightarrow> (Inl e, s)
      | Inr resolved \<Rightarrow> ssh_run_resolved spawn ex resolved None s)"

end
