(* ===== verification/Executor_Bounded.thy ===== *)
theory Executor_Bounded
  imports Executor Limits
begin

text \<open>
  Bounded runs, channels and descents: \<open>src/executor/bounded.rs\<close>, \<open>src/executor/channel.rs\<close> and the
  in-daemon executor of \<open>src/executor.rs\<close>. What is modelled is everything that decides on bytes: which
  part of a stream is the transport's and which the command's, when a start is announced, what is kept
  of a command's standard error, and which commands may be run at all. Pipes, polling and deadlines are
  not.
\<close>

section \<open>Framing of a bounded run\<close>

definition TIMEOUT_MARKER_PREFIX :: bytes where "TIMEOUT_MARKER_PREFIX = ''__BOOTLER_TIMEOUT_''"
definition TIMEOUT_MARKER_SUFFIX :: bytes where "TIMEOUT_MARKER_SUFFIX = ''__''"
definition TRANSPORT_STDERR_LIMIT :: nat where "TRANSPORT_STDERR_LIMIT = 64 * 1024"
definition MAX_SLEEP_SECS :: u64 where "MAX_SLEEP_SECS = 2147483647"

record framing_spec =
  fs_timeout_marker :: "bytes option"
  fs_remote_code :: bool

definition DIRECT :: framing_spec where
  "DIRECT = \<lparr>fs_timeout_marker = None, fs_remote_code = False\<rparr>"

datatype attributed = AtTransport nat | AtCommand nat nat

definition is_remote_code_prefix :: "bytes \<Rightarrow> nat \<Rightarrow> bool" where
  "is_remote_code_prefix tail max_digits =
     (case tail of
        [] \<Rightarrow> False
      | first # rest \<Rightarrow>
          if first \<noteq> newline then False
          else if length rest \<le> length RC_MARKER then starts_with rest RC_MARKER
          else (case strip_prefix RC_MARKER rest of
             None \<Rightarrow> False
           | Some code \<Rightarrow>
               (let digits = (if code \<noteq> [] \<and> last code = newline then butlast code else code) in
                digits \<noteq> [] \<and> length digits \<le> max_digits \<and> list_all is_ascii_digit digits \<and>
                (length digits = length code \<or> length digits + 1 = length code))))"

text \<open>\<open>(1..=longest).rev().find(p).unwrap_or(0)\<close>.\<close>

fun largest :: "(nat \<Rightarrow> bool) \<Rightarrow> nat \<Rightarrow> nat" where
  "largest p 0 = 0"
| "largest p (Suc n) = (if p (Suc n) then Suc n else largest p n)"

definition remote_code_suffix :: "bytes \<Rightarrow> nat" where
  "remote_code_suffix bs =
     (let max_digits = 3; head_len = 1 + length RC_MARKER;
          longest = min (length bs) (head_len + max_digits + 1)
      in largest (\<lambda>len. is_remote_code_prefix (drop (length bs - len) bs) max_digits) longest)"

definition attribute :: "framing_spec \<Rightarrow> bytes \<Rightarrow> attributed" where
  "attribute framing stderr =
     (case fs_timeout_marker framing of
        None \<Rightarrow> AtCommand (length stderr) 0
      | Some marker \<Rightarrow>
          (case find_sub stderr SUDO_OK_SENTINEL of
             None \<Rightarrow> AtTransport (length stderr)
           | Some at \<Rightarrow>
               (let tail = drop (at + length SUDO_OK_SENTINEL) stderr;
                    (framed, pending) =
                      (if find_sub tail marker \<noteq> None then (length marker, 0) else (0, partial_suffix tail marker));
                    pending = (if fs_remote_code framing then max pending (remote_code_suffix tail) else pending)
                in AtCommand (length tail - (framed + pending)) pending)))"

text \<open>How a run ended, and what it settles to.\<close>

datatype ended =
    Exited command_output
  | Abandoned command_output
  | Breach output_stream
  | TimedOut

definition breach :: "bytes \<Rightarrow> output_stream \<Rightarrow> run_limits \<Rightarrow> run_with_input_error" where
  "breach command stream limits =
     RW_OutputLimit command stream
       (case stream of Stdout \<Rightarrow> rn_max_stdout limits | Stderr \<Rightarrow> rn_max_stderr limits)"

definition timed_out :: "bytes \<Rightarrow> run_limits \<Rightarrow> run_with_input_error" where
  "timed_out command limits = RW_TimedOut command (rn_timeout limits)"

definition finish ::
  "ended \<Rightarrow> bytes \<Rightarrow> run_limits \<Rightarrow> framing_spec \<Rightarrow> (command_output \<Rightarrow> executor_error + command_output) \<Rightarrow>
     run_with_input_error + command_output" where
  "finish end_state command limits framing settle =
     bind_res
       (case end_state of
          Exited output \<Rightarrow> Inr output
        | Abandoned output \<Rightarrow> Inr output
        | Breach stream \<Rightarrow> Inl (breach command stream limits)
        | TimedOut \<Rightarrow> Inl (timed_out command limits)) (\<lambda>output.
     bind_res
       (case fs_timeout_marker framing of
          None \<Rightarrow> Inr output
        | Some marker \<Rightarrow>
            if contains_sub (co_stderr output) marker then Inl (timed_out command limits)
            else (case find_sub (co_stderr output) SUDO_OK_SENTINEL of
                Some at \<Rightarrow> Inr (output\<lparr>co_stderr := drop at (co_stderr output)\<rparr>)
              | None \<Rightarrow> Inr output)) (\<lambda>output.
     bind_res (map_err RW_Executor (settle output)) (\<lambda>output.
     if rn_max_stdout limits < length (co_stdout output) then Inl (breach command Stdout limits)
     else if rn_max_stderr limits < length (co_stderr output) then Inl (breach command Stderr limits)
     else Inr output)))"

text \<open>What one round of the pump decides on the bytes read so far; \<open>None\<close> goes on (or waits for the grace).\<close>

definition pump_verdict :: "run_limits \<Rightarrow> framing_spec \<Rightarrow> bool \<Rightarrow> bytes \<Rightarrow> bytes \<Rightarrow> ended option" where
  "pump_verdict limits framing grace_over stdout stderr =
     (if rn_max_stdout limits < length stdout then Some (Breach Stdout)
      else case attribute framing stderr of
        AtCommand own pending \<Rightarrow>
          if rn_max_stderr limits < own then Some (Breach Stderr)
          else if rn_max_stderr limits < own + pending then (if grace_over then Some (Breach Stderr) else None)
          else None
      | AtTransport len \<Rightarrow>
          if TRANSPORT_STDERR_LIMIT < len
          then Some (Abandoned \<lparr>co_code = None, co_stdout = stdout, co_stderr = stderr\<rparr>) else None)"

section \<open>The supervisor\<close>

record supervisor =
  sv_script :: bytes
  sv_timeout_marker :: bytes

text \<open>A timeout is whole seconds and a rest in nanoseconds.\<close>

definition supervisor_seconds :: "u64 \<Rightarrow> nat \<Rightarrow> u64" where
  "supervisor_seconds secs subsec_nanos =
     min (saturating_add secs (if subsec_nanos > 0 then 1 else 0)) MAX_SLEEP_SECS"

definition supervisor_script :: "bytes \<Rightarrow> u64 \<Rightarrow> nat \<Rightarrow> handoff option \<Rightarrow> bytes" where
  \<open>supervisor_script timeout_marker secs subsec_nanos handoff =
     (let seconds = to_string (supervisor_seconds secs subsec_nanos);
          discard = (case handoff of None \<Rightarrow> [] | Some h \<Rightarrow> handoff_discard h @ [newline]);
          started = print_split SUDO_OK_SENTINEL 2;
          timed_out = print_split timeout_marker 4
      in ''trap 'kill -KILL 0' TERM HUP INT'' @ [newline] @
         started @ [newline] @
         discard @ ''exec 3<&0 0</dev/null 4>&2 2>/dev/null'' @ [newline] @
         SLEEP @ '' '' @ seconds @ '' </dev/null >/dev/null 3<&- 4>&- &'' @ [newline] @
         ''nap=$!'' @ [newline] @
         ''{'' @ [newline] @
         ''  '' @ ENV @ '' -i "$0" "$@" 2>&4 4>&-'' @ [newline] @
         ''  status=$?'' @ [newline] @
         ''  kill -KILL "$nap"'' @ [newline] @
         ''  exit "$status"'' @ [newline] @
         ''} 0<&3 3<&- &'' @ [newline] @
         ''run=$!'' @ [newline] @
         ''exec 3<&-'' @ [newline] @
         ''if wait "$nap"; then'' @ [newline] @
         ''  '' @ timed_out @ [newline] @
         ''  kill -KILL 0'' @ [newline] @
         ''fi'' @ [newline] @
         ''wait "$run"'')\<close>

definition supervisor_new ::
  "bytes option \<Rightarrow> u64 \<Rightarrow> nat \<Rightarrow> handoff option \<Rightarrow> executor_error + supervisor" where
  "supervisor_new nonce secs subsec_nanos handoff =
     (case nonce of
        None \<Rightarrow> Inl (EX_Spawn SUPERVISOR_SHELL ''system random source failed'')
      | Some bs \<Rightarrow>
          (let marker = TIMEOUT_MARKER_PREFIX @ to_hex bs @ TIMEOUT_MARKER_SUFFIX in
           Inr \<lparr>sv_script = supervisor_script marker secs subsec_nanos handoff, sv_timeout_marker = marker\<rparr>))"

definition supervisor_framing :: "supervisor \<Rightarrow> bool \<Rightarrow> framing_spec" where
  "supervisor_framing sv remote_code = \<lparr>fs_timeout_marker = Some (sv_timeout_marker sv), fs_remote_code = remote_code\<rparr>"

section \<open>Channels\<close>

datatype announcement = Started nat | Overran nat | Undecided

definition announcement_of :: "bytes \<Rightarrow> announcement" where
  "announcement_of read_so_far =
     (case find_sub read_so_far SUDO_OK_SENTINEL of
        Some at \<Rightarrow> if TRANSPORT_STDERR_LIMIT < at then Overran at else Started (at + length SUDO_OK_SENTINEL)
      | None \<Rightarrow>
          if TRANSPORT_STDERR_LIMIT < length read_so_far - partial_suffix read_so_far SUDO_OK_SENTINEL
          then Overran (length read_so_far) else Undecided)"

datatype settled = SettledStarted bytes | SettledEnded bytes | SettledTimedOut bytes

definition judge :: "bytes \<Rightarrow> bool \<Rightarrow> settled option" where
  "judge read_so_far fed =
     (case announcement_of read_so_far of
        Overran transport \<Rightarrow> Some (SettledEnded (take transport read_so_far))
      | Started start \<Rightarrow> if fed then Some (SettledStarted (drop start read_so_far)) else None
      | Undecided \<Rightarrow> None)"

definition start_script :: "handoff \<Rightarrow> bytes" where
  \<open>start_script h = print_split SUDO_OK_SENTINEL 2 @ ''; '' @ handoff_discard h @ ''; exec '' @ ENV @ '' -i "$0" "$@"''\<close>

text \<open>The sink of a command's standard error.\<close>

record stderr_sink =
  sk_max :: nat
  sk_kept :: bytes
  sk_truncated :: bool
  sk_hold :: nat
  sk_held :: bytes

definition sink_new :: "nat \<Rightarrow> nat \<Rightarrow> stderr_sink" where
  "sink_new limit hold = \<lparr>sk_max = limit, sk_kept = [], sk_truncated = False, sk_hold = hold, sk_held = []\<rparr>"

definition keep_bytes :: "bytes \<Rightarrow> stderr_sink \<Rightarrow> stderr_sink" where
  "keep_bytes bs sink =
     (let room = sk_max sink - length (sk_kept sink); n = min room (length bs) in
      sink\<lparr>sk_kept := sk_kept sink @ take n bs, sk_truncated := sk_truncated sink \<or> drop n bs \<noteq> []\<rparr>)"

definition sink_push :: "bytes \<Rightarrow> stderr_sink \<Rightarrow> stderr_sink" where
  "sink_push bs sink =
     (if sk_hold sink = 0 then keep_bytes bs sink
      else
        (let held = sk_held sink @ bs; excess = length held - sk_hold sink in
         if excess > 0 then keep_bytes (take excess held) (sink\<lparr>sk_held := drop excess held\<rparr>)
         else sink\<lparr>sk_held := held\<rparr>))"

definition split_status_line :: "bytes \<Rightarrow> (nat \<times> int) option" where
  "split_status_line tail =
     (if tail = [] \<or> last tail \<noteq> newline then None
      else
        (let body = butlast tail in
         Option.bind (rfind_sub body RC_MARKER) (\<lambda>at.
         let digits = drop (at + length RC_MARKER) body in
         if digits = [] \<or> \<not> list_all is_ascii_digit digits then None
         else map_option (\<lambda>code.
           (if at > 0 \<and> body ! (at - 1) = newline then at - 1 else at, code)) (parse_i32 digits))))"

record drained =
  dr_stderr :: bytes
  dr_truncated :: bool
  dr_ended :: bool
  dr_remote_code :: "int option"
  dr_tail :: bytes

definition sink_finish :: "bool \<Rightarrow> stderr_sink \<Rightarrow> drained" where
  "sink_finish at_end sink =
     (let held = sk_held sink;
          (own, remote_code) = (case split_status_line held of
              Some (line, code) \<Rightarrow> (take line held, Some code)
            | None \<Rightarrow> (held, None));
          kept = keep_bytes own (sink\<lparr>sk_held := []\<rparr>)
      in \<lparr>dr_stderr = sk_kept kept, dr_truncated = sk_truncated kept, dr_ended = at_end,
          dr_remote_code = remote_code, dr_tail = held\<rparr>)"

section \<open>The in-daemon executor\<close>

record in_daemon_executor =
  id_host :: bytes
  id_sudo_bin :: bytes

definition in_daemon_new :: "bytes \<Rightarrow> in_daemon_executor" where
  "in_daemon_new host = \<lparr>id_host = host, id_sudo_bin = SUDO\<rparr>"

record operator_ids =
  oi_uid :: u32
  oi_gid :: u32

datatype descent_error =
    DE_InvalidCommand bytes
  | DE_InvalidArgument nat
  | DE_InvalidEnvironment bytes bytes
  | DE_InvalidWorkingDirectory bytes
  | DE_InvalidOperator u32 u32

definition operator_ids_new :: "u32 \<Rightarrow> u32 \<Rightarrow> descent_error + operator_ids" where
  "operator_ids_new uid gid =
     (let descendable = (\<lambda>id. id \<noteq> 0 \<and> id \<noteq> - 1) in
      if descendable uid \<and> descendable gid then Inr \<lparr>oi_uid = uid, oi_gid = gid\<rparr>
      else Inl (DE_InvalidOperator uid gid))"

datatype descent = DescentService service_account | DescentOperator operator_ids

definition sudo_descent :: "in_daemon_executor \<Rightarrow> descent \<Rightarrow> process_command" where
  "sudo_descent ex who =
     command_new (id_sudo_bin ex)
       (case who of
          DescentService account \<Rightarrow> [''-u'', service_account_str account]
        | DescentOperator ids \<Rightarrow>
            [''-u'', CHR 0x23 # dec (unat (oi_uid ids)), ''-g'', CHR 0x23 # dec (unat (oi_gid ids))])"

definition with_args :: "process_command \<Rightarrow> bytes list \<Rightarrow> process_command" where
  "with_args c args = c\<lparr>pc_args := pc_args c @ args\<rparr>"

definition in_daemon_resolve_through ::
  "in_daemon_executor \<Rightarrow> identity \<Rightarrow> bytes \<Rightarrow> bytes \<Rightarrow> bytes \<Rightarrow> bytes list \<Rightarrow>
     executor_error + process_command \<times> bool" where
  "in_daemon_resolve_through ex identity shell script command args =
     (case identity of
        Operator \<Rightarrow> Inl (EX_NoOperatorIdentity (id_host ex))
      | RootIdentity \<Rightarrow> Inr (command_new command args, False)
      | ServiceIdentity account \<Rightarrow>
          bind_res (check_sudo_words command args) (\<lambda>_.
          Inr (with_args (sudo_descent ex (DescentService account)) ([shell, ''-c'', script, command] @ args), True)))"

definition in_daemon_resolve ::
  "in_daemon_executor \<Rightarrow> identity \<Rightarrow> bytes \<Rightarrow> bytes list \<Rightarrow> executor_error + process_command \<times> bool" where
  "in_daemon_resolve ex identity command args =
     in_daemon_resolve_through ex identity SH (sudo_sentinel_script None) command args"

definition in_daemon_run ::
  "'s spawner \<Rightarrow> in_daemon_executor \<Rightarrow> identity \<Rightarrow> bytes \<Rightarrow> bytes list \<Rightarrow> 's \<Rightarrow>
     (executor_error + command_output) \<times> 's" where
  "in_daemon_run spawn ex identity command args s =
     (case in_daemon_resolve ex identity command args of
        Inl e \<Rightarrow> (Inl e, s)
      | Inr (cmd, elevated) \<Rightarrow>
          (case spawn_capturing spawn cmd (pc_program cmd) None s of
             (r, s') \<Rightarrow>
               (bind_res r (\<lambda>output. if elevated then classify_elevation output None (id_host ex) else Inr output),
                s')))"

subsection \<open>Descents\<close>

definition holds_outcome_word :: "bytes \<Rightarrow> bool" where
  "holds_outcome_word word \<longleftrightarrow>
     list_ex (\<lambda>outcome. find_sub word outcome \<noteq> None) [SUDO_OK_SENTINEL, NO_WORKING_DIRECTORY_MARKER]"

definition is_ascii_alphabetic :: "byte \<Rightarrow> bool" where
  "is_ascii_alphabetic b \<longleftrightarrow> is_ascii_lowercase b \<or> is_ascii_uppercase b"

definition is_env_name :: "bytes \<Rightarrow> bool" where
  "is_env_name name =
     (case name of
        [] \<Rightarrow> False
      | first # rest \<Rightarrow>
          (is_ascii_alphabetic first \<or> first = CHR ''_'') \<and>
          list_all (\<lambda>b. is_ascii_alphanumeric b \<or> b = CHR ''_'') rest)"

record descent_profile =
  dp_env :: "(bytes \<times> bytes) list"
  dp_cwd :: bytes

fun check_environment :: "bytes list \<Rightarrow> (bytes \<times> bytes) list \<Rightarrow> descent_error + unit" where
  "check_environment seen [] = Inr ()"
| "check_environment seen ((name, v) # rest) =
     (if \<not> is_env_name name then Inl (DE_InvalidEnvironment name ''is not a name of the form [A-Za-z_][A-Za-z0-9_]*'')
      else if name \<in> set seen then Inl (DE_InvalidEnvironment name ''is given more than once'')
      else if CHR 0x00 \<in> set v then Inl (DE_InvalidEnvironment name ''has a value containing a NUL byte'')
      else if holds_outcome_word name \<or> holds_outcome_word v then
        Inl (DE_InvalidEnvironment name ''holds a word the descent reports its outcome with'')
      else check_environment (name # seen) rest)"

definition check_descent :: "bytes \<Rightarrow> bytes list \<Rightarrow> descent_profile \<Rightarrow> descent_error + unit" where
  "check_descent command args profile =
     (if \<not> is_absolute_and_plain command \<or> holds_outcome_word command then Inl (DE_InvalidCommand command)
      else case position holds_outcome_word args of
        Some index \<Rightarrow> Inl (DE_InvalidArgument index)
      | None \<Rightarrow>
          bind_res (check_environment [] (dp_env profile)) (\<lambda>_.
          let cwd = dp_cwd profile in
          if \<not> starts_with ''/'' cwd \<or> CHR 0x00 \<in> set cwd \<or> holds_outcome_word cwd
          then Inl (DE_InvalidWorkingDirectory cwd) else Inr ()))"

definition descent_command ::
  "in_daemon_executor \<Rightarrow> descent \<Rightarrow> bytes \<Rightarrow> bytes list \<Rightarrow> descent_profile \<Rightarrow> descent_error + process_command" where
  "descent_command ex who command args profile =
     bind_res (check_descent command args profile) (\<lambda>_.
     Inr ((with_args (sudo_descent ex who)
       ([SUPERVISOR_SHELL, ''-c'', descent_script, DESCENT_ARG0, dp_cwd profile] @
        map (\<lambda>(name, v). name @ CHR ''='' # v) (dp_env profile) @ [command] @ args))
       \<lparr>pc_current_dir := Some ''/''\<rparr>))"

datatype descent_settle =
    DS_Pending
  | DS_Started nat
  | DS_NoWorkingDirectory bytes
  | DS_Refused executor_error

definition settle_descent :: "in_daemon_executor \<Rightarrow> bytes \<Rightarrow> bool \<Rightarrow> descent_settle" where
  "settle_descent ex stderr at_end =
     (let capped = (\<lambda>n. take (min n TRANSPORT_STDERR_LIMIT) stderr);
          decide = (\<lambda>transport overran.
            let before_any_start = take transport stderr in
            case find_sub before_any_start NO_WORKING_DIRECTORY_MARKER of
              Some at \<Rightarrow> DS_NoWorkingDirectory (trim (from_utf8_lossy (capped at)))
            | None \<Rightarrow>
                if overran then DS_Refused (elevation_refusal (capped transport) None (id_host ex))
                else if at_end then DS_Refused (elevation_refusal stderr None (id_host ex))
                else DS_Pending)
      in case announcement_of stderr of
           Started start \<Rightarrow> DS_Started start
         | Overran transport \<Rightarrow> decide transport True
         | Undecided \<Rightarrow> decide (length stderr) False)"

end
