(* ===== verification/Executor_Runs.thy ===== *)
theory Executor_Runs
  imports Executor_Bounded
begin

text \<open>
  The loops that drive a child process (\<open>src/executor/bounded.rs\<close>, \<open>src/executor/channel.rs\<close>) and the
  runs the three executors build on them (\<open>src/executor.rs\<close>). What the operating system answers is a
  script: one entry for every turn of a loop, holding what the clock, \<open>poll\<close>, the reads and the writes
  of that turn give. A loop whose script runs out is still running, which is the value \<open>None\<close>.
\<close>

section \<open>Spawning\<close>

definition SPAWN_TEXT_BUSY_RETRIES :: nat where "SPAWN_TEXT_BUSY_RETRIES = 8"

datatype spawn_error = TextFileBusy bytes | SpawnRefused bytes

fun spawn_message :: "spawn_error \<Rightarrow> bytes" where
  "spawn_message (TextFileBusy msg) = msg"
| "spawn_message (SpawnRefused msg) = msg"

fun spawn_retrying :: "nat \<Rightarrow> ('s \<Rightarrow> (spawn_error + unit) \<times> 's) \<Rightarrow> 's \<Rightarrow> (spawn_error + unit) \<times> 's" where
  "spawn_retrying 0 spawn s = spawn s"
| "spawn_retrying (Suc n) spawn s =
     (case spawn s of
        (Inl (TextFileBusy _), s') \<Rightarrow> spawn_retrying n spawn s'
      | result \<Rightarrow> result)"

definition spawn_retrying_text_busy :: "('s \<Rightarrow> (spawn_error + unit) \<times> 's) \<Rightarrow> 's \<Rightarrow> (spawn_error + unit) \<times> 's" where
  "spawn_retrying_text_busy = spawn_retrying SPAWN_TEXT_BUSY_RETRIES"

text \<open>The answers of a script of spawn attempts, one per attempt; an attempt past its end succeeds.\<close>

fun spawn_answer :: "spawn_error list \<Rightarrow> (spawn_error + unit) \<times> spawn_error list" where
  "spawn_answer [] = (Inr (), [])"
| "spawn_answer (e # es) = (Inl e, es)"

section \<open>One turn of a loop\<close>

datatype poll_answer = PollReady | PollInterrupted | PollFailed bytes

datatype read_answer = ReadEnd | ReadBytes bytes | ReadNotNow | ReadFailed bytes

datatype write_answer = Wrote nat | WriteNotNow | WriteBroken | WriteFailed bytes

text \<open>The three pipes: \<open>None\<close> is a pipe \<open>poll\<close> did not report.\<close>

record pump_turn =
  pt_deadline_over :: bool
  pt_grace_over :: bool
  pt_poll :: poll_answer
  pt_stdin :: "write_answer option"
  pt_stdout :: "read_answer option"
  pt_stderr :: "read_answer option"

section \<open>The pump of a bounded run\<close>

definition READ_CHUNK :: nat where "READ_CHUNK = 8192"

record pump_state =
  ps_stdin :: bool
  ps_stdout :: bool
  ps_stderr :: bool
  ps_written :: nat
  ps_out :: bytes
  ps_err :: bytes
  ps_undecided :: bool

definition pump_start :: "bytes \<Rightarrow> pump_state" where
  "pump_start feed =
     \<lparr>ps_stdin = (feed \<noteq> []), ps_stdout = True, ps_stderr = True, ps_written = 0, ps_out = [], ps_err = [],
      ps_undecided = False\<rparr>"

definition pipes_closed :: "pump_state \<Rightarrow> bool" where
  "pipes_closed st \<longleftrightarrow> \<not> ps_stdin st \<and> \<not> ps_stdout st \<and> \<not> ps_stderr st"

datatype pumped = PumpClosed bytes bytes bool | PumpStopped ended

text \<open>Reading one pipe: the bytes read so far, and whether the pipe reached its end.\<close>

definition drain_pipe :: "bool \<Rightarrow> read_answer option \<Rightarrow> bytes \<Rightarrow> bytes + bytes \<times> bool" where
  "drain_pipe pipe_open answer into =
     (if \<not> pipe_open then Inr (into, False)
      else case answer of
        None \<Rightarrow> Inr (into, False)
      | Some ReadEnd \<Rightarrow> Inr (into, True)
      | Some (ReadBytes bs) \<Rightarrow> Inr (into @ bs, False)
      | Some ReadNotNow \<Rightarrow> Inr (into, False)
      | Some (ReadFailed msg) \<Rightarrow> Inl msg)"

definition feed_pipe :: "bytes \<Rightarrow> pump_turn \<Rightarrow> pump_state \<Rightarrow> bytes + pump_state" where
  "feed_pipe feed turn st =
     (if \<not> ps_stdin st then Inr st
      else case pt_stdin turn of
        None \<Rightarrow> Inr st
      | Some (Wrote count) \<Rightarrow>
          (let written = ps_written st + count in
           Inr (st\<lparr>ps_written := written, ps_stdin := (if length feed \<le> written then False else True)\<rparr>))
      | Some WriteNotNow \<Rightarrow> Inr st
      | Some WriteBroken \<Rightarrow> Inr (st\<lparr>ps_stdin := False\<rparr>)
      | Some (WriteFailed msg) \<Rightarrow> Inl msg)"

text \<open>What the attribution of a turn decides: to stop, or whether the grace runs on.\<close>

definition pump_attribution :: "run_limits \<Rightarrow> framing_spec \<Rightarrow> pump_turn \<Rightarrow> pump_state \<Rightarrow> ended + pump_state" where
  "pump_attribution limits framing turn st =
     (case attribute framing (ps_err st) of
        AtCommand own pending \<Rightarrow>
          if rn_max_stderr limits < own then Inl (Breach Stderr)
          else if rn_max_stderr limits < own + pending then
            (if pt_grace_over turn then Inl (Breach Stderr) else Inr (st\<lparr>ps_undecided := True\<rparr>))
          else Inr (st\<lparr>ps_undecided := False\<rparr>)
      | AtTransport len \<Rightarrow>
          if TRANSPORT_STDERR_LIMIT < len then
            Inl (Abandoned \<lparr>co_code = None, co_stdout = ps_out st, co_stderr = ps_err st\<rparr>)
          else Inr (st\<lparr>ps_undecided := False\<rparr>))"

text \<open>One turn: \<open>Inl\<close> ends the loop, with an error of the system or with what the run stopped on.\<close>

definition pump_step ::
  "run_limits \<Rightarrow> framing_spec \<Rightarrow> bytes \<Rightarrow> pump_turn \<Rightarrow> pump_state \<Rightarrow> (bytes + pumped) + pump_state" where
  "pump_step limits framing feed turn st =
     (if pt_deadline_over turn then Inl (Inr (PumpStopped TimedOut))
      else case pt_poll turn of
        PollInterrupted \<Rightarrow> Inr st
      | PollFailed msg \<Rightarrow> Inl (Inl msg)
      | PollReady \<Rightarrow>
          bind_res (map_err Inl (feed_pipe feed turn st)) (\<lambda>st.
          bind_res (map_err Inl (drain_pipe (ps_stdout st) (pt_stdout turn) (ps_out st))) (\<lambda>(out, at_end).
          let st = st\<lparr>ps_out := out, ps_stdout := (if at_end then False else ps_stdout st)\<rparr> in
          if rn_max_stdout limits < length (ps_out st) then Inl (Inr (PumpStopped (Breach Stdout)))
          else
            bind_res (map_err Inl (drain_pipe (ps_stderr st) (pt_stderr turn) (ps_err st))) (\<lambda>(err, at_end).
            let st = st\<lparr>ps_err := err, ps_stderr := (if at_end then False else ps_stderr st)\<rparr> in
            map_err (Inr \<circ> PumpStopped) (pump_attribution limits framing turn st)))))"

fun pump :: "run_limits \<Rightarrow> framing_spec \<Rightarrow> bytes \<Rightarrow> pump_turn list \<Rightarrow> pump_state \<Rightarrow> (bytes + pumped) option" where
  "pump limits framing feed turns st =
     (if pipes_closed st then Some (Inr (PumpClosed (ps_out st) (ps_err st) (ps_undecided st)))
      else case turns of
        [] \<Rightarrow> None
      | turn # turns \<Rightarrow>
          (case pump_step limits framing feed turn st of
             Inl result \<Rightarrow> Some result
           | Inr st \<Rightarrow> pump limits framing feed turns st))"

declare pump.simps [simp del]

section \<open>Waiting for the exit\<close>

datatype kill_how = KillGroup | KillRelay

datatype signal_sent = TermChild | KillAll

definition terminate :: "kill_how \<Rightarrow> signal_sent list" where
  "terminate kill = (if kill = KillRelay then [TermChild] else []) @ [KillAll]"

text \<open>\<open>try_wait\<close>: an error, no exit yet, or the exit code (none when a signal ended the child).\<close>

record wait_turn =
  wt_wait :: "bytes + int option option"
  wt_deadline_over :: bool
  wt_grace_over :: bool

fun await_exit ::
  "kill_how \<Rightarrow> bool \<Rightarrow> bytes \<Rightarrow> bytes \<Rightarrow> wait_turn list \<Rightarrow> (signal_sent list \<times> (bytes + ended)) option" where
  "await_exit kill undecided stdout stderr [] = None"
| "await_exit kill undecided stdout stderr (turn # turns) =
     (case wt_wait turn of
        Inl msg \<Rightarrow> Some ([], Inl msg)
      | Inr (Some code) \<Rightarrow> Some ([], Inr (Exited \<lparr>co_code = code, co_stdout = stdout, co_stderr = stderr\<rparr>))
      | Inr None \<Rightarrow>
          if wt_deadline_over turn then Some (terminate kill, Inr TimedOut)
          else if undecided \<and> wt_grace_over turn then Some (terminate kill, Inr (Breach Stderr))
          else await_exit kill undecided stdout stderr turns)"

text \<open>What the system answers over one bounded run.\<close>

record run_script =
  rc_spawn :: "spawn_error list"
  rc_nonblocking :: "bytes + unit"
  rc_turns :: "pump_turn list"
  rc_waits :: "wait_turn list"

definition bounded_run ::
  "bytes \<Rightarrow> bytes \<Rightarrow> run_limits \<Rightarrow> framing_spec \<Rightarrow> kill_how \<Rightarrow> run_script \<Rightarrow>
     (signal_sent list \<times> (executor_error + ended)) option" where
  "bounded_run program feed limits framing kill script =
     (case fst (spawn_retrying_text_busy spawn_answer (rc_spawn script)) of
        Inl e \<Rightarrow> Some ([], Inl (EX_Spawn program (spawn_message e)))
      | Inr _ \<Rightarrow>
          (case rc_nonblocking script of
             Inl msg \<Rightarrow> Some (terminate kill, Inl (EX_Spawn program msg))
           | Inr _ \<Rightarrow>
               (case pump limits framing feed (rc_turns script) (pump_start feed) of
                  None \<Rightarrow> None
                | Some (Inl msg) \<Rightarrow> Some (terminate kill, Inl (EX_Spawn program msg))
                | Some (Inr (PumpStopped end_state)) \<Rightarrow> Some (terminate kill, Inr end_state)
                | Some (Inr (PumpClosed stdout stderr undecided)) \<Rightarrow>
                    map_option (\<lambda>(signals, r). (signals, map_err (EX_Spawn program) r))
                      (await_exit kill undecided stdout stderr (rc_waits script)))))"

section \<open>The bounded runs of the executors\<close>

text \<open>A run that was refused before a process was spawned, or the spawned process with its result.\<close>

datatype bounded_outcome =
    NotSpawned run_with_input_error
  | RunAs process_command bytes "(signal_sent list \<times> (run_with_input_error + command_output)) option"

definition spawn_bounded ::
  "run_script \<Rightarrow> process_command \<Rightarrow> bytes \<Rightarrow> bytes \<Rightarrow> run_limits \<Rightarrow> framing_spec \<Rightarrow> kill_how \<Rightarrow>
     (command_output \<Rightarrow> executor_error + command_output) \<Rightarrow> bounded_outcome" where
  "spawn_bounded script cmd feed command limits framing kill settle =
     RunAs cmd feed
       (map_option (\<lambda>(signals, r). (signals,
            bind_res (map_err RW_Executor r) (\<lambda>end_state. finish end_state command limits framing settle)))
          (bounded_run (pc_program cmd) feed limits framing kill script))"

definition not_spawned :: "run_with_input_error + 'a \<Rightarrow> ('a \<Rightarrow> bounded_outcome) \<Rightarrow> bounded_outcome" where
  "not_spawned r k = (case r of Inl e \<Rightarrow> NotSpawned e | Inr a \<Rightarrow> k a)"

definition preamble_feed :: "bytes option \<Rightarrow> bytes \<Rightarrow> bytes" where
  "preamble_feed preamble input = (case preamble of Some feed \<Rightarrow> feed @ input | None \<Rightarrow> input)"

text \<open>
  The two draws of the random source are \<open>nonce\<close> and \<open>timeout_nonce\<close>; the timeout is whole seconds
  and a rest in nanoseconds.
\<close>

record draws =
  dw_nonce :: "bytes option"
  dw_timeout_nonce :: "bytes option"

definition timeout_secs :: "run_limits \<Rightarrow> u64" where
  "timeout_secs limits = u64_of (rn_timeout limits div 1000000000)"

definition timeout_subsec :: "run_limits \<Rightarrow> nat" where
  "timeout_subsec limits = rn_timeout limits mod 1000000000"

definition local_run_bounded ::
  "run_script \<Rightarrow> local_executor \<Rightarrow> draws \<Rightarrow> identity \<Rightarrow> bytes \<Rightarrow> bytes list \<Rightarrow> bytes \<Rightarrow> run_limits \<Rightarrow>
     bounded_outcome" where
  "local_run_bounded script ex draws identity command args input limits =
     not_spawned (map_err RW_Executor (password_handoff (dw_nonce draws) (le_auth ex) identity SUPERVISOR_SHELL)) (\<lambda>handoff.
     not_spawned (map_err RW_Executor
       (supervisor_new (dw_timeout_nonce draws) (timeout_secs limits) (timeout_subsec limits) handoff)) (\<lambda>supervisor.
     not_spawned (map_err RW_Executor
       (local_resolve_through ex identity SUPERVISOR_SHELL (sv_script supervisor) handoff command args)) (\<lambda>resolved.
     let cmd = (if rs_elevated resolved then rs_command resolved else (rs_command resolved)\<lparr>pc_env_clear := True\<rparr>);
         (framing, kill) = (if rs_elevated resolved then (supervisor_framing supervisor False, KillRelay)
                            else (DIRECT, KillGroup))
     in spawn_bounded script cmd (preamble_feed (rs_preamble resolved) input) command limits framing kill
          (\<lambda>output. if rs_elevated resolved then classify_elevation output (Some (le_auth ex)) (le_host ex)
                     else Inr output))))"

definition ssh_run_bounded ::
  "run_script \<Rightarrow> ssh_executor \<Rightarrow> draws \<Rightarrow> identity \<Rightarrow> bytes \<Rightarrow> bytes list \<Rightarrow> bytes \<Rightarrow> run_limits \<Rightarrow>
     bounded_outcome" where
  "ssh_run_bounded script ex draws identity command args input limits =
     not_spawned (map_err RW_Executor (password_handoff (dw_nonce draws) (se_auth ex) identity SUPERVISOR_SHELL)) (\<lambda>handoff.
     not_spawned (map_err RW_Executor
       (supervisor_new (dw_timeout_nonce draws) (timeout_secs limits) (timeout_subsec limits) handoff)) (\<lambda>supervisor.
     not_spawned (map_err RW_Executor
       (ssh_resolve_through ex identity SUPERVISOR_SHELL (sv_script supervisor) handoff
          (Some (sv_script supervisor)) command args)) (\<lambda>resolved.
     spawn_bounded script (with_arg (ssh_command ex) (wrap_with_rc_marker (rr_remote resolved)))
       (preamble_feed (rr_preamble resolved) input) command limits (supervisor_framing supervisor True) KillGroup
       (\<lambda>output.
          bind_res (settle_remote_code ex output) (\<lambda>output.
          if rr_elevated resolved then classify_elevation output (Some (se_auth ex)) (se_host ex)
          else Inr (output\<lparr>co_stderr := snd (take_sudo_sentinel (co_stderr output))\<rparr>))))))"

definition in_daemon_run_bounded ::
  "run_script \<Rightarrow> in_daemon_executor \<Rightarrow> draws \<Rightarrow> identity \<Rightarrow> bytes \<Rightarrow> bytes list \<Rightarrow> bytes \<Rightarrow> run_limits \<Rightarrow>
     bounded_outcome" where
  "in_daemon_run_bounded script ex draws identity command args input limits =
     not_spawned (map_err RW_Executor
       (supervisor_new (dw_timeout_nonce draws) (timeout_secs limits) (timeout_subsec limits) None)) (\<lambda>supervisor.
     not_spawned (map_err RW_Executor
       (in_daemon_resolve_through ex identity SUPERVISOR_SHELL (sv_script supervisor) command args)) (\<lambda>(cmd, elevated).
     let cmd = (if elevated then cmd else cmd\<lparr>pc_env_clear := True\<rparr>);
         (framing, kill) = (if elevated then (supervisor_framing supervisor False, KillRelay) else (DIRECT, KillGroup))
     in spawn_bounded script cmd input command limits framing kill
          (\<lambda>output. if elevated then classify_elevation output None (id_host ex) else Inr output)))"

datatype any_executor = LocalExec local_executor | SshExec ssh_executor | InDaemonExec in_daemon_executor

definition run_with_input ::
  "run_script \<Rightarrow> any_executor \<Rightarrow> draws \<Rightarrow> identity \<Rightarrow> bytes \<Rightarrow> bytes list \<Rightarrow> bytes \<Rightarrow> run_limits \<Rightarrow> bounded_outcome" where
  "run_with_input script executor draws identity command args input limits =
     not_spawned (check_bounded_command command) (\<lambda>_.
     case executor of
       LocalExec ex \<Rightarrow> local_run_bounded script ex draws identity command args input limits
     | SshExec ex \<Rightarrow> ssh_run_bounded script ex draws identity command args input limits
     | InDaemonExec ex \<Rightarrow> in_daemon_run_bounded script ex draws identity command args input limits)"

end
