(* ===== verification/Executor_Channels.thy ===== *)
theory Executor_Channels
  imports Executor_Runs
begin

text \<open>
  Channels (\<open>src/executor/channel.rs\<close>): starting a long-lived command, proving the start, draining its
  standard error and settling its exit. As for bounded runs, what the operating system answers is a
  script.
\<close>

definition STATUS_HOLD :: nat where "STATUS_HOLD = 512"

record channel_limits =
  cl_elevation_timeout :: nat
  cl_max_stderr :: nat

datatype channel_error =
    CE_InvalidCommand bytes
  | CE_ElevationTimedOut bytes nat bytes
  | CE_ExitUnknown bytes bytes
  | CE_Unsupported
  | CE_Executor executor_error

definition check_command :: "bytes \<Rightarrow> channel_error + unit" where
  "check_command command = (if is_absolute_and_plain command then Inr () else Inl (CE_InvalidCommand command))"

definition spawn_failed :: "bytes \<Rightarrow> bytes \<Rightarrow> channel_error" where
  "spawn_failed program source = CE_Executor (EX_Spawn program source)"

section \<open>Proving the start\<close>

record settle_turn =
  st_deadline_over :: bool
  st_poll :: poll_answer
  st_stdin :: "write_answer option"
  st_stderr :: "read_answer option"

text \<open>Writing the password line: how much of it is written by now.\<close>

definition feed_password :: "bytes \<Rightarrow> settle_turn \<Rightarrow> nat \<Rightarrow> bytes + nat" where
  "feed_password unwritten turn written =
     (if \<not> written < length unwritten then Inr written
      else case st_stdin turn of
        None \<Rightarrow> Inr written
      | Some (Wrote count) \<Rightarrow> Inr (written + count)
      | Some WriteNotNow \<Rightarrow> Inr written
      | Some WriteBroken \<Rightarrow> Inr (length unwritten)
      | Some (WriteFailed msg) \<Rightarrow> Inl msg)"

text \<open>The part of a turn behind the clock: \<open>Inl\<close> ends the loop.\<close>

definition settle_step ::
  "bytes \<Rightarrow> settle_turn \<Rightarrow> nat \<Rightarrow> bytes \<Rightarrow> (bytes + settled) + nat \<times> bytes" where
  "settle_step unwritten turn written read_so_far =
     (case st_poll turn of
        PollInterrupted \<Rightarrow> Inr (written, read_so_far)
      | PollFailed msg \<Rightarrow> Inl (Inl msg)
      | PollReady \<Rightarrow>
          bind_res (map_err Inl (feed_password unwritten turn written)) (\<lambda>written.
          case st_stderr turn of
            None \<Rightarrow> Inr (written, read_so_far)
          | Some ReadEnd \<Rightarrow> Inl (Inr (SettledEnded read_so_far))
          | Some (ReadBytes bs) \<Rightarrow> Inr (written, read_so_far @ bs)
          | Some ReadNotNow \<Rightarrow> Inr (written, read_so_far)
          | Some (ReadFailed msg) \<Rightarrow> Inl (Inl msg)))"

fun feed_and_settle :: "bytes \<Rightarrow> settle_turn list \<Rightarrow> nat \<Rightarrow> bytes \<Rightarrow> (bytes + settled) option" where
  "feed_and_settle unwritten turns written read_so_far =
     (case judge read_so_far (length unwritten \<le> written) of
        Some settled \<Rightarrow> Some (Inr settled)
      | None \<Rightarrow>
          (case turns of
             [] \<Rightarrow> None
           | turn # turns \<Rightarrow>
               if st_deadline_over turn then Some (Inr (SettledTimedOut read_so_far))
               else case settle_step unwritten turn written read_so_far of
                 Inl result \<Rightarrow> Some result
               | Inr (written, read_so_far) \<Rightarrow> feed_and_settle unwritten turns written read_so_far))"

declare feed_and_settle.simps [simp del]

text \<open>
  What the system answers over one start: the spawn attempts, the three changes of a pipe's blocking
  mode, the turns of the loop, the write of the handoff line and the start of the draining thread.
\<close>

record start_system =
  ss_spawn :: "spawn_error list"
  ss_stderr_nonblocking :: "bytes + unit"
  ss_stdin_nonblocking :: "bytes + unit"
  ss_stdin_blocking :: "bytes + unit"
  ss_turns :: "settle_turn list"
  ss_handoff :: write_answer
  ss_drain :: "bytes + unit"

definition settle_start :: "start_system \<Rightarrow> bytes option \<Rightarrow> (bytes + settled) option" where
  "settle_start system password =
     (case ss_stderr_nonblocking system of
        Inl msg \<Rightarrow> Some (Inl msg)
      | Inr _ \<Rightarrow>
          (case password of
             None \<Rightarrow> feed_and_settle [] (ss_turns system) 0 []
           | Some password \<Rightarrow>
               (case ss_stdin_nonblocking system of
                  Inl msg \<Rightarrow> Some (Inl msg)
                | Inr _ \<Rightarrow>
                    map_option (\<lambda>r. bind_res r (\<lambda>settled. bind_res (ss_stdin_blocking system) (\<lambda>_. Inr settled)))
                      (feed_and_settle password (ss_turns system) 0 []))))"

definition hand_off :: "write_answer \<Rightarrow> bytes + unit" where
  "hand_off answer = (case answer of WriteFailed msg \<Rightarrow> Inl msg | _ \<Rightarrow> Inr ())"

section \<open>The channel\<close>

record channel =
  ch_sink :: stderr_sink
  ch_remote_host :: "bytes option"
  ch_program :: bytes

text \<open>\<open>Channel::assemble\<close>; the draining thread pushes the first bytes before it reads.\<close>

definition assemble :: "bytes + unit \<Rightarrow> bytes \<Rightarrow> nat \<Rightarrow> bytes option \<Rightarrow> bytes \<Rightarrow> channel_error + channel" where
  "assemble drain first max_stderr remote_host program =
     (let hold = (if remote_host \<noteq> None then STATUS_HOLD else 0) in
      case drain of
        Inr _ \<Rightarrow> Inr \<lparr>ch_sink = sink_push first (sink_new max_stderr hold), ch_remote_host = remote_host,
                       ch_program = program\<rparr>
      | Inl source \<Rightarrow> Inl (spawn_failed program source))"

record channel_start =
  cs_host :: bytes
  cs_password_line :: "bytes option"
  cs_remote_code :: bool
  cs_limits :: channel_limits

text \<open>
  A start gives the result and whether the spawned process was killed and reaped. \<open>refusal\<close> is what the
  executor makes of a transport that ended without the announcement.
\<close>

definition open_started ::
  "start_system \<Rightarrow> process_command \<Rightarrow> channel_start \<Rightarrow> (command_output \<Rightarrow> executor_error) \<Rightarrow>
     (bool \<times> (channel_error + channel)) option" where
  "open_started system command start refusal =
     (let program = pc_program command in
      case fst (spawn_retrying_text_busy spawn_answer (ss_spawn system)) of
        Inl e \<Rightarrow> Some (False, Inl (spawn_failed program (spawn_message e)))
      | Inr _ \<Rightarrow>
          map_option (\<lambda>settled.
            case bind_res settled (\<lambda>settled.
                case settled of
                  SettledStarted _ \<Rightarrow> bind_res (hand_off (ss_handoff system)) (\<lambda>_. Inr settled)
                | _ \<Rightarrow> Inr settled) of
              Inl source \<Rightarrow> (True, Inl (spawn_failed program source))
            | Inr (SettledEnded stderr) \<Rightarrow>
                (True, Inl (CE_Executor (refusal \<lparr>co_code = None, co_stdout = [], co_stderr = stderr\<rparr>)))
            | Inr (SettledTimedOut stderr) \<Rightarrow>
                (True, Inl (CE_ElevationTimedOut (cs_host start) (cl_elevation_timeout (cs_limits start))
                  (trim (from_utf8_lossy stderr))))
            | Inr (SettledStarted started) \<Rightarrow>
                (let opened = assemble (ss_drain system) started (cl_max_stderr (cs_limits start))
                       (if cs_remote_code start then Some (cs_host start) else None) program
                 in (\<not> is_ok opened, opened)))
            (settle_start system (cs_password_line start)))"

definition open_direct ::
  "start_system \<Rightarrow> process_command \<Rightarrow> nat \<Rightarrow> bool \<times> (channel_error + channel)" where
  "open_direct system command max_stderr =
     (let program = pc_program command in
      case fst (spawn_retrying_text_busy spawn_answer (ss_spawn system)) of
        Inl e \<Rightarrow> (False, Inl (spawn_failed program (spawn_message e)))
      | Inr _ \<Rightarrow>
          (let opened = assemble (ss_drain system) [] max_stderr None program in (\<not> is_ok opened, opened)))"

subsection \<open>Opening one through an executor\<close>

datatype channel_outcome =
    NotOpened channel_error
  | OpenedAs process_command "(bool \<times> (channel_error + channel)) option"

definition not_opened :: "channel_error + 'a \<Rightarrow> ('a \<Rightarrow> channel_outcome) \<Rightarrow> channel_outcome" where
  "not_opened r k = (case r of Inl e \<Rightarrow> NotOpened e | Inr a \<Rightarrow> k a)"

definition start_handoff :: "bytes option \<Rightarrow> executor_error + handoff" where
  "start_handoff nonce = handoff_new nonce SUPERVISOR_SHELL"

definition local_open_channel ::
  "start_system \<Rightarrow> local_executor \<Rightarrow> bytes option \<Rightarrow> identity \<Rightarrow> bytes \<Rightarrow> bytes list \<Rightarrow> channel_limits \<Rightarrow>
     channel_outcome" where
  "local_open_channel system ex nonce identity command args limits =
     not_opened (check_command command) (\<lambda>_.
     not_opened (map_err CE_Executor (start_handoff nonce)) (\<lambda>h.
     not_opened (map_err CE_Executor
       (local_resolve_through ex identity SUPERVISOR_SHELL (start_script h) None command args)) (\<lambda>resolved.
     if \<not> rs_elevated resolved then
       (let cmd = (rs_command resolved)\<lparr>pc_env_clear := True\<rparr> in
        OpenedAs cmd (Some (open_direct system cmd (cl_max_stderr limits))))
     else
       OpenedAs (rs_command resolved)
         (open_started system (rs_command resolved)
            \<lparr>cs_host = le_host ex, cs_password_line = rs_preamble resolved, cs_remote_code = False, cs_limits = limits\<rparr>
            (\<lambda>output. elevation_refusal (co_stderr output) (Some (le_auth ex)) (le_host ex))))))"

definition ssh_open_channel ::
  "start_system \<Rightarrow> ssh_executor \<Rightarrow> bytes option \<Rightarrow> identity \<Rightarrow> bytes \<Rightarrow> bytes list \<Rightarrow> channel_limits \<Rightarrow>
     channel_outcome" where
  "ssh_open_channel system ex nonce identity command args limits =
     not_opened (check_command command) (\<lambda>_.
     not_opened (map_err CE_Executor (start_handoff nonce)) (\<lambda>h.
     not_opened (map_err CE_Executor
       (ssh_resolve_through ex identity SUPERVISOR_SHELL (start_script h) None (Some (start_script h)) command args))
       (\<lambda>resolved.
     let cmd = with_arg (ssh_command ex) (wrap_with_rc_marker (rr_remote resolved)) in
     OpenedAs cmd
       (open_started system cmd
          \<lparr>cs_host = se_host ex, cs_password_line = rr_preamble resolved, cs_remote_code = True, cs_limits = limits\<rparr>
          (\<lambda>output.
             case settle_remote_code ex output of
               Inl connection \<Rightarrow> connection
             | Inr output \<Rightarrow>
                 elevation_refusal (co_stderr output) (if rr_elevated resolved then Some (se_auth ex) else None)
                   (se_host ex))))))"

section \<open>Draining and settling the exit\<close>

record drain_turn =
  dt_poll :: poll_answer
  dt_stop :: bool
  dt_stderr :: "read_answer option"

fun drain :: "drain_turn list \<Rightarrow> stderr_sink \<Rightarrow> (bytes + drained) option" where
  "drain [] sink = None"
| "drain (turn # turns) sink =
     (case dt_poll turn of
        PollInterrupted \<Rightarrow> drain turns sink
      | PollFailed msg \<Rightarrow> Some (Inl msg)
      | PollReady \<Rightarrow>
          if dt_stop turn then Some (Inr (sink_finish False sink))
          else case dt_stderr turn of
            None \<Rightarrow> drain turns sink
          | Some ReadEnd \<Rightarrow> Some (Inr (sink_finish True sink))
          | Some (ReadBytes bs) \<Rightarrow> drain turns (sink_push bs sink)
          | Some ReadNotNow \<Rightarrow> drain turns sink
          | Some (ReadFailed msg) \<Rightarrow> Some (Inl msg))"

record channel_exit =
  cx_code :: "int option"
  cx_stderr :: bytes
  cx_stderr_truncated :: bool

text \<open>An exit status and how the system writes it.\<close>

record exit_status =
  es_code :: "int option"
  es_text :: bytes

definition exit_success :: "exit_status \<Rightarrow> bool" where
  "exit_success status \<longleftrightarrow> es_code status = Some 0"

definition channel_wait ::
  "channel \<Rightarrow> bytes + exit_status \<Rightarrow> bytes + drained \<Rightarrow> channel_error + channel_exit" where
  "channel_wait ch waited stopped =
     bind_res (map_err (spawn_failed (ch_program ch)) waited) (\<lambda>status.
     bind_res (map_err (spawn_failed (ch_program ch)) stopped) (\<lambda>drained.
     bind_res
       (case (ch_remote_host ch, dr_remote_code drained) of
          (None, _) \<Rightarrow> Inr (es_code status)
        | (Some host, remote_code) \<Rightarrow>
            if remote_code \<noteq> None \<and> exit_success status then Inr remote_code
            else
              (let ending = (if dr_ended drained then ''standard error ended''
                             else ''standard error had not ended 5 seconds later'');
                   missing = (if remote_code \<noteq> None
                     then ''after standard error ended on an exit-status line the wrapper did not deliver''
                     else ''without reporting the remote exit status'')
               in Inl (CE_ExitUnknown host
                    (CHR 0x60 # ch_program ch @ CHR 0x60 # '' exited ('' @ es_text status @ '') '' @ missing @
                     ''; '' @ ending @ '' with: '' @ trim (from_utf8_lossy (dr_tail drained)))))) (\<lambda>code.
     Inr \<lparr>cx_code = code, cx_stderr = dr_stderr drained,
          cx_stderr_truncated = dr_truncated drained \<or> \<not> dr_ended drained\<rparr>)))"

end
