(* ===== verification/Executor_Correct.thy ===== *)
theory Executor_Correct
  imports Executor_Bounded
begin

text \<open>
  The execution protocols: what a remote shell makes of a quoted command line, what is recovered from
  the streams of an elevated, remote or bounded command, and that the words an elevated command is
  started with cannot fake its own announcement.
\<close>

section \<open>What a shell reads\<close>

text \<open>
  The word splitting of a POSIX shell on the text this library writes: blanks separate words, a
  backslash quotes the next byte, single quotes quote everything up to the next one, and the listed
  bytes stand for themselves. Any other text, an operator, an expansion or a pattern, is not a plain
  list of words: \<open>None\<close>.
\<close>

definition ordinary :: "byte \<Rightarrow> bool" where
  "ordinary c \<longleftrightarrow> is_ascii_alphanumeric c \<or> c \<in> set ''-_./:,+@%''"

fun shell_words :: "bytes option \<Rightarrow> bytes \<Rightarrow> bytes list option"
and in_quotes :: "bytes \<Rightarrow> bytes \<Rightarrow> bytes list option" where
  "shell_words w [] = Some (case w of None \<Rightarrow> [] | Some x \<Rightarrow> [x])"
| "shell_words w (c # cs) =
     (let x = (case w of None \<Rightarrow> [] | Some x \<Rightarrow> x) in
      if c = CHR '' '' then
        (case w of None \<Rightarrow> shell_words None cs | Some x \<Rightarrow> map_option ((#) x) (shell_words None cs))
      else if c = quote_byte then in_quotes x cs
      else if c = CHR 0x5C then
        (case cs of [] \<Rightarrow> None | d # ds \<Rightarrow> if d = newline then shell_words w ds else shell_words (Some (x @ [d])) ds)
      else if ordinary c then shell_words (Some (x @ [c])) cs
      else None)"
| "in_quotes x [] = None"
| "in_quotes x (c # cs) = (if c = quote_byte then shell_words (Some x) cs else in_quotes (x @ [c]) cs)"

definition quote_body :: "bytes \<Rightarrow> bytes" where
  "quote_body arg =
     concat (map (\<lambda>ch. if ch = quote_byte then [quote_byte, CHR 0x5C, quote_byte, quote_byte] else [ch]) arg)"

lemma shell_quote_body: "shell_quote arg = quote_byte # quote_body arg @ [quote_byte]"
  by (simp add: shell_quote_def quote_body_def)

lemma quote_body_simps [simp]:
  "quote_body [] = []"
  "quote_body (c # cs) = (if c = quote_byte then [quote_byte, CHR 0x5C, quote_byte, quote_byte] else [c]) @ quote_body cs"
  "quote_body (a @ b) = quote_body a @ quote_body b"
  by (simp_all add: quote_body_def)

lemma in_quotes_body: "in_quotes x (quote_body arg @ quote_byte # rest) = shell_words (Some (x @ arg)) rest"
proof (induction arg arbitrary: x)
  case (Cons c arg)
  from Cons [of "x @ [c]"] show ?case by (cases "c = quote_byte") (simp_all add: Let_def)
qed simp

lemma words_quoted: "shell_words None (shell_quote arg @ rest) = shell_words (Some arg) rest"
  using in_quotes_body [of "[]" arg rest] by (simp add: shell_quote_body)

lemma words_blank: "shell_words (Some x) (CHR '' '' # rest) = map_option ((#) x) (shell_words None rest)"
  by simp

lemma words_plain: "list_all ordinary w \<Longrightarrow> shell_words (Some x) (w @ rest) = shell_words (Some (x @ w)) rest"
proof (induction w arbitrary: x)
  case (Cons c w)
  then have "ordinary c" "c \<noteq> CHR '' ''" "c \<noteq> quote_byte" "c \<noteq> CHR 0x5C"
    by (auto simp: ordinary_def is_ascii_alphanumeric_def is_ascii_digit_def is_ascii_lowercase_def
        is_ascii_uppercase_def)
  with Cons show ?case by (simp add: Let_def)
qed simp

lemma words_plain_new:
  "list_all ordinary w \<Longrightarrow> w \<noteq> [] \<Longrightarrow> shell_words None (w @ rest) = shell_words (Some w) rest"
proof (cases w)
  case (Cons c v)
  assume "list_all ordinary w"
  with Cons have c: "ordinary c" "c \<noteq> CHR '' ''" "c \<noteq> quote_byte" "c \<noteq> CHR 0x5C" and v: "list_all ordinary v"
    by (auto simp: ordinary_def is_ascii_alphanumeric_def is_ascii_digit_def is_ascii_lowercase_def
        is_ascii_uppercase_def)
  from words_plain [OF v, of "[c]" rest] c Cons show ?thesis by (simp add: Let_def)
qed simp

lemma shell_join_simps:
  "shell_join [] = []" "shell_join [w] = shell_quote w"
  "shell_join (w # v # ws) = shell_quote w @ CHR '' '' # shell_join (v # ws)"
  by (simp_all add: shell_join_def join_words_def)

lemma words_of_join: "ws \<noteq> [] \<Longrightarrow> shell_words None (shell_join ws) = Some ws"
proof (induction ws rule: induct_list012)
  case (2 w)
  then show ?case using words_quoted [of w "[]"] by (simp add: shell_join_simps)
next
  case (3 w v ws)
  then show ?case using words_quoted [of w "CHR '' '' # shell_join (v # ws)"] by (simp add: shell_join_simps)
qed simp

text \<open>
  C20: what the shell of a remote host runs is what would be run locally. For every identity, way of
  authentication, command and arguments, whatever bytes they hold, the SSH executor and the local one
  refuse alike, and otherwise the shell splits the remote command line into exactly the program and
  the arguments the local executor starts, with the same bytes ahead of the command's own input.
\<close>

theorem remote_runs_what_local_runs:
  assumes "se_remote_sudo ssh = SUDO" "le_sudo_bin ex = SUDO" "se_auth ssh = le_auth ex"
  shows "(case (ssh_resolve ssh nonce identity command args, local_resolve ex nonce identity command args) of
      (Inl e, Inl e') \<Rightarrow> e = e'
    | (Inr remote, Inr here) \<Rightarrow>
        shell_words None (rr_remote remote) = Some (pc_program (rs_command here) # pc_args (rs_command here)) \<and>
        rr_preamble remote = rs_preamble here \<and> rr_elevated remote = rs_elevated here
    | _ \<Rightarrow> False)"
proof (cases "password_handoff nonce (le_auth ex) identity SH")
  case (Inl e)
  with assms show ?thesis by (simp add: ssh_resolve_def local_resolve_def)
next
  case (Inr handoff)
  let ?script = "sudo_sentinel_script handoff"
  let ?words = "[SH, ''-c'', ?script, command] @ args"
  have flags: "shell_words None (SUDO @ '' '' @ ''-n'' @ rest) = map_option ((#) SUDO) (shell_words (Some ''-n'') rest)"
    "shell_words None (SUDO @ '' '' @ ''-S -p '' @ [quote_byte, quote_byte] @ rest) =
      map_option (\<lambda>ws. SUDO # ''-S'' # ''-p'' # ws) (shell_words (Some []) rest)" for rest
    by (simp_all add: SUDO_def ordinary_def is_ascii_alphanumeric_def is_ascii_digit_def is_ascii_lowercase_def
        is_ascii_uppercase_def option.map_comp o_def)
  have descent: "shell_words (Some w) ('' -u '' @ shell_quote a @ '' '' @ rest) =
      map_option (\<lambda>ws. w # ''-u'' # a # ws) (shell_words None rest)" for w a rest
    using words_quoted [of a "'' '' @ rest"]
    by (simp add: ordinary_def is_ascii_alphanumeric_def is_ascii_digit_def is_ascii_lowercase_def
        is_ascii_uppercase_def option.map_comp o_def)
  have line: "shell_words None (shell_join ?words) = Some ?words" by (rule words_of_join) simp
  have operator_line: "shell_words None (shell_join (command # args)) = Some (command # args)"
    by (rule words_of_join) simp
  show ?thesis
  proof (cases "elevation_of identity")
    case None
    with Inr assms operator_line show ?thesis
      by (simp add: ssh_resolve_def local_resolve_def ssh_resolve_through_def local_resolve_through_def command_new_def)
  next
    case (Some elevation)
    show ?thesis
    proof (cases "check_sudo_words command args")
      case (Inl e)
      with Some Inr assms show ?thesis
        by (simp add: ssh_resolve_def local_resolve_def ssh_resolve_through_def local_resolve_through_def)
    next
      case checked: (Inr u)
      show ?thesis
        using Some Inr assms checked line flags descent
        by (cases "le_auth ex"; cases elevation)
          (simp_all add: ssh_resolve_def local_resolve_def ssh_resolve_through_def local_resolve_through_def
            command_new_def)
    qed
  qed
qed


definition sample_ssh :: ssh_executor where
  "sample_ssh = ssh_from_config None ''host'' \<lparr>sh_user = ''op'', sh_port = 22, sh_key = ''key'', sh_host_key = StrictKeys\<rparr>
     ''192.0.2.1'' (Password ''pw'') PromptAllow"

theorem remote_runs_what_local_runs_witness:
  "\<exists>remote here. ssh_resolve sample_ssh (Some [CHR 0x01]) RootIdentity ''echo'' [''it'' @ [quote_byte] @ ''s'', ''$x''] = Inr remote \<and>
     local_resolve (local_new ''host'' (Password ''pw'')) (Some [CHR 0x01]) RootIdentity ''echo'' [''it'' @ [quote_byte] @ ''s'', ''$x''] = Inr here \<and>
     shell_words None (rr_remote remote) = Some (pc_program (rs_command here) # pc_args (rs_command here))"
proof -
  let ?args = "[''it'' @ [quote_byte] @ ''s'', ''$x'']"
  have l: "\<exists>here. local_resolve (local_new ''host'' (Password ''pw'')) (Some [CHR 0x01]) RootIdentity ''echo'' ?args = Inr here"
    by (simp add: local_resolve_def local_new_def password_handoff_def handoff_new_def local_resolve_through_def
        check_sudo_words_def contains_sub_def SUDO_OK_SENTINEL_def starts_with_def)
  then show ?thesis
    using remote_runs_what_local_runs [of sample_ssh "local_new ''host'' (Password ''pw'')" "Some [CHR 0x01]"
        RootIdentity "''echo''" ?args]
    by (auto simp: sample_ssh_def ssh_from_config_def local_new_def split: sum.splits)
qed

section \<open>The exit-status line\<close>

definition status_line :: "nat \<Rightarrow> bytes" where
  "status_line n = newline # RC_MARKER @ dec n @ [newline]"

lemma dec_free: "c \<in> set (dec n) \<Longrightarrow> is_ascii_digit c"
  using dec_digits [of n] by (auto simp: list_all_iff)

lemma digits_no_marker: "list_all is_ascii_digit ds \<Longrightarrow> set tail \<subseteq> {newline} \<Longrightarrow> \<not> contains_sub (ds @ tail) RC_MARKER"
proof
  assume ds: "list_all is_ascii_digit ds" "set tail \<subseteq> {newline}" and "contains_sub (ds @ tail) RC_MARKER"
  then obtain a b where e: "ds @ tail = a @ RC_MARKER @ b" by (auto simp: contains_sub_iff)
  have "CHR ''_'' \<in> set (ds @ tail)" unfolding e by (simp add: RC_MARKER_def)
  with ds show False by (auto simp: list_all_iff is_ascii_digit_def)
qed

lemma last_marker:
  assumes "list_all is_ascii_digit ds" "set tail \<subseteq> {newline}"
  shows "rfind_sub (a @ RC_MARKER @ ds @ tail) RC_MARKER = Some (length a)"
proof (rule rfind_sub_last)
  have "contains_sub (tl RC_MARKER @ ds @ tail) RC_MARKER \<longleftrightarrow> contains_sub (ds @ tail) RC_MARKER"
    by (simp add: RC_MARKER_def contains_sub_def starts_with_def)
  with digits_no_marker [OF assms] show "\<not> contains_sub (tl RC_MARKER @ ds @ tail) RC_MARKER" by simp
qed (simp add: RC_MARKER_def)

lemma digits_utf8: "list_all is_ascii_digit ds \<Longrightarrow> is_utf8 ds"
  by (rule is_utf8_ascii) (auto simp: list_all_iff is_ascii_digit_def)

lemma extract_status:
  assumes "n < 2 ^ 31"
  shows "extract_remote_code (stderr @ status_line n) = Some (length stderr + 1, int n)"
proof -
  have "takeWhile (\<lambda>b. b \<noteq> newline) (dec n @ [newline]) = dec n"
    by (rule takeWhile_tail [where P = "\<lambda>b. b \<noteq> newline", simplified] takeWhile_append2 [THEN trans])
      (auto dest: dec_free simp: is_ascii_digit_def)
  moreover have "rfind_sub ((stderr @ [newline]) @ RC_MARKER @ dec n @ [newline]) RC_MARKER = Some (length (stderr @ [newline]))"
    by (rule last_marker) auto
  ultimately show ?thesis
    using parse_i32_dec [OF assms] digits_utf8 [OF dec_digits]
    by (simp add: extract_remote_code_def status_line_def Let_def)
qed

text \<open>
  The exit status and the standard error of a remote command are recovered exactly. Whatever the
  command wrote, a look-alike of the status line included, the line the wrapper appends is the one
  that is read and taken off, and nothing else is.
\<close>

theorem remote_code_roundtrip:
  assumes "n < 2 ^ 31"
  shows "settle_remote_code ex \<lparr>co_code = c, co_stdout = out, co_stderr = stderr @ status_line n\<rparr> =
    Inr \<lparr>co_code = Some (int n), co_stdout = out, co_stderr = stderr\<rparr>"
  using extract_status [OF assms, of stderr]
  by (simp add: settle_remote_code_def status_line_def nth_append)

theorem remote_code_roundtrip_witness:
  "settle_remote_code sample_ssh \<lparr>co_code = Some 0, co_stdout = [], co_stderr = RC_MARKER @ ''0'' @ status_line 255\<rparr> =
     Inr \<lparr>co_code = Some 255, co_stdout = [], co_stderr = RC_MARKER @ ''0''\<rparr>"
  using remote_code_roundtrip [of 255 sample_ssh "Some 0" "[]" "RC_MARKER @ ''0''"] by simp

section \<open>The announcement cannot be faked by the words\<close>

lemma contains_missing: "c \<in> set needle \<Longrightarrow> c \<notin> set hay \<Longrightarrow> \<not> contains_sub hay needle"
  by (auto simp: contains_sub_iff)

lemma quote_not_in_sentinel: "quote_byte \<notin> set SUDO_OK_SENTINEL" "CHR '' '' \<notin> set SUDO_OK_SENTINEL"
  "CHR 0x5C \<notin> set SUDO_OK_SENTINEL" "SUDO_OK_SENTINEL \<noteq> []"
  by (simp_all add: SUDO_OK_SENTINEL_def)

lemma contains_quote_body: "contains_sub (quote_body w) SUDO_OK_SENTINEL = contains_sub w SUDO_OK_SENTINEL"
proof (induction "length w" arbitrary: w rule: less_induct)
  case less
  show ?case
  proof (cases "split_once quote_byte w")
    case None
    then have "quote_byte \<notin> set w" by (simp add: split_once_None)
    then have "quote_body w = w" by (induction w) auto
    then show ?thesis by simp
  next
    case (Some ab)
    then obtain a b where w: "w = a @ quote_byte # b" "quote_byte \<notin> set a"
      by (cases ab) (auto simp: split_once_Some)
    then have "quote_body a = a" by (induction a arbitrary: w) auto
    then have "quote_body w = a @ quote_byte # CHR 0x5C # quote_byte # quote_byte # quote_body b" using w by simp
    moreover have "contains_sub (quote_body b) SUDO_OK_SENTINEL = contains_sub b SUDO_OK_SENTINEL"
      using less [of b] w by simp
    ultimately show ?thesis using w
      by (simp add: contains_sub_split contains_sub_Cons quote_not_in_sentinel)
  qed
qed

lemma contains_shell_quote: "contains_sub (shell_quote w) SUDO_OK_SENTINEL = contains_sub w SUDO_OK_SENTINEL"
proof -
  have "\<not> contains_sub [] SUDO_OK_SENTINEL" by (simp add: contains_sub_def SUDO_OK_SENTINEL_def)
  then show ?thesis
    using contains_sub_split [OF quote_not_in_sentinel(1), of "quote_body w" "[]"]
    by (simp add: shell_quote_body contains_sub_Cons quote_not_in_sentinel contains_quote_body)
qed

lemma contains_shell_join:
  "contains_sub (shell_join ws) SUDO_OK_SENTINEL \<longleftrightarrow> (\<exists>w\<in>set ws. contains_sub w SUDO_OK_SENTINEL)"
proof (induction ws rule: induct_list012)
  case 1
  then show ?case by (simp add: shell_join_simps contains_sub_def SUDO_OK_SENTINEL_def)
next
  case (3 w v ws)
  then show ?case
    by (simp add: shell_join_simps contains_sub_split quote_not_in_sentinel contains_shell_quote)
qed (simp add: shell_join_simps contains_shell_quote)

lemma print_split_hides:
  assumes "CHR ''K'' \<notin> set rest" "CHR ''K'' \<notin> set (dec fd)"
  shows "\<not> contains_sub (print_split SUDO_OK_SENTINEL fd @ rest) SUDO_OK_SENTINEL"
proof -
  have K: "CHR ''K'' \<in> set SUDO_OK_SENTINEL" and U: "CHR ''B'' \<in> set SUDO_OK_SENTINEL"
    by (simp_all add: SUDO_OK_SENTINEL_def)
  have parts: "print_split SUDO_OK_SENTINEL fd @ rest =
    ''printf '' @ quote_byte # ''%s%s'' @ quote_byte # '' '' @ quote_byte # ''__BOOTLER'' @ quote_byte # '' '' @ quote_byte #
      ''_SUDO_OK__'' @ quote_byte # ('' >&'' @ dec fd @ rest)"
    by (simp add: print_split_def SUDO_OK_SENTINEL_def)
  have "CHR ''K'' \<notin> set ('' >&'' @ dec fd @ rest)" using assms by simp
  note last_piece = contains_missing [OF K this]
  have "\<not> contains_sub ''printf '' SUDO_OK_SENTINEL" "\<not> contains_sub ''%s%s'' SUDO_OK_SENTINEL"
    "\<not> contains_sub '' '' SUDO_OK_SENTINEL" "\<not> contains_sub ''__BOOTLER'' SUDO_OK_SENTINEL"
    by (rule contains_missing [OF K], simp)+
  moreover have "\<not> contains_sub ''_SUDO_OK__'' SUDO_OK_SENTINEL"
    by (rule contains_missing [OF U]) simp
  ultimately show ?thesis
    unfolding parts using last_piece by (simp only: contains_sub_split [OF quote_not_in_sentinel(1)]) simp
qed


lemma hex_no_K: "CHR ''K'' \<notin> set (to_hex bs)"
proof
  assume "CHR ''K'' \<in> set (to_hex bs)"
  from to_hex_lower [OF this] show False by (simp add: hex_nibble_def is_ascii_digit_def)
qed

lemma handoff_no_K: "handoff_new nonce shell = Inr h \<Longrightarrow> CHR ''K'' \<notin> set (hd_line h)"
  using hex_no_K by (auto simp: handoff_new_def HANDOFF_PREFIX_def HANDOFF_SUFFIX_def split: option.splits)

lemma password_handoff_no_K: "password_handoff nonce auth identity shell = Inr (Some h) \<Longrightarrow> CHR ''K'' \<notin> set (hd_line h)"
  using handoff_no_K by (auto simp: password_handoff_def split: sudo_auth.splits option.splits)

lemma dec_no_K: "CHR ''K'' \<notin> set (dec n)"
  by (auto dest: dec_free simp: is_ascii_digit_def)

lemma sentinel_script_hides:
  assumes "password_handoff nonce auth identity shell = Inr handoff"
  shows "\<not> contains_sub (sudo_sentinel_script handoff) SUDO_OK_SENTINEL"
  using print_split_hides [OF _ dec_no_K] password_handoff_no_K assms
  by (cases handoff) (auto simp: sudo_sentinel_script_def handoff_discard_def Let_def)

lemma check_sudo_words_Inr:
  "check_sudo_words command args = Inr u \<longleftrightarrow>
     \<not> contains_sub command SUDO_OK_SENTINEL \<and> (\<forall>w\<in>set args. \<not> contains_sub w SUDO_OK_SENTINEL)"
proof -
  have p: "position p xs = None \<longleftrightarrow> (\<forall>x\<in>set xs. \<not> p x)" for p :: "bytes \<Rightarrow> bool" and xs
    by (induction xs) auto
  show ?thesis
    using p [of "\<lambda>w. contains_sub w SUDO_OK_SENTINEL" args]
    by (auto simp: check_sudo_words_def Let_def split: option.splits)
qed

lemma elevated_words_parts:
  assumes "identity \<noteq> Operator"
  shows "local_resolve ex nonce identity command args = Inr here \<Longrightarrow>
      \<forall>w\<in>set (pc_args (rs_command here)). \<not> contains_sub w SUDO_OK_SENTINEL"
    "se_remote_sudo ssh = SUDO \<Longrightarrow> ssh_resolve ssh nonce identity command args = Inr remote \<Longrightarrow>
      \<not> contains_sub (rr_remote remote) SUDO_OK_SENTINEL"
proof -
  obtain elevation where el: "elevation_of identity = Some elevation" using assms by (cases identity) auto
  have free: "\<not> contains_sub w SUDO_OK_SENTINEL" if "CHR ''K'' \<notin> set w" for w
    using that by (intro contains_missing [of "CHR ''K''"]) (simp_all add: SUDO_OK_SENTINEL_def)
  have account: "CHR ''K'' \<notin> set (service_account_str account)" for account by (cases account) simp_all
  show "\<forall>w\<in>set (pc_args (rs_command here)). \<not> contains_sub w SUDO_OK_SENTINEL"
    if "local_resolve ex nonce identity command args = Inr here"
  proof -
    from that obtain handoff where h: "password_handoff nonce (le_auth ex) identity SH = Inr handoff"
      "local_resolve_through ex identity SH (sudo_sentinel_script handoff) handoff command args = Inr here"
      by (auto simp: local_resolve_def)
    note script = sentinel_script_hides [OF h(1)]
    from h(2) el show ?thesis
      using script free account
      by (cases "le_auth ex"; cases elevation)
        (auto simp: local_resolve_through_def command_new_def check_sudo_words_Inr SH_def)
  qed
  show "\<not> contains_sub (rr_remote remote) SUDO_OK_SENTINEL"
    if "se_remote_sudo ssh = SUDO" "ssh_resolve ssh nonce identity command args = Inr remote"
  proof -
    from that(2) obtain handoff where h: "password_handoff nonce (se_auth ssh) identity SH = Inr handoff"
      "ssh_resolve_through ssh identity SH (sudo_sentinel_script handoff) handoff None command args = Inr remote"
      by (auto simp: ssh_resolve_def)
    note script = sentinel_script_hides [OF h(1)]
    let ?words = "[SH, ''-c'', sudo_sentinel_script handoff, command] @ args"
    have "check_sudo_words command args = Inr ()" using h(2) el by (auto simp: ssh_resolve_through_def)
    then have joined: "\<not> contains_sub (shell_join ?words) SUDO_OK_SENTINEL"
      using script free [of SH] free [of "''-c''"] by (simp add: contains_shell_join check_sudo_words_Inr SH_def)
    have "\<exists>front. rr_remote remote = front @ CHR '' '' # shell_join ?words \<and> CHR ''K'' \<notin> set front"
    proof -
      define flags where "flags = (case se_auth ssh of NonInteractive \<Rightarrow> ''-n''
        | Password _ \<Rightarrow> ''-S -p '' @ [quote_byte, quote_byte])"
      define descent where "descent = (case elevation of Elevate \<Rightarrow> []
        | Descend account \<Rightarrow> '' -u '' @ shell_quote (service_account_str account))"
      have "CHR ''K'' \<notin> set (shell_quote (service_account_str account))" for account
        by (cases account) (simp_all add: shell_quote_def)
      then have "CHR ''K'' \<notin> set (SUDO @ '' '' @ flags @ descent)"
        by (simp add: flags_def descent_def SUDO_def split: sudo_auth.splits elevation.splits)
      moreover have "rr_remote remote = (SUDO @ '' '' @ flags @ descent) @ CHR '' '' # shell_join ?words"
        using h(2) el \<open>se_remote_sudo ssh = SUDO\<close>
        by (auto simp: ssh_resolve_through_def flags_def descent_def split: sudo_auth.splits)
      ultimately show ?thesis by blast
    qed
    then obtain front where front: "rr_remote remote = front @ CHR '' '' # shell_join ?words" "CHR ''K'' \<notin> set front"
      by blast
    show ?thesis
      unfolding front(1) using joined free [OF front(2)]
      by (simp only: contains_sub_split [OF quote_not_in_sentinel(2)]) simp
  qed
qed

text \<open>
  C21: no word an elevated command is started with holds the word that announces the start. The script
  prints the announcement from two halves and the caller's words are checked, so neither the arguments
  of the local \<open>sudo\<close> nor the command line sent to a remote shell holds it, and a \<open>sudo\<close> or a shell that
  echoes its command line in an error cannot announce a start that did not happen.
\<close>

theorem elevated_words_hide_sentinel:
  assumes "identity \<noteq> Operator"
  shows "(local_resolve ex nonce identity command args = Inr here \<longrightarrow>
      (\<forall>w\<in>set (pc_args (rs_command here)). \<not> contains_sub w SUDO_OK_SENTINEL)) \<and>
    (se_remote_sudo ssh = SUDO \<longrightarrow> ssh_resolve ssh nonce identity command args = Inr remote \<longrightarrow>
      \<not> contains_sub (rr_remote remote) SUDO_OK_SENTINEL)"
  using elevated_words_parts [OF assms] by blast

theorem elevated_words_hide_sentinel_witness:
  "\<exists>remote. ssh_resolve sample_ssh (Some [CHR 0x01]) RootIdentity ''ls'' [''/''] = Inr remote \<and>
     \<not> contains_sub (rr_remote remote) SUDO_OK_SENTINEL"
proof -
  have "\<exists>remote. ssh_resolve sample_ssh (Some [CHR 0x01]) RootIdentity ''ls'' [''/''] = Inr remote"
    by (simp add: ssh_resolve_def sample_ssh_def ssh_from_config_def password_handoff_def handoff_new_def
        ssh_resolve_through_def check_sudo_words_def contains_sub_def SUDO_OK_SENTINEL_def starts_with_def)
  then show ?thesis
    using elevated_words_hide_sentinel [of RootIdentity _ "Some [CHR 0x01]" "''ls''" "[''/'']" _ sample_ssh]
    by (auto simp: sample_ssh_def ssh_from_config_def)
qed

section \<open>Announcements\<close>

lemma announcement_stands_parts:
  "announcement_of xs = Started n \<Longrightarrow> announcement_of (xs @ ys) = Started n \<and>
     settle_descent ex (xs @ ys) at_end = DS_Started n"
  "announcement_of xs = Overran n \<Longrightarrow> \<exists>m. announcement_of (xs @ ys) = Overran m \<and> TRANSPORT_STDERR_LIMIT < m"
proof -
  note stays = find_sub_stays [where needle = SUDO_OK_SENTINEL and xs = xs and ys = ys]
  show "announcement_of xs = Started n \<Longrightarrow> announcement_of (xs @ ys) = Started n \<and>
     settle_descent ex (xs @ ys) at_end = DS_Started n"
    using stays by (auto simp: announcement_of_def settle_descent_def split: option.splits if_splits)
  show "\<exists>m. announcement_of (xs @ ys) = Overran m \<and> TRANSPORT_STDERR_LIMIT < m" if "announcement_of xs = Overran n"
  proof (cases "find_sub xs SUDO_OK_SENTINEL")
    case (Some i)
    with that stays show ?thesis by (auto simp: announcement_of_def split: if_splits)
  next
    case None
    with that have over: "TRANSPORT_STDERR_LIMIT < length xs - partial_suffix xs SUDO_OK_SENTINEL"
      by (auto simp: announcement_of_def split: if_splits)
    show ?thesis
    proof (cases "find_sub (xs @ ys) SUDO_OK_SENTINEL")
      case (Some i)
      from find_sub_grows [OF None Some quote_not_in_sentinel(4)] over have "TRANSPORT_STDERR_LIMIT < i" by linarith
      with Some show ?thesis by (simp add: announcement_of_def)
    next
      case no: None
      have "length xs - partial_suffix xs SUDO_OK_SENTINEL \<le> length (xs @ ys) - partial_suffix (xs @ ys) SUDO_OK_SENTINEL"
        using partial_suffix_append [of xs ys SUDO_OK_SENTINEL] by simp
      with no over show ?thesis by (auto simp: announcement_of_def)
    qed
  qed
qed

text \<open>
  A decision about a start stands. Once the standard error read so far announces a start, or shows
  that the transport wrote too much, every longer reading of the same stream says the same, a start at
  the same place; so a descent that was reported started is never later reported refused.
\<close>

theorem announcement_stands:
  "(announcement_of xs = Started n \<longrightarrow>
     announcement_of (xs @ ys) = Started n \<and> settle_descent ex (xs @ ys) at_end = DS_Started n) \<and>
   (announcement_of xs = Overran n \<longrightarrow> (\<exists>m. announcement_of (xs @ ys) = Overran m \<and> TRANSPORT_STDERR_LIMIT < m))"
  using announcement_stands_parts [of xs n ys] by blast

theorem announcement_stands_witness:
  "settle_descent (in_daemon_new ''h'') (SUDO_OK_SENTINEL @ ''oops'') True = DS_Started 19 \<and>
   (\<exists>m. announcement_of (replicate 70000 CHR ''x'' @ SUDO_OK_SENTINEL) = Overran m)"
proof -
  have a: "announcement_of SUDO_OK_SENTINEL = Started 19"
    by (simp add: announcement_of_def SUDO_OK_SENTINEL_def TRANSPORT_STDERR_LIMIT_def starts_with_def)
  have "find_sub (replicate n CHR ''x'') SUDO_OK_SENTINEL = None" for n
    using contains_missing [of "CHR ''K''" SUDO_OK_SENTINEL "replicate n CHR ''x''"]
    by (simp add: contains_sub_def SUDO_OK_SENTINEL_def)
  moreover have "partial_suffix (replicate 70000 CHR ''x'') SUDO_OK_SENTINEL \<le> 18"
    using longest_suffix_bound [of 18 "replicate 70000 CHR ''x''" SUDO_OK_SENTINEL]
    by (simp add: partial_suffix_def SUDO_OK_SENTINEL_def)
  ultimately have "announcement_of (replicate 70000 CHR ''x'') = Overran 70000"
    by (simp add: announcement_of_def TRANSPORT_STDERR_LIMIT_def)
  with announcement_stands [of "replicate 70000 CHR ''x''" 70000 SUDO_OK_SENTINEL "in_daemon_new ''h''" True] a
    announcement_stands [of SUDO_OK_SENTINEL 19 "''oops''" "in_daemon_new ''h''" True]
  show ?thesis by blast
qed

section \<open>Whose bytes\<close>

text \<open>The standard error of a framed run: the transport's, the announcement, the command's, the framing.\<close>

definition announced :: "bytes \<Rightarrow> bool" where
  "announced transport \<longleftrightarrow> find_sub (transport @ SUDO_OK_SENTINEL) SUDO_OK_SENTINEL = Some (length transport)"

text \<open>The framing that may follow the command's bytes: the timeout marker when it timed out, then the status line.\<close>

definition framing_tail :: "framing_spec \<Rightarrow> bool \<Rightarrow> nat \<Rightarrow> bytes" where
  "framing_tail framing timeout n =
     (if timeout then the (fs_timeout_marker framing) else []) @ (if fs_remote_code framing then status_line n else [])"

lemma largest_least: "k \<le> n \<Longrightarrow> p k \<Longrightarrow> k \<le> largest p n"
proof (induction n)
  case (Suc n)
  then show ?case by (cases "k = Suc n") auto
qed simp

lemma dec_short: "n < 1000 \<Longrightarrow> length (dec n) \<le> 3"
  by (simp add: dec.simps [of n] dec.simps [of "n div 10"] dec.simps [of "n div 10 div 10"])

lemma status_prefix:
  assumes "n < 1000" "status_line n = f @ rest" "f \<noteq> []"
  shows "is_remote_code_prefix f 3"
proof -
  from assms obtain r where f: "f = newline # r" and r: "RC_MARKER @ dec n @ [newline] = r @ rest"
    by (cases f) (auto simp: status_line_def)
  show ?thesis
  proof (cases "length r \<le> length RC_MARKER")
    case True
    then have "RC_MARKER = r @ take (length RC_MARKER - length r) rest"
      using arg_cong [OF r, of "take (length RC_MARKER)"] by simp
    then have "starts_with r RC_MARKER" unfolding starts_with_iff by blast
    with True f show ?thesis by (simp add: is_remote_code_prefix_def)
  next
    case False
    then obtain d where d: "r = RC_MARKER @ d" "d \<noteq> []" "dec n @ [newline] = d @ rest"
    proof -
      have "take (length RC_MARKER) r = RC_MARKER"
        using arg_cong [OF r, of "take (length RC_MARKER)"] False by simp
      then have "r = RC_MARKER @ drop (length RC_MARKER) r" by (metis append_take_drop_id)
      with r False that show thesis
        by (metis append.assoc append_Nil2 le_refl same_append_eq)
    qed
    have no: "\<not> is_ascii_digit newline" by (simp add: is_ascii_digit_def)
    show ?thesis
    proof (cases rest rule: rev_cases)
      case Nil
      with d have "d = dec n @ [newline]" by simp
      with f d(1) False dec_short [OF assms(1)] show ?thesis by (simp add: is_remote_code_prefix_def)
    next
      case (snoc ys y)
      with d have "dec n = d @ ys" by simp
      with dec_digits [of n] dec_short [OF assms(1)] have dd: "list_all is_ascii_digit d" "length d \<le> 3" by auto
      with d(2) no have "last d \<noteq> newline" by (metis last_in_set list_all_iff)
      with dd f d(1,2) False show ?thesis by (simp add: is_remote_code_prefix_def)
    qed
  qed
qed

lemma remote_suffix_covers:
  assumes "n < 1000" "status_line n = f @ rest"
  shows "length f \<le> remote_code_suffix (c @ f)"
proof (cases "f = []")
  case False
  have "length f \<le> length (status_line n)" using assms(2) by simp
  also have "\<dots> \<le> 1 + length RC_MARKER + 3 + 1" using dec_short [OF assms(1)] by (simp add: status_line_def)
  finally have "length f \<le> min (length (c @ f)) (1 + length RC_MARKER + 3 + 1)" by simp
  then show ?thesis
    unfolding remote_code_suffix_def Let_def
    using status_prefix [OF assms False] by (intro largest_least) simp_all
qed simp


lemma attribute_own:
  assumes "announced transport" "n < 1000" "fs_timeout_marker framing = Some marker" "marker \<noteq> []"
    "framing_tail framing timeout n = f @ rest"
  shows "\<exists>own pending. attribute framing (transport @ SUDO_OK_SENTINEL @ c @ f) = AtCommand own pending \<and> own \<le> length c"
proof -
  have at: "find_sub (transport @ SUDO_OK_SENTINEL @ c @ f) SUDO_OK_SENTINEL = Some (length transport)"
    using assms(1) by (intro find_sub_at) (simp add: announced_def)
  define remote where "remote = (if fs_remote_code framing then remote_code_suffix (c @ f) else 0)"
  define found where "found = (find_sub (c @ f) marker \<noteq> None)"
  have attr: "attribute framing (transport @ SUDO_OK_SENTINEL @ c @ f) =
    (let pending = max (if found then 0 else partial_suffix (c @ f) marker) remote in
     AtCommand (length (c @ f) - ((if found then length marker else 0) + pending)) pending)"
    using at assms(3) by (simp add: attribute_def remote_def found_def Let_def)
  have "length f \<le> (if found then length marker else 0) + max (if found then 0 else partial_suffix (c @ f) marker) remote"
  proof (cases timeout)
    case False
    then have "f = [] \<or> fs_remote_code framing \<and> status_line n = f @ rest"
      using assms(5) by (auto simp: framing_tail_def split: if_splits)
    then show ?thesis using remote_suffix_covers [OF assms(2), of f rest c] by (auto simp: remote_def)
  next
    case True
    then have tail: "marker @ (if fs_remote_code framing then status_line n else []) = f @ rest"
      using assms(3,5) by (simp add: framing_tail_def)
    show ?thesis
    proof (cases "length f < length marker")
      case True
      then have "marker = f @ drop (length f) marker" "drop (length f) marker \<noteq> []"
        using arg_cong [OF tail, of "take (length f)"] by (simp_all, metis append_take_drop_id)
      from partial_suffix_least [OF refl this, of c] True show ?thesis by auto
    next
      case False
      define g where "g = drop (length marker) f"
      have "take (length marker) f = marker" using arg_cong [OF tail, of "take (length marker)"] False by simp
      then have f: "f = marker @ g" unfolding g_def by (metis append_take_drop_id)
      with tail have g: "f = marker @ g" "(if fs_remote_code framing then status_line n else []) = g @ rest" by simp_all
      have "contains_sub (c @ f) marker" unfolding contains_sub_iff g(1) by (metis append.assoc)
      then have "found" by (simp add: found_def contains_sub_def)
      moreover have "length g \<le> remote"
      proof (cases "fs_remote_code framing")
        case True
        with g remote_suffix_covers [OF assms(2), of g rest "c @ marker"] show ?thesis by (simp add: remote_def)
      next
        case False
        with g(2) show ?thesis by simp
      qed
      ultimately show ?thesis using g(1) by simp
    qed
  qed
  then show ?thesis unfolding attr by (auto simp: Let_def)
qed

text \<open>
  A command is never charged for the framing of its run. Read at any moment, the standard error of
  a framed run attributes to the command no more bytes than the command wrote: the transport's bytes,
  the announcement, the timeout marker and the exit-status line, however much of them has arrived, are
  not counted, so a command within its limit is not stopped for standard error.
\<close>

theorem framing_never_charged:
  assumes "announced transport" "n < 1000" "fs_timeout_marker framing = Some marker" "marker \<noteq> []"
    "framing_tail framing timeout n = arrived @ rest" "length c \<le> rn_max_stderr limits"
  shows "pump_verdict limits framing False stdout (transport @ SUDO_OK_SENTINEL @ c @ arrived) \<noteq> Some (Breach Stderr) \<and>
    (\<exists>own pending. attribute framing (transport @ SUDO_OK_SENTINEL @ c @ arrived) = AtCommand own pending \<and>
      own \<le> length c)"
proof -
  from attribute_own [OF assms(1-5)] obtain own pending where
    a: "attribute framing (transport @ SUDO_OK_SENTINEL @ c @ arrived) = AtCommand own pending" "own \<le> length c" by blast
  with assms(6) show ?thesis by (auto simp: pump_verdict_def)
qed

lemma char7: "char_of (55 :: nat) = CHR ''7''"
  by code_simp

theorem framing_never_charged_witness:
  "pump_verdict \<lparr>rn_max_stdout = 9, rn_max_stderr = 2, rn_timeout = 1\<rparr>
     \<lparr>fs_timeout_marker = Some ''__T__'', fs_remote_code = True\<rparr> False ''out''
     (''Warning'' @ SUDO_OK_SENTINEL @ ''ab'' @ (newline # ''__BOOT'')) \<noteq> Some (Breach Stderr)"
proof -
  have a: "announced ''Warning''"
    by (simp add: announced_def SUDO_OK_SENTINEL_def starts_with_def)
  show ?thesis
    using framing_never_charged [OF a, where n = 7 and marker = "''__T__''" and timeout = False
        and framing = "\<lparr>fs_timeout_marker = Some ''__T__'', fs_remote_code = True\<rparr>"
        and arrived = "newline # ''__BOOT''" and rest = "''LER_RC__:7'' @ [newline]" and c = "''ab''"
        and limits = "\<lparr>rn_max_stdout = 9, rn_max_stderr = 2, rn_timeout = 1\<rparr>" and stdout = "''out''"]
    by (simp add: framing_tail_def status_line_def RC_MARKER_def dec.simps digit_char_def char7)
qed

text \<open>
  What a bounded run hands back is within its limits. However it ended and whatever the executor's
  own settling does, an output that is returned holds at most the allowed bytes of either stream, and a
  run whose standard error carries its timeout marker is reported as timed out.
\<close>

theorem bounded_output_within:
  "finish end_state command limits framing settle = Inr output \<Longrightarrow>
     length (co_stdout output) \<le> rn_max_stdout limits \<and> length (co_stderr output) \<le> rn_max_stderr limits"
  "fs_timeout_marker framing = Some marker \<Longrightarrow> contains_sub (co_stderr raw) marker \<Longrightarrow>
     finish (Exited raw) command limits framing settle = Inl (RW_TimedOut command (rn_timeout limits))"
  by (auto simp: finish_def timed_out_def split: if_splits)

theorem bounded_output_within_witness:
  "finish (Exited \<lparr>co_code = Some 0, co_stdout = ''ab'', co_stderr = []\<rparr>) ''/bin/x''
      \<lparr>rn_max_stdout = 2, rn_max_stderr = 0, rn_timeout = 1\<rparr> DIRECT Inr =
      Inr \<lparr>co_code = Some 0, co_stdout = ''ab'', co_stderr = []\<rparr> \<and> length ''ab'' \<le> (2 :: nat) \<and>
   finish (Exited \<lparr>co_code = None, co_stdout = [], co_stderr = ''x__T__''\<rparr>) ''/bin/x''
      \<lparr>rn_max_stdout = 2, rn_max_stderr = 0, rn_timeout = 1\<rparr>
      \<lparr>fs_timeout_marker = Some ''__T__'', fs_remote_code = False\<rparr> Inr = Inl (RW_TimedOut ''/bin/x'' 1)"
proof (intro conjI)
  show f: "finish (Exited \<lparr>co_code = Some 0, co_stdout = ''ab'', co_stderr = []\<rparr>) ''/bin/x''
      \<lparr>rn_max_stdout = 2, rn_max_stderr = 0, rn_timeout = 1\<rparr> DIRECT Inr =
      Inr \<lparr>co_code = Some 0, co_stdout = ''ab'', co_stderr = []\<rparr>"
    by (simp add: finish_def DIRECT_def)
  from bounded_output_within(1) [OF f] show "length ''ab'' \<le> (2 :: nat)" by simp
  have "contains_sub ''x__T__'' ''__T__''" by (simp add: contains_sub_def starts_with_def)
  then show "finish (Exited \<lparr>co_code = None, co_stdout = [], co_stderr = ''x__T__''\<rparr>) ''/bin/x''
      \<lparr>rn_max_stdout = 2, rn_max_stderr = 0, rn_timeout = 1\<rparr>
      \<lparr>fs_timeout_marker = Some ''__T__'', fs_remote_code = False\<rparr> Inr = Inl (RW_TimedOut ''/bin/x'' 1)"
    by (simp add: bounded_output_within(2))
qed

section \<open>The sink\<close>

text \<open>
  What is to become of a stream: its last bytes are held back, an exit-status line that ends them is
  taken off, and the start of what remains is kept.
\<close>

definition held_back :: "nat \<Rightarrow> bytes \<Rightarrow> bytes" where
  "held_back hold stream = (if hold = 0 then [] else drop (length stream - hold) stream)"

definition sink_spec :: "nat \<Rightarrow> nat \<Rightarrow> bool \<Rightarrow> bytes \<Rightarrow> drained" where
  "sink_spec limit hold at_end stream =
     (let held = held_back hold stream;
          content = (case split_status_line held of
              Some (line, _) \<Rightarrow> take (length stream - length held + line) stream
            | None \<Rightarrow> stream)
      in \<lparr>dr_stderr = take limit content, dr_truncated = (limit < length content), dr_ended = at_end,
          dr_remote_code = map_option snd (split_status_line held), dr_tail = held\<rparr>)"

definition sink_holds :: "nat \<Rightarrow> nat \<Rightarrow> bytes \<Rightarrow> stderr_sink \<Rightarrow> bool" where
  "sink_holds limit hold stream sink \<longleftrightarrow>
     (let held = held_back hold stream;
          committed = take (length stream - length held) stream
      in sink = \<lparr>sk_max = limit, sk_kept = take limit committed, sk_truncated = (limit < length committed),
                 sk_hold = hold, sk_held = held\<rparr>)"

lemma keep_take:
  "keep_bytes bs (sink\<lparr>sk_max := limit, sk_kept := take limit c, sk_truncated := (limit < length c)\<rparr>) =
     sink\<lparr>sk_max := limit, sk_kept := take limit (c @ bs), sk_truncated := (limit < length (c @ bs))\<rparr>"
proof -
  let ?n = "min (limit - length (take limit c)) (length bs)"
  have "(limit < length c \<or> drop ?n bs \<noteq> []) = (limit < length (c @ bs))" by (auto simp: min_def)
  moreover have "take limit c @ take ?n bs = take limit (c @ bs)" by (auto simp: min_def)
  ultimately show ?thesis by (simp add: keep_bytes_def Let_def)
qed


lemma sink_holds_held:
  "hold \<noteq> 0 \<Longrightarrow> sink_holds limit hold stream sink =
     (sink = \<lparr>sk_max = limit, sk_kept = take limit (take (length stream - hold) stream),
        sk_truncated = (limit < length (take (length stream - hold) stream)),
        sk_hold = hold, sk_held = drop (length stream - hold) stream\<rparr>)"
proof -
  assume "hold \<noteq> 0"
  moreover have "length stream - length (drop (length stream - hold) stream) = length stream - hold" by simp
  ultimately show ?thesis unfolding sink_holds_def Let_def held_back_def by (simp only: if_False)
qed

lemma sink_pushed:
  assumes "sink_holds limit hold stream sink"
  shows "sink_holds limit hold (stream @ bs) (sink_push bs sink)"
proof (cases "hold = 0")
  case True
  with assms keep_take [where bs = "bs" and sink = "sink" and limit = "limit" and c = "stream"] show ?thesis
    by (simp add: sink_holds_def sink_push_def Let_def held_back_def del: take_take)
next
  case False
  define held where "held = drop (length stream - hold) stream"
  define committed where "committed = take (length stream - hold) stream"
  have sink: "sink = \<lparr>sk_max = limit, sk_kept = take limit committed, sk_truncated = (limit < length committed),
      sk_hold = hold, sk_held = held\<rparr>"
    using assms unfolding sink_holds_held [OF False] held_def committed_def .
  have stream: "stream = committed @ held" by (simp add: held_def committed_def)
  have short: "length held \<le> hold" by (simp add: held_def)
  have full: "committed = [] \<or> length held = hold" by (auto simp: held_def committed_def)
  let ?excess = "length (held @ bs) - hold"
  have held': "drop (length (stream @ bs) - hold) (stream @ bs) = drop ?excess (held @ bs)"
    and committed': "take (length (stream @ bs) - hold) (stream @ bs) = committed @ take ?excess (held @ bs)"
    using full short by (auto simp: stream)
  have "sink_push bs sink = \<lparr>sk_max = limit, sk_kept = take limit (committed @ take ?excess (held @ bs)),
      sk_truncated = (limit < length (committed @ take ?excess (held @ bs))), sk_hold = hold,
      sk_held = drop ?excess (held @ bs)\<rparr>"
    using False keep_take [where bs = "take ?excess (held @ bs)" and sink = "sink\<lparr>sk_held := drop ?excess (held @ bs)\<rparr>" and limit = "limit" and c = "committed"]
    by (simp add: sink_push_def sink Let_def)
  then show ?thesis unfolding sink_holds_held [OF False] held' committed' .
qed

lemma sink_run: "sink_holds limit hold (concat chunks) (fold sink_push chunks (sink_new limit hold))"
proof (induction chunks rule: rev_induct)
  case Nil
  then show ?case by (simp add: sink_holds_def sink_new_def held_back_def)
next
  case (snoc chunk chunks)
  from sink_pushed [OF this, of chunk] show ?case by simp
qed

lemma split_line_bound: "split_status_line tail = Some (line, code) \<Longrightarrow> line \<le> length tail"
proof -
  assume "split_status_line tail = Some (line, code)"
  then obtain at where "rfind_sub (butlast tail) RC_MARKER = Some at" "line \<le> at"
    by (auto simp: split_status_line_def Let_def split: if_splits option.splits bind_splits)
  moreover have "at \<le> length hay" if "rfind_sub hay needle = Some at" for hay needle
    using that by (induction hay arbitrary: at) (auto split: option.splits if_splits)
  ultimately have "line \<le> length (butlast tail)" by fastforce
  then show ?thesis by simp
qed

lemma sink_keeps_parts:
  "sink_finish at_end (fold sink_push chunks (sink_new limit hold)) = sink_spec limit hold at_end (concat chunks)"
  "n < 2 ^ 31 \<Longrightarrow> length (status_line n) \<le> hold \<Longrightarrow>
     sink_spec limit hold at_end (stderr @ status_line n) =
       \<lparr>dr_stderr = take limit stderr, dr_truncated = (limit < length stderr), dr_ended = at_end,
        dr_remote_code = Some (int n), dr_tail = drop (length (stderr @ status_line n) - hold) (stderr @ status_line n)\<rparr>"
proof -
  let ?stream = "concat chunks"
  let ?sink = "fold sink_push chunks (sink_new limit hold)"
  define held where "held = held_back hold ?stream"
  define committed where "committed = take (length ?stream - length held) ?stream"
  have sink: "?sink = \<lparr>sk_max = limit, sk_kept = take limit committed, sk_truncated = (limit < length committed),
      sk_hold = hold, sk_held = held\<rparr>"
    using sink_run [of limit hold chunks] unfolding sink_holds_def Let_def held_def committed_def .
  have whole: "?stream = committed @ held"
    unfolding committed_def held_def held_back_def by (cases "hold = 0") simp_all
  have split: "length ?stream - length held = length committed" unfolding committed_def by simp
  have kept: "keep_bytes bs (?sink\<lparr>sk_held := []\<rparr>) =
      \<lparr>sk_max = limit, sk_kept = take limit (committed @ bs), sk_truncated = (limit < length (committed @ bs)),
       sk_hold = hold, sk_held = []\<rparr>" for bs
    using keep_take [where bs = bs and sink = "?sink\<lparr>sk_held := []\<rparr>" and limit = limit and c = committed]
    unfolding sink by simp
  have spec: "sink_spec limit hold at_end ?stream =
      (let content = (case split_status_line held of Some (line, _) \<Rightarrow> committed @ take line held | None \<Rightarrow> committed @ held)
       in \<lparr>dr_stderr = take limit content, dr_truncated = (limit < length content), dr_ended = at_end,
           dr_remote_code = map_option snd (split_status_line held), dr_tail = held\<rparr>)"
  proof -
    have "take (length committed + line) ?stream = committed @ take line held" for line unfolding whole by simp
    then show ?thesis unfolding sink_spec_def held_def [symmetric] Let_def split by (simp only: whole)
  qed
  have held: "sk_held ?sink = held" by (simp add: sink)
  show "sink_finish at_end ?sink = sink_spec limit hold at_end ?stream"
    unfolding spec sink_finish_def held Let_def kept by (auto split: option.split)
next
  assume n: "n < 2 ^ 31" "length (status_line n) \<le> hold"
  show "sink_spec limit hold at_end (stderr @ status_line n) =
       \<lparr>dr_stderr = take limit stderr, dr_truncated = (limit < length stderr), dr_ended = at_end,
        dr_remote_code = Some (int n), dr_tail = drop (length (stderr @ status_line n) - hold) (stderr @ status_line n)\<rparr>"
  proof -
    define k where "k = length (stderr @ status_line n) - hold"
    have k: "k \<le> length stderr" using n(2) by (simp add: k_def)
    have hold: "hold \<noteq> 0" using n(2) by (auto simp: status_line_def)
    have body: "butlast (drop k stderr @ status_line n) = (drop k stderr @ [newline]) @ RC_MARKER @ dec n @ []"
      by (simp add: status_line_def butlast_append)
    have "split_status_line (drop k stderr @ status_line n) = Some (length (drop k stderr), int n)"
      using last_marker [of "dec n" "[]" "drop k stderr @ [newline]"] parse_i32_dec [OF n(1)] dec_digits [of n]
      unfolding split_status_line_def body by (simp add: status_line_def Let_def nth_append)
    moreover have "held_back hold (stderr @ status_line n) = drop k stderr @ status_line n"
      using hold k unfolding held_back_def k_def [symmetric] by simp
    moreover have "take (length (stderr @ status_line n) - length (drop k stderr @ status_line n) + length (drop k stderr))
        (stderr @ status_line n) = stderr"
      using k by simp
    moreover have "drop k (stderr @ status_line n) = drop k stderr @ status_line n" using k by simp
    ultimately show ?thesis
      unfolding sink_spec_def Let_def k_def [symmetric] by (simp del: length_append drop_append take_append)
  qed
qed

text \<open>
  The sink of a channel keeps exactly the start of the command's standard error. However the
  stream arrives, once it ended what was kept is the stream less an exit-status line at its end, cut at
  the limit and marked when it was cut; and with room held back for that line, the line is recognised
  and the status read whatever the command itself wrote.
\<close>

theorem sink_keeps_command_stderr:
  "sink_finish at_end (fold sink_push chunks (sink_new limit hold)) = sink_spec limit hold at_end (concat chunks) \<and>
   (n < 2 ^ 31 \<and> length (status_line n) \<le> hold \<longrightarrow>
     sink_spec limit hold at_end (stderr @ status_line n) =
       \<lparr>dr_stderr = take limit stderr, dr_truncated = (limit < length stderr), dr_ended = at_end,
        dr_remote_code = Some (int n), dr_tail = drop (length (stderr @ status_line n) - hold) (stderr @ status_line n)\<rparr>)"
  using sink_keeps_parts(1) [of at_end chunks limit hold] sink_keeps_parts(2) [where n = n and hold = hold and limit = limit and at_end = at_end and stderr = stderr] by blast

theorem sink_keeps_command_stderr_witness:
  "(7 :: nat) < 2 ^ 31 \<and>
   sink_finish True (fold sink_push [''no '', ''space'' @ [newline], ''__BOOT'', ''LER_RC__:7'' @ [newline]] (sink_new 4 32)) =
     \<lparr>dr_stderr = ''no s'', dr_truncated = True, dr_ended = True, dr_remote_code = Some 7,
      dr_tail = drop 0 (''no space'' @ [newline] @ ''__BOOTLER_RC__:7'' @ [newline])\<rparr>"
proof -
  have line: "status_line 7 = newline # ''__BOOTLER_RC__:7'' @ [newline]"
    by (simp add: status_line_def RC_MARKER_def dec.simps digit_char_def char7)
  have all: "concat [''no '', ''space'' @ [newline], ''__BOOT'', ''LER_RC__:7'' @ [newline]] = ''no space'' @ status_line 7"
    by (simp add: line)
  have "length (status_line 7) \<le> 32" by (simp add: line)
  with sink_keeps_command_stderr [of True "[''no '', ''space'' @ [newline], ''__BOOT'', ''LER_RC__:7'' @ [newline]]" 4 32 7 "''no space''"]
  show ?thesis unfolding all by (simp add: line)
qed

end
