(* ===== verification/Executor_Runs_Correct.thy ===== *)
theory Executor_Runs_Correct
  imports Executor_Channels Executor_Correct "HOL-Library.Sublist"
begin

text \<open>
  What the loops around a child process guarantee: memory is bounded, every run ends, a command within
  its limits is never cut short, and its output is handed back as it wrote it.
\<close>

section \<open>The states of the pump\<close>

text \<open>A read gives at most one chunk.\<close>

definition chunked :: "read_answer option \<Rightarrow> bool" where
  "chunked answer \<longleftrightarrow> (case answer of Some (ReadBytes bs) \<Rightarrow> length bs \<le> READ_CHUNK | _ \<Rightarrow> True)"

inductive pump_reach :: "run_limits \<Rightarrow> framing_spec \<Rightarrow> bytes \<Rightarrow> pump_state \<Rightarrow> bool"
  for limits framing feed where
  start: "pump_reach limits framing feed (pump_start feed)"
| turn: "pump_reach limits framing feed st \<Longrightarrow> \<not> pipes_closed st \<Longrightarrow> chunked (pt_stderr turn) \<Longrightarrow>
    pump_step limits framing feed turn st = Inr st' \<Longrightarrow> pump_reach limits framing feed st'"

lemma feed_pipe_streams:
  "feed_pipe feed turn st = Inr st' \<Longrightarrow> ps_out st' = ps_out st \<and> ps_err st' = ps_err st \<and>
     ps_stdout st' = ps_stdout st \<and> ps_stderr st' = ps_stderr st \<and> ps_undecided st' = ps_undecided st"
  by (auto simp: feed_pipe_def Let_def split: if_splits option.splits write_answer.splits)

lemma attribution_streams:
  "pump_attribution limits framing turn st = Inr st' \<Longrightarrow>
     ps_out st' = ps_out st \<and> ps_err st' = ps_err st \<and>
     (case attribute framing (ps_err st') of AtCommand own _ \<Rightarrow> own \<le> rn_max_stderr limits
      | AtTransport len \<Rightarrow> len \<le> TRANSPORT_STDERR_LIMIT)"
  by (auto simp: pump_attribution_def split: attributed.splits if_splits)

lemma drain_pipe_streams:
  "drain_pipe pipe answer into = Inr (out, at_end) \<Longrightarrow>
     \<exists>bs. out = into @ bs \<and> (chunked answer \<longrightarrow> length bs \<le> READ_CHUNK) \<and>
       (bs \<noteq> [] \<longrightarrow> pipe \<and> answer = Some (ReadBytes bs))"
  by (auto simp: drain_pipe_def chunked_def split: if_splits option.splits read_answer.splits)

text \<open>A turn either was interrupted or read and attributed both streams.\<close>

lemma pump_step_streams:
  assumes "pump_step limits framing feed turn st = Inr st'"
  shows "st' = st \<or> (\<exists>os es. ps_out st' = ps_out st @ os \<and> ps_err st' = ps_err st @ es \<and>
    length (ps_out st') \<le> rn_max_stdout limits \<and> (chunked (pt_stderr turn) \<longrightarrow> length es \<le> READ_CHUNK) \<and>
    (es \<noteq> [] \<longrightarrow> ps_stderr st \<and> pt_stderr turn = Some (ReadBytes es)) \<and>
    (os \<noteq> [] \<longrightarrow> ps_stdout st \<and> pt_stdout turn = Some (ReadBytes os)) \<and>
    (case attribute framing (ps_err st') of AtCommand own _ \<Rightarrow> own \<le> rn_max_stderr limits
      | AtTransport len \<Rightarrow> len \<le> TRANSPORT_STDERR_LIMIT))"
proof (cases "pt_poll turn")
  case PollReady
  from assms PollReady obtain st1 out e1 err e2 where
    f: "feed_pipe feed turn st = Inr st1"
    and d1: "drain_pipe (ps_stdout st1) (pt_stdout turn) (ps_out st1) = Inr (out, e1)"
    and l: "length out \<le> rn_max_stdout limits"
    and d2: "drain_pipe (ps_stderr st1) (pt_stderr turn) (ps_err st1) = Inr (err, e2)"
    and a: "\<exists>st2. ps_out st2 = out \<and> ps_err st2 = err \<and> pump_attribution limits framing turn st2 = Inr st'"
    by (fastforce simp: pump_step_def Let_def split: if_splits)
  from feed_pipe_streams [OF f] drain_pipe_streams [OF d1] drain_pipe_streams [OF d2]
  obtain os es where s: "out = ps_out st @ os" "err = ps_err st @ es" "chunked (pt_stderr turn) \<longrightarrow> length es \<le> READ_CHUNK"
    "es \<noteq> [] \<longrightarrow> ps_stderr st \<and> pt_stderr turn = Some (ReadBytes es)"
    "os \<noteq> [] \<longrightarrow> ps_stdout st \<and> pt_stdout turn = Some (ReadBytes os)" by auto
  from a attribution_streams obtain st2 where "ps_out st' = out" "ps_err st' = err"
    "case attribute framing (ps_err st') of AtCommand own _ \<Rightarrow> own \<le> rn_max_stderr limits
      | AtTransport len \<Rightarrow> len \<le> TRANSPORT_STDERR_LIMIT" by metis
  with s l show ?thesis by auto
qed (use assms in \<open>auto simp: pump_step_def split: if_splits\<close>)

section \<open>Memory\<close>

text \<open>
  What the standard error held so far may measure: for a command run directly its limit, and for a
  framed one the transport's bytes with the read that brought the announcement, the announcement, the
  command's limit, the timeout marker and the framing that is still arriving.
\<close>

definition held_stderr :: "run_limits \<Rightarrow> framing_spec \<Rightarrow> nat" where
  "held_stderr limits framing =
     (case fs_timeout_marker framing of
        None \<Rightarrow> rn_max_stderr limits
      | Some marker \<Rightarrow> TRANSPORT_STDERR_LIMIT + READ_CHUNK + length SUDO_OK_SENTINEL + rn_max_stderr limits +
          length marker + max (length marker) (1 + length RC_MARKER + 3 + 1))"

definition stderr_held :: "run_limits \<Rightarrow> framing_spec \<Rightarrow> bytes \<Rightarrow> bool" where
  "stderr_held limits framing err \<longleftrightarrow>
     (case fs_timeout_marker framing of
        None \<Rightarrow> length err \<le> rn_max_stderr limits
      | Some marker \<Rightarrow>
          (case find_sub err SUDO_OK_SENTINEL of
             None \<Rightarrow> length err \<le> TRANSPORT_STDERR_LIMIT
           | Some at \<Rightarrow> at \<le> TRANSPORT_STDERR_LIMIT + READ_CHUNK \<and> length err \<le> held_stderr limits framing))"

lemma largest_le: "largest p n \<le> n"
  by (induction n) auto

lemma remote_suffix_bound: "remote_code_suffix bs \<le> 1 + length RC_MARKER + 3 + 1"
  unfolding remote_code_suffix_def Let_def by (rule order_trans [OF largest_le]) simp

lemma partial_suffix_marker: "partial_suffix bs marker \<le> length marker"
  unfolding partial_suffix_def by (rule order_trans [OF longest_suffix_bound]) simp_all

lemma sentinel_place:
  assumes "find_sub err SUDO_OK_SENTINEL = Some at"
  shows "length err = at + length SUDO_OK_SENTINEL + length (drop (at + length SUDO_OK_SENTINEL) err)"
proof -
  from find_sub_SomeD [OF assms] obtain b where b: "err = take at err @ SUDO_OK_SENTINEL @ b" "at \<le> length err" by blast
  from arg_cong [OF b(1), of length] b(2) have "length err = at + length SUDO_OK_SENTINEL + length b"
    by (simp only: length_append length_take min_absorb2)
  then show ?thesis by simp
qed

lemma stderr_held_step:
  assumes "stderr_held limits framing err" "length es \<le> READ_CHUNK"
    "case attribute framing (err @ es) of AtCommand own _ \<Rightarrow> own \<le> rn_max_stderr limits
      | AtTransport len \<Rightarrow> len \<le> TRANSPORT_STDERR_LIMIT"
  shows "stderr_held limits framing (err @ es)"
proof (cases "fs_timeout_marker framing")
  case None
  with assms(3) show ?thesis by (simp add: stderr_held_def attribute_def)
next
  case (Some marker)
  show ?thesis
  proof (cases "find_sub (err @ es) SUDO_OK_SENTINEL")
    case None
    with assms(3) Some show ?thesis by (simp add: stderr_held_def attribute_def)
  next
    case at: (Some at)
    note place = sentinel_place [OF at]
    have early: "at \<le> TRANSPORT_STDERR_LIMIT + READ_CHUNK"
    proof (cases "find_sub err SUDO_OK_SENTINEL")
      case None
      with assms(1,2) Some place show ?thesis by (simp add: stderr_held_def)
    next
      case (Some k)
      with find_sub_stays [OF Some, of es] at assms(1) \<open>fs_timeout_marker framing = Some marker\<close>
      show ?thesis by (simp add: stderr_held_def)
    qed
    let ?tail = "drop (at + length SUDO_OK_SENTINEL) (err @ es)"
    define framed where "framed = (if find_sub ?tail marker \<noteq> None then length marker else 0)"
    define late where "late = (if find_sub ?tail marker \<noteq> None then 0 else partial_suffix ?tail marker)"
    define pending where "pending = (if fs_remote_code framing then max late (remote_code_suffix ?tail) else late)"
    have "attribute framing (err @ es) = AtCommand (length ?tail - (framed + pending)) pending"
      using Some at unfolding attribute_def framed_def pending_def late_def Let_def by simp
    with assms(3) have "length ?tail \<le> rn_max_stderr limits + framed + pending" by simp
    moreover have "framed \<le> length marker" by (simp add: framed_def)
    moreover have "late \<le> length marker" using partial_suffix_marker by (simp add: late_def)
    then have "pending \<le> max (length marker) (1 + length RC_MARKER + 3 + 1)"
      using remote_suffix_bound [of ?tail] unfolding pending_def by (simp only: split: if_splits) linarith
    ultimately have "length (err @ es) \<le> held_stderr limits framing"
      using place early unfolding held_stderr_def Some option.case by linarith
    with Some at early show ?thesis by (simp add: stderr_held_def)
  qed
qed

text \<open>
  C26: the memory of a bounded run is bounded. Whatever a child writes and however it is read, as long as
  the run goes on its standard output is within the limit, and of its standard error no more is held
  than the limit, the transport's allowance and the framing together come to.
\<close>

theorem pump_memory_bounded:
  assumes "pump_reach limits framing feed st"
  shows "length (ps_out st) \<le> rn_max_stdout limits \<and> length (ps_err st) \<le> max TRANSPORT_STDERR_LIMIT (held_stderr limits framing)"
proof -
  from assms have "length (ps_out st) \<le> rn_max_stdout limits \<and> stderr_held limits framing (ps_err st)"
  proof (induction rule: pump_reach.induct)
    case start
    have "find_sub [] SUDO_OK_SENTINEL = None" by (simp add: SUDO_OK_SENTINEL_def)
    then show ?case by (simp add: pump_start_def stderr_held_def split: option.split)
  next
    case (turn st turn st')
    from pump_step_streams [OF turn.hyps(4)] turn.hyps(3) turn.IH stderr_held_step show ?case by metis
  qed
  then show ?thesis
    by (auto simp: stderr_held_def held_stderr_def le_max_iff_disj split: option.splits)
qed

section \<open>Runs end\<close>

lemma pump_deadline: "\<exists>turn\<in>set turns. pt_deadline_over turn \<Longrightarrow> pump limits framing feed turns st \<noteq> None"
proof (induction turns arbitrary: st)
  case (Cons turn turns)
  show ?case
  proof (cases "pt_deadline_over turn")
    case True
    then show ?thesis by (simp add: pump.simps [of _ _ _ "turn # turns"] pump_step_def)
  next
    case False
    with Cons show ?thesis by (simp add: pump.simps [of _ _ _ "turn # turns"] split: sum.split)
  qed
qed simp

lemma await_deadline:
  "\<exists>turn\<in>set waits. wt_deadline_over turn \<Longrightarrow>
     \<exists>signals r. await_exit kill undecided stdout stderr waits = Some (signals, r) \<and>
       (KillAll \<in> set signals \<or> (\<exists>msg. r = Inl msg) \<or> (\<exists>output. r = Inr (Exited output)))"
  by (induction waits) (auto simp: terminate_def split: sum.split option.split)

text \<open>
  C25: a bounded run always ends, and leaves nothing running. Once the deadline has passed in either loop
  the run is over; and a run that is reported as anything but an exit of the child itself has sent the
  kill signal to its whole process group.
\<close>

theorem bounded_run_ends:
  assumes "\<exists>turn\<in>set (rc_turns script). pt_deadline_over turn" "\<exists>turn\<in>set (rc_waits script). wt_deadline_over turn"
  shows "\<exists>signals r. bounded_run program feed limits framing kill script = Some (signals, r) \<and>
    (\<forall>end_state. r = Inr end_state \<longrightarrow> KillAll \<in> set signals \<or> (\<exists>output. end_state = Exited output))"
proof -
  obtain pumped where pumped: "pump limits framing feed (rc_turns script) (pump_start feed) = Some pumped"
    using pump_deadline [OF assms(1)] by blast
  note waits = await_deadline [OF assms(2), of kill]
  show ?thesis
  proof (cases pumped)
    case (Inr p)
    show ?thesis
    proof (cases p)
      case (PumpClosed out err undecided)
      from waits [of undecided out err] obtain signals r where
        "await_exit kill undecided out err (rc_waits script) = Some (signals, r)"
        "KillAll \<in> set signals \<or> (\<exists>msg. r = Inl msg) \<or> (\<exists>output. r = Inr (Exited output))" by blast
      with pumped Inr PumpClosed show ?thesis
        by (cases r) (auto simp: bounded_run_def terminate_def split: sum.split)
    next
      case (PumpStopped end_state)
      with pumped Inr show ?thesis by (auto simp: bounded_run_def terminate_def split: sum.split)
    qed
  qed (use pumped in \<open>auto simp: bounded_run_def terminate_def split: sum.split\<close>)
qed

section \<open>A command within its limits is not cut\<close>

text \<open>
  A turn of a system that does not fail, before the deadline, over a child whose streams are \<open>outs\<close> and
  \<open>errs\<close>: what is read continues what was read before.
\<close>

definition faithful_turn :: "bytes \<Rightarrow> bytes \<Rightarrow> pump_state \<Rightarrow> pump_turn \<Rightarrow> bool" where
  "faithful_turn outs errs st turn \<longleftrightarrow>
     \<not> pt_deadline_over turn \<and> \<not> pt_grace_over turn \<and> (\<forall>msg. pt_poll turn \<noteq> PollFailed msg) \<and>
     (\<forall>msg. pt_stdin turn \<noteq> Some (WriteFailed msg)) \<and>
     (\<forall>msg. pt_stdout turn \<noteq> Some (ReadFailed msg)) \<and> (\<forall>msg. pt_stderr turn \<noteq> Some (ReadFailed msg)) \<and>
     (\<forall>bs. pt_stdout turn = Some (ReadBytes bs) \<longrightarrow> prefix (ps_out st @ bs) outs) \<and>
     (\<forall>bs. pt_stderr turn = Some (ReadBytes bs) \<longrightarrow> prefix (ps_err st @ bs) errs)"

fun faithful :: "bytes \<Rightarrow> bytes \<Rightarrow> run_limits \<Rightarrow> framing_spec \<Rightarrow> bytes \<Rightarrow> pump_turn list \<Rightarrow> pump_state \<Rightarrow> bool" where
  "faithful outs errs limits framing feed [] st = True"
| "faithful outs errs limits framing feed (turn # turns) st =
     (faithful_turn outs errs st turn \<and>
      (case pump_step limits framing feed turn st of Inl _ \<Rightarrow> True
       | Inr st \<Rightarrow> faithful outs errs limits framing feed turns st))"

definition within_limits :: "run_limits \<Rightarrow> framing_spec \<Rightarrow> bytes \<Rightarrow> bool" where
  "within_limits limits framing err \<longleftrightarrow>
     (case attribute framing err of AtCommand own _ \<Rightarrow> own \<le> rn_max_stderr limits
      | AtTransport len \<Rightarrow> len \<le> TRANSPORT_STDERR_LIMIT)"

lemma faithful_step:
  assumes "faithful_turn outs errs st turn" "prefix (ps_out st) outs" "prefix (ps_err st) errs"
    "length outs \<le> rn_max_stdout limits" "\<And>p. prefix p errs \<Longrightarrow> within_limits limits framing p"
  shows "\<exists>st'. pump_step limits framing feed turn st = Inr st' \<and> prefix (ps_out st') outs \<and> prefix (ps_err st') errs"
proof (cases "pt_poll turn")
  case PollReady
  have "\<exists>st1. feed_pipe feed turn st = Inr st1"
    using assms(1) by (auto simp: faithful_turn_def feed_pipe_def Let_def split: option.split write_answer.split)
  then obtain st1 where f: "feed_pipe feed turn st = Inr st1" by blast
  note same = feed_pipe_streams [OF f]
  have "\<exists>out e1. drain_pipe (ps_stdout st1) (pt_stdout turn) (ps_out st1) = Inr (out, e1) \<and> prefix out outs"
    using assms(1,2) same by (auto simp: faithful_turn_def drain_pipe_def split: option.split read_answer.split)
  then obtain out e1 where o: "drain_pipe (ps_stdout st1) (pt_stdout turn) (ps_out st1) = Inr (out, e1)" "prefix out outs" by blast
  have "\<exists>err e2. drain_pipe (ps_stderr st1) (pt_stderr turn) (ps_err st1) = Inr (err, e2) \<and> prefix err errs"
    using assms(1,3) same by (auto simp: faithful_turn_def drain_pipe_def split: option.split read_answer.split)
  then obtain err e2 where e: "drain_pipe (ps_stderr st1) (pt_stderr turn) (ps_err st1) = Inr (err, e2)" "prefix err errs" by blast
  have short: "length out \<le> rn_max_stdout limits"
    using prefix_length_le [OF o(2)] assms(4) by simp
  define st2 where "st2 = st1\<lparr>ps_out := out, ps_stdout := (if e1 then False else ps_stdout st1), ps_err := err,
    ps_stderr := (if e2 then False else ps_stderr st1)\<rparr>"
  have "\<exists>st'. pump_attribution limits framing turn st2 = Inr st'"
    using assms(5) [OF e(2)] assms(1)
    by (cases "attribute framing err") (auto simp: within_limits_def faithful_turn_def pump_attribution_def st2_def)
  then obtain st' where a: "pump_attribution limits framing turn st2 = Inr st'" by blast
  have "pump_step limits framing feed turn st = Inr st'"
    using assms(1) PollReady f o(1) e(1) short a
    by (auto simp: faithful_turn_def pump_step_def Let_def st2_def)
  with attribution_streams [OF a] o(2) e(2) show ?thesis by (auto simp: st2_def)
qed (use assms in \<open>auto simp: faithful_turn_def pump_step_def\<close>)

lemma faithful_run:
  assumes "faithful outs errs limits framing feed turns st" "prefix (ps_out st) outs" "prefix (ps_err st) errs"
    "length outs \<le> rn_max_stdout limits" "\<And>p. prefix p errs \<Longrightarrow> within_limits limits framing p"
  shows "pump limits framing feed turns st = None \<or>
    (\<exists>out err undecided. pump limits framing feed turns st = Some (Inr (PumpClosed out err undecided)) \<and>
      prefix out outs \<and> prefix err errs)"
  using assms(1-3)
proof (induction turns arbitrary: st)
  case Nil
  then show ?case unfolding pump.simps [of limits framing feed "[]" st] by auto
next
  case (Cons turn turns)
  show ?case
  proof (cases "pipes_closed st")
    case True
    with Cons.prems show ?thesis by (auto simp: pump.simps [of _ _ _ "turn # turns"])
  next
    case False
    from Cons.prems(1) have "faithful_turn outs errs st turn" by simp
    from faithful_step [where limits = limits and framing = framing and feed = feed, OF this Cons.prems(2,3) assms(4,5)]
    obtain st' where st': "pump_step limits framing feed turn st = Inr st'" "prefix (ps_out st') outs" "prefix (ps_err st') errs" by auto
    with Cons.prems(1) have "faithful outs errs limits framing feed turns st'" by simp
    from Cons.IH [OF this st'(2,3)] False st'(1) show ?thesis by (simp add: pump.simps [of _ _ _ "turn # turns"])
  qed
qed

lemma framed_prefix_within:
  assumes "announced transport" "length transport + length SUDO_OK_SENTINEL \<le> TRANSPORT_STDERR_LIMIT"
    "n < 1000" "fs_timeout_marker framing = Some marker" "marker \<noteq> []" "length c \<le> rn_max_stderr limits"
    "prefix p (transport @ SUDO_OK_SENTINEL @ c @ framing_tail framing timeout n)"
  shows "within_limits limits framing p"
proof (cases "length p < length transport + length SUDO_OK_SENTINEL")
  case True
  have "find_sub p SUDO_OK_SENTINEL = None"
  proof (rule ccontr)
    assume "find_sub p SUDO_OK_SENTINEL \<noteq> None"
    then obtain at where at: "find_sub p SUDO_OK_SENTINEL = Some at" by blast
    from True assms(7) have "prefix p (transport @ SUDO_OK_SENTINEL)"
      by (metis append.assoc length_append less_imp_le prefix_length_prefix prefixI)
    then obtain r where "transport @ SUDO_OK_SENTINEL = p @ r" by (auto simp: prefix_def)
    with find_sub_stays [OF at, of r] assms(1) have "at = length transport" by (simp add: announced_def)
    with sentinel_place [OF at] True show False by simp
  qed
  with True assms(2,4) show ?thesis by (simp add: within_limits_def attribute_def)
next
  case False
  from assms(7) obtain r where r: "transport @ SUDO_OK_SENTINEL @ c @ framing_tail framing timeout n = p @ r"
    by (auto simp: prefix_def)
  have "take (length (transport @ SUDO_OK_SENTINEL)) p = transport @ SUDO_OK_SENTINEL"
    using False arg_cong [OF r, of "take (length (transport @ SUDO_OK_SENTINEL))"] by simp
  then obtain q where q: "p = transport @ SUDO_OK_SENTINEL @ q"
    by (metis append.assoc append_take_drop_id)
  with r have tail: "c @ framing_tail framing timeout n = q @ r" by simp
  have "\<exists>c' f rest. q = c' @ f \<and> length c' \<le> length c \<and> framing_tail framing timeout n = f @ rest"
  proof (cases "length q \<le> length c")
    case True
    then show ?thesis by (rule_tac exI [of _ q], rule_tac exI [of _ "[]"]) simp
  next
    case False
    with arg_cong [OF tail, of "take (length c)"] have "take (length c) q = c" by simp
    then have "q = c @ drop (length c) q" by (metis append_take_drop_id)
    with tail show ?thesis by (metis append.assoc order_refl same_append_eq)
  qed
  then obtain c' f rest where "q = c' @ f" "length c' \<le> length c" "framing_tail framing timeout n = f @ rest" by blast
  with attribute_own [OF assms(1,3,4,5), of timeout f rest c'] assms(6) q show ?thesis
    by (auto simp: within_limits_def)
qed

text \<open>
  A command within its limits is never cut short. Over a system that does not fail and before the
  deadline, a framed run of a command whose own output is within the limits is never stopped, in
  whatever pieces its streams arrive: the loop goes on until every pipe has closed, having read nothing
  but what the child wrote.
\<close>

theorem honest_run_uncut:
  assumes "announced transport" "length transport + length SUDO_OK_SENTINEL \<le> TRANSPORT_STDERR_LIMIT"
    "n < 1000" "fs_timeout_marker framing = Some marker" "marker \<noteq> []"
    "length out \<le> rn_max_stdout limits" "length c \<le> rn_max_stderr limits"
    "faithful out (transport @ SUDO_OK_SENTINEL @ c @ framing_tail framing timeout n) limits framing feed turns (pump_start feed)"
  shows "pump limits framing feed turns (pump_start feed) = None \<or>
    (\<exists>o' e' undecided. pump limits framing feed turns (pump_start feed) = Some (Inr (PumpClosed o' e' undecided)) \<and>
      prefix o' out \<and> prefix e' (transport @ SUDO_OK_SENTINEL @ c @ framing_tail framing timeout n))"
  using faithful_run [OF assms(8) _ _ assms(6) framed_prefix_within [OF assms(1-5,7)]]
  by (simp add: pump_start_def)

section \<open>What a run hands back\<close>

text \<open>
  C24: a run returns what the command wrote and nothing of the transport. When a framed child has exited,
  whatever the transport wrote ahead of the announcement is gone, and so is the exit-status line of a
  remote run: the caller gets the command's own exit status, standard output and standard error, whole.
  The one condition is that neither stream holds the run's own random timeout marker.
\<close>

theorem run_returns_command_output:
  assumes "announced transport" "length out \<le> rn_max_stdout limits" "length c \<le> rn_max_stderr limits" "n < 2 ^ 31"
    "framing = \<lparr>fs_timeout_marker = Some marker, fs_remote_code = remote\<rparr>"
    "\<not> contains_sub (transport @ SUDO_OK_SENTINEL @ c @ (if remote then status_line n else [])) marker"
  shows "finish (Exited \<lparr>co_code = (if remote then code else Some (int n)), co_stdout = out,
        co_stderr = transport @ SUDO_OK_SENTINEL @ c @ (if remote then status_line n else [])\<rparr>) command limits framing
      (\<lambda>output. bind_res (if remote then settle_remote_code ex output else Inr output)
         (\<lambda>output. classify_elevation output auth host)) =
    Inr \<lparr>co_code = Some (int n), co_stdout = out, co_stderr = c\<rparr>"
proof -
  let ?tail = "if remote then status_line n else []"
  have at: "find_sub (transport @ SUDO_OK_SENTINEL @ c @ ?tail) SUDO_OK_SENTINEL = Some (length transport)"
    using assms(1) by (intro find_sub_at) (simp add: announced_def)
  have sentinel: "find_sub (SUDO_OK_SENTINEL @ rest) SUDO_OK_SENTINEL = Some 0" for rest
    by (subst find_sub_Some) (simp add: starts_with_iff)
  have code: "settle_remote_code ex \<lparr>co_code = code, co_stdout = out, co_stderr = (SUDO_OK_SENTINEL @ c) @ status_line n\<rparr> =
      Inr \<lparr>co_code = Some (int n), co_stdout = out, co_stderr = SUDO_OK_SENTINEL @ c\<rparr>"
    by (rule remote_code_roundtrip [OF assms(4)])
  show ?thesis
    using assms(2-6) at code sentinel
    by (auto simp: finish_def classify_elevation_def take_sudo_sentinel_def)
qed

section \<open>Instances\<close>

definition sample_limits :: run_limits where
  "sample_limits = \<lparr>rn_max_stdout = 4, rn_max_stderr = 2, rn_timeout = 1\<rparr>"

definition sample_framing :: framing_spec where
  "sample_framing = \<lparr>fs_timeout_marker = Some ''__T__'', fs_remote_code = False\<rparr>"

lemma sample_announced: "announced ''Warning''"
  by (simp add: announced_def SUDO_OK_SENTINEL_def starts_with_def)

definition sample_turn :: "read_answer option \<Rightarrow> read_answer option \<Rightarrow> pump_turn" where
  "sample_turn out err = \<lparr>pt_deadline_over = False, pt_grace_over = False, pt_poll = PollReady, pt_stdin = None,
     pt_stdout = out, pt_stderr = err\<rparr>"

definition sample_turns :: "pump_turn list" where
  "sample_turns = [sample_turn (Some (ReadBytes ''out'')) (Some (ReadBytes ''Warning'')),
     sample_turn (Some ReadEnd) (Some (ReadBytes (SUDO_OK_SENTINEL @ ''ab''))), sample_turn None (Some ReadEnd)]"

definition sample_script :: run_script where
  "sample_script = \<lparr>rc_spawn = [], rc_nonblocking = Inr (),
     rc_turns = sample_turns @ [(sample_turn None None)\<lparr>pt_deadline_over := True\<rparr>],
     rc_waits = [\<lparr>wt_wait = Inr None, wt_deadline_over = False, wt_grace_over = False\<rparr>,
       \<lparr>wt_wait = Inr None, wt_deadline_over = True, wt_grace_over = False\<rparr>]\<rparr>"

theorem pump_memory_bounded_witness:
  "length (ps_err (pump_start ''x'')) \<le> max TRANSPORT_STDERR_LIMIT (held_stderr sample_limits sample_framing)"
  using pump_memory_bounded [OF pump_reach.start] by blast

theorem bounded_run_ends_witness:
  "\<exists>signals r. bounded_run ''/bin/x'' [] sample_limits sample_framing KillRelay sample_script = Some (signals, r)"
proof -
  have "\<exists>turn\<in>set (rc_turns sample_script). pt_deadline_over turn" "\<exists>turn\<in>set (rc_waits sample_script). wt_deadline_over turn"
    by (simp_all add: sample_script_def)
  from bounded_run_ends [OF this, of "''/bin/x''" "[]" sample_limits sample_framing KillRelay] show ?thesis by blast
qed

theorem run_returns_command_output_witness:
  "finish (Exited \<lparr>co_code = Some 0, co_stdout = ''out'', co_stderr = ''Warning'' @ SUDO_OK_SENTINEL @ ''ab'' @ status_line 7\<rparr>) ''/bin/x''
     sample_limits (sample_framing\<lparr>fs_remote_code := True\<rparr>)
     (\<lambda>output. bind_res (settle_remote_code sample_ssh output) (\<lambda>output. classify_elevation output None ''h'')) =
   Inr \<lparr>co_code = Some 7, co_stdout = ''out'', co_stderr = ''ab''\<rparr>"
proof -
  have "\<not> contains_sub (''Warning'' @ SUDO_OK_SENTINEL @ ''ab'' @ status_line 7) ''__T__''"
    by (simp add: contains_sub_def starts_with_def SUDO_OK_SENTINEL_def status_line_def RC_MARKER_def dec.simps digit_char_def char7)
  from run_returns_command_output [OF sample_announced, where n = 7 and remote = True and out = "''out''" and c = "''ab''"
      and marker = "''__T__''" and code = "Some 0" and ex = sample_ssh and auth = None and host = "''h''" and command = "''/bin/x''"
      and limits = sample_limits and framing = "sample_framing\<lparr>fs_remote_code := True\<rparr>"] this
  show ?thesis by (simp add: sample_limits_def sample_framing_def)
qed

theorem honest_run_uncut_witness:
  "\<exists>o' e' undecided. pump sample_limits sample_framing [] sample_turns (pump_start []) = Some (Inr (PumpClosed o' e' undecided)) \<and>
     prefix o' ''out'' \<and> prefix e' (''Warning'' @ SUDO_OK_SENTINEL @ ''ab'')"
proof -
  have f: "faithful ''out'' (''Warning'' @ SUDO_OK_SENTINEL @ ''ab'' @ framing_tail sample_framing False 0)
      sample_limits sample_framing [] sample_turns (pump_start [])"
    by (simp add: sample_turns_def sample_turn_def faithful_turn_def pump_start_def framing_tail_def sample_framing_def
        sample_limits_def SUDO_OK_SENTINEL_def pump_step_def feed_pipe_def drain_pipe_def pump_attribution_def attribute_def
        starts_with_def TRANSPORT_STDERR_LIMIT_def Let_def partial_suffix_def)
  moreover have "pump sample_limits sample_framing [] sample_turns (pump_start []) \<noteq> None"
    by (simp add: pump.simps sample_turns_def sample_turn_def pump_start_def pipes_closed_def sample_framing_def
        sample_limits_def SUDO_OK_SENTINEL_def pump_step_def feed_pipe_def drain_pipe_def pump_attribution_def attribute_def
        starts_with_def TRANSPORT_STDERR_LIMIT_def Let_def partial_suffix_def)
  ultimately show ?thesis
    using honest_run_uncut [OF sample_announced, where n = 0 and framing = sample_framing and marker = "''__T__''"
        and out = "''out''" and c = "''ab''" and limits = sample_limits and timeout = False and feed = "[]" and turns = sample_turns]
    by (auto simp: sample_limits_def sample_framing_def TRANSPORT_STDERR_LIMIT_def SUDO_OK_SENTINEL_def framing_tail_def)
qed

end
