(* ===== verification/Executor_Channels_Correct.thy ===== *)
theory Executor_Channels_Correct
  imports Executor_Runs_Correct
begin

text \<open>
  What a channel guarantees: a start is only taken from the announcement, a start that fails leaves no
  process, and the exit of a remote command is the one its wrapper reported or none.
\<close>

section \<open>The start\<close>

text \<open>What one turn reads from standard error.\<close>

definition turn_bytes :: "settle_turn \<Rightarrow> bytes" where
  "turn_bytes turn =
     (case (st_poll turn, st_stderr turn) of (PollReady, Some (ReadBytes bs)) \<Rightarrow> bs | _ \<Rightarrow> [])"

definition turns_bytes :: "settle_turn list \<Rightarrow> bytes" where
  "turns_bytes turns = concat (map turn_bytes turns)"

text \<open>What each way of settling says of the bytes that were read.\<close>

definition settled_says :: "settled \<Rightarrow> bytes \<Rightarrow> bool" where
  "settled_says result seen \<longleftrightarrow>
     (case result of
        SettledStarted rest \<Rightarrow>
          \<exists>transport. seen = transport @ SUDO_OK_SENTINEL @ rest \<and> announced transport \<and>
            length transport \<le> TRANSPORT_STDERR_LIMIT
      | SettledEnded stderr \<Rightarrow> prefix stderr seen \<and> (stderr = seen \<or> TRANSPORT_STDERR_LIMIT < length stderr)
      | SettledTimedOut stderr \<Rightarrow> stderr = seen)"

lemma find_sub_announced:
  assumes "find_sub s SUDO_OK_SENTINEL = Some at"
  shows "\<exists>rest. s = take at s @ SUDO_OK_SENTINEL @ rest \<and> announced (take at s) \<and> at \<le> length s \<and>
    drop (at + length SUDO_OK_SENTINEL) s = rest"
proof -
  from find_sub_SomeD [OF assms] obtain b where b: "s = take at s @ SUDO_OK_SENTINEL @ b" "at \<le> length s" by blast
  have "announced (take at s)" unfolding announced_def using find_sub_cut [OF assms] b(2) by simp
  moreover have "drop (at + length SUDO_OK_SENTINEL) s = b"
  proof -
    have "drop (at + length SUDO_OK_SENTINEL) ((take at s @ SUDO_OK_SENTINEL) @ b) = b" using b(2) by simp
    then show ?thesis using b(1) by simp
  qed
  ultimately show ?thesis using b by blast
qed

lemma judge_says:
  assumes "judge seen fed = Some result"
  shows "settled_says result seen \<and> (\<forall>rest. result = SettledStarted rest \<longrightarrow> fed)"
proof (cases "find_sub seen SUDO_OK_SENTINEL")
  case (Some at)
  with find_sub_announced [OF Some] assms show ?thesis
    by (auto simp: judge_def announcement_of_def settled_says_def take_is_prefix split: if_splits)
      (metis length_take min.absorb2 nat_le_linear not_less)+
next
  case None
  with assms show ?thesis by (auto simp: judge_def announcement_of_def settled_says_def split: if_splits)
qed

lemma feed_and_settle_says:
  assumes "feed_and_settle unwritten turns written seen = Some (Inr result)"
  shows "\<exists>k. settled_says result (seen @ turns_bytes (take k turns))"
  using assms
proof (induction turns arbitrary: written seen)
  case Nil
  then show ?case using judge_says
    by (auto simp: feed_and_settle.simps [of _ "[]"] turns_bytes_def split: option.splits)
next
  case (Cons turn turns)
  have eq: "feed_and_settle unwritten (turn # turns) written seen = Some (Inr result)" by (rule Cons.prems)
  show ?case
  proof (cases "judge seen (length unwritten \<le> written)")
    case (Some r)
    with eq judge_says [OF Some] show ?thesis
      by (intro exI [of _ 0]) (simp add: feed_and_settle.simps [of _ "turn # turns"] turns_bytes_def)
  next
    case None
    show ?thesis
    proof (cases "st_deadline_over turn")
      case True
      with eq None show ?thesis
        by (intro exI [of _ 0]) (auto simp: feed_and_settle.simps [of _ "turn # turns"] turns_bytes_def settled_says_def)
    next
      case False
      show ?thesis
      proof (cases "settle_step unwritten turn written seen")
        case (Inl r)
        with eq None False have "r = Inr result" by (simp add: feed_and_settle.simps [of _ "turn # turns"])
        with Inl have "result = SettledEnded seen"
          by (auto simp: settle_step_def split: poll_answer.splits option.splits read_answer.splits
              elim: bind_res.elims map_err.elims)
        then show ?thesis by (intro exI [of _ 0]) (simp add: turns_bytes_def settled_says_def)
      next
        case (Inr next_state)
        obtain w s where ws: "next_state = (w, s)" by (cases next_state)
        with Inr have "s = seen @ turn_bytes turn"
          by (auto simp: settle_step_def turn_bytes_def split: poll_answer.splits option.splits read_answer.splits)
        moreover from eq None False Inr ws have "feed_and_settle unwritten turns w s = Some (Inr result)"
          by (simp add: feed_and_settle.simps [of _ "turn # turns"])
        from Cons.IH [OF this] obtain k where "settled_says result (s @ turns_bytes (take k turns))" by blast
        ultimately show ?thesis by (intro exI [of _ "Suc k"]) (simp add: turns_bytes_def)
      qed
    qed
  qed
qed

text \<open>
  C27: a channel that opens was announced, and one that does not leaves no process. When a start through
  \<open>sudo\<close> or SSH opens, what had been read holds the announcement, after at most the transport's
  allowance and with only the command's bytes behind it, which are the first the channel's sink is given;
  and every failure behind the spawn killed and reaped the process, while an opened channel did not.
\<close>

theorem start_opens_or_kills:
  assumes "open_started system command start refusal = Some (killed, result)"
  shows "(case result of
      Inr ch \<Rightarrow> \<not> killed \<and> (\<exists>k transport first.
        turns_bytes (take k (ss_turns system)) = transport @ SUDO_OK_SENTINEL @ first \<and> announced transport \<and>
        length transport \<le> TRANSPORT_STDERR_LIMIT \<and>
        ch_sink ch = sink_push first (sink_new (cl_max_stderr (cs_limits start)) (if cs_remote_code start then STATUS_HOLD else 0)))
    | Inl e \<Rightarrow> killed \<longleftrightarrow> is_ok (fst (spawn_retrying_text_busy spawn_answer (ss_spawn system))))"
proof (cases "fst (spawn_retrying_text_busy spawn_answer (ss_spawn system))")
  case (Inl e)
  with assms show ?thesis by (auto simp: open_started_def Let_def is_ok_def)
next
  case (Inr u)
  from assms Inr obtain settled where settled: "settle_start system (cs_password_line start) = Some settled"
    by (auto simp: open_started_def Let_def)
  show ?thesis
  proof (cases result)
    case (Inl e)
    with assms Inr settled show ?thesis
      by (auto simp: open_started_def Let_def is_ok_def split: sum.splits settled.splits)
  next
    case (Inr ch)
    note spawned = \<open>fst (spawn_retrying_text_busy spawn_answer (ss_spawn system)) = Inr u\<close>
    have "\<exists>first. settled = Inr (SettledStarted first) \<and> \<not> killed \<and>
      assemble (ss_drain system) first (cl_max_stderr (cs_limits start))
        (if cs_remote_code start then Some (cs_host start) else None) (pc_program command) = Inr ch"
    proof (cases settled)
      case (Inr how)
      with assms spawned settled \<open>result = Inr ch\<close> show ?thesis
        by (cases how) (auto simp: open_started_def Let_def is_ok_def split: sum.splits)
    qed (use assms spawned settled \<open>result = Inr ch\<close> in \<open>auto simp: open_started_def Let_def\<close>)
    then obtain first where first: "settled = Inr (SettledStarted first)"
      and ch: "\<not> killed" "assemble (ss_drain system) first (cl_max_stderr (cs_limits start))
        (if cs_remote_code start then Some (cs_host start) else None) (pc_program command) = Inr ch" by blast
    have "\<exists>unwritten. feed_and_settle unwritten (ss_turns system) 0 [] = Some (Inr (SettledStarted first))"
      using settled first by (auto simp: settle_start_def split: sum.splits option.splits)
    then obtain k where "settled_says (SettledStarted first) (turns_bytes (take k (ss_turns system)))"
      using feed_and_settle_says by fastforce
    then obtain transport where "turns_bytes (take k (ss_turns system)) = transport @ SUDO_OK_SENTINEL @ first"
      "announced transport" "length transport \<le> TRANSPORT_STDERR_LIMIT" by (auto simp: settled_says_def)
    moreover have "ch_sink ch = sink_push first (sink_new (cl_max_stderr (cs_limits start)) (if cs_remote_code start then STATUS_HOLD else 0))"
      using ch(2) by (auto simp: assemble_def Let_def split: sum.splits if_splits)
    ultimately show ?thesis using ch(1) Inr by auto
  qed
qed

section \<open>The exit\<close>

text \<open>The bytes a drain reads before the stream ends or it is told to stop.\<close>

fun drained_chunks :: "drain_turn list \<Rightarrow> bytes list" where
  "drained_chunks [] = []"
| "drained_chunks (turn # turns) =
     (case dt_poll turn of
        PollInterrupted \<Rightarrow> drained_chunks turns
      | PollFailed _ \<Rightarrow> []
      | PollReady \<Rightarrow>
          if dt_stop turn then []
          else case dt_stderr turn of
            Some (ReadBytes bs) \<Rightarrow> bs # drained_chunks turns
          | Some ReadEnd \<Rightarrow> []
          | Some (ReadFailed _) \<Rightarrow> []
          | _ \<Rightarrow> drained_chunks turns)"

lemma drain_folds: "drain turns sink = Some (Inr d) \<Longrightarrow> d = sink_finish (dr_ended d) (fold sink_push (drained_chunks turns) sink)"
  by (induction turns sink rule: drain.induct)
    (auto simp: sink_finish_def Let_def split: poll_answer.splits if_splits option.splits read_answer.splits prod.splits)

lemma dec_len: "n < 10 ^ k \<Longrightarrow> 0 < k \<Longrightarrow> length (dec n) \<le> k"
proof (induction k arbitrary: n)
  case (Suc k)
  show ?case
  proof (cases "n < 10")
    case False
    with Suc.prems have "0 < k" by (cases k) auto
    with Suc False have "length (dec (n div 10)) \<le> k" by (simp add: less_mult_imp_div_less mult.commute)
    with False show ?thesis by (simp add: dec.simps [of n])
  qed (simp add: dec.simps [of n])
qed simp

lemma status_line_held: "n < 2 ^ 31 \<Longrightarrow> length (status_line n) \<le> STATUS_HOLD"
  using dec_len [of n 10] by (simp add: status_line_def STATUS_HOLD_def RC_MARKER_def)

text \<open>
  The exit of a remote channel is the command's own or unknown. When the whole standard error arrived
  and \<open>ssh\<close> delivered the wrapper's line, waiting gives the command's exit status and the start of its
  standard error, marked when cut, in whatever pieces the stream came and whatever the command wrote;
  and when \<open>ssh\<close> did not succeed no status is given, whatever the stream ended with.
\<close>

theorem remote_exit_exact:
  assumes "assemble (Inr ()) first limit (Some host) program = Inr ch" "drain turns (ch_sink ch) = Some (Inr d)"
  shows "(dr_ended d \<and> es_code status = Some 0 \<and> n < 2 ^ 31 \<and>
      first @ concat (drained_chunks turns) = c @ status_line n \<longrightarrow>
      channel_wait ch (Inr status) (Inr d) =
        Inr \<lparr>cx_code = Some (int n), cx_stderr = take limit c, cx_stderr_truncated = (limit < length c)\<rparr>) \<and>
    (es_code status \<noteq> Some 0 \<longrightarrow> (\<exists>reason. channel_wait ch (Inr status) (Inr d) = Inl (CE_ExitUnknown host reason)))"
proof -
  have ch: "ch = \<lparr>ch_sink = sink_push first (sink_new limit STATUS_HOLD), ch_remote_host = Some host, ch_program = program\<rparr>"
    using assms(1) by (simp add: assemble_def)
  have d: "d = sink_spec limit STATUS_HOLD (dr_ended d) (first @ concat (drained_chunks turns))"
    using drain_folds [OF assms(2)] sink_keeps_parts(1) [of "dr_ended d" "first # drained_chunks turns" limit STATUS_HOLD]
    by (simp add: ch)
  have "channel_wait ch (Inr status) (Inr d) =
        Inr \<lparr>cx_code = Some (int n), cx_stderr = take limit c, cx_stderr_truncated = (limit < length c)\<rparr>"
    if "dr_ended d" "es_code status = Some 0" "n < 2 ^ 31" "first @ concat (drained_chunks turns) = c @ status_line n"
  proof -
    from d that(4) sink_keeps_parts(2) [OF that(3) status_line_held [OF that(3)], of limit "dr_ended d" c]
    have "dr_stderr d = take limit c" "dr_truncated d = (limit < length c)" "dr_remote_code d = Some (int n)"
      by (metis drained.simps(1), metis drained.simps(2), metis drained.simps(4))
    with that(1,2) show ?thesis by (simp add: channel_wait_def ch exit_success_def)
  qed
  moreover have "\<exists>reason. channel_wait ch (Inr status) (Inr d) = Inl (CE_ExitUnknown host reason)"
    if "es_code status \<noteq> Some 0"
    using that by (simp add: channel_wait_def ch exit_success_def Let_def)
  ultimately show ?thesis by blast
qed

section \<open>Instances\<close>

definition sample_start :: channel_start where
  "sample_start = \<lparr>cs_host = ''h'', cs_password_line = None, cs_remote_code = True,
     cs_limits = \<lparr>cl_elevation_timeout = 1, cl_max_stderr = 3\<rparr>\<rparr>"

definition sample_refusal :: "command_output \<Rightarrow> executor_error" where
  "sample_refusal _ = EX_Elevation ''h''"

definition sample_system :: start_system where
  "sample_system = \<lparr>ss_spawn = [TextFileBusy ''busy''], ss_stderr_nonblocking = Inr (), ss_stdin_nonblocking = Inr (),
     ss_stdin_blocking = Inr (),
     ss_turns = [\<lparr>st_deadline_over = False, st_poll = PollReady, st_stdin = None,
       st_stderr = Some (ReadBytes (''hi'' @ SUDO_OK_SENTINEL @ ''x''))\<rparr>],
     ss_handoff = Wrote 1, ss_drain = Inr ()\<rparr>"

lemma sample_settles: "settle_start sample_system None = Some (Inr (SettledStarted ''x''))"
  by (simp add: settle_start_def sample_system_def feed_and_settle.simps settle_step_def feed_password_def judge_def
      announcement_of_def SUDO_OK_SENTINEL_def starts_with_def TRANSPORT_STDERR_LIMIT_def partial_suffix_def)

theorem start_opens_or_kills_witness:
  "\<exists>ch. open_started sample_system (command_new ''ssh'' []) sample_start sample_refusal = Some (False, Inr ch) \<and>
     (\<exists>k transport first. turns_bytes (take k (ss_turns sample_system)) = transport @ SUDO_OK_SENTINEL @ first \<and>
        ch_sink ch = sink_push first (sink_new 3 STATUS_HOLD))"
proof -
  have "\<exists>ch. open_started sample_system (command_new ''ssh'' []) sample_start sample_refusal = Some (False, Inr ch)"
  proof -
    have "cs_password_line sample_start = None" by (simp add: sample_start_def)
    moreover have "fst (spawn_retrying_text_busy spawn_answer (ss_spawn sample_system)) = Inr ()"
      by (simp add: spawn_retrying_text_busy_def SPAWN_TEXT_BUSY_RETRIES_def sample_system_def numeral_eq_Suc)
    ultimately show ?thesis
      using sample_settles by (simp add: open_started_def sample_system_def hand_off_def assemble_def Let_def is_ok_def)
  qed
  then obtain ch where ch: "open_started sample_system (command_new ''ssh'' []) sample_start sample_refusal = Some (False, Inr ch)" by blast
  from start_opens_or_kills [OF ch] ch show ?thesis by (auto simp: sample_start_def)
qed

theorem remote_exit_exact_witness:
  "\<exists>ch d. assemble (Inr ()) ''no '' 4 (Some ''h'') ''ssh'' = Inr ch \<and>
     drain [\<lparr>dt_poll = PollReady, dt_stop = False, dt_stderr = Some (ReadBytes (''space'' @ status_line 7))\<rparr>,
       \<lparr>dt_poll = PollReady, dt_stop = False, dt_stderr = Some ReadEnd\<rparr>] (ch_sink ch) = Some (Inr d) \<and>
     channel_wait ch (Inr \<lparr>es_code = Some 0, es_text = ''exit status: 0''\<rparr>) (Inr d) =
       Inr \<lparr>cx_code = Some 7, cx_stderr = ''no s'', cx_stderr_truncated = True\<rparr>"
proof -
  let ?turns = "[\<lparr>dt_poll = PollReady, dt_stop = False, dt_stderr = Some (ReadBytes (''space'' @ status_line 7))\<rparr>,
       \<lparr>dt_poll = PollReady, dt_stop = False, dt_stderr = Some ReadEnd\<rparr>]"
  obtain ch where ch: "assemble (Inr ()) ''no '' 4 (Some ''h'') ''ssh'' = Inr ch" by (simp add: assemble_def)
  obtain d where d: "drain ?turns (ch_sink ch) = Some (Inr d)" "dr_ended d" by (simp add: sink_finish_def Let_def split: prod.split)
  from remote_exit_exact [OF ch d(1), of "\<lparr>es_code = Some 0, es_text = ''exit status: 0''\<rparr>" 7 "''no space''"] d(2) ch d(1)
  show ?thesis by auto
qed

end
