(* ===== verification/Render.thy ===== *)
theory Render
  imports Module_Spec Executor
begin

text \<open>
  The renderer of \<open>src/render.rs\<close>: from a declared module specification and what the host resolved to
  the name and the text of a systemd unit, and the placement check.
\<close>

definition CORE_HOSTS_REASON :: bytes where
  \<open>CORE_HOSTS_REASON = ''this host is not assigned the artifact's component''\<close>
definition MODULE_HOSTS_REASON :: bytes where
  "MODULE_HOSTS_REASON = ''this host carries no distributed modules''"

record render_context =
  rx_artifact_path :: bytes
  rx_config_path :: bytes
  rx_data_dir :: bytes
  rx_instance_id :: bytes
  rx_hostname :: bytes
  rx_domain :: bytes
  rx_cert_path :: bytes
  rx_key_path :: bytes
  rx_ca_bundle_path :: bytes
  rx_manager_endpoint :: "bytes option"
  rx_service_account :: "service_account option"
  rx_privilege_profile :: "privilege_profile_name option"
  rx_namespace :: bytes
  rx_service_name :: bytes
  rx_instance :: "bytes option"
  rx_component :: bytes
  rx_kind :: artifact_kind

record rendered_unit =
  ru_file_name :: bytes
  ru_text :: bytes

datatype name_field = NF_Namespace | NF_ServiceName | NF_Instance

fun name_field_str :: "name_field \<Rightarrow> bytes" where
  "name_field_str NF_Namespace = ''namespace''"
| "name_field_str NF_ServiceName = ''service_name''"
| "name_field_str NF_Instance = ''instance''"

record placement_facts =
  pf_component_assigned :: bool
  pf_carries_modules :: bool

datatype render_error =
    RE_InvalidSpec module_spec_error
  | RE_UnrepresentableValue render_var bytes
  | RE_UnresolvedVariable render_var
  | RE_InvalidNameComponent name_field bytes
  | RE_SupplementaryGroupsWithoutUser
  | RE_MissingPrivilegeProfile
  | RE_UndeclaredPrivilegeProfile privilege_profile_name
  | RE_UnexpectedPrivilegeProfile privilege_profile_name
  | RE_PrivilegeProfileWithoutUser privilege_profile_name
  | RE_PlacementRefused placement_class bytes

section \<open>Placement\<close>

definition check_placement :: "placement_class \<Rightarrow> placement_facts \<Rightarrow> render_error + unit" where
  "check_placement class facts =
     (let (satisfied, reason) =
        (case class of
           CoreHosts \<Rightarrow> (pf_component_assigned facts, CORE_HOSTS_REASON)
         | ModuleHosts \<Rightarrow> (pf_carries_modules facts, MODULE_HOSTS_REASON))
      in if satisfied then Inr () else Inl (RE_PlacementRefused class reason))"

section \<open>Privileges\<close>

record privileges =
  pv_run_as :: "run_as option"
  pv_supplementary_groups :: "supplementary_group list"
  pv_capabilities :: "capability list option"
  pv_limit_memlock :: "memlock_limit option"

definition resolve_privileges :: "unit_template \<Rightarrow> render_context \<Rightarrow> render_error + privileges" where
  "resolve_privileges unit context =
     (case rx_privilege_profile context of
        None \<Rightarrow>
          if ut_privilege_profiles unit = [] then
            Inr \<lparr>pv_run_as = ut_run_as unit, pv_supplementary_groups = ut_supplementary_groups unit,
                 pv_capabilities = None, pv_limit_memlock = None\<rparr>
          else Inl RE_MissingPrivilegeProfile
      | Some selected \<Rightarrow>
          if ut_privilege_profiles unit = [] then Inl (RE_UnexpectedPrivilegeProfile selected)
          else
            bind_res (ok_or (RE_UndeclaredPrivilegeProfile selected)
              (find (\<lambda>p. pp_name p = selected) (ut_privilege_profiles unit))) (\<lambda>p.
            if pp_run_as p \<noteq> None then
              Inr \<lparr>pv_run_as = pp_run_as p, pv_supplementary_groups = [], pv_capabilities = None,
                   pv_limit_memlock = None\<rparr>
            else if rx_service_account context = None then Inl (RE_PrivilegeProfileWithoutUser selected)
            else
              Inr \<lparr>pv_run_as = None, pv_supplementary_groups = pp_supplementary_groups p,
                   pv_capabilities = Some (pp_ambient_capabilities p),
                   pv_limit_memlock = pp_limit_memlock p\<rparr>))"

section \<open>The file name\<close>

definition check_label :: "name_field \<Rightarrow> bytes \<Rightarrow> render_error + unit" where
  "check_label field v = (if is_dns_label v then Inr () else Inl (RE_InvalidNameComponent field v))"

definition unit_file_name :: "render_context \<Rightarrow> render_error + bytes" where
  "unit_file_name context =
     bind_res (check_label NF_Namespace (rx_namespace context)) (\<lambda>_.
     bind_res (check_label NF_ServiceName (rx_service_name context)) (\<lambda>_.
     case rx_instance context of
       None \<Rightarrow> Inr (rx_namespace context @ ''-'' @ rx_service_name context @ ''.service'')
     | Some inst \<Rightarrow>
         bind_res (check_label NF_Instance inst) (\<lambda>_.
         Inr (rx_namespace context @ ''-'' @ rx_service_name context @ ''-'' @ inst @ ''.service''))))"

section \<open>Arguments\<close>

datatype resolved_arg = ResolvedText bytes | ResolvedMainPid

definition resolve_var :: "render_var \<Rightarrow> render_context \<Rightarrow> render_error + resolved_arg" where
  "resolve_var var context =
     (let held = (\<lambda>v. if is_representable v then Inr (ResolvedText v) else Inl (RE_UnrepresentableValue var v)) in
      case var of
        ArtifactPath \<Rightarrow> held (rx_artifact_path context)
      | ConfigPath \<Rightarrow> held (rx_config_path context)
      | DataDir \<Rightarrow> held (rx_data_dir context)
      | InstanceId \<Rightarrow> held (rx_instance_id context)
      | Hostname \<Rightarrow> held (rx_hostname context)
      | Domain \<Rightarrow> held (rx_domain context)
      | CertPath \<Rightarrow> held (rx_cert_path context)
      | KeyPath \<Rightarrow> held (rx_key_path context)
      | CaBundlePath \<Rightarrow> held (rx_ca_bundle_path context)
      | ManagerEndpoint \<Rightarrow>
          bind_res (ok_or (RE_UnresolvedVariable var) (rx_manager_endpoint context)) held
      | VarMainPid \<Rightarrow> Inr ResolvedMainPid)"

fun resolve_arg :: "render_context \<Rightarrow> arg \<Rightarrow> render_error + resolved_arg" where
  "resolve_arg context (Literal t) = Inr (ResolvedText t)"
| "resolve_arg context (Var var) = resolve_var var context"

fun resolved_value :: "resolved_arg \<Rightarrow> unit_value" where
  "resolved_value (ResolvedText t) = Argument t"
| "resolved_value ResolvedMainPid = MainPid"

definition render_arg :: "render_context \<Rightarrow> arg \<Rightarrow> render_error + bytes" where
  "render_arg context a = bind_res (resolve_arg context a) (\<lambda>r. Inr (render (resolved_value r)))"

definition resolve_raw :: "render_context \<Rightarrow> arg \<Rightarrow> render_error + bytes" where
  "resolve_raw context a =
     bind_res (resolve_arg context a) (\<lambda>r.
     Inr (case r of ResolvedText t \<Rightarrow> t | ResolvedMainPid \<Rightarrow> render MainPid))"

text \<open>The results of a fallible function over a list, or its first error.\<close>

fun map_res :: "('a \<Rightarrow> 'e + 'b) \<Rightarrow> 'a list \<Rightarrow> 'e + 'b list" where
  "map_res f [] = Inr []"
| "map_res f (x # xs) = bind_res (f x) (\<lambda>y. bind_res (map_res f xs) (\<lambda>ys. Inr (y # ys)))"

definition render_args :: "render_context \<Rightarrow> arg list \<Rightarrow> render_error + bytes" where
  "render_args context args = bind_res (map_res (render_arg context) args) (\<lambda>ws. Inr (join_words ws))"

section \<open>The text\<close>

fun join_lines :: "bytes list \<Rightarrow> bytes" where
  "join_lines [] = []"
| "join_lines [l] = l"
| "join_lines (l # m # ls) = l @ newline # join_lines (m # ls)"

definition opt_line :: "bool \<Rightarrow> bytes \<Rightarrow> bytes list" where
  "opt_line present l = (if present then [l] else [])"

definition rendered_account :: "privileges \<Rightarrow> render_context \<Rightarrow> service_account option" where
  "rendered_account privileges context = (if pv_run_as privileges = None then rx_service_account context else None)"

text \<open>The lines up to the first that can fail on an argument.\<close>

definition identity_lines :: "unit_template \<Rightarrow> privileges \<Rightarrow> render_context \<Rightarrow> render_error + bytes list" where
  "identity_lines unit privileges context =
     (let account = rendered_account privileges context;
          user = (case account of Some a \<Rightarrow> [''User='' @ service_account_str a] | None \<Rightarrow> [])
      in bind_res
           (if pv_supplementary_groups privileges = [] then Inr []
            else if account = None then Inl RE_SupplementaryGroupsWithoutUser
            else Inr [''SupplementaryGroups='' @ join_words (map group_unit_str (pv_supplementary_groups privileges))])
           (\<lambda>groups.
         let capabilities = (case pv_capabilities privileges of
               None \<Rightarrow> []
             | Some cs \<Rightarrow>
                 (let spelled = join_words (map capability_unit_str cs) in
                  opt_line (cs \<noteq> []) (''AmbientCapabilities='' @ spelled) @ [''CapabilityBoundingSet='' @ spelled]))
         in Inr (user @ groups @ capabilities)))"

definition optional_arg :: "('a \<Rightarrow> render_error + bytes) \<Rightarrow> bytes \<Rightarrow> 'a option \<Rightarrow> render_error + bytes list" where
  "optional_arg f key a =
     (case a of None \<Rightarrow> Inr [] | Some x \<Rightarrow> bind_res (f x) (\<lambda>v. Inr [key @ v]))"

definition environment_line :: "render_context \<Rightarrow> bytes \<times> arg \<Rightarrow> render_error + bytes" where
  "environment_line context entry =
     (case entry of (key, v) \<Rightarrow>
        bind_res (resolve_raw context v) (\<lambda>raw. Inr (''Environment='' @ render (Environment key raw))))"

definition render_text :: "unit_template \<Rightarrow> privileges \<Rightarrow> render_context \<Rightarrow> render_error + bytes" where
  "render_text unit privileges context =
     (let head = [''[Unit]'', ''Description='' @ render (Description (ut_description unit))] @
            map (\<lambda>t. ''After='' @ target_unit_str t) (ut_after unit) @
            map (\<lambda>t. ''Wants='' @ target_unit_str t) (ut_wants unit) @ [[], ''[Service]''];
          tail = [''Restart='' @ restart_unit_str (ut_restart unit),
                  ''RestartSec='' @ dec (unat (ut_restart_sec unit))] @
            (case ut_limit_nofile unit of Some n \<Rightarrow> [''LimitNOFILE='' @ to_string n] | None \<Rightarrow> []) @
            (case pv_limit_memlock privileges of Some l \<Rightarrow> [''LimitMEMLOCK='' @ memlock_unit_str l] | None \<Rightarrow> []) @
            opt_line (ut_protect_home unit) ''ProtectHome=yes'' @
            opt_line (ut_private_tmp unit) ''PrivateTmp=yes'' @
            opt_line (ut_no_new_privileges unit) ''NoNewPrivileges=yes'' @
            [[], ''[Install]''] @ map (\<lambda>t. ''WantedBy='' @ target_unit_str t) (ut_wanted_by unit)
      in bind_res (identity_lines unit privileges context) (\<lambda>ids.
         bind_res (render_args context (ut_exec_start unit)) (\<lambda>exec_start.
         bind_res (optional_arg (render_args context) ''ExecReload='' (ut_exec_reload unit)) (\<lambda>exec_reload.
         bind_res (optional_arg (render_arg context) ''WorkingDirectory='' (ut_working_directory unit)) (\<lambda>workdir.
         bind_res (map_res (environment_line context) (ut_environment unit)) (\<lambda>environment.
         Inr (join_lines (head @ ids @ [''ExecStart='' @ exec_start] @ exec_reload @ workdir @ environment @ tail)
              @ [newline])))))))"

definition render_unit :: "module_spec \<Rightarrow> render_context \<Rightarrow> render_error + rendered_unit option" where
  "render_unit spec context =
     bind_res (map_err RE_InvalidSpec (module_spec_validate spec (rx_component context) (rx_kind context))) (\<lambda>_.
     case ms_unit spec of
       None \<Rightarrow> Inr None
     | Some unit \<Rightarrow>
         bind_res (resolve_privileges unit context) (\<lambda>privileges.
         bind_res (unit_file_name context) (\<lambda>file_name.
         bind_res (render_text unit privileges context) (\<lambda>text.
         Inr (Some \<lparr>ru_file_name = file_name, ru_text = text\<rparr>)))))"

end
