(* ===== verification/Render_Correct.thy ===== *)
theory Render_Correct
  imports Render
begin

text \<open>
  What a rendered unit means: a reader of unit files that follows the documented format (logical lines,
  comments, white space, quoted words, escapes, specifiers, expansions, command separators and prefixes)
  recovers from the text exactly what the template and the host declared.
\<close>

section \<open>Reading a unit file\<close>

abbreviation backslash :: byte where "backslash \<equiv> CHR 0x5C"
abbreviation dquote :: byte where "dquote \<equiv> CHR 0x22"
abbreviation squote :: byte where "squote \<equiv> CHR 0x27"

definition white :: "byte \<Rightarrow> bool" where
  "white c \<longleftrightarrow> c \<in> {CHR '' '', CHR 0x09, CHR 0x0D}"

definition strip :: "bytes \<Rightarrow> bytes" where
  "strip v = rev (dropWhile white (rev (dropWhile white v)))"

definition comment_line :: "bytes \<Rightarrow> bool" where
  "comment_line l \<longleftrightarrow> (case dropWhile white l of [] \<Rightarrow> False | c # _ \<Rightarrow> c \<in> {CHR ''#'', CHR '';''})"

text \<open>
  A line that ends in a backslash is continued by the next one that is no comment, a space standing for
  the backslash and the line end.
\<close>

fun join_continued :: "bytes list \<Rightarrow> bytes list" where
  "join_continued [] = []"
| "join_continued [l] = [l]"
| "join_continued (l # m # ls) =
     (if l \<noteq> [] \<and> last l = backslash then join_continued ((butlast l @ CHR '' '' # m) # ls)
      else l # join_continued (m # ls))"

definition logical_lines :: "bytes \<Rightarrow> bytes list" where
  "logical_lines t =
     filter (\<lambda>l. strip l \<noteq> []) (join_continued (filter (\<lambda>l. \<not> comment_line l) (split newline t)))"

text \<open>
  Doubled bytes: \<open>%%\<close> in any value that takes specifiers, \<open>$$\<close> in the arguments of a command; alone, either
  starts an expansion, which no text is.
\<close>

fun collapse :: "byte \<Rightarrow> bytes \<Rightarrow> bytes option" where
  "collapse d [] = Some []"
| "collapse d [c] = (if c = d then None else Some [c])"
| "collapse d (c # c' # cs) =
     (if c \<noteq> d then map_option (Cons c) (collapse d (c' # cs))
      else if c' = d then map_option (Cons d) (collapse d cs) else None)"

datatype unit_word = Text bytes | Expansion bytes

definition read_text :: "bytes \<Rightarrow> unit_word" where
  "read_text v = (case collapse (CHR ''%'') v of None \<Rightarrow> Expansion v | Some t \<Rightarrow> Text t)"

definition read_word :: "bytes \<Rightarrow> unit_word" where
  "read_word v =
     (case collapse (CHR ''%'') v of
        None \<Rightarrow> Expansion v
      | Some t \<Rightarrow> (case collapse (CHR ''$'') t of None \<Rightarrow> Expansion t | Some u \<Rightarrow> Text u))"

text \<open>
  Cutting a value into words: white space separates, double and single quotes group, a backslash starts an
  escape, and a semicolon that is a word by itself, bare, ends a command. A quote left open and an escape that
  is none are refused, as are here the escapes by number, which no rendered text has.
\<close>

datatype token = Word bytes | Separator

definition escape_of :: "byte \<Rightarrow> byte option" where
  "escape_of c = map_of
     [(CHR ''a'', CHR 0x07), (CHR ''b'', CHR 0x08), (CHR ''f'', CHR 0x0C), (CHR ''n'', CHR 0x0A), (CHR ''r'', CHR 0x0D),
      (CHR ''t'', CHR 0x09), (CHR ''v'', CHR 0x0B), (CHR ''s'', CHR '' ''), (backslash, backslash), (dquote, dquote),
      (squote, squote), (CHR '';'', CHR '';'')] c"

definition held :: "bytes option \<Rightarrow> bytes" where
  "held word = (case word of None \<Rightarrow> [] | Some w \<Rightarrow> w)"

definition ended :: "bytes option \<Rightarrow> token list" where
  "ended word = (case word of None \<Rightarrow> [] | Some w \<Rightarrow> [Word w])"

fun cut :: "byte option \<Rightarrow> bytes option \<Rightarrow> bytes \<Rightarrow> token list option" where
  "cut quoted word [] = (if quoted = None then Some (ended word) else None)"
| "cut quoted word (c # cs) =
     (if c = backslash then
        (case cs of [] \<Rightarrow> None
         | e # es \<Rightarrow> (case escape_of e of None \<Rightarrow> None | Some x \<Rightarrow> cut quoted (Some (held word @ [x])) es))
      else if quoted = Some c then cut None (Some (held word)) cs
      else if quoted = None \<and> white c then map_option (append (ended word)) (cut None None cs)
      else if quoted = None \<and> c \<in> {dquote, squote} then cut (Some c) (Some (held word)) cs
      else if quoted = None \<and> word = None \<and> c = CHR '';'' \<and> (cs = [] \<or> white (hd cs)) then
        map_option (Cons Separator) (cut None None cs)
      else cut quoted (Some (held word @ [c])) cs)"

text \<open>A command line: commands, each a program behind its prefixes and the words of its arguments.\<close>

datatype command = Command bytes unit_word "unit_word list"

definition prefix_byte :: "byte \<Rightarrow> bool" where
  "prefix_byte c \<longleftrightarrow> c \<in> set ''@-:+!|''"

fun read_command :: "bytes list \<Rightarrow> command" where
  "read_command (program # args) =
     (let prefixes = takeWhile prefix_byte program in
      Command prefixes (read_text (dropWhile prefix_byte program))
        (map (if CHR '':'' \<in> set prefixes then read_text else read_word) args))"
| "read_command [] = Command [] (Text []) []"

fun commands :: "bytes list \<Rightarrow> token list \<Rightarrow> bytes list list" where
  "commands acc [] = (if acc = [] then [] else [acc])"
| "commands acc (Word w # tokens) = commands (acc @ [w]) tokens"
| "commands acc (Separator # tokens) = (if acc = [] then [] else [acc]) @ commands [] tokens"

fun token_word :: "token \<Rightarrow> bytes" where
  "token_word (Word w) = w"
| "token_word Separator = '';''"

text \<open>
  A value by its setting. A working directory is one path and a description one line: neither is cut into
  words, unquoted or expanded but for specifiers.
\<close>

datatype setting_value =
    PlainValue bytes
  | SpecifierValue bytes
  | CommandsValue "command list"
  | AssignmentsValue "unit_word list"
  | RefusedValue bytes

datatype unit_item = SectionItem bytes | SettingItem bytes setting_value | StrayItem bytes

definition read_value :: "bytes \<Rightarrow> bytes \<Rightarrow> setting_value" where
  "read_value key v =
     (if key \<in> {''ExecStart'', ''ExecReload''} then
        (case cut None None v of None \<Rightarrow> RefusedValue v
         | Some tokens \<Rightarrow> CommandsValue (map read_command (commands [] tokens)))
      else if key = ''Environment'' then
        (case cut None None v of None \<Rightarrow> RefusedValue v
         | Some tokens \<Rightarrow> AssignmentsValue (map (\<lambda>t. read_text (token_word t)) tokens))
      else case collapse (CHR ''%'') v of None \<Rightarrow> SpecifierValue v | Some t \<Rightarrow> PlainValue t)"

text \<open>White space around a line and immediately before or after the \<open>=\<close> is ignored.\<close>

definition read_line :: "bytes \<Rightarrow> unit_item" where
  "read_line line =
     (let l = strip line in
      if l \<noteq> [] \<and> hd l = CHR ''['' then SectionItem l
      else case split_once (CHR ''='') l of
        None \<Rightarrow> StrayItem l
      | Some (key, v) \<Rightarrow> SettingItem (strip key) (read_value (strip key) (strip v)))"

definition read_unit :: "bytes \<Rightarrow> unit_item list" where
  "read_unit t = map read_line (logical_lines t)"

section \<open>What a unit declares\<close>

definition meaning :: "render_context \<Rightarrow> arg \<Rightarrow> resolved_arg" where
  "meaning context a =
     (case a of
        Literal t \<Rightarrow> ResolvedText t
      | Var v \<Rightarrow>
          (case v of
             ArtifactPath \<Rightarrow> ResolvedText (rx_artifact_path context)
           | ConfigPath \<Rightarrow> ResolvedText (rx_config_path context)
           | DataDir \<Rightarrow> ResolvedText (rx_data_dir context)
           | InstanceId \<Rightarrow> ResolvedText (rx_instance_id context)
           | Hostname \<Rightarrow> ResolvedText (rx_hostname context)
           | Domain \<Rightarrow> ResolvedText (rx_domain context)
           | CertPath \<Rightarrow> ResolvedText (rx_cert_path context)
           | KeyPath \<Rightarrow> ResolvedText (rx_key_path context)
           | CaBundlePath \<Rightarrow> ResolvedText (rx_ca_bundle_path context)
           | ManagerEndpoint \<Rightarrow> ResolvedText (the (rx_manager_endpoint context))
           | VarMainPid \<Rightarrow> ResolvedMainPid))"

definition text_of :: "resolved_arg \<Rightarrow> bytes" where
  "text_of r = (case r of ResolvedText t \<Rightarrow> t | ResolvedMainPid \<Rightarrow> MAIN_PID)"

definition word_of :: "resolved_arg \<Rightarrow> unit_word" where
  "word_of r = (case r of ResolvedText t \<Rightarrow> Text t | ResolvedMainPid \<Rightarrow> Expansion MAIN_PID)"

text \<open>One command, with no prefix: its program and its arguments.\<close>

definition command_of :: "resolved_arg list \<Rightarrow> command" where
  "command_of rs = Command [] (word_of (hd rs)) (map word_of (tl rs))"

definition flag :: "bool \<Rightarrow> bytes \<Rightarrow> unit_item list" where
  "flag on key = (if on then [SettingItem key (PlainValue ''yes'')] else [])"

definition identity_items :: "privileges \<Rightarrow> render_context \<Rightarrow> unit_item list" where
  "identity_items privileges context =
     (case rendered_account privileges context of
        None \<Rightarrow> [] | Some a \<Rightarrow> [SettingItem ''User'' (PlainValue (service_account_str a))]) @
     (if pv_supplementary_groups privileges = [] then []
      else [SettingItem ''SupplementaryGroups''
              (PlainValue (join_words (map group_unit_str (pv_supplementary_groups privileges))))]) @
     (case pv_capabilities privileges of
        None \<Rightarrow> []
      | Some cs \<Rightarrow>
          (if cs = [] then []
           else [SettingItem ''AmbientCapabilities'' (PlainValue (join_words (map capability_unit_str cs)))]) @
          [SettingItem ''CapabilityBoundingSet'' (PlainValue (join_words (map capability_unit_str cs)))])"

definition optional_item :: "bytes \<Rightarrow> setting_value option \<Rightarrow> unit_item list" where
  "optional_item key v = (case v of None \<Rightarrow> [] | Some x \<Rightarrow> [SettingItem key x])"

text \<open>What follows the ordering, with the values of the command settings and the working directory.\<close>

definition later_items ::
  "unit_template \<Rightarrow> privileges \<Rightarrow> render_context \<Rightarrow> setting_value \<Rightarrow> setting_value option \<Rightarrow> setting_value option \<Rightarrow> unit_item list" where
  "later_items unit privileges context start reload directory =
     map (\<lambda>t. SettingItem ''Wants'' (PlainValue (target_unit_str t))) (ut_wants unit) @
     [SectionItem ''[Service]''] @
     identity_items privileges context @
     [SettingItem ''ExecStart'' start] @
     optional_item ''ExecReload'' reload @
     optional_item ''WorkingDirectory'' directory @
     map (\<lambda>(k, v). SettingItem ''Environment'' (AssignmentsValue [Text (k @ ''='' @ text_of (meaning context v))]))
       (ut_environment unit) @
     [SettingItem ''Restart'' (PlainValue (restart_unit_str (ut_restart unit))),
      SettingItem ''RestartSec'' (PlainValue (dec (unat (ut_restart_sec unit))))] @
     (case ut_limit_nofile unit of
        None \<Rightarrow> [] | Some n \<Rightarrow> [SettingItem ''LimitNOFILE'' (PlainValue (to_string n))]) @
     (case pv_limit_memlock privileges of
        None \<Rightarrow> [] | Some l \<Rightarrow> [SettingItem ''LimitMEMLOCK'' (PlainValue (memlock_unit_str l))]) @
     flag (ut_protect_home unit) ''ProtectHome'' @ flag (ut_private_tmp unit) ''PrivateTmp'' @
     flag (ut_no_new_privileges unit) ''NoNewPrivileges'' @
     [SectionItem ''[Install]''] @
     map (\<lambda>t. SettingItem ''WantedBy'' (PlainValue (target_unit_str t))) (ut_wanted_by unit)"

definition unit_items :: "unit_template \<Rightarrow> privileges \<Rightarrow> render_context \<Rightarrow> unit_item list" where
  "unit_items unit privileges context =
     [SectionItem ''[Unit]'', SettingItem ''Description'' (PlainValue (ut_description unit))] @
     map (\<lambda>t. SettingItem ''After'' (PlainValue (target_unit_str t))) (ut_after unit) @
     later_items unit privileges context
       (CommandsValue [command_of (map (meaning context) (ut_exec_start unit))])
       (map_option (\<lambda>args. CommandsValue [command_of (map (meaning context) args)]) (ut_exec_reload unit))
       (map_option (\<lambda>d. PlainValue (text_of (meaning context d))) (ut_working_directory unit))"

text \<open>Strings of the program are UTF-8.\<close>

fun arg_utf8 :: "arg \<Rightarrow> bool" where
  "arg_utf8 (Literal t) = is_utf8 t"
| "arg_utf8 (Var v) = True"

definition context_utf8 :: "render_context \<Rightarrow> bool" where
  "context_utf8 context \<longleftrightarrow>
     list_all is_utf8 [rx_artifact_path context, rx_config_path context, rx_data_dir context,
       rx_instance_id context, rx_hostname context, rx_domain context, rx_cert_path context,
       rx_key_path context, rx_ca_bundle_path context] \<and>
     (\<forall>e. rx_manager_endpoint context = Some e \<longrightarrow> is_utf8 e)"

definition texts_utf8 :: "unit_template \<Rightarrow> render_context \<Rightarrow> bool" where
  "texts_utf8 unit context \<longleftrightarrow>
     is_utf8 (ut_description unit) \<and> list_all arg_utf8 (ut_exec_start unit) \<and>
     (\<forall>args. ut_exec_reload unit = Some args \<longrightarrow> list_all arg_utf8 args) \<and>
     (\<forall>a. ut_working_directory unit = Some a \<longrightarrow> arg_utf8 a) \<and>
     (\<forall>(k, v) \<in> set (ut_environment unit). arg_utf8 v) \<and> context_utf8 context"


definition command_plain :: "resolved_arg list \<Rightarrow> bool" where
  "command_plain rs \<longleftrightarrow> rs \<noteq> [] \<and> ResolvedText '';'' \<notin> set rs \<and>
     (\<exists>t. hd rs = ResolvedText t \<and> t \<noteq> [] \<and> \<not> prefix_byte (hd t) \<and> CHR ''$'' \<notin> set t)"

definition directory_plain :: "resolved_arg \<Rightarrow> bool" where
  "directory_plain r \<longleftrightarrow> (\<exists>t. r = ResolvedText t \<and> is_bare_safe t \<and> CHR ''$'' \<notin> set t)"

definition words_plain :: "unit_template \<Rightarrow> render_context \<Rightarrow> bool" where
  "words_plain unit context \<longleftrightarrow> command_plain (map (meaning context) (ut_exec_start unit)) \<and>
     (\<forall>args. ut_exec_reload unit = Some args \<longrightarrow> command_plain (map (meaning context) args)) \<and>
     (\<forall>a. ut_working_directory unit = Some a \<longrightarrow> directory_plain (meaning context a))"

section \<open>White space and lines\<close>

lemma strip_id: "v \<noteq> [] \<Longrightarrow> \<not> white (hd v) \<Longrightarrow> \<not> white (last v) \<Longrightarrow> strip v = v"
proof -
  assume v: "v \<noteq> []" "\<not> white (hd v)" "\<not> white (last v)"
  then have "dropWhile white v = v" by (cases v) simp_all
  moreover have "dropWhile white (rev v) = rev v" using v by (cases v rule: rev_cases) simp_all
  ultimately show ?thesis by (simp add: strip_def)
qed

lemma strip_nil [simp]: "strip [] = []"
  by (simp add: strip_def)

lemma dropWhile_last: "dropWhile P v \<noteq> [] \<Longrightarrow> last (dropWhile P v) = last v"
  by (metis append_is_Nil_conv last_append takeWhile_dropWhile_id)

lemma dropWhile_head: "dropWhile P v = c # r \<Longrightarrow> \<not> P c"
  by (metis hd_dropWhile list.distinct(1) list.sel(1))

lemma strip_back: "strip (p @ v) = p @ rev (dropWhile white (rev v))" if "p \<noteq> []" "\<not> white (hd p)" "\<not> white (last p)"
proof -
  have "dropWhile white (p @ v) = p @ v" using that by (cases p) simp_all
  moreover have "dropWhile white (rev v @ rev p) = dropWhile white (rev v) @ rev p"
    using that by (cases p rule: rev_cases) (simp_all add: dropWhile_append)
  ultimately show ?thesis by (simp add: strip_def)
qed

lemma strip_rest: "strip (rev (dropWhile white (rev v))) = strip v"
proof (induction v)
  case (Cons c v)
  show ?case
  proof (cases "white c")
    case True
    then show ?thesis using Cons by (cases "dropWhile white (rev v) = []") (auto simp: strip_def dropWhile_append dropWhile_eq_Nil_conv)
  next
    case False
    then have "strip ([c] @ rev (dropWhile white (rev v))) = [c] @ rev (dropWhile white (rev (rev (dropWhile white (rev v)))))"
      by (intro strip_back) simp_all
    moreover have "strip ([c] @ v) = [c] @ rev (dropWhile white (rev v))" using False by (intro strip_back) simp_all
    moreover have "rev (dropWhile white (rev (c # v))) = [c] @ rev (dropWhile white (rev v))"
      using False by (simp add: dropWhile_append)
    ultimately show ?thesis by simp
  qed
qed simp

text \<open>A line that stands by itself, and a value that keeps it so.\<close>

definition clean :: "bytes \<Rightarrow> bool" where
  "clean l \<longleftrightarrow> newline \<notin> set l \<and> (l = [] \<or> last l \<noteq> backslash) \<and> \<not> comment_line l"

definition value_ok :: "bytes \<Rightarrow> bool" where
  "value_ok v \<longleftrightarrow> newline \<notin> set v \<and> (v \<noteq> [] \<longrightarrow> last v \<noteq> backslash)"

definition tidy :: "bytes \<Rightarrow> bool" where
  "tidy v \<longleftrightarrow> value_ok v \<and> (v \<noteq> [] \<longrightarrow> \<not> white (hd v) \<and> \<not> white (last v))"

lemma tidy_value: "tidy v \<Longrightarrow> value_ok v"
  by (simp add: tidy_def)

lemma tidy_strip: "tidy v \<Longrightarrow> strip v = v"
  by (cases "v = []") (simp_all add: tidy_def strip_id)

lemma split_line: "newline \<notin> set l \<Longrightarrow> split newline (l @ newline # t) = l # split newline t"
  by (induction l) (auto split: list.splits)

lemma split_lines:
  "ls \<noteq> [] \<Longrightarrow> list_all clean ls \<Longrightarrow> split newline (join_lines ls @ [newline]) = ls @ [[]]"
proof (induction ls rule: join_lines.induct)
  case (2 l)
  then show ?case using split_line [of l "[]"] by (simp add: clean_def)
next
  case (3 l m ls)
  then show ?case using split_line [of l "join_lines (m # ls) @ [newline]"] by (simp add: clean_def)
qed simp

lemma clean_not_comment: "list_all clean ls \<Longrightarrow> filter (\<lambda>l. \<not> comment_line l) ls = ls"
  by (induction ls) (simp_all add: clean_def)

lemma join_continued_clean: "list_all clean ls \<Longrightarrow> join_continued (ls @ [[]]) = ls @ [[]]"
proof (induction ls rule: join_lines.induct)
  case (3 l m ls)
  then show ?case by (auto simp: clean_def)
qed (auto simp: clean_def)

lemma blank_not_comment [simp]: "\<not> comment_line []"
  by (simp add: comment_line_def)

lemma clean_lines_logical:
  assumes "ls \<noteq> []" "list_all clean ls"
  shows "logical_lines (join_lines ls @ [newline]) = filter (\<lambda>l. strip l \<noteq> []) ls"
  by (simp add: logical_lines_def split_lines [OF assms] join_continued_clean [OF assms(2)] clean_not_comment [OF assms(2)])

lemma read_unit_lines:
  assumes "ls \<noteq> []" "list_all clean ls"
  shows "read_unit (join_lines ls @ [newline]) = map read_line (filter (\<lambda>l. strip l \<noteq> []) ls)"
  by (simp add: read_unit_def clean_lines_logical [OF assms])

section \<open>Words\<close>

lemma special_bytes: "char_of (34 :: nat) = dquote" "char_of (92 :: nat) = backslash"
  by code_simp+

lemma collapse_replace: "collapse d (replace_byte d [d, d] v) = Some v"
proof (induction v)
  case (Cons c v)
  then show ?case by (cases "replace_byte d [d, d] v") (auto split: if_splits)
qed simp

lemma collapse_other:
  assumes "d \<noteq> q"
  shows "collapse d (replace_byte q [q, q] (replace_byte d [d, d] v)) = Some (replace_byte q [q, q] v)"
proof (induction v)
  case (Cons c v)
  have push: "x \<noteq> d \<Longrightarrow> collapse d (x # xs) = map_option (Cons x) (collapse d xs)" for x xs by (cases xs) simp_all
  from Cons show ?case using assms by (auto simp: push)
qed simp

lemma collapse_append:
  "collapse d (replace_byte d [d, d] v @ w) = map_option (append v) (collapse d w)"
proof (induction v)
  case Nil
  then show ?case by (simp add: option.map_ident)
next
  case (Cons c v)
  have push: "x \<noteq> d \<Longrightarrow> collapse d (x # xs) = map_option (Cons x) (collapse d xs)" for x xs by (cases xs) simp_all
  from Cons show ?case by (auto simp: push option.map_comp comp_def)
qed

lemma collapse_absent: "d \<notin> set v \<Longrightarrow> collapse d v = Some v"
  by (induction v rule: collapse.induct) auto

lemma double_False: "double v False = replace_byte (CHR ''%'') ''%%'' v"
  by (simp add: double_def Let_def)

lemma double_True: "double v True = replace_byte (CHR ''$'') ''$$'' (replace_byte (CHR ''%'') ''%%'' v)"
  by (simp add: double_def Let_def)

lemma collapse_double: "collapse (CHR ''%'') (double v False) = Some v"
  unfolding double_False by (rule collapse_replace)

lemma read_text_double: "read_text (double v False) = Text v"
  by (simp add: read_text_def collapse_double)

lemma read_word_double: "read_word (double v True) = Text v"
  unfolding read_word_def double_True by (simp add: collapse_other collapse_replace)

lemma replace_absent: "d \<notin> set v \<Longrightarrow> replace_byte d w v = v"
  by (induction v) auto

lemma double_no_dollar: "CHR ''$'' \<notin> set v \<Longrightarrow> double v True = double v False"
  using set_double [of v False] unfolding double_True double_False by (simp add: replace_absent)

definition bare :: "byte \<Rightarrow> bool" where
  "bare c \<longleftrightarrow> \<not> white c \<and> c \<notin> {dquote, squote, backslash}"

lemma cut_bare_on: "list_all bare w \<Longrightarrow> cut None (Some a) (w @ rest) = cut None (Some (a @ w)) rest"
  by (induction w arbitrary: a) (simp_all add: bare_def held_def)

lemma cut_bare:
  assumes "list_all bare w" "w \<noteq> []" "w \<noteq> '';''" "rest = [] \<or> white (hd rest)"
  shows "cut None None (w @ rest) = cut None (Some w) rest"
proof -
  obtain c v where w: "w = c # v" using assms(2) by (cases w) auto
  have "\<not> (c = CHR '';'' \<and> (v @ rest = [] \<or> white (hd (v @ rest))))"
    using assms(1,3) w by (cases v) (auto simp: bare_def)
  then have "cut None None (w @ rest) = cut None (Some [c]) (v @ rest)"
    using assms(1) w by (auto simp: bare_def held_def)
  then show ?thesis using cut_bare_on [of v "[c]"] assms(1) w by simp
qed

definition escaped :: "bytes \<Rightarrow> bytes" where
  "escaped v = concat (map (\<lambda>c. if c = dquote \<or> c = backslash then [backslash, c] else [c]) v)"

lemma quote_escaped: "quote v = dquote # escaped v @ [dquote]"
  using escape_one_pass [of dquote backslash v]
  by (simp add: quote_def escaped_def special_bytes Let_def)

lemma cut_escaped: "cut (Some dquote) (Some acc) (escaped v @ dquote # rest) = cut None (Some (acc @ v)) rest"
proof (induction v arbitrary: acc)
  case (Cons c v)
  have e: "escape_of dquote = Some dquote" "escape_of backslash = Some backslash" by (simp_all add: escape_of_def)
  from Cons show ?case by (auto simp: escaped_def held_def e)
qed (simp add: escaped_def held_def)

lemma cut_quote: "cut None None (quote v @ rest) = cut None (Some v) rest"
  using cut_escaped [of "[]" v rest] by (simp add: quote_escaped held_def white_def)

definition raw_word :: "resolved_arg \<Rightarrow> bytes" where
  "raw_word r = (case r of ResolvedText t \<Rightarrow> double t True | ResolvedMainPid \<Rightarrow> MAIN_PID)"

lemma double_nonempty: "double t d = [] \<longleftrightarrow> t = []"
  using set_double [of t d] by (cases t; cases "double t d") auto

lemma bare_safe_bytes: "is_bare_safe t \<Longrightarrow> list_all bare (double t True) \<and> double t True \<noteq> []"
proof -
  assume t: "is_bare_safe t"
  have "bare c" if "c \<in> set t" for c using t that by (auto simp: is_bare_safe_def list_all_iff bare_def white_def)
  with t show ?thesis by (simp add: list_all_iff set_double double_nonempty is_bare_safe_def)
qed

lemma double_semicolon: "double t d = '';'' \<longleftrightarrow> t = '';''"
proof
  assume e: "double t d = '';''"
  have "double '';'' d = '';''" by (simp add: double_def Let_def)
  with e show "t = '';''" by (metis double_inj)
qed (simp add: double_def Let_def)

lemma cut_rendered:
  assumes "r \<noteq> ResolvedText '';''" "rest = [] \<or> white (hd rest)"
  shows "cut None None (render (resolved_value r) @ rest) = cut None (Some (raw_word r)) rest"
proof (cases r)
  case ResolvedMainPid
  then show ?thesis using cut_bare [of MAIN_PID rest] assms(2)
    by (simp add: render_def raw_word_def MAIN_PID_def bare_def white_def)
next
  case (ResolvedText t)
  then have "double t True \<noteq> '';''" using assms(1) by (simp add: double_semicolon)
  then show ?thesis
    using cut_bare [OF _ _ _ assms(2), of "double t True"] bare_safe_bytes [of t] cut_quote [of "double t True" rest] ResolvedText
    by (cases "is_bare_safe t") (simp_all add: render_def raw_word_def Let_def)
qed

lemma join_words_simps: "join_words [] = []" "join_words [w] = w"
  "join_words (w # v # ws) = w @ CHR '' '' # join_words (v # ws)"
  by (simp_all add: join_words_def)

lemma white_space [simp]: "white (CHR '' '')"
  by (simp add: white_def)

lemma cut_joined:
  assumes "ResolvedText '';'' \<notin> set rs"
  shows "cut None None (join_words (map (render \<circ> resolved_value) rs)) = Some (map (Word \<circ> raw_word) rs)"
  using assms
proof (induction rs rule: induct_list012)
  case (2 r)
  then show ?case using cut_rendered [of r "[]"] by (simp add: join_words_simps ended_def)
next
  case (3 r s rs)
  then have "r \<noteq> ResolvedText '';''" by auto
  with 3 show ?case using cut_rendered [of r "CHR '' '' # join_words (map (render \<circ> resolved_value) (s # rs))"]
    by (simp add: join_words_simps ended_def comp_def)
qed (simp add: join_words_simps ended_def)

lemma commands_words: "commands acc (map (Word \<circ> f) rs) = (if acc @ map f rs = [] then [] else [acc @ map f rs])"
  by (induction rs arbitrary: acc) simp_all

lemma read_raw_word: "read_word (raw_word r) = word_of r"
proof (cases r)
  case ResolvedMainPid
  have "collapse (CHR ''%'') MAIN_PID = Some MAIN_PID" by (rule collapse_absent) (simp add: MAIN_PID_def)
  moreover have "collapse (CHR ''$'') MAIN_PID = None" by (simp add: MAIN_PID_def)
  ultimately show ?thesis using ResolvedMainPid by (simp add: read_word_def raw_word_def word_of_def)
qed (simp add: raw_word_def read_word_double word_of_def)

lemma read_joined:
  assumes "command_plain rs" "key \<in> {''ExecStart'', ''ExecReload''}"
  shows "read_value key (join_words (map (render \<circ> resolved_value) rs)) = CommandsValue [command_of rs]"
proof -
  obtain t args where rs: "rs = ResolvedText t # args" "t \<noteq> []" "\<not> prefix_byte (hd t)" "CHR ''$'' \<notin> set t" "ResolvedText '';'' \<notin> set rs"
    using assms(1) unfolding command_plain_def by (cases rs) auto
  have "hd (double t False) = hd t" "double t False \<noteq> []"
    using rs(2) by (cases t; simp add: double_False)+
  then have head: "takeWhile prefix_byte (raw_word (hd rs)) = []" "dropWhile prefix_byte (raw_word (hd rs)) = double t False"
    using rs(1-4) by (cases "double t False"; simp add: raw_word_def double_no_dollar)+
  have "commands [] (map (Word \<circ> raw_word) rs) = [map raw_word rs]" by (simp add: commands_words rs(1))
  moreover have "read_command (map raw_word rs) = command_of rs"
    using head by (simp add: rs(1) command_of_def read_text_double word_of_def read_raw_word)
  ultimately show ?thesis using assms(2) by (auto simp: read_value_def cut_joined [OF rs(5)])
qed

text \<open>
  Why a bare semicolon is left out: rendering writes it bare, and as a word by itself it ends the command, so
  what follows is read as the program and arguments of a second one.
\<close>

lemma cut_joined_more:
  assumes "ResolvedText '';'' \<notin> set rs" "rs \<noteq> []"
  shows "cut None None (join_words (map (render \<circ> resolved_value) rs) @ CHR '' '' # rest) =
    map_option (append (map (Word \<circ> raw_word) rs)) (cut None None rest)"
  using assms
proof (induction rs rule: induct_list012)
  case (2 r)
  then have "r \<noteq> ResolvedText '';''" by auto
  then show ?case using cut_rendered [of r "CHR '' '' # rest"]
    by (cases "cut None None rest") (simp_all add: join_words_simps ended_def)
next
  case (3 r s rs)
  then have "r \<noteq> ResolvedText '';''" by auto
  with 3 show ?case using cut_rendered [of r "CHR '' '' # join_words (map (render \<circ> resolved_value) (s # rs)) @ CHR '' '' # rest"]
    by (simp add: join_words_simps ended_def comp_def option.map_comp)
qed simp

lemma join_words_append:
  "vs \<noteq> [] \<Longrightarrow> ws \<noteq> [] \<Longrightarrow> join_words (vs @ ws) = join_words vs @ CHR '' '' # join_words ws"
proof (induction vs rule: induct_list012)
  case (2 v)
  then show ?case by (cases ws) (simp_all add: join_words_simps)
qed (simp_all add: join_words_simps)

lemma lone_semicolon_splits:
  assumes "command_plain rs" "command_plain ss" "key \<in> {''ExecStart'', ''ExecReload''}"
  shows "read_value key (join_words (map (render \<circ> resolved_value) (rs @ ResolvedText '';'' # ss))) =
    CommandsValue [command_of rs, command_of ss]"
proof -
  have plain: "rs \<noteq> []" "ResolvedText '';'' \<notin> set rs" "ss \<noteq> []" "ResolvedText '';'' \<notin> set ss"
    using assms(1,2) by (auto simp: command_plain_def)
  have semicolon: "render (resolved_value (ResolvedText '';'')) = '';''"
    by (simp add: render_def is_bare_safe_def double_def Let_def)
  obtain v vs where ss: "map (render \<circ> resolved_value) ss = v # vs" using plain(3) by (cases ss) auto
  have "join_words (map (render \<circ> resolved_value) (rs @ ResolvedText '';'' # ss)) =
      join_words (map (render \<circ> resolved_value) rs) @ CHR '' '' # '';'' @ CHR '' '' # join_words (map (render \<circ> resolved_value) ss)"
    using plain(1) semicolon by (simp add: join_words_append join_words_simps ss)
  moreover have "cut None None ('';'' @ CHR '' '' # join_words (map (render \<circ> resolved_value) ss)) =
      Some (Separator # map (Word \<circ> raw_word) ss)"
    using cut_joined [OF plain(4)] by (simp add: white_def ended_def)
  ultimately have cut: "cut None None (join_words (map (render \<circ> resolved_value) (rs @ ResolvedText '';'' # ss))) =
      Some (map (Word \<circ> raw_word) rs @ Separator # map (Word \<circ> raw_word) ss)"
    using cut_joined_more [OF plain(2,1)] by simp
  have "commands acc (map (Word \<circ> raw_word) ts @ Separator # tokens) = (if acc @ map raw_word ts = [] then [] else [acc @ map raw_word ts]) @ commands [] tokens"
    for acc ts tokens by (induction ts arbitrary: acc) simp_all
  then have parts: "commands [] (map (Word \<circ> raw_word) rs @ Separator # map (Word \<circ> raw_word) ss) = [map raw_word rs, map raw_word ss]"
    using plain(1,3) by (simp add: commands_words)
  have "read_command (map raw_word ts) = command_of ts" if "command_plain ts" for ts
    using read_joined [OF that assms(3)] that assms(3)
    by (auto simp: read_value_def command_plain_def cut_joined commands_words)
  with assms(1-3) cut parts show ?thesis by (auto simp: read_value_def)
qed

section \<open>What resolution gives\<close>

lemma in_range_Cons: "in_range lo hi s \<Longrightarrow> \<exists>b t. s = b # t \<and> lo \<le> ord b"
  by (auto simp: in_range_def split: list.splits)

lemma in_range_low: "in_range lo hi s \<Longrightarrow> 128 \<le> lo \<Longrightarrow> s \<noteq> [] \<and> 128 \<le> ord (hd s)"
  by (auto simp: in_range_def split: list.splits)

lemma utf8_wide:
  assumes "utf8_tail a s = (True, k)" "\<not> ord a < 128"
  shows "\<exists>ms. s = ms @ drop k s \<and> (\<forall>b\<in>set ms. 128 \<le> ord b) \<and>
    (\<exists>n. utf8_chars (a # s) = n # utf8_chars (drop k s))"
proof -
  consider (two) "194 \<le> ord a" "ord a \<le> 223" "in_range 128 191 s" "k = 1"
    | (three) "224 \<le> ord a" "ord a \<le> 239" "s \<noteq> [] \<and> 128 \<le> ord (hd s)" "in_range 128 191 (drop 1 s)" "k = 2"
    | (four) "240 \<le> ord a" "s \<noteq> [] \<and> 128 \<le> ord (hd s)" "in_range 128 191 (drop 1 s)"
        "in_range 128 191 (drop 2 s)" "k = 3"
    using assms by (auto simp: utf8_tail_def Let_def dest: in_range_low split: if_splits)
  then show ?thesis
  proof cases
    case two
    from in_range_Cons [OF two(3)] obtain b t where "s = b # t" "128 \<le> ord b" by blast
    with two show ?thesis by (intro exI [of _ "[b]"]) simp
  next
    case three
    from three(3) obtain b t where b: "s = b # t" "128 \<le> ord b" by (cases s) auto
    from in_range_Cons [OF three(4)] b obtain c u where "t = c # u" "128 \<le> ord c" by auto
    with b three show ?thesis by (intro exI [of _ "[b, c]"]) (simp add: numeral_2_eq_2)
  next
    case four
    from four(2) obtain b t where b: "s = b # t" "128 \<le> ord b" by (cases s) auto
    from in_range_Cons [OF four(3)] b obtain c u where c: "t = c # u" "128 \<le> ord c" by auto
    from in_range_Cons [OF four(4)] b c obtain d v where "u = d # v" "128 \<le> ord d" by (auto simp: numeral_2_eq_2)
    with b c four show ?thesis by (intro exI [of _ "[b, c, d]"]) (simp add: numeral_3_eq_3)
  qed
qed

lemma control_newline: "is_utf8 v \<Longrightarrow> newline \<in> set v \<Longrightarrow> has_control v"
proof -
  assume "is_utf8 v" "newline \<in> set v"
  then have "10 \<in> set (utf8_chars v)"
  proof (induction v rule: is_utf8.induct)
    case (2 a s)
    then obtain k where k: "utf8_tail a s = (True, k)" "is_utf8 (drop k s)" by (auto simp: is_utf8.simps(2))
    have rest: "10 \<in> set (utf8_chars (drop k s))" if "newline \<in> set (drop k s)" using 2(1) k that by simp
    show ?case
    proof (cases "ord a < 128")
      case True
      with k rest 2(3) show ?thesis by (auto simp: utf8_tail_def)
    next
      case False
      then have "a \<noteq> newline" by auto
      with 2(3) have nl: "newline \<in> set s" by simp
      from utf8_wide [OF k(1) False] obtain ms where ms: "s = ms @ drop k s" "\<forall>b\<in>set ms. 128 \<le> ord b" 
        "\<exists>n. utf8_chars (a # s) = n # utf8_chars (drop k s)" by blast
      then have "newline \<notin> set ms" by force
      with nl ms(1) have "newline \<in> set (drop k s)" by (metis Un_iff set_append)
      with rest ms(3) show ?thesis by auto
    qed
  qed simp
  then show ?thesis unfolding has_control_def is_control_def list_ex_iff by (intro bexI [of _ 10]) simp_all
qed

lemma resolve_meaning: "resolve_arg context a = Inr r \<Longrightarrow> r = meaning context a"
  by (cases a)
    (auto simp: resolve_var_def meaning_def ok_or_def Let_def split: render_var.splits if_splits option.splits)

lemma representable_line: "is_utf8 t \<Longrightarrow> is_representable t \<Longrightarrow> newline \<notin> set t"
  using control_newline by (auto simp: is_representable_def)

lemma resolve_line:
  assumes "context_utf8 context" "arg_utf8 a" "arg_ok allowed a" "resolve_arg context a = Inr r"
  shows "newline \<notin> set (text_of r)"
  using assms representable_line
  by (cases a)
    (auto simp: resolve_var_def text_of_def arg_ok_def ok_or_def Let_def MAIN_PID_def context_utf8_def
      split: render_var.splits if_splits option.splits)

lemma escaped_set: "newline \<notin> set v \<Longrightarrow> newline \<notin> set (escaped v)"
  by (induction v) (auto simp: escaped_def)

lemma quote_ok: "newline \<notin> set v \<Longrightarrow> value_ok (quote v)"
  using escaped_set by (auto simp: quote_escaped value_ok_def)

lemma rendered_ok: "newline \<notin> set (text_of r) \<Longrightarrow> value_ok (render (resolved_value r)) \<and> render (resolved_value r) \<noteq> []"
proof (cases r)
  case (ResolvedText t)
  assume nl: "newline \<notin> set (text_of r)"
  then have d: "newline \<notin> set (double t True)" by (simp add: ResolvedText text_of_def set_double)
  show ?thesis
  proof (cases "is_bare_safe t")
    case True
    then have ne: "double t True \<noteq> []" and "backslash \<notin> set (double t True)"
      by (auto simp: is_bare_safe_def list_all_iff set_double double_nonempty)
    then have "last (double t True) \<noteq> backslash" by (metis last_in_set)
    with True d ne ResolvedText show ?thesis by (simp add: render_def value_ok_def Let_def)
  next
    case False
    with quote_ok [OF d] ResolvedText show ?thesis by (simp add: render_def Let_def quote_escaped)
  qed
qed (simp add: render_def MAIN_PID_def value_ok_def)

lemma map_res_Inr: "map_res f xs = Inr ys \<longleftrightarrow> list_all2 (\<lambda>x y. f x = Inr y) xs ys"
proof (induction xs arbitrary: ys)
  case (Cons x xs)
  then show ?case by (cases ys) (auto simp: bind_res_Inr)
qed auto

lemma render_arg_Inr:
  "render_arg context a = Inr w \<Longrightarrow> w = render (resolved_value (meaning context a)) \<and>
     resolve_arg context a = Inr (meaning context a)"
  using resolve_meaning by (auto simp: render_arg_def bind_res_Inr)

lemma rendered_tidy:
  assumes "newline \<notin> set (text_of r)"
  shows "tidy (render (resolved_value r)) \<and> render (resolved_value r) \<noteq> []"
proof -
  have ends: "\<not> white (hd w) \<and> \<not> white (last w)" if "list_all bare w" "w \<noteq> []" for w
    using that by (auto simp: list_all_iff bare_def)
  have "\<not> white (hd (render (resolved_value r))) \<and> \<not> white (last (render (resolved_value r)))"
  proof (cases r)
    case (ResolvedText t)
    then show ?thesis using ends [of "double t True"] bare_safe_bytes [of t]
      by (cases "is_bare_safe t") (simp_all add: render_def Let_def quote_escaped white_def)
  qed (simp add: render_def MAIN_PID_def white_def)
  with rendered_ok [OF assms] show ?thesis by (simp add: tidy_def)
qed

lemma joined_tidy: "\<forall>w\<in>set ws. tidy w \<and> w \<noteq> [] \<Longrightarrow> tidy (join_words ws) \<and> (ws \<noteq> [] \<longrightarrow> join_words ws \<noteq> [])"
proof (induction ws rule: induct_list012)
  case (3 w v ws)
  then show ?case by (auto simp: join_words_simps tidy_def value_ok_def)
qed (auto simp: join_words_simps tidy_def value_ok_def)

lemma render_args_Inr:
  assumes "context_utf8 context" "list_all arg_utf8 args" "list_all (arg_ok allowed) args"
    "render_args context args = Inr v"
  shows "v = join_words (map (render \<circ> resolved_value) (map (meaning context) args)) \<and> tidy v"
proof -
  obtain ws where ws: "map_res (render_arg context) args = Inr ws" "v = join_words ws"
    using assms(4) by (auto simp: render_args_def bind_res_Inr)
  have each: "\<forall>i<length args. render_arg context (args ! i) = Inr (ws ! i)" "length ws = length args"
    using ws(1) by (auto simp: map_res_Inr list_all2_conv_all_nth)
  then have "ws = map (render \<circ> resolved_value) (map (meaning context) args)"
    using render_arg_Inr by (intro nth_equalityI) auto
  moreover have "tidy w \<and> w \<noteq> []" if "w \<in> set ws" for w
  proof -
    from that obtain i where i: "i < length args" "w = ws ! i" using each(2) by (auto simp: in_set_conv_nth)
    with each(1) render_arg_Inr have "w = render (resolved_value (meaning context (args ! i)))"
      "resolve_arg context (args ! i) = Inr (meaning context (args ! i))" by metis+
    with resolve_line [OF assms(1)] assms(2,3) i(1) rendered_tidy show ?thesis
      by (metis list_all_length)
  qed
  ultimately show ?thesis using ws(2) joined_tidy [of ws] by simp
qed

lemma command_read:
  assumes "context_utf8 context" "list_all arg_utf8 args" "list_all (arg_ok allowed) args"
    "render_args context args = Inr v" "command_plain (map (meaning context) args)" "key \<in> {''ExecStart'', ''ExecReload''}"
  shows "read_value key (strip v) = CommandsValue [command_of (map (meaning context) args)]"
proof -
  from render_args_Inr [OF assms(1-4)] have "strip v = join_words (map (render \<circ> resolved_value) (map (meaning context) args))"
    using tidy_strip by metis
  with read_joined [OF assms(5,6)] show ?thesis by (simp only:)
qed

section \<open>The lines of a unit\<close>

text \<open>The lines \<open>ls\<close> are whole lines that read as \<open>items\<close>.\<close>

definition lines_read :: "bytes list \<Rightarrow> unit_item list \<Rightarrow> bool" where
  "lines_read ls items \<longleftrightarrow> list_all clean ls \<and> map read_line (filter (\<lambda>l. strip l \<noteq> []) ls) = items"

lemma lines_read_simps [simp]:
  "lines_read [] [] \<longleftrightarrow> True"
  "lines_read ([] # ls) items \<longleftrightarrow> lines_read ls items"
  by (auto simp: lines_read_def clean_def)

lemma lines_read_single:
  "strip l \<noteq> [] \<Longrightarrow> lines_read (l # ls) (item # items) \<longleftrightarrow> clean l \<and> read_line l = item \<and> lines_read ls items"
  by (auto simp: lines_read_def clean_def)

lemma lines_read_Cons: "lines_read [l] [item] \<Longrightarrow> lines_read ls items \<Longrightarrow> lines_read (l # ls) (item # items)"
  by (cases "strip l = []") (auto simp: lines_read_def)

lemma lines_read_append: "lines_read xs is \<Longrightarrow> lines_read ys js \<Longrightarrow> lines_read (xs @ ys) (is @ js)"
  by (simp add: lines_read_def)

lemma lines_read_map:
  "(\<And>x. x \<in> set xs \<Longrightarrow> lines_read [f x] [g x]) \<Longrightarrow> lines_read (map f xs) (map g xs)"
proof (induction xs)
  case (Cons x xs)
  then show ?case by (auto intro: lines_read_Cons)
qed simp

text \<open>Names the program writes as they are.\<close>

definition name_ok :: "bytes \<Rightarrow> bool" where
  "name_ok v \<longleftrightarrow> tidy v \<and> CHR ''%'' \<notin> set v"

lemma joined_names: "\<forall>w\<in>set ws. name_ok w \<and> w \<noteq> [] \<Longrightarrow> name_ok (join_words ws)"
proof -
  assume names: "\<forall>w\<in>set ws. name_ok w \<and> w \<noteq> []"
  then have "CHR ''%'' \<notin> set (join_words ws)"
    by (induction ws rule: induct_list012) (simp_all add: join_words_simps name_ok_def)
  then show ?thesis using names joined_tidy [of ws] by (simp add: name_ok_def)
qed

lemmas name_defs = name_ok_def tidy_def value_ok_def white_def

lemma names_ok:
  "name_ok (target_unit_str t)" "name_ok (restart_unit_str r)" "name_ok (memlock_unit_str m)"
  "name_ok (service_account_str a)"
  "name_ok (join_words (map group_unit_str gs))" "name_ok (join_words (map capability_unit_str cs))"
proof -
  have g: "name_ok (group_unit_str g) \<and> group_unit_str g \<noteq> []" for g by (cases g) (simp_all add: name_defs)
  have c: "name_ok (capability_unit_str c) \<and> capability_unit_str c \<noteq> []" for c by (cases c) (simp_all add: name_defs)
  show "name_ok (join_words (map group_unit_str gs))" by (rule joined_names) (use g in auto)
  show "name_ok (join_words (map capability_unit_str cs))" by (rule joined_names) (use c in auto)
  show "name_ok (target_unit_str t)" by (cases t) (simp_all add: name_defs)
  show "name_ok (restart_unit_str r)" by (cases r) (simp_all add: name_defs)
  show "name_ok (memlock_unit_str m)" by (cases m) (simp_all add: name_defs)
  show "name_ok (service_account_str a)" by (cases a) (simp_all add: name_defs)
qed

lemma dec_ok: "name_ok (dec n)"
proof -
  have digits: "list_all is_ascii_digit (dec n)" by (rule dec_digits)
  have other: "\<not> is_ascii_digit c" if "c \<in> {newline, backslash, CHR ''%''} \<or> white c" for c
    using that by (auto simp: is_ascii_digit_def white_def)
  have "\<not> white c" if "c \<in> set (dec n)" for c using digits other that by (auto simp: list_all_iff)
  moreover have "newline \<notin> set (dec n)" "backslash \<notin> set (dec n)" "CHR ''%'' \<notin> set (dec n)"
    using digits other by (auto simp: list_all_iff)
  ultimately show ?thesis unfolding name_defs(1-3) by (metis hd_in_set last_in_set)
qed

text \<open>One setting on a line of its own.\<close>

definition key_ok :: "bytes \<Rightarrow> bool" where
  "key_ok key \<longleftrightarrow> key \<noteq> [] \<and> list_all (\<lambda>c. \<not> white c \<and> c \<notin> {CHR ''='', newline, CHR ''['', CHR ''#'', CHR '';''}) key"

lemma setting_read:
  assumes "key_ok key" "value_ok v"
  shows "lines_read [key @ ''='' @ v] [SettingItem key (read_value key (strip v))]"
proof -
  let ?p = "key @ ''=''"
  have p: "?p \<noteq> []" "\<not> white (hd ?p)" "\<not> white (last ?p)" "hd key \<notin> {CHR ''['', CHR ''#'', CHR '';''}" "CHR ''='' \<notin> set key" "newline \<notin> set key"
    using assms(1) by (cases key; auto simp: key_ok_def white_def list_all_iff)+
  have whole: "strip (key @ ''='' @ v) = key @ CHR ''='' # rev (dropWhile white (rev v))"
    using strip_back [OF p(1-3), of v] by simp
  have "dropWhile white (key @ ''='' @ v) = key @ ''='' @ v" using p(2) assms(1) by (cases key) (simp_all add: key_ok_def)
  then have "\<not> comment_line (key @ ''='' @ v)"
    using p(4) assms(1) by (cases key) (simp_all add: comment_line_def key_ok_def)
  moreover have "newline \<notin> set (key @ ''='' @ v)" "last (key @ ''='' @ v) \<noteq> backslash"
    using p(6) assms(2) by (auto simp: value_ok_def)
  ultimately have "clean (key @ ''='' @ v)" by (simp add: clean_def)
  moreover have "strip key = key"
  proof (rule strip_id)
    show "key \<noteq> []" "\<not> white (hd key)" "\<not> white (last key)" using assms(1) by (auto simp: key_ok_def list_all_iff)
  qed
  then have "read_line (key @ ''='' @ v) = SettingItem key (read_value key (strip v))"
    using p(4) assms(1) unfolding read_line_def whole Let_def split_once_append [OF p(5)]
    by (simp add: key_ok_def strip_rest)
  ultimately show ?thesis using whole by (simp add: lines_read_single)
qed

lemma key_names:
  "key_ok ''After''" "key_ok ''Wants''" "key_ok ''WantedBy''" "key_ok ''User''" "key_ok ''SupplementaryGroups''"
  "key_ok ''AmbientCapabilities''" "key_ok ''CapabilityBoundingSet''" "key_ok ''Restart''" "key_ok ''RestartSec''"
  "key_ok ''LimitNOFILE''" "key_ok ''LimitMEMLOCK''" "key_ok ''Description''" "key_ok ''ExecStart''" "key_ok ''ExecReload''"
  "key_ok ''WorkingDirectory''" "key_ok ''Environment''" "key_ok ''ProtectHome''" "key_ok ''PrivateTmp''" "key_ok ''NoNewPrivileges''"
  by (simp_all add: key_ok_def white_def)

lemma named_read:
  assumes "key_ok key" "name_ok v" "key \<notin> {''ExecStart'', ''ExecReload'', ''Environment''}"
  shows "lines_read [key @ ''='' @ v] [SettingItem key (PlainValue v)]"
  using setting_read [OF assms(1), of v] assms(2,3)
  by (simp add: name_ok_def tidy_value tidy_strip read_value_def collapse_absent)

lemma setting_lines:
  "name_ok v \<Longrightarrow> lines_read [''After='' @ v] [SettingItem ''After'' (PlainValue v)]"
  "name_ok v \<Longrightarrow> lines_read [''Wants='' @ v] [SettingItem ''Wants'' (PlainValue v)]"
  "name_ok v \<Longrightarrow> lines_read [''WantedBy='' @ v] [SettingItem ''WantedBy'' (PlainValue v)]"
  "name_ok v \<Longrightarrow> lines_read [''User='' @ v] [SettingItem ''User'' (PlainValue v)]"
  "name_ok v \<Longrightarrow> lines_read [''SupplementaryGroups='' @ v] [SettingItem ''SupplementaryGroups'' (PlainValue v)]"
  "name_ok v \<Longrightarrow> lines_read [''AmbientCapabilities='' @ v] [SettingItem ''AmbientCapabilities'' (PlainValue v)]"
  "name_ok v \<Longrightarrow> lines_read [''CapabilityBoundingSet='' @ v] [SettingItem ''CapabilityBoundingSet'' (PlainValue v)]"
  "name_ok v \<Longrightarrow> lines_read [''Restart='' @ v] [SettingItem ''Restart'' (PlainValue v)]"
  "name_ok v \<Longrightarrow> lines_read [''RestartSec='' @ v] [SettingItem ''RestartSec'' (PlainValue v)]"
  "name_ok v \<Longrightarrow> lines_read [''LimitNOFILE='' @ v] [SettingItem ''LimitNOFILE'' (PlainValue v)]"
  "name_ok v \<Longrightarrow> lines_read [''LimitMEMLOCK='' @ v] [SettingItem ''LimitMEMLOCK'' (PlainValue v)]"
  using key_names [THEN named_read, of v] by simp_all

lemma value_lines:
  "value_ok v \<Longrightarrow> lines_read [''Description='' @ v] [SettingItem ''Description'' (read_value ''Description'' (strip v))]"
  "value_ok v \<Longrightarrow> lines_read [''ExecStart='' @ v] [SettingItem ''ExecStart'' (read_value ''ExecStart'' (strip v))]"
  "value_ok v \<Longrightarrow> lines_read [''ExecReload='' @ v] [SettingItem ''ExecReload'' (read_value ''ExecReload'' (strip v))]"
  "value_ok v \<Longrightarrow> lines_read [''WorkingDirectory='' @ v] [SettingItem ''WorkingDirectory'' (read_value ''WorkingDirectory'' (strip v))]"
  "value_ok v \<Longrightarrow> lines_read [''Environment='' @ v] [SettingItem ''Environment'' (read_value ''Environment'' (strip v))]"
  using key_names [THEN setting_read, of v] by simp_all

lemma literal_lines:
  "lines_read [''[Unit]''] [SectionItem ''[Unit]'']" "lines_read [''[Service]''] [SectionItem ''[Service]'']"
  "lines_read [''[Install]''] [SectionItem ''[Install]'']"
  "lines_read (opt_line on ''ProtectHome=yes'') (flag on ''ProtectHome'')"
  "lines_read (opt_line on ''PrivateTmp=yes'') (flag on ''PrivateTmp'')"
  "lines_read (opt_line on ''NoNewPrivileges=yes'') (flag on ''NoNewPrivileges'')"
proof -
  have "name_ok ''yes''" by (simp add: name_defs)
  from key_names [THEN named_read, OF this]
  show "lines_read (opt_line on ''ProtectHome=yes'') (flag on ''ProtectHome'')"
    "lines_read (opt_line on ''PrivateTmp=yes'') (flag on ''PrivateTmp'')"
    "lines_read (opt_line on ''NoNewPrivileges=yes'') (flag on ''NoNewPrivileges'')"
    by (simp_all add: opt_line_def flag_def)
qed (simp_all add: lines_read_single strip_id clean_def comment_line_def white_def read_line_def)

lemma identity_lines_read:
  assumes "identity_lines unit privileges context = Inr ids"
  shows "lines_read ids (identity_items privileges context)"
proof -
  obtain groups where g: "groups = (if pv_supplementary_groups privileges = [] then []
      else [''SupplementaryGroups='' @ join_words (map group_unit_str (pv_supplementary_groups privileges))])"
    and ids: "ids = (case rendered_account privileges context of Some a \<Rightarrow> [''User='' @ service_account_str a] | None \<Rightarrow> []) @
      groups @ (case pv_capabilities privileges of None \<Rightarrow> []
        | Some cs \<Rightarrow> opt_line (cs \<noteq> []) (''AmbientCapabilities='' @ join_words (map capability_unit_str cs)) @
            [''CapabilityBoundingSet='' @ join_words (map capability_unit_str cs)])"
    using assms unfolding identity_lines_def Let_def by (simp split: if_splits)
  show ?thesis unfolding ids g identity_items_def
  proof (intro lines_read_append)
    show "lines_read (case rendered_account privileges context of Some a \<Rightarrow> [''User='' @ service_account_str a] | None \<Rightarrow> [])
      (case rendered_account privileges context of
        None \<Rightarrow> [] | Some a \<Rightarrow> [SettingItem ''User'' (PlainValue (service_account_str a))])"
      using setting_lines(4) [OF names_ok(4)] by (cases "rendered_account privileges context") simp_all
    show "lines_read (if pv_supplementary_groups privileges = [] then []
      else [''SupplementaryGroups='' @ join_words (map group_unit_str (pv_supplementary_groups privileges))])
      (if pv_supplementary_groups privileges = [] then []
      else [SettingItem ''SupplementaryGroups''
              (PlainValue (join_words (map group_unit_str (pv_supplementary_groups privileges))))])"
      using setting_lines(5) [OF names_ok(5)] by simp
    show "lines_read (case pv_capabilities privileges of None \<Rightarrow> []
        | Some cs \<Rightarrow> opt_line (cs \<noteq> []) (''AmbientCapabilities='' @ join_words (map capability_unit_str cs)) @
            [''CapabilityBoundingSet='' @ join_words (map capability_unit_str cs)])
      (case pv_capabilities privileges of
        None \<Rightarrow> []
      | Some cs \<Rightarrow>
          (if cs = [] then []
           else [SettingItem ''AmbientCapabilities'' (PlainValue (join_words (map capability_unit_str cs)))]) @
          [SettingItem ''CapabilityBoundingSet'' (PlainValue (join_words (map capability_unit_str cs)))])"
    proof (cases "pv_capabilities privileges")
      case (Some cs)
      note l = setting_lines(6,7) [OF names_ok(6) [of cs]]
      show ?thesis
      proof (cases "cs = []")
        case True
        with Some l(2) show ?thesis by (simp add: opt_line_def)
      next
        case False
        with Some lines_read_append [OF l] show ?thesis by (simp add: opt_line_def)
      qed
    qed simp
  qed
qed

text \<open>The parts that resolve arguments: clean lines, and what they read as where the values are plain.\<close>

lemma optional_args_read:
  assumes "context_utf8 context" "\<forall>args. a = Some args \<longrightarrow> list_all arg_utf8 args \<and> list_all (arg_ok allowed) args"
    "optional_arg (render_args context) ''ExecReload='' a = Inr ls"
  shows "\<exists>v. lines_read ls (optional_item ''ExecReload'' v) \<and>
    ((\<forall>args. a = Some args \<longrightarrow> command_plain (map (meaning context) args)) \<longrightarrow>
       v = map_option (\<lambda>args. CommandsValue [command_of (map (meaning context) args)]) a)"
proof (cases a)
  case None
  with assms(3) show ?thesis by (intro exI [of _ None]) (simp add: optional_arg_def optional_item_def)
next
  case (Some args)
  with assms(3) obtain v where v: "render_args context args = Inr v" "ls = [''ExecReload='' @ v]"
    by (auto simp: optional_arg_def)
  have args: "list_all arg_utf8 args" "list_all (arg_ok allowed) args" using assms(2) Some by auto
  have "value_ok v" using render_args_Inr [OF assms(1) args v(1)] tidy_value by blast
  with Some v(2) value_lines(3) [of v] command_read [OF assms(1) args v(1), of "''ExecReload''"] show ?thesis
    by (intro exI [of _ "Some (read_value ''ExecReload'' (strip v))"]) (simp add: optional_item_def)
qed

lemma render_one: "render_arg context a = Inr v \<Longrightarrow> render_args context [a] = Inr v"
  by (simp add: render_args_def join_words_simps)

lemma optional_arg_read:
  assumes "context_utf8 context" "\<forall>d. a = Some d \<longrightarrow> arg_utf8 d \<and> arg_ok allowed d"
    "optional_arg (render_arg context) ''WorkingDirectory='' a = Inr ls"
  shows "\<exists>v. lines_read ls (optional_item ''WorkingDirectory'' v) \<and>
    ((\<forall>d. a = Some d \<longrightarrow> directory_plain (meaning context d)) \<longrightarrow>
       v = map_option (\<lambda>d. PlainValue (text_of (meaning context d))) a)"
proof (cases a)
  case None
  with assms(3) show ?thesis by (intro exI [of _ None]) (simp add: optional_arg_def optional_item_def)
next
  case (Some d)
  with assms(3) obtain v where v: "render_arg context d = Inr v" "ls = [''WorkingDirectory='' @ v]"
    by (auto simp: optional_arg_def)
  have d: "list_all arg_utf8 [d]" "list_all (arg_ok allowed) [d]" using assms(2) Some by auto
  note one = render_args_Inr [OF assms(1) d render_one [OF v(1)]]
  have "read_value ''WorkingDirectory'' (strip v) = PlainValue (text_of (meaning context d))" if "directory_plain (meaning context d)"
  proof -
    from that obtain t where t: "meaning context d = ResolvedText t" "is_bare_safe t" "CHR ''$'' \<notin> set t"
      by (auto simp: directory_plain_def)
    then have "join_words (map (render \<circ> resolved_value) (map (meaning context) [d])) = double t False"
      by (simp add: join_words_simps render_def Let_def double_no_dollar)
    then have "strip v = double t False" using one tidy_strip by metis
    then show ?thesis using t(1) by (simp add: read_value_def collapse_double text_of_def)
  qed
  moreover have "value_ok v" using one tidy_value by metis
  ultimately show ?thesis using Some v(2) value_lines(4) [of v]
    by (intro exI [of _ "Some (read_value ''WorkingDirectory'' (strip v))"]) (simp add: optional_item_def)
qed

lemma environment_key_line: "is_environment_key k \<Longrightarrow> newline \<notin> set k"
  by (cases k) (auto simp: is_environment_key_def ascii_defs list_all_iff)

lemma environment_line_read:
  assumes "context_utf8 context" "is_environment_key k" "arg_utf8 v" "arg_ok False v"
    "environment_line context (k, v) = Inr l"
  shows "lines_read [l] [SettingItem ''Environment'' (AssignmentsValue [Text (k @ ''='' @ text_of (meaning context v))])]"
proof -
  from assms(5) obtain raw where raw: "resolve_raw context v = Inr raw" "l = ''Environment='' @ render (Environment k raw)"
    by (auto simp: environment_line_def)
  from raw(1) obtain r where res: "resolve_arg context v = Inr r" "raw = text_of r"
    unfolding resolve_raw_def text_of_def by (auto simp: render_def cong: resolved_arg.case_cong)
  with raw(2) have r: "resolve_arg context v = Inr r" "l = ''Environment='' @ quote (double (k @ ''='' @ text_of r) False)"
    by (simp_all add: render_def)
  note m = resolve_meaning [OF r(1)]
  have "newline \<notin> set (k @ ''='' @ text_of r)"
    using resolve_line [OF assms(1,3,4) r(1)] environment_key_line [OF assms(2)] by simp
  then have ok: "value_ok (quote (double (k @ ''='' @ text_of r) False))"
    unfolding set_double [of "k @ ''='' @ text_of r" False, symmetric] by (rule quote_ok)
  moreover have "strip (quote w) = quote w" for w by (rule strip_id) (simp_all add: quote_escaped white_def)
  moreover have "cut None None (quote w) = Some [Word w]" for w using cut_quote [of w "[]"] by (simp add: ended_def)
  ultimately have "read_value ''Environment'' (strip (quote (double (k @ ''='' @ text_of r) False))) =
      AssignmentsValue [Text (k @ ''='' @ text_of r)]"
    by (simp add: read_value_def read_text_double del: append_Cons)
  then show ?thesis using value_lines(5) [OF ok] r(2) m by simp
qed

lemma environment_lines_read:
  assumes "context_utf8 context" "\<forall>(k, v)\<in>set env. is_environment_key k \<and> arg_utf8 v \<and> arg_ok False v"
    "map_res (environment_line context) env = Inr ls"
  shows "lines_read ls (map (\<lambda>(k, v). SettingItem ''Environment'' (AssignmentsValue [Text (k @ ''='' @ text_of (meaning context v))])) env)"
  using assms(2,3)
proof (induction env arbitrary: ls)
  case (Cons e env)
  obtain k v where e: "e = (k, v)" by (cases e)
  with Cons.prems obtain l rest where l: "environment_line context (k, v) = Inr l"
    "map_res (environment_line context) env = Inr rest" "ls = l # rest" by auto
  from Cons e have "lines_read rest (map (\<lambda>(k, v). SettingItem ''Environment'' (AssignmentsValue [Text (k @ ''='' @ text_of (meaning context v))])) env)"
    using l(2) by simp
  with environment_line_read [OF assms(1) _ _ _ l(1)] Cons.prems(1) e l(3)
  show ?case by (auto intro: lines_read_Cons)
qed simp

definition unit_lines ::
  "unit_template \<Rightarrow> privileges \<Rightarrow> bytes list \<Rightarrow> bytes \<Rightarrow> bytes list \<Rightarrow> bytes list \<Rightarrow> bytes list \<Rightarrow> bytes list" where
  "unit_lines unit privileges ids exec_start exec_reload workdir environment =
     map (\<lambda>t. ''Wants='' @ target_unit_str t) (ut_wants unit) @ [[], ''[Service]''] @
         ids @ [''ExecStart='' @ exec_start] @ exec_reload @ workdir @ environment @
         [''Restart='' @ restart_unit_str (ut_restart unit), ''RestartSec='' @ dec (unat (ut_restart_sec unit))] @
            (case ut_limit_nofile unit of Some n \<Rightarrow> [''LimitNOFILE='' @ to_string n] | None \<Rightarrow> []) @
            (case pv_limit_memlock privileges of Some l \<Rightarrow> [''LimitMEMLOCK='' @ memlock_unit_str l] | None \<Rightarrow> []) @
            opt_line (ut_protect_home unit) ''ProtectHome=yes'' @
            opt_line (ut_private_tmp unit) ''PrivateTmp=yes'' @
            opt_line (ut_no_new_privileges unit) ''NoNewPrivileges=yes'' @
            [[], ''[Install]''] @ map (\<lambda>t. ''WantedBy='' @ target_unit_str t) (ut_wanted_by unit)"

lemma render_text_lines:
  "render_text unit privileges context = Inr t \<longleftrightarrow> (\<exists>ids exec_start exec_reload workdir environment.
    identity_lines unit privileges context = Inr ids \<and> render_args context (ut_exec_start unit) = Inr exec_start \<and>
    optional_arg (render_args context) ''ExecReload='' (ut_exec_reload unit) = Inr exec_reload \<and>
    optional_arg (render_arg context) ''WorkingDirectory='' (ut_working_directory unit) = Inr workdir \<and>
    map_res (environment_line context) (ut_environment unit) = Inr environment \<and>
    join_lines (''[Unit]'' # (''Description='' @ render (Description (ut_description unit))) #
      map (\<lambda>t. ''After='' @ target_unit_str t) (ut_after unit) @
      unit_lines unit privileges ids exec_start exec_reload workdir environment) @ [newline] = t)"
  unfolding render_text_def Let_def unit_lines_def bind_res_Inr sum.inject append_assoc append_Cons append_Nil by blast


lemma white_double: "dropWhile white (double v False) = double (dropWhile white v) False"
proof (induction v)
  case (Cons c v)
  then show ?case by (simp add: double_False white_def)
qed (simp add: double_False)

lemma rev_double: "rev (double v False) = double (rev v) False"
proof -
  have "replace_byte c w (a @ b) = replace_byte c w a @ replace_byte c w b" for c w and a b :: bytes
    by (induction a) simp_all
  then show ?thesis unfolding double_False by (induction v) auto
qed

lemma strip_double: "strip (double v False) = double (strip v) False"
  by (simp add: strip_def white_double rev_double)

lemma description_read:
  assumes "value_ok (double d False)"
  shows "lines_read [''Description='' @ render (Description d)] [SettingItem ''Description'' (PlainValue (strip d))]"
  using value_lines(1) [OF assms] by (simp add: render_def read_value_def strip_double collapse_double)

lemma rendered_lines:
  assumes "render_unit spec context = Inr (Some r)" "ms_unit spec = Some unit" "texts_utf8 unit context"
  shows "\<exists>privileges later s v w.
    resolve_privileges unit context = Inr privileges \<and> unit_ok unit \<and>
    (\<forall>d targets. render_text (unit\<lparr>ut_description := d, ut_after := targets\<rparr>) privileges context =
       Inr (join_lines (''[Unit]'' # (''Description='' @ render (Description d)) #
         map (\<lambda>t. ''After='' @ target_unit_str t) targets @ later) @ [newline])) \<and>
    render_text unit privileges context = Inr (ru_text r) \<and>
    lines_read later (later_items unit privileges context s v w) \<and>
    (words_plain unit context \<longrightarrow>
       s = CommandsValue [command_of (map (meaning context) (ut_exec_start unit))] \<and>
       v = map_option (\<lambda>args. CommandsValue [command_of (map (meaning context) args)]) (ut_exec_reload unit) \<and>
       w = map_option (\<lambda>d. PlainValue (text_of (meaning context d))) (ut_working_directory unit))"
proof -
  from assms(1,2) obtain privileges where ok: "module_spec_validate spec (rx_component context) (rx_kind context) = Inr ()"
    and p: "resolve_privileges unit context = Inr privileges" "render_text unit privileges context = Inr (ru_text r)"
    by (auto simp: render_unit_def)
  have unit: "unit_ok unit" using ok assms(2)
    by (auto simp: module_spec_validate_def validate_unit_Inr split: if_splits)
  from assms(3) have ctx: "context_utf8 context" by (simp add: texts_utf8_def)
  from p(2) [unfolded render_text_lines] obtain ids exec_start exec_reload workdir environment where
    parts: "identity_lines unit privileges context = Inr ids" "render_args context (ut_exec_start unit) = Inr exec_start"
      "optional_arg (render_args context) ''ExecReload='' (ut_exec_reload unit) = Inr exec_reload"
      "optional_arg (render_arg context) ''WorkingDirectory='' (ut_working_directory unit) = Inr workdir"
      "map_res (environment_line context) (ut_environment unit) = Inr environment"
    by blast
  let ?later = "unit_lines unit privileges ids exec_start exec_reload workdir environment"
  have written: "render_text (unit\<lparr>ut_description := d, ut_after := targets\<rparr>) privileges context =
       Inr (join_lines (''[Unit]'' # (''Description='' @ render (Description d)) #
         map (\<lambda>t. ''After='' @ target_unit_str t) targets @ ?later) @ [newline])" for d targets
  proof -
    have "identity_lines (unit\<lparr>ut_description := d, ut_after := targets\<rparr>) privileges context = identity_lines unit privileges context"
      by (simp add: identity_lines_def)
    with parts show ?thesis unfolding render_text_lines by (simp add: unit_lines_def)
  qed
  have args: "list_all arg_utf8 (ut_exec_start unit)" "list_all (arg_ok False) (ut_exec_start unit)"
    using unit assms(3) by (simp_all add: unit_ok_def texts_utf8_def)
  have start: "value_ok exec_start" using render_args_Inr [OF ctx args parts(2)] tidy_value by blast
  obtain v where v: "lines_read exec_reload (optional_item ''ExecReload'' v)"
    "words_plain unit context \<longrightarrow> v = map_option (\<lambda>args. CommandsValue [command_of (map (meaning context) args)]) (ut_exec_reload unit)"
    using optional_args_read [OF ctx _ parts(3), of True] unit assms(3) by (auto simp: unit_ok_def texts_utf8_def words_plain_def)
  obtain w where w: "lines_read workdir (optional_item ''WorkingDirectory'' w)"
    "words_plain unit context \<longrightarrow> w = map_option (\<lambda>d. PlainValue (text_of (meaning context d))) (ut_working_directory unit)"
    using optional_arg_read [OF ctx _ parts(4), of False] unit assms(3) by (auto simp: unit_ok_def texts_utf8_def words_plain_def)
  have "lines_read ?later (later_items unit privileges context (read_value ''ExecStart'' (strip exec_start)) v w)"
    unfolding later_items_def unit_lines_def append_assoc
  proof (intro lines_read_append)
    show "lines_read [[], ''[Service]''] [SectionItem ''[Service]'']"
      "lines_read [[], ''[Install]''] [SectionItem ''[Install]'']"
      using literal_lines by simp_all
    show "lines_read ids (identity_items privileges context)" by (rule identity_lines_read [OF parts(1)])
    show "lines_read [''ExecStart='' @ exec_start] [SettingItem ''ExecStart'' (read_value ''ExecStart'' (strip exec_start))]"
      by (rule value_lines(2) [OF start])
    show "lines_read exec_reload (optional_item ''ExecReload'' v)" "lines_read workdir (optional_item ''WorkingDirectory'' w)"
      by (rule v(1), rule w(1))
    show "lines_read environment
      (map (\<lambda>(k, v). SettingItem ''Environment'' (AssignmentsValue [Text (k @ ''='' @ text_of (meaning context v))])) (ut_environment unit))"
      using unit assms(3) by (intro environment_lines_read [OF ctx _ parts(5)]) (auto simp: unit_ok_def texts_utf8_def)
    show "lines_read [''Restart='' @ restart_unit_str (ut_restart unit), ''RestartSec='' @ dec (unat (ut_restart_sec unit))]
      [SettingItem ''Restart'' (PlainValue (restart_unit_str (ut_restart unit))),
       SettingItem ''RestartSec'' (PlainValue (dec (unat (ut_restart_sec unit))))]"
      by (rule lines_read_Cons [OF setting_lines(8) [OF names_ok(2)] setting_lines(9) [OF dec_ok]])
    show "lines_read (case ut_limit_nofile unit of Some n \<Rightarrow> [''LimitNOFILE='' @ to_string n] | None \<Rightarrow> [])
      (case ut_limit_nofile unit of None \<Rightarrow> [] | Some n \<Rightarrow> [SettingItem ''LimitNOFILE'' (PlainValue (to_string n))])"
      using setting_lines(10) [OF dec_ok] by (cases "ut_limit_nofile unit") (simp_all add: to_string_def)
    show "lines_read (case pv_limit_memlock privileges of Some l \<Rightarrow> [''LimitMEMLOCK='' @ memlock_unit_str l] | None \<Rightarrow> [])
      (case pv_limit_memlock privileges of None \<Rightarrow> [] | Some l \<Rightarrow> [SettingItem ''LimitMEMLOCK'' (PlainValue (memlock_unit_str l))])"
      using setting_lines(11) [OF names_ok(3)] by (cases "pv_limit_memlock privileges") simp_all
  qed (intro lines_read_map setting_lines names_ok literal_lines)+
  moreover have "read_value ''ExecStart'' (strip exec_start) = CommandsValue [command_of (map (meaning context) (ut_exec_start unit))]"
    if "words_plain unit context"
    using command_read [OF ctx args parts(2)] that by (simp add: words_plain_def)
  ultimately show ?thesis using p unit written v(2) w(2) by blast
qed

text \<open>
  What a whole text reads as, when its description is clean.
\<close>

lemma text_read:
  assumes "value_ok (double d False)" "lines_read later items"
  shows "read_unit (join_lines (''[Unit]'' # (''Description='' @ render (Description d)) #
      map (\<lambda>t. ''After='' @ target_unit_str t) targets @ later) @ [newline]) =
    SectionItem ''[Unit]'' # SettingItem ''Description'' (PlainValue (strip d)) #
      map (\<lambda>t. SettingItem ''After'' (PlainValue (target_unit_str t))) targets @ items" (is "read_unit (join_lines ?ls @ _) = ?items")
proof -
  have "lines_read (map (\<lambda>t. ''After='' @ target_unit_str t) targets)
      (map (\<lambda>t. SettingItem ''After'' (PlainValue (target_unit_str t))) targets)"
    by (intro lines_read_map setting_lines names_ok)
  from lines_read_Cons [OF literal_lines(1) lines_read_Cons [OF description_read [OF assms(1)] lines_read_append [OF this assms(2)]]]
  have "lines_read ?ls ?items" .
  then show ?thesis unfolding lines_read_def by (subst read_unit_lines) blast+
qed


lemma continued_line:
  assumes "clean h" "list_all clean (a # ls)" "clean (l @ CHR '' '' # a)"
  shows "join_continued (h # (l @ [backslash]) # a # ls @ [[]]) = h # (l @ CHR '' '' # a) # ls @ [[]]"
proof -
  from assms(2,3) have "join_continued (((l @ CHR '' '' # a) # ls) @ [[]]) = ((l @ CHR '' '' # a) # ls) @ [[]]"
    by (intro join_continued_clean) simp
  with assms(1) show ?thesis by (auto simp: clean_def)
qed

lemma split_unclean:
  assumes "newline \<notin> set h" "newline \<notin> set l" "list_all clean ls" "ls \<noteq> []"
  shows "split newline (join_lines (h # l # ls) @ [newline]) = h # l # ls @ [[]]"
proof -
  obtain m ms where ls: "ls = m # ms" using assms(4) by (cases ls) auto
  then show ?thesis
    using split_line [OF assms(1)] split_line [OF assms(2)] split_lines [OF assms(4,3)] by simp
qed

lemma swallowed_logical:
  assumes "clean h" "newline \<notin> set l" "\<not> comment_line (l @ [backslash])" "list_all clean (a # ls)" "clean (l @ CHR '' '' # a)"
  shows "logical_lines (join_lines (h # (l @ [backslash]) # a # ls) @ [newline]) =
    logical_lines (join_lines (h # (l @ CHR '' '' # a) # ls) @ [newline])"
proof -
  have "newline \<notin> set (l @ [backslash])" "newline \<notin> set h" using assms(1,2) by (simp_all add: clean_def)
  from split_unclean [OF this(2,1) assms(4)] have split: "split newline (join_lines (h # (l @ [backslash]) # a # ls) @ [newline]) =
      h # (l @ [backslash]) # a # ls @ [[]]" by simp
  have "filter (\<lambda>l. \<not> comment_line l) (h # (l @ [backslash]) # a # ls @ [[]]) = h # (l @ [backslash]) # a # ls @ [[]]"
    using assms(1,3,4) clean_not_comment [of ls] by (simp add: clean_def)
  with split have "logical_lines (join_lines (h # (l @ [backslash]) # a # ls) @ [newline]) =
      filter (\<lambda>l. strip l \<noteq> []) (h # (l @ CHR '' '' # a) # ls @ [[]])"
    using continued_line [OF assms(1,4,5)] by (simp add: logical_lines_def)
  moreover have "list_all clean (h # (l @ CHR '' '' # a) # ls)" using assms(1,4,5) by simp
  from clean_lines_logical [OF _ this] have "logical_lines (join_lines (h # (l @ CHR '' '' # a) # ls) @ [newline]) =
      filter (\<lambda>l. strip l \<noteq> []) (h # (l @ CHR '' '' # a) # ls)" by simp
  ultimately show ?thesis by simp
qed

lemma double_append_plain: "CHR ''%'' \<notin> set x \<Longrightarrow> double (d @ x) False = double d False @ x"
  by (induction d) (simp_all add: double_False replace_absent)

lemma swallowed_lines:
  assumes "newline \<notin> set d" and ls: "list_all clean ls" "ls \<noteq> []"
    and swallowed_def: "swallowed = d @ '' After='' @ target_unit_str target"
  shows "read_unit (join_lines (''[Unit]'' # (''Description='' @ render (Description (d @ [backslash]))) #
      (''After='' @ target_unit_str target) # ls) @ [newline]) =
    read_unit (join_lines (''[Unit]'' # (''Description='' @ render (Description swallowed)) # ls) @ [newline])"
    and "value_ok (double swallowed False)"
proof -
  let ?l = "''Description='' @ double d False" and ?a = "''After='' @ target_unit_str target"
  have line: "''Description='' @ render (Description (d @ [backslash])) = ?l @ [backslash]"
    by (simp add: render_def double_append_plain)
  have "CHR ''%'' \<notin> set ('' After='' @ target_unit_str target)" by (cases target) simp_all
  from double_append_plain [OF this, of d] have double: "double swallowed False = double d False @ CHR '' '' # ?a"
    by (simp add: swallowed_def)
  then have joined: "''Description='' @ render (Description swallowed) = ?l @ CHR '' '' # ?a" by (simp add: render_def)
  have nl: "newline \<notin> set ?l" using assms(1) by (simp add: set_double)
  show "value_ok (double swallowed False)"
    unfolding double using nl by (cases target) (simp_all add: value_ok_def)
  have after: "clean ?a" by (cases target) (simp_all add: clean_def comment_line_def white_def)
  have clean: "clean (?l @ CHR '' '' # ?a)" "clean ''[Unit]''"
    using nl by (cases target; simp add: clean_def comment_line_def white_def)+
  have spoiled: "\<not> comment_line (?l @ [backslash])" by (simp add: comment_line_def white_def)
  have "list_all clean (?a # ls)" using after ls(1) by simp
  from swallowed_logical [OF clean(2) nl spoiled this clean(1)]
  show "read_unit (join_lines (''[Unit]'' # (''Description='' @ render (Description (d @ [backslash]))) #
      ?a # ls) @ [newline]) =
    read_unit (join_lines (''[Unit]'' # (''Description='' @ render (Description swallowed)) # ls) @ [newline])"
    unfolding line joined read_unit_def by (rule arg_cong)
qed

text \<open>
  C23: a description that ends in a backslash takes the next setting with it. Such a description passes
  every check, and in the unit rendered from it the first \<open>After=\<close> line is the continuation of the
  \<open>Description=\<close> line: a reader finds in it exactly the unit that is rendered from a template with that
  ordering text in the description and without that ordering. Where the other values are plain, that is
  every other item in its place.
\<close>

theorem trailing_backslash_swallows_ordering:
  assumes "render_unit spec context = Inr (Some r)" "ms_unit spec = Some unit" "texts_utf8 unit context"
    "ut_description unit = d @ [backslash]" "ut_after unit = target # targets"
  shows "\<exists>privileges t. resolve_privileges unit context = Inr privileges \<and>
    render_text (unit\<lparr>ut_description := d @ '' After='' @ target_unit_str target, ut_after := targets\<rparr>) privileges context = Inr t \<and>
    read_unit (ru_text r) = read_unit t \<and>
    take 2 (read_unit (ru_text r)) = [SectionItem ''[Unit]'',
      SettingItem ''Description'' (PlainValue (strip (d @ '' After='' @ target_unit_str target)))] \<and>
    (words_plain unit context \<longrightarrow>
      read_unit (ru_text r) = SectionItem ''[Unit]'' #
        SettingItem ''Description'' (PlainValue (strip (d @ '' After='' @ target_unit_str target))) #
        drop 3 (unit_items unit privileges context))"
proof -
  let ?d = "d @ '' After='' @ target_unit_str target"
  from rendered_lines [OF assms(1-3)] obtain privileges later s v w where r: "resolve_privileges unit context = Inr privileges" "unit_ok unit"
    "\<forall>d targets. render_text (unit\<lparr>ut_description := d, ut_after := targets\<rparr>) privileges context =
       Inr (join_lines (''[Unit]'' # (''Description='' @ render (Description d)) #
         map (\<lambda>t. ''After='' @ target_unit_str t) targets @ later) @ [newline])"
    "render_text unit privileges context = Inr (ru_text r)" "lines_read later (later_items unit privileges context s v w)"
    and plain: "words_plain unit context \<longrightarrow> s = CommandsValue [command_of (map (meaning context) (ut_exec_start unit))] \<and>
       v = map_option (\<lambda>args. CommandsValue [command_of (map (meaning context) args)]) (ut_exec_reload unit) \<and>
       w = map_option (\<lambda>d. PlainValue (text_of (meaning context d))) (ut_working_directory unit)"
    by (elim exE conjE)
  let ?ls = "map (\<lambda>t. ''After='' @ target_unit_str t) targets @ later"
  define t where "t = join_lines (''[Unit]'' # (''Description='' @ render (Description ?d)) # ?ls) @ [newline]"
  have t: "render_text (unit\<lparr>ut_description := ?d, ut_after := targets\<rparr>) privileges context = Inr t"
    using r(3) by (simp add: t_def)
  have whole: "ru_text r = join_lines (''[Unit]'' # (''Description='' @ render (Description (d @ [backslash]))) #
      (''After='' @ target_unit_str target) # ?ls) @ [newline]"
  proof -
    have "unit\<lparr>ut_description := d @ [backslash], ut_after := target # targets\<rparr> = unit"
      using assms(4,5) by (cases unit) simp
    with r(3) [rule_format, where d = "d @ [backslash]" and targets = "target # targets"] r(4) show ?thesis
      by (simp only: list.map append_Cons sum.inject)
  qed
  have nl: "newline \<notin> set d"
    using representable_line [of "d @ [backslash]"] r(2) assms(3,4) by (simp add: unit_ok_def texts_utf8_def)
  have "lines_read (map (\<lambda>t. ''After='' @ target_unit_str t) targets)
      (map (\<lambda>t. SettingItem ''After'' (PlainValue (target_unit_str t))) targets)"
    by (intro lines_read_map setting_lines names_ok)
  with r(5) have clean: "list_all clean ?ls" by (simp add: lines_read_def)
  have ne: "?ls \<noteq> []" using r(5) by (auto simp: lines_read_def later_items_def)
  note swallowed = swallowed_lines [OF nl clean ne refl [of ?d]]
  have same: "read_unit (ru_text r) = read_unit t" unfolding whole t_def by (rule swallowed(1))
  have all: "read_unit t = SectionItem ''[Unit]'' # SettingItem ''Description'' (PlainValue (strip ?d)) #
      map (\<lambda>t. SettingItem ''After'' (PlainValue (target_unit_str t))) targets @ later_items unit privileges context s v w"
    unfolding t_def by (rule text_read [OF swallowed(2) r(5)])
  have "drop 3 (unit_items unit privileges context) =
      map (\<lambda>t. SettingItem ''After'' (PlainValue (target_unit_str t))) targets @ later_items unit privileges context s v w"
    if "words_plain unit context"
    using plain that assms(5) by (simp add: unit_items_def numeral_3_eq_3)
  with r(1) t same all show ?thesis by (intro exI [of _ privileges] exI [of _ t]) (simp add: numeral_2_eq_2)
qed

section \<open>Instances\<close>

definition sample_context :: render_context where
  "sample_context =
     \<lparr>rx_artifact_path = ''/opt/a b'', rx_config_path = ''/etc/50% $c.toml'', rx_data_dir = ''/var/lib/s'', rx_instance_id = ''1'',
      rx_hostname = ''h'', rx_domain = ''d'', rx_cert_path = ''/c'', rx_key_path = ''/k'', rx_ca_bundle_path = ''/b'',
      rx_manager_endpoint = None, rx_service_account = None, rx_privilege_profile = Some PP_Root,
      rx_namespace = ''clumit'', rx_service_name = ''sensor'', rx_instance = None, rx_component = ''sensor'',
      rx_kind = NativeBinary\<rparr>"

lemma sample_context_utf8: "texts_utf8 (sample_unit\<lparr>ut_description := d\<rparr>) sample_context \<longleftrightarrow> is_utf8 d"
  by (simp add: texts_utf8_def context_utf8_def sample_context_def sample_unit_def is_utf8_ascii)

lemma sample_ok:
  assumes "is_representable d"
  shows "module_spec_validate (sample_spec\<lparr>ms_unit := Some (sample_unit\<lparr>ut_description := d\<rparr>)\<rparr>) ''sensor'' NativeBinary = Inr ()"
proof -
  have "unit_ok (sample_unit\<lparr>ut_description := d\<rparr>)"
    using sample_unit_ok assms by (simp add: unit_ok_def privileges_ok_def)
  moreover have "registration_ok (ms_registration sample_spec) ''sensor''"
    by (simp add: registration_ok_def sample_spec_def is_dns_label_def is_absolute_process_path_def
        MAX_DNS_LABEL_LEN_def starts_with_def ascii_defs)
  ultimately show ?thesis
    by (simp add: module_spec_validate_def validate_unit_Inr [THEN iffD2] validate_registration_Inr [THEN iffD2])
qed

lemma sample_held:
  "is_representable (rx_artifact_path sample_context)" "is_representable (rx_config_path sample_context)"
  "is_representable (rx_data_dir sample_context)"
  by (rule ascii_representable; simp add: sample_context_def)+

lemma sample_label: "is_dns_label ''clumit''" "is_dns_label ''sensor''"
  by (simp_all add: is_dns_label_def MAX_DNS_LABEL_LEN_def starts_with_def ascii_defs)

lemma sample_fields:
  "rx_service_name sample_context = ''sensor''" "rx_namespace sample_context = ''clumit''"
  "rx_instance sample_context = None" "rx_privilege_profile sample_context = Some PP_Root"
  "rx_service_account sample_context = None" "rx_component sample_context = ''sensor''"
  "rx_kind sample_context = NativeBinary"
  by (simp_all add: sample_context_def)

lemma sample_renders:
  assumes "is_representable d"
  shows "\<exists>r. render_unit (sample_spec\<lparr>ms_unit := Some (sample_unit\<lparr>ut_description := d\<rparr>)\<rparr>) sample_context = Inr (Some r)"
  using sample_ok [OF assms] sample_held sample_label
  by (simp add: sample_fields render_unit_def sample_unit_def resolve_privileges_def unit_file_name_def check_label_def
      render_text_def identity_lines_def rendered_account_def render_args_def render_arg_def resolve_var_def
      optional_arg_def environment_line_def resolve_raw_def Let_def)

lemma sample_items:
  assumes "resolve_privileges (sample_unit\<lparr>ut_description := d\<rparr>) sample_context = Inr privileges"
  shows "drop 3 (unit_items (sample_unit\<lparr>ut_description := d\<rparr>) privileges sample_context) =
     [SectionItem ''[Service]'',
      SettingItem ''ExecStart'' (CommandsValue [Command [] (Text ''/opt/a b'') [Text ''-c'', Text ''/etc/50% $c.toml'']]),
      SettingItem ''ExecReload'' (CommandsValue [Command [] (Text ''kill'') [Expansion ''$MAINPID'']]),
      SettingItem ''Environment'' (AssignmentsValue [Text ''HOME=/var/lib/s'']),
      SettingItem ''Restart'' (PlainValue ''always''), SettingItem ''RestartSec'' (PlainValue (dec 5)),
      SettingItem ''LimitNOFILE'' (PlainValue (to_string 65536)),
      SettingItem ''ProtectHome'' (PlainValue ''yes''), SettingItem ''PrivateTmp'' (PlainValue ''yes''),
      SettingItem ''NoNewPrivileges'' (PlainValue ''yes''),
      SectionItem ''[Install]'', SettingItem ''WantedBy'' (PlainValue ''multi-user.target'')]"
  using assms
  by (auto simp: unit_items_def later_items_def optional_item_def command_of_def word_of_def MAIN_PID_def identity_items_def sample_unit_def sample_context_def resolve_privileges_def
      rendered_account_def meaning_def text_of_def flag_def numeral_3_eq_3)

lemma sample_words_plain: "words_plain (sample_unit\<lparr>ut_description := d\<rparr>) sample_context"
  by (simp add: words_plain_def command_plain_def prefix_byte_def sample_unit_def sample_context_def meaning_def)


theorem trailing_backslash_swallows_ordering_witness:
  "\<exists>r. render_unit (sample_spec\<lparr>ms_unit := Some (sample_unit\<lparr>ut_description := ''S'' @ [backslash]\<rparr>)\<rparr>) sample_context = Inr (Some r) \<and>
     hd (tl (read_unit (ru_text r))) = SettingItem ''Description'' (PlainValue ''S After=network-online.target'') \<and>
     SettingItem ''After'' (PlainValue ''network-online.target'') \<notin> set (read_unit (ru_text r))"
proof -
  have d: "is_representable (''S'' @ [backslash])" "is_utf8 (''S'' @ [backslash])"
    by (rule ascii_representable; simp) (rule is_utf8_ascii; simp)
  from sample_renders [OF d(1)] obtain r where r:
    "render_unit (sample_spec\<lparr>ms_unit := Some (sample_unit\<lparr>ut_description := ''S'' @ [backslash]\<rparr>)\<rparr>) sample_context = Inr (Some r)" by blast
  have "ut_after (sample_unit\<lparr>ut_description := ''S'' @ [backslash]\<rparr>) = [NetworkOnline]" by (simp add: sample_unit_def)
  from trailing_backslash_swallows_ordering [OF r _ _ _ this, of "''S''"] d(2) obtain privileges where
    p: "resolve_privileges (sample_unit\<lparr>ut_description := ''S'' @ [backslash]\<rparr>) sample_context = Inr privileges"
    "read_unit (ru_text r) = SectionItem ''[Unit]'' #
      SettingItem ''Description'' (PlainValue (strip (''S'' @ '' After='' @ target_unit_str NetworkOnline))) #
      drop 3 (unit_items (sample_unit\<lparr>ut_description := ''S'' @ [backslash]\<rparr>) privileges sample_context)"
    using sample_words_plain by (auto simp: sample_context_utf8)
  have "strip (''S'' @ '' After='' @ target_unit_str NetworkOnline) = ''S'' @ '' After='' @ target_unit_str NetworkOnline"
    by (simp add: strip_def white_def)
  note p = p(1) p(2) [unfolded this]
  show ?thesis using r unfolding p(2) sample_items [OF p(1)] by (intro exI [of _ r]) (simp add: p(2) [unfolded sample_items [OF p(1)]])
qed

end
