(* ===== verification/Config_Template.thy ===== *)
theory Config_Template
  imports Byte_Search
begin

text \<open>
  The configuration templates of \<open>src/config_template.rs\<close>: the catalog, and the substitution of host
  values into a parsed TOML table. The TOML parser and serializer are parameters.
\<close>

section \<open>Templates and host values\<close>

record localized_text =
  lt_en :: bytes
  lt_ko :: bytes

record config_template =
  ct_component :: bytes
  ct_id :: bytes
  ct_name :: localized_text
  ct_description :: localized_text
  ct_body :: bytes

definition CATALOG :: "config_template list" where "CATALOG = []"
definition REQUIRES_TEMPLATE :: "bytes list" where "REQUIRES_TEMPLATE = []"

datatype template_token = CertPathToken | KeyPathToken | CaBundlePathToken | ManagerAddressToken | ManagerServerNameToken

definition ALL_TOKENS :: "template_token list" where
  "ALL_TOKENS = [CertPathToken, KeyPathToken, CaBundlePathToken, ManagerAddressToken, ManagerServerNameToken]"

fun token_str :: "template_token \<Rightarrow> bytes" where
  "token_str CertPathToken = ''${cert_path}''"
| "token_str KeyPathToken = ''${key_path}''"
| "token_str CaBundlePathToken = ''${ca_bundle_path}''"
| "token_str ManagerAddressToken = ''${manager_address}''"
| "token_str ManagerServerNameToken = ''${manager_server_name}''"

record host_values =
  hv_cert_path :: "bytes option"
  hv_key_path :: "bytes option"
  hv_ca_bundle_path :: "bytes option"
  hv_manager_address :: "bytes option"
  hv_manager_server_name :: "bytes option"

text \<open>The errors of the TOML library are text.\<close>

datatype config_template_error =
    CT_InvalidToml bytes
  | CT_PlaceholderInKey bytes
  | CT_UnknownPlaceholder bytes
  | CT_UnresolvedToken template_token
  | CT_Serialize bytes

section \<open>The catalog\<close>

definition requires_template_in :: "bytes list \<Rightarrow> bytes \<Rightarrow> bool" where
  "requires_template_in required component \<longleftrightarrow> component \<in> set required"

definition requires_template :: "bytes \<Rightarrow> bool" where
  "requires_template component \<longleftrightarrow> requires_template_in REQUIRES_TEMPLATE component"

definition templates_in :: "config_template list \<Rightarrow> bytes \<Rightarrow> config_template list" where
  "templates_in catalog component = filter (\<lambda>entry. ct_component entry = component) catalog"

definition templates_for :: "bytes \<Rightarrow> config_template list" where
  "templates_for component = templates_in CATALOG component"

definition find_in :: "config_template list \<Rightarrow> bytes \<Rightarrow> bytes \<Rightarrow> config_template option" where
  "find_in catalog component i = find (\<lambda>entry. ct_id entry = i) (templates_in catalog component)"

definition find_template :: "bytes \<Rightarrow> bytes \<Rightarrow> config_template option" where
  "find_template component i = find_in CATALOG component i"

section \<open>TOML values\<close>

text \<open>
  A parsed TOML value; a table is its entries in the iteration order of the map, keys distinct. Numbers,
  booleans and date-times are carried as they are.
\<close>

datatype toml_value =
    TomlString bytes
  | TomlInteger int
  | TomlFloat bytes
  | TomlBoolean bool
  | TomlDatetime bytes
  | TomlArray "toml_value list"
  | TomlTable "(bytes \<times> toml_value) list"

type_synonym toml_table = "(bytes \<times> toml_value) list"

definition host_value :: "host_values \<Rightarrow> template_token \<Rightarrow> bytes option" where
  "host_value values token =
     (case token of
        CertPathToken \<Rightarrow> hv_cert_path values
      | KeyPathToken \<Rightarrow> hv_key_path values
      | CaBundlePathToken \<Rightarrow> hv_ca_bundle_path values
      | ManagerAddressToken \<Rightarrow> hv_manager_address values
      | ManagerServerNameToken \<Rightarrow> hv_manager_server_name values)"

definition substitute_text :: "host_values \<Rightarrow> bytes \<Rightarrow> config_template_error + bytes" where
  "substitute_text values t =
     (case find (\<lambda>token. t = token_str token) ALL_TOKENS of
        Some token \<Rightarrow> ok_or (CT_UnresolvedToken token) (host_value values token)
      | None \<Rightarrow> if contains_sub t ''${'' then Inl (CT_UnknownPlaceholder t) else Inr t)"

fun substitute_value :: "host_values \<Rightarrow> toml_value \<Rightarrow> config_template_error + toml_value"
  and substitute_array :: "host_values \<Rightarrow> toml_value list \<Rightarrow> config_template_error + toml_value list"
  and substitute_table :: "host_values \<Rightarrow> toml_table \<Rightarrow> config_template_error + toml_table" where
  "substitute_value values (TomlString t) = bind_res (substitute_text values t) (\<lambda>t. Inr (TomlString t))"
| "substitute_value values (TomlTable table) = bind_res (substitute_table values table) (\<lambda>table. Inr (TomlTable table))"
| "substitute_value values (TomlArray array) = bind_res (substitute_array values array) (\<lambda>array. Inr (TomlArray array))"
| "substitute_value values (TomlInteger i) = Inr (TomlInteger i)"
| "substitute_value values (TomlFloat f) = Inr (TomlFloat f)"
| "substitute_value values (TomlBoolean b) = Inr (TomlBoolean b)"
| "substitute_value values (TomlDatetime d) = Inr (TomlDatetime d)"
| "substitute_array values [] = Inr []"
| "substitute_array values (v # vs) =
     bind_res (substitute_value values v) (\<lambda>v. bind_res (substitute_array values vs) (\<lambda>vs. Inr (v # vs)))"
| "substitute_table values [] = Inr []"
| "substitute_table values ((key, v) # entries) =
     (if contains_sub key ''${'' then Inl (CT_PlaceholderInKey key)
      else bind_res (substitute_value values v) (\<lambda>v.
           bind_res (substitute_table values entries) (\<lambda>entries. Inr ((key, v) # entries))))"

record toml_codec =
  tc_parse :: "bytes \<Rightarrow> bytes + toml_table"
  tc_to_string :: "toml_table \<Rightarrow> bytes + bytes"

definition render_template :: "toml_codec \<Rightarrow> bytes \<Rightarrow> host_values \<Rightarrow> config_template_error + bytes" where
  "render_template toml body values =
     bind_res (map_err CT_InvalidToml (tc_parse toml body)) (\<lambda>table.
     bind_res (substitute_table values table) (\<lambda>table.
     map_err CT_Serialize (tc_to_string toml table)))"

section \<open>What substitution does\<close>

text \<open>The strings of a value in order, and a value with every string replaced by a function of it.\<close>

fun toml_strings :: "toml_value \<Rightarrow> bytes list" and table_strings :: "toml_table \<Rightarrow> bytes list" where
  "toml_strings (TomlString t) = [t]"
| "toml_strings (TomlArray vs) = concat (map toml_strings vs)"
| "toml_strings (TomlTable entries) = table_strings entries"
| "toml_strings _ = []"
| "table_strings [] = []"
| "table_strings ((k, v) # entries) = toml_strings v @ table_strings entries"

fun table_keys :: "toml_value \<Rightarrow> bytes list" and entry_keys :: "toml_table \<Rightarrow> bytes list" where
  "table_keys (TomlArray vs) = concat (map table_keys vs)"
| "table_keys (TomlTable entries) = entry_keys entries"
| "table_keys _ = []"
| "entry_keys [] = []"
| "entry_keys ((k, v) # entries) = k # table_keys v @ entry_keys entries"

fun map_strings :: "(bytes \<Rightarrow> bytes) \<Rightarrow> toml_value \<Rightarrow> toml_value" and
  map_table :: "(bytes \<Rightarrow> bytes) \<Rightarrow> toml_table \<Rightarrow> toml_table" where
  "map_strings f (TomlString t) = TomlString (f t)"
| "map_strings f (TomlArray vs) = TomlArray (map (map_strings f) vs)"
| "map_strings f (TomlTable entries) = TomlTable (map_table f entries)"
| "map_strings f (TomlInteger i) = TomlInteger i"
| "map_strings f (TomlFloat x) = TomlFloat x"
| "map_strings f (TomlBoolean b) = TomlBoolean b"
| "map_strings f (TomlDatetime d) = TomlDatetime d"
| "map_table f [] = []"
| "map_table f ((k, v) # entries) = (k, map_strings f v) # map_table f entries"

text \<open>A string stands for the host value of the token it is, or for itself.\<close>

definition token_of :: "bytes \<Rightarrow> template_token option" where
  "token_of t = find (\<lambda>token. t = token_str token) ALL_TOKENS"

definition string_ok :: "host_values \<Rightarrow> bytes \<Rightarrow> bool" where
  "string_ok values t \<longleftrightarrow>
     (case token_of t of Some token \<Rightarrow> host_value values token \<noteq> None | None \<Rightarrow> \<not> contains_sub t ''${'')"

definition string_meaning :: "host_values \<Rightarrow> bytes \<Rightarrow> bytes" where
  "string_meaning values t = (case token_of t of Some token \<Rightarrow> the (host_value values token) | None \<Rightarrow> t)"

lemma substitute_text_Inr:
  "substitute_text values t = Inr t' \<longleftrightarrow> string_ok values t \<and> t' = string_meaning values t"
  by (auto simp: substitute_text_def string_ok_def string_meaning_def token_of_def ok_or_def split: option.splits)

lemma substitute_Inr:
  "substitute_value values v = Inr v' \<longleftrightarrow>
     (\<forall>t\<in>set (toml_strings v). string_ok values t) \<and> (\<forall>k\<in>set (table_keys v). \<not> contains_sub k ''${'') \<and>
     v' = map_strings (string_meaning values) v"
  "substitute_array values vs = Inr vs' \<longleftrightarrow>
     (\<forall>t\<in>set (concat (map toml_strings vs)). string_ok values t) \<and>
     (\<forall>k\<in>set (concat (map table_keys vs)). \<not> contains_sub k ''${'') \<and>
     vs' = map (map_strings (string_meaning values)) vs"
  "substitute_table values entries = Inr entries' \<longleftrightarrow>
     (\<forall>t\<in>set (table_strings entries). string_ok values t) \<and> (\<forall>k\<in>set (entry_keys entries). \<not> contains_sub k ''${'') \<and>
     entries' = map_table (string_meaning values) entries"
proof (induction "values" v and "values" vs and "values" entries arbitrary: v' and vs' and entries'
    rule: substitute_value_substitute_array_substitute_table.induct)
qed (auto simp: substitute_text_Inr)

text \<open>
  A template renders exactly when no key at any depth holds a placeholder and every string is a token
  the host supplies a value for or holds no placeholder; and what is rendered is the same table with each
  token replaced, once and verbatim, so a host value that looks like a token stays as it is, and every
  other value, key and order is kept.
\<close>

theorem template_renders_iff:
  "render_template toml body values = Inr out \<longleftrightarrow>
     (\<exists>table. tc_parse toml body = Inr table \<and>
        (\<forall>k\<in>set (entry_keys table). \<not> contains_sub k ''${'') \<and>
        (\<forall>t\<in>set (table_strings table).
           (\<exists>token x. t = token_str token \<and> host_value values token = Some x) \<or> \<not> contains_sub t ''${'') \<and>
        tc_to_string toml (map_table (\<lambda>t. case token_of t of Some token \<Rightarrow> the (host_value values token) | None \<Rightarrow> t) table) = Inr out)"
proof -
  have token: "token_of t = Some token \<longleftrightarrow> t = token_str token" for t token
    by (cases token) (auto simp: token_of_def ALL_TOKENS_def)
  have held: "contains_sub (token_str token) ''${''" for token
    by (cases token) (simp_all add: contains_sub_def starts_with_def)
  have "string_ok values t \<longleftrightarrow> (\<exists>token x. t = token_str token \<and> host_value values token = Some x) \<or> \<not> contains_sub t ''${''" for t
  proof (cases "token_of t")
    case None
    then have "t \<noteq> token_str token" for token using token [of t token] by auto
    with None show ?thesis by (simp add: string_ok_def)
  next
    case (Some token)
    then have "t = token_str token" by (simp add: token)
    moreover have "token' = token" if "t = token_str token'" for token'
      using token [of t token'] that Some by simp
    ultimately show ?thesis using Some held [of token] by (auto simp: string_ok_def)
  qed
  moreover have "string_meaning values = (\<lambda>t. case token_of t of Some token \<Rightarrow> the (host_value values token) | None \<Rightarrow> t)"
    by (auto simp: string_meaning_def)
  ultimately show ?thesis by (auto simp: render_template_def substitute_Inr(3))
qed

theorem template_renders_iff_witness:
  "render_template \<lparr>tc_parse = (\<lambda>_. Inr [(''tls'', TomlTable [(''cert'', TomlString ''${cert_path}''), (''port'', TomlInteger 1)])]),
       tc_to_string = (\<lambda>table. if table = [(''tls'', TomlTable [(''cert'', TomlString ''${key_path}''), (''port'', TomlInteger 1)])]
          then Inr ''ok'' else Inl ''no'')\<rparr> ''body''
     \<lparr>hv_cert_path = Some ''${key_path}'', hv_key_path = None, hv_ca_bundle_path = None, hv_manager_address = None,
      hv_manager_server_name = None\<rparr> = Inr ''ok''"
proof -
  have "token_of ''${cert_path}'' = Some CertPathToken" by (simp add: token_of_def ALL_TOKENS_def)
  moreover have "\<not> contains_sub ''tls'' ''${''" "\<not> contains_sub ''cert'' ''${''" "\<not> contains_sub ''port'' ''${''"
    by (simp_all add: contains_sub_def starts_with_def)
  moreover have "\<exists>token x. ''${cert_path}'' = token_str token \<and>
      host_value \<lparr>hv_cert_path = Some ''${key_path}'', hv_key_path = None, hv_ca_bundle_path = None, hv_manager_address = None,
        hv_manager_server_name = None\<rparr> token = Some x"
    by (rule exI [of _ CertPathToken]) (simp add: host_value_def)
  ultimately show ?thesis
    by (subst template_renders_iff) (simp add: host_value_def)
qed

end
