(* ===== verification/Host_Disk.thy ===== *)
theory Host_Disk
  imports Prelude
begin

unbundle bit_operations_syntax

text \<open>
  The file system the file operations of \<open>src/executor.rs\<close> act on, as far as they use it: names, the
  inodes behind them, and the system calls with their failures. A path is the list of the components of
  an absolute path, with no symbolic link among the directories it goes through. What other processes do
  between two calls, and which call fails, is the environment's choice (\<open>host_world\<close>).
\<close>

section \<open>Paths, inodes and views\<close>

type_synonym host_path = "bytes list"

definition parent_of :: "host_path \<Rightarrow> host_path option" where
  "parent_of p = (if p = [] then None else Some (butlast p))"

definition path_text :: "host_path \<Rightarrow> bytes" where
  "path_text p = (if p = [] then ''/'' else concat (map (Cons (CHR ''/'')) p))"

text \<open>
  A symbolic link carries the inode its target resolves to, if it resolves. \<open>in_stable\<close> says that what the
  inode holds has been flushed.
\<close>

datatype node_kind = RegularNode bytes | DirectoryNode | SymlinkNode "nat option" | OtherNode

record inode =
  in_kind :: node_kind
  in_uid :: u32
  in_gid :: u32
  in_mode :: u32
  in_dev :: u64
  in_stable :: bool

record host_view =
  vw_names :: "host_path \<Rightarrow> nat option"
  vw_nodes :: "nat \<Rightarrow> inode"
  vw_fresh :: nat

definition entry_at :: "host_view \<Rightarrow> host_path \<Rightarrow> inode option" where
  "entry_at v p = map_option (vw_nodes v) (vw_names v p)"

definition set_name :: "host_path \<Rightarrow> nat option \<Rightarrow> host_view \<Rightarrow> host_view" where
  "set_name p i v = v\<lparr>vw_names := (vw_names v)(p := i)\<rparr>"

definition set_node :: "nat \<Rightarrow> inode \<Rightarrow> host_view \<Rightarrow> host_view" where
  "set_node i n v = v\<lparr>vw_nodes := (vw_nodes v)(i := n)\<rparr>"

definition is_directory :: "host_view \<Rightarrow> host_path \<Rightarrow> bool" where
  "is_directory v p \<longleftrightarrow> (case entry_at v p of Some n \<Rightarrow> in_kind n = DirectoryNode | None \<Rightarrow> False)"

definition is_regular :: "inode \<Rightarrow> bool" where
  "is_regular n \<longleftrightarrow> (case in_kind n of RegularNode _ \<Rightarrow> True | _ \<Rightarrow> False)"

definition is_symlink :: "inode \<Rightarrow> bool" where
  "is_symlink n \<longleftrightarrow> (case in_kind n of SymlinkNode _ \<Rightarrow> True | _ \<Rightarrow> False)"

section \<open>System calls\<close>

datatype os_error = AlreadyExists bytes | OtherOsError bytes

fun os_message :: "os_error \<Rightarrow> bytes" where
  "os_message (AlreadyExists m) = m"
| "os_message (OtherOsError m) = m"

definition no_such_file :: os_error where "no_such_file = OtherOsError ''No such file or directory''"
definition is_a_directory :: os_error where "is_a_directory = OtherOsError ''Is a directory''"
definition cross_device :: os_error where "cross_device = OtherOsError ''Invalid cross-device link''"

record host_world =
  hw_fault :: "nat \<Rightarrow> os_error option"
  hw_written :: "nat \<Rightarrow> nat"
  hw_meddle :: "nat \<Rightarrow> host_view \<Rightarrow> host_view"
  hw_uid :: u32
  hw_gid :: u32
  hw_umask :: u32

record host_disk =
  hd_view :: host_view
  hd_clock :: nat
  hd_trail :: "host_view list"
  hd_flushed :: "host_path list"

text \<open>
  One call: whatever others did since the last one happens first, then the call fails with \<open>on_fault\<close> as
  its effect or takes effect. The trail holds the view each call left, the newest first.
\<close>

definition faulty_call ::
  "(nat \<Rightarrow> host_view \<Rightarrow> host_view) \<Rightarrow> (host_view \<Rightarrow> (os_error + 'a) \<times> host_view) \<Rightarrow> host_world \<Rightarrow> host_disk \<Rightarrow>
     (os_error + 'a) \<times> host_disk" where
  "faulty_call on_fault act w d =
     (let v = hw_meddle w (hd_clock d) (hd_view d);
          (r, v') = (case hw_fault w (hd_clock d) of
                       Some e \<Rightarrow> (Inl e, on_fault (hd_clock d) v)
                     | None \<Rightarrow> act v)
      in (r, d\<lparr>hd_view := v', hd_clock := Suc (hd_clock d), hd_trail := v' # hd_trail d\<rparr>))"

definition system_call ::
  "(host_view \<Rightarrow> (os_error + 'a) \<times> host_view) \<Rightarrow> host_world \<Rightarrow> host_disk \<Rightarrow> (os_error + 'a) \<times> host_disk" where
  "system_call = faulty_call (\<lambda>_ v. v)"

definition then_call ::
  "('d \<Rightarrow> ('e + 'a) \<times> 'd) \<Rightarrow> ('a \<Rightarrow> 'd \<Rightarrow> ('e + 'b) \<times> 'd) \<Rightarrow> 'd \<Rightarrow> ('e + 'b) \<times> 'd" where
  "then_call m f d = (case m d of (Inl e, d') \<Rightarrow> (Inl e, d') | (Inr x, d') \<Rightarrow> f x d')"

text \<open>\<open>OpenOptions::write(true).create_new(true).mode(mode).open(path)\<close>; the handle is the inode.\<close>

definition open_new :: "host_path \<Rightarrow> u32 \<Rightarrow> host_world \<Rightarrow> host_disk \<Rightarrow> (os_error + nat) \<times> host_disk" where
  "open_new p mode w = system_call (\<lambda>v.
     (case vw_names v p of
        Some _ \<Rightarrow> (Inl (AlreadyExists ''File exists''), v)
      | None \<Rightarrow>
          (case Option.bind (parent_of p) (entry_at v) of
             None \<Rightarrow> (Inl no_such_file, v)
           | Some dir \<Rightarrow>
               if in_kind dir \<noteq> DirectoryNode then (Inl (OtherOsError ''Not a directory''), v)
               else
                 (let i = vw_fresh v;
                      n = \<lparr>in_kind = RegularNode [], in_uid = hw_uid w, in_gid = hw_gid w,
                           in_mode = mode AND NOT (hw_umask w), in_dev = in_dev dir, in_stable = False\<rparr>
                  in (Inr i, (set_name p (Some i) (set_node i n v))\<lparr>vw_fresh := Suc i\<rparr>))))) w"

text \<open>\<open>write_all\<close> on a new file: a failure may leave any part of the contents.\<close>

definition write_all :: "nat \<Rightarrow> bytes \<Rightarrow> host_world \<Rightarrow> host_disk \<Rightarrow> (os_error + unit) \<times> host_disk" where
  "write_all i contents w = faulty_call
     (\<lambda>t v. set_node i ((vw_nodes v i)\<lparr>in_kind := RegularNode (take (hw_written w t) contents), in_stable := False\<rparr>) v)
     (\<lambda>v. (Inr (), set_node i ((vw_nodes v i)\<lparr>in_kind := RegularNode contents, in_stable := False\<rparr>) v)) w"

definition fchown :: "nat \<Rightarrow> u32 \<Rightarrow> u32 \<Rightarrow> host_world \<Rightarrow> host_disk \<Rightarrow> (os_error + unit) \<times> host_disk" where
  "fchown i uid gid = system_call (\<lambda>v. (Inr (), set_node i ((vw_nodes v i)\<lparr>in_uid := uid, in_gid := gid, in_stable := False\<rparr>) v))"

definition set_permissions :: "nat \<Rightarrow> u32 \<Rightarrow> host_world \<Rightarrow> host_disk \<Rightarrow> (os_error + unit) \<times> host_disk" where
  "set_permissions i mode = system_call (\<lambda>v. (Inr (), set_node i ((vw_nodes v i)\<lparr>in_mode := mode, in_stable := False\<rparr>) v))"

definition sync_file :: "nat \<Rightarrow> host_world \<Rightarrow> host_disk \<Rightarrow> (os_error + unit) \<times> host_disk" where
  "sync_file i = system_call (\<lambda>v. (Inr (), set_node i ((vw_nodes v i)\<lparr>in_stable := True\<rparr>) v))"

definition sync_open_dir :: "host_path \<Rightarrow> host_world \<Rightarrow> host_disk \<Rightarrow> (os_error + unit) \<times> host_disk" where
  "sync_open_dir p w d =
     (case system_call (\<lambda>v. (Inr (), v)) w d of
        (Inl e, d') \<Rightarrow> (Inl e, d')
      | (Inr u, d') \<Rightarrow> (Inr u, d'\<lparr>hd_flushed := p # hd_flushed d'\<rparr>))"

text \<open>\<open>rename\<close> of a file: it replaces whatever file or link is there, and does nothing when both names
  are names of one inode.\<close>

definition rename_file :: "host_path \<Rightarrow> host_path \<Rightarrow> host_world \<Rightarrow> host_disk \<Rightarrow> (os_error + unit) \<times> host_disk" where
  "rename_file src dest = system_call (\<lambda>v.
     (case vw_names v src of
        None \<Rightarrow> (Inl no_such_file, v)
      | Some i \<Rightarrow>
          (case Option.bind (parent_of dest) (entry_at v) of
             None \<Rightarrow> (Inl no_such_file, v)
           | Some dir \<Rightarrow>
               if in_dev dir \<noteq> in_dev (vw_nodes v i) then (Inl cross_device, v)
               else if is_directory v dest then (Inl is_a_directory, v)
               else if vw_names v dest = Some i then (Inr (), v)
               else (Inr (), set_name src None (set_name dest (Some i) v)))))"

text \<open>\<open>link(2)\<close>: a symbolic link at the source is linked itself, and an entry at the new name is never
  adopted.\<close>

definition hard_link :: "host_path \<Rightarrow> host_path \<Rightarrow> host_world \<Rightarrow> host_disk \<Rightarrow> (os_error + unit) \<times> host_disk" where
  "hard_link src new = system_call (\<lambda>v.
     (case vw_names v src of
        None \<Rightarrow> (Inl no_such_file, v)
      | Some i \<Rightarrow>
          if vw_names v new \<noteq> None then (Inl (AlreadyExists ''File exists''), v)
          else
            (case Option.bind (parent_of new) (entry_at v) of
               None \<Rightarrow> (Inl no_such_file, v)
             | Some dir \<Rightarrow>
                 if in_kind (vw_nodes v i) = DirectoryNode then (Inl (OtherOsError ''Operation not permitted''), v)
                 else if in_dev dir \<noteq> in_dev (vw_nodes v i) then (Inl cross_device, v)
                 else (Inr (), set_name new (Some i) v))))"

definition remove_file :: "host_path \<Rightarrow> host_world \<Rightarrow> host_disk \<Rightarrow> (os_error + unit) \<times> host_disk" where
  "remove_file p = system_call (\<lambda>v.
     if vw_names v p = None then (Inl no_such_file, v)
     else if is_directory v p then (Inl is_a_directory, v)
     else (Inr (), set_name p None v))"

definition symlink_metadata :: "host_path \<Rightarrow> host_world \<Rightarrow> host_disk \<Rightarrow> (os_error + inode) \<times> host_disk" where
  "symlink_metadata p = system_call (\<lambda>v.
     (case entry_at v p of None \<Rightarrow> (Inl no_such_file, v) | Some n \<Rightarrow> (Inr n, v)))"

text \<open>\<open>metadata\<close> and \<open>read\<close> go through a symbolic link.\<close>

definition followed :: "host_view \<Rightarrow> host_path \<Rightarrow> inode option" where
  "followed v p = Option.bind (entry_at v p) (\<lambda>n.
     (case in_kind n of SymlinkNode target \<Rightarrow> map_option (vw_nodes v) target | _ \<Rightarrow> Some n))"

definition read_file :: "host_path \<Rightarrow> host_world \<Rightarrow> host_disk \<Rightarrow> (os_error + bytes) \<times> host_disk" where
  "read_file p = system_call (\<lambda>v.
     (case followed v p of
        None \<Rightarrow> (Inl no_such_file, v)
      | Some n \<Rightarrow>
          (case in_kind n of
             RegularNode contents \<Rightarrow> (Inr contents, v)
           | DirectoryNode \<Rightarrow> (Inl is_a_directory, v)
           | _ \<Rightarrow> (Inl (OtherOsError ''Invalid argument''), v))))"

text \<open>\<open>durability.rs\<close>: \<open>sync_dir\<close> opens the directory and flushes it.\<close>

definition sync_dir :: "host_path \<Rightarrow> host_world \<Rightarrow> host_disk \<Rightarrow> (os_error + unit) \<times> host_disk" where
  "sync_dir p w = then_call
     (system_call (\<lambda>v. if entry_at v p = None then (Inl no_such_file, v) else (Inr (), v)) w)
     (\<lambda>_. sync_open_dir p w)"

end
