(* ===== verification/Executor_Files.thy ===== *)
theory Executor_Files
  imports Executor_Bounded Host_Disk
begin

text \<open>
  The file operations of \<open>src/executor.rs\<close>: those that run a command through the executor, whose \<open>run\<close> is
  the parameter, and the landing and the link-based backup the root daemon makes with direct system calls.
\<close>

section \<open>Scripts\<close>

definition script_text :: "bytes list \<Rightarrow> bytes" where
  "script_text ls = concat (case ls of [] \<Rightarrow> [] | l # rest \<Rightarrow> l # map (Cons newline) rest)"

definition PUT_FILE_SCRIPT :: bytes where \<open>PUT_FILE_SCRIPT = script_text [
  ''set -e'',
  ''dest=$1; owner=$2; group=$3; mode=$4'',
  ''if [ -d "$dest" ]; then'',
  ''  echo "destination $dest is a directory" >&2'',
  ''  exit 1'',
  ''fi'',
  ''uid=$(id -u)'',
  ''fsid() {'',
  ''  df -P "$1" 2>/dev/null | awk '' @ [quote_byte] @ ''NR==2 {mp=$6; for (i=7; i<=NF; i++) mp=mp" "$i; print $1"'' @ [CHR 0x5C] @ ''t"mp}'' @ [quote_byte],
  ''}'',
  ''flush() {'',
  ''  sync "$1" 2>/dev/null || sync || echo "warning: $1 was not flushed: no working sync" >&2'',
  ''}'',
  ''destfs=$(fsid "$(dirname "$dest")")'',
  ''if [ -z "$destfs" ]; then'',
  ''  echo "cannot determine the filesystem holding $dest" >&2'',
  ''  exit 1'',
  ''fi'',
  ''stage='',
  ''dir=$(dirname "$(dirname "$dest")")'',
  ''while :; do'',
  ''  if [ -d "$dir" ]; then'',
  ''    if [ "$(fsid "$dir")" != "$destfs" ]; then break; fi'',
  ''    if [ -n "$(find "$dir" -maxdepth 0 -user "$uid" ! -perm -0002 ! -perm -0020 2>/dev/null)" ]; then'',
  ''      stage=$dir; break'',
  ''    fi'',
  ''  fi'',
  ''  up=$(dirname "$dir")'',
  ''  if [ "$up" = "$dir" ]; then break; fi'',
  ''  dir=$up'',
  ''done'',
  ''if [ -z "$stage" ]; then'',
  ''  top=$(dirname "$dest")'',
  ''  parent=$(dirname "$top")'',
  ''  if [ "$parent" != "$top" ] && [ -d "$parent" ]; then'',
  ''    parentfs=$(fsid "$parent")'',
  ''    if [ -n "$parentfs" ] && [ "$parentfs" != "$destfs" ] &&'',
  ''      [ -n "$(find "$parent" -maxdepth 0 '' @ [CHR 0x5C] @ ''( -user 0 -o -user "$uid" '' @ [CHR 0x5C] @ '') ! -perm -0002 ! -perm -0020 2>/dev/null)" ] &&'',
  ''      [ -n "$(find "$top" -maxdepth 0 -user "$uid" ! -perm -0002 ! -perm -0020 2>/dev/null)" ]; then'',
  ''      stage=$top'',
  ''    fi'',
  ''  fi'',
  ''fi'',
  ''if [ -z "$stage" ]; then'',
  ''  echo "no staging directory only the writer can write on the filesystem holding $dest" >&2'',
  ''  exit 1'',
  ''fi'',
  ''tmp=$(mktemp "$stage/.bootler.XXXXXX")'',
  ''trap '' @ [quote_byte] @ ''rm -f "$tmp"'' @ [quote_byte] @ '' EXIT INT TERM'',
  ''cat > "$tmp"'',
  ''chown "$owner:$group" "$tmp"'',
  ''chmod "$mode" "$tmp"'',
  ''flush "$tmp"'',
  ''ino=$(ls -di "$tmp" | awk '' @ [quote_byte] @ ''{print $1}'' @ [quote_byte] @ '')'',
  ''mv -f -T "$tmp" "$dest"'',
  ''flush "$(dirname "$dest")"'',
  ''if [ -z "$(find "$dest" -maxdepth 0 -inum "$ino" -user "$owner" -group "$group" -perm "$mode" 2>/dev/null)" ]; then'',
  ''  echo "destination $dest is not the file just written" >&2'',
  ''  exit 1'',
  ''fi'',
  ''trap - EXIT INT TERM'']\<close>

definition LINK_ASIDE_SCRIPT :: bytes where \<open>LINK_ASIDE_SCRIPT = script_text [
  ''set -e'',
  ''source=$1; dest=$2'',
  ''if [ -h "$source" ]; then'',
  ''  echo "$source is a symbolic link, not a regular file" >&2'',
  ''  exit 1'',
  ''fi'',
  ''if [ ! -f "$source" ]; then'',
  ''  echo "$source is not a regular file" >&2'',
  ''  exit 1'',
  ''fi'',
  ''if [ -d "$dest" ]; then'',
  ''  echo "destination $dest is a directory" >&2'',
  ''  exit 1'',
  ''fi'',
  ''flush() {'',
  ''  sync "$1" 2>/dev/null || sync || {'',
  ''    echo "$1 was not flushed: no working sync" >&2'',
  ''    return 1'',
  ''  }'',
  ''}'',
  ''dir=$(dirname "$dest")'',
  ''if ! command -v link >/dev/null 2>&1; then'',
  ''  echo "no link utility: a temporary beside $dest cannot be claimed without following it" >&2'',
  ''  exit 1'',
  ''fi'',
  ''attempt=0'',
  ''while :; do'',
  ''  tmp=$dir/.bootler.link.$$.$attempt'',
  ''  if err=$(link "$source" "$tmp" 2>&1); then'',
  ''    break'',
  ''  elif [ -e "$tmp" ] || [ -h "$tmp" ]; then'',
  ''    taken=$err'',
  ''  else'',
  ''    echo "$err" >&2'',
  ''    exit 1'',
  ''  fi'',
  ''  attempt=$((attempt + 1))'',
  ''  if [ "$attempt" -ge 64 ]; then'',
  ''    echo "no free temporary name beside $dest: $taken" >&2'',
  ''    exit 1'',
  ''  fi'',
  ''done'',
  ''trap '' @ [quote_byte] @ ''rm -f "$tmp"'' @ [quote_byte] @ '' EXIT INT TERM'',
  ''if [ -h "$tmp" ] || [ ! -f "$tmp" ]; then'',
  ''  echo "$source is not a regular file" >&2'',
  ''  exit 1'',
  ''fi'',
  ''ino=$(ls -di "$tmp" | awk '' @ [quote_byte] @ ''{print $1}'' @ [quote_byte] @ '')'',
  ''if [ -z "$(find "$dest" -maxdepth 0 -inum "$ino" 2>/dev/null)" ]; then'',
  ''  mv -f -T "$tmp" "$dest"'',
  ''fi'',
  ''flush "$dir"'',
  ''if [ -z "$(find "$dest" -maxdepth 0 -inum "$ino" 2>/dev/null)" ]; then'',
  ''  echo "destination $dest is not the file just linked" >&2'',
  ''  exit 1'',
  ''fi'',
  ''rm -f "$tmp"'',
  ''trap - EXIT INT TERM'']\<close>

definition MAKE_DIR_SCRIPT :: bytes where \<open>MAKE_DIR_SCRIPT = script_text [
  ''set -e'',
  ''dir=$1; owner=$2; group=$3; mode=$4; policy=$5'',
  ''if [ ! -d "$dir" ]; then'',
  ''  install -d -o "$owner" -g "$group" -m "$mode" "$dir"'',
  ''  echo created'',
  ''  exit 0'',
  ''fi'',
  ''if [ -n "$(find "$dir" -maxdepth 0 -user "$owner" -group "$group" -perm "$mode" 2>/dev/null)" ]; then'',
  ''  echo matched'',
  ''  exit 0'',
  ''fi'',
  ''if [ "$policy" != correct ]; then'',
  ''  echo "$(ls -ld "$dir")" >&2'',
  ''  exit 3'',
  ''fi'',
  ''chown "$owner:$group" "$dir"'',
  ''chmod "$mode" "$dir"'',
  ''echo corrected'']\<close>

definition DIR_POLICY_CORRECT :: bytes where "DIR_POLICY_CORRECT = ''correct''"
definition DIR_POLICY_VERIFY :: bytes where "DIR_POLICY_VERIFY = ''verify''"
definition DIR_CREATED :: bytes where "DIR_CREATED = ''created''"
definition DIR_MATCHED :: bytes where "DIR_MATCHED = ''matched''"
definition DIR_CORRECTED :: bytes where "DIR_CORRECTED = ''corrected''"
definition DIR_MISMATCH_CODE :: int where "DIR_MISMATCH_CODE = 3"
definition STAGING_TEMP_MODE :: u32 where "STAGING_TEMP_MODE = 384"
definition ROOT_ID :: u32 where "ROOT_ID = 0"
definition LINK_TEMP_ATTEMPTS :: nat where "LINK_TEMP_ATTEMPTS = 64"

section \<open>Operations over a run\<close>

type_synonym 's runner = "identity \<Rightarrow> bytes \<Rightarrow> bytes list \<Rightarrow> 's \<Rightarrow> (executor_error + command_output) \<times> 's"

definition path_arg :: "host_path \<Rightarrow> bytes" where
  "path_arg p = from_utf8_lossy (path_text p)"

definition then_judge :: "('e + 'a) \<times> 's \<Rightarrow> ('a \<Rightarrow> 'e + 'b) \<Rightarrow> ('e + 'b) \<times> 's" where
  "then_judge r f = (bind_res (fst r) f, snd r)"

definition refused_transfer :: "host_path \<Rightarrow> command_output \<Rightarrow> executor_error" where
  "refused_transfer path output = EX_Transfer (path_text path) (trim (from_utf8_lossy (co_stderr output)))"

definition file_present :: "'s runner \<Rightarrow> host_path \<Rightarrow> 's \<Rightarrow> (executor_error + bool) \<times> 's" where
  "file_present run path s =
     then_judge (run RootIdentity TEST [''-f'', path_arg path] s) (\<lambda>output. Inr (success output))"

definition path_present :: "'s runner \<Rightarrow> host_path \<Rightarrow> 's \<Rightarrow> (executor_error + bool) \<times> 's" where
  "path_present run path s =
     then_judge (run RootIdentity TEST [''-e'', path_arg path] s) (\<lambda>output. Inr (success output))"

definition run_in ::
  "'s runner \<Rightarrow> identity \<Rightarrow> host_path \<Rightarrow> bytes \<Rightarrow> bytes list \<Rightarrow> 's \<Rightarrow> (executor_error + command_output) \<times> 's" where
  "run_in run identity dir command args = run identity SH (wrap_in_dir (path_arg dir) command args)"

definition ownership :: "file_meta \<Rightarrow> bytes" where
  "ownership meta = as_arg (fm_owner meta) @ '':'' @ as_arg (fm_group meta)"

definition chown_no_deref :: "'s runner \<Rightarrow> host_path \<Rightarrow> file_meta \<Rightarrow> 's \<Rightarrow> (executor_error + unit) \<times> 's" where
  "chown_no_deref run path meta s =
     then_judge (run RootIdentity CHOWN [''--no-dereference'', ownership meta, path_arg path] s) (\<lambda>output.
       if success output then Inr () else Inl (refused_transfer path output))"

definition owner_of :: "'s runner \<Rightarrow> host_path \<Rightarrow> 's \<Rightarrow> (executor_error + bytes \<times> bytes) \<times> 's" where
  "owner_of run path s =
     then_judge (run RootIdentity STAT [''-c'', ''%U:%G'', path_arg path] s) (\<lambda>output.
       if \<not> success output then Inl (refused_transfer path output)
       else
         (let line = trim (from_utf8_lossy (co_stdout output)) in
          case split_once (CHR '':'') line of
            Some (user, grp) \<Rightarrow> Inr (user, grp)
          | None \<Rightarrow> Inl (EX_Transfer (path_text path) (''unexpected stat output: '' @ line))))"

definition ownership_mismatch ::
  "'s runner \<Rightarrow> host_path \<Rightarrow> file_meta \<Rightarrow> 's \<Rightarrow> (executor_error + (bytes \<times> bytes) option) \<times> 's" where
  "ownership_mismatch run path meta s =
     then_judge (owner_of run path s) (\<lambda>(user, grp).
       (let expected = ownership meta; actual = user @ '':'' @ grp in
        Inr (if expected = actual then None else Some (expected, actual))))"

definition fetch_through_cat :: "'s runner \<Rightarrow> identity \<Rightarrow> host_path \<Rightarrow> 's \<Rightarrow> (executor_error + bytes) \<times> 's" where
  "fetch_through_cat run identity src s =
     then_judge (run identity CAT [path_arg src] s) (\<lambda>output.
       if success output then Inr (co_stdout output) else Inl (refused_transfer src output))"

definition landing_argv :: "host_path \<Rightarrow> file_meta \<Rightarrow> bytes list" where
  "landing_argv dest meta =
     [''-c'', PUT_FILE_SCRIPT, ''_'', path_arg dest, as_arg (fm_owner meta), as_arg (fm_group meta), mode_arg meta]"

definition make_dir_through_install ::
  "'s runner \<Rightarrow> host_path \<Rightarrow> file_meta \<Rightarrow> 's \<Rightarrow> (executor_error + dir_outcome) \<times> 's" where
  "make_dir_through_install run dest meta s =
     (let policy = (if is_service_writable (fm_owner meta) then DIR_POLICY_VERIFY else DIR_POLICY_CORRECT) in
      then_judge
        (run RootIdentity SH
          [''-c'', MAKE_DIR_SCRIPT, ''_'', path_arg dest, as_arg (fm_owner meta), as_arg (fm_group meta),
           mode_arg meta, policy] s)
        (\<lambda>output.
          if co_code output = Some DIR_MISMATCH_CODE then
            Inl (EX_DirectoryMismatch (path_text dest) (trim (from_utf8_lossy (co_stderr output))))
          else if \<not> success output then Inl (refused_transfer dest output)
          else
            (let word = trim (from_utf8_lossy (co_stdout output)) in
             if word = DIR_CREATED then Inr DirCreated
             else if word = DIR_CORRECTED then Inr DirCorrected
             else if word = DIR_MATCHED then Inr DirMatched
             else Inl (EX_Transfer (path_text dest) (''unrecognised directory outcome `'' @ word @ ''`'')))))"

definition hard_link_over_through_shell ::
  "'s runner \<Rightarrow> host_path \<Rightarrow> host_path \<Rightarrow> 's \<Rightarrow> (executor_error + unit) \<times> 's" where
  "hard_link_over_through_shell run source dest s =
     then_judge (run RootIdentity SH [''-c'', LINK_ASIDE_SCRIPT, ''_'', path_arg source, path_arg dest] s)
       (\<lambda>output. if success output then Inr () else Inl (refused_transfer dest output))"

section \<open>Where a native write is staged\<close>

unbundle bit_operations_syntax

record dir_facts =
  df_uid :: u32
  df_mode :: u32
  df_dev :: u64

definition closed_to_others :: "u32 \<Rightarrow> bool" where
  "closed_to_others mode \<longleftrightarrow> mode AND 18 = 0"

definition writer_only :: "dir_facts \<Rightarrow> u32 \<Rightarrow> bool" where
  "writer_only facts uid \<longleftrightarrow> df_uid facts = uid \<and> closed_to_others (df_mode facts)"

definition mount_point_fallback ::
  "host_path \<Rightarrow> host_path \<Rightarrow> dir_facts \<Rightarrow> dir_facts \<Rightarrow> u32 \<Rightarrow> host_path option" where
  "mount_point_fallback dest_dir boundary dest_facts boundary_facts uid =
     (let parent_is_safe = (df_uid boundary_facts = ROOT_ID \<or> df_uid boundary_facts = uid) \<and>
                           closed_to_others (df_mode boundary_facts)
      in if parent_of dest_dir = Some boundary \<and> parent_is_safe \<and> writer_only dest_facts uid
         then Some dest_dir else None)"

text \<open>The walk from a candidate directory upwards.\<close>

function staging_walk ::
  "(host_path \<Rightarrow> dir_facts option) \<Rightarrow> host_path \<Rightarrow> dir_facts \<Rightarrow> u32 \<Rightarrow> host_path option \<Rightarrow> host_path option" where
  "staging_walk probe dest_dir dest_facts uid None = None"
| "staging_walk probe dest_dir dest_facts uid (Some dir) =
     (case probe dir of
        Some facts \<Rightarrow>
          if df_dev facts \<noteq> df_dev dest_facts then mount_point_fallback dest_dir dir dest_facts facts uid
          else if writer_only facts uid then Some dir
          else staging_walk probe dest_dir dest_facts uid (parent_of dir)
      | None \<Rightarrow> staging_walk probe dest_dir dest_facts uid (parent_of dir))"
  by pat_completeness auto
termination
  by (relation "measure (\<lambda>(_, _, _, _, c). case c of None \<Rightarrow> 0 | Some dir \<Rightarrow> Suc (length dir))")
     (auto simp: parent_of_def)

definition select_staging_dir ::
  "host_path \<Rightarrow> u32 \<Rightarrow> (host_path \<Rightarrow> dir_facts option) \<Rightarrow> host_path option" where
  "select_staging_dir dest uid probe =
     Option.bind (parent_of dest) (\<lambda>dest_dir.
     Option.bind (probe dest_dir) (\<lambda>dest_facts.
     staging_walk probe dest_dir dest_facts uid (parent_of dest_dir)))"

text \<open>The facts \<open>staging_dir\<close> probes, read off one view; \<open>unreadable\<close> is the error of a \<open>stat\<close> that fails.\<close>

definition probe_view :: "(host_path \<Rightarrow> os_error option) \<Rightarrow> host_view \<Rightarrow> host_path \<Rightarrow> dir_facts option" where
  "probe_view unreadable v dir =
     (if unreadable dir \<noteq> None then None
      else Option.bind (followed v dir) (\<lambda>n.
        if in_kind n = DirectoryNode
        then Some \<lparr>df_uid = in_uid n, df_mode = in_mode n, df_dev = in_dev n\<rparr> else None))"

definition stat_error :: "(host_path \<Rightarrow> os_error option) \<Rightarrow> host_view \<Rightarrow> host_path \<Rightarrow> os_error option" where
  "stat_error unreadable v dir =
     (case unreadable dir of
        Some e \<Rightarrow> Some e
      | None \<Rightarrow> if followed v dir = None then Some no_such_file else None)"

definition staging_dir ::
  "(host_path \<Rightarrow> os_error option) \<Rightarrow> u32 option \<Rightarrow> host_view \<Rightarrow> host_path \<Rightarrow> executor_error + host_path" where
  "staging_dir unreadable current_uid v dest =
     bind_res (ok_or (EX_Transfer ID ''could not read the current uid'') current_uid) (\<lambda>uid.
     bind_res (case Option.bind (parent_of dest) (stat_error unreadable v) of
                 Some e \<Rightarrow> Inl (EX_Io (path_text dest) (os_message e))
               | None \<Rightarrow> Inr ()) (\<lambda>_.
     ok_or (EX_Transfer (path_text dest)
         (''no staging directory only the writer can write on the destination'' @ [quote_byte] @
          ''s filesystem, above the destination'' @ [quote_byte] @ ''s directory or at that directory as a mount point''))
       (select_staging_dir dest uid (probe_view unreadable v))))"

datatype id_kind = UserId | GroupId

fun id_flag :: "id_kind \<Rightarrow> bytes" where
  "id_flag UserId = ''-u''"
| "id_flag GroupId = ''-g''"

definition parse_id :: "command_output \<Rightarrow> bytes \<Rightarrow> executor_error + u32" where
  "parse_id output account =
     (case parse_u32 (trim (from_utf8_lossy (co_stdout output))) of
        Some n \<Rightarrow> if success output then Inr n
                  else Inl (EX_Transfer account (trim (from_utf8_lossy (co_stderr output))))
      | None \<Rightarrow> Inl (EX_Transfer account (trim (from_utf8_lossy (co_stderr output)))))"

definition numeric_id :: "'s runner \<Rightarrow> principal \<Rightarrow> id_kind \<Rightarrow> 's \<Rightarrow> (executor_error + u32) \<times> 's" where
  "numeric_id run who kind s =
     (let ask = (\<lambda>name. then_judge (run RootIdentity ID [id_flag kind, name] s) (\<lambda>output. parse_id output name)) in
      case who of
        RootPrincipal \<Rightarrow> (Inr ROOT_ID, s)
      | ServicePrincipal account \<Rightarrow> ask (service_account_str account)
      | ContainerPrincipal account \<Rightarrow> ask (container_account_str account))"

section \<open>The native landing\<close>

definition native_temp :: "host_path \<Rightarrow> nat \<Rightarrow> u64 \<Rightarrow> host_path" where
  "native_temp stage pid counter = stage @ [''.bootler.'' @ dec pid @ ''.'' @ dec (unat counter) @ ''.tmp'']"

definition land :: "host_path \<Rightarrow> host_path \<Rightarrow> bytes \<Rightarrow> u32 \<Rightarrow> u32 \<Rightarrow> u32 \<Rightarrow> host_world \<Rightarrow> host_disk \<Rightarrow> (os_error + unit) \<times> host_disk" where
  "land temp dest contents uid gid mode w =
     then_call (open_new temp STAGING_TEMP_MODE w) (\<lambda>i.
     then_call (write_all i contents w) (\<lambda>_.
     then_call (fchown i uid gid w) (\<lambda>_.
     then_call (set_permissions i mode w) (\<lambda>_.
     then_call (sync_file i w) (\<lambda>_.
     rename_file temp dest w)))))"

text \<open>A failed landing removes its temporary, whatever that answers.\<close>

definition land_or_clean ::
  "host_path \<Rightarrow> host_path \<Rightarrow> bytes \<Rightarrow> u32 \<Rightarrow> u32 \<Rightarrow> u32 \<Rightarrow> host_world \<Rightarrow> host_disk \<Rightarrow> (os_error + unit) \<times> host_disk" where
  "land_or_clean temp dest contents uid gid mode w d =
     (case land temp dest contents uid gid mode w d of
        (Inl e, d') \<Rightarrow> (Inl e, snd (remove_file temp w d'))
      | (Inr u, d') \<Rightarrow> (Inr u, d'))"

text \<open>What the writing process has of its own: its pid, its uid as read, its temporary counter, and what it cannot stat.\<close>

record writer =
  wr_pid :: nat
  wr_uid :: "u32 option"
  wr_unreadable :: "host_path \<Rightarrow> os_error option"

definition put_file_natively ::
  "'s runner \<Rightarrow> writer \<Rightarrow> host_path \<Rightarrow> bytes \<Rightarrow> file_meta \<Rightarrow> host_world \<Rightarrow> 's \<times> u64 \<times> host_disk \<Rightarrow>
     (executor_error + unit) \<times> 's \<times> u64 \<times> host_disk" where
  "put_file_natively run me dest contents meta w =
     (\<lambda>(s, counter, d).
       (case staging_dir (wr_unreadable me) (wr_uid me) (hd_view d) dest of
          Inl e \<Rightarrow> (Inl e, s, counter, d)
        | Inr stage \<Rightarrow>
            (case numeric_id run (fm_owner meta) UserId s of
               (Inl e, s1) \<Rightarrow> (Inl e, s1, counter, d)
             | (Inr uid, s1) \<Rightarrow>
                 (case numeric_id run (fm_group meta) GroupId s1 of
                    (Inl e, s2) \<Rightarrow> (Inl e, s2, counter, d)
                  | (Inr gid, s2) \<Rightarrow>
                      (let dest_dir = butlast dest; temp = native_temp stage (wr_pid me) counter in
                       case land_or_clean temp dest contents uid gid (fm_mode meta) w d of
                         (Inl e, d1) \<Rightarrow> (Inl (EX_Io (path_text dest) (os_message e)), s2, counter + 1, d1)
                       | (Inr _, d1) \<Rightarrow>
                           (case sync_dir dest_dir w d1 of
                              (Inl e, d2) \<Rightarrow> (Inl (EX_Io (path_text dest_dir) (os_message e)), s2, counter + 1, d2)
                            | (Inr u, d2) \<Rightarrow> (Inr u, s2, counter + 1, d2)))))))"

section \<open>The link-based backup\<close>

definition link_temp :: "host_path \<Rightarrow> nat \<Rightarrow> nat \<Rightarrow> host_path" where
  "link_temp dir pid attempt = dir @ [''.bootler.link.'' @ dec pid @ ''.'' @ dec attempt]"

definition link_reason :: "host_path \<Rightarrow> os_error \<Rightarrow> bytes" where
  "link_reason path e = path_text path @ '': '' @ os_message e"

text \<open>What is linked is looked at again: it is taken back when it is not a regular file.\<close>

definition confirm_linked ::
  "host_path \<Rightarrow> host_path \<Rightarrow> host_path \<Rightarrow> host_world \<Rightarrow> host_disk \<Rightarrow> (executor_error + host_path) \<times> host_disk" where
  "confirm_linked source temp dest w d =
     (case symlink_metadata temp w d of
        (Inl e, d1) \<Rightarrow> (Inl (EX_Transfer (path_text dest) (link_reason temp e)), snd (remove_file temp w d1))
      | (Inr linked, d1) \<Rightarrow>
          if is_symlink linked \<or> \<not> is_regular linked then
            (Inl (EX_Transfer (path_text dest) (path_text source @ '' is not a regular file'')),
             snd (remove_file temp w d1))
          else (Inr temp, d1))"

text \<open>The attempts from one on; \<open>left\<close> is how many are left. The last arm is reached after an occupied name only.\<close>

fun link_attempts ::
  "nat \<Rightarrow> host_path \<Rightarrow> host_path \<Rightarrow> host_path \<Rightarrow> nat \<Rightarrow> nat \<Rightarrow> bytes \<Rightarrow> host_world \<Rightarrow> host_disk \<Rightarrow>
     (executor_error + host_path) \<times> host_disk" where
  "link_attempts pid source dir dest attempt 0 occupied w d =
     (Inl (EX_Transfer (path_text dest) (''no free temporary name beside '' @ path_text dest @ '': '' @ occupied)), d)"
| "link_attempts pid source dir dest attempt (Suc left) occupied w d =
     (let temp = link_temp dir pid attempt in
      case hard_link source temp w d of
        (Inr _, d1) \<Rightarrow> confirm_linked source temp dest w d1
      | (Inl (AlreadyExists m), d1) \<Rightarrow>
          link_attempts pid source dir dest (Suc attempt) left (link_reason temp (AlreadyExists m)) w d1
      | (Inl e, d1) \<Rightarrow> (Inl (EX_Transfer (path_text dest) (link_reason temp e)), d1))"

definition link_aside ::
  "nat \<Rightarrow> host_path \<Rightarrow> host_path \<Rightarrow> host_path \<Rightarrow> host_world \<Rightarrow> host_disk \<Rightarrow> (executor_error + host_path) \<times> host_disk" where
  "link_aside pid source dir dest w d =
     (case symlink_metadata source w d of
        (Inl e, d1) \<Rightarrow> (Inl (EX_Transfer (path_text dest) (link_reason source e)), d1)
      | (Inr found, d1) \<Rightarrow>
          if is_symlink found then
            (Inl (EX_Transfer (path_text dest) (path_text source @ '' is a symbolic link, not a regular file'')), d1)
          else if \<not> is_regular found then
            (Inl (EX_Transfer (path_text dest) (path_text source @ '' is not a regular file'')), d1)
          else link_attempts pid source dir dest 0 LINK_TEMP_ATTEMPTS [] w d1)"

definition publish_link :: "host_path \<Rightarrow> host_path \<Rightarrow> host_world \<Rightarrow> host_disk \<Rightarrow> (executor_error + unit) \<times> host_disk" where
  "publish_link temp dest w d =
     (case rename_file temp dest w d of
        (renamed, d1) \<Rightarrow>
          (map_err (\<lambda>e. EX_Transfer (path_text dest) (link_reason temp e)) renamed, snd (remove_file temp w d1)))"

definition hard_link_over_natively ::
  "nat \<Rightarrow> host_path \<Rightarrow> host_path \<Rightarrow> host_world \<Rightarrow> host_disk \<Rightarrow> (executor_error + unit) \<times> host_disk" where
  "hard_link_over_natively pid source dest w d =
     (case parent_of dest of
        None \<Rightarrow> (Inl (EX_Transfer (path_text dest) ''the destination has no directory to link into''), d)
      | Some dir \<Rightarrow>
          (case link_aside pid source dir dest w d of
             (Inl e, d1) \<Rightarrow> (Inl e, d1)
           | (Inr temp, d1) \<Rightarrow>
               (case publish_link temp dest w d1 of
                  (Inl e, d2) \<Rightarrow> (Inl e, d2)
                | (Inr _, d2) \<Rightarrow>
                    (case sync_dir dir w d2 of
                       (Inl e, d3) \<Rightarrow> (Inl (EX_Transfer (path_text dest) (link_reason dir e)), d3)
                     | (Inr u, d3) \<Rightarrow> (Inr u, d3)))))"

section \<open>Per executor\<close>

text \<open>The shell transports feed the contents to the landing script; \<open>fed\<close> is their run with an input.\<close>

definition put_file_through_shell ::
  "(bytes \<Rightarrow> bytes list \<Rightarrow> bytes \<Rightarrow> 's \<Rightarrow> (executor_error + command_output) \<times> 's) \<Rightarrow> host_path \<Rightarrow> bytes \<Rightarrow> file_meta \<Rightarrow> 's \<Rightarrow>
     (executor_error + unit) \<times> 's" where
  "put_file_through_shell fed dest contents meta s =
     then_judge (fed SH (landing_argv dest meta) contents s) (\<lambda>output.
       if success output then Inr () else Inl (refused_transfer dest output))"

definition local_put_file ::
  "'s spawner \<Rightarrow> local_executor \<Rightarrow> bytes option \<Rightarrow> host_path \<Rightarrow> bytes \<Rightarrow> file_meta \<Rightarrow> 's \<Rightarrow> (executor_error + unit) \<times> 's" where
  "local_put_file spawn ex nonce = put_file_through_shell (\<lambda>command args contents s.
     (case local_resolve ex nonce RootIdentity command args of
        Inl e \<Rightarrow> (Inl e, s)
      | Inr resolved \<Rightarrow> local_spawn_resolved spawn ex resolved (Some contents) s))"

definition ssh_put_file ::
  "'s spawner \<Rightarrow> ssh_executor \<Rightarrow> bytes option \<Rightarrow> host_path \<Rightarrow> bytes \<Rightarrow> file_meta \<Rightarrow> 's \<Rightarrow> (executor_error + unit) \<times> 's" where
  "ssh_put_file spawn ex nonce = put_file_through_shell (\<lambda>command args contents s.
     (case ssh_resolve ex nonce RootIdentity command args of
        Inl e \<Rightarrow> (Inl e, s)
      | Inr resolved \<Rightarrow> ssh_run_resolved spawn ex resolved (Some contents) s))"

definition read_io :: "host_path \<Rightarrow> (os_error + bytes) \<Rightarrow> executor_error + bytes" where
  "read_io src = map_err (\<lambda>e. EX_Io (path_text src) (os_message e))"

definition local_fetch_file ::
  "'s runner \<Rightarrow> (host_path \<Rightarrow> os_error + bytes) \<Rightarrow> identity \<Rightarrow> host_path \<Rightarrow> 's \<Rightarrow> (executor_error + bytes) \<times> 's" where
  "local_fetch_file run read identity src s =
     (if identity = Operator then (read_io src (read src), s) else fetch_through_cat run identity src s)"

definition in_daemon_fetch_file ::
  "'s runner \<Rightarrow> (host_path \<Rightarrow> os_error + bytes) \<Rightarrow> identity \<Rightarrow> host_path \<Rightarrow> 's \<Rightarrow> (executor_error + bytes) \<times> 's" where
  "in_daemon_fetch_file run read identity src s =
     (if identity = RootIdentity then (read_io src (read src), s) else fetch_through_cat run identity src s)"

definition ssh_fetch_file ::
  "'s spawner \<Rightarrow> ssh_executor \<Rightarrow> bytes option \<Rightarrow> identity \<Rightarrow> host_path \<Rightarrow> 's \<Rightarrow> (executor_error + bytes) \<times> 's" where
  "ssh_fetch_file spawn ex nonce identity src s =
     (if identity \<noteq> Operator then fetch_through_cat (ssh_executor_run spawn ex nonce) identity src s
      else then_judge (ssh_run spawn ex (''cat '' @ shell_quote (path_arg src)) None s) (\<lambda>output.
             if success output then Inr (co_stdout output) else Inl (refused_transfer src output)))"

end
