(* ===== verification/Executor_Files_Correct.thy ===== *)
theory Executor_Files_Correct
  imports Executor_Files
begin

text \<open>
  What the native file operations guarantee, by a small logic of calls: a landing and a backup are seen
  by everyone either not at all or whole, a landing cannot be redirected by who cannot touch its temporary,
  and where a write is staged.
\<close>

section \<open>A logic of calls\<close>

text \<open>\<open>traced T P m Q E\<close>: from a view in \<open>P\<close> every view \<open>m\<close> leaves is in \<open>T\<close>, and the last one is in \<open>Q\<close> or, when
  \<open>m\<close> fails, in \<open>E\<close>.\<close>

definition traced ::
  "(host_view \<Rightarrow> bool) \<Rightarrow> (host_view \<Rightarrow> bool) \<Rightarrow> (host_disk \<Rightarrow> ('e + 'a) \<times> host_disk) \<Rightarrow>
     ('a \<Rightarrow> host_view \<Rightarrow> bool) \<Rightarrow> (host_view \<Rightarrow> bool) \<Rightarrow> bool" where
  "traced T P m Q E \<longleftrightarrow>
     (\<forall>d r d'. P (hd_view d) \<longrightarrow> m d = (r, d') \<longrightarrow>
        set (hd_trail d') \<subseteq> set (hd_trail d) \<union> Collect T \<and>
        (case r of Inr x \<Rightarrow> Q x (hd_view d') | Inl _ \<Rightarrow> E (hd_view d')))"

lemma tracedD:
  assumes "traced T P m Q E" and "P (hd_view d)" and "m d = (r, d')"
  shows "set (hd_trail d') \<subseteq> set (hd_trail d) \<union> Collect T"
    and "r = Inr x \<Longrightarrow> Q x (hd_view d')"
    and "r = Inl e \<Longrightarrow> E (hd_view d')"
  using assms unfolding traced_def by fastforce+

lemma traced_then:
  assumes "traced T P m Q E" and "\<And>x. traced T (Q x) (f x) R E"
  shows "traced T P (then_call m f) R E"
proof -
  have "set (hd_trail d') \<subseteq> set (hd_trail d) \<union> Collect T \<and>
      (case r of Inr x \<Rightarrow> R x (hd_view d') | Inl _ \<Rightarrow> E (hd_view d'))"
    if p: "P (hd_view d)" and run: "then_call m f d = (r, d')" for d r d'
  proof (cases "m d")
    case (Pair r1 d1)
    note first = tracedD [OF assms(1) p Pair]
    show ?thesis
    proof (cases r1)
      case (Inl e)
      then show ?thesis using run Pair first by (auto simp: then_call_def)
    next
      case (Inr x)
      then have "f x d1 = (r, d')" using run Pair by (simp add: then_call_def)
      note second = tracedD [OF assms(2) first(2) [OF Inr] this]
      show ?thesis using first(1) second by (cases r) auto
    qed
  qed
  then show ?thesis unfolding traced_def by blast
qed

text \<open>One call: its precondition survives the others, and its effects are as stated.\<close>

lemma traced_faulty_call:
  assumes "\<And>t v. P v \<Longrightarrow> P (hw_meddle w t v)"
    and "\<And>t v. P v \<Longrightarrow> E (on_fault t v)"
    and "\<And>v x v'. P v \<Longrightarrow> act v = (Inr x, v') \<Longrightarrow> Q x v'"
    and "\<And>v e v'. P v \<Longrightarrow> act v = (Inl e, v') \<Longrightarrow> E v'"
    and "\<And>v. E v \<Longrightarrow> T v" and "\<And>x v. Q x v \<Longrightarrow> T v"
  shows "traced T P (faulty_call on_fault act w) Q E"
proof -
  have "set (hd_trail d') \<subseteq> set (hd_trail d) \<union> Collect T \<and>
      (case r of Inr x \<Rightarrow> Q x (hd_view d') | Inl _ \<Rightarrow> E (hd_view d'))"
    if p: "P (hd_view d)" and run: "faulty_call on_fault act w d = (r, d')" for d r d'
  proof -
    let ?v = "hw_meddle w (hd_clock d) (hd_view d)"
    have v: "P ?v" using p by (rule assms(1))
    show ?thesis
    proof (cases "hw_fault w (hd_clock d)")
      case None
      obtain r1 v1 where act: "act ?v = (r1, v1)" by (cases "act ?v")
      then have "r = r1" "d' = d\<lparr>hd_view := v1, hd_clock := Suc (hd_clock d), hd_trail := v1 # hd_trail d\<rparr>"
        using run None by (simp_all add: faulty_call_def Let_def)
      then show ?thesis using assms(3,4) [OF v] act assms(5,6) by (cases r1) auto
    next
      case (Some e)
      then show ?thesis using run assms(2) [OF v] assms(5) by (auto simp: faulty_call_def Let_def)
    qed
  qed
  then show ?thesis unfolding traced_def by blast
qed

lemma traced_system_call:
  assumes "\<And>t v. P v \<Longrightarrow> P (hw_meddle w t v)"
    and "\<And>v. P v \<Longrightarrow> E v"
    and "\<And>v x v'. P v \<Longrightarrow> act v = (Inr x, v') \<Longrightarrow> Q x v'"
    and "\<And>v e v'. P v \<Longrightarrow> act v = (Inl e, v') \<Longrightarrow> E v'"
    and "\<And>v. E v \<Longrightarrow> T v" and "\<And>x v. Q x v \<Longrightarrow> T v"
  shows "traced T P (system_call act w) Q E"
  unfolding system_call_def by (rule traced_faulty_call) (use assms in auto)

text \<open>An environment in which nobody else writes, and a view whose next inode is not in use.\<close>

definition quiet :: "host_world \<Rightarrow> bool" where
  "quiet w \<longleftrightarrow> hw_meddle w = (\<lambda>_ v. v)"

definition sound_view :: "host_view \<Rightarrow> bool" where
  "sound_view v \<longleftrightarrow> (\<forall>p i. vw_names v p = Some i \<longrightarrow> i < vw_fresh v)"

lemma quiet_meddle [simp]: "quiet w \<Longrightarrow> hw_meddle w t v = v"
  by (simp add: quiet_def)

lemma traced_unchanged:
  assumes "\<And>v r v'. act v = (r, v') \<Longrightarrow> v' = v" and "quiet w" and "\<And>v. P v \<Longrightarrow> T v"
  shows "traced T P (system_call act w) (\<lambda>_. P) P"
  by (rule traced_system_call) (use assms in auto)

lemma traced_sync_open_dir:
  assumes "quiet w" and "\<And>v. P v \<Longrightarrow> T v"
  shows "traced T P (sync_open_dir p w) (\<lambda>_. P) P"
proof -
  have "traced T P (system_call (\<lambda>v. (Inr (), v)) w) (\<lambda>_. P) P" using assms by (intro traced_unchanged) auto
  then show ?thesis unfolding traced_def sync_open_dir_def by (fastforce split: sum.splits prod.splits)
qed

lemma traced_sync_dir:
  assumes "quiet w" and "\<And>v. P v \<Longrightarrow> T v"
  shows "traced T P (sync_dir p w) (\<lambda>_. P) P"
  unfolding sync_dir_def
  by (rule traced_then, rule traced_unchanged, rule refl [THEN ssubst])
     (use assms in \<open>auto split: if_splits intro: traced_sync_open_dir\<close>)

lemma sync_dir_flushes: "sync_dir p w d = (Inr u, d') \<Longrightarrow> p \<in> set (hd_flushed d')"
  by (auto simp: sync_dir_def then_call_def sync_open_dir_def split: prod.splits sum.splits)

section \<open>The native landing\<close>

definition complete_file :: "bytes \<Rightarrow> u32 \<Rightarrow> u32 \<Rightarrow> u32 \<Rightarrow> inode \<Rightarrow> bool" where
  "complete_file contents uid gid mode n \<longleftrightarrow>
     in_kind n = RegularNode contents \<and> in_uid n = uid \<and> in_gid n = gid \<and> in_mode n = mode \<and> in_stable n"

text \<open>Someone who can neither write the staging directory nor open the temporary.\<close>

definition spares :: "host_world \<Rightarrow> host_path \<Rightarrow> bool" where
  "spares w temp \<longleftrightarrow>
     (\<forall>t v. vw_names (hw_meddle w t v) temp = vw_names v temp \<and>
            (\<forall>i. vw_names v temp = Some i \<longrightarrow> vw_nodes (hw_meddle w t v) i = vw_nodes v i))"

definition temp_holds :: "host_path \<Rightarrow> nat \<Rightarrow> (inode \<Rightarrow> bool) \<Rightarrow> host_view \<Rightarrow> bool" where
  "temp_holds temp i N v \<longleftrightarrow> vw_names v temp = Some i \<and> N (vw_nodes v i)"

lemma spares_temp:
  assumes "spares w temp"
  shows "vw_names (hw_meddle w t v) temp = vw_names v temp"
    and "vw_names v temp = Some i \<Longrightarrow> vw_nodes (hw_meddle w t v) i = vw_nodes v i"
  using assms by (simp_all add: spares_def)

lemmas land_calls = write_all_def fchown_def set_permissions_def sync_file_def

lemma landing_undisturbed:
  assumes "spares w temp"
  shows "traced (\<lambda>_. True) (\<lambda>_. True) (land temp dest contents uid gid mode w)
     (\<lambda>_ v. \<exists>n. entry_at v dest = Some n \<and> complete_file contents uid gid mode n) (\<lambda>_. True)"
  unfolding land_def
proof (intro traced_then)
  note stable = spares_temp [OF assms]
  show "traced (\<lambda>_. True) (\<lambda>_. True) (open_new temp STAGING_TEMP_MODE w) (\<lambda>i. temp_holds temp i (\<lambda>_. True)) (\<lambda>_. True)"
    unfolding open_new_def
    by (rule traced_system_call)
       (auto simp: stable temp_holds_def set_name_def Let_def split: option.splits if_splits)
  show "traced (\<lambda>_. True) (temp_holds temp i (\<lambda>_. True)) (write_all i contents w)
      (\<lambda>_. temp_holds temp i (\<lambda>n. in_kind n = RegularNode contents)) (\<lambda>_. True)" for i
    unfolding land_calls by (rule traced_faulty_call) (auto simp: stable temp_holds_def set_node_def)
  show "traced (\<lambda>_. True) (temp_holds temp i (\<lambda>n. in_kind n = RegularNode contents)) (fchown i uid gid w)
      (\<lambda>_. temp_holds temp i (\<lambda>n. in_kind n = RegularNode contents \<and> in_uid n = uid \<and> in_gid n = gid)) (\<lambda>_. True)" for i
    unfolding land_calls by (rule traced_system_call) (auto simp: stable temp_holds_def set_node_def)
  show "traced (\<lambda>_. True) (temp_holds temp i (\<lambda>n. in_kind n = RegularNode contents \<and> in_uid n = uid \<and> in_gid n = gid))
      (set_permissions i mode w)
      (\<lambda>_. temp_holds temp i (\<lambda>n. in_kind n = RegularNode contents \<and> in_uid n = uid \<and> in_gid n = gid \<and> in_mode n = mode))
      (\<lambda>_. True)" for i
    unfolding land_calls by (rule traced_system_call) (auto simp: stable temp_holds_def set_node_def)
  show "traced (\<lambda>_. True)
      (temp_holds temp i (\<lambda>n. in_kind n = RegularNode contents \<and> in_uid n = uid \<and> in_gid n = gid \<and> in_mode n = mode))
      (sync_file i w) (\<lambda>_. temp_holds temp i (complete_file contents uid gid mode)) (\<lambda>_. True)" for i
    unfolding land_calls
    by (rule traced_system_call) (auto simp: stable temp_holds_def set_node_def complete_file_def)
  show "traced (\<lambda>_. True) (temp_holds temp i (complete_file contents uid gid mode)) (rename_file temp dest w)
      (\<lambda>_ v. \<exists>n. entry_at v dest = Some n \<and> complete_file contents uid gid mode n) (\<lambda>_. True)" for i
    unfolding rename_file_def
    by (rule traced_system_call)
       (auto simp: stable temp_holds_def entry_at_def set_name_def split: option.splits if_splits)
qed


text \<open>Everything but the names \<open>ps\<close> is as it was.\<close>

definition apart_from :: "host_path set \<Rightarrow> host_view \<Rightarrow> host_view \<Rightarrow> bool" where
  "apart_from ps v0 v \<longleftrightarrow> (\<forall>p. p \<notin> ps \<longrightarrow> entry_at v p = entry_at v0 p)"

text \<open>The temporary of this landing: a name and an inode of its own, the rest as in \<open>v0\<close>.\<close>

definition staged :: "host_view \<Rightarrow> host_path \<Rightarrow> (inode \<Rightarrow> bool) \<Rightarrow> host_view \<Rightarrow> bool" where
  "staged v0 temp N v \<longleftrightarrow>
     vw_names v = (vw_names v0)(temp := Some (vw_fresh v0)) \<and>
     (\<forall>j. j \<noteq> vw_fresh v0 \<longrightarrow> vw_nodes v j = vw_nodes v0 j) \<and> N (vw_nodes v (vw_fresh v0))"

definition landed_view :: "host_view \<Rightarrow> host_path \<Rightarrow> host_path \<Rightarrow> (inode \<Rightarrow> bool) \<Rightarrow> host_view \<Rightarrow> bool" where
  "landed_view v0 temp dest N v \<longleftrightarrow>
     apart_from {temp, dest} v0 v \<and> (\<exists>n. entry_at v dest = Some n \<and> N n)"

lemma fresh_unnamed: "sound_view v \<Longrightarrow> vw_names v p \<noteq> Some (vw_fresh v)"
  by (auto simp: sound_view_def)

lemma staged_apart: "sound_view v0 \<Longrightarrow> staged v0 temp N v \<Longrightarrow> apart_from {temp} v0 v"
  unfolding apart_from_def staged_def entry_at_def
  by (metis (no_types, lifting) fresh_unnamed fun_upd_apply map_option_cong option.set_sel singletonI elem_set)

lemma rename_lands:
  assumes "sound_view v0" and "dest \<noteq> temp" and "staged v0 temp N v"
    and "vw_names v' = (vw_names v)(dest := Some (vw_fresh v0), temp := None)" and "vw_nodes v' = vw_nodes v"
  shows "landed_view v0 temp dest N v'"
proof -
  have "entry_at v' p = entry_at v0 p" if "p \<noteq> temp" "p \<noteq> dest" for p
    using staged_apart [OF assms(1,3)] that assms(4,5) by (simp add: apart_from_def entry_at_def)
  moreover have "entry_at v' dest = Some (vw_nodes v (vw_fresh v0))"
    using assms(2,4,5) by (simp add: entry_at_def)
  ultimately show ?thesis using assms(3) by (auto simp: landed_view_def apart_from_def staged_def)
qed

lemma landing_atomic_steps:
  assumes "quiet w" and "sound_view v0" and "dest \<noteq> temp"
  shows "traced (\<lambda>v. apart_from {temp} v0 v \<or> landed_view v0 temp dest (complete_file contents uid gid mode) v)
     (\<lambda>v. v = v0) (land temp dest contents uid gid mode w)
     (\<lambda>_. landed_view v0 temp dest (complete_file contents uid gid mode)) (apart_from {temp} v0)"
  (is "traced ?T _ _ _ _")
  unfolding land_def
proof (intro traced_then)
  note apart = staged_apart [OF assms(2)]
  let ?n1 = "\<lambda>n. in_kind n = RegularNode contents"
  let ?n2 = "\<lambda>n. ?n1 n \<and> in_uid n = uid \<and> in_gid n = gid"
  let ?n3 = "\<lambda>n. ?n2 n \<and> in_mode n = mode"
  have start: "apart_from {temp} v0 v0" by (simp add: apart_from_def)
  show "traced ?T (\<lambda>v. v = v0) (open_new temp STAGING_TEMP_MODE w)
      (\<lambda>i v. i = vw_fresh v0 \<and> staged v0 temp (\<lambda>_. True) v) (apart_from {temp} v0)"
    unfolding open_new_def
    by (rule traced_system_call)
       (use assms(1) start in \<open>auto simp: staged_def set_name_def set_node_def Let_def
          intro: apart split: option.splits if_splits\<close>)
  show "traced ?T (\<lambda>v. i = vw_fresh v0 \<and> staged v0 temp (\<lambda>_. True) v) (write_all i contents w)
      (\<lambda>_ v. i = vw_fresh v0 \<and> staged v0 temp ?n1 v) (apart_from {temp} v0)" for i
    unfolding land_calls
    by (rule traced_faulty_call)
       (use assms(1) in \<open>auto intro: apart [where N = "\<lambda>_. True"] apart [where N = ?n1] simp: staged_def set_node_def\<close>)
  show "traced ?T (\<lambda>v. i = vw_fresh v0 \<and> staged v0 temp ?n1 v) (fchown i uid gid w)
      (\<lambda>_ v. i = vw_fresh v0 \<and> staged v0 temp ?n2 v) (apart_from {temp} v0)" for i
    unfolding land_calls
    by (rule traced_system_call)
       (use assms(1) in \<open>auto intro: apart simp: staged_def set_node_def\<close>)
  show "traced ?T (\<lambda>v. i = vw_fresh v0 \<and> staged v0 temp ?n2 v) (set_permissions i mode w)
      (\<lambda>_ v. i = vw_fresh v0 \<and> staged v0 temp ?n3 v) (apart_from {temp} v0)" for i
    unfolding land_calls
    by (rule traced_system_call)
       (use assms(1) in \<open>auto intro: apart simp: staged_def set_node_def\<close>)
  show "traced ?T (\<lambda>v. i = vw_fresh v0 \<and> staged v0 temp ?n3 v) (sync_file i w)
      (\<lambda>_ v. i = vw_fresh v0 \<and> staged v0 temp (complete_file contents uid gid mode) v) (apart_from {temp} v0)" for i
    unfolding land_calls
    by (rule traced_system_call)
       (use assms(1) in \<open>auto intro: apart simp: staged_def set_node_def complete_file_def\<close>)
  show "traced ?T (\<lambda>v. i = vw_fresh v0 \<and> staged v0 temp (complete_file contents uid gid mode) v) (rename_file temp dest w)
      (\<lambda>_. landed_view v0 temp dest (complete_file contents uid gid mode)) (apart_from {temp} v0)" for i
    unfolding rename_file_def
  proof (rule traced_system_call, goal_cases)
    case (3 v x v')
    then have v: "i = vw_fresh v0" "staged v0 temp (complete_file contents uid gid mode) v" by auto
    then have "vw_names v temp = Some i" "vw_names v dest \<noteq> Some i"
      using assms(2,3) fresh_unnamed by (auto simp: staged_def)
    then have "vw_names v' = (vw_names v)(dest := Some (vw_fresh v0), temp := None)" "vw_nodes v' = vw_nodes v"
      using 3(2) v(1) by (auto simp: set_name_def split: option.splits if_splits)
    then show ?case using rename_lands [OF assms(2,3) v(2)] by blast
  qed (use assms(1) in \<open>auto intro: apart split: option.splits if_splits\<close>)
qed


lemma remove_file_apart:
  assumes "quiet w" and "\<And>v. apart_from {temp} v0 v \<Longrightarrow> T v"
  shows "traced T (apart_from {temp} v0) (remove_file temp w) (\<lambda>_. apart_from {temp} v0) (apart_from {temp} v0)"
  unfolding remove_file_def
  by (rule traced_system_call)
     (use assms in \<open>auto simp: apart_from_def set_name_def entry_at_def split: if_splits\<close>)

lemma land_or_clean_atomic:
  assumes "quiet w" and "sound_view (hd_view d)" and "dest \<noteq> temp"
    and "land_or_clean temp dest contents uid gid mode w d = (r, d')"
  shows "set (hd_trail d') \<subseteq> set (hd_trail d) \<union>
       {v. apart_from {temp} (hd_view d) v \<or> landed_view (hd_view d) temp dest (complete_file contents uid gid mode) v}"
      (is "_ \<subseteq> _ \<union> Collect ?T")
    and "r = Inr () \<Longrightarrow> landed_view (hd_view d) temp dest (complete_file contents uid gid mode) (hd_view d')"
    and "r = Inl e \<Longrightarrow> apart_from {temp} (hd_view d) (hd_view d')"
proof -
  obtain r1 d1 where land: "land temp dest contents uid gid mode w d = (r1, d1)"
    by (cases "land temp dest contents uid gid mode w d")
  note steps = tracedD [OF landing_atomic_steps [OF assms(1-3)] refl land]
  have "set (hd_trail d') \<subseteq> set (hd_trail d) \<union> Collect ?T \<and>
      (case r of Inr _ \<Rightarrow> landed_view (hd_view d) temp dest (complete_file contents uid gid mode) (hd_view d')
       | Inl _ \<Rightarrow> apart_from {temp} (hd_view d) (hd_view d'))"
  proof (cases r1)
    case (Inr u)
    then show ?thesis using assms(4) land steps(1) steps(2) by (auto simp: land_or_clean_def)
  next
    case (Inl e1)
    obtain r2 where removed: "remove_file temp w d1 = (r2, d')" and r: "r = Inl e1"
      using assms(4) land Inl by (cases "remove_file temp w d1") (auto simp: land_or_clean_def)
    note cleaned = tracedD [OF remove_file_apart [OF assms(1), where T = ?T] steps(3) [OF Inl] removed]
    have "apart_from {temp} (hd_view d) (hd_view d')" using cleaned(2,3) by (cases r2) auto
    then show ?thesis using r steps(1) cleaned(1) by auto
  qed
  then show "set (hd_trail d') \<subseteq> set (hd_trail d) \<union> Collect ?T"
    "r = Inr () \<Longrightarrow> landed_view (hd_view d) temp dest (complete_file contents uid gid mode) (hd_view d')"
    "r = Inl e \<Longrightarrow> apart_from {temp} (hd_view d) (hd_view d')" by auto
qed

text \<open>The owner and group a landing asks for, as the executor resolves them.\<close>

definition resolved_ids :: "'s runner \<Rightarrow> file_meta \<Rightarrow> 's \<Rightarrow> (u32 \<times> u32) option" where
  "resolved_ids run meta s =
     (case numeric_id run (fm_owner meta) UserId s of
        (Inr uid, s1) \<Rightarrow>
          (case numeric_id run (fm_group meta) GroupId s1 of (Inr gid, _) \<Rightarrow> Some (uid, gid) | _ \<Rightarrow> None)
      | _ \<Rightarrow> None)"

definition the_file :: "'s runner \<Rightarrow> bytes \<Rightarrow> file_meta \<Rightarrow> 's \<Rightarrow> inode \<Rightarrow> bool" where
  "the_file run contents meta s n \<longleftrightarrow>
     (\<exists>uid gid. resolved_ids run meta s = Some (uid, gid) \<and> complete_file contents uid gid (fm_mode meta) n)"

lemma prefix_parent: "parent_of dir = Some up \<Longrightarrow> prefix up dir"
  by (auto simp: parent_of_def prefixeq_butlast split: if_splits)

lemma staging_walk_above:
  "staging_walk probe dest_dir facts uid c = Some stage \<Longrightarrow>
     stage = dest_dir \<or> (\<exists>dir. c = Some dir \<and> prefix stage dir)"
proof (induction probe dest_dir facts uid c rule: staging_walk.induct)
  case (2 probe dest_dir facts uid dir)
  have up: "stage = dest_dir \<or> prefix stage dir"
    if "stage = dest_dir \<or> (\<exists>up. parent_of dir = Some up \<and> prefix stage up)"
    using that prefix_parent prefix_order.trans by blast
  show ?case
  proof (cases "probe dir")
    case None
    then show ?thesis using 2 up by simp
  next
    case (Some f)
    consider (boundary) "df_dev f \<noteq> df_dev facts" | (found) "df_dev f = df_dev facts" "writer_only f uid"
      | (next_up) "df_dev f = df_dev facts" "\<not> writer_only f uid" by blast
    then show ?thesis
    proof cases
      case boundary
      then show ?thesis using 2(3) Some by (simp add: mount_point_fallback_def Let_def split: if_splits)
    next
      case found
      then show ?thesis using 2(3) Some by simp
    next
      case next_up
      then show ?thesis using 2(2) [OF Some] 2(3) Some up by simp
    qed
  qed
qed simp

text \<open>C28: Whatever call fails on the way, everyone who looks at the destination of a native landing sees the
  entry that was there or the complete new file, flushed, with its contents, its owner and its mode; nothing
  but the destination and the temporary changes; and a landing that succeeds has flushed the entry too.\<close>

theorem landing_atomic:
  assumes "quiet w" and "sound_view (hd_view d)" and "dest \<noteq> native_temp (butlast dest) (wr_pid me) counter"
    and "put_file_natively run me dest contents meta w (s, counter, d) = (r, s', counter', d')"
  shows "(\<forall>v\<in>set (hd_trail d') - set (hd_trail d).
       (\<forall>p. p \<noteq> dest \<and> (\<forall>stage. p \<noteq> native_temp stage (wr_pid me) counter) \<longrightarrow> entry_at v p = entry_at (hd_view d) p) \<and>
       (entry_at v dest = entry_at (hd_view d) dest \<or> (\<exists>n. entry_at v dest = Some n \<and> the_file run contents meta s n))) \<and>
     (r = Inr () \<longrightarrow>
       (\<exists>n. entry_at (hd_view d') dest = Some n \<and> the_file run contents meta s n) \<and> butlast dest \<in> set (hd_flushed d'))"
proof (cases "\<exists>stage uid s1 gid s2. staging_dir (wr_unreadable me) (wr_uid me) (hd_view d) dest = Inr stage \<and>
    numeric_id run (fm_owner meta) UserId s = (Inr uid, s1) \<and> numeric_id run (fm_group meta) GroupId s1 = (Inr gid, s2)")
  case False
  then have "d' = d" "r \<noteq> Inr ()"
    using assms(4) by (auto simp: put_file_natively_def split: sum.splits prod.splits)
  then show ?thesis by simp
next
  case True
  then obtain stage uid s1 gid s2 where found:
    "staging_dir (wr_unreadable me) (wr_uid me) (hd_view d) dest = Inr stage"
    "numeric_id run (fm_owner meta) UserId s = (Inr uid, s1)"
    "numeric_id run (fm_group meta) GroupId s1 = (Inr gid, s2)" by blast
  define temp where "temp = native_temp stage (wr_pid me) counter"
  define N where "N = complete_file contents uid gid (fm_mode meta)"
  have temp: "dest \<noteq> temp" using assms(3) by (auto simp: temp_def native_temp_def)
  have fits: "the_file run contents meta s n" if "N n" for n
    using that found by (auto simp: the_file_def resolved_ids_def N_def)
  let ?T = "\<lambda>v. apart_from {temp} (hd_view d) v \<or> landed_view (hd_view d) temp dest N v"
  obtain r1 d1 where land: "land_or_clean temp dest contents uid gid (fm_mode meta) w d = (r1, d1)"
    by (cases "land_or_clean temp dest contents uid gid (fm_mode meta) w d")
  note landed = land_or_clean_atomic [OF assms(1,2) temp land, folded N_def]
  have seen: "(\<forall>p. p \<noteq> dest \<and> (\<forall>stage. p \<noteq> native_temp stage (wr_pid me) counter) \<longrightarrow> entry_at v p = entry_at (hd_view d) p) \<and>
       (entry_at v dest = entry_at (hd_view d) dest \<or> (\<exists>n. entry_at v dest = Some n \<and> the_file run contents meta s n))"
    if "?T v" for v
    using that temp fits by (auto simp: apart_from_def landed_view_def temp_def)
  show ?thesis
  proof (cases r1)
    case (Inl e)
    then have "d' = d1" "r \<noteq> Inr ()"
      using assms(4) found land by (auto simp: put_file_natively_def temp_def Let_def)
    then show ?thesis using landed(1) seen by blast
  next
    case (Inr u)
    obtain r2 where flush: "sync_dir (butlast dest) w d1 = (r2, d')" "r = Inr () \<longrightarrow> r2 = Inr ()"
      using assms(4) found land Inr
      by (cases "sync_dir (butlast dest) w d1") (auto simp: put_file_natively_def temp_def Let_def split: sum.splits)
    have after: "landed_view (hd_view d) temp dest N (hd_view d1)" using landed(2) Inr by simp
    note flushed = tracedD [OF traced_sync_dir [OF assms(1), where T = ?T and P = "landed_view (hd_view d) temp dest N"]
      after flush(1)]
    have "landed_view (hd_view d) temp dest N (hd_view d')" using flushed(2,3) by (cases r2) auto
    then have there: "\<exists>n. entry_at (hd_view d') dest = Some n \<and> the_file run contents meta s n"
      using fits by (auto simp: landed_view_def)
    have "\<forall>v\<in>set (hd_trail d') - set (hd_trail d). ?T v" using flushed(1) landed(1) by blast
    then have "\<forall>v\<in>set (hd_trail d') - set (hd_trail d).
       (\<forall>p. p \<noteq> dest \<and> (\<forall>stage. p \<noteq> native_temp stage (wr_pid me) counter) \<longrightarrow> entry_at v p = entry_at (hd_view d) p) \<and>
       (entry_at v dest = entry_at (hd_view d) dest \<or> (\<exists>n. entry_at v dest = Some n \<and> the_file run contents meta s n))"
      using seen by blast
    moreover have "r = Inr () \<longrightarrow> butlast dest \<in> set (hd_flushed d')"
      using flush sync_dir_flushes [of "butlast dest" w d1 "()" d'] by auto
    ultimately show ?thesis using there by blast
  qed
qed

subsection \<open>A landing that nothing stops\<close>

definition faultless :: "host_world \<Rightarrow> bool" where
  "faultless w \<longleftrightarrow> hw_fault w = (\<lambda>_. None)"

lemma faultless_call:
  assumes "quiet w" and "faultless w" and "\<And>v. P v \<Longrightarrow> \<exists>x v'. act v = (Inr x, v') \<and> Q x v'"
  shows "traced (\<lambda>_. True) P (faulty_call on_fault act w) Q (\<lambda>_. False)"
  using assms(1,2) assms(3) unfolding traced_def faulty_call_def faultless_def
  by (fastforce simp: Let_def)

definition directory_of :: "u64 \<Rightarrow> host_view \<Rightarrow> host_path \<Rightarrow> bool" where
  "directory_of dev v p \<longleftrightarrow> p \<noteq> [] \<and> (\<exists>n. entry_at v (butlast p) = Some n \<and> in_kind n = DirectoryNode \<and> in_dev n = dev)"

lemma directory_parent:
  "directory_of dev v p \<Longrightarrow>
     \<exists>n. Option.bind (parent_of p) (entry_at v) = Some n \<and> in_kind n = DirectoryNode \<and> in_dev n = dev"
  by (auto simp: directory_of_def parent_of_def)

lemma landing_succeeds:
  assumes "quiet w" and "faultless w" and "sound_view v0" and "vw_names v0 temp = None" and "butlast dest \<noteq> temp"
    and "directory_of dev v0 temp" and "directory_of dev v0 dest" and "\<not> is_directory v0 dest" and "dest \<noteq> temp"
  shows "traced (\<lambda>_. True) (\<lambda>v. v = v0) (land temp dest contents uid gid mode w) (\<lambda>_ _. True) (\<lambda>_. False)"
  unfolding land_def
proof (intro traced_then)
  note defs = land_calls system_call_def
  note call = faultless_call [OF assms(1,2)]
  let ?on = "\<lambda>n. in_dev n = dev"
  show "traced (\<lambda>_. True) (\<lambda>v. v = v0) (open_new temp STAGING_TEMP_MODE w)
      (\<lambda>i v. i = vw_fresh v0 \<and> staged v0 temp ?on v) (\<lambda>_. False)"
    unfolding open_new_def defs
    by (rule call) (use directory_parent [OF assms(6)] assms(4) in \<open>auto simp: staged_def set_name_def set_node_def Let_def\<close>)
  show "traced (\<lambda>_. True) (\<lambda>v. i = vw_fresh v0 \<and> staged v0 temp ?on v) (write_all i contents w)
      (\<lambda>_ v. i = vw_fresh v0 \<and> staged v0 temp ?on v) (\<lambda>_. False)" for i
    unfolding defs by (rule call) (auto simp: staged_def set_node_def)
  show "traced (\<lambda>_. True) (\<lambda>v. i = vw_fresh v0 \<and> staged v0 temp ?on v) (fchown i uid gid w)
      (\<lambda>_ v. i = vw_fresh v0 \<and> staged v0 temp ?on v) (\<lambda>_. False)" for i
    unfolding defs by (rule call) (auto simp: staged_def set_node_def)
  show "traced (\<lambda>_. True) (\<lambda>v. i = vw_fresh v0 \<and> staged v0 temp ?on v) (set_permissions i mode w)
      (\<lambda>_ v. i = vw_fresh v0 \<and> staged v0 temp ?on v) (\<lambda>_. False)" for i
    unfolding defs by (rule call) (auto simp: staged_def set_node_def)
  show "traced (\<lambda>_. True) (\<lambda>v. i = vw_fresh v0 \<and> staged v0 temp ?on v) (sync_file i w)
      (\<lambda>_ v. i = vw_fresh v0 \<and> staged v0 temp ?on v) (\<lambda>_. False)" for i
    unfolding defs by (rule call) (auto simp: staged_def set_node_def)
  show "traced (\<lambda>_. True) (\<lambda>v. i = vw_fresh v0 \<and> staged v0 temp ?on v) (rename_file temp dest w)
      (\<lambda>_ _. True) (\<lambda>_. False)" for i
    unfolding rename_file_def defs
  proof (rule call)
    fix v
    assume v: "i = vw_fresh v0 \<and> staged v0 temp ?on v"
    then have same: "entry_at v p = entry_at v0 p" if "p \<noteq> temp" for p
      using staged_apart [OF assms(3), of temp ?on v] that by (auto simp: apart_from_def)
    have parent: "Option.bind (parent_of dest) (entry_at v) = Option.bind (parent_of dest) (entry_at v0)"
      using same assms(5) by (auto simp: parent_of_def)
    show "\<exists>x v'. (case vw_names v temp of None \<Rightarrow> (Inl no_such_file, v)
      | Some i \<Rightarrow>
          (case Option.bind (parent_of dest) (entry_at v) of
             None \<Rightarrow> (Inl no_such_file, v)
           | Some dir \<Rightarrow>
               if in_dev dir \<noteq> in_dev (vw_nodes v i) then (Inl cross_device, v)
               else if is_directory v dest then (Inl is_a_directory, v)
               else if vw_names v dest = Some i then (Inr (), v)
               else (Inr (), set_name temp None (set_name dest (Some i) v)))) = (Inr x, v') \<and> True"
      using v directory_parent [OF assms(7)] assms(8) same [OF assms(9)] unfolding parent
      by (auto simp: staged_def is_directory_def)
  qed
qed

lemma sync_dir_succeeds:
  assumes "quiet w" and "faultless w" and "entry_at (hd_view d) p \<noteq> None"
  shows "fst (sync_dir p w d) = Inr ()"
  using assms
  by (simp add: sync_dir_def sync_open_dir_def then_call_def system_call_def faulty_call_def faultless_def Let_def)

section \<open>Where a write is staged\<close>

definition passed_over :: "(host_path \<Rightarrow> dir_facts option) \<Rightarrow> dir_facts \<Rightarrow> u32 \<Rightarrow> host_path \<Rightarrow> bool" where
  "passed_over probe dest_facts uid dir \<longleftrightarrow>
     (\<forall>facts. probe dir = Some facts \<longrightarrow> df_dev facts = df_dev dest_facts \<and> \<not> writer_only facts uid)"

definition usable :: "(host_path \<Rightarrow> dir_facts option) \<Rightarrow> dir_facts \<Rightarrow> u32 \<Rightarrow> host_path \<Rightarrow> bool" where
  "usable probe dest_facts uid dir \<longleftrightarrow>
     (\<exists>facts. probe dir = Some facts \<and> df_dev facts = df_dev dest_facts \<and> writer_only facts uid)"

definition nearest ::
  "(host_path \<Rightarrow> dir_facts option) \<Rightarrow> dir_facts \<Rightarrow> u32 \<Rightarrow> host_path \<Rightarrow> host_path \<Rightarrow> bool" where
  "nearest probe dest_facts uid dir stage \<longleftrightarrow>
     prefix stage dir \<and> usable probe dest_facts uid stage \<and>
     (\<forall>m. prefix m dir \<and> strict_prefix stage m \<longrightarrow> passed_over probe dest_facts uid m)"

lemma prefix_up: "prefix m dir \<longleftrightarrow> m = dir \<or> (\<exists>up. parent_of dir = Some up \<and> prefix m up)"
  by (cases dir rule: rev_cases) (auto simp: parent_of_def)

lemma nearest_step:
  "nearest probe facts uid dir stage \<longleftrightarrow>
     stage = dir \<and> usable probe facts uid dir \<or>
     passed_over probe facts uid dir \<and> (\<exists>up. parent_of dir = Some up \<and> nearest probe facts uid up stage)"
proof -
  have shorter: "prefix m up \<Longrightarrow> parent_of dir = Some up \<Longrightarrow> strict_prefix m dir" for m up
    by (cases dir rule: rev_cases) (auto simp: parent_of_def strict_prefix_def)
  show ?thesis
    unfolding nearest_def using prefix_up [of _ dir] shorter
    by (auto simp: strict_prefix_def) (metis prefix_order.antisym)+
qed

lemma walk_nearest:
  assumes "\<And>b. prefix b dir \<Longrightarrow> parent_of dest_dir \<noteq> Some b"
  shows "staging_walk probe dest_dir facts uid (Some dir) = Some stage \<longleftrightarrow> nearest probe facts uid dir stage"
  using assms
proof (induction "length dir" arbitrary: dir rule: less_induct)
  case less
  have no_fallback: "mount_point_fallback dest_dir dir facts f uid = None" for f
    using less.prems by (auto simp: mount_point_fallback_def)
  have up: "staging_walk probe dest_dir facts uid (parent_of dir) = Some stage \<longleftrightarrow>
      (\<exists>up. parent_of dir = Some up \<and> nearest probe facts uid up stage)"
  proof (cases "parent_of dir")
    case (Some up)
    then have "length up < length dir" by (auto simp: parent_of_def split: if_splits)
    moreover have "prefix b up \<Longrightarrow> prefix b dir" for b
      using prefix_parent [OF Some] prefix_order.trans by blast
    ultimately have "staging_walk probe dest_dir facts uid (Some up) = Some stage \<longleftrightarrow> nearest probe facts uid up stage"
      using less by blast
    then show ?thesis using less Some by simp
  qed simp
  show ?case
    unfolding nearest_step [of probe facts uid dir stage] up [symmetric]
    by (auto simp: no_fallback usable_def passed_over_def split: option.splits)
qed

text \<open>C31: A write is staged in the nearest directory above the destination's own that the writer owns, nobody
  else can write and that is on the same file system, with no other file system in between; or in the
  destination's own directory, when that is the top of its file system, as closed, and its parent is writable
  by root and the writer only; and otherwise nowhere.\<close>

theorem staged_where_only_the_writer_writes:
  "select_staging_dir dest uid probe = Some stage \<longleftrightarrow>
     (\<exists>facts. length dest > 1 \<and> probe (butlast dest) = Some facts \<and>
        (nearest probe facts uid (butlast (butlast dest)) stage \<or>
         stage = butlast dest \<and> writer_only facts uid \<and>
         (\<exists>above. probe (butlast stage) = Some above \<and> df_dev above \<noteq> df_dev facts \<and>
            (df_uid above = 0 \<or> df_uid above = uid) \<and> closed_to_others (df_mode above))))"
proof (cases "length dest > 1")
  case False
  then have "dest = [] \<or> butlast dest = []" by (cases dest rule: rev_cases) auto
  then show ?thesis using False by (auto simp: select_staging_dir_def parent_of_def)
next
  case True
  define dd where "dd = butlast dest"
  define up where "up = butlast dd"
  have dd: "dd \<noteq> []" "dest \<noteq> []" using True by (auto simp: dd_def butlast_conv_take)
  then have parents: "parent_of dest = Some dd" "parent_of dd = Some up" by (simp_all add: parent_of_def dd_def up_def)
  have above: "staging_walk probe dd facts uid (parent_of up) = Some stage \<longleftrightarrow>
      (\<exists>b. parent_of up = Some b \<and> nearest probe facts uid b stage)" for facts
  proof (cases "parent_of up")
    case (Some b)
    then have "length b < length up" by (auto simp: parent_of_def split: if_splits)
    then have "parent_of dd \<noteq> Some c" if "prefix c b" for c
      using prefix_length_le [OF that] parents(2) by auto
    then show ?thesis using Some walk_nearest by simp
  qed simp
  have "staging_walk probe dd facts uid (Some up) = Some stage \<longleftrightarrow>
      nearest probe facts uid up stage \<or>
      stage = dd \<and> writer_only facts uid \<and>
      (\<exists>above. probe up = Some above \<and> df_dev above \<noteq> df_dev facts \<and>
         (df_uid above = 0 \<or> df_uid above = uid) \<and> closed_to_others (df_mode above))" for facts
    unfolding nearest_step [of probe facts uid up stage] above [symmetric]
    by (auto simp: usable_def passed_over_def mount_point_fallback_def parents ROOT_ID_def Let_def split: option.splits)
  then show ?thesis
    using True by (auto simp: select_staging_dir_def parents dd_def [symmetric] up_def [symmetric] Option.bind_eq_Some_conv)
qed

section \<open>The link-based backup\<close>

lemma traced_case:
  assumes "traced T P m Q E1" and "\<And>e. traced T E1 (h e) R E" and "\<And>x. traced T (Q x) (k x) R E"
  shows "traced T P (\<lambda>d. case m d of (Inl e, d1) \<Rightarrow> h e d1 | (Inr x, d1) \<Rightarrow> k x d1) R E"
proof -
  have "set (hd_trail d') \<subseteq> set (hd_trail d) \<union> Collect T \<and>
      (case r of Inr x \<Rightarrow> R x (hd_view d') | Inl _ \<Rightarrow> E (hd_view d'))"
    if p: "P (hd_view d)" and run: "(case m d of (Inl e, d1) \<Rightarrow> h e d1 | (Inr x, d1) \<Rightarrow> k x d1) = (r, d')" for d r d'
  proof (cases "m d")
    case (Pair r1 d1)
    note first = tracedD [OF assms(1) p Pair]
    show ?thesis
    proof (cases r1)
      case (Inl e)
      then have "h e d1 = (r, d')" using run Pair by simp
      note second = tracedD [OF assms(2) first(3) [OF Inl] this]
      show ?thesis using first(1) second by (cases r) auto
    next
      case (Inr x)
      then have "k x d1 = (r, d')" using run Pair by simp
      note second = tracedD [OF assms(3) first(2) [OF Inr] this]
      show ?thesis using first(1) second by (cases r) auto
    qed
  qed
  then show ?thesis unfolding traced_def by blast
qed

lemma traced_fail: "(\<And>v. P v \<Longrightarrow> E v) \<Longrightarrow> traced T P (\<lambda>d. (Inl e, d)) R E"
  and traced_return: "(\<And>v. P v \<Longrightarrow> R x v) \<Longrightarrow> traced T P (\<lambda>d. (Inr x, d)) R E"
  by (auto simp: traced_def)

lemma traced_ignoring:
  assumes "traced T P m (\<lambda>_. E) E"
  shows "traced T P (\<lambda>d. (Inl e, snd (m d))) R E" and "traced T P (\<lambda>d. (Inr x, snd (m d))) (\<lambda>_. E) E2"
proof -
  have "set (hd_trail (snd (m d))) \<subseteq> set (hd_trail d) \<union> Collect T \<and> E (hd_view (snd (m d)))" if "P (hd_view d)" for d
    using tracedD [OF assms that surjective_pairing] by (cases "fst (m d)") auto
  then show "traced T P (\<lambda>d. (Inl e, snd (m d))) R E" "traced T P (\<lambda>d. (Inr x, snd (m d))) (\<lambda>_. E) E2"
    unfolding traced_def by auto
qed

lemma traced_weaken:
  assumes "traced T P m Q E" and "\<And>x v. Q x v \<Longrightarrow> R x v"
  shows "traced T P m R E"
proof -
  have "set (hd_trail d') \<subseteq> set (hd_trail d) \<union> Collect T \<and>
      (case r of Inr x \<Rightarrow> R x (hd_view d') | Inl _ \<Rightarrow> E (hd_view d'))"
    if "P (hd_view d)" "m d = (r, d')" for d r d'
    using tracedD [OF assms(1) that] assms(2) by (cases r) auto
  then show ?thesis unfolding traced_def by blast
qed

text \<open>Nothing that was there changed, and the destination did not.\<close>

definition calm :: "host_view \<Rightarrow> host_path \<Rightarrow> host_view \<Rightarrow> bool" where
  "calm v0 dest v \<longleftrightarrow>
     vw_nodes v = vw_nodes v0 \<and> (\<forall>p. vw_names v0 p \<noteq> None \<or> p = dest \<longrightarrow> vw_names v p = vw_names v0 p)"

definition linked :: "host_view \<Rightarrow> host_path \<Rightarrow> host_path \<Rightarrow> host_view \<Rightarrow> bool" where
  "linked v0 source temp v \<longleftrightarrow>
     vw_names v0 source \<noteq> None \<and> vw_names v0 temp = None \<and> v = set_name temp (vw_names v0 source) v0"

text \<open>The destination is a name of the source's inode, a regular file.\<close>

definition backed_up :: "host_view \<Rightarrow> host_path \<Rightarrow> host_path \<Rightarrow> host_view \<Rightarrow> bool" where
  "backed_up v0 source dest v \<longleftrightarrow>
     vw_nodes v = vw_nodes v0 \<and> (\<forall>p. vw_names v0 p \<noteq> None \<and> p \<noteq> dest \<longrightarrow> vw_names v p = vw_names v0 p) \<and>
     (\<exists>i. vw_names v0 source = Some i \<and> is_regular (vw_nodes v0 i) \<and> vw_names v dest = Some i)"

definition regular_source :: "host_view \<Rightarrow> host_path \<Rightarrow> bool" where
  "regular_source v0 source \<longleftrightarrow> (\<exists>n. entry_at v0 source = Some n \<and> is_regular n)"

lemma linked_calm: "dest \<noteq> temp \<Longrightarrow> linked v0 source temp v \<Longrightarrow> calm v0 dest v"
  by (auto simp: linked_def calm_def set_name_def)

lemma linked_entry: "linked v0 source temp v \<Longrightarrow> entry_at v temp = entry_at v0 source"
  by (simp add: linked_def entry_at_def set_name_def)

lemma remove_linked:
  assumes "quiet w" and "dest \<noteq> temp" and "\<And>v. calm v0 dest v \<Longrightarrow> T v"
  shows "traced T (linked v0 source temp) (remove_file temp w) (\<lambda>_. calm v0 dest) (calm v0 dest)"
  unfolding remove_file_def
  by (rule traced_system_call)
     (use assms linked_calm [OF assms(2)] in \<open>auto simp: linked_def calm_def set_name_def split: if_splits\<close>)

lemma confirm_linked_traced:
  assumes "quiet w" and "dest \<noteq> temp" and "\<And>v. calm v0 dest v \<Longrightarrow> T v"
  shows "traced T (linked v0 source temp) (confirm_linked source temp dest w)
     (\<lambda>t v. t = temp \<and> linked v0 source temp v \<and> regular_source v0 source) (calm v0 dest)"
proof -
  have removed: "traced T (linked v0 source temp) (\<lambda>d. (Inl e, snd (remove_file temp w d))) R (calm v0 dest)"
    for e and R :: "host_path \<Rightarrow> host_view \<Rightarrow> bool"
    by (rule traced_ignoring(1) [OF remove_linked]) (use assms in auto)
  have looked: "traced T (linked v0 source temp) (symlink_metadata temp w)
      (\<lambda>n v. linked v0 source temp v \<and> entry_at v0 source = Some n) (linked v0 source temp)"
    unfolding symlink_metadata_def
    by (rule traced_system_call)
       (use assms linked_calm [OF assms(2)] in \<open>auto simp: linked_entry split: option.splits\<close>)
  have judged: "traced T (\<lambda>v. linked v0 source temp v \<and> entry_at v0 source = Some n)
      (\<lambda>d. if is_symlink n \<or> \<not> is_regular n then (Inl e, snd (remove_file temp w d)) else (Inr temp, d))
      (\<lambda>t v. t = temp \<and> linked v0 source temp v \<and> regular_source v0 source) (calm v0 dest)" for n e
  proof (cases "is_symlink n \<or> \<not> is_regular n")
    case True
    then show ?thesis using removed [of e] by (simp add: traced_def)
  next
    case False
    then show ?thesis by (auto simp: traced_def regular_source_def)
  qed
  show ?thesis
    unfolding confirm_linked_def [abs_def] by (rule traced_case [OF looked removed judged])
qed

lemma link_attempts_traced:
  assumes "quiet w" and "\<And>k. dest \<noteq> link_temp dir pid k" and "\<And>v. calm v0 dest v \<Longrightarrow> T v"
  shows "traced T (\<lambda>v. v = v0) (link_attempts pid source dir dest attempt left occupied w)
     (\<lambda>t v. (\<exists>k. t = link_temp dir pid k) \<and> linked v0 source t v \<and> regular_source v0 source) (calm v0 dest)"
proof (induction left arbitrary: attempt occupied)
  case 0
  then show ?case by (auto simp: traced_def calm_def)
next
  case (Suc left)
  let ?temp = "link_temp dir pid attempt"
  have calm: "calm v0 dest v0" by (simp add: calm_def)
  have link: "traced T (\<lambda>v. v = v0) (hard_link source ?temp w) (\<lambda>_. linked v0 source ?temp) (\<lambda>v. v = v0)"
    unfolding hard_link_def
    by (rule traced_system_call)
       (use assms calm linked_calm [OF assms(2)] in \<open>auto simp: linked_def split: option.splits if_splits\<close>)
  have refused: "traced T (\<lambda>v. v = v0)
      (\<lambda>d. case e of
         AlreadyExists m \<Rightarrow> link_attempts pid source dir dest (Suc attempt) left (link_reason ?temp (AlreadyExists m)) w d
       | OtherOsError m \<Rightarrow> (Inl (EX_Transfer (path_text dest) (link_reason ?temp (OtherOsError m))), d))
      (\<lambda>t v. (\<exists>k. t = link_temp dir pid k) \<and> linked v0 source t v \<and> regular_source v0 source) (calm v0 dest)" for e
    using Suc calm by (cases e) (auto intro: traced_fail)
  have confirmed: "traced T (linked v0 source ?temp) (confirm_linked source ?temp dest w)
      (\<lambda>t v. (\<exists>k. t = link_temp dir pid k) \<and> linked v0 source t v \<and> regular_source v0 source) (calm v0 dest)"
    by (rule traced_weaken [OF confirm_linked_traced [OF assms]]) auto
  have "link_attempts pid source dir dest attempt (Suc left) occupied w =
      (\<lambda>d. case hard_link source ?temp w d of
         (Inl e, d1) \<Rightarrow>
           (case e of
              AlreadyExists m \<Rightarrow> link_attempts pid source dir dest (Suc attempt) left (link_reason ?temp (AlreadyExists m)) w d1
            | OtherOsError m \<Rightarrow> (Inl (EX_Transfer (path_text dest) (link_reason ?temp (OtherOsError m))), d1))
       | (Inr x, d1) \<Rightarrow> confirm_linked source ?temp dest w d1)"
    by (rule ext) (simp add: Let_def split: sum.splits prod.splits os_error.splits)
  then show ?case using traced_case [OF link refused confirmed] by simp
qed

lemma link_aside_traced:
  assumes "quiet w" and "\<And>k. dest \<noteq> link_temp dir pid k" and "\<And>v. calm v0 dest v \<Longrightarrow> T v"
  shows "traced T (\<lambda>v. v = v0) (link_aside pid source dir dest w)
     (\<lambda>t v. (\<exists>k. t = link_temp dir pid k) \<and> linked v0 source t v \<and> regular_source v0 source) (calm v0 dest)"
    (is "traced T ?P _ ?Q ?E")
proof -
  have calm: "calm v0 dest v0" by (simp add: calm_def)
  have looked: "traced T ?P (symlink_metadata source w) (\<lambda>_. ?P) ?P"
    unfolding symlink_metadata_def
    by (rule traced_unchanged) (use assms calm in \<open>auto split: option.splits\<close>)
  have attempts: "traced T ?P (\<lambda>d. if is_symlink n then (Inl e1, d) else if \<not> is_regular n then (Inl e2, d)
      else link_attempts pid source dir dest 0 LINK_TEMP_ATTEMPTS [] w d) ?Q ?E" for n e1 e2
    using link_attempts_traced [OF assms] calm by (simp add: traced_def)
  show ?thesis
    unfolding link_aside_def [abs_def] by (rule traced_case [OF looked traced_fail attempts]) (use calm in simp)
qed

lemma publish_traced:
  assumes "quiet w" and "dest \<noteq> temp" and "\<And>v. calm v0 dest v \<Longrightarrow> T v" and "\<And>v. backed_up v0 source dest v \<Longrightarrow> T v"
  shows "traced T (\<lambda>v. linked v0 source temp v \<and> regular_source v0 source) (publish_link temp dest w)
     (\<lambda>_. backed_up v0 source dest) (calm v0 dest)" (is "traced T ?P _ _ _")
proof -
  let ?B = "\<lambda>v. backed_up v0 source dest v \<and> vw_names v0 temp = None"
  have renamed: "traced T ?P (rename_file temp dest w) (\<lambda>_. ?B) ?P"
    unfolding rename_file_def
    by (rule traced_system_call)
       (use assms linked_calm [OF assms(2)] in
         \<open>auto simp: linked_def backed_up_def regular_source_def entry_at_def set_name_def split: option.splits if_splits\<close>)
  have failed: "traced T ?P (\<lambda>d. (Inl e, snd (remove_file temp w d))) R (calm v0 dest)"
    for e :: executor_error and R :: "unit \<Rightarrow> host_view \<Rightarrow> bool"
  proof -
    have "traced T (linked v0 source temp) (remove_file temp w) (\<lambda>_. calm v0 dest) (calm v0 dest)"
      by (rule remove_linked) (use assms in auto)
    from traced_ignoring(1) [OF this, of e R] show ?thesis by (simp add: traced_def)
  qed
  have "traced T ?B (remove_file temp w) (\<lambda>_. backed_up v0 source dest) (backed_up v0 source dest)"
    unfolding remove_file_def
    by (rule traced_system_call)
       (use assms in \<open>auto simp: backed_up_def set_name_def split: if_splits\<close>)
  note done_with = traced_ignoring(2) [OF this]
  have "publish_link temp dest w =
      (\<lambda>d. case rename_file temp dest w d of
         (Inl e, d1) \<Rightarrow> (Inl (EX_Transfer (path_text dest) (link_reason temp e)), snd (remove_file temp w d1))
       | (Inr x, d1) \<Rightarrow> (Inr x, snd (remove_file temp w d1)))"
    by (rule ext) (auto simp: publish_link_def split: prod.splits sum.splits)
  then show ?thesis using traced_case [OF renamed failed done_with] by simp
qed

text \<open>C30: Whatever call fails on the way, everyone who looks at a backup being made natively sees the entry that
  was there or a name of the source's own inode, a regular file; no file changes, and nothing that had a name
  loses it, a stale temporary included; and a backup that succeeds has flushed the entry.\<close>

theorem backup_atomic:
  assumes "quiet w" and "\<forall>k. dest \<noteq> link_temp (butlast dest) pid k"
    and "hard_link_over_natively pid source dest w d = (r, d')"
  shows "(\<forall>v\<in>set (hd_trail d') - set (hd_trail d).
       vw_nodes v = vw_nodes (hd_view d) \<and>
       (\<forall>p. p \<noteq> dest \<and> vw_names (hd_view d) p \<noteq> None \<longrightarrow> vw_names v p = vw_names (hd_view d) p) \<and>
       (vw_names v dest = vw_names (hd_view d) dest \<or> backed_up (hd_view d) source dest v)) \<and>
     (r = Inr () \<longrightarrow> backed_up (hd_view d) source dest (hd_view d') \<and> butlast dest \<in> set (hd_flushed d'))"
proof (cases "parent_of dest")
  case None
  then show ?thesis using assms(3) by (auto simp: hard_link_over_natively_def)
next
  case (Some dir)
  then have dir: "dir = butlast dest" by (simp add: parent_of_def split: if_splits)
  let ?v0 = "hd_view d"
  let ?T = "\<lambda>v. calm ?v0 dest v \<or> backed_up ?v0 source dest v"
  have seen: "vw_nodes v = vw_nodes ?v0 \<and>
       (\<forall>p. p \<noteq> dest \<and> vw_names ?v0 p \<noteq> None \<longrightarrow> vw_names v p = vw_names ?v0 p) \<and>
       (vw_names v dest = vw_names ?v0 dest \<or> backed_up ?v0 source dest v)" if "?T v" for v
    using that by (auto simp: calm_def backed_up_def)
  obtain r1 d1 where aside: "link_aside pid source dir dest w d = (r1, d1)" by (cases "link_aside pid source dir dest w d")
  have free: "dest \<noteq> link_temp dir pid k" for k using assms(2) dir by simp
  note linked = tracedD [OF link_aside_traced [OF assms(1) free, where T = ?T] refl aside, simplified]
  show ?thesis
  proof (cases r1)
    case (Inl e)
    then have "d' = d1" "r \<noteq> Inr ()" using assms(3) aside Some by (auto simp: hard_link_over_natively_def)
    then show ?thesis using linked(1) seen by blast
  next
    case (Inr temp)
    have at: "(\<exists>k. temp = link_temp dir pid k) \<and> linked ?v0 source temp (hd_view d1) \<and> regular_source ?v0 source"
      using linked(2) Inr by blast
    then have temp: "dest \<noteq> temp" using free by blast
    obtain r2 d2 where publish: "publish_link temp dest w d1 = (r2, d2)" by (cases "publish_link temp dest w d1")
    note published = tracedD [OF publish_traced [OF assms(1) temp, where T = ?T] _ publish, of ?v0 source, simplified]
    show ?thesis
    proof (cases r2)
      case (Inl e)
      then have "d' = d2" "r \<noteq> Inr ()" using assms(3) aside Some Inr publish by (auto simp: hard_link_over_natively_def)
      then show ?thesis using linked(1) published(1) at seen by blast
    next
      case r2: (Inr u)
      obtain r3 where flush: "sync_dir dir w d2 = (r3, d')" "r = Inr () \<longrightarrow> r3 = Inr ()"
        using assms(3) aside Some Inr publish r2
        by (cases "sync_dir dir w d2") (auto simp: hard_link_over_natively_def split: sum.splits)
      have after: "backed_up ?v0 source dest (hd_view d2)" using published(2) r2 at by simp
      note flushed = tracedD [OF traced_sync_dir [OF assms(1), where T = ?T and P = "backed_up ?v0 source dest"] after flush(1), simplified]
      have "backed_up ?v0 source dest (hd_view d')" using flushed(2,3) by (cases r3) auto
      moreover have "\<forall>v\<in>set (hd_trail d') - set (hd_trail d). ?T v"
        using flushed(1) published(1) linked(1) at by blast
      moreover have "r = Inr () \<longrightarrow> butlast dest \<in> set (hd_flushed d')"
        using flush sync_dir_flushes [of dir w d2 "()" d'] dir by auto
      ultimately show ?thesis using seen by blast
    qed
  qed
qed

text \<open>C29: Even while others rename, link and replace whatever they can reach, a native landing that reports success
  has put exactly its own file at the destination, with its contents, owner and mode, as long as they can
  neither write its staging directory nor open its temporary.\<close>

theorem landing_not_redirected:
  assumes "spares w temp" and "land temp dest contents uid gid mode w d = (Inr (), d')"
  shows "\<exists>n. entry_at (hd_view d') dest = Some n \<and> complete_file contents uid gid mode n"
  using tracedD(2) [OF landing_undisturbed [OF assms(1)] TrueI assms(2) refl] .

section \<open>Samples\<close>

definition sample_inode :: "node_kind \<Rightarrow> inode" where
  "sample_inode kind = \<lparr>in_kind = kind, in_uid = 0, in_gid = 0, in_mode = 493, in_dev = 1, in_stable = True\<rparr>"

definition sample_view :: host_view where
  "sample_view = \<lparr>
     vw_names = (\<lambda>p. if p = [] then Some 0 else if p = [''d''] then Some 1 else if p = [''d'', ''f''] then Some 2 else None),
     vw_nodes = (\<lambda>i. sample_inode (if i < 2 then DirectoryNode else RegularNode ''old'')),
     vw_fresh = 3\<rparr>"

definition sample_disk :: host_disk where
  "sample_disk = \<lparr>hd_view = sample_view, hd_clock = 0, hd_trail = [], hd_flushed = []\<rparr>"

definition sample_world :: host_world where
  "sample_world = \<lparr>hw_fault = (\<lambda>_. None), hw_written = (\<lambda>_. 0), hw_meddle = (\<lambda>_ v. v), hw_uid = 0, hw_gid = 0, hw_umask = 18\<rparr>"

definition sample_writer :: writer where
  "sample_writer = \<lparr>wr_pid = 7, wr_uid = Some 0, wr_unreadable = (\<lambda>_. None)\<rparr>"

definition no_runs :: "unit runner" where
  "no_runs = (\<lambda>_ _ _ s. (Inl (EX_Spawn [] []), s))"

lemma sample_quiet: "quiet sample_world" "spares sample_world temp"
  by (simp_all add: quiet_def spares_def sample_world_def)

lemma sample_sound: "sound_view (hd_view sample_disk)"
  by (simp add: sound_view_def sample_disk_def sample_view_def)

lemma sample_stage:
  "staging_dir (wr_unreadable sample_writer) (wr_uid sample_writer) (hd_view sample_disk) [''d'', ''f''] = Inr []"
proof -
  have "closed_to_others 493" by (simp add: closed_to_others_def)
  then show ?thesis
    by (simp add: staging_dir_def select_staging_dir_def probe_view_def stat_error_def followed_def entry_at_def
        sample_writer_def sample_disk_def sample_view_def sample_inode_def parent_of_def writer_only_def ok_or_def)
qed

lemma sample_faultless: "faultless sample_world"
  by (simp add: faultless_def sample_world_def)

lemma sample_land:
  assumes "t \<noteq> ''d''"
  shows "fst (land [t] [''d'', ''f''] contents uid gid mode sample_world sample_disk) = Inr ()"
proof -
  have "traced (\<lambda>_. True) (\<lambda>v. v = sample_view) (land [t] [''d'', ''f''] contents uid gid mode sample_world)
      (\<lambda>_ _. True) (\<lambda>_. False)"
    by (rule landing_succeeds [where dev = 1])
       (use assms sample_quiet sample_faultless sample_sound in \<open>simp_all add: sample_disk_def sample_view_def sample_inode_def
          directory_of_def is_directory_def entry_at_def\<close>)
  from tracedD(3) [OF this _ surjective_pairing, of sample_disk] show ?thesis
    by (cases "fst (land [t] [''d'', ''f''] contents uid gid mode sample_world sample_disk)")
       (auto simp: sample_disk_def)
qed

lemma sample_lands:
  "fst (put_file_natively no_runs sample_writer [''d'', ''f''] ''new'' ROOT_CONFIG sample_world ((), 0, sample_disk)) = Inr ()"
proof -
  have temp: "native_temp [] 7 0 = [''.bootler.7.0.tmp'']" by code_simp
  let ?temp = "[''.bootler.7.0.tmp'']"
  let ?land = "land ?temp [''d'', ''f''] ''new'' 0 0 420 sample_world sample_disk"
  have "fst ?land = Inr ()" by (rule sample_land) simp
  then obtain d1 where land: "land_or_clean ?temp [''d'', ''f''] ''new'' 0 0 420 sample_world sample_disk = (Inr (), d1)"
    by (cases ?land) (simp add: land_or_clean_def)
  have "entry_at (hd_view d1) [''d''] = entry_at (hd_view sample_disk) [''d'']"
    using land_or_clean_atomic(2) [OF sample_quiet(1) sample_sound _ land] by (simp add: landed_view_def apart_from_def)
  then have "entry_at (hd_view d1) [''d''] \<noteq> None" by (auto simp: sample_disk_def sample_view_def entry_at_def)
  from sync_dir_succeeds [OF sample_quiet(1) sample_faultless this]
  obtain d2 where "sync_dir [''d''] sample_world d1 = (Inr (), d2)" by (metis prod.collapse)
  moreover have pid: "wr_pid sample_writer = 7" by (simp add: sample_writer_def)
  ultimately show ?thesis
    using land unfolding put_file_natively_def
    by (simp add: sample_stage numeric_id_def ROOT_CONFIG_def file_meta_new_def ROOT_ID_def Let_def temp)
qed

lemma sample_backs_up:
  "fst (hard_link_over_natively 7 [''d'', ''f''] [''d'', ''f.prev''] sample_world sample_disk) = Inr ()"
  by code_simp

theorem landing_atomic_witness:
  "\<exists>s' c d'. put_file_natively no_runs sample_writer [''d'', ''f''] ''new'' ROOT_CONFIG sample_world ((), 0, sample_disk) =
       (Inr (), s', c, d') \<and>
     (\<exists>n. entry_at (hd_view d') [''d'', ''f''] = Some n \<and> in_kind n = RegularNode ''new'') \<and> [''d''] \<in> set (hd_flushed d')"
proof -
  obtain r s' c d' where run:
    "put_file_natively no_runs sample_writer [''d'', ''f''] ''new'' ROOT_CONFIG sample_world ((), 0, sample_disk) = (r, s', c, d')"
    by (metis surj_pair)
  then have "r = Inr ()" using sample_lands by simp
  moreover have "[''d'', ''f''] \<noteq> native_temp (butlast [''d'', ''f'']) (wr_pid sample_writer) 0"
    by (simp add: native_temp_def)
  ultimately show ?thesis
    using landing_atomic [OF sample_quiet(1) sample_sound _ run] run unfolding the_file_def complete_file_def
    by fastforce
qed

theorem backup_atomic_witness:
  "\<exists>d'. hard_link_over_natively 7 [''d'', ''f''] [''d'', ''f.prev''] sample_world sample_disk = (Inr (), d') \<and>
     vw_names (hd_view d') [''d'', ''f.prev''] = Some 2 \<and> [''d''] \<in> set (hd_flushed d')"
proof -
  obtain r d' where run: "hard_link_over_natively 7 [''d'', ''f''] [''d'', ''f.prev''] sample_world sample_disk = (r, d')"
    by (metis surj_pair)
  then have "r = Inr ()" using sample_backs_up by simp
  moreover have "\<forall>k. [''d'', ''f.prev''] \<noteq> link_temp (butlast [''d'', ''f.prev'']) 7 k" by (simp add: link_temp_def)
  moreover have "vw_names (hd_view sample_disk) [''d'', ''f''] = Some 2" by (simp add: sample_disk_def sample_view_def)
  ultimately show ?thesis using backup_atomic [OF sample_quiet(1) _ run] run by (auto simp: backed_up_def)
qed

theorem landing_not_redirected_witness:
  "\<exists>d'. land [''t''] [''d'', ''f''] ''new'' 5 6 416 sample_world sample_disk = (Inr (), d') \<and>
     (\<exists>n. entry_at (hd_view d') [''d'', ''f''] = Some n \<and> complete_file ''new'' 5 6 416 n)"
proof -
  have "fst (land [''t''] [''d'', ''f''] ''new'' 5 6 416 sample_world sample_disk) = Inr ()" by (rule sample_land) simp
  then obtain d' where run: "land [''t''] [''d'', ''f''] ''new'' 5 6 416 sample_world sample_disk = (Inr (), d')"
    by (metis prod.collapse)
  from landing_not_redirected [OF sample_quiet(2) this] run show ?thesis by blast
qed

end
