(* ===== verification/Selfupdate_Contract.thy ===== *)
theory Selfupdate_Contract
  imports Json Hex_Text
begin

text \<open>
  The on-disk contract of roxyd self-update rollback (\<open>src/roxyd_selfupdate_contract.rs\<close>): names, paths, the
  JSON records two programs exchange, and the check of a report request against the status record. Text and
  bytes go through a JSON parser that is a parameter; the shapes of the records are the serde derives.
\<close>

section \<open>Names and paths\<close>

definition DIRECTORY :: bytes where "DIRECTORY = ''/var/lib/roxyd/selfupdate''"
definition ARM_FILE :: bytes where "ARM_FILE = ''arm.json''"
definition CONFIRM_FILE :: bytes where "CONFIRM_FILE = ''confirm.json''"
definition STATUS_FILE :: bytes where "STATUS_FILE = ''status.json''"
definition REPORT_REQUEST_FILE :: bytes where "REPORT_REQUEST_FILE = ''report-request.json''"
definition SUPERVISOR_VERSION_FILE :: bytes where "SUPERVISOR_VERSION_FILE = ''supervisor.json''"
definition ROXYD_BINARY :: bytes where "ROXYD_BINARY = ''/opt/roxyd/bin/roxyd''"
definition DECISION_SUBCOMMAND :: bytes where "DECISION_SUBCOMMAND = ''selfupdate-decide''"
definition REASON_BOOT :: bytes where "REASON_BOOT = ''boot''"
definition REASON_CRASH :: bytes where "REASON_CRASH = ''crash''"
definition REASON_DEADLINE :: bytes where "REASON_DEADLINE = ''deadline''"
definition SELF_TEST_FILE :: bytes where "SELF_TEST_FILE = ''selftest.json''"
definition SELF_TEST_FRESHNESS_SECS :: u64 where "SELF_TEST_FRESHNESS_SECS = 120"
definition SELF_TEST_NONCE_LEN :: nat where "SELF_TEST_NONCE_LEN = 32"
definition SELF_TEST_NONCE_ALPHABET :: bytes where "SELF_TEST_NONCE_ALPHABET = ''0123456789abcdef''"
definition ROXYD_SUPERVISOR_SELFTEST_SUBCOMMAND :: bytes where
  "ROXYD_SUPERVISOR_SELFTEST_SUBCOMMAND = ''roxyd-supervisor-selftest''"
definition ROXYD_SUPERVISOR_INSTALL_SUBCOMMAND :: bytes where
  "ROXYD_SUPERVISOR_INSTALL_SUBCOMMAND = ''roxyd-supervisor-install''"
definition ROXYD_SUPERVISOR_CRASH_ACTIVATION_DROP_IN_FILE :: bytes where
  "ROXYD_SUPERVISOR_CRASH_ACTIVATION_DROP_IN_FILE = ''10-bootler-crash-activation.conf''"
definition SELF_TEST_UNIT_STEM :: bytes where "SELF_TEST_UNIT_STEM = ''roxyd-supervisor-selftest''"

text \<open>\<open>Path::join\<close> of a relative name, and \<open>Path::parent\<close> of a path without a trailing slash.\<close>

definition path_join :: "bytes \<Rightarrow> bytes \<Rightarrow> bytes" where
  "path_join dir name = dir @ ''/'' @ name"

definition path_parent :: "bytes \<Rightarrow> bytes" where
  "path_parent path = butlast (rev (dropWhile (\<lambda>c. c \<noteq> CHR ''/'') (rev path)))"

definition directory :: bytes where "directory = DIRECTORY"
definition binary_path :: bytes where "binary_path = ROXYD_BINARY"
definition binary_directory :: bytes where "binary_directory = path_parent binary_path"
definition arm_path :: bytes where "arm_path = path_join directory ARM_FILE"
definition confirm_path :: bytes where "confirm_path = path_join directory CONFIRM_FILE"
definition status_path :: bytes where "status_path = path_join directory STATUS_FILE"
definition report_request_path :: bytes where "report_request_path = path_join directory REPORT_REQUEST_FILE"
definition supervisor_version_path :: bytes where
  "supervisor_version_path = path_join directory SUPERVISOR_VERSION_FILE"
definition self_test_path_in :: "bytes \<Rightarrow> bytes" where "self_test_path_in dir = path_join dir SELF_TEST_FILE"
definition self_test_path :: bytes where "self_test_path = self_test_path_in directory"

definition self_test_template_unit_name :: "bytes \<Rightarrow> bytes" where
  "self_test_template_unit_name namespace = namespace @ ''-'' @ SELF_TEST_UNIT_STEM @ ''@.service''"

definition self_test_instance_unit_name :: "bytes \<Rightarrow> bytes \<Rightarrow> bytes" where
  "self_test_instance_unit_name namespace nonce =
     namespace @ ''-'' @ SELF_TEST_UNIT_STEM @ ''@'' @ nonce @ ''.service''"

definition is_valid_self_test_nonce :: "bytes \<Rightarrow> bool" where
  "is_valid_self_test_nonce nonce \<longleftrightarrow>
     length nonce = SELF_TEST_NONCE_LEN \<and> list_all (\<lambda>c. c \<in> set SELF_TEST_NONCE_ALPHABET) nonce"

section \<open>Records\<close>

definition FORMAT :: u32 where "FORMAT = 1"

datatype decision_unit_state =
    UnitReady | UnitMasked | UnitNotFound | UnitDisabled | UnitInactive | UnitFailed | UnitChainMissing

record decision_path_entry =
  dp_unit :: bytes
  dp_state :: decision_unit_state

record self_test_record =
  st_format :: u32
  st_nonce :: bytes
  st_written_at :: u64
  st_supervisor_version :: bytes
  st_decision_path :: "decision_path_entry list"

record build_identity =
  bi_version :: bytes
  bi_commit :: bytes

datatype digest_algorithm = Sha256

record binary_digest =
  bd_algorithm :: digest_algorithm
  bd_hex :: bytes

record report_request =
  rq_format :: u32
  rq_status_digest :: binary_digest

datatype report_request_validity =
    RequestValid | UnsupportedFormat | MissingStatusRecord | InvalidStatusRecord | StatusDigestMismatch

datatype rollback_policy = Rollback | Hold

record arm_record =
  ar_format :: u32
  ar_incoming :: build_identity
  ar_outgoing :: build_identity
  ar_incoming_digest :: binary_digest
  ar_outgoing_digest :: binary_digest
  ar_policy :: rollback_policy
  ar_deadline_epoch_seconds :: u64

record confirm_marker =
  cm_format :: u32
  cm_build :: build_identity

datatype lifecycle = Committed | NoAction | LifecycleReverted | Declined | LifecycleFailed

datatype decision =
    Confirmed | DecisionOutgoingStillInstalled | DecisionMatchesNeither | DecisionReverted | HoldDeclined | RevertRefused

datatype decision_reason =
    MatchingConfirmMarker | ReasonOutgoingStillInstalled | MarkerDeadlineExpired | CrashThresholdReached
  | ReasonMatchesNeither | PreviousIdentityUnassertable | PreviousBuildWithdrawn | TrustGenerationUnreadable

record observed_binary =
  ob_digest :: binary_digest
  ob_build :: "build_identity option"

record status_record =
  sr_format :: u32
  sr_lifecycle :: lifecycle
  sr_decision :: decision
  sr_reason :: decision_reason
  sr_incoming :: build_identity
  sr_outgoing :: build_identity
  sr_observed :: observed_binary
  sr_supervisor_version :: bytes
  sr_recorded_at_epoch_seconds :: u64

record supervisor_version_marker =
  sv_format :: u32
  sv_installed_at_epoch_seconds :: u64

section \<open>The wire shapes\<close>

text \<open>A derived struct without \<open>deny_unknown_fields\<close>: members it does not know are skipped.\<close>

fun struct_lenient :: "bytes list \<Rightarrow> json \<Rightarrow> (bytes \<Rightarrow> json option) option" where
  "struct_lenient known (JObj members) =
     (let mine = filter (\<lambda>(k, _). k \<in> set known) members in
      if distinct (map fst mine) then Some (map_of mine) else None)"
| "struct_lenient known (JArr vs) =
     (if length vs \<le> length known then Some (map_of (zip known vs)) else None)"
| "struct_lenient known _ = None"

text \<open>A unit-only enum: its name, or the one-member object serde also accepts.\<close>

fun variant_name :: "json \<Rightarrow> bytes option" where
  "variant_name (JStr s) = Some s"
| "variant_name (JObj [(s, JNull)]) = Some s"
| "variant_name _ = None"

definition decode_enum :: "('a \<Rightarrow> bytes) \<Rightarrow> 'a list \<Rightarrow> json \<Rightarrow> 'a option" where
  "decode_enum name all v = Option.bind (variant_name v) (\<lambda>s. find (\<lambda>x. name x = s) all)"

fun decision_unit_state_name :: "decision_unit_state \<Rightarrow> bytes" where
  "decision_unit_state_name UnitReady = ''ready''"
| "decision_unit_state_name UnitMasked = ''masked''"
| "decision_unit_state_name UnitNotFound = ''not_found''"
| "decision_unit_state_name UnitDisabled = ''disabled''"
| "decision_unit_state_name UnitInactive = ''inactive''"
| "decision_unit_state_name UnitFailed = ''failed''"
| "decision_unit_state_name UnitChainMissing = ''chain_missing''"

definition all_unit_states :: "decision_unit_state list" where
  "all_unit_states = [UnitReady, UnitMasked, UnitNotFound, UnitDisabled, UnitInactive, UnitFailed, UnitChainMissing]"

fun digest_algorithm_name :: "digest_algorithm \<Rightarrow> bytes" where
  "digest_algorithm_name Sha256 = ''sha256''"

fun rollback_policy_name :: "rollback_policy \<Rightarrow> bytes" where
  "rollback_policy_name Rollback = ''rollback''"
| "rollback_policy_name Hold = ''hold''"

fun lifecycle_name :: "lifecycle \<Rightarrow> bytes" where
  "lifecycle_name Committed = ''committed''"
| "lifecycle_name NoAction = ''no_action''"
| "lifecycle_name LifecycleReverted = ''reverted''"
| "lifecycle_name Declined = ''declined''"
| "lifecycle_name LifecycleFailed = ''failed''"

definition all_lifecycles :: "lifecycle list" where
  "all_lifecycles = [Committed, NoAction, LifecycleReverted, Declined, LifecycleFailed]"

fun decision_name :: "decision \<Rightarrow> bytes" where
  "decision_name Confirmed = ''confirmed''"
| "decision_name DecisionOutgoingStillInstalled = ''outgoing_still_installed''"
| "decision_name DecisionMatchesNeither = ''binary_matches_neither''"
| "decision_name DecisionReverted = ''reverted''"
| "decision_name HoldDeclined = ''hold_declined''"
| "decision_name RevertRefused = ''revert_refused''"

definition all_decisions :: "decision list" where
  "all_decisions =
     [Confirmed, DecisionOutgoingStillInstalled, DecisionMatchesNeither, DecisionReverted, HoldDeclined, RevertRefused]"

fun decision_reason_name :: "decision_reason \<Rightarrow> bytes" where
  "decision_reason_name MatchingConfirmMarker = ''matching_confirm_marker''"
| "decision_reason_name ReasonOutgoingStillInstalled = ''outgoing_still_installed''"
| "decision_reason_name MarkerDeadlineExpired = ''marker_deadline_expired''"
| "decision_reason_name CrashThresholdReached = ''crash_threshold_reached''"
| "decision_reason_name ReasonMatchesNeither = ''binary_matches_neither''"
| "decision_reason_name PreviousIdentityUnassertable = ''previous_identity_unassertable''"
| "decision_reason_name PreviousBuildWithdrawn = ''previous_build_withdrawn''"
| "decision_reason_name TrustGenerationUnreadable = ''trust_generation_unreadable''"

definition all_decision_reasons :: "decision_reason list" where
  "all_decision_reasons =
     [MatchingConfirmMarker, ReasonOutgoingStillInstalled, MarkerDeadlineExpired, CrashThresholdReached,
      ReasonMatchesNeither, PreviousIdentityUnassertable, PreviousBuildWithdrawn, TrustGenerationUnreadable]"

definition is_lowercase_sha256_hex :: "bytes \<Rightarrow> bool" where
  "is_lowercase_sha256_hex hex \<longleftrightarrow> length hex = 64 \<and> list_all (\<lambda>c. hex_nibble c \<noteq> None) hex"

definition serialize_sha256_hex :: "bytes \<Rightarrow> json option" where
  "serialize_sha256_hex hex = (if is_lowercase_sha256_hex hex then Some (JStr hex) else None)"

definition deserialize_sha256_hex :: "json \<Rightarrow> bytes option" where
  "deserialize_sha256_hex v =
     Option.bind (as_str v) (\<lambda>hex. if is_lowercase_sha256_hex hex then Some hex else None)"

abbreviation number_u32 :: "u32 \<Rightarrow> json" where "number_u32 n \<equiv> JNum (JPos (ucast n))"
abbreviation number_u64 :: "u64 \<Rightarrow> json" where "number_u64 n \<equiv> JNum (JPos n)"

subsection \<open>Writers\<close>

definition encode_entry :: "decision_path_entry \<Rightarrow> json" where
  "encode_entry e = JObj [(''unit'', JStr (dp_unit e)), (''state'', JStr (decision_unit_state_name (dp_state e)))]"

definition encode_self_test :: "self_test_record \<Rightarrow> json" where
  "encode_self_test r = JObj
     [(''format'', number_u32 (st_format r)), (''nonce'', JStr (st_nonce r)), (''written_at'', number_u64 (st_written_at r)),
      (''supervisor_version'', JStr (st_supervisor_version r)),
      (''decision_path'', JArr (map encode_entry (st_decision_path r)))]"

definition encode_build :: "build_identity \<Rightarrow> json" where
  "encode_build b = JObj [(''version'', JStr (bi_version b)), (''commit'', JStr (bi_commit b))]"

definition encode_digest :: "binary_digest \<Rightarrow> json option" where
  "encode_digest d = map_option (\<lambda>hex. JObj
     [(''algorithm'', JStr (digest_algorithm_name (bd_algorithm d))), (''hex'', hex)]) (serialize_sha256_hex (bd_hex d))"

definition serialize_report_request_format :: "u32 \<Rightarrow> json option" where
  "serialize_report_request_format n = (if n = FORMAT then Some (number_u32 n) else None)"

definition encode_report_request :: "report_request \<Rightarrow> json option" where
  "encode_report_request r =
     Option.bind (serialize_report_request_format (rq_format r)) (\<lambda>n.
     map_option (\<lambda>d. JObj [(''format'', n), (''status_digest'', d)]) (encode_digest (rq_status_digest r)))"

definition encode_arm :: "arm_record \<Rightarrow> json option" where
  "encode_arm r =
     Option.bind (encode_digest (ar_incoming_digest r)) (\<lambda>incoming.
     map_option (\<lambda>outgoing. JObj
       [(''format'', number_u32 (ar_format r)), (''incoming'', encode_build (ar_incoming r)),
        (''outgoing'', encode_build (ar_outgoing r)), (''incoming_digest'', incoming), (''outgoing_digest'', outgoing),
        (''policy'', JStr (rollback_policy_name (ar_policy r))),
        (''deadline_epoch_seconds'', number_u64 (ar_deadline_epoch_seconds r))])
       (encode_digest (ar_outgoing_digest r)))"

definition encode_confirm :: "confirm_marker \<Rightarrow> json" where
  "encode_confirm r = JObj [(''format'', number_u32 (cm_format r)), (''build'', encode_build (cm_build r))]"

definition encode_observed :: "observed_binary \<Rightarrow> json option" where
  "encode_observed ob = map_option (\<lambda>d. JObj
     [(''digest'', d), (''build'', (case ob_build ob of None \<Rightarrow> JNull | Some b \<Rightarrow> encode_build b))])
     (encode_digest (ob_digest ob))"

definition encode_status :: "status_record \<Rightarrow> json option" where
  "encode_status r = map_option (\<lambda>observed. JObj
     [(''format'', number_u32 (sr_format r)), (''lifecycle'', JStr (lifecycle_name (sr_lifecycle r))),
      (''decision'', JStr (decision_name (sr_decision r))), (''reason'', JStr (decision_reason_name (sr_reason r))),
      (''incoming'', encode_build (sr_incoming r)), (''outgoing'', encode_build (sr_outgoing r)),
      (''observed'', observed), (''supervisor_version'', JStr (sr_supervisor_version r)),
      (''recorded_at_epoch_seconds'', number_u64 (sr_recorded_at_epoch_seconds r))])
     (encode_observed (sr_observed r))"

definition encode_supervisor :: "supervisor_version_marker \<Rightarrow> json" where
  "encode_supervisor r = JObj
     [(''format'', number_u32 (sv_format r)), (''installed_at_epoch_seconds'', number_u64 (sv_installed_at_epoch_seconds r))]"

subsection \<open>Readers\<close>

definition decode_entry :: "json \<Rightarrow> decision_path_entry option" where
  "decode_entry v =
     Option.bind (struct_lenient [''unit'', ''state''] v) (\<lambda>m.
     Option.bind (req_field ''unit'' as_str m) (\<lambda>u.
     Option.bind (req_field ''state'' (decode_enum decision_unit_state_name all_unit_states) m) (\<lambda>s.
     Some \<lparr>dp_unit = u, dp_state = s\<rparr>)))"

definition decode_self_test :: "json \<Rightarrow> self_test_record option" where
  "decode_self_test v =
     Option.bind (struct_lenient [''format'', ''nonce'', ''written_at'', ''supervisor_version'', ''decision_path''] v) (\<lambda>m.
     Option.bind (req_field ''format'' as_u32 m) (\<lambda>format.
     Option.bind (req_field ''nonce'' as_str m) (\<lambda>nonce.
     Option.bind (req_field ''written_at'' as_u64 m) (\<lambda>written_at.
     Option.bind (req_field ''supervisor_version'' as_str m) (\<lambda>version.
     Option.bind (req_field ''decision_path'' (decode_vec decode_entry) m) (\<lambda>path.
     Some \<lparr>st_format = format, st_nonce = nonce, st_written_at = written_at, st_supervisor_version = version,
       st_decision_path = path\<rparr>))))))"

definition decode_build :: "json \<Rightarrow> build_identity option" where
  "decode_build v =
     Option.bind (struct_lenient [''version'', ''commit''] v) (\<lambda>m.
     Option.bind (req_field ''version'' as_str m) (\<lambda>version.
     Option.bind (req_field ''commit'' as_str m) (\<lambda>commit.
     Some \<lparr>bi_version = version, bi_commit = commit\<rparr>)))"

definition digest_of :: "(bytes \<Rightarrow> json option) \<Rightarrow> binary_digest option" where
  "digest_of m =
     Option.bind (req_field ''algorithm'' (decode_enum digest_algorithm_name [Sha256]) m) (\<lambda>algorithm.
     Option.bind (req_field ''hex'' deserialize_sha256_hex m) (\<lambda>hex.
     Some \<lparr>bd_algorithm = algorithm, bd_hex = hex\<rparr>))"

definition decode_digest :: "json \<Rightarrow> binary_digest option" where
  "decode_digest v = Option.bind (struct_lenient [''algorithm'', ''hex''] v) digest_of"

definition deserialize_report_request_digest :: "json \<Rightarrow> binary_digest option" where
  "deserialize_report_request_digest v = Option.bind (struct_members [''algorithm'', ''hex''] v) digest_of"

definition decode_report_request :: "json \<Rightarrow> report_request option" where
  "decode_report_request v =
     Option.bind (struct_members [''format'', ''status_digest''] v) (\<lambda>m.
     Option.bind (req_field ''format'' as_u32 m) (\<lambda>format.
     Option.bind (req_field ''status_digest'' deserialize_report_request_digest m) (\<lambda>digest.
     Some \<lparr>rq_format = format, rq_status_digest = digest\<rparr>)))"

definition decode_arm :: "json \<Rightarrow> arm_record option" where
  "decode_arm v =
     Option.bind (struct_lenient [''format'', ''incoming'', ''outgoing'', ''incoming_digest'', ''outgoing_digest'', ''policy'',
       ''deadline_epoch_seconds''] v) (\<lambda>m.
     Option.bind (req_field ''format'' as_u32 m) (\<lambda>format.
     Option.bind (req_field ''incoming'' decode_build m) (\<lambda>incoming.
     Option.bind (req_field ''outgoing'' decode_build m) (\<lambda>outgoing.
     Option.bind (req_field ''incoming_digest'' decode_digest m) (\<lambda>incoming_digest.
     Option.bind (req_field ''outgoing_digest'' decode_digest m) (\<lambda>outgoing_digest.
     Option.bind (req_field ''policy'' (decode_enum rollback_policy_name [Rollback, Hold]) m) (\<lambda>policy.
     Option.bind (req_field ''deadline_epoch_seconds'' as_u64 m) (\<lambda>deadline.
     Some \<lparr>ar_format = format, ar_incoming = incoming, ar_outgoing = outgoing, ar_incoming_digest = incoming_digest,
       ar_outgoing_digest = outgoing_digest, ar_policy = policy, ar_deadline_epoch_seconds = deadline\<rparr>))))))))"

definition decode_confirm :: "json \<Rightarrow> confirm_marker option" where
  "decode_confirm v =
     Option.bind (struct_lenient [''format'', ''build''] v) (\<lambda>m.
     Option.bind (req_field ''format'' as_u32 m) (\<lambda>format.
     Option.bind (req_field ''build'' decode_build m) (\<lambda>build.
     Some \<lparr>cm_format = format, cm_build = build\<rparr>)))"

text \<open>An \<open>Option\<close> member may be missing from an object, not from the positional form.\<close>

definition decode_option :: "(json \<Rightarrow> 'a option) \<Rightarrow> json \<Rightarrow> 'a option option" where
  "decode_option rd v = (if v = JNull then Some None else map_option Some (rd v))"

fun positional_full :: "nat \<Rightarrow> json \<Rightarrow> bool" where
  "positional_full n (JArr vs) \<longleftrightarrow> length vs = n"
| "positional_full n _ \<longleftrightarrow> True"

definition decode_observed :: "json \<Rightarrow> observed_binary option" where
  "decode_observed v =
     (if \<not> positional_full 2 v then None
      else
     Option.bind (struct_lenient [''digest'', ''build''] v) (\<lambda>m.
     Option.bind (req_field ''digest'' decode_digest m) (\<lambda>digest.
     Option.bind (opt_field None ''build'' (decode_option decode_build) m) (\<lambda>build.
     Some \<lparr>ob_digest = digest, ob_build = build\<rparr>))))"

definition decode_status :: "json \<Rightarrow> status_record option" where
  "decode_status v =
     Option.bind (struct_lenient [''format'', ''lifecycle'', ''decision'', ''reason'', ''incoming'', ''outgoing'', ''observed'',
       ''supervisor_version'', ''recorded_at_epoch_seconds''] v) (\<lambda>m.
     Option.bind (req_field ''format'' as_u32 m) (\<lambda>format.
     Option.bind (req_field ''lifecycle'' (decode_enum lifecycle_name all_lifecycles) m) (\<lambda>lifecycle.
     Option.bind (req_field ''decision'' (decode_enum decision_name all_decisions) m) (\<lambda>decision.
     Option.bind (req_field ''reason'' (decode_enum decision_reason_name all_decision_reasons) m) (\<lambda>reason.
     Option.bind (req_field ''incoming'' decode_build m) (\<lambda>incoming.
     Option.bind (req_field ''outgoing'' decode_build m) (\<lambda>outgoing.
     Option.bind (req_field ''observed'' decode_observed m) (\<lambda>observed.
     Option.bind (req_field ''supervisor_version'' as_str m) (\<lambda>version.
     Option.bind (req_field ''recorded_at_epoch_seconds'' as_u64 m) (\<lambda>recorded_at.
     Some \<lparr>sr_format = format, sr_lifecycle = lifecycle, sr_decision = decision, sr_reason = reason, sr_incoming = incoming,
       sr_outgoing = outgoing, sr_observed = observed, sr_supervisor_version = version,
       sr_recorded_at_epoch_seconds = recorded_at\<rparr>))))))))))"

definition decode_supervisor :: "json \<Rightarrow> supervisor_version_marker option" where
  "decode_supervisor v =
     Option.bind (struct_lenient [''format'', ''installed_at_epoch_seconds''] v) (\<lambda>m.
     Option.bind (req_field ''format'' as_u32 m) (\<lambda>format.
     Option.bind (req_field ''installed_at_epoch_seconds'' as_u64 m) (\<lambda>installed_at.
     Some \<lparr>sv_format = format, sv_installed_at_epoch_seconds = installed_at\<rparr>)))"

section \<open>Report requests\<close>

definition status_digest :: "(bytes \<Rightarrow> bytes) \<Rightarrow> bytes \<Rightarrow> binary_digest" where
  "status_digest sha256 status_bytes = \<lparr>bd_algorithm = Sha256, bd_hex = to_hex (sha256 status_bytes)\<rparr>"

definition validate_report_request ::
  "(bytes \<Rightarrow> json option) \<Rightarrow> (bytes \<Rightarrow> bytes) \<Rightarrow> report_request \<Rightarrow> bytes option \<Rightarrow> report_request_validity" where
  "validate_report_request parse sha256 request status =
     (if rq_format request \<noteq> FORMAT then UnsupportedFormat
      else case status of
        None \<Rightarrow> MissingStatusRecord
      | Some status_bytes \<Rightarrow>
          if Option.bind (parse status_bytes) decode_status = None then InvalidStatusRecord
          else if rq_status_digest request \<noteq> status_digest sha256 status_bytes then StatusDigestMismatch
          else RequestValid)"

end
