(* ===== verification/Selfupdate_Contract_Correct.thy ===== *)
theory Selfupdate_Contract_Correct
  imports Selfupdate_Contract
begin

text \<open>
  What the two programs that share the contract rely on: what one writes the other reads back, added members
  pass where the contract lets them, and a report request binds one status record.
\<close>

lemma as_u32_number [simp]: "as_u32 (number_u32 n) = Some n"
proof -
  have "unat (ucast n :: u64) = unat n" by (simp add: unsigned_ucast_eq take_bit_nat_eq_self_iff less_le_trans [OF unsigned_less])
  then show ?thesis using unsigned_less [of n, where ?'a = nat] by (simp add: as_u32_def u32_try_from_def)
qed

lemma enum_names [simp]:
  shows "decode_enum decision_unit_state_name all_unit_states (JStr (decision_unit_state_name s)) = Some s"
    and "decode_enum digest_algorithm_name [Sha256] (JStr (digest_algorithm_name a)) = Some a"
    and "decode_enum rollback_policy_name [Rollback, Hold] (JStr (rollback_policy_name p)) = Some p"
    and "decode_enum lifecycle_name all_lifecycles (JStr (lifecycle_name l)) = Some l"
    and "decode_enum decision_name all_decisions (JStr (decision_name d)) = Some d"
    and "decode_enum decision_reason_name all_decision_reasons (JStr (decision_reason_name r)) = Some r"
proof -
  show "decode_enum decision_unit_state_name all_unit_states (JStr (decision_unit_state_name s)) = Some s"
    by (cases s) (simp_all add: decode_enum_def all_unit_states_def)
  show "decode_enum digest_algorithm_name [Sha256] (JStr (digest_algorithm_name a)) = Some a"
    by (cases a) (simp add: decode_enum_def)
  show "decode_enum rollback_policy_name [Rollback, Hold] (JStr (rollback_policy_name p)) = Some p"
    by (cases p) (simp_all add: decode_enum_def)
  show "decode_enum lifecycle_name all_lifecycles (JStr (lifecycle_name l)) = Some l"
    by (cases l) (simp_all add: decode_enum_def all_lifecycles_def)
  show "decode_enum decision_name all_decisions (JStr (decision_name d)) = Some d"
    by (cases d) (simp_all add: decode_enum_def all_decisions_def)
  show "decode_enum decision_reason_name all_decision_reasons (JStr (decision_reason_name r)) = Some r"
    by (cases r) (simp_all add: decode_enum_def all_decision_reasons_def)
qed

lemma decode_encode_build [simp]: "decode_build (encode_build b) = Some b"
  by (simp add: decode_build_def encode_build_def req_field_def)

lemma decode_encode_digest:
  assumes "encode_digest d = Some j"
  shows "decode_digest j = Some d" and "deserialize_report_request_digest j = Some d"
  using assms
  by (auto simp: encode_digest_def serialize_sha256_hex_def decode_digest_def deserialize_report_request_digest_def
      digest_of_def req_field_def deserialize_sha256_hex_def split: if_splits)

lemma decode_encode_entry [simp]: "decode_entry (encode_entry e) = Some e"
  by (simp add: decode_entry_def encode_entry_def req_field_def)

lemma decode_entries [simp]: "decode_vec decode_entry (JArr (map encode_entry es)) = Some es"
proof -
  have "decode_all decode_entry (map encode_entry es) = Some es" by (induction es) auto
  then show ?thesis by (simp add: decode_vec_def)
qed

lemma encode_build_not_null [simp]: "encode_build b \<noteq> JNull"
  by (simp add: encode_build_def)

lemma decode_encode_observed: "encode_observed ob = Some j \<Longrightarrow> decode_observed j = Some ob"
  by (cases ob; cases "ob_build ob")
     (auto simp: encode_observed_def decode_observed_def req_field_def opt_field_def decode_option_def
       decode_encode_digest(1))

lemma contract_roundtrip_parts:
  "decode_self_test (encode_self_test t) = Some t"
  "encode_arm a = Some j \<Longrightarrow> decode_arm j = Some a"
  "decode_confirm (encode_confirm c) = Some c"
  "encode_status s = Some j \<Longrightarrow> decode_status j = Some s"
  "decode_supervisor (encode_supervisor v) = Some v"
  "encode_report_request q = Some j \<Longrightarrow> decode_report_request j = Some q"
proof -
  show "decode_self_test (encode_self_test t) = Some t"
    by (simp add: decode_self_test_def encode_self_test_def req_field_def)
  show "encode_arm a = Some j \<Longrightarrow> decode_arm j = Some a"
    by (auto simp: encode_arm_def decode_arm_def req_field_def Option.bind_eq_Some_conv decode_encode_digest(1))
  show "decode_confirm (encode_confirm c) = Some c"
    by (simp add: decode_confirm_def encode_confirm_def req_field_def)
  show "encode_status s = Some j \<Longrightarrow> decode_status j = Some s"
    by (auto simp: encode_status_def decode_status_def req_field_def decode_encode_observed)
  show "decode_supervisor (encode_supervisor v) = Some v"
    by (simp add: decode_supervisor_def encode_supervisor_def req_field_def)
  show "encode_report_request q = Some j \<Longrightarrow> decode_report_request j = Some q"
    by (auto simp: encode_report_request_def serialize_report_request_format_def decode_report_request_def req_field_def
        Option.bind_eq_Some_conv decode_encode_digest(2) split: if_splits)
qed

text \<open>C32: Whatever record of the contract one program writes, the other reads back exactly, and a record that
  could not be read back, one with a digest that is not lowercase hexadecimal of 64 characters or a report
  request of another revision, is never written.\<close>

theorem contract_roundtrip:
  "decode_self_test (encode_self_test t) = Some t \<and>
   decode_confirm (encode_confirm c) = Some c \<and>
   decode_supervisor (encode_supervisor v) = Some v \<and>
   (\<forall>j. encode_arm a = Some j \<longrightarrow> decode_arm j = Some a) \<and>
   (\<forall>j. encode_status s = Some j \<longrightarrow> decode_status j = Some s) \<and>
   (\<forall>j. encode_report_request q = Some j \<longrightarrow> decode_report_request j = Some q) \<and>
   (encode_arm a = None \<longleftrightarrow>
      \<not> (is_lowercase_sha256_hex (bd_hex (ar_incoming_digest a)) \<and> is_lowercase_sha256_hex (bd_hex (ar_outgoing_digest a)))) \<and>
   (encode_report_request q = None \<longleftrightarrow>
      \<not> (rq_format q = FORMAT \<and> is_lowercase_sha256_hex (bd_hex (rq_status_digest q))))"
proof -
  have "encode_digest d = None \<longleftrightarrow> \<not> is_lowercase_sha256_hex (bd_hex d)" for d
    by (simp add: encode_digest_def serialize_sha256_hex_def)
  then have "encode_arm a = None \<longleftrightarrow>
      \<not> (is_lowercase_sha256_hex (bd_hex (ar_incoming_digest a)) \<and> is_lowercase_sha256_hex (bd_hex (ar_outgoing_digest a)))"
    "encode_report_request q = None \<longleftrightarrow>
      \<not> (rq_format q = FORMAT \<and> is_lowercase_sha256_hex (bd_hex (rq_status_digest q)))"
    by (auto simp: encode_arm_def encode_report_request_def serialize_report_request_format_def Option.bind_eq_None_conv)
  then show ?thesis using contract_roundtrip_parts by blast
qed

theorem contract_roundtrip_witness:
  "\<exists>j. encode_report_request \<lparr>rq_format = FORMAT, rq_status_digest = \<lparr>bd_algorithm = Sha256, bd_hex = replicate 64 CHR ''a''\<rparr>\<rparr> = Some j \<and>
     decode_report_request j = Some \<lparr>rq_format = FORMAT, rq_status_digest = \<lparr>bd_algorithm = Sha256, bd_hex = replicate 64 CHR ''a''\<rparr>\<rparr>"
proof -
  have "is_lowercase_sha256_hex (replicate 64 CHR ''a'')" by code_simp
  then show ?thesis
    using contract_roundtrip [of t c v a s "\<lparr>rq_format = FORMAT, rq_status_digest = \<lparr>bd_algorithm = Sha256, bd_hex = replicate 64 CHR ''a''\<rparr>\<rparr>" for t c v a s]
    by fastforce
qed

section \<open>Extension members\<close>

lemma struct_lenient_added:
  "k \<notin> set known \<Longrightarrow> struct_lenient known (JObj (ms @ (k, v) # ns)) = struct_lenient known (JObj (ms @ ns))"
  by (simp add: Let_def)

text \<open>A member the contract does not name changes nothing for the readers of arm records, confirmations,
  status records, self-test records and markers, wherever it stands; a report request and its digest refuse it.\<close>

theorem added_members_ignored:
  assumes "k \<notin> {''format'', ''incoming'', ''outgoing'', ''incoming_digest'', ''outgoing_digest'', ''policy'', ''deadline_epoch_seconds'',
    ''build'', ''lifecycle'', ''decision'', ''reason'', ''observed'', ''supervisor_version'', ''recorded_at_epoch_seconds'',
    ''nonce'', ''written_at'', ''decision_path'', ''installed_at_epoch_seconds'', ''status_digest'', ''algorithm'', ''hex''}"
  shows "decode_arm (JObj (ms @ (k, v) # ns)) = decode_arm (JObj (ms @ ns)) \<and>
    decode_confirm (JObj (ms @ (k, v) # ns)) = decode_confirm (JObj (ms @ ns)) \<and>
    decode_status (JObj (ms @ (k, v) # ns)) = decode_status (JObj (ms @ ns)) \<and>
    decode_self_test (JObj (ms @ (k, v) # ns)) = decode_self_test (JObj (ms @ ns)) \<and>
    decode_supervisor (JObj (ms @ (k, v) # ns)) = decode_supervisor (JObj (ms @ ns)) \<and>
    decode_digest (JObj (ms @ (k, v) # ns)) = decode_digest (JObj (ms @ ns)) \<and>
    decode_report_request (JObj (ms @ (k, v) # ns)) = None \<and>
    deserialize_report_request_digest (JObj (ms @ (k, v) # ns)) = None"
proof -
  have "struct_members known (JObj (ms @ (k, v) # ns)) = None" if "k \<notin> set known" for known
    using that by simp
  then have "decode_report_request (JObj (ms @ (k, v) # ns)) = None"
    "deserialize_report_request_digest (JObj (ms @ (k, v) # ns)) = None"
    using assms by (simp_all add: decode_report_request_def deserialize_report_request_digest_def del: struct_members.simps)
  then show ?thesis
    using assms by (simp add: struct_lenient_added decode_arm_def decode_confirm_def decode_status_def decode_self_test_def
        decode_supervisor_def decode_digest_def del: struct_lenient.simps)
qed

theorem added_members_ignored_witness:
  "decode_confirm (JObj [(''format'', number_u32 1), (''note'', JNull), (''build'', encode_build \<lparr>bi_version = ''1'', bi_commit = ''c''\<rparr>)]) =
     Some \<lparr>cm_format = 1, cm_build = \<lparr>bi_version = ''1'', bi_commit = ''c''\<rparr>\<rparr>"
  using added_members_ignored [of "''note''" "[(''format'', number_u32 1)]" JNull "[(''build'', encode_build \<lparr>bi_version = ''1'', bi_commit = ''c''\<rparr>)]"]
    contract_roundtrip_parts(3) [of "\<lparr>cm_format = 1, cm_build = \<lparr>bi_version = ''1'', bi_commit = ''c''\<rparr>\<rparr>"]
  by (simp add: encode_confirm_def del: struct_lenient.simps struct_members.simps)

lemma instance_name_unique:
  "self_test_instance_unit_name namespace nonce = self_test_instance_unit_name namespace nonce' \<longleftrightarrow> nonce = nonce'"
  by (simp add: self_test_instance_unit_name_def)

lemma binary_directory_holds_binary: "path_join binary_directory ''roxyd'' = binary_path"
  by (simp add: path_join_def binary_directory_def path_parent_def binary_path_def ROXYD_BINARY_def)

end
