(* ===== verification/Content.thy ===== *)
theory Content
  imports Limits
begin

text \<open>
  What every reader of untrusted image content shares (\<open>src/content.rs\<close>, \<open>src/content/counting.rs\<close>): faults,
  the latch that replays the first of them, budgets, and the counting reader every source is read through.
  A source is what it answers to a read, after the interrupted attempts the reader repeats: at most the bytes
  asked for, none at its end, or a fault. An I/O error is its kind.
\<close>

section \<open>Faults\<close>

datatype tar_field =
    FieldName | FieldMode | FieldUid | FieldGid | FieldSize | FieldMtime | FieldChecksum | FieldLinkname
  | FieldDevMajor | FieldDevMinor | FieldPrefix

datatype content_pax_key =
    KeyPath | KeyLinkpath | KeySize | KeyUid | KeyGid | KeyUname | KeyGname | KeyMtime | KeyAtime | KeyCtime | KeyXattr

datatype content_gzip_fault = HeaderMagic | HeaderMethod | HeaderReservedFlags | HeaderCrc

datatype malformed_reason =
    MR_Truncated
  | MR_TarChecksum
  | MR_TarNumericField tar_field
  | MR_TarNameField tar_field
  | MR_OffsetOverflow
  | MR_TrailingData
  | MR_ZeroTailTooLong
  | MR_UnsafePath
  | MR_DuplicatePath
  | MR_PathConflict
  | MR_NonRegularWithData
  | MR_PaxRecord
  | MR_PaxDuplicateKey
  | MR_PaxValue content_pax_key
  | MR_ExtensionPayload
  | MR_DuplicateExtension
  | MR_ConflictingAuthority
  | MR_DanglingExtension
  | MR_LinkOnNonLink
  | MR_GzipHeader content_gzip_fault
  | MR_DeflateData
  | MR_GzipCrc32
  | MR_GzipIsize
  | MR_GzipTrailingData
  | MR_JsonSyntax
  | MR_JsonDuplicateKey
  | MR_JsonShape

datatype unsupported_feature = UN_TarFormat | UN_EntryType byte | UN_PaxKey | UN_ConcatenatedGzipMember

datatype content_fault =
    LimitExceeded limit_resource u64
  | Malformed malformed_reason
  | Unsupported unsupported_feature
  | ContentIo bytes

definition exceeded :: "resource_limit \<Rightarrow> content_fault" where
  "exceeded limit = LimitExceeded (rl_resource limit) (rl_max limit)"

text \<open>The latch: the first fault is kept and reported by every later call.\<close>

type_synonym latch = "content_fault option"

definition latch_check :: "latch \<Rightarrow> content_fault + unit" where
  "latch_check l = (case l of None \<Rightarrow> Inr () | Some fault \<Rightarrow> Inl fault)"

definition latch_record :: "content_fault \<Rightarrow> latch \<Rightarrow> latch" where
  "latch_record fault l = (if l = None then Some fault else l)"

section \<open>Budgets\<close>

record budget =
  bg_resource :: limit_resource
  bg_limit :: u64
  bg_used :: u64

definition budget_new :: "resource_limit \<Rightarrow> budget" where
  "budget_new limit = \<lparr>bg_resource = rl_resource limit, bg_limit = rl_max limit, bg_used = 0\<rparr>"

definition budget_remaining :: "budget \<Rightarrow> u64" where
  "budget_remaining b = saturating_sub (bg_limit b) (bg_used b)"

definition budget_exceeded :: "budget \<Rightarrow> content_fault" where
  "budget_exceeded b = LimitExceeded (bg_resource b) (bg_limit b)"

definition budget_check :: "u64 \<Rightarrow> budget \<Rightarrow> content_fault + unit" where
  "budget_check n b = (if n \<le> budget_remaining b then Inr () else Inl (budget_exceeded b))"

definition budget_charge :: "u64 \<Rightarrow> budget \<Rightarrow> content_fault + budget" where
  "budget_charge n b =
     bind_res (budget_check n b) (\<lambda>_.
     bind_res (ok_or (budget_exceeded b) (checked_add (bg_used b) n)) (\<lambda>used.
     Inr (b\<lparr>bg_used := used\<rparr>)))"

fun charge_each :: "u64 \<Rightarrow> budget list \<Rightarrow> content_fault + budget list" where
  "charge_each n [] = Inr []"
| "charge_each n (b # bs) =
     bind_res (budget_charge n b) (\<lambda>b'. bind_res (charge_each n bs) (\<lambda>bs'. Inr (b' # bs')))"

definition charge_all :: "budget list \<Rightarrow> u64 \<Rightarrow> content_fault + budget list" where
  "charge_all budgets n =
     (case find (\<lambda>b. \<not> is_ok (budget_check n b)) budgets of
        Some b \<Rightarrow> Inl (budget_exceeded b)
      | None \<Rightarrow> charge_each n budgets)"

text \<open>On a 64-bit target every \<open>u64\<close> is a \<open>usize\<close>.\<close>

definition alloc_len :: "u64 \<Rightarrow> resource_limit \<Rightarrow> content_fault + nat" where
  "alloc_len n limit = (if rl_max limit < n then Inl (exceeded limit) else Inr (unat n))"

section \<open>The counting reader\<close>

type_synonym 's source = "nat \<Rightarrow> 's \<Rightarrow> (content_fault + bytes) \<times> 's"

record 's counting =
  cr_source :: 's
  cr_own :: budget
  cr_shared :: "budget list"
  cr_copy_buffer :: nat
  cr_position :: u64
  cr_latch :: latch

definition counting_new :: "'s \<Rightarrow> resource_limit \<Rightarrow> budget list \<Rightarrow> nat \<Rightarrow> 's counting" where
  "counting_new source own shared copy_buffer =
     \<lparr>cr_source = source, cr_own = budget_new own, cr_shared = shared, cr_copy_buffer = max copy_buffer 1,
      cr_position = 0, cr_latch = None\<rparr>"

definition chain :: "'s counting \<Rightarrow> budget list" where
  "chain r = cr_own r # cr_shared r"

definition counting_remaining :: "'s counting \<Rightarrow> u64" where
  "counting_remaining r = foldl min (- 1) (map budget_remaining (chain r))"

definition check_available :: "u64 \<Rightarrow> 's counting \<Rightarrow> content_fault + unit" where
  "check_available n r =
     (case find (\<lambda>b. \<not> is_ok (budget_check n b)) (chain r) of
        Some b \<Rightarrow> Inl (budget_exceeded b)
      | None \<Rightarrow> Inr ())"

text \<open>The chain is charged in order. After \<open>check_available\<close> no charge is refused.\<close>

definition charge_chain :: "u64 \<Rightarrow> 's counting \<Rightarrow> content_fault + 's counting" where
  "charge_chain n r =
     bind_res (budget_charge n (cr_own r)) (\<lambda>own.
     bind_res (charge_each n (cr_shared r)) (\<lambda>shared.
     Inr (r\<lparr>cr_own := own, cr_shared := shared, cr_position := saturating_add (cr_position r) n\<rparr>)))"

definition read_counted :: "'s source \<Rightarrow> nat \<Rightarrow> 's counting \<Rightarrow> (content_fault + bytes) \<times> 's counting" where
  "read_counted rd buf_len r =
     (if buf_len = 0 then (Inr [], r)
      else
        let remaining = counting_remaining r in
        if remaining = 0 then
          (case rd 1 (cr_source r) of
             (Inl fault, s) \<Rightarrow> (Inl fault, r\<lparr>cr_source := s\<rparr>)
           | (Inr probe, s) \<Rightarrow>
               if probe = [] then (Inr [], r\<lparr>cr_source := s\<rparr>)
               else (Inl (case check_available 1 r of Inl fault \<Rightarrow> fault | Inr _ \<Rightarrow> budget_exceeded (cr_own r)),
                     r\<lparr>cr_source := s\<rparr>))
        else
          let len = chunk_len (min buf_len (cr_copy_buffer r)) remaining in
          case rd len (cr_source r) of
            (Inl fault, s) \<Rightarrow> (Inl fault, r\<lparr>cr_source := s\<rparr>)
          | (Inr window, s) \<Rightarrow>
              if len < length window then (Inl (ContentIo ''InvalidData''), r\<lparr>cr_source := s\<rparr>)
              else
                (case bind_res (check_available (widen (length window)) r) (\<lambda>_.
                        charge_chain (widen (length window)) (r\<lparr>cr_source := s\<rparr>)) of
                   Inl fault \<Rightarrow> (Inl fault, r\<lparr>cr_source := s\<rparr>)
                 | Inr r' \<Rightarrow> (Inr window, r')))"

definition counting_read :: "'s source \<Rightarrow> nat \<Rightarrow> 's counting \<Rightarrow> (content_fault + bytes) \<times> 's counting" where
  "counting_read rd buf_len r =
     (case latch_check (cr_latch r) of
        Inl fault \<Rightarrow> (Inl fault, r)
      | Inr _ \<Rightarrow>
          (case read_counted rd buf_len r of
             (Inl fault, r') \<Rightarrow> (Inl fault, r'\<lparr>cr_latch := latch_record fault (cr_latch r')\<rparr>)
           | (Inr window, r') \<Rightarrow> (Inr window, r')))"

text \<open>\<open>read_full\<close>: the buffer is filled, or the input ends early.\<close>

function read_full :: "'s source \<Rightarrow> nat \<Rightarrow> 's \<Rightarrow> (content_fault + bytes) \<times> 's" where
  "read_full rd len s =
     (if len = 0 then (Inr [], s)
      else
        case rd len s of
          (Inl fault, s') \<Rightarrow> (Inl fault, s')
        | (Inr window, s') \<Rightarrow>
            if window = [] then (Inl (Malformed MR_Truncated), s')
            else
              (case read_full rd (len - length window) s' of
                 (Inl fault, s'') \<Rightarrow> (Inl fault, s'')
               | (Inr rest, s'') \<Rightarrow> (Inr (window @ rest), s'')))"
  by pat_completeness auto
termination by (relation "measure (\<lambda>(_, len, _). len)") (auto simp: Suc_le_eq diff_less)

declare read_full.simps [simp del]

end
