(* ===== verification/Json_Scan.thy ===== *)
theory Json_Scan
  imports Content Utf8
begin

text \<open>
  The strict JSON reader of \<open>src/content/json.rs\<close>: the bounded read of a document and the one scan over it,
  a machine with a stack of open containers and the keys seen in each object. What is left to read is the
  state; \<open>serde_json\<close>, which reads the document afterwards, is a parameter.
\<close>

section \<open>Reading a document\<close>

definition json_syntax :: content_fault where "json_syntax = Malformed MR_JsonSyntax"

text \<open>
  \<open>read_bounded\<close>: each step asks for at most the copy buffer or what is left of the allowance, or for one
  byte once the allowance is spent. The loop ends because every step but the last takes from the allowance;
  \<open>fuel\<close> is one more than the allowance. A reservation that cannot be made is not modelled.
\<close>

fun read_bounded_loop ::
  "nat \<Rightarrow> 's source \<Rightarrow> nat \<Rightarrow> bytes \<Rightarrow> 's counting \<Rightarrow> ((content_fault + bytes) \<times> 's counting) option" where
  "read_bounded_loop 0 rd copy_buffer accepted r = None"
| "read_bounded_loop (Suc fuel) rd copy_buffer accepted r =
     (let remaining = counting_remaining r;
          k = (if remaining = 0 then 1 else chunk_len copy_buffer remaining)
      in case counting_read rd k r of
           (Inl fault, r') \<Rightarrow> Some (Inl fault, r')
         | (Inr window, r') \<Rightarrow>
             if window = [] then Some (Inr accepted, r')
             else read_bounded_loop fuel rd copy_buffer (accepted @ window) r')"

definition read_bounded ::
  "'s source \<Rightarrow> 's \<Rightarrow> resource_limit \<Rightarrow> budget \<Rightarrow> nat \<Rightarrow> ((content_fault + bytes) \<times> 's counting) option" where
  "read_bounded rd source document whole copy_buffer =
     (let copy_buffer = max copy_buffer 1;
          reader = counting_new source document [whole] copy_buffer
      in read_bounded_loop (Suc (unat (counting_remaining reader))) rd copy_buffer [] reader)"

section \<open>Tokens\<close>

definition json_space :: "byte \<Rightarrow> bool" where
  "json_space c \<longleftrightarrow> c = CHR '' '' \<or> c = CHR 0x09 \<or> c = CHR 0x0A \<or> c = CHR 0x0D"

definition skip_whitespace :: "bytes \<Rightarrow> bytes" where
  "skip_whitespace = dropWhile json_space"

definition hex_value :: "byte \<Rightarrow> nat option" where
  "hex_value c =
     (if CHR ''0'' \<le> c \<and> c \<le> CHR ''9'' then Some (ord c - 48)
      else if CHR ''a'' \<le> c \<and> c \<le> CHR ''f'' then Some (ord c - 87)
      else if CHR ''A'' \<le> c \<and> c \<le> CHR ''F'' then Some (ord c - 55)
      else None)"

fun hex4 :: "bytes \<Rightarrow> (nat \<times> bytes) option" where
  "hex4 (a # b # c # d # rest) =
     Option.bind (hex_value a) (\<lambda>a. Option.bind (hex_value b) (\<lambda>b. Option.bind (hex_value c) (\<lambda>c.
     Option.bind (hex_value d) (\<lambda>d. Some (((a * 16 + b) * 16 + c) * 16 + d, rest)))))"
| "hex4 _ = None"

text \<open>\<open>char::encode_utf8\<close> of a scalar value.\<close>

definition encode_utf8 :: "nat \<Rightarrow> bytes" where
  "encode_utf8 n =
     (if n < 0x80 then [char_of n]
      else if n < 0x800 then [char_of (0xC0 + n div 0x40), char_of (0x80 + n mod 0x40)]
      else if n < 0x10000 then
        [char_of (0xE0 + n div 0x1000), char_of (0x80 + n div 0x40 mod 0x40), char_of (0x80 + n mod 0x40)]
      else
        [char_of (0xF0 + n div 0x40000), char_of (0x80 + n div 0x1000 mod 0x40), char_of (0x80 + n div 0x40 mod 0x40),
         char_of (0x80 + n mod 0x40)])"

definition unicode_escape :: "bytes \<Rightarrow> (bytes \<times> bytes) option" where
  "unicode_escape bs =
     Option.bind (hex4 bs) (\<lambda>(unit, rest).
     if 0xD800 \<le> unit \<and> unit \<le> 0xDBFF then
       (case rest of
          s # u # rest' \<Rightarrow>
            if s = CHR 0x5C \<and> u = CHR ''u'' then
              Option.bind (hex4 rest') (\<lambda>(low, rest'').
              if 0xDC00 \<le> low \<and> low \<le> 0xDFFF
              then Some (encode_utf8 (0x10000 + (unit - 0xD800) * 1024 + (low - 0xDC00)), rest'') else None)
            else None
        | _ \<Rightarrow> None)
     else if 0xDC00 \<le> unit \<and> unit \<le> 0xDFFF then None
     else Some (encode_utf8 unit, rest))"

fun json_escape :: "bytes \<Rightarrow> (bytes \<times> bytes) option" where
  "json_escape [] = None"
| "json_escape (c # rest) =
     (if c = CHR 0x22 \<or> c = CHR 0x5C \<or> c = CHR ''/'' then Some ([c], rest)
      else if c = CHR ''b'' then Some ([CHR 0x08], rest)
      else if c = CHR ''f'' then Some ([CHR 0x0C], rest)
      else if c = CHR ''n'' then Some ([CHR 0x0A], rest)
      else if c = CHR ''r'' then Some ([CHR 0x0D], rest)
      else if c = CHR ''t'' then Some ([CHR 0x09], rest)
      else if c = CHR ''u'' then unicode_escape rest
      else None)"

lemma hex4_shorter: "hex4 bs = Some (n, rest) \<Longrightarrow> length rest < length bs"
  by (induction bs rule: hex4.induct) (auto simp: Option.bind_eq_Some_conv)

lemma json_escape_shorter: "json_escape bs = Some (ch, rest) \<Longrightarrow> length rest < length bs"
  by (cases bs)
     (auto simp: unicode_escape_def Option.bind_eq_Some_conv split: if_splits list.splits dest!: hex4_shorter)

text \<open>The body of a string after its opening quote: its decoded bytes and what follows the closing quote.\<close>

function string_body :: "bytes \<Rightarrow> (bytes \<times> bytes) option" where
  "string_body [] = None"
| "string_body (c # rest) =
     (if c = CHR 0x22 then Some ([], rest)
      else if c = CHR 0x5C then
        (case json_escape rest of
           None \<Rightarrow> None
         | Some (ch, rest') \<Rightarrow>
             (case string_body rest' of None \<Rightarrow> None | Some (decoded, r) \<Rightarrow> Some (ch @ decoded, r)))
      else if ord c < 32 then None
      else (case string_body rest of None \<Rightarrow> None | Some (decoded, r) \<Rightarrow> Some (c # decoded, r)))"
  by pat_completeness auto
termination by (relation "measure length") (auto dest: json_escape_shorter)

lemma string_body_shorter: "string_body bs = Some (k, rest) \<Longrightarrow> length rest < length bs"
  by (induction bs arbitrary: k rest rule: string_body.induct)
     (fastforce split: if_splits option.splits dest: json_escape_shorter)+

text \<open>\<open>string\<close>: the raw body has to be UTF-8, and so has the decoded one when it is asked for.\<close>

definition scan_string :: "bool \<Rightarrow> bytes \<Rightarrow> (bytes \<times> bytes) option" where
  "scan_string decode bs =
     (case string_body bs of
        None \<Rightarrow> None
      | Some (decoded, rest) \<Rightarrow>
          if is_utf8 (take (length bs - length rest - 1) bs) \<and> (decode \<longrightarrow> is_utf8 decoded)
          then Some (decoded, rest) else None)"

definition is_digit :: "byte \<Rightarrow> bool" where
  "is_digit c \<longleftrightarrow> CHR ''0'' \<le> c \<and> c \<le> CHR ''9''"

definition digits :: "bytes \<Rightarrow> bytes" where
  "digits = dropWhile is_digit"

definition required_digits :: "bytes \<Rightarrow> bytes option" where
  "required_digits bs = (case bs of c # _ \<Rightarrow> if is_digit c then Some (digits bs) else None | [] \<Rightarrow> None)"

definition skip_one :: "byte set \<Rightarrow> bytes \<Rightarrow> bytes" where
  "skip_one cs bs = (case bs of c # rest \<Rightarrow> if c \<in> cs then rest else bs | [] \<Rightarrow> [])"

definition scan_integer :: "bytes \<Rightarrow> bytes option" where
  "scan_integer bs =
     (case bs of
        c # rest \<Rightarrow>
          if c = CHR ''0'' then Some rest
          else if is_digit c then Some (digits rest) else None
      | [] \<Rightarrow> None)"

definition scan_fraction :: "bytes \<Rightarrow> bytes option" where
  "scan_fraction bs =
     (case bs of c # rest \<Rightarrow> if c = CHR ''.'' then required_digits rest else Some bs | [] \<Rightarrow> Some [])"

definition scan_exponent :: "bytes \<Rightarrow> bytes option" where
  "scan_exponent bs =
     (case bs of
        c # rest \<Rightarrow>
          if c = CHR ''e'' \<or> c = CHR ''E'' then required_digits (skip_one {CHR ''+'', CHR ''-''} rest) else Some bs
      | [] \<Rightarrow> Some [])"

definition scan_number :: "bytes \<Rightarrow> bytes option" where
  "scan_number bs =
     Option.bind (scan_integer (skip_one {CHR ''-''} bs)) (\<lambda>rest. Option.bind (scan_fraction rest) scan_exponent)"

definition scan_literal :: "bytes \<Rightarrow> bytes \<Rightarrow> bytes option" where
  "scan_literal w bs = (if prefix w bs then Some (drop (length w) bs) else None)"

section \<open>The machine\<close>

datatype frame = ArrayFrame | ObjectFrame "bytes list"

record scanner =
  sc_rest :: bytes
  sc_stack :: "frame list"
  sc_key_bytes :: nat
  sc_containers :: nat
  sc_max_key_bytes :: nat

definition scanner_new :: "bytes \<Rightarrow> scanner" where
  "scanner_new bs = \<lparr>sc_rest = bs, sc_stack = [], sc_key_bytes = 0, sc_containers = 0, sc_max_key_bytes = 0\<rparr>"

text \<open>\<open>open\<close>, with the bracket already seen and not yet taken.\<close>

definition scan_open :: "resource_limit \<Rightarrow> frame \<Rightarrow> scanner \<Rightarrow> content_fault + scanner" where
  "scan_open depth f s =
     (if rl_max depth < saturating_add (widen (length (sc_stack s))) 1 then Inl (exceeded depth)
      else Inr (s\<lparr>sc_rest := tl (sc_rest s), sc_stack := f # sc_stack s,
                 sc_containers := max (sc_containers s) (Suc (length (sc_stack s)))\<rparr>))"

definition scan_close :: "scanner \<Rightarrow> scanner" where
  "scan_close s =
     (case sc_stack s of
        ObjectFrame keys # st \<Rightarrow>
          s\<lparr>sc_stack := st, sc_key_bytes := sc_key_bytes s - sum_list (map length keys)\<rparr>
      | _ # st \<Rightarrow> s\<lparr>sc_stack := st\<rparr>
      | [] \<Rightarrow> s)"

definition scan_key :: "scanner \<Rightarrow> content_fault + scanner" where
  "scan_key s =
     (case sc_rest s of
        [] \<Rightarrow> Inl json_syntax
      | c # rest \<Rightarrow>
          if c \<noteq> CHR 0x22 then Inl json_syntax
          else
            (case scan_string True rest of
               None \<Rightarrow> Inl json_syntax
             | Some (key, rest') \<Rightarrow>
                 (case sc_stack s of
                    ObjectFrame keys # st \<Rightarrow>
                      if key \<in> set keys then Inl (Malformed MR_JsonDuplicateKey)
                      else
                        (let held = sc_key_bytes s + length key in
                         case skip_whitespace rest' of
                           c' # rest'' \<Rightarrow>
                             if c' = CHR '':'' then
                               Inr (s\<lparr>sc_rest := rest'', sc_stack := ObjectFrame (key # keys) # st, sc_key_bytes := held,
                                      sc_max_key_bytes := max (sc_max_key_bytes s) held\<rparr>)
                             else Inl json_syntax
                         | [] \<Rightarrow> Inl json_syntax)
                  | _ \<Rightarrow> Inl json_syntax)))"

datatype scan_mode = AtValue | AfterValue

text \<open>
  One turn of the loops of \<open>run\<close>: at a value, or after one with its containers to close. \<open>Inr None\<close> is the
  end of the document.
\<close>

definition advance_to :: "bytes option \<Rightarrow> scanner \<Rightarrow> content_fault + (scan_mode \<times> scanner) option" where
  "advance_to rest s =
     (case rest of None \<Rightarrow> Inl json_syntax | Some rest \<Rightarrow> Inr (Some (AfterValue, s\<lparr>sc_rest := rest\<rparr>)))"

definition value_step :: "resource_limit \<Rightarrow> scanner \<Rightarrow> content_fault + (scan_mode \<times> scanner) option" where
  "value_step depth s0 =
     (let rest = skip_whitespace (sc_rest s0); s = s0\<lparr>sc_rest := rest\<rparr> in
      case rest of
        [] \<Rightarrow> Inl json_syntax
      | c # after \<Rightarrow>
          if c = CHR ''{'' then
            bind_res (scan_open depth (ObjectFrame []) s) (\<lambda>s.
            (let rest = skip_whitespace (sc_rest s); s = s\<lparr>sc_rest := rest\<rparr> in
             if rest \<noteq> [] \<and> hd rest = CHR ''}'' then Inr (Some (AfterValue, scan_close (s\<lparr>sc_rest := tl rest\<rparr>)))
             else bind_res (scan_key s) (\<lambda>s. Inr (Some (AtValue, s)))))
          else if c = CHR ''['' then
            bind_res (scan_open depth ArrayFrame s) (\<lambda>s.
            (let rest = skip_whitespace (sc_rest s); s = s\<lparr>sc_rest := rest\<rparr> in
             if rest \<noteq> [] \<and> hd rest = CHR '']'' then Inr (Some (AfterValue, scan_close (s\<lparr>sc_rest := tl rest\<rparr>)))
             else Inr (Some (AtValue, s))))
          else if c = CHR 0x22 then advance_to (map_option snd (scan_string False after)) s
          else if c = CHR ''t'' then advance_to (scan_literal ''true'' rest) s
          else if c = CHR ''f'' then advance_to (scan_literal ''false'' rest) s
          else if c = CHR ''n'' then advance_to (scan_literal ''null'' rest) s
          else if c = CHR ''-'' \<or> is_digit c then advance_to (scan_number rest) s
          else Inl json_syntax)"

definition after_step :: "scanner \<Rightarrow> content_fault + (scan_mode \<times> scanner) option" where
  "after_step s0 =
     (let rest = skip_whitespace (sc_rest s0); s = s0\<lparr>sc_rest := rest\<rparr> in
      case sc_stack s of
        [] \<Rightarrow> if rest = [] then Inr None else Inl json_syntax
      | ArrayFrame # _ \<Rightarrow>
          (case rest of
             [] \<Rightarrow> Inl json_syntax
           | c # after \<Rightarrow>
               if c = CHR '','' then Inr (Some (AtValue, s\<lparr>sc_rest := after\<rparr>))
               else if c = CHR '']'' then Inr (Some (AfterValue, scan_close (s\<lparr>sc_rest := after\<rparr>)))
               else Inl json_syntax)
      | ObjectFrame _ # _ \<Rightarrow>
          (case rest of
             [] \<Rightarrow> Inl json_syntax
           | c # after \<Rightarrow>
               if c = CHR '','' then
                 bind_res (scan_key (s\<lparr>sc_rest := skip_whitespace after\<rparr>)) (\<lambda>s. Inr (Some (AtValue, s)))
               else if c = CHR ''}'' then Inr (Some (AfterValue, scan_close (s\<lparr>sc_rest := after\<rparr>)))
               else Inl json_syntax))"

definition scan_step :: "resource_limit \<Rightarrow> scan_mode \<Rightarrow> scanner \<Rightarrow> content_fault + (scan_mode \<times> scanner) option" where
  "scan_step depth mode s = (case mode of AtValue \<Rightarrow> value_step depth s | AfterValue \<Rightarrow> after_step s)"


subsection \<open>Every turn takes something\<close>

lemma length_skip_whitespace: "length (skip_whitespace bs) \<le> length bs"
  by (simp add: skip_whitespace_def length_dropWhile_le)

lemma length_digits: "length (digits bs) \<le> length bs"
  by (simp add: digits_def length_dropWhile_le)

lemma required_digits_shorter: "required_digits bs = Some rest \<Longrightarrow> length rest < length bs"
  by (cases bs) (auto simp: required_digits_def digits_def le_imp_less_Suc length_dropWhile_le split: if_splits)

lemma length_skip_one: "length (skip_one cs bs) \<le> length bs"
  by (cases bs) (auto simp: skip_one_def)

lemma scan_number_shorter:
  assumes "scan_number bs = Some rest"
  shows "length rest < length bs"
proof -
  let ?bs = "skip_one {CHR ''-''} bs"
  obtain r1 r2 where parts: "scan_integer ?bs = Some r1" "scan_fraction r1 = Some r2" "scan_exponent r2 = Some rest"
    using assms by (auto simp: scan_number_def Option.bind_eq_Some_conv)
  have "length r1 < length ?bs" using parts(1)
    by (cases ?bs) (auto simp: scan_integer_def le_imp_less_Suc length_digits split: if_splits)
  moreover have "length r2 \<le> length r1" using parts(2)
    by (cases r1) (auto simp: scan_fraction_def split: if_splits dest: required_digits_shorter)
  moreover have "length rest \<le> length r2"
  proof (cases r2)
    case (Cons c cs)
    then show ?thesis using parts(3) required_digits_shorter length_skip_one [of "{CHR ''+'', CHR ''-''}" cs]
      by (fastforce simp: scan_exponent_def split: if_splits)
  qed (use parts(3) in \<open>simp add: scan_exponent_def\<close>)
  ultimately show ?thesis using length_skip_one [of "{CHR ''-''}" bs] by linarith
qed

lemma scan_string_shorter: "scan_string decode bs = Some (k, rest) \<Longrightarrow> length rest < length bs"
  by (auto simp: scan_string_def split: option.splits if_splits dest: string_body_shorter)

lemma scan_literal_shorter: "scan_literal w bs = Some rest \<Longrightarrow> w \<noteq> [] \<Longrightarrow> length rest < length bs"
  by (auto simp: scan_literal_def prefix_def split: if_splits)

lemma sc_rest_close [simp]: "sc_rest (scan_close s) = sc_rest s"
  by (auto simp: scan_close_def split: list.splits frame.splits)

lemma scan_key_shorter: "scan_key s = Inr s' \<Longrightarrow> length (sc_rest s') < length (sc_rest s)"
proof -
  assume key: "scan_key s = Inr s'"
  then obtain c rest where rest: "sc_rest s = c # rest" "c = CHR 0x22"
    by (auto simp: scan_key_def split: list.splits if_splits)
  then obtain k rest' where string: "scan_string True rest = Some (k, rest')"
    using key by (auto simp: scan_key_def split: option.splits)
  then obtain c' rest'' where "skip_whitespace rest' = c' # rest''" "sc_rest s' = rest''"
    using key rest by (auto simp: scan_key_def Let_def split: list.splits frame.splits if_splits)
  then show ?thesis
    using scan_string_shorter [OF string] length_skip_whitespace [of rest'] rest by simp
qed

lemma scan_open_rest: "scan_open depth f s = Inr s' \<Longrightarrow> sc_rest s' = tl (sc_rest s)"
  by (auto simp: scan_open_def split: if_splits)

lemma advance_to_shorter:
  "advance_to rest s = Inr (Some (mode, s')) \<Longrightarrow> (\<And>r. rest = Some r \<Longrightarrow> length r < n) \<Longrightarrow> length (sc_rest s') < n"
  by (auto simp: advance_to_def split: option.splits)

lemma value_step_shorter:
  assumes "value_step depth s = Inr (Some (mode, s'))"
  shows "length (sc_rest s') < length (sc_rest s)"
proof -
  obtain c after where rest: "skip_whitespace (sc_rest s) = c # after"
    using assms by (cases "skip_whitespace (sc_rest s)") (auto simp: value_step_def Let_def)
  then have len: "length after < length (sc_rest s)" using length_skip_whitespace [of "sc_rest s"] by simp
  have opened: "length (skip_whitespace (sc_rest s1)) < length (sc_rest s)"
    if "scan_open depth f (s\<lparr>sc_rest := c # after\<rparr>) = Inr s1" for f s1
    using scan_open_rest [OF that] length_skip_whitespace [of after] len by simp
  have closed: "length (tl (skip_whitespace (sc_rest s1))) < length (sc_rest s)"
    if "scan_open depth f (s\<lparr>sc_rest := c # after\<rparr>) = Inr s1" for f s1
    using opened [OF that] by simp
  consider "c = CHR ''{''" | "c = CHR ''[''" | "c \<noteq> CHR ''{''" "c \<noteq> CHR ''[''" by blast
  then show ?thesis
  proof cases
    case 1
    then obtain s1 where s1: "scan_open depth (ObjectFrame []) (s\<lparr>sc_rest := c # after\<rparr>) = Inr s1"
      using assms rest by (auto simp: value_step_def Let_def)
    show ?thesis
    proof (cases "skip_whitespace (sc_rest s1) \<noteq> [] \<and> hd (skip_whitespace (sc_rest s1)) = CHR ''}''")
      case True
      then show ?thesis using assms rest 1 s1 closed [OF s1] by (auto simp: value_step_def Let_def)
    next
      case False
      then have "scan_key (s1\<lparr>sc_rest := skip_whitespace (sc_rest s1)\<rparr>) = Inr s'"
        using assms rest 1 s1 by (auto simp: value_step_def Let_def)
      from scan_key_shorter [OF this] show ?thesis using opened [OF s1] by simp
    qed
  next
    case 2
    then obtain s1 where s1: "scan_open depth ArrayFrame (s\<lparr>sc_rest := c # after\<rparr>) = Inr s1"
      using assms rest by (auto simp: value_step_def Let_def)
    then show ?thesis using assms rest 2 closed [OF s1] opened [OF s1] by (auto simp: value_step_def Let_def split: if_splits)
  next
    case 3
    have literal: "scan_literal w (c # after) = Some r \<Longrightarrow> w \<noteq> [] \<Longrightarrow> length r < length (sc_rest s)" for w r
      using scan_literal_shorter [of w "c # after" r] length_skip_whitespace [of "sc_rest s"] rest by simp
    have number: "scan_number (c # after) = Some r \<Longrightarrow> length r < length (sc_rest s)" for r
      using scan_number_shorter [of "c # after" r] length_skip_whitespace [of "sc_rest s"] rest by simp
    have string: "map_option snd (scan_string False after) = Some r \<Longrightarrow> length r < length (sc_rest s)" for r
      using scan_string_shorter [of False after] len by fastforce
    have string: "length (sc_rest s') < length (sc_rest s)"
      if "advance_to (map_option snd (scan_string False after)) s1 = Inr (Some (mode, s'))" for s1
      by (rule advance_to_shorter [OF that]) (rule string)
    show ?thesis
      using assms rest 3 advance_to_shorter [of _ _ mode s' "length (sc_rest s)"] literal number string
      by (auto simp: value_step_def Let_def split: if_splits)
  qed
qed

lemma after_step_shorter:
  assumes "after_step s = Inr (Some (mode, s'))"
  shows "length (sc_rest s') < length (sc_rest s)"
proof -
  obtain f st where stack: "sc_stack s = f # st"
    using assms by (cases "sc_stack s") (auto simp: after_step_def Let_def split: if_splits)
  obtain c after where rest: "skip_whitespace (sc_rest s) = c # after"
    using assms stack by (cases "skip_whitespace (sc_rest s)"; cases f) (auto simp: after_step_def Let_def)
  then have len: "length after < length (sc_rest s)" using length_skip_whitespace [of "sc_rest s"] by simp
  show ?thesis
  proof (cases "f \<noteq> ArrayFrame \<and> c = CHR '',''")
    case True
    then have "scan_key (s\<lparr>sc_rest := skip_whitespace after\<rparr>) = Inr s'"
      using assms stack rest by (cases f) (auto simp: after_step_def Let_def)
    from scan_key_shorter [OF this] show ?thesis using length_skip_whitespace [of after] len by simp
  next
    case False
    then show ?thesis using assms stack rest len by (cases f) (auto simp: after_step_def Let_def split: if_splits)
  qed
qed

lemma scan_step_shorter: "scan_step depth mode s = Inr (Some (mode', s')) \<Longrightarrow> length (sc_rest s') < length (sc_rest s)"
  by (cases mode) (auto simp: scan_step_def dest: value_step_shorter after_step_shorter)

function scan_run :: "resource_limit \<Rightarrow> scan_mode \<Rightarrow> scanner \<Rightarrow> content_fault + scanner" where
  "scan_run depth mode s =
     (case scan_step depth mode s of
        Inl fault \<Rightarrow> Inl fault
      | Inr None \<Rightarrow> Inr s
      | Inr (Some (mode', s')) \<Rightarrow> scan_run depth mode' s')"
  by pat_completeness auto
termination by (relation "measure (\<lambda>(_, _, s). length (sc_rest s))") (auto dest: scan_step_shorter)

declare scan_run.simps [simp del]

record scan_footprint =
  fp_containers :: nat
  fp_key_bytes :: nat

definition scan :: "bytes \<Rightarrow> resource_limit \<Rightarrow> content_fault + scan_footprint" where
  "scan bs depth =
     bind_res (scan_run depth AtValue (scanner_new bs)) (\<lambda>s.
     Inr \<lparr>fp_containers = sc_containers s, fp_key_bytes = sc_max_key_bytes s\<rparr>)"

text \<open>\<open>parse\<close>: the deserializer reads the document only once the scan has passed it.\<close>

definition parse_json ::
  "(bytes \<Rightarrow> 'a option) \<Rightarrow> bytes \<Rightarrow> resource_limit \<Rightarrow> resource_limit \<Rightarrow> content_fault + 'a" where
  "parse_json from_slice bs document depth =
     (if rl_max document < widen (length bs) then Inl (exceeded document)
      else bind_res (scan bs depth) (\<lambda>_. ok_or (Malformed MR_JsonShape) (from_slice bs)))"

end
