(* ===== verification/Content_Correct.thy ===== *)
theory Content_Correct
  imports Json_Scan
begin

text \<open>
  The counting reader keeps every budget of its chain: no budget is ever overspent, every byte handed on is
  charged to each, and the first fault stays. The bounded read of a document returns, within its allowance.
\<close>

section \<open>Budgets\<close>

definition budget_ok :: "budget \<Rightarrow> bool" where
  "budget_ok b \<longleftrightarrow> unat (bg_used b) \<le> unat (bg_limit b)"

lemma budget_new_ok [simp]: "budget_ok (budget_new limit)"
  by (simp add: budget_ok_def budget_new_def)

lemma unat_budget_remaining: "unat (budget_remaining b) = unat (bg_limit b) - unat (bg_used b)"
  by (simp add: budget_remaining_def)

lemma budget_fits:
  assumes "unat (bg_used b) + unat n \<le> unat (bg_limit b)"
  shows "unat (bg_used b) + unat n < 18446744073709551616" "unat (bg_used b + n) = unat (bg_used b) + unat n"
proof -
  show "unat (bg_used b) + unat n < 18446744073709551616"
    using assms unat_u64_bound [of "bg_limit b"] by linarith
  then show "unat (bg_used b + n) = unat (bg_used b) + unat n" by (simp add: unat_word_ariths)
qed

lemma budget_charge_fits:
  assumes "budget_ok b" and "unat n \<le> unat (budget_remaining b)"
  shows "budget_charge n b = Inr (b\<lparr>bg_used := bg_used b + n\<rparr>)"
    "unat (bg_used b + n) = unat (bg_used b) + unat n" "unat (bg_used b) + unat n \<le> unat (bg_limit b)"
proof -
  show fits: "unat (bg_used b) + unat n \<le> unat (bg_limit b)"
    using assms by (simp add: unat_budget_remaining budget_ok_def)
  show "unat (bg_used b + n) = unat (bg_used b) + unat n" by (rule budget_fits(2) [OF fits])
  show "budget_charge n b = Inr (b\<lparr>bg_used := bg_used b + n\<rparr>)"
    using assms(2) budget_fits(1) [OF fits]
    by (simp add: budget_charge_def budget_check_def checked_add_def word_le_nat_alt)
qed

lemma charge_each_fits:
  "list_all budget_ok bs \<Longrightarrow> \<forall>b \<in> set bs. unat n \<le> unat (budget_remaining b) \<Longrightarrow>
     charge_each n bs = Inr (map (\<lambda>b. b\<lparr>bg_used := bg_used b + n\<rparr>) bs)"
  by (induction bs) (simp_all add: budget_charge_fits(1))

section \<open>What is left\<close>

lemma foldl_min_le: "foldl min (a :: u64) xs \<le> a" "x \<in> set xs \<Longrightarrow> foldl min a xs \<le> x"
proof -
  have le: "foldl min a xs \<le> a \<and> (\<forall>x \<in> set xs. foldl min a xs \<le> x)" for a
  proof (induction xs arbitrary: a)
    case (Cons y ys)
    have "foldl min (min a y) ys \<le> min a y" using Cons [of "min a y"] by blast
    then show ?case using Cons [of "min a y"] by simp
  qed simp
  show "foldl min a xs \<le> a" using le by blast
  show "x \<in> set xs \<Longrightarrow> foldl min a xs \<le> x" using le by blast
qed

lemma foldl_min_in: "foldl min (a :: u64) xs = a \<or> foldl min a xs \<in> set xs"
proof (induction xs arbitrary: a)
  case (Cons y ys)
  show ?case using Cons [of "min a y"] by (auto simp: min_def)
qed simp

lemma remaining_le: "b \<in> set (chain r) \<Longrightarrow> unat (counting_remaining r) \<le> unat (budget_remaining b)"
  unfolding counting_remaining_def by (simp add: foldl_min_le(2) flip: word_le_nat_alt)

lemma remaining_is: "\<exists>b \<in> set (chain r). counting_remaining r = budget_remaining b"
proof -
  have "counting_remaining r = - 1 \<or> counting_remaining r \<in> budget_remaining ` set (chain r)"
    using foldl_min_in [of "- 1" "map budget_remaining (chain r)"] by (simp add: counting_remaining_def)
  moreover have "counting_remaining r \<le> budget_remaining (cr_own r)"
    unfolding counting_remaining_def by (rule foldl_min_le(2)) (simp add: chain_def)
  ultimately show ?thesis
  proof (elim disjE)
    assume le: "counting_remaining r \<le> budget_remaining (cr_own r)" and "counting_remaining r = - 1"
    then have "counting_remaining r = budget_remaining (cr_own r)"
      by (intro order_antisym [OF le]) simp
    then show ?thesis by (auto simp: chain_def)
  qed auto
qed

section \<open>One read\<close>

definition chain_ok :: "'s counting \<Rightarrow> bool" where
  "chain_ok r \<longleftrightarrow> list_all budget_ok (chain r)"

abbreviation spend :: "nat \<Rightarrow> budget \<Rightarrow> budget" where
  "spend n b \<equiv> b\<lparr>bg_used := bg_used b + widen n\<rparr>"

lemma find_none: "(\<And>b. b \<in> set bs \<Longrightarrow> \<not> P b) \<Longrightarrow> find P bs = None"
  by (simp add: find_None_iff)

lemma check_available_fits:
  "unat n \<le> unat (counting_remaining r) \<Longrightarrow> check_available n r = Inr ()"
  unfolding check_available_def
  by (subst find_none) (auto simp: budget_check_def word_le_nat_alt dest: remaining_le)

lemma charge_chain_fits:
  assumes "chain_ok r" and "unat n \<le> unat (counting_remaining r)" and "unat n = k" and "widen k = n"
  shows "\<exists>r'. charge_chain n (r\<lparr>cr_source := s\<rparr>) = Inr r' \<and> chain r' = map (spend k) (chain r) \<and>
    cr_latch r' = cr_latch r \<and> cr_copy_buffer r' = cr_copy_buffer r \<and> cr_source r' = s"
proof -
  have fits: "\<forall>b \<in> set (chain r). unat n \<le> unat (budget_remaining b)"
    using assms(2) remaining_le order_trans by blast
  then show ?thesis
    using assms(1,4) charge_each_fits [of "cr_shared r" n] budget_charge_fits(1) [of "cr_own r" n]
    by (simp add: charge_chain_def chain_ok_def chain_def)
qed

lemma widen_le:
  assumes "k \<le> unat (n :: u64)"
  shows "unat (widen k) = k"
proof -
  have "k < 18446744073709551616" using assms unat_u64_bound [of n] by linarith
  then show ?thesis by (simp add: widen_def)
qed

lemma read_counted_spends:
  assumes "chain_ok r" and "read_counted rd k r = (out, r')"
  shows "(case out of Inl _ \<Rightarrow> chain r' = chain r
      | Inr w \<Rightarrow> chain r' = map (spend (length w)) (chain r) \<and> length w \<le> k \<and> length w \<le> unat (counting_remaining r)) \<and>
    cr_latch r' = cr_latch r \<and> cr_copy_buffer r' = cr_copy_buffer r"
proof (cases "k = 0 \<or> counting_remaining r = 0")
  case True
  have none: "spend 0 b = b" for b by (simp add: widen_def u64_of_def)
  show ?thesis using assms(2) True
    by (auto simp: none read_counted_def chain_def Let_def split: prod.splits sum.splits if_splits)
next
  case False
  let ?len = "chunk_len (min k (cr_copy_buffer r)) (counting_remaining r)"
  obtain out' s where rd: "rd ?len (cr_source r) = (out', s)" by fastforce
  show ?thesis
  proof (cases out')
    case (Inl fault)
    then show ?thesis using assms(2) False rd by (auto simp: read_counted_def chain_def)
  next
    case (Inr w)
    show ?thesis
    proof (cases "?len < length w")
      case True
      then show ?thesis using assms(2) False rd Inr by (auto simp: read_counted_def chain_def)
    next
      case False
      then have w: "length w \<le> unat (counting_remaining r)" "length w \<le> k" by (auto simp: chunk_len_def)
      then have n: "unat (widen (length w)) = length w" by (blast intro: widen_le)
      obtain r2 where r2: "charge_chain (widen (length w)) (r\<lparr>cr_source := s\<rparr>) = Inr r2"
        "chain r2 = map (spend (length w)) (chain r)" "cr_latch r2 = cr_latch r" "cr_copy_buffer r2 = cr_copy_buffer r"
        using charge_chain_fits [OF assms(1), of "widen (length w)" "length w" s] w n by auto
      have "out = Inr w \<and> r' = r2"
        using assms(2) \<open>\<not> (k = 0 \<or> counting_remaining r = 0)\<close> rd Inr False r2(1) check_available_fits [of "widen (length w)" r] w n
        by (auto simp: read_counted_def)
      then show ?thesis using r2 w by simp
    qed
  qed
qed

lemma spend_chain:
  assumes "chain_ok r" and "k \<le> unat (counting_remaining r)" and "b \<in> set (chain r)"
  shows "unat (bg_used (spend k b)) = unat (bg_used b) + k" "budget_ok (spend k b)"
proof -
  have "budget_ok b" using assms(1,3) by (simp add: chain_ok_def list_all_iff)
  moreover have "unat (widen k) \<le> unat (budget_remaining b)"
    using remaining_le [OF assms(3)] widen_le [OF assms(2)] assms(2) by linarith
  ultimately show "unat (bg_used (spend k b)) = unat (bg_used b) + k" "budget_ok (spend k b)"
    using budget_charge_fits(2,3) [of b "widen k"] widen_le [OF assms(2)] by (simp_all add: budget_ok_def)
qed

lemma counting_read_spends:
  assumes "chain_ok r" and "counting_read rd k r = (Inr w, r')"
  shows "chain r' = map (spend (length w)) (chain r)" "length w \<le> k" "length w \<le> unat (counting_remaining r)" "chain_ok r'"
proof -
  have read: "read_counted rd k r = (Inr w, r')"
    using assms(2) by (auto simp: counting_read_def split: sum.splits prod.splits)
  from read_counted_spends [OF assms(1) read]
  show spent: "chain r' = map (spend (length w)) (chain r)" "length w \<le> k" "length w \<le> unat (counting_remaining r)"
    by simp_all
  show "chain_ok r'"
    using spend_chain(2) [OF assms(1) spent(3)] by (simp add: chain_ok_def spent(1) list_all_iff)
qed

lemma counting_read_refuses:
  assumes "chain_ok r" and "counting_read rd k r = (Inl fault, r')"
  shows "chain r' = chain r" "counting_read rd k' r' = (Inl fault, r')"
proof -
  have "chain r' = chain r \<and> cr_latch r' = Some fault"
  proof (cases "cr_latch r")
    case None
    then obtain r2 where r2: "read_counted rd k r = (Inl fault, r2)" "r' = r2\<lparr>cr_latch := latch_record fault (cr_latch r2)\<rparr>"
      using assms(2) by (auto simp: counting_read_def latch_check_def split: sum.splits prod.splits)
    from read_counted_spends [OF assms(1) r2(1)] show ?thesis using r2(2) None by (simp add: chain_def latch_record_def)
  qed (use assms(2) in \<open>simp add: counting_read_def latch_check_def\<close>)
  then show "chain r' = chain r" "counting_read rd k' r' = (Inl fault, r')"
    by (simp_all add: counting_read_def latch_check_def)
qed

text \<open>A read hands on at most what was asked and charges exactly that many bytes to its own budget and to every
  shared one, none of them ever past its limit; a fault charges nothing and is the answer to every later read.\<close>

theorem counting_read_charges:
  assumes "chain_ok r" and "counting_read rd k r = (out, r')"
  shows "chain_ok r' \<and> map bg_limit (chain r') = map bg_limit (chain r) \<and>
    (case out of
       Inr w \<Rightarrow> length w \<le> k \<and>
         map (\<lambda>b. unat (bg_used b)) (chain r') = map (\<lambda>b. unat (bg_used b) + length w) (chain r)
     | Inl fault \<Rightarrow> chain r' = chain r \<and> (\<forall>k'. counting_read rd k' r' = (Inl fault, r')))"
proof (cases out)
  case (Inl fault)
  from counting_read_refuses [OF assms [unfolded Inl]] show ?thesis
    using assms(1) Inl by (simp add: chain_ok_def)
next
  case (Inr w)
  from counting_read_spends [OF assms [unfolded Inr]] show ?thesis
    using spend_chain(1) [OF assms(1)] Inr by simp
qed

theorem counting_read_charges_witness:
  "chain_ok (snd (counting_read (\<lambda>n s. (Inr (take n s), drop n s)) 4
     (counting_new ''abc'' \<lparr>rl_resource = LR_IndexJson, rl_max = 2\<rparr> [] 8)))"
proof -
  let ?r = "counting_new ''abc'' \<lparr>rl_resource = LR_IndexJson, rl_max = 2\<rparr> [] 8"
  have "chain_ok ?r" by (simp add: chain_ok_def chain_def counting_new_def)
  from counting_read_charges [OF this surjective_pairing] show ?thesis by blast
qed

section \<open>A bounded document\<close>

lemma read_bounded_loop_ends:
  assumes "chain_ok r" and "unat (counting_remaining r) < fuel"
  shows "\<exists>out r'. read_bounded_loop fuel rd cb acc r = Some (out, r') \<and> chain_ok r' \<and>
    (\<forall>doc. out = Inr doc \<longrightarrow> (\<exists>n. length doc = length acc + n \<and> length (chain r') = length (chain r) \<and>
       map (\<lambda>b. (unat (bg_used b), bg_limit b)) (chain r') = map (\<lambda>b. (unat (bg_used b) + n, bg_limit b)) (chain r)))"
  using assms
proof (induction fuel arbitrary: acc r)
  case (Suc fuel)
  let ?k = "if counting_remaining r = 0 then 1 else chunk_len cb (counting_remaining r)"
  obtain out r2 where read: "counting_read rd ?k r = (out, r2)" by fastforce
  show ?case
  proof (cases out)
    case (Inl fault)
    with read Suc.prems(1) counting_read_refuses(1) [OF Suc.prems(1), of rd ?k fault r2]
    show ?thesis by (simp add: chain_ok_def)
  next
    case (Inr w)
    note spent = counting_read_spends [OF Suc.prems(1) read [unfolded Inr]]
    show ?thesis
    proof (cases "w = []")
      case True
      have "map (\<lambda>b. (unat (bg_used b), bg_limit b)) (chain r2) = map (\<lambda>b. (unat (bg_used b) + 0, bg_limit b)) (chain r)"
        using spent(1) True by (simp add: widen_def u64_of_def)
      then show ?thesis using read Inr True spent(4) by (auto intro!: exI [of _ 0] simp: spent(1))
    next
      case False
      obtain b where b: "b \<in> set (chain r)" "counting_remaining r = budget_remaining b" using remaining_is by blast
      have "unat (counting_remaining r2) \<le> unat (budget_remaining (spend (length w) b))"
        using remaining_le [of _ r2] spent(1) b(1) by simp
      also have "\<dots> = unat (counting_remaining r) - length w"
        using spend_chain(1) [OF Suc.prems(1) spent(3) b(1)] b(2) by (simp add: unat_budget_remaining)
      finally have "unat (counting_remaining r2) < fuel"
        using False spent(3) Suc.prems(2) by (cases w) auto
      from Suc.IH [OF spent(4) this, of "acc @ w"] obtain out' r' where ih:
        "read_bounded_loop fuel rd cb (acc @ w) r2 = Some (out', r')" "chain_ok r'"
        "\<And>doc. out' = Inr doc \<Longrightarrow> \<exists>n. length doc = length (acc @ w) + n \<and> length (chain r') = length (chain r2) \<and>
           map (\<lambda>b. (unat (bg_used b), bg_limit b)) (chain r') = map (\<lambda>b. (unat (bg_used b) + n, bg_limit b)) (chain r2)"
        by blast
      have "\<exists>n. length doc = length acc + n \<and> length (chain r') = length (chain r) \<and>
          map (\<lambda>b. (unat (bg_used b), bg_limit b)) (chain r') = map (\<lambda>b. (unat (bg_used b) + n, bg_limit b)) (chain r)"
        if "out' = Inr doc" for doc
      proof -
        from ih(3) [OF that] obtain n where n: "length doc = length acc + (length w + n)"
          "map (\<lambda>b. (unat (bg_used b), bg_limit b)) (chain r') = map (\<lambda>b. (unat (bg_used b) + n, bg_limit b)) (chain r2)"
          "length (chain r') = length (chain r2)" by auto
        then show ?thesis using spend_chain(1) [OF Suc.prems(1) spent(3)]
          by (intro exI [of _ "length w + n"]) (simp add: spent(1))
      qed
      then show ?thesis using ih(1,2) read Inr False by (simp add: Let_def)
    qed
  qed
qed simp

text \<open>C34: A bounded read of a document always returns, whatever the source answers; a document it returns fits its
  own limit and what was left of the whole budget, and is charged to that budget in full.\<close>

theorem read_bounded_within:
  assumes "budget_ok whole"
  shows "\<exists>out r'. read_bounded rd s document whole cb = Some (out, r') \<and>
    (\<forall>doc. out = Inr doc \<longrightarrow> length doc \<le> unat (rl_max document) \<and>
       (\<exists>whole'. cr_shared r' = [whole'] \<and> budget_ok whole' \<and> bg_limit whole' = bg_limit whole \<and>
          unat (bg_used whole') = unat (bg_used whole) + length doc))"
proof -
  let ?r = "counting_new s document [whole] (max cb 1)"
  have chain: "chain (counting_new s document [whole] c) = [budget_new document, whole]" for c
    by (simp add: chain_def counting_new_def)
  have "chain_ok ?r" using assms by (simp add: chain_ok_def chain)
  from read_bounded_loop_ends [OF this lessI, of rd "max cb 1" "[]"] obtain out r' where r':
    "read_bounded rd s document whole cb = Some (out, r')" "chain_ok r'"
    "\<And>doc. out = Inr doc \<Longrightarrow> length (chain r') = 2 \<and>
       map (\<lambda>b. (unat (bg_used b), bg_limit b)) (chain r') =
       [(length doc, rl_max document), (unat (bg_used whole) + length doc, bg_limit whole)]"
    by (fastforce simp: read_bounded_def chain budget_new_def Let_def)
  show ?thesis
  proof (rule exI [of _ out], rule exI [of _ r'], intro conjI allI impI)
    fix doc assume doc: "out = Inr doc"
    from r'(3) [OF doc] obtain w' where w': "cr_shared r' = [w']" "unat (bg_used w') = unat (bg_used whole) + length doc"
      "bg_limit w' = bg_limit whole" "unat (bg_used (cr_own r')) = length doc" "bg_limit (cr_own r') = rl_max document"
      by (auto simp: chain_def Suc_length_conv numeral_2_eq_2)
    show "length doc \<le> unat (rl_max document)"
      using r'(2) w' by (simp add: chain_ok_def chain_def budget_ok_def)
    show "\<exists>whole'. cr_shared r' = [whole'] \<and> budget_ok whole' \<and> bg_limit whole' = bg_limit whole \<and>
          unat (bg_used whole') = unat (bg_used whole) + length doc"
      using r'(2) w' by (simp add: chain_ok_def chain_def)
  qed (rule r'(1))
qed

theorem read_bounded_within_witness:
  "\<exists>out r'. read_bounded (\<lambda>n s. (Inr (take n s), drop n s)) ''{}'' \<lparr>rl_resource = LR_IndexJson, rl_max = 2\<rparr>
     (budget_new \<lparr>rl_resource = LR_ImageJsonTotal, rl_max = 9\<rparr>) 1 = Some (out, r')"
  using read_bounded_within [of "budget_new \<lparr>rl_resource = LR_ImageJsonTotal, rl_max = 9\<rparr>"
      "\<lambda>n s. (Inr (take n s), drop n s)" "''{}''" "\<lparr>rl_resource = LR_IndexJson, rl_max = 2\<rparr>" 1]
  by fastforce

end
