(* ===== verification/Json_Scan_Correct.thy ===== *)
theory Json_Scan_Correct
  imports Json_Scan
begin

text \<open>
  The scan accepts exactly the texts of the JSON grammar whose objects repeat no key and whose nesting stays
  within the limit. The grammar is stated on its own, as inductive predicates.
\<close>

section \<open>The grammar\<close>

abbreviation ws :: "bytes \<Rightarrow> bool" where "ws w \<equiv> list_all json_space w"
abbreviation dquote :: byte where "dquote \<equiv> CHR 0x22"
abbreviation bslash :: byte where "bslash \<equiv> CHR 0x5C"

definition four_hex :: "bytes \<Rightarrow> nat \<Rightarrow> bool" where
  "four_hex h n \<longleftrightarrow> hex4 h = Some (n, [])"

definition surrogate :: "nat \<Rightarrow> bool" where
  "surrogate n \<longleftrightarrow> 0xD800 \<le> n \<and> n \<le> 0xDFFF"

inductive escape_text :: "bytes \<Rightarrow> bytes \<Rightarrow> bool" where
  "c \<in> {dquote, bslash, CHR ''/''} \<Longrightarrow> escape_text [c] [c]"
| "escape_text ''b'' [CHR 0x08]"
| "escape_text ''f'' [CHR 0x0C]"
| "escape_text ''n'' [CHR 0x0A]"
| "escape_text ''r'' [CHR 0x0D]"
| "escape_text ''t'' [CHR 0x09]"
| "four_hex h n \<Longrightarrow> \<not> surrogate n \<Longrightarrow> escape_text (CHR ''u'' # h) (encode_utf8 n)"
| "four_hex h n \<Longrightarrow> 0xD800 \<le> n \<Longrightarrow> n \<le> 0xDBFF \<Longrightarrow> four_hex l m \<Longrightarrow> 0xDC00 \<le> m \<Longrightarrow> m \<le> 0xDFFF \<Longrightarrow>
     escape_text (CHR ''u'' # h @ bslash # CHR ''u'' # l) (encode_utf8 (0x10000 + (n - 0xD800) * 1024 + (m - 0xDC00)))"

inductive string_chars :: "bytes \<Rightarrow> bytes \<Rightarrow> bool" where
  chars_end: "string_chars [] []"
| chars_plain: "32 \<le> ord c \<Longrightarrow> c \<noteq> dquote \<Longrightarrow> c \<noteq> bslash \<Longrightarrow> string_chars raw k \<Longrightarrow> string_chars (c # raw) (c # k)"
| chars_escape: "escape_text e ch \<Longrightarrow> string_chars raw k \<Longrightarrow> string_chars (bslash # e @ raw) (ch @ k)"

definition string_text :: "bytes \<Rightarrow> bytes \<Rightarrow> bool" where
  "string_text s k \<longleftrightarrow> (\<exists>raw. s = dquote # raw @ [dquote] \<and> string_chars raw k \<and> is_utf8 raw)"

definition integer_text :: "bytes \<Rightarrow> bool" where
  "integer_text i \<longleftrightarrow> i = ''0'' \<or> (\<exists>c cs. i = c # cs \<and> is_digit c \<and> c \<noteq> CHR ''0'' \<and> list_all is_digit cs)"

definition some_digits :: "bytes \<Rightarrow> bool" where
  "some_digits ds \<longleftrightarrow> ds \<noteq> [] \<and> list_all is_digit ds"

definition fraction_text :: "bytes \<Rightarrow> bool" where
  "fraction_text f \<longleftrightarrow> f = [] \<or> (\<exists>ds. f = CHR ''.'' # ds \<and> some_digits ds)"

definition exponent_text :: "bytes \<Rightarrow> bool" where
  "exponent_text e \<longleftrightarrow>
     e = [] \<or> (\<exists>c s ds. e = c # s @ ds \<and> c \<in> {CHR ''e'', CHR ''E''} \<and> s \<in> {[], ''+'', ''-''} \<and> some_digits ds)"

definition number_text :: "bytes \<Rightarrow> bool" where
  "number_text n \<longleftrightarrow>
     (\<exists>s i f e. n = s @ i @ f @ e \<and> s \<in> {[], ''-''} \<and> integer_text i \<and> fraction_text f \<and> exponent_text e)"

text \<open>Values, the elements of an array and the members of an object with their keys, with at most \<open>d\<close>
  containers inside one another.\<close>

inductive value_text :: "nat \<Rightarrow> bytes \<Rightarrow> bool"
  and elements_text :: "nat \<Rightarrow> bytes \<Rightarrow> bool"
  and members_text :: "nat \<Rightarrow> bytes list \<Rightarrow> bytes \<Rightarrow> bool"
where
  value_word: "v \<in> {''true'', ''false'', ''null''} \<Longrightarrow> value_text d v"
| value_number: "number_text v \<Longrightarrow> value_text d v"
| value_string: "string_text v k \<Longrightarrow> value_text d v"
| value_empty_array: "ws w \<Longrightarrow> value_text (Suc d) (CHR ''['' # w @ '']'')"
| value_array: "elements_text d es \<Longrightarrow> value_text (Suc d) (CHR ''['' # es @ '']'')"
| value_empty_object: "ws w \<Longrightarrow> value_text (Suc d) (CHR ''{'' # w @ ''}'')"
| value_object: "members_text d ks ms \<Longrightarrow> distinct ks \<Longrightarrow> value_text (Suc d) (CHR ''{'' # ms @ ''}'')"
| element_last: "ws w \<Longrightarrow> value_text d v \<Longrightarrow> ws w' \<Longrightarrow> elements_text d (w @ v @ w')"
| element_more: "ws w \<Longrightarrow> value_text d v \<Longrightarrow> ws w' \<Longrightarrow> elements_text d es \<Longrightarrow>
    elements_text d (w @ v @ w' @ CHR '','' # es)"
| member_last: "ws w \<Longrightarrow> string_text s k \<Longrightarrow> is_utf8 k \<Longrightarrow> ws w' \<Longrightarrow> ws u \<Longrightarrow> value_text d v \<Longrightarrow> ws u' \<Longrightarrow>
    members_text d [k] (w @ s @ w' @ CHR '':'' # u @ v @ u')"
| member_more: "ws w \<Longrightarrow> string_text s k \<Longrightarrow> is_utf8 k \<Longrightarrow> ws w' \<Longrightarrow> ws u \<Longrightarrow> value_text d v \<Longrightarrow> ws u' \<Longrightarrow>
    members_text d ks ms \<Longrightarrow> members_text d (k # ks) (w @ s @ w' @ CHR '':'' # u @ v @ u' @ CHR '','' # ms)"

definition json_text :: "nat \<Rightarrow> bytes \<Rightarrow> bool" where
  "json_text d bs \<longleftrightarrow> (\<exists>w v w'. bs = w @ v @ w' \<and> ws w \<and> value_text d v \<and> ws w')"

section \<open>Tokens\<close>

lemma skip_ws_append [simp]: "ws w \<Longrightarrow> skip_whitespace (w @ bs) = skip_whitespace bs"
  by (simp add: skip_whitespace_def dropWhile_append list_all_iff)

lemma skip_ws_Cons: "\<not> json_space c \<Longrightarrow> skip_whitespace (c # bs) = c # bs"
  by (simp add: skip_whitespace_def)

lemma skip_ws_split: "\<exists>w. ws w \<and> bs = w @ skip_whitespace bs"
  unfolding skip_whitespace_def
  by (rule exI [of _ "takeWhile json_space bs"]) (auto simp: list_all_iff dest: set_takeWhileD)

lemma skip_ws_hd: "skip_whitespace bs = c # r \<Longrightarrow> \<not> json_space c"
  unfolding skip_whitespace_def by (metis hd_dropWhile list.discI list.sel(1))

lemma skip_ws_nil: "skip_whitespace bs = [] \<longleftrightarrow> ws bs"
  by (simp add: skip_whitespace_def list_all_iff)

lemma not_space [simp]:
  "\<not> json_space CHR '',''" "\<not> json_space CHR '']''" "\<not> json_space CHR ''}''" "\<not> json_space CHR '':''"
  "\<not> json_space CHR ''[''" "\<not> json_space CHR ''{''" "\<not> json_space dquote"
  "\<not> json_space CHR ''t''" "\<not> json_space CHR ''f''" "\<not> json_space CHR ''n''" "\<not> json_space CHR ''-''"
  by (simp_all add: json_space_def)

lemma hex4_local: "hex4 bs = Some (n, rest) \<longleftrightarrow> (\<exists>h. bs = h @ rest \<and> four_hex h n)"
proof
  assume "hex4 bs = Some (n, rest)"
  then obtain a b c d where "bs = [a, b, c, d] @ rest" "four_hex [a, b, c, d] n"
    by (cases bs rule: hex4.cases) (auto simp: four_hex_def Option.bind_eq_Some_conv)
  then show "\<exists>h. bs = h @ rest \<and> four_hex h n" by blast
next
  assume "\<exists>h. bs = h @ rest \<and> four_hex h n"
  then obtain h where h: "bs = h @ rest" "hex4 h = Some (n, [])" by (auto simp: four_hex_def)
  then show "hex4 bs = Some (n, rest)"
    by (cases h rule: hex4.cases) (auto simp: Option.bind_eq_Some_conv)
qed

lemma four_hex_append: "four_hex h n \<Longrightarrow> hex4 (h @ rest) = Some (n, rest)"
  using hex4_local by blast

lemma json_escape_iff: "json_escape bs = Some (ch, rest) \<longleftrightarrow> (\<exists>e. bs = e @ rest \<and> escape_text e ch)"
proof
  assume esc: "json_escape bs = Some (ch, rest)"
  then obtain c cs where bs: "bs = c # cs" by (cases bs) auto
  show "\<exists>e. bs = e @ rest \<and> escape_text e ch"
  proof (cases "c = CHR ''u''")
    case False
    then show ?thesis using esc bs
      by (auto split: if_splits intro!: exI [of _ "[c]"] intro: escape_text.intros)
  next
    case True
    then obtain h n r where h: "cs = h @ r" "four_hex h n"
      and r: "(if 0xD800 \<le> n \<and> n \<le> 0xDBFF then
       (case r of
          s # u # rest' \<Rightarrow>
            if s = CHR 0x5C \<and> u = CHR ''u'' then
              Option.bind (hex4 rest') (\<lambda>(low, rest'').
              if 0xDC00 \<le> low \<and> low \<le> 0xDFFF
              then Some (encode_utf8 (0x10000 + (n - 0xD800) * 1024 + (low - 0xDC00)), rest'') else None)
            else None
        | _ \<Rightarrow> None)
     else if 0xDC00 \<le> n \<and> n \<le> 0xDFFF then None
     else Some (encode_utf8 n, r)) = Some (ch, rest)"
      using esc bs by (auto simp: unicode_escape_def Option.bind_eq_Some_conv hex4_local)
    show ?thesis
    proof (cases "0xD800 \<le> n \<and> n \<le> 0xDBFF")
      case high: True
      then obtain r' m where r': "r = bslash # CHR ''u'' # r'" "hex4 r' = Some (m, rest)" "0xDC00 \<le> m" "m \<le> 0xDFFF"
        "ch = encode_utf8 (0x10000 + (n - 0xD800) * 1024 + (m - 0xDC00))"
        using r by (auto split: list.splits if_splits simp: Option.bind_eq_Some_conv)
      then obtain l where l: "r' = l @ rest" "four_hex l m" using hex4_local by blast
      have "escape_text (CHR ''u'' # h @ bslash # CHR ''u'' # l) ch"
        unfolding r'(5) using h(2) high l(2) r'(3,4) by (intro escape_text.intros(8)) auto
      then show ?thesis using bs True h(1) r'(1) l(1)
        by (intro exI [of _ "CHR ''u'' # h @ bslash # CHR ''u'' # l"]) simp
    next
      case False
      then have plain: "\<not> surrogate n" "ch = encode_utf8 n" "r = rest"
        using r by (auto simp: surrogate_def split: if_splits)
      then have "escape_text (CHR ''u'' # h) ch" using h(2) by (auto intro: escape_text.intros)
      then show ?thesis using bs True h(1) plain(3) by (intro exI [of _ "CHR ''u'' # h"]) simp
    qed
  qed
next
  assume "\<exists>e. bs = e @ rest \<and> escape_text e ch"
  then obtain e where e: "escape_text e ch" "bs = e @ rest" by blast
  then show "json_escape bs = Some (ch, rest)"
    by (cases rule: escape_text.cases)
       (auto simp: unicode_escape_def four_hex_append surrogate_def)
qed

lemma string_body_iff: "string_body bs = Some (k, rest) \<longleftrightarrow> (\<exists>raw. bs = raw @ dquote # rest \<and> string_chars raw k)"
proof
  assume "string_body bs = Some (k, rest)"
  then show "\<exists>raw. bs = raw @ dquote # rest \<and> string_chars raw k"
  proof (induction bs arbitrary: k rest rule: string_body.induct)
    case (2 c cs)
    show ?case
    proof (cases "c = dquote")
      case True
      then show ?thesis using 2(3) by (auto intro: exI [of _ "[]"] chars_end)
    next
      case not_quote: False
      show ?thesis
      proof (cases "c = bslash")
        case True
        then obtain ch r1 k1 where esc: "json_escape cs = Some (ch, r1)" "string_body r1 = Some (k1, rest)" "k = ch @ k1"
          using 2(3) not_quote by (auto split: option.splits)
        then obtain raw where "r1 = raw @ dquote # rest" "string_chars raw k1"
          using 2(1) [OF not_quote True esc(1) refl] by blast
        moreover obtain e where "cs = e @ r1" "escape_text e ch" using esc(1) json_escape_iff by blast
        ultimately show ?thesis using True esc(3)
          by (intro exI [of _ "bslash # e @ raw"]) (simp add: chars_escape)
      next
        case False
        then obtain k1 where plain: "\<not> ord c < 32" "string_body cs = Some (k1, rest)" "k = c # k1"
          using 2(3) not_quote by (auto split: option.splits if_splits)
        then obtain raw where "cs = raw @ dquote # rest" "string_chars raw k1"
          using 2(2) [OF not_quote False plain(1)] by blast
        then show ?thesis using False not_quote plain
          by (intro exI [of _ "c # raw"]) (simp add: chars_plain)
      qed
    qed
  qed simp
next
  assume "\<exists>raw. bs = raw @ dquote # rest \<and> string_chars raw k"
  then obtain raw where "bs = raw @ dquote # rest" "string_chars raw k" by blast
  from this(2) this(1) show "string_body bs = Some (k, rest)"
  proof (induction arbitrary: bs rule: string_chars.induct)
    case (chars_escape e ch raw k)
    then have "json_escape (e @ raw @ dquote # rest) = Some (ch, raw @ dquote # rest)"
      using json_escape_iff by blast
    then show ?case using chars_escape by simp
  qed simp_all
qed

lemma scan_string_iff:
  "scan_string decode bs = Some (k, rest) \<longleftrightarrow>
     (\<exists>t. dquote # bs = t @ rest \<and> string_text t k \<and> (decode \<longrightarrow> is_utf8 k))"
proof
  assume scanned: "scan_string decode bs = Some (k, rest)"
  then have body: "string_body bs = Some (k, rest)" by (auto simp: scan_string_def split: option.splits if_splits)
  then obtain raw where raw: "bs = raw @ dquote # rest" "string_chars raw k" using string_body_iff by blast
  have "is_utf8 raw \<and> (decode \<longrightarrow> is_utf8 k)"
    using scanned body raw(1) by (simp add: scan_string_def split: if_splits)
  then show "\<exists>t. dquote # bs = t @ rest \<and> string_text t k \<and> (decode \<longrightarrow> is_utf8 k)"
    using raw by (intro exI [of _ "dquote # raw @ [dquote]"]) (auto simp: string_text_def)
next
  assume "\<exists>t. dquote # bs = t @ rest \<and> string_text t k \<and> (decode \<longrightarrow> is_utf8 k)"
  then obtain raw where raw: "bs = raw @ dquote # rest" "string_chars raw k" "is_utf8 raw" "decode \<longrightarrow> is_utf8 k"
    by (auto simp: string_text_def)
  then have "string_body bs = Some (k, rest)" using string_body_iff by blast
  then show "scan_string decode bs = Some (k, rest)" using raw by (simp add: scan_string_def)
qed

lemma not_digit [simp]:
  "\<not> is_digit CHR ''-''" "\<not> is_digit CHR ''+''" "\<not> is_digit CHR ''.''" "\<not> is_digit CHR ''e''" "\<not> is_digit CHR ''E''"
  "\<not> is_digit CHR ''['' " "\<not> is_digit CHR ''{''" "\<not> is_digit dquote" "\<not> is_digit CHR ''t''" "\<not> is_digit CHR ''f''"
  "\<not> is_digit CHR ''n''" "\<not> is_digit CHR '',''" "\<not> is_digit CHR '']''" "\<not> is_digit CHR ''}''"
  by (simp_all add: is_digit_def)

lemma digits_split: "\<exists>ds. list_all is_digit ds \<and> bs = ds @ digits bs"
  unfolding digits_def
  by (rule exI [of _ "takeWhile is_digit bs"]) (auto simp: list_all_iff dest: set_takeWhileD)

lemma digits_append: "list_all is_digit ds \<Longrightarrow> rest = [] \<or> \<not> is_digit (hd rest) \<Longrightarrow> digits (ds @ rest) = rest"
  by (cases rest) (auto simp: digits_def dropWhile_append list_all_iff)

text \<open>What may follow a number in a document.\<close>

definition ends_number :: "bytes \<Rightarrow> bool" where
  "ends_number r \<longleftrightarrow> r = [] \<or> (\<not> is_digit (hd r) \<and> hd r \<notin> {CHR ''.'', CHR ''e'', CHR ''E''})"

lemma required_digits_split: "required_digits bs = Some rest \<Longrightarrow> \<exists>ds. bs = ds @ rest \<and> some_digits ds"
proof -
  assume req: "required_digits bs = Some rest"
  then obtain c cs where bs: "bs = c # cs" "is_digit c" "rest = digits bs"
    by (auto simp: required_digits_def split: list.splits if_splits)
  obtain ds where ds: "list_all is_digit ds" "bs = ds @ digits bs" using digits_split by blast
  moreover have "length (digits bs) < length bs" using bs(1,2) length_digits [of cs] by (simp add: digits_def)
  then have "ds \<noteq> []" using ds(2) by auto
  ultimately show ?thesis using bs(3) by (auto simp: some_digits_def)
qed

lemma required_digits_append:
  "some_digits ds \<Longrightarrow> rest = [] \<or> \<not> is_digit (hd rest) \<Longrightarrow> required_digits (ds @ rest) = Some rest"
  using digits_append [of ds rest]
  by (cases ds) (auto simp: required_digits_def some_digits_def)

lemma is_digit_not: "is_digit c \<Longrightarrow> c \<noteq> CHR ''-'' \<and> c \<noteq> CHR ''+'' \<and> c \<noteq> CHR ''.'' \<and> c \<noteq> CHR ''e'' \<and> c \<noteq> CHR ''E''"
  by (auto simp: is_digit_def)

lemma scan_number_split:
  assumes "scan_number bs = Some rest"
  shows "\<exists>n. bs = n @ rest \<and> number_text n"
proof -
  let ?bs = "skip_one {CHR ''-''} bs"
  obtain r1 r2 where parts: "scan_integer ?bs = Some r1" "scan_fraction r1 = Some r2" "scan_exponent r2 = Some rest"
    using assms by (auto simp: scan_number_def Option.bind_eq_Some_conv)
  have "\<exists>s. bs = s @ ?bs \<and> s \<in> {[], ''-''}"
  proof (cases "bs \<noteq> [] \<and> hd bs = CHR ''-''")
    case True
    then show ?thesis by (intro exI [of _ "''-''"]) (cases bs; simp add: skip_one_def)
  next
    case False
    then show ?thesis by (intro exI [of _ "[]"]) (cases bs; simp add: skip_one_def)
  qed
  then obtain s where s: "bs = s @ ?bs" "s \<in> {[], ''-''}" by blast
  obtain i where i: "?bs = i @ r1" "integer_text i"
  proof (cases ?bs)
    case (Cons c cs)
    obtain ds where ds: "list_all is_digit ds" "cs = ds @ digits cs" using digits_split by blast
    show ?thesis
    proof (cases "c = CHR ''0''")
      case True
      then show ?thesis using that [of "''0''"] parts(1) Cons by (simp add: scan_integer_def integer_text_def)
    next
      case False
      then show ?thesis using that [of "c # ds"] parts(1) Cons ds
        by (auto simp: scan_integer_def integer_text_def split: if_splits)
    qed
  qed (use parts(1) in \<open>simp add: scan_integer_def\<close>)
  obtain f where f: "r1 = f @ r2" "fraction_text f"
  proof (cases "r1 \<noteq> [] \<and> hd r1 = CHR ''.''")
    case True
    then have "required_digits (tl r1) = Some r2" using parts(2) by (cases r1) (auto simp: scan_fraction_def)
    then obtain ds where "tl r1 = ds @ r2" "some_digits ds" using required_digits_split by blast
    then show ?thesis using that [of "CHR ''.'' # ds"] True by (cases r1) (auto simp: fraction_text_def)
  next
    case False
    then show ?thesis using that [of "[]"] parts(2) by (cases r1) (auto simp: scan_fraction_def fraction_text_def)
  qed
  obtain e where e: "r2 = e @ rest" "exponent_text e"
  proof (cases "r2 \<noteq> [] \<and> (hd r2 = CHR ''e'' \<or> hd r2 = CHR ''E'')")
    case True
    let ?t = "skip_one {CHR ''+'', CHR ''-''} (tl r2)"
    have "required_digits ?t = Some rest" using True parts(3) by (cases r2) (auto simp: scan_exponent_def)
    then obtain ds where ds: "?t = ds @ rest" "some_digits ds" using required_digits_split by blast
    have "\<exists>sg. tl r2 = sg @ ?t \<and> sg \<in> {[], ''+'', ''-''}"
    proof (cases "tl r2 \<noteq> [] \<and> hd (tl r2) \<in> {CHR ''+'', CHR ''-''}")
      case True
      then show ?thesis by (intro exI [of _ "[hd (tl r2)]"]) (cases "tl r2"; auto simp: skip_one_def)
    next
      case False
      then show ?thesis by (intro exI [of _ "[]"]) (cases "tl r2"; auto simp: skip_one_def)
    qed
    then obtain sg where sg: "tl r2 = sg @ ?t" "sg \<in> {[], ''+'', ''-''}" by blast
    then have "r2 = (hd r2 # sg @ ds) @ rest" using True ds by (cases r2) auto
    moreover have "exponent_text (hd r2 # sg @ ds)" using True sg(2) ds(2) unfolding exponent_text_def by blast
    ultimately show ?thesis using that by blast
  next
    case False
    then show ?thesis using that [of "[]"] parts(3) by (cases r2) (auto simp: scan_exponent_def exponent_text_def)
  qed
  have "bs = (s @ i @ f @ e) @ rest" using s(1) i(1) f(1) e(1) by (metis append.assoc)
  moreover have "number_text (s @ i @ f @ e)" using s(2) i(2) f(2) e(2) unfolding number_text_def by blast
  ultimately show ?thesis by blast
qed

lemma scan_number_append:
  assumes "number_text n" and "ends_number rest"
  shows "scan_number (n @ rest) = Some rest"
proof -
  obtain s i f e where n: "n = s @ i @ f @ e" "s \<in> {[], ''-''}" "integer_text i" "fraction_text f" "exponent_text e"
    using assms(1) by (auto simp: number_text_def)
  have rest: "rest = [] \<or> \<not> is_digit (hd rest)" using assms(2) by (auto simp: ends_number_def)
  have e: "scan_exponent (e @ rest) = Some rest"
  proof (cases "e = []")
    case True
    then show ?thesis using assms(2) by (cases rest) (auto simp: scan_exponent_def ends_number_def)
  next
    case False
    then obtain c sg ds where e: "e = c # sg @ ds" "c \<in> {CHR ''e'', CHR ''E''}" "sg \<in> {[], ''+'', ''-''}" "some_digits ds"
      using n(5) by (auto simp: exponent_text_def)
    have "skip_one {CHR ''+'', CHR ''-''} (sg @ ds @ rest) = ds @ rest"
      using e(3,4) is_digit_not by (cases ds) (auto simp: skip_one_def some_digits_def)
    then show ?thesis using e(1,2) required_digits_append [OF e(4) rest] by (auto simp: scan_exponent_def)
  qed
  have after_f: "e @ rest = [] \<or> (\<not> is_digit (hd (e @ rest)) \<and> hd (e @ rest) \<noteq> CHR ''.'')"
    using n(5) assms(2) is_digit_not by (auto simp: exponent_text_def ends_number_def)
  have f: "scan_fraction (f @ e @ rest) = Some (e @ rest)"
  proof (cases "f = []")
    case True
    then show ?thesis using after_f by (cases "e @ rest") (auto simp: scan_fraction_def)
  next
    case False
    then obtain ds where "f = CHR ''.'' # ds" "some_digits ds" using n(4) by (auto simp: fraction_text_def)
    then show ?thesis using required_digits_append [of ds "e @ rest"] after_f by (auto simp: scan_fraction_def)
  qed
  have after_i: "f @ e @ rest = [] \<or> \<not> is_digit (hd (f @ e @ rest))"
    using n(4) after_f is_digit_not by (auto simp: fraction_text_def)
  have i: "scan_integer (i @ f @ e @ rest) = Some (f @ e @ rest)"
    using n(3) digits_append [of _ "f @ e @ rest"] after_i by (auto simp: integer_text_def scan_integer_def)
  have "skip_one {CHR ''-''} (n @ rest) = i @ f @ e @ rest"
    using n(1-3) is_digit_not by (auto simp: skip_one_def integer_text_def)
  then show ?thesis using e f i by (simp add: scan_number_def)
qed

text \<open>How a value starts.\<close>

lemma number_text_start: "number_text v \<Longrightarrow> \<exists>c cs. v = c # cs \<and> (c = CHR ''-'' \<or> is_digit c)"
  by (auto simp: number_text_def integer_text_def is_digit_def)

definition value_start :: "byte \<Rightarrow> bool" where
  "value_start c \<longleftrightarrow> c \<in> {CHR ''t'', CHR ''f'', CHR ''n'', CHR ''-'', dquote, CHR ''['', CHR ''{''} \<or> is_digit c"

lemma value_text_start: "value_text d v \<Longrightarrow> \<exists>c cs. v = c # cs \<and> value_start c"
  by (cases rule: value_text.cases) (auto simp: value_start_def string_text_def dest: number_text_start)

lemma value_start_not: "value_start c \<Longrightarrow>
  \<not> json_space c \<and> c \<noteq> CHR '']'' \<and> c \<noteq> CHR ''}'' \<and> c \<noteq> CHR '','' \<and> c \<noteq> CHR '':''"
  by (auto simp: value_start_def is_digit_def json_space_def)

section \<open>What completes a document\<close>

text \<open>What has to follow once a value is complete, and at a value, with \<open>D\<close> the limit and the containers open.\<close>

fun after_ok :: "nat \<Rightarrow> frame list \<Rightarrow> bytes \<Rightarrow> bool" where
  "after_ok D [] r \<longleftrightarrow> ws r"
| "after_ok D (ArrayFrame # st) r \<longleftrightarrow>
     (\<exists>w r'. ws w \<and> after_ok D st r' \<and>
        (r = w @ CHR '']'' # r' \<or>
         (\<exists>es. r = w @ CHR '','' # es @ CHR '']'' # r' \<and> elements_text (D - Suc (length st)) es)))"
| "after_ok D (ObjectFrame keys # st) r \<longleftrightarrow>
     (\<exists>w r'. ws w \<and> after_ok D st r' \<and>
        (r = w @ CHR ''}'' # r' \<or>
         (\<exists>ks ms. r = w @ CHR '','' # ms @ CHR ''}'' # r' \<and> members_text (D - Suc (length st)) ks ms \<and>
            distinct ks \<and> set ks \<inter> set keys = {})))"

definition value_ok :: "nat \<Rightarrow> frame list \<Rightarrow> bytes \<Rightarrow> bool" where
  "value_ok D st r \<longleftrightarrow>
     (\<exists>w v r'. r = w @ v @ r' \<and> ws w \<and> value_text (D - length st) v \<and> after_ok D st r')"

definition state_ok :: "nat \<Rightarrow> scan_mode \<Rightarrow> scanner \<Rightarrow> bool" where
  "state_ok D mode s \<longleftrightarrow>
     (case mode of AtValue \<Rightarrow> value_ok D (sc_stack s) (sc_rest s) | AfterValue \<Rightarrow> after_ok D (sc_stack s) (sc_rest s))"

lemma after_in_array_cases:
  "after_ok D (ArrayFrame # st) r \<Longrightarrow>
     \<exists>w r'. ws w \<and> after_ok D st r' \<and>
       (r = w @ CHR '']'' # r' \<or>
        (\<exists>es. r = w @ CHR '','' # es @ CHR '']'' # r' \<and> elements_text (D - Suc (length st)) es))"
  unfolding after_ok.simps .

lemma after_in_object_cases:
  "after_ok D (ObjectFrame keys # st) r \<Longrightarrow>
     \<exists>w r'. ws w \<and> after_ok D st r' \<and>
       (r = w @ CHR ''}'' # r' \<or>
        (\<exists>ks ms. r = w @ CHR '','' # ms @ CHR ''}'' # r' \<and> members_text (D - Suc (length st)) ks ms \<and>
           distinct ks \<and> set ks \<inter> set keys = {}))"
  unfolding after_ok.simps .

lemma ws_then: "\<not> json_space c \<Longrightarrow> (\<exists>u. ws u \<and> x = u @ c # t) \<longleftrightarrow> skip_whitespace x = c # t"
  by (metis skip_ws_Cons skip_ws_append skip_ws_split)

definition members_ok :: "nat \<Rightarrow> bytes list \<Rightarrow> frame list \<Rightarrow> bytes \<Rightarrow> bool" where
  "members_ok D keys st x \<longleftrightarrow>
     (\<exists>ks ms r'. x = ms @ CHR ''}'' # r' \<and> members_text (D - Suc (length st)) ks ms \<and> distinct ks \<and>
        set ks \<inter> set keys = {} \<and> after_ok D st r')"

lemma value_ok_head:
  "value_ok D st r \<longleftrightarrow> (\<exists>v r'. skip_whitespace r = v @ r' \<and> value_text (D - length st) v \<and> after_ok D st r')"
  (is "_ \<longleftrightarrow> ?R")
proof
  assume "value_ok D st r"
  then obtain w v r' where v: "r = w @ v @ r'" "ws w" "value_text (D - length st) v" "after_ok D st r'"
    by (auto simp: value_ok_def)
  then obtain c cs where "v = c # cs" "value_start c" using value_text_start by blast
  then have "skip_whitespace r = v @ r'" using v value_start_not by (simp add: skip_ws_Cons)
  then show ?R using v by blast
next
  assume ?R
  then show "value_ok D st r" using skip_ws_split [of r] unfolding value_ok_def by metis
qed

lemma value_in_array:
  "value_ok D (ArrayFrame # st) x \<longleftrightarrow>
     (\<exists>es r'. x = es @ CHR '']'' # r' \<and> elements_text (D - Suc (length st)) es \<and> after_ok D st r')"
proof
  assume "value_ok D (ArrayFrame # st) x"
  then obtain w v y where v: "x = w @ v @ y" "ws w" "value_text (D - Suc (length st)) v" "after_ok D (ArrayFrame # st) y"
    unfolding value_ok_def by fastforce
  from after_in_array_cases [OF v(4)] obtain u r' where u: "ws u" "after_ok D st r'"
    and y: "y = u @ CHR '']'' # r' \<or> (\<exists>es. y = u @ CHR '','' # es @ CHR '']'' # r' \<and> elements_text (D - Suc (length st)) es)"
    by blast
  from y show "\<exists>es r'. x = es @ CHR '']'' # r' \<and> elements_text (D - Suc (length st)) es \<and> after_ok D st r'"
  proof
    assume "y = u @ CHR '']'' # r'"
    then show ?thesis using v u by (intro exI [of _ "w @ v @ u"] exI [of _ r']) (simp add: element_last)
  next
    assume "\<exists>es. y = u @ CHR '','' # es @ CHR '']'' # r' \<and> elements_text (D - Suc (length st)) es"
    then obtain es where "y = u @ CHR '','' # es @ CHR '']'' # r'" "elements_text (D - Suc (length st)) es" by blast
    then show ?thesis using v u
      by (intro exI [of _ "w @ v @ u @ CHR '','' # es"] exI [of _ r']) (simp add: element_more)
  qed
next
  assume "\<exists>es r'. x = es @ CHR '']'' # r' \<and> elements_text (D - Suc (length st)) es \<and> after_ok D st r'"
  then obtain es r' where es: "elements_text (D - Suc (length st)) es" "x = es @ CHR '']'' # r'" "after_ok D st r'" by blast
  from es(1) show "value_ok D (ArrayFrame # st) x"
  proof cases
    case (element_last w v w')
    then show ?thesis using es(2,3) unfolding value_ok_def
      by (intro exI [of _ w] exI [of _ v] exI [of _ "w' @ CHR '']'' # r'"]) auto
  next
    case (element_more w v w' es')
    then show ?thesis using es(2,3) unfolding value_ok_def
      by (intro exI [of _ w] exI [of _ v] exI [of _ "w' @ CHR '','' # es' @ CHR '']'' # r'"]) auto
  qed
qed

lemma member_first:
  "members_ok D keys st x \<longleftrightarrow>
     (\<exists>w s k w' y. x = w @ s @ w' @ CHR '':'' # y \<and> ws w \<and> string_text s k \<and> is_utf8 k \<and> ws w' \<and> k \<notin> set keys \<and>
        value_ok D (ObjectFrame (k # keys) # st) y)"
proof
  assume "members_ok D keys st x"
  then obtain ks ms r' where m: "members_text (D - Suc (length st)) ks ms" "x = ms @ CHR ''}'' # r'" "distinct ks"
    "set ks \<inter> set keys = {}" "after_ok D st r'" by (auto simp: members_ok_def)
  from m(1) show "\<exists>w s k w' y. x = w @ s @ w' @ CHR '':'' # y \<and> ws w \<and> string_text s k \<and> is_utf8 k \<and> ws w' \<and>
      k \<notin> set keys \<and> value_ok D (ObjectFrame (k # keys) # st) y"
  proof cases
    case (member_last w s k w' u v u')
    then have "value_ok D (ObjectFrame (k # keys) # st) (u @ v @ u' @ CHR ''}'' # r')"
      using m(5) unfolding value_ok_def by (intro exI [of _ u] exI [of _ v] exI [of _ "u' @ CHR ''}'' # r'"]) auto
    then show ?thesis using member_last m(2,4)
      by (intro exI [of _ w] exI [of _ s] exI [of _ k] exI [of _ w'] exI [of _ "u @ v @ u' @ CHR ''}'' # r'"]) auto
  next
    case (member_more w s k w' u v u' ks' ms')
    then have "value_ok D (ObjectFrame (k # keys) # st) (u @ v @ u' @ CHR '','' # ms' @ CHR ''}'' # r')"
      using m(3-5) unfolding value_ok_def
      by (intro exI [of _ u] exI [of _ v] exI [of _ "u' @ CHR '','' # ms' @ CHR ''}'' # r'"]) auto
    then show ?thesis using member_more m(2,4)
      by (intro exI [of _ w] exI [of _ s] exI [of _ k] exI [of _ w']
          exI [of _ "u @ v @ u' @ CHR '','' # ms' @ CHR ''}'' # r'"]) auto
  qed
next
  assume "\<exists>w s k w' y. x = w @ s @ w' @ CHR '':'' # y \<and> ws w \<and> string_text s k \<and> is_utf8 k \<and> ws w' \<and>
      k \<notin> set keys \<and> value_ok D (ObjectFrame (k # keys) # st) y"
  then obtain w s k w' u v y where m: "x = w @ s @ w' @ CHR '':'' # u @ v @ y" "ws w" "string_text s k" "is_utf8 k" "ws w'"
    "k \<notin> set keys" "ws u" "value_text (D - Suc (length st)) v" "after_ok D (ObjectFrame (k # keys) # st) y"
    unfolding value_ok_def by fastforce
  from after_in_object_cases [OF m(9)] obtain u' r' where u': "ws u'" "after_ok D st r'"
    and y: "y = u' @ CHR ''}'' # r' \<or> (\<exists>ks ms. y = u' @ CHR '','' # ms @ CHR ''}'' # r' \<and>
        members_text (D - Suc (length st)) ks ms \<and> distinct ks \<and> set ks \<inter> set (k # keys) = {})" by blast
  from y show "members_ok D keys st x"
  proof
    assume "y = u' @ CHR ''}'' # r'"
    then show ?thesis using m u' unfolding members_ok_def
      by (intro exI [of _ "[k]"] exI [of _ "w @ s @ w' @ CHR '':'' # u @ v @ u'"] exI [of _ r']) (simp add: member_last)
  next
    assume "\<exists>ks ms. y = u' @ CHR '','' # ms @ CHR ''}'' # r' \<and>
        members_text (D - Suc (length st)) ks ms \<and> distinct ks \<and> set ks \<inter> set (k # keys) = {}"
    then obtain ks ms where "y = u' @ CHR '','' # ms @ CHR ''}'' # r'" "members_text (D - Suc (length st)) ks ms" "distinct ks"
      "set ks \<inter> set (k # keys) = {}" by blast
    then show ?thesis using m u' unfolding members_ok_def
      by (intro exI [of _ "k # ks"] exI [of _ "w @ s @ w' @ CHR '':'' # u @ v @ u' @ CHR '','' # ms"] exI [of _ r'])
         (auto simp: member_more)
  qed
qed

lemma after_in_array:
  "after_ok D (ArrayFrame # st) r \<longleftrightarrow>
     (\<exists>r'. skip_whitespace r = CHR '']'' # r' \<and> after_ok D st r') \<or>
     (\<exists>a. skip_whitespace r = CHR '','' # a \<and> value_ok D (ArrayFrame # st) a)"
proof -
  have "after_ok D (ArrayFrame # st) r \<longleftrightarrow>
      (\<exists>r'. (\<exists>w. ws w \<and> r = w @ CHR '']'' # r') \<and> after_ok D st r') \<or>
      (\<exists>r' es. (\<exists>w. ws w \<and> r = w @ CHR '','' # es @ CHR '']'' # r') \<and> elements_text (D - Suc (length st)) es \<and> after_ok D st r')"
    unfolding after_ok.simps by blast
  then show ?thesis unfolding ws_then [OF not_space(1)] ws_then [OF not_space(2)] value_in_array by blast
qed

lemma after_in_object:
  "after_ok D (ObjectFrame keys # st) r \<longleftrightarrow>
     (\<exists>r'. skip_whitespace r = CHR ''}'' # r' \<and> after_ok D st r') \<or>
     (\<exists>a. skip_whitespace r = CHR '','' # a \<and> members_ok D keys st a)"
proof -
  have "after_ok D (ObjectFrame keys # st) r \<longleftrightarrow>
      (\<exists>r'. (\<exists>w. ws w \<and> r = w @ CHR ''}'' # r') \<and> after_ok D st r') \<or>
      (\<exists>r' ks ms. (\<exists>w. ws w \<and> r = w @ CHR '','' # ms @ CHR ''}'' # r') \<and> members_text (D - Suc (length st)) ks ms \<and>
         distinct ks \<and> set ks \<inter> set keys = {} \<and> after_ok D st r')"
    unfolding after_ok.simps by blast
  then show ?thesis unfolding ws_then [OF not_space(1)] ws_then [OF not_space(3)] members_ok_def by blast
qed

lemma ws_ends_number: "ws w \<Longrightarrow> w = [] \<or> (\<not> is_digit (hd w) \<and> hd w \<notin> {CHR ''.'', CHR ''e'', CHR ''E''})"
  by (cases w) (auto simp: json_space_def is_digit_def)

lemma after_ok_ends: "after_ok D st r \<Longrightarrow> ends_number r"
proof (cases st)
  case Nil
  assume "after_ok D st r"
  then show ?thesis using Nil ws_ends_number by (auto simp: ends_number_def)
next
  case (Cons f st')
  assume "after_ok D st r"
  then obtain w c t where "ws w" "r = w @ c # t" "c \<in> {CHR '']'', CHR '','', CHR ''}''}"
    using Cons by (cases f) auto
  then show ?thesis using ws_ends_number [of w] by (cases w) (auto simp: ends_number_def is_digit_def)
qed

section \<open>The machine's turns\<close>

lemma scan_key_iff:
  assumes "sc_stack s = ObjectFrame keys # st" and "sc_rest s = skip_whitespace x"
  shows "(\<exists>s'. scan_key s = Inr s' \<and> value_ok D (sc_stack s') (sc_rest s')) \<longleftrightarrow> members_ok D keys st x"
proof
  assume "\<exists>s'. scan_key s = Inr s' \<and> value_ok D (sc_stack s') (sc_rest s')"
  then obtain s' where s': "scan_key s = Inr s'" "value_ok D (sc_stack s') (sc_rest s')" by blast
  obtain rest where rest: "skip_whitespace x = dquote # rest"
    using s'(1) assms by (cases "skip_whitespace x") (auto simp: scan_key_def split: if_splits)
  obtain k rest' where k: "scan_string True rest = Some (k, rest')"
    using s'(1) assms rest by (cases "scan_string True rest") (auto simp: scan_key_def)
  obtain y where y: "skip_whitespace rest' = CHR '':'' # y"
    using s'(1) assms rest k by (cases "skip_whitespace rest'") (auto simp: scan_key_def Let_def split: if_splits)
  have next_state: "k \<notin> set keys" "sc_rest s' = y" "sc_stack s' = ObjectFrame (k # keys) # st"
    using s'(1) assms rest k y by (auto simp: scan_key_def Let_def split: if_splits)
  obtain t where t: "dquote # rest = t @ rest'" "string_text t k" "is_utf8 k"
    using k [unfolded scan_string_iff] by blast
  obtain w where "ws w" "x = w @ dquote # rest" using skip_ws_split [of x] rest by metis
  moreover obtain w' where "ws w'" "rest' = w' @ CHR '':'' # y" using skip_ws_split [of rest'] y by metis
  ultimately have x: "x = w @ t @ w' @ CHR '':'' # y" "ws w" "ws w'" using t(1) by simp_all
  show "members_ok D keys st x" unfolding member_first
    by (rule exI [of _ w], rule exI [of _ t], rule exI [of _ k], rule exI [of _ w'], rule exI [of _ y])
       (use x t(2,3) next_state s'(2) in simp)
next
  assume "members_ok D keys st x"
  then obtain w t k w' y where x: "x = w @ t @ w' @ CHR '':'' # y" "ws w" "string_text t k" "is_utf8 k" "ws w'"
    "k \<notin> set keys" "value_ok D (ObjectFrame (k # keys) # st) y"
    unfolding member_first by blast
  obtain t' where t': "t = dquote # t'" using x(3) by (auto simp: string_text_def)
  have "skip_whitespace x = dquote # t' @ w' @ CHR '':'' # y" using x t' by (simp add: skip_ws_Cons)
  moreover have "scan_string True (t' @ w' @ CHR '':'' # y) = Some (k, w' @ CHR '':'' # y)"
    unfolding scan_string_iff using x(3,4) t' by (intro exI [of _ t]) simp
  moreover have "skip_whitespace (w' @ CHR '':'' # y) = CHR '':'' # y" using x(5) by (simp add: skip_ws_Cons)
  ultimately show "\<exists>s'. scan_key s = Inr s' \<and> value_ok D (sc_stack s') (sc_rest s')"
    using x(6,7) assms by (simp add: scan_key_def Let_def)
qed

lemma members_ok_start: "members_ok D keys st x \<Longrightarrow> \<exists>r. skip_whitespace x = dquote # r"
  unfolding member_first by (auto simp: string_text_def skip_ws_Cons)

lemma value_ok_start: "value_ok D st x \<Longrightarrow> \<exists>c r. skip_whitespace x = c # r \<and> value_start c"
  unfolding value_ok_head using value_text_start by fastforce

text \<open>A value by its first character.\<close>

lemma value_text_brace:
  assumes "value_text d (CHR ''{'' # v)"
  shows "\<exists>d'. d = Suc d' \<and>
    ((\<exists>w. v = w @ ''}'' \<and> ws w) \<or> (\<exists>ks ms. v = ms @ ''}'' \<and> members_text d' ks ms \<and> distinct ks))"
  using assms by cases (auto simp: string_text_def dest!: number_text_start)

lemma value_text_bracket:
  assumes "value_text d (CHR ''['' # v)"
  shows "\<exists>d'. d = Suc d' \<and> ((\<exists>w. v = w @ '']'' \<and> ws w) \<or> (\<exists>es. v = es @ '']'' \<and> elements_text d' es))"
  using assms by cases (auto simp: string_text_def dest!: number_text_start)

abbreviation value_at :: "nat \<Rightarrow> frame list \<Rightarrow> bytes \<Rightarrow> bool" where
  "value_at D st r \<equiv> \<exists>v r'. r = v @ r' \<and> value_text (D - length st) v \<and> after_ok D st r'"

lemma object_at:
  "value_at D st (CHR ''{'' # a) \<longleftrightarrow>
     length st < D \<and> ((\<exists>r'. skip_whitespace a = CHR ''}'' # r' \<and> after_ok D st r') \<or> members_ok D [] st a)"
proof
  assume "value_at D st (CHR ''{'' # a)"
  then obtain v r' where v: "CHR ''{'' # a = v @ r'" "value_text (D - length st) v" "after_ok D st r'" by blast
  then obtain v' where v': "v = CHR ''{'' # v'" "a = v' @ r'" using value_text_start by (cases v) fastforce+
  from value_text_brace [OF v(2) [unfolded v'(1)]] obtain d where d: "D - length st = Suc d"
    and or: "(\<exists>w. v' = w @ ''}'' \<and> ws w) \<or> (\<exists>ks ms. v' = ms @ ''}'' \<and> members_text d ks ms \<and> distinct ks)" by blast
  have D: "d = D - Suc (length st)" "length st < D" using d by linarith+
  from or show "length st < D \<and> ((\<exists>r'. skip_whitespace a = CHR ''}'' # r' \<and> after_ok D st r') \<or> members_ok D [] st a)"
  proof
    assume "\<exists>w. v' = w @ ''}'' \<and> ws w"
    then show ?thesis using v(3) v'(2) D(2) by (auto simp: skip_ws_Cons)
  next
    assume "\<exists>ks ms. v' = ms @ ''}'' \<and> members_text d ks ms \<and> distinct ks"
    then obtain ks ms where "a = ms @ CHR ''}'' # r'" "members_text d ks ms" "distinct ks" using v'(2) by auto
    then have "members_ok D [] st a" unfolding members_ok_def using D(1) v(3)
      by (intro exI [of _ ks] exI [of _ ms] exI [of _ r']) simp
    then show ?thesis using D(2) by blast
  qed
next
  assume "length st < D \<and> ((\<exists>r'. skip_whitespace a = CHR ''}'' # r' \<and> after_ok D st r') \<or> members_ok D [] st a)"
  then have D: "D - length st = Suc (D - Suc (length st))"
    and or: "(\<exists>r'. skip_whitespace a = CHR ''}'' # r' \<and> after_ok D st r') \<or> members_ok D [] st a" by auto
  from or show "value_at D st (CHR ''{'' # a)"
  proof
    assume "\<exists>r'. skip_whitespace a = CHR ''}'' # r' \<and> after_ok D st r'"
    then obtain r' w where "a = w @ CHR ''}'' # r'" "ws w" "after_ok D st r'" using skip_ws_split [of a] by metis
    then show ?thesis unfolding D
      by (intro exI [of _ "CHR ''{'' # w @ ''}''"] exI [of _ r']) (simp add: value_empty_object [simplified])
  next
    assume "members_ok D [] st a"
    then obtain ks ms r' where "a = ms @ CHR ''}'' # r'" "members_text (D - Suc (length st)) ks ms" "distinct ks"
      "after_ok D st r'" unfolding members_ok_def by blast
    then show ?thesis unfolding D
      by (intro exI [of _ "CHR ''{'' # ms @ ''}''"] exI [of _ r']) (auto intro: value_object [simplified])
  qed
qed

lemma array_at:
  "value_at D st (CHR ''['' # a) \<longleftrightarrow>
     length st < D \<and> ((\<exists>r'. skip_whitespace a = CHR '']'' # r' \<and> after_ok D st r') \<or> value_ok D (ArrayFrame # st) a)"
proof
  assume "value_at D st (CHR ''['' # a)"
  then obtain v r' where v: "CHR ''['' # a = v @ r'" "value_text (D - length st) v" "after_ok D st r'" by blast
  then obtain v' where v': "v = CHR ''['' # v'" "a = v' @ r'" using value_text_start by (cases v) fastforce+
  from value_text_bracket [OF v(2) [unfolded v'(1)]] obtain d where d: "D - length st = Suc d"
    and or: "(\<exists>w. v' = w @ '']'' \<and> ws w) \<or> (\<exists>es. v' = es @ '']'' \<and> elements_text d es)" by blast
  have D: "d = D - Suc (length st)" "length st < D" using d by linarith+
  from or show "length st < D \<and> ((\<exists>r'. skip_whitespace a = CHR '']'' # r' \<and> after_ok D st r') \<or> value_ok D (ArrayFrame # st) a)"
  proof
    assume "\<exists>w. v' = w @ '']'' \<and> ws w"
    then show ?thesis using v(3) v'(2) D(2) by (auto simp: skip_ws_Cons)
  next
    assume "\<exists>es. v' = es @ '']'' \<and> elements_text d es"
    then obtain es where "a = es @ CHR '']'' # r'" "elements_text d es" using v'(2) by auto
    then have "value_ok D (ArrayFrame # st) a" unfolding value_in_array using D(1) v(3)
      by (intro exI [of _ es] exI [of _ r']) simp
    then show ?thesis using D(2) by blast
  qed
next
  assume "length st < D \<and> ((\<exists>r'. skip_whitespace a = CHR '']'' # r' \<and> after_ok D st r') \<or> value_ok D (ArrayFrame # st) a)"
  then have D: "D - length st = Suc (D - Suc (length st))"
    and or: "(\<exists>r'. skip_whitespace a = CHR '']'' # r' \<and> after_ok D st r') \<or> value_ok D (ArrayFrame # st) a" by auto
  from or show "value_at D st (CHR ''['' # a)"
  proof
    assume "\<exists>r'. skip_whitespace a = CHR '']'' # r' \<and> after_ok D st r'"
    then obtain r' w where "a = w @ CHR '']'' # r'" "ws w" "after_ok D st r'" using skip_ws_split [of a] by metis
    then show ?thesis unfolding D
      by (intro exI [of _ "CHR ''['' # w @ '']''"] exI [of _ r']) (simp add: value_empty_array [simplified])
  next
    assume "value_ok D (ArrayFrame # st) a"
    then obtain es r' where "a = es @ CHR '']'' # r'" "elements_text (D - Suc (length st)) es" "after_ok D st r'"
      unfolding value_in_array by blast
    then show ?thesis unfolding D
      by (intro exI [of _ "CHR ''['' # es @ '']''"] exI [of _ r']) (auto intro: value_array [simplified])
  qed
qed

lemma string_at:
  "(\<exists>rest. map_option snd (scan_string False a) = Some rest \<and> after_ok D st rest) \<longleftrightarrow> value_at D st (dquote # a)"
proof
  assume "\<exists>rest. map_option snd (scan_string False a) = Some rest \<and> after_ok D st rest"
  then obtain k rest where scanned: "scan_string False a = Some (k, rest)" and after: "after_ok D st rest" by auto
  from scanned [unfolded scan_string_iff] obtain t where "dquote # a = t @ rest" "string_text t k" by blast
  then show "value_at D st (dquote # a)" using after value_string by metis
next
  assume "value_at D st (dquote # a)"
  then obtain v r' where v: "dquote # a = v @ r'" "value_text (D - length st) v" "after_ok D st r'" by blast
  then obtain v' where v': "v = dquote # v'" using value_text_start by (cases v) fastforce+
  from v(2) have "\<exists>k. string_text v k"
  proof cases
    case value_number
    then show ?thesis using number_text_start v' by fastforce
  qed (use v' in auto)
  then obtain k where "string_text v k" ..
  then have "scan_string False a = Some (k, r')" unfolding scan_string_iff using v(1) by auto
  then show "\<exists>rest. map_option snd (scan_string False a) = Some rest \<and> after_ok D st rest" using v(3) by simp
qed

lemma literal_at:
  assumes "(c, u) \<in> {(CHR ''t'', ''true''), (CHR ''f'', ''false''), (CHR ''n'', ''null'')}"
  shows "(\<exists>rest. scan_literal u (c # a) = Some rest \<and> after_ok D st rest) \<longleftrightarrow> value_at D st (c # a)"
proof
  assume "\<exists>rest. scan_literal u (c # a) = Some rest \<and> after_ok D st rest"
  then obtain rest where "c # a = u @ rest" "after_ok D st rest"
    by (auto simp: scan_literal_def prefix_def split: if_splits)
  moreover have "value_text (D - length st) u" using assms by (auto intro: value_word)
  ultimately show "value_at D st (c # a)" by metis
next
  assume "value_at D st (c # a)"
  then obtain v r' where v: "c # a = v @ r'" "value_text (D - length st) v" "after_ok D st r'" by blast
  then obtain v' where v': "v = c # v'" using value_text_start by (cases v) fastforce+
  from v(2) have "v = u" unfolding v' using assms
    by cases (auto simp: string_text_def dest!: number_text_start)
  then show "\<exists>rest. scan_literal u (c # a) = Some rest \<and> after_ok D st rest"
    using v by (auto simp: scan_literal_def prefix_def)
qed

lemma number_at:
  assumes "c = CHR ''-'' \<or> is_digit c"
  shows "(\<exists>rest. scan_number (c # a) = Some rest \<and> after_ok D st rest) \<longleftrightarrow> value_at D st (c # a)"
proof
  assume "\<exists>rest. scan_number (c # a) = Some rest \<and> after_ok D st rest"
  then obtain rest where rest: "scan_number (c # a) = Some rest" "after_ok D st rest" by blast
  then obtain n where "c # a = n @ rest" "number_text n" using scan_number_split by blast
  then show "value_at D st (c # a)" using rest(2) value_number by metis
next
  assume "value_at D st (c # a)"
  then obtain v r' where v: "c # a = v @ r'" "value_text (D - length st) v" "after_ok D st r'" by blast
  then obtain v' where v': "v = c # v'" using value_text_start by (cases v) fastforce+
  from v(2) have "number_text v" unfolding v' using assms by cases (auto simp: string_text_def)
  then show "\<exists>rest. scan_number (c # a) = Some rest \<and> after_ok D st rest"
    using v scan_number_append [OF _ after_ok_ends] by metis
qed

definition turn_ok :: "nat \<Rightarrow> content_fault + (scan_mode \<times> scanner) option \<Rightarrow> bool" where
  "turn_ok D t \<longleftrightarrow> (case t of Inl _ \<Rightarrow> False | Inr None \<Rightarrow> True | Inr (Some (mode, s)) \<Rightarrow> state_ok D mode s)"

lemma turn_ok_advance:
  "turn_ok D (advance_to rest s) \<longleftrightarrow> (\<exists>r. rest = Some r \<and> after_ok D (sc_stack s) r)"
  by (cases rest) (auto simp: advance_to_def turn_ok_def state_ok_def)

lemma turn_ok_key:
  assumes "sc_stack s = ObjectFrame keys # st" and "sc_rest s = skip_whitespace x"
  shows "turn_ok D (bind_res (scan_key s) (\<lambda>s. Inr (Some (AtValue, s)))) \<longleftrightarrow> members_ok D keys st x"
  unfolding scan_key_iff [OF assms, symmetric] by (cases "scan_key s") (auto simp: turn_ok_def state_ok_def)

lemma unat_bound: "unat (n :: u64) \<le> 2 ^ 64 - 1"
proof -
  have "unat n < 2 ^ LENGTH(64)" by (rule unsigned_less)
  then have "unat n < 2 ^ 64" unfolding len_num1 by (simp only: len_bit0 len_bit1 len_num1) simp
  then show ?thesis by linarith
qed

lemma scan_open_fits:
  assumes "rl_max depth \<noteq> - 1"
  shows "scan_open depth f s =
    (if length (sc_stack s) < unat (rl_max depth)
     then Inr (s\<lparr>sc_rest := tl (sc_rest s), sc_stack := f # sc_stack s,
                sc_containers := max (sc_containers s) (Suc (length (sc_stack s)))\<rparr>)
     else Inl (exceeded depth))"
proof -
  let ?n = "length (sc_stack s)"
  have ones: "unat (- 1 :: u64) = 2 ^ 64 - 1" by (simp add: unsigned_minus_1_eq_mask mask_eq_exp_minus_1)
  have "unat (rl_max depth) \<noteq> unat (- 1 :: u64)" using assms by (metis u64_of_unat)
  then have max: "unat (rl_max depth) < 2 ^ 64 - 1"
    using unat_bound [of "rl_max depth"] ones by simp
  have "rl_max depth < saturating_add (widen ?n) 1 \<longleftrightarrow> \<not> ?n < unat (rl_max depth)"
  proof (cases "?n < 2 ^ 64 - 1")
    case True
    then have n: "unat (u64_of ?n) = ?n" by simp
    then have "unat (u64_of ?n + 1) = Suc ?n" using True by (simp add: unat_word_ariths)
    then have "unat (saturating_add (widen ?n) 1) = Suc ?n" using n True by (simp add: saturating_add_def widen_def)
    then show ?thesis by (auto simp: word_less_nat_alt)
  next
    case False
    have "saturating_add (widen ?n) 1 = - 1"
    proof (cases "?n < 2 ^ 64")
      case True
      then have "?n = 2 ^ 64 - 1" using False by linarith
      then show ?thesis by (simp add: saturating_add_def widen_def)
    next
      case False
      then show ?thesis using ones by (simp add: saturating_add_def widen_def)
    qed
    then show ?thesis using False max ones by (simp add: word_less_nat_alt)
  qed
  then show ?thesis by (simp add: scan_open_def)
qed

lemma value_step_iff:
  assumes "rl_max depth \<noteq> - 1" and "D = unat (rl_max depth)"
  shows "turn_ok D (value_step depth s) \<longleftrightarrow> value_ok D (sc_stack s) (sc_rest s)"
proof (cases "skip_whitespace (sc_rest s)")
  case Nil
  then show ?thesis using value_ok_start [of D "sc_stack s" "sc_rest s"] by (auto simp: value_step_def turn_ok_def)
next
  case (Cons c a)
  let ?s = "s\<lparr>sc_rest := c # a\<rparr>" and ?st = "sc_stack s"
  have goal: "value_ok D ?st (sc_rest s) \<longleftrightarrow> value_at D ?st (c # a)" unfolding value_ok_head Cons ..
  consider "c = CHR ''{''" | "c = CHR ''[''" | "c = dquote"
    | "c \<in> {CHR ''t'', CHR ''f'', CHR ''n''}" | "c = CHR ''-'' \<or> is_digit c" | "\<not> value_start c"
    by (auto simp: value_start_def)
  then show ?thesis
  proof cases
    case 1
    let ?a = "skip_whitespace a"
    have closing: "\<not> members_ok D [] ?st a" if "?a \<noteq> [] \<and> hd ?a = CHR ''}''"
      using members_ok_start [of D "[]" ?st a] that by auto
    have not_closing: "(\<exists>r'. ?a = CHR ''}'' # r' \<and> after_ok D ?st r') \<longleftrightarrow>
        (?a \<noteq> [] \<and> hd ?a = CHR ''}'') \<and> after_ok D ?st (tl ?a)" by (cases ?a) auto
    show ?thesis unfolding goal 1 object_at
      using Cons 1 closing not_closing
      by (auto simp: value_step_def Let_def scan_open_fits [OF assms(1)] assms(2) turn_ok_def [of _ "Inl _"]
          turn_ok_key [where keys = "[]" and st = ?st and x = a])
         (simp_all add: turn_ok_def state_ok_def scan_close_def)
  next
    case 2
    let ?a = "skip_whitespace a"
    have closing: "\<not> value_ok D (ArrayFrame # ?st) a" if "?a \<noteq> [] \<and> hd ?a = CHR '']''"
      using value_ok_start [of D "ArrayFrame # ?st" a] that value_start_not by fastforce
    have not_closing: "(\<exists>r'. ?a = CHR '']'' # r' \<and> after_ok D ?st r') \<longleftrightarrow>
        (?a \<noteq> [] \<and> hd ?a = CHR '']'') \<and> after_ok D ?st (tl ?a)" by (cases ?a) auto
    have skip: "value_ok D (ArrayFrame # ?st) ?a \<longleftrightarrow> value_ok D (ArrayFrame # ?st) a"
      unfolding value_ok_head by (simp add: skip_whitespace_def)
    show ?thesis unfolding goal 2 array_at
      using Cons 2 closing not_closing skip
      by (auto simp: value_step_def Let_def scan_open_fits [OF assms(1)] assms(2) turn_ok_def state_ok_def scan_close_def)
  next
    case 3
    then show ?thesis unfolding goal 3 string_at [symmetric] using Cons 3 by (simp add: value_step_def Let_def turn_ok_advance)
  next
    case 4
    then show ?thesis unfolding goal using Cons
      by (auto simp: value_step_def Let_def turn_ok_advance literal_at)
  next
    case 5
    then have "c \<noteq> CHR ''{''" "c \<noteq> CHR ''[''" "c \<noteq> dquote" "c \<noteq> CHR ''t''" "c \<noteq> CHR ''f''" "c \<noteq> CHR ''n''"
      by (auto simp: is_digit_def)
    then show ?thesis unfolding goal number_at [OF 5, symmetric] using Cons 5
      by (simp add: value_step_def Let_def turn_ok_advance)
  next
    case 6
    then have "\<not> value_at D ?st (c # a)" using value_text_start by (fastforce simp: Cons_eq_append_conv)
    then show ?thesis unfolding goal using Cons 6 by (simp add: value_step_def Let_def turn_ok_def value_start_def)
  qed
qed

lemma after_step_iff: "turn_ok D (after_step s) \<longleftrightarrow> after_ok D (sc_stack s) (sc_rest s)"
proof (cases "sc_stack s")
  case Nil
  then show ?thesis by (auto simp: after_step_def Let_def turn_ok_def skip_ws_nil)
next
  case (Cons f st)
  show ?thesis
  proof (cases f)
    case ArrayFrame
    then show ?thesis unfolding Cons after_in_array [of D st "sc_rest s", folded ArrayFrame] using Cons
      by (cases "skip_whitespace (sc_rest s)") (auto simp: after_step_def Let_def turn_ok_def state_ok_def scan_close_def)
  next
    case (ObjectFrame keys)
    show ?thesis
    proof (cases "skip_whitespace (sc_rest s)")
      case Nil
      then show ?thesis unfolding Cons ObjectFrame after_in_object using Cons ObjectFrame
        by (simp add: after_step_def Let_def turn_ok_def)
    next
      case rest: (Cons c a)
      show ?thesis
      proof (cases "c = CHR '',''")
        case True
        then show ?thesis unfolding Cons ObjectFrame after_in_object using rest Cons ObjectFrame
          by (simp add: after_step_def Let_def turn_ok_key [where keys = keys and st = st and x = a])
      next
        case False
        then show ?thesis unfolding Cons ObjectFrame after_in_object using rest Cons ObjectFrame
          by (simp add: after_step_def Let_def turn_ok_def state_ok_def scan_close_def)
      qed
    qed
  qed
qed

section \<open>The scan\<close>

lemma scan_step_iff:
  assumes "rl_max depth \<noteq> - 1" and "D = unat (rl_max depth)"
  shows "turn_ok D (scan_step depth mode s) \<longleftrightarrow> state_ok D mode s"
  using value_step_iff [OF assms] after_step_iff by (cases mode) (simp_all add: scan_step_def state_ok_def)

lemma scan_run_iff:
  assumes "rl_max depth \<noteq> - 1" and "D = unat (rl_max depth)"
  shows "is_ok (scan_run depth mode s) \<longleftrightarrow> state_ok D mode s"
  using assms
proof (induction depth mode s rule: scan_run.induct)
  case (1 depth mode s)
  note step = scan_step_iff [OF 1(2,3), of mode s, symmetric] and run = scan_run.simps [of depth mode s]
  show ?case
  proof (cases "scan_step depth mode s")
    case (Inl fault)
    then show ?thesis using step run by (simp add: turn_ok_def)
  next
    case (Inr t)
    show ?thesis
    proof (cases t)
      case None
      then show ?thesis using step run Inr by (simp add: turn_ok_def)
    next
      case (Some p)
      obtain mode' s' where p: "p = (mode', s')" by (cases p)
      have "is_ok (scan_run depth mode' s') \<longleftrightarrow> state_ok D mode' s'"
        using 1(1) [OF Inr Some p [symmetric] 1(2,3)] .
      then show ?thesis using step run Inr Some p by (simp add: turn_ok_def)
    qed
  qed
qed

lemma json_text_start: "json_text d bs \<longleftrightarrow> value_ok d [] bs"
  unfolding json_text_def value_ok_def by auto

lemma scan_passes_text:
  assumes "rl_max depth \<noteq> - 1"
  shows "is_ok (scan bs depth) \<longleftrightarrow> json_text (unat (rl_max depth)) bs"
proof -
  have "is_ok (scan bs depth) \<longleftrightarrow> is_ok (scan_run depth AtValue (scanner_new bs))"
    by (cases "scan_run depth AtValue (scanner_new bs)") (simp_all add: scan_def)
  also have "\<dots> \<longleftrightarrow> value_ok (unat (rl_max depth)) [] bs"
    unfolding scan_run_iff [OF assms refl] by (simp add: state_ok_def scanner_new_def)
  finally show ?thesis unfolding json_text_start .
qed

text \<open>C33: With a depth limit short of the largest integer, the scan passes a document exactly when the document is a
  text of the JSON grammar: one value with white space around it, every object's decoded keys distinct, and never
  more containers inside one another than the limit.\<close>

theorem json_scan_accepts_iff:
  assumes "rl_max depth \<noteq> - 1"
  shows "is_ok (scan bs depth) \<longleftrightarrow> json_text (unat (rl_max depth)) bs"
  by (rule scan_passes_text [OF assms])

theorem json_scan_accepts_iff_witness:
  "is_ok (scan ''[[], [ ]]'' \<lparr>rl_resource = LR_JsonDepth, rl_max = 2\<rparr>)"
proof -
  have "value_text (Suc 0) (CHR ''['' # [] @ '']'')" by (rule value_empty_array) simp
  moreover have "value_text (Suc 0) (CHR ''['' # '' '' @ '']'')" by (rule value_empty_array) (simp add: json_space_def)
  ultimately have "elements_text (Suc 0) ([] @ ''[]'' @ [] @ CHR '','' # ('' '' @ ''[ ]'' @ []))"
    by (intro element_more element_last) (simp_all add: json_space_def)
  then have "value_text (Suc (Suc 0)) (CHR ''['' # ([] @ ''[]'' @ [] @ CHR '','' # ('' '' @ ''[ ]'' @ [])) @ '']'')"
    by (rule value_array)
  then have "value_ok 2 [] ''[[], [ ]]''" unfolding value_ok_head
    by (intro exI [of _ "''[[], [ ]]''"] exI [of _ "[]"]) (simp add: numeral_2_eq_2 skip_ws_Cons)
  then have "json_text (unat (rl_max \<lparr>rl_resource = LR_JsonDepth, rl_max = 2\<rparr>)) ''[[], [ ]]''"
    unfolding json_text_start by simp
  then show ?thesis
    using json_scan_accepts_iff [of "\<lparr>rl_resource = LR_JsonDepth, rl_max = 2\<rparr>" "''[[], [ ]]''"] by simp
qed

end
