(* ===== verification/Tar_Header.thy ===== *)
theory Tar_Header
  imports Content Rust_Text "HOL-Library.List_Lexorder"
begin

text \<open>
  What one header block and one extension payload say (\<open>src/content/walker.rs\<close>): the ustar fields, the
  numeric forms, PAX records and GNU long names, and the two policies on what is admitted. A block is
  512 bytes; a span outside of it does not occur.
\<close>

section \<open>The block\<close>

definition BLOCK :: nat where "BLOCK = 512"
definition BLOCK_U64 :: u64 where "BLOCK_U64 = 512"
definition MIN_ZERO_TAIL :: nat where "MIN_ZERO_TAIL = 1024"
definition MAX_ZERO_TAIL :: nat where "MAX_ZERO_TAIL = 1048576"

type_synonym span = "nat \<times> nat"

definition NAME :: span where "NAME = (0, 100)"
definition MODE :: span where "MODE = (100, 8)"
definition UID :: span where "UID = (108, 8)"
definition GID :: span where "GID = (116, 8)"
definition SIZE :: span where "SIZE = (124, 12)"
definition MTIME :: span where "MTIME = (136, 12)"
definition CHECKSUM :: span where "CHECKSUM = (148, 8)"
definition TYPEFLAG :: nat where "TYPEFLAG = 156"
definition LINKNAME :: span where "LINKNAME = (157, 100)"
definition POSIX_MAGIC :: span where "POSIX_MAGIC = (257, 6)"
definition POSIX_VERSION :: span where "POSIX_VERSION = (263, 2)"
definition GNU_MAGIC :: span where "GNU_MAGIC = (257, 8)"
definition DEVMAJOR :: span where "DEVMAJOR = (329, 8)"
definition DEVMINOR :: span where "DEVMINOR = (337, 8)"
definition PREFIX :: span where "PREFIX = (345, 155)"

definition POSIX_MAGIC_BYTES :: bytes where "POSIX_MAGIC_BYTES = ''ustar'' @ [CHR 0x00]"
definition POSIX_VERSION_BYTES :: bytes where "POSIX_VERSION_BYTES = ''00''"
definition GNU_MAGIC_BYTES :: bytes where "GNU_MAGIC_BYTES = ''ustar  '' @ [CHR 0x00]"
definition BASE256_MARKER :: nat where "BASE256_MARKER = 128"
definition BASE256_SIGN :: nat where "BASE256_SIGN = 64"
definition PAX_XATTR_PREFIX :: bytes where "PAX_XATTR_PREFIX = ''SCHILY.xattr.''"

definition span :: "bytes \<Rightarrow> span \<Rightarrow> bytes" where
  "span block s = take (snd s) (drop (fst s) block)"

datatype entry_kind = Regular | Hardlink | Symlink | CharDevice | BlockDevice | Directory | Fifo

record tar_entry =
  te_kind :: entry_kind
  te_name :: bytes
  te_link_target :: "bytes option"
  te_size :: u64
  te_header_offset :: u64
  te_data_offset :: u64
  te_data_len :: u64

definition strip_suffix_byte :: "byte \<Rightarrow> bytes \<Rightarrow> bytes option" where
  "strip_suffix_byte c bs = (if bs \<noteq> [] \<and> last bs = c then Some (butlast bs) else None)"

definition strip_dot_slash :: "bytes \<Rightarrow> bytes" where
  "strip_dot_slash name = (case strip_prefix ''./'' name of Some rest \<Rightarrow> rest | None \<Rightarrow> name)"

definition canonical_name :: "tar_entry \<Rightarrow> bytes" where
  "canonical_name e =
     (let name = (if te_name e = ''.'' then [] else strip_dot_slash (te_name e)) in
      case strip_suffix_byte CHR ''/'' name of Some stripped \<Rightarrow> stripped | None \<Rightarrow> name)"

section \<open>Fields\<close>

text \<open>\<open>try_fold\<close> with checked arithmetic.\<close>

fun checked_digits :: "u64 \<Rightarrow> (byte \<Rightarrow> u64 option) \<Rightarrow> u64 \<Rightarrow> bytes \<Rightarrow> u64 option" where
  "checked_digits base digit v [] = Some v"
| "checked_digits base digit v (c # cs) =
     Option.bind (digit c) (\<lambda>d. Option.bind (checked_mul v base) (\<lambda>v. Option.bind (checked_add v d)
     (\<lambda>v. checked_digits base digit v cs)))"

definition is_octal :: "byte \<Rightarrow> bool" where
  "is_octal c \<longleftrightarrow> CHR ''0'' \<le> c \<and> c \<le> CHR ''7''"

definition digit_value :: "byte \<Rightarrow> u64 option" where
  "digit_value c = Some (u64_of (ord c - 48))"

definition parse_octal :: "bytes \<Rightarrow> (u64 \<times> nat) option" where
  "parse_octal field =
     (let rest = dropWhile (\<lambda>c. c = CHR '' '') field;
          number = takeWhile is_octal rest;
          terminator = dropWhile is_octal rest
      in if list_all (\<lambda>c. c = CHR 0x00 \<or> c = CHR '' '') terminator
         then map_option (\<lambda>v. (v, length number)) (checked_digits 8 digit_value 0 number)
         else None)"

definition parse_numeric :: "bytes \<Rightarrow> tar_field \<Rightarrow> content_fault + u64" where
  "parse_numeric field which =
     (let fault = Malformed (MR_TarNumericField which) in
      case field of
        [] \<Rightarrow> Inl fault
      | first # rest \<Rightarrow>
          if ord first < BASE256_MARKER then ok_or fault (map_option fst (parse_octal field))
          else if ord first mod BASE256_MARKER \<ge> BASE256_SIGN then Inl fault
          else ok_or fault (checked_digits 256 (\<lambda>c. Some (u64_of (ord c))) (u64_of (ord first mod BASE256_SIGN)) rest))"

definition parse_name :: "bytes \<Rightarrow> tar_field \<Rightarrow> content_fault + bytes" where
  "parse_name field which =
     (case find_byte CHR 0x00 field of
        None \<Rightarrow> Inr field
      | Some nul \<Rightarrow>
          if list_all (\<lambda>c. c = CHR 0x00) (drop nul field) then Inr (take nul field)
          else Inl (Malformed (MR_TarNameField which)))"

definition signed_byte :: "byte \<Rightarrow> int" where
  "signed_byte c = (if ord c < 128 then int (ord c) else int (ord c) - 256)"

definition blank_checksum :: "bytes \<Rightarrow> bytes" where
  "blank_checksum block =
     map (\<lambda>(offset, c). if offset \<in> set [fst CHECKSUM ..< fst CHECKSUM + snd CHECKSUM] then CHR '' '' else c)
       (enumerate 0 block)"

definition verify_checksum :: "bytes \<Rightarrow> content_fault + unit" where
  "verify_checksum block =
     (case parse_octal (span block CHECKSUM) of
        Some (recorded, digits) \<Rightarrow>
          if digits = 0 then Inl (Malformed (MR_TarNumericField FieldChecksum))
          else
            (let bs = blank_checksum block in
             if unat recorded = sum_list (map ord bs) \<or>
                (unat recorded < 2 ^ 63 \<and> int (unat recorded) = sum_list (map signed_byte bs))
             then Inr () else Inl (Malformed MR_TarChecksum))
      | None \<Rightarrow> Inl (Malformed (MR_TarNumericField FieldChecksum)))"

datatype magic = Posix | Gnu

definition read_magic :: "bytes \<Rightarrow> content_fault + magic" where
  "read_magic block =
     (if span block POSIX_MAGIC = POSIX_MAGIC_BYTES \<and> span block POSIX_VERSION = POSIX_VERSION_BYTES then Inr Posix
      else if span block GNU_MAGIC = GNU_MAGIC_BYTES then Inr Gnu
      else Inl (Unsupported UN_TarFormat))"

record header_fields =
  hf_name :: bytes
  hf_linkname :: bytes
  hf_size :: u64

definition parse_fields :: "bytes \<Rightarrow> magic \<Rightarrow> byte \<Rightarrow> content_fault + header_fields" where
  "parse_fields block magic flag =
     bind_res (parse_name (span block NAME) FieldName) (\<lambda>name.
     bind_res (parse_numeric (span block MODE) FieldMode) (\<lambda>_.
     bind_res (parse_numeric (span block UID) FieldUid) (\<lambda>_.
     bind_res (parse_numeric (span block GID) FieldGid) (\<lambda>_.
     bind_res (parse_numeric (span block SIZE) FieldSize) (\<lambda>size.
     bind_res (parse_numeric (span block MTIME) FieldMtime) (\<lambda>_.
     bind_res (parse_name (span block LINKNAME) FieldLinkname) (\<lambda>linkname.
     bind_res
       (if flag = CHR ''3'' \<or> flag = CHR ''4'' then
          bind_res (parse_numeric (span block DEVMAJOR) FieldDevMajor) (\<lambda>_. parse_numeric (span block DEVMINOR) FieldDevMinor)
        else Inr 0) (\<lambda>_.
     bind_res (case magic of Posix \<Rightarrow> parse_name (span block PREFIX) FieldPrefix | Gnu \<Rightarrow> Inr []) (\<lambda>pre.
     Inr \<lparr>hf_name = (if pre = [] then name else pre @ ''/'' @ name), hf_linkname = linkname, hf_size = size\<rparr>)))))))))"

section \<open>Names\<close>

definition plain_segments :: "bytes \<Rightarrow> bool" where
  "plain_segments path \<longleftrightarrow> list_all (\<lambda>seg. seg \<noteq> [] \<and> seg \<noteq> ''.'' \<and> seg \<noteq> ''..'') (split CHR ''/'' path)"

definition is_plain_ascii :: "byte \<Rightarrow> bool" where
  "is_plain_ascii c \<longleftrightarrow> 32 \<le> ord c \<and> ord c < 127 \<and> c \<noteq> CHR 0x5C"

definition image_canonical :: "bytes \<Rightarrow> bool \<Rightarrow> bytes option" where
  "image_canonical name directory =
     (if \<not> list_all is_plain_ascii name then None
      else
        let checked = (\<lambda>name. if name = [] \<or> \<not> plain_segments name then None else Some name) in
        case strip_suffix_byte CHR ''/'' name of
          Some stripped \<Rightarrow> if directory then checked stripped else None
        | None \<Rightarrow> checked name)"

definition layer_name_ok :: "bytes \<Rightarrow> bool \<Rightarrow> bool" where
  "layer_name_ok name directory \<longleftrightarrow>
     list_all (\<lambda>c. 32 \<le> ord c \<and> c \<noteq> CHR 0x7F) name \<and>
     (let checked = (\<lambda>name. if name = ''.'' then directory
                            else let name = strip_dot_slash name in name \<noteq> [] \<and> plain_segments name) in
      case strip_suffix_byte CHR ''/'' name of
        Some stripped \<Rightarrow> directory \<and> checked stripped
      | None \<Rightarrow> checked name)"

section \<open>Extension records\<close>

definition pax_key :: "bytes \<Rightarrow> content_pax_key option" where
  "pax_key key =
     (if key = ''path'' then Some KeyPath
      else if key = ''linkpath'' then Some KeyLinkpath
      else if key = ''size'' then Some KeySize
      else if key = ''uid'' then Some KeyUid
      else if key = ''gid'' then Some KeyGid
      else if key = ''uname'' then Some KeyUname
      else if key = ''gname'' then Some KeyGname
      else if key = ''mtime'' then Some KeyMtime
      else if key = ''atime'' then Some KeyAtime
      else if key = ''ctime'' then Some KeyCtime
      else if starts_with PAX_XATTR_PREFIX key then Some KeyXattr
      else None)"

definition decimal_digit :: "byte \<Rightarrow> u64 option" where
  "decimal_digit c = (if is_ascii_digit c then Some (u64_of (ord c - 48)) else None)"

definition parse_decimal :: "bytes \<Rightarrow> u64 option" where
  "parse_decimal digits = (if digits = [] then None else checked_digits 10 decimal_digit 0 digits)"

definition all_digits :: "bytes \<Rightarrow> bool" where
  "all_digits part \<longleftrightarrow> part \<noteq> [] \<and> list_all is_ascii_digit part"

definition is_pax_time :: "bytes \<Rightarrow> bool" where
  "is_pax_time v =
     (let unsigned = (case strip_prefix ''-'' v of Some rest \<Rightarrow> rest | None \<Rightarrow> v) in
      case find_byte CHR ''.'' unsigned of
        Some dot \<Rightarrow> all_digits (take dot unsigned) \<and> all_digits (drop (Suc dot) unsigned)
      | None \<Rightarrow> all_digits unsigned)"

text \<open>One \<open>length key=value\<close> record with its newline: the key, the value and the rest of the payload.\<close>

definition split_pax_record :: "bytes \<Rightarrow> (bytes \<times> bytes \<times> bytes) option" where
  "split_pax_record payload =
     (let digits = takeWhile is_ascii_digit payload in
      if digits = [] \<or> hd digits = CHR ''0'' then None
      else
        Option.bind (map_option unat (parse_decimal digits)) (\<lambda>len.
        if length payload < len \<or> len < length digits then None
        else
          Option.bind (strip_prefix '' '' (drop (length digits) (take len payload))) (\<lambda>body.
          Option.bind (strip_suffix_byte CHR 0x0A body) (\<lambda>body.
          Option.bind (find_byte CHR ''='' body) (\<lambda>equals.
          if equals = 0 then None
          else Some (take equals body, drop (Suc equals) body, drop len payload))))))"

record pax =
  px_path :: "bytes option"
  px_linkpath :: "bytes option"
  px_size :: "u64 option"

definition pax_default :: pax where
  "pax_default = \<lparr>px_path = None, px_linkpath = None, px_size = None\<rparr>"

definition pax_apply :: "bool \<Rightarrow> bool \<Rightarrow> content_pax_key \<Rightarrow> bytes \<Rightarrow> pax \<Rightarrow> content_fault + pax" where
  "pax_apply long_name_pending long_link_pending key v pax =
     (let bad_value = Malformed (MR_PaxValue key); conflict = Malformed MR_ConflictingAuthority in
      if key \<in> {KeyPath, KeyLinkpath} then
        (if CHR 0x00 \<in> set v then Inl bad_value
         else if key = KeyPath then
           (if long_name_pending then Inl conflict else Inr (pax\<lparr>px_path := Some v\<rparr>))
         else
           (if long_link_pending then Inl conflict else Inr (pax\<lparr>px_linkpath := Some v\<rparr>)))
      else if key \<in> {KeySize, KeyUid, KeyGid} then
        bind_res (ok_or bad_value (parse_decimal v)) (\<lambda>number.
        Inr (if key = KeySize then pax\<lparr>px_size := Some number\<rparr> else pax))
      else if key \<in> {KeyMtime, KeyAtime, KeyCtime} then
        (if is_pax_time v then Inr pax else Inl bad_value)
      else Inr pax)"

lemma split_pax_record_shorter:
  assumes "split_pax_record payload = Some (key, v, tail)"
  shows "length tail < length payload"
proof -
  obtain len where len: "len \<le> length payload" "length (takeWhile is_ascii_digit payload) \<le> len" "tail = drop len payload"
    "takeWhile is_ascii_digit payload \<noteq> []"
    using assms by (auto simp: split_pax_record_def Let_def Option.bind_eq_Some_conv not_less split: if_splits)
  then have "0 < len" by (cases "takeWhile is_ascii_digit payload") auto
  then show ?thesis using len by simp
qed

function parse_pax_records :: "bool \<Rightarrow> bool \<Rightarrow> bytes list \<Rightarrow> pax \<Rightarrow> bytes \<Rightarrow> content_fault + pax" where
  "parse_pax_records long_name_pending long_link_pending keys pax rest =
     (if rest = [] then Inr pax
      else
        case split_pax_record rest of
          None \<Rightarrow> Inl (Malformed MR_PaxRecord)
        | Some (key, v, tail) \<Rightarrow>
            if key \<in> set keys then Inl (Malformed MR_PaxDuplicateKey)
            else
              (case pax_key key of
                 None \<Rightarrow> Inl (Unsupported UN_PaxKey)
               | Some k \<Rightarrow>
                   (case pax_apply long_name_pending long_link_pending k v pax of
                      Inl fault \<Rightarrow> Inl fault
                    | Inr pax' \<Rightarrow> parse_pax_records long_name_pending long_link_pending (key # keys) pax' tail)))"
  by pat_completeness auto
termination by (relation "measure (\<lambda>(_, _, _, _, rest). length rest)") (auto dest: split_pax_record_shorter)

declare parse_pax_records.simps [simp del]

definition parse_pax :: "bytes \<Rightarrow> bool \<Rightarrow> bool \<Rightarrow> content_fault + pax" where
  "parse_pax payload long_name_pending long_link_pending =
     parse_pax_records long_name_pending long_link_pending [] pax_default payload"

definition gnu_payload :: "bytes \<Rightarrow> content_fault + bytes" where
  "gnu_payload payload =
     (let v = rev (dropWhile (\<lambda>c. c = CHR 0x00) (rev payload)) in
      if CHR 0x00 \<in> set v then Inl (Malformed MR_ExtensionPayload) else Inr v)"

datatype extension = ExtPax | ExtLongName | ExtLongLink

record pending =
  pd_pax :: "pax option"
  pd_long_name :: "bytes option"
  pd_long_link :: "bytes option"

definition pending_default :: pending where
  "pending_default = \<lparr>pd_pax = None, pd_long_name = None, pd_long_link = None\<rparr>"

definition pending_any :: "pending \<Rightarrow> bool" where
  "pending_any p \<longleftrightarrow> pd_pax p \<noteq> None \<or> pd_long_name p \<noteq> None \<or> pd_long_link p \<noteq> None"

definition refuse_duplicate :: "extension \<Rightarrow> pending \<Rightarrow> content_fault + unit" where
  "refuse_duplicate ext p =
     (let present = (case ext of ExtPax \<Rightarrow> pd_pax p \<noteq> None | ExtLongName \<Rightarrow> pd_long_name p \<noteq> None
                     | ExtLongLink \<Rightarrow> pd_long_link p \<noteq> None) in
      if present then Inl (Malformed MR_DuplicateExtension) else Inr ())"

definition pending_record :: "extension \<Rightarrow> bytes \<Rightarrow> pending \<Rightarrow> content_fault + pending" where
  "pending_record ext payload p =
     (let conflict = Malformed MR_ConflictingAuthority in
      case ext of
        ExtPax \<Rightarrow>
          bind_res (parse_pax payload (pd_long_name p \<noteq> None) (pd_long_link p \<noteq> None)) (\<lambda>pax.
          Inr (p\<lparr>pd_pax := Some pax\<rparr>))
      | ExtLongName \<Rightarrow>
          bind_res (gnu_payload payload) (\<lambda>name.
          if Option.bind (pd_pax p) px_path \<noteq> None then Inl conflict else Inr (p\<lparr>pd_long_name := Some name\<rparr>))
      | ExtLongLink \<Rightarrow>
          bind_res (gnu_payload payload) (\<lambda>link.
          if Option.bind (pd_pax p) px_linkpath \<noteq> None then Inl conflict else Inr (p\<lparr>pd_long_link := Some link\<rparr>)))"

end
