(* ===== verification/Tar_Walker.thy ===== *)
theory Tar_Walker
  imports Tar_Header
begin

text \<open>
  The pull-based tar walker of \<open>src/content/walker.rs\<close>: its two policies and the loop that skips what was left of
  an entry, reads the next header and admits it, over the counting reader. The walker's state is passed
  explicitly; every operation returns a fault or a value with the walker as it left it. A budget the code
  shares by reference is held in the state.
\<close>

section \<open>Policies\<close>

record image_rules =
  ir_entries :: budget
  ir_path :: resource_limit
  ir_seen :: "(bytes \<times> entry_kind) list"

record layer_rules =
  lr_entries :: budget
  lr_extension_total :: budget
  lr_extension :: resource_limit
  lr_path :: resource_limit
  lr_link :: resource_limit
  lr_pending :: pending

datatype rules = Image image_rules | Layer layer_rules

datatype entry_policy = ImageArchive | LayerPolicy budget budget

datatype typeflag = EntryFlag entry_kind | ExtensionFlag extension

record admitted =
  ad_name :: bytes
  ad_link_target :: "bytes option"
  ad_size :: u64

text \<open>The first name of the ordered map from a bound on.\<close>

definition range_first :: "bytes \<Rightarrow> (bytes \<times> entry_kind) list \<Rightarrow> bytes option" where
  "range_first lower seen =
     (case sort (filter (\<lambda>name. lower \<le> name) (map fst seen)) of [] \<Rightarrow> None | name # _ \<Rightarrow> Some name)"

definition slash_offsets :: "bytes \<Rightarrow> nat list" where
  "slash_offsets canonical = filter (\<lambda>i. canonical ! i = CHR ''/'') [0 ..< length canonical]"

definition image_record :: "bytes \<Rightarrow> entry_kind \<Rightarrow> image_rules \<Rightarrow> content_fault + image_rules" where
  "image_record canonical kind r =
     (let seen = ir_seen r; conflict = Malformed MR_PathConflict in
      case map_of seen canonical of
        Some existing \<Rightarrow> Inl (if existing = kind then Malformed MR_DuplicatePath else conflict)
      | None \<Rightarrow>
          if list_ex (\<lambda>offset. map_of seen (take offset canonical) = Some Regular) (slash_offsets canonical)
          then Inl conflict
          else
            (let beneath = canonical @ ''/'' in
             if kind = Regular \<and> (case range_first beneath seen of Some name \<Rightarrow> prefix beneath name | None \<Rightarrow> False)
             then Inl conflict
             else Inr (r\<lparr>ir_seen := (canonical, kind) # seen\<rparr>)))"

definition image_admit :: "entry_kind \<Rightarrow> header_fields \<Rightarrow> image_rules \<Rightarrow> content_fault + admitted \<times> image_rules" where
  "image_admit kind header r =
     (if rl_max (ir_path r) < widen (length (hf_name header)) then Inl (exceeded (ir_path r))
      else
        let directory = (kind = Directory) in
        bind_res (ok_or (Malformed MR_UnsafePath) (image_canonical (hf_name header) directory)) (\<lambda>canonical.
        if directory \<and> hf_size header \<noteq> 0 then Inl (Malformed MR_NonRegularWithData)
        else
          bind_res (image_record canonical kind r) (\<lambda>r.
          Inr (\<lparr>ad_name = hf_name header, ad_link_target = None, ad_size = hf_size header\<rparr>, r))))"

definition or_else :: "'a option \<Rightarrow> 'a option \<Rightarrow> 'a option" where
  "or_else a b = (case a of None \<Rightarrow> b | Some x \<Rightarrow> Some x)"

definition unwrap_or :: "'a option \<Rightarrow> 'a \<Rightarrow> 'a" where
  "unwrap_or a d = (case a of None \<Rightarrow> d | Some x \<Rightarrow> x)"

text \<open>The link target an entry has; \<open>None\<close> when a link was announced for an entry that is none.\<close>

definition layer_link :: "entry_kind \<Rightarrow> bytes option \<Rightarrow> bytes \<Rightarrow> content_fault + bytes option" where
  "layer_link kind explicit linkname =
     (if kind \<in> {Hardlink, Symlink} then Inr (Some (unwrap_or explicit linkname))
      else if explicit \<noteq> None then Inl (Malformed MR_LinkOnNonLink)
      else Inr None)"

definition layer_checks :: "entry_kind \<Rightarrow> admitted \<Rightarrow> layer_rules \<Rightarrow> content_fault + unit" where
  "layer_checks kind a r =
     (let name = ad_name a; target = ad_link_target a in
      if rl_max (lr_path r) < widen (length name) then Inl (exceeded (lr_path r))
      else if (case target of Some t \<Rightarrow> rl_max (lr_link r) < widen (length t) | None \<Rightarrow> False) then Inl (exceeded (lr_link r))
      else if \<not> layer_name_ok name (kind = Directory) then Inl (Malformed MR_UnsafePath)
      else if kind = Hardlink \<and> \<not> (case target of Some t \<Rightarrow> layer_name_ok t False | None \<Rightarrow> False)
        then Inl (Malformed MR_UnsafePath)
      else if kind \<noteq> Regular \<and> ad_size a \<noteq> 0 then Inl (Malformed MR_NonRegularWithData)
      else Inr ())"

text \<open>The pending records are taken whether the entry is admitted or not.\<close>

definition layer_admit :: "entry_kind \<Rightarrow> header_fields \<Rightarrow> layer_rules \<Rightarrow> (content_fault + admitted) \<times> layer_rules" where
  "layer_admit kind header r =
     (let p = lr_pending r;
          pax = unwrap_or (pd_pax p) pax_default;
          name = unwrap_or (or_else (px_path pax) (pd_long_name p)) (hf_name header);
          n = unwrap_or (px_size pax) (hf_size header)
      in (bind_res (layer_link kind (or_else (px_linkpath pax) (pd_long_link p)) (hf_linkname header)) (\<lambda>target.
            let a = \<lparr>ad_name = name, ad_link_target = target, ad_size = n\<rparr> in
            bind_res (layer_checks kind a r) (\<lambda>_. Inr a)),
          r\<lparr>lr_pending := pending_default\<rparr>))"

definition has_pending :: "rules \<Rightarrow> bool" where
  "has_pending rs = (case rs of Image _ \<Rightarrow> False | Layer r \<Rightarrow> pending_any (lr_pending r))"

definition count_header :: "rules \<Rightarrow> content_fault + rules" where
  "count_header rs =
     (case rs of
        Image r \<Rightarrow> bind_res (budget_charge 1 (ir_entries r)) (\<lambda>b. Inr (Image (r\<lparr>ir_entries := b\<rparr>)))
      | Layer r \<Rightarrow> bind_res (budget_charge 1 (lr_entries r)) (\<lambda>b. Inr (Layer (r\<lparr>lr_entries := b\<rparr>))))"

definition classify :: "rules \<Rightarrow> byte \<Rightarrow> typeflag option" where
  "classify rs flag =
     (if flag = CHR ''0'' \<or> flag = CHR 0x00 then Some (EntryFlag Regular)
      else if flag = CHR ''5'' then Some (EntryFlag Directory)
      else
        case rs of
          Image _ \<Rightarrow> None
        | Layer _ \<Rightarrow>
            if flag = CHR ''1'' then Some (EntryFlag Hardlink)
            else if flag = CHR ''2'' then Some (EntryFlag Symlink)
            else if flag = CHR ''3'' then Some (EntryFlag CharDevice)
            else if flag = CHR ''4'' then Some (EntryFlag BlockDevice)
            else if flag = CHR ''6'' then Some (EntryFlag Fifo)
            else if flag = CHR ''x'' then Some (ExtensionFlag ExtPax)
            else if flag = CHR ''L'' then Some (ExtensionFlag ExtLongName)
            else if flag = CHR ''K'' then Some (ExtensionFlag ExtLongLink)
            else None)"

definition admit :: "entry_kind \<Rightarrow> header_fields \<Rightarrow> rules \<Rightarrow> (content_fault + admitted) \<times> rules" where
  "admit kind header rs =
     (case rs of
        Image r \<Rightarrow>
          (case image_admit kind header r of Inl fault \<Rightarrow> (Inl fault, rs) | Inr (a, r') \<Rightarrow> (Inr a, Image r'))
      | Layer r \<Rightarrow> (case layer_admit kind header r of (out, r') \<Rightarrow> (out, Layer r')))"

definition padded_len :: "u64 \<Rightarrow> u64 \<Rightarrow> content_fault + u64" where
  "padded_len data_offset n =
     (let overflow = Malformed MR_OffsetOverflow in
      bind_res (ok_or overflow (checked_add data_offset n)) (\<lambda>_.
      bind_res (ok_or overflow (let up = (unat n + 511) div 512 * 512 in if up < 2 ^ 64 then Some (u64_of up) else None))
        (\<lambda>padded.
      bind_res (ok_or overflow (checked_add data_offset padded)) (\<lambda>_. Inr padded))))"

section \<open>The walker\<close>

record 's walker =
  wk_source :: "'s counting"
  wk_rules :: rules
  wk_copy_buffer :: resource_limit
  wk_unread_data :: u64
  wk_unread_padding :: u64
  wk_skip :: nat
  wk_latch :: latch
  wk_finished :: bool

definition walker_new :: "'s counting \<Rightarrow> entry_policy \<Rightarrow> content_limits \<Rightarrow> 's walker" where
  "walker_new source policy limits =
     (let lim = limits_resource_limit limits in
      \<lparr>wk_source = source,
       wk_rules =
         (case policy of
            ImageArchive \<Rightarrow>
              Image \<lparr>ir_entries = budget_new (lim LR_ImageEntries), ir_path = lim LR_ImagePathBytes, ir_seen = []\<rparr>
          | LayerPolicy entries extension_total \<Rightarrow>
              Layer \<lparr>lr_entries = entries, lr_extension_total = extension_total, lr_extension = lim LR_LayerExtension,
                     lr_path = lim LR_LayerPathBytes, lr_link = lim LR_LayerLinkTargetBytes, lr_pending = pending_default\<rparr>),
       wk_copy_buffer = lim LR_CopyBuffer, wk_unread_data = 0, wk_unread_padding = 0, wk_skip = 0,
       wk_latch = None, wk_finished = False\<rparr>)"

text \<open>The steps of an operation: a fault ends it.\<close>

fun step_then :: "('e + 'a) \<times> 'w \<Rightarrow> ('a \<Rightarrow> 'w \<Rightarrow> ('e + 'b) \<times> 'w) \<Rightarrow> ('e + 'b) \<times> 'w" where
  "step_then (Inl e, w) f = (Inl e, w)"
| "step_then (Inr x, w) f = f x w"

definition with_source ::
  "('s counting \<Rightarrow> (content_fault + 'a) \<times> 's counting) \<Rightarrow> 's walker \<Rightarrow> (content_fault + 'a) \<times> 's walker" where
  "with_source f w = (case f (wk_source w) of (out, src) \<Rightarrow> (out, w\<lparr>wk_source := src\<rparr>))"

text \<open>\<open>skip_unread\<close>: chunks of the skip buffer, until nothing is left.\<close>

function skip_left :: "'s source \<Rightarrow> nat \<Rightarrow> u64 \<Rightarrow> 's counting \<Rightarrow> (content_fault + unit) \<times> 's counting" where
  "skip_left rd buf_len left r =
     (if left = 0 then (Inr (), r)
      else
        case counting_read rd (chunk_len buf_len left) r of
          (Inl fault, r') \<Rightarrow> (Inl fault, r')
        | (Inr window, r') \<Rightarrow>
            if window = [] then (Inl (Malformed MR_Truncated), r')
            else skip_left rd buf_len (saturating_sub left (widen (length window))) r')"
  by pat_completeness auto
termination
proof (relation "measure (\<lambda>(_, _, left, _). unat left)", goal_cases)
  case (2 rd buf_len left r out r' window)
  have "0 < unat left" using 2(1) by (metis gr_zeroI u64_of_unat unat_0 word_unat_eq_iff)
  moreover have "0 < unat (widen (length window))"
    using 2 by (auto simp: widen_def unsigned_minus_1_eq_mask mask_eq_exp_minus_1)
  ultimately show ?case by simp
qed simp

declare skip_left.simps [simp del]

definition skip_unread :: "'s source \<Rightarrow> 's walker \<Rightarrow> (content_fault + unit) \<times> 's walker" where
  "skip_unread rd w =
     (case checked_add (wk_unread_data w) (wk_unread_padding w) of
        None \<Rightarrow> (Inl (Malformed MR_OffsetOverflow), w)
      | Some left \<Rightarrow>
          let w = w\<lparr>wk_unread_data := 0, wk_unread_padding := 0\<rparr> in
          if left > 0 \<and> wk_skip w = 0 then
            (case alloc_len (rl_max (wk_copy_buffer w)) (wk_copy_buffer w) of
               Inl fault \<Rightarrow> (Inl fault, w)
             | Inr n \<Rightarrow> with_source (skip_left rd n left) (w\<lparr>wk_skip := n\<rparr>))
          else with_source (skip_left rd (wk_skip w) left) w)"

text \<open>The bytes of the zero tail, one at a time.\<close>

fun tail_bytes :: "nat \<Rightarrow> bytes \<Rightarrow> content_fault + nat" where
  "tail_bytes tail [] = Inr tail"
| "tail_bytes tail (c # cs) =
     (if MAX_ZERO_TAIL < Suc tail then Inl (Malformed MR_ZeroTailTooLong)
      else if c \<noteq> CHR 0x00 then Inl (Malformed MR_TrailingData)
      else tail_bytes (Suc tail) cs)"

lemma tail_bytes_grows: "tail_bytes tail cs = Inr tail' \<Longrightarrow>
  tail' = tail + length cs \<and> (cs \<noteq> [] \<longrightarrow> tail' \<le> MAX_ZERO_TAIL) \<and> set cs \<subseteq> {CHR 0x00}"
proof (induction cs arbitrary: tail)
  case (Cons c cs)
  then have fits: "Suc tail \<le> MAX_ZERO_TAIL" "c = CHR 0x00" "tail_bytes (Suc tail) cs = Inr tail'"
    by (auto split: if_splits)
  from Cons.IH [OF fits(3)] show ?case using fits by (cases cs) auto
qed simp

function finish_tail_from :: "'s source \<Rightarrow> nat \<Rightarrow> 's counting \<Rightarrow> (content_fault + unit) \<times> 's counting" where
  "finish_tail_from rd tail r =
     (case counting_read rd (chunk_len BLOCK (u64_of (MAX_ZERO_TAIL + 1 - tail))) r of
        (Inl fault, r') \<Rightarrow> (Inl fault, r')
      | (Inr window, r') \<Rightarrow>
          if window = [] then
            (if MIN_ZERO_TAIL \<le> tail \<and> tail mod BLOCK = 0 then Inr () else Inl (Malformed MR_Truncated), r')
          else
            (case tail_bytes tail window of
               Inl fault \<Rightarrow> (Inl fault, r')
             | Inr tail' \<Rightarrow> finish_tail_from rd tail' r'))"
  by pat_completeness auto
termination
  by (relation "measure (\<lambda>(_, tail, _). MAX_ZERO_TAIL + 1 - tail)") 
    (auto dest!: tail_bytes_grows simp: diff_less_mono2 neq_Nil_conv)

declare finish_tail_from.simps [simp del]

definition finish_tail :: "'s source \<Rightarrow> 's walker \<Rightarrow> (content_fault + unit) \<times> 's walker" where
  "finish_tail rd w = with_source (finish_tail_from rd BLOCK) w"

text \<open>\<open>check_available\<close> on the walker's source.\<close>

definition source_has :: "u64 \<Rightarrow> 's walker \<Rightarrow> (content_fault + unit) \<times> 's walker" where
  "source_has n w = (check_available n (wk_source w), w)"

definition read_extension ::
  "'s source \<Rightarrow> extension \<Rightarrow> u64 \<Rightarrow> u64 \<Rightarrow> byte \<Rightarrow> 's walker \<Rightarrow> (content_fault + unit) \<times> 's walker" where
  "read_extension rd ext len data_offset flag w =
     (case wk_rules w of
        Image _ \<Rightarrow> (Inl (Unsupported (UN_EntryType flag)), w)
      | Layer layer \<Rightarrow>
          step_then (refuse_duplicate ext (lr_pending layer), w) (\<lambda>_ w.
          if rl_max (lr_extension layer) < len then (Inl (exceeded (lr_extension layer)), w)
          else
            case budget_charge len (lr_extension_total layer) of
              Inl fault \<Rightarrow> (Inl fault, w)
            | Inr b \<Rightarrow>
                let layer = layer\<lparr>lr_extension_total := b\<rparr>; w = w\<lparr>wk_rules := Layer layer\<rparr> in
                step_then (padded_len data_offset len, w) (\<lambda>padded w.
                step_then (source_has padded w) (\<lambda>_ w.
                step_then (alloc_len len (lr_extension layer), w) (\<lambda>n w.
                step_then (with_source (read_full (counting_read rd) n) w) (\<lambda>payload w.
                let w = w\<lparr>wk_unread_padding := padded - len\<rparr> in
                case pending_record ext payload (lr_pending layer) of
                  Inl fault \<Rightarrow> (Inl fault, w)
                | Inr p \<Rightarrow> (Inr (), w\<lparr>wk_rules := Layer (layer\<lparr>lr_pending := p\<rparr>)\<rparr>)))))))"

text \<open>
  One turn of \<open>advance\<close>: \<open>Inr None\<close> asks for another, after an extension record; otherwise the result of
  the call. \<open>rules_step\<close> runs an operation of the policy.
\<close>

definition rules_step :: "(rules \<Rightarrow> (content_fault + 'a) \<times> rules) \<Rightarrow> 's walker \<Rightarrow> (content_fault + 'a) \<times> 's walker" where
  "rules_step f w = (case f (wk_rules w) of (out, rs) \<Rightarrow> (out, w\<lparr>wk_rules := rs\<rparr>))"

definition counted :: "rules \<Rightarrow> (content_fault + unit) \<times> rules" where
  "counted rs = (case count_header rs of Inl fault \<Rightarrow> (Inl fault, rs) | Inr rs' \<Rightarrow> (Inr (), rs'))"

definition admit_entry ::
  "entry_kind \<Rightarrow> header_fields \<Rightarrow> u64 \<Rightarrow> u64 \<Rightarrow> 's walker \<Rightarrow> (content_fault + tar_entry) \<times> 's walker" where
  "admit_entry kind header header_offset data_offset w =
     step_then (rules_step (admit kind header) w) (\<lambda>a w.
     step_then (padded_len data_offset (ad_size a), w) (\<lambda>padded w.
     step_then (source_has padded w) (\<lambda>_ w.
     (Inr \<lparr>te_kind = kind, te_name = ad_name a, te_link_target = ad_link_target a, te_size = ad_size a,
           te_header_offset = header_offset, te_data_offset = data_offset, te_data_len = ad_size a\<rparr>,
      w\<lparr>wk_unread_data := ad_size a, wk_unread_padding := padded - ad_size a\<rparr>))))"

definition read_header ::
  "'s source \<Rightarrow> bytes \<Rightarrow> u64 \<Rightarrow> 's walker \<Rightarrow> (content_fault + tar_entry option) \<times> 's walker" where
  "read_header rd block header_offset w =
     step_then (rules_step counted w) (\<lambda>_ w.
     step_then (verify_checksum block, w) (\<lambda>_ w.
     step_then (read_magic block, w) (\<lambda>magic w.
     let flag = block ! TYPEFLAG in
     step_then (ok_or (Unsupported (UN_EntryType flag)) (classify (wk_rules w) flag), w) (\<lambda>typeflag w.
     step_then (parse_fields block magic flag, w) (\<lambda>header w.
     step_then (ok_or (Malformed MR_OffsetOverflow) (checked_add header_offset BLOCK_U64), w) (\<lambda>data_offset w.
     case typeflag of
       ExtensionFlag ext \<Rightarrow>
         step_then (read_extension rd ext (hf_size header) data_offset flag w) (\<lambda>_ w. (Inr None, w))
     | EntryFlag kind \<Rightarrow>
         step_then (admit_entry kind header header_offset data_offset w) (\<lambda>e w. (Inr (Some e), w))))))))"

definition advance_turn :: "'s source \<Rightarrow> 's walker \<Rightarrow> (content_fault + tar_entry option option) \<times> 's walker" where
  "advance_turn rd w =
     step_then (skip_unread rd w) (\<lambda>_ w.
     let header_offset = cr_position (wk_source w) in
     step_then (with_source (read_full (counting_read rd) BLOCK) w) (\<lambda>block w.
     if list_all (\<lambda>c. c = CHR 0x00) block then
       (if has_pending (wk_rules w) then (Inl (Malformed MR_DanglingExtension), w)
        else step_then (finish_tail rd w) (\<lambda>_ w. (Inr (Some None), w\<lparr>wk_finished := True\<rparr>)))
     else
       step_then (read_header rd block header_offset w) (\<lambda>e w. (Inr (map_option Some e), w))))"

text \<open>Every turn but the last takes a block from the allowance of the source, so the turns are bounded.\<close>

fun advance :: "nat \<Rightarrow> 's source \<Rightarrow> 's walker \<Rightarrow> ((content_fault + tar_entry option) \<times> 's walker) option" where
  "advance 0 rd w = None"
| "advance (Suc fuel) rd w =
     (case advance_turn rd w of
        (Inl fault, w') \<Rightarrow> Some (Inl fault, w')
      | (Inr None, w') \<Rightarrow> advance fuel rd w'
      | (Inr (Some e), w') \<Rightarrow> Some (Inr e, w'))"

definition next_entry :: "'s source \<Rightarrow> 's walker \<Rightarrow> ((content_fault + tar_entry option) \<times> 's walker) option" where
  "next_entry rd w =
     (case latch_check (wk_latch w) of
        Inl fault \<Rightarrow> Some (Inl fault, w)
      | Inr _ \<Rightarrow>
          if wk_finished w then Some (Inr None, w)
          else
            map_option (\<lambda>(out, w'). case out of
                Inl fault \<Rightarrow> (Inl fault, w'\<lparr>wk_latch := latch_record fault (wk_latch w')\<rparr>)
              | Inr e \<Rightarrow> (Inr e, w'))
              (advance (Suc (unat (counting_remaining (wk_source w)))) rd w))"

text \<open>The reader of the current entry.\<close>

definition read_data :: "'s source \<Rightarrow> nat \<Rightarrow> 's walker \<Rightarrow> (content_fault + bytes) \<times> 's walker" where
  "read_data rd buf_len w =
     (if buf_len = 0 \<or> wk_unread_data w = 0 then (Inr [], w)
      else
        step_then (with_source (counting_read rd (chunk_len buf_len (wk_unread_data w))) w) (\<lambda>window w.
        if window = [] then (Inl (Malformed MR_Truncated), w)
        else (Inr window, w\<lparr>wk_unread_data := saturating_sub (wk_unread_data w) (widen (length window))\<rparr>)))"

definition entry_read :: "'s source \<Rightarrow> nat \<Rightarrow> 's walker \<Rightarrow> (content_fault + bytes) \<times> 's walker" where
  "entry_read rd buf_len w =
     (case latch_check (wk_latch w) of
        Inl fault \<Rightarrow> (Inl fault, w)
      | Inr _ \<Rightarrow>
          (case read_data rd buf_len w of
             (Inl fault, w') \<Rightarrow> (Inl fault, w'\<lparr>wk_latch := latch_record fault (wk_latch w')\<rparr>)
           | (Inr window, w') \<Rightarrow> (Inr window, w')))"

end
