(* ===== verification/Byte_Source.thy ===== *)
theory Byte_Source
  imports Content_Correct
begin

text \<open>
  What the readers of image content rely on of a source, and what they give in turn. A source has an abstract
  state whose view is the bytes still to come and how they end: at the end of the input or in a fault. A read
  hands on some non-empty part of what is left; how much is the source's choice. Everything built over such a
  source is shown to depend on the abstract state alone, never on the choices.
\<close>

section \<open>The contract\<close>

type_synonym stream = "bytes \<times> content_fault option"

definition end_fault :: "content_fault option \<Rightarrow> content_fault" where
  "end_fault e = (case e of None \<Rightarrow> Malformed MR_Truncated | Some fault \<Rightarrow> fault)"

locale byte_source =
  fixes rd :: "'s source"
    and good :: "'s \<Rightarrow> bool"
    and state :: "'s \<Rightarrow> 'a"
    and view :: "'a \<Rightarrow> stream"
    and take_off :: "nat \<Rightarrow> 'a \<Rightarrow> 'a"
  assumes part: "good s \<Longrightarrow> 0 < k \<Longrightarrow> view (state s) = (c, e) \<Longrightarrow> c \<noteq> [] \<Longrightarrow>
      \<exists>n s'. 0 < n \<and> n \<le> k \<and> n \<le> length c \<and> rd k s = (Inr (take n c), s') \<and> good s' \<and> state s' = take_off n (state s)"
    and ended: "good s \<Longrightarrow> 0 < k \<Longrightarrow> view (state s) = ([], None) \<Longrightarrow>
      \<exists>s'. rd k s = (Inr [], s') \<and> good s' \<and> state s' = state s"
    and faulted: "good s \<Longrightarrow> 0 < k \<Longrightarrow> view (state s) = ([], Some fault) \<Longrightarrow> \<exists>s'. rd k s = (Inl fault, s')"
    and rest: "good s \<Longrightarrow> view (state s) = (c, e) \<Longrightarrow> n \<le> length c \<Longrightarrow> view (take_off n (state s)) = (drop n c, e)"
    and take_off_0: "take_off 0 a = a"
    and take_off_add: "good s \<Longrightarrow> view (state s) = (c, e) \<Longrightarrow> m + n \<le> length c \<Longrightarrow>
      take_off n (take_off m (state s)) = take_off (m + n) (state s)"

section \<open>Filling a buffer\<close>

context byte_source
begin

lemma read_full_exact:
  assumes "good s" and "view (state s) = (c, e)"
  shows "if k \<le> length c then \<exists>s'. read_full rd k s = (Inr (take k c), s') \<and> good s' \<and> state s' = take_off k (state s)
    else \<exists>s'. read_full rd k s = (Inl (end_fault e), s')"
  using assms
proof (induction k arbitrary: s c rule: less_induct)
  case (less k)
  show ?case
  proof (cases "k = 0")
    case True
    then show ?thesis using less.prems by (simp add: read_full.simps [of rd 0 s] take_off_0)
  next
    case False
    show ?thesis
    proof (cases "c = []")
      case True
      then show ?thesis using False less.prems ended [of s k] faulted [of s k]
        by (cases e) (auto simp: read_full.simps [of rd k s] end_fault_def)
    next
      case c: False
      obtain n s' where n: "0 < n" "n \<le> k" "n \<le> length c" "rd k s = (Inr (take n c), s')" "good s'"
        "state s' = take_off n (state s)"
        using part [OF less.prems(1) _ less.prems(2) c] False by blast
      have view': "view (state s') = (drop n c, e)" using rest [OF less.prems n(3)] n(6) by simp
      have step: "read_full rd k s =
        (case read_full rd (k - n) s' of (Inl fault, s'') \<Rightarrow> (Inl fault, s'') | (Inr r, s'') \<Rightarrow> (Inr (take n c @ r), s''))"
        using n False c by (simp add: read_full.simps [of rd k s] min_def)
      note ih = less.IH [OF _ n(5) view', of "k - n"]
      show ?thesis
      proof (cases "k \<le> length c")
        case True
        then have le: "k - n \<le> length (drop n c)" by simp
        from ih n False have "\<exists>s''. read_full rd (k - n) s' = (Inr (take (k - n) (drop n c)), s'') \<and> good s'' \<and>
            state s'' = take_off (k - n) (state s')" unfolding if_P [OF le] by simp
        then obtain s'' where s'': "read_full rd (k - n) s' = (Inr (take (k - n) (drop n c)), s'')" "good s''"
          "state s'' = take_off (k - n) (state s')"
          by blast
        have "take n c @ take (k - n) (drop n c) = take k c" using n(2) by (metis le_add_diff_inverse take_add)
        moreover have "state s'' = take_off k (state s)"
          using s''(3) n(2,6) True take_off_add [OF less.prems, of n "k - n"] by simp
        ultimately show ?thesis using step s'' True by simp
      next
        case False
        then have le: "\<not> k - n \<le> length (drop n c)" using n(3) by auto
        from ih n \<open>k \<noteq> 0\<close> obtain s'' where "read_full rd (k - n) s' = (Inl (end_fault e), s'')"
          unfolding if_not_P [OF le] by auto
        then show ?thesis using step False by simp
      qed
    qed
  qed
qed

end

section \<open>Bytes in memory\<close>

text \<open>The least source there is: the view itself, handed on as asked.\<close>

fun stream_read :: "stream source" where
  "stream_read k (c, e) =
     (if k = 0 then (Inr [], (c, e))
      else if c = [] then (case e of None \<Rightarrow> (Inr [], (c, e)) | Some fault \<Rightarrow> (Inl fault, (c, e)))
      else (Inr (take k c), (drop k c, e)))"

definition stream_off :: "nat \<Rightarrow> stream \<Rightarrow> stream" where
  "stream_off n s = (drop n (fst s), snd s)"

interpretation memory: byte_source stream_read "\<lambda>_. True" "\<lambda>s. s" "\<lambda>s. s" stream_off
proof (unfold_locales, goal_cases)
  case (1 s k c e)
  then show ?case
    by (intro exI [of _ "min k (length c)"] exI [of _ "stream_off (min k (length c)) s"]) (auto simp: stream_off_def min_def)
qed (auto simp: stream_off_def add.commute)

section \<open>Reading through budgets\<close>

text \<open>The fault a counting reader ends in once its allowance is spent: the first of its tightest budgets.\<close>

definition tight :: "budget list \<Rightarrow> u64 \<Rightarrow> content_fault" where
  "tight budgets left =
     (case find (\<lambda>b. budget_remaining b = left) budgets of Some b \<Rightarrow> budget_exceeded b | None \<Rightarrow> budget_exceeded (hd budgets))"

definition left_of :: "budget list \<Rightarrow> u64" where
  "left_of budgets = foldl min (- 1) (map budget_remaining budgets)"

lemma counting_remaining_left: "counting_remaining r = left_of (chain r)"
  by (simp add: counting_remaining_def left_of_def)

type_synonym 'a counted = "'a \<times> budget list \<times> u64"

definition counted_state :: "('s \<Rightarrow> 'a) \<Rightarrow> 's counting \<Rightarrow> 'a counted" where
  "counted_state state r = (state (cr_source r), chain r, cr_position r)"

definition counted_view :: "('a \<Rightarrow> stream) \<Rightarrow> 'a counted \<Rightarrow> stream" where
  "counted_view view = (\<lambda>(a, budgets, _).
     let (c, e) = view a; left = unat (left_of budgets) in
     if length c \<le> left then (c, e) else (take left c, Some (tight budgets (left_of budgets))))"

definition counted_off :: "(nat \<Rightarrow> 'a \<Rightarrow> 'a) \<Rightarrow> nat \<Rightarrow> 'a counted \<Rightarrow> 'a counted" where
  "counted_off take_off n = (\<lambda>(a, budgets, position). (take_off n a, map (spend n) budgets, saturating_add position (widen n)))"

definition counted_good :: "('s \<Rightarrow> bool) \<Rightarrow> 's counting \<Rightarrow> bool" where
  "counted_good good r \<longleftrightarrow> good (cr_source r) \<and> chain_ok r \<and> cr_latch r = None \<and> 0 < cr_copy_buffer r"

lemma left_of_le: "b \<in> set budgets \<Longrightarrow> left_of budgets \<le> budget_remaining b"
  unfolding left_of_def by (rule foldl_min_le(2)) simp

lemma left_of_is:
  assumes "budgets \<noteq> []"
  shows "\<exists>b \<in> set budgets. budget_remaining b = left_of budgets"
proof -
  obtain b where b: "b \<in> set budgets" using assms by (cases budgets) auto
  have "left_of budgets = - 1 \<or> left_of budgets \<in> budget_remaining ` set budgets"
    using foldl_min_in [of "- 1" "map budget_remaining budgets"] by (simp add: left_of_def)
  then show ?thesis
  proof
    assume "left_of budgets = - 1"
    then have "budget_remaining b = left_of budgets" using left_of_le [OF b] by (intro order_antisym) simp_all
    then show ?thesis using b by blast
  qed auto
qed

lemma remaining_spend:
  assumes "budget_ok b" and "n \<le> unat (budget_remaining b)"
  shows "unat (budget_remaining (spend n b)) = unat (budget_remaining b) - n" "budget_ok (spend n b)"
  using assms budget_charge_fits(2,3) [of b "widen n"] widen_le [OF assms(2)]
  by (simp_all add: unat_budget_remaining budget_ok_def)

lemma left_of_off:
  assumes ok: "list_all budget_ok budgets" and "budgets \<noteq> []" and n: "n \<le> unat (left_of budgets)"
  shows "unat (left_of (map (spend n) budgets)) = unat (left_of budgets) - n"
    "tight (map (spend n) budgets) (left_of (map (spend n) budgets)) = tight budgets (left_of budgets)"
proof -
  let ?left = "unat (left_of budgets)" and ?left' = "unat (left_of (map (spend n) budgets))"
  have above: "?left \<le> unat (budget_remaining b)" if "b \<in> set budgets" for b
    using left_of_le [OF that] by (simp add: word_le_nat_alt)
  have spent: "unat (budget_remaining (spend n b)) = unat (budget_remaining b) - n" if "b \<in> set budgets" for b
    using remaining_spend(1) [of b n] ok above [OF that] n that by (simp add: list_all_iff)
  show left: "?left' = ?left - n"
  proof (rule antisym)
    obtain b where b: "b \<in> set budgets" "budget_remaining b = left_of budgets" using left_of_is [OF assms(2)] by blast
    then have "?left' \<le> unat (budget_remaining (spend n b))"
      using left_of_le [of "spend n b" "map (spend n) budgets"] by (simp add: word_le_nat_alt)
    then show "?left' \<le> ?left - n" using spent [OF b(1)] b(2) by simp
    obtain b' where b': "b' \<in> set budgets" "budget_remaining (spend n b') = left_of (map (spend n) budgets)"
      using left_of_is [of "map (spend n) budgets"] assms(2) by auto
    then have "?left' = unat (budget_remaining b') - n" using spent [OF b'(1)] by metis
    then show "?left - n \<le> ?left'" using above [OF b'(1)] by simp
  qed
  have same: "budget_remaining (spend n b) = left_of (map (spend n) budgets) \<longleftrightarrow> budget_remaining b = left_of budgets"
    if "b \<in> set budgets" for b
    using spent [OF that] above [OF that] n left by (auto simp: word_unat_eq_iff)
  have found: "find P (map f xs) = map_option f (find (\<lambda>x. P (f x)) xs)" for P :: "budget \<Rightarrow> bool" and f xs
    by (induction xs) simp_all
  have "find (\<lambda>b. budget_remaining (spend n b) = left_of (map (spend n) budgets)) budgets =
      find (\<lambda>b. budget_remaining b = left_of budgets) budgets"
    using same by (intro find_cong refl) simp
  then show "tight (map (spend n) budgets) (left_of (map (spend n) budgets)) = tight budgets (left_of budgets)"
    using assms(2) by (simp add: tight_def found budget_exceeded_def hd_map split: option.split)
qed

lemma spend_add:
  assumes "budget_ok b" and "m + n \<le> unat (budget_remaining b)"
  shows "spend n (spend m b) = spend (m + n) b"
proof -
  have "unat (widen m) = m" "unat (widen n) = n" "unat (widen (m + n)) = m + n"
    using widen_le [of m "budget_remaining b"] widen_le [of n "budget_remaining b"] widen_le [OF assms(2)] assms(2) by simp_all
  then have "widen m + widen n = widen (m + n)"
    using unat_u64_bound [of "widen (m + n)"] by (simp add: word_unat_eq_iff unat_word_ariths)
  then show ?thesis by (simp add: add.assoc)
qed

context byte_source
begin

lemma counted_part:
  assumes good: "counted_good good r" and k: "0 < k" and view: "counted_view view (counted_state state r) = (c, e)" and c: "c \<noteq> []"
  shows "\<exists>n r'. 0 < n \<and> n \<le> k \<and> n \<le> length c \<and> counting_read rd k r = (Inr (take n c), r') \<and>
    counted_good good r' \<and> counted_state state r' = counted_off take_off n (counted_state state r)"
proof -
  obtain c0 e0 where v0: "view (state (cr_source r)) = (c0, e0)" by fastforce
  let ?left = "unat (counting_remaining r)"
  have c_is: "c = take ?left c0"
    using view v0 by (auto simp: counted_view_def counted_state_def counting_remaining_left Let_def split: if_splits)
  then have left: "0 < ?left" "c0 \<noteq> []" using c by auto
  let ?len = "chunk_len (min k (cr_copy_buffer r)) (counting_remaining r)"
  have len: "0 < ?len" using left(1) k good by (simp add: chunk_len_def counted_good_def)
  obtain n s' where n: "0 < n" "n \<le> ?len" "n \<le> length c0" "rd ?len (cr_source r) = (Inr (take n c0), s')" "good s'"
    "state s' = take_off n (state (cr_source r))"
    using part [OF _ len v0 left(2)] good by (auto simp: counted_good_def)
  have fits: "n \<le> ?left" "n \<le> k" using n(2) by (simp_all add: chunk_len_def)
  have w: "length (take n c0) = n" "take n c = take n c0" "n \<le> length c" using n(3) fits c_is by (simp_all add: min_def)
  have chain: "chain_ok r" using good by (simp add: counted_good_def)
  have bytes: "unat (widen n) = n" by (rule widen_le [OF fits(1)])
  obtain r2 where r2: "charge_chain (widen n) (r\<lparr>cr_source := s'\<rparr>) = Inr r2" "chain r2 = map (spend n) (chain r)"
    "cr_latch r2 = cr_latch r" "cr_copy_buffer r2 = cr_copy_buffer r" "cr_source r2 = s'"
    using charge_chain_fits [OF chain, of "widen n" n s'] bytes fits by auto
  have position: "cr_position r2 = saturating_add (cr_position r) (widen n)"
    using r2(1) by (auto simp: charge_chain_def)
  have read: "counting_read rd k r = (Inr (take n c), r2)"
    using good k left(1) len n(2,4) w r2(1) check_available_fits [of "widen n" r] bytes fits
    by (auto simp: counting_read_def read_counted_def counted_good_def latch_check_def Let_def)
  have "chain_ok r2" using counting_read_spends(4) [OF chain read] .
  then show ?thesis using n(1,5,6) fits(2) w(3) read r2 position good
    by (intro exI [of _ n] exI [of _ r2]) (simp add: counted_good_def counted_state_def counted_off_def)
qed

lemma counted_end:
  assumes good: "counted_good good r" and k: "0 < k" and view: "counted_view view (counted_state state r) = ([], e)"
  shows "case e of
      None \<Rightarrow> \<exists>r'. counting_read rd k r = (Inr [], r') \<and> counted_good good r' \<and> counted_state state r' = counted_state state r
    | Some fault \<Rightarrow> \<exists>r'. counting_read rd k r = (Inl fault, r')"
proof -
  obtain c0 e0 where v0: "view (state (cr_source r)) = (c0, e0)" by fastforce
  let ?left = "unat (counting_remaining r)"
  have src: "good (cr_source r)" and latch: "cr_latch r = None" and chain: "chain_ok r" and buf: "0 < cr_copy_buffer r"
    using good by (simp_all add: counted_good_def)
  show ?thesis
  proof (cases "c0 = []")
    case True
    then have e: "e0 = e" using view v0 by (simp add: counted_view_def counted_state_def Let_def)
    let ?len = "if counting_remaining r = 0 then 1 else chunk_len (min k (cr_copy_buffer r)) (counting_remaining r)"
    have len: "0 < ?len"
      using k buf by (auto simp: chunk_len_def unat_gt_0)
    show ?thesis
    proof (cases e)
      case None
      then obtain s' where s': "rd ?len (cr_source r) = (Inr [], s')" "good s'" "state s' = state (cr_source r)"
        using ended [OF src len] v0 True e by auto
      have zero: "widen 0 = 0" by (simp add: widen_def u64_of_def)
      have "read_counted rd k r = (Inr [], r\<lparr>cr_source := s'\<rparr>)"
      proof (cases "counting_remaining r = 0")
        case True
        then show ?thesis using s'(1) k by (simp add: read_counted_def)
      next
        case False
        obtain r2 where r2: "charge_chain (widen 0) (r\<lparr>cr_source := s'\<rparr>) = Inr r2" "chain r2 = map (spend 0) (chain r)"
          "cr_latch r2 = cr_latch r" "cr_copy_buffer r2 = cr_copy_buffer r" "cr_source r2 = s'"
          using charge_chain_fits [OF chain, of "widen 0" 0 s'] zero by auto
        have "cr_position r2 = cr_position r" using r2(1) zero by (auto simp: charge_chain_def saturating_add_def)
        moreover have "chain r2 = chain r" using r2(2) zero by simp
        ultimately have "r2 = r\<lparr>cr_source := s'\<rparr>" using r2 by (simp add: chain_def)
        then show ?thesis using False s'(1) k r2(1) zero check_available_fits [of 0 r]
          by (simp add: read_counted_def Let_def)
      qed
      then show ?thesis using None s' latch chain buf
        by (simp add: counting_read_def latch_check_def counted_good_def chain_ok_def chain_def counted_state_def)
    next
      case (Some fault)
      then obtain s' where s': "rd ?len (cr_source r) = (Inl fault, s')"
        using faulted [OF src len] v0 True e by auto
      then have "read_counted rd k r = (Inl fault, r\<lparr>cr_source := s'\<rparr>)" using k by (auto simp: read_counted_def Let_def)
      then show ?thesis using Some latch by (simp add: counting_read_def latch_check_def)
    qed
  next
    case False
    then have none: "counting_remaining r = 0" and e: "e = Some (tight (chain r) (counting_remaining r))"
      using view v0 by (auto simp: counted_view_def counted_state_def counting_remaining_left Let_def word_unat_eq_iff split: if_splits)
    obtain n s' where n: "0 < n" "n \<le> length c0" "rd 1 (cr_source r) = (Inr (take n c0), s')"
      using part [OF src _ v0 False, of 1] by auto
    have "find (\<lambda>b. \<not> is_ok (budget_check 1 b)) (chain r) = find (\<lambda>b. budget_remaining b = 0) (chain r)"
      by (intro find_cong refl) (auto simp: budget_check_def word_le_nat_alt word_unat_eq_iff not_le)
    moreover obtain b where "find (\<lambda>b. budget_remaining b = 0) (chain r) = Some b"
      using remaining_is [of r] none by (cases "find (\<lambda>b. budget_remaining b = 0) (chain r)") (auto simp: find_None_iff)
    ultimately have "check_available 1 r = Inl (tight (chain r) (counting_remaining r))"
      using none by (simp add: check_available_def tight_def)
    then have "read_counted rd k r = (Inl (tight (chain r) (counting_remaining r)), r\<lparr>cr_source := s'\<rparr>)"
      using n none k False by (simp add: read_counted_def)
    then show ?thesis using e latch by (simp add: counting_read_def latch_check_def)
  qed
qed

lemma counted_rest:
  assumes good: "counted_good good r" and view: "counted_view view (counted_state state r) = (c, e)" and n: "n \<le> length c"
  shows "counted_view view (counted_off take_off n (counted_state state r)) = (drop n c, e)"
proof -
  obtain a budgets p where a: "counted_state state r = (a, budgets, p)" "a = state (cr_source r)" "budgets = chain r"
    by (simp add: counted_state_def)
  have chain: "list_all budget_ok budgets" "budgets \<noteq> []" and src: "good (cr_source r)"
    using good a by (simp_all add: counted_good_def chain_ok_def chain_def)
  obtain c0 e0 where v0: "view a = (c0, e0)" by fastforce
  note view = view [unfolded a(1)]
  have le: "n \<le> unat (left_of budgets)" "n \<le> length c0"
    using view v0 n by (auto simp: counted_view_def Let_def split: if_splits)
  note off = left_of_off [OF chain le(1)] and v1 = rest [OF src v0 [unfolded a(2)] le(2), folded a(2)]
  show ?thesis unfolding a(1) using view v0 v1 off le
    by (auto simp: counted_view_def counted_off_def Let_def drop_take split: if_splits)
qed

lemma counted_off_add:
  assumes good: "counted_good good r" and view: "counted_view view (counted_state state r) = (c, e)" and mn: "m + n \<le> length c"
  shows "counted_off take_off n (counted_off take_off m (counted_state state r)) = counted_off take_off (m + n) (counted_state state r)"
proof -
  obtain a budgets p where a: "counted_state state r = (a, budgets, p)" "a = state (cr_source r)" "budgets = chain r"
    by (simp add: counted_state_def)
  have chain: "list_all budget_ok budgets" and src: "good (cr_source r)"
    using good a by (simp_all add: counted_good_def chain_ok_def chain_def)
  obtain c0 e0 where v0: "view a = (c0, e0)" by fastforce
  have le: "m + n \<le> unat (left_of budgets)" "m + n \<le> length c0"
    using view [unfolded a(1)] v0 mn by (auto simp: counted_view_def Let_def split: if_splits)
  have one: "spend n (spend m b) = spend (m + n) b" if "b \<in> set budgets" for b
  proof (rule spend_add)
    show "budget_ok b" using chain that by (simp add: list_all_iff)
    show "m + n \<le> unat (budget_remaining b)" using le(1) left_of_le [OF that] by (simp add: word_le_nat_alt)
  qed
  have "map (spend n) (map (spend m) budgets) = map (spend (m + n)) budgets"
    unfolding map_map by (intro map_cong refl) (simp only: o_def one)
  moreover have "saturating_add (saturating_add p (widen m)) (widen n) = saturating_add p (widen (m + n))"
    using widen_le [of m "left_of budgets"] widen_le [of n "left_of budgets"] widen_le [OF le(1)] le(1)
    by (intro word_unat_eq_iff [THEN iffD2])
       (auto simp: saturating_add_def unat_word_ariths unsigned_minus_1_eq_mask mask_eq_exp_minus_1)
  ultimately show ?thesis unfolding a(1) using take_off_add [OF src v0 [unfolded a(2)] le(2), folded a(2)]
    by (simp add: counted_off_def)
qed

lemma counted_source:
  "byte_source (counting_read rd) (counted_good good) (counted_state state) (counted_view view) (counted_off take_off)"
proof (unfold_locales, goal_cases)
  case (1 r k c e)
  then show ?case by (rule counted_part)
next
  case (2 r k)
  then show ?case using counted_end [of r k None] by simp
next
  case (3 r k fault)
  then show ?case using counted_end [of r k "Some fault"] by simp
next
  case (4 r c e n)
  then show ?case by (rule counted_rest)
next
  case (5 a)
  have "map (spend 0) bs = bs" for bs by (induction bs) (simp_all add: widen_def u64_of_def)
  then show ?case by (cases a) (simp add: counted_off_def take_off_0 widen_def u64_of_def saturating_add_def)
next
  case (6 r c e m n)
  then show ?case by (rule counted_off_add)
qed

end

end
