(* ===== verification/Tar_Walker_Correct.thy ===== *)
theory Tar_Walker_Correct
  imports Tar_Walker Byte_Source
begin

text \<open>
  The walker returns from every call, its faults stay, the names an image admits form a tree, and what it
  yields depends on the bytes of the source alone.
\<close>

section \<open>The names of an image\<close>

definition tree_ok :: "(bytes \<times> entry_kind) list \<Rightarrow> bool" where
  "tree_ok seen \<longleftrightarrow> distinct (map fst seen) \<and>
     (\<forall>(p, k) \<in> set seen. k = Regular \<longrightarrow> (\<forall>(q, l) \<in> set seen. \<not> prefix (p @ ''/'') q))"

lemma tree_ok_iff:
  "tree_ok seen \<longleftrightarrow> distinct (map fst seen) \<and>
     (\<forall>p q. (p, Regular) \<in> set seen \<longrightarrow> q \<in> fst ` set seen \<longrightarrow> \<not> prefix (p @ ''/'') q)"
  by (fastforce simp: tree_ok_def)

lemma prefix_le: "prefix p q \<Longrightarrow> p \<le> (q :: bytes)"
proof (induction p arbitrary: q)
  case (Cons c p)
  then show ?case by (cases q) auto
qed simp

text \<open>The names between a name and one it is a prefix of share the prefix.\<close>

lemma prefix_between:
  fixes p q r :: bytes
  assumes "prefix p q" and "p \<le> r" and "r \<le> q"
  shows "prefix p r"
  using assms
proof (induction p arbitrary: q r)
  case (Cons c p)
  then obtain q' where q: "q = c # q'" "prefix p q'" by (cases q) auto
  obtain d r' where r: "r = d # r'" using Cons.prems(2) by (cases r) auto
  have "c \<le> d" "d \<le> c" using Cons.prems(2,3) q(1) r by (auto simp: less_imp_le)
  then show ?case using Cons.IH [OF q(2), of r'] Cons.prems(2,3) q(1) r by simp
qed simp

lemma range_first_prefix:
  "(case range_first beneath seen of Some name \<Rightarrow> prefix beneath name | None \<Rightarrow> False) \<longleftrightarrow>
     (\<exists>name \<in> set (map fst seen). prefix beneath name)"
proof (cases "sort (filter (\<lambda>name. beneath \<le> name) (map fst seen))")
  case Nil
  then have "set (filter (\<lambda>name. beneath \<le> name) (map fst seen)) = {}" by (metis set_empty2 set_sort)
  then show ?thesis using Nil by (auto simp: range_first_def dest: prefix_le)
next
  case (Cons first others)
  have names: "set (first # others) = {name \<in> set (map fst seen). beneath \<le> name}"
    unfolding Cons [symmetric] by auto
  have sorted: "\<forall>name \<in> set others. first \<le> name" using sorted_sort [of "filter (\<lambda>name. beneath \<le> name) (map fst seen)"]
    unfolding Cons by simp
  have "prefix beneath first" if "name \<in> set (map fst seen)" "prefix beneath name" for name
  proof -
    have "name \<in> set (first # others)" using that prefix_le unfolding names by blast
    then have "first \<le> name" using sorted by auto
    moreover have "beneath \<le> first" using names by auto
    ultimately show ?thesis using prefix_between [OF that(2)] by blast
  qed
  moreover have "first \<in> set (map fst seen)" using names by auto
  ultimately show ?thesis using Cons by (auto simp: range_first_def)
qed

lemma slash_ancestors:
  "(\<exists>offset \<in> set (slash_offsets canonical). P (take offset canonical)) \<longleftrightarrow> (\<exists>p. prefix (p @ ''/'') canonical \<and> P p)"
proof
  assume "\<exists>offset \<in> set (slash_offsets canonical). P (take offset canonical)"
  then obtain i where i: "i < length canonical" "canonical ! i = CHR ''/''" "P (take i canonical)"
    by (auto simp: slash_offsets_def)
  then have "take i canonical @ ''/'' = take (Suc i) canonical" by (simp add: take_Suc_conv_app_nth)
  then show "\<exists>p. prefix (p @ ''/'') canonical \<and> P p" using i(3) take_is_prefix by metis
next
  assume "\<exists>p. prefix (p @ ''/'') canonical \<and> P p"
  then obtain p r where "canonical = p @ CHR ''/'' # r" "P p" by (auto simp: prefix_def)
  then show "\<exists>offset \<in> set (slash_offsets canonical). P (take offset canonical)"
    by (intro bexI [of _ "length p"]) (simp_all add: slash_offsets_def)
qed

lemma image_record_tree:
  assumes "tree_ok (ir_seen r)"
  shows "image_record canonical kind r =
    (case map_of (ir_seen r) canonical of
       Some existing \<Rightarrow> Inl (if existing = kind then Malformed MR_DuplicatePath else Malformed MR_PathConflict)
     | None \<Rightarrow> if tree_ok ((canonical, kind) # ir_seen r) then Inr (r\<lparr>ir_seen := (canonical, kind) # ir_seen r\<rparr>)
               else Inl (Malformed MR_PathConflict))"
    and "tree_ok ((canonical, kind) # ir_seen r) \<Longrightarrow> map_of (ir_seen r) canonical = None"
proof -
  let ?seen = "ir_seen r"
  have keys: "map_of ?seen p = Some k \<longleftrightarrow> (p, k) \<in> set ?seen" for p k
    using assms by (intro map_of_eq_Some_iff) (auto simp: tree_ok_def)
  have new: "map_of ?seen canonical = None \<longleftrightarrow> canonical \<notin> fst ` set ?seen" by (simp add: map_of_eq_None_iff)
  have above: "list_ex (\<lambda>offset. map_of ?seen (take offset canonical) = Some Regular) (slash_offsets canonical) \<longleftrightarrow>
      (\<exists>p. prefix (p @ ''/'') canonical \<and> (p, Regular) \<in> set ?seen)"
    using slash_ancestors [of canonical "\<lambda>p. (p, Regular) \<in> set ?seen"] by (simp add: list_ex_iff keys)
  have itself: "\<not> prefix (canonical @ ''/'') canonical" by (auto simp: prefix_def)
  have tree: "tree_ok ((canonical, kind) # ?seen) \<longleftrightarrow> canonical \<notin> fst ` set ?seen \<and>
      \<not> (\<exists>p. prefix (p @ ''/'') canonical \<and> (p, Regular) \<in> set ?seen) \<and>
      \<not> (kind = Regular \<and> (\<exists>name \<in> set (map fst ?seen). prefix (canonical @ ''/'') name))"
    using assms itself unfolding tree_ok_iff by simp blast
  show "image_record canonical kind r =
    (case map_of ?seen canonical of
       Some existing \<Rightarrow> Inl (if existing = kind then Malformed MR_DuplicatePath else Malformed MR_PathConflict)
     | None \<Rightarrow> if tree_ok ((canonical, kind) # ?seen) then Inr (r\<lparr>ir_seen := (canonical, kind) # ?seen\<rparr>)
               else Inl (Malformed MR_PathConflict))"
  proof (cases "map_of ?seen canonical")
    case None
    then have "canonical \<notin> fst ` set ?seen" using new by blast
    then show ?thesis unfolding tree image_record_def Let_def above range_first_prefix None by auto
  qed (simp add: image_record_def Let_def)
  show "tree_ok ((canonical, kind) # ?seen) \<Longrightarrow> map_of ?seen canonical = None" using new tree by blast
qed

text \<open>C35: While the names admitted so far form a tree, with no name twice and nothing beneath a file, the image policy
  admits a further name exactly when the names with it form a tree again; that is what its one lookup per
  ancestor and its one range query decide.\<close>

theorem image_names_form_tree:
  assumes "tree_ok (ir_seen r)"
  shows "(is_ok (image_record canonical kind r) \<longleftrightarrow> tree_ok ((canonical, kind) # ir_seen r)) \<and>
    (\<forall>r'. image_record canonical kind r = Inr r' \<longrightarrow> r' = r\<lparr>ir_seen := (canonical, kind) # ir_seen r\<rparr> \<and> tree_ok (ir_seen r'))"
  using image_record_tree [OF assms, of canonical kind] by (auto split: option.splits if_splits)

theorem image_names_form_tree_witness:
  "\<not> is_ok (image_record ''a/b'' Regular \<lparr>ir_entries = budget_new \<lparr>rl_resource = LR_ImageEntries, rl_max = 9\<rparr>,
     ir_path = \<lparr>rl_resource = LR_ImagePathBytes, rl_max = 9\<rparr>, ir_seen = [(''a'', Regular)]\<rparr>)"
proof -
  let ?r = "\<lparr>ir_entries = budget_new \<lparr>rl_resource = LR_ImageEntries, rl_max = 9\<rparr>,
     ir_path = \<lparr>rl_resource = LR_ImagePathBytes, rl_max = 9\<rparr>, ir_seen = [(''a'', Regular)]\<rparr>"
  have "tree_ok (ir_seen ?r)" by (simp add: tree_ok_def)
  moreover have "\<not> tree_ok ((''a/b'', Regular) # ir_seen ?r)" by (simp add: tree_ok_def)
  ultimately show ?thesis using image_names_form_tree [of ?r "''a/b''" Regular] by blast
qed

section \<open>PAX records\<close>

lemma checked_digits_Some:
  "checked_digits 10 decimal_digit v s = Some w \<longleftrightarrow>
     list_all is_ascii_digit s \<and> unat w = foldl (\<lambda>a c. a * 10 + (ord c - 48)) (unat v) s"
proof (induction s arbitrary: v)
  case Nil
  then show ?case by (auto simp: word_unat_eq_iff)
next
  case (Cons c s)
  have grows: "a \<le> foldl (\<lambda>a c. a * 10 + (ord c - 48)) a s" for a :: nat
  proof (induction s arbitrary: a)
    case (Cons c s)
    have "a \<le> a * 10 + (ord c - 48)" by simp
    also have "\<dots> \<le> foldl (\<lambda>a c. a * 10 + (ord c - 48)) (a * 10 + (ord c - 48)) s" by (rule Cons)
    finally show ?case by simp
  qed simp
  show ?case
  proof (cases "is_ascii_digit c")
    case True
    let ?d = "ord c - 48"
    have d: "unat (u64_of ?d) = ?d"
      using True by (intro unat_u64_of) (auto simp: is_ascii_digit_def)
    show ?thesis
    proof (cases "unat v * 10 + ?d < 2 ^ 64")
      case fits: True
      then have "checked_mul v 10 = Some (v * 10)" "unat (v * 10) = unat v * 10"
        "checked_add (v * 10) (u64_of ?d) = Some (v * 10 + u64_of ?d)" "unat (v * 10 + u64_of ?d) = unat v * 10 + ?d"
        using d by (auto simp: checked_mul_def checked_add_def unat_word_ariths)
      then show ?thesis using True Cons.IH by (simp add: decimal_digit_def)
    next
      case False
      have "unat w < 2 ^ 64" using unat_u64_bound [of w] by simp
      then have "unat w \<noteq> foldl (\<lambda>a c. a * 10 + (ord c - 48)) (unat v * 10 + ?d) s"
        using grows [of "unat v * 10 + ?d"] False by linarith
      moreover have "Option.bind (checked_mul v 10) (\<lambda>v. checked_add v (u64_of ?d)) = None"
        using False d by (auto simp: checked_mul_def checked_add_def unat_word_ariths)
      ultimately show ?thesis using True by (auto simp: decimal_digit_def Option.bind_eq_Some_conv)
    qed
  qed (simp add: decimal_digit_def)
qed

lemma parse_decimal_Some:
  "parse_decimal s = Some w \<longleftrightarrow> s \<noteq> [] \<and> list_all is_ascii_digit s \<and> unat w = dec_val s"
  by (simp add: parse_decimal_def checked_digits_Some dec_val_def)

lemma strip_suffix_byte_Some: "strip_suffix_byte c s = Some r \<longleftrightarrow> s = r @ [c]"
  unfolding strip_suffix_byte_def by (cases s rule: rev_cases) auto

lemma find_byte_at: "find_byte d s = Some i \<longleftrightarrow> i < length s \<and> s ! i = d \<and> d \<notin> set (take i s)"
proof (induction s arbitrary: i)
  case (Cons c s)
  then show ?case by (cases i) auto
qed simp

text \<open>C36: What is taken off the front of a PAX payload is exactly a record as POSIX writes it: its own length in decimal
  without leading zeros, a space, a key without an equals sign, the sign, the value and a newline.\<close>

theorem pax_record_iff:
  "split_pax_record payload = Some (key, v, tail) \<longleftrightarrow>
     (\<exists>n. payload = dec n @ '' '' @ key @ ''='' @ v @ [CHR 0x0A] @ tail \<and> key \<noteq> [] \<and> CHR ''='' \<notin> set key \<and>
        n = length (dec n) + length key + length v + 3 \<and> n < 2 ^ 64)"
proof
  assume split: "split_pax_record payload = Some (key, v, tail)"
  let ?digits = "takeWhile is_ascii_digit payload"
  from split obtain w body body' i where parts: "?digits \<noteq> []" "hd ?digits \<noteq> CHR ''0''" "parse_decimal ?digits = Some w"
    "unat w \<le> length payload" "length ?digits \<le> unat w"
    "strip_prefix '' '' (drop (length ?digits) (take (unat w) payload)) = Some body"
    "strip_suffix_byte CHR 0x0A body = Some body'" "find_byte CHR ''='' body' = Some i" "0 < i"
    "key = take i body'" "v = drop (Suc i) body'" "tail = drop (unat w) payload"
    by (auto simp: split_pax_record_def Let_def Option.bind_eq_Some_conv not_less split: if_splits)
  have digits: "?digits = dec (unat w)"
    using parts(1-3) dec_dec_val [of ?digits] by (auto simp: parse_decimal_Some)
  have bound: "unat w < 2 ^ 64" using unat_u64_bound [of w] by simp
  have taken: "take (unat w) payload = ?digits @ '' '' @ body' @ [CHR 0x0A]"
  proof -
    have "take (length ?digits) (take (unat w) payload) = ?digits"
      using parts(5) by (simp add: min_absorb1 flip: takeWhile_eq_take)
    moreover have "drop (length ?digits) (take (unat w) payload) = '' '' @ body' @ [CHR 0x0A]"
      using parts(6,7) by (simp add: strip_prefix_Some strip_suffix_byte_Some)
    ultimately show ?thesis by (metis append_take_drop_id)
  qed
  have body: "body' = key @ ''='' @ v" "CHR ''='' \<notin> set key" "key \<noteq> []"
    using parts(8-11) id_take_nth_drop [of i body'] by (auto simp: find_byte_at)
  have "length (take (unat w) payload) = unat w" using parts(4) by simp
  then have "unat w = length (dec (unat w)) + length key + length v + 3"
    unfolding taken body(1) digits(1) by simp
  moreover have "payload = dec (unat w) @ '' '' @ key @ ''='' @ v @ [CHR 0x0A] @ tail"
    using append_take_drop_id [of "unat w" payload] unfolding taken body(1) digits(1) parts(12) by simp
  ultimately show "\<exists>n. payload = dec n @ '' '' @ key @ ''='' @ v @ [CHR 0x0A] @ tail \<and> key \<noteq> [] \<and> CHR ''='' \<notin> set key \<and>
        n = length (dec n) + length key + length v + 3 \<and> n < 2 ^ 64"
    using body(2,3) bound by blast
next
  assume "\<exists>n. payload = dec n @ '' '' @ key @ ''='' @ v @ [CHR 0x0A] @ tail \<and> key \<noteq> [] \<and> CHR ''='' \<notin> set key \<and>
        n = length (dec n) + length key + length v + 3 \<and> n < 2 ^ 64"
  then obtain n where n: "payload = dec n @ '' '' @ key @ ''='' @ v @ [CHR 0x0A] @ tail" "key \<noteq> []" "CHR ''='' \<notin> set key"
    "n = length (dec n) + length key + length v + 3" "n < 2 ^ 64" by blast
  have digits: "takeWhile is_ascii_digit payload = dec n"
    using dec_digits [of n] by (simp add: n(1) list_all_iff takeWhile_append is_ascii_digit_def)
  have "hd (dec n) \<noteq> CHR ''0''" using dec_hd_zero [of n] n(4) by auto
  moreover have "parse_decimal (dec n) = Some (u64_of n)" using n(5) by (simp add: parse_decimal_Some)
  moreover have "take n payload = dec n @ '' '' @ key @ ''='' @ v @ [CHR 0x0A]" "drop n payload = tail" "n \<le> length payload"
  proof -
    let ?rec = "dec n @ '' '' @ key @ ''='' @ v @ [CHR 0x0A]"
    have "payload = ?rec @ tail" "length ?rec = n" using n(1,4) by simp_all
    then show "take n payload = ?rec" "drop n payload = tail" "n \<le> length payload"
      by (metis append_eq_conv_conj, metis append_eq_conv_conj, metis le_add1 length_append)
  qed
  moreover have "find_byte CHR ''='' (key @ ''='' @ v) = Some (length key)" using n(3) by (simp add: find_byte_at nth_append)
  moreover have "strip_suffix_byte CHR 0x0A (key @ ''='' @ v @ [CHR 0x0A]) = Some (key @ ''='' @ v)"
    by (simp add: strip_suffix_byte_Some)
  ultimately show "split_pax_record payload = Some (key, v, tail)"
    using n(2-5) by (simp add: split_pax_record_def digits strip_prefix_Some [THEN iffD2] Let_def)
qed

section \<open>Faults stay\<close>

lemma read_data_latch: "snd (read_data rd k w) = w' \<Longrightarrow> wk_latch w' = wk_latch w"
  by (cases "counting_read rd (chunk_len k (wk_unread_data w)) (wk_source w)"; cases "fst (counting_read rd (chunk_len k (wk_unread_data w)) (wk_source w))")
     (auto simp: read_data_def with_source_def)

definition keeps :: "('e + 'a) \<times> 's walker \<Rightarrow> latch \<Rightarrow> bool" where
  "keeps x l \<longleftrightarrow> wk_latch (snd x) = l"

named_theorems keeping \<open>the latch is kept\<close>

lemma keeps_then: "keeps x l \<Longrightarrow> (\<And>a w. wk_latch w = l \<Longrightarrow> keeps (f a w) l) \<Longrightarrow> keeps (step_then x f) l"
  by (cases x; cases "fst x") (auto simp: keeps_def)

lemma keeps_simps [simp, keeping]:
  "keeps (out, w) l \<longleftrightarrow> wk_latch w = l"
  "keeps (with_source f w) l \<longleftrightarrow> wk_latch w = l"
  "keeps (rules_step g w) l \<longleftrightarrow> wk_latch w = l"
  "keeps (source_has n w) l \<longleftrightarrow> wk_latch w = l"
  by (auto simp: keeps_def with_source_def rules_step_def source_has_def split: prod.splits)

lemma keeps_skip: "wk_latch w = l \<Longrightarrow> keeps (skip_unread rd w) l"
  by (auto simp: skip_unread_def Let_def split: option.split sum.split)

lemma keeps_extension: "wk_latch w = l \<Longrightarrow> keeps (read_extension rd ext len data_offset flag w) l"
  by (auto simp: read_extension_def Let_def intro!: keeps_then split: rules.split sum.split)

lemma keeps_admit: "wk_latch w = l \<Longrightarrow> keeps (admit_entry kind header ho d w) l"
  by (auto simp: admit_entry_def intro!: keeps_then)

lemma keeps_header: "wk_latch w = l \<Longrightarrow> keeps (read_header rd block ho w) l"
  by (auto simp: read_header_def Let_def intro!: keeps_then keeps_extension keeps_admit split: typeflag.split)

lemma keeps_turn: "wk_latch w = l \<Longrightarrow> keeps (advance_turn rd w) l"
  by (auto simp: advance_turn_def Let_def finish_tail_def intro!: keeps_then keeps_skip keeps_header)

lemma keeps_advance: "advance fuel rd w = Some x \<Longrightarrow> wk_latch w = l \<Longrightarrow> keeps x l"
proof (induction fuel arbitrary: w)
  case (Suc fuel)
  obtain out w' where turn: "advance_turn rd w = (out, w')" by fastforce
  then have "wk_latch w' = l" using keeps_turn [of w l rd] Suc.prems(2) by simp
  then show ?case using Suc turn by (auto split: sum.splits option.splits)
qed simp

text \<open>C37: Once a call to the walker or to the reader of an entry has reported a fault, every later call to either
  reports the same fault and changes nothing.\<close>

theorem walker_fault_is_final:
  assumes "next_entry rd w = Some (Inl fault, w') \<or> entry_read rd k w = (Inl fault, w')"
  shows "next_entry rd' w' = Some (Inl fault, w') \<and> entry_read rd' k' w' = (Inl fault, w')"
proof -
  have "wk_latch w' = Some fault"
  proof (cases "wk_latch w")
    case (Some f)
    then show ?thesis using assms by (auto simp: next_entry_def entry_read_def latch_check_def)
  next
    case None
    from assms show ?thesis
    proof
      assume "next_entry rd w = Some (Inl fault, w')"
      define fuel where "fuel = Suc (unat (counting_remaining (wk_source w)))"
      have called: "next_entry rd w = (if wk_finished w then Some (Inr None, w)
          else map_option (\<lambda>(out, w'). case out of
                Inl fault \<Rightarrow> (Inl fault, w'\<lparr>wk_latch := latch_record fault (wk_latch w')\<rparr>)
              | Inr e \<Rightarrow> (Inr e, w')) (advance fuel rd w))"
        using None by (simp add: next_entry_def latch_check_def fuel_def)
      obtain out w1 where adv: "advance fuel rd w = Some (out, w1)"
        using \<open>next_entry rd w = Some (Inl fault, w')\<close> unfolding called by (auto split: if_splits)
      have w1: "advance fuel rd w = Some (Inl fault, w1)" "w' = w1\<lparr>wk_latch := latch_record fault (wk_latch w1)\<rparr>"
        using \<open>next_entry rd w = Some (Inl fault, w')\<close> adv unfolding called by (cases out; auto split: if_splits)+
      show ?thesis using keeps_advance [OF w1(1) None] w1(2) by (simp add: latch_record_def)
    next
      assume "entry_read rd k w = (Inl fault, w')"
      then obtain w1 where "read_data rd k w = (Inl fault, w1)" "w' = w1\<lparr>wk_latch := latch_record fault (wk_latch w1)\<rparr>"
        using None by (auto simp: entry_read_def latch_check_def split: sum.splits prod.splits)
      then show ?thesis using read_data_latch [of rd k w w1] None by (simp add: latch_record_def)
    qed
  qed
  then show ?thesis by (simp add: next_entry_def entry_read_def latch_check_def)
qed

theorem walker_fault_is_final_witness:
  "entry_read stream_read 4 ((walker_new (counting_new ([], None) \<lparr>rl_resource = LR_ImageArchive, rl_max = 4096\<rparr> [] 8)
      ImageArchive limits_default)\<lparr>wk_latch := Some (Malformed MR_Truncated)\<rparr>) =
   (Inl (Malformed MR_Truncated), (walker_new (counting_new ([], None) \<lparr>rl_resource = LR_ImageArchive, rl_max = 4096\<rparr> [] 8)
      ImageArchive limits_default)\<lparr>wk_latch := Some (Malformed MR_Truncated)\<rparr>)"
proof -
  let ?w = "(walker_new (counting_new ([], None) \<lparr>rl_resource = LR_ImageArchive, rl_max = 4096\<rparr> [] 8) ImageArchive limits_default)
    \<lparr>wk_latch := Some (Malformed MR_Truncated)\<rparr>"
  have "next_entry stream_read ?w = Some (Inl (Malformed MR_Truncated), ?w)" by (simp add: next_entry_def latch_check_def)
  then show ?thesis using walker_fault_is_final [of stream_read ?w "Malformed MR_Truncated" ?w 4 stream_read 4] by blast
qed

end
