(* ===== verification/Tar_Stream.thy ===== *)
theory Tar_Stream
  imports Tar_Walker_Correct
begin

text \<open>
  The walker over a source that keeps the contract of \<open>byte_source\<close>: what each of its loops does to the abstract
  state, that every call returns, and that two sources with one abstract state are walked alike, however each
  cuts what it hands on and whatever the sizes of the buffers.
\<close>

section \<open>The loops\<close>

lemma tail_bytes_append: "tail_bytes t (a @ b) = bind_res (tail_bytes t a) (\<lambda>t. tail_bytes t b)"
  by (induction a arbitrary: t) simp_all

definition tail_result :: "nat \<Rightarrow> stream \<Rightarrow> content_fault + unit" where
  "tail_result tail s =
     bind_res (tail_bytes tail (fst s)) (\<lambda>tail'.
     case snd s of Some fault \<Rightarrow> Inl fault
     | None \<Rightarrow> if MIN_ZERO_TAIL \<le> tail' \<and> tail' mod BLOCK = 0 then Inr () else Inl (Malformed MR_Truncated))"

context byte_source
begin

lemma skip_left_exact:
  assumes "counted_good good r" and "counted_view view (counted_state state r) = (c, e)" and "0 < buf_len"
  shows "if unat left \<le> length c
    then \<exists>r'. skip_left rd buf_len left r = (Inr (), r') \<and> counted_good good r' \<and>
        counted_state state r' = counted_off take_off (unat left) (counted_state state r)
    else \<exists>r'. skip_left rd buf_len left r = (Inl (end_fault e), r')"
  using assms(1,2)
proof (induction "unat left" arbitrary: left r c rule: less_induct)
  case less
  note src = counted_source
  show ?case
  proof (cases "left = 0")
    case True
    then show ?thesis using less.prems by (simp add: skip_left.simps [of rd buf_len 0 r] byte_source.take_off_0 [OF src])
  next
    case False
    let ?k = "chunk_len buf_len left"
    have k: "0 < ?k" using False assms(3) by (simp add: chunk_len_def unat_gt_0)
    show ?thesis
    proof (cases "c = []")
      case True
      have left: "\<not> unat left \<le> length c" using True False by (simp add: unat_eq_0)
      have "\<exists>r'. skip_left rd buf_len left r = (Inl (end_fault e), r')"
      proof (cases e)
        case None
        then obtain r' where "counting_read rd ?k r = (Inr [], r')"
          using byte_source.ended [OF src less.prems(1) k] less.prems(2) True by auto
        then show ?thesis using False None by (simp add: skip_left.simps [of rd buf_len left r] end_fault_def)
      next
        case (Some fault)
        then obtain r' where "counting_read rd ?k r = (Inl fault, r')"
          using byte_source.faulted [OF src less.prems(1) k] less.prems(2) True by auto
        then show ?thesis using False Some by (simp add: skip_left.simps [of rd buf_len left r] end_fault_def)
      qed
      then show ?thesis using left by simp
    next
      case c: False
      obtain n r1 where n: "0 < n" "n \<le> ?k" "n \<le> length c" "counting_read rd ?k r = (Inr (take n c), r1)"
        "counted_good good r1" "counted_state state r1 = counted_off take_off n (counted_state state r)"
        using byte_source.part [OF src less.prems(1) k less.prems(2) c] by blast
      let ?left = "saturating_sub left (widen (length (take n c)))"
      have nl: "n \<le> unat left" using n(2) by (simp add: chunk_len_def)
      then have left: "unat ?left = unat left - n" using n(3) widen_le [OF nl] by simp
      have view: "counted_view view (counted_state state r1) = (drop n c, e)"
        using byte_source.rest [OF src less.prems n(3)] n(6) by simp
      have step: "skip_left rd buf_len left r = skip_left rd buf_len ?left r1"
        using False n(1,4) c by (simp add: skip_left.simps [of rd buf_len left r])
      have less_left: "unat ?left < unat left" using left n(1) nl by linarith
      note ih = less.hyps [OF less_left n(5) view]
      show ?thesis
      proof (cases "unat left \<le> length c")
        case True
        then have le: "unat ?left \<le> length (drop n c)" using left by simp
        from ih obtain r' where r': "skip_left rd buf_len ?left r1 = (Inr (), r')" "counted_good good r'"
          "counted_state state r' = counted_off take_off (unat ?left) (counted_state state r1)"
          unfolding if_P [OF le] by blast
        have "counted_state state r' = counted_off take_off (unat left) (counted_state state r)"
          using r'(3) byte_source.take_off_add [OF src less.prems, of n "unat ?left"] n(6) left nl True by simp
        then show ?thesis using step r' True by simp
      next
        case False
        then have le: "\<not> unat ?left \<le> length (drop n c)" using left n(3) nl by simp
        from ih show ?thesis using step False unfolding if_not_P [OF le] by simp
      qed
    qed
  qed
qed

lemma finish_tail_exact:
  assumes "counted_good good r" and "counted_view view (counted_state state r) = (c, e)" and "tail \<le> MAX_ZERO_TAIL"
  shows "\<exists>r'. finish_tail_from rd tail r = (tail_result tail (c, e), r') \<and>
    (tail_result tail (c, e) = Inr () \<longrightarrow> counted_good good r' \<and>
       counted_state state r' = counted_off take_off (length c) (counted_state state r))"
  using assms
proof (induction "MAX_ZERO_TAIL - tail" arbitrary: tail r c rule: less_induct)
  case less
  note src = counted_source
  let ?k = "chunk_len BLOCK (u64_of (MAX_ZERO_TAIL + 1 - tail))"
  have "unat (u64_of (MAX_ZERO_TAIL + 1 - tail)) = MAX_ZERO_TAIL + 1 - tail"
    by (rule unat_u64_of) (simp add: MAX_ZERO_TAIL_def)
  then have k: "0 < ?k" "?k \<le> MAX_ZERO_TAIL + 1 - tail" using less.prems(3) by (simp_all add: chunk_len_def BLOCK_def)
  show ?case
  proof (cases "c = []")
    case True
    show ?thesis
    proof (cases e)
      case None
      then obtain r' where r': "counting_read rd ?k r = (Inr [], r')" "counted_good good r'"
        "counted_state state r' = counted_state state r"
        using byte_source.ended [OF src less.prems(1) k(1)] less.prems(2) True by auto
      then show ?thesis using True None
        by (simp add: finish_tail_from.simps [of rd tail r] tail_result_def byte_source.take_off_0 [OF src])
    next
      case (Some fault)
      then obtain r' where "counting_read rd ?k r = (Inl fault, r')"
        using byte_source.faulted [OF src less.prems(1) k(1)] less.prems(2) True by auto
      then show ?thesis using True Some by (simp add: finish_tail_from.simps [of rd tail r] tail_result_def)
    qed
  next
    case c: False
    obtain n r1 where n: "0 < n" "n \<le> ?k" "n \<le> length c" "counting_read rd ?k r = (Inr (take n c), r1)"
      "counted_good good r1" "counted_state state r1 = counted_off take_off n (counted_state state r)"
      using byte_source.part [OF src less.prems(1) k(1) less.prems(2) c] by blast
    have window: "take n c \<noteq> []" using n(1) c by simp
    have split: "tail_bytes tail c = bind_res (tail_bytes tail (take n c)) (\<lambda>t. tail_bytes t (drop n c))"
      by (metis append_take_drop_id tail_bytes_append)
    show ?thesis
    proof (cases "tail_bytes tail (take n c)")
      case (Inl fault)
      then show ?thesis using n(4) window split by (simp add: finish_tail_from.simps [of rd tail r] tail_result_def)
    next
      case (Inr tail')
      have grown: "tail' = tail + n" "tail' \<le> MAX_ZERO_TAIL"
        using tail_bytes_grows [OF Inr] window n(3) by auto
      have view: "counted_view view (counted_state state r1) = (drop n c, e)"
        using byte_source.rest [OF src less.prems(1,2) n(3)] n(6) by simp
      have "MAX_ZERO_TAIL - tail' < MAX_ZERO_TAIL - tail" using grown n(1) by linarith
      from less.hyps [OF this n(5) view grown(2)] obtain r' where r':
        "finish_tail_from rd tail' r1 = (tail_result tail' (drop n c, e), r')"
        "tail_result tail' (drop n c, e) = Inr () \<Longrightarrow> counted_good good r' \<and>
           counted_state state r' = counted_off take_off (length (drop n c)) (counted_state state r1)" by blast
      have "tail_result tail' (drop n c, e) = tail_result tail (c, e)" using split Inr by (simp add: tail_result_def)
      moreover have "counted_off take_off (length (drop n c)) (counted_state state r1) =
          counted_off take_off (length c) (counted_state state r)"
        using byte_source.take_off_add [OF src less.prems(1,2), of n "length c - n"] n(3,6) by simp
      moreover have "finish_tail_from rd tail r = finish_tail_from rd tail' r1"
        using n(4) window Inr by (simp add: finish_tail_from.simps [of rd tail r])
      ultimately show ?thesis using r' by auto
    qed
  qed
qed

end

section \<open>Two sources\<close>

text \<open>Two runs agree when they answer alike and, unless the answer is a fault, end in related states.\<close>

definition agree :: "('v \<Rightarrow> 'w \<Rightarrow> bool) \<Rightarrow> ('e + 'b) \<times> 'v \<Rightarrow> ('e + 'b) \<times> 'w \<Rightarrow> bool" where
  "agree R x y \<longleftrightarrow> fst x = fst y \<and> (\<forall>a. fst x = Inr a \<longrightarrow> R (snd x) (snd y))"

lemma agree_pair [simp]: "agree R (Inl fault, v) (Inl fault', w) \<longleftrightarrow> fault = fault'"
  "agree R (Inr a, v) (Inr b, w) \<longleftrightarrow> a = b \<and> R v w"
  "agree R (out, v) (out, w) \<longleftrightarrow> (\<forall>a. out = Inr a \<longrightarrow> R v w)"
  by (auto simp: agree_def)

lemma agree_then:
  assumes "agree R x y" and "\<And>a v w. R v w \<Longrightarrow> agree Q (f a v) (g a w)"
  shows "agree Q (step_then x f) (step_then y g)"
  using assms by (cases x; cases y; cases "fst x") (auto simp: agree_def)

locale two_sources =
  one: byte_source rd1 good1 state1 view take_off + two: byte_source rd2 good2 state2 view take_off
  for rd1 :: "'s source" and good1 :: "'s \<Rightarrow> bool" and state1 :: "'s \<Rightarrow> 'a"
    and rd2 :: "'t source" and good2 :: "'t \<Rightarrow> bool" and state2 :: "'t \<Rightarrow> 'a"
    and view :: "'a \<Rightarrow> stream" and take_off :: "nat \<Rightarrow> 'a \<Rightarrow> 'a"

definition same_source ::
  "('s \<Rightarrow> bool) \<Rightarrow> ('s \<Rightarrow> 'a) \<Rightarrow> ('t \<Rightarrow> bool) \<Rightarrow> ('t \<Rightarrow> 'a) \<Rightarrow> 's counting \<Rightarrow> 't counting \<Rightarrow> bool" where
  "same_source good1 state1 good2 state2 r1 r2 \<longleftrightarrow>
     counted_good good1 r1 \<and> counted_good good2 r2 \<and> counted_state state1 r1 = counted_state state2 r2"

definition alike ::
  "('s \<Rightarrow> bool) \<Rightarrow> ('s \<Rightarrow> 'a) \<Rightarrow> ('t \<Rightarrow> bool) \<Rightarrow> ('t \<Rightarrow> 'a) \<Rightarrow> 's walker \<Rightarrow> 't walker \<Rightarrow> bool" where
  "alike good1 state1 good2 state2 w1 w2 \<longleftrightarrow>
     same_source good1 state1 good2 state2 (wk_source w1) (wk_source w2) \<and>
     wk_rules w1 = wk_rules w2 \<and> wk_unread_data w1 = wk_unread_data w2 \<and> wk_unread_padding w1 = wk_unread_padding w2 \<and>
     wk_latch w1 = wk_latch w2 \<and> wk_finished w1 = wk_finished w2 \<and>
     rl_max (wk_copy_buffer w1) \<noteq> 0 \<and> rl_max (wk_copy_buffer w2) \<noteq> 0"

context two_sources
begin

abbreviation (input) sources where "sources \<equiv> same_source good1 state1 good2 state2"
abbreviation (input) walkers where "walkers \<equiv> alike good1 state1 good2 state2"

lemma same_parts:
  assumes "sources r1 r2"
  shows "chain r1 = chain r2" "cr_position r1 = cr_position r2" "check_available n r1 = check_available n r2"
    "counting_remaining r1 = counting_remaining r2"
  using assms by (simp_all add: same_source_def counted_state_def check_available_def counting_remaining_left)

lemma full_agree:
  assumes "sources r1 r2"
  shows "agree sources (read_full (counting_read rd1) k r1) (read_full (counting_read rd2) k r2)"
proof -
  have good: "counted_good good1 r1" "counted_good good2 r2" "counted_state state1 r1 = counted_state state2 r2"
    using assms by (simp_all add: same_source_def)
  obtain c e where view: "counted_view view (counted_state state2 r2) = (c, e)" by fastforce
  from byte_source.read_full_exact [OF one.counted_source good(1), unfolded good(3), OF view, of k]
    byte_source.read_full_exact [OF two.counted_source good(2) view, of k]
  show ?thesis by (cases "k \<le> length c") (auto simp: same_source_def)
qed

lemma left_agree:
  assumes "sources r1 r2" and "0 < b1" and "0 < b2"
  shows "agree sources (skip_left rd1 b1 left r1) (skip_left rd2 b2 left r2)"
proof -
  have good: "counted_good good1 r1" "counted_good good2 r2" "counted_state state1 r1 = counted_state state2 r2"
    using assms by (simp_all add: same_source_def)
  obtain c e where view: "counted_view view (counted_state state2 r2) = (c, e)" by fastforce
  from one.skip_left_exact [OF good(1), unfolded good(3), OF view assms(2), of left]
    two.skip_left_exact [OF good(2) view assms(3), of left]
  show ?thesis by (cases "unat left \<le> length c") (auto simp: same_source_def)
qed

lemma tail_agree:
  assumes "sources r1 r2"
  shows "agree sources (finish_tail_from rd1 BLOCK r1) (finish_tail_from rd2 BLOCK r2)"
proof -
  have good: "counted_good good1 r1" "counted_good good2 r2" "counted_state state1 r1 = counted_state state2 r2"
    using assms by (simp_all add: same_source_def)
  obtain c e where view: "counted_view view (counted_state state2 r2) = (c, e)" by fastforce
  have le: "BLOCK \<le> MAX_ZERO_TAIL" by (simp add: BLOCK_def MAX_ZERO_TAIL_def)
  from one.finish_tail_exact [OF good(1), unfolded good(3), OF view le]
    two.finish_tail_exact [OF good(2) view le]
  show ?thesis by (auto simp: same_source_def)
qed

lemma source_agree:
  assumes "walkers w1 w2" and "\<And>r1 r2. sources r1 r2 \<Longrightarrow> agree sources (f r1) (g r2)"
  shows "agree walkers (with_source f w1) (with_source g w2)"
proof -
  have "agree sources (f (wk_source w1)) (g (wk_source w2))" using assms by (simp add: alike_def)
  then show ?thesis using assms(1)
    by (cases "f (wk_source w1)"; cases "g (wk_source w2)") (auto simp: with_source_def agree_def alike_def)
qed

lemma has_agree: "walkers w1 w2 \<Longrightarrow> agree walkers (source_has n w1) (source_has n w2)"
  using same_parts(3) [of "wk_source w1" "wk_source w2" n] by (simp add: source_has_def alike_def)

lemma rules_agree: "walkers w1 w2 \<Longrightarrow> agree walkers (rules_step f w1) (rules_step f w2)"
  by (cases "f (wk_rules w2)") (simp add: rules_step_def alike_def)

lemma skip_agree:
  assumes "walkers w1 w2"
  shows "agree walkers (skip_unread rd1 w1) (skip_unread rd2 w2)"
proof -
  have alloc: "\<exists>n. alloc_len (rl_max l) l = Inr n \<and> 0 < n" if "rl_max l \<noteq> 0" for l
    using that by (simp add: alloc_len_def unat_gt_0)
  have zero: "skip_left rd b 0 r = (Inr (), r)" for b r and rd :: "'x source"
    by (simp add: skip_left.simps)
  obtain n1 n2 where n: "alloc_len (rl_max (wk_copy_buffer w1)) (wk_copy_buffer w1) = Inr n1" "0 < n1"
    "alloc_len (rl_max (wk_copy_buffer w2)) (wk_copy_buffer w2) = Inr n2" "0 < n2"
    using alloc assms by (metis alike_def)
  show ?thesis
  proof (cases "checked_add (wk_unread_data w2) (wk_unread_padding w2)")
    case None
    then show ?thesis using assms by (simp add: skip_unread_def alike_def)
  next
    case (Some left)
    then have left: "checked_add (wk_unread_data w1) (wk_unread_padding w1) = Some left" using assms by (simp add: alike_def)
    show ?thesis
    proof (cases "left = 0")
      case True
      then show ?thesis using assms Some left by (simp add: skip_unread_def Let_def with_source_def zero alike_def)
    next
      case False
      define b1 where "b1 = (if wk_skip w1 = 0 then n1 else wk_skip w1)"
      define b2 where "b2 = (if wk_skip w2 = 0 then n2 else wk_skip w2)"
      have "skip_unread rd1 w1 = with_source (skip_left rd1 b1 left)
          (w1\<lparr>wk_unread_data := 0, wk_unread_padding := 0, wk_skip := b1\<rparr>)"
        using False n left by (simp add: skip_unread_def Let_def b1_def word_neq_0_conv)
      moreover have "skip_unread rd2 w2 = with_source (skip_left rd2 b2 left)
          (w2\<lparr>wk_unread_data := 0, wk_unread_padding := 0, wk_skip := b2\<rparr>)"
        using False n Some by (simp add: skip_unread_def Let_def b2_def word_neq_0_conv)
      moreover have "0 < b1" "0 < b2" using n by (simp_all add: b1_def b2_def)
      ultimately show ?thesis using assms left_agree
        by (simp only:) (rule source_agree, simp_all add: alike_def)
    qed
  qed
qed

lemma payload_agree: "walkers w1 w2 \<Longrightarrow>
  agree walkers (with_source (read_full (counting_read rd1) n) w1) (with_source (read_full (counting_read rd2) n) w2)"
  by (rule source_agree) (assumption, rule full_agree)

lemma extension_agree:
  assumes "walkers w1 w2"
  shows "agree walkers (read_extension rd1 ext len data_offset flag w1) (read_extension rd2 ext len data_offset flag w2)"
proof (cases "wk_rules w2")
  case (Image r)
  then show ?thesis using assms by (simp add: read_extension_def alike_def)
next
  case (Layer layer)
  then have rules: "wk_rules w1 = Layer layer" using assms by (simp add: alike_def)
  show ?thesis unfolding read_extension_def rules Layer rules.case
  proof (rule agree_then)
    show "agree walkers (refuse_duplicate ext (lr_pending layer), w1) (refuse_duplicate ext (lr_pending layer), w2)"
      using assms by simp
    fix u w1 w2 assume w: "walkers w1 w2"
    show "agree walkers
      (if rl_max (lr_extension layer) < len then (Inl (exceeded (lr_extension layer)), w1)
       else case budget_charge len (lr_extension_total layer) of
          Inl fault \<Rightarrow> (Inl fault, w1)
        | Inr b \<Rightarrow> let layer = layer\<lparr>lr_extension_total := b\<rparr>; w = w1\<lparr>wk_rules := Layer layer\<rparr> in
            step_then (padded_len data_offset len, w) (\<lambda>padded w. step_then (source_has padded w) (\<lambda>_ w.
            step_then (alloc_len len (lr_extension layer), w) (\<lambda>n w.
            step_then (with_source (read_full (counting_read rd1) n) w) (\<lambda>payload w.
            let w = w\<lparr>wk_unread_padding := padded - len\<rparr> in
            case pending_record ext payload (lr_pending layer) of
              Inl fault \<Rightarrow> (Inl fault, w)
            | Inr p \<Rightarrow> (Inr (), w\<lparr>wk_rules := Layer (layer\<lparr>lr_pending := p\<rparr>)\<rparr>))))))
      (if rl_max (lr_extension layer) < len then (Inl (exceeded (lr_extension layer)), w2)
       else case budget_charge len (lr_extension_total layer) of
          Inl fault \<Rightarrow> (Inl fault, w2)
        | Inr b \<Rightarrow> let layer = layer\<lparr>lr_extension_total := b\<rparr>; w = w2\<lparr>wk_rules := Layer layer\<rparr> in
            step_then (padded_len data_offset len, w) (\<lambda>padded w. step_then (source_has padded w) (\<lambda>_ w.
            step_then (alloc_len len (lr_extension layer), w) (\<lambda>n w.
            step_then (with_source (read_full (counting_read rd2) n) w) (\<lambda>payload w.
            let w = w\<lparr>wk_unread_padding := padded - len\<rparr> in
            case pending_record ext payload (lr_pending layer) of
              Inl fault \<Rightarrow> (Inl fault, w)
            | Inr p \<Rightarrow> (Inr (), w\<lparr>wk_rules := Layer (layer\<lparr>lr_pending := p\<rparr>)\<rparr>))))))"
    proof (cases "rl_max (lr_extension layer) < len \<or> (\<exists>fault. budget_charge len (lr_extension_total layer) = Inl fault)")
      case True
      then show ?thesis using w by auto
    next
      case False
      then obtain b where b: "budget_charge len (lr_extension_total layer) = Inr b"
        by (cases "budget_charge len (lr_extension_total layer)") auto
      have w': "walkers (w1\<lparr>wk_rules := r\<rparr>) (w2\<lparr>wk_rules := r\<rparr>)" for r using w by (simp add: alike_def)
      have recorded: "agree walkers
          (case pending_record ext payload p of
             Inl fault \<Rightarrow> (Inl fault, v1\<lparr>wk_unread_padding := n\<rparr>)
           | Inr p \<Rightarrow> (Inr (), v1\<lparr>wk_unread_padding := n, wk_rules := Layer (l\<lparr>lr_pending := p\<rparr>)\<rparr>))
          (case pending_record ext payload p of
             Inl fault \<Rightarrow> (Inl fault, v2\<lparr>wk_unread_padding := n\<rparr>)
           | Inr p \<Rightarrow> (Inr (), v2\<lparr>wk_unread_padding := n, wk_rules := Layer (l\<lparr>lr_pending := p\<rparr>)\<rparr>))"
        if "walkers v1 v2" for payload p n l v1 v2
        using that by (cases "pending_record ext payload p") (simp_all add: alike_def)
      show ?thesis using False b
        by (auto simp: Let_def intro!: agree_then [where R = walkers] has_agree payload_agree recorded w')
    qed
  qed
qed

lemma admit_agree: "walkers w1 w2 \<Longrightarrow>
  agree walkers (admit_entry kind header ho d w1) (admit_entry kind header ho d w2)"
  unfolding admit_entry_def
  by (intro agree_then [where R = walkers] rules_agree has_agree) (auto simp: alike_def)

lemma header_agree:
  assumes "walkers w1 w2"
  shows "agree walkers (read_header rd1 block ho w1) (read_header rd2 block ho w2)"
proof -
  have entry: "agree walkers
      (case t of ExtensionFlag ext \<Rightarrow> step_then (read_extension rd1 ext n d flag v1) (\<lambda>_ w. (Inr None, w))
       | EntryFlag kind \<Rightarrow> step_then (admit_entry kind header ho d v1) (\<lambda>e w. (Inr (Some e), w)))
      (case t of ExtensionFlag ext \<Rightarrow> step_then (read_extension rd2 ext n d flag v2) (\<lambda>_ w. (Inr None, w))
       | EntryFlag kind \<Rightarrow> step_then (admit_entry kind header ho d v2) (\<lambda>e w. (Inr (Some e), w)))"
    if "walkers v1 v2" for t n d flag header v1 v2
    using that by (cases t) (auto intro!: agree_then [where R = walkers] extension_agree admit_agree)
  have rules: "wk_rules v1 = wk_rules v2" if "walkers v1 v2" for v1 v2 using that by (simp add: alike_def)
  show ?thesis unfolding read_header_def Let_def
    by (intro agree_then [where R = walkers] rules_agree assms entry) (auto simp: rules)
qed

lemma turn_agree:
  assumes "walkers w1 w2"
  shows "agree walkers (advance_turn rd1 w1) (advance_turn rd2 w2)"
  unfolding advance_turn_def Let_def
proof (rule agree_then [where R = walkers], rule skip_agree [OF assms])
  fix u v1 v2 assume v: "walkers v1 v2"
  have position: "cr_position (wk_source v1) = cr_position (wk_source v2)"
    using v same_parts(2) by (simp add: alike_def)
  show "agree walkers
     (step_then (with_source (read_full (counting_read rd1) BLOCK) v1) (\<lambda>block w.
      if list_all (\<lambda>c. c = CHR 0x00) block then
        (if has_pending (wk_rules w) then (Inl (Malformed MR_DanglingExtension), w)
         else step_then (finish_tail rd1 w) (\<lambda>_ w. (Inr (Some None), w\<lparr>wk_finished := True\<rparr>)))
      else step_then (read_header rd1 block (cr_position (wk_source v1)) w) (\<lambda>e w. (Inr (map_option Some e), w))))
     (step_then (with_source (read_full (counting_read rd2) BLOCK) v2) (\<lambda>block w.
      if list_all (\<lambda>c. c = CHR 0x00) block then
        (if has_pending (wk_rules w) then (Inl (Malformed MR_DanglingExtension), w)
         else step_then (finish_tail rd2 w) (\<lambda>_ w. (Inr (Some None), w\<lparr>wk_finished := True\<rparr>)))
      else step_then (read_header rd2 block (cr_position (wk_source v2)) w) (\<lambda>e w. (Inr (map_option Some e), w))))"
    unfolding position
  proof (rule agree_then [where R = walkers], rule payload_agree [OF v])
    fix block w1 w2 assume w: "walkers w1 w2"
    have rules: "wk_rules w1 = wk_rules w2" using w by (simp add: alike_def)
    have tail: "agree walkers (step_then (finish_tail rd1 w1) (\<lambda>_ w. (Inr (Some (None :: tar_entry option)), w\<lparr>wk_finished := True\<rparr>)))
        (step_then (finish_tail rd2 w2) (\<lambda>_ w. (Inr (Some None), w\<lparr>wk_finished := True\<rparr>)))"
      unfolding finish_tail_def
      by (intro agree_then [where R = walkers] source_agree [OF w] tail_agree) (auto simp: alike_def)
    show "agree walkers
       (if list_all (\<lambda>c. c = CHR 0x00) block then
          (if has_pending (wk_rules w1) then (Inl (Malformed MR_DanglingExtension), w1)
           else step_then (finish_tail rd1 w1) (\<lambda>_ w. (Inr (Some None), w\<lparr>wk_finished := True\<rparr>)))
        else step_then (read_header rd1 block (cr_position (wk_source v2)) w1) (\<lambda>e w. (Inr (map_option Some e), w)))
       (if list_all (\<lambda>c. c = CHR 0x00) block then
          (if has_pending (wk_rules w2) then (Inl (Malformed MR_DanglingExtension), w2)
           else step_then (finish_tail rd2 w2) (\<lambda>_ w. (Inr (Some None), w\<lparr>wk_finished := True\<rparr>)))
        else step_then (read_header rd2 block (cr_position (wk_source v2)) w2) (\<lambda>e w. (Inr (map_option Some e), w)))"
    proof (cases "list_all (\<lambda>c. c = CHR 0x00) block")
      case True
      then show ?thesis using rules tail by simp
    next
      case False
      then show ?thesis using w by (simp add: agree_then [where R = walkers] header_agree)
    qed
  qed
qed

lemma advance_agree:
  assumes "walkers w1 w2"
  shows "rel_option (agree walkers) (advance fuel rd1 w1) (advance fuel rd2 w2)"
  using assms
proof (induction fuel arbitrary: w1 w2)
  case (Suc fuel)
  obtain x1 v1 x2 v2 where t: "advance_turn rd1 w1 = (x1, v1)" "advance_turn rd2 w2 = (x2, v2)" by fastforce
  with turn_agree [OF Suc.prems] have "x1 = x2" "\<And>a. x2 = Inr a \<Longrightarrow> walkers v1 v2"
    by (simp_all add: agree_def)
  then show ?case using t Suc.IH by (cases x2; cases "projr x2") auto
qed simp

lemma entry_agree:
  assumes "walkers w1 w2"
  shows "rel_option (agree walkers) (next_entry rd1 w1) (next_entry rd2 w2)"
proof (cases "latch_check (wk_latch w2)")
  case (Inl fault)
  then show ?thesis using assms by (simp add: next_entry_def alike_def)
next
  case (Inr u)
  let ?fuel = "Suc (unat (counting_remaining (wk_source w2)))"
  have same: "wk_latch w1 = wk_latch w2" "wk_finished w1 = wk_finished w2"
    "counting_remaining (wk_source w1) = counting_remaining (wk_source w2)"
    using assms same_parts(4) by (simp_all add: alike_def)
  show ?thesis
  proof (cases "wk_finished w2")
    case True
    then show ?thesis using Inr same assms by (simp add: next_entry_def)
  next
    case False
    from advance_agree [OF assms, of ?fuel] show ?thesis using Inr same False
      by (cases "advance ?fuel rd1 w1"; cases "advance ?fuel rd2 w2")
         (auto simp: next_entry_def agree_def simp del: advance.simps split: sum.splits)
  qed
qed

end

end
