(* ===== verification/Tar_Entries.thy ===== *)
theory Tar_Entries
  imports Tar_Stream
begin

text \<open>
  Where the walker is in the bytes of its source: what each of its steps takes off, and that the entry it
  yields has its header where it says, its data and padding still to come; and that two sources of the same
  bytes are walked alike.
\<close>

section \<open>A place in the stream\<close>

definition walker_at ::
  "('s \<Rightarrow> bool) \<Rightarrow> ('s \<Rightarrow> 'a) \<Rightarrow> (nat \<Rightarrow> 'a \<Rightarrow> 'a) \<Rightarrow> 's counting \<Rightarrow> bytes \<Rightarrow> nat \<Rightarrow> 's walker \<Rightarrow> bool" where
  "walker_at good state take_off start c n w \<longleftrightarrow>
     counted_good good (wk_source w) \<and> n \<le> length c \<and> rl_max (wk_copy_buffer w) \<noteq> 0 \<and>
     counted_state state (wk_source w) = counted_off take_off n (counted_state state start)"

definition starts ::
  "('s \<Rightarrow> bool) \<Rightarrow> ('s \<Rightarrow> 'a) \<Rightarrow> ('a \<Rightarrow> stream) \<Rightarrow> 's counting \<Rightarrow> bytes \<Rightarrow> content_fault option \<Rightarrow> bool" where
  "starts good state view start c e \<longleftrightarrow>
     counted_good good start \<and> cr_position start = 0 \<and> counted_view view (counted_state state start) = (c, e)"

lemma step_then_Inr:
  "step_then x f = (Inr b, w') \<longleftrightarrow> (\<exists>a w. x = (Inr a, w) \<and> f a w = (Inr b, w'))"
  by (cases x; cases "fst x") auto

lemma with_source_Inr:
  "with_source f w = (Inr b, w') \<longleftrightarrow> (\<exists>r. f (wk_source w) = (Inr b, r) \<and> w' = w\<lparr>wk_source := r\<rparr>)"
  by (cases "f (wk_source w)") (auto simp: with_source_def)

lemma pair_Inr: "(r, w) = (Inr b, w') \<longleftrightarrow> r = Inr b \<and> w' = w" by auto

lemma rules_step_Inr:
  "rules_step f w = (Inr b, w') \<longleftrightarrow> (\<exists>rs. f (wk_rules w) = (Inr b, rs) \<and> w' = w\<lparr>wk_rules := rs\<rparr>)"
  by (cases "f (wk_rules w)") (auto simp: rules_step_def)

lemma source_has_Inr:
  "source_has n w = (Inr u, w') \<longleftrightarrow> check_available n (wk_source w) = Inr () \<and> w' = w"
  by (auto simp: source_has_def)

lemmas steps_Inr = step_then_Inr with_source_Inr pair_Inr rules_step_Inr source_has_Inr

lemma counted_length: "counted_view view (a, budgets, p) = (c, e) \<Longrightarrow> length c \<le> unat (left_of budgets)"
  by (auto simp: counted_view_def Let_def split: prod.splits if_splits)

context byte_source
begin

abbreviation (input) walk_at where "walk_at \<equiv> walker_at good state take_off"

lemma at_view:
  assumes "starts good state view start c e" and "walk_at start c n w"
  shows "counted_view view (counted_state state (wk_source w)) = (drop n c, e)" "unat (cr_position (wk_source w)) = n"
    "unat (counting_remaining (wk_source w)) = unat (counting_remaining start) - n" "n \<le> unat (counting_remaining start)"
proof -
  have start: "counted_good good start" "counted_view view (counted_state state start) = (c, e)" "n \<le> length c"
    and st: "counted_state state (wk_source w) = counted_off take_off n (counted_state state start)"
    using assms by (simp_all add: starts_def walker_at_def)
  show "counted_view view (counted_state state (wk_source w)) = (drop n c, e)"
    unfolding st by (rule counted_rest [OF start])
  have left: "n \<le> unat (left_of (chain start))"
    using counted_length [OF start(2) [unfolded counted_state_def]] start(3) by linarith
  then show "n \<le> unat (counting_remaining start)" by (simp add: counting_remaining_left)
  have "cr_position (wk_source w) = saturating_add 0 (widen n)"
    using st assms(1) by (simp add: counted_state_def counted_off_def starts_def)
  moreover have "unat (widen n) = n" by (rule widen_le [OF left])
  moreover have "n < 18446744073709551616" using left unat_u64_bound [of "left_of (chain start)"] by linarith
  ultimately show "unat (cr_position (wk_source w)) = n" by (simp add: saturating_add_def)
  have "chain (wk_source w) = map (spend n) (chain start)" using st by (simp add: counted_state_def counted_off_def)
  then show "unat (counting_remaining (wk_source w)) = unat (counting_remaining start) - n"
    using left_of_off(1) [of "chain start" n] left start(1)
    by (simp add: counting_remaining_left counted_good_def chain_ok_def chain_def)
qed

lemma at_off:
  assumes "starts good state view start c e" and "walk_at start c n w" and "n + k \<le> length c"
    and "counted_good good r" and "counted_state state r = counted_off take_off k (counted_state state (wk_source w))"
    and "wk_source w' = r" and "rl_max (wk_copy_buffer w') \<noteq> 0"
  shows "walk_at start c (n + k) w'"
  using assms counted_off_add [of start c e n k] by (simp add: starts_def walker_at_def)

lemma at_skip:
  assumes start: "starts good state view start c e" and at: "walk_at start c n w" and skip: "skip_unread rd w = (Inr (), w')"
  shows "n + unat (wk_unread_data w) + unat (wk_unread_padding w) \<le> length c"
    "walk_at start c (n + unat (wk_unread_data w) + unat (wk_unread_padding w)) w'"
    "wk_unread_data w' = 0" "wk_unread_padding w' = 0" "wk_rules w' = wk_rules w"
proof -
  obtain left where left: "checked_add (wk_unread_data w) (wk_unread_padding w) = Some left"
    using skip by (cases "checked_add (wk_unread_data w) (wk_unread_padding w)") (auto simp: skip_unread_def)
  then have sum: "unat left = unat (wk_unread_data w) + unat (wk_unread_padding w)" by (simp add: checked_add_Some)
  have good: "counted_good good (wk_source w)" and copy: "rl_max (wk_copy_buffer w) \<noteq> 0" and n: "n \<le> length c"
    using at by (simp_all add: walker_at_def)
  obtain b r where r: "skip_left rd b left (wk_source w) = (Inr (), r)" "0 < b \<or> left = 0" "wk_source w' = r"
    "wk_copy_buffer w' = wk_copy_buffer w" "wk_unread_data w' = 0" "wk_unread_padding w' = 0" "wk_rules w' = wk_rules w"
  proof (cases "left > 0 \<and> wk_skip w = 0")
    case True
    then have "0 < unat (rl_max (wk_copy_buffer w))" using copy by (simp add: unat_gt_0)
    moreover have "alloc_len (rl_max (wk_copy_buffer w)) (wk_copy_buffer w) = Inr (unat (rl_max (wk_copy_buffer w)))"
      by (simp add: alloc_len_def)
    ultimately show ?thesis using skip left True
      by (intro that [of "unat (rl_max (wk_copy_buffer w))"]) (auto simp: skip_unread_def Let_def steps_Inr)
  next
    case False
    then show ?thesis using skip left
      by (intro that [of "wk_skip w"]) (auto simp: skip_unread_def Let_def steps_Inr word_neq_0_conv)
  qed
  note view = at_view(1) [OF start at]
  have done_left: "unat left \<le> length (drop n c) \<and> counted_good good r \<and>
      counted_state state r = counted_off take_off (unat left) (counted_state state (wk_source w))"
  proof (cases "left = 0")
    case True
    then show ?thesis using r(1) good byte_source.take_off_0 [OF counted_source] by (simp add: skip_left.simps)
  next
    case False
    from skip_left_exact [OF good view, of b left] r(1,2) False show ?thesis
      by (cases "unat left \<le> length (drop n c)") auto
  qed
  show "n + unat (wk_unread_data w) + unat (wk_unread_padding w) \<le> length c"
  proof -
    have "unat left \<le> length c - n" using done_left by simp
    then show ?thesis using sum n by linarith
  qed
  then show "walk_at start c (n + unat (wk_unread_data w) + unat (wk_unread_padding w)) w'"
    using at_off [OF start at, of "unat left" r w'] done_left sum r(3,4) copy by (simp add: add.assoc)
qed (use assms in \<open>auto simp: skip_unread_def Let_def steps_Inr split: option.splits sum.splits if_splits\<close>)

lemma at_full:
  assumes start: "starts good state view start c e" and at: "walk_at start c n w"
    and full: "with_source (read_full (counting_read rd) k) w = (Inr payload, w')"
  shows "n + k \<le> length c" "payload = take k (drop n c)" "walk_at start c (n + k) w'"
    "\<exists>r. w' = w\<lparr>wk_source := r\<rparr>"
proof -
  have good: "counted_good good (wk_source w)" and copy: "rl_max (wk_copy_buffer w) \<noteq> 0" and n: "n \<le> length c"
    using at by (simp_all add: walker_at_def)
  obtain r where r: "read_full (counting_read rd) k (wk_source w) = (Inr payload, r)" "w' = w\<lparr>wk_source := r\<rparr>"
    using full by (auto simp: steps_Inr)
  from byte_source.read_full_exact [OF counted_source good at_view(1) [OF start at], of k] r(1)
  have "k \<le> length (drop n c) \<and> payload = take k (drop n c) \<and> counted_good good r \<and>
      counted_state state r = counted_off take_off k (counted_state state (wk_source w))"
    by (cases "k \<le> length (drop n c)") auto
  then show "n + k \<le> length c" "payload = take k (drop n c)" "walk_at start c (n + k) w'" "\<exists>r. w' = w\<lparr>wk_source := r\<rparr>"
    using at_off [OF start at, of k r w'] r(2) copy n by auto
qed

lemma at_same: "walk_at start c n w \<Longrightarrow> wk_source w' = wk_source w \<Longrightarrow> wk_copy_buffer w' = wk_copy_buffer w \<Longrightarrow> walk_at start c n w'"
  by (simp add: walker_at_def)

lemma at_extension:
  assumes start: "starts good state view start c e" and at: "walk_at start c n w"
    and ext: "read_extension rd x len data_offset flag w = (Inr u, w')"
  shows "n + unat len \<le> length c" "walk_at start c (n + unat len) w'" "wk_unread_data w' = wk_unread_data w"
proof -
  obtain layer where rules: "wk_rules w = Layer layer" using ext by (cases "wk_rules w") (auto simp: read_extension_def)
  obtain b where b: "budget_charge len (lr_extension_total layer) = Inr b"
    using ext by (cases "budget_charge len (lr_extension_total layer)")
      (auto simp: read_extension_def rules steps_Inr split: if_splits)
  obtain padded payload r where parts: "len \<le> rl_max (lr_extension layer)"
    "with_source (read_full (counting_read rd) (unat len)) (w\<lparr>wk_rules := Layer (layer\<lparr>lr_extension_total := b\<rparr>)\<rparr>) = (Inr payload, r)"
    "(case pending_record x payload (lr_pending layer) of
        Inl fault \<Rightarrow> (Inl fault, r\<lparr>wk_unread_padding := padded - len\<rparr>)
      | Inr p \<Rightarrow> (Inr (), r\<lparr>wk_unread_padding := padded - len, wk_rules := Layer (layer\<lparr>lr_extension_total := b, lr_pending := p\<rparr>)\<rparr>)) =
     (Inr u, w')"
    using ext by (auto simp: read_extension_def rules b Let_def step_then_Inr pair_Inr source_has_Inr alloc_len_def split: if_splits)
  then obtain p where steps: "len \<le> rl_max (lr_extension layer)"
    "with_source (read_full (counting_read rd) (unat len)) (w\<lparr>wk_rules := Layer (layer\<lparr>lr_extension_total := b\<rparr>)\<rparr>) = (Inr payload, r)"
    "w' = r\<lparr>wk_unread_padding := padded - len, wk_rules := Layer (layer\<lparr>lr_extension_total := b, lr_pending := p\<rparr>)\<rparr>"
    by (cases "pending_record x payload (lr_pending layer)") auto
  have "walk_at start c n (w\<lparr>wk_rules := Layer (layer\<lparr>lr_extension_total := b\<rparr>)\<rparr>)" by (rule at_same [OF at]) simp_all
  note full = at_full [OF start this steps(2)]
  show "n + unat len \<le> length c" by (rule full(1))
  show "walk_at start c (n + unat len) w'" by (rule at_same [OF full(3)]) (simp_all add: steps(3))
  show "wk_unread_data w' = wk_unread_data w" using full(4) steps(3) by auto
qed

end

text \<open>The walker stands behind the header of an entry, its data and padding still to come.\<close>

definition stands_at ::
  "('s \<Rightarrow> bool) \<Rightarrow> ('s \<Rightarrow> 'a) \<Rightarrow> (nat \<Rightarrow> 'a \<Rightarrow> 'a) \<Rightarrow> 's counting \<Rightarrow> bytes \<Rightarrow> nat \<Rightarrow> tar_entry \<Rightarrow> 's walker \<Rightarrow> bool" where
  "stands_at good state take_off start c m e w \<longleftrightarrow>
     unat (te_header_offset e) = m \<and> unat (te_data_offset e) = m + BLOCK \<and> te_data_len e = te_size e \<and>
     m + BLOCK \<le> length c \<and> walker_at good state take_off start c (m + BLOCK) w \<and>
     wk_unread_data w = te_size e \<and>
     unat (te_size e) + unat (wk_unread_padding w) = (unat (te_size e) + 511) div 512 * 512"

lemma padded_len_Inr:
  assumes "padded_len d n = Inr padded"
  shows "unat padded = (unat n + 511) div 512 * 512" "n \<le> padded"
proof -
  let ?up = "(unat n + 511) div 512 * 512"
  have "?up < 2 ^ 64" "padded = u64_of ?up"
    using assms by (auto simp: padded_len_def Let_def split: if_splits)
  then show up: "unat padded = ?up" by simp
  have "unat n \<le> ?up" by linarith
  then show "n \<le> padded" using up by (simp add: word_le_nat_alt)
qed

context byte_source
begin

lemma at_admit:
  assumes "admit_entry kind h ho d w = (Inr e, w')"
  shows "wk_source w' = wk_source w" "wk_copy_buffer w' = wk_copy_buffer w"
    "te_kind e = kind" "te_header_offset e = ho" "te_data_offset e = d" "te_data_len e = te_size e"
    "admit kind h (wk_rules w) = (Inr \<lparr>ad_name = te_name e, ad_link_target = te_link_target e, ad_size = te_size e\<rparr>, wk_rules w')"
    "wk_unread_data w' = te_size e"
    "unat (te_size e) + unat (wk_unread_padding w') = (unat (te_size e) + 511) div 512 * 512"
proof -
  obtain a rs padded where steps: "admit kind h (wk_rules w) = (Inr a, rs)" "padded_len d (ad_size a) = Inr padded"
    "e = \<lparr>te_kind = kind, te_name = ad_name a, te_link_target = ad_link_target a, te_size = ad_size a,
          te_header_offset = ho, te_data_offset = d, te_data_len = ad_size a\<rparr>"
    "w' = w\<lparr>wk_rules := rs, wk_unread_data := ad_size a, wk_unread_padding := padded - ad_size a\<rparr>"
    using assms by (auto simp: admit_entry_def steps_Inr)
  have "unat (padded - ad_size a) = unat padded - unat (ad_size a)" "unat (ad_size a) \<le> unat padded"
    using padded_len_Inr(2) [OF steps(2)] by (simp_all add: word_le_nat_alt unat_sub_if')
  then show "unat (te_size e) + unat (wk_unread_padding w') = (unat (te_size e) + 511) div 512 * 512"
    using padded_len_Inr(1) [OF steps(2)] steps(3,4) by simp
qed (use assms in \<open>auto simp: admit_entry_def steps_Inr\<close>)

lemma at_turn:
  assumes start: "starts good state view start c e" and at: "walk_at start c n w" and turn: "advance_turn rd w = (Inr out, w')"
  shows "case out of
      None \<Rightarrow> \<exists>n'. n + BLOCK \<le> n' \<and> walk_at start c n' w'
    | Some None \<Rightarrow> wk_finished w'
    | Some (Some ent) \<Rightarrow> \<exists>m. n \<le> m \<and> stands_at good state take_off start c m ent w'"
proof -
  obtain w1 block w2 where w1: "skip_unread rd w = (Inr (), w1)"
    and w2: "with_source (read_full (counting_read rd) BLOCK) w1 = (Inr block, w2)"
    and rest: "(if list_all (\<lambda>c. c = CHR 0x00) block then
         (if has_pending (wk_rules w2) then (Inl (Malformed MR_DanglingExtension), w2)
          else step_then (finish_tail rd w2) (\<lambda>_ w. (Inr (Some None), w\<lparr>wk_finished := True\<rparr>)))
       else step_then (read_header rd block (cr_position (wk_source w1)) w2) (\<lambda>e w. (Inr (map_option Some e), w))) =
       (Inr out, w')"
    using turn by (auto simp: advance_turn_def Let_def step_then_Inr)
  define m where "m = n + unat (wk_unread_data w) + unat (wk_unread_padding w)"
  note skip = at_skip [OF start at w1, folded m_def] and full = at_full [OF start at_skip(2) [OF start at w1, folded m_def] w2]
  have position: "unat (cr_position (wk_source w1)) = m" by (rule at_view(2) [OF start skip(2)])
  show ?thesis
  proof (cases "list_all (\<lambda>c. c = CHR 0x00) block")
    case True
    then have "out = Some None \<and> wk_finished w'" using rest by (auto simp: step_then_Inr pair_Inr split: if_splits)
    then show ?thesis by simp
  next
    case False
    then obtain ent where header: "read_header rd block (cr_position (wk_source w1)) w2 = (Inr ent, w')" "out = map_option Some ent"
      using rest by (auto simp: step_then_Inr pair_Inr)
    obtain rs magic t h d where parts: "verify_checksum block = Inr ()" "read_magic block = Inr magic"
      "classify rs (block ! TYPEFLAG) = Some t" "parse_fields block magic (block ! TYPEFLAG) = Inr h"
      "checked_add (cr_position (wk_source w1)) BLOCK_U64 = Some d"
      "(case t of ExtensionFlag ext \<Rightarrow> step_then (read_extension rd ext (hf_size h) d (block ! TYPEFLAG) (w2\<lparr>wk_rules := rs\<rparr>)) (\<lambda>_ w. (Inr None, w))
         | EntryFlag kind \<Rightarrow> step_then (admit_entry kind h (cr_position (wk_source w1)) d (w2\<lparr>wk_rules := rs\<rparr>)) (\<lambda>e w. (Inr (Some e), w))) = (Inr ent, w')"
      using header(1) by (auto simp: read_header_def Let_def steps_Inr)
    have d: "unat d = m + BLOCK" using parts(5) position by (simp add: checked_add_Some BLOCK_def BLOCK_U64_def)
    have at2: "walk_at start c (m + BLOCK) (w2\<lparr>wk_rules := rs\<rparr>)" by (rule at_same [OF full(3)]) simp_all
    show ?thesis
    proof (cases t)
      case (ExtensionFlag x)
      then have ext: "read_extension rd x (hf_size h) d (block ! TYPEFLAG) (w2\<lparr>wk_rules := rs\<rparr>) = (Inr (), w')" and "ent = None"
        using parts(6) by (auto simp: step_then_Inr pair_Inr)
      have "n + BLOCK \<le> m + BLOCK + unat (hf_size h)" by (simp add: m_def)
      then have "\<exists>n'. n + BLOCK \<le> n' \<and> walk_at start c n' w'" using at_extension(2) [OF start at2 ext] by blast
      then show ?thesis using header(2) \<open>ent = None\<close> by simp
    next
      case (EntryFlag kind)
      then obtain en where admitted: "admit_entry kind h (cr_position (wk_source w1)) d (w2\<lparr>wk_rules := rs\<rparr>) = (Inr en, w')" "ent = Some en"
        using parts(6) by (auto simp: step_then_Inr pair_Inr)
      note a = at_admit [OF admitted(1)]
      have "walk_at start c (m + BLOCK) w'" by (rule at_same [OF at2]) (simp_all add: a)
      then have "stands_at good state take_off start c m en w'"
        using a(4-6,8,9) position d full(1,2) by (auto simp: stands_at_def)
      moreover have "n \<le> m" by (simp add: m_def)
      ultimately show ?thesis using header(2) admitted(2) by auto
    qed
  qed
qed

lemma at_advance:
  assumes start: "starts good state view start c e" and "walk_at start c n w"
    and "unat (counting_remaining (wk_source w)) < fuel"
  shows "\<exists>out w'. advance fuel rd w = Some (out, w') \<and>
    (case out of Inl _ \<Rightarrow> True | Inr None \<Rightarrow> wk_finished w'
     | Inr (Some ent) \<Rightarrow> \<exists>m. n \<le> m \<and> stands_at good state take_off start c m ent w')"
  using assms(2,3)
proof (induction fuel arbitrary: n w)
  case (Suc fuel)
  obtain out w1 where turn: "advance_turn rd w = (out, w1)" by fastforce
  show ?case
  proof (cases out)
    case (Inl fault)
    then show ?thesis using turn by simp
  next
    case (Inr x)
    note t = at_turn [OF start Suc.prems(1) turn [unfolded Inr]]
    show ?thesis
    proof (cases x)
      case None
      with t obtain n' where n': "n + BLOCK \<le> n'" "walk_at start c n' w1" by auto
      have "unat (counting_remaining (wk_source w1)) < unat (counting_remaining (wk_source w))"
        using at_view(3,4) [OF start n'(2)] at_view(3) [OF start Suc.prems(1)] n'(1) by (simp add: BLOCK_def)
      then have "unat (counting_remaining (wk_source w1)) < fuel" using Suc.prems(2) by linarith
      from Suc.IH [OF n'(2) this] obtain out' w' where "advance fuel rd w1 = Some (out', w')"
        "case out' of Inl _ \<Rightarrow> True | Inr None \<Rightarrow> wk_finished w'
         | Inr (Some ent) \<Rightarrow> \<exists>m. n' \<le> m \<and> stands_at good state take_off start c m ent w'" by blast
      then show ?thesis using turn Inr None n'(1) by (auto split: sum.splits option.splits) (meson le_add1 order_trans)+
    next
      case (Some y)
      then show ?thesis using turn Inr t by (cases y) auto
    qed
  qed
qed simp

lemma at_next:
  assumes start: "starts good state view start c e" and "walk_at start c n w"
  shows "\<exists>out w'. next_entry rd w = Some (out, w') \<and>
    (\<forall>ent. out = Inr (Some ent) \<longrightarrow> (\<exists>m. n \<le> m \<and> stands_at good state take_off start c m ent w'))"
proof (cases "latch_check (wk_latch w)")
  case (Inr u)
  show ?thesis
  proof (cases "wk_finished w")
    case False
    let ?fuel = "Suc (unat (counting_remaining (wk_source w)))"
    from at_advance [OF assms lessI] obtain out w' where a: "advance ?fuel rd w = Some (out, w')"
      "case out of Inl _ \<Rightarrow> True | Inr None \<Rightarrow> wk_finished w'
       | Inr (Some ent) \<Rightarrow> \<exists>m. n \<le> m \<and> stands_at good state take_off start c m ent w'" by blast
    then show ?thesis using Inr False
      by (cases out) (auto simp: next_entry_def simp del: advance.simps split: option.splits)
  qed (use Inr in \<open>simp add: next_entry_def\<close>)
qed (simp add: next_entry_def)

end

section \<open>Walks\<close>

lemma memory_starts:
  assumes "length c \<le> unat (rl_max limit)"
  shows "starts (\<lambda>_. True) (\<lambda>s. s) (\<lambda>s. s) (counting_new (c, None) limit [] buf) c None"
proof -
  have "left_of [budget_new limit] = rl_max limit"
    using left_of_is [of "[budget_new limit]"]
    by (simp add: budget_remaining_def budget_new_def saturating_sub_def)
  then show ?thesis using assms
    by (simp add: starts_def counted_good_def counting_new_def chain_ok_def chain_def counted_view_def counted_state_def)
qed

lemma walker_new_at:
  assumes "starts good state view start c e" and "limits_get limits LR_CopyBuffer \<noteq> 0" and "byte_source rd good state view take_off"
  shows "walker_at good state take_off start c 0 (walker_new start policy limits)"
  using assms(1,2) byte_source.take_off_0 [OF byte_source.counted_source [OF assms(3)]]
  by (simp add: walker_at_def walker_new_def starts_def limits_resource_limit_def Let_def)

text \<open>C39: Whatever sizes two sources hand the same bytes on in, and whatever the sizes of the copy buffers, two walkers
  in the same place report the same entry, end or fault, and stand in the same place again.\<close>

theorem walk_ignores_chunking:
  assumes "byte_source rd1 good1 state1 view take_off" and "byte_source rd2 good2 state2 view take_off"
    and "alike good1 state1 good2 state2 w1 w2"
  shows "rel_option (agree (alike good1 state1 good2 state2)) (next_entry rd1 w1) (next_entry rd2 w2)"
  by (rule two_sources.entry_agree [OF two_sources.intro [OF assms(1,2)] assms(3)])

text \<open>A source that hands on one byte at a time.\<close>

definition drip_read :: "stream source" where
  "drip_read k = (if k = 0 then stream_read 0 else stream_read 1)"

lemma drip_source: "byte_source drip_read (\<lambda>_. True) (\<lambda>s. s) (\<lambda>s. s) stream_off"
proof (unfold_locales, goal_cases)
  case (1 s k c e)
  then show ?case
    by (intro exI [of _ 1] exI [of _ "stream_off 1 s"]) (auto simp: stream_off_def drip_read_def min_def Suc_le_eq)
qed (auto simp: stream_off_def drip_read_def add.commute min_def)

theorem walk_ignores_chunking_witness:
  "map_option fst (next_entry stream_read (walker_new (counting_new (replicate 1024 CHR 0x00, None)
     \<lparr>rl_resource = LR_ImageArchive, rl_max = 4096\<rparr> [] 8) ImageArchive limits_default)) =
   map_option fst (next_entry drip_read (walker_new (counting_new (replicate 1024 CHR 0x00, None)
     \<lparr>rl_resource = LR_ImageArchive, rl_max = 4096\<rparr> [] 1) ImageArchive limits_default))"
proof -
  let ?w = "\<lambda>buf. walker_new (counting_new (replicate 1024 CHR 0x00, None) \<lparr>rl_resource = LR_ImageArchive, rl_max = 4096\<rparr> [] buf)
     ImageArchive limits_default"
  have "alike (\<lambda>_. True) (\<lambda>s. s) (\<lambda>_. True) (\<lambda>s. s) (?w 8) (?w 1)"
    by (simp add: alike_def same_source_def walker_new_def counting_new_def counted_good_def counted_state_def chain_def
        chain_ok_def limits_default_def limits_get_def limits_resource_limit_def MIB_def KIB_def Let_def)
  from walk_ignores_chunking [OF memory.byte_source_axioms drip_source this] show ?thesis
    by (cases "next_entry stream_read (?w 8)"; cases "next_entry drip_read (?w 1)") (auto simp: agree_def)
qed

end
