(* ===== verification/Tar_Places.thy ===== *)
theory Tar_Places
  imports Tar_Entries
begin

text \<open>
  The next entry of an archive as a relation on its bytes, without a walker: a header, or an extension record
  with its payload and padding and then the next entry under the rules the record leaves. The walker finds that
  entry, the end that follows the last one, and nothing else.
\<close>

section \<open>Entries in the bytes\<close>

text \<open>The length of the whole blocks that hold so many bytes.\<close>

definition blocks_len :: "u64 \<Rightarrow> nat" where
  "blocks_len n = (unat n + 511) div 512 * 512"

text \<open>A header at an offset: a whole block, not blank, counted, with a valid checksum and well-formed fields.\<close>

definition header_at :: "bytes \<Rightarrow> rules \<Rightarrow> nat \<Rightarrow> typeflag \<Rightarrow> header_fields \<Rightarrow> rules \<Rightarrow> bool" where
  "header_at c rs n t h rs' \<longleftrightarrow> n + BLOCK \<le> length c \<and>
     (let block = take BLOCK (drop n c) in
      (\<exists>b \<in> set block. b \<noteq> CHR 0x00) \<and> count_header rs = Inr rs' \<and> verify_checksum block = Inr () \<and>
      classify rs' (block ! TYPEFLAG) = Some t \<and>
      (\<exists>magic. read_magic block = Inr magic \<and> parse_fields block magic (block ! TYPEFLAG) = Inr h))"

text \<open>What an extension record does to the rules.\<close>

definition extends :: "extension \<Rightarrow> u64 \<Rightarrow> bytes \<Rightarrow> rules \<Rightarrow> rules \<Rightarrow> bool" where
  "extends x len payload rs rs' \<longleftrightarrow>
     (\<exists>layer b p. rs = Layer layer \<and> refuse_duplicate x (lr_pending layer) = Inr () \<and>
        len \<le> rl_max (lr_extension layer) \<and> budget_charge len (lr_extension_total layer) = Inr b \<and>
        pending_record x payload (lr_pending layer) = Inr p \<and>
        rs' = Layer (layer\<lparr>lr_extension_total := b, lr_pending := p\<rparr>))"

text \<open>
  \<open>entry_at c most rs n m e rs'\<close>: reading from offset \<open>n\<close> under the rules \<open>rs\<close>, the next entry is \<open>e\<close>,
  with its header at \<open>m\<close>, and leaves \<open>rs'\<close>. No record may reach beyond \<open>most\<close>, the allowance of the source.
\<close>

inductive entry_at :: "bytes \<Rightarrow> nat \<Rightarrow> rules \<Rightarrow> nat \<Rightarrow> nat \<Rightarrow> tar_entry \<Rightarrow> rules \<Rightarrow> bool" for c most where
  header: "header_at c rs n (EntryFlag kind) h rs1 \<Longrightarrow> admit kind h rs1 = (Inr a, rs') \<Longrightarrow>
     n + BLOCK + blocks_len (ad_size a) \<le> most \<Longrightarrow>
     entry_at c most rs n n
       \<lparr>te_kind = kind, te_name = ad_name a, te_link_target = ad_link_target a, te_size = ad_size a,
        te_header_offset = u64_of n, te_data_offset = u64_of (n + BLOCK), te_data_len = ad_size a\<rparr> rs'"
| extension: "header_at c rs n (ExtensionFlag x) h rs1 \<Longrightarrow>
     extends x (hf_size h) (take (unat (hf_size h)) (drop (n + BLOCK) c)) rs1 rs2 \<Longrightarrow>
     n + BLOCK + unat (hf_size h) \<le> length c \<Longrightarrow> n + BLOCK + blocks_len (hf_size h) \<le> most \<Longrightarrow>
     entry_at c most rs2 (n + BLOCK + blocks_len (hf_size h)) m e rs' \<Longrightarrow> entry_at c most rs n m e rs'"

text \<open>The end: whole blank blocks, at least two and at most 1 MiB of them, up to the end of the source.\<close>

definition ends_at :: "bytes \<Rightarrow> content_fault option \<Rightarrow> rules \<Rightarrow> nat \<Rightarrow> bool" where
  "ends_at c e rs n \<longleftrightarrow> \<not> has_pending rs \<and> e = None \<and> set (drop n c) \<subseteq> {CHR 0x00} \<and>
     MIN_ZERO_TAIL \<le> length (drop n c) \<and> length (drop n c) \<le> MAX_ZERO_TAIL \<and> BLOCK dvd length (drop n c)"

section \<open>Single steps\<close>

lemma blocks_len_le: "unat n \<le> blocks_len n" "blocks_len n < unat n + 512"
  by (simp_all add: blocks_len_def)

lemma padded_len_exact:
  assumes "unat d + blocks_len n < 2 ^ 64"
  shows "padded_len d n = Inr (u64_of (blocks_len n))"
proof -
  have "unat n \<le> blocks_len n" by (rule blocks_len_le)
  moreover have "unat (u64_of (blocks_len n)) = blocks_len n" using assms by (intro unat_u64_of) simp
  ultimately show ?thesis using assms
    by (simp add: padded_len_def blocks_len_def [symmetric] checked_add_def Let_def ok_or_def)
qed

lemma padded_len_blocks: "padded_len d n = Inr padded \<Longrightarrow> unat padded = blocks_len n"
  using padded_len_Inr(1) by (simp add: blocks_len_def)

lemma check_available_exact:
  assumes "chain_ok r"
  shows "check_available n r = Inr () \<longleftrightarrow> unat n \<le> unat (counting_remaining r)"
proof
  assume ok: "check_available n r = Inr ()"
  obtain b where b: "b \<in> set (chain r)" "budget_remaining b = counting_remaining r"
    using left_of_is [of "chain r"] assms by (auto simp: counting_remaining_left chain_def)
  from ok b(1) have "is_ok (budget_check n b)"
    by (auto simp: check_available_def find_None_iff split: option.splits)
  then show "unat n \<le> unat (counting_remaining r)"
    using b(2) by (auto simp: budget_check_def word_le_nat_alt split: if_splits)
qed (rule check_available_fits)

lemma tail_bytes_exact:
  assumes "tail < MAX_ZERO_TAIL \<or> cs = []"
  shows "tail_bytes tail cs = Inr tail' \<longleftrightarrow> tail' = tail + length cs \<and> set cs \<subseteq> {CHR 0x00} \<and> (cs \<noteq> [] \<longrightarrow> tail' \<le> MAX_ZERO_TAIL)"
  using assms
proof (induction cs arbitrary: tail)
  case (Cons c cs)
  show ?case
  proof (cases "Suc tail < MAX_ZERO_TAIL \<or> cs = []")
    case True
    from Cons.IH [OF this] Cons.prems show ?thesis by auto
  next
    case False
    then show ?thesis using Cons.prems by (cases cs) auto
  qed
qed auto

lemma tail_result_exact:
  "tail_result BLOCK (t, e) = Inr () \<longleftrightarrow> e = None \<and> set t \<subseteq> {CHR 0x00} \<and> MIN_ZERO_TAIL \<le> BLOCK + length t \<and>
     BLOCK + length t \<le> MAX_ZERO_TAIL \<and> BLOCK dvd length t"
proof -
  have "BLOCK < MAX_ZERO_TAIL" by (simp add: BLOCK_def MAX_ZERO_TAIL_def)
  note tail = tail_bytes_exact [of BLOCK t, OF disjI1 [OF this]]
  have "(BLOCK + length t) mod BLOCK = 0 \<longleftrightarrow> BLOCK dvd length t" by (simp add: dvd_eq_mod_eq_0)
  then show ?thesis
    using tail by (cases "tail_bytes BLOCK t"; cases e) (auto simp: tail_result_def MIN_ZERO_TAIL_def BLOCK_def)
qed


lemma checked_add_fits: "unat a + unat b < 2 ^ 64 \<Longrightarrow> checked_add a b = Some (u64_of (unat a + unat b))"
  by (simp add: checked_add_def Let_def u64_of_def)

lemma within:
  assumes "n \<le> unat (left :: u64)"
  shows "n < 2 ^ 64"
  using le_less_trans [OF assms unat_u64_bound [of left]] by simp

context byte_source
begin

lemma skip_exact:
  assumes start: "starts good state view start c e" and at: "walk_at start c n w"
    and fits: "n + unat (wk_unread_data w) + unat (wk_unread_padding w) \<le> length c"
  shows "\<exists>w'. skip_unread rd w = (Inr (), w') \<and> wk_latch w' = wk_latch w \<and> wk_finished w' = wk_finished w"
proof -
  let ?left = "u64_of (unat (wk_unread_data w) + unat (wk_unread_padding w))"
  have good: "counted_good good (wk_source w)" and copy: "rl_max (wk_copy_buffer w) \<noteq> 0"
    using at by (simp_all add: walker_at_def)
  have "length c \<le> unat (counting_remaining start)"
    using counted_length [of view "state (cr_source start)" "chain start" "cr_position start" c e] start
    unfolding starts_def counted_state_def counting_remaining_left by blast
  then have "unat (wk_unread_data w) + unat (wk_unread_padding w) \<le> unat (counting_remaining start)" using fits by linarith
  from within [OF this] have left: "unat ?left = unat (wk_unread_data w) + unat (wk_unread_padding w)"
    "checked_add (wk_unread_data w) (wk_unread_padding w) = Some ?left"
    by (simp_all add: checked_add_fits)
  have exact: "\<exists>r. skip_left rd b ?left (wk_source w) = (Inr (), r)" if "0 < b \<or> ?left = 0" for b
  proof (cases "?left = 0")
    case True
    then show ?thesis by (simp add: skip_left.simps)
  next
    case False
    have "unat ?left \<le> length (drop n c)" using fits left(1) by simp
    with skip_left_exact [OF good at_view(1) [OF start at], of b ?left] that False show ?thesis by auto
  qed
  show ?thesis
  proof (cases "0 < ?left \<and> wk_skip w = 0")
    case True
    let ?b = "unat (rl_max (wk_copy_buffer w))"
    have "0 < ?b" using copy by (simp add: unat_gt_0)
    then obtain r where "skip_left rd ?b ?left (wk_source w) = (Inr (), r)" using exact by blast
    with True show ?thesis by (simp add: skip_unread_def left(2) alloc_len_def with_source_def)
  next
    case False
    then have "0 < wk_skip w \<or> ?left = 0" by (auto simp: word_neq_0_conv)
    then obtain r where "skip_left rd (wk_skip w) ?left (wk_source w) = (Inr (), r)" using exact by blast
    with False show ?thesis by (auto simp: skip_unread_def left(2) with_source_def)
  qed
qed

lemma full_exact:
  assumes start: "starts good state view start c e" and at: "walk_at start c n w" and fits: "n + k \<le> length c"
  shows "\<exists>r. with_source (read_full (counting_read rd) k) w = (Inr (take k (drop n c)), w\<lparr>wk_source := r\<rparr>)"
proof -
  have good: "counted_good good (wk_source w)" using at by (simp add: walker_at_def)
  have "k \<le> length (drop n c)" using fits by simp
  with byte_source.read_full_exact [OF counted_source good at_view(1) [OF start at], of k]
  show ?thesis by (auto simp: with_source_def)
qed

lemma has_exact:
  assumes start: "starts good state view start c e" and at: "walk_at start c n w"
  shows "check_available k (wk_source w) = Inr () \<longleftrightarrow> n + unat k \<le> unat (counting_remaining start)"
proof -
  have "chain_ok (wk_source w)" using at by (simp add: walker_at_def counted_good_def)
  from check_available_exact [OF this, of k] at_view(3,4) [OF start at] show ?thesis by auto
qed

lemma extension_runs:
  assumes start: "starts good state view start c e" and at: "walk_at start c n w" and d: "unat d = n"
    and ext: "extends x len (take (unat len) (drop n c)) (wk_rules w) rs"
    and fits: "n + unat len \<le> length c" "n + blocks_len len \<le> unat (counting_remaining start)"
  shows "\<exists>w'. read_extension rd x len d flag w = (Inr (), w')"
proof -
  obtain layer b p where layer: "wk_rules w = Layer layer" "refuse_duplicate x (lr_pending layer) = Inr ()"
    "len \<le> rl_max (lr_extension layer)" "budget_charge len (lr_extension_total layer) = Inr b"
    "pending_record x (take (unat len) (drop n c)) (lr_pending layer) = Inr p"
    using ext by (auto simp: extends_def)
  let ?layer = "layer\<lparr>lr_extension_total := b\<rparr>"
  let ?w = "w\<lparr>wk_rules := Layer ?layer\<rparr>"
  have w: "walk_at start c n ?w" by (rule at_same [OF at]) simp_all
  have bound: "unat d + blocks_len len < 2 ^ 64" using within [OF fits(2)] d by simp
  note padded = padded_len_exact [OF this]
  have "check_available (u64_of (blocks_len len)) (wk_source ?w) = Inr ()"
    using has_exact [OF start w, of "u64_of (blocks_len len)"] fits(2) bound by simp
  moreover from full_exact [OF start w fits(1)] obtain r where
    "with_source (read_full (counting_read rd) (unat len)) ?w = (Inr (take (unat len) (drop n c)), ?w\<lparr>wk_source := r\<rparr>)" by blast
  ultimately show ?thesis using layer padded
    by (simp add: read_extension_def source_has_def alloc_len_def Let_def not_less)
qed

lemma extension_ran:
  assumes start: "starts good state view start c e" and at: "walk_at start c n w" and d: "unat d = n"
    and ext: "read_extension rd x len d flag w = (Inr (), w')"
  shows "extends x len (take (unat len) (drop n c)) (wk_rules w) (wk_rules w')"
    "n + unat len \<le> length c" "n + blocks_len len \<le> unat (counting_remaining start)"
    "walk_at start c (n + unat len) w'" "wk_unread_data w' = wk_unread_data w"
    "unat len + unat (wk_unread_padding w') = blocks_len len" "wk_latch w' = wk_latch w" "wk_finished w' = wk_finished w"
proof -
  obtain layer where rules: "wk_rules w = Layer layer" using ext by (cases "wk_rules w") (auto simp: read_extension_def)
  obtain b where b: "budget_charge len (lr_extension_total layer) = Inr b"
    using ext by (cases "budget_charge len (lr_extension_total layer)")
      (auto simp: read_extension_def rules steps_Inr split: if_splits)
  let ?w = "w\<lparr>wk_rules := Layer (layer\<lparr>lr_extension_total := b\<rparr>)\<rparr>"
  obtain padded payload r where parts: "refuse_duplicate x (lr_pending layer) = Inr ()" "len \<le> rl_max (lr_extension layer)"
    "padded_len d len = Inr padded" "check_available padded (wk_source w) = Inr ()"
    "with_source (read_full (counting_read rd) (unat len)) ?w = (Inr payload, r)"
    "(case pending_record x payload (lr_pending layer) of
        Inl fault \<Rightarrow> (Inl fault, r\<lparr>wk_unread_padding := padded - len\<rparr>)
      | Inr p \<Rightarrow> (Inr (), r\<lparr>wk_unread_padding := padded - len, wk_rules := Layer (layer\<lparr>lr_extension_total := b, lr_pending := p\<rparr>)\<rparr>)) =
     (Inr (), w')"
    using ext by (auto simp: read_extension_def rules b Let_def step_then_Inr pair_Inr source_has_Inr alloc_len_def split: if_splits)
  then obtain p where p: "pending_record x payload (lr_pending layer) = Inr p"
    "w' = r\<lparr>wk_unread_padding := padded - len, wk_rules := Layer (layer\<lparr>lr_extension_total := b, lr_pending := p\<rparr>)\<rparr>"
    by (cases "pending_record x payload (lr_pending layer)") auto
  have w: "walk_at start c n ?w" by (rule at_same [OF at]) simp_all
  note full = at_full [OF start w parts(5)]
  show "n + unat len \<le> length c" by (rule full(1))
  show "walk_at start c (n + unat len) w'" by (rule at_same [OF full(3)]) (simp_all add: p(2))
  show "extends x len (take (unat len) (drop n c)) (wk_rules w) (wk_rules w')"
    using rules b parts(1,2) p full(2) by (auto simp: extends_def)
  have pad: "unat padded = blocks_len len" by (rule padded_len_blocks [OF parts(3)])
  then show "n + blocks_len len \<le> unat (counting_remaining start)"
    using has_exact [OF start at, of padded] parts(4) by simp
  show "unat len + unat (wk_unread_padding w') = blocks_len len"
    using pad blocks_len_le(1) [of len] p(2) by (simp add: unat_sub_if')
  show "wk_unread_data w' = wk_unread_data w" "wk_latch w' = wk_latch w" "wk_finished w' = wk_finished w"
    using full(4) p(2) by auto
qed

lemma admit_runs:
  assumes start: "starts good state view start c e" and at: "walk_at start c n w" and d: "unat d = n"
    and "admit kind h (wk_rules w) = (Inr a, rs')" and fits: "n + blocks_len (ad_size a) \<le> unat (counting_remaining start)"
  shows "\<exists>ent w'. admit_entry kind h ho d w = (Inr ent, w')"
proof -
  have bound: "unat d + blocks_len (ad_size a) < 2 ^ 64" using within [OF fits] d by simp
  note padded = padded_len_exact [OF this]
  have w: "walk_at start c n (w\<lparr>wk_rules := rs'\<rparr>)" by (rule at_same [OF at]) simp_all
  have "check_available (u64_of (blocks_len (ad_size a))) (wk_source w) = Inr ()"
    using has_exact [OF start at, of "u64_of (blocks_len (ad_size a))"] fits bound by simp
  then show ?thesis using assms(4) padded by (simp add: admit_entry_def rules_step_def source_has_def)
qed

lemma admit_ran:
  assumes start: "starts good state view start c e" and at: "walk_at start c n w" and d: "unat d = n"
    and "admit_entry kind h ho d w = (Inr ent, w')"
  shows "\<exists>a. admit kind h (wk_rules w) = (Inr a, wk_rules w') \<and> n + blocks_len (ad_size a) \<le> unat (counting_remaining start) \<and>
     ent = \<lparr>te_kind = kind, te_name = ad_name a, te_link_target = ad_link_target a, te_size = ad_size a,
        te_header_offset = ho, te_data_offset = d, te_data_len = ad_size a\<rparr>"
    "walk_at start c n w'" "wk_unread_data w' = te_size ent" "unat (te_size ent) + unat (wk_unread_padding w') = blocks_len (te_size ent)"
    "wk_latch w' = wk_latch w" "wk_finished w' = wk_finished w"
proof -
  note a = at_admit [OF assms(4)]
  obtain ad rs padded where steps: "admit kind h (wk_rules w) = (Inr ad, rs)" "padded_len d (ad_size ad) = Inr padded"
    "check_available padded (wk_source w) = Inr ()"
    "ent = \<lparr>te_kind = kind, te_name = ad_name ad, te_link_target = ad_link_target ad, te_size = ad_size ad,
          te_header_offset = ho, te_data_offset = d, te_data_len = ad_size ad\<rparr>"
    "w' = w\<lparr>wk_rules := rs, wk_unread_data := ad_size ad, wk_unread_padding := padded - ad_size ad\<rparr>"
    using assms(4) by (auto simp: admit_entry_def steps_Inr)
  have "n + blocks_len (ad_size ad) \<le> unat (counting_remaining start)"
    using has_exact [OF start at, of padded] steps(3) padded_len_blocks [OF steps(2)] by simp
  with steps show "\<exists>a. admit kind h (wk_rules w) = (Inr a, wk_rules w') \<and>
     n + blocks_len (ad_size a) \<le> unat (counting_remaining start) \<and>
     ent = \<lparr>te_kind = kind, te_name = ad_name a, te_link_target = ad_link_target a, te_size = ad_size a,
        te_header_offset = ho, te_data_offset = d, te_data_len = ad_size a\<rparr>"
    "wk_latch w' = wk_latch w" "wk_finished w' = wk_finished w" by auto
  show "walk_at start c n w'" by (rule at_same [OF at]) (simp_all add: a)
  show "wk_unread_data w' = te_size ent" "unat (te_size ent) + unat (wk_unread_padding w') = blocks_len (te_size ent)"
    using a(8,9) by (simp_all add: blocks_len_def)
qed

lemma header_ran:
  assumes start: "starts good state view start c e" and at: "walk_at start c (n + BLOCK) w"
    and n: "n + BLOCK \<le> length c" and ho: "unat ho = n" and block: "block = take BLOCK (drop n c)" "\<exists>b \<in> set block. b \<noteq> CHR 0x00"
    and header: "read_header rd block ho w = (Inr out, w')"
  obtains (extension) x h rs1 m where "out = None" "header_at c (wk_rules w) n (ExtensionFlag x) h rs1"
      "extends x (hf_size h) (take (unat (hf_size h)) (drop (n + BLOCK) c)) rs1 (wk_rules w')"
      "n + BLOCK + unat (hf_size h) \<le> length c" "n + BLOCK + blocks_len (hf_size h) \<le> unat (counting_remaining start)"
      "walk_at start c m w'" "n + BLOCK \<le> m" "wk_unread_data w' = wk_unread_data w" "m + unat (wk_unread_padding w') = n + BLOCK + blocks_len (hf_size h)"
      "wk_latch w' = wk_latch w" "wk_finished w' = wk_finished w"
    | (entry) ent where "out = Some ent" "entry_at c (unat (counting_remaining start)) (wk_rules w) n n ent (wk_rules w')"
      "walk_at start c (n + BLOCK) w'" "wk_unread_data w' = te_size ent"
      "unat (te_size ent) + unat (wk_unread_padding w') = blocks_len (te_size ent)"
      "wk_latch w' = wk_latch w" "wk_finished w' = wk_finished w"
proof -
  obtain rs magic t h d where parts: "count_header (wk_rules w) = Inr rs" "verify_checksum block = Inr ()" "read_magic block = Inr magic"
    "classify rs (block ! TYPEFLAG) = Some t" "parse_fields block magic (block ! TYPEFLAG) = Inr h"
    "checked_add ho BLOCK_U64 = Some d"
    "(case t of ExtensionFlag ext \<Rightarrow> step_then (read_extension rd ext (hf_size h) d (block ! TYPEFLAG) (w\<lparr>wk_rules := rs\<rparr>)) (\<lambda>_ w. (Inr None, w))
       | EntryFlag kind \<Rightarrow> step_then (admit_entry kind h ho d (w\<lparr>wk_rules := rs\<rparr>)) (\<lambda>e w. (Inr (Some e), w))) = (Inr out, w')"
    using header by (auto simp: read_header_def Let_def steps_Inr counted_def split: sum.splits)
  have d: "unat d = n + BLOCK" using parts(6) ho by (simp add: checked_add_Some BLOCK_def BLOCK_U64_def)
  have at2: "walk_at start c (n + BLOCK) (w\<lparr>wk_rules := rs\<rparr>)" by (rule at_same [OF at]) simp_all
  have head: "header_at c (wk_rules w) n t h rs"
    using n parts(1-5) block by (auto simp: header_at_def Let_def)
  show thesis
  proof (cases t)
    case (ExtensionFlag x)
    then have ext: "read_extension rd x (hf_size h) d (block ! TYPEFLAG) (w\<lparr>wk_rules := rs\<rparr>) = (Inr (), w')" and "out = None"
      using parts(7) by (auto simp: step_then_Inr pair_Inr)
    note ran = extension_ran [OF start at2 d ext]
    show thesis
      by (rule extension [OF \<open>out = None\<close> head [unfolded ExtensionFlag] _ _ _ ran(4)]) (use ran in \<open>simp_all add: add.assoc\<close>)
  next
    case (EntryFlag kind)
    then obtain ent where admitted: "admit_entry kind h ho d (w\<lparr>wk_rules := rs\<rparr>) = (Inr ent, w')" "out = Some ent"
      using parts(7) by (auto simp: step_then_Inr pair_Inr)
    note ran = admit_ran [OF start at2 d admitted(1)]
    from ran(1) obtain a where a: "admit kind h rs = (Inr a, wk_rules w')" "n + BLOCK + blocks_len (ad_size a) \<le> unat (counting_remaining start)"
     "ent = \<lparr>te_kind = kind, te_name = ad_name a, te_link_target = ad_link_target a, te_size = ad_size a,
        te_header_offset = ho, te_data_offset = d, te_data_len = ad_size a\<rparr>" by auto
    have "ho = u64_of n" "d = u64_of (n + BLOCK)" using ho d by (metis u64_of_unat)+
    then have "entry_at c (unat (counting_remaining start)) (wk_rules w) n n ent (wk_rules w')"
      using entry_at.header [OF head [unfolded EntryFlag] a(1,2)] a(3) by simp
    with admitted(2) ran(2-) show thesis by (intro entry) simp_all
  qed
qed

lemma header_runs:
  assumes start: "starts good state view start c e" and at: "walk_at start c (n + BLOCK) w" and ho: "unat ho = n"
    and head: "header_at c (wk_rules w) n t h rs"
    and "case t of
        ExtensionFlag x \<Rightarrow> n + BLOCK + unat (hf_size h) \<le> length c \<and> n + BLOCK + blocks_len (hf_size h) \<le> unat (counting_remaining start) \<and>
          (\<exists>rs'. extends x (hf_size h) (take (unat (hf_size h)) (drop (n + BLOCK) c)) rs rs')
      | EntryFlag kind \<Rightarrow> \<exists>a rs'. admit kind h rs = (Inr a, rs') \<and> n + BLOCK + blocks_len (ad_size a) \<le> unat (counting_remaining start)"
  shows "\<exists>out w'. read_header rd (take BLOCK (drop n c)) ho w = (Inr out, w')"
proof -
  let ?block = "take BLOCK (drop n c)"
  obtain magic where parts: "count_header (wk_rules w) = Inr rs" "verify_checksum ?block = Inr ()" "read_magic ?block = Inr magic"
    "classify rs (?block ! TYPEFLAG) = Some t" "parse_fields ?block magic (?block ! TYPEFLAG) = Inr h" "n + BLOCK \<le> length c"
    using head by (auto simp: header_at_def Let_def)
  have at2: "walk_at start c (n + BLOCK) (w\<lparr>wk_rules := rs\<rparr>)" by (rule at_same [OF at]) simp_all
  have bound: "n + BLOCK < 2 ^ 64" using within [OF at_view(4) [OF start at]] .
  then have d: "checked_add ho BLOCK_U64 = Some (u64_of (n + BLOCK))" "unat (u64_of (n + BLOCK)) = n + BLOCK"
    using ho checked_add_fits [of ho BLOCK_U64] by (simp_all add: BLOCK_def BLOCK_U64_def)
  show ?thesis
  proof (cases t)
    case (ExtensionFlag x)
    with assms(5) obtain rs' where x: "n + BLOCK + unat (hf_size h) \<le> length c" "n + BLOCK + blocks_len (hf_size h) \<le> unat (counting_remaining start)"
      "extends x (hf_size h) (take (unat (hf_size h)) (drop (n + BLOCK) c)) rs rs'" by auto
    from extension_runs [OF start at2 d(2) _ x(1,2), of x rs'] x(3) obtain w' where
      "read_extension rd x (hf_size h) (u64_of (n + BLOCK)) (?block ! TYPEFLAG) (w\<lparr>wk_rules := rs\<rparr>) = (Inr (), w')" by fastforce
    with parts d(1) ExtensionFlag show ?thesis by (simp add: read_header_def rules_step_def counted_def Let_def ok_or_def)
  next
    case (EntryFlag kind)
    with assms(5) obtain a rs' where a: "admit kind h rs = (Inr a, rs')" "n + BLOCK + blocks_len (ad_size a) \<le> unat (counting_remaining start)" by auto
    from admit_runs [OF start at2 d(2) _ a(2), of kind h rs' ho] a(1) obtain ent w' where
      "admit_entry kind h ho (u64_of (n + BLOCK)) (w\<lparr>wk_rules := rs\<rparr>) = (Inr ent, w')" by auto
    with parts d(1) EntryFlag show ?thesis by (simp add: read_header_def rules_step_def counted_def Let_def ok_or_def)
  qed
qed

text \<open>One turn of the loop, from the place behind what was left of the entry before.\<close>

lemma turn_ran:
  assumes start: "starts good state view start c e" and at: "walk_at start c n w" and turn: "advance_turn rd w = (Inr out, w')"
    and p: "p = n + unat (wk_unread_data w) + unat (wk_unread_padding w)"
  obtains (extension) x h rs1 m where "out = None" "header_at c (wk_rules w) p (ExtensionFlag x) h rs1"
      "extends x (hf_size h) (take (unat (hf_size h)) (drop (p + BLOCK) c)) rs1 (wk_rules w')"
      "p + BLOCK + unat (hf_size h) \<le> length c" "p + BLOCK + blocks_len (hf_size h) \<le> unat (counting_remaining start)"
      "walk_at start c m w'" "m + unat (wk_unread_data w') + unat (wk_unread_padding w') = p + BLOCK + blocks_len (hf_size h)"
      "n < m" "wk_latch w' = wk_latch w" "wk_finished w' = wk_finished w"
    | (ended) "out = Some None" "ends_at c e (wk_rules w) p" "wk_finished w'"
    | (entry) ent where "out = Some (Some ent)" "entry_at c (unat (counting_remaining start)) (wk_rules w) p p ent (wk_rules w')"
      "walk_at start c (p + BLOCK) w'" "wk_unread_data w' = te_size ent"
      "unat (te_size ent) + unat (wk_unread_padding w') = blocks_len (te_size ent)"
      "wk_latch w' = wk_latch w" "wk_finished w' = wk_finished w"
proof -
  obtain w1 block w2 where w1: "skip_unread rd w = (Inr (), w1)"
    and w2: "with_source (read_full (counting_read rd) BLOCK) w1 = (Inr block, w2)"
    and rest: "(if list_all (\<lambda>c. c = CHR 0x00) block then
         (if has_pending (wk_rules w2) then (Inl (Malformed MR_DanglingExtension), w2)
          else step_then (finish_tail rd w2) (\<lambda>_ w. (Inr (Some None), w\<lparr>wk_finished := True\<rparr>)))
       else step_then (read_header rd block (cr_position (wk_source w1)) w2) (\<lambda>e w. (Inr (map_option Some e), w))) =
       (Inr out, w')"
    using turn by (auto simp: advance_turn_def Let_def step_then_Inr)
  note skip = at_skip [OF start at w1, folded p] and full = at_full [OF start at_skip(2) [OF start at w1, folded p] w2]
  have kept: "wk_latch w1 = wk_latch w" "wk_finished w1 = wk_finished w"
    using skip_exact [OF start at] skip(1) w1 p by auto
  have same: "wk_rules w2 = wk_rules w" "wk_latch w2 = wk_latch w" "wk_finished w2 = wk_finished w" "wk_unread_data w2 = 0"
    using full(4) skip(3,5) kept by auto
  have position: "unat (cr_position (wk_source w1)) = p" by (rule at_view(2) [OF start skip(2)])
  show thesis
  proof (cases "list_all (\<lambda>c. c = CHR 0x00) block")
    case True
    then obtain w3 where tail: "\<not> has_pending (wk_rules w2)" "finish_tail rd w2 = (Inr (), w3)" "out = Some None" "wk_finished w'"
      using rest by (auto simp: step_then_Inr pair_Inr split: if_splits)
    have good: "counted_good good (wk_source w2)" using full(3) by (simp add: walker_at_def)
    have most: "BLOCK \<le> MAX_ZERO_TAIL" by (simp add: BLOCK_def MAX_ZERO_TAIL_def)
    have "tail_result BLOCK (drop (p + BLOCK) c, e) = Inr ()"
      using finish_tail_exact [OF good at_view(1) [OF start full(3)] most] tail(2)
      by (auto simp: finish_tail_def with_source_def)
    then have t: "e = None" "set (drop (p + BLOCK) c) \<subseteq> {CHR 0x00}" "MIN_ZERO_TAIL \<le> BLOCK + length (drop (p + BLOCK) c)"
      "BLOCK + length (drop (p + BLOCK) c) \<le> MAX_ZERO_TAIL" "BLOCK dvd length (drop (p + BLOCK) c)"
      by (simp_all only: tail_result_exact)
    have whole: "drop p c = block @ drop (p + BLOCK) c"
      using append_take_drop_id [of BLOCK "drop p c"] full(2) by (simp add: add.commute)
    moreover have "length block = BLOCK" using full(1,2) by simp
    moreover have "set block \<subseteq> {CHR 0x00}" using True by (auto simp: list_all_iff)
    ultimately have "ends_at c e (wk_rules w) p"
      unfolding ends_at_def whole using t tail(1) same(1) by simp
    then show thesis using tail ended by blast
  next
    case False
    then obtain found where header: "read_header rd block (cr_position (wk_source w1)) w2 = (Inr found, w')" "out = map_option Some found"
      using rest by (auto simp: step_then_Inr pair_Inr)
    have nonzero: "\<exists>b \<in> set block. b \<noteq> CHR 0x00" using False by (auto simp: list_all_iff)
    from start full(3,1) position full(2) nonzero header(1) show thesis
    proof (cases rule: header_ran)
      case (extension x h rs1 m)
      have "n \<le> p" by (simp add: p)
      then have "n < m" using extension(7) by (simp add: BLOCK_def)
      with extension same header(2) show thesis by (intro that(1)) simp_all
    next
      case (entry ent)
      with same header(2) show thesis by (intro that(3)) simp_all
    qed
  qed
qed

lemma turn_runs:
  assumes start: "starts good state view start c e" and at: "walk_at start c n w"
    and p: "p = n + unat (wk_unread_data w) + unat (wk_unread_padding w)"
    and "ends_at c e (wk_rules w) p \<or>
      (\<exists>t h rs. header_at c (wk_rules w) p t h rs \<and> (case t of
        ExtensionFlag x \<Rightarrow> p + BLOCK + unat (hf_size h) \<le> length c \<and> p + BLOCK + blocks_len (hf_size h) \<le> unat (counting_remaining start) \<and>
          (\<exists>rs'. extends x (hf_size h) (take (unat (hf_size h)) (drop (p + BLOCK) c)) rs rs')
      | EntryFlag kind \<Rightarrow> \<exists>a rs'. admit kind h rs = (Inr a, rs') \<and> p + BLOCK + blocks_len (ad_size a) \<le> unat (counting_remaining start)))"
  shows "\<exists>out w'. advance_turn rd w = (Inr out, w')"
proof -
  have fits: "p + BLOCK \<le> length c"
    using assms(4) by (auto simp: ends_at_def header_at_def MIN_ZERO_TAIL_def BLOCK_def)
  then have "n + unat (wk_unread_data w) + unat (wk_unread_padding w) \<le> length c" by (simp add: p)
  from skip_exact [OF start at this] obtain w1 where w1: "skip_unread rd w = (Inr (), w1)" by blast
  note skip = at_skip [OF start at w1, folded p]
  from full_exact [OF start skip(2) fits] obtain r where
    r: "with_source (read_full (counting_read rd) BLOCK) w1 = (Inr (take BLOCK (drop p c)), w1\<lparr>wk_source := r\<rparr>)" by blast
  let ?w2 = "w1\<lparr>wk_source := r\<rparr>"
  note at2 = at_full(3) [OF start skip(2) r]
  have position: "unat (cr_position (wk_source w1)) = p" by (rule at_view(2) [OF start skip(2)])
  from assms(4) show ?thesis
  proof (elim disjE exE conjE)
    assume ended: "ends_at c e (wk_rules w) p"
    have good: "counted_good good (wk_source ?w2)" using at2 by (simp add: walker_at_def)
    have most: "BLOCK \<le> MAX_ZERO_TAIL" by (simp add: BLOCK_def MAX_ZERO_TAIL_def)
    have whole: "drop p c = take BLOCK (drop p c) @ drop (p + BLOCK) c"
      using append_take_drop_id [of BLOCK "drop p c"] by (simp add: add.commute)
    have zeros: "set (take BLOCK (drop p c)) \<subseteq> {CHR 0x00}" "set (drop (p + BLOCK) c) \<subseteq> {CHR 0x00}"
      using ended by (simp_all add: ends_at_def) (metis (no_types, lifting) Un_subset_iff set_append whole)+
    have len: "length (drop p c) = BLOCK + length (drop (p + BLOCK) c)" using fits by simp
    have "tail_result BLOCK (drop (p + BLOCK) c, e) = Inr ()"
      unfolding tail_result_exact using ended zeros(2) len by (simp add: ends_at_def)
    then obtain r' where "finish_tail_from rd BLOCK r = (Inr (), r')"
      using finish_tail_exact [OF good at_view(1) [OF start at2] most] by auto
    moreover have "list_all (\<lambda>c. c = CHR 0x00) (take BLOCK (drop p c))" using zeros(1) by (auto simp: list_all_iff)
    moreover have "\<not> has_pending (wk_rules ?w2)" using ended skip(5) by (simp add: ends_at_def)
    ultimately show ?thesis using w1 r by (simp add: advance_turn_def finish_tail_def with_source_def Let_def)
  next
    fix t h rs
    assume head: "header_at c (wk_rules w) p t h rs" and body: "case t of
        ExtensionFlag x \<Rightarrow> p + BLOCK + unat (hf_size h) \<le> length c \<and> p + BLOCK + blocks_len (hf_size h) \<le> unat (counting_remaining start) \<and>
          (\<exists>rs'. extends x (hf_size h) (take (unat (hf_size h)) (drop (p + BLOCK) c)) rs rs')
      | EntryFlag kind \<Rightarrow> \<exists>a rs'. admit kind h rs = (Inr a, rs') \<and> p + BLOCK + blocks_len (ad_size a) \<le> unat (counting_remaining start)"
    have "header_at c (wk_rules ?w2) p t h rs" using head skip(5) by simp
    from header_runs [OF start at2 position this body] obtain out w' where
      "read_header rd (take BLOCK (drop p c)) (cr_position (wk_source w1)) ?w2 = (Inr out, w')" by blast
    moreover have "\<not> list_all (\<lambda>c. c = CHR 0x00) (take BLOCK (drop p c))"
      using head by (auto simp: header_at_def Let_def list_all_iff)
    ultimately show ?thesis using w1 r by (simp add: advance_turn_def Let_def)
  qed
qed

end

section \<open>The next entry\<close>

lemma header_at_det: "header_at c rs n t h rs1 \<Longrightarrow> header_at c rs n t' h' rs1' \<Longrightarrow> t = t' \<and> h = h' \<and> rs1 = rs1'"
  by (auto simp: header_at_def Let_def)

lemma extends_det: "extends x len payload rs rs1 \<Longrightarrow> extends x len payload rs rs1' \<Longrightarrow> rs1 = rs1'"
  by (auto simp: extends_def)

lemma entry_at_det:
  "entry_at c most rs n m e rs' \<Longrightarrow> entry_at c most rs n m' e' rs'' \<Longrightarrow> m = m' \<and> e = e' \<and> rs' = rs''"
proof (induction arbitrary: m' e' rs'' rule: entry_at.induct)
  case (header rs n kind h rs1 a rs')
  from header(4) show ?case
    by (cases rule: entry_at.cases) (use header(1,2) header_at_det [OF header(1)] in \<open>fastforce+\<close>)
next
  case (extension rs n x h rs1 rs2 m e rs')
  from extension(7) show ?case
  proof (cases rule: entry_at.cases)
    case (extension x' h' rs1' rs2')
    with extension.hyps(1,2) header_at_det extends_det have "x' = x" "h' = h" "rs2' = rs2" by blast+
    with extension.IH local.extension show ?thesis by blast
  qed (use header_at_det [OF extension.hyps(1)] in blast)
qed

lemma entry_at_place: "entry_at c most rs n m e rs' \<Longrightarrow> n \<le> m"
  by (induction rule: entry_at.induct) simp_all

lemma pending_record_any: "pending_record x payload p = Inr p' \<Longrightarrow> pending_any p'"
  by (cases x) (auto simp: pending_record_def pending_any_def split: if_splits)

lemma extends_pending: "extends x len payload rs rs' \<Longrightarrow> has_pending rs'"
  by (auto simp: extends_def has_pending_def dest: pending_record_any)

text \<open>The walker stands right behind the header of an entry, its data and padding still to come.\<close>

definition behind_header ::
  "('s \<Rightarrow> bool) \<Rightarrow> ('s \<Rightarrow> 'a) \<Rightarrow> (nat \<Rightarrow> 'a \<Rightarrow> 'a) \<Rightarrow> 's counting \<Rightarrow> bytes \<Rightarrow> nat \<Rightarrow> tar_entry \<Rightarrow> 's walker \<Rightarrow> bool" where
  "behind_header good state take_off start c m e w \<longleftrightarrow>
     walker_at good state take_off start c (m + BLOCK) w \<and> wk_unread_data w = te_size e \<and>
     unat (te_size e) + unat (wk_unread_padding w) = blocks_len (te_size e) \<and> wk_latch w = None \<and> \<not> wk_finished w"

context byte_source
begin

lemma advance_ran:
  assumes start: "starts good state view start c e" and "walk_at start c n w" and "advance fuel rd w = Some (out, w')"
    and "wk_latch w = None" "\<not> wk_finished w" and "p = n + unat (wk_unread_data w) + unat (wk_unread_padding w)"
  shows "case out of Inl _ \<Rightarrow> True | Inr None \<Rightarrow> ends_at c e (wk_rules w) p
    | Inr (Some ent) \<Rightarrow> \<exists>m. entry_at c (unat (counting_remaining start)) (wk_rules w) p m ent (wk_rules w') \<and>
        behind_header good state take_off start c m ent w'"
  using assms(2-)
proof (induction fuel arbitrary: n w p)
  case (Suc fuel)
  obtain got w1 where turn: "advance_turn rd w = (got, w1)" by fastforce
  show ?case
  proof (cases got)
    case (Inl fault)
    then show ?thesis using turn Suc.prems(2) by auto
  next
    case (Inr x)
    note turn = turn [unfolded Inr]
    from start Suc.prems(1) turn Suc.prems(5) show ?thesis
    proof (cases rule: turn_ran)
      case (extension t h rs1 m)
      have "advance fuel rd w1 = Some (out, w')" using Suc.prems(2) turn extension(1) by simp
      from Suc.IH [OF extension(6) this _ _ extension(7) [symmetric]] Suc.prems(3,4) extension(9,10)
      have ih: "case out of Inl _ \<Rightarrow> True | Inr None \<Rightarrow> ends_at c e (wk_rules w1) (p + BLOCK + blocks_len (hf_size h))
        | Inr (Some ent) \<Rightarrow> \<exists>m. entry_at c (unat (counting_remaining start)) (wk_rules w1) (p + BLOCK + blocks_len (hf_size h)) m ent (wk_rules w') \<and>
            behind_header good state take_off start c m ent w'" by simp
      have "\<not> ends_at c e (wk_rules w1) q" for q using extends_pending [OF extension(3)] by (simp add: ends_at_def)
      with ih entry_at.extension [OF extension(2-5)] show ?thesis by (auto split: sum.splits option.splits)
    next
      case ended
      then show ?thesis using Suc.prems(2) turn by auto
    next
      case (entry ent)
      then show ?thesis using Suc.prems(2-4) turn by (auto simp: behind_header_def)
    qed
  qed
qed simp

lemma advance_ends:
  assumes start: "starts good state view start c e" and at: "walk_at start c n w" and "0 < fuel"
    and p: "p = n + unat (wk_unread_data w) + unat (wk_unread_padding w)" and ends: "ends_at c e (wk_rules w) p"
  shows "\<exists>w'. advance fuel rd w = Some (Inr None, w')"
proof -
  from turn_runs [OF start at p] ends obtain out w1 where turn: "advance_turn rd w = (Inr out, w1)" by blast
  have blank: "\<not> header_at c rs p t h rs1" for rs t h rs1
  proof
    assume "header_at c rs p t h rs1"
    then obtain b where "b \<in> set (take BLOCK (drop p c))" "b \<noteq> CHR 0x00" by (auto simp: header_at_def Let_def)
    with ends show False by (auto simp: ends_at_def dest!: in_set_takeD)
  qed
  then have "\<not> entry_at c most rs p p ent rs'" for most rs ent rs'
    by (auto elim: entry_at.cases)
  note none = blank this
  from start at turn p have "out = Some None" by (cases rule: turn_ran) (use none in blast)+
  with turn assms(3) show ?thesis by (cases fuel) simp_all
qed

lemma advance_runs:
  assumes start: "starts good state view start c e"
    and "entry_at c (unat (counting_remaining start)) rs p m ent rs'"
    and "walk_at start c n w" "wk_rules w = rs" "unat (counting_remaining (wk_source w)) < fuel"
      "p = n + unat (wk_unread_data w) + unat (wk_unread_padding w)" "wk_latch w = None" "\<not> wk_finished w"
  shows "\<exists>ent w'. advance fuel rd w = Some (Inr (Some ent), w')"
  using assms(2-)
proof (induction arbitrary: n w fuel rule: entry_at.induct)
  case (header rs p kind h rs1 a rs')
  then obtain fuel' where fuel: "fuel = Suc fuel'" by (cases fuel) auto
  from header turn_runs [OF start header(4) header(7)] obtain out w1 where turn: "advance_turn rd w = (Inr out, w1)"
    by fastforce
  have "\<not> header_at c (wk_rules w) p (ExtensionFlag x) h' rs2" for x h' rs2
    using header_at_det [OF header(1) [folded header(5)]] by blast
  moreover have "\<not> ends_at c e (wk_rules w) p"
    using header(1) by (auto simp: header_at_def ends_at_def Let_def dest!: in_set_takeD)
  ultimately have "out \<noteq> None" "out \<noteq> Some None"
    using turn_ran [OF start header(4) turn header(7), of "out \<noteq> None \<and> out \<noteq> Some None"] by blast+
  then obtain ent where "out = Some (Some ent)" by (cases out) auto
  with turn fuel show ?case by simp
next
  case (extension rs p x h rs1 rs2 m ent rs')
  then obtain fuel' where fuel: "fuel = Suc fuel'" by (cases fuel) auto
  from extension turn_runs [OF start extension(7) extension(10)] obtain out w1 where turn: "advance_turn rd w = (Inr out, w1)"
    by fastforce
  have none: "\<not> ends_at c e (wk_rules w) p"
    using extension(1) by (auto simp: header_at_def ends_at_def Let_def dest!: in_set_takeD)
  have later: "\<not> entry_at c (unat (counting_remaining start)) (wk_rules w) p p ent' rs''" for ent' rs''
    using entry_at_det [OF entry_at.extension [OF extension(1-5)]] entry_at_place [OF extension(5)] extension(8)
    by (auto simp: BLOCK_def)
  have same: "x' = x \<and> h' = h \<and> rs1' = rs1" if "header_at c (wk_rules w) p (ExtensionFlag x') h' rs1'" for x' h' rs1'
    using that header_at_det [OF extension(1) [folded extension(8)]] by blast
  obtain k where k: "out = None" "wk_rules w1 = rs2" "walk_at start c k w1" "n < k"
    "k + unat (wk_unread_data w1) + unat (wk_unread_padding w1) = p + BLOCK + blocks_len (hf_size h)"
    "wk_latch w1 = wk_latch w" "wk_finished w1 = wk_finished w"
  proof -
    from start extension(7) turn extension(10) show thesis
    proof (cases rule: turn_ran)
      case (extension x' h' rs1' k)
      note got = this
      with same have "x' = x" "h' = h" "rs1' = rs1" by blast+
      with got extends_det [OF extension.hyps(2)] show thesis by (intro that) simp_all
    qed (use none later in blast)+
  qed
  have "unat (counting_remaining (wk_source w1)) < unat (counting_remaining (wk_source w))"
    using at_view(3,4) [OF start k(3)] at_view(3) [OF start extension(7)] k(4) by linarith
  then have "unat (counting_remaining (wk_source w1)) < fuel'" using extension(9) fuel by linarith
  from extension(6) [OF k(3,2) this k(5) [symmetric]] k(6,7) extension(11,12) obtain ent w' where
    "advance fuel' rd w1 = Some (Inr (Some ent), w')" by auto
  with turn k(1) fuel show ?case by simp
qed

end

text \<open>
  C38: The walker finds the next entry of the bytes, and only that. Take a walker that has not failed or
  finished, over any source of the bytes: \<open>n\<close> bytes have been read, and of the last entry some data and padding
  are left. A call for the next entry always returns. It yields an entry exactly when, from right behind that
  data and padding, the bytes hold one: past any extension records, each a header with its payload and padding
  that is taken up into the rules, a header with a valid checksum whose fields, together with the records before
  it, the policy admits as that entry. The entry carries its offset; the walker then stands behind that header
  with all of the data and the padding to the next block still to read, under the rules so reached. It reports
  the end exactly when nothing but a blank tail of the right length is left and no record waits for its entry.
\<close>

theorem next_entry_exact:
  assumes "byte_source rd good state view take_off" and "starts good state view start c e"
    and "walker_at good state take_off start c n w" "wk_latch w = None" "\<not> wk_finished w"
    and "p = n + unat (wk_unread_data w) + unat (wk_unread_padding w)"
  shows "\<exists>out w'. next_entry rd w = Some (out, w') \<and>
    (\<forall>ent. out = Inr (Some ent) \<longleftrightarrow>
       (\<exists>m rs'. entry_at c (unat (counting_remaining start)) (wk_rules w) p m ent rs')) \<and>
    (\<forall>ent m rs'. entry_at c (unat (counting_remaining start)) (wk_rules w) p m ent rs' \<longrightarrow>
       wk_rules w' = rs' \<and> behind_header good state take_off start c m ent w') \<and>
    (out = Inr None \<longleftrightarrow> ends_at c e (wk_rules w) p)"
proof -
  let ?fuel = "Suc (unat (counting_remaining (wk_source w)))"
  let ?at = "entry_at c (unat (counting_remaining start)) (wk_rules w) p"
  from byte_source.at_advance [OF assms(1-3) lessI] obtain out w' where a: "advance ?fuel rd w = Some (out, w')" by blast
  have ran: "case out of Inl _ \<Rightarrow> True | Inr None \<Rightarrow> ends_at c e (wk_rules w) p
    | Inr (Some ent) \<Rightarrow> \<exists>m. ?at m ent (wk_rules w') \<and> behind_header good state take_off start c m ent w'"
    by (rule byte_source.advance_ran [OF assms(1-3) a assms(4-6)])
  have runs: "\<exists>ent. out = Inr (Some ent)" if "?at m ent rs'" for m ent rs'
    using byte_source.advance_runs [OF assms(1,2) that assms(3) refl lessI assms(6,4,5)] a by auto
  have ends: "out = Inr None" if "ends_at c e (wk_rules w) p"
    using byte_source.advance_ends [OF assms(1-3) _ assms(6) that, of ?fuel] a by auto
  have one: "ent = ent' \<and> m = m' \<and> rs = rs'" if "?at m ent rs" "?at m' ent' rs'" for m ent rs m' ent' rs'
    using entry_at_det [OF that] by simp
  have found: "\<exists>w''. next_entry rd w = Some (out, w'') \<and> (\<forall>x. out = Inr x \<longrightarrow> w'' = w')"
    using a assms(4,5) by (cases out) (simp_all add: next_entry_def latch_check_def del: advance.simps)
  then obtain w'' where w'': "next_entry rd w = Some (out, w'')" "\<And>x. out = Inr x \<Longrightarrow> w'' = w'" by blast
  have "out = Inr (Some ent) \<longleftrightarrow> (\<exists>m rs'. ?at m ent rs')" for ent
    using ran runs one by (cases out) (auto split: option.splits)
  moreover have "wk_rules w'' = rs' \<and> behind_header good state take_off start c m ent w''" if "?at m ent rs'" for m ent rs'
    using ran runs [OF that] one [OF that] w''(2) by auto
  moreover have "out = Inr None \<longleftrightarrow> ends_at c e (wk_rules w) p" using ran ends by auto
  ultimately show ?thesis using w''(1) by blast
qed

end
