(* ===== verification/Tar_Sample.thy ===== *)
theory Tar_Sample
  imports Tar_Places
begin

definition sample_header :: bytes where
  "sample_header = ''a'' @ replicate 99 CHR 0x00 @ ''0000644'' @ [CHR 0x00] @ ''0000000'' @ [CHR 0x00] @ ''0000000'' @ [CHR 0x00] @
     ''00000000001'' @ [CHR 0x00] @ ''00000000000'' @ [CHR 0x00] @ ''006077'' @ [CHR 0x00, CHR '' ''] @ ''0'' @
     replicate 100 CHR 0x00 @ ''ustar'' @ [CHR 0x00] @ ''00'' @ replicate 247 CHR 0x00"

lemma blank_checksum_parts:
  assumes "length block = 512"
  shows "blank_checksum block = take 148 block @ replicate 8 CHR '' '' @ drop 156 block"
proof (rule nth_equalityI)
  fix i assume "i < length (blank_checksum block)"
  then have i: "i < 512" using assms by (simp add: blank_checksum_def)
  then have "blank_checksum block ! i = (if 148 \<le> i \<and> i < 156 then CHR '' '' else block ! i)"
    using assms i unfolding blank_checksum_def CHECKSUM_def set_upt fst_conv snd_conv
    by (simp add: nth_enumerate_eq)
  moreover have "(take 148 block @ replicate 8 CHR '' '' @ drop 156 block) ! i = (if 148 \<le> i \<and> i < 156 then CHR '' '' else block ! i)"
    using i assms by (auto simp: nth_append)
  ultimately show "blank_checksum block ! i = (take 148 block @ replicate 8 CHR '' '' @ drop 156 block) ! i" by simp
qed (use assms in \<open>simp add: blank_checksum_def\<close>)

lemma sample_length: "length sample_header = 512"
  by (simp add: sample_header_def)

lemma sample_spans:
  "span sample_header NAME = ''a'' @ replicate 99 CHR 0x00"
  "span sample_header MODE = ''0000644'' @ [CHR 0x00]"
  "span sample_header UID = ''0000000'' @ [CHR 0x00]" "span sample_header GID = ''0000000'' @ [CHR 0x00]"
  "span sample_header SIZE = ''00000000001'' @ [CHR 0x00]" "span sample_header MTIME = ''00000000000'' @ [CHR 0x00]"
  "span sample_header CHECKSUM = ''006077'' @ [CHR 0x00, CHR '' '']"
  "span sample_header LINKNAME = replicate 100 CHR 0x00" "span sample_header POSIX_MAGIC = ''ustar'' @ [CHR 0x00]"
  "span sample_header POSIX_VERSION = ''00''" "span sample_header PREFIX = replicate 155 CHR 0x00"
  "sample_header ! TYPEFLAG = CHR ''0''"
  by (simp_all add: span_def sample_header_def NAME_def MODE_def UID_def GID_def SIZE_def MTIME_def CHECKSUM_def LINKNAME_def
      POSIX_MAGIC_def POSIX_VERSION_def PREFIX_def TYPEFLAG_def nth_append)

lemma sample_checksum: "verify_checksum sample_header = Inr ()"
proof -
  have "sum_list (map ord (blank_checksum sample_header)) = 3135"
    by (simp add: blank_checksum_parts [OF sample_length]) (simp add: sample_header_def sum_list_replicate)
  moreover have "parse_octal (span sample_header CHECKSUM) = Some (3135, 6)"
    by (simp add: sample_spans parse_octal_def is_octal_def digit_value_def checked_mul_def checked_add_def Let_def u64_of_def)
  ultimately show ?thesis by (simp add: verify_checksum_def)
qed

lemma octal_zero: "parse_numeric (''0000000'' @ [CHR 0x00]) f = Inr 0" "parse_numeric (''00000000000'' @ [CHR 0x00]) f = Inr 0"
  "parse_numeric (''0000644'' @ [CHR 0x00]) f = Inr 420" "parse_numeric (''00000000001'' @ [CHR 0x00]) f = Inr 1"
  by (simp_all add: parse_numeric_def parse_octal_def is_octal_def digit_value_def checked_mul_def checked_add_def Let_def u64_of_def BASE256_MARKER_def)

lemma parse_name_zeros: "parse_name (replicate n CHR 0x00) f = Inr []"
  by (cases n) (simp_all add: parse_name_def list_all_iff)

lemma sample_fields_read:
  "parse_fields sample_header Posix (sample_header ! TYPEFLAG) = Inr \<lparr>hf_name = ''a'', hf_linkname = [], hf_size = 1\<rparr>"
proof -
  have "parse_name (''a'' @ replicate 99 CHR 0x00) FieldName = Inr ''a''"
    by (simp add: parse_name_def list_all_iff numeral_eq_Suc)
  then show ?thesis unfolding parse_fields_def sample_spans
    by (simp only: octal_zero parse_name_zeros bind_res.simps) simp
qed

text \<open>One file of one byte, its padding, and two blank blocks.\<close>

definition sample_archive :: bytes where
  "sample_archive = sample_header @ ''x'' @ replicate 511 CHR 0x00 @ replicate 1024 CHR 0x00"

definition sample_entry :: tar_entry where
  "sample_entry = \<lparr>te_kind = Regular, te_name = ''a'', te_link_target = None, te_size = 1,
     te_header_offset = 0, te_data_offset = 512, te_data_len = 1\<rparr>"

definition sample_start :: "stream counting" where
  "sample_start = counting_new (sample_archive, None) \<lparr>rl_resource = LR_ImageArchive, rl_max = 4096\<rparr> [] 8"

definition sample_walker :: "stream walker" where
  "sample_walker = walker_new sample_start ImageArchive limits_default"

lemma sample_archive_length: "length sample_archive = 2048"
  by (simp add: sample_archive_def sample_length)

lemma sample_starts: "starts (\<lambda>_. True) (\<lambda>s. s) (\<lambda>s. s) sample_start sample_archive None"
  unfolding sample_start_def by (rule memory_starts) (simp add: sample_archive_length)

lemma sample_at: "walker_at (\<lambda>_. True) (\<lambda>s. s) stream_off sample_start sample_archive 0 sample_walker"
  unfolding sample_walker_def
  by (rule walker_new_at [OF sample_starts _ memory.byte_source_axioms]) (simp add: limits_default_def limits_get_def MIB_def KIB_def)

lemma sample_allowance: "unat (counting_remaining sample_start) = 4096"
  by (simp add: sample_start_def counting_remaining_def chain_def counting_new_def budget_remaining_def budget_new_def saturating_sub_def)

lemma sample_entry_at:
  "\<exists>rs'. entry_at sample_archive 4096 (wk_rules sample_walker) 0 0 sample_entry rs' \<and> \<not> has_pending rs'"
proof -
  define r where "r = \<lparr>ir_entries = budget_new (limits_resource_limit limits_default LR_ImageEntries),
    ir_path = limits_resource_limit limits_default LR_ImagePathBytes, ir_seen = []\<rparr>"
  have rules: "wk_rules sample_walker = Image r"
    by (simp add: sample_walker_def walker_new_def r_def Let_def)
  obtain b where b: "budget_charge 1 (ir_entries r) = Inr b"
    by (simp add: r_def budget_charge_def budget_check_def budget_new_def limits_resource_limit_def limits_default_def limits_get_def
        budget_remaining_def saturating_sub_def checked_add_def Let_def)
  let ?r = "r\<lparr>ir_entries := b\<rparr>"
  have block: "take BLOCK (drop 0 sample_archive) = sample_header"
    by (simp add: sample_archive_def sample_length BLOCK_def)
  have magic: "read_magic sample_header = Inr Posix"
    by (simp add: read_magic_def sample_spans POSIX_MAGIC_BYTES_def POSIX_VERSION_BYTES_def)
  have "CHR ''a'' \<in> set sample_header" by (simp add: sample_header_def)
  then have "header_at sample_archive (Image r) 0 (EntryFlag Regular) \<lparr>hf_name = ''a'', hf_linkname = [], hf_size = 1\<rparr> (Image ?r)"
    unfolding header_at_def block Let_def
    using sample_checksum sample_fields_read magic b sample_spans(12)
    by (auto simp: sample_archive_length BLOCK_def count_header_def classify_def intro!: bexI [of _ "CHR ''a''"])
  moreover have "admit Regular \<lparr>hf_name = ''a'', hf_linkname = [], hf_size = 1\<rparr> (Image ?r) =
      (Inr \<lparr>ad_name = ''a'', ad_link_target = None, ad_size = 1\<rparr>, Image (?r\<lparr>ir_seen := [(''a'', Regular)]\<rparr>))"
    by (simp add: admit_def image_admit_def image_record_def image_canonical_def strip_suffix_byte_def plain_segments_def
        is_plain_ascii_def slash_offsets_def range_first_def r_def limits_resource_limit_def limits_default_def limits_get_def
        widen_def u64_of_def Let_def ok_or_def)
  ultimately have "entry_at sample_archive 4096 (Image r) 0 0 sample_entry (Image (?r\<lparr>ir_seen := [(''a'', Regular)]\<rparr>))"
    using entry_at.header [of sample_archive "Image r" 0 Regular] by (fastforce simp: sample_entry_def BLOCK_def blocks_len_def u64_of_def)
  moreover have "\<not> has_pending (Image q)" for q by (simp add: has_pending_def)
  ultimately show ?thesis unfolding rules by blast
qed

theorem next_entry_exact_witness:
  "\<exists>w' w''. next_entry stream_read sample_walker = Some (Inr (Some sample_entry), w') \<and>
     next_entry stream_read w' = Some (Inr None, w'')"
proof -
  obtain rs' where at: "entry_at sample_archive (unat (counting_remaining sample_start)) (wk_rules sample_walker) 0 0 sample_entry rs'"
    "\<not> has_pending rs'" using sample_entry_at by (auto simp: sample_allowance)
  have fresh: "wk_latch sample_walker = None" "\<not> wk_finished sample_walker"
    "0 = 0 + unat (wk_unread_data sample_walker) + unat (wk_unread_padding sample_walker)"
    by (simp_all add: sample_walker_def walker_new_def Let_def)
  from next_entry_exact [OF memory.byte_source_axioms sample_starts sample_at fresh] obtain out w' where
    out: "next_entry stream_read sample_walker = Some (out, w')" and
    exact: "\<forall>ent. out = Inr (Some ent) \<longleftrightarrow> (\<exists>m rs'. entry_at sample_archive (unat (counting_remaining sample_start)) (wk_rules sample_walker) 0 m ent rs')"
      "\<forall>ent m rs'. entry_at sample_archive (unat (counting_remaining sample_start)) (wk_rules sample_walker) 0 m ent rs' \<longrightarrow>
        wk_rules w' = rs' \<and> behind_header (\<lambda>_. True) (\<lambda>s. s) stream_off sample_start sample_archive m ent w'"
    by (elim exE conjE)
  from exact(2) at(1) have w': "wk_rules w' = rs'"
      "behind_header (\<lambda>_. True) (\<lambda>s. s) stream_off sample_start sample_archive 0 sample_entry w'" by simp_all
  from exact(1) at(1) have "out = Inr (Some sample_entry)" by (simp only:) (intro exI)
  from w'(2) have behind: "walker_at (\<lambda>_. True) (\<lambda>s. s) stream_off sample_start sample_archive (0 + BLOCK) w'"
    "wk_latch w' = None" "\<not> wk_finished w'" "1024 = (0 + BLOCK) + unat (wk_unread_data w') + unat (wk_unread_padding w')"
    by (simp_all add: behind_header_def sample_entry_def blocks_len_def BLOCK_def)
  have "ends_at sample_archive None (wk_rules w') 1024"
    using at(2) w'(1) by (simp add: ends_at_def sample_archive_def sample_length MIN_ZERO_TAIL_def MAX_ZERO_TAIL_def BLOCK_def)
  moreover from next_entry_exact [OF memory.byte_source_axioms sample_starts behind] obtain out' w'' where
    "next_entry stream_read w' = Some (out', w'')" "out' = Inr None \<longleftrightarrow> ends_at sample_archive None (wk_rules w') 1024"
    by (elim exE conjE)
  ultimately have "next_entry stream_read w' = Some (Inr None, w'')" by simp
  with out \<open>out = Inr (Some sample_entry)\<close> show ?thesis by (intro exI conjI) simp_all
qed

end
