(* ===== verification/Canonical_Manifest.thy ===== *)
theory Canonical_Manifest
  imports Image
begin

text \<open>
  The one manifest an image archive may carry for a config (\<open>src/image/canonical.rs\<close>), as bytes. A reservation
  of memory that fails is not modelled.
\<close>

definition OCI_MANIFEST_MEDIA_TYPE :: bytes where
  "OCI_MANIFEST_MEDIA_TYPE = ''application/vnd.oci.image.manifest.v1+json''"
definition OCI_CONFIG_MEDIA_TYPE :: bytes where
  "OCI_CONFIG_MEDIA_TYPE = ''application/vnd.oci.image.config.v1+json''"
definition OCI_LAYER_MEDIA_TYPE :: bytes where
  "OCI_LAYER_MEDIA_TYPE = ''application/vnd.oci.image.layer.v1.tar''"

definition quote :: bytes where "quote = [CHR 0x22]"

definition MANIFEST_HEAD :: bytes where
  "MANIFEST_HEAD = ''{'' @ quote @ ''schemaVersion'' @ quote @ '':2,'' @ quote @ ''mediaType'' @ quote @ '':''"
definition CONFIG_KEY :: bytes where "CONFIG_KEY = '','' @ quote @ ''config'' @ quote @ '':''"
definition LAYERS_KEY :: bytes where "LAYERS_KEY = '','' @ quote @ ''layers'' @ quote @ '':[''"
definition MANIFEST_TAIL :: bytes where "MANIFEST_TAIL = '']}''"
definition DESCRIPTOR_MEDIA_TYPE :: bytes where
  "DESCRIPTOR_MEDIA_TYPE = ''{'' @ quote @ ''mediaType'' @ quote @ '':'' @ quote"
definition DESCRIPTOR_DIGEST :: bytes where
  "DESCRIPTOR_DIGEST = quote @ '','' @ quote @ ''digest'' @ quote @ '':'' @ quote"
definition DESCRIPTOR_SIZE :: bytes where "DESCRIPTOR_SIZE = quote @ '','' @ quote @ ''size'' @ quote @ '':''"
definition DESCRIPTOR_TAIL :: bytes where "DESCRIPTOR_TAIL = ''}''"
definition MAX_U64_DIGITS :: nat where "MAX_U64_DIGITS = 20"

datatype canonical_manifest_error = CM_InvalidConfigDigest | CM_EmptyConfig | CM_InvalidDiffId nat | CM_TooLarge

definition is_sha256_digest :: "bytes \<Rightarrow> bool" where
  "is_sha256_digest v =
     (case strip_prefix SHA256_DIGEST_PREFIX v of
        Some hex \<Rightarrow> length hex = IMAGE_DIGEST_HEX_LEN \<and> is_lower_hex hex
      | None \<Rightarrow> False)"

definition descriptor_max_len :: "bytes \<Rightarrow> nat" where
  "descriptor_max_len media_type =
     length DESCRIPTOR_MEDIA_TYPE + length media_type + length DESCRIPTOR_DIGEST + length SHA256_DIGEST_PREFIX +
     IMAGE_DIGEST_HEX_LEN + length DESCRIPTOR_SIZE + MAX_U64_DIGITS + length DESCRIPTOR_TAIL"

definition push_descriptor :: "bytes \<Rightarrow> bytes \<Rightarrow> u64 \<Rightarrow> bytes" where
  "push_descriptor media_type digest n =
     DESCRIPTOR_MEDIA_TYPE @ media_type @ DESCRIPTOR_DIGEST @ digest @ DESCRIPTOR_SIZE @ to_string n @ DESCRIPTOR_TAIL"

text \<open>The lengths are sums and products of \<open>usize\<close>, which may overflow.\<close>

definition manifest_capacity :: "nat \<Rightarrow> nat" where
  "manifest_capacity layers =
     (descriptor_max_len OCI_LAYER_MEDIA_TYPE + 1) * layers +
     (length MANIFEST_HEAD + length OCI_MANIFEST_MEDIA_TYPE + 2 + length CONFIG_KEY +
      descriptor_max_len OCI_CONFIG_MEDIA_TYPE + length LAYERS_KEY + length MANIFEST_TAIL)"

fun push_layers :: "nat \<Rightarrow> (bytes \<times> u64) list \<Rightarrow> bytes" where
  "push_layers position [] = []"
| "push_layers position ((diff_id, n) # layers) =
     (if 0 < position then '','' else []) @ push_descriptor OCI_LAYER_MEDIA_TYPE diff_id n @ push_layers (Suc position) layers"

fun find_index :: "('a \<Rightarrow> bool) \<Rightarrow> 'a list \<Rightarrow> nat option" where
  "find_index P [] = None"
| "find_index P (x # xs) = (if P x then Some 0 else map_option Suc (find_index P xs))"

definition canonical_image_manifest ::
  "bytes \<Rightarrow> u64 \<Rightarrow> (bytes \<times> u64) list \<Rightarrow> canonical_manifest_error + bytes" where
  "canonical_image_manifest config_digest config_size layers =
     (if \<not> is_sha256_digest config_digest then Inl CM_InvalidConfigDigest
      else if config_size = 0 then Inl CM_EmptyConfig
      else
        case find_index (\<lambda>(diff_id, _). \<not> is_sha256_digest diff_id) layers of
          Some position \<Rightarrow> Inl (CM_InvalidDiffId position)
        | None \<Rightarrow>
            if 2 ^ 64 \<le> manifest_capacity (length layers) then Inl CM_TooLarge
            else
              Inr (MANIFEST_HEAD @ quote @ OCI_MANIFEST_MEDIA_TYPE @ quote @ CONFIG_KEY @
                   push_descriptor OCI_CONFIG_MEDIA_TYPE config_digest config_size @ LAYERS_KEY @
                   push_layers 0 layers @ MANIFEST_TAIL))"

section \<open>One manifest per config, one config per manifest\<close>

lemma find_index_None: "find_index P xs = None \<longleftrightarrow> (\<forall>x \<in> set xs. \<not> P x)"
  by (induction xs) auto

lemma to_string_ends:
  assumes "to_string m @ c # x = to_string n @ d # y" and "\<not> is_ascii_digit c" and "\<not> is_ascii_digit d"
  shows "m = n \<and> c = d \<and> x = y"
proof -
  have run: "takeWhile is_ascii_digit (to_string k @ b # z) = to_string k" if "\<not> is_ascii_digit b" for k b z
    using dec_digits [of "unat k"] that by (simp add: to_string_def takeWhile_append list_all_iff)
  have "to_string m = to_string n" using run [OF assms(2), of m x] run [OF assms(3), of n y] assms(1) by simp
  then show ?thesis using assms(1) by simp
qed

lemma digest_length: "is_sha256_digest d \<Longrightarrow> length d = length SHA256_DIGEST_PREFIX + IMAGE_DIGEST_HEX_LEN"
  by (auto simp: is_sha256_digest_def strip_prefix_Some split: option.splits)

lemma descriptor_cut:
  assumes "push_descriptor t d m @ x = push_descriptor t d' n @ y" and "is_sha256_digest d" and "is_sha256_digest d'"
  shows "d = d' \<and> m = n \<and> x = y"
proof -
  have "d = d' \<and> to_string m @ CHR ''}'' # x = to_string n @ CHR ''}'' # y"
    using assms digest_length by (simp add: push_descriptor_def DESCRIPTOR_TAIL_def)
  then show ?thesis using to_string_ends [of m "CHR ''}''" x n "CHR ''}''" y] by (simp add: is_ascii_digit_def)
qed

lemma descriptor_starts: "\<exists>r. push_descriptor t d n = CHR ''{'' # r"
  by (simp add: push_descriptor_def DESCRIPTOR_MEDIA_TYPE_def)

lemma layers_cut:
  assumes "push_layers p ls @ MANIFEST_TAIL = push_layers p ls' @ MANIFEST_TAIL"
    and "\<forall>(d, _) \<in> set ls. is_sha256_digest d" and "\<forall>(d, _) \<in> set ls'. is_sha256_digest d"
  shows "ls = ls'"
  using assms
proof (induction ls arbitrary: p ls')
  case Nil
  then show ?case
    by (cases ls') (auto simp: MANIFEST_TAIL_def push_descriptor_def DESCRIPTOR_MEDIA_TYPE_def split: if_splits)
next
  case (Cons l ls)
  obtain d n where l: "l = (d, n)" by (cases l)
  show ?case
  proof (cases ls')
    case Nil
    then show ?thesis using Cons.prems(1) l
      by (auto simp: MANIFEST_TAIL_def push_descriptor_def DESCRIPTOR_MEDIA_TYPE_def split: if_splits)
  next
    case (Cons l' ls'')
    obtain d' n' where l': "l' = (d', n')" by (cases l')
    have "push_descriptor OCI_LAYER_MEDIA_TYPE d n @ push_layers (Suc p) ls @ MANIFEST_TAIL =
        push_descriptor OCI_LAYER_MEDIA_TYPE d' n' @ push_layers (Suc p) ls'' @ MANIFEST_TAIL"
      using Cons.prems(1) l l' Cons by simp
    from descriptor_cut [OF this] have "d = d' \<and> n = n' \<and> push_layers (Suc p) ls @ MANIFEST_TAIL = push_layers (Suc p) ls'' @ MANIFEST_TAIL"
      using Cons.prems(2,3) l l' Cons by simp
    then show ?thesis using Cons.IH [of "Suc p" ls''] Cons.prems(2,3) l l' Cons by auto
  qed
qed

text \<open>A manifest is rendered exactly for a digest and diff IDs in their one spelling and a config of some length,
  unless its length would overflow; and two renderings with the same bytes are of the same config digest, config
  length and layers, so the stored manifest determines the image and the image the stored manifest.\<close>

theorem canonical_manifest_determines:
  "(is_ok (canonical_image_manifest d n ls) \<longleftrightarrow>
      is_sha256_digest d \<and> n \<noteq> 0 \<and> (\<forall>(x, _) \<in> set ls. is_sha256_digest x) \<and> manifest_capacity (length ls) < 2 ^ 64) \<and>
   (\<forall>m. canonical_image_manifest d n ls = Inr m \<and> canonical_image_manifest d' n' ls' = Inr m \<longrightarrow>
      d = d' \<and> n = n' \<and> ls = ls')"
proof (intro conjI allI impI)
  show "is_ok (canonical_image_manifest d n ls) \<longleftrightarrow>
      is_sha256_digest d \<and> n \<noteq> 0 \<and> (\<forall>(x, _) \<in> set ls. is_sha256_digest x) \<and> manifest_capacity (length ls) < 2 ^ 64"
  proof (cases "find_index (\<lambda>(diff_id, _). \<not> is_sha256_digest diff_id) ls")
    case None
    then have "\<forall>(x, _) \<in> set ls. is_sha256_digest x" by (auto simp: find_index_None)
    then show ?thesis using None by (simp add: canonical_image_manifest_def is_ok_def not_le)
  next
    case (Some position)
    then have "\<not> (\<forall>(x, _) \<in> set ls. is_sha256_digest x)"
      using find_index_None [of "\<lambda>(diff_id, _). \<not> is_sha256_digest diff_id" ls] by auto
    then show ?thesis using Some by (auto simp: canonical_image_manifest_def is_ok_def)
  qed
next
  fix m assume m: "canonical_image_manifest d n ls = Inr m \<and> canonical_image_manifest d' n' ls' = Inr m"
  then have digests: "is_sha256_digest d" "is_sha256_digest d'" "\<forall>(x, _) \<in> set ls. is_sha256_digest x"
    "\<forall>(x, _) \<in> set ls'. is_sha256_digest x"
    by (auto simp: canonical_image_manifest_def find_index_None split: if_splits option.splits)
  have "push_descriptor OCI_CONFIG_MEDIA_TYPE d n @ LAYERS_KEY @ push_layers 0 ls @ MANIFEST_TAIL =
      push_descriptor OCI_CONFIG_MEDIA_TYPE d' n' @ LAYERS_KEY @ push_layers 0 ls' @ MANIFEST_TAIL"
    using m by (auto simp: canonical_image_manifest_def split: if_splits option.splits)
  from descriptor_cut [OF this digests(1,2)]
  have "d = d'" "n = n'" "push_layers 0 ls @ MANIFEST_TAIL = push_layers 0 ls' @ MANIFEST_TAIL" by simp_all
  then show "d = d'" "n = n'" "ls = ls'" using layers_cut [of 0 ls ls'] digests(3,4) by simp_all
qed

end
