(* ===== verification/Image_Documents.thy ===== *)
theory Image_Documents
  imports Canonical_Manifest Archive_Errors Limits Json
begin

text \<open>
  The closed shapes of an image archive's documents and descriptors (\<open>src/image/archive/documents.rs\<close>), and the
  verdicts they are refused with (\<open>src/image/archive.rs\<close>). A document is a \<open>Value\<close>: a map's keys are in byte order,
  and the scan before has refused a repeated one.
\<close>

section \<open>Verdicts\<close>

datatype verdict =
    V_Unsupported unsupported_archive_feature
  | V_Invalid invalid_archive_reason
  | V_Undeclared bytes reference_source
  | V_Missing bytes reference_source
  | V_ConfigDigest bytes bytes
  | V_Platform platform_location platform_facet "bytes option" "bytes option"
  | V_Layer "nat option" layer_mismatch_kind "bytes option" "bytes option"
  | V_Limit limit_resource u64
  | V_Io bytes

type_synonym 'a checked = "verdict + 'a"

definition shape :: "image_document \<Rightarrow> verdict" where
  "shape document = V_Invalid (IA_UnexpectedShape document)"

definition is_digest_hex :: "bytes \<Rightarrow> bool" where
  "is_digest_hex v \<longleftrightarrow> length v = IMAGE_DIGEST_HEX_LEN \<and> list_all is_lower_hex_byte v"

definition SHA256_PREFIX :: bytes where "SHA256_PREFIX = ''sha256:''"
definition BLOB_PREFIX :: bytes where "BLOB_PREFIX = ''blobs/sha256/''"

definition is_digest :: "bytes \<Rightarrow> bool" where
  "is_digest v = (case strip_prefix SHA256_PREFIX v of Some hex \<Rightarrow> is_digest_hex hex | None \<Rightarrow> False)"

section \<open>Names\<close>

definition OCI_LAYOUT_VERSION_KEY :: bytes where "OCI_LAYOUT_VERSION_KEY = ''imageLayoutVersion''"
definition OCI_LAYOUT_VERSION :: bytes where "OCI_LAYOUT_VERSION = ''1.0.0''"
definition SCHEMA_VERSION :: bytes where "SCHEMA_VERSION = ''schemaVersion''"
definition MEDIA_TYPE :: bytes where "MEDIA_TYPE = ''mediaType''"
definition MANIFESTS :: bytes where "MANIFESTS = ''manifests''"
definition CONFIG :: bytes where "CONFIG = ''config''"
definition LAYERS :: bytes where "LAYERS = ''layers''"
definition ANNOTATIONS :: bytes where "ANNOTATIONS = ''annotations''"
definition DIGEST :: bytes where "DIGEST = ''digest''"
definition DESC_SIZE :: bytes where "DESC_SIZE = ''size''"
definition PLATFORM :: bytes where "PLATFORM = ''platform''"
definition OS_KEY :: bytes where "OS_KEY = ''os''"
definition ARCHITECTURE :: bytes where "ARCHITECTURE = ''architecture''"
definition VARIANT :: bytes where "VARIANT = ''variant''"
definition SUBJECT :: bytes where "SUBJECT = ''subject''"
definition ARTIFACT_TYPE :: bytes where "ARTIFACT_TYPE = ''artifactType''"
definition URLS :: bytes where "URLS = ''urls''"
definition DATA :: bytes where "DATA = ''data''"
definition COMPAT_CONFIG :: bytes where "COMPAT_CONFIG = ''Config''"
definition COMPAT_REPO_TAGS :: bytes where "COMPAT_REPO_TAGS = ''RepoTags''"
definition COMPAT_LAYERS :: bytes where "COMPAT_LAYERS = ''Layers''"
definition COMPAT_PARENT :: bytes where "COMPAT_PARENT = ''Parent''"
definition COMPAT_LAYER_SOURCES :: bytes where "COMPAT_LAYER_SOURCES = ''LayerSources''"
definition SUPPORTED_SCHEMA_VERSION :: u64 where "SUPPORTED_SCHEMA_VERSION = 2"
definition OCI_INDEX_MEDIA_TYPE :: bytes where
  "OCI_INDEX_MEDIA_TYPE = ''application/vnd.oci.image.index.v1+json''"
definition DOCKER_MANIFEST_LIST_MEDIA_TYPE :: bytes where
  "DOCKER_MANIFEST_LIST_MEDIA_TYPE = ''application/vnd.docker.distribution.manifest.list.v2+json''"
definition OCI_GZIP_LAYER_MEDIA_TYPE :: bytes where
  "OCI_GZIP_LAYER_MEDIA_TYPE = ''application/vnd.oci.image.layer.v1.tar+gzip''"
definition ATTESTATION_ANNOTATION :: bytes where "ATTESTATION_ANNOTATION = ''vnd.docker.reference.type''"
definition OCI_ANNOTATION_PREFIX :: bytes where "OCI_ANNOTATION_PREFIX = ''org.opencontainers.image.''"
definition OCI_MANIFEST_ANNOTATIONS :: "bytes list" where
  "OCI_MANIFEST_ANNOTATIONS =
     [''created'', ''authors'', ''url'', ''documentation'', ''source'', ''version'', ''revision'', ''vendor'', ''licenses'',
      ''title'', ''description'', ''base.name'', ''base.digest'']"
definition BASHBREW_ARCH_ANNOTATION :: bytes where
  "BASHBREW_ARCH_ANNOTATION = ''com.docker.official-images.bashbrew.arch''"

definition DESCRIPTOR_EXTENSIONS :: "(bytes \<times> extension_field) list" where
  "DESCRIPTOR_EXTENSIONS = [(SUBJECT, EF_Subject), (ARTIFACT_TYPE, EF_ArtifactType), (URLS, EF_Urls), (DATA, EF_Data)]"
definition DOCUMENT_EXTENSIONS :: "(bytes \<times> extension_field) list" where
  "DOCUMENT_EXTENSIONS = [(SUBJECT, EF_Subject), (ARTIFACT_TYPE, EF_ArtifactType)]"
definition LAYER_SOURCE_KEYS :: "bytes list" where "LAYER_SOURCE_KEYS = [MEDIA_TYPE, DIGEST, DESC_SIZE]"

section \<open>Descriptors\<close>

datatype role = RoleIndexManifest nat | RoleConfig | RoleLayer nat

fun role_keys :: "role \<Rightarrow> bytes list" where
  "role_keys (RoleIndexManifest _) = [MEDIA_TYPE, DIGEST, DESC_SIZE, PLATFORM, ANNOTATIONS]"
| "role_keys RoleConfig = [MEDIA_TYPE, DIGEST, DESC_SIZE, PLATFORM]"
| "role_keys (RoleLayer _) = [MEDIA_TYPE, DIGEST, DESC_SIZE]"

fun role_size_limit :: "role \<Rightarrow> limit_resource" where
  "role_size_limit (RoleIndexManifest _) = LR_ImageManifestJson"
| "role_size_limit RoleConfig = LR_ConfigJson"
| "role_size_limit (RoleLayer _) = LR_StoredLayerBlob"

fun role_platform_location :: "role \<Rightarrow> platform_location option" where
  "role_platform_location (RoleIndexManifest index) = Some (PL_IndexDescriptor index)"
| "role_platform_location RoleConfig = Some PL_ConfigDescriptor"
| "role_platform_location (RoleLayer _) = None"

fun check_media_type :: "role \<Rightarrow> bytes \<Rightarrow> unit checked" where
  "check_media_type (RoleIndexManifest _) media_type =
     (if media_type = OCI_MANIFEST_MEDIA_TYPE then Inr ()
      else if media_type = OCI_INDEX_MEDIA_TYPE \<or> media_type = DOCKER_MANIFEST_LIST_MEDIA_TYPE
        then Inl (V_Unsupported UF_NestedIndex)
      else Inl (V_Unsupported UF_ManifestMediaType))"
| "check_media_type RoleConfig media_type =
     (if media_type = OCI_CONFIG_MEDIA_TYPE then Inr () else Inl (V_Unsupported UF_ConfigMediaType))"
| "check_media_type (RoleLayer position) media_type =
     (if media_type = OCI_LAYER_MEDIA_TYPE \<or> media_type = OCI_GZIP_LAYER_MEDIA_TYPE then Inr ()
      else Inl (V_Unsupported (UF_LayerMediaType position)))"

record descriptor_platform =
  dp_os :: bytes
  dp_architecture :: bytes
  dp_variant :: "bytes option"

type_synonym json_map = "(bytes \<times> json) list"

record descriptor =
  de_media_type :: bytes
  de_digest :: bytes
  de_size :: u64
  de_platform :: "descriptor_platform option"
  de_annotations :: "json_map option"

definition descriptor_hex :: "descriptor \<Rightarrow> bytes" where
  "descriptor_hex d = (case strip_prefix SHA256_PREFIX (de_digest d) of Some hex \<Rightarrow> hex | None \<Rightarrow> [])"

definition blob_path :: "descriptor \<Rightarrow> bytes" where
  "blob_path d = BLOB_PREFIX @ descriptor_hex d"

fun as_object :: "json \<Rightarrow> json_map option" where
  "as_object (JObj members) = Some members"
| "as_object _ = None"

definition contains_key :: "bytes \<Rightarrow> json_map \<Rightarrow> bool" where
  "contains_key k members \<longleftrightarrow> k \<in> set (obj_keys members)"

definition refuse_extensions :: "json_map \<Rightarrow> image_document \<Rightarrow> (bytes \<times> extension_field) list \<Rightarrow> unit checked" where
  "refuse_extensions members document extensions =
     (case find (\<lambda>(key, _). contains_key key members) extensions of
        Some (_, field) \<Rightarrow> Inl (V_Unsupported (UF_ExtensionField document field))
      | None \<Rightarrow> Inr ())"

definition only_keys :: "json_map \<Rightarrow> bytes list \<Rightarrow> bool" where
  "only_keys members allowed \<longleftrightarrow> list_all (\<lambda>key. key \<in> set allowed) (obj_keys members)"

definition is_schema_version :: "json option \<Rightarrow> bool" where
  "is_schema_version v \<longleftrightarrow> Option.bind v as_u64 = Some SUPPORTED_SCHEMA_VERSION"

definition get_str :: "bytes \<Rightarrow> json_map \<Rightarrow> bytes option" where
  "get_str key members = Option.bind (obj_get key members) as_str"

definition string_map :: "json \<Rightarrow> json_map option" where
  "string_map v =
     (case as_object v of
        Some members \<Rightarrow> if list_all (\<lambda>key. get_str key members \<noteq> None) (obj_keys members) then Some members else None
      | None \<Rightarrow> None)"

definition variant_of :: "verdict \<Rightarrow> json option \<Rightarrow> bytes option checked" where
  "variant_of refusal v =
     (case v of
        None \<Rightarrow> Inr None
      | Some JNull \<Rightarrow> Inr None
      | Some (JStr variant) \<Rightarrow> Inr (Some variant)
      | Some _ \<Rightarrow> Inl refusal)"

definition descriptor_platform_of :: "json \<Rightarrow> platform_location \<Rightarrow> image_document \<Rightarrow> descriptor_platform checked" where
  "descriptor_platform_of v location document =
     bind_res (ok_or (shape document) (as_object v)) (\<lambda>members.
     if \<not> only_keys members [OS_KEY, ARCHITECTURE, VARIANT] then Inl (shape document)
     else
       bind_res (ok_or (shape document) (get_str OS_KEY members)) (\<lambda>os.
       bind_res (ok_or (shape document) (get_str ARCHITECTURE members)) (\<lambda>architecture.
       bind_res (variant_of (shape document) (obj_get VARIANT members)) (\<lambda>variant.
       if variant = Some [] then Inl (V_Invalid (IA_EmptyPlatformVariant location))
       else Inr \<lparr>dp_os = os, dp_architecture = architecture, dp_variant = variant\<rparr>))))"

definition descriptor_annotations :: "role \<Rightarrow> json_map \<Rightarrow> image_document \<Rightarrow> json_map option checked" where
  "descriptor_annotations role members document =
     (case (role, obj_get ANNOTATIONS members) of
        (RoleIndexManifest _, Some annotations) \<Rightarrow>
          bind_res (ok_or (shape document) (string_map annotations)) (\<lambda>annotations.
          if contains_key ATTESTATION_ANNOTATION annotations then Inl (V_Unsupported UF_Attestation)
          else Inr (Some annotations))
      | _ \<Rightarrow> Inr None)"

definition descriptor_of :: "json \<Rightarrow> role \<Rightarrow> image_document \<Rightarrow> content_limits \<Rightarrow> descriptor checked" where
  "descriptor_of v role document limits =
     bind_res (ok_or (shape document) (as_object v)) (\<lambda>members.
     bind_res (refuse_extensions members document DESCRIPTOR_EXTENSIONS) (\<lambda>_.
     if (case role of RoleIndexManifest _ \<Rightarrow> False | _ \<Rightarrow> contains_key ANNOTATIONS members)
     then Inl (V_Unsupported UF_DescriptorAnnotation)
     else if \<not> only_keys members (role_keys role) then Inl (shape document)
     else
       bind_res (ok_or (shape document) (get_str MEDIA_TYPE members)) (\<lambda>media_type.
       bind_res (check_media_type role media_type) (\<lambda>_.
       bind_res (ok_or (shape document) (get_str DIGEST members)) (\<lambda>digest.
       if \<not> is_digest digest then Inl (shape document)
       else
         bind_res (ok_or (shape document) (Option.bind (obj_get DESC_SIZE members) as_u64)) (\<lambda>n.
         let size_limit = limits_resource_limit limits (role_size_limit role) in
         if rl_max size_limit < n then Inl (V_Limit (rl_resource size_limit) (rl_max size_limit))
         else
           bind_res (descriptor_annotations role members document) (\<lambda>annotations.
           bind_res
             (case (role_platform_location role, obj_get PLATFORM members) of
                (Some location, Some platform) \<Rightarrow>
                  bind_res (descriptor_platform_of platform location document) (\<lambda>p. Inr (Some p))
              | _ \<Rightarrow> Inr None) (\<lambda>platform.
           Inr \<lparr>de_media_type = media_type, de_digest = digest, de_size = n, de_platform = platform,
                de_annotations = annotations\<rparr>))))))))"

text \<open>The descriptors of a list, numbered from \<open>i\<close>; the first refusal is the verdict.\<close>

fun descriptors_of ::
  "(nat \<Rightarrow> role) \<Rightarrow> nat \<Rightarrow> json list \<Rightarrow> image_document \<Rightarrow> content_limits \<Rightarrow> descriptor list checked" where
  "descriptors_of role i [] document limits = Inr []"
| "descriptors_of role i (v # vs) document limits =
     bind_res (descriptor_of v (role i) document limits) (\<lambda>d.
     bind_res (descriptors_of role (Suc i) vs document limits) (\<lambda>ds. Inr (d # ds)))"

section \<open>Documents\<close>

definition oci_layout :: "json \<Rightarrow> unit checked" where
  "oci_layout v =
     (if (case as_object v of
            Some members \<Rightarrow>
              only_keys members [OCI_LAYOUT_VERSION_KEY] \<and> get_str OCI_LAYOUT_VERSION_KEY members = Some OCI_LAYOUT_VERSION
          | None \<Rightarrow> False)
      then Inr () else Inl (shape IDoc_OciLayout))"

definition check_count :: "nat \<Rightarrow> content_limits \<Rightarrow> limit_resource \<Rightarrow> unit checked" where
  "check_count n limits resource =
     (if unat (limits_get limits resource) < n then Inl (V_Limit resource (limits_get limits resource)) else Inr ())"

definition index_of :: "json \<Rightarrow> content_limits \<Rightarrow> descriptor list checked" where
  "index_of v limits =
     (let document = IDoc_Index in
      bind_res (ok_or (shape document) (as_object v)) (\<lambda>members.
      bind_res (refuse_extensions members document DOCUMENT_EXTENSIONS) (\<lambda>_.
      if \<not> only_keys members [SCHEMA_VERSION, MEDIA_TYPE, MANIFESTS] then Inl (shape document)
      else if \<not> is_schema_version (obj_get SCHEMA_VERSION members) then Inl (shape document)
      else if (case obj_get MEDIA_TYPE members of Some m \<Rightarrow> as_str m \<noteq> Some OCI_INDEX_MEDIA_TYPE | None \<Rightarrow> False)
        then Inl (shape document)
      else
        bind_res (ok_or (shape document) (Option.bind (obj_get MANIFESTS members) as_array)) (\<lambda>manifests.
        if manifests = [] then Inl (shape document)
        else
          bind_res (check_count (length manifests) limits LR_TagsPerImage) (\<lambda>_.
          bind_res (descriptors_of RoleIndexManifest 0 manifests document limits) (\<lambda>descriptors.
          case descriptors of
            first # others \<Rightarrow>
              if list_ex (\<lambda>d. de_digest d \<noteq> de_digest first \<or> de_size d \<noteq> de_size first) others
              then Inl (V_Unsupported UF_MultipleImages) else Inr descriptors
          | [] \<Rightarrow> Inr descriptors))))))"

record compatibility =
  co_config :: bytes
  co_repo_tags :: "bytes list"
  co_layers :: "bytes list"
  co_layer_sources :: "json_map option"

definition strings :: "json option \<Rightarrow> bytes list option" where
  "strings v = Option.bind (Option.bind v as_array) (decode_all as_str)"

definition compatibility_of :: "json \<Rightarrow> content_limits \<Rightarrow> compatibility checked" where
  "compatibility_of v limits =
     (let document = IDoc_CompatibilityManifest; shp = shape document in
      case as_array v of
        None \<Rightarrow> Inl shp
      | Some [] \<Rightarrow> Inl shp
      | Some (_ # _ # _) \<Rightarrow> Inl (V_Unsupported UF_MultipleImages)
      | Some [one] \<Rightarrow>
          bind_res (ok_or shp (as_object one)) (\<lambda>members.
          if \<not> only_keys members [COMPAT_CONFIG, COMPAT_REPO_TAGS, COMPAT_LAYERS, COMPAT_PARENT, COMPAT_LAYER_SOURCES]
          then Inl shp
          else
            bind_res (ok_or shp (get_str COMPAT_CONFIG members)) (\<lambda>config.
            bind_res (ok_or shp (strings (obj_get COMPAT_REPO_TAGS members))) (\<lambda>repo_tags.
            if repo_tags = [] then Inl shp
            else
              bind_res (check_count (length repo_tags) limits LR_TagsPerImage) (\<lambda>_.
              bind_res (ok_or shp (strings (obj_get COMPAT_LAYERS members))) (\<lambda>layers.
              bind_res (check_count (length layers) limits LR_LayersPerImage) (\<lambda>_.
              bind_res
                (case obj_get COMPAT_PARENT members of
                   None \<Rightarrow> Inr () | Some (JStr parent) \<Rightarrow> ensure (parent = []) shp | Some _ \<Rightarrow> Inl shp) (\<lambda>_.
              bind_res
                (case obj_get COMPAT_LAYER_SOURCES members of
                   None \<Rightarrow> Inr None | Some JNull \<Rightarrow> Inr None | Some (JObj sources) \<Rightarrow> Inr (Some sources)
                 | Some _ \<Rightarrow> Inl shp) (\<lambda>layer_sources.
              Inr \<lparr>co_config = config, co_repo_tags = repo_tags, co_layers = layers, co_layer_sources = layer_sources\<rparr>)))))))))"

record image_manifest =
  im_config :: descriptor
  im_layers :: "descriptor list"

definition is_manifest_annotation :: "bytes \<Rightarrow> bool" where
  "is_manifest_annotation key \<longleftrightarrow>
     key = BASHBREW_ARCH_ANNOTATION \<or>
     (case strip_prefix OCI_ANNOTATION_PREFIX key of Some name \<Rightarrow> name \<in> set OCI_MANIFEST_ANNOTATIONS | None \<Rightarrow> False)"

definition image_manifest_of :: "json \<Rightarrow> content_limits \<Rightarrow> image_manifest checked" where
  "image_manifest_of v limits =
     (let document = IDoc_ImageManifest in
      bind_res (ok_or (shape document) (as_object v)) (\<lambda>members.
      bind_res (refuse_extensions members document DOCUMENT_EXTENSIONS) (\<lambda>_.
      if \<not> only_keys members [SCHEMA_VERSION, MEDIA_TYPE, CONFIG, LAYERS, ANNOTATIONS] then Inl (shape document)
      else if \<not> is_schema_version (obj_get SCHEMA_VERSION members) then Inl (shape document)
      else
        bind_res (ok_or (shape document) (get_str MEDIA_TYPE members)) (\<lambda>media_type.
        if media_type \<noteq> OCI_MANIFEST_MEDIA_TYPE then Inl (V_Unsupported UF_ManifestMediaType)
        else
          bind_res (descriptor_of (case obj_get CONFIG members of Some c \<Rightarrow> c | None \<Rightarrow> JNull) RoleConfig document limits)
            (\<lambda>config.
          bind_res (ok_or (shape document) (Option.bind (obj_get LAYERS members) as_array)) (\<lambda>layers.
          bind_res (check_count (length layers) limits LR_LayersPerImage) (\<lambda>_.
          bind_res (descriptors_of RoleLayer 0 layers document limits) (\<lambda>layers.
          bind_res
            (case obj_get ANNOTATIONS members of
               Some annotations \<Rightarrow>
                 bind_res (ok_or (shape document) (string_map annotations)) (\<lambda>annotations.
                 ensure (list_all is_manifest_annotation (obj_keys annotations)) (V_Unsupported UF_ManifestAnnotation))
             | None \<Rightarrow> Inr ()) (\<lambda>_.
          Inr \<lparr>im_config = config, im_layers = layers\<rparr>)))))))))"

definition layer_source :: "json \<Rightarrow> descriptor \<Rightarrow> unit checked" where
  "layer_source v layer =
     (let inconsistent = V_Invalid IA_InconsistentLayerSources in
      bind_res (ok_or inconsistent (as_object v)) (\<lambda>members.
      bind_res (refuse_extensions members IDoc_CompatibilityManifest DESCRIPTOR_EXTENSIONS) (\<lambda>_.
      if length (obj_keys members) \<noteq> length LAYER_SOURCE_KEYS \<or> \<not> only_keys members LAYER_SOURCE_KEYS then Inl inconsistent
      else
        ensure (get_str MEDIA_TYPE members = Some (de_media_type layer) \<and>
                get_str DIGEST members = Some (de_digest layer) \<and>
                Option.bind (obj_get DESC_SIZE members) as_u64 = Some (de_size layer)) inconsistent)))"

end
