(* ===== verification/Image_Checks.thy ===== *)
theory Image_Checks
  imports Image_Documents Tar_Walker Trust_Types
begin

text \<open>
  The checks of an image archive that read nothing (\<open>src/image/archive.rs\<close>): how a reader's fault becomes a
  verdict, and the phases over what was inventoried and parsed. A map of the code is an association list without
  repeated keys, a set the list it is filled from.
\<close>

section \<open>Verdicts of an archive\<close>

datatype image_archive_fault =
    AF_Image image_verify_error
  | AF_LimitExceeded limit_resource u64
  | AF_Io bytes

fun into_fault :: "bytes \<Rightarrow> verdict \<Rightarrow> image_archive_fault" where
  "into_fault archive_path (V_Limit resource limit) = AF_LimitExceeded resource limit"
| "into_fault archive_path (V_Io err) = AF_Io err"
| "into_fault archive_path (V_Unsupported feature) = AF_Image (IV_UnsupportedArchive archive_path feature)"
| "into_fault archive_path (V_Invalid reason) = AF_Image (IV_InvalidArchive archive_path reason)"
| "into_fault archive_path (V_Undeclared reference source) = AF_Image (IV_UndeclaredReference archive_path reference source)"
| "into_fault archive_path (V_Missing reference source) = AF_Image (IV_MissingReference archive_path reference source)"
| "into_fault archive_path (V_ConfigDigest declared actual) =
     AF_Image (IV_ConfigDigestMismatch archive_path declared actual)"
| "into_fault archive_path (V_Platform location facet declared actual) =
     AF_Image (IV_ConfigPlatformMismatch archive_path location facet declared actual)"
| "into_fault archive_path (V_Layer position kind expected actual) =
     AF_Image (IV_LayerMismatch archive_path position kind expected actual)"

definition IMPOSSIBLE_FAULT :: bytes where
  "IMPOSSIBLE_FAULT = ''a content primitive reported a fault its call site cannot raise''"
definition impossible :: verdict where "impossible = V_Io IMPOSSIBLE_FAULT"

section \<open>Where a fault was raised\<close>

datatype site = ImageWalk | LayerWalk nat bool | SiteDocument image_document

fun tar_verdict :: "tar_fault \<Rightarrow> site \<Rightarrow> verdict" where
  "tar_verdict fault ImageWalk = V_Invalid (IA_Tar fault)"
| "tar_verdict fault (LayerWalk position False) = V_Invalid (IA_LayerTar position fault)"
| "tar_verdict fault _ = impossible"

fun layer_tar :: "tar_fault \<Rightarrow> site \<Rightarrow> verdict" where
  "layer_tar fault (LayerWalk position False) = V_Invalid (IA_LayerTar position fault)"
| "layer_tar fault _ = impossible"

fun gzip_verdict :: "gzip_fault \<Rightarrow> site \<Rightarrow> verdict" where
  "gzip_verdict fault (LayerWalk position True) = V_Invalid (IA_Gzip position fault)"
| "gzip_verdict fault _ = impossible"

fun json_verdict :: "json_fault option \<Rightarrow> site \<Rightarrow> verdict" where
  "json_verdict (Some fault) (SiteDocument document) = V_Invalid (IA_Json document fault)"
| "json_verdict None (SiteDocument document) = shape document"
| "json_verdict _ _ = impossible"

fun header_field :: "tar_field \<Rightarrow> tar_header_field" where
  "header_field FieldName = THF_Name"
| "header_field FieldMode = THF_Mode"
| "header_field FieldUid = THF_Uid"
| "header_field FieldGid = THF_Gid"
| "header_field FieldSize = THF_Size"
| "header_field FieldMtime = THF_Mtime"
| "header_field FieldChecksum = THF_Checksum"
| "header_field FieldLinkname = THF_Linkname"
| "header_field FieldDevMajor = THF_DevMajor"
| "header_field FieldDevMinor = THF_DevMinor"
| "header_field FieldPrefix = THF_Prefix"

fun pax_key_of :: "content_pax_key \<Rightarrow> pax_key" where
  "pax_key_of KeyPath = PK_Path"
| "pax_key_of KeyLinkpath = PK_Linkpath"
| "pax_key_of KeySize = PK_Size"
| "pax_key_of KeyUid = PK_Uid"
| "pax_key_of KeyGid = PK_Gid"
| "pax_key_of KeyUname = PK_Uname"
| "pax_key_of KeyGname = PK_Gname"
| "pax_key_of KeyMtime = PK_Mtime"
| "pax_key_of KeyAtime = PK_Atime"
| "pax_key_of KeyCtime = PK_Ctime"
| "pax_key_of KeyXattr = PK_Xattr"

fun gzip_header_of :: "content_gzip_fault \<Rightarrow> gzip_header_fault" where
  "gzip_header_of HeaderMagic = GH_Magic"
| "gzip_header_of HeaderMethod = GH_Method"
| "gzip_header_of HeaderReservedFlags = GH_ReservedFlags"
| "gzip_header_of HeaderCrc = GH_HeaderCrc"

definition truncated_verdict :: "site \<Rightarrow> verdict" where
  "truncated_verdict site =
     (case site of LayerWalk _ True \<Rightarrow> gzip_verdict GF_Truncated site | _ \<Rightarrow> tar_verdict TFL_Truncated site)"

fun malformed :: "malformed_reason \<Rightarrow> site \<Rightarrow> verdict" where
  "malformed MR_Truncated site = truncated_verdict site"
| "malformed MR_TarChecksum site = tar_verdict TFL_Checksum site"
| "malformed (MR_TarNumericField f) site = tar_verdict (TFL_NumericField (header_field f)) site"
| "malformed (MR_TarNameField f) site = tar_verdict (TFL_NameField (header_field f)) site"
| "malformed MR_OffsetOverflow site = tar_verdict TFL_OffsetOverflow site"
| "malformed MR_TrailingData site = tar_verdict TFL_TrailingData site"
| "malformed MR_ZeroTailTooLong site = tar_verdict TFL_ZeroTailTooLong site"
| "malformed MR_UnsafePath site = tar_verdict TFL_UnsafePath site"
| "malformed MR_DuplicatePath site = tar_verdict TFL_DuplicatePath site"
| "malformed MR_PathConflict site = tar_verdict TFL_PathConflict site"
| "malformed MR_NonRegularWithData site = tar_verdict TFL_NonRegularWithData site"
| "malformed MR_PaxRecord site = layer_tar TFL_PaxRecord site"
| "malformed MR_PaxDuplicateKey site = layer_tar TFL_PaxDuplicateKey site"
| "malformed (MR_PaxValue key) site = layer_tar (TFL_PaxValue (pax_key_of key)) site"
| "malformed MR_ExtensionPayload site = layer_tar TFL_ExtensionPayload site"
| "malformed MR_DuplicateExtension site = layer_tar TFL_DuplicateExtension site"
| "malformed MR_ConflictingAuthority site = layer_tar TFL_ConflictingAuthority site"
| "malformed MR_DanglingExtension site = layer_tar TFL_DanglingExtension site"
| "malformed MR_LinkOnNonLink site = layer_tar TFL_LinkOnNonLink site"
| "malformed (MR_GzipHeader fault) site = gzip_verdict (GF_Header (gzip_header_of fault)) site"
| "malformed MR_DeflateData site = gzip_verdict GF_Deflate site"
| "malformed MR_GzipCrc32 site = gzip_verdict GF_Crc32 site"
| "malformed MR_GzipIsize site = gzip_verdict GF_Isize site"
| "malformed MR_GzipTrailingData site = gzip_verdict GF_TrailingData site"
| "malformed MR_JsonSyntax site = json_verdict (Some JF_Syntax) site"
| "malformed MR_JsonDuplicateKey site = json_verdict (Some JF_DuplicateKey) site"
| "malformed MR_JsonShape site = json_verdict None site"

fun tar_feature_verdict :: "tar_feature \<Rightarrow> site \<Rightarrow> verdict" where
  "tar_feature_verdict feature ImageWalk = V_Unsupported (UF_ArchiveTar feature)"
| "tar_feature_verdict feature (LayerWalk position False) = V_Unsupported (UF_LayerTar position feature)"
| "tar_feature_verdict feature _ = impossible"

fun unsupported_content :: "unsupported_feature \<Rightarrow> site \<Rightarrow> verdict" where
  "unsupported_content UN_TarFormat site = tar_feature_verdict TF_Format site"
| "unsupported_content (UN_EntryType flag) site = tar_feature_verdict (TF_EntryType flag) site"
| "unsupported_content UN_PaxKey site = tar_feature_verdict TF_PaxKey site"
| "unsupported_content UN_ConcatenatedGzipMember (LayerWalk position True) =
     V_Unsupported (UF_ConcatenatedGzipMember position)"
| "unsupported_content UN_ConcatenatedGzipMember _ = impossible"

fun convert :: "content_fault \<Rightarrow> site \<Rightarrow> verdict" where
  "convert (LimitExceeded resource limit) site = V_Limit resource limit"
| "convert (ContentIo err) site = V_Io err"
| "convert (Malformed reason) site = malformed reason site"
| "convert (Unsupported feature) site = unsupported_content feature site"

section \<open>The inventory\<close>

record span =
  sp_offset :: u64
  sp_len :: u64

record blob =
  bl_span :: span
  bl_sha256 :: bytes

record recorded_entry =
  re_name :: bytes
  re_header_offset :: u64
  re_data_offset :: u64
  re_data_len :: u64

record inventory =
  iv_oci_layout :: span
  iv_index :: span
  iv_compatibility :: span
  iv_blobs :: "(bytes \<times> blob) list"
  iv_entries :: "recorded_entry list"

datatype entry_class =
    ClassLayout layout_file | ClassBlob | ClassDirectory | ClassDeferred unsupported_archive_feature

definition OCI_LAYOUT_FILE :: bytes where "OCI_LAYOUT_FILE = ''oci-layout''"
definition INDEX_FILE :: bytes where "INDEX_FILE = ''index.json''"
definition COMPATIBILITY_FILE :: bytes where "COMPATIBILITY_FILE = ''manifest.json''"
definition BLOBS_DIR :: bytes where "BLOBS_DIR = ''blobs''"
definition BLOBS_SHA256_DIR :: bytes where "BLOBS_SHA256_DIR = ''blobs/sha256''"
definition LEGACY_FILES :: "bytes list" where "LEGACY_FILES = [''repositories'', ''VERSION'']"
definition JSON_SUFFIX :: bytes where "JSON_SUFFIX = ''.json''"

definition blob_hex :: "bytes \<Rightarrow> bytes option" where
  "blob_hex name =
     (case strip_prefix BLOB_PREFIX name of Some hex \<Rightarrow> if is_digest_hex hex then Some hex else None | None \<Rightarrow> None)"

definition legacy_name :: "bytes \<Rightarrow> bool" where
  "legacy_name name \<longleftrightarrow>
     name \<in> set LEGACY_FILES \<or> is_digest_hex (hd (split CHR ''/'' name)) \<or>
     (suffix JSON_SUFFIX name \<and> is_digest_hex (take (length name - length JSON_SUFFIX) name))"

definition classify_entry :: "bytes \<Rightarrow> entry_kind \<Rightarrow> entry_class" where
  "classify_entry name kind =
     (let regular = (kind = Regular) in
      if name = OCI_LAYOUT_FILE \<and> regular then ClassLayout LF_OciLayout
      else if name = INDEX_FILE \<and> regular then ClassLayout LF_Index
      else if name = COMPATIBILITY_FILE \<and> regular then ClassLayout LF_CompatibilityManifest
      else if name \<in> {BLOBS_DIR, BLOBS_SHA256_DIR} \<and> kind = Directory then ClassDirectory
      else if regular \<and> blob_hex name \<noteq> None then ClassBlob
      else ClassDeferred (if legacy_name name then UF_LegacyExportFile else UF_ExtraFile))"

section \<open>Blobs and links\<close>

definition check_blob :: "blob \<Rightarrow> descriptor \<Rightarrow> blob_role \<Rightarrow> unit checked" where
  "check_blob b d role =
     (if sp_len (bl_span b) \<noteq> de_size d then Inl (V_Invalid (IA_BlobMismatch role BM_Length))
      else if bl_sha256 b \<noteq> descriptor_hex d then Inl (V_Invalid (IA_BlobMismatch role BM_Digest))
      else Inr ())"

text \<open>The first use of each path, in order; a repeated one must have the descriptor of its first.\<close>

fun first_uses :: "descriptor list \<Rightarrow> nat \<Rightarrow> descriptor list \<Rightarrow> (bytes \<times> nat) list \<Rightarrow> (bytes \<times> nat) list checked" where
  "first_uses layers position [] first_use = Inr first_use"
| "first_uses layers position (layer # rest) first_use =
     (case find (\<lambda>(hex, _). hex = descriptor_hex layer) first_use of
        Some (_, first) \<Rightarrow>
          if \<not> (first < length layers \<and> layers ! first = layer) then Inl (V_Invalid IA_InconsistentCompatibility)
          else first_uses layers (Suc position) rest first_use
      | None \<Rightarrow> first_uses layers (Suc position) rest (first_use @ [(descriptor_hex layer, position)]))"

definition compatibility_links :: "inventory \<Rightarrow> descriptor \<Rightarrow> compatibility \<Rightarrow> image_manifest \<Rightarrow> blob checked" where
  "compatibility_links inventory manifest_descriptor compatibility manifest =
     (let inconsistent = V_Invalid IA_InconsistentCompatibility; blobs = iv_blobs inventory in
      if co_config compatibility \<noteq> blob_path (im_config manifest) then Inl inconsistent
      else if length (co_layers compatibility) \<noteq> length (im_layers manifest) \<or>
          list_ex (\<lambda>(path, layer). path \<noteq> blob_path layer) (zip (co_layers compatibility) (im_layers manifest))
        then Inl inconsistent
      else
        bind_res (first_uses (im_layers manifest) 0 (im_layers manifest) []) (\<lambda>first_use.
        bind_res (ok_or (V_Invalid (IA_MissingBlob BR_Config)) (map_of blobs (descriptor_hex (im_config manifest)))) (\<lambda>config.
        case find (\<lambda>(hex, _). map_of blobs hex = None) first_use of
          Some (_, position) \<Rightarrow> Inl (V_Invalid (IA_MissingBlob (BR_Layer position)))
        | None \<Rightarrow>
            let referenced = map fst first_use @ [descriptor_hex manifest_descriptor, descriptor_hex (im_config manifest)] in
            if list_ex (\<lambda>hex. hex \<notin> set referenced) (map fst blobs) then Inl (V_Unsupported UF_UnreferencedBlob)
            else Inr config)))"

section \<open>Tags\<close>

definition least :: "bytes list \<Rightarrow> bytes option" where
  "least xs = (case sort xs of [] \<Rightarrow> None | x # _ \<Rightarrow> Some x)"

definition first_difference :: "bytes list \<Rightarrow> bytes list \<Rightarrow> reference_source \<Rightarrow> unit checked" where
  "first_difference missing extra source =
     (case (least missing, least extra) of
        (Some m, Some e) \<Rightarrow> if e < m then Inl (V_Undeclared e source) else Inl (V_Missing m source)
      | (Some m, None) \<Rightarrow> Inl (V_Missing m source)
      | (None, Some e) \<Rightarrow> Inl (V_Undeclared e source)
      | (None, None) \<Rightarrow> Inr ())"

definition repo_tags :: "bytes list \<Rightarrow> image_declaration \<Rightarrow> unit checked" where
  "repo_tags tags declaration =
     (case find_index (\<lambda>tag. \<not> is_ok (parse_tagged_reference tag)) tags of
        Some index \<Rightarrow> Inl (V_Invalid (IA_InvalidRepoTag index))
      | None \<Rightarrow>
          if \<not> distinct tags then Inl (V_Invalid (IA_DuplicateTag RS_RepoTags))
          else
            first_difference (filter (\<lambda>reference. reference \<notin> set tags) (id_public_refs declaration))
              (filter (\<lambda>tag. tag \<notin> set (id_public_refs declaration)) tags) RS_RepoTags)"

definition CONTAINERD_NAME_ANNOTATION :: bytes where "CONTAINERD_NAME_ANNOTATION = ''io.containerd.image.name''"
definition OCI_REF_NAME_ANNOTATION :: bytes where "OCI_REF_NAME_ANNOTATION = ''org.opencontainers.image.ref.name''"

text \<open>One descriptor's name and its normalized identity.\<close>

definition named_descriptor :: "nat \<Rightarrow> descriptor \<Rightarrow> (normalized_reference \<times> bytes) checked" where
  "named_descriptor position d =
     (let annotations = (case de_annotations d of None \<Rightarrow> [] | Some a \<Rightarrow> a);
          bad = V_Invalid (IA_InvalidAnnotation position)
      in if list_ex (\<lambda>key. key \<noteq> CONTAINERD_NAME_ANNOTATION \<and> key \<noteq> OCI_REF_NAME_ANNOTATION) (obj_keys annotations)
         then Inl (V_Unsupported UF_DescriptorAnnotation)
         else
           bind_res (ok_or bad (get_str CONTAINERD_NAME_ANNOTATION annotations)) (\<lambda>name.
           case parse_tagged_reference name of
             Inl _ \<Rightarrow> Inl bad
           | Inr normalized \<Rightarrow>
               (case get_str OCI_REF_NAME_ANNOTATION annotations of
                  Some ref_name \<Rightarrow>
                    if ref_name \<noteq> nr_tag normalized \<and> parse_tagged_reference ref_name \<noteq> Inr normalized
                    then Inl bad else Inr (normalized, name)
                | None \<Rightarrow> Inr (normalized, name))))"

fun named_descriptors :: "nat \<Rightarrow> descriptor list \<Rightarrow> (normalized_reference \<times> bytes) list checked" where
  "named_descriptors position [] = Inr []"
| "named_descriptors position (d # ds) =
     bind_res (named_descriptor position d) (\<lambda>n.
     bind_res (named_descriptors (Suc position) ds) (\<lambda>ns. Inr (n # ns)))"

definition declared_references :: "image_declaration \<Rightarrow> (normalized_reference \<times> bytes) list" where
  "declared_references declaration =
     concat (map (\<lambda>reference. case parse_tagged_reference reference of Inr n \<Rightarrow> [(n, reference)] | Inl _ \<Rightarrow> [])
       (id_public_refs declaration))"

definition index_annotations :: "descriptor list \<Rightarrow> image_declaration \<Rightarrow> unit checked" where
  "index_annotations index declaration =
     bind_res (named_descriptors 0 index) (\<lambda>named.
     let seen = map fst named; declared = declared_references declaration in
     if \<not> distinct seen then Inl (V_Invalid (IA_DuplicateTag RS_IndexAnnotation))
     else
       first_difference (map snd (filter (\<lambda>(n, _). n \<notin> set seen) declared))
         (map snd (filter (\<lambda>(n, _). n \<notin> set (map fst declared)) named)) RS_IndexAnnotation)"

section \<open>The config\<close>

record config_profile =
  cp_os :: bytes
  cp_architecture :: bytes
  cp_variant :: "bytes option"
  cp_diff_ids :: "bytes list"

definition CONFIG_ROOTFS :: bytes where "CONFIG_ROOTFS = ''rootfs''"
definition CONFIG_HISTORY :: bytes where "CONFIG_HISTORY = ''history''"
definition ROOTFS_TYPE :: bytes where "ROOTFS_TYPE = ''type''"
definition ROOTFS_LAYERS :: bytes where "ROOTFS_LAYERS = ''layers''"
definition ROOTFS_DIFF_IDS :: bytes where "ROOTFS_DIFF_IDS = ''diff_ids''"
definition HISTORY_EMPTY_LAYER :: bytes where "HISTORY_EMPTY_LAYER = ''empty_layer''"

definition refuse_config :: "invalid_config_reason \<Rightarrow> verdict" where
  "refuse_config reason = V_Invalid (IA_InvalidConfig reason)"

definition required_string :: "json_map \<Rightarrow> bytes \<Rightarrow> config_field \<Rightarrow> bytes checked" where
  "required_string members key f =
     (case obj_get key members of
        None \<Rightarrow> Inl (refuse_config (IC_MissingField f))
      | Some (JStr v) \<Rightarrow> Inr v
      | Some _ \<Rightarrow> Inl (refuse_config (IC_FieldType f)))"

fun diff_ids_of :: "nat \<Rightarrow> json list \<Rightarrow> bytes list checked" where
  "diff_ids_of index [] = Inr []"
| "diff_ids_of index (v # vs) =
     (case as_str v of
        Some d \<Rightarrow>
          if is_digest d then bind_res (diff_ids_of (Suc index) vs) (\<lambda>ds. Inr (d # ds))
          else Inl (refuse_config (IC_DiffIdSyntax index))
      | None \<Rightarrow> Inl (refuse_config (IC_DiffIdSyntax index)))"

text \<open>How many entries of the history are layers.\<close>

fun history_layers :: "nat \<Rightarrow> json list \<Rightarrow> nat checked" where
  "history_layers index [] = Inr 0"
| "history_layers index (entry # entries) =
     bind_res
       (case map_option (obj_get HISTORY_EMPTY_LAYER) (as_object entry) of
          Some None \<Rightarrow> Inr False
        | Some (Some (JBool skipped)) \<Rightarrow> Inr skipped
        | _ \<Rightarrow> Inl (refuse_config (IC_HistoryEntryShape index))) (\<lambda>skipped.
     bind_res (history_layers (Suc index) entries) (\<lambda>n. Inr (if skipped then n else Suc n)))"

definition config_variant :: "json_map \<Rightarrow> bytes option checked" where
  "config_variant members =
     (case obj_get VARIANT members of
        None \<Rightarrow> Inr None
      | Some JNull \<Rightarrow> Inr None
      | Some (JStr variant) \<Rightarrow> if variant = [] then Inl (refuse_config IC_EmptyVariant) else Inr (Some variant)
      | Some _ \<Rightarrow> Inl (refuse_config (IC_FieldType CF_Variant)))"

definition config_profile_of :: "json \<Rightarrow> content_limits \<Rightarrow> config_profile checked" where
  "config_profile_of v limits =
     bind_res (ok_or (refuse_config IC_NotObject) (as_object v)) (\<lambda>members.
     bind_res (required_string members ARCHITECTURE CF_Architecture) (\<lambda>architecture.
     bind_res (required_string members OS_KEY CF_Os) (\<lambda>os.
     bind_res (config_variant members) (\<lambda>variant.
     bind_res
       (case obj_get CONFIG_ROOTFS members of
          None \<Rightarrow> Inl (refuse_config (IC_MissingField CF_Rootfs))
        | Some (JObj rootfs) \<Rightarrow> Inr rootfs
        | Some _ \<Rightarrow> Inl (refuse_config (IC_FieldType CF_Rootfs))) (\<lambda>rootfs.
     bind_res
       (case obj_get CONFIG_HISTORY members of
          None \<Rightarrow> Inr None
        | Some (JArr history) \<Rightarrow> Inr (Some history)
        | Some _ \<Rightarrow> Inl (refuse_config (IC_FieldType CF_History))) (\<lambda>history.
     case Option.bind (obj_get ROOTFS_DIFF_IDS rootfs) as_array of
       None \<Rightarrow> Inl (refuse_config IC_RootfsShape)
     | Some ids \<Rightarrow>
         if \<not> (length (obj_keys rootfs) = 2 \<and> get_str ROOTFS_TYPE rootfs = Some ROOTFS_LAYERS) then Inl (refuse_config IC_RootfsShape)
         else
           bind_res (check_count (length ids) limits LR_LayersPerImage) (\<lambda>_.
           bind_res (diff_ids_of 0 ids) (\<lambda>diff_ids.
           bind_res
             (case history of
                None \<Rightarrow> Inr ()
              | Some entries \<Rightarrow>
                  bind_res (history_layers 0 entries) (\<lambda>layers.
                  ensure (layers = length diff_ids) (refuse_config IC_HistoryLayerCount))) (\<lambda>_.
           Inr \<lparr>cp_os = os, cp_architecture = architecture, cp_variant = variant, cp_diff_ids = diff_ids\<rparr>)))))))))"

section \<open>Platforms\<close>

fun architecture_name :: "image_architecture \<Rightarrow> bytes" where
  "architecture_name Amd64 = ''amd64''"
| "architecture_name Arm64 = ''arm64''"

fun os_name :: "image_os \<Rightarrow> bytes" where
  "os_name Linux = ''linux''"

definition compare_platform ::
  "platform_location \<Rightarrow> bytes \<Rightarrow> bytes \<Rightarrow> bytes option \<Rightarrow> image_declaration \<Rightarrow> unit checked" where
  "compare_platform location os architecture variant declaration =
     (let declared_os = os_name (ip_os (id_platform declaration));
          declared_architecture = architecture_name (ip_architecture (id_platform declaration));
          declared_variant = ip_variant (id_platform declaration)
      in if os \<noteq> declared_os then Inl (V_Platform location PF_Os (Some declared_os) (Some os))
         else if architecture \<noteq> declared_architecture
           then Inl (V_Platform location PF_Architecture (Some declared_architecture) (Some architecture))
         else if variant \<noteq> declared_variant then Inl (V_Platform location PF_Variant declared_variant variant)
         else Inr ())"

definition compare_descriptor :: "platform_location \<Rightarrow> descriptor \<Rightarrow> image_declaration \<Rightarrow> unit checked" where
  "compare_descriptor location d declaration =
     (case de_platform d of
        None \<Rightarrow> Inr ()
      | Some p \<Rightarrow> compare_platform location (dp_os p) (dp_architecture p) (dp_variant p) declaration)"

fun compare_index :: "nat \<Rightarrow> descriptor list \<Rightarrow> image_declaration \<Rightarrow> unit checked" where
  "compare_index position [] declaration = Inr ()"
| "compare_index position (d # ds) declaration =
     bind_res (compare_descriptor (PL_IndexDescriptor position) d declaration) (\<lambda>_.
     compare_index (Suc position) ds declaration)"

definition platforms :: "config_profile \<Rightarrow> descriptor list \<Rightarrow> descriptor \<Rightarrow> image_declaration \<Rightarrow> unit checked" where
  "platforms config index config_descriptor declaration =
     bind_res (compare_platform PL_Config (cp_os config) (cp_architecture config) (cp_variant config) declaration) (\<lambda>_.
     bind_res (compare_index 0 index declaration) (\<lambda>_.
     compare_descriptor PL_ConfigDescriptor config_descriptor declaration))"

section \<open>The canonical manifest\<close>

fun stored_layers :: "(bytes \<times> blob) list \<Rightarrow> bytes list \<Rightarrow> (bytes \<times> u64) list option" where
  "stored_layers blobs [] = Some []"
| "stored_layers blobs (diff_id # ds) =
     Option.bind (strip_prefix SHA256_PREFIX diff_id) (\<lambda>hex.
     Option.bind (map_of blobs hex) (\<lambda>b.
     map_option (\<lambda>ls. (diff_id, sp_len (bl_span b)) # ls) (stored_layers blobs ds)))"

definition canonical_manifest :: "inventory \<Rightarrow> blob \<Rightarrow> bytes list \<Rightarrow> bytes \<Rightarrow> unit checked" where
  "canonical_manifest inventory config diff_ids stored =
     (let non_canonical = V_Unsupported UF_NonCanonicalManifest in
      case stored_layers (iv_blobs inventory) diff_ids of
        None \<Rightarrow> Inl non_canonical
      | Some layers \<Rightarrow>
          (case canonical_image_manifest (SHA256_PREFIX @ bl_sha256 config) (sp_len (bl_span config)) layers of
             Inl _ \<Rightarrow> Inl non_canonical
           | Inr canonical \<Rightarrow> ensure (stored = canonical) non_canonical))"

section \<open>LayerSources\<close>

fun layer_sources_at :: "json_map \<Rightarrow> (descriptor \<times> bytes) list \<Rightarrow> unit checked" where
  "layer_sources_at sources [] = Inr ()"
| "layer_sources_at sources ((d, diff_id) # rest) =
     bind_res (ok_or (V_Invalid IA_InconsistentLayerSources) (obj_get diff_id sources)) (\<lambda>v.
     bind_res (layer_source v d) (\<lambda>_. layer_sources_at sources rest))"

definition layer_sources :: "compatibility \<Rightarrow> descriptor list \<Rightarrow> bytes list \<Rightarrow> unit checked" where
  "layer_sources compatibility descriptors diff_ids =
     (case co_layer_sources compatibility of
        None \<Rightarrow> Inr ()
      | Some sources \<Rightarrow>
          if sources = [] then Inr ()
          else if set (obj_keys sources) \<noteq> set diff_ids then Inl (V_Invalid IA_InconsistentLayerSources)
          else layer_sources_at sources (zip descriptors diff_ids))"

end
