(* ===== verification/Gzip.thy ===== *)
theory Gzip
  imports Content_Correct Container
begin

text \<open>
  The single-member gzip decoder (\<open>src/content/gzip.rs\<close>). Inflation and the CRC are those of \<open>flate2\<close>, a parameter:
  \<open>decompress\<close> answers a chunk of input and the length of the output buffer with the status and the buffer as
  written, and its two totals say how much of each it took. A standard buffered reader is what it holds and the
  stored reader under it; a large read of an empty buffer goes past it.
\<close>

section \<open>What \<open>flate2\<close> does\<close>

record 'z codec =
  cd_decompress :: "'z \<Rightarrow> bytes \<Rightarrow> nat \<Rightarrow> (bool \<times> bytes) option \<times> 'z"
  cd_total_in :: "'z \<Rightarrow> u64"
  cd_total_out :: "'z \<Rightarrow> u64"
  cd_new :: 'z
  cd_crc32 :: "bytes \<Rightarrow> nat"

section \<open>A buffered reader\<close>

record 's buffered =
  br_capacity :: nat
  br_filled :: bytes
  br_inner :: "'s counting"

definition fill_buf :: "'s source \<Rightarrow> 's buffered \<Rightarrow> (content_fault + bytes) \<times> 's buffered" where
  "fill_buf rd b =
     (if br_filled b \<noteq> [] then (Inr (br_filled b), b)
      else
        case counting_read rd (br_capacity b) (br_inner b) of
          (Inl fault, r) \<Rightarrow> (Inl fault, b\<lparr>br_inner := r\<rparr>)
        | (Inr window, r) \<Rightarrow> (Inr window, b\<lparr>br_inner := r, br_filled := window\<rparr>))"

definition consume :: "nat \<Rightarrow> 's buffered \<Rightarrow> 's buffered" where
  "consume n b = b\<lparr>br_filled := drop n (br_filled b)\<rparr>"

definition buffered_read :: "'s source \<Rightarrow> nat \<Rightarrow> 's buffered \<Rightarrow> (content_fault + bytes) \<times> 's buffered" where
  "buffered_read rd k b =
     (if br_filled b = [] \<and> br_capacity b \<le> k then
        (case counting_read rd k (br_inner b) of (out, r) \<Rightarrow> (out, b\<lparr>br_inner := r\<rparr>))
      else
        case fill_buf rd b of
          (Inl fault, b') \<Rightarrow> (Inl fault, b')
        | (Inr window, b') \<Rightarrow> (Inr (take k window), consume (length (take k window)) b'))"

section \<open>The header\<close>

definition ID1 :: byte where "ID1 = CHR 0x1F"
definition ID2 :: byte where "ID2 = CHR 0x8B"
definition CM_DEFLATE :: byte where "CM_DEFLATE = CHR 0x08"

text \<open>The flags are single bits, the reserved ones the three highest.\<close>

definition flag_set :: "nat \<Rightarrow> byte \<Rightarrow> bool" where
  "flag_set b flags \<longleftrightarrow> odd (ord flags div b)"

definition FHCRC :: nat where "FHCRC = 0x02"
definition FEXTRA :: nat where "FEXTRA = 0x04"
definition FNAME :: nat where "FNAME = 0x08"
definition FCOMMENT :: nat where "FCOMMENT = 0x10"
definition reserved_flags :: "byte \<Rightarrow> bool" where "reserved_flags flags \<longleftrightarrow> 0x20 \<le> ord flags"
definition EXTRA_CHUNK :: nat where "EXTRA_CHUNK = 512"

record 's header_reader =
  hr_stored :: "'s counting"
  hr_budget :: budget
  hr_crc :: bytes

text \<open>A field reader of \<open>n\<close> bytes: the allowance is checked before anything is read.\<close>

definition read_into :: "'s source \<Rightarrow> nat \<Rightarrow> 's header_reader \<Rightarrow> (content_fault + bytes) \<times> 's header_reader" where
  "read_into rd n h =
     (let len = widen n in
      case budget_check len (hr_budget h) of
        Inl fault \<Rightarrow> (Inl fault, h)
      | Inr _ \<Rightarrow>
          (case read_full (counting_read rd) n (hr_stored h) of
             (Inl fault, r) \<Rightarrow> (Inl fault, h\<lparr>hr_stored := r\<rparr>)
           | (Inr field, r) \<Rightarrow>
               (case budget_charge len (hr_budget h) of
                  Inl fault \<Rightarrow> (Inl fault, h\<lparr>hr_stored := r\<rparr>)
                | Inr b \<Rightarrow> (Inr field, h\<lparr>hr_stored := r, hr_budget := b, hr_crc := hr_crc h @ field\<rparr>))))"

text \<open>
  \<open>skip_from\<close>: the chunks of \<open>skip\<close>. The copy buffer of a decoder is never zero (\<open>gzip_new\<close>); with none, no
  chunk would ever be taken and nothing is modelled.
\<close>

function skip_from :: "'s source \<Rightarrow> nat \<Rightarrow> u64 \<Rightarrow> 's header_reader \<Rightarrow> (content_fault + unit) \<times> 's header_reader" where
  "skip_from rd copy_buffer left h =
     (if left = 0 \<or> copy_buffer = 0 then (Inr (), h)
      else
        let chunk = chunk_len (min EXTRA_CHUNK copy_buffer) left in
        case read_into rd chunk h of
          (Inl fault, h') \<Rightarrow> (Inl fault, h')
        | (Inr _, h') \<Rightarrow> skip_from rd copy_buffer (saturating_sub left (widen chunk)) h')"
  by pat_completeness auto
termination
proof (relation "measure (\<lambda>(_, _, left, _). unat left)", goal_cases)
  case (2 rd copy_buffer left h chunk out h' field)
  then have "0 < unat left" "0 < copy_buffer" by (auto simp: unat_gt_0)
  moreover have "chunk = min (unat left) (min 512 copy_buffer)" using 2 by (simp add: chunk_len_def EXTRA_CHUNK_def)
  ultimately have "0 < chunk" "chunk \<le> 512" by auto
  then have "0 < unat (widen chunk)" by (simp add: widen_def)
  then show ?case using \<open>0 < unat left\<close> by simp
qed simp

declare skip_from.simps [simp del]

definition header_skip :: "'s source \<Rightarrow> u64 \<Rightarrow> nat \<Rightarrow> 's header_reader \<Rightarrow> (content_fault + unit) \<times> 's header_reader" where
  "header_skip rd len copy_buffer h =
     (case budget_check len (hr_budget h) of Inl fault \<Rightarrow> (Inl fault, h) | Inr _ \<Rightarrow> skip_from rd copy_buffer len h)"

text \<open>One byte at a time; each takes one from the allowance.\<close>

function skip_zero_terminated :: "'s source \<Rightarrow> 's header_reader \<Rightarrow> (content_fault + unit) \<times> 's header_reader" where
  "skip_zero_terminated rd h =
     (case read_into rd 1 h of
        (Inl fault, h') \<Rightarrow> (Inl fault, h')
      | (Inr field, h') \<Rightarrow> if field = [CHR 0x00] then (Inr (), h') else skip_zero_terminated rd h')"
  by pat_completeness auto
termination
proof (relation "measure (\<lambda>(_, h). unat (budget_remaining (hr_budget h)))", goal_cases)
  case (2 rd h out h' field)
  then obtain b where b: "budget_check 1 (hr_budget h) = Inr ()" "budget_charge 1 (hr_budget h) = Inr b" "hr_budget h' = b"
    by (auto simp: read_into_def Let_def widen_def u64_of_def split: sum.splits prod.splits)
  have "1 \<le> budget_remaining (hr_budget h)" using b(1) by (auto simp: budget_check_def split: if_splits)
  then have gt: "0 < unat (budget_remaining (hr_budget h))" by (simp add: word_le_nat_alt)
  obtain used where used: "checked_add (bg_used (hr_budget h)) 1 = Some used" "b = (hr_budget h)\<lparr>bg_used := used\<rparr>"
    using b(2) by (auto simp: budget_charge_def b(1) ok_or_def split: option.splits)
  then have "unat used = unat (bg_used (hr_budget h)) + 1" by (simp add: checked_add_Some)
  then show ?case using gt b(3) used(2) by (simp add: budget_remaining_def)
qed simp

declare skip_zero_terminated.simps [simp del]

definition header_fault :: "content_gzip_fault \<Rightarrow> content_fault" where
  "header_fault fault = Malformed (MR_GzipHeader fault)"

text \<open>The steps of the header: a fault ends it.\<close>

fun header_then :: "('e + 'a) \<times> 'h \<Rightarrow> ('a \<Rightarrow> 'h \<Rightarrow> ('e + 'b) \<times> 'h) \<Rightarrow> ('e + 'b) \<times> 'h" where
  "header_then (Inl e, h) f = (Inl e, h)"
| "header_then (Inr x, h) f = f x h"

definition header_tail :: "'z codec \<Rightarrow> 's source \<Rightarrow> byte \<Rightarrow> nat \<Rightarrow> 's header_reader \<Rightarrow> (content_fault + unit) \<times> 's header_reader" where
  "header_tail cd rd flags copy_buffer h =
     header_then
       (if flag_set FEXTRA flags then
          header_then (read_into rd 2 h) (\<lambda>xlen h. header_skip rd (u64_of (le_val xlen)) copy_buffer h)
        else (Inr (), h)) (\<lambda>_ h.
     header_then (if flag_set FNAME flags then skip_zero_terminated rd h else (Inr (), h)) (\<lambda>_ h.
     header_then (if flag_set FCOMMENT flags then skip_zero_terminated rd h else (Inr (), h)) (\<lambda>_ h.
     if flag_set FHCRC flags then
       (let expected = take 2 (le_bytes 4 (cd_crc32 cd (hr_crc h))) in
        header_then (read_into rd 2 h) (\<lambda>recorded h.
        if recorded \<noteq> expected then (Inl (header_fault HeaderCrc), h) else (Inr (), h)))
     else (Inr (), h))))"

definition header_fields :: "'z codec \<Rightarrow> 's source \<Rightarrow> nat \<Rightarrow> 's header_reader \<Rightarrow> (content_fault + unit) \<times> 's header_reader" where
  "header_fields cd rd copy_buffer h =
     header_then (read_into rd 1 h) (\<lambda>id1 h.
     if id1 \<noteq> [ID1] then (Inl (header_fault HeaderMagic), h)
     else
       header_then (read_into rd 1 h) (\<lambda>id2 h.
       if id2 \<noteq> [ID2] then (Inl (header_fault HeaderMagic), h)
       else
         header_then (read_into rd 1 h) (\<lambda>cm h.
         if cm \<noteq> [CM_DEFLATE] then (Inl (header_fault HeaderMethod), h)
         else
           header_then (read_into rd 1 h) (\<lambda>flags h.
           if reserved_flags (hd flags) then (Inl (header_fault HeaderReservedFlags), h)
           else
             header_then (read_into rd 4 h) (\<lambda>_ h.
             header_then (read_into rd 1 h) (\<lambda>_ h.
             header_then (read_into rd 1 h) (\<lambda>_ h.
             header_tail cd rd (hd flags) copy_buffer h)))))))"

text \<open>\<open>read_header\<close>: the stored reader and the budget are given back as they were left.\<close>

definition gzip_header :: "'z codec \<Rightarrow> 's source \<Rightarrow> 's counting \<Rightarrow> budget \<Rightarrow> nat \<Rightarrow> (content_fault + unit) \<times> 's counting \<times> budget" where
  "gzip_header cd rd stored budget copy_buffer =
     (case header_fields cd rd copy_buffer \<lparr>hr_stored = stored, hr_budget = budget, hr_crc = []\<rparr> of
        (out, h) \<Rightarrow> (out, hr_stored h, hr_budget h))"

section \<open>The body\<close>

text \<open>\<open>inflate\<close>, turn by turn. The value is the bytes produced, none only at the end of the stream.\<close>

definition taken :: "u64 \<Rightarrow> u64 \<Rightarrow> nat option" where
  "taken after before = (if before \<le> after then Some (unat (after - before)) else None)"

record ('s, 'z) inflating =
  in_body :: "'s buffered"
  in_inflate :: 'z
  in_crc :: bytes
  in_ended :: bool

definition deflate_fault :: content_fault where "deflate_fault = Malformed MR_DeflateData"

text \<open>One turn: the loop is left with a value or a fault, or goes on.\<close>

definition inflate_turn ::
  "'z codec \<Rightarrow> 's source \<Rightarrow> nat \<Rightarrow> ('s, 'z) inflating \<Rightarrow> (content_fault + bytes option) \<times> ('s, 'z) inflating" where
  "inflate_turn cd rd out_len i =
     (case fill_buf rd (in_body i) of
        (Inl fault, body) \<Rightarrow> (Inl fault, i\<lparr>in_body := body\<rparr>)
      | (Inr input, body) \<Rightarrow>
          let i = i\<lparr>in_body := body\<rparr>; z = in_inflate i in
          case cd_decompress cd z input out_len of
            (None, z') \<Rightarrow> (Inl deflate_fault, i\<lparr>in_inflate := z'\<rparr>)
          | (Some (stream_end, out), z') \<Rightarrow>
              let i = i\<lparr>in_inflate := z'\<rparr> in
              case (taken (cd_total_in cd z') (cd_total_in cd z), taken (cd_total_out cd z') (cd_total_out cd z)) of
                (Some consumed, Some produced) \<Rightarrow>
                  let i = i\<lparr>in_body := consume consumed (in_body i)\<rparr> in
                  if length out < produced then (Inl deflate_fault, i)
                  else
                    let i = i\<lparr>in_crc := in_crc i @ take produced out, in_ended := in_ended i \<or> stream_end\<rparr> in
                    if 0 < produced then (Inr (Some (take produced out)), i)
                    else if in_ended i then (Inr (Some []), i)
                    else if input = [] then (Inl (Malformed MR_Truncated), i)
                    else if consumed = 0 then (Inl deflate_fault, i)
                    else (Inr None, i)
              | _ \<Rightarrow> (Inl deflate_fault, i))"

text \<open>A turn that goes on has taken input, so the turns are bounded by what is buffered and what is left to read.\<close>

definition body_left :: "'s buffered \<Rightarrow> nat" where
  "body_left b = length (br_filled b) + unat (counting_remaining (br_inner b))"

lemma counting_read_shrinks:
  assumes "counting_read rd k r = (Inr w, r')"
  shows "length w + unat (counting_remaining r') \<le> unat (counting_remaining r)"
proof (cases "chain_ok r")
  case True
  note spent = counting_read_spends [OF True assms]
  obtain b where b: "b \<in> set (chain r)" "counting_remaining r = budget_remaining b" using remaining_is by blast
  have "unat (counting_remaining r') \<le> unat (budget_remaining (spend (length w) b))"
    using remaining_le [of _ r'] spent(1) b(1) by simp
  also have "\<dots> = unat (counting_remaining r) - length w"
    using spend_chain(1) [OF True spent(3) b(1)] b(2) by (simp add: unat_budget_remaining)
  finally show ?thesis using spent(3) by simp
next
  case False
  then obtain b where b: "b \<in> set (chain r)" "\<not> budget_ok b" by (auto simp: chain_ok_def list_all_iff)
  then have "budget_remaining b = 0" by (simp add: budget_ok_def budget_remaining_def saturating_sub_def)
  then have none: "counting_remaining r = 0" using remaining_le [OF b(1)] by (simp add: word_unat_eq_iff)
  have "w = [] \<and> chain r' = chain r"
    using assms none by (auto simp: counting_read_def read_counted_def chain_def split: sum.splits prod.splits if_splits)
  then show ?thesis by (simp add: counting_remaining_def)
qed

lemma fill_buf_shrinks:
  "fill_buf rd b = (Inr input, b') \<Longrightarrow> body_left b' \<le> body_left b \<and> br_filled b' = input"
  using counting_read_shrinks [of rd "br_capacity b" "br_inner b"]
  by (fastforce simp: fill_buf_def body_left_def split: if_splits sum.splits prod.splits)

lemma inflate_turn_shrinks:
  assumes "inflate_turn cd rd out_len i = (Inr None, i')"
  shows "body_left (in_body i') < body_left (in_body i)"
proof -
  obtain input body where fill: "fill_buf rd (in_body i) = (Inr input, body)"
    using assms by (cases "fill_buf rd (in_body i)"; cases "fst (fill_buf rd (in_body i))") (auto simp: inflate_turn_def)
  note left = fill_buf_shrinks [OF fill]
  obtain z' stream_end out where d: "cd_decompress cd (in_inflate i) input out_len = (Some (stream_end, out), z')"
    using assms fill
    by (cases "cd_decompress cd (in_inflate i) input out_len"; cases "fst (cd_decompress cd (in_inflate i) input out_len)")
       (auto simp: inflate_turn_def Let_def)
  obtain consumed where "in_body i' = consume consumed body" "0 < consumed" "input \<noteq> []"
    using assms fill d by (auto simp: inflate_turn_def Let_def split: option.splits if_splits)
  then show ?thesis using left by (cases input) (auto simp: body_left_def consume_def)
qed

function inflate ::
  "'z codec \<Rightarrow> 's source \<Rightarrow> nat \<Rightarrow> ('s, 'z) inflating \<Rightarrow> (content_fault + bytes) \<times> ('s, 'z) inflating" where
  "inflate cd rd out_len i =
     (if in_ended i then (Inr [], i)
      else
        case inflate_turn cd rd out_len i of
          (Inl fault, i') \<Rightarrow> (Inl fault, i')
        | (Inr (Some produced), i') \<Rightarrow> (Inr produced, i')
        | (Inr None, i') \<Rightarrow> inflate cd rd out_len i')"
  by pat_completeness auto
termination
  by (relation "measure (\<lambda>(_, _, _, i). body_left (in_body i))") (auto dest: inflate_turn_shrinks [OF sym])

declare inflate.simps [simp del]

section \<open>The trailer\<close>

definition verify_trailer ::
  "'z codec \<Rightarrow> 's source \<Rightarrow> bytes \<Rightarrow> u64 \<Rightarrow> 's buffered \<Rightarrow> (content_fault + unit) \<times> 's buffered" where
  "verify_trailer cd rd crc decoded body =
     header_then (read_full (buffered_read rd) 8 body) (\<lambda>trailer body.
     if take 4 trailer \<noteq> le_bytes 4 (cd_crc32 cd crc) then (Inl (Malformed MR_GzipCrc32), body)
     else if drop 4 trailer \<noteq> take 4 (to_le_bytes decoded) then (Inl (Malformed MR_GzipIsize), body)
     else
       header_then (buffered_read rd 1 body) (\<lambda>probe body.
       if probe = [] then (Inr (), body)
       else if probe \<noteq> [ID1] then (Inl (Malformed MR_GzipTrailingData), body)
       else
         header_then (buffered_read rd 1 body) (\<lambda>probe body.
         if probe = [ID2] then (Inl (Unsupported UN_ConcatenatedGzipMember), body)
         else (Inl (Malformed MR_GzipTrailingData), body))))"

section \<open>The decoder\<close>

text \<open>A finished decoder keeps the stored reader, so that what it borrowed can be given back.\<close>

datatype 's stage = StageHeader "'s counting" | StageBody "'s buffered" | StageFinished "'s counting"

record ('s, 'z) gzip =
  gz_stage :: "'s stage"
  gz_header :: budget
  gz_copy_buffer :: nat
  gz_inflate :: 'z
  gz_crc :: bytes
  gz_stream_ended :: bool
  gz_latch :: latch

definition gzip_new :: "'z codec \<Rightarrow> 's counting \<Rightarrow> resource_limit \<Rightarrow> nat \<Rightarrow> ('s, 'z) gzip" where
  "gzip_new cd stored header copy_buffer =
     \<lparr>gz_stage = StageHeader stored, gz_header = budget_new header, gz_copy_buffer = max copy_buffer 1,
      gz_inflate = cd_new cd, gz_crc = [], gz_stream_ended = False, gz_latch = None\<rparr>"

text \<open>\<open>decode_body\<close>: what \<open>decode\<close> does in the body stage.\<close>

definition decode_body ::
  "'z codec \<Rightarrow> 's source \<Rightarrow> nat \<Rightarrow> 's buffered \<Rightarrow> ('s, 'z) gzip \<Rightarrow> (content_fault + bytes) \<times> ('s, 'z) gzip" where
  "decode_body cd rd out_len body g =
     (case inflate cd rd out_len
             \<lparr>in_body = body, in_inflate = gz_inflate g, in_crc = gz_crc g, in_ended = gz_stream_ended g\<rparr> of
        (out, i) \<Rightarrow>
          let g = g\<lparr>gz_stage := StageBody (in_body i), gz_inflate := in_inflate i, gz_crc := in_crc i,
                    gz_stream_ended := in_ended i\<rparr> in
          case out of
            Inl fault \<Rightarrow> (Inl fault, g)
          | Inr produced \<Rightarrow>
              if produced \<noteq> [] then (Inr produced, g)
              else
                case verify_trailer cd rd (gz_crc g) (cd_total_out cd (gz_inflate g)) (in_body i) of
                  (Inl fault, body) \<Rightarrow> (Inl fault, g\<lparr>gz_stage := StageBody body\<rparr>)
                | (Inr _, body) \<Rightarrow> (Inr [], g\<lparr>gz_stage := StageFinished (br_inner body)\<rparr>))"

definition decode :: "'z codec \<Rightarrow> 's source \<Rightarrow> ('s, 'z) gzip source" where
  "decode cd rd out_len g =
     (if out_len = 0 then (Inr [], g)
      else
        case gz_stage g of
          StageHeader stored \<Rightarrow>
            (case gzip_header cd rd stored (gz_header g) (gz_copy_buffer g) of
               (Inl fault, stored, b) \<Rightarrow> (Inl fault, g\<lparr>gz_stage := StageHeader stored, gz_header := b\<rparr>)
             | (Inr _, stored, b) \<Rightarrow>
                 decode_body cd rd out_len \<lparr>br_capacity = gz_copy_buffer g, br_filled = [], br_inner = stored\<rparr>
                   (g\<lparr>gz_header := b\<rparr>))
        | StageBody body \<Rightarrow> decode_body cd rd out_len body g
        | StageFinished stored \<Rightarrow> (Inr [], g))"

definition gzip_read :: "'z codec \<Rightarrow> 's source \<Rightarrow> ('s, 'z) gzip source" where
  "gzip_read cd rd out_len g =
     (case latch_check (gz_latch g) of
        Inl fault \<Rightarrow> (Inl fault, g)
      | Inr _ \<Rightarrow>
          (case decode cd rd out_len g of
             (Inl fault, g') \<Rightarrow> (Inl fault, g'\<lparr>gz_latch := latch_record fault (gz_latch g')\<rparr>)
           | (Inr produced, g') \<Rightarrow> (Inr produced, g')))"

text \<open>The stored reader, in whatever form the stage holds it.\<close>

definition gzip_stored :: "('s, 'z) gzip \<Rightarrow> 's counting" where
  "gzip_stored g =
     (case gz_stage g of StageHeader stored \<Rightarrow> stored | StageBody body \<Rightarrow> br_inner body | StageFinished stored \<Rightarrow> stored)"

end
