(* ===== verification/Image_Archive.thy ===== *)
theory Image_Archive
  imports Image_Checks Gzip Tar_Stream Json_Scan Utf8
begin

text \<open>
  The validation of an image archive (\<open>src/image/archive.rs\<close>): the readers it stacks, the raw inventory, the
  documents, the layers, and the nine phases in their order. A source is what it answers to a read and to a seek;
  SHA-256, inflation and the deserializer are parameters. A hasher is the bytes it was fed. What a reader borrows
  is taken out of it again once it is dropped.
\<close>

section \<open>What is read and with what\<close>

record ('s, 'z) archive_env =
  ae_read :: "'s source"
  ae_seek :: "u64 \<Rightarrow> 's \<Rightarrow> (bytes + unit) \<times> 's"
  ae_crypto :: crypto
  ae_codec :: "'z codec"
  ae_json :: "bytes \<Rightarrow> json option"

text \<open>Steps that may end in a verdict; the value is \<open>None\<close> only where a loop would not end.\<close>

type_synonym ('x, 'a) act = "'x \<Rightarrow> ('a checked \<times> 'x) option"

definition act_then :: "('x, 'a) act \<Rightarrow> ('a \<Rightarrow> ('x, 'b) act) \<Rightarrow> ('x, 'b) act" where
  "act_then m f x =
     (case m x of
        None \<Rightarrow> None
      | Some (Inl v, x') \<Rightarrow> Some (Inl v, x')
      | Some (Inr a, x') \<Rightarrow> f a x')"

definition act_check :: "'a checked \<Rightarrow> ('x, 'a) act" where
  "act_check r x = Some (r, x)"

section \<open>Readers\<close>

definition PROBE_LEN :: nat where "PROBE_LEN = 4"
definition GZIP_MAGIC :: bytes where "GZIP_MAGIC = [CHR 0x1F, CHR 0x8B]"
definition ZSTD_MAGIC :: bytes where "ZSTD_MAGIC = [CHR 0x28, CHR 0xB5, CHR 0x2F, CHR 0xFD]"

record 'r replay =
  rp_prefix :: bytes
  rp_len :: nat
  rp_served :: nat
  rp_rest :: 'r

definition replay_pending :: "'r replay \<Rightarrow> bytes" where
  "replay_pending r = drop (rp_served r) (take (rp_len r) (rp_prefix r))"

definition replay_read :: "'r source \<Rightarrow> 'r replay source" where
  "replay_read rd k r =
     (let pending = replay_pending r in
      if pending = [] then (case rd k (rp_rest r) of (out, rest) \<Rightarrow> (out, r\<lparr>rp_rest := rest\<rparr>))
      else (Inr (take k pending), r\<lparr>rp_served := rp_served r + min (length pending) k\<rparr>))"

record 's range =
  rg_source :: 's
  rg_remaining :: u64

definition range_new :: "'s \<Rightarrow> u64 \<Rightarrow> 's range" where
  "range_new source len = \<lparr>rg_source = source, rg_remaining = len\<rparr>"

definition range_read :: "'s source \<Rightarrow> 's range source" where
  "range_read rd k r =
     (if rg_remaining r = 0 \<or> k = 0 then (Inr [], r)
      else
        case rd (chunk_len k (rg_remaining r)) (rg_source r) of
          (Inl fault, s) \<Rightarrow> (Inl fault, r\<lparr>rg_source := s\<rparr>)
        | (Inr window, s) \<Rightarrow>
            if window = [] then (Inl (ContentIo ''UnexpectedEof''), r\<lparr>rg_source := s\<rparr>)
            else (Inr window, \<lparr>rg_source = s, rg_remaining = saturating_sub (rg_remaining r) (widen (length window))\<rparr>))"

record 'r tee =
  ht_inner :: 'r
  ht_hashed :: bytes

definition tee_read :: "'r source \<Rightarrow> 'r tee source" where
  "tee_read rd k t =
     (case rd k (ht_inner t) of
        (Inl fault, r) \<Rightarrow> (Inl fault, t\<lparr>ht_inner := r\<rparr>)
      | (Inr window, r) \<Rightarrow> (Inr window, \<lparr>ht_inner = r, ht_hashed = ht_hashed t @ window\<rparr>))"

record 'r origin =
  og_decoder :: 'r
  og_faulted :: bool

definition origin_read :: "'r source \<Rightarrow> 'r origin source" where
  "origin_read rd k g =
     (case rd k (og_decoder g) of
        (Inl fault, r) \<Rightarrow> (Inl fault, \<lparr>og_decoder = r, og_faulted = True\<rparr>)
      | (Inr window, r) \<Rightarrow> (Inr window, g\<lparr>og_decoder := r\<rparr>))"

section \<open>The raw inventory\<close>

function probe_from :: "'r source \<Rightarrow> bytes \<Rightarrow> 'r \<Rightarrow> bytes checked \<times> 'r" where
  "probe_from rd got r =
     (if PROBE_LEN \<le> length got then (Inr got, r)
      else
        case rd (PROBE_LEN - length got) r of
          (Inl fault, r') \<Rightarrow> (Inl (convert fault ImageWalk), r')
        | (Inr window, r') \<Rightarrow> if window = [] then (Inr got, r') else probe_from rd (got @ window) r')"
  by pat_completeness auto
termination by (relation "measure (\<lambda>(_, got, _). PROBE_LEN - length got)") (auto simp: neq_Nil_conv)

declare probe_from.simps [simp del]

definition probe :: "'r source \<Rightarrow> 'r \<Rightarrow> bytes checked \<times> 'r" where
  "probe rd r =
     (case probe_from rd [] r of
        (Inl v, r') \<Rightarrow> (Inl v, r')
      | (Inr probed, r') \<Rightarrow>
          if prefix GZIP_MAGIC probed \<or> prefix ZSTD_MAGIC probed
          then (Inl (V_Unsupported UF_CompressedOuterStream), r')
          else (Inr probed, r'))"

lemma entry_read_takes:
  assumes "entry_read rd k w = (Inr window, w')" and "window \<noteq> []"
  shows "unat (wk_unread_data w') < unat (wk_unread_data w)"
proof -
  have "read_data rd k w = (Inr window, w')"
    using assms(1) by (auto simp: entry_read_def latch_check_def split: option.splits sum.splits prod.splits)
  then have left: "wk_unread_data w \<noteq> 0"
    "wk_unread_data w' = saturating_sub (wk_unread_data w) (widen (length window))"
    using assms(2)
    by (auto simp: read_data_def with_source_def split: if_splits prod.splits elim!: step_then.elims)
  moreover have "0 < unat (widen (length window))"
    using assms(2) by (auto simp: widen_def unsigned_minus_1_eq_mask mask_eq_exp_minus_1)
  ultimately show ?thesis by (simp add: unat_gt_0)
qed

text \<open>\<open>hash_data\<close>: the bytes hashed, to the end of the entry.\<close>

function hash_data :: "'s source \<Rightarrow> nat \<Rightarrow> bytes \<Rightarrow> 's walker \<Rightarrow> (content_fault + bytes) \<times> 's walker" where
  "hash_data rd buffer hashed w =
     (case entry_read rd buffer w of
        (Inl fault, w') \<Rightarrow> (Inl fault, w')
      | (Inr window, w') \<Rightarrow> if window = [] then (Inr hashed, w') else hash_data rd buffer (hashed @ window) w')"
  by pat_completeness auto
termination
  by (relation "measure (\<lambda>(_, _, _, w). unat (wk_unread_data w))") (auto dest: entry_read_takes [OF sym])

declare hash_data.simps [simp del]

fun layout_slot :: "layout_file \<Rightarrow> nat" where
  "layout_slot LF_OciLayout = 0"
| "layout_slot LF_Index = 1"
| "layout_slot LF_CompatibilityManifest = 2"

record inventorying =
  in_deferred :: "unsupported_archive_feature option"
  in_layout :: "span option list"
  in_blobs :: "(bytes \<times> blob) list"
  in_entries :: "recorded_entry list"

definition inventory_start :: inventorying where
  "inventory_start = \<lparr>in_deferred = None, in_layout = [None, None, None], in_blobs = [], in_entries = []\<rparr>"

definition recorded :: "bytes \<Rightarrow> tar_entry \<Rightarrow> recorded_entry" where
  "recorded name e =
     \<lparr>re_name = name, re_header_offset = te_header_offset e, re_data_offset = te_data_offset e, re_data_len = te_data_len e\<rparr>"

definition insert_blob :: "bytes \<Rightarrow> blob \<Rightarrow> (bytes \<times> blob) list \<Rightarrow> (bytes \<times> blob) list" where
  "insert_blob hex b blobs = (hex, b) # filter (\<lambda>(h, _). h \<noteq> hex) blobs"

definition inventory_entry ::
  "'s source \<Rightarrow> crypto \<Rightarrow> nat \<Rightarrow> tar_entry \<Rightarrow> inventorying \<Rightarrow> 's walker \<Rightarrow> inventorying checked \<times> 's walker" where
  "inventory_entry rd cr copy_buffer e i w =
     (if in_deferred i \<noteq> None then (Inr i, w)
      else
        let name = canonical_name e in
        if \<not> is_utf8 name then (Inr (i\<lparr>in_deferred := Some UF_ExtraFile\<rparr>), w)
        else
          let span = \<lparr>sp_offset = te_data_offset e, sp_len = te_data_len e\<rparr>;
              entries = in_entries i @ [recorded name e]
          in case classify_entry name (te_kind e) of
               ClassDeferred feature \<Rightarrow> (Inr (i\<lparr>in_deferred := Some feature\<rparr>), w)
             | ClassDirectory \<Rightarrow> (Inr i, w)
             | ClassLayout which \<Rightarrow>
                 (Inr (i\<lparr>in_layout := (in_layout i)[layout_slot which := Some span], in_entries := entries\<rparr>), w)
             | ClassBlob \<Rightarrow>
                 (case hash_data rd copy_buffer [] w of
                    (Inl fault, w') \<Rightarrow> (Inl (convert fault ImageWalk), w')
                  | (Inr hashed, w') \<Rightarrow>
                      let hex = (case strip_prefix BLOB_PREFIX name of Some hex \<Rightarrow> hex | None \<Rightarrow> []) in
                      (Inr (i\<lparr>in_blobs := insert_blob hex \<lparr>bl_span = span, bl_sha256 = sha256_hex cr hashed\<rparr> (in_blobs i),
                              in_entries := entries\<rparr>), w')))"

text \<open>Each entry takes a block from the allowance of the source; \<open>fuel\<close> is one more than the allowance.\<close>

fun inventory_walk ::
  "nat \<Rightarrow> 's source \<Rightarrow> crypto \<Rightarrow> nat \<Rightarrow> inventorying \<Rightarrow> 's walker \<Rightarrow> (inventorying checked \<times> 's walker) option" where
  "inventory_walk 0 rd cr copy_buffer i w = None"
| "inventory_walk (Suc fuel) rd cr copy_buffer i w =
     (case next_entry rd w of
        None \<Rightarrow> None
      | Some (Inl fault, w') \<Rightarrow> Some (Inl (convert fault ImageWalk), w')
      | Some (Inr None, w') \<Rightarrow> Some (Inr i, w')
      | Some (Inr (Some e), w') \<Rightarrow>
          (case inventory_entry rd cr copy_buffer e i w' of
             (Inl v, w'') \<Rightarrow> Some (Inl v, w'')
           | (Inr i', w'') \<Rightarrow> inventory_walk fuel rd cr copy_buffer i' w''))"

definition inventory_of :: "inventorying \<Rightarrow> inventory checked" where
  "inventory_of i =
     (case in_deferred i of
        Some feature \<Rightarrow> Inl (V_Unsupported feature)
      | None \<Rightarrow>
          let missing = (\<lambda>which. V_Invalid (IA_MissingLayoutFile which));
              slot = (\<lambda>which. ok_or (missing which) (in_layout i ! layout_slot which)) in
          bind_res (slot LF_OciLayout) (\<lambda>oci_layout.
          bind_res (slot LF_Index) (\<lambda>index.
          bind_res (slot LF_CompatibilityManifest) (\<lambda>compatibility.
          Inr \<lparr>iv_oci_layout = oci_layout, iv_index = index, iv_compatibility = compatibility, iv_blobs = in_blobs i,
               iv_entries = in_entries i\<rparr>))))"

definition image_walker :: "'s counting \<Rightarrow> bytes \<Rightarrow> content_limits \<Rightarrow> nat \<Rightarrow> 's counting replay walker" where
  "image_walker counter probed limits copy_buffer =
     (let replay = \<lparr>rp_prefix = probed, rp_len = length probed, rp_served = 0, rp_rest = counter\<rparr>;
          mirror = counting_new replay (limits_resource_limit limits LR_ImageArchive) [] copy_buffer
      in walker_new mirror ImageArchive limits)"

definition raw_inventory :: "('s, 'z) archive_env \<Rightarrow> content_limits \<Rightarrow> nat \<Rightarrow> ('s, inventory) act" where
  "raw_inventory env limits copy_buffer s =
     (case ae_seek env 0 s of
        (Inl err, s) \<Rightarrow> Some (Inl (V_Io err), s)
      | (Inr _, s) \<Rightarrow>
          (case probe (counting_read (ae_read env))
                  (counting_new s (limits_resource_limit limits LR_ImageArchive) [] copy_buffer) of
             (Inl v, counter) \<Rightarrow> Some (Inl v, cr_source counter)
           | (Inr probed, counter) \<Rightarrow>
               let w = image_walker counter probed limits copy_buffer in
               map_option
                 (\<lambda>(out, w). (bind_res out inventory_of, cr_source (rp_rest (cr_source (wk_source w)))))
                 (inventory_walk (Suc (unat (counting_remaining (wk_source w))))
                    (replay_read (counting_read (ae_read env))) (ae_crypto env) copy_buffer inventory_start w)))"

section \<open>Documents\<close>

fun document_resource :: "image_document \<Rightarrow> limit_resource" where
  "document_resource IDoc_OciLayout = LR_OciLayout"
| "document_resource IDoc_Index = LR_IndexJson"
| "document_resource IDoc_CompatibilityManifest = LR_CompatibilityJson"
| "document_resource IDoc_ImageManifest = LR_ImageManifestJson"
| "document_resource IDoc_Config = LR_ConfigJson"

definition document_limit :: "content_limits \<Rightarrow> image_document \<Rightarrow> resource_limit" where
  "document_limit limits document = limits_resource_limit limits (document_resource document)"

record 's document_reader =
  dr_source :: 's
  dr_total :: budget

definition read_bytes ::
  "('s, 'z) archive_env \<Rightarrow> content_limits \<Rightarrow> nat \<Rightarrow> span \<Rightarrow> image_document \<Rightarrow> ('s document_reader, bytes) act" where
  "read_bytes env limits copy_buffer place document d =
     (case ae_seek env (sp_offset place) (dr_source d) of
        (Inl err, s) \<Rightarrow> Some (Inl (V_Io err), d\<lparr>dr_source := s\<rparr>)
      | (Inr _, s) \<Rightarrow>
          map_option
            (\<lambda>(out, r).
               (case out of Inl fault \<Rightarrow> Inl (convert fault (SiteDocument document)) | Inr doc \<Rightarrow> Inr doc,
                \<lparr>dr_source = rg_source (cr_source r), dr_total = hd (cr_shared r)\<rparr>))
            (read_bounded (range_read (ae_read env)) (range_new s (sp_len place)) (document_limit limits document)
               (dr_total d) copy_buffer))"

definition parse_document :: "('s, 'z) archive_env \<Rightarrow> content_limits \<Rightarrow> bytes \<Rightarrow> image_document \<Rightarrow> json checked" where
  "parse_document env limits bs document =
     (case parse_json (ae_json env) bs (document_limit limits document) (limits_resource_limit limits LR_JsonDepth) of
        Inl fault \<Rightarrow> Inl (convert fault (SiteDocument document))
      | Inr v \<Rightarrow> Inr v)"

definition read_document ::
  "('s, 'z) archive_env \<Rightarrow> content_limits \<Rightarrow> nat \<Rightarrow> span \<Rightarrow> image_document \<Rightarrow> ('s document_reader, json) act" where
  "read_document env limits copy_buffer place document =
     act_then (read_bytes env limits copy_buffer place document) (\<lambda>bs.
     act_check (parse_document env limits bs document))"

text \<open>Phase 5: the config's digest, its length, then its profile.\<close>

definition check_config ::
  "('s, 'z) archive_env \<Rightarrow> content_limits \<Rightarrow> nat \<Rightarrow> blob \<Rightarrow> descriptor \<Rightarrow> image_declaration \<Rightarrow>
   ('s document_reader, config_profile) act" where
  "check_config env limits copy_buffer b d declaration =
     (let actual = SHA256_PREFIX @ bl_sha256 b in
      act_then
        (act_check (ensure (actual = id_config_digest declaration) (V_ConfigDigest (id_config_digest declaration) actual)))
        (\<lambda>_.
      act_then (act_check (check_blob b d BR_Config)) (\<lambda>_.
      act_then (read_document env limits copy_buffer (bl_span b) IDoc_Config) (\<lambda>v.
      act_check (config_profile_of v limits)))))"

section \<open>Layers\<close>

record layer_budgets =
  lb_decoded :: budget
  lb_entries :: budget
  lb_extension_total :: budget

definition layer_budgets_new :: "content_limits \<Rightarrow> layer_budgets" where
  "layer_budgets_new limits =
     \<lparr>lb_decoded = budget_new (limits_resource_limit limits LR_DecodedLayersPerImage),
      lb_entries = budget_new (limits_resource_limit limits LR_LayerEntries),
      lb_extension_total = budget_new (limits_resource_limit limits LR_LayerExtensionTotal)\<rparr>"

fun walk_entries :: "nat \<Rightarrow> 's source \<Rightarrow> 's walker \<Rightarrow> ((content_fault + unit) \<times> 's walker) option" where
  "walk_entries 0 rd w = None"
| "walk_entries (Suc fuel) rd w =
     (case next_entry rd w of
        None \<Rightarrow> None
      | Some (Inl fault, w') \<Rightarrow> Some (Inl fault, w')
      | Some (Inr None, w') \<Rightarrow> Some (Inr (), w')
      | Some (Inr (Some _), w') \<Rightarrow> walk_entries fuel rd w')"

text \<open>The budgets as the walk left them.\<close>

definition budgets_after :: "'r walker \<Rightarrow> layer_budgets \<times> budget" where
  "budgets_after w =
     (let shared = cr_shared (wk_source w) in
      case wk_rules w of
        Layer r \<Rightarrow>
          (\<lparr>lb_decoded = shared ! 0, lb_entries = lr_entries r, lb_extension_total = lr_extension_total r\<rparr>, shared ! 1)
      | Image r \<Rightarrow> (\<lparr>lb_decoded = shared ! 0, lb_entries = ir_entries r, lb_extension_total = ir_entries r\<rparr>, shared ! 1))"

definition walk_layer ::
  "'r source \<Rightarrow> 'r \<Rightarrow> content_limits \<Rightarrow> nat \<Rightarrow> layer_budgets \<Rightarrow> budget \<Rightarrow>
   ((content_fault + unit) \<times> 'r \<times> layer_budgets \<times> budget) option" where
  "walk_layer rd decoded limits copy_buffer budgets operation =
     (let counter = counting_new decoded (limits_resource_limit limits LR_DecodedLayer) [lb_decoded budgets, operation] copy_buffer;
          w = walker_new counter (LayerPolicy (lb_entries budgets) (lb_extension_total budgets)) limits
      in map_option (\<lambda>(out, w). (out, cr_source (wk_source w), budgets_after w))
           (walk_entries (Suc (unat (counting_remaining counter))) rd w))"

definition hashed_layer :: "crypto \<Rightarrow> nat \<Rightarrow> bool \<Rightarrow> content_fault + unit \<Rightarrow> bytes \<Rightarrow> bytes checked" where
  "hashed_layer cr position decoder out hashed =
     (case out of Inl fault \<Rightarrow> Inl (convert fault (LayerWalk position decoder)) | Inr _ \<Rightarrow> Inr (sha256_hex cr hashed))"

record 's layering =
  ly_source :: 's
  ly_budgets :: layer_budgets
  ly_operation :: budget

definition decode_layer ::
  "('s, 'z) archive_env \<Rightarrow> content_limits \<Rightarrow> nat \<Rightarrow> span \<Rightarrow> bool \<Rightarrow> nat \<Rightarrow> ('s layering, bytes) act" where
  "decode_layer env limits copy_buffer place compressed position l =
     (case ae_seek env (sp_offset place) (ly_source l) of
        (Inl err, s) \<Rightarrow> Some (Inl (V_Io err), l\<lparr>ly_source := s\<rparr>)
      | (Inr _, s) \<Rightarrow>
          let stored = counting_new (range_new s (sp_len place)) (limits_resource_limit limits LR_StoredLayerBlob) [] copy_buffer;
              stored_read = counting_read (range_read (ae_read env))
          in if compressed then
               (let decoder = gzip_new (ae_codec env) stored (limits_resource_limit limits LR_GzipHeader) copy_buffer;
                    watched = \<lparr>og_decoder = decoder, og_faulted = False\<rparr>
                in map_option
                     (\<lambda>(out, t, budgets, operation).
                        (hashed_layer (ae_crypto env) position (og_faulted (ht_inner t)) out (ht_hashed t),
                         \<lparr>ly_source = rg_source (cr_source (gzip_stored (og_decoder (ht_inner t)))), ly_budgets = budgets,
                          ly_operation = operation\<rparr>))
                     (walk_layer (tee_read (origin_read (gzip_read (ae_codec env) (range_read (ae_read env)))))
                        \<lparr>ht_inner = watched, ht_hashed = []\<rparr> limits copy_buffer (ly_budgets l) (ly_operation l)))
             else
               map_option
                 (\<lambda>(out, t, budgets, operation).
                    (hashed_layer (ae_crypto env) position False out (ht_hashed t),
                     \<lparr>ly_source = rg_source (cr_source (ht_inner t)), ly_budgets = budgets, ly_operation = operation\<rparr>))
                 (walk_layer (tee_read stored_read) \<lparr>ht_inner = stored, ht_hashed = []\<rparr> limits copy_buffer
                    (ly_budgets l) (ly_operation l)))"

definition check_layer ::
  "('s, 'z) archive_env \<Rightarrow> content_limits \<Rightarrow> nat \<Rightarrow> inventory \<Rightarrow> nat \<Rightarrow> descriptor \<Rightarrow> bytes \<Rightarrow> ('s layering, unit) act" where
  "check_layer env limits copy_buffer inventory position d diff_id =
     act_then (act_check (ok_or (V_Invalid (IA_MissingBlob (BR_Layer position))) (map_of (iv_blobs inventory) (descriptor_hex d))))
       (\<lambda>b.
     act_then (act_check (ensure (sp_len (bl_span b) = de_size d) (V_Invalid (IA_BlobMismatch (BR_Layer position) BM_Length)))) (\<lambda>_.
     act_then
       (act_check (ensure (bl_sha256 b = descriptor_hex d)
          (V_Layer (Some position) LM_StoredDigest (Some (de_digest d)) (Some (SHA256_PREFIX @ bl_sha256 b))))) (\<lambda>_.
     act_then
       (decode_layer env limits copy_buffer (bl_span b) (de_media_type d = OCI_GZIP_LAYER_MEDIA_TYPE) position) (\<lambda>hex.
     let computed = SHA256_PREFIX @ hex in
     act_check (ensure (computed = diff_id) (V_Layer (Some position) LM_DiffId (Some diff_id) (Some computed)))))))"

fun check_layers ::
  "('s, 'z) archive_env \<Rightarrow> content_limits \<Rightarrow> nat \<Rightarrow> inventory \<Rightarrow> nat \<Rightarrow> (descriptor \<times> bytes) list \<Rightarrow> ('s layering, unit) act" where
  "check_layers env limits copy_buffer inventory position [] = act_check (Inr ())"
| "check_layers env limits copy_buffer inventory position ((d, diff_id) # rest) =
     act_then (check_layer env limits copy_buffer inventory position d diff_id) (\<lambda>_.
     check_layers env limits copy_buffer inventory (Suc position) rest)"

definition layers_phase ::
  "('s, 'z) archive_env \<Rightarrow> content_limits \<Rightarrow> nat \<Rightarrow> inventory \<Rightarrow> descriptor list \<Rightarrow> bytes list \<Rightarrow> bytes list \<Rightarrow> ('s layering, unit) act"
  where
  "layers_phase env limits copy_buffer inventory descriptors paths diff_ids =
     (if length paths \<noteq> length diff_ids then
        act_check (Inl (V_Layer None LM_CountMismatch (Some (dec (length diff_ids))) (Some (dec (length paths)))))
      else check_layers env limits copy_buffer inventory 0 (zip descriptors diff_ids))"

section \<open>The nine phases\<close>

record validated_image_archive =
  va_config_digest :: bytes
  va_manifest_digest :: bytes
  va_layer_count :: nat
  va_entries :: "recorded_entry list"

definition copy_buffer_len :: "content_limits \<Rightarrow> nat" where
  "copy_buffer_len limits = unat (limits_get limits LR_CopyBuffer)"

text \<open>Phases 2 to 6, over the document reader: what the phases after them need.\<close>

record examined =
  ex_manifest_descriptor :: descriptor
  ex_manifest_bytes :: bytes
  ex_compatibility :: compatibility
  ex_manifest :: image_manifest
  ex_config_blob :: blob
  ex_config :: config_profile

definition examine ::
  "('s, 'z) archive_env \<Rightarrow> content_limits \<Rightarrow> image_declaration \<Rightarrow> inventory \<Rightarrow> ('s document_reader, examined) act" where
  "examine env limits declaration inventory =
     (let cb = copy_buffer_len limits in
      act_then (read_document env limits cb (iv_oci_layout inventory) IDoc_OciLayout) (\<lambda>layout.
      act_then (act_check (oci_layout layout)) (\<lambda>_.
      act_then (read_document env limits cb (iv_index inventory) IDoc_Index) (\<lambda>index.
      act_then (act_check (index_of index limits)) (\<lambda>index.
      act_then (read_document env limits cb (iv_compatibility inventory) IDoc_CompatibilityManifest) (\<lambda>compatibility.
      act_then (act_check (compatibility_of compatibility limits)) (\<lambda>compatibility.
      act_then (act_check (case index of d # _ \<Rightarrow> Inr d | [] \<Rightarrow> Inl (shape IDoc_Index))) (\<lambda>manifest_descriptor.
      act_then
        (act_check (ok_or (V_Invalid (IA_MissingBlob BR_Manifest))
           (map_of (iv_blobs inventory) (descriptor_hex manifest_descriptor)))) (\<lambda>manifest_blob.
      act_then (act_check (check_blob manifest_blob manifest_descriptor BR_Manifest)) (\<lambda>_.
      act_then (read_bytes env limits cb (bl_span manifest_blob) IDoc_ImageManifest) (\<lambda>manifest_bytes.
      act_then (act_check (parse_document env limits manifest_bytes IDoc_ImageManifest)) (\<lambda>manifest.
      act_then (act_check (image_manifest_of manifest limits)) (\<lambda>manifest.
      act_then (act_check (compatibility_links inventory manifest_descriptor compatibility manifest)) (\<lambda>config_blob.
      act_then (act_check (repo_tags (co_repo_tags compatibility) declaration)) (\<lambda>_.
      act_then (act_check (index_annotations index declaration)) (\<lambda>_.
      act_then (check_config env limits cb config_blob (im_config manifest) declaration) (\<lambda>config.
      act_then (act_check (platforms config index (im_config manifest) declaration)) (\<lambda>_.
      act_check
        (Inr \<lparr>ex_manifest_descriptor = manifest_descriptor, ex_manifest_bytes = manifest_bytes,
              ex_compatibility = compatibility, ex_manifest = manifest, ex_config_blob = config_blob,
              ex_config = config\<rparr>)))))))))))))))))))"

definition validate ::
  "('s, 'z) archive_env \<Rightarrow> content_limits \<Rightarrow> image_declaration \<Rightarrow> ('s \<times> budget, validated_image_archive) act" where
  "validate env limits declaration =
     (\<lambda>(s, operation).
        let cb = copy_buffer_len limits in
        case raw_inventory env limits cb s of
          None \<Rightarrow> None
        | Some (Inl v, s) \<Rightarrow> Some (Inl v, s, operation)
        | Some (Inr inventory, s) \<Rightarrow>
            (case examine env limits declaration inventory
                    \<lparr>dr_source = s, dr_total = budget_new (limits_resource_limit limits LR_ImageJsonTotal)\<rparr> of
               None \<Rightarrow> None
             | Some (Inl v, d) \<Rightarrow> Some (Inl v, dr_source d, operation)
             | Some (Inr x, d) \<Rightarrow>
                 (case canonical_manifest inventory (ex_config_blob x) (cp_diff_ids (ex_config x)) (ex_manifest_bytes x) of
                    Inl v \<Rightarrow> Some (Inl v, dr_source d, operation)
                  | Inr _ \<Rightarrow>
                      map_option
                        (\<lambda>(out, l).
                           (bind_res out (\<lambda>_.
                            bind_res
                              (layer_sources (ex_compatibility x) (im_layers (ex_manifest x)) (cp_diff_ids (ex_config x))) (\<lambda>_.
                            Inr \<lparr>va_config_digest = SHA256_PREFIX @ bl_sha256 (ex_config_blob x),
                                 va_manifest_digest = de_digest (ex_manifest_descriptor x),
                                 va_layer_count = length (im_layers (ex_manifest x)),
                                 va_entries = iv_entries inventory\<rparr>)),
                            ly_source l, ly_operation l))
                        (layers_phase env limits cb inventory (im_layers (ex_manifest x)) (co_layers (ex_compatibility x))
                           (cp_diff_ids (ex_config x))
                           \<lparr>ly_source = dr_source d, ly_budgets = layer_budgets_new limits, ly_operation = operation\<rparr>))))"

definition validate_image_archive ::
  "('s, 'z) archive_env \<Rightarrow> image_declaration \<Rightarrow> bytes \<Rightarrow> content_limits \<Rightarrow> 's \<Rightarrow> budget \<Rightarrow>
   ((image_archive_fault + validated_image_archive) \<times> 's \<times> budget) option" where
  "validate_image_archive env declaration archive_path limits source operation_decoded =
     map_option
       (\<lambda>(out, rest). (case out of Inl v \<Rightarrow> Inl (into_fault archive_path v) | Inr a \<Rightarrow> Inr a, rest))
       (validate env limits declaration (source, operation_decoded))"

end
