(* ===== verification/Archive_Sources.thy ===== *)
theory Archive_Sources
  imports Image_Archive Tar_Entries
begin

text \<open>
  The readers an image archive is read through keep the contract of a source: the replay of the probed bytes, the
  range of one recorded entry, the hashing reader. What is read through them is then exactly the bytes they stand for.
\<close>

section \<open>A recorded range\<close>

text \<open>A range ends after its length, or in a fault where the source under it ends first.\<close>

definition range_stream :: "('s \<Rightarrow> stream) \<Rightarrow> 's range \<Rightarrow> stream" where
  "range_stream v r =
     (case v (rg_source r) of
        (c, e) \<Rightarrow>
          if unat (rg_remaining r) \<le> length c then (take (unat (rg_remaining r)) c, None)
          else (c, Some (case e of None \<Rightarrow> ContentIo ''UnexpectedEof'' | Some fault \<Rightarrow> fault)))"

definition range_good :: "('s \<Rightarrow> bool) \<Rightarrow> 's range \<Rightarrow> bool" where
  "range_good good r \<longleftrightarrow> good (rg_source r)"

lemma stream_off_0 [simp]: "stream_off 0 s = s"
  by (cases s) (simp add: stream_off_def)

lemma stream_off_add [simp]: "stream_off n (stream_off m s) = stream_off (m + n) s"
  by (simp add: stream_off_def add.commute)

context byte_source
begin

lemma range_takes:
  assumes good: "good (rg_source r)" and k: "0 < k" and view: "range_stream (\<lambda>s. view (state s)) r = (c, e)" and c: "c \<noteq> []"
  shows "\<exists>n r'. 0 < n \<and> n \<le> k \<and> n \<le> length c \<and> range_read rd k r = (Inr (take n c), r') \<and> range_good good r' \<and>
    range_stream (\<lambda>s. view (state s)) r' = stream_off n (c, e)"
proof -
  let ?rem = "unat (rg_remaining r)"
  obtain c0 e0 where v0: "view (state (rg_source r)) = (c0, e0)" by fastforce
  have c_is: "c = take ?rem c0" "e = (if ?rem \<le> length c0 then None
      else Some (case e0 of None \<Rightarrow> ContentIo ''UnexpectedEof'' | Some fault \<Rightarrow> fault))"
    using view v0 by (cases "?rem \<le> length c0"; simp add: range_stream_def)+
  then have rem: "0 < ?rem" "c0 \<noteq> []" using c by auto
  then have len: "0 < chunk_len k (rg_remaining r)" using k by (simp add: chunk_len_def)
  obtain n s' where n: "0 < n" "n \<le> chunk_len k (rg_remaining r)" "n \<le> length c0"
    "rd (chunk_len k (rg_remaining r)) (rg_source r) = (Inr (take n c0), s')" "good s'"
    "state s' = take_off n (state (rg_source r))"
    using part [OF good len v0 rem(2)] by blast
  have fits: "n \<le> ?rem" "n \<le> k" using n(2) by (simp_all add: chunk_len_def)
  have bytes: "unat (widen n) = n" by (rule widen_le [OF fits(1)])
  let ?r = "\<lparr>rg_source = s', rg_remaining = saturating_sub (rg_remaining r) (widen n)\<rparr>"
  have read: "range_read rd k r = (Inr (take n c), ?r)"
    using n k rem fits c_is(1) by (auto simp: range_read_def min_def)
  have "view (state s') = (drop n c0, e0)" using rest [OF good v0 n(3)] n(6) by simp
  then have "range_stream (\<lambda>s. view (state s)) ?r = stream_off n (c, e)"
    using c_is fits n(3) bytes by (auto simp: range_stream_def stream_off_def drop_take)
  then show ?thesis using n(1,3,5) fits c_is(1) read by (intro exI [of _ n] exI [of _ ?r]) (simp add: range_good_def)
qed

lemma range_source:
  "byte_source (range_read rd) (range_good good) (range_stream (\<lambda>s. view (state s))) (\<lambda>s. s) stream_off"
proof (unfold_locales, goal_cases)
  case (1 r k c e)
  then show ?case using range_takes [of r k c e] by (simp add: range_good_def)
next
  case (2 r k)
  then have "rg_remaining r = 0"
    by (cases "view (state (rg_source r))") (auto simp: range_stream_def word_unat_eq_iff split: if_splits)
  then show ?case using 2 by (auto simp: range_read_def)
next
  case (3 r k fault)
  obtain c0 e0 where v0: "view (state (rg_source r)) = (c0, e0)" by fastforce
  then have rem: "rg_remaining r \<noteq> 0" "c0 = []" "fault = (case e0 of None \<Rightarrow> ContentIo ''UnexpectedEof'' | Some f \<Rightarrow> f)"
    using 3 by (auto simp: range_stream_def split: if_splits)
  then have len: "0 < chunk_len k (rg_remaining r)" using 3(2) by (simp add: chunk_len_def unat_gt_0)
  have good: "good (rg_source r)" using 3(1) by (simp add: range_good_def)
  show ?case
  proof (cases e0)
    case None
    then obtain s' where "rd (chunk_len k (rg_remaining r)) (rg_source r) = (Inr [], s')"
      using ended [OF good len] v0 rem(2) by auto
    then show ?thesis using rem None 3(2) by (simp add: range_read_def)
  next
    case (Some f)
    then obtain s' where "rd (chunk_len k (rg_remaining r)) (rg_source r) = (Inl f, s')"
      using faulted [OF good len] v0 rem(2) by auto
    then show ?thesis using rem Some 3(2) by (simp add: range_read_def)
  qed
next
  case (4 r c e n)
  then show ?case by (simp add: stream_off_def)
qed simp_all

end

text \<open>Walking a range is walking its bytes on their own.\<close>

interpretation ranged: two_sources "range_read stream_read" "range_good (\<lambda>_. True)" "range_stream (\<lambda>s. s)"
  stream_read "\<lambda>_. True" "\<lambda>s. s" "\<lambda>s. s" stream_off
  by (intro two_sources.intro memory.range_source memory.byte_source_axioms)

section \<open>The replayed probe\<close>

definition replay_state :: "('r \<Rightarrow> 'a) \<Rightarrow> 'r replay \<Rightarrow> bytes \<times> 'a" where
  "replay_state state r = (replay_pending r, state (rp_rest r))"

definition replay_view :: "('a \<Rightarrow> stream) \<Rightarrow> bytes \<times> 'a \<Rightarrow> stream" where
  "replay_view view x = (case view (snd x) of (c, e) \<Rightarrow> (fst x @ c, e))"

definition replay_off :: "(nat \<Rightarrow> 'a \<Rightarrow> 'a) \<Rightarrow> nat \<Rightarrow> bytes \<times> 'a \<Rightarrow> bytes \<times> 'a" where
  "replay_off take_off n x = (drop n (fst x), take_off (n - length (fst x)) (snd x))"

definition replay_good :: "('r \<Rightarrow> bool) \<Rightarrow> 'r replay \<Rightarrow> bool" where
  "replay_good good r \<longleftrightarrow> good (rp_rest r) \<and> rp_len r \<le> length (rp_prefix r)"

context byte_source
begin

lemma replay_source:
  "byte_source (replay_read rd) (replay_good good) (replay_state state) (replay_view view) (replay_off take_off)"
proof (unfold_locales, goal_cases)
  case (1 r k c e)
  obtain c0 e0 where v0: "view (state (rp_rest r)) = (c0, e0)" by fastforce
  then have c: "c = replay_pending r @ c0" "e = e0" using 1(3) by (simp_all add: replay_view_def replay_state_def)
  have good: "good (rp_rest r)" using 1(1) by (simp add: replay_good_def)
  show ?case
  proof (cases "replay_pending r = []")
    case True
    then have "c0 \<noteq> []" using c 1(4) by simp
    from part [OF good 1(2) v0 this] obtain n s' where n: "0 < n" "n \<le> k" "n \<le> length c0"
      "rd k (rp_rest r) = (Inr (take n c0), s')" "good s'" "state s' = take_off n (state (rp_rest r))" by blast
    have "replay_pending (r\<lparr>rp_rest := s'\<rparr>) = []" using True by (simp add: replay_pending_def)
    then show ?thesis using n c True 1(1)
      by (intro exI [of _ n] exI [of _ "r\<lparr>rp_rest := s'\<rparr>"])
         (simp add: replay_read_def replay_good_def replay_state_def replay_off_def)
  next
    case False
    let ?n = "min k (length (replay_pending r))" and ?r = "r\<lparr>rp_served := rp_served r + min (length (replay_pending r)) k\<rparr>"
    have "replay_read rd k r = (Inr (take ?n c), ?r)" using False c
      by (cases "k \<le> length (replay_pending r)") (simp_all add: replay_read_def Let_def min_def)
    moreover have "replay_pending ?r = drop ?n (replay_pending r)"
      by (simp add: replay_pending_def add.commute min.commute)
    then have "replay_state state ?r = replay_off take_off ?n (replay_state state r)"
      by (simp add: replay_state_def replay_off_def take_off_0)
    ultimately show ?thesis using 1(1,2) False c
      by (intro exI [of _ ?n] exI [of _ ?r]) (simp add: replay_good_def)
  qed
next
  case (2 r k)
  then have none: "replay_pending r = []" "view (state (rp_rest r)) = ([], None)"
    by (auto simp: replay_view_def replay_state_def split: prod.splits)
  then obtain s' where "rd k (rp_rest r) = (Inr [], s')" "good s'" "state s' = state (rp_rest r)"
    using ended 2 by (auto simp: replay_good_def)
  then show ?case using none(1) 2(1)
    by (intro exI [of _ "r\<lparr>rp_rest := s'\<rparr>"])
       (simp add: replay_read_def replay_good_def replay_state_def replay_pending_def)
next
  case (3 r k fault)
  then have none: "replay_pending r = []" "view (state (rp_rest r)) = ([], Some fault)"
    by (auto simp: replay_view_def replay_state_def split: prod.splits)
  then obtain s' where "rd k (rp_rest r) = (Inl fault, s')"
    using faulted [OF _ 3(2) none(2)] 3(1) by (auto simp: replay_good_def)
  then show ?case using none(1) by (simp add: replay_read_def)
next
  case (4 r c e n)
  obtain c0 e0 where v0: "view (state (rp_rest r)) = (c0, e0)" by fastforce
  then have "view (take_off (n - length (replay_pending r)) (state (rp_rest r))) = (drop (n - length (replay_pending r)) c0, e0)"
    using 4 by (intro rest) (auto simp: replay_good_def replay_view_def replay_state_def)
  then show ?case using 4 v0 by (auto simp: replay_view_def replay_state_def replay_off_def)
next
  case (5 a)
  then show ?case by (simp add: replay_off_def take_off_0)
next
  case (6 r c e m n)
  obtain c0 e0 where v0: "view (state (rp_rest r)) = (c0, e0)" by fastforce
  let ?p = "length (replay_pending r)"
  have "m + n \<le> ?p + length c0" using 6 v0 by (auto simp: replay_view_def replay_state_def)
  then have le: "(m - ?p) + (n - (?p - m)) \<le> length c0" "(m - ?p) + (n - (?p - m)) = m + n - ?p" by linarith+
  have "take_off (n - (?p - m)) (take_off (m - ?p) (state (rp_rest r))) = take_off (m + n - ?p) (state (rp_rest r))"
    using take_off_add [OF _ v0 le(1)] 6(1) le(2) by (simp add: replay_good_def)
  then show ?case by (simp add: replay_state_def replay_off_def add.commute)
qed

section \<open>Reading to a length or to the end\<close>

lemma probe_from_takes:
  assumes "good s" and "view (state s) = (c, e)" and "probe_from rd got s = (Inr out, s')"
  shows "\<exists>n. out = got @ take n c \<and> n \<le> length c \<and> good s' \<and> state s' = take_off n (state s)"
  using assms
proof (induction "PROBE_LEN - length got" arbitrary: got s c rule: less_induct)
  case less
  show ?case
  proof (cases "PROBE_LEN \<le> length got")
    case True
    then have "out = got" "s' = s" using less.prems(3) by (simp_all add: probe_from.simps [of rd got s])
    then show ?thesis using less.prems(1) take_off_0 by (intro exI [of _ 0]) simp
  next
    case False
    then have k: "0 < PROBE_LEN - length got" by simp
    show ?thesis
    proof (cases "c = []")
      case True
      then show ?thesis
        using False less.prems ended [OF less.prems(1) k] faulted [OF less.prems(1) k]
        by (cases e) (force simp: probe_from.simps [of rd got s] take_off_0)+
    next
      case c: False
      obtain n s1 where n: "0 < n" "n \<le> PROBE_LEN - length got" "n \<le> length c"
        "rd (PROBE_LEN - length got) s = (Inr (take n c), s1)" "good s1" "state s1 = take_off n (state s)"
        using part [OF less.prems(1) k less.prems(2) c] by blast
      have "probe_from rd (got @ take n c) s1 = (Inr out, s')"
        using less.prems(3) False n c by (simp add: probe_from.simps [of rd got s])
      moreover have "view (state s1) = (drop n c, e)" using rest [OF less.prems(1,2) n(3)] n(6) by simp
      moreover have "PROBE_LEN - length (got @ take n c) < PROBE_LEN - length got" using n(1,3) k by simp
      ultimately obtain m where m: "out = (got @ take n c) @ take m (drop n c)" "m \<le> length (drop n c)" "good s'"
        "state s' = take_off m (state s1)" using less.hyps n(5) by blast
      have "n + m \<le> length c" using m(2) n(3) by simp
      then show ?thesis using m n(6) take_off_add [OF less.prems(1,2)]
        by (intro exI [of _ "n + m"]) (simp add: take_add)
    qed
  qed
qed

lemma read_bounded_loop_exact:
  assumes "counted_good good r" and "counted_view view (counted_state state r) = (c, e)" and "0 < cb"
    and "read_bounded_loop fuel rd cb acc r = Some (Inr doc, r')"
  shows "doc = acc @ c \<and> e = None"
  using assms(1,2,4)
proof (induction fuel arbitrary: acc r c)
  case (Suc fuel)
  let ?k = "if counting_remaining r = 0 then 1 else chunk_len cb (counting_remaining r)"
  have k: "0 < ?k" using assms(3) by (simp add: chunk_len_def unat_gt_0)
  show ?case
  proof (cases "c = []")
    case True
    then show ?thesis using Suc.prems counted_end [OF Suc.prems(1) k, of e]
      by (cases e) (auto simp: Let_def)
  next
    case False
    obtain n r1 where n: "0 < n" "n \<le> ?k" "n \<le> length c" "counting_read rd ?k r = (Inr (take n c), r1)"
      "counted_good good r1" "counted_state state r1 = counted_off take_off n (counted_state state r)"
      using counted_part [OF Suc.prems(1) k Suc.prems(2) False] by blast
    have "counted_view view (counted_state state r1) = (drop n c, e)"
      using counted_rest [OF Suc.prems(1,2) n(3)] n(6) by simp
    moreover have "read_bounded_loop fuel rd cb (acc @ take n c) r1 = Some (Inr doc, r')"
      using Suc.prems(3) n(1,4) False by (simp add: Let_def)
    ultimately show ?thesis using Suc.IH [OF n(5)] by fastforce
  qed
qed simp

lemma at_read:
  assumes start: "starts good state view start c e" and at: "walk_at start c n w" and k: "0 < k"
    and read: "entry_read rd k w = (Inr window, w')"
  shows "\<exists>j. window = take j (drop n c) \<and> n + j \<le> length c \<and> j \<le> unat (wk_unread_data w) \<and> walk_at start c (n + j) w' \<and>
    unat (wk_unread_data w') = unat (wk_unread_data w) - j \<and> wk_rules w' = wk_rules w \<and>
    (window = [] \<longleftrightarrow> j = 0) \<and> (j = 0 \<longrightarrow> wk_unread_data w = 0)"
proof -
  have good: "counted_good good (wk_source w)" and copy: "rl_max (wk_copy_buffer w) \<noteq> 0" and n: "n \<le> length c"
    using at by (simp_all add: walker_at_def)
  have data: "read_data rd k w = (Inr window, w')"
    using read by (auto simp: entry_read_def latch_check_def split: option.splits sum.splits prod.splits)
  show ?thesis
  proof (cases "wk_unread_data w = 0")
    case True
    then show ?thesis using data at n by (auto simp: read_data_def)
  next
    case False
    let ?k = "chunk_len k (wk_unread_data w)"
    have k': "0 < ?k" using k False by (simp add: chunk_len_def unat_gt_0)
    obtain r where r: "counting_read rd ?k (wk_source w) = (Inr window, r)" "window \<noteq> []"
      "w' = w\<lparr>wk_source := r, wk_unread_data := saturating_sub (wk_unread_data w) (widen (length window))\<rparr>"
      using data False k by (auto simp: read_data_def steps_Inr split: if_splits)
    have some: "drop n c \<noteq> []"
      using counted_end [OF good k', of e] at_view(1) [OF start at] r(1,2) by (cases e) auto
    obtain j where j: "0 < j" "j \<le> ?k" "j \<le> length (drop n c)" "window = take j (drop n c)" "counted_good good r"
      "counted_state state r = counted_off take_off j (counted_state state (wk_source w))"
      using counted_part [OF good k' at_view(1) [OF start at] some] r(1) by auto
    have le: "j \<le> unat (wk_unread_data w)" "n + j \<le> length c" using j(2,3) n by (simp_all add: chunk_len_def)
    have "walk_at start c (n + j) w'" using at_off [OF start at le(2) j(5,6)] r(3) copy by simp
    moreover have "length window = j" using j(3,4) by simp
    then have "unat (wk_unread_data w') = unat (wk_unread_data w) - j" using r(3) widen_le [OF le(1)] by simp
    ultimately show ?thesis using le j(1,4) r(2,3) by (intro exI [of _ j]) auto
  qed
qed

lemma at_hash:
  assumes start: "starts good state view start c e" and "walk_at start c n w" and k: "0 < k"
    and "hash_data rd k acc w = (Inr hashed, w')"
  shows "n + unat (wk_unread_data w) \<le> length c \<and> hashed = acc @ take (unat (wk_unread_data w)) (drop n c) \<and>
    (\<exists>m. n \<le> m \<and> walk_at start c m w') \<and> wk_rules w' = wk_rules w"
  using assms(2,4)
proof (induction "unat (wk_unread_data w)" arbitrary: n acc w rule: less_induct)
  case less
  obtain window w1 where read: "entry_read rd k w = (Inr window, w1)"
    using less.prems(2) by (cases "entry_read rd k w"; cases "fst (entry_read rd k w)") (auto simp: hash_data.simps [of rd k acc w])
  obtain j where j: "window = take j (drop n c)" "n + j \<le> length c" "j \<le> unat (wk_unread_data w)" "walk_at start c (n + j) w1"
    "unat (wk_unread_data w1) = unat (wk_unread_data w) - j" "wk_rules w1 = wk_rules w" "window = [] \<longleftrightarrow> j = 0"
    "j = 0 \<longrightarrow> wk_unread_data w = 0"
    using at_read [OF start less.prems(1) k read] by blast
  show ?case
  proof (cases "j = 0")
    case True
    then show ?thesis using less.prems(2) read j by (auto simp: hash_data.simps [of rd k acc w])
  next
    case False
    then have hash: "hash_data rd k (acc @ take j (drop n c)) w1 = (Inr hashed, w')"
      using less.prems(2) read j(1,7) by (simp add: hash_data.simps [of rd k acc w])
    have "unat (wk_unread_data w1) < unat (wk_unread_data w)" using j(3,5) False by simp
    from less.hyps [OF this j(4) hash] obtain m where ih: "n + j + unat (wk_unread_data w1) \<le> length c"
      "hashed = (acc @ take j (drop n c)) @ take (unat (wk_unread_data w1)) (drop (n + j) c)" "n + j \<le> m" "walk_at start c m w'"
      "wk_rules w' = wk_rules w1" by blast
    have "take j (drop n c) @ take (unat (wk_unread_data w1)) (drop (n + j) c) = take (unat (wk_unread_data w)) (drop n c)"
      using j(3,5) by (metis add.commute drop_drop le_add_diff_inverse take_add)
    then show ?thesis using ih j(3,5,6) by (auto intro: exI [of _ m])
  qed
qed

end

end
