(* ===== verification/Archive_Returns.thy ===== *)
theory Archive_Returns
  imports Archive_Sources
begin

text \<open>
  Every loop of the validation ends, whatever the source, the inflater and the deserializer answer: each turn of a
  walk takes a block from the allowance of its counting reader, which no answer can grow.
\<close>

abbreviation (input) left_for :: "'s walker \<Rightarrow> nat" where
  "left_for w \<equiv> unat (counting_remaining (wk_source w))"

section \<open>What a step takes from the allowance\<close>

lemma skip_left_shrinks:
  "skip_left rd b left r = (Inr u, r') \<Longrightarrow> unat (counting_remaining r') \<le> unat (counting_remaining r)"
proof (induction rd b left r rule: skip_left.induct)
  case (1 rd b left r)
  show ?case
  proof (cases "left = 0")
    case True
    then show ?thesis using "1.prems" by (simp add: skip_left.simps [of rd b 0 r])
  next
    case False
    then obtain window r1 where r1: "counting_read rd (chunk_len b left) r = (Inr window, r1)" "window \<noteq> []"
      "skip_left rd b (saturating_sub left (widen (length window))) r1 = (Inr u, r')"
      using "1.prems" by (auto simp: skip_left.simps [of rd b left r] split: prod.splits sum.splits if_splits)
    show ?thesis using "1.IH" [OF False r1(1) [symmetric] refl r1(2,3)] counting_read_shrinks [OF r1(1)] by linarith
  qed
qed

lemma read_full_shrinks:
  "read_full (counting_read rd) k r = (Inr bs, r') \<Longrightarrow>
   k \<le> length bs \<and> length bs + unat (counting_remaining r') \<le> unat (counting_remaining r)"
proof (induction k arbitrary: r bs rule: less_induct)
  case (less k)
  show ?case
  proof (cases "k = 0")
    case True
    then show ?thesis using less.prems by (simp add: read_full.simps [of _ 0])
  next
    case False
    then obtain window r1 more where r1: "counting_read rd k r = (Inr window, r1)" "window \<noteq> []"
      "read_full (counting_read rd) (k - length window) r1 = (Inr more, r')" "bs = window @ more"
      using less.prems by (auto simp: read_full.simps [of _ k] split: prod.splits sum.splits if_splits)
    have "k - length window < k" using False r1(2) by (simp add: diff_less)
    from less.IH [OF this r1(3)] show ?thesis using counting_read_shrinks [OF r1(1)] r1(4) by auto
  qed
qed

lemma skip_unread_shrinks:
  assumes "skip_unread rd w = (Inr u, w')"
  shows "left_for w' \<le> left_for w"
  using assms
  by (auto simp: skip_unread_def Let_def steps_Inr split: option.splits sum.splits if_splits dest!: skip_left_shrinks)

lemma read_extension_shrinks:
  assumes "read_extension rd x len d flag w = (Inr u, w')"
  shows "left_for w' \<le> left_for w"
proof -
  obtain layer where rules: "wk_rules w = Layer layer" using assms by (cases "wk_rules w") (auto simp: read_extension_def)
  obtain b where b: "budget_charge len (lr_extension_total layer) = Inr b"
    using assms by (cases "budget_charge len (lr_extension_total layer)")
      (auto simp: read_extension_def rules steps_Inr split: if_splits)
  obtain padded payload r where parts:
    "with_source (read_full (counting_read rd) (unat len)) (w\<lparr>wk_rules := Layer (layer\<lparr>lr_extension_total := b\<rparr>)\<rparr>) = (Inr payload, r)"
    "(case pending_record x payload (lr_pending layer) of
        Inl fault \<Rightarrow> (Inl fault, r\<lparr>wk_unread_padding := padded - len\<rparr>)
      | Inr p \<Rightarrow> (Inr (), r\<lparr>wk_unread_padding := padded - len, wk_rules := Layer (layer\<lparr>lr_extension_total := b, lr_pending := p\<rparr>)\<rparr>)) =
     (Inr u, w')"
    using assms by (auto simp: read_extension_def rules b Let_def step_then_Inr pair_Inr source_has_Inr alloc_len_def split: if_splits)
  then have "wk_source w' = wk_source r" by (cases "pending_record x payload (lr_pending layer)") auto
  then show ?thesis using parts(1) by (auto simp: steps_Inr dest!: read_full_shrinks)
qed

lemma read_header_shrinks:
  assumes "read_header rd block ho w = (Inr out, w')"
  shows "left_for w' \<le> left_for w"
proof -
  obtain rs t h d where parts:
    "(case t of ExtensionFlag ext \<Rightarrow> step_then (read_extension rd ext (hf_size h) d (block ! TYPEFLAG) (w\<lparr>wk_rules := rs\<rparr>)) (\<lambda>_ w. (Inr None, w))
       | EntryFlag kind \<Rightarrow> step_then (admit_entry kind h ho d (w\<lparr>wk_rules := rs\<rparr>)) (\<lambda>e w. (Inr (Some e), w))) = (Inr out, w')"
    using assms by (auto simp: read_header_def Let_def steps_Inr)
  show ?thesis
  proof (cases t)
    case (EntryFlag kind)
    then show ?thesis using parts by (auto simp: steps_Inr admit_entry_def)
  next
    case (ExtensionFlag ext)
    then show ?thesis using parts by (auto simp: step_then_Inr pair_Inr dest!: read_extension_shrinks)
  qed
qed

lemma turn_takes:
  assumes "advance_turn rd w = (Inr out, w')" and "out \<noteq> Some None"
  shows "left_for w' + BLOCK \<le> left_for w"
proof -
  obtain w1 block w2 where steps: "skip_unread rd w = (Inr (), w1)"
    "with_source (read_full (counting_read rd) BLOCK) w1 = (Inr block, w2)" "left_for w' \<le> left_for w2"
    using assms
    by (auto simp: advance_turn_def Let_def step_then_Inr pair_Inr split: if_splits dest!: read_header_shrinks)
  have "BLOCK + left_for w2 \<le> left_for w1" using steps(2) by (auto simp: steps_Inr dest!: read_full_shrinks)
  then show ?thesis using skip_unread_shrinks [OF steps(1)] steps(3) by linarith
qed

lemma advance_takes:
  "left_for w < fuel \<Longrightarrow> \<exists>out w'. advance fuel rd w = Some (out, w') \<and> (\<forall>e. out = Inr (Some e) \<longrightarrow> left_for w' + BLOCK \<le> left_for w)"
proof (induction fuel arbitrary: w)
  case (Suc fuel)
  obtain x w1 where turn: "advance_turn rd w = (x, w1)" by fastforce
  show ?case
  proof (cases x)
    case (Inl fault)
    then show ?thesis using turn by simp
  next
    case (Inr y)
    show ?thesis
    proof (cases y)
      case None
      have less: "left_for w1 + BLOCK \<le> left_for w" using turn_takes [of rd w y w1] turn Inr None by simp
      then have "left_for w1 < fuel" using Suc.prems by (simp add: BLOCK_def)
      from Suc.IH [OF this] less show ?thesis using turn Inr None by fastforce
    next
      case (Some z)
      then show ?thesis using turn Inr turn_takes [of rd w y w1] by auto
    qed
  qed
qed simp

lemma next_takes:
  "\<exists>out w'. next_entry rd w = Some (out, w') \<and> (\<forall>e. out = Inr (Some e) \<longrightarrow> left_for w' + BLOCK \<le> left_for w)"
proof (cases "latch_check (wk_latch w)")
  case (Inl fault)
  then show ?thesis by (simp add: next_entry_def)
next
  case (Inr u)
  show ?thesis
  proof (cases "wk_finished w")
    case True
    then show ?thesis using Inr by (simp add: next_entry_def)
  next
    case False
    define fuel where "fuel = Suc (left_for w)"
    obtain out w' where a: "advance fuel rd w = Some (out, w')"
      "\<forall>e. out = Inr (Some e) \<longrightarrow> left_for w' + BLOCK \<le> left_for w"
      using advance_takes [of w fuel rd] by (auto simp: fuel_def)
    have call: "next_entry rd w = map_option (\<lambda>(out, w'). case out of
                Inl fault \<Rightarrow> (Inl fault, w'\<lparr>wk_latch := latch_record fault (wk_latch w')\<rparr>)
              | Inr e \<Rightarrow> (Inr e, w')) (advance fuel rd w)"
      using Inr False by (simp add: next_entry_def fuel_def)
    show ?thesis using call a by (cases out) auto
  qed
qed

section \<open>The loops of the validation\<close>

lemma hash_data_shrinks:
  "hash_data rd k acc w = (Inr h, w') \<Longrightarrow> left_for w' \<le> left_for w"
proof (induction rd k acc w rule: hash_data.induct)
  case (1 rd k acc w)
  obtain window w1 where read: "entry_read rd k w = (Inr window, w1)"
    using "1.prems" by (cases "entry_read rd k w"; cases "fst (entry_read rd k w)") (auto simp: hash_data.simps [of rd k acc w])
  then have "read_data rd k w = (Inr window, w1)"
    by (auto simp: entry_read_def latch_check_def split: option.splits sum.splits prod.splits)
  then have "left_for w1 \<le> left_for w"
    by (auto simp: read_data_def steps_Inr split: if_splits dest!: counting_read_shrinks)
  then show ?case using "1.IH" [OF read [symmetric] refl] "1.prems" read
    by (auto simp: hash_data.simps [of rd k acc w] split: if_splits)
qed

lemma inventory_entry_shrinks:
  "inventory_entry rd cr k e i w = (Inr i', w') \<Longrightarrow> left_for w' \<le> left_for w"
  by (auto simp: inventory_entry_def Let_def split: if_splits entry_class.splits prod.splits sum.splits dest!: hash_data_shrinks)

lemma inventory_walk_ends: "left_for w < fuel \<Longrightarrow> inventory_walk fuel rd cr k i w \<noteq> None"
proof (induction fuel arbitrary: i w)
  case (Suc fuel)
  obtain out w1 where n: "next_entry rd w = Some (out, w1)" "\<And>e. out = Inr (Some e) \<Longrightarrow> left_for w1 + BLOCK \<le> left_for w"
    using next_takes [of rd w] by blast
  have "inventory_walk fuel rd cr k i' w2 \<noteq> None"
    if "out = Inr (Some e)" "inventory_entry rd cr k e i w1 = (Inr i', w2)" for e i' w2
  proof (rule Suc.IH)
    show "left_for w2 < fuel"
      using n(2) [OF that(1)] inventory_entry_shrinks [OF that(2)] Suc.prems by (simp add: BLOCK_def)
  qed
  then show ?case using n(1) by (auto split: sum.splits option.splits prod.splits)
qed simp

lemma walk_entries_ends: "left_for w < fuel \<Longrightarrow> walk_entries fuel rd w \<noteq> None"
proof (induction fuel arbitrary: w)
  case (Suc fuel)
  obtain out w1 where n: "next_entry rd w = Some (out, w1)" "\<And>e. out = Inr (Some e) \<Longrightarrow> left_for w1 + BLOCK \<le> left_for w"
    using next_takes [of rd w] by blast
  have "walk_entries fuel rd w1 \<noteq> None" if "out = Inr (Some e)" for e
    using n(2) [OF that] Suc.prems by (intro Suc.IH) (simp add: BLOCK_def)
  then show ?case using n(1) by (auto split: sum.splits option.splits)
qed simp

lemma read_bounded_loop_returns:
  "unat (counting_remaining r) < fuel \<Longrightarrow> read_bounded_loop fuel rd cb acc r \<noteq> None"
proof (induction fuel arbitrary: acc r)
  case (Suc fuel)
  let ?k = "if counting_remaining r = 0 then 1 else chunk_len cb (counting_remaining r)"
  have "read_bounded_loop fuel rd cb (acc @ window) r' \<noteq> None"
    if "counting_read rd ?k r = (Inr window, r')" "window \<noteq> []" for window r'
  proof (rule Suc.IH)
    show "unat (counting_remaining r') < fuel"
      using counting_read_shrinks [OF that(1)] that(2) Suc.prems by (cases window) auto
  qed
  then show ?case by (auto simp: Let_def split: prod.splits sum.splits)
qed simp

section \<open>The phases\<close>

definition returns :: "('x, 'a) act \<Rightarrow> bool" where
  "returns m \<longleftrightarrow> (\<forall>x. m x \<noteq> None)"

lemma returns_then: "returns m \<Longrightarrow> (\<And>a. returns (f a)) \<Longrightarrow> returns (act_then m f)"
  by (fastforce simp: returns_def act_then_def split: option.split sum.split)

lemma returns_check: "returns (act_check r)"
  by (simp add: returns_def act_check_def)

lemma returns_bytes: "returns (read_bytes env limits cb place document)"
  unfolding returns_def
proof (rule allI)
  fix d
  show "read_bytes env limits cb place document d \<noteq> None"
    by (cases "ae_seek env (sp_offset place) (dr_source d)"; cases "fst (ae_seek env (sp_offset place) (dr_source d))")
       (simp_all add: read_bytes_def read_bounded_def Let_def read_bounded_loop_returns del: read_bounded_loop.simps not_None_eq)
qed

lemma returns_document: "returns (read_document env limits cb place document)"
  unfolding read_document_def by (intro returns_then returns_bytes returns_check)

lemma returns_config: "returns (check_config env limits cb b d declaration)"
  unfolding check_config_def Let_def by (intro returns_then returns_document returns_check)

lemma returns_examine: "returns (examine env limits declaration inventory)"
  unfolding examine_def Let_def by (intro returns_then returns_document returns_bytes returns_config returns_check)

lemma walk_layer_returns: "walk_layer rd decoded limits cb budgets operation \<noteq> None"
  by (simp add: walk_layer_def Let_def walk_entries_ends walker_new_def del: walk_entries.simps not_None_eq)

lemma returns_layer: "returns (decode_layer env limits cb place compressed position)"
  unfolding returns_def
proof (rule allI)
  fix l
  show "decode_layer env limits cb place compressed position l \<noteq> None"
    by (cases "ae_seek env (sp_offset place) (ly_source l)"; cases "fst (ae_seek env (sp_offset place) (ly_source l))")
       (simp_all add: decode_layer_def Let_def walk_layer_returns del: not_None_eq)
qed

lemma returns_layers: "returns (check_layers env limits cb inventory position ds)"
proof (induction ds arbitrary: position)
  case (Cons x ds)
  then show ?case
    by (cases x) (auto simp: check_layer_def Let_def intro!: returns_then returns_layer returns_check)
qed (simp add: returns_check)

lemma returns_inventory: "returns (raw_inventory env limits cb)"
  unfolding returns_def
proof (rule allI)
  fix s
  let ?probe = "\<lambda>s. probe (counting_read (ae_read env)) (counting_new s (limits_resource_limit limits LR_ImageArchive) [] cb)"
  show "raw_inventory env limits cb s \<noteq> None"
  proof (cases "ae_seek env 0 s")
    case (Pair r s1)
    then show ?thesis
      by (cases r; cases "?probe s1"; cases "fst (?probe s1)")
         (simp_all add: raw_inventory_def Let_def inventory_walk_ends del: inventory_walk.simps not_None_eq)
  qed
qed

text \<open>Validating an image archive always returns: whatever the source answers to reads and seeks, whatever the
  inflater does with what it is given, and whatever the deserializer makes of a document, no loop of the nine
  phases runs on.\<close>

lemma validate_returns: "\<exists>out rest. validate env limits decl (source, operation) = Some (out, rest)"
proof -
  have layers: "returns (layers_phase env limits cb inventory descriptors paths diff_ids)"
    for cb inventory descriptors paths diff_ids
    by (simp add: layers_phase_def returns_layers returns_check)
  have "validate env limits decl (source, operation) \<noteq> None"
  proof -
    let ?cb = "copy_buffer_len limits"
    let ?d = "\<lambda>s. \<lparr>dr_source = s, dr_total = budget_new (limits_resource_limit limits LR_ImageJsonTotal)\<rparr>"
    obtain inv s1 where phase1: "raw_inventory env limits ?cb source = Some (inv, s1)"
      using returns_inventory [of env limits ?cb] unfolding returns_def by fastforce
    show ?thesis
    proof (cases inv)
      case (Inl v)
      then show ?thesis using phase1 by (simp add: validate_def Let_def)
    next
      case (Inr inventory)
      obtain x d where examined: "examine env limits decl inventory (?d s1) = Some (x, d)"
        using returns_examine [of env limits decl inventory] unfolding returns_def by fastforce
      show ?thesis using phase1 Inr examined layers
        by (cases x; cases "canonical_manifest inventory (ex_config_blob (projr x)) (cp_diff_ids (ex_config (projr x)))
               (ex_manifest_bytes (projr x))")
           (simp_all add: validate_def Let_def returns_def del: not_None_eq)
    qed
  qed
  then show ?thesis by auto
qed

end
