(* ===== verification/Image_Archive_Correct.thy ===== *)
theory Image_Archive_Correct
  imports Archive_Returns
begin

text \<open>
  What an accepted image archive is: every part of it the declaration speaks of is bytes of the archive, found under
  the digest the declaration or the config gives it.
\<close>

section \<open>A source over fixed bytes\<close>

text \<open>The bytes under the source do not change: after a seek they are read from there, however they are handed on.\<close>

definition image_source ::
  "('s, 'z) archive_env \<Rightarrow> ('s \<Rightarrow> bool) \<Rightarrow> ('s \<Rightarrow> 'a) \<Rightarrow> ('a \<Rightarrow> stream) \<Rightarrow> (nat \<Rightarrow> 'a \<Rightarrow> 'a) \<Rightarrow> bytes \<Rightarrow> bool" where
  "image_source env good state view take_off archive \<longleftrightarrow>
     byte_source (ae_read env) good state view take_off \<and>
     (\<forall>k s u s'. ae_seek env k s = (Inr u, s') \<longrightarrow> good s' \<and> view (state s') = (drop (unat k) archive, None))"

definition lies_in :: "bytes \<Rightarrow> span \<Rightarrow> bytes \<Rightarrow> bool" where
  "lies_in archive place bs \<longleftrightarrow>
     length bs = unat (sp_len place) \<and> bs = take (unat (sp_len place)) (drop (unat (sp_offset place)) archive)"

definition is_recorded :: "recorded_entry list \<Rightarrow> bytes \<Rightarrow> span \<Rightarrow> bool" where
  "is_recorded entries name place \<longleftrightarrow>
     (\<exists>e \<in> set entries. re_name e = name \<and> re_data_offset e = sp_offset place \<and> re_data_len e = sp_len place)"

fun layout_name :: "layout_file \<Rightarrow> bytes" where
  "layout_name LF_OciLayout = OCI_LAYOUT_FILE"
| "layout_name LF_Index = INDEX_FILE"
| "layout_name LF_CompatibilityManifest = COMPATIBILITY_FILE"

section \<open>The inventory tells where the bytes are\<close>

definition blob_known :: "crypto \<Rightarrow> bytes \<Rightarrow> recorded_entry list \<Rightarrow> bytes \<times> blob \<Rightarrow> bool" where
  "blob_known cr archive entries = (\<lambda>(hex, b).
     is_recorded entries (BLOB_PREFIX @ hex) (bl_span b) \<and> (\<exists>bs. lies_in archive (bl_span b) bs \<and> bl_sha256 b = sha256_hex cr bs))"

definition inventory_true :: "crypto \<Rightarrow> bytes \<Rightarrow> inventorying \<Rightarrow> bool" where
  "inventory_true cr archive i \<longleftrightarrow>
     list_all (blob_known cr archive (in_entries i)) (in_blobs i) \<and> length (in_layout i) = 3 \<and>
     (\<forall>which place. in_layout i ! layout_slot which = Some place \<longrightarrow> is_recorded (in_entries i) (layout_name which) place)"


lemma layout_slot_inj: "layout_slot x = layout_slot y \<longleftrightarrow> x = y"
  by (cases x; cases y) simp_all

lemma layout_slot_bound: "layout_slot x < 3"
  by (cases x) simp_all

lemma is_recorded_mono: "is_recorded entries name place \<Longrightarrow> is_recorded (entries @ extra) name place"
  by (auto simp: is_recorded_def)

lemma blob_known_mono: "blob_known cr archive entries x \<Longrightarrow> blob_known cr archive (entries @ extra) x"
  by (cases x) (auto simp: blob_known_def intro: is_recorded_mono)

lemma classify_entry_layout: "classify_entry name kind = ClassLayout which \<Longrightarrow> name = layout_name which"
  by (auto simp: classify_entry_def Let_def split: if_splits)

lemma classify_entry_blob: "classify_entry name kind = ClassBlob \<Longrightarrow> \<exists>hex. name = BLOB_PREFIX @ hex"
  by (auto simp: classify_entry_def blob_hex_def Let_def strip_prefix_Some split: if_splits option.splits)

lemma recorded_here:
  "is_recorded (entries @ [recorded name e]) name \<lparr>sp_offset = te_data_offset e, sp_len = te_data_len e\<rparr>"
  by (simp add: is_recorded_def recorded_def)

lemma inventory_layout_true:
  assumes "inventory_true cr archive i" and "name = layout_name which"
  shows "inventory_true cr archive (i\<lparr>in_layout := (in_layout i)[layout_slot which := Some \<lparr>sp_offset = te_data_offset e, sp_len = te_data_len e\<rparr>],
    in_entries := in_entries i @ [recorded name e]\<rparr>)"
  using assms layout_slot_bound [of which] recorded_here [of "in_entries i" name e]
  by (auto simp: inventory_true_def list_all_iff nth_list_update layout_slot_inj intro: is_recorded_mono blob_known_mono)

lemma inventory_blob_true:
  assumes "inventory_true cr archive i" and "name = BLOB_PREFIX @ hex"
    and "lies_in archive \<lparr>sp_offset = te_data_offset e, sp_len = te_data_len e\<rparr> bs"
  shows "inventory_true cr archive
    (i\<lparr>in_blobs := insert_blob hex \<lparr>bl_span = \<lparr>sp_offset = te_data_offset e, sp_len = te_data_len e\<rparr>, bl_sha256 = sha256_hex cr bs\<rparr> (in_blobs i),
       in_entries := in_entries i @ [recorded name e]\<rparr>)"
  using assms recorded_here [of "in_entries i" name e]
  by (auto simp: inventory_true_def list_all_iff insert_blob_def intro: is_recorded_mono blob_known_mono)
     (auto simp: blob_known_def)

context byte_source
begin

lemma inventory_entry_true:
  assumes start: "starts good state view start c e0" and at: "stands_at good state take_off start c m e w" and k: "0 < k"
    and "inventory_true cr c i" and entry: "inventory_entry rd cr k e i w = (Inr i', w')"
  shows "inventory_true cr c i' \<and> (\<exists>m'. walk_at start c m' w')"
proof -
  have w: "walk_at start c (m + BLOCK) w" "unat (te_data_offset e) = m + BLOCK" "wk_unread_data w = te_data_len e"
    using at by (simp_all add: stands_at_def)
  let ?name = "canonical_name e"
  show ?thesis
  proof (cases "in_deferred i \<noteq> None \<or> \<not> is_utf8 ?name")
    case True
    then have "(i' = i \<or> i' = i\<lparr>in_deferred := Some UF_ExtraFile\<rparr>) \<and> w' = w"
      using entry by (auto simp: inventory_entry_def Let_def split: if_splits)
    then show ?thesis using assms(4) w(1) by (auto simp: inventory_true_def)
  next
    case False
    show ?thesis
    proof (cases "classify_entry ?name (te_kind e)")
      case (ClassLayout which)
      then show ?thesis using inventory_layout_true [OF assms(4) classify_entry_layout [OF ClassLayout], of e] entry False w(1)
        by (auto simp: inventory_entry_def Let_def)
    next
      case ClassBlob
      then obtain hex where hex: "?name = BLOB_PREFIX @ hex" using classify_entry_blob by blast
      obtain hashed where h: "hash_data rd k [] w = (Inr hashed, w')"
        "i' = i\<lparr>in_blobs := insert_blob hex \<lparr>bl_span = \<lparr>sp_offset = te_data_offset e, sp_len = te_data_len e\<rparr>,
            bl_sha256 = sha256_hex cr hashed\<rparr> (in_blobs i), in_entries := in_entries i @ [recorded ?name e]\<rparr>"
        using entry False ClassBlob hex
        by (auto simp: inventory_entry_def Let_def strip_prefix_Some [THEN iffD2] split: prod.splits sum.splits)
      from at_hash [OF start w(1) k h(1)] have
        "lies_in c \<lparr>sp_offset = te_data_offset e, sp_len = te_data_len e\<rparr> hashed" "\<exists>m'. walk_at start c m' w'"
        using w(2,3) by (auto simp: lies_in_def)
      then show ?thesis using inventory_blob_true [OF assms(4) hex] h(2) by blast
    next
      case ClassDirectory
      then show ?thesis using entry False assms(4) w(1) by (auto simp: inventory_entry_def Let_def)
    next
      case (ClassDeferred feature)
      then show ?thesis using entry False assms(4) w(1) by (auto simp: inventory_entry_def Let_def inventory_true_def)
    qed
  qed
qed

lemma inventory_walk_true:
  assumes start: "starts good state view start c e0" and k: "0 < k"
  shows "walk_at start c n w \<Longrightarrow> inventory_true cr c i \<Longrightarrow> inventory_walk fuel rd cr k i w = Some (Inr i', w') \<Longrightarrow>
    inventory_true cr c i'"
proof (induction fuel arbitrary: n i w)
  case (Suc fuel)
  obtain out w1 where n: "next_entry rd w = Some (out, w1)"
    "\<forall>ent. out = Inr (Some ent) \<longrightarrow> (\<exists>m. n \<le> m \<and> stands_at good state take_off start c m ent w1)"
    using at_next [OF start Suc.prems(1)] by blast
  obtain x where out: "out = Inr x" using Suc.prems(3) n(1) by (cases out) auto
  show ?case
  proof (cases x)
    case None
    then show ?thesis using Suc.prems n(1) out by simp
  next
    case (Some ent)
    then obtain m where m: "stands_at good state take_off start c m ent w1" using n(2) out by blast
    obtain r w2 where entry: "inventory_entry rd cr k ent i w1 = (r, w2)" by fastforce
    obtain i2 where i2: "r = Inr i2" "inventory_walk fuel rd cr k i2 w2 = Some (Inr i', w')"
      using Suc.prems(3) n(1) out Some entry by (cases r) auto
    from inventory_entry_true [OF start m k Suc.prems(2) entry [unfolded i2(1)]] show ?thesis
      using Suc.IH i2(2) by blast
  qed
qed simp

end

section \<open>The walk of the whole archive\<close>









section \<open>Documents are the bytes recorded\<close>







section \<open>What the examination has established\<close>










section \<open>The canonical manifest as a document\<close>








section \<open>A genuine archive\<close>
















section \<open>The property\<close>

text \<open>A file opened for reading: its state is the position in bytes that do not change.\<close>

definition cursor_read :: "bytes \<Rightarrow> nat source" where
  "cursor_read archive k position = (Inr (take k (drop position archive)), position + min k (length archive - position))"

definition cursor_seek :: "u64 \<Rightarrow> nat \<Rightarrow> (bytes + unit) \<times> nat" where
  "cursor_seek k position = (Inr (), unat k)"

lemma take_min_drop: "take (min k (length xs - s)) (drop s xs) = take k (drop s xs)"
  by (cases "k \<le> length xs - s") (simp_all add: min_def)

lemma cursor_source:
  assumes "ae_read env = cursor_read archive" and "ae_seek env = cursor_seek"
  shows "image_source env (\<lambda>_. True) (\<lambda>position. (drop position archive, None)) (\<lambda>s. s) stream_off archive"
proof -
  have "byte_source (cursor_read archive) (\<lambda>_. True) (\<lambda>position. (drop position archive, None)) (\<lambda>s. s) stream_off"
  proof (unfold_locales, goal_cases)
    case (1 s k c e)
    then have "c = drop s archive" by simp
    then show ?case using 1(2,4)
      by (intro exI [of _ "min k (length archive - s)"] exI [of _ "s + min k (length archive - s)"])
         (simp add: cursor_read_def stream_off_def add.commute take_min_drop)
  next
    case (4 s c e n)
    then show ?case by (simp add: stream_off_def)
  qed (auto simp: cursor_read_def)
  then show ?thesis using assms by (simp add: image_source_def cursor_seek_def)
qed


end
