(* ===== verification/Archive_Sample.thy ===== *)
theory Archive_Sample
  imports Image_Archive_Correct
begin





end
