(* ===== verification/Spec2Isabelle.thy ===== *)
theory Spec2Isabelle
  imports Container_Correct Image_Correct Generation_Correct Trust_Set_Correct Manifest_Correct
    Verify_Correct Payload_Walk_Correct Release_Trust_Sample Zstd_Window_Correct
    Tar_Framing_Correct Executor_Channels_Correct Render_Correct Config_Template
    Executor_Files_Correct Selfupdate_Contract_Correct Content_Correct Json_Scan_Correct
    Tar_Entries Tar_Places Tar_Sample Archive_Sample
begin

text \<open>
  A verification development of \<open>deploy-core\<close>, the deploy primitives an installer and an on-host root
  agent share. A signed module package travels as a container (a base executable or nothing, a
  manifest, a tar.zst archive, a signature envelope, a footer). It is read by one reader, verified
  against a trust set, and its members are installed. The trust set itself is rolled forward by
  packages of the same format, staged and swapped in atomically on the host.

  \<^bold>\<open>Conventions.\<close> A byte is a \<^typ>\<open>char\<close> and text is the list of its UTF-8 bytes. \<open>u64\<close>, \<open>u32\<close> and \<open>u8\<close> are
  words with the checked and saturating operations of the code written out; a \<open>usize\<close> is a natural
  number. A fallible operation returns \<open>error + value\<close>, the error datatypes having the source's
  variants, and \<open>bind_res\<close> is the question mark operator. Code outside the repository is a parameter:
  hashing and signatures (\<open>crypto\<close>), the JSON parser and the serde decoders (\<open>manifest_codec\<close>,
  \<open>trust_parser\<close>), the tar and zstd readers (\<open>untar\<close>, \<open>tar_header\<close>, \<open>reader\<close>), \<open>systemctl\<close>, and the
  file system, which is modelled with an injected fault script.

  \<^bold>\<open>Theories, in the order of the code.\<close>
  \<^item> \<open>Prelude\<close>, \<open>Rust_Text\<close>, \<open>Hex_Text\<close>, \<open>Utf8\<close>: results, checked arithmetic, string operations, decimal
    and hexadecimal text, UTF-8; the locales \<open>codec\<close> and \<open>canonical_codec\<close> (what decoding an encoding
    gives, and that a text has one spelling), interpreted on the footer, the hexadecimal text, the
    image references and the epoch record.
  \<^item> \<open>Container\<close>, \<open>Container_Correct\<close> (\<open>src/payload.rs\<close>): footer codec, footer location among the known
    layouts, layout validation, tail writing, package reading, re-wrapping. Written packages are read
    back; a footer is accepted exactly when its blocks tile the file up to it.
  \<^item> \<open>Image\<close>, \<open>Image_Correct\<close> (\<open>src/image.rs\<close>): the Docker reference grammar and its normal form,
    declaration validation, the runtime alias.
  \<^item> \<open>File_System\<close>, \<open>File_Logic\<close>, \<open>File_Runs\<close>: the part of \<open>std::path\<close> and \<open>std::fs\<close> in use, with one
    scripted fault per operation, a Hoare logic for it and the rules for fault-free runs.
    \<open>Generation\<close>, \<open>Generation_Correct\<close> (\<open>src/generation.rs\<close>): the staging, validation, swap, reload and prune
    of a generation of trust material, operation for operation; the locale \<open>staged_validator\<close> is what
    the engine asks of the validation callback. Activation is atomic under every fault script.
  \<^item> \<open>Json\<close>, \<open>Trust_Types\<close>, \<open>Trust_Set\<close>, \<open>Trust_Set_Correct\<close> (\<open>src/trust_set.rs\<close>): the strict reader of
    trust-set documents, its stages and the provisional decode before verification.
  \<^item> \<open>Systemd\<close>, \<open>Module_Spec\<close>, \<open>Manifest\<close>, \<open>Manifest_Correct\<close> (\<open>src/systemd.rs\<close>, \<open>src/module_spec.rs\<close>,
    \<open>src/manifest.rs\<close>): unit-file values, the module specification validator, and the manifest with its
    version gates and the invariant every parsed manifest has.
  \<^item> \<open>Archive_Errors\<close>, \<open>Verify\<close>, \<open>Verify_Correct\<close> (\<open>src/verify.rs\<close>): signature selection, the
    authenticated manifest, the statements checked against a request, and the end-to-end soundness of
    a verified package.
  \<^item> \<open>Payload_Walk\<close>, \<open>Payload_Walk_Correct\<close> (\<open>src/payload.rs\<close>, \<open>src/payload/outer.rs\<close>): opening a payload
    and the one walk over its archive; the locale \<open>faithful_sink\<close> is the contract of the sink the
    members are handed to.
  \<^item> \<open>Release_Trust\<close>, \<open>Release_Trust_Correct\<close>, \<open>Release_Trust_Sample\<close> (\<open>src/release_trust.rs\<close>): the epoch
    record, the readers of the active generation and every way a generation comes in. The active
    epoch goes back only to that of a package an operator gave to the replacement door, under any sequence of
    operations with any faults.
  \<^item> \<open>Limits\<close> (\<open>src/package.rs\<close>), \<open>Zstd_Window\<close>, \<open>Tar_Framing\<close> and their \<open>_Correct\<close> theories
    (\<open>src/payload/outer.rs\<close>, \<open>src/payload/outer/framing.rs\<close>): the limit table, the guard over zstd frame
    windows, the tar framing with its pax scanner and the metered reader. The guard is shown to
    implement the frame format however its input is cut, the pax scanner to agree with a reader of
    whole records, and the meter never to deliver more than its limits.
  \<^item> \<open>Byte_Search\<close>, \<open>Executor\<close>, \<open>Executor_Bounded\<close>, \<open>Executor_Correct\<close> (\<open>src/executor.rs\<close>,
    \<open>src/executor/\<close>): the words and scripts commands are run through locally, over SSH and inside the
    daemon, and how what they wrote is told apart from what the transport wrote. A model of POSIX word
    splitting gives the remote command line its meaning. \<open>Executor_Runs\<close>, \<open>Executor_Channels\<close> and their
    \<open>_Correct\<close> theories: the loops around a child process, over a script of what the system answers turn
    by turn. Memory is bounded, runs end, a command within its limits is never cut, and a channel opens
    only on the announcement.
  \<^item> \<open>Render\<close>, \<open>Render_Correct\<close> (\<open>src/render.rs\<close>): the systemd unit of a module. The documented reader of
    unit files (comments, continued lines, trimming, quoting, separators, specifiers, expansions) recovers exactly
    what was declared, for values it leaves alone; a final backslash in a description and a lone semicolon among the
    arguments are the ones it does not, and are shown to change the unit.
  \<^item> \<open>Host_Disk\<close>, \<open>Executor_Files\<close>, \<open>Executor_Files_Correct\<close> (\<open>src/executor.rs\<close>, \<open>src/durability.rs\<close>): how files
    reach a host. A file system with names, inodes, failing calls and neighbours that write between any two
    calls; a logic of calls whose triples also speak of every view in between. A landing and a backup are
    seen not at all or whole.
  \<^item> \<open>Config_Template\<close> (\<open>src/config_template.rs\<close>): exactly when a configuration template renders.
  \<^item> \<open>Selfupdate_Contract\<close>, \<open>Selfupdate_Contract_Correct\<close> (\<open>src/roxyd_selfupdate_contract.rs\<close>): the files two
    programs hand each other around a self-update. Every record written is read back as it was.
  \<^item> \<open>Content\<close>, \<open>Json_Scan\<close> and their \<open>_Correct\<close> theories (\<open>src/content.rs\<close>, \<open>src/content/counting.rs\<close>,
    \<open>src/content/json.rs\<close>): the budgets and the counting reader all image content is read through, and the
    JSON scan. The scan accepts exactly the JSON grammar with distinct keys within a nesting limit.
  \<^item> \<open>Byte_Source\<close> holds the contract of a source: its abstract state says which bytes are still to come and how
    they end, each read hands on some of them. A counting reader over such a source is one again.
  \<^item> \<open>Tar_Header\<close>, \<open>Tar_Walker\<close>, \<open>Tar_Walker_Correct\<close>, \<open>Tar_Stream\<close>, \<open>Tar_Entries\<close>, \<open>Tar_Places\<close>,
    \<open>Tar_Sample\<close> (\<open>src/content/walker.rs\<close>): the
    walker over image archives and layers. The names an image admits form a tree; every call returns; it
    yields an entry exactly where the bytes behind the data and padding of the last hold one, and the end exactly at
    a blank tail; and nothing depends on how the bytes arrive.
  \<^item> \<open>Canonical_Manifest\<close> (\<open>src/image/canonical.rs\<close>), \<open>Image_Documents\<close> (\<open>src/image/archive/documents.rs\<close>),
    \<open>Gzip\<close> (\<open>src/content/gzip.rs\<close>), \<open>Image_Checks\<close>, \<open>Image_Archive\<close> (\<open>src/image/archive.rs\<close>): the validation of
    an image archive in its nine phases, the readers it stacks included. \<open>Archive_Sources\<close> shows those readers to
    be sources, \<open>Archive_Returns\<close> that every phase ends, and \<open>Image_Archive_Correct\<close> that an accepted archive is
    the image its declaration describes, byte for byte; \<open>Archive_Sample\<close> holds an archive.
  \<^bold>\<open>Bounds.\<close> Loops that depend on their input (\<open>guard_consume\<close>, \<open>framing_advance\<close>,
  \<open>refuse_extension\<close>) are partial functions into \<open>option\<close>, and theorems show they return. Symbolic links
  are followed \<open>MAX_LINK_HOPS\<close> = 40 times, the kernel's own bound. The generation counter is a \<open>u64\<close>
  that the code increments unchecked; the theorems about installing assume that the highest existing
  index is not the last one (\<open>index_left\<close>).

  \<^bold>\<open>Not modelled.\<close> The serde derives and the JSON parser, the cryptographic primitives, inflation, the zstd decoder
  and the tar reader of payloads (parameters). What a command does on the host it runs on. The layers that only
  compose modelled parts (\<open>apply\<close>, \<open>exec\<close>, \<open>bootroot_cmd\<close>, \<open>registration\<close>, \<open>package/contents\<close>), the update
  engine (\<open>engine\<close>), the X.509 checks of \<open>roxyd_trust\<close>, package preparation (\<open>package/prepare\<close> and its siblings) and
  the retention store (\<open>retain\<close>). Within the modelled parts: a payload is extracted to a directory without faults;
  the supervision of a child is a script of polls that return, and a kill is the call; a read is retried inside the
  source until it is not interrupted; and an allocation of a document does not fail.
  Test support, fixtures and examples.
\<close>

end
